(* ===== verification/Flexe_Prelude.thy ===== *)
theory Flexe_Prelude
  imports Main "HOL-Library.Word"
begin

text \<open>
  Shared vocabulary of the development: the machine-integer types of the C sources, the
  C operators on them that HOL does not have under one name, the collections of rewrite
  rules the component proofs use, and the generic facts on words, bit masks and function
  updates they share.
\<close>

unbundle bit_operations_syntax

section \<open>Types\<close>

type_synonym u8 = "8 word"
type_synonym u16 = "16 word"
type_synonym u32 = "32 word"
type_synonym u64 = "64 word"

abbreviation (input) UINT32_MAX :: u32 where
  "UINT32_MAX \<equiv> 0xFFFFFFFF"

section \<open>Collections\<close>

text \<open>
  \<open>frame\<close> holds the equations that say which state fields an operation leaves alone,
  \<open>bits\<close> the facts that read a field back from a packed word.
\<close>

named_theorems frame \<open>fields an operation does not change\<close>
named_theorems bits \<open>fields of packed words\<close>

section \<open>C operators\<close>

text \<open>\<open>(int32_t)x >= 0\<close> on a difference of counters, and its negation.\<close>

definition reached :: "u32 \<Rightarrow> u32 \<Rightarrow> bool" where
  "reached now at \<longleftrightarrow> 0 \<le> sint (now - at)"

text \<open>\<open>sign_extend\<close> of xtensa.h: mask to \<open>n\<close> bits, then flip and subtract the sign bit.\<close>

definition sign_extend :: "u32 \<Rightarrow> nat \<Rightarrow> u32" where
  "sign_extend val n =
     (let sign_bit = push_bit (n - 1) 1;
          v = val AND (push_bit 1 sign_bit - 1)
      in (v XOR sign_bit) - sign_bit)"

text \<open>\<open>cpu->br = (cpu->br & ~(1u << r)) | (val << r)\<close> and its like: write one bit.\<close>

definition put_bit :: "'a::len word \<Rightarrow> nat \<Rightarrow> bool \<Rightarrow> 'a word" where
  "put_bit w n b = (w AND NOT (push_bit n 1)) OR push_bit n (if b then 1 else 0)"

text \<open>Truncating division and remainder of C on \<open>int32_t\<close>.\<close>

definition c_div :: "int \<Rightarrow> int \<Rightarrow> int" where
  "c_div a b = sgn a * sgn b * (\<bar>a\<bar> div \<bar>b\<bar>)"

definition c_mod :: "int \<Rightarrow> int \<Rightarrow> int" where
  "c_mod a b = a - c_div a b * b"

text \<open>\<open>__builtin_clz\<close> on a non-zero 32-bit word: the index distance of the highest set bit.\<close>

fun clz_from :: "nat \<Rightarrow> u32 \<Rightarrow> nat" where
  "clz_from 0 w = 32"
| "clz_from (Suc n) w = (if bit w n then 31 - n else clz_from n w)"

definition builtin_clz :: "u32 \<Rightarrow> nat" where
  "builtin_clz w = clz_from 32 w"

section \<open>Generic facts\<close>

lemma bit_put_bit [bits]:
  "n < LENGTH('a) \<Longrightarrow> bit (put_bit (w :: 'a::len word) n b) k = (if k = n then b else bit w k)"
  by (auto simp: put_bit_def bit_simps dest: bit_imp_le_length)

lemma unat_and_mask_le [simp]: "unat (w AND 0xF :: u32) < 16"
  using word_and_le1 [of w "0xF"] by (simp add: word_le_nat_alt)

lemma and_mask_mod: "unat ((w :: 'a::len word) AND mask n) = unat w mod 2 ^ n"
  by (simp only: take_bit_eq_mask [symmetric] unsigned_take_bit_eq) (simp add: take_bit_eq_mod)

lemma bit_nat_less:
  assumes "bit (k :: nat) i" "k < 2 ^ n"
  shows "i < n"
proof (rule ccontr)
  assume "\<not> i < n"
  then have "k < 2 ^ i" using assms by (meson less_le_trans linorder_not_less one_le_numeral power_increasing)
  then show False using assms(1) by (simp add: bit_iff_odd)
qed

lemma bit_word_less: "bit (w :: 'a::len word) i \<Longrightarrow> unat w < 2 ^ n \<Longrightarrow> i < n"
  by (rule bit_nat_less [of "unat w"]) (simp_all add: bit_simps bit_imp_le_length)

lemma unat_less_bits:
  assumes "\<And>i. bit (w :: 'a::len word) i \<Longrightarrow> i < n"
  shows "unat w < 2 ^ n"
proof -
  have "take_bit n w = w" by (intro bit_word_eqI) (auto simp: bit_take_bit_iff dest: assms)
  then have "unat w = take_bit n (unat w)" by (metis unsigned_take_bit_eq)
  then show ?thesis by (metis take_bit_nat_less_exp)
qed

lemma and_zero_bitD: "a AND b = (0 :: 'a::len word) \<Longrightarrow> bit a i \<Longrightarrow> \<not> bit b i"
  by (metis bit_0_eq bit_and_iff bot_apply bot_bool_def)

lemma unat_and_3 [simp]: "unat (w AND 3 :: u32) < 4"
  using word_and_le1 [of w "3"] by (simp add: word_le_nat_alt)

lemma nibble_div4: "a < 16 \<Longrightarrow> a div 4 < (4 :: nat)"
  by (simp add: less_mult_imp_div_less)

lemma if_less: "a < n \<Longrightarrow> b < n \<Longrightarrow> (if Q then a else b) < (n :: nat)" by simp

text \<open>\<open>sign_extend\<close> is two's-complement sign extension.\<close>

lemma sign_extend_Suc:
  assumes "k < 32"
  shows "sign_extend v (Suc k) = signed_take_bit k v"
proof -
  let ?s = "push_bit k 1 :: u32" and ?y = "take_bit k v"
  have m: "push_bit 1 ?s - 1 = (mask (Suc k) :: u32)"
    by (simp add: mask_eq_exp_minus_1 push_bit_eq_mult mult.commute)
  have v: "v AND mask (Suc k) = ?y OR (if bit v k then ?s else 0)"
    using assms by (intro bit_word_eqI) (auto simp: bit_simps less_Suc_eq)
  have x: "(?y OR ?s) XOR ?s = ?y" by (intro bit_word_eqI) (auto simp: bit_simps)
  have "?y XOR ?s = ?y + ?s"
    by (subst disjunctive_add) (auto simp: bit_simps intro!: bit_word_eqI)
  moreover have "?y OR NOT (mask k) = ?y - ?s"
  proof -
    have "?y OR NOT (mask k) = ?y + NOT (mask k)"
      by (subst disjunctive_add) (auto simp: bit_simps)
    then show ?thesis by (simp add: minus_exp_eq_not_mask [symmetric] push_bit_eq_mult)
  qed
  moreover have "sign_extend v (Suc k) = ((?y OR (if bit v k then ?s else 0)) XOR ?s) - ?s"
    unfolding sign_extend_def Let_def diff_Suc_1 m v ..
  ultimately show ?thesis
    using x by (cases "bit v k") (simp_all add: signed_take_bit_def)
qed

lemma sign_extend_signed_take_bit:
  "0 < n \<Longrightarrow> n \<le> 32 \<Longrightarrow> sign_extend v n = signed_take_bit (n - 1) v"
  using sign_extend_Suc [of "n - 1" v] by simp

lemma sign_extend_16: "sign_extend (ucast (h :: u16)) 16 = scast h"
  unfolding sign_extend_signed_take_bit [of 16, simplified]
  by (rule bit_word_eqI) (auto simp: bit_simps min_def)

lemma sign_extend_sint:
  assumes "0 < n" "n \<le> 32"
  shows "sint (sign_extend v n) = signed_take_bit (n - 1) (uint v)"
proof -
  have "bit (sint (signed_take_bit (n - 1) v)) i = bit (signed_take_bit (n - 1) (uint v)) i" for i
    using assms by (auto simp: bit_simps min_def)
  then show ?thesis
    using assms by (simp add: sign_extend_signed_take_bit bit_eq_iff)
qed

text \<open>Window arithmetic modulo sixteen.\<close>

lemma and_15_id: "(w :: u32) < 16 \<Longrightarrow> w AND 15 = w"
proof -
  assume "w < 16"
  then have "unat w < 2 ^ 4" by (simp add: word_less_nat_alt)
  then have "unat (w AND mask 4) = unat w" unfolding and_mask_mod by simp
  then show ?thesis by (simp add: mask_eq_exp_minus_1 word_unat_eq_iff)
qed

lemma unat_and_15: "unat ((w :: u32) AND 15) = unat w mod 16"
  using and_mask_mod [of w 4] by (simp add: mask_eq_exp_minus_1)

lemma win_sub: "unat ((w - of_nat n) AND 15 :: u32) = nat ((int (unat w) - int n) mod 16)"
proof -
  have "int (unat (w - of_nat n :: u32) mod 16) = (uint w - uint (of_nat n :: u32)) mod 2 ^ 32 mod 16"
    by (simp add: zmod_int uint_word_ariths)
  also have "\<dots> = (uint w - uint (of_nat n :: u32)) mod 16" by (simp add: mod_mod_cancel)
  also have "uint (of_nat n :: u32) = int n mod 2 ^ 32" by (simp add: unsigned_of_nat take_bit_eq_mod zmod_int)
  also have "(uint w - int n mod 2 ^ 32) mod 16 = (uint w - int n) mod 16"
  proof -
    have "int n mod 2 ^ 32 mod 16 = int n mod 16" by (simp add: mod_mod_cancel)
    then show ?thesis by (metis mod_diff_right_eq)
  qed
  finally show ?thesis by (metis nat_int uint_nat unat_and_15)
qed

lemma unat_add_and_15: "unat ((w + of_nat n :: u32) AND 15) = (unat w + n) mod 16"
proof -
  have "unat (w + of_nat n) mod 16 = (unat w + unat (of_nat n :: u32)) mod 2 ^ 32 mod 16"
    by (simp add: unat_word_ariths)
  also have "\<dots> = (unat w + n mod 2 ^ 32) mod 16" by (simp add: mod_mod_cancel unat_of_nat)
  also have "\<dots> = (unat w + n) mod 16"
  proof -
    have "n mod 2 ^ 32 mod 16 = n mod 16" by (simp add: mod_mod_cancel)
    then show ?thesis by (metis mod_add_right_eq)
  qed
  finally show ?thesis by (simp add: unat_and_15)
qed

lemma rotated_bit:
  fixes ws :: u32
  assumes "j < 3" "s < 16"
  shows "bit (drop_bit s ((ws AND 0xFFFF) OR push_bit 16 (ws AND 0xFFFF)) AND 7) j
         \<longleftrightarrow> bit ws ((s + j) mod 16)"
proof -
  have m: "(0xFFFF :: u32) = mask 16" "(7 :: u32) = mask 3" by (simp_all add: mask_eq_exp_minus_1)
  show ?thesis
  proof (cases "s + j < 16")
    case True
    then show ?thesis using assms by (simp add: m bit_simps)
  next
    case False
    then obtain t where t: "s + j = t + 16" "t < 16" using assms by (intro that [of "s + j - 16"]) auto
    then show ?thesis using assms by (simp add: m bit_simps)
  qed
qed

lemma bit_low_mask: "n < 8 \<Longrightarrow> bit (push_bit n 1 - 1 :: u8) j \<longleftrightarrow> j < n"
  by (simp add: mask_eq_exp_minus_1 [symmetric] push_bit_eq_mult bit_simps) auto

lemma drop30_and3 [simp]: "drop_bit 30 (a :: u32) AND 3 = drop_bit 30 a"
proof -
  have "(3 :: u32) = mask 2" by (simp add: mask_eq_exp_minus_1)
  moreover have "drop_bit 30 a AND mask 2 = drop_bit 30 a"
    by (rule bit_word_eqI) (auto simp: bit_simps dest: bit_imp_le_length)
  ultimately show ?thesis by simp
qed

lemma of_nat_unat_eq: "unat (w :: u32) = n \<Longrightarrow> of_nat n = w"
  by auto

lemma add_word_max: "x + 4294967295 = (x :: u32) - 1"
  by (simp add: eq_diff_eq)

end
