(* ===== verification/Target.thy ===== *)
theory Target
  imports Flexe_Prelude
begin

text \<open>
  The target descriptor (src/src/target.h, src/src/target.c): the fields of
  \<open>flexe_target_desc_t\<close> that memory, the processor core and the flash MMU read, the two
  range predicates the interpreter relies on, and the descriptor of the classic ESP32.
  Descriptor fields that only peripherals outside this development read are left out.
\<close>

section \<open>Descriptor data\<close>

datatype flexe_target_id =
  FLEXE_TARGET_AUTO | FLEXE_TARGET_ESP32 | FLEXE_TARGET_ESP32S3

datatype flexe_mem_backing =
    FLEXE_MEM_SRAM | FLEXE_MEM_ROM | FLEXE_MEM_FLASH_DATA | FLEXE_MEM_FLASH_INSN
  | FLEXE_MEM_RTC_FAST | FLEXE_MEM_RTC_SLOW | FLEXE_MEM_PSRAM

record flexe_addr_range =
  range_start :: u32
  range_end :: u32

record flexe_target_mem_region =
  region_start :: u32
  region_end :: u32
  region_backing :: flexe_mem_backing
  region_offset :: u32

record flexe_flash_mmu_desc =
  mmu_page_size :: u32
  mmu_entry_count :: u16
  mmu_table_base0 :: u32
  mmu_table_base1 :: u32
  mmu_invalid_entry :: u32
  mmu_invalid_mask :: u32
  mmu_physical_page_mask :: u32
  mmu_target_mask :: u32
  mmu_shared_instruction_data :: bool

record flexe_rom_flash_desc =
  rf_live_data_address :: u32
  rf_pointer_symbol :: bool \<comment> \<open>a non-empty symbol name is present\<close>
  rf_struct_size :: u16
  rf_device_id_offset :: u16
  rf_chip_size_offset :: u16
  rf_block_size_offset :: u16
  rf_sector_size_offset :: u16
  rf_page_size_offset :: u16
  rf_status_mask_offset :: u16
  rf_block_size :: u32
  rf_sector_size :: u32
  rf_page_size :: u32
  rf_status_mask :: u32

record flexe_target_desc =
  t_descriptor_version :: u32
  t_id :: flexe_target_id
  t_rom_flash_handoff :: bool \<comment> \<open>the capability bit \<open>FLEXE_TARGET_CAP_ROM_FLASH_HANDOFF\<close>\<close>
  t_reset_vector :: u32
  t_vecbase_reset :: u32
  t_configid0 :: u32
  t_configid1 :: u32
  t_interrupt_level :: "nat list"
  t_default_cpu_frequency_mhz :: u32
  t_cpu_frequency_word :: u32
  t_drom_start :: u32
  t_drom_end :: u32
  t_irom_start :: u32
  t_irom_end :: u32
  t_flash_mmu :: flexe_flash_mmu_desc
  t_default_jedec_id :: u32
  t_maximum_flash_size :: u32
  t_rom_flash :: flexe_rom_flash_desc
  t_backing_size :: "flexe_mem_backing \<Rightarrow> u32"
  t_memory_region :: "flexe_target_mem_region list"
  t_peripheral_start :: u32
  t_peripheral_end :: u32
  t_peripheral_alias_start :: u32
  t_peripheral_alias_end :: u32
  t_peripheral_alias_delta :: int
  t_executable :: "flexe_addr_range list"

definition FLEXE_TARGET_DESCRIPTOR_VERSION :: u32 where
  "FLEXE_TARGET_DESCRIPTOR_VERSION = 69"

definition FLEXE_TARGET_EXEC_RANGE_MAX :: nat where
  "FLEXE_TARGET_EXEC_RANGE_MAX = 5"

definition FLEXE_TARGET_MEM_REGION_MAX :: nat where
  "FLEXE_TARGET_MEM_REGION_MAX = 10"

section \<open>Range queries\<close>

text \<open>The wrapped distance from the start of the range decides membership.\<close>

definition flexe_target_pc_is_executable :: "flexe_target_desc \<Rightarrow> u32 \<Rightarrow> bool" where
  "flexe_target_pc_is_executable t a \<longleftrightarrow>
     length (t_executable t) \<le> FLEXE_TARGET_EXEC_RANGE_MAX \<and>
     list_ex (\<lambda>r. range_start r < range_end r \<and>
                  a - range_start r < range_end r - range_start r) (t_executable t)"

definition flexe_target_range_uses_backing ::
  "flexe_target_desc \<Rightarrow> u32 \<Rightarrow> u32 \<Rightarrow> flexe_mem_backing \<Rightarrow> bool" where
  "flexe_target_range_uses_backing t addr sz b \<longleftrightarrow>
     (let e = unat addr + unat sz in
      length (t_memory_region t) \<le> FLEXE_TARGET_MEM_REGION_MAX \<and> e \<le> 2 ^ 32 \<and>
      list_ex (\<lambda>r. region_backing r = b \<and> region_start r \<le> addr \<and>
                   e \<le> unat (region_end r)) (t_memory_region t))"

section \<open>The classic ESP32\<close>

definition esp32_flash_mmu :: flexe_flash_mmu_desc where
  "esp32_flash_mmu = \<lparr>mmu_page_size = 0x10000, mmu_entry_count = 256,
     mmu_table_base0 = 0x3FF10000, mmu_table_base1 = 0x3FF12000,
     mmu_invalid_entry = 0x100, mmu_invalid_mask = 0x100, mmu_physical_page_mask = 0xFF,
     mmu_target_mask = 0, mmu_shared_instruction_data = False\<rparr>"

definition esp32_rom_flash :: flexe_rom_flash_desc where
  "esp32_rom_flash = \<lparr>rf_live_data_address = 0x3FFAE270, rf_pointer_symbol = False,
     rf_struct_size = 24, rf_device_id_offset = 0, rf_chip_size_offset = 4,
     rf_block_size_offset = 8, rf_sector_size_offset = 12, rf_page_size_offset = 16,
     rf_status_mask_offset = 20, rf_block_size = 0x10000, rf_sector_size = 0x1000,
     rf_page_size = 0x100, rf_status_mask = 0xFFFF\<rparr>"

definition mk_region :: "u32 \<Rightarrow> u32 \<Rightarrow> flexe_mem_backing \<Rightarrow> u32 \<Rightarrow> flexe_target_mem_region" where
  "mk_region a e b off =
     \<lparr>region_start = a, region_end = e, region_backing = b, region_offset = off\<rparr>"

fun esp32_backing_size :: "flexe_mem_backing \<Rightarrow> u32" where
  "esp32_backing_size FLEXE_MEM_SRAM = 0xB0000"
| "esp32_backing_size FLEXE_MEM_ROM = 0x80000"
| "esp32_backing_size FLEXE_MEM_FLASH_DATA = 0x400000"
| "esp32_backing_size FLEXE_MEM_FLASH_INSN = 0x400000"
| "esp32_backing_size FLEXE_MEM_RTC_FAST = 0x2000"
| "esp32_backing_size FLEXE_MEM_RTC_SLOW = 0x2000"
| "esp32_backing_size FLEXE_MEM_PSRAM = 0x400000"

definition esp32_regions :: "flexe_target_mem_region list" where
  "esp32_regions =
    [mk_region 0x3F400000 0x3F800000 FLEXE_MEM_FLASH_DATA 0,
     mk_region 0x3F800000 0x3FC00000 FLEXE_MEM_PSRAM 0,
     mk_region 0x3FF80000 0x3FF82000 FLEXE_MEM_RTC_FAST 0,
     mk_region 0x3FF90000 0x3FFA0000 FLEXE_MEM_ROM 0x70000,
     mk_region 0x3FFA0000 0x40000000 FLEXE_MEM_SRAM 0,
     mk_region 0x40000000 0x40070000 FLEXE_MEM_ROM 0,
     mk_region 0x40070000 0x400C0000 FLEXE_MEM_SRAM 0x60000,
     mk_region 0x400C0000 0x400C2000 FLEXE_MEM_RTC_FAST 0,
     mk_region 0x400D0000 0x40400000 FLEXE_MEM_FLASH_INSN 0,
     mk_region 0x50000000 0x50002000 FLEXE_MEM_RTC_SLOW 0]"

definition esp32_target :: flexe_target_desc where
  "esp32_target = \<lparr>
     t_descriptor_version = FLEXE_TARGET_DESCRIPTOR_VERSION,
     t_id = FLEXE_TARGET_ESP32,
     t_rom_flash_handoff = True,
     t_reset_vector = 0x40000400,
     t_vecbase_reset = 0x40000000,
     t_configid0 = 0xC2BCFFFE,
     t_configid1 = 0x1CC5FE96,
     t_interrupt_level =
       [1, 1, 1, 1, 1, 1, 1, 1, 1, 1, 1, 3, 1, 1, 7, 3,
        5, 1, 1, 2, 2, 2, 3, 3, 4, 4, 5, 3, 4, 3, 4, 5],
     t_default_cpu_frequency_mhz = 160,
     t_cpu_frequency_word = 0x3FFE01E0,
     t_drom_start = 0x3F400000,
     t_drom_end = 0x3F800000,
     t_irom_start = 0x400D0000,
     t_irom_end = 0x40400000,
     t_flash_mmu = esp32_flash_mmu,
     t_default_jedec_id = 0x001640C8,
     t_maximum_flash_size = 0x01000000,
     t_rom_flash = esp32_rom_flash,
     t_backing_size = esp32_backing_size,
     t_memory_region = esp32_regions,
     t_peripheral_start = 0x3FF00000,
     t_peripheral_end = 0x3FF80000,
     t_peripheral_alias_start = 0x60000000,
     t_peripheral_alias_end = 0x60040000,
     t_peripheral_alias_delta = - 0x200C0000,
     t_executable =
       [\<lparr>range_start = 0x40000000, range_end = 0x400C2000\<rparr>,
        \<lparr>range_start = 0x400D0000, range_end = 0x40C00000\<rparr>,
        \<lparr>range_start = 0x50000000, range_end = 0x50002000\<rparr>]\<rparr>"

section \<open>Facts\<close>

text \<open>The wrapped comparison is membership in the half-open interval.\<close>

lemma wrapped_range_iff:
  fixes a s e :: u32
  assumes "s < e"
  shows "a - s < e - s \<longleftrightarrow> s \<le> a \<and> a < e"
  using assms by unat_arith

lemma flexe_target_pc_is_executable_iff:
  "flexe_target_pc_is_executable t a \<longleftrightarrow>
     length (t_executable t) \<le> FLEXE_TARGET_EXEC_RANGE_MAX \<and>
     (\<exists>r \<in> set (t_executable t). range_start r \<le> a \<and> a < range_end r)"
proof -
  have "(range_start r < range_end r \<and> a - range_start r < range_end r - range_start r)
        \<longleftrightarrow> (range_start r \<le> a \<and> a < range_end r)" for r :: flexe_addr_range
    using wrapped_range_iff [of "range_start r" "range_end r" a]
    by (meson order.strict_trans1)
  then show ?thesis
    by (auto simp: flexe_target_pc_is_executable_def list_ex_iff)
qed

end
