(* ===== verification/Memory.thy ===== *)
theory Memory
  imports Target
begin

text \<open>
  The memory subsystem of src/src/memory.c and src/src/memory.h, as far as it needs no
  callback: host backings, the 4 KiB load and store page tables, the bookkeeping of pages
  that hold translated code, bulk loads, MMIO registration and lookup, creation from a
  target descriptor, and the speculative-write journal. The access functions that may reach a device or a
  code watcher act on the processor state and are in theory Bus.

  Correspondence. \<open>xmem\<close> is \<open>struct xtensa_mem\<close>. A host pointer is a buffer and an offset
  (\<open>hptr\<close>): the seven backings of the target, or a scratch page an embedder installs with
  \<open>mem_page_set\<close>; \<open>hbytes\<close> is the content of these buffers, so guest aliases of one backing
  share bytes as in the C program. A function pointer with its context is a pair of numbers
  the environment interprets. Allocation is assumed to succeed. The fields behind
  \<open>FLEXE_WATCH\<close>-style tracing are left out: they only print.
\<close>

section \<open>State\<close>

datatype hbuf = Backing flexe_mem_backing | Scratch nat

type_synonym hptr = "hbuf \<times> nat"

record mmio_handler =
  mh_read :: "nat option"
  mh_write :: "nat option"
  mh_masked_write :: "nat option"
  mh_ctx :: nat

datatype mem_code_kind = MEM_CODE_PREDECODE | MEM_CODE_JIT

text \<open>The only watch function of the program is \<open>xtensa_code_modified\<close>; its context says
  whose caches it drops: those of the core that stores, or those of another core.\<close>

datatype code_watcher = Watch_Self | Watch_Peer nat

record code_page =
  cp_chunks :: "nat \<Rightarrow> nat \<Rightarrow> u64"
  cp_exec_page :: "u32 list"
  cp_diverted :: bool

record mem_code_state =
  cs_pages :: "flexe_mem_backing \<Rightarrow> (nat \<Rightarrow> code_page) option"
  cs_watch :: "code_watcher list"

record xmem =
  m_target :: flexe_target_desc
  backing_size :: "flexe_mem_backing \<Rightarrow> u32"
  hbytes :: "hbuf \<Rightarrow> nat \<Rightarrow> u8"
  flash_usable_size :: u32
  mmio :: "nat \<Rightarrow> mmio_handler"
  mmio_page_count :: nat
  unmapped_count :: nat
  unmapped_first :: u32
  code_state :: "mem_code_state option"
  page_table :: "u32 \<Rightarrow> hptr option"
  write_page_table :: "u32 \<Rightarrow> hptr option"
  journal_en :: bool
  journal_unsafe :: bool
  journal :: "(u32 \<times> u32) list"

definition PAGE_SIZE :: nat where "PAGE_SIZE = 4096"
definition MEM_PAGE_TABLE_SIZE :: u32 where "MEM_PAGE_TABLE_SIZE = 0x100000"
definition MEM_JOURNAL_MAX :: nat where "MEM_JOURNAL_MAX = 8192"
definition CODE_EXEC_ALIASES :: nat where "CODE_EXEC_ALIASES = 2"
definition CODE_WATCH_MAX :: nat where "CODE_WATCH_MAX = 4"

section \<open>Host buffers\<close>

definition hsize :: "xmem \<Rightarrow> hbuf \<Rightarrow> nat" where
  "hsize m b = (case b of Backing k \<Rightarrow> unat (backing_size m k) | Scratch _ \<Rightarrow> PAGE_SIZE)"

text \<open>\<open>memcpy\<close> out of and into a host buffer, and the little-endian packing of the hosts the
  program supports.\<close>

definition host_read :: "xmem \<Rightarrow> hptr \<Rightarrow> nat \<Rightarrow> u8 list" where
  "host_read m p n = map (\<lambda>i. hbytes m (fst p) (snd p + i)) [0 ..< n]"

definition host_write :: "xmem \<Rightarrow> hptr \<Rightarrow> u8 list \<Rightarrow> xmem" where
  "host_write m p bs =
     m\<lparr>hbytes := (hbytes m)(fst p := (\<lambda>i. if snd p \<le> i \<and> i < snd p + length bs
                                          then bs ! (i - snd p) else hbytes m (fst p) i))\<rparr>"

fun of_bytes :: "u8 list \<Rightarrow> 'a::len word" where
  "of_bytes [] = 0"
| "of_bytes (b # bs) = ucast b OR push_bit 8 (of_bytes bs)"

definition to_bytes :: "nat \<Rightarrow> 'a::len word \<Rightarrow> u8 list" where
  "to_bytes n w = map (\<lambda>i. ucast (drop_bit (8 * i) w)) [0 ..< n]"

text \<open>An access of \<open>n\<close> bytes stays inside its buffer.\<close>

definition host_in :: "xmem \<Rightarrow> hptr \<Rightarrow> nat \<Rightarrow> bool" where
  "host_in m p n \<longleftrightarrow> snd p + n \<le> hsize m (fst p)"

definition hptr_add :: "hptr \<Rightarrow> nat \<Rightarrow> hptr" where
  "hptr_add p n = (fst p, snd p + n)"

definition page_of :: "u32 \<Rightarrow> u32" where
  "page_of addr = drop_bit 12 addr"

definition page_off :: "u32 \<Rightarrow> nat" where
  "page_off addr = unat (addr AND 0xFFF)"

definition mem_get_ptr :: "xmem \<Rightarrow> u32 \<Rightarrow> hptr option" where
  "mem_get_ptr m addr = map_option (\<lambda>p. hptr_add p (page_off addr)) (page_table m (page_of addr))"

definition mem_get_ptr_w :: "xmem \<Rightarrow> u32 \<Rightarrow> hptr option" where
  "mem_get_ptr_w m addr = map_option (\<lambda>p. hptr_add p (page_off addr)) (page_table m (page_of addr))"

definition mem_get_ptr_store :: "xmem \<Rightarrow> u32 \<Rightarrow> hptr option" where
  "mem_get_ptr_store m addr =
     map_option (\<lambda>p. hptr_add p (page_off addr)) (write_page_table m (page_of addr))"

section \<open>Pages that hold translated code\<close>

definition backing_slot :: "xmem \<Rightarrow> flexe_mem_backing \<Rightarrow> hptr option" where
  "backing_slot m b = (if backing_size m b = 0 then None else Some (Backing b, 0))"

definition code_backings :: "flexe_mem_backing list" where
  "code_backings = [FLEXE_MEM_SRAM, FLEXE_MEM_RTC_FAST, FLEXE_MEM_RTC_SLOW, FLEXE_MEM_PSRAM]"

fun code_kind_index :: "mem_code_kind \<Rightarrow> nat" where
  "code_kind_index MEM_CODE_JIT = 1"
| "code_kind_index MEM_CODE_PREDECODE = 0"

definition empty_code_page :: code_page where
  "empty_code_page = \<lparr>cp_chunks = (\<lambda>_ _. 0), cp_exec_page = [], cp_diverted = False\<rparr>"

definition empty_code_state :: mem_code_state where
  "empty_code_state = \<lparr>cs_pages = (\<lambda>_. None), cs_watch = []\<rparr>"

text \<open>The writable backing page a host pointer lies in: its backing and page number.\<close>

definition code_page_loc :: "xmem \<Rightarrow> hptr \<Rightarrow> (flexe_mem_backing \<times> nat) option" where
  "code_page_loc m host =
     (case fst host of
        Backing b \<Rightarrow>
          if b \<in> set code_backings \<and> backing_slot m b \<noteq> None
             \<and> snd host < unat (backing_size m b)
          then Some (b, snd host div PAGE_SIZE) else None
      | Scratch _ \<Rightarrow> None)"

text \<open>\<open>code_page_for_host\<close> returns a pointer into \<open>mem->code->pages\<close>: here the location of
  the entry, with the arrays allocated where \<open>create\<close> asks for it.\<close>

definition code_page_for_host ::
  "xmem \<Rightarrow> hptr \<Rightarrow> bool \<Rightarrow> (flexe_mem_backing \<times> nat) option \<times> xmem" where
  "code_page_for_host m host create =
     (case code_page_loc m host of
        None \<Rightarrow> (None, m)
      | Some (b, i) \<Rightarrow>
          (if code_state m = None \<and> \<not> create then (None, m)
           else
             let s = (case code_state m of None \<Rightarrow> empty_code_state | Some s \<Rightarrow> s);
                 m1 = m\<lparr>code_state := Some s\<rparr>
             in case cs_pages s b of
                  Some _ \<Rightarrow> (Some (b, i), m1)
                | None \<Rightarrow>
                    if \<not> create then (None, m1)
                    else (Some (b, i),
                          m1\<lparr>code_state :=
                            Some (s\<lparr>cs_pages := (cs_pages s)(b := Some (\<lambda>_. empty_code_page))\<rparr>)\<rparr>)))"

definition code_page_at :: "xmem \<Rightarrow> flexe_mem_backing \<times> nat \<Rightarrow> code_page" where
  "code_page_at m l =
     (case code_state m of None \<Rightarrow> empty_code_page
      | Some s \<Rightarrow> (case cs_pages s (fst l) of None \<Rightarrow> empty_code_page | Some f \<Rightarrow> f (snd l)))"

definition code_page_put :: "xmem \<Rightarrow> flexe_mem_backing \<times> nat \<Rightarrow> code_page \<Rightarrow> xmem" where
  "code_page_put m l pg =
     (case code_state m of None \<Rightarrow> m
      | Some s \<Rightarrow>
          (case cs_pages s (fst l) of None \<Rightarrow> m
           | Some f \<Rightarrow>
               m\<lparr>code_state := Some (s\<lparr>cs_pages := (cs_pages s)(fst l := Some (f(snd l := pg)))\<rparr>)\<rparr>))"

definition host_page_diverted :: "xmem \<Rightarrow> hptr option \<Rightarrow> bool" where
  "host_page_diverted m host =
     (case (code_state m, host) of
        (Some _, Some h) \<Rightarrow>
          (case fst (code_page_for_host m h False) of
             None \<Rightarrow> False
           | Some l \<Rightarrow> cp_diverted (code_page_at m l))
      | _ \<Rightarrow> False)"

definition mem_page_set :: "xmem \<Rightarrow> u32 \<Rightarrow> hptr option \<Rightarrow> xmem" where
  "mem_page_set m idx host =
     (if MEM_PAGE_TABLE_SIZE \<le> idx then m
      else m\<lparr>page_table := (page_table m)(idx := host),
             write_page_table :=
               (write_page_table m)(idx := if host_page_diverted m host then None else host)\<rparr>)"

definition page_table_map :: "xmem \<Rightarrow> u32 \<Rightarrow> u32 \<Rightarrow> hptr \<Rightarrow> xmem" where
  "page_table_map m base e host =
     fold (\<lambda>k m. mem_page_set m (page_of (base + of_nat (k * PAGE_SIZE)))
                               (Some (hptr_add host (k * PAGE_SIZE))))
       [0 ..< (unat e - unat base + PAGE_SIZE - 1) div PAGE_SIZE] m"

definition code_divert_scan :: "xmem \<Rightarrow> xmem" where
  "code_divert_scan m =
     m\<lparr>write_page_table :=
        (\<lambda>i. if i < MEM_PAGE_TABLE_SIZE \<and> host_page_diverted m (write_page_table m i)
             then None else write_page_table m i)\<rparr>"

definition chunk_range_any :: "(nat \<Rightarrow> u64) \<Rightarrow> nat \<Rightarrow> nat \<Rightarrow> bool" where
  "chunk_range_any words c0 c1 =
     list_ex (\<lambda>c. bit (words (c div 64)) (c mod 64)) [c0 ..< Suc c1]"

definition mark_chunks :: "(nat \<Rightarrow> u64) \<Rightarrow> nat \<Rightarrow> nat \<Rightarrow> (nat \<Rightarrow> u64)" where
  "mark_chunks words c0 c1 =
     fold (\<lambda>c w. w(c div 64 := w (c div 64) OR push_bit (c mod 64) 1)) [c0 ..< Suc c1] words"

text \<open>
  The page loops of \<open>mem_code_protect\<close> and \<open>mem_code_modified\<close> cut \<open>[a, e)\<close> at the guest
  page boundaries: start, end and page base of each piece, in the order of the loop.
\<close>

function page_segments :: "nat \<Rightarrow> nat \<Rightarrow> (nat \<times> nat \<times> nat) list" where
  "page_segments a e =
     (if a < e then
        let page_base = a - a mod PAGE_SIZE; page_end = page_base + PAGE_SIZE
        in (a, min e page_end, page_base) # page_segments page_end e
      else [])"
  by pat_completeness auto
termination
proof (relation "measure (\<lambda>(a, e). e - a)", goal_cases)
  case (2 a e page_base page_end)
  have "a mod PAGE_SIZE < PAGE_SIZE" by (simp add: PAGE_SIZE_def)
  with 2 show ?case by simp
qed simp

declare page_segments.simps [simp del]

text \<open>One iteration of the loop of \<open>mem_code_protect\<close>: \<open>[a, hi)\<close> lies in one guest page.\<close>

definition code_protect_page :: "xmem \<Rightarrow> nat \<Rightarrow> nat \<Rightarrow> nat \<Rightarrow> nat \<Rightarrow> bool \<Rightarrow> xmem \<times> bool" where
  "code_protect_page m k a hi page_base scan =
     (case page_table m (page_of (of_nat a)) of
        None \<Rightarrow> (m, scan)
      | Some host \<Rightarrow>
          (case code_page_for_host m host True of
             (None, m1) \<Rightarrow> (m1, scan)
           | (Some l, m1) \<Rightarrow>
               let pg = code_page_at m1 l;
                   pb = (of_nat page_base :: u32);
                   known = list_ex (\<lambda>x. x = pb) (cp_exec_page pg);
                   execs = (if \<not> known \<and> length (cp_exec_page pg) < CODE_EXEC_ALIASES
                            then cp_exec_page pg @ [pb] else cp_exec_page pg);
                   c0 = (a - page_base) div 32;
                   c1 = (hi - 1 - page_base) div 32;
                   chunks = (cp_chunks pg)(k := mark_chunks (cp_chunks pg k) c0 c1)
               in (code_page_put m1 l (pg\<lparr>cp_exec_page := execs, cp_chunks := chunks,
                                          cp_diverted := True\<rparr>),
                   scan \<or> \<not> cp_diverted pg)))"

definition code_protect_loop :: "xmem \<Rightarrow> nat \<Rightarrow> nat \<Rightarrow> nat \<Rightarrow> bool \<Rightarrow> xmem \<times> bool" where
  "code_protect_loop m k a e scan =
     fold (\<lambda>(a, hi, page_base) (m, scan). code_protect_page m k a hi page_base scan)
       (page_segments a e) (m, scan)"

definition mem_code_protect :: "xmem \<Rightarrow> u32 \<Rightarrow> u32 \<Rightarrow> mem_code_kind \<Rightarrow> xmem" where
  "mem_code_protect m exec_addr len kind =
     (if len = 0 then m
      else
        let (m1, scan) = code_protect_loop m (code_kind_index kind) (unat exec_addr)
                           (unat exec_addr + unat len) False
        in if scan then code_divert_scan m1 else m1)"

definition mem_code_clear :: "xmem \<Rightarrow> mem_code_kind \<Rightarrow> xmem" where
  "mem_code_clear m kind =
     (case code_state m of
        None \<Rightarrow> m
      | Some s \<Rightarrow>
          m\<lparr>code_state := Some (s\<lparr>cs_pages := (\<lambda>b.
              case cs_pages s b of
                None \<Rightarrow> None
              | Some f \<Rightarrow> Some (\<lambda>p.
                  if p < (unat (backing_size m b) + PAGE_SIZE - 1) div PAGE_SIZE
                  then (f p)\<lparr>cp_chunks := (cp_chunks (f p))(code_kind_index kind := (\<lambda>_. 0))\<rparr>
                  else f p))\<rparr>)\<rparr>)"

definition mem_code_watch_add :: "xmem \<Rightarrow> code_watcher \<Rightarrow> int \<times> xmem" where
  "mem_code_watch_add m w =
     (let s = (case code_state m of None \<Rightarrow> empty_code_state | Some s \<Rightarrow> s);
          m1 = m\<lparr>code_state := Some s\<rparr>
      in if w \<in> set (cs_watch s) then (0, m1)
         else if CODE_WATCH_MAX \<le> length (cs_watch s) then (-1, m1)
         else (0, m1\<lparr>code_state := Some (s\<lparr>cs_watch := cs_watch s @ [w]\<rparr>)\<rparr>))"

text \<open>\<open>watch[i] = watch[--watch_count]\<close>: the last entry moves into the gap.\<close>

fun swap_remove :: "('a \<Rightarrow> bool) \<Rightarrow> 'a list \<Rightarrow> 'a list option" where
  "swap_remove P [] = None"
| "swap_remove P (x # xs) =
     (if P x then Some (if xs = [] then [] else last xs # butlast xs)
      else map_option ((#) x) (swap_remove P xs))"

definition mem_code_watch_remove :: "xmem \<Rightarrow> code_watcher \<Rightarrow> xmem" where
  "mem_code_watch_remove m w =
     (case code_state m of
        None \<Rightarrow> m
      | Some s \<Rightarrow>
          (case swap_remove (\<lambda>x. x = w) (cs_watch s) of
             None \<Rightarrow> m
           | Some ws \<Rightarrow> m\<lparr>code_state := Some (s\<lparr>cs_watch := ws\<rparr>)\<rparr>))"

section \<open>Mapping backings\<close>

definition mem_map_backing_range ::
  "xmem \<Rightarrow> u32 \<Rightarrow> flexe_mem_backing \<Rightarrow> u32 \<Rightarrow> u32 \<Rightarrow> int \<times> xmem" where
  "mem_map_backing_range m vaddr b off sz =
     (if sz = 0 \<or> (vaddr OR off OR sz) AND 0xFFF \<noteq> 0 \<or> UINT32_MAX - (sz - 1) < vaddr
      then (-1, m)
      else case backing_slot m b of
          None \<Rightarrow> (-1, m)
        | Some host \<Rightarrow>
            if backing_size m b < off \<or> backing_size m b - off < sz then (-1, m)
            else (0, fold (\<lambda>k m. mem_page_set m (page_of (vaddr + of_nat (k * PAGE_SIZE)))
                                  (Some (hptr_add host (unat off + k * PAGE_SIZE))))
                       [0 ..< unat sz div PAGE_SIZE] m))"

definition mem_unmap_range :: "xmem \<Rightarrow> u32 \<Rightarrow> u32 \<Rightarrow> int \<times> xmem" where
  "mem_unmap_range m vaddr sz =
     (if sz = 0 \<or> (vaddr OR sz) AND 0xFFF \<noteq> 0 \<or> UINT32_MAX - (sz - 1) < vaddr
      then (-1, m)
      else (0, fold (\<lambda>k m. mem_page_set m (page_of (vaddr + of_nat (k * PAGE_SIZE))) None)
                 [0 ..< unat sz div PAGE_SIZE] m))"

section \<open>MMIO registration and lookup\<close>

definition translate_peripheral_alias :: "xmem \<Rightarrow> u32 \<Rightarrow> u32" where
  "translate_peripheral_alias m addr =
     (let t = m_target m in
      if t_peripheral_alias_start t \<le> addr \<and> addr < t_peripheral_alias_end t
      then word_of_int (uint addr + t_peripheral_alias_delta t) else addr)"

definition mmio_lookup :: "xmem \<Rightarrow> u32 \<Rightarrow> mmio_handler option" where
  "mmio_lookup m addr =
     (let t = m_target m; x = translate_peripheral_alias m addr in
      if t_peripheral_start t \<le> x \<and> x < t_peripheral_end t
      then let h = mmio m (unat (x - t_peripheral_start t) div PAGE_SIZE)
           in if mh_read h \<noteq> None \<or> mh_write h \<noteq> None then Some h else None
      else None)"

definition note_unmapped :: "xmem \<Rightarrow> u32 \<Rightarrow> xmem" where
  "note_unmapped m addr =
     m\<lparr>unmapped_count := min (unmapped_count m + 1) (2 ^ 64 - 1),
       unmapped_first := if unmapped_first m = 0 then addr else unmapped_first m\<rparr>"

definition mem_register_mmio ::
  "xmem \<Rightarrow> int \<Rightarrow> nat option \<Rightarrow> nat option \<Rightarrow> nat \<Rightarrow> int \<times> xmem" where
  "mem_register_mmio m page read_fn write_fn ctx =
     (if page < 0 \<or> int (mmio_page_count m) \<le> page then (-1, m)
      else (0, m\<lparr>mmio := (mmio m)(nat page :=
             \<lparr>mh_read = read_fn, mh_write = write_fn, mh_masked_write = None,
              mh_ctx = ctx\<rparr>)\<rparr>))"

definition mem_register_mmio_masked ::
  "xmem \<Rightarrow> int \<Rightarrow> nat option \<Rightarrow> nat option \<Rightarrow> nat \<Rightarrow> int \<times> xmem" where
  "mem_register_mmio_masked m page read_fn write_fn ctx =
     (if page < 0 \<or> int (mmio_page_count m) \<le> page then (-1, m)
      else (0, m\<lparr>mmio := (mmio m)(nat page :=
             \<lparr>mh_read = read_fn, mh_write = None, mh_masked_write = write_fn,
              mh_ctx = ctx\<rparr>)\<rparr>))"

definition mmio_range_pages :: "xmem \<Rightarrow> u32 \<Rightarrow> u32 \<Rightarrow> (nat \<times> nat) option" where
  "mmio_range_pages m base sz =
     (let t = m_target m in
      if sz = 0 \<or> base < t_peripheral_start t \<or> t_peripheral_end t \<le> base
         \<or> t_peripheral_end t - base < sz
      then None
      else let first_offset = base - t_peripheral_start t;
               last_offset = first_offset + sz - 1;
               start_page = unat first_offset div PAGE_SIZE
           in Some (start_page, unat last_offset div PAGE_SIZE - start_page + 1))"

definition mem_register_mmio_masked_range ::
  "xmem \<Rightarrow> u32 \<Rightarrow> u32 \<Rightarrow> nat option \<Rightarrow> nat option \<Rightarrow> nat \<Rightarrow> int \<times> xmem" where
  "mem_register_mmio_masked_range m base sz read_fn write_fn ctx =
     (case mmio_range_pages m base sz of
        None \<Rightarrow> (-1, m)
      | Some (start_page, num_pages) \<Rightarrow>
          (0, fold (\<lambda>i m. snd (mem_register_mmio_masked m (int (start_page + i))
                                read_fn write_fn ctx)) [0 ..< num_pages] m))"

definition mem_register_mmio_range ::
  "xmem \<Rightarrow> u32 \<Rightarrow> u32 \<Rightarrow> nat option \<Rightarrow> nat option \<Rightarrow> nat \<Rightarrow> int \<times> xmem" where
  "mem_register_mmio_range m base sz read_fn write_fn ctx =
     (case mmio_range_pages m base sz of
        None \<Rightarrow> (-1, m)
      | Some (start_page, num_pages) \<Rightarrow>
          (0, fold (\<lambda>i m. snd (mem_register_mmio m (int (start_page + i))
                                read_fn write_fn ctx)) [0 ..< num_pages] m))"

section \<open>Loading images\<close>

fun mem_load :: "xmem \<Rightarrow> u32 \<Rightarrow> u8 list \<Rightarrow> int \<times> xmem" where
  "mem_load m addr [] = (0, m)"
| "mem_load m addr (b # bs) =
     (case page_table m (page_of addr) of
        None \<Rightarrow> (-1, m)
      | Some p \<Rightarrow> mem_load (host_write m (hptr_add p (page_off addr)) [b]) (addr + 1) bs)"

definition mem_flash_physical_size :: "xmem \<Rightarrow> u32" where
  "mem_flash_physical_size m =
     min (backing_size m FLEXE_MEM_FLASH_INSN) (backing_size m FLEXE_MEM_FLASH_DATA)"

definition mem_load_flash :: "xmem \<Rightarrow> u8 list \<Rightarrow> int \<times> xmem" where
  "mem_load_flash m data =
     (let bs = take (unat (mem_flash_physical_size m)) data
      in (0, host_write (host_write m (Backing FLEXE_MEM_FLASH_DATA, 0) bs)
                        (Backing FLEXE_MEM_FLASH_INSN, 0) bs))"

section \<open>Flash geometry handed to the ROM\<close>

definition is_power_of_two :: "u32 \<Rightarrow> bool" where
  "is_power_of_two v \<longleftrightarrow> v \<noteq> 0 \<and> v AND (v - 1) = 0"

definition rom_flash_desc_valid :: "flexe_target_desc \<Rightarrow> bool" where
  "rom_flash_desc_valid t =
     (\<not> t_rom_flash_handoff t \<or>
      (let d = t_rom_flash t;
           offsets = [rf_device_id_offset d, rf_chip_size_offset d, rf_block_size_offset d,
                      rf_sector_size_offset d, rf_page_size_offset d, rf_status_mask_offset d]
       in \<not> ((rf_live_data_address d = 0) = (\<not> rf_pointer_symbol d)) \<and>
          24 \<le> rf_struct_size d \<and> rf_block_size d \<noteq> 0 \<and> rf_sector_size d \<noteq> 0 \<and>
          rf_page_size d \<noteq> 0 \<and>
          list_all (\<lambda>off. off AND 3 = 0 \<and> off \<le> rf_struct_size d - 4) offsets))"

fun log2_loop :: "nat \<Rightarrow> u32 \<Rightarrow> nat \<Rightarrow> nat" where
  "log2_loop 0 sz cap = cap"
| "log2_loop (Suc n) sz cap = (if 1 < sz then log2_loop n (drop_bit 1 sz) (Suc cap) else cap)"

definition mem_flash_jedec_id :: "xmem \<Rightarrow> u32" where
  "mem_flash_jedec_id m =
     (let ident = t_default_jedec_id (m_target m); sz = mem_flash_physical_size m in
      if \<not> is_power_of_two sz then ident
      else (ident AND 0xFFFF) OR push_bit 16 (of_nat (log2_loop 32 sz 0) AND 0xFF))"

definition mem_flash_rom_device_id :: "xmem \<Rightarrow> u32" where
  "mem_flash_rom_device_id m =
     (let wire = mem_flash_jedec_id m in
      push_bit 16 (wire AND 0xFF) OR (wire AND 0xFF00) OR drop_bit 16 (wire AND 0xFF0000))"

text \<open>A 32-bit store to mapped RAM before any code is translated or device registered: both
  store tables agree there and an unmapped store is dropped.\<close>

definition boot_write32 :: "xmem \<Rightarrow> u32 \<Rightarrow> u32 \<Rightarrow> xmem" where
  "boot_write32 m addr v =
     (case mem_get_ptr_store m addr of None \<Rightarrow> m | Some p \<Rightarrow> host_write m p (to_bytes 4 v))"

definition boot_write8 :: "xmem \<Rightarrow> u32 \<Rightarrow> u8 \<Rightarrow> xmem" where
  "boot_write8 m addr v =
     (case mem_get_ptr_store m addr of None \<Rightarrow> m | Some p \<Rightarrow> host_write m p [v])"

definition mem_prepare_rom_flash :: "xmem \<Rightarrow> u32 \<Rightarrow> u32 \<Rightarrow> int \<times> xmem" where
  "mem_prepare_rom_flash m live usable0 =
     (let t = m_target m; d = t_rom_flash t; physical = mem_flash_physical_size m;
          usable = (if usable0 = 0 then physical else usable0);
          sz = ucast (rf_struct_size d) :: u32
      in if \<not> rom_flash_desc_valid t \<or> \<not> t_rom_flash_handoff t \<or>
            \<not> is_power_of_two usable \<or> physical < usable \<or> live = 0 \<or>
            (rf_live_data_address d \<noteq> 0 \<and> live \<noteq> rf_live_data_address d) \<or>
            \<not> flexe_target_range_uses_backing t live sz FLEXE_MEM_SRAM \<or>
            mem_get_ptr_w m live = None \<or> mem_get_ptr_w m (live + sz - 1) = None
         then (-1, m)
         else
           let m1 = boot_write32 m (live + ucast (rf_device_id_offset d)) (mem_flash_rom_device_id m);
               m2 = boot_write32 m1 (live + ucast (rf_chip_size_offset d)) usable;
               m3 = boot_write32 m2 (live + ucast (rf_block_size_offset d)) (rf_block_size d);
               m4 = boot_write32 m3 (live + ucast (rf_sector_size_offset d)) (rf_sector_size d);
               m5 = boot_write32 m4 (live + ucast (rf_page_size_offset d)) (rf_page_size d);
               m6 = boot_write32 m5 (live + ucast (rf_status_mask_offset d)) (rf_status_mask d)
           in (0, m6\<lparr>flash_usable_size := usable\<rparr>))"

section \<open>Creation\<close>

text \<open>\<open>esp32_rom_ctype\<close>: the newlib classification bits of one character.\<close>

definition esp32_rom_ctype :: "nat \<Rightarrow> u8" where
  "esp32_rom_ctype ch =
     (if ch < 0x20 then 0x20 OR (if 9 \<le> ch \<and> ch \<le> 13 then 0x08 else 0)
      else if ch = 0x20 then 0x08 OR 0x80
      else if 48 \<le> ch \<and> ch \<le> 57 then 0x04
      else if 65 \<le> ch \<and> ch \<le> 90 then 0x01 OR (if ch \<le> 70 then 0x40 else 0)
      else if 97 \<le> ch \<and> ch \<le> 122 then 0x02 OR (if ch \<le> 102 then 0x40 else 0)
      else if 0x21 \<le> ch \<and> ch \<le> 0x7E then 0x10
      else if ch = 0x7F then 0x20
      else 0)"

definition init_builtin_rom_data :: "xmem \<Rightarrow> xmem" where
  "init_builtin_rom_data m =
     (let m1 = boot_write32 m 0x3FF96350 0x3FF96354;
          m2 = boot_write8 m1 0x3FF96354 0
      in fold (\<lambda>ch m. boot_write8 m (0x3FF96354 + 1 + of_nat ch) (esp32_rom_ctype ch))
           [0 ..< 256] m2)"

fun page_table_init :: "xmem \<Rightarrow> flexe_target_mem_region list \<Rightarrow> xmem option" where
  "page_table_init m [] = Some m"
| "page_table_init m (r # rs) =
     (case backing_slot m (region_backing r) of
        None \<Rightarrow> None
      | Some slot \<Rightarrow>
          if region_end r \<le> region_start r \<or> region_start r AND 0xFFF \<noteq> 0 \<or>
             region_end r AND 0xFFF \<noteq> 0 \<or> region_offset r AND 0xFFF \<noteq> 0 \<or>
             backing_size m (region_backing r) < region_offset r \<or>
             backing_size m (region_backing r) - region_offset r < region_end r - region_start r
          then None
          else page_table_init
                 (page_table_map m (region_start r) (region_end r)
                    (hptr_add slot (unat (region_offset r)))) rs)"

definition no_handler :: mmio_handler where
  "no_handler = \<lparr>mh_read = None, mh_write = None, mh_masked_write = None, mh_ctx = 0\<rparr>"

definition mem_create_for_target_with_flash ::
  "flexe_target_desc \<Rightarrow> u32 \<Rightarrow> xmem option" where
  "mem_create_for_target_with_flash t required =
     (let base = max (t_backing_size t FLEXE_MEM_FLASH_DATA) (t_backing_size t FLEXE_MEM_FLASH_INSN);
          flash_size = (if base < required then required else base)
      in if t_descriptor_version t \<noteq> FLEXE_TARGET_DESCRIPTOR_VERSION \<or>
            t_peripheral_end t \<le> t_peripheral_start t \<or>
            t_peripheral_start t AND 0xFFF \<noteq> 0 \<or> t_peripheral_end t AND 0xFFF \<noteq> 0 \<or>
            \<not> rom_flash_desc_valid t \<or>
            \<not> is_power_of_two flash_size \<or> (required \<noteq> 0 \<and> \<not> is_power_of_two required) \<or>
            t_maximum_flash_size t < flash_size \<or> \<not> is_power_of_two (t_maximum_flash_size t)
         then None
         else
           let flash = {FLEXE_MEM_FLASH_DATA, FLEXE_MEM_FLASH_INSN};
               m0 = \<lparr>m_target = t,
                     backing_size = (\<lambda>b. if b \<in> flash then flash_size else t_backing_size t b),
                     hbytes = (\<lambda>b _. if b \<in> Backing ` flash then 0xFF else 0),
                     flash_usable_size = 0, mmio = (\<lambda>_. no_handler),
                     mmio_page_count =
                       unat (t_peripheral_end t - t_peripheral_start t) div PAGE_SIZE,
                     unmapped_count = 0, unmapped_first = 0, code_state = None,
                     page_table = (\<lambda>_. None), write_page_table = (\<lambda>_. None),
                     journal_en = False, journal_unsafe = False, journal = []\<rparr>
           in if FLEXE_TARGET_MEM_REGION_MAX < length (t_memory_region t) then None
              else case page_table_init m0 (t_memory_region t) of
                None \<Rightarrow> None
              | Some m1 \<Rightarrow>
                  let m2 = (if t_id t = FLEXE_TARGET_ESP32 then init_builtin_rom_data m1 else m1);
                      m3 = m2\<lparr>flash_usable_size := mem_flash_physical_size m2\<rparr>
                  in if t_rom_flash_handoff t \<and> rf_live_data_address (t_rom_flash t) \<noteq> 0
                     then (case mem_prepare_rom_flash m3 (rf_live_data_address (t_rom_flash t))
                                  (flash_usable_size m3) of
                             (r, m4) \<Rightarrow> if r \<noteq> 0 then None else Some m4)
                     else Some m3)"

section \<open>Speculative-write journal\<close>

definition mem_journal_begin :: "xmem \<Rightarrow> xmem" where
  "mem_journal_begin m = m\<lparr>journal := [], journal_unsafe := False, journal_en := True\<rparr>"

definition mem_journal_pause :: "xmem \<Rightarrow> xmem" where
  "mem_journal_pause m = m\<lparr>journal_en := False\<rparr>"

definition mem_journal_word :: "xmem \<Rightarrow> u32 \<Rightarrow> xmem" where
  "mem_journal_word m addr =
     (let w = addr AND NOT 3 in
      case page_table m (page_of w) of
        None \<Rightarrow> m\<lparr>journal_unsafe := True\<rparr>
      | Some p \<Rightarrow>
          if MEM_JOURNAL_MAX \<le> length (journal m) then m\<lparr>journal_unsafe := True\<rparr>
          else m\<lparr>journal := journal m @ [(w, of_bytes (host_read m (hptr_add p (page_off w)) 4))]\<rparr>)"

definition mem_journal_note :: "xmem \<Rightarrow> u32 \<Rightarrow> u32 \<Rightarrow> xmem" where
  "mem_journal_note m addr len =
     (let m1 = mem_journal_word m addr; lst = addr + len - 1 in
      if lst AND NOT 3 \<noteq> addr AND NOT 3 then mem_journal_word m1 lst else m1)"

text \<open>Undo from the last entry to the first.\<close>

definition journal_undo :: "u32 \<times> u32 \<Rightarrow> xmem \<Rightarrow> xmem" where
  "journal_undo e m =
     (case page_table m (page_of (fst e)) of
        None \<Rightarrow> m
      | Some p \<Rightarrow> host_write m (hptr_add p (page_off (fst e))) (to_bytes 4 (snd e)))"

definition mem_journal_rollback :: "xmem \<Rightarrow> xmem" where
  "mem_journal_rollback m = (foldr journal_undo (journal m) m)\<lparr>journal := []\<rparr>"

definition mem_journal_end :: "xmem \<Rightarrow> xmem" where
  "mem_journal_end m = (mem_journal_pause m)\<lparr>journal := []\<rparr>"

end
