(* ===== verification/Cpu_State.thy ===== *)
theory Cpu_State
  imports Memory
begin

text \<open>
  The processor state of src/src/xtensa.h: instruction fields, the processor-state word,
  \<open>struct xtensa_cpu\<close> with the memory it points to, the host environment it calls back
  into, and the accessors of the windowed register file. Fields that only feed the
  \<open>FLEXE_*\<close> traces (\<open>window_trace\<close>, \<open>spill_verify\<close>, \<open>spill_shadow\<close>, \<open>pc_history\<close>) are
  left out, as are the JIT's private accumulators (\<open>jit_acc\<close>, \<open>jit_time_prefix\<close>,
  \<open>jit_time_accounted\<close>, \<open>jit_loop_exit\<close>), which the interpreter never reads.
\<close>

section \<open>Instruction fields\<close>

definition XT_OP0 :: "u32 \<Rightarrow> nat" where "XT_OP0 i = unat (i AND 0xF)"
definition XT_T :: "u32 \<Rightarrow> nat" where "XT_T i = unat (drop_bit 4 i AND 0xF)"
definition XT_S :: "u32 \<Rightarrow> nat" where "XT_S i = unat (drop_bit 8 i AND 0xF)"
definition XT_R :: "u32 \<Rightarrow> nat" where "XT_R i = unat (drop_bit 12 i AND 0xF)"
definition XT_OP1 :: "u32 \<Rightarrow> nat" where "XT_OP1 i = unat (drop_bit 16 i AND 0xF)"
definition XT_OP2 :: "u32 \<Rightarrow> nat" where "XT_OP2 i = unat (drop_bit 20 i AND 0xF)"
definition XT_IMM8 :: "u32 \<Rightarrow> u32" where "XT_IMM8 i = drop_bit 16 i AND 0xFF"
definition XT_IMM12 :: "u32 \<Rightarrow> u32" where "XT_IMM12 i = drop_bit 12 i AND 0xFFF"
definition XT_IMM16 :: "u32 \<Rightarrow> u32" where "XT_IMM16 i = drop_bit 8 i AND 0xFFFF"
definition XT_SR_NUM :: "u32 \<Rightarrow> nat" where "XT_SR_NUM i = unat (drop_bit 8 i AND 0xFF)"
definition XT_N :: "u32 \<Rightarrow> nat" where "XT_N i = unat (drop_bit 4 i AND 3)"
definition XT_OFFSET18 :: "u32 \<Rightarrow> u32" where "XT_OFFSET18 i = drop_bit 6 i AND 0x3FFFF"
definition XT_M :: "u32 \<Rightarrow> nat" where "XT_M i = unat (drop_bit 6 i AND 3)"

definition xtensa_sync_encoding_valid :: "u32 \<Rightarrow> bool" where
  "xtensa_sync_encoding_valid insn =
     (if XT_S insn \<noteq> 0 then False
      else XT_T insn \<in> {0, 1, 2, 3, 8, 12, 13, 15})"

section \<open>The PS register\<close>

definition XT_PS_INTLEVEL :: "u32 \<Rightarrow> nat" where "XT_PS_INTLEVEL p = unat (p AND 0xF)"
definition XT_PS_EXCM :: "u32 \<Rightarrow> bool" where "XT_PS_EXCM p \<longleftrightarrow> drop_bit 4 p AND 1 \<noteq> 0"
definition XT_PS_UM :: "u32 \<Rightarrow> bool" where "XT_PS_UM p \<longleftrightarrow> drop_bit 5 p AND 1 \<noteq> 0"
definition XT_PS_OWB :: "u32 \<Rightarrow> u32" where "XT_PS_OWB p = drop_bit 8 p AND 0xF"
definition XT_PS_CALLINC :: "u32 \<Rightarrow> nat" where "XT_PS_CALLINC p = unat (drop_bit 16 p AND 3)"
definition XT_PS_WOE :: "u32 \<Rightarrow> bool" where "XT_PS_WOE p \<longleftrightarrow> drop_bit 18 p AND 1 \<noteq> 0"

definition XTENSA_EXCM_LEVEL :: nat where "XTENSA_EXCM_LEVEL = 3"

definition XT_PS_SET_CALLINC :: "u32 \<Rightarrow> u32 \<Rightarrow> u32" where
  "XT_PS_SET_CALLINC p v = (p AND NOT (push_bit 16 3)) OR push_bit 16 (v AND 3)"
definition XT_PS_SET_OWB :: "u32 \<Rightarrow> u32 \<Rightarrow> u32" where
  "XT_PS_SET_OWB p v = (p AND NOT (push_bit 8 0xF)) OR push_bit 8 (v AND 0xF)"
definition XT_PS_SET_EXCM :: "u32 \<Rightarrow> u32 \<Rightarrow> u32" where
  "XT_PS_SET_EXCM p v = (p AND NOT (push_bit 4 1)) OR push_bit 4 (v AND 1)"
definition XT_PS_SET_INTLEVEL :: "u32 \<Rightarrow> u32 \<Rightarrow> u32" where
  "XT_PS_SET_INTLEVEL p v = (p AND NOT 0xF) OR (v AND 0xF)"

section \<open>Exception causes and vectors\<close>

abbreviation (input) "EXCCAUSE_ILLEGAL \<equiv> (0 :: u32)"
abbreviation (input) "EXCCAUSE_SYSCALL \<equiv> (1 :: u32)"
abbreviation (input) "EXCCAUSE_IFETCH_ERROR \<equiv> (2 :: u32)"
abbreviation (input) "EXCCAUSE_LEVEL1_INT \<equiv> (4 :: u32)"
abbreviation (input) "EXCCAUSE_ALLOCA \<equiv> (5 :: u32)"
abbreviation (input) "EXCCAUSE_DIVIDE_BY_ZERO \<equiv> (6 :: u32)"

abbreviation (input) "VECOFS_WINDOW_OVERFLOW4 \<equiv> (0x000 :: u32)"
abbreviation (input) "VECOFS_WINDOW_UNDERFLOW4 \<equiv> (0x040 :: u32)"
abbreviation (input) "VECOFS_WINDOW_OVERFLOW8 \<equiv> (0x080 :: u32)"
abbreviation (input) "VECOFS_WINDOW_UNDERFLOW8 \<equiv> (0x0C0 :: u32)"
abbreviation (input) "VECOFS_WINDOW_OVERFLOW12 \<equiv> (0x100 :: u32)"
abbreviation (input) "VECOFS_WINDOW_UNDERFLOW12 \<equiv> (0x140 :: u32)"
abbreviation (input) "VECOFS_KERNEL_EXC \<equiv> (0x300 :: u32)"
abbreviation (input) "VECOFS_USER_EXC \<equiv> (0x340 :: u32)"
abbreviation (input) "VECOFS_DOUBLE_EXC \<equiv> (0x3C0 :: u32)"

section \<open>The processor\<close>

text \<open>One window slot of the synthesized spill bookkeeping (\<open>spill_stack[i]\<close>).\<close>

record spill_slot =
  ss_base :: "nat \<Rightarrow> u32"
  ss_core :: "nat \<Rightarrow> nat \<Rightarrow> u32"
  ss_extra :: "nat \<Rightarrow> nat \<Rightarrow> u32"
  ss_depth :: nat

text \<open>The static variables of src/src/guest_call.c behind an asynchronous guest call.\<close>

record async_call =
  async_saved_a8_a15 :: "nat \<Rightarrow> u32"
  async_resume_pc :: u32
  async_resume_sp :: u32
  async_resume_wb :: u32
  async_busy :: bool
  async_deadline :: u64

text \<open>
  \<open>struct xtensa_cpu\<close>. Arrays are functions of the index; \<open>breakpoints\<close> and
  \<open>poll_spin_pc\<close> with their counts are lists; \<open>predecode\<close> is the table, indexed by the
  offset from \<open>PREDECODE_BASE\<close>. Two fields are not in the C structure: \<open>irq_dispatched\<close> is
  the global counter of vectored interrupts, and \<open>host_ub\<close> records that the C program would
  have read or written outside one of its own arrays, which is undefined behaviour.
  \<open>dev\<close> is the state of everything behind the callbacks.
\<close>

record 'd cpu =
  ar :: "nat \<Rightarrow> u32"
  pc :: u32
  ccount :: u32
  next_timer_event :: u32
  windowbase :: u32
  ps :: u32
  sar :: u32
  lbeg :: u32
  lend :: u32
  lcount :: u32
  intenable :: u32
  interrupt :: u32
  br :: u32
  running :: bool
  halted :: bool
  exception :: bool
  debug_break :: bool
  pc_written :: bool
  jit_fallthrough_dispatch :: u32
  in_guest_call :: u32
  irq_check :: bool
  core_handoff :: bool
  poll_spin_pc :: "u32 list"
  poll_spin_insns :: nat
  seed_entry_link :: bool
  window_hazard :: u8
  cycle_count :: u64
  insn_count :: u64
  predecode :: "(nat \<Rightarrow> u32) option"
  windowstart :: u32
  vecbase :: u32
  exccause :: u32
  excvaddr :: u32
  epc :: "nat \<Rightarrow> u32"
  eps :: "nat \<Rightarrow> u32"
  excsave :: "nat \<Rightarrow> u32"
  depc :: u32
  ccompare :: "nat \<Rightarrow> u32"
  scompare1 :: u32
  misc :: "nat \<Rightarrow> u32"
  litbase :: u32
  atomctl :: u32
  memctl :: u32
  icount :: u32
  icountlevel :: u32
  debugcause :: u32
  ibreakenable :: u32
  ibreaka :: "nat \<Rightarrow> u32"
  dbreaka :: "nat \<Rightarrow> u32"
  dbreakc :: "nat \<Rightarrow> u32"
  configid0 :: u32
  configid1 :: u32
  prid :: u32
  core_id :: nat
  cpenable :: u32
  acclo :: u32
  acchi :: u32
  mr :: "nat \<Rightarrow> u32"
  expstate :: u32
  threadptr :: u32
  fcr :: u32
  fsr :: u32
  f64r_lo :: u32
  f64r_hi :: u32
  f64s :: u32
  fr :: "nat \<Rightarrow> u32"
  real_window_vectors :: bool
  shadow_fill :: bool
  accelerated_blocks :: bool
  virtual_time_us :: u64
  int_level :: "nat \<Rightarrow> nat"
  breakpoints :: "u32 list"
  breakpoint_hit :: bool
  breakpoint_hit_addr :: u32
  br_ring :: "nat \<Rightarrow> u32"
  br_ring_idx :: u8
  record_branch_targets :: bool
  spill_stack :: "nat \<Rightarrow> spill_slot"
  spill_base :: "nat \<Rightarrow> u32"
  window_callsize :: "nat \<Rightarrow> nat"
  dbg_prev_pc :: u32
  jit_chain_limit :: u32
  native_span_room :: u32
  target :: flexe_target_desc
  async :: async_call
  mem :: xmem
  irq_dispatched :: u64
  host_ub :: bool
  dev :: 'd

section \<open>The host environment\<close>

text \<open>
  What the interpreter calls but src/src/xtensa.c does not define: the MMIO handlers and the
  peripheral event hooks of the device models, the translated-code invalidation hook of
  the JIT, the PC hook of the ROM services, the table of ahead-of-time compiled
  functions, and the single-precision arithmetic of the host. A callback receives the
  whole machine, as its C counterpart reaches it through its context pointer.
\<close>

record fpu =
  fp_add :: "u32 \<Rightarrow> u32 \<Rightarrow> u32"
  fp_sub :: "u32 \<Rightarrow> u32 \<Rightarrow> u32"
  fp_mul :: "u32 \<Rightarrow> u32 \<Rightarrow> u32"
  fp_div :: "u32 \<Rightarrow> u32 \<Rightarrow> u32"
  fp_madd :: "u32 \<Rightarrow> u32 \<Rightarrow> u32 \<Rightarrow> u32"
  fp_msub :: "u32 \<Rightarrow> u32 \<Rightarrow> u32 \<Rightarrow> u32"
  fp_fma :: "u32 \<Rightarrow> u32 \<Rightarrow> u32 \<Rightarrow> u32"
  fp_sqrt :: "u32 \<Rightarrow> u32"
  fp_round :: "u32 \<Rightarrow> u32"
  fp_trunc :: "u32 \<Rightarrow> u32"
  fp_floor :: "u32 \<Rightarrow> u32"
  fp_ceil :: "u32 \<Rightarrow> u32"
  fp_of_s32 :: "u32 \<Rightarrow> u32"
  fp_of_u32 :: "u32 \<Rightarrow> u32"
  fp_to_s32 :: "u32 \<Rightarrow> u32"
  fp_to_u32 :: "u32 \<Rightarrow> u32"

record 'd host =
  h_mmio_read :: "nat \<Rightarrow> nat \<Rightarrow> u32 \<Rightarrow> 'd cpu \<Rightarrow> u32 \<times> 'd cpu"
  h_mmio_write :: "nat \<Rightarrow> nat \<Rightarrow> u32 \<Rightarrow> u32 \<Rightarrow> 'd cpu \<Rightarrow> 'd cpu"
  h_mmio_masked_write :: "nat \<Rightarrow> nat \<Rightarrow> u32 \<Rightarrow> u32 \<Rightarrow> u32 \<Rightarrow> 'd cpu \<Rightarrow> 'd cpu"
  h_peer_watch :: "nat \<Rightarrow> u32 \<Rightarrow> u32 \<Rightarrow> bool \<Rightarrow> bool \<Rightarrow> 'd cpu \<Rightarrow> 'd cpu"
  h_code_invalidate :: "(u32 \<Rightarrow> nat \<Rightarrow> 'd cpu \<Rightarrow> 'd cpu) option"
  h_periph_next_event :: "('d cpu \<Rightarrow> u32 \<times> 'd cpu) option"
  h_periph_event :: "('d cpu \<Rightarrow> 'd cpu) option"
  h_pc_hook :: "(u32 \<Rightarrow> 'd cpu \<Rightarrow> int \<times> 'd cpu) option"
  h_pc_hook_bitmap :: "(nat \<Rightarrow> u64) option"
  h_aot_bitmap :: "(nat \<Rightarrow> u64) option"
  h_aot_lookup :: "u32 \<Rightarrow> ('d cpu \<Rightarrow> int \<times> 'd cpu) option"
  h_fpu :: fpu

section \<open>Register file and small helpers\<close>

definition ar_idx :: "u32 \<Rightarrow> nat \<Rightarrow> nat" where
  "ar_idx wb n = unat ((wb * 4 + of_nat n) AND 63)"

definition ar_read :: "'d cpu \<Rightarrow> nat \<Rightarrow> u32" where
  "ar_read c n = ar c (ar_idx (windowbase c) n)"

definition ar_write :: "'d cpu \<Rightarrow> nat \<Rightarrow> u32 \<Rightarrow> 'd cpu" where
  "ar_write c n v = c\<lparr>ar := (ar c)(ar_idx (windowbase c) n := v)\<rparr>"

definition phys_read :: "'d cpu \<Rightarrow> nat \<Rightarrow> nat \<Rightarrow> u32" where
  "phys_read c widx reg = ar c ((widx * 4 + reg) mod 64)"

definition phys_write :: "'d cpu \<Rightarrow> nat \<Rightarrow> nat \<Rightarrow> u32 \<Rightarrow> 'd cpu" where
  "phys_write c widx reg v = c\<lparr>ar := (ar c)((widx * 4 + reg) mod 64 := v)\<rparr>"

definition BRANCH_TO :: "'d cpu \<Rightarrow> u32 \<Rightarrow> 'd cpu" where
  "BRANCH_TO c a = c\<lparr>pc := a, pc_written := True\<rparr>"

text \<open>The cached \<open>WINDOWSTART\<close> bits of the three windows above the current one.\<close>

definition hazard_of :: "bool \<Rightarrow> u32 \<Rightarrow> u32 \<Rightarrow> u8" where
  "hazard_of vectors ws wb =
     (if \<not> vectors then 0
      else let w = ws AND 0xFFFF; sh = unat ((wb + 1) AND 0xF)
           in ucast (drop_bit sh (w OR push_bit 16 w) AND 7))"

definition window_hazard_refresh :: "'d cpu \<Rightarrow> 'd cpu" where
  "window_hazard_refresh c =
     c\<lparr>window_hazard := hazard_of (real_window_vectors c) (windowstart c) (windowbase c)\<rparr>"

definition xtensa_native_chain_barrier :: "'d cpu \<Rightarrow> 'd cpu" where
  "xtensa_native_chain_barrier c = c\<lparr>jit_chain_limit := 0\<rparr>"

text \<open>The interrupt level below which nothing is delivered.\<close>

definition effective_level :: "u32 \<Rightarrow> nat" where
  "effective_level p =
     (if XT_PS_EXCM p \<and> XT_PS_INTLEVEL p < XTENSA_EXCM_LEVEL then XTENSA_EXCM_LEVEL
      else XT_PS_INTLEVEL p)"

text \<open>The bit scan over the pending sources, lowest first.\<close>

fun irq_scan_deliverable :: "(nat \<Rightarrow> nat) \<Rightarrow> u32 \<Rightarrow> nat \<Rightarrow> nat list \<Rightarrow> bool" where
  "irq_scan_deliverable lvl pending eff [] = False"
| "irq_scan_deliverable lvl pending eff (i # is) =
     (if bit pending i \<and> eff < lvl i then True else irq_scan_deliverable lvl pending eff is)"

definition xtensa_irq_is_deliverable :: "'d cpu \<Rightarrow> bool" where
  "xtensa_irq_is_deliverable c =
     (let pending = interrupt c AND intenable c in
      if pending = 0 then False
      else irq_scan_deliverable (int_level c) pending (effective_level (ps c)) [0 ..< 32])"

definition xtensa_request_irq_check :: "'d cpu \<Rightarrow> 'd cpu" where
  "xtensa_request_irq_check c =
     (let c1 = c\<lparr>irq_check := True\<rparr> in
      if xtensa_irq_is_deliverable c1 then xtensa_native_chain_barrier c1 else c1)"

definition XTENSA_SPINLOCK_FREE :: u32 where "XTENSA_SPINLOCK_FREE = 0xB33FFFFF"
definition XTENSA_SPINLOCK_OWNER_CORE0 :: u32 where "XTENSA_SPINLOCK_OWNER_CORE0 = 0xCDCD"
definition XTENSA_SPINLOCK_OWNER_CORE1 :: u32 where "XTENSA_SPINLOCK_OWNER_CORE1 = 0xABAB"

definition xtensa_s32c1i_needs_handoff :: "'d cpu \<Rightarrow> u32 \<Rightarrow> bool" where
  "xtensa_s32c1i_needs_handoff c observed =
     (let other = (if core_id c = 0 then XTENSA_SPINLOCK_OWNER_CORE1
                   else XTENSA_SPINLOCK_OWNER_CORE0)
      in scompare1 c = XTENSA_SPINLOCK_FREE \<and> observed = other)"

definition xtensa_guest_time_us :: "'d cpu \<Rightarrow> u32 \<Rightarrow> u64" where
  "xtensa_guest_time_us c freq =
     cycle_count c div ucast (if freq = 0 then 160 else freq) + virtual_time_us c"

section \<open>Reset\<close>

definition cpu_zero :: "flexe_target_desc \<Rightarrow> xmem \<Rightarrow> 'd \<Rightarrow> 'd cpu" where
  "cpu_zero t m d = \<lparr>
     ar = (\<lambda>_. 0), pc = 0, ccount = 0, next_timer_event = 0, windowbase = 0, ps = 0, sar = 0,
     lbeg = 0, lend = 0, lcount = 0, intenable = 0, interrupt = 0, br = 0, running = False,
     halted = False, exception = False, debug_break = False, pc_written = False,
     jit_fallthrough_dispatch = 0, in_guest_call = 0, irq_check = False, core_handoff = False,
     poll_spin_pc = [], poll_spin_insns = 0, seed_entry_link = False, window_hazard = 0,
     cycle_count = 0, insn_count = 0, predecode = None, windowstart = 0, vecbase = 0,
     exccause = 0, excvaddr = 0, epc = (\<lambda>_. 0), eps = (\<lambda>_. 0), excsave = (\<lambda>_. 0), depc = 0,
     ccompare = (\<lambda>_. 0), scompare1 = 0, misc = (\<lambda>_. 0), litbase = 0, atomctl = 0, memctl = 0,
     icount = 0, icountlevel = 0, debugcause = 0, ibreakenable = 0, ibreaka = (\<lambda>_. 0),
     dbreaka = (\<lambda>_. 0), dbreakc = (\<lambda>_. 0), configid0 = 0, configid1 = 0, prid = 0,
     core_id = 0, cpenable = 0, acclo = 0, acchi = 0, mr = (\<lambda>_. 0), expstate = 0,
     threadptr = 0, fcr = 0, fsr = 0, f64r_lo = 0, f64r_hi = 0, f64s = 0, fr = (\<lambda>_. 0),
     real_window_vectors = False, shadow_fill = False, accelerated_blocks = False,
     virtual_time_us = 0, int_level = (\<lambda>_. 0), breakpoints = [], breakpoint_hit = False,
     breakpoint_hit_addr = 0, br_ring = (\<lambda>_. 0), br_ring_idx = 0,
     record_branch_targets = False,
     spill_stack = (\<lambda>_. \<lparr>ss_base = (\<lambda>_. 0), ss_core = (\<lambda>_ _. 0), ss_extra = (\<lambda>_ _. 0),
                          ss_depth = 0\<rparr>),
     spill_base = (\<lambda>_. 0), window_callsize = (\<lambda>_. 0), dbg_prev_pc = 0, jit_chain_limit = 0,
     native_span_room = 0, target = t,
     async = \<lparr>async_saved_a8_a15 = (\<lambda>_. 0), async_resume_pc = 0, async_resume_sp = 0,
              async_resume_wb = 0, async_busy = False, async_deadline = 0\<rparr>,
     mem = m, irq_dispatched = 0, host_ub = False, dev = d\<rparr>"

text \<open>\<open>memset\<close> clears the whole structure, the memory pointer included; the session stores
  it back, so the model takes it as an argument. \<open>vectors\<close> is the \<open>FLEXE_WINDOW_VECTORS\<close>
  setting (on unless the variable turns it off).\<close>

definition xtensa_cpu_init_for_target ::
  "bool \<Rightarrow> flexe_target_desc \<Rightarrow> xmem \<Rightarrow> 'd \<Rightarrow> 'd cpu" where
  "xtensa_cpu_init_for_target vectors t m d =
     (cpu_zero t m d)\<lparr>real_window_vectors := vectors, next_timer_event := UINT32_MAX,
        jit_chain_limit := UINT32_MAX, pc_written := True,
        int_level := (\<lambda>i. if i < length (t_interrupt_level t)
                          then t_interrupt_level t ! i else 0)\<rparr>"

definition xtensa_cpu_reset_for_target ::
  "bool \<Rightarrow> flexe_target_desc \<Rightarrow> xmem \<Rightarrow> 'd \<Rightarrow> 'd cpu" where
  "xtensa_cpu_reset_for_target vectors t m d =
     (let c0 = xtensa_cpu_init_for_target vectors t m d;
          c1 = window_hazard_refresh
                 (c0\<lparr>pc := t_reset_vector t, ps := push_bit 18 1 OR push_bit 4 1 OR 0xF,
                     windowbase := 0, windowstart := 1\<rparr>)
      in c1\<lparr>window_callsize := (\<lambda>_. 2), sar := 0, lcount := 0, ccount := 0,
            vecbase := t_vecbase_reset t, prid := 0xCDCD, cpenable := 0, atomctl := 0x28,
            configid0 := t_configid0 t, configid1 := t_configid1 t, running := True\<rparr>)"

section \<open>Breakpoints\<close>

definition MAX_BREAKPOINTS :: nat where "MAX_BREAKPOINTS = 16"

definition xtensa_set_breakpoint :: "'d cpu \<Rightarrow> u32 \<Rightarrow> int \<times> 'd cpu" where
  "xtensa_set_breakpoint c a =
     (if MAX_BREAKPOINTS \<le> length (breakpoints c) then (-1, c)
      else if a \<in> set (breakpoints c) then (0, c)
      else (0, c\<lparr>breakpoints := breakpoints c @ [a]\<rparr>))"

definition xtensa_clear_breakpoint :: "'d cpu \<Rightarrow> u32 \<Rightarrow> int \<times> 'd cpu" where
  "xtensa_clear_breakpoint c a =
     (case swap_remove (\<lambda>x. x = a) (breakpoints c) of
        None \<Rightarrow> (-1, c)
      | Some bs \<Rightarrow> (0, c\<lparr>breakpoints := bs\<rparr>))"

definition xtensa_clear_all_breakpoints :: "'d cpu \<Rightarrow> 'd cpu" where
  "xtensa_clear_all_breakpoints c = c\<lparr>breakpoints := []\<rparr>"

section \<open>Field ranges\<close>

lemma XT_bounds [simp]:
  "XT_OP0 i < 16" "XT_T i < 16" "XT_S i < 16" "XT_R i < 16" "XT_OP1 i < 16" "XT_OP2 i < 16"
  by (simp_all add: XT_OP0_def XT_T_def XT_S_def XT_R_def XT_OP1_def XT_OP2_def)

lemma XT_N_less [simp]: "XT_N i < 4" by (simp add: XT_N_def)
lemma XT_M_less [simp]: "XT_M i < 4" by (simp add: XT_M_def)
lemma CALLINC_less [simp]: "XT_PS_CALLINC p < 4" by (simp add: XT_PS_CALLINC_def)

lemma XT_N_mult4: "XT_N i * 4 < 16"
  using XT_N_less [of i] by linarith

section \<open>The window hazard cache\<close>

lemma hazard_of_bit:
  assumes "j < 3"
  shows "bit (hazard_of v ws wb) j \<longleftrightarrow> v \<and> bit ws ((unat wb + j + 1) mod 16)"
proof -
  have s: "unat ((wb + 1) AND 0xF) = (unat wb + 1) mod 16"
    using unat_add_and_15 [of wb 1] by simp
  have "((unat wb + 1) mod 16 + j) mod 16 = (unat wb + j + 1) mod 16"
    by (metis add.assoc add.commute mod_add_left_eq)
  then show ?thesis
    using assms rotated_bit [of j "(unat wb + 1) mod 16" ws]
    by (simp add: hazard_of_def Let_def s bit_ucast_iff)
qed

text \<open>The cached hazard bits agree with the window registers.\<close>

definition hazard_ok :: "'d cpu \<Rightarrow> bool" where
  "hazard_ok c \<longleftrightarrow> window_hazard c = hazard_of (real_window_vectors c) (windowstart c) (windowbase c)"

end
