(* ===== verification/Bus.thy ===== *)
theory Bus
  imports Cpu_State
begin

text \<open>
  Guest memory accesses (the inline fast paths of src/src/memory.h and the slow paths of
  src/src/memory.c) on the machine state: RAM through the page tables, devices through the
  registered handlers, stores to pages that hold translated code through the watchers,
  whose function \<open>xtensa_code_modified\<close> (src/src/xtensa.c) drops predecode entries and JIT
  translations. Loads return the machine too, because a device read may change it.
\<close>

section \<open>Translated-code coherence\<close>

definition PREDECODE_BASE :: nat where "PREDECODE_BASE = 0x40000000"
definition PREDECODE_END :: nat where "PREDECODE_END = 0x400D0000 + 4 * 0x100000"
definition PREDECODE_SIZE :: nat where "PREDECODE_SIZE = PREDECODE_END - PREDECODE_BASE"

text \<open>\<open>memset(cpu->predecode + (start - BASE), 0, (end - start) * 4)\<close>.\<close>

definition predecode_clear :: "nat \<Rightarrow> nat \<Rightarrow> (nat \<Rightarrow> u32) \<Rightarrow> (nat \<Rightarrow> u32)" where
  "predecode_clear s e tab =
     (\<lambda>i. if s \<le> i + PREDECODE_BASE \<and> i + PREDECODE_BASE < e then 0 else tab i)"

definition xtensa_code_modified ::
  "'d host \<Rightarrow> 'd cpu \<Rightarrow> u32 \<Rightarrow> u32 \<Rightarrow> bool \<Rightarrow> bool \<Rightarrow> 'd cpu" where
  "xtensa_code_modified E c exec_addr len pre jit =
     (let c1 = (case predecode c of
                  Some tab \<Rightarrow>
                    if pre then
                      let s0 = (if 2 \<le> exec_addr then unat exec_addr - 2 else 0);
                          s1 = (if s0 < PREDECODE_BASE then PREDECODE_BASE else s0);
                          e0 = unat exec_addr + unat len;
                          e1 = (if PREDECODE_END < e0 then PREDECODE_END else e0)
                      in if s1 < e1 then c\<lparr>predecode := Some (predecode_clear s1 e1 tab)\<rparr> else c
                    else c
                | None \<Rightarrow> c)
      in case h_code_invalidate E of
           Some f \<Rightarrow> if jit then (f exec_addr (unat len) c1)\<lparr>jit_chain_limit := 0\<rparr> else c1
         | None \<Rightarrow> c1)"

definition xtensa_invalidate_code :: "'d host \<Rightarrow> 'd cpu \<Rightarrow> u32 \<Rightarrow> nat \<Rightarrow> 'd cpu" where
  "xtensa_invalidate_code E c addr len =
     (if len = 0 then c
      else
        let c1 = (case predecode c of
                    Some tab \<Rightarrow>
                      let s = unat addr; e = s + len in
                      if s < PREDECODE_END \<and> PREDECODE_BASE < e
                      then c\<lparr>predecode := Some (predecode_clear (max s PREDECODE_BASE)
                                                 (min e PREDECODE_END) tab)\<rparr>
                      else c
                  | None \<Rightarrow> c)
        in case h_code_invalidate E of Some f \<Rightarrow> f addr len c1 | None \<Rightarrow> c1)"

definition notify_watcher ::
  "'d host \<Rightarrow> code_watcher \<Rightarrow> u32 \<Rightarrow> u32 \<Rightarrow> bool \<Rightarrow> bool \<Rightarrow> 'd cpu \<Rightarrow> 'd cpu" where
  "notify_watcher E w exec_addr len pre jit c =
     (case w of
        Watch_Self \<Rightarrow> xtensa_code_modified E c exec_addr len pre jit
      | Watch_Peer k \<Rightarrow> h_peer_watch E k exec_addr len pre jit c)"

definition code_watchers :: "xmem \<Rightarrow> code_watcher list" where
  "code_watchers m = (case code_state m of None \<Rightarrow> [] | Some s \<Rightarrow> cs_watch s)"

text \<open>The innermost loop reads the watcher count again before every call.\<close>

definition notify_watchers ::
  "'d host \<Rightarrow> u32 \<Rightarrow> u32 \<Rightarrow> bool \<Rightarrow> bool \<Rightarrow> 'd cpu \<Rightarrow> 'd cpu" where
  "notify_watchers E exec_addr len pre jit c =
     fold (\<lambda>w c. if w < length (code_watchers (mem c))
                 then notify_watcher E (code_watchers (mem c) ! w) exec_addr len pre jit c
                 else c) [0 ..< CODE_WATCH_MAX] c"

definition code_modified_page :: "'d host \<Rightarrow> 'd cpu \<Rightarrow> nat \<Rightarrow> nat \<Rightarrow> nat \<Rightarrow> 'd cpu" where
  "code_modified_page E c a hi page_base =
     (case page_table (mem c) (page_of (of_nat a)) of
        None \<Rightarrow> c
      | Some host \<Rightarrow>
          (case fst (code_page_for_host (mem c) host False) of
             None \<Rightarrow> c
           | Some l \<Rightarrow>
               let pg = code_page_at (mem c) l;
                   c0 = (a - page_base) div 32;
                   c1 = (hi - 1 - page_base) div 32;
                   pre = chunk_range_any (cp_chunks pg 0) c0 c1;
                   jit = chunk_range_any (cp_chunks pg 1) c0 c1
               in if pre \<or> jit
                  then fold (\<lambda>ep c. notify_watchers E (ep + of_nat (a - page_base))
                                      (of_nat (hi - a)) pre jit c) (cp_exec_page pg) c
                  else c))"

definition code_modified_loop :: "'d host \<Rightarrow> 'd cpu \<Rightarrow> nat \<Rightarrow> nat \<Rightarrow> 'd cpu" where
  "code_modified_loop E c a e =
     fold (\<lambda>(a, hi, page_base) c. code_modified_page E c a hi page_base) (page_segments a e) c"

definition mem_code_modified :: "'d host \<Rightarrow> 'd cpu \<Rightarrow> u32 \<Rightarrow> nat \<Rightarrow> 'd cpu" where
  "mem_code_modified E c addr n =
     (if code_watchers (mem c) = [] then c
      else code_modified_loop E c (unat addr) (unat addr + n))"

text \<open>\<open>memcpy\<close> and \<open>memcmp\<close> through a page pointer; leaving the buffer is undefined behaviour.\<close>

definition host_touch :: "'d cpu \<Rightarrow> hptr \<Rightarrow> nat \<Rightarrow> 'd cpu" where
  "host_touch c p n = (if host_in (mem c) p n then c else c\<lparr>host_ub := True\<rparr>)"

definition host_put :: "'d cpu \<Rightarrow> hptr \<Rightarrow> u8 list \<Rightarrow> 'd cpu" where
  "host_put c p bs =
     (let c1 = host_touch c p (length bs) in c1\<lparr>mem := host_write (mem c1) p bs\<rparr>)"

definition code_page_store :: "'d host \<Rightarrow> 'd cpu \<Rightarrow> u32 \<Rightarrow> u8 list \<Rightarrow> ('d cpu) option" where
  "code_page_store E c addr bs =
     (case mem_get_ptr (mem c) addr of
        None \<Rightarrow> None
      | Some p \<Rightarrow>
          if host_read (mem c) p (length bs) = bs then Some (host_touch c p (length bs))
          else Some (mem_code_modified E (host_put c p bs) addr (length bs)))"

section \<open>Slow paths\<close>

definition journal_reject :: "'d cpu \<Rightarrow> 'd cpu" where
  "journal_reject c =
     (if journal_en (mem c) then c\<lparr>mem := (mem c)\<lparr>journal_unsafe := True\<rparr>\<rparr> else c)"

definition mem_read8_slow :: "'d host \<Rightarrow> 'd cpu \<Rightarrow> u32 \<Rightarrow> u8 \<times> 'd cpu" where
  "mem_read8_slow E c0 addr =
     (let c = journal_reject c0;
          x = translate_peripheral_alias (mem c) addr
      in case mmio_lookup (mem c) x of
           None \<Rightarrow> (0, c)
         | Some h \<Rightarrow>
             (case mh_read h of
                None \<Rightarrow> (0, c)
              | Some f \<Rightarrow>
                  let (v, c1) = h_mmio_read E f (mh_ctx h) (x AND NOT 3) c
                  in (ucast (drop_bit (unat (x AND 3) * 8) v), c1)))"

definition mem_read16_slow :: "'d host \<Rightarrow> 'd cpu \<Rightarrow> u32 \<Rightarrow> u16 \<times> 'd cpu" where
  "mem_read16_slow E c0 addr =
     (let c = journal_reject c0;
          x = translate_peripheral_alias (mem c) addr
      in if x AND 3 = 3 then
           let (low, c1) = mem_read8_slow E c addr;
               (high, c2) = mem_read8_slow E c1 (addr + 1)
           in (ucast low OR push_bit 8 (ucast high), c2)
         else case mmio_lookup (mem c) x of
             None \<Rightarrow> (0, c)
           | Some h \<Rightarrow>
               (case mh_read h of
                  None \<Rightarrow> (0, c)
                | Some f \<Rightarrow>
                    let (v, c1) = h_mmio_read E f (mh_ctx h) (x AND NOT 3) c
                    in (ucast (drop_bit (unat (x AND 3) * 8) v), c1)))"

definition mem_read32_slow :: "'d host \<Rightarrow> 'd cpu \<Rightarrow> u32 \<Rightarrow> u32 \<times> 'd cpu" where
  "mem_read32_slow E c0 addr =
     (let c = journal_reject c0;
          x = translate_peripheral_alias (mem c) addr;
          missing = (0, c\<lparr>mem := note_unmapped (mem c) addr\<rparr>)
      in case mmio_lookup (mem c) x of
           None \<Rightarrow> missing
         | Some h \<Rightarrow>
             (case mh_read h of
                None \<Rightarrow> missing
              | Some f \<Rightarrow> h_mmio_read E f (mh_ctx h) x c))"

definition mmio_write_sized ::
  "'d host \<Rightarrow> 'd cpu \<Rightarrow> u32 \<Rightarrow> u32 \<Rightarrow> u32 \<Rightarrow> 'd cpu" where
  "mmio_write_sized E c x v lanes =
     (case mmio_lookup (mem c) x of
        None \<Rightarrow> c
      | Some h \<Rightarrow>
          (case mh_masked_write h of
             Some f \<Rightarrow>
               let sh = unat (x AND 3) * 8
               in h_mmio_masked_write E f (mh_ctx h) (x AND NOT 3) (push_bit sh v) (push_bit sh lanes) c
           | None \<Rightarrow>
               (case mh_write h of
                  Some f \<Rightarrow> h_mmio_write E f (mh_ctx h) x v c
                | None \<Rightarrow> c)))"

definition mem_write8_slow :: "'d host \<Rightarrow> 'd cpu \<Rightarrow> u32 \<Rightarrow> u8 \<Rightarrow> 'd cpu" where
  "mem_write8_slow E c addr v =
     (case code_page_store E c addr [v] of
        Some c1 \<Rightarrow> c1
      | None \<Rightarrow>
          mmio_write_sized E c (translate_peripheral_alias (mem c) addr) (ucast v) 0xFF)"

definition mem_write16_slow :: "'d host \<Rightarrow> 'd cpu \<Rightarrow> u32 \<Rightarrow> u16 \<Rightarrow> 'd cpu" where
  "mem_write16_slow E c addr v =
     (case code_page_store E c addr (to_bytes 2 v) of
        Some c1 \<Rightarrow> c1
      | None \<Rightarrow>
          (let x = translate_peripheral_alias (mem c) addr in
           if x AND 3 = 3
           then mem_write8_slow E (mem_write8_slow E c addr (ucast v)) (addr + 1)
                  (ucast (drop_bit 8 v))
           else mmio_write_sized E c x (ucast v) 0xFFFF))"

definition mem_write32_slow :: "'d host \<Rightarrow> 'd cpu \<Rightarrow> u32 \<Rightarrow> u32 \<Rightarrow> 'd cpu" where
  "mem_write32_slow E c addr v =
     (case code_page_store E c addr (to_bytes 4 v) of
        Some c1 \<Rightarrow> c1
      | None \<Rightarrow>
          (let x = translate_peripheral_alias (mem c) addr in
           case mmio_lookup (mem c) x of
             None \<Rightarrow> c
           | Some h \<Rightarrow>
               (case mh_masked_write h of
                  Some f \<Rightarrow> h_mmio_masked_write E f (mh_ctx h) x v UINT32_MAX c
                | None \<Rightarrow>
                    (case mh_write h of
                       Some f \<Rightarrow> h_mmio_write E f (mh_ctx h) x v c
                     | None \<Rightarrow> c))))"

section \<open>Fast paths\<close>

definition mem_read8 :: "'d host \<Rightarrow> 'd cpu \<Rightarrow> u32 \<Rightarrow> u8 \<times> 'd cpu" where
  "mem_read8 E c addr =
     (case mem_get_ptr (mem c) addr of
        Some p \<Rightarrow> (of_bytes (host_read (mem c) p 1), host_touch c p 1)
      | None \<Rightarrow> mem_read8_slow E c addr)"

definition mem_read16 :: "'d host \<Rightarrow> 'd cpu \<Rightarrow> u32 \<Rightarrow> u16 \<times> 'd cpu" where
  "mem_read16 E c addr =
     (case mem_get_ptr (mem c) addr of
        Some p \<Rightarrow> (of_bytes (host_read (mem c) p 2), host_touch c p 2)
      | None \<Rightarrow> mem_read16_slow E c addr)"

definition mem_read32 :: "'d host \<Rightarrow> 'd cpu \<Rightarrow> u32 \<Rightarrow> u32 \<times> 'd cpu" where
  "mem_read32 E c addr =
     (case mem_get_ptr (mem c) addr of
        Some p \<Rightarrow> (of_bytes (host_read (mem c) p 4), host_touch c p 4)
      | None \<Rightarrow> mem_read32_slow E c addr)"

text \<open>The journal gate of a store: \<open>g_mem_journal_en\<close>, or for 32-bit stores the observer
  gate, which without the tracing options is the same flag.\<close>

definition journal_store :: "'d cpu \<Rightarrow> u32 \<Rightarrow> u32 \<Rightarrow> 'd cpu" where
  "journal_store c addr len =
     (if journal_en (mem c) then c\<lparr>mem := mem_journal_note (mem c) addr len\<rparr> else c)"

definition mem_write8 :: "'d host \<Rightarrow> 'd cpu \<Rightarrow> u32 \<Rightarrow> u8 \<Rightarrow> 'd cpu" where
  "mem_write8 E c0 addr v =
     (let c = journal_store c0 addr 1 in
      case mem_get_ptr_store (mem c) addr of
        Some p \<Rightarrow> host_put c p [v]
      | None \<Rightarrow> mem_write8_slow E c addr v)"

definition mem_write16 :: "'d host \<Rightarrow> 'd cpu \<Rightarrow> u32 \<Rightarrow> u16 \<Rightarrow> 'd cpu" where
  "mem_write16 E c0 addr v =
     (let c = journal_store c0 addr 2 in
      case mem_get_ptr_store (mem c) addr of
        Some p \<Rightarrow> host_put c p (to_bytes 2 v)
      | None \<Rightarrow> mem_write16_slow E c addr v)"

definition mem_write32 :: "'d host \<Rightarrow> 'd cpu \<Rightarrow> u32 \<Rightarrow> u32 \<Rightarrow> 'd cpu" where
  "mem_write32 E c0 addr v =
     (let c = journal_store c0 addr 4 in
      case mem_get_ptr_store (mem c) addr of
        Some p \<Rightarrow> host_put c p (to_bytes 4 v)
      | None \<Rightarrow> mem_write32_slow E c addr v)"

section \<open>Instruction fetch\<close>

text \<open>\<open>xtensa_fetch_inline\<close>: the instruction word and its length, or nothing when one of its
  bytes is unmapped. Bytes past the page end are looked up again.\<close>

definition fetch_byte :: "xmem \<Rightarrow> u32 \<Rightarrow> u8 option" where
  "fetch_byte m a = map_option (\<lambda>p. hbytes m (fst p) (snd p)) (mem_get_ptr m a)"

definition fetch_len :: "u8 \<Rightarrow> nat" where
  "fetch_len b0 = (if b0 AND 8 \<noteq> 0 then 2 else 3)"

definition xtensa_fetch :: "xmem \<Rightarrow> u32 \<Rightarrow> (u32 \<times> nat) option" where
  "xtensa_fetch m addr =
     (case mem_get_ptr m addr of
        None \<Rightarrow> None
      | Some p \<Rightarrow>
          let b0 = hbytes m (fst p) (snd p); ilen = fetch_len b0 in
          if page_off addr + ilen \<le> PAGE_SIZE then
            Some (of_bytes (host_read m p ilen), ilen)
          else if UINT32_MAX - (of_nat ilen - 1) < addr then None
          else case fetch_byte m (addr + 1) of
              None \<Rightarrow> None
            | Some b1 \<Rightarrow>
                if ilen = 2 then Some (of_bytes [b0, b1], 2)
                else case fetch_byte m (addr + 2) of
                    None \<Rightarrow> None
                  | Some b2 \<Rightarrow> Some (of_bytes [b0, b1, b2], 3))"

section \<open>Accesses to mapped pages\<close>

lemma page_off_less [simp]: "page_off a < PAGE_SIZE"
proof -
  have "a AND 0xFFF \<le> 0xFFF" by (rule word_and_le1)
  then show ?thesis by (simp add: page_off_def PAGE_SIZE_def word_le_nat_alt)
qed

lemma mem_read_mapped:
  assumes "page_table (mem c) (page_of a) = Some base"
  defines "p \<equiv> hptr_add base (page_off a)"
  shows "mem_read8 E c a = (of_bytes (host_read (mem c) p 1), host_touch c p 1)"
    "mem_read16 E c a = (of_bytes (host_read (mem c) p 2), host_touch c p 2)"
    "mem_read32 E c a = (of_bytes (host_read (mem c) p 4), host_touch c p 4)"
  using assms by (simp_all add: mem_read8_def mem_read16_def mem_read32_def mem_get_ptr_def)

lemma mem_write_mapped:
  assumes "write_page_table (mem c) (page_of a) = Some base" "\<not> journal_en (mem c)"
  defines "p \<equiv> hptr_add base (page_off a)"
  shows "mem_write8 E c a v8 = host_put c p [v8]"
    "mem_write16 E c a v16 = host_put c p (to_bytes 2 v16)"
    "mem_write32 E c a v32 = host_put c p (to_bytes 4 v32)"
  using assms
  by (simp_all add: mem_write8_def mem_write16_def mem_write32_def mem_get_ptr_store_def
        journal_store_def)

lemma host_read_1: "host_read m p 1 = [hbytes m (fst p) (snd p)]"
  by (simp add: host_read_def)

lemma host_read_2: "host_read m p 2 = [hbytes m (fst p) (snd p), hbytes m (fst p) (snd p + 1)]"
  by (simp add: host_read_def upt_rec)

lemma of_bytes_1: "(of_bytes [b] :: u32) = ucast (of_bytes [b] :: u8)"
  by simp

lemma of_bytes_2: "(of_bytes [b0, b1] :: u32) = ucast (of_bytes [b0, b1] :: u16)"
  by (rule bit_word_eqI) (auto simp: bit_simps dest: bit_imp_le_length)

lemma to_bytes_1: "to_bytes 1 v = [ucast v]"
  by (simp add: to_bytes_def)

lemma to_bytes_2: "to_bytes 2 (ucast (v :: u32) :: u16) = to_bytes 2 v"
  by (auto simp: to_bytes_def upt_rec intro!: bit_word_eqI) (auto simp: bit_simps)

lemma of_bytes_bound: "unat (of_bytes bs :: 'a::len word) < 2 ^ (8 * length bs)"
proof (induction bs)
  case (Cons b bs)
  show ?case
  proof (rule unat_less_bits)
    fix i assume "bit (of_bytes (b # bs) :: 'a word) i"
    then show "i < 8 * length (b # bs)"
      using bit_word_less [OF _ Cons.IH, of "i - 8"]
      by (auto simp: bit_simps dest: bit_imp_le_length)
  qed
qed simp

end
