(* ===== verification/Timers.thy ===== *)
theory Timers
  imports Bus
begin

text \<open>
  CCOMPARE timers and peripheral deadlines (src/src/xtensa.c): the cached next event, the
  firing of due timers, the clock frequency word, and the advance across time a core did
  not execute. \<open>periph_next_event\<close> and \<open>periph_event\<close> are the hooks of the device models.
\<close>

definition timer_int_bit :: "nat \<Rightarrow> nat" where
  "timer_int_bit i = [6, 15, 16] ! i"

text \<open>The wrapped distance to an event; an event of the past is due now.\<close>

definition event_distance :: "u32 \<Rightarrow> u32 \<Rightarrow> u32" where
  "event_distance now at = (if sint (at - now) < 0 then 0 else at - now)"

text \<open>One iteration of the compare loop on \<open>(best_distance, best_event)\<close>; nothing is
  \<open>have_event = false\<close>.\<close>

definition timer_consider ::
  "'d cpu \<Rightarrow> nat \<Rightarrow> (u32 \<times> u32) option \<Rightarrow> (u32 \<times> u32) option" where
  "timer_consider c i best =
     (if ccompare c i = 0 \<or> bit (interrupt c) (timer_int_bit i) then best
      else
        let d = event_distance (ccount c) (ccompare c i) in
        case best of
          None \<Rightarrow> Some (d, ccompare c i)
        | Some (bd, be) \<Rightarrow> if d < bd then Some (d, ccompare c i) else best)"

definition xtensa_recompute_next_timer :: "'d host \<Rightarrow> 'd cpu \<Rightarrow> 'd cpu" where
  "xtensa_recompute_next_timer E c =
     (let best = fold (timer_consider c) [0, 1, 2] None;
          (best1, c1) =
            (case h_periph_next_event E of
               None \<Rightarrow> (best, c)
             | Some f \<Rightarrow>
                 let (e, c1) = f c in
                 if e = UINT32_MAX then (best, c1)
                 else
                   let d = event_distance (ccount c1) e in
                   case best of
                     None \<Rightarrow> (Some (d, e), c1)
                   | Some (bd, be) \<Rightarrow> (if d < bd then Some (d, e) else best, c1));
          nxt = (case best1 of None \<Rightarrow> UINT32_MAX | Some (d, e) \<Rightarrow> e);
          c2 = (if nxt \<noteq> next_timer_event c1 then xtensa_native_chain_barrier c1 else c1)
      in c2\<lparr>next_timer_event := nxt\<rparr>)"

definition timer_latch :: "'d cpu \<Rightarrow> nat \<Rightarrow> u32 \<Rightarrow> u32" where
  "timer_latch c i pending =
     (if ccompare c i \<noteq> 0 \<and> reached (ccount c) (ccompare c i)
      then pending OR push_bit (timer_int_bit i) 1 else pending)"

definition xtensa_fire_timers :: "'d host \<Rightarrow> 'd cpu \<Rightarrow> 'd cpu" where
  "xtensa_fire_timers E c =
     (let pending = timer_latch c 2 (timer_latch c 1 (timer_latch c 0 (interrupt c)));
          c1 = c\<lparr>interrupt := pending\<rparr>;
          c2 = (if pending \<noteq> interrupt c then xtensa_request_irq_check c1 else c1);
          c3 = (case h_periph_event E of None \<Rightarrow> c2 | Some f \<Rightarrow> f c2)
      in xtensa_recompute_next_timer E c3)"

definition xtensa_fire_due_timers :: "'d host \<Rightarrow> 'd cpu \<Rightarrow> 'd cpu" where
  "xtensa_fire_due_timers E c = xtensa_fire_timers E c"

definition xtensa_cpu_freq_mhz :: "'d host \<Rightarrow> 'd cpu \<Rightarrow> u32 \<times> 'd cpu" where
  "xtensa_cpu_freq_mhz E c =
     (let t = target c;
          fallback = (if t_default_cpu_frequency_mhz t \<noteq> 0
                      then t_default_cpu_frequency_mhz t else 160);
          (mhz, c1) = (if t_cpu_frequency_word t \<noteq> 0
                       then mem_read32 E c (t_cpu_frequency_word t) else (0, c))
      in (if 10 \<le> mhz \<and> mhz \<le> 240 then mhz else fallback, c1))"

text \<open>
  The loop of \<open>xtensa_advance_idle_cycles\<close>. A peripheral hook may move its deadline on every
  call, so nothing bounds the number of events at one instant: not returning is \<open>None\<close>.
  The result is the machine and the cycles left for the final jump.
\<close>

partial_function (option) advance_idle_loop ::
  "'d host \<Rightarrow> 'd cpu \<Rightarrow> nat \<Rightarrow> ('d cpu \<times> nat) option" where
  "advance_idle_loop E c cycles =
     (if cycles = 0 then Some (c, 0)
      else if next_timer_event c = UINT32_MAX then Some (c, cycles)
      else
        let nxt = next_timer_event c;
            d = (if reached (ccount c) nxt then 0 else unat (nxt - ccount c))
        in if cycles < d then Some (c, cycles)
           else
             let c1 = xtensa_fire_timers E (c\<lparr>ccount := ccount c + of_nat d\<rparr>)
             in if next_timer_event c1 = nxt \<or> interrupt c1 AND intenable c1 \<noteq> 0
                then Some (c1, cycles - d)
                else advance_idle_loop E c1 (cycles - d))"

definition xtensa_advance_idle_cycles :: "'d host \<Rightarrow> 'd cpu \<Rightarrow> u64 \<Rightarrow> ('d cpu) option" where
  "xtensa_advance_idle_cycles E c cycles =
     (case advance_idle_loop E c (unat cycles) of
        None \<Rightarrow> None
      | Some (c1, left) \<Rightarrow>
          Some (if 0 < left
                then xtensa_fire_timers E (c1\<lparr>ccount := ccount c1 + of_nat left\<rparr>)
                else c1))"

end
