(* ===== verification/Special_Regs.thy ===== *)
theory Special_Regs
  imports Timers
begin

text \<open>
  Special-register access for RSR, WSR and XSR (\<open>sr_read\<close> and \<open>sr_write\<close> of
  src/src/xtensa.c): masked widths, the interrupt set and clear pair, and the side effects of
  writing PS, INTENABLE, the window registers and the timer compares.
\<close>

definition sr_read :: "'d cpu \<Rightarrow> nat \<Rightarrow> u32" where
  "sr_read c sr =
     (if sr = 0 then lbeg c else if sr = 1 then lend c else if sr = 2 then lcount c
      else if sr = 3 then sar c else if sr = 4 then br c else if sr = 5 then litbase c
      else if sr = 12 then scompare1 c else if sr = 16 then acclo c else if sr = 17 then acchi c
      else if 32 \<le> sr \<and> sr \<le> 35 then mr c (sr - 32)
      else if sr = 72 then windowbase c else if sr = 73 then windowstart c
      else if sr = 96 then ibreakenable c else if sr = 97 then memctl c
      else if sr = 99 then atomctl c
      else if 128 \<le> sr \<and> sr \<le> 129 then ibreaka c (sr - 128)
      else if 144 \<le> sr \<and> sr \<le> 145 then dbreaka c (sr - 144)
      else if 160 \<le> sr \<and> sr \<le> 161 then dbreakc c (sr - 160)
      else if sr = 176 then configid0 c
      else if 177 \<le> sr \<and> sr \<le> 183 then epc c (sr - 177)
      else if sr = 192 then depc c
      else if 194 \<le> sr \<and> sr \<le> 199 then eps c (sr - 193)
      else if sr = 208 then configid1 c
      else if 209 \<le> sr \<and> sr \<le> 215 then excsave c (sr - 209)
      else if sr = 224 then cpenable c else if sr = 226 then interrupt c
      else if sr = 228 then intenable c else if sr = 230 then ps c else if sr = 231 then vecbase c
      else if sr = 232 then exccause c else if sr = 233 then debugcause c
      else if sr = 234 then ccount c else if sr = 235 then prid c else if sr = 236 then icount c
      else if sr = 237 then icountlevel c else if sr = 238 then excvaddr c
      else if 240 \<le> sr \<and> sr \<le> 242 then ccompare c (sr - 240)
      else if 244 \<le> sr \<and> sr \<le> 247 then misc c (sr - 244)
      else 0)"

definition sr_write :: "'d host \<Rightarrow> 'd cpu \<Rightarrow> nat \<Rightarrow> u32 \<Rightarrow> 'd cpu" where
  "sr_write E c sr v =
     (if sr = 0 then c\<lparr>lbeg := v\<rparr> else if sr = 1 then c\<lparr>lend := v\<rparr>
      else if sr = 2 then c\<lparr>lcount := v\<rparr> else if sr = 3 then c\<lparr>sar := v AND 0x3F\<rparr>
      else if sr = 4 then c\<lparr>br := v AND 0xFFFF\<rparr> else if sr = 5 then c\<lparr>litbase := v\<rparr>
      else if sr = 12 then c\<lparr>scompare1 := v\<rparr> else if sr = 16 then c\<lparr>acclo := v\<rparr>
      else if sr = 17 then c\<lparr>acchi := v AND 0xFF\<rparr>
      else if 32 \<le> sr \<and> sr \<le> 35 then c\<lparr>mr := (mr c)(sr - 32 := v)\<rparr>
      else if sr = 72 then window_hazard_refresh (c\<lparr>windowbase := v AND 0xF\<rparr>)
      else if sr = 73 then window_hazard_refresh (c\<lparr>windowstart := v AND 0xFFFF\<rparr>)
      else if sr = 96 then c\<lparr>ibreakenable := v\<rparr> else if sr = 97 then c\<lparr>memctl := v\<rparr>
      else if sr = 99 then c\<lparr>atomctl := v\<rparr>
      else if 128 \<le> sr \<and> sr \<le> 129 then c\<lparr>ibreaka := (ibreaka c)(sr - 128 := v)\<rparr>
      else if 144 \<le> sr \<and> sr \<le> 145 then c\<lparr>dbreaka := (dbreaka c)(sr - 144 := v)\<rparr>
      else if 160 \<le> sr \<and> sr \<le> 161 then c\<lparr>dbreakc := (dbreakc c)(sr - 160 := v)\<rparr>
      else if 177 \<le> sr \<and> sr \<le> 183 then c\<lparr>epc := (epc c)(sr - 177 := v)\<rparr>
      else if sr = 192 then c\<lparr>depc := v\<rparr>
      else if 194 \<le> sr \<and> sr \<le> 199 then c\<lparr>eps := (eps c)(sr - 193 := v)\<rparr>
      else if 209 \<le> sr \<and> sr \<le> 215 then c\<lparr>excsave := (excsave c)(sr - 209 := v)\<rparr>
      else if sr = 224 then c\<lparr>cpenable := v\<rparr>
      else if sr = 226 then xtensa_request_irq_check (c\<lparr>interrupt := interrupt c OR v\<rparr>)
      else if sr = 227 then c\<lparr>interrupt := interrupt c AND NOT v\<rparr>
      else if sr = 228 then xtensa_request_irq_check (c\<lparr>intenable := v\<rparr>)
      else if sr = 230 then xtensa_request_irq_check (c\<lparr>ps := v\<rparr>)
      else if sr = 231 then c\<lparr>vecbase := v\<rparr> else if sr = 232 then c\<lparr>exccause := v\<rparr>
      else if sr = 233 then c\<lparr>debugcause := v\<rparr> else if sr = 234 then c\<lparr>ccount := v\<rparr>
      else if sr = 236 then c\<lparr>icount := v\<rparr> else if sr = 237 then c\<lparr>icountlevel := v\<rparr>
      else if sr = 238 then c\<lparr>excvaddr := v\<rparr>
      else if 240 \<le> sr \<and> sr \<le> 242 then
        xtensa_recompute_next_timer E
          (c\<lparr>ccompare := (ccompare c)(sr - 240 := v),
             interrupt := interrupt c AND NOT (push_bit (timer_int_bit (sr - 240)) 1)\<rparr>)
      else if 244 \<le> sr \<and> sr \<le> 247 then c\<lparr>misc := (misc c)(sr - 244 := v)\<rparr>
      else c)"

text \<open>User registers (RUR and WUR of \<open>exec_qrst_registers\<close>).\<close>

definition ur_read :: "'d cpu \<Rightarrow> nat \<Rightarrow> u32" where
  "ur_read c ur =
     (if ur = 230 then expstate c else if ur = 231 then threadptr c else if ur = 232 then fcr c
      else if ur = 233 then fsr c else if ur = 234 then f64r_lo c else if ur = 235 then f64r_hi c
      else if ur = 236 then f64s c else 0)"

definition ur_write :: "'d cpu \<Rightarrow> nat \<Rightarrow> u32 \<Rightarrow> 'd cpu" where
  "ur_write c ur v =
     (if ur = 230 then c\<lparr>expstate := v\<rparr> else if ur = 231 then c\<lparr>threadptr := v\<rparr>
      else if ur = 232 then c\<lparr>fcr := v\<rparr> else if ur = 233 then c\<lparr>fsr := v\<rparr>
      else if ur = 234 then c\<lparr>f64r_lo := v\<rparr> else if ur = 235 then c\<lparr>f64r_hi := v\<rparr>
      else if ur = 236 then c\<lparr>f64s := v\<rparr> else c)"

end
