(* ===== verification/Exceptions.thy ===== *)
theory Exceptions
  imports Special_Regs
begin

text \<open>
  Exception entry (src/src/xtensa.c): general exceptions with the double-exception and
  user-vector cases, and the six register-window exceptions the guest's own handlers serve.
\<close>

section \<open>General exceptions\<close>

definition xtensa_raise_exception :: "'d cpu \<Rightarrow> u32 \<Rightarrow> u32 \<Rightarrow> u32 \<Rightarrow> 'd cpu" where
  "xtensa_raise_exception c cause fault_pc vaddr =
     (let (vec, c1) =
        (if XT_PS_EXCM (ps c)
         then (vecbase c + VECOFS_DOUBLE_EXC,
               c\<lparr>depc := fault_pc, exccause := cause, excvaddr := vaddr\<rparr>)
         else (vecbase c + (if XT_PS_UM (ps c) then VECOFS_USER_EXC else VECOFS_KERNEL_EXC),
               c\<lparr>epc := (epc c)(0 := fault_pc), exccause := cause, excvaddr := vaddr,
                 ps := XT_PS_SET_EXCM (ps c) 1\<rparr>))
      in if mem_get_ptr (mem c1) vec = None then c1\<lparr>exception := True, running := False\<rparr>
         else BRANCH_TO c1 vec)"

section \<open>Window exceptions\<close>

text \<open>The handlers of the boot ROM are not modelled by the program: it faults only once
  VECBASE points into the application's instruction memory and the vector is mapped.\<close>

definition window_vectors_ready :: "'d cpu \<Rightarrow> u32 \<Rightarrow> bool" where
  "window_vectors_ready c vecofs \<longleftrightarrow>
     0x40070000 \<le> vecbase c \<and> vecbase c < 0x40400000 \<and>
     mem_get_ptr (mem c) (vecbase c + vecofs) \<noteq> None"

definition raise_window_exception :: "'d cpu \<Rightarrow> u32 \<Rightarrow> nat \<Rightarrow> u32 \<Rightarrow> 'd cpu" where
  "raise_window_exception c fault_pc handler_wb vecofs =
     (let c1 = window_hazard_refresh
                 (c\<lparr>epc := (epc c)(0 := fault_pc),
                    ps := XT_PS_SET_EXCM (XT_PS_SET_OWB (ps c) (windowbase c)) 1,
                    windowbase := of_nat handler_wb AND 0xF\<rparr>)
      in BRANCH_TO c1 (vecbase c1 + vecofs))"

definition window_vec_offset :: "u32 \<Rightarrow> bool \<Rightarrow> u32" where
  "window_vec_offset a0 underflow =
     (let n0 = unat (drop_bit 30 a0 AND 3); n = (if n0 = 0 then 1 else n0)
      in (if underflow then VECOFS_WINDOW_UNDERFLOW4 else VECOFS_WINDOW_OVERFLOW4)
         + of_nat (n - 1) * 0x80)"

text \<open>\<open>windowstart & (1u << w)\<close>, and the window \<open>k\<close> places above the current one.\<close>

definition win_live :: "'d cpu \<Rightarrow> nat \<Rightarrow> bool" where
  "win_live c w = bit (windowstart c) w"

definition win_above :: "'d cpu \<Rightarrow> nat \<Rightarrow> nat" where
  "win_above c k = unat ((windowbase c + of_nat k) AND 0xF)"

definition window_overflow_vec :: "'d cpu \<Rightarrow> nat \<Rightarrow> u32" where
  "window_overflow_vec c w =
     (let d0 = (case find (\<lambda>d. win_live c ((w + d) mod 16)) [1 ..< 16] of
                  Some d \<Rightarrow> d | None \<Rightarrow> 16);
          d = (if 3 < d0 then 3 else d0)
      in VECOFS_WINDOW_OVERFLOW4 + of_nat (d - 1) * 0x80)"

text \<open>The first live window among the \<open>k\<close> above the current one.\<close>

definition first_live_above :: "'d cpu \<Rightarrow> nat \<Rightarrow> nat option" where
  "first_live_above c k = find (win_live c) (map (win_above c) [1 ..< Suc k])"

text \<open>The shared tail of the two overflow tries: fault into the vector of the colliding
  window. \<open>None\<close> is the C result \<open>false\<close>.\<close>

definition overflow_into :: "'d cpu \<Rightarrow> u32 \<Rightarrow> nat option \<Rightarrow> ('d cpu) option" where
  "overflow_into c fault_pc hit =
     (case hit of
        None \<Rightarrow> None
      | Some w \<Rightarrow>
          let vecofs = window_overflow_vec c w in
          if \<not> window_vectors_ready c vecofs then None
          else Some (raise_window_exception c fault_pc w vecofs))"

definition xtensa_try_window_overflow_exception ::
  "'d cpu \<Rightarrow> u32 \<Rightarrow> nat \<Rightarrow> ('d cpu) option" where
  "xtensa_try_window_overflow_exception c fault_pc need =
     (if need = 0 \<or> \<not> real_window_vectors c \<or> \<not> XT_PS_WOE (ps c) \<or> XT_PS_EXCM (ps c) then None
      else overflow_into c fault_pc (first_live_above c (if 3 < need then 3 else need)))"

definition xtensa_try_entry_overflow_exception :: "'d cpu \<Rightarrow> u32 \<Rightarrow> ('d cpu) option" where
  "xtensa_try_entry_overflow_exception c fault_pc =
     (if \<not> real_window_vectors c \<or> \<not> XT_PS_WOE (ps c) \<or> XT_PS_EXCM (ps c) then None
      else overflow_into c fault_pc (first_live_above c (XT_PS_CALLINC (ps c))))"

section \<open>Windows above the current one\<close>

lemma win_above_eq: "win_above c k = (unat (windowbase c) + k) mod 16"
  by (simp add: win_above_def unat_add_and_15)

lemma no_live_above:
  assumes "hazard_ok c" "real_window_vectors c" "need < 4"
    "window_hazard c AND (push_bit need 1 - 1) = 0" "k \<le> need"
  shows "first_live_above c k = None"
proof -
  have "\<not> win_live c (win_above c i)" if "1 \<le> i" "i \<le> k" for i
  proof -
    have "\<not> bit (window_hazard c) (i - 1)"
      using assms that and_zero_bitD [OF assms(4), of "i - 1"] bit_low_mask [of need "i - 1"] by auto
    then show ?thesis
      using assms that hazard_of_bit [of "i - 1" True "windowstart c" "windowbase c"]
      by (simp add: hazard_ok_def win_live_def win_above_eq)
  qed
  then show ?thesis by (auto simp: first_live_above_def find_None_iff)
qed

end
