(* ===== verification/Predecode.thy ===== *)
theory Predecode
  imports Exceptions
begin

text \<open>
  The operand-window classifier and the predecode table (src/src/xtensa.c): which of the
  four-register windows an instruction touches, the packed table entry with its execution
  class, the per-instruction window check, and the construction of the table.
\<close>

section \<open>Highest operand window\<close>

definition window_need2 :: "nat \<Rightarrow> nat \<Rightarrow> nat" where
  "window_need2 a b = (if b < a then a else b) div 4"

definition window_need3 :: "nat \<Rightarrow> nat \<Rightarrow> nat \<Rightarrow> nat" where
  "window_need3 a b c = (let m = (if b < a then a else b) in (if c < m then m else c) div 4)"

definition window_need_narrow :: "u32 \<Rightarrow> nat" where
  "window_need_narrow insn =
     (let t = XT_T insn; s = XT_S insn; r = XT_R insn; op0 = XT_OP0 insn in
      if op0 = 8 \<or> op0 = 9 then window_need2 s t
      else if op0 = 10 then window_need3 r s t
      else if op0 = 11 then window_need2 r s
      else if op0 = 12 then s div 4
      else if op0 = 13 then (if r = 0 then window_need2 s t else 0)
      else 0)"

definition window_need_rst0 :: "u32 \<Rightarrow> nat" where
  "window_need_rst0 insn =
     (let t = XT_T insn; s = XT_S insn; r = XT_R insn; op2 = XT_OP2 insn;
          m = XT_M insn; nn = XT_N insn in
      if op2 = 0 then
        (if r = 0 then
           (if m = 2 \<and> nn = 2 then s div 4
            else if m = 3 then window_need2 s (nn * 4) else 0)
         else if r = 1 then window_need2 s t
         else if r = 6 then t div 4 else 0)
      else if 1 \<le> op2 \<and> op2 \<le> 3 then window_need3 r s t
      else if op2 = 4 then
        (if r \<le> 3 then s div 4
         else if r = 6 \<or> r = 7 \<or> r = 14 \<or> r = 15 then window_need2 s t else 0)
      else if op2 = 6 then window_need2 r t
      else if 8 \<le> op2 then window_need3 r s t
      else 0)"

definition window_need_qrst :: "u32 \<Rightarrow> nat" where
  "window_need_qrst insn =
     (let t = XT_T insn; s = XT_S insn; r = XT_R insn; op1 = XT_OP1 insn; op2 = XT_OP2 insn in
      if op1 = 0 then window_need_rst0 insn
      else if op1 = 1 then
        (if op2 = 0 \<or> op2 = 1 then window_need2 r s
         else if op2 = 2 \<or> op2 = 3 \<or> op2 = 4 then window_need2 r t
         else if op2 = 6 then t div 4
         else if op2 = 8 \<or> op2 = 12 \<or> op2 = 13 then window_need3 r s t
         else if op2 = 9 \<or> op2 = 11 then window_need2 r t
         else if op2 = 10 then window_need2 r s else 0)
      else if op1 = 2 then
        (if op2 = 6 \<or> op2 = 7 \<or> op2 = 8 \<or> 10 \<le> op2 then window_need3 r s t else 0)
      else if op1 = 3 then
        (if op2 = 0 \<or> op2 = 1 then t div 4
         else if op2 = 2 \<or> op2 = 3 then window_need2 r s
         else if 4 \<le> op2 \<and> op2 \<le> 11 then window_need3 r s t
         else if op2 = 12 \<or> op2 = 13 then window_need2 r s
         else if op2 = 14 then r div 4
         else if op2 = 15 then t div 4 else 0)
      else if op1 = 4 \<or> op1 = 5 then window_need2 r t
      else if op1 = 8 then
        (if op2 = 0 \<or> op2 = 1 \<or> op2 = 4 \<or> op2 = 5 then window_need2 s t else 0)
      else if op1 = 9 then (if op2 = 0 \<or> op2 = 4 then window_need2 s t else 0)
      else if op1 = 10 then
        (if 8 \<le> op2 \<and> op2 \<le> 11 then r div 4
         else if op2 = 12 \<or> op2 = 13 then s div 4
         else if op2 = 14 then r div 4
         else if op2 = 15 \<and> t = 4 then r div 4
         else if op2 = 15 \<and> t = 5 then s div 4 else 0)
      else if op1 = 11 then (if 8 \<le> op2 \<and> op2 \<le> 11 then t div 4 else 0)
      else 0)"

text \<open>ENTRY reads its source and writes the register CALLINC selects.\<close>

definition entry_dst :: "u32 \<Rightarrow> nat \<Rightarrow> nat" where
  "entry_dst p s = XT_PS_CALLINC p * 4 + s mod 4"

definition window_need_wide :: "u32 \<Rightarrow> u32 \<Rightarrow> nat" where
  "window_need_wide p insn =
     (let t = XT_T insn; s = XT_S insn; r = XT_R insn; op0 = XT_OP0 insn; op2 = XT_OP2 insn;
          nn = XT_N insn; m = XT_M insn in
      if op0 = 0 then window_need_qrst insn
      else if op0 = 1 then t div 4
      else if op0 = 2 then
        (if r = 10 then t div 4
         else if r \<in> {0, 1, 2, 4, 5, 6, 11, 12, 13, 14, 15} then window_need2 s t
         else if r = 7 then s div 4 else 0)
      else if op0 = 3 then s div 4
      else if op0 = 4 then
        (if op2 div 4 = 2 then window_need2 s t
         else if op2 div 4 = 0 then window_need2 s t
         else if op2 div 4 = 1 then s div 4
         else 0)
      else if op0 = 5 then nn
      else if op0 = 6 then
        (if nn = 0 then 0
         else if nn = 1 \<or> nn = 2 then s div 4
         else if m = 0 then window_need2 s (entry_dst p s)
         else if m = 1 then (if 8 \<le> r \<and> r \<le> 10 then s div 4 else 0)
         else s div 4)
      else if op0 = 7 then
        (if r = 6 \<or> r = 7 \<or> r = 14 \<or> r = 15 then s div 4 else window_need2 s t)
      else 0)"

definition window_operand_need :: "'d cpu \<Rightarrow> u32 \<Rightarrow> nat \<Rightarrow> nat" where
  "window_operand_need c insn ilen =
     (if ilen = 2 then window_need_narrow insn else window_need_wide (ps c) insn)"

section \<open>Table entries\<close>

definition PREDECODE_PACK :: "u32 \<Rightarrow> nat \<Rightarrow> u32" where
  "PREDECODE_PACK insn ilen = insn OR push_bit 24 (if ilen = 3 then 1 else 0)"
definition PREDECODE_INSN :: "u32 \<Rightarrow> u32" where "PREDECODE_INSN w = w AND 0x00FFFFFF"
definition PREDECODE_ILEN :: "u32 \<Rightarrow> nat" where
  "PREDECODE_ILEN w = 2 + unat (drop_bit 24 w AND 1)"
definition PREDECODE_WINDOW_TAG :: u32 where "PREDECODE_WINDOW_TAG = push_bit 27 31"
definition PREDECODE_WINDOW_NEED :: "u32 \<Rightarrow> nat" where
  "PREDECODE_WINDOW_NEED w = unat (drop_bit 25 w AND 3)"
definition PREDECODE_CLASS :: "u32 \<Rightarrow> nat" where "PREDECODE_CLASS w = unat (drop_bit 27 w)"

abbreviation (input) "PD_RAW \<equiv> (0 :: nat)"
abbreviation (input) "PD_SLOW \<equiv> (1 :: nat)"
abbreviation (input) "PD_ENTRY \<equiv> (2 :: nat)"
abbreviation (input) "PD_LOAD_N \<equiv> (3 :: nat)"
abbreviation (input) "PD_STORE_N \<equiv> (4 :: nat)"
abbreviation (input) "PD_ADD_N \<equiv> (5 :: nat)"
abbreviation (input) "PD_ADDI_N \<equiv> (6 :: nat)"
abbreviation (input) "PD_MOVI_N \<equiv> (7 :: nat)"
abbreviation (input) "PD_MOV_N \<equiv> (8 :: nat)"
abbreviation (input) "PD_BRANCH_N \<equiv> (9 :: nat)"
abbreviation (input) "PD_RETW \<equiv> (10 :: nat)"
abbreviation (input) "PD_RET \<equiv> (11 :: nat)"
abbreviation (input) "PD_ADD \<equiv> (12 :: nat)"
abbreviation (input) "PD_LOGIC \<equiv> (13 :: nat)"
abbreviation (input) "PD_EXTUI \<equiv> (14 :: nat)"
abbreviation (input) "PD_ALU \<equiv> (15 :: nat)"
abbreviation (input) "PD_FP0 \<equiv> (16 :: nat)"
abbreviation (input) "PD_FP1 \<equiv> (17 :: nat)"
abbreviation (input) "PD_MOVI \<equiv> (18 :: nat)"
abbreviation (input) "PD_ADDI \<equiv> (19 :: nat)"
abbreviation (input) "PD_LOAD \<equiv> (20 :: nat)"
abbreviation (input) "PD_STORE \<equiv> (21 :: nat)"
abbreviation (input) "PD_FP_MEMORY \<equiv> (22 :: nat)"
abbreviation (input) "PD_WINDOW_MEMORY \<equiv> (23 :: nat)"
abbreviation (input) "PD_CALL \<equiv> (24 :: nat)"
abbreviation (input) "PD_BRANCH_SI \<equiv> (25 :: nat)"
abbreviation (input) "PD_BRANCH \<equiv> (26 :: nat)"
abbreviation (input) "PD_RSR \<equiv> (27 :: nat)"
abbreviation (input) "PD_WSR \<equiv> (28 :: nat)"
abbreviation (input) "PD_RSIL \<equiv> (29 :: nat)"
abbreviation (input) "PD_JX_CALLX \<equiv> (30 :: nat)"
abbreviation (input) "PD_NOP \<equiv> (31 :: nat)"

definition predecode_kind_narrow :: "u32 \<Rightarrow> nat" where
  "predecode_kind_narrow insn =
     (let op0 = XT_OP0 insn; r = XT_R insn; t = XT_T insn in
      if op0 = 8 then PD_LOAD_N else if op0 = 9 then PD_STORE_N
      else if op0 = 10 then PD_ADD_N else if op0 = 11 then PD_ADDI_N
      else if op0 = 12 then (if t < 8 then PD_MOVI_N else PD_BRANCH_N)
      else if op0 = 13 then
        (if r = 0 then PD_MOV_N
         else if r = 15 \<and> t = 0 then PD_RET
         else if r = 15 \<and> t = 1 then PD_RETW
         else if r = 15 \<and> t = 3 then PD_NOP else PD_SLOW)
      else PD_SLOW)"

definition predecode_kind_qrst :: "u32 \<Rightarrow> nat" where
  "predecode_kind_qrst insn =
     (let op1 = XT_OP1 insn; op2 = XT_OP2 insn; r = XT_R insn; m = XT_M insn; nn = XT_N insn in
      if op1 = 0 then
        (if 8 \<le> op2 then PD_ADD
         else if 1 \<le> op2 \<and> op2 \<le> 3 then PD_LOGIC
         else if op2 \<noteq> 0 then PD_ALU
         else if r = 6 then PD_RSIL
         else if r = 2 \<and> xtensa_sync_encoding_valid insn then PD_NOP
         else if 8 \<le> r \<and> r \<le> 11 then PD_ALU
         else if r = 0 \<and> m = 2 \<and> nn = 0 then PD_RET
         else if r = 0 \<and> m = 2 \<and> nn = 1 then PD_RETW
         else if r = 0 \<and> (m = 3 \<or> (m = 2 \<and> nn = 2)) then PD_JX_CALLX
         else PD_SLOW)
      else if op1 = 4 \<or> op1 = 5 then PD_EXTUI
      else if op1 = 10 then PD_FP0
      else if op1 = 11 then PD_FP1
      else if op1 = 8 \<and> (op2 = 0 \<or> op2 = 1 \<or> op2 = 4 \<or> op2 = 5) then PD_FP_MEMORY
      else if op1 = 9 \<and> (op2 = 0 \<or> op2 = 4) then PD_WINDOW_MEMORY
      else if op1 = 3 \<and> op2 = 0 then PD_RSR
      else if op1 = 3 \<and> op2 = 1 then PD_WSR
      else if (op1 = 1 \<and> op2 \<noteq> 6) \<or> op1 = 2 \<or> op1 = 3 then PD_ALU
      else PD_SLOW)"

definition predecode_kind_wide :: "u32 \<Rightarrow> nat" where
  "predecode_kind_wide insn =
     (let op0 = XT_OP0 insn; r = XT_R insn in
      if op0 = 0 then predecode_kind_qrst insn
      else if op0 = 1 then PD_LOAD
      else if op0 = 2 then
        (if r = 0 \<or> r = 1 \<or> r = 2 \<or> r = 9 \<or> r = 11 then PD_LOAD
         else if r = 4 \<or> r = 5 \<or> r = 6 \<or> r = 15 then PD_STORE
         else if r = 10 then PD_MOVI
         else if r = 12 \<or> r = 13 then PD_ADDI
         else if r = 7 then PD_NOP else PD_SLOW)
      else if op0 = 3 then PD_FP_MEMORY
      else if op0 = 5 then PD_CALL
      else if op0 = 6 then (if XT_N insn = 3 \<and> XT_M insn = 0 then PD_ENTRY else PD_BRANCH_SI)
      else if op0 = 7 then PD_BRANCH
      else PD_SLOW)"

definition predecode_pack :: "'d cpu \<Rightarrow> u32 \<Rightarrow> nat \<Rightarrow> u32" where
  "predecode_pack c insn ilen =
     (if (insn = 0 \<and> ilen = 3) \<or> (ilen = 2 \<and> 14 \<le> XT_OP0 insn)
      then PREDECODE_PACK insn ilen OR push_bit 27 (of_nat PD_SLOW)
      else
        let kind = (if ilen = 2 then predecode_kind_narrow insn else predecode_kind_wide insn);
            need = (if kind = PD_ENTRY then 0 else window_operand_need c insn ilen)
        in PREDECODE_PACK insn ilen OR push_bit 25 (of_nat need) OR push_bit 27 (of_nat kind))"

section \<open>The per-instruction window check\<close>

definition window_check_need :: "'d cpu \<Rightarrow> u32 \<Rightarrow> nat \<Rightarrow> u32 \<Rightarrow> nat" where
  "window_check_need c insn ilen packed =
     (if packed AND PREDECODE_WINDOW_TAG \<noteq> 0 then
        (if PREDECODE_CLASS packed = PD_ENTRY
         then window_need2 (XT_S insn) (entry_dst (ps c) (XT_S insn))
         else PREDECODE_WINDOW_NEED packed)
      else window_operand_need c insn ilen)"

definition window_access_check ::
  "'d cpu \<Rightarrow> u32 \<Rightarrow> nat \<Rightarrow> u8 \<Rightarrow> u32 \<Rightarrow> ('d cpu) option" where
  "window_access_check c insn ilen hazard packed =
     (if \<not> XT_PS_WOE (ps c) \<or> XT_PS_EXCM (ps c) then None
      else
        let need = window_check_need c insn ilen packed in
        if need = 0 \<or> hazard AND (push_bit need 1 - 1) = 0 then None
        else xtensa_try_window_overflow_exception c (pc c) need)"

section \<open>Building the table\<close>

definition predecode_entry :: "'d cpu \<Rightarrow> nat \<Rightarrow> u32" where
  "predecode_entry c off =
     (case xtensa_fetch (mem c) (of_nat (PREDECODE_BASE + off)) of
        None \<Rightarrow> 0
      | Some (insn, ilen) \<Rightarrow> predecode_pack c insn ilen)"

definition xtensa_code_watch_attach :: "'d cpu \<Rightarrow> 'd cpu" where
  "xtensa_code_watch_attach c = c\<lparr>mem := snd (mem_code_watch_add (mem c) Watch_Self)\<rparr>"

definition xtensa_code_watch_detach :: "'d cpu \<Rightarrow> 'd cpu" where
  "xtensa_code_watch_detach c = c\<lparr>mem := mem_code_watch_remove (mem c) Watch_Self\<rparr>"

definition xtensa_predecode_build :: "'d cpu \<Rightarrow> 'd cpu" where
  "xtensa_predecode_build c =
     (if t_id (target c) \<noteq> FLEXE_TARGET_ESP32 then c
      else
        let c1 = c\<lparr>predecode := Some (\<lambda>off. if off < PREDECODE_SIZE
                                            then predecode_entry c off else 0)\<rparr>;
            c2 = xtensa_code_watch_attach c1
        in c2\<lparr>mem := mem_code_protect (mem c2) (of_nat PREDECODE_BASE)
                       (of_nat (PREDECODE_END - PREDECODE_BASE)) MEM_CODE_PREDECODE\<rparr>)"

section \<open>The fields of an entry\<close>

lemma PREDECODE_fields:
  fixes insn :: u32
  assumes i: "unat insn < 2 ^ 24" and l: "ilen = 2 \<or> ilen = 3" and n: "need < 4" and k: "kind < 32"
  defines "w \<equiv> PREDECODE_PACK insn ilen OR push_bit 25 (of_nat need) OR push_bit 27 (of_nat kind)"
  shows "PREDECODE_INSN w = insn" "PREDECODE_ILEN w = ilen" "PREDECODE_WINDOW_NEED w = need"
    "PREDECODE_CLASS w = kind"
proof -
  have hi: "bit insn j \<Longrightarrow> j < 24" for j using bit_word_less [of insn j 24] i by simp
  have hn: "bit need j \<Longrightarrow> j < 2" for j using bit_nat_less [of need j 2] n by simp
  have hk: "bit kind j \<Longrightarrow> j < 5" for j using bit_nat_less [of kind j 5] k by simp
  have m24: "(0x00FFFFFF :: u32) = mask 24" by (simp add: mask_eq_exp_minus_1)
  have m2: "(3 :: u32) = mask 2" by (simp add: mask_eq_exp_minus_1)
  have m1: "(1 :: u32) = mask 1" by (simp add: mask_eq_exp_minus_1)
  have wide: "PREDECODE_PACK insn ilen = insn OR push_bit 24 (of_bool (ilen = 3))"
    by (simp add: PREDECODE_PACK_def)
  show "PREDECODE_INSN w = insn"
    unfolding PREDECODE_INSN_def w_def wide m24
    by (rule bit_word_eqI) (auto simp: bit_simps dest: hi)
  have "drop_bit 24 w AND 1 = (if ilen = 3 then 1 else 0)"
    unfolding w_def wide m1
    by (rule bit_word_eqI) (auto simp: bit_simps dest: hi hn hk)
  then show "PREDECODE_ILEN w = ilen" using l by (auto simp: PREDECODE_ILEN_def)
  have "drop_bit 25 w AND 3 = of_nat need"
    unfolding w_def wide m2
    by (rule bit_word_eqI) (auto simp: bit_simps dest: hi hn hk)
  then show "PREDECODE_WINDOW_NEED w = need" using n
    by (simp add: PREDECODE_WINDOW_NEED_def unat_of_nat)
  have "drop_bit 27 w = of_nat kind"
    unfolding w_def wide
    by (rule bit_word_eqI) (auto simp: bit_simps dest: hi hn hk)
  then show "PREDECODE_CLASS w = kind" using k
    by (simp add: PREDECODE_CLASS_def unat_of_nat)
qed

lemma window_need2_less: "a < 16 \<Longrightarrow> b < 16 \<Longrightarrow> window_need2 a b < 4"
  by (simp add: window_need2_def nibble_div4)
lemma window_need3_less: "a < 16 \<Longrightarrow> b < 16 \<Longrightarrow> c < 16 \<Longrightarrow> window_need3 a b c < 4"
  by (simp add: window_need3_def Let_def nibble_div4)
lemma entry_dst_less: "entry_dst p s < 16"
proof -
  have "XT_PS_CALLINC p \<le> 3" using CALLINC_less [of p] by linarith
  moreover have "s mod 4 \<le> 3" using mod_less_divisor [of 4 s] by linarith
  ultimately show ?thesis unfolding entry_dst_def by simp
qed

lemma window_operand_need_less [simp]: "window_operand_need c insn ilen < 4"
  unfolding window_operand_need_def window_need_narrow_def window_need_wide_def window_need_qrst_def
    window_need_rst0_def Let_def
  by (intro if_less window_need2_less window_need3_less nibble_div4 entry_dst_less XT_bounds
      XT_N_less XT_N_mult4) simp_all

text \<open>The execution class an instruction gets.\<close>

definition predecode_kind :: "u32 \<Rightarrow> nat \<Rightarrow> nat" where
  "predecode_kind insn ilen =
     (if (insn = 0 \<and> ilen = 3) \<or> (ilen = 2 \<and> 14 \<le> XT_OP0 insn) then PD_SLOW
      else if ilen = 2 then predecode_kind_narrow insn else predecode_kind_wide insn)"

lemma predecode_kind_less: "predecode_kind insn ilen < 32"
  unfolding predecode_kind_def predecode_kind_narrow_def predecode_kind_wide_def
    predecode_kind_qrst_def Let_def
  by (intro if_less) simp_all

lemma predecode_pack_eq:
  "predecode_pack c insn ilen =
     PREDECODE_PACK insn ilen
       OR push_bit 25 (of_nat (if predecode_kind insn ilen = PD_ENTRY then 0
                               else window_operand_need c insn ilen))
       OR push_bit 27 (of_nat (predecode_kind insn ilen))"
proof (cases "(insn = 0 \<and> ilen = 3) \<or> (ilen = 2 \<and> 14 \<le> XT_OP0 insn)")
  case True
  then have "window_operand_need c insn ilen = 0"
  proof
    assume "insn = 0 \<and> ilen = 3"
    then show ?thesis
      by (simp add: window_operand_need_def window_need_wide_def window_need_qrst_def
          window_need_rst0_def Let_def XT_OP0_def XT_OP1_def XT_OP2_def XT_R_def XT_M_def)
  next
    assume "ilen = 2 \<and> 14 \<le> XT_OP0 insn"
    then show ?thesis
      by (simp add: window_operand_need_def window_need_narrow_def Let_def)
  qed
  with True show ?thesis by (simp add: predecode_pack_def predecode_kind_def)
next
  case False
  then show ?thesis
    by (simp only: predecode_pack_def predecode_kind_def if_not_P [OF False] if_False Let_def)
qed

lemma predecode_pack_fields:
  assumes "unat insn < 2 ^ 24" "ilen = 2 \<or> ilen = 3"
  shows "PREDECODE_INSN (predecode_pack c insn ilen) = insn"
    "PREDECODE_ILEN (predecode_pack c insn ilen) = ilen"
    "PREDECODE_CLASS (predecode_pack c insn ilen) = predecode_kind insn ilen"
    "PREDECODE_WINDOW_NEED (predecode_pack c insn ilen) =
       (if predecode_kind insn ilen = PD_ENTRY then 0 else window_operand_need c insn ilen)"
  unfolding predecode_pack_eq
  by (rule PREDECODE_fields [OF assms]; simp add: predecode_kind_less)+

end
