(* ===== verification/Windows.thy ===== *)
theory Windows
  imports Predecode
begin

text \<open>
  Synthesized register-window spill and fill (src/src/xtensa.c), the interpreter's path
  while the guest's vectors are not in place: the spill of one window to the save areas of
  the ABI and to the processor-side spill stack, the overflow check of ENTRY, the underflow
  fill of RETW, the flush at interrupt entry, and interrupt delivery, which uses the flush.
\<close>

definition SPILL_STACK_DEPTH :: nat where "SPILL_STACK_DEPTH = 32"

section \<open>Who called whom\<close>

definition window_callsize_of :: "'d cpu \<Rightarrow> nat \<Rightarrow> nat" where
  "window_callsize_of c widx =
     (let cs = window_callsize c (widx mod 16) in
      if cs \<noteq> 0 then cs
      else let b = unat (drop_bit 30 (phys_read c widx 0) AND 3) in if b \<noteq> 0 then b else 2)"

definition window_caller :: "'d cpu \<Rightarrow> nat \<Rightarrow> nat" where
  "window_caller c w = nat ((int w - int (window_callsize_of c w)) mod 16)"

text \<open>The walk backward from the current window, at most sixteen steps.\<close>

fun callee_walk :: "nat \<Rightarrow> (nat \<Rightarrow> nat) \<Rightarrow> nat \<Rightarrow> nat \<Rightarrow> nat \<Rightarrow> nat option" where
  "callee_walk 0 caller wb widx w = None"
| "callee_walk (Suc k) caller wb widx w =
     (if caller w = widx then Some w
      else if caller w = wb then None
      else callee_walk k caller wb widx (caller w))"

definition find_callee_window :: "'d cpu \<Rightarrow> nat \<Rightarrow> nat" where
  "find_callee_window c widx =
     (case callee_walk 16 (window_caller c) (unat (windowbase c)) widx (unat (windowbase c)) of
        Some w \<Rightarrow> w
      | None \<Rightarrow>
          (case find (win_live c) (map (\<lambda>i. (widx + i) mod 16) [1 ..< 16]) of
             Some w \<Rightarrow> w
           | None \<Rightarrow> widx))"

section \<open>Spill\<close>

text \<open>Store registers \<open>r\<close>, \<open>r+1\<close>, \<open>r+2\<close>, \<open>r+3\<close> of a window at four consecutive words.\<close>

definition spill_quad :: "'d host \<Rightarrow> nat \<Rightarrow> nat \<Rightarrow> u32 \<Rightarrow> 'd cpu \<Rightarrow> 'd cpu" where
  "spill_quad E widx r a c =
     fold (\<lambda>i c. mem_write32 E c (a + of_nat (4 * i)) (phys_read c widx (r + i))) [0 ..< 4] c"

definition spill_push :: "'d cpu \<Rightarrow> nat \<Rightarrow> u32 \<Rightarrow> 'd cpu" where
  "spill_push c si base =
     (if real_window_vectors c \<and> \<not> shadow_fill c
         \<and> window_vectors_ready c VECOFS_WINDOW_UNDERFLOW4 then c
      else
        let sl = spill_stack c si; d = ss_depth sl in
        if d < SPILL_STACK_DEPTH
        then c\<lparr>spill_stack := (spill_stack c)(si :=
                 sl\<lparr>ss_base := (ss_base sl)(d := base), ss_depth := d + 1\<rparr>)\<rparr>
        else c)"

text \<open>The record of the top entry; the depth was already incremented.\<close>

definition spill_record :: "'d cpu \<Rightarrow> nat \<Rightarrow> 'd cpu" where
  "spill_record c widx =
     (let si = widx mod 16; sl = spill_stack c si; d = ss_depth sl in
      if 0 < d \<and> d \<le> SPILL_STACK_DEPTH
      then c\<lparr>spill_stack := (spill_stack c)(si :=
               sl\<lparr>ss_core := (ss_core sl)(d - 1 := (\<lambda>i. if i < 4 then phys_read c widx i
                                                        else ss_core sl (d - 1) i)),
                  ss_extra := (ss_extra sl)(d - 1 := (\<lambda>i. if i < 8 then phys_read c widx (4 + i)
                                                         else ss_extra sl (d - 1) i))\<rparr>)\<rparr>
      else c)"

definition spill_extra :: "'d host \<Rightarrow> nat \<Rightarrow> nat \<Rightarrow> 'd cpu \<Rightarrow> 'd cpu" where
  "spill_extra E widx callsize c =
     (if callsize < 2 then c
      else
        let (extra_top, c1) = mem_read32 E c (phys_read c widx 1 - 12);
            c2 = spill_quad E widx 4 (extra_top - (if callsize = 3 then 48 else 32)) c1
        in if callsize = 3 then spill_quad E widx 8 (extra_top - 32) c2 else c2)"

definition synth_spill_window :: "'d host \<Rightarrow> 'd cpu \<Rightarrow> nat \<Rightarrow> 'd cpu" where
  "synth_spill_window E c widx =
     (let callee = find_callee_window c widx;
          callsize = window_callsize_of c callee;
          base = phys_read c callee 1;
          c1 = c\<lparr>spill_base := (spill_base c)(widx mod 16 := base)\<rparr>;
          c2 = spill_push c1 (widx mod 16) base;
          c3 = spill_quad E widx 0 (base - 16) c2;
          c4 = spill_extra E widx callsize c3;
          c5 = spill_record c4 widx
      in window_hazard_refresh
           (c5\<lparr>windowstart := windowstart c5 AND NOT (push_bit (widx mod 16) 1)\<rparr>))"

definition spill_if_live :: "'d host \<Rightarrow> nat \<Rightarrow> 'd cpu \<Rightarrow> 'd cpu" where
  "spill_if_live E k c =
     (if win_live c (win_above c k) then synth_spill_window E c (win_above c k) else c)"

definition synth_overflow_check :: "'d host \<Rightarrow> 'd cpu \<Rightarrow> nat \<Rightarrow> 'd cpu" where
  "synth_overflow_check E c callinc = fold (spill_if_live E) [1 ..< Suc (callinc + 3)] c"

definition xtensa_flush_windows :: "'d host \<Rightarrow> 'd cpu \<Rightarrow> 'd cpu" where
  "xtensa_flush_windows E c = fold (spill_if_live E) [1 ..< 16] c"

section \<open>Fill\<close>

text \<open>Slot and depth of the innermost record with a given base; slots from 0 up, each from
  its top down.\<close>

definition find_spill_record :: "'d cpu \<Rightarrow> u32 \<Rightarrow> (nat \<times> nat) option" where
  "find_spill_record c base =
     find (\<lambda>(s, d). ss_base (spill_stack c s) d = base)
       (concat (map (\<lambda>s. map (Pair s) (rev [0 ..< ss_depth (spill_stack c s)])) [0 ..< 16]))"

definition have_spill_record :: "'d cpu \<Rightarrow> u32 \<Rightarrow> bool" where
  "have_spill_record c base \<longleftrightarrow> find_spill_record c base \<noteq> None"

definition try_retw_underflow_exception ::
  "'d cpu \<Rightarrow> u32 \<Rightarrow> nat \<Rightarrow> nat \<Rightarrow> u32 \<Rightarrow> ('d cpu) option" where
  "try_retw_underflow_exception c a0 owb ret_wb fault_pc =
     (let vecofs = window_vec_offset a0 True in
      if \<not> real_window_vectors c \<or> \<not> XT_PS_WOE (ps c) \<or> XT_PS_EXCM (ps c)
         \<or> (shadow_fill c \<and> have_spill_record c (phys_read c owb 1))
         \<or> \<not> window_vectors_ready c vecofs
      then None
      else Some (raise_window_exception c fault_pc ret_wb vecofs))"

text \<open>The rotation of RETW: the call size in a0, or the one recorded at ENTRY, or four.\<close>

definition retw_rotation :: "'d cpu \<Rightarrow> nat" where
  "retw_rotation c =
     (let n = unat (drop_bit 30 (ar_read c 0) AND 3) in
      if n \<noteq> 0 then n
      else let k = window_callsize c (unat (windowbase c AND 15)) in if k = 0 then 4 else k)"

definition retw_window :: "'d cpu \<Rightarrow> nat" where
  "retw_window c = nat ((int (unat (windowbase c)) - int (retw_rotation c)) mod 16)"

definition xtensa_try_retw_underflow_exception :: "'d cpu \<Rightarrow> u32 \<Rightarrow> ('d cpu) option" where
  "xtensa_try_retw_underflow_exception c fault_pc =
     (if win_live c (retw_window c) then None
      else try_retw_underflow_exception c (ar_read c 0) (unat (windowbase c)) (retw_window c)
             fault_pc)"

text \<open>Restore registers \<open>r\<close> to \<open>r+3\<close> of a window from memory, or from a record.\<close>

definition fill_quad ::
  "'d host \<Rightarrow> nat \<Rightarrow> nat \<Rightarrow> (nat \<Rightarrow> u32) option \<Rightarrow> u32 \<Rightarrow> 'd cpu \<Rightarrow> 'd cpu" where
  "fill_quad E w r src a c =
     fold (\<lambda>i c. case src of
                   Some f \<Rightarrow> phys_write c w (r + i) (f i)
                 | None \<Rightarrow> let (v, c1) = mem_read32 E c (a + of_nat (4 * i))
                           in phys_write c1 w (r + i) v) [0 ..< 4] c"

definition heal_callsize :: "'d cpu \<Rightarrow> nat \<Rightarrow> 'd cpu" where
  "heal_callsize c w =
     (let healed = unat (drop_bit 30 (phys_read c w 0)) in
      if healed \<noteq> 0 then c\<lparr>window_callsize := (window_callsize c)(w mod 16 := healed)\<rparr> else c)"

definition fill_extra ::
  "'d host \<Rightarrow> nat \<Rightarrow> nat \<Rightarrow> (nat \<Rightarrow> u32) option \<Rightarrow> 'd cpu \<Rightarrow> 'd cpu" where
  "fill_extra E w callsize src c =
     (if callsize < 2 then c
      else
        let (extra_top, c1) = mem_read32 E c (phys_read c w 1 - 12);
            c2 = fill_quad E w 4 src (extra_top - (if callsize = 3 then 48 else 32)) c1
        in if callsize = 3
           then fill_quad E w 8 (map_option (\<lambda>f i. f (4 + i)) src) (extra_top - 32) c2
           else c2)"

definition synth_underflow_fill :: "'d host \<Rightarrow> 'd cpu \<Rightarrow> nat \<Rightarrow> nat \<Rightarrow> nat \<Rightarrow> 'd cpu" where
  "synth_underflow_fill E c ret_wb owb callsize =
     (let base = phys_read c owb 1;
          found = find_spill_record c base;
          c1 = (case found of
                  None \<Rightarrow> c
                | Some (s, d) \<Rightarrow>
                    c\<lparr>spill_stack := (spill_stack c)(s := (spill_stack c s)\<lparr>ss_depth := d\<rparr>)\<rparr>);
          core = map_option (\<lambda>(s, d). ss_core (spill_stack c s) d) found;
          extra = map_option (\<lambda>(s, d). ss_extra (spill_stack c s) d) found;
          c2 = fill_quad E ret_wb 0 core (base - 16) c1;
          c3 = heal_callsize c2 ret_wb;
          c4 = fill_extra E ret_wb callsize extra c3
      in window_hazard_refresh
           (c4\<lparr>windowstart := windowstart c4 OR push_bit (ret_wb mod 16) 1\<rparr>))"

section \<open>RETW\<close>

definition exec_retw :: "'d host \<Rightarrow> 'd cpu \<Rightarrow> nat \<Rightarrow> 'd cpu" where
  "exec_retw E c retw_len =
     (let a0 = ar_read c 0;
          n = retw_rotation c;
          next_pc = (pc c AND 0xC0000000) OR (a0 AND 0x3FFFFFFF);
          owb = unat (windowbase c);
          ret_wb = retw_window c;
          need_fill = (\<not> win_live c ret_wb);
          fault = (if need_fill
                   then try_retw_underflow_exception c a0 owb ret_wb (pc c - of_nat retw_len)
                   else None)
      in case fault of
           Some c' \<Rightarrow> c'
         | None \<Rightarrow>
             let c1 = (if need_fill then synth_underflow_fill E c ret_wb owb n else c);
                 c2 = window_hazard_refresh
                        (c1\<lparr>windowstart := windowstart c1 AND NOT (push_bit owb 1),
                            windowbase := of_nat ret_wb\<rparr>)
             in BRANCH_TO c2 next_pc)"

section \<open>Interrupt delivery\<close>

text \<open>The bit scan for the highest level above the effective one; 0 means none.\<close>

definition irq_best_level :: "(nat \<Rightarrow> nat) \<Rightarrow> u32 \<Rightarrow> nat \<Rightarrow> nat" where
  "irq_best_level lvl pending eff =
     fold (\<lambda>i best. if bit pending i \<and> eff < lvl i \<and> best < lvl i then lvl i else best)
       [0 ..< 32] 0"

definition high_level_vecofs :: "nat \<Rightarrow> u32" where
  "high_level_vecofs l = [0, 0, 0x180, 0x1C0, 0x200, 0x240, 0x280, 0x2C0] ! l"

definition dispatch_high_level :: "'d cpu \<Rightarrow> nat \<Rightarrow> 'd cpu" where
  "dispatch_high_level c l =
     (let c1 = c\<lparr>epc := (epc c)(l - 1 := pc c), eps := (eps c)(l - 1 := ps c),
                 ps := XT_PS_SET_EXCM (XT_PS_SET_INTLEVEL (ps c) (of_nat l)) 1\<rparr>;
          vec = vecbase c1 + high_level_vecofs l
      in if mem_get_ptr (mem c1) vec = None then c1\<lparr>exception := True, running := False\<rparr>
         else BRANCH_TO c1 vec)"

definition xtensa_check_interrupts :: "'d host \<Rightarrow> 'd cpu \<Rightarrow> 'd cpu" where
  "xtensa_check_interrupts E c =
     (let pending = interrupt c AND intenable c in
      if pending = 0 then c
      else
        let best = irq_best_level (int_level c) pending (effective_level (ps c)) in
        if best = 0 then c
        else
          let c1 = (if real_window_vectors c then c else xtensa_flush_windows E c);
              c2 = c1\<lparr>irq_dispatched := irq_dispatched c1 + 1\<rparr>
          in if best = 1 then xtensa_raise_exception c2 EXCCAUSE_LEVEL1_INT (pc c2) 0
             else dispatch_high_level c2 best)"

section \<open>Which interrupt is taken\<close>

text \<open>The levels of the sources that are pending, enabled and above the effective level.\<close>

definition deliverable_levels :: "'d cpu \<Rightarrow> nat set" where
  "deliverable_levels c = int_level c ` {i. i < 32 \<and> bit (interrupt c) i \<and> bit (intenable c) i
                                          \<and> effective_level (ps c) < int_level c i}"

lemma irq_scan_deliverable_iff:
  "irq_scan_deliverable lvl pending eff is \<longleftrightarrow> (\<exists>i \<in> set is. bit pending i \<and> eff < lvl i)"
  by (induction "is") auto

lemma irq_is_deliverable_iff: "xtensa_irq_is_deliverable c \<longleftrightarrow> deliverable_levels c \<noteq> {}"
  by (auto simp: xtensa_irq_is_deliverable_def deliverable_levels_def irq_scan_deliverable_iff
          bit_and_iff Let_def dest: and_zero_bitD)

lemma fold_max_level:
  "fold (\<lambda>i best. if P i \<and> best < f i then f i else best) xs (b::nat) =
     Max (insert b (f ` {i \<in> set xs. P i}))"
proof (induction xs arbitrary: b)
  case (Cons x xs)
  show ?case
  proof (cases "P x")
    case True
    have "f ` {i \<in> set (x # xs). P i} = insert (f x) (f ` {i \<in> set xs. P i})"
      using True by auto
    then have "Max (insert b (f ` {i \<in> set (x # xs). P i}))
               = Max (insert (max b (f x)) (f ` {i \<in> set xs. P i}))"
      by (cases "f ` {i \<in> set xs. P i} = {}") (simp_all add: max.assoc del: image_is_empty)
    then show ?thesis
      using True by (simp add: Cons.IH max_def)
  next
    case False
    then have "{i \<in> set (x # xs). P i} = {i \<in> set xs. P i}" by auto
    then show ?thesis using False by (simp add: Cons.IH)
  qed
qed simp

lemma irq_best_level_Max:
  "irq_best_level (int_level c) (interrupt c AND intenable c) (effective_level (ps c)) =
     Max (insert 0 (deliverable_levels c))"
  unfolding irq_best_level_def deliverable_levels_def
  using fold_max_level [of "\<lambda>i. bit (interrupt c AND intenable c) i \<and> effective_level (ps c) < int_level c i" "int_level c" "[0..<32]" 0]
  by (simp add: bit_and_iff conj_assoc)

lemma best_level_zero_iff:
  "Max (insert 0 (deliverable_levels c)) = 0 \<longleftrightarrow> deliverable_levels c = {}"
proof -
  have "finite (deliverable_levels c)" by (simp add: deliverable_levels_def)
  moreover have "l \<in> deliverable_levels c \<Longrightarrow> 0 < l" for l by (auto simp: deliverable_levels_def)
  ultimately show ?thesis
    by (metis Max.insert Max_in Max_singleton insert_not_empty less_numeral_extra(3) max_0L)
qed

end
