(* ===== verification/Float_Unit.thy ===== *)
theory Float_Unit
  imports Windows
begin

text \<open>
  The single-precision unit (\<open>exec_fp0\<close> and \<open>exec_fp1\<close> of src/src/xtensa.c). Registers hold
  IEEE-754 bit patterns. Arithmetic, square root, rounding and the integer conversions are
  the host's (the parameter \<open>h_fpu\<close>); moves, sign operations, exponent surgery, the constant
  table and the ordered and unordered comparisons are computed on the bits.
\<close>

section \<open>Bit patterns\<close>

definition fp_isnan :: "u32 \<Rightarrow> bool" where
  "fp_isnan b \<longleftrightarrow> 0x7F800000 < b AND 0x7FFFFFFF"

text \<open>The order of the non-NaN patterns; both zeros are equal.\<close>

definition fp_key :: "u32 \<Rightarrow> int" where
  "fp_key b = (if bit b 31 then - uint (b AND 0x7FFFFFFF) else uint (b AND 0x7FFFFFFF))"

definition fp_eq :: "u32 \<Rightarrow> u32 \<Rightarrow> bool" where
  "fp_eq a b \<longleftrightarrow> \<not> fp_isnan a \<and> \<not> fp_isnan b \<and> fp_key a = fp_key b"
definition fp_lt :: "u32 \<Rightarrow> u32 \<Rightarrow> bool" where
  "fp_lt a b \<longleftrightarrow> \<not> fp_isnan a \<and> \<not> fp_isnan b \<and> fp_key a < fp_key b"
definition fp_le :: "u32 \<Rightarrow> u32 \<Rightarrow> bool" where
  "fp_le a b \<longleftrightarrow> \<not> fp_isnan a \<and> \<not> fp_isnan b \<and> fp_key a \<le> fp_key b"

text \<open>\<open>(float)(1u << t)\<close> for \<open>t < 16\<close>.\<close>

definition fp_pow2 :: "nat \<Rightarrow> u32" where
  "fp_pow2 t = push_bit 23 (127 + of_nat t)"

definition fp_const_table :: "nat \<Rightarrow> u32" where
  "fp_const_table s =
     (if s = 1 then 0x3F800000 else if s = 2 then 0x40000000 else if s = 3 then 0x3F000000 else 0)"

definition fp_addexp :: "u32 \<Rightarrow> u32 \<Rightarrow> u32" where
  "fp_addexp rbits sbits =
     (let rexp = uint (drop_bit 23 rbits AND 0xFF);
          sexp = uint (drop_bit 23 sbits AND 0xFF);
          e = rexp + sexp - 127;
          e1 = (if e < 0 then 0 else e);
          e2 = (if 255 < e1 then 255 else e1)
      in ((rbits AND 0x807FFFFF) OR push_bit 23 (word_of_int e2 AND 0xFF))
         XOR (sbits AND 0x80000000))"

definition fr_write :: "'d cpu \<Rightarrow> nat \<Rightarrow> u32 \<Rightarrow> 'd cpu" where
  "fr_write c r v = c\<lparr>fr := (fr c)(r := v)\<rparr>"

definition fp_recip :: "fpu \<Rightarrow> u32 \<Rightarrow> u32" where
  "fp_recip F fs = (if fp_eq fs 0 then 0x7F800000 else fp_div F 0x3F800000 fs)"

section \<open>FP0: arithmetic and conversions\<close>

definition exec_fp1op :: "'d host \<Rightarrow> 'd cpu \<Rightarrow> u32 \<Rightarrow> 'd cpu" where
  "exec_fp1op E c insn =
     (let F = h_fpu E; r = XT_R insn; s = XT_S insn; t = XT_T insn; fs = fr c s in
      if t = 0 then fr_write c r fs
      else if t = 1 then fr_write c r (fs AND 0x7FFFFFFF)
      else if t = 3 then fr_write c r (fp_const_table s)
      else if t = 4 then ar_write c r fs
      else if t = 5 then fr_write c r (ar_read c s)
      else if t = 6 then fr_write c r (fs XOR 0x80000000)
      else if t = 7 then fr_write c r (fp_recip F fs)
      else if t = 8 then fr_write c r (fp_recip F fs)
      else if t = 9 then fr_write c r (fp_sqrt F fs)
      else if t = 10 then
        fr_write c r (if fp_le fs 0 then 0x7F800000 else fp_div F 0x3F800000 (fp_sqrt F fs))
      else if t = 11 then fr_write c r ((fs AND 0x807FFFFF) OR push_bit 23 127)
      else if t = 12 then fr_write c r (fp_sqrt F fs)
      else if t = 13 then fr_write c r (fp_div F fs (fr c r))
      else if t = 14 then fr_write c r (fp_addexp (fr c r) fs)
      else if t = 15 then fr_write c r fs
      else c)"

definition exec_fp0 :: "'d host \<Rightarrow> 'd cpu \<Rightarrow> u32 \<Rightarrow> 'd cpu" where
  "exec_fp0 E c insn =
     (let F = h_fpu E; op2 = XT_OP2 insn; r = XT_R insn; s = XT_S insn; t = XT_T insn;
          fs = fr c s; ft = fr c t;
          scaled = (if t \<noteq> 0 then fp_mul F fs (fp_pow2 t) else fs) in
      if op2 = 0 then fr_write c r (fp_add F fs ft)
      else if op2 = 1 then fr_write c r (fp_sub F fs ft)
      else if op2 = 2 then fr_write c r (fp_mul F fs ft)
      else if op2 = 4 then fr_write c r (fp_madd F (fr c r) fs ft)
      else if op2 = 5 then fr_write c r (fp_msub F (fr c r) fs ft)
      else if op2 = 6 then fr_write c r (fp_fma F fs ft (fr c r))
      else if op2 = 8 then ar_write c r (fp_to_s32 F (fp_round F scaled))
      else if op2 = 9 then ar_write c r (fp_to_s32 F (fp_trunc F scaled))
      else if op2 = 10 then ar_write c r (fp_to_s32 F (fp_floor F scaled))
      else if op2 = 11 then ar_write c r (fp_to_s32 F (fp_ceil F scaled))
      else if op2 = 12 then
        let v = fp_of_s32 F (ar_read c s)
        in fr_write c r (if t \<noteq> 0 then fp_div F v (fp_pow2 t) else v)
      else if op2 = 13 then
        let v = fp_of_u32 F (ar_read c s)
        in fr_write c r (if t \<noteq> 0 then fp_div F v (fp_pow2 t) else v)
      else if op2 = 14 then ar_write c r (fp_to_u32 F scaled)
      else if op2 = 15 then exec_fp1op E c insn
      else c)"

section \<open>FP1: comparisons and conditional moves\<close>

definition fp_compare :: "nat \<Rightarrow> u32 \<Rightarrow> u32 \<Rightarrow> bool" where
  "fp_compare op2 a b =
     (let un = (fp_isnan a \<or> fp_isnan b) in
      if op2 = 1 then un
      else if op2 = 2 then \<not> un \<and> fp_eq a b
      else if op2 = 3 then un \<or> fp_eq a b
      else if op2 = 4 then \<not> un \<and> fp_lt a b
      else if op2 = 5 then un \<or> fp_lt a b
      else if op2 = 6 then \<not> un \<and> fp_le a b
      else un \<or> fp_le a b)"

definition exec_fp1 :: "'d cpu \<Rightarrow> u32 \<Rightarrow> 'd cpu" where
  "exec_fp1 c insn =
     (let op2 = XT_OP2 insn; r = XT_R insn; s = XT_S insn; t = XT_T insn;
          mv = (\<lambda>b. if b then fr_write c r (fr c s) else c) in
      if 1 \<le> op2 \<and> op2 \<le> 7 then c\<lparr>br := put_bit (br c) r (fp_compare op2 (fr c s) (fr c t))\<rparr>
      else if op2 = 8 then mv (ar_read c t = 0)
      else if op2 = 9 then mv (ar_read c t \<noteq> 0)
      else if op2 = 10 then mv (sint (ar_read c t) < 0)
      else if op2 = 11 then mv (0 \<le> sint (ar_read c t))
      else if op2 = 12 then mv (\<not> bit (br c) t)
      else if op2 = 13 then mv (bit (br c) t)
      else c)"

end
