(* ===== verification/Exec_Registers.thy ===== *)
theory Exec_Registers
  imports Float_Unit
begin

text \<open>
  Register-to-register instructions (\<open>exec_qrst_registers\<close> of src/src/xtensa.c): shifts and
  multiplies (RST1), booleans, products and divisions (RST2), special and user registers,
  minima, maxima and conditional moves (RST3), and EXTUI.
\<close>

text \<open>\<open>(uint32_t)((int32_t)x >> n)\<close>.\<close>

definition sra :: "u32 \<Rightarrow> nat \<Rightarrow> u32" where
  "sra x n = signed_drop_bit n x"

definition exec_rst1 :: "'d host \<Rightarrow> 'd cpu \<Rightarrow> u32 \<Rightarrow> 'd cpu" where
  "exec_rst1 E c insn =
     (let op2 = XT_OP2 insn; r = XT_R insn; s = XT_S insn; t = XT_T insn;
          sa = unat (sar c AND 0x3F) in
      if op2 = 0 \<or> op2 = 1 then
        let n = 32 - (op2 mod 2 * 16 + t)
        in ar_write c r (if 32 \<le> n then 0 else push_bit n (ar_read c s))
      else if op2 = 2 \<or> op2 = 3 then ar_write c r (sra (ar_read c t) (op2 mod 2 * 16 + s))
      else if op2 = 4 then ar_write c r (drop_bit s (ar_read c t))
      else if op2 = 6 then
        let n = XT_SR_NUM insn; tmp = ar_read c t
        in sr_write E (ar_write c t (sr_read c n)) n tmp
      else if op2 = 8 then
        let cat = (push_bit 32 (ucast (ar_read c s)) OR ucast (ar_read c t) :: u64)
        in ar_write c r (ucast (drop_bit sa cat))
      else if op2 = 9 then ar_write c r (if 32 \<le> sa then 0 else drop_bit sa (ar_read c t))
      else if op2 = 10 then
        let cat = (push_bit 32 (ucast (ar_read c s)) :: u64)
        in ar_write c r (ucast (drop_bit sa cat))
      else if op2 = 11 then
        ar_write c r (if 32 \<le> sa then sra (ar_read c t) 31 else sra (ar_read c t) sa)
      else if op2 = 12 then
        ar_write c r ((ar_read c s AND 0xFFFF) * (ar_read c t AND 0xFFFF))
      else if op2 = 13 then
        ar_write c r (scast (ucast (ar_read c s) :: u16) * scast (ucast (ar_read c t) :: u16))
      else c)"

definition br_bool :: "nat \<Rightarrow> bool \<Rightarrow> bool \<Rightarrow> bool" where
  "br_bool op2 a b =
     (if op2 = 0 then a \<and> b else if op2 = 1 then a \<and> \<not> b else if op2 = 2 then a \<or> b
      else if op2 = 3 then a \<or> \<not> b else a \<noteq> b)"

definition exec_divide :: "'d cpu \<Rightarrow> nat \<Rightarrow> nat \<Rightarrow> nat \<Rightarrow> nat \<Rightarrow> 'd cpu" where
  "exec_divide c op2 r s t =
     (let d = ar_read c t; n = ar_read c s in
      if d = 0 then xtensa_raise_exception c EXCCAUSE_DIVIDE_BY_ZERO (pc c - 3) 0
      else if op2 = 12 then ar_write c r (n div d)
      else if op2 = 13 then
        ar_write c r (if n = 0x80000000 \<and> d = -1 then 0x80000000
                      else word_of_int (c_div (sint n) (sint d)))
      else if op2 = 14 then ar_write c r (n mod d)
      else
        ar_write c r (if n = 0x80000000 \<and> d = -1 then 0
                      else word_of_int (c_mod (sint n) (sint d))))"

definition exec_rst2 :: "'d cpu \<Rightarrow> u32 \<Rightarrow> 'd cpu" where
  "exec_rst2 c insn =
     (let op2 = XT_OP2 insn; r = XT_R insn; s = XT_S insn; t = XT_T insn;
          x = ar_read c s; y = ar_read c t in
      if op2 \<le> 4 then c\<lparr>br := put_bit (br c) r (br_bool op2 (bit (br c) s) (bit (br c) t))\<rparr>
      else if op2 = 6 then ar_write c r (if sint x < sint y then 1 else 0)
      else if op2 = 7 then ar_write c r (if x < y then 1 else 0)
      else if op2 = 8 then ar_write c r (x * y)
      else if op2 = 10 then ar_write c r (ucast (drop_bit 32 ((ucast x :: u64) * ucast y)))
      else if op2 = 11 then ar_write c r (ucast (drop_bit 32 ((scast x :: u64) * scast y)))
      else if 12 \<le> op2 then exec_divide c op2 r s t
      else c)"

definition clamp_signed :: "nat \<Rightarrow> int \<Rightarrow> int" where
  "clamp_signed n v =
     (let hi = 2 ^ n - 1; lo = - (2 ^ n)
      in if hi < v then hi else if v < lo then lo else v)"

definition exec_rst3 :: "'d host \<Rightarrow> 'd cpu \<Rightarrow> u32 \<Rightarrow> 'd cpu" where
  "exec_rst3 E c insn =
     (let op2 = XT_OP2 insn; r = XT_R insn; s = XT_S insn; t = XT_T insn;
          x = ar_read c s; y = ar_read c t;
          mv = (\<lambda>b. if b then ar_write c r x else c) in
      if op2 = 0 then ar_write c t (sr_read c (XT_SR_NUM insn))
      else if op2 = 1 then sr_write E c (XT_SR_NUM insn) y
      else if op2 = 2 then ar_write c r (sign_extend x (t + 8))
      else if op2 = 3 then ar_write c r (word_of_int (clamp_signed (t + 7) (sint x)))
      else if op2 = 4 then ar_write c r (if sint x < sint y then x else y)
      else if op2 = 5 then ar_write c r (if sint y < sint x then x else y)
      else if op2 = 6 then ar_write c r (if x < y then x else y)
      else if op2 = 7 then ar_write c r (if y < x then x else y)
      else if op2 = 8 then mv (y = 0)
      else if op2 = 9 then mv (y \<noteq> 0)
      else if op2 = 10 then mv (sint y < 0)
      else if op2 = 11 then mv (0 \<le> sint y)
      else if op2 = 12 then mv (\<not> bit (br c) t)
      else if op2 = 13 then mv (bit (br c) t)
      else if op2 = 14 then ar_write c r (ur_read c (s * 16 + t))
      else ur_write c (r * 16 + s) y)"

definition exec_extui :: "'d cpu \<Rightarrow> u32 \<Rightarrow> 'd cpu" where
  "exec_extui c insn =
     (let sh = XT_S insn + XT_OP1 insn mod 2 * 16
      in ar_write c (XT_R insn)
           (drop_bit sh (ar_read c (XT_T insn)) AND (push_bit (XT_OP2 insn + 1) 1 - 1)))"

definition exec_qrst_registers :: "'d host \<Rightarrow> 'd cpu \<Rightarrow> u32 \<Rightarrow> 'd cpu" where
  "exec_qrst_registers E c insn =
     (let op1 = XT_OP1 insn in
      if op1 = 1 then exec_rst1 E c insn
      else if op1 = 2 then exec_rst2 c insn
      else if op1 = 3 then exec_rst3 E c insn
      else if op1 = 4 \<or> op1 = 5 then exec_extui c insn
      else c)"

end
