(* ===== verification/Exec_Qrst.thy ===== *)
theory Exec_Qrst
  imports Exec_Registers
begin

text \<open>
  The RRR instruction group (\<open>exec_qrst\<close> of src/src/xtensa.c): returns and jumps through
  registers, MOVSP, the return-from-exception family, interrupt-level and wait instructions,
  boolean reductions, shift setup, window rotation, integer arithmetic, indexed
  floating-point accesses and the window handlers' L32E and S32E. The result is the C
  function's: whether a breakpoint instruction stopped execution. Exceptions are entered
  before they return, so they are states and not results.
\<close>

section \<open>ST0: control and state\<close>

definition exec_snm0 :: "'d host \<Rightarrow> 'd cpu \<Rightarrow> u32 \<Rightarrow> 'd cpu" where
  "exec_snm0 E c insn =
     (let s = XT_S insn; t = XT_T insn; m = XT_M insn; nn = XT_N insn in
      if s = 0 \<and> t = 0 then xtensa_raise_exception c EXCCAUSE_ILLEGAL (pc c - 3) 0
      else if m = 2 \<and> nn = 0 then BRANCH_TO c (ar_read c 0)
      else if m = 2 \<and> nn = 1 then exec_retw E c 3
      else if m = 2 \<and> nn = 2 then BRANCH_TO c (ar_read c s)
      else if m = 3 then
        let dest = ar_read c s;
            c1 = (if 0 < nn
                  then ar_write (c\<lparr>ps := XT_PS_SET_CALLINC (ps c) (of_nat nn)\<rparr>) (nn * 4)
                         (push_bit 30 (of_nat nn) OR (pc c AND 0x3FFFFFFF))
                  else ar_write c 0 (pc c))
        in BRANCH_TO c1 dest
      else c)"

text \<open>The window \<open>k\<close> places below the current one.\<close>

definition win_below :: "'d cpu \<Rightarrow> nat \<Rightarrow> nat" where
  "win_below c k = unat ((windowbase c - of_nat k) AND 15)"

definition movsp_copy :: "'d host \<Rightarrow> u32 \<Rightarrow> u32 \<Rightarrow> 'd cpu \<Rightarrow> 'd cpu" where
  "movsp_copy E old_sp new_sp c =
     fold (\<lambda>i c. let (v, c1) = mem_read32 E c (old_sp - 48 + of_nat (4 * i))
                 in mem_write32 E c1 (new_sp - 48 + of_nat (4 * i)) v) [0 ..< 12] c"

definition movsp_rebase :: "u32 \<Rightarrow> u32 \<Rightarrow> 'd cpu \<Rightarrow> 'd cpu" where
  "movsp_rebase old_sp new_sp c =
     c\<lparr>spill_base := (\<lambda>i. if i < 16 \<and> spill_base c i = old_sp then new_sp else spill_base c i),
       spill_stack := (\<lambda>i. let sl = spill_stack c i in
          if i < 16
          then sl\<lparr>ss_base := (\<lambda>j. if j < ss_depth sl \<and> j < SPILL_STACK_DEPTH
                                     \<and> ss_base sl j = old_sp then new_sp else ss_base sl j)\<rparr>
          else sl)\<rparr>"

definition exec_movsp :: "'d host \<Rightarrow> 'd cpu \<Rightarrow> u32 \<Rightarrow> 'd cpu" where
  "exec_movsp E c insn =
     (let s = XT_S insn; t = XT_T insn in
      if real_window_vectors c then
        (if XT_PS_WOE (ps c) \<and> \<not> XT_PS_EXCM (ps c)
            \<and> \<not> win_live c (win_below c 1) \<and> \<not> win_live c (win_below c 2)
            \<and> \<not> win_live c (win_below c 3)
         then xtensa_raise_exception c EXCCAUSE_ALLOCA (pc c - 3) 0
         else ar_write c t (ar_read c s))
      else
        let c1 = fold (\<lambda>k c. if win_live c (win_below c k)
                             then synth_spill_window E c (win_below c k) else c) [1, 2, 3] c;
            old_sp = ar_read c1 1;
            new_sp = ar_read c1 s;
            c2 = (if old_sp \<noteq> new_sp
                  then movsp_rebase old_sp new_sp (movsp_copy E old_sp new_sp c1) else c1)
        in ar_write c2 t new_sp)"

definition exec_rfei :: "'d cpu \<Rightarrow> u32 \<Rightarrow> 'd cpu" where
  "exec_rfei c insn =
     (let s = XT_S insn; t = XT_T insn in
      if t = 0 then
        (if s = 0 then
           let c1 = xtensa_request_irq_check (c\<lparr>ps := XT_PS_SET_EXCM (ps c) 0\<rparr>)
           in BRANCH_TO c1 (epc c1 0)
         else if s = 4 then
           let c1 = xtensa_request_irq_check (c\<lparr>ps := XT_PS_SET_EXCM (ps c) 0\<rparr>);
               c2 = window_hazard_refresh
                      (c1\<lparr>windowstart := windowstart c1
                             AND NOT (push_bit (unat (windowbase c1)) 1),
                          windowbase := XT_PS_OWB (ps c1)\<rparr>)
           in BRANCH_TO c2 (epc c2 0)
         else if s = 5 then
           let c1 = xtensa_request_irq_check (c\<lparr>ps := XT_PS_SET_EXCM (ps c) 0\<rparr>);
               c2 = window_hazard_refresh
                      (c1\<lparr>windowstart := windowstart c1
                             OR push_bit (unat (windowbase c1)) 1,
                          windowbase := XT_PS_OWB (ps c1)\<rparr>)
           in BRANCH_TO c2 (epc c2 0)
         else c)
      else if t = 1 then
        (if 1 \<le> s \<and> s \<le> 7
         then BRANCH_TO (c\<lparr>ps := eps c (s - 1)\<rparr>) (epc c (s - 1)) else c)
      else c)"

definition exec_syscall :: "'d host \<Rightarrow> 'd cpu \<Rightarrow> 'd cpu" where
  "exec_syscall E c =
     (if \<not> real_window_vectors c \<and> XT_PS_WOE (ps c)
      then fold (\<lambda>w c. if w \<noteq> unat (windowbase c) \<and> win_live c w
                       then synth_spill_window E c w else c) [0 ..< 16] c
      else xtensa_raise_exception c EXCCAUSE_SYSCALL (pc c - 3) 0)"

text \<open>ANY4, ALL4, ANY8 and ALL8 on the boolean register.\<close>

definition exec_br_reduce :: "'d cpu \<Rightarrow> u32 \<Rightarrow> 'd cpu" where
  "exec_br_reduce c insn =
     (let r = XT_R insn; s = XT_S insn; t = XT_T insn;
          m = (if r \<le> 9 then 0xF else 0xFF); v = drop_bit s (br c) AND m
      in c\<lparr>br := put_bit (br c) t (if r = 8 \<or> r = 10 then v \<noteq> 0 else v = m)\<rparr>)"

definition exec_st0 :: "'d host \<Rightarrow> 'd cpu \<Rightarrow> u32 \<Rightarrow> bool \<times> 'd cpu" where
  "exec_st0 E c insn =
     (let r = XT_R insn; s = XT_S insn; t = XT_T insn in
      if r = 0 then (False, exec_snm0 E c insn)
      else if r = 1 then (False, exec_movsp E c insn)
      else if r = 2 then
        (False, if xtensa_sync_encoding_valid insn then c
                else xtensa_raise_exception c EXCCAUSE_ILLEGAL (pc c - 3) 0)
      else if r = 3 then (False, exec_rfei c insn)
      else if r = 4 then (True, c\<lparr>debugcause := push_bit 3 1, debug_break := True\<rparr>)
      else if r = 5 then (False, exec_syscall E c)
      else if r = 6 then
        let c1 = ar_write c t (ps c)
        in (False, xtensa_request_irq_check
                     (c1\<lparr>ps := (ps c1 AND NOT 0xF) OR (of_nat s AND 0xF)\<rparr>))
      else if r = 7 then
        (False, c\<lparr>ps := XT_PS_SET_INTLEVEL (ps c) (of_nat s), halted := True\<rparr>)
      else if 8 \<le> r \<and> r \<le> 11 then (False, exec_br_reduce c insn)
      else (False, c))"

section \<open>ST1: shift setup, rotation, normalization\<close>

definition exec_st1 :: "'d host \<Rightarrow> 'd cpu \<Rightarrow> u32 \<Rightarrow> 'd cpu" where
  "exec_st1 E c insn =
     (let r = XT_R insn; s = XT_S insn; t = XT_T insn; x = ar_read c s in
      if r = 0 then c\<lparr>sar := x AND 0x1F\<rparr>
      else if r = 1 then c\<lparr>sar := 32 - (x AND 0x1F)\<rparr>
      else if r = 2 then c\<lparr>sar := (x AND 3) * 8\<rparr>
      else if r = 3 then c\<lparr>sar := 32 - (x AND 3) * 8\<rparr>
      else if r = 4 then c\<lparr>sar := of_nat (s + t mod 2 * 16)\<rparr>
      else if r = 8 then
        let c1 = (if \<not> real_window_vectors c \<and> XT_PS_WOE (ps c)
                  then synth_overflow_check E c 0 else c)
        in window_hazard_refresh
             (c1\<lparr>windowbase := (windowbase c1 + sign_extend (of_nat t) 4) AND 0xF\<rparr>)
      else if r = 14 then
        let v = (if sint x < 0 then NOT x else x)
        in ar_write c t (if v \<noteq> 0 then of_nat (builtin_clz v) else 31)
      else if r = 15 then ar_write c t (if x \<noteq> 0 then of_nat (builtin_clz x) else 32)
      else if r = 6 then ar_write c t 0
      else c)"

section \<open>Arithmetic\<close>

text \<open>ADD, ADDX2, ADDX4, ADDX8, SUB, SUBX2, SUBX4, SUBX8.\<close>

definition exec_addsub :: "'d cpu \<Rightarrow> u32 \<Rightarrow> 'd cpu" where
  "exec_addsub c insn =
     (let op2 = XT_OP2 insn; x = ar_read c (XT_S insn); y = ar_read c (XT_T insn);
          sx = push_bit (op2 mod 4) x
      in ar_write c (XT_R insn) (if op2 < 12 then sx + y else sx - y))"

definition exec_logic :: "'d cpu \<Rightarrow> u32 \<Rightarrow> 'd cpu" where
  "exec_logic c insn =
     (let op2 = XT_OP2 insn; x = ar_read c (XT_S insn); y = ar_read c (XT_T insn)
      in ar_write c (XT_R insn)
           (if op2 = 1 then x AND y else if op2 = 2 then x OR y else x XOR y))"

definition exec_rt0 :: "'d cpu \<Rightarrow> u32 \<Rightarrow> 'd cpu" where
  "exec_rt0 c insn =
     (let r = XT_R insn; s = XT_S insn; v = ar_read c (XT_T insn) in
      if s = 0 then ar_write c r (0 - v)
      else if s = 1 then ar_write c r (if v AND 0x80000000 \<noteq> 0 then 0 - v else v)
      else c)"

definition exec_rst0 :: "'d host \<Rightarrow> 'd cpu \<Rightarrow> u32 \<Rightarrow> bool \<times> 'd cpu" where
  "exec_rst0 E c insn =
     (let op2 = XT_OP2 insn in
      if op2 = 0 then exec_st0 E c insn
      else if op2 \<le> 3 then (False, exec_logic c insn)
      else if op2 = 4 then (False, exec_st1 E c insn)
      else if op2 = 6 then (False, exec_rt0 c insn)
      else if 8 \<le> op2 then (False, exec_addsub c insn)
      else (False, c))"

section \<open>Indexed floating-point and window-handler accesses\<close>

definition exec_lscx :: "'d host \<Rightarrow> 'd cpu \<Rightarrow> u32 \<Rightarrow> 'd cpu" where
  "exec_lscx E c insn =
     (let op2 = XT_OP2 insn; r = XT_R insn; s = XT_S insn; t = XT_T insn;
          base = ar_read c s in
      if op2 = 0 then
        let (v, c1) = mem_read32 E c (base + ar_read c t) in fr_write c1 r v
      else if op2 = 1 then
        let (v, c1) = mem_read32 E c base; c2 = fr_write c1 r v
        in ar_write c2 s (base + ar_read c2 t)
      else if op2 = 4 then mem_write32 E c (base + ar_read c t) (fr c r)
      else if op2 = 5 then
        let c1 = mem_write32 E c base (fr c r) in ar_write c1 s (base + ar_read c1 t)
      else c)"

definition exec_lsc4 :: "'d host \<Rightarrow> 'd cpu \<Rightarrow> u32 \<Rightarrow> 'd cpu" where
  "exec_lsc4 E c insn =
     (let op2 = XT_OP2 insn; t = XT_T insn;
          addr = ar_read c (XT_S insn) + (of_nat (4 * XT_R insn) - 64) in
      if op2 = 0 then let (v, c1) = mem_read32 E c addr in ar_write c1 t v
      else if op2 = 4 then mem_write32 E c addr (ar_read c t)
      else c)"

section \<open>The group\<close>

definition exec_qrst :: "'d host \<Rightarrow> 'd cpu \<Rightarrow> u32 \<Rightarrow> bool \<times> 'd cpu" where
  "exec_qrst E c insn =
     (let op1 = XT_OP1 insn in
      if op1 = 0 then exec_rst0 E c insn
      else if op1 \<le> 5 then (False, exec_qrst_registers E c insn)
      else if op1 = 8 then (False, exec_lscx E c insn)
      else if op1 = 9 then (False, exec_lsc4 E c insn)
      else if op1 = 10 then (False, exec_fp0 E c insn)
      else if op1 = 11 then (False, exec_fp1 c insn)
      else (False, c))"

end
