(* ===== verification/Ps_Fields.thy ===== *)
theory Ps_Fields
  imports Cpu_State
begin

text \<open>
  The fields of PS bit by bit: what each accessor of src/src/xtensa.h reads and which bits each
  setter changes. The setters write their own field and keep every other bit.
\<close>

lemma XT_PS_WOE_bit: "XT_PS_WOE p \<longleftrightarrow> bit p 18"
  by (simp add: XT_PS_WOE_def and_one_eq odd_iff_mod_2_eq_one [symmetric] bit_iff_odd_drop_bit)

lemma XT_PS_EXCM_bit: "XT_PS_EXCM p \<longleftrightarrow> bit p 4"
  by (simp add: XT_PS_EXCM_def and_one_eq odd_iff_mod_2_eq_one [symmetric] bit_iff_odd_drop_bit)

lemma bit_16_iff: "bit (16 :: int) i \<longleftrightarrow> i = 4"
proof -
  have "bit (2 ^ 4 :: int) i \<longleftrightarrow> i = 4" by (simp only: bit_exp_iff) auto
  then show ?thesis by simp
qed

lemma bit_SET_EXCM: "bit (XT_PS_SET_EXCM p v) i = (if i = 4 then bit v 0 else bit p i)"
  unfolding XT_PS_SET_EXCM_def
  by (auto simp: bit_simps bit_16_iff dest: bit_imp_le_length)

lemma bit_SET_INTLEVEL: "bit (XT_PS_SET_INTLEVEL p v) i = (if i < 4 then bit v i else bit p i)"
proof -
  have m: "(0xF :: u32) = mask 4" by (simp add: mask_eq_exp_minus_1)
  show ?thesis unfolding XT_PS_SET_INTLEVEL_def m by (auto simp: bit_simps dest: bit_imp_le_length)
qed

lemma bit_SET_CALLINC:
  "bit (XT_PS_SET_CALLINC p v) i = (if i = 16 \<or> i = 17 then bit v (i - 16) else bit p i)"
proof -
  have m: "(3 :: u32) = mask 2" by (simp add: mask_eq_exp_minus_1)
  show ?thesis unfolding XT_PS_SET_CALLINC_def m by (auto simp: bit_simps dest: bit_imp_le_length)
qed

lemma bit_SET_OWB:
  "bit (XT_PS_SET_OWB p v) i = (if 8 \<le> i \<and> i < 12 then bit v (i - 8) else bit p i)"
proof -
  have m: "(0xF :: u32) = mask 4" by (simp add: mask_eq_exp_minus_1)
  show ?thesis unfolding XT_PS_SET_OWB_def m by (auto simp: bit_simps dest: bit_imp_le_length)
qed

lemma SET_EXCM_restore: "\<not> XT_PS_EXCM p \<Longrightarrow> XT_PS_SET_EXCM (XT_PS_SET_EXCM p 1) 0 = p"
  by (rule bit_word_eqI) (auto simp: XT_PS_EXCM_bit bit_SET_EXCM)

lemma EXCM_SET [simp]: "XT_PS_EXCM (XT_PS_SET_EXCM p 1)" "\<not> XT_PS_EXCM (XT_PS_SET_EXCM p 0)"
  by (simp_all add: XT_PS_EXCM_bit bit_SET_EXCM)

lemma SET_EXCM_low [simp]: "XT_PS_INTLEVEL (XT_PS_SET_EXCM p v) = XT_PS_INTLEVEL p"
proof -
  have m: "(0xF :: u32) = mask 4" by (simp add: mask_eq_exp_minus_1)
  have "XT_PS_SET_EXCM p v AND 0xF = p AND 0xF"
    unfolding m by (rule bit_word_eqI) (auto simp: bit_and_iff bit_mask_iff bit_SET_EXCM)
  then show ?thesis by (simp add: XT_PS_INTLEVEL_def)
qed

lemma INTLEVEL_SET: "l < 16 \<Longrightarrow> XT_PS_INTLEVEL (XT_PS_SET_INTLEVEL p (of_nat l)) = l"
proof -
  assume l: "l < 16"
  have m: "(0xF :: u32) = mask 4" by (simp add: mask_eq_exp_minus_1)
  have "XT_PS_SET_INTLEVEL p (of_nat l) AND 0xF = of_nat l AND 0xF"
    unfolding m by (rule bit_word_eqI) (auto simp: bit_and_iff bit_mask_iff bit_SET_INTLEVEL)
  also have "\<dots> = of_nat l" using l by (intro and_15_id) (simp add: word_less_nat_alt unat_of_nat)
  finally show ?thesis using l by (simp add: XT_PS_INTLEVEL_def unat_of_nat)
qed

lemma WOE_EXCM_SET [simp]:
  "XT_PS_WOE (XT_PS_SET_CALLINC p v) = XT_PS_WOE p"
  "XT_PS_EXCM (XT_PS_SET_CALLINC p v) = XT_PS_EXCM p"
  "XT_PS_WOE (XT_PS_SET_OWB p v) = XT_PS_WOE p"
  "XT_PS_EXCM (XT_PS_SET_OWB p v) = XT_PS_EXCM p"
  "XT_PS_WOE (XT_PS_SET_EXCM p v) = XT_PS_WOE p"
  "XT_PS_WOE (XT_PS_SET_INTLEVEL p v) = XT_PS_WOE p"
  "XT_PS_EXCM (XT_PS_SET_INTLEVEL p v) = XT_PS_EXCM p"
  by (simp_all add: XT_PS_WOE_bit XT_PS_EXCM_bit bit_SET_CALLINC bit_SET_OWB bit_SET_EXCM
        bit_SET_INTLEVEL)

lemma CALLINC_bits: "XT_PS_CALLINC p = unat (drop_bit 16 p AND 3)"
  by (simp add: XT_PS_CALLINC_def)

lemma CALLINC_SET [simp]: "n < 4 \<Longrightarrow> XT_PS_CALLINC (XT_PS_SET_CALLINC p (of_nat n)) = n"
proof -
  assume n: "n < 4"
  have m: "(3 :: u32) = mask 2" by (simp add: mask_eq_exp_minus_1)
  have "drop_bit 16 (XT_PS_SET_CALLINC p (of_nat n)) AND 3 = (of_nat n AND 3 :: u32)"
    unfolding m by (rule bit_word_eqI)
      (auto simp: bit_and_iff bit_mask_iff bit_drop_bit_eq bit_SET_CALLINC)
  also have "\<dots> = of_nat n"
    unfolding m using n bit_nat_less [of n _ 2]
    by (intro bit_word_eqI) (auto simp: bit_simps)
  finally show ?thesis using n by (simp add: XT_PS_CALLINC_def unat_of_nat)
qed

lemma CALLINC_SET_other [simp]:
  "XT_PS_CALLINC (XT_PS_SET_OWB p v) = XT_PS_CALLINC p"
  "XT_PS_CALLINC (XT_PS_SET_EXCM p v) = XT_PS_CALLINC p"
proof -
  have m: "(3 :: u32) = mask 2" by (simp add: mask_eq_exp_minus_1)
  have "drop_bit 16 (XT_PS_SET_OWB p v) AND 3 = drop_bit 16 p AND 3"
    "drop_bit 16 (XT_PS_SET_EXCM p v) AND 3 = drop_bit 16 p AND 3"
    unfolding m by (rule bit_word_eqI,
      auto simp: bit_and_iff bit_mask_iff bit_drop_bit_eq bit_SET_OWB bit_SET_EXCM)+
  then show "XT_PS_CALLINC (XT_PS_SET_OWB p v) = XT_PS_CALLINC p"
    "XT_PS_CALLINC (XT_PS_SET_EXCM p v) = XT_PS_CALLINC p"
    by (simp_all add: XT_PS_CALLINC_def)
qed

end
