(* ===== verification/Sample_States.thy ===== *)
theory Sample_States
  imports Bus
begin

text \<open>
  A concrete machine, on which the theorems' hypotheses are shown to hold: the classic ESP32
  after reset with one page of instruction RAM (0x40080000) and one page of data RAM
  (0x3FFB0000), host callbacks that are all absent or inert, and no peripheral.
\<close>

definition sample_tables :: "u32 \<Rightarrow> hptr option" where
  "sample_tables p = (if p = 0x40080 then Some (Backing FLEXE_MEM_SRAM, 0x70000)
                      else if p = 0x3FFB0 then Some (Backing FLEXE_MEM_SRAM, 0x10000) else None)"

definition sample_mem :: xmem where
  "sample_mem = \<lparr>m_target = esp32_target, backing_size = esp32_backing_size,
     hbytes = (\<lambda>_ _. 0), flash_usable_size = 0x400000,
     mmio = (\<lambda>_. \<lparr>mh_read = None, mh_write = None, mh_masked_write = None, mh_ctx = 0\<rparr>),
     mmio_page_count = 128, unmapped_count = 0, unmapped_first = 0, code_state = None,
     page_table = sample_tables, write_page_table = sample_tables,
     journal_en = False, journal_unsafe = False, journal = []\<rparr>"

definition sample_fpu :: fpu where
  "sample_fpu = \<lparr>fp_add = (\<lambda>_ _. 0), fp_sub = (\<lambda>_ _. 0), fp_mul = (\<lambda>_ _. 0), fp_div = (\<lambda>_ _. 0),
     fp_madd = (\<lambda>_ _ _. 0), fp_msub = (\<lambda>_ _ _. 0), fp_fma = (\<lambda>_ _ _. 0), fp_sqrt = (\<lambda>_. 0),
     fp_round = (\<lambda>_. 0), fp_trunc = (\<lambda>_. 0), fp_floor = (\<lambda>_. 0), fp_ceil = (\<lambda>_. 0),
     fp_of_s32 = (\<lambda>_. 0), fp_of_u32 = (\<lambda>_. 0), fp_to_s32 = (\<lambda>_. 0), fp_to_u32 = (\<lambda>_. 0)\<rparr>"

definition sample_host :: "unit host" where
  "sample_host = \<lparr>h_mmio_read = (\<lambda>_ _ _ c. (0, c)), h_mmio_write = (\<lambda>_ _ _ _ c. c),
     h_mmio_masked_write = (\<lambda>_ _ _ _ _ c. c), h_peer_watch = (\<lambda>_ _ _ _ _ c. c),
     h_code_invalidate = None, h_periph_next_event = None, h_periph_event = None,
     h_pc_hook = None, h_pc_hook_bitmap = None, h_aot_bitmap = None, h_aot_lookup = (\<lambda>_. None),
     h_fpu = sample_fpu\<rparr>"

text \<open>After reset, with \<open>FLEXE_WINDOW_VECTORS\<close> at its default and the vectors in RAM.\<close>

definition sample_cpu :: "unit cpu" where
  "sample_cpu = (xtensa_cpu_reset_for_target True esp32_target sample_mem ())
     \<lparr>vecbase := 0x40080000, pc := 0x40080800\<rparr>"

lemmas sample_defs = sample_cpu_def xtensa_cpu_reset_for_target_def xtensa_cpu_init_for_target_def
  cpu_zero_def sample_mem_def sample_tables_def sample_host_def

end
