(* ===== verification/Interrupts.thy ===== *)
theory Interrupts
  imports Exec_Qrst Ps_Fields Sample_States
begin

text \<open>
  Interrupt delivery (\<open>xtensa_check_interrupts\<close>, src/src/xtensa.c) against its contract: the
  source of the highest deliverable level is taken, nothing is taken when no level is
  deliverable, and the return instructions bring the interrupted context back.
\<close>

lemma finite_deliverable [simp]: "finite (deliverable_levels c)"
  by (simp add: deliverable_levels_def)

lemma deliverable_not_excm: "1 \<in> deliverable_levels c \<Longrightarrow> \<not> XT_PS_EXCM (ps c)"
  by (auto simp: deliverable_levels_def effective_level_def XTENSA_EXCM_LEVEL_def split: if_splits)

lemma request_sel [simp]:
  "ps (xtensa_request_irq_check c) = ps c" "epc (xtensa_request_irq_check c) = epc c"
  "irq_check (xtensa_request_irq_check c)"
  by (auto simp: xtensa_request_irq_check_def xtensa_native_chain_barrier_def Let_def)

lemma request_pc [simp]: "irq_dispatched (xtensa_request_irq_check c) = irq_dispatched c"
  by (simp add: xtensa_request_irq_check_def xtensa_native_chain_barrier_def Let_def)

lemma effective_level_bounds:
  "XT_PS_INTLEVEL p \<le> effective_level p" "XT_PS_EXCM p \<Longrightarrow> 3 \<le> effective_level p"
  by (auto simp: effective_level_def XTENSA_EXCM_LEVEL_def)

text \<open>The interrupt that is taken: the largest deliverable level.\<close>

lemma check_interrupts_Max:
  assumes "xtensa_irq_is_deliverable c" "real_window_vectors c"
  defines "l \<equiv> Max (deliverable_levels c)" and "c1 \<equiv> c\<lparr>irq_dispatched := irq_dispatched c + 1\<rparr>"
  shows "xtensa_check_interrupts E c =
       (if l = 1 then xtensa_raise_exception c1 EXCCAUSE_LEVEL1_INT (pc c) 0
        else dispatch_high_level c1 l)"
    and "l \<in> deliverable_levels c" and "\<And>k. k \<in> deliverable_levels c \<Longrightarrow> k \<le> l"
proof -
  let ?D = "deliverable_levels c"
  have ne: "?D \<noteq> {}" using assms irq_is_deliverable_iff by blast
  then have l: "Max (insert 0 ?D) = l" by (simp add: l_def)
  have pend: "interrupt c AND intenable c \<noteq> 0"
    using assms(1) by (auto simp: xtensa_irq_is_deliverable_def)
  have "l \<noteq> 0" using best_level_zero_iff [of c] ne l by simp
  then show "xtensa_check_interrupts E c =
       (if l = 1 then xtensa_raise_exception c1 EXCCAUSE_LEVEL1_INT (pc c) 0
        else dispatch_high_level c1 l)"
    using assms(2) pend by (simp add: xtensa_check_interrupts_def irq_best_level_Max l Let_def c1_def)
  show "l \<in> ?D" "\<And>k. k \<in> ?D \<Longrightarrow> k \<le> l" using ne by (simp_all add: l_def)
qed

lemma deliverable_mono:
  assumes "int_level d = int_level c" "interrupt d = interrupt c" "intenable d = intenable c"
    and "\<And>k. k \<in> deliverable_levels c \<Longrightarrow> k \<le> effective_level (ps d)"
    and "effective_level (ps c) \<le> effective_level (ps d)"
  shows "deliverable_levels d = {}"
proof (rule ccontr)
  assume "deliverable_levels d \<noteq> {}"
  then obtain i where i: "i < 32" "bit (interrupt c) i" "bit (intenable c) i"
      "effective_level (ps d) < int_level c i"
    using assms(1-3) by (auto simp: deliverable_levels_def)
  then have "int_level c i \<in> deliverable_levels c"
    using assms(5) by (auto simp: deliverable_levels_def)
  then show False using assms(4) i by fastforce
qed

lemma raise_sel [simp]:
  "int_level (xtensa_raise_exception c k f v) = int_level c"
  "interrupt (xtensa_raise_exception c k f v) = interrupt c"
  "intenable (xtensa_raise_exception c k f v) = intenable c"
  by (simp_all add: xtensa_raise_exception_def BRANCH_TO_def Let_def)

lemma dispatch_sel [simp]:
  "int_level (dispatch_high_level c l) = int_level c"
  "interrupt (dispatch_high_level c l) = interrupt c"
  "intenable (dispatch_high_level c l) = intenable c"
  "ps (dispatch_high_level c l) = XT_PS_SET_EXCM (XT_PS_SET_INTLEVEL (ps c) (of_nat l)) 1"
  "epc (dispatch_high_level c l) = (epc c)(l - 1 := pc c)"
  "eps (dispatch_high_level c l) = (eps c)(l - 1 := ps c)"
  by (simp_all add: dispatch_high_level_def BRANCH_TO_def Let_def)

lemma raise_ps:
  "\<not> XT_PS_EXCM (ps c) \<Longrightarrow> ps (xtensa_raise_exception c k f v) = XT_PS_SET_EXCM (ps c) 1"
  "\<not> XT_PS_EXCM (ps c) \<Longrightarrow> epc (xtensa_raise_exception c k f v) = (epc c)(0 := f)"
  by (simp_all add: xtensa_raise_exception_def BRANCH_TO_def Let_def)

lemma SET_EXCM_level: "effective_level p \<le> effective_level (XT_PS_SET_EXCM p 1)"
  by (simp add: effective_level_def)

text \<open>The sample machine with three sources pending: lines 2 (level 1), 11 (level 3) and 19
  (level 2), interrupts unmasked.\<close>

definition sample_irq :: "unit cpu" where
  "sample_irq = sample_cpu\<lparr>ps := 0x40000, interrupt := 0x80804, intenable := 0xFFFFFFFF\<rparr>"

definition sample_irq1 :: "unit cpu" where
  "sample_irq1 = sample_cpu\<lparr>ps := 0x40000, interrupt := 4, intenable := 0xFFFFFFFF\<rparr>"

lemma Max_deliverable:
  "xtensa_irq_is_deliverable c \<Longrightarrow> Max (deliverable_levels c) =
     irq_best_level (int_level c) (interrupt c AND intenable c) (effective_level (ps c))"
  by (simp add: irq_best_level_Max irq_is_deliverable_iff)

lemma sample_irq_deliverable: "xtensa_irq_is_deliverable sample_irq"
  "xtensa_irq_is_deliverable sample_irq1"
  by code_simp+

lemma sample_irq_vectors: "real_window_vectors sample_irq" "real_window_vectors sample_irq1"
  by code_simp+

lemma sample_irq_levels: "Max (deliverable_levels sample_irq) = 3"
  "Max (deliverable_levels sample_irq1) = 1"
  unfolding Max_deliverable [OF sample_irq_deliverable(1)] Max_deliverable [OF sample_irq_deliverable(2)]
  by code_simp+

lemma sample_irq_levels_7: "\<forall>i < 32. int_level sample_irq i \<le> 7"
proof -
  have "\<forall>l \<in> set (t_interrupt_level esp32_target). l \<le> 7" by (simp add: esp32_target_def)
  then show ?thesis
    by (auto simp: sample_irq_def sample_cpu_def xtensa_cpu_reset_for_target_def
        xtensa_cpu_init_for_target_def window_hazard_refresh_def Let_def)
qed

text \<open>When no pending, enabled source lies above the effective interrupt level, an
  interrupt check leaves the whole machine as it is.\<close>

theorem check_interrupts_not_deliverable:
  "\<not> xtensa_irq_is_deliverable c \<Longrightarrow> xtensa_check_interrupts E c = c"
  by (simp add: xtensa_check_interrupts_def irq_best_level_Max best_level_zero_iff
        irq_is_deliverable_iff Let_def)

theorem check_interrupts_not_deliverable_witness:
  "xtensa_check_interrupts sample_host (sample_cpu\<lparr>interrupt := 4, intenable := 4\<rparr>)
     = sample_cpu\<lparr>interrupt := 4, intenable := 4\<rparr>"
  by (rule check_interrupts_not_deliverable) code_simp


text \<open>The vectors of the levels, as addresses: the general exception vectors for level 1 and
  \<open>VECBASE + 0x180, 0x1C0, .., 0x2C0\<close> for the levels 2 to 7.\<close>

lemma raise_exception_taken:
  "\<not> XT_PS_EXCM (ps c) \<Longrightarrow> xtensa_raise_exception c k f v =
     (let vec = vecbase c + (if XT_PS_UM (ps c) then 0x340 else 0x300);
          c2 = c\<lparr>epc := (epc c)(0 := f), exccause := k, excvaddr := v,
                 ps := XT_PS_SET_EXCM (ps c) 1\<rparr>
      in if mem_get_ptr (mem c) vec = None then c2\<lparr>exception := True, running := False\<rparr>
         else BRANCH_TO c2 vec)"
  by (simp add: xtensa_raise_exception_def Let_def)

lemma high_level_vecofs_steps:
  assumes "2 \<le> l" "l \<le> 7" shows "high_level_vecofs l = 0x100 + 0x40 * of_nat l"
proof -
  have "l \<in> {2, 3, 4, 5, 6, 7}" using assms by auto
  then show ?thesis by (auto simp: high_level_vecofs_def)
qed

lemma dispatch_high_level_vector:
  "2 \<le> l \<Longrightarrow> l \<le> 7 \<Longrightarrow> dispatch_high_level c l =
     (let vec = vecbase c + (0x100 + 0x40 * of_nat l);
          c2 = c\<lparr>epc := (epc c)(l - 1 := pc c), eps := (eps c)(l - 1 := ps c),
                 ps := XT_PS_SET_EXCM (XT_PS_SET_INTLEVEL (ps c) (of_nat l)) 1\<rparr>
      in if mem_get_ptr (mem c) vec = None then c2\<lparr>exception := True, running := False\<rparr>
         else BRANCH_TO c2 vec)"
  by (simp add: dispatch_high_level_def high_level_vecofs_steps Let_def)

text \<open>C3. With the guest's own window vectors in use (otherwise the core first spills its live
  frames itself) and interrupt levels of the architecture's range 0 to 7, a deliverable interrupt is taken at the highest
  deliverable level. A level-1 interrupt saves PC to EPC1, sets EXCCAUSE to the level-1
  cause, clears EXCVADDR, sets EXCM and continues at VECBASE + 0x340 or + 0x300 by the user
  mode bit; level \<open>l\<close> from 2 to 7 saves PC and PS to EPC[l] and EPS[l], sets INTLEVEL to \<open>l\<close>
  and EXCM, and continues at VECBASE + 0x100 + 0x40 l. An unmapped vector stops the core
  instead. Nothing else of the machine changes but the count of dispatched interrupts.\<close>

theorem check_interrupts_highest:
  assumes "xtensa_irq_is_deliverable c" "real_window_vectors c" "\<forall>i < 32. int_level c i \<le> 7"
  shows "\<exists>l \<in> deliverable_levels c. (\<forall>k \<in> deliverable_levels c. k \<le> l) \<and>
     xtensa_check_interrupts E c =
       (let vec = vecbase c + (if l = 1 then (if XT_PS_UM (ps c) then 0x340 else 0x300)
                               else 0x100 + 0x40 * of_nat l);
            saved = c\<lparr>irq_dispatched := irq_dispatched c + 1, epc := (epc c)(l - 1 := pc c)\<rparr>;
            entered =
              (if l = 1
               then saved\<lparr>exccause := 4, excvaddr := 0, ps := XT_PS_SET_EXCM (ps c) 1\<rparr>
               else saved\<lparr>eps := (eps c)(l - 1 := ps c),
                          ps := XT_PS_SET_EXCM (XT_PS_SET_INTLEVEL (ps c) (of_nat l)) 1\<rparr>)
        in if mem_get_ptr (mem c) vec = None then entered\<lparr>exception := True, running := False\<rparr>
           else BRANCH_TO entered vec)"
proof (intro bexI conjI ballI)
  let ?l = "Max (deliverable_levels c)"
  note M = check_interrupts_Max [OF assms(1,2)]
  show l: "?l \<in> deliverable_levels c" "\<And>k. k \<in> deliverable_levels c \<Longrightarrow> k \<le> ?l" using M(2,3) by auto
  have l7: "1 \<le> ?l" "?l \<le> 7" using l(1) assms(3) by (auto simp: deliverable_levels_def)
  show "xtensa_check_interrupts E c =
       (let vec = vecbase c + (if ?l = 1 then (if XT_PS_UM (ps c) then 0x340 else 0x300)
                               else 0x100 + 0x40 * of_nat ?l);
            saved = c\<lparr>irq_dispatched := irq_dispatched c + 1, epc := (epc c)(?l - 1 := pc c)\<rparr>;
            entered =
              (if ?l = 1
               then saved\<lparr>exccause := 4, excvaddr := 0, ps := XT_PS_SET_EXCM (ps c) 1\<rparr>
               else saved\<lparr>eps := (eps c)(?l - 1 := ps c),
                          ps := XT_PS_SET_EXCM (XT_PS_SET_INTLEVEL (ps c) (of_nat ?l)) 1\<rparr>)
        in if mem_get_ptr (mem c) vec = None then entered\<lparr>exception := True, running := False\<rparr>
           else BRANCH_TO entered vec)"
  proof (cases "?l = 1")
    case True
    then have "\<not> XT_PS_EXCM (ps c)" using deliverable_not_excm [of c] l(1) by simp
    then show ?thesis using M(1) [of E] True by (simp add: raise_exception_taken Let_def)
  next
    case False
    then have "2 \<le> ?l" using l7(1) by linarith
    then show ?thesis using M(1) [of E] False l7(2) by (simp add: dispatch_high_level_vector Let_def)
  qed
qed

theorem check_interrupts_highest_witness:
  "\<exists>l \<in> deliverable_levels sample_irq. (\<forall>k \<in> deliverable_levels sample_irq. k \<le> l) \<and>
     xtensa_check_interrupts sample_host sample_irq =
       (let vec = vecbase sample_irq + (if l = 1 then (if XT_PS_UM (ps sample_irq) then 0x340 else 0x300)
                               else 0x100 + 0x40 * of_nat l);
            saved = sample_irq\<lparr>irq_dispatched := irq_dispatched sample_irq + 1,
                      epc := (epc sample_irq)(l - 1 := pc sample_irq)\<rparr>;
            entered =
              (if l = 1
               then saved\<lparr>exccause := 4, excvaddr := 0, ps := XT_PS_SET_EXCM (ps sample_irq) 1\<rparr>
               else saved\<lparr>eps := (eps sample_irq)(l - 1 := ps sample_irq),
                          ps := XT_PS_SET_EXCM (XT_PS_SET_INTLEVEL (ps sample_irq) (of_nat l)) 1\<rparr>)
        in if mem_get_ptr (mem sample_irq) vec = None then entered\<lparr>exception := True, running := False\<rparr>
           else BRANCH_TO entered vec)"
  by (rule check_interrupts_highest [OF sample_irq_deliverable(1) sample_irq_vectors(1) sample_irq_levels_7])

text \<open>C4. An interrupt that is taken masks itself and every source at or below its level: right
  after the dispatch nothing is deliverable, so a second check does nothing.\<close>

theorem taken_interrupt_masks:
  assumes "real_window_vectors c" "\<forall>i < 32. int_level c i \<le> 7"
  shows "\<not> xtensa_irq_is_deliverable (xtensa_check_interrupts E c)"
proof (cases "xtensa_irq_is_deliverable c")
  case False
  then show ?thesis by (simp add: xtensa_check_interrupts_def irq_best_level_Max
        best_level_zero_iff irq_is_deliverable_iff Let_def)
next
  case True
  let ?l = "Max (deliverable_levels c)" and ?c1 = "c\<lparr>irq_dispatched := irq_dispatched c + 1\<rparr>"
  note M = check_interrupts_Max(1) [OF True assms(1), of E] check_interrupts_Max(2,3) [OF True assms(1)]
  have l7: "?l \<le> 7" using M(2) assms(2) by (auto simp: deliverable_levels_def)
  have above: "effective_level (ps c) < ?l" using M(2) by (auto simp: deliverable_levels_def)
  show ?thesis
  proof (cases "?l = 1")
    case L1: True
    let ?d = "xtensa_raise_exception ?c1 EXCCAUSE_LEVEL1_INT (pc c) 0"
    have "ps ?d = XT_PS_SET_EXCM (ps c) 1"
      using deliverable_not_excm [of c] M(2) L1 by (simp add: raise_ps)
    then have "deliverable_levels ?d = {}"
      using M(3) L1 effective_level_bounds(2) [of "XT_PS_SET_EXCM (ps c) 1"]
      by (intro deliverable_mono [of _ c]) (force simp: SET_EXCM_level)+
    then show ?thesis using M(1) L1 by (simp add: irq_is_deliverable_iff)
  next
    case LH: False
    let ?d = "dispatch_high_level ?c1 ?l"
    have "?l \<le> effective_level (ps ?d)"
      using effective_level_bounds(1) [of "ps ?d"] l7 by (simp add: INTLEVEL_SET)
    then have "deliverable_levels ?d = {}"
      using M(3) above by (intro deliverable_mono [of _ c])
        (auto simp del: dispatch_sel(4) Max_ge intro: order.trans [OF M(3)] order.trans [OF less_imp_le])
    then show ?thesis using M(1) LH by (simp add: irq_is_deliverable_iff)
  qed
qed

theorem taken_interrupt_masks_witness:
  "\<not> xtensa_irq_is_deliverable (xtensa_check_interrupts sample_host sample_irq)"
  by (rule taken_interrupt_masks [OF sample_irq_vectors(1) sample_irq_levels_7])

text \<open>C13. A high-level interrupt and the RFI of its level are inverse on the interrupted
  context: PC and PS come back exactly.\<close>

theorem interrupt_rfi_roundtrip:
  assumes "xtensa_irq_is_deliverable c" "real_window_vectors c"
    and "Max (deliverable_levels c) = l" "2 \<le> l" "l \<le> 7"
    and "XT_T insn = 1" "XT_S insn = l"
  shows "pc (exec_rfei (xtensa_check_interrupts E c) insn) = pc c
       \<and> ps (exec_rfei (xtensa_check_interrupts E c) insn) = ps c
       \<and> pc_written (exec_rfei (xtensa_check_interrupts E c) insn)"
  using check_interrupts_Max(1) [OF assms(1,2), of E] assms(3-)
  by (simp add: exec_rfei_def BRANCH_TO_def Let_def)

theorem interrupt_rfi_roundtrip_witness:
  "pc (exec_rfei (xtensa_check_interrupts sample_host sample_irq) 0x003310) = 0x40080800
    \<and> ps (exec_rfei (xtensa_check_interrupts sample_host sample_irq) 0x003310) = 0x40000
    \<and> pc_written (exec_rfei (xtensa_check_interrupts sample_host sample_irq) 0x003310)"
proof -
  have "pc sample_irq = 0x40080800" "ps sample_irq = 0x40000" "XT_T 0x003310 = 1" "XT_S 0x003310 = 3"
    by code_simp+
  then show ?thesis
    using interrupt_rfi_roundtrip [OF sample_irq_deliverable(1) sample_irq_vectors(1)
        sample_irq_levels(1), of "0x003310" sample_host] by simp
qed

text \<open>A level-1 interrupt and RFE are inverse on PC and PS, and RFE asks for the interrupt
  check that unmasking requires.\<close>

theorem interrupt_rfe_roundtrip:
  assumes "xtensa_irq_is_deliverable c" "real_window_vectors c"
    and "Max (deliverable_levels c) = 1" "XT_T insn = 0" "XT_S insn = 0"
  shows "pc (exec_rfei (xtensa_check_interrupts E c) insn) = pc c
       \<and> ps (exec_rfei (xtensa_check_interrupts E c) insn) = ps c
       \<and> irq_check (exec_rfei (xtensa_check_interrupts E c) insn)"
proof -
  have "\<not> XT_PS_EXCM (ps c)"
    using deliverable_not_excm [of c] check_interrupts_Max(2) [OF assms(1,2)] assms(3) by simp
  then show ?thesis
    using check_interrupts_Max(1) [OF assms(1,2), of E] assms(3-)
    by (simp add: exec_rfei_def BRANCH_TO_def Let_def raise_ps SET_EXCM_restore)
qed

theorem interrupt_rfe_roundtrip_witness:
  "pc (exec_rfei (xtensa_check_interrupts sample_host sample_irq1) 0x003000) = 0x40080800
    \<and> ps (exec_rfei (xtensa_check_interrupts sample_host sample_irq1) 0x003000) = 0x40000
    \<and> irq_check (exec_rfei (xtensa_check_interrupts sample_host sample_irq1) 0x003000)"
proof -
  have "pc sample_irq1 = 0x40080800" "ps sample_irq1 = 0x40000" "XT_T 0x003000 = 0" "XT_S 0x003000 = 0"
    by code_simp+
  then show ?thesis
    using interrupt_rfe_roundtrip [OF sample_irq_deliverable(2) sample_irq_vectors(2)
        sample_irq_levels(2), of "0x003000" sample_host] by simp
qed

end
