(* ===== verification/Exec_Core.thy ===== *)
theory Exec_Core
  imports Exec_Qrst
begin

text \<open>
  The remaining instruction formats of src/src/xtensa.c: loads, stores and immediate
  arithmetic (\<open>exec_lsai\<close>, L32R, the floating-point LSCI group), the 16-bit instructions
  (\<open>exec_narrow\<close>), calls, branches, loops and ENTRY (\<open>exec_calln\<close>, \<open>exec_si\<close>, \<open>exec_b\<close>)
  and the multiply-accumulate unit (\<open>exec_mac16\<close>). All of them run with \<open>pc\<close> already past
  the instruction.
\<close>

section \<open>Loads, stores, immediates\<close>

definition exec_load32 :: "'d host \<Rightarrow> 'd cpu \<Rightarrow> nat \<Rightarrow> u32 \<Rightarrow> 'd cpu" where
  "exec_load32 E c t addr = (let (v, c1) = mem_read32 E c addr in ar_write c1 t v)"

definition exec_s32c1i :: "'d host \<Rightarrow> 'd cpu \<Rightarrow> nat \<Rightarrow> u32 \<Rightarrow> 'd cpu" where
  "exec_s32c1i E c t addr =
     (let (old, c1) = mem_read32 E c addr;
          c2 = (if old = scompare1 c1 then mem_write32 E c1 addr (ar_read c1 t)
                else if xtensa_s32c1i_needs_handoff c1 old then c1\<lparr>core_handoff := True\<rparr>
                else c1)
      in ar_write c2 t old)"

definition exec_lsai :: "'d host \<Rightarrow> 'd cpu \<Rightarrow> u32 \<Rightarrow> 'd cpu" where
  "exec_lsai E c insn =
     (let r = XT_R insn; s = XT_S insn; t = XT_T insn; imm8 = XT_IMM8 insn;
          x = ar_read c s in
      if r = 0 then let (v, c1) = mem_read8 E c (x + imm8) in ar_write c1 t (ucast v)
      else if r = 1 then
        let (v, c1) = mem_read16 E c (x + push_bit 1 imm8) in ar_write c1 t (ucast v)
      else if r = 2 then exec_load32 E c t (x + push_bit 2 imm8)
      else if r = 4 then mem_write8 E c (x + imm8) (ucast (ar_read c t))
      else if r = 5 then mem_write16 E c (x + push_bit 1 imm8) (ucast (ar_read c t))
      else if r = 6 then mem_write32 E c (x + push_bit 2 imm8) (ar_read c t)
      else if r = 9 then
        let (v, c1) = mem_read16 E c (x + push_bit 1 imm8)
        in ar_write c1 t (sign_extend (ucast v) 16)
      else if r = 11 then exec_load32 E c t (x + push_bit 2 imm8)
      else if r = 14 then exec_s32c1i E c t (x + push_bit 2 imm8)
      else if r = 15 then mem_write32 E c (x + push_bit 2 imm8) (ar_read c t)
      else if r = 10 then ar_write c t (sign_extend (push_bit 8 (of_nat s) OR imm8) 12)
      else if r = 12 then ar_write c t (x + sign_extend imm8 8)
      else if r = 13 then ar_write c t (x + sign_extend imm8 8 * 256)
      else c)"

definition exec_l32r :: "'d host \<Rightarrow> 'd cpu \<Rightarrow> u32 \<Rightarrow> 'd cpu" where
  "exec_l32r E c insn =
     exec_load32 E c (XT_T insn)
       ((pc c AND NOT 3) + (0xFFFC0000 OR push_bit 2 (XT_IMM16 insn)))"

definition exec_lsci :: "'d host \<Rightarrow> 'd cpu \<Rightarrow> u32 \<Rightarrow> 'd cpu" where
  "exec_lsci E c insn =
     (let r = XT_R insn; s = XT_S insn; t = XT_T insn;
          addr = ar_read c s + push_bit 2 (XT_IMM8 insn) in
      if r = 0 then let (v, c1) = mem_read32 E c addr in fr_write c1 t v
      else if r = 4 then mem_write32 E c addr (fr c t)
      else if r = 8 then
        let (v, c1) = mem_read32 E c addr in ar_write (fr_write c1 t v) s addr
      else if r = 12 then ar_write (mem_write32 E c addr (fr c t)) s addr
      else c)"

section \<open>16-bit instructions\<close>

text \<open>MOVI.N: the range is -32 to 95, not a 7-bit sign extension.\<close>

definition movi_n_value :: "nat \<Rightarrow> nat \<Rightarrow> int" where
  "movi_n_value t r = (let imm7 = t mod 8 * 16 + r
                       in if 96 \<le> imm7 then int imm7 - 128 else int imm7)"

definition exec_st2 :: "'d cpu \<Rightarrow> u32 \<Rightarrow> 'd cpu" where
  "exec_st2 c insn =
     (let t = XT_T insn; s = XT_S insn; r = XT_R insn; t_hi = t div 4;
          dest = pc c + of_nat (t mod 4 * 16 + r) + 2 in
      if t_hi < 2 then ar_write c s (word_of_int (movi_n_value t r))
      else if t_hi = 2 then (if ar_read c s = 0 then BRANCH_TO c dest else c)
      else (if ar_read c s \<noteq> 0 then BRANCH_TO c dest else c))"

definition exec_st3 :: "'d host \<Rightarrow> 'd cpu \<Rightarrow> u32 \<Rightarrow> bool \<times> 'd cpu" where
  "exec_st3 E c insn =
     (let t = XT_T insn; s = XT_S insn; r = XT_R insn in
      if r = 0 then (False, ar_write c t (ar_read c s))
      else if r = 15 then
        (if t = 0 then (False, BRANCH_TO c (ar_read c 0))
         else if t = 1 then (False, exec_retw E c 2)
         else if t = 2 then (True, c\<lparr>debugcause := push_bit 4 1, debug_break := True\<rparr>)
         else if t = 6 then (False, xtensa_raise_exception c EXCCAUSE_ILLEGAL (pc c - 2) 0)
         else (False, c))
      else (False, c))"

definition exec_narrow :: "'d host \<Rightarrow> 'd cpu \<Rightarrow> u32 \<Rightarrow> bool \<times> 'd cpu" where
  "exec_narrow E c insn =
     (let op0 = XT_OP0 insn; t = XT_T insn; s = XT_S insn; r = XT_R insn;
          x = ar_read c s in
      if op0 = 8 then (False, exec_load32 E c t (x + of_nat (4 * r)))
      else if op0 = 9 then (False, mem_write32 E c (x + of_nat (4 * r)) (ar_read c t))
      else if op0 = 10 then (False, ar_write c r (x + ar_read c t))
      else if op0 = 11 then (False, ar_write c r (x + (if t = 0 then -1 else of_nat t)))
      else if op0 = 12 then (False, exec_st2 c insn)
      else if op0 = 13 then exec_st3 E c insn
      else (False, c))"

section \<open>Calls, branches, loops\<close>

definition exec_calln :: "'d cpu \<Rightarrow> u32 \<Rightarrow> 'd cpu" where
  "exec_calln c insn =
     (let nn = XT_N insn;
          offset = sign_extend (XT_OFFSET18 insn) 18;
          dest = push_bit 2 (drop_bit 2 (pc c - 3) + offset + 1);
          c1 = (if 0 < nn
                then ar_write (c\<lparr>ps := XT_PS_SET_CALLINC (ps c) (of_nat nn)\<rparr>) (nn * 4)
                       (push_bit 30 (of_nat nn) OR (pc c AND 0x3FFFFFFF))
                else ar_write c 0 (pc c))
      in BRANCH_TO c1 dest)"

definition b4const :: "nat \<Rightarrow> int" where
  "b4const r = [-1, 1, 2, 3, 4, 5, 6, 7, 8, 10, 12, 16, 32, 64, 128, 256] ! r"

definition b4constu :: "nat \<Rightarrow> u32" where
  "b4constu r = [32768, 65536, 2, 3, 4, 5, 6, 7, 8, 10, 12, 16, 32, 64, 128, 256] ! r"

definition branch_if :: "bool \<Rightarrow> 'd cpu \<Rightarrow> u32 \<Rightarrow> 'd cpu" where
  "branch_if b c a = (if b then BRANCH_TO c a else c)"

text \<open>The poll-spin test of a taken BEQZ.\<close>

definition poll_spin_hit :: "'d cpu \<Rightarrow> u32 \<Rightarrow> bool" where
  "poll_spin_hit c dest \<longleftrightarrow>
     dest \<in> set (poll_spin_pc c) \<and> mem_get_ptr (mem c) (ar_read c 9) \<noteq> None"

definition exec_bz :: "'d cpu \<Rightarrow> u32 \<Rightarrow> bool \<times> 'd cpu" where
  "exec_bz c insn =
     (let m = XT_M insn; v = ar_read c (XT_S insn);
          dest = pc c + sign_extend (XT_IMM12 insn) 12 + 1 in
      if m = 0 then
        (if v = 0 then (poll_spin_hit c dest, BRANCH_TO c dest) else (False, c))
      else if m = 1 then (False, branch_if (v \<noteq> 0) c dest)
      else if m = 2 then (False, branch_if (sint v < 0) c dest)
      else (False, branch_if (0 \<le> sint v) c dest))"

definition exec_bi0 :: "'d cpu \<Rightarrow> u32 \<Rightarrow> 'd cpu" where
  "exec_bi0 c insn =
     (let m = XT_M insn; k = b4const (XT_R insn); v = sint (ar_read c (XT_S insn));
          dest = pc c + sign_extend (XT_IMM8 insn) 8 + 1 in
      if m = 0 then branch_if (v = k) c dest
      else if m = 1 then branch_if (v \<noteq> k) c dest
      else if m = 2 then branch_if (v < k) c dest
      else branch_if (k \<le> v) c dest)"

text \<open>The first ENTRY of a core plants the link the missing bootloader frame would have.\<close>

definition entry_seed_link :: "'d host \<Rightarrow> 'd cpu \<Rightarrow> u32 \<Rightarrow> u32 \<Rightarrow> 'd cpu" where
  "entry_seed_link E c caller_sp new_sp =
     (if \<not> seed_entry_link c then c
      else
        let c1 = c\<lparr>seed_entry_link := False\<rparr> in
        if 16 \<le> new_sp \<and>
           flexe_target_range_uses_backing (target c1) (new_sp - 16) 16 FLEXE_MEM_SRAM \<and>
           mem_get_ptr_w (mem c1) (new_sp - 16) \<noteq> None \<and>
           mem_get_ptr_w (mem c1) (new_sp - 1) \<noteq> None
        then
          let (v, c2) = mem_read32 E c1 (new_sp - 12) in
          if v = 0
          then mem_write32 E (mem_write32 E c2 (new_sp - 16) 0) (new_sp - 12) caller_sp
          else c2
        else c1)"

definition entry_rotate :: "'d cpu \<Rightarrow> nat \<Rightarrow> 'd cpu" where
  "entry_rotate c callinc =
     (let owb = windowbase c; nwb = (owb + of_nat callinc) AND 0xF;
          c1 = window_hazard_refresh
                 (c\<lparr>windowbase := nwb, windowstart := windowstart c OR push_bit (unat nwb) 1\<rparr>);
          c2 = c1\<lparr>window_callsize := (window_callsize c1)(unat nwb := callinc),
                  ps := XT_PS_SET_OWB (ps c1) owb\<rparr>
      in if record_branch_targets c2 then c2\<lparr>jit_fallthrough_dispatch := 1\<rparr> else c2)"

definition exec_entry :: "'d host \<Rightarrow> 'd cpu \<Rightarrow> u32 \<Rightarrow> 'd cpu" where
  "exec_entry E c insn =
     (let s = XT_S insn;
          callinc = XT_PS_CALLINC (ps c);
          new_reg = entry_dst (ps c) s;
          caller_sp = ar_read c s;
          new_sp = caller_sp - push_bit 3 (XT_IMM12 insn);
          ent_vec = (real_window_vectors c \<and> XT_PS_WOE (ps c) \<and> \<not> XT_PS_EXCM (ps c)
                     \<and> window_vectors_ready c VECOFS_WINDOW_OVERFLOW4);
          fault = (if ent_vec then xtensa_try_entry_overflow_exception c (pc c - 3) else None)
      in case fault of
           Some c' \<Rightarrow> c'
         | None \<Rightarrow>
             let c1 = (if ent_vec then ar_write c new_reg new_sp
                       else synth_overflow_check E (ar_write c new_reg new_sp) callinc);
                 c2 = entry_seed_link E c1 caller_sp new_sp
             in entry_rotate c2 callinc)"

definition exec_loop :: "'d cpu \<Rightarrow> u32 \<Rightarrow> 'd cpu" where
  "exec_loop c insn =
     (let r = XT_R insn; v = ar_read c (XT_S insn);
          loop_end = pc c + XT_IMM8 insn + 1;
          c1 = c\<lparr>lend := loop_end, lbeg := pc c\<rparr>;
          skip = (r = 9 \<and> v = 0 \<or> r = 10 \<and> sint v \<le> 0);
          c2 = (if skip then BRANCH_TO c1 loop_end else c1\<lparr>lcount := v - 1\<rparr>)
      in if record_branch_targets c2 \<and> \<not> pc_written c2
         then c2\<lparr>jit_fallthrough_dispatch := 1\<rparr> else c2)"

definition exec_bi1 :: "'d host \<Rightarrow> 'd cpu \<Rightarrow> u32 \<Rightarrow> 'd cpu" where
  "exec_bi1 E c insn =
     (let m = XT_M insn; r = XT_R insn; s = XT_S insn;
          dest = pc c + sign_extend (XT_IMM8 insn) 8 + 1 in
      if m = 0 then exec_entry E c insn
      else if m = 1 then
        (if r = 0 then branch_if (\<not> bit (br c) s) c dest
         else if r = 1 then branch_if (bit (br c) s) c dest
         else if 8 \<le> r \<and> r \<le> 10 then exec_loop c insn
         else c)
      else if m = 2 then branch_if (ar_read c s < b4constu r) c dest
      else branch_if (b4constu r \<le> ar_read c s) c dest)"

definition exec_si :: "'d host \<Rightarrow> 'd cpu \<Rightarrow> u32 \<Rightarrow> bool \<times> 'd cpu" where
  "exec_si E c insn =
     (let nn = XT_N insn in
      if nn = 0 then (False, BRANCH_TO c (pc c + sign_extend (XT_OFFSET18 insn) 18 + 1))
      else if nn = 1 then exec_bz c insn
      else if nn = 2 then (False, exec_bi0 c insn)
      else (False, exec_bi1 E c insn))"

definition branch_taken :: "'d cpu \<Rightarrow> u32 \<Rightarrow> bool" where
  "branch_taken c insn =
     (let r = XT_R insn; t = XT_T insn; vs = ar_read c (XT_S insn); vt = ar_read c t;
          i = t + r mod 2 * 16 in
      if r = 0 then vs AND vt = 0
      else if r = 1 then vs = vt
      else if r = 2 then sint vs < sint vt
      else if r = 3 then vs < vt
      else if r = 4 then NOT vs AND vt = 0
      else if r = 5 then \<not> bit vs (unat (vt AND 31))
      else if r = 6 \<or> r = 7 then \<not> bit vs i
      else if r = 14 \<or> r = 15 then bit vs i
      else if r = 8 then vs AND vt \<noteq> 0
      else if r = 9 then vs \<noteq> vt
      else if r = 10 then sint vt \<le> sint vs
      else if r = 11 then vt \<le> vs
      else if r = 12 then NOT vs AND vt \<noteq> 0
      else bit vs (unat (vt AND 31)))"

definition exec_b :: "'d cpu \<Rightarrow> u32 \<Rightarrow> 'd cpu" where
  "exec_b c insn = branch_if (branch_taken c insn) c (pc c + sign_extend (XT_IMM8 insn) 8 + 1)"

section \<open>Multiply-accumulate\<close>

definition mac16_half :: "u32 \<Rightarrow> bool \<Rightarrow> int" where
  "mac16_half v hi = sint (ucast (if hi then drop_bit 16 v else v) :: u16)"

definition mac16_get_acc :: "'d cpu \<Rightarrow> u64" where
  "mac16_get_acc c = push_bit 32 (scast (ucast (acchi c) :: u8)) OR ucast (acclo c)"

definition mac16_set_acc :: "'d cpu \<Rightarrow> u64 \<Rightarrow> 'd cpu" where
  "mac16_set_acc c v = c\<lparr>acclo := ucast v, acchi := ucast (drop_bit 32 v) AND 0xFF\<rparr>"

text \<open>\<open>cpu->mr[i]\<close>: the array has four elements, the code may index up to seven.\<close>

definition mr_read :: "'d cpu \<Rightarrow> nat \<Rightarrow> u32 \<times> 'd cpu" where
  "mr_read c i = (mr c i, if i < 4 then c else c\<lparr>host_ub := True\<rparr>)"

definition mac16_load :: "'d host \<Rightarrow> 'd cpu \<Rightarrow> u32 \<Rightarrow> bool \<Rightarrow> 'd cpu" where
  "mac16_load E c insn inc =
     (let s = XT_S insn; addr = ar_read c s;
          (v, c1) = mem_read32 E c addr;
          c2 = c1\<lparr>mr := (mr c1)(XT_R insn div 4 := v)\<rparr>
      in ar_write c2 s (if inc then addr + 4 else addr - 4))"

definition mac16_sources :: "'d cpu \<Rightarrow> u32 \<Rightarrow> u32 \<times> u32 \<times> 'd cpu" where
  "mac16_sources c insn =
     (let mode = XT_OP2 insn div 4; s = XT_S insn; t = XT_T insn in
      if mode = 0 then (ar_read c s, ar_read c t, c)
      else if mode = 1 then let (y, c1) = mr_read c (t div 2) in (ar_read c s, y, c1)
      else if mode = 2 then let (x, c1) = mr_read c (s div 2) in (x, ar_read c t, c1)
      else let (x, c1) = mr_read c (s div 2); (y, c2) = mr_read c1 (t div 2) in (x, y, c2))"

definition mac16_result :: "nat \<Rightarrow> u32 \<Rightarrow> u32 \<Rightarrow> u64 \<Rightarrow> u64" where
  "mac16_result op1 x y acc =
     (let h1 = mac16_half x (op1 div 2 mod 2 = 1); h2 = mac16_half y (op1 mod 2 = 1);
          op = op1 div 4; product = word_of_int (h1 * h2) in
      if op = 3 then word_of_int ((h1 mod 65536) * (h2 mod 65536))
      else if op = 0 then product
      else if op = 1 then acc + product
      else acc - product)"

definition exec_mac16 :: "'d host \<Rightarrow> 'd cpu \<Rightarrow> u32 \<Rightarrow> 'd cpu" where
  "exec_mac16 E c insn =
     (let op1 = XT_OP1 insn; op2 = XT_OP2 insn in
      if op2 = 4 \<and> op1 div 4 = 0 then mac16_load E c insn False
      else if op2 = 5 \<and> op1 div 4 = 0 then mac16_load E c insn True
      else
        let (x, y, c1) = mac16_sources c insn;
            c2 = mac16_set_acc c1 (mac16_result op1 x y (mac16_get_acc c1))
        in if op2 div 4 = 2 then mac16_load E c2 insn (op2 mod 2 = 1) else c2)"

section \<open>Dispatch\<close>

text \<open>
  The \<open>switch\<close> of \<open>xtensa_step_impl\<close> on the fetched instruction, with \<open>pc\<close> already
  advanced. A debug break and a poll spin are told apart from ordinary retirement.
\<close>

datatype exec_result = Retired | Debug_Stop | Poll_Spin

definition exec_insn :: "'d host \<Rightarrow> 'd cpu \<Rightarrow> u32 \<Rightarrow> nat \<Rightarrow> exec_result \<times> 'd cpu" where
  "exec_insn E c insn ilen =
     (let stop = (\<lambda>(b, c'). (if b then Debug_Stop else Retired, c'));
          op0 = XT_OP0 insn in
      if ilen = 2 then stop (exec_narrow E c insn)
      else if op0 = 0 then stop (exec_qrst E c insn)
      else if op0 = 1 then (Retired, exec_l32r E c insn)
      else if op0 = 2 then (Retired, exec_lsai E c insn)
      else if op0 = 3 then (Retired, exec_lsci E c insn)
      else if op0 = 4 then (Retired, exec_mac16 E c insn)
      else if op0 = 5 then (Retired, exec_calln c insn)
      else if op0 = 6 then
        let (b, c') = exec_si E c insn in (if b then Poll_Spin else Retired, c')
      else if op0 = 7 then (Retired, exec_b c insn)
      else (Retired, c))"

end
