(* ===== verification/Guest_Call.thy ===== *)
theory Guest_Call
  imports Exec_Core
begin

text \<open>
  Asynchronous guest calls (src/src/guest_call.c): injecting a CALL8 into the running task
  and resuming it when the callee returns to the sentinel address. The static variables of
  the file are the field \<open>async\<close>; the flag that limits a warning to one print is left out.
\<close>

definition GUEST_CALL_ASYNC_SENTINEL :: u32 where
  "GUEST_CALL_ASYNC_SENTINEL = 0x40001FF0"

definition guest_call_async_busy :: "'d cpu \<Rightarrow> bool" where
  "guest_call_async_busy c = async_busy (async c)"

text \<open>\<open>args\<close> is the argument array with its count.\<close>

definition guest_call_async :: "'d cpu \<Rightarrow> u32 \<Rightarrow> u32 list \<Rightarrow> int \<times> 'd cpu" where
  "guest_call_async c entry args =
     (let sp = ar_read c 1 in
      if entry = 0 \<or> 4 < length args then (-1, c)
      else if guest_call_async_busy c \<or> in_guest_call c \<noteq> 0 then (-1, c)
      else if \<not> running c \<or> halted c \<or> exception c \<or> XT_PS_INTLEVEL (ps c) \<noteq> 0
              \<or> XT_PS_EXCM (ps c) \<or> \<not> XT_PS_WOE (ps c) then (-1, c)
      else if sp AND 3 \<noteq> 0 \<or> sp < 0x3FF80000 \<or> 0x40000000 \<le> sp then (-1, c)
      else
        let saved = (\<lambda>i. if i < 8 then ar_read c (8 + i) else async_saved_a8_a15 (async c) i);
            c1 = fold (\<lambda>i c. ar_write c (10 + i) (args ! i)) [0 ..< length args] c;
            c2 = ar_write c1 8 (push_bit 30 2 OR (GUEST_CALL_ASYNC_SENTINEL AND 0x3FFFFFFF))
        in (0, c2\<lparr>ps := XT_PS_SET_CALLINC (ps c2) 2, pc := entry, pc_written := True,
                  async := \<lparr>async_saved_a8_a15 = saved, async_resume_pc = pc c,
                            async_resume_sp = sp, async_resume_wb = windowbase c,
                            async_busy = True,
                            async_deadline = cycle_count c + 240000000\<rparr>\<rparr>))"

definition guest_call_async_return :: "'d cpu \<Rightarrow> 'd cpu" where
  "guest_call_async_return c =
     (let a = async c in
      if \<not> async_busy a \<or> ar_read c 1 \<noteq> async_resume_sp a
         \<or> windowbase c \<noteq> async_resume_wb a
      then c\<lparr>async := a\<lparr>async_busy := False\<rparr>, running := False\<rparr>
      else
        let c1 = fold (\<lambda>i c. ar_write c (8 + i) (async_saved_a8_a15 a i)) [0 ..< 8] c
        in c1\<lparr>pc := async_resume_pc a, pc_written := True,
              async := a\<lparr>async_busy := False\<rparr>\<rparr>)"

end
