(* ===== verification/Step.thy ===== *)
theory Step
  imports Guest_Call
begin

text \<open>
  One dispatch of the interpreter (\<open>xtensa_step_impl\<close> and \<open>xtensa_step\<close> of
  src/src/xtensa.c), in the order of the C function: the idle cycle of a halted core, the
  dispatch boundary with the asynchronous-call return and the PC hook, breakpoints, the
  ahead-of-time path, the fetch with its predecode table, the window check, the
  instruction, the zero-overhead loop, the cycle counters, timers and interrupts.
  \<open>local_cc\<close> and \<open>prev_pc\<close>, which the callers keep in locals, are arguments and results.
  Results follow the C convention: -1 stopped, 0 retired, 1 a poll spin, more than 1 the
  instructions a native block retired.
\<close>

section \<open>Pieces of a step\<close>

definition step_status :: "'d cpu \<Rightarrow> int \<Rightarrow> int" where
  "step_status c r = (if exception c then -1 else r)"

definition fire_if_due :: "'d host \<Rightarrow> 'd cpu \<Rightarrow> 'd cpu" where
  "fire_if_due E c = (if next_timer_event c \<le> ccount c then xtensa_fire_timers E c else c)"

definition irq_pending :: "'d cpu \<Rightarrow> bool" where
  "irq_pending c \<longleftrightarrow> interrupt c AND intenable c \<noteq> 0"

definition poll_irq :: "'d host \<Rightarrow> 'd cpu \<Rightarrow> 'd cpu" where
  "poll_irq E c =
     (if irq_check c then
        let c1 = c\<lparr>irq_check := False\<rparr>
        in if irq_pending c1 then xtensa_check_interrupts E c1 else c1
      else c)"

text \<open>The tail of a retired instruction: count the cycle, fire timers, poll interrupts.\<close>

definition retire :: "'d host \<Rightarrow> 'd cpu \<Rightarrow> 'd cpu" where
  "retire E c = poll_irq E (fire_if_due E (c\<lparr>ccount := ccount c + 1\<rparr>))"

definition step_halted :: "'d host \<Rightarrow> 'd cpu \<Rightarrow> 'd cpu" where
  "step_halted E c =
     (let c1 = fire_if_due E (c\<lparr>ccount := ccount c + 1\<rparr>)
      in if irq_pending c1 then xtensa_check_interrupts E (c1\<lparr>halted := False\<rparr>) else c1)"

definition hook_bitmap_test :: "(nat \<Rightarrow> u64) \<Rightarrow> u32 \<Rightarrow> bool" where
  "hook_bitmap_test bitmap a =
     (let idx = unat (drop_bit 2 a AND 0x7FFFF) in bit (bitmap (idx div 64)) (idx mod 64))"

definition hook_applies :: "'d host \<Rightarrow> u32 \<Rightarrow> bool" where
  "hook_applies E a \<longleftrightarrow>
     h_pc_hook E \<noteq> None \<and>
     (case h_pc_hook_bitmap E of None \<Rightarrow> True | Some bm \<Rightarrow> hook_bitmap_test bm a)"

definition dispatch_boundary :: "'d cpu \<Rightarrow> 'd cpu" where
  "dispatch_boundary c =
     (let accel = (jit_fallthrough_dispatch c \<noteq> 0);
          c1 = (if (pc_written c \<or> accel) \<and> record_branch_targets c
                then c\<lparr>br_ring := (br_ring c)(unat (br_ring_idx c AND 7) := pc c),
                       br_ring_idx := br_ring_idx c + 1\<rparr>
                else c);
          c2 = (if pc_written c \<and> pc c1 = GUEST_CALL_ASYNC_SENTINEL
                then guest_call_async_return c1 else c1)
      in if accel then c2\<lparr>jit_fallthrough_dispatch := 2\<rparr> else c2)"

text \<open>The hook call: its result, the machine and the cycle counter after it.\<close>

definition run_hook ::
  "'d host \<Rightarrow> 'd cpu \<Rightarrow> u64 \<Rightarrow> u32 \<Rightarrow> (u32 \<Rightarrow> 'd cpu \<Rightarrow> int \<times> 'd cpu) \<Rightarrow> int \<times> 'd cpu" where
  "run_hook E c cc room f =
     (let (n, c1) = f (pc c) (c\<lparr>cycle_count := cc, native_span_room := room\<rparr>)
      in (n, c1\<lparr>native_span_room := 0\<rparr>))"

definition clear_fallthrough :: "bool \<Rightarrow> 'd cpu \<Rightarrow> 'd cpu" where
  "clear_fallthrough accel c =
     (if accel \<and> jit_fallthrough_dispatch c = 2 then c\<lparr>jit_fallthrough_dispatch := 0\<rparr> else c)"

definition hook_retire :: "'d host \<Rightarrow> bool \<Rightarrow> 'd cpu \<Rightarrow> int \<Rightarrow> int \<times> 'd cpu \<times> u64" where
  "hook_retire E accel c n =
     (let c1 = clear_fallthrough accel c;
          c2 = c1\<lparr>ccount := ccount c1 + 1, cycle_count := cycle_count c1 + 1\<rparr>;
          c3 = window_hazard_refresh (poll_irq E (fire_if_due E c2))
      in (step_status c3 (if 1 < n then n else 0), c3, cycle_count c3))"

definition invalid_pc_step :: "'d cpu \<Rightarrow> u64 \<Rightarrow> u32 \<Rightarrow> 'd cpu" where
  "invalid_pc_step c cc last_pc =
     c\<lparr>cycle_count := cc, dbg_prev_pc := last_pc, running := False, exception := True\<rparr>"

definition xtensa_pc_is_valid :: "'d cpu \<Rightarrow> u32 \<Rightarrow> bool" where
  "xtensa_pc_is_valid c a = flexe_target_pc_is_executable (target c) a"

text \<open>The breakpoint test; \<open>Inl\<close> stops the step.\<close>

definition step_breakpoint :: "'d cpu \<Rightarrow> u64 \<Rightarrow> u32 \<Rightarrow> 'd cpu + 'd cpu" where
  "step_breakpoint c cc last_pc =
     (if breakpoints c = [] then Inr c
      else
        let c1 = c\<lparr>breakpoint_hit := False\<rparr> in
        if pc c1 \<in> set (breakpoints c1) then
          (if \<not> xtensa_pc_is_valid c1 (pc c1) then Inl (invalid_pc_step c1 cc last_pc)
           else Inl (c1\<lparr>breakpoint_hit := True, breakpoint_hit_addr := pc c1\<rparr>))
        else Inr c1)"

text \<open>The ahead-of-time path; \<open>Inl\<close> carries the result, machine and cycle counter.\<close>

definition step_aot ::
  "'d host \<Rightarrow> 'd cpu \<Rightarrow> bool \<Rightarrow> u64 \<Rightarrow> u32 \<Rightarrow> (int \<times> 'd cpu \<times> u64) + 'd cpu" where
  "step_aot E c pcw cc last_pc =
     (case h_aot_bitmap E of
        None \<Rightarrow> Inr c
      | Some abm \<Rightarrow>
          if \<not> pcw then Inr c
          else if \<not> xtensa_pc_is_valid c (pc c) then Inl (-1, invalid_pc_step c cc last_pc, cc)
          else if hook_bitmap_test abm (pc c) \<and>
                  \<not> (case h_pc_hook_bitmap E of None \<Rightarrow> False
                     | Some bm \<Rightarrow> hook_bitmap_test bm (pc c))
          then (case h_aot_lookup E (pc c) of
                  None \<Rightarrow> Inr c
                | Some fn \<Rightarrow>
                    let (n, c1) = fn (c\<lparr>cycle_count := cc\<rparr>) in
                    if 0 < n then
                      let c2 = window_hazard_refresh c1;
                          c3 = c2\<lparr>ccount := ccount c2 + word_of_int n\<rparr>;
                          cc3 = cycle_count c3 + word_of_int n;
                          c4 = fire_if_due E c3
                      in Inl (step_status c4 0, c4, cc3)
                    else Inr c1)
          else Inr c)"

datatype fetched = Fetched u32 nat u32 | Invalid_Pc | Fetch_Fault

text \<open>The predecode table answers for every non-zero entry; otherwise the bytes are fetched.
  The third component is the packed entry, zero when there is none.\<close>

definition predecode_lookup :: "'d cpu \<Rightarrow> u32 \<Rightarrow> u32" where
  "predecode_lookup c a =
     (case predecode c of
        None \<Rightarrow> 0
      | Some tab \<Rightarrow>
          let off = unat (a - of_nat PREDECODE_BASE) in
          if off < PREDECODE_SIZE then tab off else 0)"

definition step_fetch :: "'d cpu \<Rightarrow> fetched" where
  "step_fetch c =
     (let packed = predecode_lookup c (pc c) in
      if packed \<noteq> 0 then Fetched (PREDECODE_INSN packed) (PREDECODE_ILEN packed) packed
      else if \<not> xtensa_pc_is_valid c (pc c) then Invalid_Pc
      else case xtensa_fetch (mem c) (pc c) of
          None \<Rightarrow> Fetch_Fault
        | Some (insn, ilen) \<Rightarrow> Fetched insn ilen 0)"

text \<open>The zero-overhead loop back-edge.\<close>

definition loop_back :: "'d cpu \<Rightarrow> 'd cpu" where
  "loop_back c =
     (if 0 < lcount c \<and> pc c = lend c \<and> \<not> pc_written c
      then c\<lparr>lcount := lcount c - 1, pc := lbeg c, pc_written := True\<rparr> else c)"

definition step_execute :: "'d host \<Rightarrow> 'd cpu \<Rightarrow> u32 \<Rightarrow> nat \<Rightarrow> int \<times> 'd cpu" where
  "step_execute E c insn ilen =
     (case exec_insn E (c\<lparr>pc := pc c + of_nat ilen\<rparr>) insn ilen of
        (Debug_Stop, c1) \<Rightarrow> (-1, c1\<lparr>ccount := ccount c1 + 1\<rparr>)
      | (Poll_Spin, c1) \<Rightarrow> let c2 = retire E c1 in (step_status c2 1, c2)
      | (Retired, c1) \<Rightarrow> let c2 = retire E (loop_back c1) in (step_status c2 0, c2))"

definition step_have_insn ::
  "'d host \<Rightarrow> 'd cpu \<Rightarrow> bool \<Rightarrow> u32 \<Rightarrow> nat \<Rightarrow> u32 \<Rightarrow> int \<times> 'd cpu" where
  "step_have_insn E c pcw insn ilen packed =
     (let c1 = (if pcw then c\<lparr>pc_written := False\<rparr> else c);
          hz = window_hazard c1
      in case (if hz \<noteq> 0 then window_access_check c1 insn ilen hz packed else None) of
           Some c2 \<Rightarrow> let c3 = c2\<lparr>ccount := ccount c2 + 1\<rparr> in (step_status c3 0, c3)
         | None \<Rightarrow> step_execute E c1 insn ilen)"

section \<open>The step\<close>

definition step_fetch_exec ::
  "'d host \<Rightarrow> 'd cpu \<Rightarrow> bool \<Rightarrow> u64 \<Rightarrow> u32 \<Rightarrow> int \<times> 'd cpu \<times> u64" where
  "step_fetch_exec E c pcw cc last_pc =
     (case step_fetch c of
        Invalid_Pc \<Rightarrow> (-1, invalid_pc_step c cc last_pc, cc)
      | Fetch_Fault \<Rightarrow>
          let c1 = xtensa_raise_exception c EXCCAUSE_IFETCH_ERROR (pc c) 0
          in (step_status c1 0, c1, cc)
      | Fetched insn ilen packed \<Rightarrow>
          let (r, c1) = step_have_insn E c pcw insn ilen packed in (r, c1, cc + 1))"

text \<open>From the breakpoint test on: the part after the hook declined.\<close>

definition step_after_hook ::
  "'d host \<Rightarrow> 'd cpu \<Rightarrow> bool \<Rightarrow> bool \<Rightarrow> u64 \<Rightarrow> u32 \<Rightarrow> int \<times> 'd cpu \<times> u64" where
  "step_after_hook E c accel pcw cc last_pc =
     (case step_breakpoint (clear_fallthrough accel c) cc last_pc of
        Inl c1 \<Rightarrow> (-1, c1, cc)
      | Inr c1 \<Rightarrow>
          (case step_aot E c1 pcw cc last_pc of
             Inl res \<Rightarrow> res
           | Inr c2 \<Rightarrow> step_fetch_exec E c2 pcw cc last_pc))"

definition xtensa_step_impl ::
  "'d host \<Rightarrow> 'd cpu \<Rightarrow> u64 \<Rightarrow> u32 \<Rightarrow> u32 \<Rightarrow> int \<times> 'd cpu \<times> u64 \<times> u32" where
  "xtensa_step_impl E c cc prev_pc room =
     (let (r, c', cc') =
        (if halted c then
           let c1 = step_halted E c in (step_status c1 0, c1, cc + 1)
         else
           let accel = (jit_fallthrough_dispatch c \<noteq> 0); pcw = pc_written c;
               c1 = dispatch_boundary c
           in case h_pc_hook E of
                Some f \<Rightarrow>
                  if (pcw \<or> accel) \<and> hook_applies E (pc c1) then
                    let (n, c2) = run_hook E c1 cc room f in
                    if n \<noteq> 0 then hook_retire E accel c2 n
                    else step_after_hook E c2 accel pcw cc prev_pc
                  else step_after_hook E c1 accel pcw cc prev_pc
              | None \<Rightarrow> step_after_hook E c1 accel pcw cc prev_pc)
      in (r, c', cc', pc c))"

text \<open>The single-step entry point checks timers and interrupts unconditionally.\<close>

definition xtensa_step :: "'d host \<Rightarrow> 'd cpu \<Rightarrow> int \<times> 'd cpu" where
  "xtensa_step E c =
     (if debug_break c then (-1, c)
      else
        let c0 = window_hazard_refresh c;
            (r, c1, cc, prev_pc) = xtensa_step_impl E c0 (cycle_count c0) (dbg_prev_pc c0) 0;
            c2 = c1\<lparr>dbg_prev_pc := prev_pc, cycle_count := cc,
                    insn_count := (if halted c then insn_count c1
                                   else insn_count c1 + (if 1 < r then word_of_int r else 1))\<rparr>;
            c3 = fire_if_due E c2;
            c4 = (if irq_pending c3 then xtensa_check_interrupts E c3 else c3)
        in (if r < 0 then -1 else 0, c4))"

end
