(* ===== verification/Cached.thy ===== *)
theory Cached
  imports Step
begin

text \<open>
  The cached batch runner (\<open>exec_cached_qrst\<close> and \<open>xtensa_run_cached\<close> of src/src/xtensa.c).
  It executes predecoded instruction classes with \<open>pc\<close>, the dispatch flag and the cycle
  count in locals and leaves everything with a callback, a fault or a debugger stop to
  \<open>xtensa_step_impl\<close>. The locals of the C function are the record \<open>cached\<close>; leaving the
  loop, by \<open>break\<close> or \<open>goto cached_done\<close>, is \<open>None\<close>.
\<close>

section \<open>One cached instruction\<close>

text \<open>A memory operand: \<open>width\<close>, \<open>store\<close>, \<open>fp_memory\<close>, \<open>memory_reg\<close>, \<open>addr\<close> and the base update.\<close>

record cached_mem =
  cm_width :: nat
  cm_store :: bool
  cm_fp :: bool
  cm_reg :: nat
  cm_addr :: u32
  cm_update :: "u32 option"

text \<open>What the switch leaves behind: the machine, \<open>next_pc\<close>, \<open>branch\<close>, whether it went
  through \<open>window_context_changed\<close>, and the memory operand.\<close>

record 'd cached_out =
  co_cpu :: "'d cpu"
  co_next :: u32
  co_branch :: bool
  co_ctx :: bool
  co_mem :: "cached_mem option"

definition co_plain :: "'d cpu \<Rightarrow> u32 \<Rightarrow> ('d cached_out) option" where
  "co_plain c next_pc =
     Some \<lparr>co_cpu = c, co_next = next_pc, co_branch = False, co_ctx = False, co_mem = None\<rparr>"

definition co_context :: "'d cpu \<Rightarrow> u32 \<Rightarrow> bool \<Rightarrow> ('d cached_out) option" where
  "co_context c next_pc b =
     Some \<lparr>co_cpu = c, co_next = next_pc, co_branch = b, co_ctx = True, co_mem = None\<rparr>"

definition co_jump :: "'d cpu \<Rightarrow> bool \<Rightarrow> u32 \<Rightarrow> u32 \<Rightarrow> ('d cached_out) option" where
  "co_jump c b dest next_pc =
     Some \<lparr>co_cpu = c, co_next = (if b then dest else next_pc), co_branch = b, co_ctx = False,
           co_mem = None\<rparr>"

definition co_access :: "'d cpu \<Rightarrow> u32 \<Rightarrow> cached_mem \<Rightarrow> ('d cached_out) option" where
  "co_access c next_pc m =
     Some \<lparr>co_cpu = c, co_next = next_pc, co_branch = False, co_ctx = False, co_mem = Some m\<rparr>"

definition exec_cached_qrst :: "'d host \<Rightarrow> 'd cpu \<Rightarrow> u32 \<Rightarrow> u32 \<Rightarrow> ('d cpu) option" where
  "exec_cached_qrst E c insn elapsed =
     (let op1 = XT_OP1 insn; op2 = XT_OP2 insn; r = XT_R insn; s = XT_S insn; t = XT_T insn in
      if op1 = 0 then
        (if op2 = 0 then
           (if r = 6 \<and> \<not> irq_pending c then
              let c1 = ar_write c t (ps c)
              in Some (c1\<lparr>ps := (ps c1 AND NOT 0xF) OR of_nat s\<rparr>)
            else if r = 2 \<and> xtensa_sync_encoding_valid insn then Some c
            else if 8 \<le> r \<and> r \<le> 11 then Some (snd (exec_qrst E c insn))
            else None)
         else if op2 = 4 then
           (if r = 8 \<and> \<not> real_window_vectors c \<and> XT_PS_WOE (ps c) then None
            else Some (snd (exec_qrst E c insn)))
         else if op2 = 6 then
           (let v = ar_read c t in
            Some (if s = 0 then ar_write c r (0 - v)
                  else if s = 1 then ar_write c r (if v AND 0x80000000 \<noteq> 0 then 0 - v else v)
                  else c))
         else if 8 \<le> op2 then
           (let left = push_bit (op2 mod 4) (ar_read c s); right = ar_read c t
            in Some (ar_write c r (if op2 < 12 then left + right else left - right)))
         else if 1 \<le> op2 \<and> op2 \<le> 3 then
           (let left = ar_read c s; right = ar_read c t
            in Some (ar_write c r (if op2 = 1 then left AND right
                                   else if op2 = 2 then left OR right else left XOR right)))
         else Some c)
      else if op1 = 1 \<and> op2 = 6 then None
      else if op1 = 2 \<and> 12 \<le> op2 \<and> ar_read c t = 0 then None
      else if op1 = 3 \<and> op2 \<le> 1 then
        (let sr = XT_SR_NUM insn in
         if op2 = 0
         then Some (ar_write c t (if sr = 234 then ccount c + elapsed else sr_read c sr))
         else
           let v = ar_read c t in
           if sr = 234 \<or> sr = 240 \<or> sr = 241 \<or> sr = 242 \<or> sr = 226 then None
           else if (sr = 230 \<and> irq_pending c) \<or> (sr = 228 \<and> interrupt c AND v \<noteq> 0) then None
           else Some ((sr_write E c sr v)\<lparr>irq_check := False\<rparr>))
      else if 1 \<le> op1 \<and> op1 \<le> 5 then Some (exec_qrst_registers E c insn)
      else None)"

definition cached_retw :: "'d cpu \<Rightarrow> u32 \<Rightarrow> ('d cached_out) option" where
  "cached_retw c next_pc =
     (let a0 = ar_read c 0;
          n0 = drop_bit 30 a0;
          k = window_callsize c (unat (windowbase c));
          n = (if n0 \<noteq> 0 then n0 else if k = 0 then 4 else of_nat k);
          wb = (windowbase c - n) AND 15
      in if \<not> bit (windowstart c) (unat wb) then None
         else co_context
                (window_hazard_refresh
                   (c\<lparr>windowstart := windowstart c AND NOT (push_bit (unat (windowbase c)) 1),
                      windowbase := wb\<rparr>))
                ((next_pc AND 0xC0000000) OR (a0 AND 0x3FFFFFFF)) True)"

definition cached_entry :: "'d cpu \<Rightarrow> u32 \<Rightarrow> u32 \<Rightarrow> ('d cached_out) option" where
  "cached_entry c insn next_pc =
     (if seed_entry_link c \<or> \<not> real_window_vectors c \<or> \<not> XT_PS_WOE (ps c) \<or> XT_PS_EXCM (ps c)
         \<or> \<not> window_vectors_ready c VECOFS_WINDOW_OVERFLOW4 then None
      else
        let s = XT_S insn; callinc = XT_PS_CALLINC (ps c);
            sp = ar_read c s - push_bit 3 (XT_IMM12 insn);
            c1 = ar_write c (callinc * 4 + s mod 4) sp;
            owb = windowbase c1;
            nwb = (owb + of_nat callinc) AND 15;
            c2 = c1\<lparr>windowbase := nwb, windowstart := windowstart c1 OR push_bit (unat nwb) 1,
                    window_callsize := (window_callsize c1)(unat nwb := callinc),
                    ps := XT_PS_SET_OWB (ps c1) owb\<rparr>
        in co_context (window_hazard_refresh c2) next_pc False)"

definition cached_link :: "'d cpu \<Rightarrow> nat \<Rightarrow> u32 \<Rightarrow> 'd cpu" where
  "cached_link c nn next_pc =
     (if nn \<noteq> 0
      then ar_write (c\<lparr>ps := XT_PS_SET_CALLINC (ps c) (of_nat nn)\<rparr>) (nn * 4)
             (push_bit 30 (of_nat nn) OR (next_pc AND 0x3FFFFFFF))
      else ar_write c 0 next_pc)"

definition cached_branch_si :: "'d cpu \<Rightarrow> u32 \<Rightarrow> u32 \<Rightarrow> ('d cached_out) option" where
  "cached_branch_si c insn next_pc =
     (let nn = XT_N insn; m = XT_M insn; r = XT_R insn; s = XT_S insn; v = ar_read c s;
          k = b4const r;
          dest8 = next_pc + sign_extend (XT_IMM8 insn) 8 + 1;
          dest12 = next_pc + sign_extend (XT_IMM12 insn) 12 + 1 in
      if nn = 0 then
        co_jump c True (next_pc + sign_extend (XT_OFFSET18 insn) 18 + 1) next_pc
      else if nn = 1 then
        (if m = 0 \<and> poll_spin_pc c \<noteq> [] then None
         else co_jump c (if m = 0 then v = 0 else if m = 1 then v \<noteq> 0
                         else if m = 2 then sint v < 0 else 0 \<le> sint v) dest12 next_pc)
      else if nn = 2 then
        co_jump c (if m = 0 then sint v = k else if m = 1 then sint v \<noteq> k
                   else if m = 2 then sint v < k else k \<le> sint v) dest8 next_pc
      else if 2 \<le> m then
        co_jump c (if m = 2 then v < b4constu r else b4constu r \<le> v) dest8 next_pc
      else if m = 1 \<and> r \<le> 1 then
        co_jump c (if r = 0 then \<not> bit (br c) s else bit (br c) s) dest8 next_pc
      else if m = 1 \<and> 8 \<le> r \<and> r \<le> 10 then
        (let e = next_pc + XT_IMM8 insn + 1;
             c1 = c\<lparr>lend := e, lbeg := next_pc\<rparr>;
             skip = (r = 9 \<and> v = 0 \<or> r = 10 \<and> sint v \<le> 0)
         in co_jump (if skip then c1 else c1\<lparr>lcount := v - 1\<rparr>) skip e next_pc)
      else None)"

definition cached_fp_memory :: "'d cpu \<Rightarrow> u32 \<Rightarrow> u32 \<Rightarrow> ('d cached_out) option" where
  "cached_fp_memory c insn next_pc =
     (let r = XT_R insn; s = XT_S insn; t = XT_T insn; op2 = XT_OP2 insn in
      if XT_OP0 insn = 0 then
        let ub = ar_read c s + ar_read c t; upd = (op2 mod 2 \<noteq> 0)
        in co_access c next_pc
             \<lparr>cm_width = 4, cm_store = (4 \<le> op2), cm_fp = True, cm_reg = r,
              cm_addr = (if upd then ar_read c s else ub),
              cm_update = (if upd then Some ub else None)\<rparr>
      else if r \<noteq> 0 \<and> r \<noteq> 4 \<and> r \<noteq> 8 \<and> r \<noteq> 12 then None
      else
        let addr = ar_read c s + push_bit 2 (XT_IMM8 insn)
        in co_access c next_pc
             \<lparr>cm_width = 4, cm_store = (r = 4 \<or> r = 12), cm_fp = True, cm_reg = t,
              cm_addr = addr, cm_update = (if 8 \<le> r then Some addr else None)\<rparr>)"

definition int_access :: "nat \<Rightarrow> bool \<Rightarrow> nat \<Rightarrow> u32 \<Rightarrow> cached_mem" where
  "int_access w st t addr =
     \<lparr>cm_width = w, cm_store = st, cm_fp = False, cm_reg = t, cm_addr = addr, cm_update = None\<rparr>"

definition cached_int_memory :: "'d cpu \<Rightarrow> u32 \<Rightarrow> u32 \<Rightarrow> bool \<Rightarrow> ('d cached_out) option" where
  "cached_int_memory c insn next_pc st =
     (let r = XT_R insn; t = XT_T insn;
          w = (if r = 0 \<or> r = 4 then 1 else if r = 1 \<or> r = 5 \<or> r = 9 then 2 else 4 :: nat) in
      if XT_OP0 insn = 1
      then co_access c next_pc (int_access 4 st t
             ((next_pc AND NOT 3) + (0xFFFC0000 OR push_bit 2 (XT_IMM16 insn))))
      else co_access c next_pc (int_access w st t
             (ar_read c (XT_S insn) + XT_IMM8 insn * of_nat w)))"

text \<open>The classes that only write registers.\<close>

definition cached_registers :: "'d host \<Rightarrow> 'd cpu \<Rightarrow> u32 \<Rightarrow> u32 \<Rightarrow> nat \<Rightarrow> ('d cpu) option" where
  "cached_registers E c insn elapsed kind =
     (let r = XT_R insn; s = XT_S insn; t = XT_T insn; op2 = XT_OP2 insn;
          x = ar_read c s; y = ar_read c t in
      if kind = PD_ADD_N then Some (ar_write c r (x + y))
      else if kind = PD_ADDI_N then
        Some (ar_write c r (x + (if t \<noteq> 0 then of_nat t else UINT32_MAX)))
      else if kind = PD_MOVI_N then
        let imm = of_nat (t mod 8 * 16 + r) :: u32
        in Some (ar_write c s (if 96 \<le> imm then imm - 128 else imm))
      else if kind = PD_MOV_N then Some (ar_write c t x)
      else if kind = PD_ADD then
        let a = push_bit (op2 mod 4) x
        in Some (ar_write c r (if op2 < 12 then a + y else a - y))
      else if kind = PD_LOGIC then
        Some (ar_write c r (if op2 = 1 then x AND y else if op2 = 2 then x OR y else x XOR y))
      else if kind = PD_EXTUI then
        Some (ar_write c r (drop_bit (s + XT_OP1 insn mod 2 * 16) y
                            AND (push_bit (op2 + 1) 1 - 1)))
      else if kind = PD_FP0 then Some (exec_fp0 E c insn)
      else if kind = PD_FP1 then Some (exec_fp1 c insn)
      else if kind = PD_RSR then
        Some (ar_write c t (if XT_SR_NUM insn = 234 then ccount c + elapsed
                            else sr_read c (XT_SR_NUM insn)))
      else if kind = PD_RSIL then
        (if irq_pending c then None
         else let c1 = ar_write c t (ps c) in Some (c1\<lparr>ps := (ps c1 AND NOT 0xF) OR of_nat s\<rparr>))
      else if kind = PD_MOVI then
        Some (ar_write c t (sign_extend (push_bit 8 (of_nat s) OR XT_IMM8 insn) 12))
      else if kind = PD_ADDI then
        Some (ar_write c t (x + sign_extend (XT_IMM8 insn) 8 * (if r = 13 then 256 else 1)))
      else if kind = PD_NOP then Some c
      else None)"

definition cached_switch ::
  "'d host \<Rightarrow> 'd cpu \<Rightarrow> u32 \<Rightarrow> u32 \<Rightarrow> u32 \<Rightarrow> nat \<Rightarrow> nat \<Rightarrow> ('d cached_out) option" where
  "cached_switch E c at insn elapsed ilen kind =
     (let r = XT_R insn; s = XT_S insn; t = XT_T insn; nn = XT_N insn;
          next_pc = at + of_nat ilen in
      if kind = PD_LOAD_N \<or> kind = PD_STORE_N then
        co_access c next_pc
          (int_access 4 (kind = PD_STORE_N) t (ar_read c s + of_nat (4 * r)))
      else if kind = PD_BRANCH_N then
        co_jump c (if t < 12 then ar_read c s = 0 else ar_read c s \<noteq> 0)
          (next_pc + of_nat (t mod 4 * 16 + r) + 2) next_pc
      else if kind = PD_RET then co_jump c True (ar_read c 0) next_pc
      else if kind = PD_RETW then cached_retw c next_pc
      else if kind = PD_ENTRY then cached_entry c insn next_pc
      else if kind = PD_ALU then
        (case exec_cached_qrst E c insn elapsed of
           None \<Rightarrow> None
         | Some c1 \<Rightarrow> if XT_OP1 insn = 0 \<and> XT_OP2 insn = 4 \<and> r = 8
                      then co_context c1 next_pc False else co_plain c1 next_pc)
      else if kind = PD_WSR then
        (case exec_cached_qrst E c insn elapsed of
           None \<Rightarrow> None | Some c1 \<Rightarrow> co_context c1 next_pc False)
      else if kind = PD_LOAD \<or> kind = PD_STORE then
        cached_int_memory c insn next_pc (kind = PD_STORE)
      else if kind = PD_WINDOW_MEMORY then
        co_access c next_pc (int_access 4 (XT_OP2 insn = 4) t
                               (ar_read c s + (of_nat (4 * r) - 64)))
      else if kind = PD_FP_MEMORY then cached_fp_memory c insn next_pc
      else if kind = PD_CALL then
        co_jump (cached_link c nn next_pc) True
          (push_bit 2 (drop_bit 2 at + sign_extend (XT_OFFSET18 insn) 18 + 1)) next_pc
      else if kind = PD_JX_CALLX then
        co_jump (if XT_M insn = 3 then cached_link c nn next_pc else c) True (ar_read c s) next_pc
      else if kind = PD_BRANCH_SI then cached_branch_si c insn next_pc
      else if kind = PD_BRANCH then
        co_jump c (branch_taken c insn) (next_pc + sign_extend (XT_IMM8 insn) 8 + 1) next_pc
      else case cached_registers E c insn elapsed kind of
             None \<Rightarrow> None | Some c1 \<Rightarrow> co_plain c1 next_pc)"

section \<open>The memory access\<close>

text \<open>Only accesses inside one mapped page stay on the cached path; a store uses the table in
  which pages that hold translated code have no entry.\<close>

definition cached_load_value :: "u32 \<Rightarrow> nat \<Rightarrow> u8 list \<Rightarrow> u32" where
  "cached_load_value insn w bs =
     (if w = 2 \<and> XT_R insn = 9 \<and> XT_OP0 insn = 2
      then scast (of_bytes bs :: u16) else of_bytes bs)"

definition cached_access :: "'d cpu \<Rightarrow> u32 \<Rightarrow> cached_mem \<Rightarrow> ('d cpu) option" where
  "cached_access c insn m =
     (let w = cm_width m; a = cm_addr m;
          page = (if cm_store m then write_page_table (mem c) (page_of a)
                  else page_table (mem c) (page_of a))
      in case page of
           None \<Rightarrow> None
         | Some base \<Rightarrow>
             if PAGE_SIZE < page_off a + w then None
             else
               let p = hptr_add base (page_off a);
                   c1 = (if cm_store m
                         then host_put c p (to_bytes w (if cm_fp m then fr c (cm_reg m)
                                                        else ar_read c (cm_reg m)))
                         else
                           let v = cached_load_value insn w (host_read (mem c) p w);
                               c0 = host_touch c p w
                           in if cm_fp m then fr_write c0 (cm_reg m) v
                              else ar_write c0 (cm_reg m) v)
               in Some (case cm_update m of None \<Rightarrow> c1
                        | Some ub \<Rightarrow> ar_write c1 (XT_S insn) ub))"

section \<open>The loop\<close>

record 'd cached =
  k_cpu :: "'d cpu"
  k_pc :: u32
  k_pc_written :: bool
  k_hazard :: u8
  k_guard :: bool
  k_last_pc :: u32
  k_executed :: u32

definition windows_guarded :: "u8 \<Rightarrow> u32 \<Rightarrow> bool" where
  "windows_guarded hz p \<longleftrightarrow> hz \<noteq> 0 \<and> XT_PS_WOE p \<and> \<not> XT_PS_EXCM p"

definition bp_range :: "u32 list \<Rightarrow> u32 \<times> u32" where
  "bp_range bps =
     (case bps of
        [] \<Rightarrow> (UINT32_MAX, UINT32_MAX)
      | b # bs \<Rightarrow>
          fold (\<lambda>x (lo, hi). (if x < lo then x else lo, if hi < x then x else hi)) bs (b, b))"

definition bp_filter :: "u32 list \<Rightarrow> u32 \<Rightarrow> bool" where
  "bp_filter bps a = (let (lo, hi) = bp_range bps in a - lo \<le> hi - lo)"

text \<open>The tests at the top of the loop body; they select the table entry to execute.\<close>

definition cached_select :: "'d host \<Rightarrow> u32 list \<Rightarrow> 'd cached \<Rightarrow> u32 option" where
  "cached_select E bps k =
     (let c = k_cpu k; at = k_pc k; packed = predecode_lookup c at;
          insn = PREDECODE_INSN packed;
          need = (if PREDECODE_CLASS packed = PD_ENTRY
                  then window_need2 (XT_S insn) (entry_dst (ps c) (XT_S insn))
                  else PREDECODE_WINDOW_NEED packed) in
      if k_pc_written k \<and> (at = GUEST_CALL_ASYNC_SENTINEL \<or> hook_applies E at) then None
      else if packed = 0 then None
      else if bp_filter bps at then None
      else if k_guard k \<and> k_hazard k AND (push_bit need 1 - 1) \<noteq> 0 then None
      else Some packed)"

definition cached_retire :: "'d cached \<Rightarrow> 'd cpu \<Rightarrow> 'd cached_out \<Rightarrow> 'd cached" where
  "cached_retire k c out =
     (let hz = (if co_ctx out then window_hazard c else k_hazard k);
          gd = (if co_ctx out then windows_guarded hz (ps c) else k_guard k);
          back = (lcount c \<noteq> 0 \<and> co_next out = lend c \<and> \<not> co_branch out)
      in \<lparr>k_cpu = (if back then c\<lparr>lcount := lcount c - 1\<rparr> else c),
          k_pc = (if back then lbeg c else co_next out),
          k_pc_written = (if back then True else co_branch out),
          k_hazard = hz, k_guard = gd, k_last_pc = k_pc k, k_executed = k_executed k + 1\<rparr>)"

definition cached_iter :: "'d host \<Rightarrow> u32 list \<Rightarrow> 'd cached \<Rightarrow> ('d cached) option" where
  "cached_iter E bps k =
     (case cached_select E bps k of
        None \<Rightarrow> None
      | Some packed \<Rightarrow>
          let insn = PREDECODE_INSN packed in
          case cached_switch E (k_cpu k) (k_pc k) insn (k_executed k)
                 (PREDECODE_ILEN packed) (PREDECODE_CLASS packed) of
            None \<Rightarrow> None
          | Some out \<Rightarrow>
              (case co_mem out of
                 None \<Rightarrow> Some (cached_retire k (co_cpu out) out)
               | Some m \<Rightarrow>
                   (case cached_access (co_cpu out) insn m of
                      None \<Rightarrow> None
                    | Some c \<Rightarrow> Some (cached_retire k c out))))"

primrec cached_loop :: "'d host \<Rightarrow> u32 list \<Rightarrow> nat \<Rightarrow> 'd cached \<Rightarrow> 'd cached" where
  "cached_loop E bps 0 k = k"
| "cached_loop E bps (Suc n) k =
     (case cached_iter E bps k of None \<Rightarrow> k | Some k' \<Rightarrow> cached_loop E bps n k')"

definition cached_start :: "'d cpu \<Rightarrow> u32 \<Rightarrow> 'd cached" where
  "cached_start c prev_pc =
     \<lparr>k_cpu = c, k_pc = pc c, k_pc_written = pc_written c, k_hazard = window_hazard c,
      k_guard = windows_guarded (window_hazard c) (ps c), k_last_pc = prev_pc,
      k_executed = 0\<rparr>"

definition cached_finish :: "'d host \<Rightarrow> u32 list \<Rightarrow> 'd cached \<Rightarrow> 'd cpu" where
  "cached_finish E bps k =
     (let c = (k_cpu k)\<lparr>pc := k_pc k, pc_written := k_pc_written k,
                        ccount := ccount (k_cpu k) + k_executed k\<rparr>;
          c1 = (if bps \<noteq> [] then c\<lparr>breakpoint_hit := False\<rparr> else c)
      in poll_irq E (fire_if_due E c1))"

definition cached_enabled :: "'d host \<Rightarrow> 'd cpu \<Rightarrow> nat \<Rightarrow> bool" where
  "cached_enabled E c budget \<longleftrightarrow>
     2 \<le> budget \<and> predecode c \<noteq> None \<and> running c \<and> \<not> exception c \<and>
     \<not> record_branch_targets c \<and> jit_fallthrough_dispatch c = 0 \<and> \<not> irq_check c \<and>
     \<not> journal_en (mem c) \<and> h_aot_bitmap E = None \<and> ccount c < next_timer_event c"

definition xtensa_run_cached ::
  "'d host \<Rightarrow> 'd cpu \<Rightarrow> u64 \<Rightarrow> u32 \<Rightarrow> nat \<Rightarrow> nat \<times> 'd cpu \<times> u64 \<times> u32" where
  "xtensa_run_cached E c cc prev_pc budget =
     (if \<not> cached_enabled E c budget then (0, c, cc, prev_pc)
      else
        let timer_room = unat (next_timer_event c - ccount c);
            room = (if timer_room < budget then timer_room else budget);
            k = cached_loop E (breakpoints c) room (cached_start c prev_pc);
            n = unat (k_executed k)
        in if n = 0 then (0, k_cpu k, cc, prev_pc)
           else (n, cached_finish E (breakpoints c) k, cc + of_nat n, k_last_pc k))"

definition cached_dispatch_ready :: "'d cpu \<Rightarrow> bool" where
  "cached_dispatch_ready c \<longleftrightarrow> PD_SLOW < PREDECODE_CLASS (predecode_lookup c (pc c))"

end
