(* ===== verification/Overlay.thy ===== *)
theory Overlay
  imports Run
begin

text \<open>
  The machine with the locals of the cached runner written back: \<open>ov p w k b c\<close> is \<open>c\<close> with
  program counter, dispatch flag, cycle counter and breakpoint flag replaced. Register
  operations do not read these fields, so they commute with the replacement; these are the
  rewrite rules that move the replacement outwards through each of them.
\<close>


definition ov :: "u32 \<Rightarrow> bool \<Rightarrow> u32 \<Rightarrow> bool \<Rightarrow> 'd cpu \<Rightarrow> 'd cpu" where
  "ov p w k b c = c\<lparr>pc := p, pc_written := w, ccount := k, breakpoint_hit := b\<rparr>"

lemma ov_sel [simp]:
  "pc (ov p w k b c) = p" "pc_written (ov p w k b c) = w"
  "ccount (ov p w k b c) = k" "breakpoint_hit (ov p w k b c) = b"
  "ar (ov p w k b c) = ar c" "next_timer_event (ov p w k b c) = next_timer_event c"
  "windowbase (ov p w k b c) = windowbase c" "ps (ov p w k b c) = ps c"
  "sar (ov p w k b c) = sar c" "lbeg (ov p w k b c) = lbeg c" "lend (ov p w k b c) = lend c"
  "lcount (ov p w k b c) = lcount c" "intenable (ov p w k b c) = intenable c"
  "interrupt (ov p w k b c) = interrupt c" "br (ov p w k b c) = br c"
  "running (ov p w k b c) = running c" "halted (ov p w k b c) = halted c"
  "exception (ov p w k b c) = exception c"
  "jit_fallthrough_dispatch (ov p w k b c) = jit_fallthrough_dispatch c"
  "irq_check (ov p w k b c) = irq_check c" "poll_spin_pc (ov p w k b c) = poll_spin_pc c"
  "seed_entry_link (ov p w k b c) = seed_entry_link c"
  "window_hazard (ov p w k b c) = window_hazard c" "predecode (ov p w k b c) = predecode c"
  "windowstart (ov p w k b c) = windowstart c" "vecbase (ov p w k b c) = vecbase c"
  "exccause (ov p w k b c) = exccause c" "excvaddr (ov p w k b c) = excvaddr c"
  "epc (ov p w k b c) = epc c" "eps (ov p w k b c) = eps c" "excsave (ov p w k b c) = excsave c"
  "depc (ov p w k b c) = depc c" "scompare1 (ov p w k b c) = scompare1 c"
  "misc (ov p w k b c) = misc c" "litbase (ov p w k b c) = litbase c"
  "atomctl (ov p w k b c) = atomctl c" "memctl (ov p w k b c) = memctl c"
  "icount (ov p w k b c) = icount c" "icountlevel (ov p w k b c) = icountlevel c"
  "debugcause (ov p w k b c) = debugcause c" "ibreakenable (ov p w k b c) = ibreakenable c"
  "ibreaka (ov p w k b c) = ibreaka c" "dbreaka (ov p w k b c) = dbreaka c"
  "dbreakc (ov p w k b c) = dbreakc c" "configid0 (ov p w k b c) = configid0 c"
  "configid1 (ov p w k b c) = configid1 c" "prid (ov p w k b c) = prid c"
  "cpenable (ov p w k b c) = cpenable c" "acclo (ov p w k b c) = acclo c"
  "acchi (ov p w k b c) = acchi c" "mr (ov p w k b c) = mr c"
  "expstate (ov p w k b c) = expstate c" "threadptr (ov p w k b c) = threadptr c"
  "fcr (ov p w k b c) = fcr c" "fsr (ov p w k b c) = fsr c" "f64r_lo (ov p w k b c) = f64r_lo c"
  "f64r_hi (ov p w k b c) = f64r_hi c" "f64s (ov p w k b c) = f64s c" "fr (ov p w k b c) = fr c"
  "real_window_vectors (ov p w k b c) = real_window_vectors c"
  "int_level (ov p w k b c) = int_level c" "breakpoints (ov p w k b c) = breakpoints c"
  "record_branch_targets (ov p w k b c) = record_branch_targets c"
  "window_callsize (ov p w k b c) = window_callsize c"
  "jit_chain_limit (ov p w k b c) = jit_chain_limit c" "target (ov p w k b c) = target c"
  "mem (ov p w k b c) = mem c" "ccompare (ov p w k b c) = ccompare c" "host_ub (ov p w k b c) = host_ub c"
  by (simp_all add: ov_def)

lemma ov_upd_own [simp]:
  "(ov p w k b c)\<lparr>pc := p'\<rparr> = ov p' w k b c"
  "(ov p w k b c)\<lparr>pc_written := w'\<rparr> = ov p w' k b c"
  "(ov p w k b c)\<lparr>ccount := k'\<rparr> = ov p w k' b c"
  "(ov p w k b c)\<lparr>breakpoint_hit := b'\<rparr> = ov p w k b' c"
  by (simp_all add: ov_def)

lemma ov_upd [simp]:
  "(ov p w k b c)\<lparr>ar := v0\<rparr> = ov p w k b (c\<lparr>ar := v0\<rparr>)"
  "(ov p w k b c)\<lparr>windowbase := v1\<rparr> = ov p w k b (c\<lparr>windowbase := v1\<rparr>)"
  "(ov p w k b c)\<lparr>ps := v2\<rparr> = ov p w k b (c\<lparr>ps := v2\<rparr>)"
  "(ov p w k b c)\<lparr>sar := v3\<rparr> = ov p w k b (c\<lparr>sar := v3\<rparr>)"
  "(ov p w k b c)\<lparr>lbeg := v4\<rparr> = ov p w k b (c\<lparr>lbeg := v4\<rparr>)"
  "(ov p w k b c)\<lparr>lend := v5\<rparr> = ov p w k b (c\<lparr>lend := v5\<rparr>)"
  "(ov p w k b c)\<lparr>lcount := v6\<rparr> = ov p w k b (c\<lparr>lcount := v6\<rparr>)"
  "(ov p w k b c)\<lparr>intenable := v7\<rparr> = ov p w k b (c\<lparr>intenable := v7\<rparr>)"
  "(ov p w k b c)\<lparr>interrupt := v8\<rparr> = ov p w k b (c\<lparr>interrupt := v8\<rparr>)"
  "(ov p w k b c)\<lparr>br := v9\<rparr> = ov p w k b (c\<lparr>br := v9\<rparr>)"
  "(ov p w k b c)\<lparr>irq_check := v10\<rparr> = ov p w k b (c\<lparr>irq_check := v10\<rparr>)"
  "(ov p w k b c)\<lparr>window_hazard := v11\<rparr> = ov p w k b (c\<lparr>window_hazard := v11\<rparr>)"
  "(ov p w k b c)\<lparr>windowstart := v12\<rparr> = ov p w k b (c\<lparr>windowstart := v12\<rparr>)"
  "(ov p w k b c)\<lparr>vecbase := v13\<rparr> = ov p w k b (c\<lparr>vecbase := v13\<rparr>)"
  "(ov p w k b c)\<lparr>exccause := v14\<rparr> = ov p w k b (c\<lparr>exccause := v14\<rparr>)"
  "(ov p w k b c)\<lparr>excvaddr := v15\<rparr> = ov p w k b (c\<lparr>excvaddr := v15\<rparr>)"
  "(ov p w k b c)\<lparr>epc := v16\<rparr> = ov p w k b (c\<lparr>epc := v16\<rparr>)"
  "(ov p w k b c)\<lparr>eps := v17\<rparr> = ov p w k b (c\<lparr>eps := v17\<rparr>)"
  "(ov p w k b c)\<lparr>excsave := v18\<rparr> = ov p w k b (c\<lparr>excsave := v18\<rparr>)"
  "(ov p w k b c)\<lparr>depc := v19\<rparr> = ov p w k b (c\<lparr>depc := v19\<rparr>)"
  "(ov p w k b c)\<lparr>scompare1 := v20\<rparr> = ov p w k b (c\<lparr>scompare1 := v20\<rparr>)"
  "(ov p w k b c)\<lparr>misc := v21\<rparr> = ov p w k b (c\<lparr>misc := v21\<rparr>)"
  "(ov p w k b c)\<lparr>litbase := v22\<rparr> = ov p w k b (c\<lparr>litbase := v22\<rparr>)"
  "(ov p w k b c)\<lparr>atomctl := v23\<rparr> = ov p w k b (c\<lparr>atomctl := v23\<rparr>)"
  "(ov p w k b c)\<lparr>memctl := v24\<rparr> = ov p w k b (c\<lparr>memctl := v24\<rparr>)"
  "(ov p w k b c)\<lparr>icount := v25\<rparr> = ov p w k b (c\<lparr>icount := v25\<rparr>)"
  "(ov p w k b c)\<lparr>icountlevel := v26\<rparr> = ov p w k b (c\<lparr>icountlevel := v26\<rparr>)"
  "(ov p w k b c)\<lparr>debugcause := v27\<rparr> = ov p w k b (c\<lparr>debugcause := v27\<rparr>)"
  "(ov p w k b c)\<lparr>ibreakenable := v28\<rparr> = ov p w k b (c\<lparr>ibreakenable := v28\<rparr>)"
  "(ov p w k b c)\<lparr>ibreaka := v29\<rparr> = ov p w k b (c\<lparr>ibreaka := v29\<rparr>)"
  "(ov p w k b c)\<lparr>dbreaka := v30\<rparr> = ov p w k b (c\<lparr>dbreaka := v30\<rparr>)"
  "(ov p w k b c)\<lparr>dbreakc := v31\<rparr> = ov p w k b (c\<lparr>dbreakc := v31\<rparr>)"
  "(ov p w k b c)\<lparr>cpenable := v32\<rparr> = ov p w k b (c\<lparr>cpenable := v32\<rparr>)"
  "(ov p w k b c)\<lparr>acclo := v33\<rparr> = ov p w k b (c\<lparr>acclo := v33\<rparr>)"
  "(ov p w k b c)\<lparr>acchi := v34\<rparr> = ov p w k b (c\<lparr>acchi := v34\<rparr>)"
  "(ov p w k b c)\<lparr>mr := v35\<rparr> = ov p w k b (c\<lparr>mr := v35\<rparr>)"
  "(ov p w k b c)\<lparr>expstate := v36\<rparr> = ov p w k b (c\<lparr>expstate := v36\<rparr>)"
  "(ov p w k b c)\<lparr>threadptr := v37\<rparr> = ov p w k b (c\<lparr>threadptr := v37\<rparr>)"
  "(ov p w k b c)\<lparr>fcr := v38\<rparr> = ov p w k b (c\<lparr>fcr := v38\<rparr>)"
  "(ov p w k b c)\<lparr>fsr := v39\<rparr> = ov p w k b (c\<lparr>fsr := v39\<rparr>)"
  "(ov p w k b c)\<lparr>f64r_lo := v40\<rparr> = ov p w k b (c\<lparr>f64r_lo := v40\<rparr>)"
  "(ov p w k b c)\<lparr>f64r_hi := v41\<rparr> = ov p w k b (c\<lparr>f64r_hi := v41\<rparr>)"
  "(ov p w k b c)\<lparr>f64s := v42\<rparr> = ov p w k b (c\<lparr>f64s := v42\<rparr>)"
  "(ov p w k b c)\<lparr>fr := v43\<rparr> = ov p w k b (c\<lparr>fr := v43\<rparr>)"
  "(ov p w k b c)\<lparr>window_callsize := v44\<rparr> = ov p w k b (c\<lparr>window_callsize := v44\<rparr>)"
  "(ov p w k b c)\<lparr>jit_chain_limit := v45\<rparr> = ov p w k b (c\<lparr>jit_chain_limit := v45\<rparr>)"
  "(ov p w k b c)\<lparr>mem := v46\<rparr> = ov p w k b (c\<lparr>mem := v46\<rparr>)"
  "(ov p w k b c)\<lparr>host_ub := v47\<rparr> = ov p w k b (c\<lparr>host_ub := v47\<rparr>)"
  by (simp_all add: ov_def)

lemmas ov_if = if_distrib [of "ov p w k b" for p w k b]

lemma ov_ar_read [simp]: "ar_read (ov p w k b c) n = ar_read c n"
  by (simp add: ar_read_def)

lemma ov_ar_write [simp]: "ar_write (ov p w k b c) n v = ov p w k b (ar_write c n v)"
  by (simp add: ar_write_def)

lemma ov_fr_write [simp]: "fr_write (ov p w k b c) n v = ov p w k b (fr_write c n v)"
  by (simp add: fr_write_def)

lemma ov_hazard [simp]:
  "window_hazard_refresh (ov p w k b c) = ov p w k b (window_hazard_refresh c)"
  by (simp add: window_hazard_refresh_def)

lemma ov_request [simp]:
  "xtensa_request_irq_check (ov p w k b c) = ov p w k b (xtensa_request_irq_check c)"
  by (simp add: xtensa_request_irq_check_def xtensa_irq_is_deliverable_def
        xtensa_native_chain_barrier_def Let_def)

lemma ov_host_touch [simp]: "host_touch (ov p w k b c) q n = ov p w k b (host_touch c q n)"
  by (simp add: host_touch_def)

lemma ov_host_put [simp]: "host_put (ov p w k b c) q bs = ov p w k b (host_put c q bs)"
  by (simp add: host_put_def Let_def)

lemma ov_BRANCH_TO [simp]: "BRANCH_TO (ov p w k b c) a = ov a True k b c"
  by (simp add: BRANCH_TO_def)

lemma ov_fp1op [simp]: "exec_fp1op E (ov p w k b c) insn = ov p w k b (exec_fp1op E c insn)"
  unfolding exec_fp1op_def Let_def
  by (simp add: ov_if cong: if_cong split del: if_split)

lemma ov_fp0 [simp]: "exec_fp0 E (ov p w k b c) insn = ov p w k b (exec_fp0 E c insn)"
  unfolding exec_fp0_def Let_def
  by (simp add: ov_if cong: if_cong split del: if_split)

lemma ov_fp1 [simp]: "exec_fp1 (ov p w k b c) insn = ov p w k b (exec_fp1 c insn)"
  unfolding exec_fp1_def Let_def
  by (simp add: ov_if cong: if_cong split del: if_split)

lemma ov_sr_read [simp]: "sr_read (ov p w k b c) sr = (if sr = 234 then k else sr_read c sr)"
  unfolding sr_read_def Let_def
  by (cases "sr = 234") (simp_all cong: if_cong split del: if_split)

lemma ov_sr_write:
  "sr \<noteq> 234 \<Longrightarrow> \<not> (240 \<le> sr \<and> sr \<le> 242) \<Longrightarrow>
     sr_write E (ov p w k b c) sr v = ov p w k b (sr_write E c sr v)"
  unfolding sr_write_def Let_def
  by (cases "sr < 240") (simp_all add: ov_if cong: if_cong split del: if_split)

lemma ov_ur_read [simp]: "ur_read (ov p w k b c) u = ur_read c u"
  unfolding ur_read_def by (simp cong: if_cong split del: if_split)

lemma ov_ur_write [simp]: "ur_write (ov p w k b c) u v = ov p w k b (ur_write c u v)"
  unfolding ur_write_def by (simp add: ov_if cong: if_cong split del: if_split)

lemma ov_rst1:
  "XT_OP2 insn \<noteq> 6 \<Longrightarrow> exec_rst1 E (ov p w k b c) insn = ov p w k b (exec_rst1 E c insn)"
  unfolding exec_rst1_def Let_def
  by (simp add: ov_if cong: if_cong split del: if_split)

lemma ov_divide:
  "ar_read c t \<noteq> 0 \<Longrightarrow>
     exec_divide (ov p w k b c) op2 r s t = ov p w k b (exec_divide c op2 r s t)"
  unfolding exec_divide_def Let_def
  by (simp add: ov_if cong: if_cong split del: if_split)

lemma ov_rst2:
  "\<not> (12 \<le> XT_OP2 insn \<and> ar_read c (XT_T insn) = 0) \<Longrightarrow>
     exec_rst2 (ov p w k b c) insn = ov p w k b (exec_rst2 c insn)"
  unfolding exec_rst2_def Let_def
  by (cases "ar_read c (XT_T insn) = 0")
     (simp_all add: ov_if ov_divide cong: if_cong split del: if_split)

lemma ov_rst3:
  "1 < XT_OP2 insn \<Longrightarrow> exec_rst3 E (ov p w k b c) insn = ov p w k b (exec_rst3 E c insn)"
  unfolding exec_rst3_def Let_def
  by (simp add: ov_if cong: if_cong split del: if_split)

lemma ov_extui: "exec_extui (ov p w k b c) insn = ov p w k b (exec_extui c insn)"
  by (simp add: exec_extui_def Let_def)
end
