(* ===== verification/Cached_Agree.thy ===== *)
theory Cached_Agree
  imports Overlay
begin

text \<open>
  Agreement of the cached runner with the canonical instruction functions, first part: the
  16-bit instructions, loads and stores, calls and branches. \<open>agrees\<close> says that the canonical
  dispatch of an instruction, on the machine with the runner's locals written back, gives
  the machine the cached path computes; the two may differ in the request for an interrupt
  check, and then no enabled interrupt is pending.
\<close>

definition cached_effect :: "u32 \<Rightarrow> 'd cached_out \<Rightarrow> ('d cpu) option" where
  "cached_effect insn out =
     (case co_mem out of None \<Rightarrow> Some (co_cpu out) | Some m \<Rightarrow> cached_access (co_cpu out) insn m)"

definition agrees ::
  "'d host \<Rightarrow> 'd cpu \<Rightarrow> u32 \<Rightarrow> u32 \<Rightarrow> nat \<Rightarrow> u32 \<Rightarrow> 'd cached_out \<Rightarrow> 'd cpu \<Rightarrow> bool" where
  "agrees E c at insn ilen el out c' \<longleftrightarrow>
     (\<forall>bh. \<exists>q. (q \<longrightarrow> \<not> irq_pending c') \<and>
        exec_insn E (ov (at + of_nat ilen) False (ccount c + el) bh c) insn ilen =
          (Retired, ov (co_next out) (co_branch out) (ccount c + el) bh
                       (if q then c'\<lparr>irq_check := True\<rparr> else c')))"

lemma agreesI:
  assumes "\<And>bh. exec_insn E (ov (at + of_nat ilen) False (ccount c + el) bh c) insn ilen =
          (Retired, ov (co_next out) (co_branch out) (ccount c + el) bh c')"
  shows "agrees E c at insn ilen el out c'"
  unfolding agrees_def by (intro allI exI [of _ False]) (simp add: assms)

lemma access_load4:
  assumes "cached_access c insn (int_access 4 False t a) = Some c'"
  shows "exec_load32 E (ov p w k b c) t a = ov p w k b c'"
  using assms
  by (simp add: cached_access_def int_access_def Let_def cached_load_value_def exec_load32_def
        mem_read_mapped split: option.splits if_split_asm)

lemma access_load1:
  assumes "cached_access c insn (int_access 1 False t a) = Some c'"
  shows "(case mem_read8 E (ov p w k b c) a of (v, c1) \<Rightarrow> ar_write c1 t (ucast v)) = ov p w k b c'"
  using assms
  by (simp add: cached_access_def int_access_def Let_def cached_load_value_def host_read_1 [unfolded One_nat_def]
        mem_read_mapped of_bytes_1 [unfolded of_bytes.simps] split: option.splits if_split_asm)

lemma access_load2:
  assumes "cached_access c insn (int_access 2 False t a) = Some c'"
    "\<not> (XT_R insn = 9 \<and> XT_OP0 insn = 2)"
  shows "(case mem_read16 E (ov p w k b c) a of (v, c1) \<Rightarrow> ar_write c1 t (ucast v)) = ov p w k b c'"
  using assms
  by (auto simp: cached_access_def int_access_def Let_def cached_load_value_def host_read_2
        mem_read_mapped of_bytes_2 simp del: of_bytes.simps split: option.splits if_split_asm)

lemma access_load2s:
  assumes "cached_access c insn (int_access 2 False t a) = Some c'" "XT_R insn = 9" "XT_OP0 insn = 2"
  shows "(case mem_read16 E (ov p w k b c) a of
            (v, c1) \<Rightarrow> ar_write c1 t (sign_extend (ucast v) 16)) = ov p w k b c'"
  using assms
  by (simp add: cached_access_def int_access_def Let_def cached_load_value_def
        mem_read_mapped sign_extend_16 split: option.splits if_split_asm)

lemma access_store:
  assumes "cached_access c insn (int_access n True t a) = Some c'" "\<not> journal_en (mem c)"
  shows "n = 4 \<Longrightarrow> mem_write32 E (ov p w k b c) a (ar_read c t) = ov p w k b c'"
    "n = 2 \<Longrightarrow> mem_write16 E (ov p w k b c) a (ucast (ar_read c t)) = ov p w k b c'"
    "n = 1 \<Longrightarrow> mem_write8 E (ov p w k b c) a (ucast (ar_read c t)) = ov p w k b c'"
  using assms
  by (simp_all add: cached_access_def int_access_def Let_def mem_write_mapped to_bytes_1 [unfolded One_nat_def]
        to_bytes_2
        split: option.splits if_split_asm)

lemma fp_access_load:
  assumes "cached_access c insn \<lparr>cm_width = 4, cm_store = False, cm_fp = True, cm_reg = r,
             cm_addr = a, cm_update = u\<rparr> = Some c'"
  shows "(case mem_read32 E (ov p w k b c) a of
            (v, c1) \<Rightarrow> case u of None \<Rightarrow> fr_write c1 r v
                       | Some ub \<Rightarrow> ar_write (fr_write c1 r v) (XT_S insn) ub) = ov p w k b c'"
  using assms
  by (simp add: cached_access_def Let_def mem_read_mapped cached_load_value_def
        split: option.splits if_split_asm)

lemma fp_access_store:
  assumes "cached_access c insn \<lparr>cm_width = 4, cm_store = True, cm_fp = True, cm_reg = r,
             cm_addr = a, cm_update = u\<rparr> = Some c'" "\<not> journal_en (mem c)"
  shows "(case u of None \<Rightarrow> mem_write32 E (ov p w k b c) a (fr c r)
          | Some ub \<Rightarrow> ar_write (mem_write32 E (ov p w k b c) a (fr c r)) (XT_S insn) ub)
         = ov p w k b c'"
  using assms
  by (simp add: cached_access_def Let_def mem_write_mapped split: option.splits if_split_asm)

lemma effect_none: "co_mem out = None \<Longrightarrow> cached_effect insn out = Some c' \<longleftrightarrow> c' = co_cpu out"
  by (auto simp: cached_effect_def)

lemma effect_some:
  "co_mem out = Some m \<Longrightarrow> cached_effect insn out = cached_access (co_cpu out) insn m"
  by (auto simp: cached_effect_def)

lemmas co_defs = co_plain_def co_jump_def co_access_def co_context_def

lemma movi_n_word:
  "t < 16 \<Longrightarrow> r < 16 \<Longrightarrow>
     (word_of_int (movi_n_value t r) :: u32) =
       (let imm = of_nat (t mod 8 * 16 + r) in if 96 \<le> imm then imm - 128 else imm)"
proof -
  assume "t < 16" "r < 16"
  then have b: "t mod 8 * 16 + r < 128" by simp
  let ?n = "t mod 8 * 16 + r"
  have "(96 :: u32) \<le> of_nat ?n \<longleftrightarrow> 96 \<le> ?n"
    using b by (simp add: word_le_nat_alt unat_of_nat del: of_nat_add of_nat_mult)
  then show ?thesis by (simp add: movi_n_value_def Let_def)
qed

lemma agrees_narrow_memory:
  assumes op: "XT_OP0 insn = 8 \<or> XT_OP0 insn = 9" and j: "\<not> journal_en (mem c)"
    and sw: "cached_switch E c at insn el 2 (predecode_kind_narrow insn) = Some out"
    and ef: "cached_effect insn out = Some c'"
  shows "agrees E c at insn 2 el out c'"
proof -
  have out: "out = \<lparr>co_cpu = c, co_next = at + 2, co_branch = False, co_ctx = False,
      co_mem = Some (int_access 4 (XT_OP0 insn = 9) (XT_T insn)
                       (ar_read c (XT_S insn) + of_nat (4 * XT_R insn)))\<rparr>"
    using sw op by (auto simp: cached_switch_def predecode_kind_narrow_def Let_def co_defs)
  show ?thesis
    using op ef j
    by (intro agreesI)
       (auto simp: out effect_some exec_insn_def exec_narrow_def access_load4 access_store)
qed

lemma agrees_narrow_registers:
  assumes op: "XT_OP0 insn = 10 \<or> XT_OP0 insn = 11 \<or> XT_OP0 insn = 12"
    and sw: "cached_switch E c at insn el 2 (predecode_kind_narrow insn) = Some out"
    and ef: "cached_effect insn out = Some c'"
  shows "agrees E c at insn 2 el out c'"
  using op
proof (elim disjE)
  assume op: "XT_OP0 insn = 10"
  then show ?thesis
    using sw ef
    by (intro agreesI)
       (auto simp: cached_switch_def predecode_kind_narrow_def Let_def co_defs cached_registers_def
          effect_none exec_insn_def exec_narrow_def)
next
  assume op: "XT_OP0 insn = 11"
  then show ?thesis
    using sw ef
    by (intro agreesI)
       (auto simp: cached_switch_def predecode_kind_narrow_def Let_def co_defs cached_registers_def
          effect_none exec_insn_def exec_narrow_def add_word_max split: if_split_asm)
next
  assume op: "XT_OP0 insn = 12"
  show ?thesis
  proof (cases "XT_T insn < 8")
    case True
    then show ?thesis
      using sw ef op
      by (intro agreesI)
         (auto simp: cached_switch_def predecode_kind_narrow_def Let_def co_defs cached_registers_def
            effect_none exec_insn_def exec_narrow_def exec_st2_def movi_n_word)
  next
    case False
    then have "2 \<le> XT_T insn div 4" "XT_T insn div 4 = 2 \<longleftrightarrow> XT_T insn < 12" by auto
    then show ?thesis
      using False sw ef op
      by (intro agreesI)
         (auto simp: cached_switch_def predecode_kind_narrow_def Let_def co_defs
            effect_none exec_insn_def exec_narrow_def exec_st2_def)
  qed
qed

lemma ov_retw [simp]:
  "retw_rotation (ov p w k b c) = retw_rotation c" "retw_window (ov p w k b c) = retw_window c"
  "win_live (ov p w k b c) i = win_live c i"
  by (simp_all add: retw_rotation_def retw_window_def win_live_def Let_def)

lemma cached_retw_agrees:
  assumes wb: "windowbase c < 16"
    and cr: "cached_retw c next_pc = Some out"
  shows "exec_retw E (ov next_pc False k bh c) n =
           ov (co_next out) (co_branch out) k bh (co_cpu out)" "co_mem out = None"
proof -
  let ?a0 = "ar_read c 0"
  let ?k = "window_callsize c (unat (windowbase c))"
  let ?n = "if drop_bit 30 ?a0 \<noteq> 0 then drop_bit 30 ?a0 else if ?k = 0 then 4 else of_nat ?k :: u32"
  let ?w = "(windowbase c - ?n) AND 15"
  have rot: "?n = of_nat (retw_rotation c)"
    using and_15_id [OF wb] by (simp add: retw_rotation_def Let_def unat_eq_0)
  have win: "unat ?w = retw_window c"
    unfolding rot retw_window_def by (rule win_sub)
  then have win': "of_nat (retw_window c) = ?w" by (rule of_nat_unat_eq)
  have live: "win_live c (retw_window c)"
    and out: "out = \<lparr>co_cpu = window_hazard_refresh
                   (c\<lparr>windowstart := windowstart c AND NOT (push_bit (unat (windowbase c)) 1),
                      windowbase := ?w\<rparr>),
                co_next = (next_pc AND 0xC0000000) OR (?a0 AND 0x3FFFFFFF), co_branch = True,
                co_ctx = True, co_mem = None\<rparr>"
    using cr win by (auto simp: cached_retw_def Let_def co_defs win_live_def split: if_split_asm)
  show "co_mem out = None" by (simp add: out)
  show "exec_retw E (ov next_pc False k bh c) n =
           ov (co_next out) (co_branch out) k bh (co_cpu out)"
    using live by (simp add: exec_retw_def Let_def out win')
qed

lemma cached_switch_slow: "cached_switch E c at insn el ilen PD_SLOW = None"
  by (simp add: cached_switch_def cached_registers_def Let_def)

lemma agrees_narrow_st3:
  assumes op: "XT_OP0 insn = 13" and wb: "windowbase c < 16"
    and sw: "cached_switch E c at insn el 2 (predecode_kind_narrow insn) = Some out"
    and ef: "cached_effect insn out = Some c'"
  shows "agrees E c at insn 2 el out c'"
proof -
  have kind: "predecode_kind_narrow insn =
      (if XT_R insn = 0 then PD_MOV_N
       else if XT_R insn = 15 \<and> XT_T insn = 0 then PD_RET
       else if XT_R insn = 15 \<and> XT_T insn = 1 then PD_RETW
       else if XT_R insn = 15 \<and> XT_T insn = 3 then PD_NOP else PD_SLOW)"
    using op by (simp add: predecode_kind_narrow_def Let_def)
  consider (mov) "XT_R insn = 0" | (ret) "XT_R insn = 15" "XT_T insn = 0"
    | (retw) "XT_R insn = 15" "XT_T insn = 1" | (nop) "XT_R insn = 15" "XT_T insn = 3"
    using sw cached_switch_slow [of E c at insn el 2] by (force simp: kind split: if_split_asm)
  then show ?thesis
  proof cases
    case mov
    then show ?thesis using sw ef op kind
      by (intro agreesI) (auto simp: cached_switch_def Let_def co_defs cached_registers_def
            effect_none exec_insn_def exec_narrow_def exec_st3_def)
  next
    case ret
    then show ?thesis using sw ef op kind
      by (intro agreesI) (auto simp: cached_switch_def Let_def co_defs
            effect_none exec_insn_def exec_narrow_def exec_st3_def)
  next
    case retw
    then have cr: "cached_retw c (at + 2) = Some out"
      using sw kind by (simp add: cached_switch_def Let_def)
    show ?thesis
      using ef retw op
      by (intro agreesI)
         (simp add: effect_none cached_retw_agrees [OF wb cr] exec_insn_def exec_narrow_def
            exec_st3_def)
  next
    case nop
    then show ?thesis using sw ef op kind
      by (intro agreesI) (auto simp: cached_switch_def Let_def co_defs cached_registers_def
            effect_none exec_insn_def exec_narrow_def exec_st3_def)
  qed
qed

lemma agrees_narrow:
  assumes "\<not> journal_en (mem c)" "windowbase c < 16"
    and sw: "cached_switch E c at insn el 2 (predecode_kind_narrow insn) = Some out"
    and ef: "cached_effect insn out = Some c'"
  shows "agrees E c at insn 2 el out c'"
proof -
  have "\<not> (XT_OP0 insn < 8 \<or> 14 \<le> XT_OP0 insn)"
  proof
    assume "XT_OP0 insn < 8 \<or> 14 \<le> XT_OP0 insn"
    then have "predecode_kind_narrow insn = PD_SLOW" by (auto simp: predecode_kind_narrow_def Let_def)
    then show False using sw by (simp add: cached_switch_slow [unfolded One_nat_def])
  qed
  then consider "XT_OP0 insn = 8 \<or> XT_OP0 insn = 9"
    | "XT_OP0 insn = 10 \<or> XT_OP0 insn = 11 \<or> XT_OP0 insn = 12" | "XT_OP0 insn = 13"
    by linarith
  then show ?thesis
    using assms agrees_narrow_memory agrees_narrow_registers agrees_narrow_st3 by cases blast+
qed

lemma agrees_l32r:
  assumes op: "XT_OP0 insn = 1"
    and sw: "cached_switch E c at insn el 3 PD_LOAD = Some out"
    and ef: "cached_effect insn out = Some c'"
  shows "agrees E c at insn 3 el out c'"
  using assms
  by (intro agreesI)
     (auto simp: cached_switch_def cached_int_memory_def Let_def co_defs effect_some exec_insn_def
        exec_l32r_def access_load4)

lemma agrees_lsai:
  assumes op: "XT_OP0 insn = 2" and j: "\<not> journal_en (mem c)"
    and sw: "cached_switch E c at insn el 3 (predecode_kind_wide insn) = Some out"
    and ef: "cached_effect insn out = Some c'"
  shows "agrees E c at insn 3 el out c'"
proof -
  let ?r = "XT_R insn"
  have kind: "predecode_kind_wide insn =
      (if ?r = 0 \<or> ?r = 1 \<or> ?r = 2 \<or> ?r = 9 \<or> ?r = 11 then PD_LOAD
       else if ?r = 4 \<or> ?r = 5 \<or> ?r = 6 \<or> ?r = 15 then PD_STORE
       else if ?r = 10 then PD_MOVI
       else if ?r = 12 \<or> ?r = 13 then PD_ADDI
       else if ?r = 7 then PD_NOP else PD_SLOW)"
    using op by (simp add: predecode_kind_wide_def Let_def)
  consider (load) "?r \<in> {0, 1, 2, 9, 11}" | (store) "?r \<in> {4, 5, 6, 15}" | (movi) "?r = 10"
    | (addi) "?r = 12 \<or> ?r = 13" | (nop) "?r = 7"
    using sw cached_switch_slow [of E c at insn el 3] by (force simp: kind split: if_split_asm)
  then show ?thesis
  proof cases
    case load
    then have "cached_int_memory c insn (at + 3) False = Some out"
      using sw by (auto simp: kind cached_switch_def Let_def)
    then have out: "out = \<lparr>co_cpu = c, co_next = at + 3, co_branch = False, co_ctx = False,
        co_mem = Some (int_access (if ?r = 0 then 1 else if ?r = 1 \<or> ?r = 9 then 2 else 4) False
          (XT_T insn) (ar_read c (XT_S insn) + XT_IMM8 insn *
             of_nat (if ?r = 0 then 1 else if ?r = 1 \<or> ?r = 9 then 2 else 4)))\<rparr>"
      using load op by (auto simp: cached_int_memory_def Let_def co_defs)
    from load ef op show ?thesis
      by (intro agreesI)
         (elim insertE emptyE;
          simp add: out effect_some exec_insn_def exec_lsai_def Let_def push_bit_eq_mult
            mult.commute access_load4 access_load1 access_load2 access_load2s)
  next
    case store
    then have "cached_int_memory c insn (at + 3) True = Some out"
      using sw by (auto simp: kind cached_switch_def Let_def)
    then have out: "out = \<lparr>co_cpu = c, co_next = at + 3, co_branch = False, co_ctx = False,
        co_mem = Some (int_access (if ?r = 4 then 1 else if ?r = 5 then 2 else 4) True
          (XT_T insn) (ar_read c (XT_S insn) + XT_IMM8 insn *
             of_nat (if ?r = 4 then 1 else if ?r = 5 then 2 else 4)))\<rparr>"
      using store op by (auto simp: cached_int_memory_def Let_def co_defs)
    from store ef op j show ?thesis
      by (intro agreesI)
         (elim insertE emptyE;
          simp add: out effect_some exec_insn_def exec_lsai_def Let_def push_bit_eq_mult
            mult.commute access_store)
  next
    case movi
    then show ?thesis using sw ef op kind
      by (intro agreesI) (auto simp: cached_switch_def Let_def co_defs cached_registers_def
            effect_none exec_insn_def exec_lsai_def)
  next
    case addi
    then show ?thesis using sw ef op kind
      by (intro agreesI) (auto simp: cached_switch_def Let_def co_defs cached_registers_def
            effect_none exec_insn_def exec_lsai_def)
  next
    case nop
    then show ?thesis using sw ef op kind
      by (intro agreesI) (auto simp: cached_switch_def Let_def co_defs cached_registers_def
            effect_none exec_insn_def exec_lsai_def)
  qed
qed

lemma agrees_lsci:
  assumes op: "XT_OP0 insn = 3" and j: "\<not> journal_en (mem c)"
    and sw: "cached_switch E c at insn el 3 PD_FP_MEMORY = Some out"
    and ef: "cached_effect insn out = Some c'"
  shows "agrees E c at insn 3 el out c'"
proof -
  have cm: "cached_fp_memory c insn (at + 3) = Some out"
    using sw by (simp add: cached_switch_def Let_def)
  then have r: "XT_R insn \<in> {0, 4, 8, 12}"
    using op by (auto simp: cached_fp_memory_def Let_def split: if_split_asm)
  show ?thesis
  proof (rule agreesI)
    fix bh
    show "exec_insn E (ov (at + of_nat 3) False (ccount c + el) bh c) insn 3 =
      (Retired, ov (co_next out) (co_branch out) (ccount c + el) bh c')"
      using r
    proof (elim insertE emptyE)
      assume r: "XT_R insn = 0"
      then have "out = \<lparr>co_cpu = c, co_next = at + 3, co_branch = False, co_ctx = False, co_mem = Some 
         \<lparr>cm_width = 4, cm_store = False, cm_fp = True, cm_reg = XT_T insn,
          cm_addr = ar_read c (XT_S insn) + push_bit 2 (XT_IMM8 insn), cm_update = None\<rparr>\<rparr>"
        using cm op by (simp add: cached_fp_memory_def Let_def co_defs)
      then show ?thesis using r op ef fp_access_load [of c insn "XT_T insn" _ None]
        by (simp add: effect_some exec_insn_def exec_lsci_def Let_def)
    next
      assume r: "XT_R insn = 4"
      then have "out = \<lparr>co_cpu = c, co_next = at + 3, co_branch = False, co_ctx = False, co_mem = Some 
         \<lparr>cm_width = 4, cm_store = True, cm_fp = True, cm_reg = XT_T insn,
          cm_addr = ar_read c (XT_S insn) + push_bit 2 (XT_IMM8 insn), cm_update = None\<rparr>\<rparr>"
        using cm op by (simp add: cached_fp_memory_def Let_def co_defs)
      then show ?thesis using r op ef j fp_access_store [of c insn "XT_T insn" _ None]
        by (simp add: effect_some exec_insn_def exec_lsci_def Let_def)
    next
      assume r: "XT_R insn = 8"
      let ?a = "ar_read c (XT_S insn) + push_bit 2 (XT_IMM8 insn)"
      from r have "out = \<lparr>co_cpu = c, co_next = at + 3, co_branch = False, co_ctx = False, co_mem = Some 
         \<lparr>cm_width = 4, cm_store = False, cm_fp = True, cm_reg = XT_T insn,
          cm_addr = ?a, cm_update = Some ?a\<rparr>\<rparr>"
        using cm op by (simp add: cached_fp_memory_def Let_def co_defs)
      then show ?thesis using r op ef fp_access_load [of c insn "XT_T insn" _ "Some ?a"]
        by (simp add: effect_some exec_insn_def exec_lsci_def Let_def)
    next
      assume r: "XT_R insn = 12"
      let ?a = "ar_read c (XT_S insn) + push_bit 2 (XT_IMM8 insn)"
      from r have "out = \<lparr>co_cpu = c, co_next = at + 3, co_branch = False, co_ctx = False, co_mem = Some 
         \<lparr>cm_width = 4, cm_store = True, cm_fp = True, cm_reg = XT_T insn,
          cm_addr = ?a, cm_update = Some ?a\<rparr>\<rparr>"
        using cm op by (simp add: cached_fp_memory_def Let_def co_defs)
      then show ?thesis using r op ef j fp_access_store [of c insn "XT_T insn" _ "Some ?a"]
        by (simp add: effect_some exec_insn_def exec_lsci_def Let_def)
    qed
  qed
qed

lemma agrees_call:
  assumes op: "XT_OP0 insn = 5"
    and sw: "cached_switch E c at insn el 3 PD_CALL = Some out"
    and ef: "cached_effect insn out = Some c'"
  shows "agrees E c at insn 3 el out c'"
  using assms
  by (intro agreesI)
     (auto simp: cached_switch_def cached_link_def Let_def co_defs effect_none exec_insn_def
        exec_calln_def)

lemma ov_branch_taken [simp]: "branch_taken (ov p w k b c) insn = branch_taken c insn"
  unfolding branch_taken_def Let_def by simp

lemma ov_branch_if [simp]:
  "branch_if q (ov p w k b c) a = ov (if q then a else p) (if q then True else w) k b c"
  by (simp add: branch_if_def)

lemma agrees_b:
  assumes op: "XT_OP0 insn = 7"
    and sw: "cached_switch E c at insn el 3 PD_BRANCH = Some out"
    and ef: "cached_effect insn out = Some c'"
  shows "agrees E c at insn 3 el out c'"
  using assms
  by (intro agreesI)
     (auto simp: cached_switch_def Let_def co_defs effect_none exec_insn_def exec_b_def
        simp del: of_nat_numeral)

lemma exec_loop_ov:
  assumes "\<not> record_branch_targets c"
  shows "exec_loop (ov p False k b c) insn =
    (let r = XT_R insn; v = ar_read c (XT_S insn); e = p + XT_IMM8 insn + 1;
         c1 = c\<lparr>lend := e, lbeg := p\<rparr>;
         skip = (r = 9 \<and> v = 0 \<or> r = 10 \<and> sint v \<le> 0)
     in ov (if skip then e else p) skip k b (if skip then c1 else c1\<lparr>lcount := v - 1\<rparr>))"
  using assms unfolding exec_loop_def Let_def
  by (cases "XT_R insn = 9 \<and> ar_read c (XT_S insn) = 0 \<or>
             XT_R insn = 10 \<and> sint (ar_read c (XT_S insn)) \<le> 0")
     (simp_all only: ov_sel ov_upd ov_upd_own ov_ar_read ov_BRANCH_TO if_True if_False simp_thms,
      simp_all)

lemma agrees_branch_si:
  assumes op: "XT_OP0 insn = 6" and rb: "\<not> record_branch_targets c"
    and ne: "\<not> (XT_N insn = 3 \<and> XT_M insn = 0)"
    and sw: "cached_switch E c at insn el 3 PD_BRANCH_SI = Some out"
    and ef: "cached_effect insn out = Some c'"
  shows "agrees E c at insn 3 el out c'"
proof -
  let ?n = "XT_N insn" and ?m = "XT_M insn"
  have cb: "cached_branch_si c insn (at + 3) = Some out"
    using sw by (simp add: cached_switch_def Let_def)
  have n4: "?n < 4" and m4: "?m < 4" by simp_all
  have n3: "2 \<le> ?m \<or> ?m = 1 \<and> (XT_R insn \<le> 1 \<or> 8 \<le> XT_R insn \<and> XT_R insn \<le> 10)"
    if n: "?n = 3"
  proof (rule ccontr)
    assume *: "\<not> ?thesis"
    then have a: "\<not> 2 \<le> ?m" and b: "\<not> (?m = 1 \<and> XT_R insn \<le> 1)"
      and d: "\<not> (?m = 1 \<and> 8 \<le> XT_R insn \<and> XT_R insn \<le> 10)" by blast+
    have "cached_branch_si c insn (at + 3) = None"
      unfolding cached_branch_si_def Let_def n if_not_P [OF a] if_not_P [OF b] if_not_P [OF d]
      by simp
    then show False using cb by simp
  qed
  consider (j) "?n = 0" | (bz) "?n = 1" | (bi0) "?n = 2" | (bu) "?n = 3" "2 \<le> ?m"
    | (bf) "?n = 3" "?m = 1" "XT_R insn \<le> 1" | (lp) "?n = 3" "?m = 1" "8 \<le> XT_R insn" "XT_R insn \<le> 10"
    using n3 n4 by linarith
  then show ?thesis
  proof cases
    case j
    then show ?thesis using cb ef op
      by (intro agreesI)
         (auto simp: cached_branch_si_def Let_def co_defs effect_none exec_insn_def exec_si_def)
  next
    case bz
    have "?m = 0 \<Longrightarrow> poll_spin_pc c = []"
      using bz cb by (auto simp: cached_branch_si_def Let_def split: if_split_asm)
    then show ?thesis using bz cb ef op
      by (intro agreesI)
         (auto simp: cached_branch_si_def Let_def co_defs effect_none exec_insn_def exec_si_def
            exec_bz_def poll_spin_hit_def)
  next
    case bi0
    then show ?thesis using cb ef op
      by (intro agreesI)
         (auto simp: cached_branch_si_def Let_def co_defs effect_none exec_insn_def exec_si_def
            exec_bi0_def)
  next
    case bu
    then show ?thesis using cb ef op m4
      by (intro agreesI)
         (auto simp: cached_branch_si_def Let_def co_defs effect_none exec_insn_def exec_si_def
            exec_bi1_def)
  next
    case bf
    then show ?thesis using cb ef op
      by (intro agreesI)
         (auto simp: cached_branch_si_def Let_def co_defs effect_none exec_insn_def exec_si_def
            exec_bi1_def)
  next
    case lp
    then show ?thesis using cb ef op rb
      by (intro agreesI)
         (simp add: cached_branch_si_def Let_def co_defs effect_none exec_insn_def exec_si_def
            exec_bi1_def exec_loop_ov; auto simp: effect_none)
  qed
qed


end
