(* ===== verification/Cached_Qrst.thy ===== *)
theory Cached_Qrst
  imports Cached_Agree
begin

text \<open>
  Agreement of the cached runner with the canonical instruction functions, second part:
  ENTRY and the RRR group, where a cached instruction may unmask interrupts (RSIL, WSR).
\<close>

lemma ov_windows [simp]:
  "win_above (ov p w k b c) = win_above c" "win_live (ov p w k b c) = win_live c"
  "first_live_above (ov p w k b c) n = first_live_above c n"
  by (simp_all add: win_above_def [abs_def] win_live_def [abs_def] first_live_above_def
      del: upt_Suc)

lemma ov_entry_overflow:
  assumes "first_live_above c (XT_PS_CALLINC (ps c)) = None"
  shows "xtensa_try_entry_overflow_exception (ov p w k b c) f = None"
  using assms by (simp add: xtensa_try_entry_overflow_exception_def overflow_into_def)

lemma ov_vectors_ready [simp]: "window_vectors_ready (ov p w k b c) v = window_vectors_ready c v"
  by (simp add: window_vectors_ready_def)

lemma ov_seed_link:
  "\<not> seed_entry_link c \<Longrightarrow> entry_seed_link E (ov p w k b c) x y = ov p w k b c"
  by (simp add: entry_seed_link_def)

lemma ov_entry_rotate:
  "\<not> record_branch_targets c \<Longrightarrow>
     entry_rotate (ov p w k b c) n = ov p w k b (entry_rotate c n)"
  by (simp add: entry_rotate_def Let_def window_hazard_refresh_def)

lemma ar_write_sel [simp]:
  "seed_entry_link (ar_write c n v) = seed_entry_link c"
  "record_branch_targets (ar_write c n v) = record_branch_targets c"
  "windowbase (ar_write c n v) = windowbase c" "windowstart (ar_write c n v) = windowstart c"
  "window_callsize (ar_write c n v) = window_callsize c" "ps (ar_write c n v) = ps c"
  by (simp_all add: ar_write_def)

lemma entry_need_ge: "n \<le> window_need2 s (n * 4 + s mod 4)"
  by (simp add: window_need2_def) arith

lemma agrees_entry:
  assumes op: "XT_OP0 insn = 6" "XT_N insn = 3" "XT_M insn = 0"
    and rb: "\<not> record_branch_targets c" and hz: "hazard_ok c"
    and g: "window_hazard c AND
              (push_bit (window_need2 (XT_S insn) (entry_dst (ps c) (XT_S insn))) 1 - 1) = 0"
    and sw: "cached_switch E c at insn el 3 PD_ENTRY = Some out"
    and ef: "cached_effect insn out = Some c'"
  shows "agrees E c at insn 3 el out c'"
proof -
  let ?s = "XT_S insn" and ?ci = "XT_PS_CALLINC (ps c)"
  let ?c1 = "ar_write c (entry_dst (ps c) ?s) (ar_read c ?s - push_bit 3 (XT_IMM12 insn))"
  have ce: "cached_entry c insn (at + 3) = Some out"
    using sw by (simp add: cached_switch_def Let_def)
  then have cond: "\<not> seed_entry_link c" "real_window_vectors c" "XT_PS_WOE (ps c)"
    "\<not> XT_PS_EXCM (ps c)" "window_vectors_ready c VECOFS_WINDOW_OVERFLOW4"
    by (auto simp: cached_entry_def split: if_split_asm)
  have out: "out = \<lparr>co_cpu = entry_rotate ?c1 ?ci, co_next = at + 3, co_branch = False,
      co_ctx = True, co_mem = None\<rparr>"
    using ce cond rb
    by (auto simp: cached_entry_def Let_def co_defs entry_rotate_def entry_dst_def
        window_hazard_refresh_def)
  have "?ci \<le> window_need2 ?s (entry_dst (ps c) ?s)"
    unfolding entry_dst_def by (rule entry_need_ge)
  then have fl: "first_live_above c ?ci = None"
    using no_live_above [OF hz cond(2) _ g] window_need2_less [of ?s "entry_dst (ps c) ?s"]
    by (simp add: entry_dst_less)
  show ?thesis
    using ef op cond rb
    by (intro agreesI)
       (simp add: out effect_none exec_insn_def exec_si_def exec_bi1_def exec_entry_def Let_def
         ov_entry_overflow [OF fl] ov_seed_link ov_entry_rotate)
qed

lemma XT_M_div: "XT_M i = XT_T i div 4"
proof -
  have a: "unat ((w :: u32) AND 3) = unat w mod 4" for w
    using and_mask_mod [of w 2] by (simp add: mask_eq_exp_minus_1)
  have "x mod 16 div 4 = x div 4 mod 4" for x :: nat using mod_mult2_eq [of x 4 4] by simp
  moreover have "unat i div 16 div 4 = unat i div 64" by (simp flip: div_mult2_eq)
  ultimately have "unat i div 64 mod 4 = unat i div 16 mod 16 div 4" by simp
  then show ?thesis
    by (simp add: XT_M_def XT_T_def a unat_and_15 unat_drop_bit_eq drop_bit_eq_div unat_div)
qed

lemma irq_check_id: "\<not> irq_check c \<Longrightarrow> c\<lparr>irq_check := False\<rparr> = c"
  by simp

lemma of_nat_and_15: "s < 16 \<Longrightarrow> (of_nat s :: u32) AND 15 = of_nat s"
  by (rule and_15_id) (simp add: word_less_nat_alt unat_of_nat)

lemma request_not_pending:
  "\<not> irq_pending c \<Longrightarrow> xtensa_request_irq_check c = c\<lparr>irq_check := True\<rparr>"
  by (simp add: xtensa_request_irq_check_def xtensa_irq_is_deliverable_def irq_pending_def Let_def)

lemma agrees_irqI:
  assumes "\<not> irq_pending c'"
    "\<And>bh. exec_insn E (ov (at + of_nat ilen) False (ccount c + el) bh c) insn ilen =
          (Retired, ov (co_next out) (co_branch out) (ccount c + el) bh (c'\<lparr>irq_check := True\<rparr>))"
  shows "agrees E c at insn ilen el out c'"
  unfolding agrees_def by (intro allI exI [of _ True]) (simp add: assms)

lemma agrees_rsil:
  assumes op: "XT_OP0 insn = 0" "XT_OP1 insn = 0" "XT_OP2 insn = 0" "XT_R insn = 6"
    and sw: "cached_switch E c at insn el 3 PD_RSIL = Some out"
    and ef: "cached_effect insn out = Some c'"
  shows "agrees E c at insn 3 el out c'"
proof (rule agrees_irqI)
  have np: "\<not> irq_pending c"
    using sw by (auto simp: cached_switch_def cached_registers_def Let_def split: if_split_asm)
  have out: "out = \<lparr>co_cpu = (ar_write c (XT_T insn) (ps c))\<lparr>ps := (ps c AND NOT 0xF) OR of_nat (XT_S insn)\<rparr>,
     co_next = at + 3, co_branch = False, co_ctx = False, co_mem = None\<rparr>"
    using sw np by (auto simp: cached_switch_def cached_registers_def Let_def co_defs)
  have c': "c' = (ar_write c (XT_T insn) (ps c))\<lparr>ps := (ps c AND NOT 0xF) OR of_nat (XT_S insn)\<rparr>"
    using ef by (simp add: effect_none out)
  show np': "\<not> irq_pending c'"
    using np by (simp add: c' irq_pending_def ar_write_def)
  show "exec_insn E (ov (at + of_nat 3) False (ccount c + el) bh c) insn 3 =
     (Retired, ov (co_next out) (co_branch out) (ccount c + el) bh (c'\<lparr>irq_check := True\<rparr>))" for bh
    using op np' unfolding c'
    by (simp add: out exec_insn_def exec_qrst_def exec_rst0_def exec_st0_def Let_def
        of_nat_and_15 request_not_pending)
qed

lemma ov_st1:
  "\<not> (XT_R insn = 8 \<and> \<not> real_window_vectors c \<and> XT_PS_WOE (ps c)) \<Longrightarrow>
     exec_st1 E (ov p w k b c) insn = ov p w k b (exec_st1 E c insn)"
  unfolding exec_st1_def Let_def
  by (cases "real_window_vectors c"; cases "XT_PS_WOE (ps c)")
     (simp_all add: ov_if cong: if_cong split del: if_split)

lemma ov_br_reduce: "exec_br_reduce (ov p w k b c) insn = ov p w k b (exec_br_reduce c insn)"
  by (simp add: exec_br_reduce_def Let_def)

lemma ov_rt0: "exec_rt0 (ov p w k b c) insn = ov p w k b (exec_rt0 c insn)"
  by (simp add: exec_rt0_def Let_def)

lemma exec_qrst_registers_ov:
  assumes "1 \<le> XT_OP1 insn" "\<not> (XT_OP1 insn = 1 \<and> XT_OP2 insn = 6)"
    "\<not> (XT_OP1 insn = 2 \<and> 12 \<le> XT_OP2 insn \<and> ar_read c (XT_T insn) = 0)"
    "\<not> (XT_OP1 insn = 3 \<and> XT_OP2 insn \<le> 1)"
  shows "exec_qrst_registers E (ov p w k b c) insn = ov p w k b (exec_qrst_registers E c insn)"
  using assms
  by (auto simp: exec_qrst_registers_def Let_def ov_rst1 ov_rst2 ov_rst3 ov_extui)

lemma agrees_alu:
  assumes op: "XT_OP0 insn = 0"
    and sw: "cached_switch E c at insn el 3 PD_ALU = Some out"
    and ef: "cached_effect insn out = Some c'"
    and k: "XT_OP1 insn = 0 \<and> XT_OP2 insn \<in> {4, 5, 6, 7} \<or>
       XT_OP1 insn = 0 \<and> XT_OP2 insn = 0 \<and> 8 \<le> XT_R insn \<and> XT_R insn \<le> 11 \<or>
       XT_OP1 insn = 1 \<or> XT_OP1 insn = 2 \<or> XT_OP1 insn = 3 \<and> 2 \<le> XT_OP2 insn"
  shows "agrees E c at insn 3 el out c'"
proof -
  obtain c1 where c1: "exec_cached_qrst E c insn el = Some c1"
    using sw by (auto simp: cached_switch_def Let_def split: option.splits)
  have out: "co_next out = at + 3" "co_branch out = False" "co_mem out = None" "co_cpu out = c1"
    using sw c1 by (auto simp: cached_switch_def Let_def co_defs split: if_split_asm)
  have c1': "c1 = c'" using ef by (simp add: effect_none out)
  have ex: "exec_qrst E (ov p w kk b c) insn = (False, ov p w kk b c1)" for p w kk b
    using k
  proof (elim disjE conjE)
    assume *: "XT_OP1 insn = 0" "XT_OP2 insn \<in> {4, 5, 6, 7}"
    show ?thesis
    proof (cases "XT_OP2 insn = 4")
      case True
      then have "\<not> (XT_R insn = 8 \<and> \<not> real_window_vectors c \<and> XT_PS_WOE (ps c))"
        "c1 = exec_st1 E c insn"
        using c1 * by (auto simp: exec_cached_qrst_def Let_def exec_qrst_def exec_rst0_def
            split: if_split_asm)
      then show ?thesis using * True
        by (simp add: exec_qrst_def exec_rst0_def Let_def ov_st1)
    next
      case False
      then show ?thesis using * c1
        by (auto simp: exec_cached_qrst_def Let_def exec_qrst_def exec_rst0_def exec_rt0_def)
    qed
  next
    assume *: "XT_OP1 insn = 0" "XT_OP2 insn = 0" "8 \<le> XT_R insn" "XT_R insn \<le> 11"
    then have "XT_R insn \<noteq> 6" "XT_R insn \<noteq> 2" by auto
    then show ?thesis using * c1
      by (auto simp: exec_cached_qrst_def Let_def exec_qrst_def exec_rst0_def exec_st0_def
          ov_br_reduce)
  next
    assume "XT_OP1 insn = 1"
    then show ?thesis using c1
      by (auto simp: exec_cached_qrst_def Let_def exec_qrst_def exec_qrst_registers_ov
          split: if_split_asm)
  next
    assume "XT_OP1 insn = 2"
    then show ?thesis using c1
      by (auto simp: exec_cached_qrst_def Let_def exec_qrst_def exec_qrst_registers_ov
          split: if_split_asm)
  next
    assume "XT_OP1 insn = 3" "2 \<le> XT_OP2 insn"
    then show ?thesis using c1
      by (auto simp: exec_cached_qrst_def Let_def exec_qrst_def exec_qrst_registers_ov
          split: if_split_asm)
  qed
  show ?thesis
    using op by (intro agreesI) (simp add: exec_insn_def ex out flip: c1')
qed

lemma sr_write_irq_check:
  "sr \<noteq> 226 \<Longrightarrow> sr \<noteq> 228 \<Longrightarrow> sr \<noteq> 230 \<Longrightarrow> \<not> (240 \<le> sr \<and> sr \<le> 242) \<Longrightarrow>
     irq_check (sr_write E c sr v) = irq_check c"
  unfolding sr_write_def Let_def
  by (cases "sr < 240") (simp_all add: if_distrib [of irq_check] window_hazard_refresh_def
      cong: if_cong split del: if_split)

lemma agrees_wsr:
  assumes op: "XT_OP0 insn = 0" "XT_OP1 insn = 3" "XT_OP2 insn = 1"
    and nc: "\<not> irq_check c"
    and sw: "cached_switch E c at insn el 3 PD_WSR = Some out"
    and ef: "cached_effect insn out = Some c'"
  shows "agrees E c at insn 3 el out c'"
proof -
  let ?sr = "XT_SR_NUM insn" and ?v = "ar_read c (XT_T insn)"
  obtain c1 where c1: "exec_cached_qrst E c insn el = Some c1"
    using sw by (auto simp: cached_switch_def Let_def split: option.splits)
  have out: "co_next out = at + 3" "co_branch out = False" "co_mem out = None" "co_cpu out = c1"
    using sw c1 by (auto simp: cached_switch_def Let_def co_defs)
  have sr: "?sr \<noteq> 234" "?sr \<noteq> 226" "\<not> (240 \<le> ?sr \<and> ?sr \<le> 242)"
    "?sr = 230 \<Longrightarrow> \<not> irq_pending c" "?sr = 228 \<Longrightarrow> interrupt c AND ?v = 0"
    and c': "c' = (sr_write E c ?sr ?v)\<lparr>irq_check := False\<rparr>"
    using c1 ef op by (auto simp: exec_cached_qrst_def Let_def effect_none out split: if_split_asm)
  have ex: "exec_insn E (ov (at + 3) False (ccount c + el) bh c) insn 3 =
      (Retired, ov (at + 3) False (ccount c + el) bh (sr_write E c ?sr ?v))" for bh
    using op sr by (simp add: exec_insn_def exec_qrst_def exec_qrst_registers_def exec_rst3_def
        Let_def ov_sr_write)
  show ?thesis
  proof (cases "?sr = 228 \<or> ?sr = 230")
    case True
    then have w: "\<exists>c2. sr_write E c ?sr ?v = c2\<lparr>irq_check := True\<rparr> \<and> \<not> irq_pending c2"
    proof
      assume s: "?sr = 228"
      have np: "\<not> irq_pending (c\<lparr>intenable := ?v\<rparr>)" using sr(5) s by (simp add: irq_pending_def)
      then show ?thesis using s request_not_pending [OF np]
        by (intro exI [of _ "c\<lparr>intenable := ?v\<rparr>"]) (simp add: sr_write_def)
    next
      assume s: "?sr = 230"
      have np: "\<not> irq_pending (c\<lparr>ps := ?v\<rparr>)" using sr(4) s by (simp add: irq_pending_def)
      then show ?thesis using s request_not_pending [OF np]
        by (intro exI [of _ "c\<lparr>ps := ?v\<rparr>"]) (simp add: sr_write_def)
    qed
    then obtain c2 where c2: "sr_write E c ?sr ?v = c2\<lparr>irq_check := True\<rparr>" "\<not> irq_pending c2"
      by blast
    show ?thesis
      by (rule agrees_irqI) (use c2 in \<open>simp_all add: ex out c' irq_pending_def\<close>)
  next
    case False
    then have "\<not> irq_check (sr_write E c ?sr ?v)"
      using sr nc by (simp add: sr_write_irq_check)
    then have "c' = sr_write E c ?sr ?v" unfolding c' by (rule irq_check_id)
    then show ?thesis by (intro agreesI) (simp add: ex out)
  qed
qed

lemma agrees_snm0:
  assumes op: "XT_OP0 insn = 0" "XT_OP1 insn = 0" "XT_OP2 insn = 0" "XT_R insn = 0"
    and wb: "windowbase c < 16"
    and k: "kind = PD_RET \<and> XT_M insn = 2 \<and> XT_N insn = 0 \<or>
            kind = PD_RETW \<and> XT_M insn = 2 \<and> XT_N insn = 1 \<or>
            kind = PD_JX_CALLX \<and> (XT_M insn = 3 \<or> XT_M insn = 2 \<and> XT_N insn = 2)"
    and sw: "cached_switch E c at insn el 3 kind = Some out"
    and ef: "cached_effect insn out = Some c'"
  shows "agrees E c at insn 3 el out c'"
proof -
  have ill: "\<not> (XT_S insn = 0 \<and> XT_T insn = 0)" using k by (auto simp: XT_M_div)
  have ex: "exec_insn E (ov p w kk b c) insn 3 = (Retired, exec_snm0 E (ov p w kk b c) insn)"
    for p w kk b
    using op by (simp add: exec_insn_def exec_qrst_def exec_rst0_def exec_st0_def Let_def)
  from k show ?thesis
  proof (elim disjE conjE)
    assume *: "kind = PD_RET" "XT_M insn = 2" "XT_N insn = 0"
    then show ?thesis using sw ef ill
      by (intro agreesI) (auto simp: ex exec_snm0_def cached_switch_def Let_def co_defs effect_none)
  next
    assume *: "kind = PD_RETW" "XT_M insn = 2" "XT_N insn = 1"
    then have cr: "cached_retw c (at + 3) = Some out" using sw by (simp add: cached_switch_def Let_def)
    show ?thesis using * ef ill
      by (intro agreesI) (auto simp: ex exec_snm0_def Let_def effect_none cached_retw_agrees [OF wb cr])
  next
    assume *: "kind = PD_JX_CALLX" "XT_M insn = 3"
    then show ?thesis using sw ef ill
      by (intro agreesI)
         (auto simp: ex exec_snm0_def cached_switch_def cached_link_def Let_def co_defs effect_none)
  next
    assume *: "kind = PD_JX_CALLX" "XT_M insn = 2" "XT_N insn = 2"
    then show ?thesis using sw ef ill
      by (intro agreesI) (auto simp: ex exec_snm0_def cached_switch_def Let_def co_defs effect_none)
  qed
qed

lemma agrees_qrst_simple:
  assumes op: "XT_OP0 insn = 0"
    and k: "kind = PD_ADD \<and> XT_OP1 insn = 0 \<and> 8 \<le> XT_OP2 insn \<or>
            kind = PD_LOGIC \<and> XT_OP1 insn = 0 \<and> 1 \<le> XT_OP2 insn \<and> XT_OP2 insn \<le> 3 \<or>
            kind = PD_EXTUI \<and> (XT_OP1 insn = 4 \<or> XT_OP1 insn = 5) \<or>
            kind = PD_FP0 \<and> XT_OP1 insn = 10 \<or> kind = PD_FP1 \<and> XT_OP1 insn = 11 \<or>
            kind = PD_RSR \<and> XT_OP1 insn = 3 \<and> XT_OP2 insn = 0 \<or>
            kind = PD_NOP \<and> XT_OP1 insn = 0 \<and> XT_OP2 insn = 0 \<and> XT_R insn = 2
              \<and> xtensa_sync_encoding_valid insn"
    and sw: "cached_switch E c at insn el 3 kind = Some out"
    and ef: "cached_effect insn out = Some c'"
  shows "agrees E c at insn 3 el out c'"
  using k
  apply (elim disjE conjE)
  subgoal using op sw ef
    by (intro agreesI)
       (auto simp: cached_switch_def cached_registers_def Let_def co_defs effect_none exec_insn_def
          exec_qrst_def exec_rst0_def exec_addsub_def)
  subgoal using op sw ef
    by (intro agreesI)
       (auto simp: cached_switch_def cached_registers_def Let_def co_defs effect_none exec_insn_def
          exec_qrst_def exec_rst0_def exec_logic_def)
  subgoal using op sw ef
    by (intro agreesI)
       (auto simp: cached_switch_def cached_registers_def Let_def co_defs effect_none exec_insn_def
          exec_qrst_def exec_qrst_registers_def exec_extui_def)
  subgoal using op sw ef
    by (intro agreesI)
       (auto simp: cached_switch_def cached_registers_def Let_def co_defs effect_none exec_insn_def
          exec_qrst_def exec_qrst_registers_def exec_extui_def)
  subgoal using op sw ef
    by (intro agreesI)
       (auto simp: cached_switch_def cached_registers_def Let_def co_defs effect_none exec_insn_def
          exec_qrst_def)
  subgoal using op sw ef
    by (intro agreesI)
       (auto simp: cached_switch_def cached_registers_def Let_def co_defs effect_none exec_insn_def
          exec_qrst_def)
  subgoal using op sw ef
    by (intro agreesI)
       (auto simp: cached_switch_def cached_registers_def Let_def co_defs effect_none exec_insn_def
          exec_qrst_def exec_qrst_registers_def exec_rst3_def)
  subgoal using op sw ef
    by (intro agreesI)
       (auto simp: cached_switch_def cached_registers_def Let_def co_defs effect_none exec_insn_def
          exec_qrst_def exec_rst0_def exec_st0_def)
  done

lemma agrees_lsc4:
  assumes op: "XT_OP0 insn = 0" "XT_OP1 insn = 9" "XT_OP2 insn = 0 \<or> XT_OP2 insn = 4"
    and j: "\<not> journal_en (mem c)"
    and sw: "cached_switch E c at insn el 3 PD_WINDOW_MEMORY = Some out"
    and ef: "cached_effect insn out = Some c'"
  shows "agrees E c at insn 3 el out c'"
proof -
  have out: "out = \<lparr>co_cpu = c, co_next = at + 3, co_branch = False, co_ctx = False,
      co_mem = Some (int_access 4 (XT_OP2 insn = 4) (XT_T insn)
                 (ar_read c (XT_S insn) + (of_nat (4 * XT_R insn) - 64)))\<rparr>"
    using sw by (auto simp: cached_switch_def Let_def co_defs)
  show ?thesis
    using op ef j
    by (intro agreesI)
       (auto simp: out effect_some exec_insn_def exec_qrst_def exec_lsc4_def Let_def
          access_load4 [unfolded exec_load32_def Let_def] access_store)
qed

lemma agrees_lscx:
  assumes op: "XT_OP0 insn = 0" "XT_OP1 insn = 8"
    and o2: "XT_OP2 insn = 0 \<or> XT_OP2 insn = 1 \<or> XT_OP2 insn = 4 \<or> XT_OP2 insn = 5"
    and j: "\<not> journal_en (mem c)"
    and sw: "cached_switch E c at insn el 3 PD_FP_MEMORY = Some out"
    and ef: "cached_effect insn out = Some c'"
  shows "agrees E c at insn 3 el out c'"
proof -
  let ?s = "ar_read c (XT_S insn)" and ?u = "ar_read c (XT_S insn) + ar_read c (XT_T insn)"
  let ?upd = "XT_OP2 insn = 1 \<or> XT_OP2 insn = 5"
  have out: "out = \<lparr>co_cpu = c, co_next = at + 3, co_branch = False, co_ctx = False,
      co_mem = Some \<lparr>cm_width = 4, cm_store = (4 \<le> XT_OP2 insn), cm_fp = True,
        cm_reg = XT_R insn, cm_addr = (if ?upd then ?s else ?u),
        cm_update = (if ?upd then Some ?u else None)\<rparr>\<rparr>"
    using sw op o2 by (auto simp: cached_switch_def cached_fp_memory_def Let_def co_defs)
  have t: "ar_read (fr_write (host_touch c q n) r v) i = ar_read c i"
    "ar_read (host_put c q bs) i = ar_read c i" for q n r v i bs
    by (simp_all add: ar_read_def fr_write_def host_touch_def host_put_def Let_def)
  have ac: "cached_access c insn \<lparr>cm_width = 4, cm_store = (4 \<le> XT_OP2 insn), cm_fp = True,
        cm_reg = XT_R insn, cm_addr = (if ?upd then ?s else ?u),
        cm_update = (if ?upd then Some ?u else None)\<rparr> = Some c'"
    using ef by (simp add: effect_some out)
  show ?thesis
  proof (rule agreesI)
    fix bh
    show "exec_insn E (ov (at + of_nat 3) False (ccount c + el) bh c) insn 3 =
      (Retired, ov (co_next out) (co_branch out) (ccount c + el) bh c')"
      using o2 op ac j
      by (elim disjE)
         (simp_all add: out exec_insn_def exec_qrst_def exec_lscx_def Let_def cached_access_def
            mem_read_mapped mem_write_mapped t cached_load_value_def
            split: option.splits if_split_asm)
  qed
qed

lemma agrees_qrst:
  assumes op: "XT_OP0 insn = 0" and j: "\<not> journal_en (mem c)" and wb: "windowbase c < 16"
    and nc: "\<not> irq_check c"
    and sw: "cached_switch E c at insn el 3 (predecode_kind_qrst insn) = Some out"
    and ef: "cached_effect insn out = Some c'"
  shows "agrees E c at insn 3 el out c'"
proof -
  let ?op1 = "XT_OP1 insn" and ?op2 = "XT_OP2 insn" and ?r = "XT_R insn" and ?k = "predecode_kind_qrst insn"
  note simple = agrees_qrst_simple [OF op _ sw ef]
  have notslow: "?k \<noteq> PD_SLOW" using sw cached_switch_slow [of E c at insn el 3] by auto
  show ?thesis
  proof (cases "?op1 = 0")
    case True
    have "?op2 < 16" by simp
    consider "8 \<le> ?op2" | "1 \<le> ?op2" "?op2 \<le> 3" | "?op2 \<in> {4, 5, 6, 7}" | "?op2 = 0" by fastforce
    then show ?thesis
    proof cases
      case 1
      then have "?k = PD_ADD" using True by (simp add: predecode_kind_qrst_def)
      then show ?thesis using simple True 1 by simp
    next
      case 2
      then have "?k = PD_LOGIC" using True by (simp add: predecode_kind_qrst_def)
      then show ?thesis using simple True 2 by simp
    next
      case 3
      then have "?k = PD_ALU" using True by (auto simp: predecode_kind_qrst_def)
      then show ?thesis using agrees_alu [OF op _ ef, of E c at el] sw True 3 by auto
    next
      case 4
      have k: "?k = (if ?r = 6 then PD_RSIL
         else if ?r = 2 \<and> xtensa_sync_encoding_valid insn then PD_NOP
         else if 8 \<le> ?r \<and> ?r \<le> 11 then PD_ALU
         else if ?r = 0 \<and> XT_M insn = 2 \<and> XT_N insn = 0 then PD_RET
         else if ?r = 0 \<and> XT_M insn = 2 \<and> XT_N insn = 1 then PD_RETW
         else if ?r = 0 \<and> (XT_M insn = 3 \<or> (XT_M insn = 2 \<and> XT_N insn = 2)) then PD_JX_CALLX
         else PD_SLOW)"
        using True 4 by (simp add: predecode_kind_qrst_def Let_def)
      consider (a) "?r = 6" | (b) "?r = 2" "xtensa_sync_encoding_valid insn" "?k = PD_NOP"
        | (d) "8 \<le> ?r" "?r \<le> 11" "?k = PD_ALU"
        | (e) "?r = 0" "?k = PD_RET \<and> XT_M insn = 2 \<and> XT_N insn = 0 \<or>
            ?k = PD_RETW \<and> XT_M insn = 2 \<and> XT_N insn = 1 \<or>
            ?k = PD_JX_CALLX \<and> (XT_M insn = 3 \<or> XT_M insn = 2 \<and> XT_N insn = 2)"
        using k sw cached_switch_slow [of E c at insn el 3] by (auto split: if_split_asm)
      then show ?thesis
      proof cases
        case a then show ?thesis using agrees_rsil [OF op True 4 a _ ef] sw k by simp
      next
        case b then show ?thesis using simple True 4 by simp
      next
        case d then show ?thesis using agrees_alu [OF op _ ef, of E c at el] sw True 4 by auto
      next
        case e then show ?thesis using agrees_snm0 [OF op True 4 e(1) wb e(2) sw ef] by blast
      qed
    qed
  next
    case False
    have k: "?k = (if ?op1 = 4 \<or> ?op1 = 5 then PD_EXTUI
      else if ?op1 = 10 then PD_FP0
      else if ?op1 = 11 then PD_FP1
      else if ?op1 = 8 \<and> (?op2 = 0 \<or> ?op2 = 1 \<or> ?op2 = 4 \<or> ?op2 = 5) then PD_FP_MEMORY
      else if ?op1 = 9 \<and> (?op2 = 0 \<or> ?op2 = 4) then PD_WINDOW_MEMORY
      else if ?op1 = 3 \<and> ?op2 = 0 then PD_RSR
      else if ?op1 = 3 \<and> ?op2 = 1 then PD_WSR
      else if (?op1 = 1 \<and> ?op2 \<noteq> 6) \<or> ?op1 = 2 \<or> ?op1 = 3 then PD_ALU
      else PD_SLOW)"
      using False by (simp add: predecode_kind_qrst_def Let_def)
    consider (a) "?op1 = 4 \<or> ?op1 = 5" "?k = PD_EXTUI" | (b) "?op1 = 10" "?k = PD_FP0"
      | (d) "?op1 = 11" "?k = PD_FP1"
      | (e) "?op1 = 8" "?op2 = 0 \<or> ?op2 = 1 \<or> ?op2 = 4 \<or> ?op2 = 5" "?k = PD_FP_MEMORY"
      | (f) "?op1 = 9" "?op2 = 0 \<or> ?op2 = 4" "?k = PD_WINDOW_MEMORY"
      | (g) "?op1 = 3" "?op2 = 0" "?k = PD_RSR" | (h) "?op1 = 3" "?op2 = 1" "?k = PD_WSR"
      | (i) "?op1 = 1 \<or> ?op1 = 2 \<or> ?op1 = 3 \<and> 2 \<le> ?op2" "?k = PD_ALU"
      using k notslow by (simp split: if_split_asm) (auto simp: not_less_eq_eq numeral_2_eq_2)
    then show ?thesis
    proof cases
      case e then show ?thesis using agrees_lscx [OF op _ _ j _ ef] sw by simp
    next
      case f then show ?thesis using agrees_lsc4 [OF op _ _ j _ ef] sw by simp
    next
      case h then show ?thesis using agrees_wsr [OF op _ _ nc _ ef] sw by simp
    next
      case i then show ?thesis using agrees_alu [OF op _ ef, of E c at el] sw by auto
    qed (use simple in simp_all)
  qed
qed

end
