(* ===== verification/Cached_Kept.thy ===== *)
theory Cached_Kept
  imports Cached_Qrst Ps_Fields
begin

text \<open>
  What an instruction of the cached runner leaves alone: the fields that decide whether the
  runner may go on (\<open>kept\<close>) and, for the classes that do not pass through
  \<open>window_context_changed\<close>, the window context it holds in locals (\<open>wkept\<close>).
\<close>

definition kept ::
  "'d cpu \<Rightarrow> bool \<times> bool \<times> bool \<times> bool \<times> u32 \<times> u32 list \<times> u32 \<times> u32 \<times> bool
             \<times> (nat \<Rightarrow> u32) option \<times> bool \<times> bool \<times> bool" where
  "kept c = (halted c, exception c, running c, record_branch_targets c, jit_fallthrough_dispatch c,
     breakpoints c, next_timer_event c, ccount c, journal_en (mem c), predecode c,
     real_window_vectors c, irq_check c, breakpoint_hit c)"

definition wkept :: "'d cpu \<Rightarrow> u32 \<times> u32 \<times> u8 \<times> bool \<times> bool" where
  "wkept c = (windowbase c, windowstart c, window_hazard c, XT_PS_WOE (ps c), XT_PS_EXCM (ps c))"

lemma rsil_level: "s < 16 \<Longrightarrow> (p AND NOT 0xF) OR of_nat s = XT_PS_SET_INTLEVEL p (of_nat s)"
  by (simp add: XT_PS_SET_INTLEVEL_def of_nat_and_15)

lemma kept_basic [simp]:
  "kept (ar_write c n v) = kept c" "kept (fr_write c n v) = kept c"
  "kept (c\<lparr>br := x1\<rparr>) = kept c" "kept (c\<lparr>sar := x2\<rparr>) = kept c" "kept (c\<lparr>ps := x3\<rparr>) = kept c"
  "kept (c\<lparr>lend := x4\<rparr>) = kept c" "kept (c\<lparr>lbeg := x5\<rparr>) = kept c" "kept (c\<lparr>lcount := x6\<rparr>) = kept c"
  "kept (c\<lparr>windowbase := x7\<rparr>) = kept c" "kept (c\<lparr>windowstart := x8\<rparr>) = kept c"
  "kept (c\<lparr>window_callsize := x9\<rparr>) = kept c" "kept (window_hazard_refresh c) = kept c"
  "kept (host_touch c p n) = kept c" "kept (host_put c p bs) = kept c"
  by (simp_all add: kept_def ar_write_def fr_write_def window_hazard_refresh_def host_touch_def
      host_put_def host_write_def Let_def)

lemma wkept_basic [simp]:
  "wkept (ar_write c n v) = wkept c" "wkept (fr_write c n v) = wkept c"
  "wkept (c\<lparr>br := x1\<rparr>) = wkept c" "wkept (c\<lparr>sar := x2\<rparr>) = wkept c"
  "wkept (c\<lparr>lend := x4\<rparr>) = wkept c" "wkept (c\<lparr>lbeg := x5\<rparr>) = wkept c" "wkept (c\<lparr>lcount := x6\<rparr>) = wkept c"
  "wkept (host_touch c p n) = wkept c" "wkept (host_put c p bs) = wkept c"
  "wkept (c\<lparr>ps := XT_PS_SET_CALLINC (ps c) x\<rparr>) = wkept c"
  "wkept (c\<lparr>ps := XT_PS_SET_INTLEVEL (ps c) x\<rparr>) = wkept c"
  by (simp_all add: wkept_def ar_write_def fr_write_def host_touch_def host_put_def host_write_def
      Let_def)

lemmas kept_if = if_distrib [of kept] if_distrib [of wkept]

lemma kept_fp [simp]:
  "kept (exec_fp1op E c insn) = kept c" "kept (exec_fp0 E c insn) = kept c" "kept (exec_fp1 c insn) = kept c"
  "wkept (exec_fp1op E c insn) = wkept c" "wkept (exec_fp0 E c insn) = wkept c" "wkept (exec_fp1 c insn) = wkept c"
proof -
  show a: "kept (exec_fp1op E c insn) = kept c" and b: "wkept (exec_fp1op E c insn) = wkept c"
    unfolding exec_fp1op_def Let_def
    by (simp_all add: kept_if cong: if_cong split del: if_split)
  show "kept (exec_fp0 E c insn) = kept c" "wkept (exec_fp0 E c insn) = wkept c"
    unfolding exec_fp0_def Let_def
    by (simp_all add: kept_if a b cong: if_cong split del: if_split)
  show "kept (exec_fp1 c insn) = kept c" "wkept (exec_fp1 c insn) = wkept c"
    unfolding exec_fp1_def Let_def
    by (simp_all add: kept_if cong: if_cong split del: if_split)
qed

lemma kept_ur [simp]: "kept (ur_write c u v) = kept c" "wkept (ur_write c u v) = wkept c"
  unfolding ur_write_def
  by (simp_all add: kept_if cong: if_cong split del: if_split) (simp_all add: kept_def wkept_def)

lemma kept_rst1: "XT_OP2 insn \<noteq> 6 \<Longrightarrow> kept (exec_rst1 E c insn) = kept c"
  "XT_OP2 insn \<noteq> 6 \<Longrightarrow> wkept (exec_rst1 E c insn) = wkept c"
  unfolding exec_rst1_def Let_def
  by (simp_all add: kept_if cong: if_cong split del: if_split)

lemma kept_divide:
  "ar_read c t \<noteq> 0 \<Longrightarrow> kept (exec_divide c op2 r s t) = kept c"
  "ar_read c t \<noteq> 0 \<Longrightarrow> wkept (exec_divide c op2 r s t) = wkept c"
  unfolding exec_divide_def Let_def
  by (simp_all add: kept_if cong: if_cong split del: if_split)

lemma kept_rst2:
  assumes "\<not> (12 \<le> XT_OP2 insn \<and> ar_read c (XT_T insn) = 0)"
  shows "kept (exec_rst2 c insn) = kept c" "wkept (exec_rst2 c insn) = wkept c"
  using assms unfolding exec_rst2_def Let_def
  by (cases "ar_read c (XT_T insn) = 0";
      simp add: kept_if kept_divide cong: if_cong split del: if_split)+

lemma kept_rst3: "1 < XT_OP2 insn \<Longrightarrow> kept (exec_rst3 E c insn) = kept c"
   "1 < XT_OP2 insn \<Longrightarrow> wkept (exec_rst3 E c insn) = wkept c"
  unfolding exec_rst3_def Let_def
  by (simp_all add: kept_if cong: if_cong split del: if_split)

lemma kept_qrst_registers:
  assumes "1 \<le> XT_OP1 insn" "\<not> (XT_OP1 insn = 1 \<and> XT_OP2 insn = 6)"
    "\<not> (XT_OP1 insn = 2 \<and> 12 \<le> XT_OP2 insn \<and> ar_read c (XT_T insn) = 0)"
    "\<not> (XT_OP1 insn = 3 \<and> XT_OP2 insn \<le> 1)"
  shows "kept (exec_qrst_registers E c insn) = kept c"
    "wkept (exec_qrst_registers E c insn) = wkept c"
  using assms
  by (auto simp: exec_qrst_registers_def Let_def kept_rst1 kept_rst2 kept_rst3 exec_extui_def)
section \<open>The window context\<close>

text \<open>The window state the runner relies on: a current hazard cache and a base below 16.\<close>

definition win_ok :: "'d cpu \<Rightarrow> bool" where
  "win_ok c \<longleftrightarrow> hazard_ok c \<and> windowbase c < 16"

lemma win_ok_kept:
  "win_ok c \<Longrightarrow> kept d = kept c \<Longrightarrow> wkept d = wkept c \<Longrightarrow> win_ok d"
  by (simp add: win_ok_def hazard_ok_def kept_def wkept_def)

lemma win_ok_refresh:
  "windowbase c < 16 \<Longrightarrow> win_ok (window_hazard_refresh c)"
  by (simp add: win_ok_def hazard_ok_def window_hazard_refresh_def)

lemma word_and_15_less [simp]: "(w :: u32) AND 15 < 16"
  using word_and_le1 [of w 15] by (simp add: word_le_nat_alt word_less_nat_alt)

lemma win_ok_other:
  "win_ok (c\<lparr>irq_check := b\<rparr>) = win_ok c"
  by (simp add: win_ok_def hazard_ok_def)

lemma kept_cached_link:
  "kept (cached_link c n p) = kept c" "wkept (cached_link c n p) = wkept c"
  by (simp_all add: cached_link_def ar_write_sel split del: if_split)
    (simp_all add: if_distrib [of kept] if_distrib [of wkept])

lemma kept_cached_access:
  assumes "cached_access c insn m = Some d"
  shows "kept d = kept c" "wkept d = wkept c"
  using assms
  by (auto simp: cached_access_def Let_def split: option.splits if_split_asm)

lemma kept_st1:
  assumes "\<not> (XT_R insn = 8 \<and> \<not> real_window_vectors c \<and> XT_PS_WOE (ps c))"
  shows "kept (exec_st1 E c insn) = kept c"
    and "XT_R insn \<noteq> 8 \<Longrightarrow> wkept (exec_st1 E c insn) = wkept c"
    and "XT_R insn = 8 \<Longrightarrow> win_ok (exec_st1 E c insn)"
proof -
  show "kept (exec_st1 E c insn) = kept c" using assms
    by (cases "real_window_vectors c"; cases "XT_PS_WOE (ps c)"; cases "XT_R insn = 8")
      (simp_all add: exec_st1_def Let_def kept_if cong: if_cong split del: if_split)
  show "XT_R insn \<noteq> 8 \<Longrightarrow> wkept (exec_st1 E c insn) = wkept c"
    by (simp add: exec_st1_def Let_def kept_if cong: if_cong split del: if_split)
  show "XT_R insn = 8 \<Longrightarrow> win_ok (exec_st1 E c insn)"
    using assms by (simp add: exec_st1_def Let_def win_ok_refresh)
qed

lemma kept_request: "kept ((xtensa_request_irq_check c)\<lparr>irq_check := irq_check c\<rparr>) = kept c"
  by (simp add: kept_def xtensa_request_irq_check_def xtensa_native_chain_barrier_def Let_def)

lemma kept_sr_write:
  assumes "sr \<noteq> 234" "\<not> (240 \<le> sr \<and> sr \<le> 242)" "\<not> irq_check c"
  shows "kept ((sr_write E c sr v)\<lparr>irq_check := False\<rparr>) = kept c"
  using assms unfolding sr_write_def
  by (simp add: if_distrib [of kept] if_distrib [of "irq_check_update f" for f] kept_request
      cong: if_cong split del: if_split)
     (auto simp: kept_def window_hazard_refresh_def xtensa_request_irq_check_def xtensa_native_chain_barrier_def Let_def)

lemma win_ok_sr_write:
  assumes "win_ok c" "\<not> (240 \<le> sr \<and> sr \<le> 242)"
  shows "win_ok (sr_write E c sr v)"
  using assms unfolding sr_write_def
  by (simp add: if_distrib [of win_ok] win_ok_refresh cong: if_cong split del: if_split)
     (auto simp: win_ok_def hazard_ok_def window_hazard_refresh_def xtensa_request_irq_check_def xtensa_native_chain_barrier_def Let_def)

lemma kept_br_reduce [simp]: "kept (exec_br_reduce c insn) = kept c" "wkept (exec_br_reduce c insn) = wkept c"
  by (simp_all add: exec_br_reduce_def Let_def)

lemma kept_rsil:
  "s < 16 \<Longrightarrow> wkept ((ar_write c t v)\<lparr>ps := (ps c AND NOT 0xF) OR of_nat s\<rparr>) = wkept c"
  unfolding rsil_level by (simp add: wkept_def ar_write_def)

lemma cached_retw_kept:
  assumes "cached_retw c p = Some out"
  shows "kept (co_cpu out) = kept c" "win_ok (co_cpu out)" "co_ctx out" "co_mem out = None"
  using assms
  by (auto simp: cached_retw_def Let_def co_defs win_ok_refresh split: if_split_asm)

lemma cached_entry_kept:
  assumes "cached_entry c insn p = Some out"
  shows "kept (co_cpu out) = kept c" "win_ok (co_cpu out)" "co_ctx out" "co_mem out = None"
  using assms
  by (auto simp: cached_entry_def Let_def co_defs win_ok_refresh split: if_split_asm)

lemma cached_branch_si_kept:
  assumes "cached_branch_si c insn p = Some out"
  shows "kept (co_cpu out) = kept c" "wkept (co_cpu out) = wkept c" "co_mem out = None"
    "\<not> co_ctx out"
  using assms unfolding cached_branch_si_def Let_def co_defs
  by (auto split: if_split_asm)

lemma cached_registers_kept:
  assumes "cached_registers E c insn el kind = Some d"
  shows "kept d = kept c" "wkept d = wkept c"
  using assms kept_rsil [of "XT_S insn" c]
  by (auto simp: cached_registers_def Let_def ar_write_sel split: if_split_asm)

lemma cached_qrst_op0:
  assumes "exec_cached_qrst E c insn el = Some d" "XT_OP1 insn = 0" "win_ok c"
  shows "kept d = kept c \<and> win_ok d \<and>
     (\<not> (XT_OP2 insn = 4 \<and> XT_R insn = 8) \<longrightarrow> wkept d = wkept c)"
proof (cases "XT_OP2 insn = 4")
  case True
  then have g: "\<not> (XT_R insn = 8 \<and> \<not> real_window_vectors c \<and> XT_PS_WOE (ps c))"
    and d: "d = exec_st1 E c insn"
    using assms(1,2) by (auto simp: exec_cached_qrst_def Let_def exec_qrst_def exec_rst0_def
        split: if_split_asm)
  show ?thesis
    using True d kept_st1 [OF g] win_ok_kept [OF assms(3), of d] by (cases "XT_R insn = 8") auto
next
  case False
  have "kept d = kept c \<and> wkept d = wkept c"
  proof (cases "XT_OP2 insn = 0")
    case True
    then show ?thesis
      using assms(1,2) kept_rsil [of "XT_S insn" c]
      by (auto simp: exec_cached_qrst_def Let_def exec_qrst_def exec_rst0_def exec_st0_def
          ar_write_sel split: if_split_asm)
  next
    case nz: False
    then show ?thesis
      using assms(1,2) False
      by (auto simp: exec_cached_qrst_def Let_def split: if_split_asm)
  qed
  then show ?thesis using win_ok_kept [OF assms(3)] by blast
qed

lemma kept_cached_qrst:
  assumes "exec_cached_qrst E c insn el = Some d" "\<not> irq_check c" "win_ok c"
  shows "kept d = kept c \<and> win_ok d \<and>
     (\<not> (XT_OP1 insn = 0 \<and> XT_OP2 insn = 4 \<and> XT_R insn = 8) \<and>
      \<not> (XT_OP1 insn = 3 \<and> XT_OP2 insn = 1) \<longrightarrow> wkept d = wkept c)"
proof (cases "XT_OP1 insn = 0")
  case True
  then show ?thesis using cached_qrst_op0 [OF assms(1) True assms(3)] by blast
next
  case nz: False
  show ?thesis
  proof (cases "XT_OP1 insn = 3 \<and> XT_OP2 insn \<le> 1")
    case True
    then have sr: "d = ar_write c (XT_T insn) (if XT_SR_NUM insn = 234 then ccount c + el
                                     else sr_read c (XT_SR_NUM insn)) \<and> XT_OP2 insn = 0
        \<or> d = (sr_write E c (XT_SR_NUM insn) (ar_read c (XT_T insn)))\<lparr>irq_check := False\<rparr>
          \<and> XT_OP2 insn = 1 \<and> XT_SR_NUM insn \<notin> {234, 240, 241, 242}"
      using assms(1) by (auto simp: exec_cached_qrst_def Let_def split: if_split_asm)
    then show ?thesis
    proof (elim disjE conjE)
      assume "d = ar_write c (XT_T insn) (if XT_SR_NUM insn = 234 then ccount c + el
                                     else sr_read c (XT_SR_NUM insn))"
      then have "kept d = kept c" "wkept d = wkept c" by simp_all
      then show ?thesis using win_ok_kept [OF assms(3)] by blast
    next
      assume d: "d = (sr_write E c (XT_SR_NUM insn) (ar_read c (XT_T insn)))\<lparr>irq_check := False\<rparr>"
        and "XT_SR_NUM insn \<notin> {234, 240, 241, 242}" and "XT_OP2 insn = 1"
      then have n: "XT_SR_NUM insn \<noteq> 234" "\<not> (240 \<le> XT_SR_NUM insn \<and> XT_SR_NUM insn \<le> 242)"
        by auto
      then show ?thesis
        using True \<open>XT_OP2 insn = 1\<close>
        by (simp only: d kept_sr_write [OF n assms(2)] win_ok_other win_ok_sr_write [OF assms(3) n(2)]
            simp_thms)
    qed
  next
    case False
    then have d: "d = exec_qrst_registers E c insn" and o: "\<not> (XT_OP1 insn = 1 \<and> XT_OP2 insn = 6)"
      "\<not> (XT_OP1 insn = 2 \<and> 12 \<le> XT_OP2 insn \<and> ar_read c (XT_T insn) = 0)"
      using assms(1) nz by (auto simp: exec_cached_qrst_def Let_def split: if_split_asm)
    have "1 \<le> XT_OP1 insn" using nz by simp
    then have "kept d = kept c" "wkept d = wkept c"
      using kept_qrst_registers [OF _ o False, of E] d by simp_all
    then show ?thesis using win_ok_kept [OF assms(3)] by blast
  qed
qed

text \<open>One class after the other: the window context is either kept or, after
  \<open>window_context_changed\<close>, current again.\<close>

lemma cached_switch_kept:
  assumes sw: "cached_switch E c at insn el ilen kind = Some out" and nc: "\<not> irq_check c"
    and ok: "win_ok c"
    and k: "kind = PD_ALU \<Longrightarrow> \<not> (XT_OP1 insn = 3 \<and> XT_OP2 insn = 1)"
  shows "kept (co_cpu out) = kept c \<and> win_ok (co_cpu out) \<and>
     (\<not> co_ctx out \<longrightarrow> wkept (co_cpu out) = wkept c) \<and> (co_ctx out \<longrightarrow> co_mem out = None)"
proof -
  consider "kind = PD_RETW" | "kind = PD_ENTRY" | "kind = PD_ALU" | "kind = PD_WSR"
    | "kind = PD_BRANCH_SI" | "kind \<notin> {PD_RETW, PD_ENTRY, PD_ALU, PD_WSR, PD_BRANCH_SI}"
    by blast
  then show ?thesis
  proof cases
    case 1
    then show ?thesis using sw cached_retw_kept [of c "at + of_nat ilen" out]
      by (simp add: cached_switch_def Let_def)
  next
    case 2
    then show ?thesis using sw cached_entry_kept [of c insn "at + of_nat ilen" out]
      by (simp add: cached_switch_def Let_def)
  next
    case 3
    then obtain d where d: "exec_cached_qrst E c insn el = Some d" "co_cpu out = d" "co_mem out = None"
        "co_ctx out \<longleftrightarrow> XT_OP1 insn = 0 \<and> XT_OP2 insn = 4 \<and> XT_R insn = 8"
      using sw by (auto simp: cached_switch_def Let_def co_defs split: option.splits if_split_asm)
    then show ?thesis using kept_cached_qrst [OF d(1) nc ok] k [OF 3] by auto
  next
    case 4
    then obtain d where d: "exec_cached_qrst E c insn el = Some d" "co_cpu out = d" "co_mem out = None"
        "co_ctx out"
      using sw by (auto simp: cached_switch_def Let_def co_defs split: option.splits if_split_asm)
    then show ?thesis using kept_cached_qrst [OF d(1) nc ok] by auto
  next
    case 5
    then show ?thesis
      using sw cached_branch_si_kept [of c insn "at + of_nat ilen" out] win_ok_kept [OF ok]
      by (simp add: cached_switch_def Let_def)
  next
    case 6
    then have "kept (co_cpu out) = kept c \<and> wkept (co_cpu out) = wkept c \<and> \<not> co_ctx out"
      using sw unfolding cached_switch_def Let_def co_defs cached_int_memory_def cached_fp_memory_def
      by (auto simp: kept_cached_link dest: cached_registers_kept split: option.splits if_split_asm)
    then show ?thesis using win_ok_kept [OF ok] by blast
  qed
qed

lemma cached_effect_kept:
  assumes sw: "cached_switch E c at insn el ilen kind = Some out" and "\<not> irq_check c" "win_ok c"
    and k: "kind = PD_ALU \<Longrightarrow> \<not> (XT_OP1 insn = 3 \<and> XT_OP2 insn = 1)"
    and ef: "cached_effect insn out = Some d"
  shows "kept d = kept c" "win_ok d" "\<not> co_ctx out \<Longrightarrow> wkept d = wkept c"
proof -
  note K = cached_switch_kept [OF assms(1-3) k]
  have e: "kept d = kept (co_cpu out) \<and> wkept d = wkept (co_cpu out)"
    using ef kept_cached_access by (auto simp: cached_effect_def split: option.splits)
  show "kept d = kept c" using e K by simp
  show "win_ok d" using win_ok_kept [of "co_cpu out" d] e K by blast
  show "\<not> co_ctx out \<Longrightarrow> wkept d = wkept c" using e K by simp
qed

end
