(* ===== verification/Page_Arith.thy ===== *)
theory Page_Arith
  imports Bus
begin

text \<open>
  Addresses and pages: the page number and the offset of an address as quotient and remainder,
  how they move inside one page, and the bytes an instruction fetch reads.
\<close>

lemma page_off_mod: "page_off a = unat a mod 4096"
proof -
  have "(0xFFF :: u32) = mask 12" by (simp add: mask_eq_exp_minus_1)
  then show ?thesis using and_mask_mod [of a 12] by (simp add: page_off_def)
qed

lemma unat_page_of: "unat (page_of a) = unat a div 4096"
  by (simp add: page_of_def drop_bit_eq_div unat_div)

lemma page_of_eq_iff: "page_of a = page_of b \<longleftrightarrow> unat a div 4096 = unat b div 4096"
  by (simp add: word_unat_eq_iff unat_page_of)

lemma unat_add_in_page:
  assumes "page_off a + i < 4096"
  shows "unat (a + of_nat i) = unat a + i"
proof -
  have "unat a = 4096 * (unat a div 4096) + page_off a" by (simp add: page_off_mod)
  moreover have "unat a div 4096 < 1048576" using unsigned_less [of a, where ?'a = nat] by auto
  ultimately have "unat a + i < 4294967296" using assms by linarith
  then show ?thesis by (simp add: unat_word_ariths unat_of_nat)
qed

lemma in_page:
  assumes "page_off a + i < 4096"
  shows "page_of (a + of_nat i) = page_of a" "page_off (a + of_nat i) = page_off a + i"
proof -
  have u: "unat (a + of_nat i) = unat a + i" by (rule unat_add_in_page [OF assms])
  have "unat a + i = 4096 * (unat a div 4096) + (page_off a + i)" by (simp add: page_off_mod)
  moreover have "(4096 * q + k) div 4096 = q" "(4096 * q + k) mod 4096 = k" if "k < 4096" for q k :: nat
    using that by simp_all
  ultimately have "(unat a + i) div 4096 = unat a div 4096" "(unat a + i) mod 4096 = page_off a + i"
    using assms by presburger+
  then show "page_of (a + of_nat i) = page_of a" "page_off (a + of_nat i) = page_off a + i"
    by (simp_all only: page_of_eq_iff u page_off_mod [of "a + of_nat i"])
qed

text \<open>A byte of the guest address space, as a fetch sees it.\<close>

lemma fetch_byte_in_page:
  assumes "mem_get_ptr m a = Some p" "page_off a + i < 4096"
  shows "fetch_byte m (a + of_nat i) = Some (hbytes m (fst p) (snd p + i))"
  using assms in_page [OF assms(2)]
  by (auto simp: fetch_byte_def mem_get_ptr_def hptr_add_def add.assoc)

lemma fetch_byte_0: "fetch_byte m a = map_option (\<lambda>p. hbytes m (fst p) (snd p)) (mem_get_ptr m a)"
  by (simp add: fetch_byte_def)

lemma fetch_len_cases: "fetch_len b = 2 \<or> fetch_len b = 3"
  by (simp add: fetch_len_def)

text \<open>The fast path inside a page reads the same bytes as the byte-wise path across pages.\<close>

lemma xtensa_fetch_bytes:
  "xtensa_fetch m a =
     (case fetch_byte m a of
        None \<Rightarrow> None
      | Some b0 \<Rightarrow>
          if PAGE_SIZE < page_off a + fetch_len b0 \<and> UINT32_MAX - (of_nat (fetch_len b0) - 1) < a
          then None
          else case fetch_byte m (a + 1) of
              None \<Rightarrow> None
            | Some b1 \<Rightarrow>
                if fetch_len b0 = 2 then Some (of_bytes [b0, b1], 2)
                else case fetch_byte m (a + 2) of
                    None \<Rightarrow> None | Some b2 \<Rightarrow> Some (of_bytes [b0, b1, b2], 3))"
proof (cases "mem_get_ptr m a")
  case None
  then show ?thesis by (simp add: xtensa_fetch_def fetch_byte_def)
next
  case (Some p)
  let ?b = "\<lambda>i. hbytes m (fst p) (snd p + i)"
  have b0: "fetch_byte m a = Some (?b 0)" using Some by (simp add: fetch_byte_def)
  show ?thesis
  proof (cases "page_off a + fetch_len (?b 0) \<le> PAGE_SIZE")
    case True
    then have i: "page_off a + 1 < 4096" "fetch_len (?b 0) = 3 \<Longrightarrow> page_off a + 2 < 4096"
      using fetch_len_cases [of "?b 0"] by (auto simp: PAGE_SIZE_def)
    have b1: "fetch_byte m (a + 1) = Some (?b 1)" using fetch_byte_in_page [OF Some i(1)] by simp
    have b2: "fetch_len (?b 0) = 3 \<Longrightarrow> fetch_byte m (a + 2) = Some (?b 2)"
      using fetch_byte_in_page [OF Some i(2)] by simp
    have r: "host_read m p 2 = [?b 0, ?b 1]" "host_read m p 3 = [?b 0, ?b 1, ?b 2]"
      by (simp_all add: host_read_def upt_rec)
    show ?thesis
      using True fetch_len_cases [of "?b 0"] b2
      by (auto simp: xtensa_fetch_def Some b0 b1 r Let_def)
  next
    case False
    then show ?thesis using b0 by (simp add: xtensa_fetch_def Some Let_def)
  qed
qed

lemma xtensa_fetch_cong:
  assumes "fetch_byte m a = fetch_byte m' a" "fetch_byte m (a + 1) = fetch_byte m' (a + 1)"
    "fetch_byte m (a + 2) = fetch_byte m' (a + 2)"
  shows "xtensa_fetch m a = xtensa_fetch m' a"
  unfolding xtensa_fetch_bytes assms ..

lemma xtensa_fetch_bounds:
  assumes "xtensa_fetch m a = Some (insn, ilen)"
  shows "unat insn < 2 ^ 24" "ilen = 2 \<or> ilen = 3"
proof -
  obtain bs where bs: "insn = of_bytes bs" "length bs = ilen" and l: "ilen = 2 \<or> ilen = 3"
    using assms unfolding xtensa_fetch_bytes
    by (auto split: option.splits if_split_asm simp del: of_bytes.simps)
  then have "unat insn < 2 ^ (8 * ilen)" using of_bytes_bound [of bs] by simp
  then show "unat insn < 2 ^ 24" using l by auto
  show "ilen = 2 \<or> ilen = 3" by (rule l)
qed

end
