(* ===== verification/Predecode_Table.thy ===== *)
theory Predecode_Table
  imports Step Page_Arith Sample_States
begin

text \<open>
  The predecode table as a cache of the decoder: which entries are well formed, when the table
  agrees with memory, that building it makes it agree, that a fetch through it is a fetch from
  memory, and what the two ways of dropping entries (\<open>xtensa_code_modified\<close>,
  \<open>xtensa_invalidate_code\<close>) guarantee when bytes change.
\<close>

section \<open>Entries\<close>

text \<open>An entry is empty, raw, or classified as the decoder classifies its instruction.\<close>

definition entry_wf :: "u32 \<Rightarrow> bool" where
  "entry_wf w \<longleftrightarrow> w = 0 \<or> PREDECODE_CLASS w = PD_RAW
     \<or> PREDECODE_CLASS w = predecode_kind (PREDECODE_INSN w) (PREDECODE_ILEN w)"

definition predecode_wf :: "(nat \<Rightarrow> u32) option \<Rightarrow> bool" where
  "predecode_wf tab \<longleftrightarrow> (\<forall>t off. tab = Some t \<longrightarrow> entry_wf (t off))"

lemma predecode_pack_wf:
  "unat insn < 2 ^ 24 \<Longrightarrow> ilen = 2 \<or> ilen = 3 \<Longrightarrow> entry_wf (predecode_pack c insn ilen)"
  by (simp add: entry_wf_def predecode_pack_fields)

lemma lookup_wf:
  "predecode_wf (predecode c) \<Longrightarrow> entry_wf (predecode_lookup c a)"
  by (auto simp: predecode_wf_def predecode_lookup_def entry_wf_def Let_def split: option.splits)

lemma ILEN_2_3: "PREDECODE_ILEN w = 2 \<or> PREDECODE_ILEN w = 3"
proof -
  have "unat (drop_bit 24 w AND 1) < 2"
    using word_and_le1 [of "drop_bit 24 w" 1] by (simp add: word_le_nat_alt)
  then show ?thesis by (auto simp: PREDECODE_ILEN_def)
qed

lemma class_tag: "PREDECODE_CLASS w \<noteq> 0 \<Longrightarrow> w AND PREDECODE_WINDOW_TAG \<noteq> 0"
proof (rule notI)
  assume k: "PREDECODE_CLASS w \<noteq> 0" and z: "w AND PREDECODE_WINDOW_TAG = 0"
  have m: "(31 :: u32) = mask 5" by (simp add: mask_eq_exp_minus_1)
  have "drop_bit 27 w = 0"
  proof (rule bit_word_eqI)
    fix n assume "n < LENGTH(32)"
    have "\<not> bit (w AND PREDECODE_WINDOW_TAG) (n + 27)"
      by (simp only: z bit_0_eq bot_apply bot_bool_def not_False_eq_True)
    then show "bit (drop_bit 27 w) n = bit (0 :: u32) n"
      by (auto simp: PREDECODE_WINDOW_TAG_def m bit_simps add.commute dest: bit_imp_le_length)
  qed
  then show False using k by (simp add: PREDECODE_CLASS_def)
qed

lemma predecode_kind_pos: "predecode_kind insn ilen \<noteq> 0"
  unfolding predecode_kind_def predecode_kind_narrow_def predecode_kind_wide_def
    predecode_kind_qrst_def Let_def
  by (simp split del: if_split add: if_distrib [of "\<lambda>x. x \<noteq> (0::nat)"] cong: if_cong) auto

text \<open>Only ENTRY needs the machine to know its operand window, and it is packed without one.\<close>

lemma need_indep:
  "predecode_kind insn ilen \<noteq> PD_ENTRY \<Longrightarrow> ilen = 2 \<or> ilen = 3 \<Longrightarrow>
     window_operand_need c insn ilen = window_operand_need d insn ilen"
proof -
  assume k: "predecode_kind insn ilen \<noteq> PD_ENTRY" "ilen = 2 \<or> ilen = 3"
  have n: "XT_N insn = 0 \<or> XT_N insn = 1 \<or> XT_N insn = 2 \<or> XT_N insn = 3"
    using XT_N_less [of insn] by linarith
  have "XT_OP0 0 = 0" by (simp add: XT_OP0_def)
  then show ?thesis
    using k n by (auto simp: window_operand_need_def window_need_wide_def predecode_kind_def
        predecode_kind_wide_def Let_def split: if_split_asm)
qed

lemma predecode_pack_indep:
  "ilen = 2 \<or> ilen = 3 \<Longrightarrow> predecode_pack c insn ilen = predecode_pack d insn ilen"
  using need_indep [of insn ilen c d] by (simp add: predecode_pack_eq)

lemma entry_need:
  assumes "predecode_kind insn 3 = PD_ENTRY"
  shows "window_operand_need c insn 3 = window_need2 (XT_S insn) (entry_dst (ps c) (XT_S insn))"
proof -
  have "XT_OP0 insn = 6 \<and> XT_N insn = 3 \<and> XT_M insn = 0"
    using assms by (auto simp: predecode_kind_def predecode_kind_wide_def predecode_kind_qrst_def
        Let_def split: if_split_asm)
  then show ?thesis by (simp add: window_operand_need_def window_need_wide_def Let_def)
qed

lemma narrow_not_entry: "predecode_kind insn 2 \<noteq> PD_ENTRY"
  by (auto simp: predecode_kind_def predecode_kind_narrow_def Let_def)

section \<open>Agreement with memory\<close>

definition predecode_synced :: "'d cpu \<Rightarrow> bool" where
  "predecode_synced c \<longleftrightarrow>
     (\<forall>tab off. predecode c = Some tab \<and> off < PREDECODE_SIZE \<and> tab off \<noteq> 0
        \<longrightarrow> tab off = predecode_entry c off)"

lemma predecode_entry_cong:
  assumes "xtensa_fetch (mem c) (of_nat (PREDECODE_BASE + off)) = xtensa_fetch (mem d) (of_nat (PREDECODE_BASE + off))"
  shows "predecode_entry c off = predecode_entry d off"
  using assms predecode_pack_indep xtensa_fetch_bounds(2)
  by (fastforce simp: predecode_entry_def split: option.splits)

lemma lookup_synced:
  assumes "predecode_synced c" "predecode_lookup c a = w" "w \<noteq> 0"
  obtains insn ilen where "xtensa_fetch (mem c) a = Some (insn, ilen)" "w = predecode_pack c insn ilen"
proof -
  let ?off = "unat (a - of_nat PREDECODE_BASE)"
  obtain tab where tab: "predecode c = Some tab" "?off < PREDECODE_SIZE" "tab ?off = w"
    using assms(2,3) by (auto simp: predecode_lookup_def Let_def split: option.splits if_split_asm)
  then have "w = predecode_entry c ?off" using assms(1,3) by (auto simp: predecode_synced_def)
  moreover have "of_nat (PREDECODE_BASE + ?off) = a" by (simp add: PREDECODE_BASE_def)
  ultimately show ?thesis
    using that assms(3) by (auto simp: predecode_entry_def split: option.splits)
qed

text \<open>Translated-code marks touch neither the bytes nor the page table.\<close>

lemma code_protect_page_same:
  assumes "code_protect_page m k a hi pb scan = (m', s')"
  shows "hbytes m' = hbytes m \<and> page_table m' = page_table m"
  using assms
  by (auto simp: code_protect_page_def code_page_for_host_def code_page_put_def Let_def
      split: option.splits prod.splits if_split_asm)

lemma code_protect_loop_same:
  "hbytes (fst (code_protect_loop m k a e scan)) = hbytes m \<and>
   page_table (fst (code_protect_loop m k a e scan)) = page_table m"
proof -
  have "hbytes (fst (fold (\<lambda>(a, hi, pb) (m, s). code_protect_page m k a hi pb s) xs (m, scan))) = hbytes m
      \<and> page_table (fst (fold (\<lambda>(a, hi, pb) (m, s). code_protect_page m k a hi pb s) xs (m, scan))) = page_table m"
    for xs
  proof (induction xs arbitrary: m scan)
    case (Cons x xs)
    obtain a hi pb where x: "x = (a, hi, pb)" by (cases x)
    obtain m' s' where p: "code_protect_page m k a hi pb scan = (m', s')" by fastforce
    show ?case using Cons.IH [of m' s'] code_protect_page_same [OF p] by (simp add: x p)
  qed simp
  then show ?thesis by (simp add: code_protect_loop_def)
qed

lemma mem_code_protect_same:
  "hbytes (mem_code_protect m a n k) = hbytes m" "page_table (mem_code_protect m a n k) = page_table m"
  using code_protect_loop_same [of m "code_kind_index k" "unat a" "unat a + unat n" False]
  by (auto simp: mem_code_protect_def code_divert_scan_def Let_def split: prod.splits)

lemma fetch_byte_same:
  "hbytes m' = hbytes m \<Longrightarrow> page_table m' = page_table m \<Longrightarrow> fetch_byte m' = fetch_byte m"
  by (simp add: fetch_byte_def [abs_def] mem_get_ptr_def)

lemma watch_add_same:
  "hbytes (snd (mem_code_watch_add m w)) = hbytes m" "page_table (snd (mem_code_watch_add m w)) = page_table m"
  by (simp_all add: mem_code_watch_add_def Let_def)

lemma fetch_same:
  "hbytes m' = hbytes m \<Longrightarrow> page_table m' = page_table m \<Longrightarrow> xtensa_fetch m' a = xtensa_fetch m a"
  using fetch_byte_same [of m' m] by (intro xtensa_fetch_cong) simp_all

lemma build_agrees:
  assumes "t_id (target c) = FLEXE_TARGET_ESP32"
  shows "predecode (xtensa_predecode_build c) \<noteq> None \<and> predecode_synced (xtensa_predecode_build c)
    \<and> predecode_wf (predecode (xtensa_predecode_build c))"
proof -
  let ?d = "xtensa_predecode_build c"
  have same: "hbytes (mem ?d) = hbytes (mem c)" "page_table (mem ?d) = page_table (mem c)"
    using assms by (simp_all add: xtensa_predecode_build_def xtensa_code_watch_attach_def
        mem_code_protect_same watch_add_same Let_def)
  have pd: "predecode ?d = Some (\<lambda>off. if off < PREDECODE_SIZE then predecode_entry c off else 0)"
    using assms by (simp add: xtensa_predecode_build_def xtensa_code_watch_attach_def Let_def)
  have "predecode_entry c off = predecode_entry ?d off" for off
    by (rule predecode_entry_cong) (simp add: fetch_same [OF same])
  moreover have "entry_wf (predecode_entry c off)" for off
  proof (cases "xtensa_fetch (mem c) (of_nat (PREDECODE_BASE + off))")
    case (Some x)
    then show ?thesis
      using predecode_pack_wf [OF xtensa_fetch_bounds, of "mem c" _ "fst x" "snd x"]
      by (cases x) (simp add: predecode_entry_def)
  qed (simp add: predecode_entry_def entry_wf_def)
  ultimately show ?thesis
    by (auto simp: pd predecode_synced_def predecode_wf_def entry_wf_def)
qed

text \<open>Building the table: it exists afterwards, and every entry is the decoding of the bytes
  at its address, whatever table was there before.\<close>

theorem predecode_build_synced:
  assumes "t_id (target c) = FLEXE_TARGET_ESP32"
  shows "predecode (xtensa_predecode_build c) \<noteq> None \<and> predecode_synced (xtensa_predecode_build c)
    \<and> predecode_wf (predecode (xtensa_predecode_build c))"
  by (rule build_agrees [OF assms])

lemma predecode_lookup_fetch:
  assumes "predecode_synced c" "predecode_lookup c a = w" "w \<noteq> 0"
  shows "xtensa_fetch (mem c) a = Some (PREDECODE_INSN w, PREDECODE_ILEN w)"
proof -
  obtain insn ilen where f: "xtensa_fetch (mem c) a = Some (insn, ilen)" "w = predecode_pack c insn ilen"
    by (rule lookup_synced [OF assms])
  show ?thesis using f predecode_pack_fields [OF xtensa_fetch_bounds [OF f(1)], of c] by simp
qed

text \<open>C34. Execution through the table is execution from memory: a populated entry yields the
  instruction and length that a fetch at that address yields, and the operand window recorded
  in it is the one the decoder computes now.\<close>

theorem predecode_transparent:
  assumes "predecode_synced c" "predecode_lookup c a = w" "w \<noteq> 0"
  shows "xtensa_fetch (mem c) a = Some (PREDECODE_INSN w, PREDECODE_ILEN w)
    \<and> window_check_need c (PREDECODE_INSN w) (PREDECODE_ILEN w) w
        = window_operand_need c (PREDECODE_INSN w) (PREDECODE_ILEN w)"
proof -
  obtain insn ilen where f: "xtensa_fetch (mem c) a = Some (insn, ilen)" "w = predecode_pack c insn ilen"
    by (rule lookup_synced [OF assms])
  note b = xtensa_fetch_bounds [OF f(1)]
  note F = predecode_pack_fields [OF b, of c, folded f(2)]
  have tag: "w AND PREDECODE_WINDOW_TAG \<noteq> 0" using class_tag [of w] F(3) predecode_kind_pos by simp
  have "window_check_need c insn ilen w = window_operand_need c insn ilen"
    using F b(2) tag entry_need [of insn c] narrow_not_entry [of insn]
    by (auto simp: window_check_need_def)
  then show ?thesis using f F by simp
qed

section \<open>Dropping entries\<close>

text \<open>Where the bytes of the address space differ, as a set of addresses.\<close>

definition bytes_changed :: "xmem \<Rightarrow> xmem \<Rightarrow> nat set" where
  "bytes_changed m m' = {x. x < 2 ^ 32 \<and> fetch_byte m' (of_nat x) \<noteq> fetch_byte m (of_nat x)}"

lemma fetch_unchanged:
  assumes "off < PREDECODE_SIZE"
    and "\<And>i. i < 3 \<Longrightarrow> PREDECODE_BASE + off + i \<notin> bytes_changed m m'"
  shows "xtensa_fetch m' (of_nat (PREDECODE_BASE + off)) = xtensa_fetch m (of_nat (PREDECODE_BASE + off))"
proof -
  have s: "PREDECODE_BASE + off + i < 2 ^ 32" if "i < 3" for i
    using assms(1) that by (simp add: PREDECODE_SIZE_def PREDECODE_BASE_def PREDECODE_END_def)
  have "fetch_byte m' (of_nat (PREDECODE_BASE + off + i)) = fetch_byte m (of_nat (PREDECODE_BASE + off + i))"
    if "i < 3" for i using assms(2) [OF that] s [OF that] by (auto simp: bytes_changed_def)
  from this [of 0] this [of 1] this [of 2] show ?thesis
    by (intro xtensa_fetch_cong) (simp_all add: ac_simps)
qed

text \<open>After bytes changed in \<open>[A, A + L)\<close>, \<open>xtensa_code_modified\<close> on that range brings the table
  back in agreement with memory: it also drops the entries of the two addresses before.\<close>

theorem code_modified_synced:
  assumes "predecode_synced c" "h_code_invalidate E = None"
    and "bytes_changed (mem c) m' \<subseteq> {unat A ..< unat A + unat L}"
  shows "predecode_synced (xtensa_code_modified E (c\<lparr>mem := m'\<rparr>) A L True jit)"
proof -
  let ?d = "xtensa_code_modified E (c\<lparr>mem := m'\<rparr>) A L True jit"
  have mem: "mem ?d = m'"
    using assms(2) by (simp add: xtensa_code_modified_def Let_def split: option.splits)
  have "tab off = predecode_entry ?d off"
    if t: "predecode ?d = Some tab" "off < PREDECODE_SIZE" "tab off \<noteq> 0" for tab off
  proof -
    obtain t0 where t0: "predecode c = Some t0"
      using t(1) assms(2) by (auto simp: xtensa_code_modified_def Let_def split: option.splits if_split_asm)
    let ?x = "PREDECODE_BASE + off"
    have same: "tab off = t0 off" and out: "?x + 2 < unat A \<or> unat A + unat L \<le> ?x"
      using t t0 assms(2)
      by (auto simp: xtensa_code_modified_def Let_def predecode_clear_def word_le_nat_alt
          PREDECODE_SIZE_def split: if_split_asm)
    have "xtensa_fetch m' (of_nat ?x) = xtensa_fetch (mem c) (of_nat ?x)"
      by (rule fetch_unchanged [OF t(2)]) (use out assms(3) in fastforce)
    then have "predecode_entry ?d off = predecode_entry c off"
      by (intro predecode_entry_cong) (simp add: mem)
    then show ?thesis using assms(1) t0 t same by (auto simp: predecode_synced_def)
  qed
  then show ?thesis by (auto simp: predecode_synced_def)
qed

text \<open>\<open>xtensa_invalidate_code\<close> gives the weaker guarantee: the table agrees again provided no
  surviving entry just below the range reaches into it.\<close>

theorem invalidate_code_synced:
  assumes "predecode_synced c" "h_code_invalidate E = None" "0 < len"
    and "bytes_changed (mem c) m' \<subseteq> {unat A ..< unat A + len}"
    and "\<And>tab off. predecode c = Some tab \<Longrightarrow> unat A \<le> PREDECODE_BASE + off + 2 \<Longrightarrow>
           PREDECODE_BASE + off < unat A \<Longrightarrow> tab off = 0"
  shows "predecode_synced (xtensa_invalidate_code E (c\<lparr>mem := m'\<rparr>) A len)"
proof -
  let ?d = "xtensa_invalidate_code E (c\<lparr>mem := m'\<rparr>) A len"
  have mem: "mem ?d = m'"
    using assms(2) by (simp add: xtensa_invalidate_code_def Let_def split: option.splits)
  have "tab off = predecode_entry ?d off"
    if t: "predecode ?d = Some tab" "off < PREDECODE_SIZE" "tab off \<noteq> 0" for tab off
  proof -
    obtain t0 where t0: "predecode c = Some t0"
      using t(1) assms(2,3) by (auto simp: xtensa_invalidate_code_def Let_def split: option.splits if_split_asm)
    let ?x = "PREDECODE_BASE + off"
    have same: "tab off = t0 off" and out: "?x < unat A \<or> unat A + len \<le> ?x"
      using t t0 assms(2,3)
      by (auto simp: xtensa_invalidate_code_def Let_def predecode_clear_def
          PREDECODE_SIZE_def split: if_split_asm)
    have "\<not> (unat A \<le> ?x + 2 \<and> ?x < unat A)"
      using assms(5) [OF t0, of off] t(3) same by auto
    then have "?x + 2 < unat A \<or> unat A + len \<le> ?x" using out by linarith
    then have "xtensa_fetch m' (of_nat ?x) = xtensa_fetch (mem c) (of_nat ?x)"
      by (intro fetch_unchanged [OF t(2)]) (use assms(4) in fastforce)
    then have "predecode_entry ?d off = predecode_entry c off"
      by (intro predecode_entry_cong) (simp add: mem)
    then show ?thesis using assms(1) t0 t same by (auto simp: predecode_synced_def)
  qed
  then show ?thesis by (auto simp: predecode_synced_def)
qed

text \<open>Two views of the sample machine's code: pages 0x40080 and 0x40081 from RAM, and the second
  page replaced by another host page.\<close>

definition straddle_mem :: "flexe_mem_backing \<Rightarrow> xmem" where
  "straddle_mem b = sample_mem\<lparr>hbytes := (\<lambda>h i. if h = Backing FLEXE_MEM_ROM then 1 else 0),
     page_table := (\<lambda>p. if p = 0x40080 then Some (Backing FLEXE_MEM_SRAM, 0)
                        else if p = 0x40081 then Some (Backing b, 0) else None)\<rparr>"

definition straddle_cpu :: "unit cpu" where
  "straddle_cpu = (let c = sample_cpu\<lparr>mem := straddle_mem FLEXE_MEM_SRAM\<rparr> in
     c\<lparr>predecode := Some (\<lambda>off. if off = 0x80FFF then predecode_entry c 0x80FFF else 0)\<rparr>)"

lemma straddle_synced: "predecode_synced straddle_cpu"
  using predecode_entry_cong [of "sample_cpu\<lparr>mem := straddle_mem FLEXE_MEM_SRAM\<rparr>" _ straddle_cpu]
  by (auto simp: predecode_synced_def straddle_cpu_def Let_def split: if_split_asm)

lemma straddle_changed:
  "bytes_changed (straddle_mem FLEXE_MEM_SRAM) (straddle_mem b) \<subseteq> {0x40081000 ..< 0x40082000}"
proof
  fix x assume x: "x \<in> bytes_changed (straddle_mem FLEXE_MEM_SRAM) (straddle_mem b)"
  then have "page_of (of_nat x) = 0x40081"
    by (auto simp: bytes_changed_def fetch_byte_def mem_get_ptr_def straddle_mem_def split: if_split_asm)
  then have "unat (of_nat x :: u32) div 4096 = 0x40081"
    using unat_page_of [of "of_nat x"] by simp
  then show "x \<in> {0x40081000 ..< 0x40082000}"
    using x by (auto simp: bytes_changed_def unat_of_nat)
qed

lemma straddle_fetch:
  "xtensa_fetch (straddle_mem b) 0x40080FFF = Some (if b = FLEXE_MEM_ROM then 0x010100 else 0, 3)"
proof -
  have p: "page_of 0x40080FFF = 0x40080" "page_of 0x40081000 = 0x40081" "page_of 0x40081001 = 0x40081"
    by (simp_all add: word_unat_eq_iff unat_page_of)
  show ?thesis
    by (simp add: xtensa_fetch_bytes fetch_byte_def mem_get_ptr_def straddle_mem_def p hptr_add_def
        fetch_len_def)
qed

lemma straddle_entry:
  "mem c = straddle_mem b \<Longrightarrow>
     predecode_entry c 0x80FFF = predecode_pack c (if b = FLEXE_MEM_ROM then 0x010100 else 0) 3"
  using straddle_fetch [of b] by (simp add: predecode_entry_def PREDECODE_BASE_def)

lemma lookup_at:
  "predecode_lookup c x =
     (case predecode c of None \<Rightarrow> 0
      | Some t \<Rightarrow> if PREDECODE_BASE \<le> unat x \<and> unat x < PREDECODE_END then t (unat x - PREDECODE_BASE) else 0)"
proof -
  have "(unat (x - of_nat PREDECODE_BASE) < PREDECODE_SIZE) = (PREDECODE_BASE \<le> unat x \<and> unat x < PREDECODE_END)"
    by (auto simp: PREDECODE_SIZE_def PREDECODE_BASE_def PREDECODE_END_def unat_sub_if' word_le_nat_alt)
  moreover have "PREDECODE_BASE \<le> unat x \<Longrightarrow> unat (x - of_nat PREDECODE_BASE) = unat x - PREDECODE_BASE"
    by (simp add: PREDECODE_BASE_def unat_sub word_le_nat_alt)
  ultimately show ?thesis by (auto simp: predecode_lookup_def Let_def split: option.split)
qed

text \<open>C40. Without that proviso it fails. Invalidating a range clears exactly the entries of the
  instructions that start in it: every entry inside is gone and every other entry is kept. So an
  instruction that starts one or two bytes below the range and reaches into it keeps its entry when
  its bytes change, and the table answers with an instruction that is no longer in memory.\<close>

theorem invalidate_leaves_stale_entry:
  assumes "predecode_synced c" "h_code_invalidate E = None" "0 < len"
    and "predecode_lookup c a \<noteq> 0" "a < A" "unat A \<le> unat a + 2"
    and "xtensa_fetch m' a \<noteq> xtensa_fetch (mem c) a"
    and d: "d = xtensa_invalidate_code E (c\<lparr>mem := m'\<rparr>) A len"
  shows "(\<forall>x. unat A \<le> unat x \<and> unat x < unat A + len \<longrightarrow> predecode_lookup d x = 0) \<and>
    (\<forall>x. unat x < unat A \<or> unat A + len \<le> unat x \<longrightarrow> predecode_lookup d x = predecode_lookup c x) \<and>
    predecode_lookup d a \<noteq> 0 \<and>
    xtensa_fetch (mem d) a \<noteq> Some (PREDECODE_INSN (predecode_lookup d a), PREDECODE_ILEN (predecode_lookup d a))"
proof -
  obtain t where t: "predecode c = Some t" using assms(4) by (auto simp: predecode_lookup_def split: option.splits)
  have mem: "mem d = m'"
    using assms(2) by (simp add: d xtensa_invalidate_code_def Let_def split: option.splits)
  have look: "predecode_lookup d x = (if unat A \<le> unat x \<and> unat x < unat A + len then 0 else predecode_lookup c x)" for x
    using assms(2,3)
    by (auto simp: d lookup_at t xtensa_invalidate_code_def Let_def predecode_clear_def split: option.splits)
  have same: "predecode_lookup d a = predecode_lookup c a"
    using assms(5) by (simp add: look word_less_nat_alt)
  have "xtensa_fetch (mem c) a = Some (PREDECODE_INSN (predecode_lookup c a), PREDECODE_ILEN (predecode_lookup c a))"
    using predecode_lookup_fetch [OF assms(1) refl assms(4)] .
  then show ?thesis using look same assms(4,7) by (auto simp: mem)
qed

section \<open>Witnesses\<close>

theorem predecode_build_synced_witness:
  "predecode (xtensa_predecode_build sample_cpu) \<noteq> None \<and>
   predecode_synced (xtensa_predecode_build sample_cpu) \<and>
   predecode_wf (predecode (xtensa_predecode_build sample_cpu))"
  by (rule predecode_build_synced) code_simp

theorem predecode_transparent_witness:
  "xtensa_fetch (mem straddle_cpu) 0x40080FFF = Some (0, 3) \<and>
   window_check_need straddle_cpu 0 3 (predecode_lookup straddle_cpu 0x40080FFF)
     = window_operand_need straddle_cpu 0 3"
proof -
  let ?w = "predecode_pack (sample_cpu\<lparr>mem := straddle_mem FLEXE_MEM_SRAM\<rparr>) 0 3"
  have F: "PREDECODE_INSN ?w = 0" "PREDECODE_ILEN ?w = 3" "PREDECODE_CLASS ?w = PD_SLOW"
    using predecode_pack_fields [of 0 3] by (simp_all add: predecode_kind_def)
  then have nz: "?w \<noteq> 0" by (auto simp: PREDECODE_CLASS_def)
  have w: "predecode_lookup straddle_cpu 0x40080FFF = ?w"
    by (simp add: predecode_lookup_def straddle_cpu_def straddle_entry Let_def PREDECODE_BASE_def
        PREDECODE_SIZE_def PREDECODE_END_def)
  show ?thesis using predecode_transparent [OF straddle_synced w nz] w F by simp
qed

theorem code_modified_synced_witness:
  "predecode_synced (xtensa_code_modified sample_host
     (straddle_cpu\<lparr>mem := straddle_mem FLEXE_MEM_ROM\<rparr>) 0x40081000 0x1000 True False)"
proof (rule code_modified_synced [OF straddle_synced])
  have "mem straddle_cpu = straddle_mem FLEXE_MEM_SRAM" by (simp add: straddle_cpu_def Let_def)
  then show "bytes_changed (mem straddle_cpu) (straddle_mem FLEXE_MEM_ROM)
      \<subseteq> {unat (0x40081000 :: u32) ..< unat (0x40081000 :: u32) + unat (0x1000 :: u32)}"
    using straddle_changed [of FLEXE_MEM_ROM] by simp
qed (simp add: sample_host_def)

text \<open>Entries for the straddling instruction and for the first one of the changed page.\<close>

definition straddle_cpu2 :: "unit cpu" where
  "straddle_cpu2 = (let c = sample_cpu\<lparr>mem := straddle_mem FLEXE_MEM_SRAM\<rparr> in
     c\<lparr>predecode := Some (\<lambda>off. if off = 0x80FFF \<or> off = 0x81000 then predecode_entry c off else 0)\<rparr>)"

lemma straddle_synced2: "predecode_synced straddle_cpu2"
  using predecode_entry_cong [of "sample_cpu\<lparr>mem := straddle_mem FLEXE_MEM_SRAM\<rparr>" _ straddle_cpu2]
  by (auto simp: predecode_synced_def straddle_cpu2_def Let_def split: if_split_asm)

lemma straddle_lookup2:
  "predecode_lookup straddle_cpu2 0x40080FFF \<noteq> 0" "predecode_lookup straddle_cpu2 0x40081000 \<noteq> 0"
proof -
  have p: "page_of 0x40081000 = 0x40081" "page_of 0x40081001 = 0x40081" "page_of 0x40081002 = 0x40081"
    by (simp_all add: word_unat_eq_iff unat_page_of)
  have f: "xtensa_fetch (straddle_mem FLEXE_MEM_SRAM) 0x40081000 = Some (0, 3)"
    by (simp add: xtensa_fetch_bytes fetch_byte_def mem_get_ptr_def straddle_mem_def p hptr_add_def fetch_len_def)
  have nz: "predecode_pack c 0 3 \<noteq> 0" for c :: "unit cpu"
  proof -
    have "PREDECODE_CLASS (predecode_pack c 0 3) = PD_SLOW"
      using predecode_pack_fields [of 0 3] by (simp add: predecode_kind_def)
    then show ?thesis by (auto simp: PREDECODE_CLASS_def)
  qed
  show "predecode_lookup straddle_cpu2 0x40080FFF \<noteq> 0" "predecode_lookup straddle_cpu2 0x40081000 \<noteq> 0"
    using nz f straddle_fetch [of FLEXE_MEM_SRAM]
    by (simp_all add: lookup_at straddle_cpu2_def straddle_entry Let_def PREDECODE_BASE_def PREDECODE_END_def
        predecode_entry_def)
qed

theorem invalidate_leaves_stale_entry_witness:
  "predecode_lookup (xtensa_invalidate_code sample_host
     (straddle_cpu2\<lparr>mem := straddle_mem FLEXE_MEM_ROM\<rparr>) 0x40081000 0x1000) 0x40081000 = 0 \<and>
   predecode_lookup straddle_cpu2 0x40081000 \<noteq> 0 \<and>
   predecode_lookup (xtensa_invalidate_code sample_host
     (straddle_cpu2\<lparr>mem := straddle_mem FLEXE_MEM_ROM\<rparr>) 0x40081000 0x1000) 0x40080FFF \<noteq> 0"
proof -
  have m: "mem straddle_cpu2 = straddle_mem FLEXE_MEM_SRAM" by (simp add: straddle_cpu2_def Let_def)
  have h: "h_code_invalidate sample_host = None" by (simp add: sample_host_def)
  have x: "xtensa_fetch (straddle_mem FLEXE_MEM_ROM) 0x40080FFF \<noteq> xtensa_fetch (mem straddle_cpu2) 0x40080FFF"
    by (simp add: m straddle_fetch)
  let ?d = "xtensa_invalidate_code sample_host (straddle_cpu2\<lparr>mem := straddle_mem FLEXE_MEM_ROM\<rparr>) 0x40081000 0x1000"
  note S = invalidate_leaves_stale_entry [OF straddle_synced2 h _ straddle_lookup2(1) _ _ x,
      of "0x1000" "0x40081000" ?d]
  show ?thesis using S straddle_lookup2 by simp
qed

end
