(* ===== verification/Cached_Equiv.thy ===== *)
theory Cached_Equiv
  imports Cached_Kept Predecode_Table
begin

text \<open>
  The cached runner executes the canonical interpreter. Every iteration of
  \<open>xtensa_run_cached\<close> has the effect of one \<open>xtensa_step_impl\<close> on the machine with the
  runner's locals written back, and a whole call has the effect of as many steps.
\<close>

section \<open>Every class\<close>

lemma kind_alu_not_wsr:
  "predecode_kind insn ilen = PD_ALU \<Longrightarrow> \<not> (XT_OP1 insn = 3 \<and> XT_OP2 insn = 1)"
  by (auto simp: predecode_kind_def predecode_kind_narrow_def predecode_kind_wide_def
      predecode_kind_qrst_def Let_def split: if_split_asm)

lemma agrees_wide:
  assumes st: "\<not> journal_en (mem c)" "\<not> irq_check c" "\<not> record_branch_targets c" "win_ok c"
    and g: "predecode_kind_wide insn = PD_ENTRY \<Longrightarrow> window_hazard c AND
              (push_bit (window_need2 (XT_S insn) (entry_dst (ps c) (XT_S insn))) 1 - 1) = 0"
    and sw: "cached_switch E c at insn el 3 (predecode_kind_wide insn) = Some out"
    and ef: "cached_effect insn out = Some d"
  shows "agrees E c at insn 3 el out d"
proof -
  have wb: "windowbase c < 16" and hz: "hazard_ok c" using st(4) by (simp_all add: win_ok_def)
  have ns: "predecode_kind_wide insn \<noteq> PD_SLOW"
    using sw cached_switch_slow [of E c at insn el 3] by auto
  let ?op = "XT_OP0 insn"
  consider "?op = 0" | "?op = 1" | "?op = 2" | "?op = 3" | "?op = 5" | "?op = 7"
    | "?op = 6" "XT_N insn = 3 \<and> XT_M insn = 0" | "?op = 6" "\<not> (XT_N insn = 3 \<and> XT_M insn = 0)"
    using ns by (auto simp: predecode_kind_wide_def Let_def split: if_split_asm)
  then show ?thesis
  proof cases
    case 1
    then show ?thesis using agrees_qrst [OF 1 st(1) wb st(2) _ ef] sw
      by (simp add: predecode_kind_wide_def Let_def)
  next
    case 2
    then show ?thesis using agrees_l32r [OF 2 _ ef] sw by (simp add: predecode_kind_wide_def Let_def)
  next
    case 3
    show ?thesis by (rule agrees_lsai [OF 3 st(1) sw ef])
  next
    case 4
    then show ?thesis using agrees_lsci [OF 4 st(1) _ ef] sw by (simp add: predecode_kind_wide_def Let_def)
  next
    case 5
    then show ?thesis using agrees_call [OF 5 _ ef] sw by (simp add: predecode_kind_wide_def Let_def)
  next
    case 6
    then show ?thesis using agrees_b [OF 6 _ ef] sw by (simp add: predecode_kind_wide_def Let_def)
  next
    case 7
    then have k: "predecode_kind_wide insn = PD_ENTRY" by (simp add: predecode_kind_wide_def Let_def)
    then show ?thesis using agrees_entry [OF 7(1) _ _ st(3) hz g [OF k] _ ef] sw 7(2) by simp
  next
    case 8
    then have k: "predecode_kind_wide insn = PD_BRANCH_SI" by (auto simp: predecode_kind_wide_def Let_def)
    then show ?thesis using agrees_branch_si [OF 8(1) st(3) 8(2) _ ef] sw by simp
  qed
qed

lemma agrees_all:
  assumes st: "\<not> journal_en (mem c)" "\<not> irq_check c" "\<not> record_branch_targets c" "win_ok c"
    and il: "ilen = 2 \<or> ilen = 3" and kind: "kind = predecode_kind insn ilen"
    and g: "kind = PD_ENTRY \<Longrightarrow> window_hazard c AND
              (push_bit (window_need2 (XT_S insn) (entry_dst (ps c) (XT_S insn))) 1 - 1) = 0"
    and sw: "cached_switch E c at insn el ilen kind = Some out"
    and ef: "cached_effect insn out = Some d"
  shows "agrees E c at insn ilen el out d"
proof -
  have ns: "kind \<noteq> PD_SLOW" using sw cached_switch_slow [of E c at insn el ilen] by auto
  have wb: "windowbase c < 16" using st(4) by (simp add: win_ok_def)
  show ?thesis
  proof (cases "ilen = 2")
    case True
    then have "kind = predecode_kind_narrow insn"
      using kind ns by (auto simp: predecode_kind_def split: if_split_asm)
    then show ?thesis using agrees_narrow [OF st(1) wb _ ef] sw True by simp
  next
    case False
    then have "ilen = 3" "kind = predecode_kind_wide insn"
      using kind ns il by (auto simp: predecode_kind_def split: if_split_asm)
    then show ?thesis using agrees_wide [OF st _ _ ef] sw g by simp
  qed
qed

section \<open>One iteration\<close>

text \<open>The breakpoint filter only lets addresses outside the list pass.\<close>

lemma bp_range_fold:
  "x \<in> set bs \<or> lo \<le> x \<and> x \<le> hi \<Longrightarrow>
     (case fold (\<lambda>x (lo, hi). (if x < lo then x else lo, if hi < x then x else hi)) bs (lo, hi) of
        (l, h) \<Rightarrow> l \<le> (x :: u32) \<and> x \<le> h)"
proof (induction bs arbitrary: lo hi)
  case (Cons b bs)
  let ?lo = "if b < lo then b else lo" and ?hi = "if hi < b then b else hi"
  have "x \<in> set bs \<or> ?lo \<le> x \<and> x \<le> ?hi" using Cons.prems by auto
  then show ?case using Cons.IH [of ?lo ?hi] by simp
qed simp

lemma bp_filter_member: "a \<in> set bps \<Longrightarrow> bp_filter bps a"
proof -
  assume a: "a \<in> set bps"
  then obtain b bs where bps: "bps = b # bs" by (cases bps) auto
  obtain l h where lh: "bp_range bps = (l, h)" by fastforce
  then have "l \<le> a \<and> a \<le> h"
    using a bps bp_range_fold [of a bs b b] by (auto simp: bp_range_def)
  then show ?thesis using lh by (auto simp: bp_filter_def word_le_nat_alt unat_sub)
qed

text \<open>What the runner may rely on in every iteration.\<close>

definition cached_inv :: "'d host \<Rightarrow> u32 list \<Rightarrow> 'd cached \<Rightarrow> bool" where
  "cached_inv E bps k \<longleftrightarrow>
     (let c = k_cpu k in
      \<not> halted c \<and> \<not> irq_check c \<and> \<not> record_branch_targets c \<and> jit_fallthrough_dispatch c = 0 \<and>
      \<not> journal_en (mem c) \<and> win_ok c \<and> breakpoints c = bps \<and> predecode_wf (predecode c) \<and>
      h_aot_bitmap E = None \<and> k_hazard k = window_hazard c \<and>
      k_guard k = windows_guarded (window_hazard c) (ps c))"

lemma select_facts:
  assumes "cached_select E bps k = Some w"
  shows "w = predecode_lookup (k_cpu k) (k_pc k)" "w \<noteq> 0" "\<not> bp_filter bps (k_pc k)"
    "\<not> (k_pc_written k \<and> k_pc k = GUEST_CALL_ASYNC_SENTINEL)"
    "\<not> (k_pc_written k \<and> hook_applies E (k_pc k))"
    "k_guard k \<Longrightarrow> k_hazard k AND (push_bit
        (if PREDECODE_CLASS w = PD_ENTRY
         then window_need2 (XT_S (PREDECODE_INSN w)) (entry_dst (ps (k_cpu k)) (XT_S (PREDECODE_INSN w)))
         else PREDECODE_WINDOW_NEED w) 1 - 1) = 0"
  using assms by (auto simp: cached_select_def Let_def split: if_split_asm)

lemma iter_facts:
  assumes "cached_iter E bps k = Some k'"
  obtains w out d where "cached_select E bps k = Some w"
    "cached_switch E (k_cpu k) (k_pc k) (PREDECODE_INSN w) (k_executed k) (PREDECODE_ILEN w)
       (PREDECODE_CLASS w) = Some out"
    "cached_effect (PREDECODE_INSN w) out = Some d" "k' = cached_retire k d out"
  using assms
  by (auto simp: cached_iter_def cached_effect_def Let_def split: option.splits)

lemma switch_raw: "cached_switch E c at insn el ilen 0 = None"
  by (simp add: cached_switch_def cached_registers_def Let_def)

lemma iter_class:
  assumes inv: "cached_inv E bps k" and w: "cached_select E bps k = Some w"
    and sw: "cached_switch E (k_cpu k) (k_pc k) (PREDECODE_INSN w) (k_executed k) (PREDECODE_ILEN w)
       (PREDECODE_CLASS w) = Some out"
  shows "PREDECODE_CLASS w \<noteq> 0"
    "PREDECODE_CLASS w = predecode_kind (PREDECODE_INSN w) (PREDECODE_ILEN w)"
proof -
  have "entry_wf w"
    using select_facts(1) [OF w] inv lookup_wf by (auto simp: cached_inv_def Let_def)
  moreover show nz: "PREDECODE_CLASS w \<noteq> 0" using sw switch_raw by (metis option.distinct(1))
  ultimately show "PREDECODE_CLASS w = predecode_kind (PREDECODE_INSN w) (PREDECODE_ILEN w)"
    using select_facts(2) [OF w] by (auto simp: entry_wf_def)
qed

lemma iter_keeps_inv:
  assumes inv: "cached_inv E bps k" and it: "cached_iter E bps k = Some k'"
  shows "cached_inv E bps k'" "kept (k_cpu k') = kept (k_cpu k)" "k_executed k' = k_executed k + 1"
    "k_last_pc k' = k_pc k"
proof -
  obtain w out d where w: "cached_select E bps k = Some w"
    and sw: "cached_switch E (k_cpu k) (k_pc k) (PREDECODE_INSN w) (k_executed k) (PREDECODE_ILEN w)
       (PREDECODE_CLASS w) = Some out"
    and ef: "cached_effect (PREDECODE_INSN w) out = Some d" and k': "k' = cached_retire k d out"
    using iter_facts [OF it] by blast
  have kd: "PREDECODE_CLASS w = predecode_kind (PREDECODE_INSN w) (PREDECODE_ILEN w)"
    by (rule iter_class(2) [OF inv w sw])
  have ci: "\<not> irq_check (k_cpu k)" "win_ok (k_cpu k)" using inv by (simp_all add: cached_inv_def Let_def)
  note K = cached_effect_kept [OF sw ci kind_alu_not_wsr [OF trans [OF kd [symmetric]]] ef]
  have kk: "kept (k_cpu k') = kept (k_cpu k)" using K(1) by (simp add: k' cached_retire_def Let_def)
  then show "kept (k_cpu k') = kept (k_cpu k)" .
  have ok: "win_ok (k_cpu k')"
    using K(2) win_ok_kept [OF K(2), of "k_cpu k'"] by (simp add: k' cached_retire_def Let_def)
  have wk: "\<not> co_ctx out \<Longrightarrow> wkept (k_cpu k') = wkept (k_cpu k)"
    using K(3) by (simp add: k' cached_retire_def Let_def)
  have hz: "k_hazard k' = window_hazard (k_cpu k') \<and> k_guard k' = windows_guarded (window_hazard (k_cpu k')) (ps (k_cpu k'))"
  proof (cases "co_ctx out")
    case True
    then show ?thesis by (simp add: k' cached_retire_def Let_def)
  next
    case False
    then show ?thesis
      using wk inv by (simp add: cached_inv_def Let_def k' cached_retire_def wkept_def windows_guarded_def)
  qed
  show "cached_inv E bps k'"
    using inv kk ok hz unfolding cached_inv_def Let_def kept_def by auto
  show "k_executed k' = k_executed k + 1" "k_last_pc k' = k_pc k"
    by (simp_all add: k' cached_retire_def Let_def)
qed

text \<open>The front of a step on such a machine: no hook, no breakpoint, the table entry.\<close>

lemma step_front:
  assumes inv: "cached_inv E bps k" and w: "cached_select E bps k = Some w"
  defines "bh' \<equiv> (\<lambda>bh. if bps = [] then bh else False)"
  shows "xtensa_step_impl E (ov (k_pc k) (k_pc_written k) n bh (k_cpu k)) cc prev room =
    (let (r, d) = step_have_insn E (ov (k_pc k) (k_pc_written k) n (bh' bh) (k_cpu k)) (k_pc_written k)
                    (PREDECODE_INSN w) (PREDECODE_ILEN w) w
     in (r, d, cc + 1, k_pc k))"
proof -
  let ?c = "\<lambda>b. ov (k_pc k) (k_pc_written k) n b (k_cpu k)"
  note F = select_facts [OF w]
  have I: "\<not> halted (k_cpu k)" "jit_fallthrough_dispatch (k_cpu k) = 0" "breakpoints (k_cpu k) = bps"
    "\<not> record_branch_targets (k_cpu k)" "h_aot_bitmap E = None"
    using inv by (auto simp: cached_inv_def Let_def)
  have bnd: "dispatch_boundary (?c bh) = ?c bh"
    using I F(4) by (auto simp: dispatch_boundary_def Let_def)
  have bp: "step_breakpoint (?c bh) cc prev = Inr (?c (bh' bh))"
    using I(3) F(3) bp_filter_member [of "k_pc k" bps]
    by (auto simp: step_breakpoint_def Let_def bh'_def)
  have lk: "predecode_lookup (?c b) (k_pc k) = w" for b
    using F(1) by (simp add: predecode_lookup_def)
  have fe: "step_fetch (?c b) = Fetched (PREDECODE_INSN w) (PREDECODE_ILEN w) w" for b
    using lk F(2) by (simp add: step_fetch_def Let_def)
  have after: "step_after_hook E (?c bh) False (k_pc_written k) cc prev =
      (let (r, d) = step_have_insn E (?c (bh' bh)) (k_pc_written k) (PREDECODE_INSN w) (PREDECODE_ILEN w) w
       in (r, d, cc + 1))"
    by (simp add: step_after_hook_def clear_fallthrough_def bp step_aot_def I(5) step_fetch_exec_def fe)
  show ?thesis
    using I F(5) bnd after
    by (auto simp: xtensa_step_impl_def Let_def split: option.splits prod.splits)
qed

lemma no_window_fault:
  assumes inv: "cached_inv E bps k" and w: "cached_select E bps k = Some w"
    and kd: "PREDECODE_CLASS w \<noteq> 0"
  shows "(if window_hazard (k_cpu k) \<noteq> 0
          then window_access_check (ov p False n b (k_cpu k)) (PREDECODE_INSN w) (PREDECODE_ILEN w)
                 (window_hazard (k_cpu k)) w else None) = None"
proof -
  have "k_guard k = windows_guarded (window_hazard (k_cpu k)) (ps (k_cpu k))"
    "k_hazard k = window_hazard (k_cpu k)" using inv by (auto simp: cached_inv_def Let_def)
  then show ?thesis
    using select_facts(6) [OF w] class_tag [OF kd]
    by (auto simp: window_access_check_def window_check_need_def windows_guarded_def Let_def)
qed

lemma ov_loop_back:
  "loop_back (ov p w n b c) =
     (if lcount c \<noteq> 0 \<and> p = lend c \<and> \<not> w
      then ov (lbeg c) True n b (c\<lparr>lcount := lcount c - 1\<rparr>) else ov p w n b c)"
  by (simp add: loop_back_def word_neq_0_conv)

lemma flag_lcount:
  "c\<lparr>irq_check := x, lcount := y\<rparr> = c\<lparr>lcount := y, irq_check := x\<rparr>"
  by simp

lemma retire_loop_back:
  assumes "k' = cached_retire k d out"
  shows "loop_back (ov (co_next out) (co_branch out) n b (if q then d\<lparr>irq_check := True\<rparr> else d)) =
     ov (k_pc k') (k_pc_written k') n b (if q then (k_cpu k')\<lparr>irq_check := True\<rparr> else k_cpu k')"
proof -
  define bk where "bk \<longleftrightarrow> lcount d \<noteq> 0 \<and> co_next out = lend d \<and> \<not> co_branch out"
  have k': "k_pc k' = (if bk then lbeg d else co_next out)"
    "k_pc_written k' = (if bk then True else co_branch out)"
    "k_cpu k' = (if bk then d\<lparr>lcount := lcount d - 1\<rparr> else d)"
    by (simp_all add: assms cached_retire_def Let_def bk_def)
  have lb: "loop_back (ov (co_next out) (co_branch out) n b e) =
      (if bk then ov (lbeg d) True n b (e\<lparr>lcount := lcount d - 1\<rparr>)
       else ov (co_next out) (co_branch out) n b e)"
    if "lcount e = lcount d" "lend e = lend d" "lbeg e = lbeg d" for e
    by (simp only: ov_loop_back that bk_def)
  show ?thesis
    by (cases q; cases bk; simp add: lb k' flag_lcount split del: if_split)
qed

lemma have_insn_retired:
  assumes "(if window_hazard c \<noteq> 0
            then window_access_check (ov p False n b c) i l (window_hazard c) w else None) = None"
    and "exec_insn E (ov (p + of_nat l) False n b c) i l = (Retired, x)"
  shows "step_have_insn E (ov p pw n b c) pw i l w =
           (let e = retire E (loop_back x) in (step_status e 0, e))"
  using assms by (cases pw) (simp_all add: step_have_insn_def step_execute_def Let_def cong: if_cong split del: if_split)

text \<open>An iteration is a step up to the interrupt-check flag, which RSIL and WSR raise with
  nothing pending: there the step goes through an empty check.\<close>

lemma iter_is_step:
  assumes inv: "cached_inv E bps k" and it: "cached_iter E bps k = Some k'"
  shows "\<exists>q. (q \<longrightarrow> \<not> irq_pending (k_cpu k')) \<and>
    (let c = k_cpu k; n = ccount c + k_executed k;
         d = poll_irq E (fire_if_due E (ov (k_pc k') (k_pc_written k') (n + 1)
               (if bps = [] then bh else False)
               (if q then (k_cpu k')\<lparr>irq_check := True\<rparr> else k_cpu k')))
     in xtensa_step_impl E (ov (k_pc k) (k_pc_written k) n bh c) cc prev room
          = (step_status d 0, d, cc + 1, k_pc k))"
proof -
  obtain w out d where w: "cached_select E bps k = Some w"
    and sw: "cached_switch E (k_cpu k) (k_pc k) (PREDECODE_INSN w) (k_executed k) (PREDECODE_ILEN w)
       (PREDECODE_CLASS w) = Some out"
    and ef: "cached_effect (PREDECODE_INSN w) out = Some d" and k': "k' = cached_retire k d out"
    using iter_facts [OF it] by blast
  let ?c = "k_cpu k" and ?i = "PREDECODE_INSN w" and ?l = "PREDECODE_ILEN w" and ?el = "k_executed k"
  let ?n = "ccount ?c + ?el" and ?bh = "if bps = [] then bh else False"
  note cl = iter_class [OF inv w sw]
  have I: "\<not> journal_en (mem ?c)" "\<not> irq_check ?c" "\<not> record_branch_targets ?c" "win_ok ?c"
    using inv by (auto simp: cached_inv_def Let_def)
  have g: "PREDECODE_CLASS w = PD_ENTRY \<Longrightarrow> window_hazard ?c AND
              (push_bit (window_need2 (XT_S ?i) (entry_dst (ps ?c) (XT_S ?i))) 1 - 1) = 0"
    using select_facts(6) [OF w] sw inv
    by (auto simp: cached_inv_def Let_def windows_guarded_def cached_switch_def cached_entry_def
        split: if_split_asm)
  have "agrees E ?c (k_pc k) ?i ?l ?el out d"
    by (rule agrees_all [OF I ILEN_2_3 cl(2) g sw ef])
  then obtain q where q: "q \<longrightarrow> \<not> irq_pending d"
    "exec_insn E (ov (k_pc k + of_nat ?l) False ?n ?bh ?c) ?i ?l =
       (Retired, ov (co_next out) (co_branch out) ?n ?bh (if q then d\<lparr>irq_check := True\<rparr> else d))"
    unfolding agrees_def by blast
  let ?dq = "if q then d\<lparr>irq_check := True\<rparr> else d"
  let ?kq = "if q then (k_cpu k')\<lparr>irq_check := True\<rparr> else k_cpu k'"
  have lb: "loop_back (ov (co_next out) (co_branch out) ?n ?bh ?dq) =
      ov (k_pc k') (k_pc_written k') ?n ?bh ?kq"
    by (rule retire_loop_back [OF k'])
  have hv: "step_have_insn E (ov (k_pc k) (k_pc_written k) ?n ?bh ?c) (k_pc_written k) ?i ?l w =
      (let e = retire E (ov (k_pc k') (k_pc_written k') ?n ?bh ?kq) in (step_status e 0, e))"
    unfolding have_insn_retired [OF no_window_fault [OF inv w cl(1)] q(2)] lb ..
  have pend: "irq_pending (k_cpu k') = irq_pending d"
    by (simp add: k' cached_retire_def Let_def irq_pending_def)
  show ?thesis
    using q(1) pend step_front [OF inv w, of ?n bh cc prev room] hv
    by (intro exI [of _ q]) (simp add: Let_def retire_def)
qed

section \<open>A whole call\<close>

text \<open>\<open>n\<close> canonical steps: their results, the machine, the cycle counter and the last PC.\<close>

primrec impl_steps ::
  "'d host \<Rightarrow> u32 \<Rightarrow> nat \<Rightarrow> 'd cpu \<times> u64 \<times> u32 \<Rightarrow> int list \<times> 'd cpu \<times> u64 \<times> u32" where
  "impl_steps E room 0 s = ([], s)"
| "impl_steps E room (Suc n) s =
     (let (rs, c, cc, prev) = impl_steps E room n s;
          (r, s') = xtensa_step_impl E c cc prev room
      in (rs @ [r], s'))"

text \<open>
  What the runner relies on of the peripheral hooks at a timer boundary: they do not read the
  interrupt-check flag, only raise it, and raise it when they make an interrupt pending.
\<close>

definition flag_only :: "('d cpu \<Rightarrow> 'd cpu) \<Rightarrow> bool" where
  "flag_only f \<longleftrightarrow> (\<forall>c. \<not> irq_check c \<longrightarrow>
     f (c\<lparr>irq_check := True\<rparr>) = (f c)\<lparr>irq_check := True\<rparr> \<and>
     (irq_pending (f c) \<longrightarrow> irq_pending c \<or> irq_check (f c)))"

definition event_hooks_ok :: "'d host \<Rightarrow> bool" where
  "event_hooks_ok E \<longleftrightarrow>
     (\<forall>f. h_periph_event E = Some f \<longrightarrow> flag_only f) \<and>
     (\<forall>f. h_periph_next_event E = Some f \<longrightarrow>
        flag_only (\<lambda>c. snd (f c)) \<and> (\<forall>c b. fst (f (c\<lparr>irq_check := b\<rparr>)) = fst (f c)))"

text \<open>Two machines that differ at most in a flag nobody acts on.\<close>

definition flag_rel :: "'d cpu \<Rightarrow> 'd cpu \<Rightarrow> bool" where
  "flag_rel a b \<longleftrightarrow> a = b \<or> \<not> irq_check b \<and> \<not> irq_pending b \<and> a = b\<lparr>irq_check := True\<rparr>"

lemma flag_relI: "\<not> irq_check b \<Longrightarrow> \<not> irq_pending b \<Longrightarrow> flag_rel (b\<lparr>irq_check := True\<rparr>) b"
  "flag_rel b b"
  by (simp_all add: flag_rel_def)

lemma ov_flag: "ov p w k b (c\<lparr>irq_check := x\<rparr>) = (ov p w k b c)\<lparr>irq_check := x\<rparr>"
  by (simp add: ov_def)

lemma irq_check_same: "irq_check c \<Longrightarrow> c\<lparr>irq_check := True\<rparr> = c"
  by simp

lemma poll_flag: "flag_rel a b \<Longrightarrow> poll_irq E a = poll_irq E b"
  by (auto simp: flag_rel_def poll_irq_def irq_pending_def irq_check_id)

lemma flag_rel_hook: "flag_only f \<Longrightarrow> flag_rel a b \<Longrightarrow> flag_rel (f a) (f b)"
  unfolding flag_rel_def flag_only_def
  by (cases "irq_check (f b)") (auto simp: irq_check_same)

lemma flag_rel_barrier: "flag_rel a b \<Longrightarrow> flag_rel (xtensa_native_chain_barrier a) (xtensa_native_chain_barrier b)"
  by (auto simp: flag_rel_def xtensa_native_chain_barrier_def irq_pending_def)

lemma flag_rel_next: "flag_rel a b \<Longrightarrow> flag_rel (a\<lparr>next_timer_event := n\<rparr>) (b\<lparr>next_timer_event := n\<rparr>)"
  by (auto simp: flag_rel_def irq_pending_def)

lemma flag_rel_sel:
  assumes "flag_rel a b"
  shows "ccount a = ccount b" "ccompare a = ccompare b" "interrupt a = interrupt b"
    "next_timer_event a = next_timer_event b"
  using assms by (auto simp: flag_rel_def)

lemma recompute_flag:
  assumes E: "event_hooks_ok E" and ab: "flag_rel a b"
  shows "flag_rel (xtensa_recompute_next_timer E a) (xtensa_recompute_next_timer E b)"
proof -
  have tc: "timer_consider a = timer_consider b"
    unfolding timer_consider_def [abs_def] flag_rel_sel [OF ab] ..
  have fin: "flag_rel ((if n \<noteq> next_timer_event x then xtensa_native_chain_barrier x else x)\<lparr>next_timer_event := n\<rparr>)
      ((if n \<noteq> next_timer_event y then xtensa_native_chain_barrier y else y)\<lparr>next_timer_event := n\<rparr>)"
    if "flag_rel x y" for n x y
    unfolding flag_rel_sel(4) [OF that]
    by (cases "n \<noteq> next_timer_event y")
       (simp_all only: if_True if_False simp_thms flag_rel_next flag_rel_barrier that)
  show ?thesis
  proof (cases "h_periph_next_event E")
    case None
    show ?thesis
      unfolding xtensa_recompute_next_timer_def tc Let_def None option.case prod.case
      by (rule fin [OF ab])
  next
    case (Some f)
    have "fst (f a) = fst (f b)"
      using E ab Some by (auto simp: event_hooks_ok_def flag_rel_def)
    moreover have r: "flag_rel (snd (f a)) (snd (f b))"
      using flag_rel_hook [of "\<lambda>c. snd (f c)" a b] E ab Some by (auto simp: event_hooks_ok_def)
    ultimately obtain e x y where fx: "f a = (e, x)" "f b = (e, y)" "flag_rel x y"
      by (metis prod.collapse)
    show ?thesis
      using fin [OF fx(3)] flag_rel_sel(1) [OF fx(3)]
      by (auto simp: xtensa_recompute_next_timer_def Some fx(1,2) tc Let_def split: option.splits prod.splits)
  qed
qed

lemma request_flag:
  "xtensa_request_irq_check (c\<lparr>irq_check := True\<rparr>) = xtensa_request_irq_check c"
  by (simp add: xtensa_request_irq_check_def)

lemma fire_flag:
  assumes E: "event_hooks_ok E" and ab: "flag_rel a b"
  shows "flag_rel (xtensa_fire_timers E a) (xtensa_fire_timers E b)"
proof -
  have tl: "timer_latch a = timer_latch b"
    by (simp add: timer_latch_def [abs_def] flag_rel_sel [OF ab])
  define p where "p = timer_latch b 2 (timer_latch b 1 (timer_latch b 0 (interrupt b)))"
  let ?L = "\<lambda>c. if p \<noteq> interrupt b then xtensa_request_irq_check (c\<lparr>interrupt := p\<rparr>) else c\<lparr>interrupt := p\<rparr>"
  have u: "(c\<lparr>irq_check := True\<rparr>)\<lparr>interrupt := p\<rparr> = (c\<lparr>interrupt := p\<rparr>)\<lparr>irq_check := True\<rparr>" for c by simp
  have L: "flag_rel (?L a) (?L b)"
  proof (cases "p = interrupt b")
    case True
    then show ?thesis using ab by (auto simp: flag_rel_def)
  next
    case False
    then show ?thesis using ab by (auto simp: flag_rel_def u request_flag simp del: cpu.update_convs)
  qed
  have H: "flag_rel (case h_periph_event E of None \<Rightarrow> ?L a | Some f \<Rightarrow> f (?L a))
       (case h_periph_event E of None \<Rightarrow> ?L b | Some f \<Rightarrow> f (?L b))"
    using L flag_rel_hook E by (auto simp: event_hooks_ok_def split: option.splits)
  show ?thesis
    using recompute_flag [OF E H]
    unfolding xtensa_fire_timers_def tl flag_rel_sel(3) [OF ab] Let_def p_def [symmetric] .
qed

lemma fire_if_due_flag:
  "event_hooks_ok E \<Longrightarrow> flag_rel a b \<Longrightarrow> flag_rel (fire_if_due E a) (fire_if_due E b)"
  using fire_flag by (auto simp: fire_if_due_def flag_rel_sel)

text \<open>The iterations of one call, counted.\<close>

primrec cached_iters :: "'d host \<Rightarrow> u32 list \<Rightarrow> nat \<Rightarrow> 'd cached \<Rightarrow> 'd cached option" where
  "cached_iters E bps 0 k = Some k"
| "cached_iters E bps (Suc n) k =
     (case cached_iters E bps n k of None \<Rightarrow> None | Some k1 \<Rightarrow> cached_iter E bps k1)"

lemma cached_iters_front:
  "cached_iters E bps (Suc n) k =
     (case cached_iter E bps k of None \<Rightarrow> None | Some k1 \<Rightarrow> cached_iters E bps n k1)"
proof (induction n)
  case (Suc n)
  have "cached_iters E bps (Suc (Suc n)) k =
      (case cached_iters E bps (Suc n) k of None \<Rightarrow> None | Some k1 \<Rightarrow> cached_iter E bps k1)"
    by (rule cached_iters.simps(2))
  also have "\<dots> = (case cached_iter E bps k of None \<Rightarrow> None | Some k1 \<Rightarrow> cached_iters E bps (Suc n) k1)"
    unfolding Suc.IH by (simp split: option.split)
  finally show ?case .
qed (simp split: option.split)

lemma cached_loop_iters: "\<exists>m \<le> n. cached_iters E bps m k = Some (cached_loop E bps n k)"
proof (induction n arbitrary: k)
  case (Suc n)
  show ?case
  proof (cases "cached_iter E bps k")
    case None
    then show ?thesis by (intro exI [of _ 0]) simp
  next
    case (Some k1)
    then obtain m where "m \<le> n" "cached_iters E bps m k1 = Some (cached_loop E bps n k1)"
      using Suc.IH by blast
    then show ?thesis
      using Some by (intro exI [of _ "Suc m"]) (simp add: cached_iters_front del: cached_iters.simps)
  qed
qed simp

lemma iters_inv:
  assumes "cached_inv E bps k" "cached_iters E bps m k = Some k'"
  shows "cached_inv E bps k' \<and> kept (k_cpu k') = kept (k_cpu k) \<and>
    k_executed k' = k_executed k + of_nat m"
  using assms(2)
proof (induction m arbitrary: k')
  case (Suc m)
  then obtain k1 where k1: "cached_iters E bps m k = Some k1" "cached_iter E bps k1 = Some k'"
    by (auto split: option.splits)
  then show ?case
    using Suc.IH [OF k1(1)] iter_keeps_inv [of E bps k1 k'] by (auto simp: ac_simps)
qed (use assms(1) in auto)

text \<open>Before the timer boundary the steps leave exactly the runner's state.\<close>

definition canon :: "u32 list \<Rightarrow> nat \<Rightarrow> bool \<Rightarrow> 'd cached \<Rightarrow> 'd cpu" where
  "canon bps m bh k =
     ov (k_pc k) (k_pc_written k) (ccount (k_cpu k) + k_executed k)
        (if bps = [] \<or> m = 0 then bh else False) (k_cpu k)"

lemma canon_start: "canon bps 0 (breakpoint_hit c) (cached_start c prev) = c"
  by (simp add: canon_def cached_start_def ov_def)

lemma iter_canon:
  assumes inv: "cached_inv E bps k" and it: "cached_iter E bps k = Some k'" and E: "event_hooks_ok E"
  shows "xtensa_step_impl E (canon bps m bh k) cc prev room =
    (let d = poll_irq E (fire_if_due E (canon bps (Suc m) bh k')) in (step_status d 0, d, cc + 1, k_pc k))"
proof -
  note I = iter_keeps_inv [OF inv it]
  let ?n = "ccount (k_cpu k) + k_executed k" and ?b = "if bps = [] \<or> m = 0 then bh else False"
  let ?b' = "if bps = [] then ?b else False"
  obtain q where q: "q \<longrightarrow> \<not> irq_pending (k_cpu k')"
    "xtensa_step_impl E (ov (k_pc k) (k_pc_written k) ?n ?b (k_cpu k)) cc prev room =
      (let d = poll_irq E (fire_if_due E (ov (k_pc k') (k_pc_written k') (?n + 1) ?b'
               (if q then (k_cpu k')\<lparr>irq_check := True\<rparr> else k_cpu k')))
       in (step_status d 0, d, cc + 1, k_pc k))"
    using iter_is_step [OF inv it, of ?b cc prev room] unfolding Let_def by blast
  have cn: "canon bps (Suc m) bh k' = ov (k_pc k') (k_pc_written k') (?n + 1) ?b' (k_cpu k')"
    using I(2,3) by (auto simp: canon_def kept_def add.assoc)
  have nc: "\<not> irq_check (k_cpu k')" using I(1) by (simp add: cached_inv_def Let_def)
  have "flag_rel (ov (k_pc k') (k_pc_written k') (?n + 1) ?b'
               (if q then (k_cpu k')\<lparr>irq_check := True\<rparr> else k_cpu k')) (canon bps (Suc m) bh k')"
    unfolding cn
  proof (cases q)
    case True
    have "\<not> irq_pending (ov (k_pc k') (k_pc_written k') (?n + 1) ?b' (k_cpu k'))"
      using q(1) True by (simp add: irq_pending_def)
    then have "flag_rel ((ov (k_pc k') (k_pc_written k') (?n + 1) ?b' (k_cpu k'))\<lparr>irq_check := True\<rparr>)
        (ov (k_pc k') (k_pc_written k') (?n + 1) ?b' (k_cpu k'))"
      by (intro flag_relI(1)) (simp_all add: nc)
    then show "flag_rel (ov (k_pc k') (k_pc_written k') (?n + 1) ?b'
        (if q then (k_cpu k')\<lparr>irq_check := True\<rparr> else k_cpu k'))
        (ov (k_pc k') (k_pc_written k') (?n + 1) ?b' (k_cpu k'))"
      by (simp only: True if_True ov_flag)
  qed (simp only: if_False flag_relI)
  from poll_flag [OF fire_if_due_flag [OF E this]] show ?thesis
    using q(2) unfolding canon_def [of bps m] by simp
qed

lemma not_due_id:
  assumes "ccount c < next_timer_event c" "\<not> irq_check c"
  shows "poll_irq E (fire_if_due E c) = c"
  using assms by (simp add: fire_if_due_def poll_irq_def not_le)

lemma add_less_no_wrap: "unat (a :: u32) + m < unat b \<Longrightarrow> a + of_nat m < b"
  using unsigned_less [of b] by (simp add: word_less_nat_alt unat_word_ariths unat_of_nat)

lemma iters_steps:
  assumes inv: "cached_inv E bps (cached_start c prev)" and E: "event_hooks_ok E" and "\<not> exception c"
    and "cached_iters E bps m (cached_start c prev) = Some k"
    and "unat (ccount c) + m < unat (next_timer_event c)"
  shows "impl_steps E room m (c, cc, prev) =
     (replicate m 0, canon bps m (breakpoint_hit c) k, cc + of_nat m, k_last_pc k)"
  using assms(4,5)
proof (induction m arbitrary: k)
  case 0
  then show ?case using canon_start [of bps c prev] by (auto simp: cached_start_def)
next
  case (Suc m)
  then obtain k1 where k1: "cached_iters E bps m (cached_start c prev) = Some k1"
    "cached_iter E bps k1 = Some k" by (auto split: option.splits)
  note I1 = iters_inv [OF inv k1(1)] and I = iters_inv [OF inv Suc.prems(1)]
  have IH: "impl_steps E room m (c, cc, prev) =
     (replicate m 0, canon bps m (breakpoint_hit c) k1, cc + of_nat m, k_last_pc k1)"
    using Suc.IH [OF k1(1)] Suc.prems(2) by simp
  let ?d = "canon bps (Suc m) (breakpoint_hit c) k"
  have kk: "kept (k_cpu k) = kept c" and ex: "k_executed k = of_nat (Suc m)"
    using I by (simp_all add: cached_start_def)
  have "\<not> irq_check ?d" using I by (simp add: canon_def cached_inv_def Let_def)
  moreover have "ccount ?d < next_timer_event ?d"
    using add_less_no_wrap [OF Suc.prems(2)] kk ex by (simp add: canon_def kept_def)
  ultimately have "poll_irq E (fire_if_due E ?d) = ?d" by (rule not_due_id [rotated])
  moreover have "step_status ?d 0 = 0"
    using kk assms(3) by (simp add: canon_def step_status_def kept_def)
  ultimately have "xtensa_step_impl E (canon bps m (breakpoint_hit c) k1) (cc + of_nat m) (k_last_pc k1) room =
      (0, ?d, cc + of_nat m + 1, k_last_pc k)"
    using iter_canon [OF conjunct1 [OF I1] k1(2) E, of m "breakpoint_hit c"]
      iter_keeps_inv(4) [OF conjunct1 [OF I1] k1(2)]
    by (simp add: Let_def)
  then show ?case by (simp add: IH replicate_append_same add.commute add.left_commute)
qed

lemma start_inv:
  assumes "cached_enabled E c budget" "\<not> halted c" "win_ok c" "predecode_wf (predecode c)"
  shows "cached_inv E (breakpoints c) (cached_start c prev)"
  using assms by (auto simp: cached_inv_def cached_start_def cached_enabled_def Let_def)

lemma finish_canon:
  assumes "kept (k_cpu k) = kept c"
  shows "cached_finish E bps k = poll_irq E (fire_if_due E (canon bps (Suc m) (breakpoint_hit c) k))"
proof -
  have b: "breakpoint_hit c = breakpoint_hit (k_cpu k)" using assms by (simp add: kept_def)
  have "(k_cpu k)\<lparr>pc := p, pc_written := w, ccount := n\<rparr> = ov p w n (breakpoint_hit (k_cpu k)) (k_cpu k)"
    for p w n by (simp add: ov_def)
  then show ?thesis unfolding cached_finish_def canon_def Let_def b by (cases "bps = []") simp_all
qed

text \<open>A call that executes \<open>Suc m\<close> instructions, up to and including the timer boundary.\<close>

lemma iters_finish:
  assumes inv: "cached_inv E (breakpoints c) (cached_start c prev)" and E: "event_hooks_ok E"
    and ne: "\<not> exception c"
    and it: "cached_iters E (breakpoints c) (Suc m) (cached_start c prev) = Some k"
    and t: "unat (ccount c) + m < unat (next_timer_event c)"
  shows "impl_steps E room (Suc m) (c, cc, prev) =
     (replicate m 0 @ [step_status (cached_finish E (breakpoints c) k) 0],
      cached_finish E (breakpoints c) k, cc + of_nat (Suc m), k_last_pc k)"
proof -
  obtain k1 where k1: "cached_iters E (breakpoints c) m (cached_start c prev) = Some k1"
    "cached_iter E (breakpoints c) k1 = Some k" using it by (auto split: option.splits)
  have i1: "cached_inv E (breakpoints c) k1" and "kept (k_cpu k) = kept c"
    using iters_inv [OF inv k1(1)] iters_inv [OF inv it] by (simp_all add: cached_start_def)
  then have "xtensa_step_impl E (canon (breakpoints c) m (breakpoint_hit c) k1) (cc + of_nat m)
        (k_last_pc k1) room =
      (step_status (cached_finish E (breakpoints c) k) 0, cached_finish E (breakpoints c) k,
       cc + of_nat m + 1, k_last_pc k)"
    using iter_canon [OF i1 k1(2) E, of m "breakpoint_hit c"] iter_keeps_inv(4) [OF i1 k1(2)]
      finish_canon [OF \<open>kept (k_cpu k) = kept c\<close>, of E "breakpoints c" m]
    by (simp add: Let_def)
  then show ?thesis
    by (simp add: iters_steps [OF inv E ne k1(1) t] add.commute add.left_commute)
qed

text \<open>C1. A call of the cached runner that reports \<open>n\<close> instructions is \<open>n\<close> canonical steps: the
  same machine, cycle counter and previous PC, every step but the last returning 0 and the
  last one the status of that machine.\<close>

theorem run_cached_is_steps:
  assumes "\<not> halted c" "hazard_ok c" "windowbase c < 16" "predecode_wf (predecode c)"
    and "event_hooks_ok E"
    and "xtensa_run_cached E c cc prev budget = (n, c', cc', prev')"
  shows "impl_steps E room n (c, cc, prev) =
     ((if n = 0 then [] else replicate (n - 1) 0 @ [step_status c' 0]), c', cc', prev')"
proof (cases "cached_enabled E c budget")
  case False
  then show ?thesis using assms(6) by (auto simp: xtensa_run_cached_def)
next
  case True
  let ?bps = "breakpoints c" and ?s = "cached_start c prev"
  let ?room = "if unat (next_timer_event c - ccount c) < budget
               then unat (next_timer_event c - ccount c) else budget"
  let ?k = "cached_loop E ?bps ?room ?s"
  have inv: "cached_inv E ?bps ?s"
    using start_inv [OF True assms(1) _ assms(4)] assms(2,3) by (simp add: win_ok_def)
  obtain m where m: "m \<le> ?room" "cached_iters E ?bps m ?s = Some ?k"
    using cached_loop_iters [of ?room E ?bps ?s] by blast
  have lt: "ccount c < next_timer_event c" "\<not> exception c" using True by (simp_all add: cached_enabled_def)
  have "unat (next_timer_event c - ccount c) = unat (next_timer_event c) - unat (ccount c)"
    by (rule unat_sub) (rule less_imp_le [OF lt(1)])
  then have t: "unat (ccount c) + m \<le> unat (next_timer_event c)"
    using m(1) lt(1) by (auto simp: word_less_nat_alt split: if_splits)
  then have "m < 2 ^ 32"
    using unsigned_less [of "next_timer_event c", where ?'a = nat] by simp
  then have ex: "unat (k_executed ?k) = m"
    using iters_inv [OF inv m(2)] by (simp add: cached_start_def unat_of_nat)
  have run: "xtensa_run_cached E c cc prev budget =
      (if m = 0 then (0, k_cpu ?k, cc, prev)
       else (m, cached_finish E ?bps ?k, cc + of_nat m, k_last_pc ?k))"
    unfolding xtensa_run_cached_def Let_def ex using True by (simp only: not_True_eq_False if_False)
  show ?thesis
  proof (cases m)
    case 0
    have "?k = ?s" using m(2) unfolding 0 cached_iters.simps(1) by simp
    moreover have "k_cpu ?s = c" by (simp add: cached_start_def)
    ultimately have "k_cpu ?k = c" by (simp only:)
    then show ?thesis using assms(6) run 0 by simp
  next
    case (Suc j)
    have "m \<noteq> 0" using Suc by simp
    have n: "n = m" "c' = cached_finish E ?bps ?k" "cc' = cc + of_nat m" "prev' = k_last_pc ?k"
      using assms(6) unfolding run if_not_P [OF \<open>m \<noteq> 0\<close>] prod.inject by blast+
    show ?thesis
      using iters_finish [OF inv assms(5) lt(2), of j ?k room cc] m(2) t Suc
      unfolding n by simp
  qed
qed

section \<open>A concrete run\<close>

text \<open>The sample machine with two NOP.N instructions in its table and a peripheral that raises
  line 2 on every event.\<close>

definition nop_run :: "unit cpu" where
  "nop_run = sample_cpu\<lparr>predecode :=
     Some (\<lambda>off. if off = 0x80800 \<or> off = 0x80802 then predecode_pack sample_cpu 0xF03D 2 else 0)\<rparr>"

definition raise_line2 :: "unit cpu \<Rightarrow> unit cpu" where
  "raise_line2 c = xtensa_request_irq_check (c\<lparr>interrupt := interrupt c OR 4\<rparr>)"

definition event_host :: "unit host" where
  "event_host = sample_host\<lparr>h_periph_event := Some raise_line2\<rparr>"

lemma event_host_ok: "event_hooks_ok event_host"
proof -
  have "raise_line2 (c\<lparr>irq_check := True\<rparr>) = (raise_line2 c)\<lparr>irq_check := True\<rparr>" for c
    by (simp add: raise_line2_def xtensa_request_irq_check_def xtensa_native_chain_barrier_def
        xtensa_irq_is_deliverable_def Let_def)
  moreover have "irq_check (raise_line2 c)" for c
    by (simp add: raise_line2_def xtensa_request_irq_check_def xtensa_native_chain_barrier_def Let_def)
  ultimately show ?thesis
    by (simp add: event_hooks_ok_def event_host_def sample_host_def flag_only_def)
qed

lemma nop_run_table: "predecode_wf (predecode nop_run)"
  using predecode_pack_wf [of "0xF03D" 2 sample_cpu]
  by (auto simp: predecode_wf_def nop_run_def entry_wf_def)

lemma nop_class: "PREDECODE_CLASS (predecode_pack sample_cpu 0xF03D 2) = PD_NOP"
  "PREDECODE_INSN (predecode_pack sample_cpu 0xF03D 2) = 0xF03D"
  "PREDECODE_ILEN (predecode_pack sample_cpu 0xF03D 2) = 2"
  "predecode_pack sample_cpu 0xF03D 2 \<noteq> 0"
proof -
  have k: "predecode_kind 0xF03D 2 = PD_NOP"
    by (simp add: predecode_kind_def predecode_kind_narrow_def XT_OP0_def XT_R_def XT_T_def Let_def)
  show c: "PREDECODE_CLASS (predecode_pack sample_cpu 0xF03D 2) = PD_NOP"
    using predecode_pack_fields(3) [of "0xF03D" 2 sample_cpu] k by simp
  show "PREDECODE_INSN (predecode_pack sample_cpu 0xF03D 2) = 0xF03D"
  "PREDECODE_ILEN (predecode_pack sample_cpu 0xF03D 2) = 2"
    using predecode_pack_fields [of "0xF03D" 2 sample_cpu] by simp_all
  show "predecode_pack sample_cpu 0xF03D 2 \<noteq> 0" using c by (auto simp: PREDECODE_CLASS_def)
qed

lemma nop_iter:
  assumes "k_cpu k = nop_run" "k_pc k = 0x40080800 \<or> k_pc k = 0x40080802" "\<not> k_guard k"
  shows "cached_iter event_host [] k = Some (k\<lparr>k_pc := k_pc k + 2, k_pc_written := False,
     k_last_pc := k_pc k, k_executed := k_executed k + 1\<rparr>)"
proof -
  have l: "predecode_lookup nop_run (k_pc k) = predecode_pack sample_cpu 0xF03D 2"
    using assms(2) by (auto simp: predecode_lookup_def nop_run_def Let_def PREDECODE_BASE_def PREDECODE_SIZE_def PREDECODE_END_def)
  have lc: "lcount nop_run = 0" by (simp add: nop_run_def sample_defs window_hazard_refresh_def Let_def)
  have b: "\<not> bp_filter [] (k_pc k)" using assms(2) by (auto simp: bp_filter_def bp_range_def)
  have s: "cached_select event_host [] k = Some (predecode_pack sample_cpu 0xF03D 2)"
    using assms l b nop_class(4) by (auto simp: cached_select_def Let_def event_host_def sample_host_def hook_applies_def GUEST_CALL_ASYNC_SENTINEL_def)
  show ?thesis
    unfolding cached_iter_def s
    by (simp add: Let_def nop_class assms(1) cached_switch_def cached_registers_def co_plain_def cached_retire_def lc)
qed
lemma nop_stop:
  assumes "k_cpu k = nop_run" "k_pc k = 0x40080804"
  shows "cached_iter event_host [] k = None"
proof -
  have l: "predecode_lookup nop_run (k_pc k) = 0"
    using assms(2) by (auto simp: predecode_lookup_def nop_run_def Let_def PREDECODE_BASE_def PREDECODE_SIZE_def PREDECODE_END_def)
  then show ?thesis using assms by (simp add: cached_iter_def cached_select_def Let_def)
qed

lemma nop_run_two: "fst (xtensa_run_cached event_host nop_run 0 0 9) = 2"
proof -
  have f: "pc nop_run = 0x40080800" "ccount nop_run = 0" "next_timer_event nop_run = UINT32_MAX"
    "breakpoints nop_run = []" "\<not> windows_guarded (window_hazard nop_run) (ps nop_run)" "predecode nop_run \<noteq> None"
    by (simp_all add: nop_run_def sample_defs window_hazard_refresh_def Let_def windows_guarded_def hazard_of_def)
  have e: "cached_enabled event_host nop_run 9"
    by (simp add: cached_enabled_def nop_run_def sample_defs event_host_def window_hazard_refresh_def Let_def)
  let ?k = "cached_start nop_run 0"
  have k: "cached_loop event_host [] 9 ?k = ?k\<lparr>k_pc := 0x40080804, k_pc_written := False,
     k_last_pc := 0x40080802, k_executed := 2\<rparr>"
    using f by (simp add: numeral_eq_Suc nop_iter nop_stop cached_start_def)
  show ?thesis
    using e f k by (simp add: xtensa_run_cached_def Let_def)
qed

theorem run_cached_is_steps_witness:
  "impl_steps event_host 0 2 (nop_run, 0, 0) =
     (let (n, c', s) = xtensa_run_cached event_host nop_run 0 0 9 in ([0, step_status c' 0], c', s))"
proof -
  have c: "\<not> halted nop_run" "hazard_ok nop_run" "windowbase nop_run < 16"
    by (simp_all add: nop_run_def sample_defs hazard_ok_def window_hazard_refresh_def Let_def)
  obtain n c' cc' prev' where r: "xtensa_run_cached event_host nop_run 0 0 9 = (n, c', cc', prev')"
    by (metis prod.collapse)
  then have "n = 2" using nop_run_two by simp
  then show ?thesis
    using run_cached_is_steps [OF c nop_run_table event_host_ok r, of 0] by (simp add: r)
qed

text \<open>The gate in front of the runner: where it is closed, a call would execute nothing.\<close>

theorem dispatch_gate_sound:
  assumes "\<not> cached_dispatch_ready c"
  shows "xtensa_run_cached E c cc prev budget = (0, c, cc, prev)"
proof -
  have "cached_iter E (breakpoints c) (cached_start c prev) = None"
  proof (cases "cached_select E (breakpoints c) (cached_start c prev)")
    case (Some w)
    then have "w = predecode_lookup c (pc c)" using select_facts(1) by (fastforce simp: cached_start_def)
    then have "PREDECODE_CLASS w = PD_RAW \<or> PREDECODE_CLASS w = PD_SLOW"
      using assms by (auto simp: cached_dispatch_ready_def)
    then show ?thesis
      using Some by (auto simp: cached_iter_def switch_raw cached_switch_slow [unfolded One_nat_def] Let_def)
  qed (simp add: cached_iter_def)
  then have "cached_loop E (breakpoints c) n (cached_start c prev) = cached_start c prev" for n
    by (cases n) simp_all
  then show ?thesis by (simp add: xtensa_run_cached_def cached_start_def Let_def)
qed

theorem dispatch_gate_sound_witness:
  "xtensa_run_cached sample_host sample_cpu 7 3 100 = (0, sample_cpu, 7, 3)"
  by (rule dispatch_gate_sound)
     (simp add: cached_dispatch_ready_def predecode_lookup_def sample_defs window_hazard_refresh_def
        Let_def PREDECODE_CLASS_def)

end
