(* ===== verification/Bounded_Set.thy ===== *)
theory Bounded_Set
  imports Sample_States "HOL-Library.Multiset"
begin

text \<open>
  The two small sets the program keeps in fixed arrays: the breakpoints of a processor
  (src/src/xtensa.c) and the code watchers of a memory (src/src/memory.c). Both append at the end,
  refuse when full, and remove by moving the last element into the gap. The locale
  \<open>bounded_set\<close> is their common contract; its lemmas give the array invariant (no duplicates, no
  more than the capacity) and the set semantics, and the interpretations hold for the program's
  operations. The refinement theorem then reads any sequence of breakpoint commands as operations
  on a mathematical set.
\<close>

section \<open>Removal by the last element\<close>

lemma swap_remove_eq_None: "swap_remove P xs = None \<longleftrightarrow> (\<forall>x \<in> set xs. \<not> P x)"
  by (induction xs) auto

lemma swap_remove_Some:
  assumes "swap_remove P xs = Some ys"
  shows "\<exists>x. P x \<and> mset xs = add_mset x (mset ys)"
  using assms
proof (induction xs arbitrary: ys)
  case (Cons a xs)
  show ?case
  proof (cases "P a")
    case True
    then have "mset ys = mset xs"
      using Cons.prems by (cases xs rule: rev_cases) (auto simp: add.commute split: if_split_asm)
    then show ?thesis using True by auto
  next
    case False
    then obtain zs where "swap_remove P xs = Some zs" "ys = a # zs" using Cons.prems by auto
    then show ?thesis using Cons.IH [of zs] by auto
  qed
qed simp

lemma swap_remove_eq_Some:
  assumes "swap_remove (\<lambda>y. y = x) xs = Some ys" "distinct xs"
  shows "distinct ys" "set ys = set xs - {x}" "length xs = Suc (length ys)"
proof -
  have m: "mset xs = add_mset x (mset ys)" using swap_remove_Some [OF assms(1)] by auto
  then have "mset xs = mset (x # ys)" by simp
  then have "distinct (x # ys)" "set xs = set (x # ys)"
    using assms(2) by (metis mset_eq_imp_distinct_iff, metis mset_eq_setD)
  then show "distinct ys" "set ys = set xs - {x}" by auto
  show "length xs = Suc (length ys)" using m by (metis size_add_mset size_mset)
qed

section \<open>The contract\<close>

locale bounded_set =
  fixes elems :: "'s \<Rightarrow> 'a list"
    and add :: "'s \<Rightarrow> 'a \<Rightarrow> int \<times> 's"
    and rem :: "'s \<Rightarrow> 'a \<Rightarrow> 's"
    and cap :: nat
  assumes add_old: "x \<in> set (elems s) \<Longrightarrow> elems (snd (add s x)) = elems s"
    and add_new: "x \<notin> set (elems s) \<Longrightarrow> length (elems s) < cap \<Longrightarrow>
          fst (add s x) = 0 \<and> elems (snd (add s x)) = elems s @ [x]"
    and add_full: "x \<notin> set (elems s) \<Longrightarrow> cap \<le> length (elems s) \<Longrightarrow>
          fst (add s x) = - 1 \<and> elems (snd (add s x)) = elems s"
    and rem_elems: "elems (rem s x) =
          (case swap_remove (\<lambda>y. y = x) (elems s) of None \<Rightarrow> elems s | Some ys \<Rightarrow> ys)"
begin

definition wf :: "'s \<Rightarrow> bool" where
  "wf s \<longleftrightarrow> distinct (elems s) \<and> length (elems s) \<le> cap"

lemma add_cases:
  obtains (old) "x \<in> set (elems s)" "elems (snd (add s x)) = elems s"
  | (new) "x \<notin> set (elems s)" "length (elems s) < cap" "fst (add s x) = 0"
      "elems (snd (add s x)) = elems s @ [x]"
  | (full) "x \<notin> set (elems s)" "cap \<le> length (elems s)" "fst (add s x) = - 1"
      "elems (snd (add s x)) = elems s"
  using add_old [of x s] add_new [of x s] add_full [of x s] not_less by blast

lemma wf_add: "wf s \<Longrightarrow> wf (snd (add s x))"
  by (cases x s rule: add_cases) (auto simp: wf_def)

lemma wf_rem:
  assumes "wf s"
  shows "wf (rem s x)"
proof (cases "swap_remove (\<lambda>y. y = x) (elems s)")
  case (Some ys)
  then show ?thesis using assms swap_remove_eq_Some [OF Some] by (simp add: wf_def rem_elems)
qed (use assms in \<open>simp add: wf_def rem_elems\<close>)

lemma set_add:
  "wf s \<Longrightarrow> set (elems (snd (add s x))) =
     (if card (set (elems s)) < cap then insert x (set (elems s)) else set (elems s))"
  by (cases x s rule: add_cases) (auto simp: wf_def distinct_card)

lemma set_rem:
  assumes "wf s"
  shows "set (elems (rem s x)) = set (elems s) - {x}"
proof (cases "swap_remove (\<lambda>y. y = x) (elems s)")
  case None
  then have "x \<notin> set (elems s)" by (auto simp: swap_remove_eq_None)
  then show ?thesis using None by (simp add: rem_elems)
next
  case (Some ys)
  then show ?thesis using assms swap_remove_eq_Some [OF Some] by (simp add: wf_def rem_elems)
qed

text \<open>Insert, look up, remove.\<close>

lemma mem_add: "fst (add s x) = 0 \<Longrightarrow> x \<in> set (elems (snd (add s x)))"
  by (cases x s rule: add_cases) auto

lemma mem_rem: "wf s \<Longrightarrow> x \<notin> set (elems (rem s x))"
  by (simp add: set_rem)

end

section \<open>Its two providers\<close>

interpretation bps: bounded_set breakpoints xtensa_set_breakpoint
  "\<lambda>c a. snd (xtensa_clear_breakpoint c a)" MAX_BREAKPOINTS
  by unfold_locales
     (auto simp: xtensa_set_breakpoint_def xtensa_clear_breakpoint_def split: option.splits)

definition mem_watchers :: "xmem \<Rightarrow> code_watcher list" where
  "mem_watchers m = (case code_state m of None \<Rightarrow> [] | Some s \<Rightarrow> cs_watch s)"

lemma mem_watchers_add:
  "mem_code_watch_add m w =
     (if w \<in> set (mem_watchers m) then (0, snd (mem_code_watch_add m w))
      else if CODE_WATCH_MAX \<le> length (mem_watchers m) then (- 1, snd (mem_code_watch_add m w))
      else (0, snd (mem_code_watch_add m w)))"
  "mem_watchers (snd (mem_code_watch_add m w)) =
     (if w \<in> set (mem_watchers m) \<or> CODE_WATCH_MAX \<le> length (mem_watchers m) then mem_watchers m
      else mem_watchers m @ [w])"
  by (cases "code_state m"; simp add: mem_watchers_def mem_code_watch_add_def Let_def
      empty_code_state_def CODE_WATCH_MAX_def)+

lemma mem_watchers_remove:
  "mem_watchers (mem_code_watch_remove m w) =
     (case swap_remove (\<lambda>y. y = w) (mem_watchers m) of None \<Rightarrow> mem_watchers m | Some ys \<Rightarrow> ys)"
  by (simp add: mem_watchers_def mem_code_watch_remove_def split: option.split)

lemma fst_watch_add:
  "fst (mem_code_watch_add m w) =
     (if w \<notin> set (mem_watchers m) \<and> CODE_WATCH_MAX \<le> length (mem_watchers m) then - 1 else 0)"
  by (subst mem_watchers_add(1)) simp

interpretation watchers: bounded_set mem_watchers mem_code_watch_add mem_code_watch_remove CODE_WATCH_MAX
  by unfold_locales (simp_all add: mem_watchers_add(2) fst_watch_add mem_watchers_remove)

section \<open>Breakpoint commands refine set operations\<close>

datatype bp_cmd = Bp_Set u32 | Bp_Clear u32 | Bp_Clear_All

fun bp_run :: "bp_cmd \<Rightarrow> 'd cpu \<Rightarrow> 'd cpu" where
  "bp_run (Bp_Set a) c = snd (xtensa_set_breakpoint c a)"
| "bp_run (Bp_Clear a) c = snd (xtensa_clear_breakpoint c a)"
| "bp_run Bp_Clear_All c = xtensa_clear_all_breakpoints c"

fun bp_spec :: "bp_cmd \<Rightarrow> u32 set \<Rightarrow> u32 set" where
  "bp_spec (Bp_Set a) S = (if card S < MAX_BREAKPOINTS then insert a S else S)"
| "bp_spec (Bp_Clear a) S = S - {a}"
| "bp_spec Bp_Clear_All S = {}"

lemma bp_run_refines:
  assumes "bps.wf c"
  shows "bps.wf (bp_run cmd c)" "set (breakpoints (bp_run cmd c)) = bp_spec cmd (set (breakpoints c))"
proof -
  show "bps.wf (bp_run cmd c)"
    using bps.wf_add [OF assms] bps.wf_rem [OF assms]
    by (cases cmd) (simp_all add: xtensa_clear_all_breakpoints_def bps.wf_def)
  show "set (breakpoints (bp_run cmd c)) = bp_spec cmd (set (breakpoints c))"
    by (cases cmd) (simp_all add: bps.set_add [OF assms] bps.set_rem [OF assms]
        xtensa_clear_all_breakpoints_def)
qed

text \<open>C14. Starting from a processor with no more than sixteen distinct breakpoints, any sequence of set,
  clear and clear-all commands keeps the array free of duplicates and within its sixteen entries,
  and the addresses in it are those of the set operations: a set is refused exactly when
  sixteen are in use.\<close>

theorem breakpoints_refine_set:
  assumes "distinct (breakpoints c)" "length (breakpoints c) \<le> MAX_BREAKPOINTS"
  shows "distinct (breakpoints (fold bp_run cmds c)) \<and>
     length (breakpoints (fold bp_run cmds c)) \<le> MAX_BREAKPOINTS \<and>
     set (breakpoints (fold bp_run cmds c)) = fold bp_spec cmds (set (breakpoints c))"
proof -
  have "bps.wf (fold bp_run cmds c) \<and>
      set (breakpoints (fold bp_run cmds c)) = fold bp_spec cmds (set (breakpoints c))"
    if "bps.wf c" for c :: "'a cpu"
    using that
  proof (induction cmds arbitrary: c)
    case (Cons cmd cmds)
    then show ?case using bp_run_refines [OF Cons.prems, of cmd] Cons.IH [of "bp_run cmd c"] by simp
  qed simp
  then show ?thesis using assms by (simp add: bps.wf_def)
qed

text \<open>The watchers of a memory likewise: adding succeeds exactly when the watcher is there already or
  one of the four entries is free, the new watcher is then in the array, and removing takes out
  that watcher only.\<close>

theorem code_watch_set:
  assumes "distinct (mem_watchers m)" "length (mem_watchers m) \<le> CODE_WATCH_MAX"
  shows "(fst (mem_code_watch_add m w) = 0 \<longleftrightarrow>
            w \<in> set (mem_watchers m) \<or> length (mem_watchers m) < CODE_WATCH_MAX) \<and>
         (fst (mem_code_watch_add m w) = 0 \<longrightarrow>
            set (mem_watchers (snd (mem_code_watch_add m w))) = insert w (set (mem_watchers m))) \<and>
         distinct (mem_watchers (snd (mem_code_watch_add m w))) \<and>
         set (mem_watchers (mem_code_watch_remove m w)) = set (mem_watchers m) - {w} \<and>
         distinct (mem_watchers (mem_code_watch_remove m w))"
proof -
  have wf: "watchers.wf m" using assms by (simp add: watchers.wf_def)
  show ?thesis
    using watchers.wf_add [OF wf, of w] watchers.wf_rem [OF wf, of w] watchers.set_rem [OF wf, of w]
    by (auto simp: watchers.wf_def fst_watch_add mem_watchers_add(2))
qed

section \<open>Witnesses\<close>

lemma sample_breakpoints: "breakpoints sample_cpu = []"
  by (simp add: sample_defs window_hazard_refresh_def)

theorem breakpoints_refine_set_witness:
  "set (breakpoints (fold bp_run [Bp_Set 0x400D0000, Bp_Set 0x400D0003, Bp_Clear 0x400D0000] sample_cpu))
     = {0x400D0003}"
proof -
  let ?cmds = "[Bp_Set 0x400D0000, Bp_Set 0x400D0003, Bp_Clear 0x400D0000]"
  have "set (breakpoints (fold bp_run ?cmds sample_cpu)) = fold bp_spec ?cmds {}"
    using breakpoints_refine_set [of sample_cpu ?cmds] unfolding sample_breakpoints by simp
  also have "\<dots> = {0x400D0003}" by (auto simp: MAX_BREAKPOINTS_def)
  finally show ?thesis .
qed

theorem code_watch_set_witness:
  "fst (mem_code_watch_add sample_mem Watch_Self) = 0 \<and>
   set (mem_watchers (snd (mem_code_watch_add sample_mem Watch_Self))) = {Watch_Self}"
  using code_watch_set [of sample_mem Watch_Self]
  by (simp add: mem_watchers_def sample_mem_def CODE_WATCH_MAX_def)

end
