(* ===== verification/Code_Pages.thy ===== *)
theory Code_Pages
  imports Predecode_Table Bounded_Set
begin

text \<open>
  The bookkeeping of src/src/memory.c for pages that hold translated code. \<open>store_safe\<close> is the
  invariant of the store page table: an entry agrees with the load table and never leads to a
  diverted page, so that every store to such a page takes the slow path, where the watchers are
  told. All operations that change a mapping or mark code keep it. The coherence theorems in
  theory Code_Coherence rest on it.
\<close>

section \<open>Diverted pages\<close>

definition diverted :: "xmem \<Rightarrow> hptr \<Rightarrow> bool" where
  "diverted m h \<longleftrightarrow> (\<exists>l. code_page_loc m h = Some l \<and> cp_diverted (code_page_at m l))"

lemma code_page_for_host_False:
  "fst (code_page_for_host m h False) =
     (case code_page_loc m h of None \<Rightarrow> None
      | Some l \<Rightarrow> (case code_state m of None \<Rightarrow> None
                  | Some s \<Rightarrow> if cs_pages s (fst l) = None then None else Some l))"
  by (auto simp: code_page_for_host_def Let_def split: option.splits)

lemma host_page_diverted_iff [simp]: "host_page_diverted m (Some h) \<longleftrightarrow> diverted m h"
  by (auto simp: host_page_diverted_def diverted_def code_page_for_host_False code_page_at_def
      empty_code_page_def split: option.splits if_split_asm)

lemma host_page_diverted_None [simp]: "\<not> host_page_diverted m None"
  by (simp add: host_page_diverted_def split: option.splits)

lemma code_page_loc_cong: "backing_size m = backing_size m' \<Longrightarrow> code_page_loc m = code_page_loc m'"
  by (intro ext) (simp add: code_page_loc_def backing_slot_def cong: option.case_cong hbuf.case_cong)

lemma diverted_cong:
  "backing_size m = backing_size m' \<Longrightarrow> code_page_at m = code_page_at m' \<Longrightarrow> diverted m = diverted m'"
  by (intro ext) (simp add: diverted_def code_page_loc_cong [of m m'])

lemma host_page_diverted_cong:
  assumes "backing_size m = backing_size m'" "code_page_at m = code_page_at m'"
  shows "host_page_diverted m = host_page_diverted m'"
proof
  fix h show "host_page_diverted m h = host_page_diverted m' h"
    using diverted_cong [OF assms] by (cases h) simp_all
qed

lemma code_page_at_cong: "code_state m = code_state m' \<Longrightarrow> code_page_at m = code_page_at m'"
  by (intro ext) (simp add: code_page_at_def)

section \<open>The invariant\<close>

definition store_safe :: "xmem \<Rightarrow> bool" where
  "store_safe m \<longleftrightarrow> (\<forall>i < MEM_PAGE_TABLE_SIZE. write_page_table m i = None \<or>
     (write_page_table m i = page_table m i \<and> \<not> host_page_diverted m (page_table m i)))"

lemma page_of_less: "page_of a < MEM_PAGE_TABLE_SIZE"
proof -
  have "unat a div 4096 < 1048576" using unsigned_less [of a, where ?'a = nat] by auto
  then show ?thesis by (simp add: MEM_PAGE_TABLE_SIZE_def word_less_nat_alt unat_page_of)
qed

lemma store_safeD:
  "store_safe m \<Longrightarrow> write_page_table m (page_of a) = Some h \<Longrightarrow>
     page_table m (page_of a) = Some h \<and> \<not> diverted m h"
  unfolding store_safe_def using page_of_less [of a] host_page_diverted_iff by fastforce

lemma store_safe_cong:
  assumes "page_table m = page_table m'" "write_page_table m = write_page_table m'"
    "backing_size m = backing_size m'" "code_page_at m = code_page_at m'"
  shows "store_safe m = store_safe m'"
  using assms host_page_diverted_cong [of m m'] by (simp add: store_safe_def)

lemma page_set_frame [frame]:
  "backing_size (mem_page_set m i h) = backing_size m"
  "code_state (mem_page_set m i h) = code_state m"
  "hbytes (mem_page_set m i h) = hbytes m"
  by (simp_all add: mem_page_set_def)

lemma diverted_page_set [frame]: "host_page_diverted (mem_page_set m i h) = host_page_diverted m"
  by (rule host_page_diverted_cong) (simp add: frame, intro code_page_at_cong, simp add: frame)

text \<open>One entry of the table.\<close>

definition entry_safe :: "xmem \<Rightarrow> u32 \<Rightarrow> bool" where
  "entry_safe m i \<longleftrightarrow> write_page_table m i = None \<or>
     (write_page_table m i = page_table m i \<and> \<not> host_page_diverted m (page_table m i))"

lemma store_safe_entries: "store_safe m \<longleftrightarrow> (\<forall>i < MEM_PAGE_TABLE_SIZE. entry_safe m i)"
  by (simp add: store_safe_def entry_safe_def)

lemma page_set_entry: "entry_safe m j \<Longrightarrow> entry_safe (mem_page_set m i h) j"
  unfolding entry_safe_def diverted_page_set by (cases "j = i") (simp_all add: mem_page_set_def)

lemma page_set_safe: "store_safe m \<Longrightarrow> store_safe (mem_page_set m i h)"
  unfolding store_safe_entries using page_set_entry by blast

lemma fold_page_set_safe:
  "store_safe m \<Longrightarrow> store_safe (fold (\<lambda>k m. mem_page_set m (f k) (g k)) ks m)"
  by (induction ks arbitrary: m) (simp_all add: page_set_safe)

lemma map_safe:
  "store_safe m \<Longrightarrow> store_safe (page_table_map m base e host)"
  "store_safe m \<Longrightarrow> store_safe (snd (mem_map_backing_range m vaddr b off sz))"
  "store_safe m \<Longrightarrow> store_safe (snd (mem_unmap_range m vaddr sz))"
  by (simp_all add: page_table_map_def mem_map_backing_range_def mem_unmap_range_def
      fold_page_set_safe split: option.split)

lemma divert_scan_safe:
  assumes "\<forall>i < MEM_PAGE_TABLE_SIZE. write_page_table m i = None \<or> write_page_table m i = page_table m i"
  shows "store_safe (code_divert_scan m)"
proof -
  have "host_page_diverted (code_divert_scan m) = host_page_diverted m"
    by (rule host_page_diverted_cong) (simp add: code_divert_scan_def, intro code_page_at_cong, simp add: code_divert_scan_def)
  then have "entry_safe (code_divert_scan m) i" if "i < MEM_PAGE_TABLE_SIZE" for i
    using assms that unfolding entry_safe_def
    by (cases "host_page_diverted m (write_page_table m i)") (auto simp: code_divert_scan_def)
  then show ?thesis by (simp add: store_safe_entries)
qed

section \<open>Marking code\<close>

lemma page_for_host_create:
  assumes "code_page_for_host m h True = (r, m1)"
  shows "r = code_page_loc m h" "code_page_at m1 = code_page_at m" "backing_size m1 = backing_size m"
    "page_table m1 = page_table m" "write_page_table m1 = write_page_table m" "hbytes m1 = hbytes m"
    "r = Some l \<Longrightarrow> code_page_at (code_page_put m1 l pg) = (code_page_at m)(l := pg)"
  using assms
  by (auto simp: code_page_for_host_def Let_def code_page_at_def code_page_put_def empty_code_state_def
      fun_eq_iff split: option.splits if_split_asm)

lemma page_put_frame [frame]:
  "backing_size (code_page_put m l pg) = backing_size m"
  "page_table (code_page_put m l pg) = page_table m"
  "write_page_table (code_page_put m l pg) = write_page_table m"
  "hbytes (code_page_put m l pg) = hbytes m"
  by (simp_all add: code_page_put_def split: option.split)

text \<open>One page of the loop of \<open>mem_code_protect\<close>, on the bookkeeping alone.\<close>

definition mark_page :: "nat \<Rightarrow> nat \<Rightarrow> nat \<Rightarrow> nat \<Rightarrow> code_page \<Rightarrow> code_page" where
  "mark_page k a hi pb pg =
     pg\<lparr>cp_exec_page := (if of_nat pb \<notin> set (cp_exec_page pg) \<and> length (cp_exec_page pg) < CODE_EXEC_ALIASES
                         then cp_exec_page pg @ [of_nat pb] else cp_exec_page pg),
        cp_chunks := (cp_chunks pg)(k := mark_chunks (cp_chunks pg k) ((a - pb) div 32) ((hi - 1 - pb) div 32)),
        cp_diverted := True\<rparr>"

definition page_loc :: "xmem \<Rightarrow> u32 \<Rightarrow> (flexe_mem_backing \<times> nat) option" where
  "page_loc m p = (case page_table m p of None \<Rightarrow> None | Some h \<Rightarrow> code_page_loc m h)"

lemma protect_page_cases:
  assumes "code_protect_page m k a hi pb scan = (m', s')"
  obtains (skip) "page_loc m (page_of (of_nat a)) = None" "code_page_at m' = code_page_at m" "s' = scan"
  | (mark) l where "page_loc m (page_of (of_nat a)) = Some l"
      "code_page_at m' = (code_page_at m)(l := mark_page k a hi pb (code_page_at m l))"
      "s' = (scan \<or> \<not> cp_diverted (code_page_at m l))"
proof (cases "page_table m (page_of (of_nat a))")
  case None
  then show ?thesis using assms that(1) by (simp add: code_protect_page_def page_loc_def)
next
  case (Some h)
  obtain r m1 where r: "code_page_for_host m h True = (r, m1)" by fastforce
  note c = page_for_host_create [OF r]
  show ?thesis
  proof (cases r)
    case None
    then show ?thesis using assms Some r c(1,2) that(1) by (simp add: code_protect_page_def page_loc_def)
  next
    case r': (Some l)
    have ex: "list_ex (\<lambda>x. x = y) xs = (y \<in> set xs)" for xs :: "u32 list" and y
      by (auto simp: list_ex_iff)
    have "m' = code_page_put m1 l (mark_page k a hi pb (code_page_at m l))"
      "s' = (scan \<or> \<not> cp_diverted (code_page_at m l))"
      using assms Some r r' c(2) by (auto simp: code_protect_page_def mark_page_def Let_def ex)
    then show ?thesis using that(2) Some r' c(1) c(7) [of l] by (simp add: page_loc_def)
  qed
qed

lemma protect_page_frame:
  assumes "code_protect_page m k a hi pb scan = (m', s')"
  shows "backing_size m' = backing_size m" "page_table m' = page_table m"
    "write_page_table m' = write_page_table m" "scan \<Longrightarrow> s'"
    "\<not> s' \<Longrightarrow> diverted m' = diverted m"
proof -
  show f: "backing_size m' = backing_size m" "page_table m' = page_table m"
    "write_page_table m' = write_page_table m"
    using assms page_for_host_create
    by (auto simp: code_protect_page_def Let_def frame split: option.splits prod.splits)
  show "scan \<Longrightarrow> s'" using assms by (cases rule: protect_page_cases) auto
  show "diverted m' = diverted m" if "\<not> s'"
    using assms
  proof (cases rule: protect_page_cases)
    case skip
    then show ?thesis using f diverted_cong by blast
  next
    case (mark l)
    then have "cp_diverted (code_page_at m l)" using that by simp
    then show ?thesis
      unfolding diverted_def [abs_def] code_page_loc_cong [OF f(1)] mark(2)
      by (intro ext) (auto simp: mark_page_def)
  qed
qed

text \<open>The loop folds this step over the pages of the range.\<close>

lemma protect_loop_Nil: "e \<le> a \<Longrightarrow> code_protect_loop m k a e scan = (m, scan)"
  by (simp add: code_protect_loop_def page_segments.simps)

lemma protect_loop_step:
  assumes "a < e" "code_protect_page m k a (min e (a - a mod PAGE_SIZE + PAGE_SIZE)) (a - a mod PAGE_SIZE) scan = (m1, s1)"
  shows "code_protect_loop m k a e scan = code_protect_loop m1 k (a - a mod PAGE_SIZE + PAGE_SIZE) e s1"
  using assms by (simp add: code_protect_loop_def page_segments.simps [of a e] Let_def)

lemma protect_fold_frame:
  assumes "fold (\<lambda>(a, hi, pb) (m, s). code_protect_page m k a hi pb s) xs (m, scan) = (m', s')"
  shows "backing_size m' = backing_size m \<and> page_table m' = page_table m \<and>
     write_page_table m' = write_page_table m \<and> (scan \<longrightarrow> s') \<and> (\<not> s' \<longrightarrow> diverted m' = diverted m)"
  using assms
proof (induction xs arbitrary: m scan)
  case (Cons x xs)
  obtain a hi pb where x: "x = (a, hi, pb)" by (cases x)
  obtain m1 s1 where p: "code_protect_page m k a hi pb scan = (m1, s1)" by fastforce
  have "fold (\<lambda>(a, hi, pb) (m, s). code_protect_page m k a hi pb s) xs (m1, s1) = (m', s')"
    using Cons.prems by (simp add: x p)
  from Cons.IH [OF this] show ?case using protect_page_frame [OF p] by metis
qed simp

lemma protect_safe:
  assumes "store_safe m"
  shows "store_safe (mem_code_protect m a n k)"
proof (cases "n = 0")
  case False
  obtain m1 s1 where l: "code_protect_loop m (code_kind_index k) (unat a) (unat a + unat n) False = (m1, s1)"
    by fastforce
  note f = protect_fold_frame [OF l [unfolded code_protect_loop_def]]
  have eq: "mem_code_protect m a n k = (if s1 then code_divert_scan m1 else m1)"
    using False l by (simp add: mem_code_protect_def)
  show ?thesis
  proof (cases s1)
    case True
    then show ?thesis
      using assms f divert_scan_safe [of m1] unfolding eq by (auto simp: store_safe_def [of m])
  next
    case s1: False
    have "host_page_diverted m1 h = host_page_diverted m h" for h using f s1 by (cases h) simp_all
    then show ?thesis using assms f s1 unfolding eq by (simp add: store_safe_def)
  qed
qed (simp add: mem_code_protect_def assms)

lemma clear_diverted: "host_page_diverted (mem_code_clear m k) = host_page_diverted m"
proof
  fix h
  have b: "backing_size (mem_code_clear m k) = backing_size m"
    by (simp add: mem_code_clear_def split: option.split)
  have "cp_diverted (code_page_at (mem_code_clear m k) l) = cp_diverted (code_page_at m l)" for l
    by (simp add: mem_code_clear_def code_page_at_def split: option.split)
  then show "host_page_diverted (mem_code_clear m k) h = host_page_diverted m h"
    using code_page_loc_cong [OF b] by (cases h) (simp_all add: diverted_def)
qed

lemma clear_safe: "store_safe m \<Longrightarrow> store_safe (mem_code_clear m k)"
  unfolding store_safe_def clear_diverted by (simp add: mem_code_clear_def split: option.split)

lemma watch_page_at:
  "code_page_at (snd (mem_code_watch_add m w)) = code_page_at m"
  "code_page_at (mem_code_watch_remove m w) = code_page_at m"
  by (simp_all add: mem_code_watch_add_def mem_code_watch_remove_def code_page_at_def fun_eq_iff Let_def
      empty_code_state_def split: option.split)

lemma watch_safe:
  "store_safe m \<Longrightarrow> store_safe (snd (mem_code_watch_add m w))"
  "store_safe m \<Longrightarrow> store_safe (mem_code_watch_remove m w)"
  using store_safe_cong [of m "snd (mem_code_watch_add m w)"] store_safe_cong [of m "mem_code_watch_remove m w"]
    watch_page_at [of m w]
  by (simp_all add: mem_code_watch_add_def mem_code_watch_remove_def Let_def split: option.split)

section \<open>The invariant from creation on\<close>

text \<open>The operations other components may apply to a memory.\<close>

datatype map_op =
    Op_Page_Set u32 "hptr option"
  | Op_Map u32 flexe_mem_backing u32 u32
  | Op_Unmap u32 u32
  | Op_Protect u32 u32 mem_code_kind
  | Op_Clear mem_code_kind
  | Op_Watch_Add code_watcher
  | Op_Watch_Remove code_watcher

fun map_run :: "map_op \<Rightarrow> xmem \<Rightarrow> xmem" where
  "map_run (Op_Page_Set i h) m = mem_page_set m i h"
| "map_run (Op_Map v b off sz) m = snd (mem_map_backing_range m v b off sz)"
| "map_run (Op_Unmap v sz) m = snd (mem_unmap_range m v sz)"
| "map_run (Op_Protect a n k) m = mem_code_protect m a n k"
| "map_run (Op_Clear k) m = mem_code_clear m k"
| "map_run (Op_Watch_Add w) m = snd (mem_code_watch_add m w)"
| "map_run (Op_Watch_Remove w) m = mem_code_watch_remove m w"

lemma map_run_safe: "store_safe m \<Longrightarrow> store_safe (map_run op m)"
  by (cases op) (simp_all add: page_set_safe map_safe protect_safe clear_safe watch_safe)

lemma page_table_init_safe: "store_safe m \<Longrightarrow> page_table_init m rs = Some m' \<Longrightarrow> store_safe m'"
  by (induction m rs rule: page_table_init.induct) (auto simp: map_safe split: option.splits if_split_asm)

definition maps_of where
  "maps_of m = (page_table m, write_page_table m, backing_size m, code_state m)"

lemma maps_of_safe: "maps_of m' = maps_of m \<Longrightarrow> store_safe m \<Longrightarrow> store_safe m'"
  using store_safe_cong [of m m'] code_page_at_cong [of m m'] by (simp add: maps_of_def)

lemma boot_write_maps [frame]:
  "maps_of (boot_write8 m a v8) = maps_of m" "maps_of (boot_write32 m a v32) = maps_of m"
  by (simp_all add: maps_of_def boot_write8_def boot_write32_def host_write_def split: option.split)

lemma fold_boot_write_maps: "maps_of (fold (\<lambda>ch m. boot_write8 m (f ch) (g ch)) xs m) = maps_of m"
  by (induction xs arbitrary: m) (simp_all add: frame)

lemma init_builtin_maps [frame]: "maps_of (init_builtin_rom_data m) = maps_of m"
  unfolding init_builtin_rom_data_def Let_def fold_boot_write_maps by (simp add: frame)

lemma usable_size_maps [frame]: "maps_of (m\<lparr>flash_usable_size := u\<rparr>) = maps_of m"
  by (simp add: maps_of_def)

lemma prepare_rom_maps [frame]: "maps_of (snd (mem_prepare_rom_flash m live usable)) = maps_of m"
  unfolding mem_prepare_rom_flash_def Let_def
  by (simp add: if_distrib [of snd] if_distrib [of maps_of] frame)

lemma if_SomeD: "(if b then None else y) = Some z \<Longrightarrow> y = Some z"
  by (simp split: if_split_asm)

lemma case_SomeD: "(case x of None \<Rightarrow> None | Some y \<Rightarrow> f y) = Some z \<Longrightarrow> \<exists>y. x = Some y \<and> f y = Some z"
  by (simp split: option.split_asm)

text \<open>What creation does after the page tables are filled changes no mapping.\<close>

lemma create_tail:
  assumes "(if Q then (case mem_prepare_rom_flash (m2\<lparr>flash_usable_size := u\<rparr>) live w of
                         (r, m4) \<Rightarrow> if r \<noteq> 0 then None else Some m4)
            else Some (m2\<lparr>flash_usable_size := u\<rparr>)) = Some m"
    and "m2 = (if P then init_builtin_rom_data m1 else m1)"
  shows "maps_of m = maps_of m1"
proof -
  have m2: "maps_of m2 = maps_of m1" using assms(2) by (simp add: frame)
  show ?thesis
  proof (cases Q)
    case True
    then have "m = snd (mem_prepare_rom_flash (m2\<lparr>flash_usable_size := u\<rparr>) live w)"
      using assms(1) by (simp split: prod.split_asm if_split_asm)
    then show ?thesis using m2 by (simp only: frame)
  next
    case False
    then have "m = m2\<lparr>flash_usable_size := u\<rparr>" using assms(1) by simp
    then show ?thesis using m2 by (simp only: frame)
  qed
qed

lemma create_safe:
  assumes "mem_create_for_target_with_flash t n = Some m"
  shows "store_safe m"
proof -
  obtain m0 m1 where m0: "write_page_table m0 = (\<lambda>_. None)" "page_table_init m0 (t_memory_region t) = Some m1"
    and m: "maps_of m = maps_of m1"
  proof -
    obtain m1 where m1:
      "page_table_init \<lparr>m_target = t,
         backing_size = (\<lambda>b. if b \<in> {FLEXE_MEM_FLASH_DATA, FLEXE_MEM_FLASH_INSN}
            then (if max (t_backing_size t FLEXE_MEM_FLASH_DATA) (t_backing_size t FLEXE_MEM_FLASH_INSN) < n
                  then n else max (t_backing_size t FLEXE_MEM_FLASH_DATA) (t_backing_size t FLEXE_MEM_FLASH_INSN))
            else t_backing_size t b),
         hbytes = (\<lambda>b _. if b \<in> Backing ` {FLEXE_MEM_FLASH_DATA, FLEXE_MEM_FLASH_INSN} then 0xFF else 0),
         flash_usable_size = 0, mmio = (\<lambda>_. no_handler),
         mmio_page_count = unat (t_peripheral_end t - t_peripheral_start t) div PAGE_SIZE,
         unmapped_count = 0, unmapped_first = 0, code_state = None,
         page_table = (\<lambda>_. None), write_page_table = (\<lambda>_. None),
         journal_en = False, journal_unsafe = False, journal = []\<rparr> (t_memory_region t) = Some m1"
      "maps_of m = maps_of m1"
      using assms [unfolded mem_create_for_target_with_flash_def Let_def,
          THEN if_SomeD, THEN if_SomeD, THEN case_SomeD] create_tail [OF _ refl] by blast
    show ?thesis by (rule that [OF _ m1]) simp
  qed
  have "store_safe m0" using m0(1) by (simp add: store_safe_def)
  then have "store_safe m1" using m0(2) by (rule page_table_init_safe)
  with m show ?thesis by (rule maps_of_safe)
qed

text \<open>C11. From creation on, whatever mappings are installed or removed, code marked or cleared and
  watchers added or removed: a store-table entry is a load-table entry of a page that holds no
  translated code, so a store to a page with translated code is never taken by the fast path.\<close>

theorem store_table_invariant:
  assumes "mem_create_for_target_with_flash t n = Some m0" "m = fold map_run ops m0"
  shows "(\<forall>p. mem_get_ptr_store m a = Some p \<longrightarrow> mem_get_ptr m a = Some p) \<and>
     (host_page_diverted m (page_table m (page_of a)) \<longrightarrow> mem_get_ptr_store m a = None)"
proof -
  have "store_safe (fold map_run ops m)" if "store_safe m" for m
    using that by (induction ops arbitrary: m) (simp_all add: map_run_safe)
  then have "store_safe m" using create_safe [OF assms(1)] assms(2) by simp
  then have "entry_safe m (page_of a)" using page_of_less by (simp add: store_safe_entries)
  then show ?thesis
    unfolding entry_safe_def by (elim disjE) (simp_all add: mem_get_ptr_store_def mem_get_ptr_def)
qed

section \<open>Witnesses\<close>

text \<open>A target with one page of SRAM that is both data and code.\<close>

definition tiny_target :: flexe_target_desc where
  "tiny_target = esp32_target\<lparr>t_id := FLEXE_TARGET_ESP32S3, t_rom_flash_handoff := False,
     t_memory_region := [mk_region 0x40080000 0x40081000 FLEXE_MEM_SRAM 0]\<rparr>"

lemma tiny_created: "mem_create_for_target_with_flash tiny_target 0 \<noteq> None"
  by (simp add: mem_create_for_target_with_flash_def tiny_target_def esp32_target_def mk_region_def
      rom_flash_desc_valid_def is_power_of_two_def FLEXE_TARGET_MEM_REGION_MAX_def backing_slot_def Let_def)

theorem store_table_invariant_witness:
  "\<exists>m0. mem_create_for_target_with_flash tiny_target 0 = Some m0 \<and>
     (let m = map_run (Op_Protect 0x40080010 3 MEM_CODE_JIT) m0
      in host_page_diverted m (page_table m (page_of 0x40080020)) \<longrightarrow> mem_get_ptr_store m 0x40080020 = None)"
proof -
  obtain m0 where m0: "mem_create_for_target_with_flash tiny_target 0 = Some m0"
    using tiny_created by blast
  show ?thesis
    using store_table_invariant [OF m0 refl, where ops = "[Op_Protect 0x40080010 3 MEM_CODE_JIT]"
        and a = "0x40080020"] m0
    by (simp add: Let_def)
qed

end
