(* ===== verification/Ram.thy ===== *)
theory Ram
  imports Page_Arith Sample_States
begin

text \<open>
  Guest RAM as its clients see it. The locale \<open>ram\<close> is the contract of one access width: a load
  returns the bytes under the address in little-endian order and changes nothing, a store changes
  exactly those bytes and moves no page. Its lemmas (store then load through the same address or
  an alias, disjoint stores, overwriting and commuting stores) are proved once and hold for the
  8-, 16- and 32-bit accessors of src/src/memory.h through the three interpretations. The second
  half shows that rolling the write journal back undoes any run of stores inside their pages.
\<close>

section \<open>Little-endian packing\<close>

lemma to_bytes_Suc: "to_bytes (Suc n) w = ucast w # to_bytes n (drop_bit 8 w)"
  unfolding to_bytes_def map_upt_Suc by (simp add: drop_bit_drop_bit add.commute comp_def)

lemma length_to_bytes [simp]: "length (to_bytes n w) = n"
  by (simp add: to_bytes_def)

lemma of_bytes_to_bytes: "of_bytes (to_bytes n w) = take_bit (8 * n) (w :: 'a::len word)"
proof (induction n arbitrary: w)
  case 0
  show ?case by (simp add: to_bytes_def)
next
  case (Suc n)
  have "(ucast (ucast w :: u8) :: 'a word) OR push_bit 8 (take_bit (8 * n) (drop_bit 8 w))
        = take_bit (8 * Suc n) w"
    by (rule bit_word_eqI) (auto simp: bit_simps not_less dest: bit_imp_le_length)
  then show ?case by (simp add: to_bytes_Suc Suc.IH)
qed

lemma to_bytes_of_bytes:
  "8 * length bs \<le> LENGTH('a) \<Longrightarrow> to_bytes (length bs) (of_bytes bs :: 'a::len word) = bs"
proof (induction bs)
  case Nil
  show ?case by (simp add: to_bytes_def)
next
  case (Cons b bs)
  have "(ucast (ucast b OR push_bit 8 (of_bytes bs) :: 'a word) :: u8) = b"
    using Cons.prems by (intro bit_word_eqI) (auto simp: bit_simps)
  moreover have "drop_bit 8 (ucast b OR push_bit 8 (of_bytes bs) :: 'a word) = take_bit (LENGTH('a) - 8) (of_bytes bs)"
    by (rule bit_word_eqI) (auto simp: bit_simps dest: bit_imp_le_length)
  moreover have "take_bit (LENGTH('a) - 8) (of_bytes bs) = (of_bytes bs :: 'a word)"
  proof -
    have "i < LENGTH('a) - 8" if "bit (of_bytes bs :: 'a word) i" for i
      using bit_word_less [OF that of_bytes_bound] Cons.prems by simp
    then show ?thesis by (intro bit_word_eqI) (auto simp: bit_simps)
  qed
  ultimately show ?case using Cons by (simp add: to_bytes_Suc)
qed

section \<open>The contract of one access width\<close>

text \<open>The bytes an access of \<open>n\<close> bytes at a host pointer covers, and two accesses apart.\<close>

definition covers :: "hptr \<Rightarrow> nat \<Rightarrow> hbuf \<Rightarrow> nat \<Rightarrow> bool" where
  "covers p n h i \<longleftrightarrow> h = fst p \<and> snd p \<le> i \<and> i < snd p + n"

definition apart :: "hptr \<Rightarrow> hptr \<Rightarrow> nat \<Rightarrow> bool" where
  "apart p q n \<longleftrightarrow> fst p \<noteq> fst q \<or> snd p + n \<le> snd q \<or> snd q + n \<le> snd p"

locale ram =
  fixes at :: "'s \<Rightarrow> u32 \<Rightarrow> hptr option"
    and byte_at :: "'s \<Rightarrow> hbuf \<Rightarrow> nat \<Rightarrow> u8"
    and get :: "'s \<Rightarrow> u32 \<Rightarrow> 'w::len word \<times> 's"
    and put :: "'s \<Rightarrow> u32 \<Rightarrow> 'w word \<Rightarrow> 's"
    and n :: nat
  assumes width: "LENGTH('w) = 8 * n"
    and get_spec: "at s a = Some p \<Longrightarrow>
          get s a = (of_bytes (map (\<lambda>i. byte_at s (fst p) (snd p + i)) [0 ..< n]), s)"
    and at_put: "at s a = Some p \<Longrightarrow> at (put s a v) = at s"
    and byte_put: "at s a = Some p \<Longrightarrow> byte_at (put s a v) h i =
          (if covers p n h i then to_bytes n v ! (i - snd p) else byte_at s h i)"
begin

lemma get_put_alias:
  assumes "at s a = Some p" "at s b = Some p"
  shows "get (put s a v) b = (v, put s a v)"
proof -
  have "map (\<lambda>i. byte_at (put s a v) (fst p) (snd p + i)) [0 ..< n] = to_bytes n v"
    using assms by (intro nth_equalityI) (auto simp: byte_put covers_def)
  then show ?thesis
    using assms width by (simp add: get_spec at_put of_bytes_to_bytes take_bit_word_eq_self)
qed

lemma get_put_apart:
  assumes "at s a = Some p" "at s b = Some q" "apart p q n"
  shows "fst (get (put s a v) b) = fst (get s b)"
proof -
  have "byte_at (put s a v) (fst q) (snd q + i) = byte_at s (fst q) (snd q + i)" if "i < n" for i
    using assms that by (auto simp: byte_put covers_def apart_def)
  then have "map (\<lambda>i. byte_at (put s a v) (fst q) (snd q + i)) [0 ..< n]
      = map (\<lambda>i. byte_at s (fst q) (snd q + i)) [0 ..< n]"
    by (intro map_cong) auto
  then show ?thesis using assms by (simp only: get_spec at_put fst_conv)
qed

lemma put_get_id:
  assumes "at s a = Some p"
  shows "byte_at (put s a (fst (get s a))) = byte_at s"
proof (intro ext)
  fix h i
  let ?bs = "map (\<lambda>i. byte_at s (fst p) (snd p + i)) [0 ..< n]"
  have "to_bytes n (of_bytes ?bs :: 'w word) = ?bs"
    using to_bytes_of_bytes [of ?bs, where ?'a = 'w] width by simp
  then show "byte_at (put s a (fst (get s a))) h i = byte_at s h i"
    using assms by (auto simp: byte_put get_spec covers_def)
qed

lemma put_put_same:
  assumes "at s a = Some p" "at s b = Some p"
  shows "byte_at (put (put s a v) b w) = byte_at (put s b w)"
  using assms by (intro ext) (simp add: byte_put at_put)

lemma put_put_apart:
  assumes "at s a = Some p" "at s b = Some q" "apart p q n"
  shows "byte_at (put (put s a v) b w) = byte_at (put (put s b w) a v)"
  using assms by (intro ext) (auto simp: byte_put at_put covers_def apart_def)

end

section \<open>The bus accessors provide it\<close>

text \<open>A plain RAM access: one page, mapped for loads and stores alike, inside its host buffer,
  and no journal running.\<close>

definition ram_at :: "nat \<Rightarrow> 'd cpu \<Rightarrow> u32 \<Rightarrow> hptr option" where
  "ram_at n c a =
     (case page_table (mem c) (page_of a) of
        None \<Rightarrow> None
      | Some base \<Rightarrow>
          let p = hptr_add base (page_off a) in
          if write_page_table (mem c) (page_of a) = Some base \<and> page_off a + n \<le> PAGE_SIZE \<and>
             host_in (mem c) p n \<and> \<not> journal_en (mem c)
          then Some p else None)"

definition ram_byte :: "'d cpu \<Rightarrow> hbuf \<Rightarrow> nat \<Rightarrow> u8" where
  "ram_byte c = hbytes (mem c)"

lemma ram_atD:
  assumes "ram_at n c a = Some p"
  obtains base where "page_table (mem c) (page_of a) = Some base"
    "write_page_table (mem c) (page_of a) = Some base" "p = hptr_add base (page_off a)"
    "host_in (mem c) p n" "\<not> journal_en (mem c)"
  using assms by (auto simp: ram_at_def Let_def split: option.splits if_split_asm)

lemma host_put_plain:
  "host_in (mem c) p (length bs) \<Longrightarrow> host_put c p bs = c\<lparr>mem := host_write (mem c) p bs\<rparr>"
  by (simp add: host_put_def host_touch_def)

lemma host_write_frame [frame]:
  "page_table (host_write m p bs) = page_table m"
  "write_page_table (host_write m p bs) = write_page_table m"
  "journal_en (host_write m p bs) = journal_en m"
  "journal_unsafe (host_write m p bs) = journal_unsafe m"
  "journal (host_write m p bs) = journal m"
  "hsize (host_write m p bs) = hsize m"
  by (simp_all add: host_write_def hsize_def fun_eq_iff split: hbuf.splits)

lemma host_in_host_write [frame]: "host_in (host_write m p bs) q n = host_in m q n"
  by (simp add: host_in_def frame)

lemma mem_host_put: "mem (host_put c p bs) = host_write (mem c) p bs"
  by (simp add: host_put_def host_touch_def Let_def)

lemma ram_at_host_write: "ram_at n (c\<lparr>mem := host_write (mem c) p bs\<rparr>) = ram_at n c"
  by (intro ext) (simp add: ram_at_def Let_def frame split: option.splits)

lemma ram_byte_host_write:
  "ram_byte (c\<lparr>mem := host_write (mem c) p bs\<rparr>) h i =
     (if covers p (length bs) h i then bs ! (i - snd p) else ram_byte c h i)"
  by (simp add: ram_byte_def host_write_def covers_def)

lemma mem_write8_bytes:
  "write_page_table (mem c) (page_of a) = Some base \<Longrightarrow> \<not> journal_en (mem c) \<Longrightarrow>
     mem_write8 E c a v = host_put c (hptr_add base (page_off a)) (to_bytes 1 v)"
  by (simp add: mem_write_mapped to_bytes_def)

interpretation ram8: ram "ram_at 1" ram_byte "mem_read8 E" "mem_write8 E" 1
proof
  fix c :: "'a cpu" and a p v h i
  assume "ram_at 1 c a = Some p"
  then obtain base where b: "page_table (mem c) (page_of a) = Some base"
    "write_page_table (mem c) (page_of a) = Some base" "p = hptr_add base (page_off a)"
    "host_in (mem c) p 1" "\<not> journal_en (mem c)" by (rule ram_atD)
  then have w: "mem_write8 E c a v = c\<lparr>mem := host_write (mem c) p (to_bytes 1 v)\<rparr>"
    by (simp add: mem_write8_bytes host_put_plain)
  show "mem_read8 E c a = (of_bytes (map (\<lambda>i. ram_byte c (fst p) (snd p + i)) [0 ..< 1]), c)"
    using b by (simp add: mem_read_mapped host_touch_def host_read_def ram_byte_def)
  show "ram_at 1 (mem_write8 E c a v) = ram_at 1 c" unfolding w by (rule ram_at_host_write)
  show "ram_byte (mem_write8 E c a v) h i =
      (if covers p 1 h i then to_bytes 1 v ! (i - snd p) else ram_byte c h i)"
    unfolding w by (simp add: ram_byte_host_write)
qed simp

interpretation ram16: ram "ram_at 2" ram_byte "mem_read16 E" "mem_write16 E" 2
proof
  fix c :: "'a cpu" and a p v h i
  assume "ram_at 2 c a = Some p"
  then obtain base where b: "page_table (mem c) (page_of a) = Some base"
    "write_page_table (mem c) (page_of a) = Some base" "p = hptr_add base (page_off a)"
    "host_in (mem c) p 2" "\<not> journal_en (mem c)" by (rule ram_atD)
  then have w: "mem_write16 E c a v = c\<lparr>mem := host_write (mem c) p (to_bytes 2 v)\<rparr>"
    by (simp add: mem_write_mapped host_put_plain)
  show "mem_read16 E c a = (of_bytes (map (\<lambda>i. ram_byte c (fst p) (snd p + i)) [0 ..< 2]), c)"
    using b by (simp add: mem_read_mapped host_touch_def host_read_def ram_byte_def)
  show "ram_at 2 (mem_write16 E c a v) = ram_at 2 c" unfolding w by (rule ram_at_host_write)
  show "ram_byte (mem_write16 E c a v) h i =
      (if covers p 2 h i then to_bytes 2 v ! (i - snd p) else ram_byte c h i)"
    unfolding w by (simp add: ram_byte_host_write)
qed simp

interpretation ram32: ram "ram_at 4" ram_byte "mem_read32 E" "mem_write32 E" 4
proof
  fix c :: "'a cpu" and a p v h i
  assume "ram_at 4 c a = Some p"
  then obtain base where b: "page_table (mem c) (page_of a) = Some base"
    "write_page_table (mem c) (page_of a) = Some base" "p = hptr_add base (page_off a)"
    "host_in (mem c) p 4" "\<not> journal_en (mem c)" by (rule ram_atD)
  then have w: "mem_write32 E c a v = c\<lparr>mem := host_write (mem c) p (to_bytes 4 v)\<rparr>"
    by (simp add: mem_write_mapped host_put_plain)
  show "mem_read32 E c a = (of_bytes (map (\<lambda>i. ram_byte c (fst p) (snd p + i)) [0 ..< 4]), c)"
    using b by (simp add: mem_read_mapped host_touch_def host_read_def ram_byte_def)
  show "ram_at 4 (mem_write32 E c a v) = ram_at 4 c" unfolding w by (rule ram_at_host_write)
  show "ram_byte (mem_write32 E c a v) h i =
      (if covers p 4 h i then to_bytes 4 v ! (i - snd p) else ram_byte c h i)"
    unfolding w by (simp add: ram_byte_host_write)
qed simp

text \<open>The loads and stores keep their promise at every plain RAM address.\<close>

text \<open>A word stored at one address is read back through any alias of it, and loads of bytes apart
  from it are not affected; the load itself changes nothing.\<close>

theorem store_load_alias:
  assumes "ram_at 4 c a = Some p" "ram_at 4 c b = Some q"
  shows "(p = q \<longrightarrow> mem_read32 E (mem_write32 E c a v) b = (v, mem_write32 E c a v)) \<and>
         (apart p q 4 \<longrightarrow> fst (mem_read32 E (mem_write32 E c a v) b) = fst (mem_read32 E c b))"
  using assms by (simp add: ram32.get_put_alias ram32.get_put_apart)

section \<open>The write journal\<close>

datatype store_op = St8 u32 u8 | St16 u32 u16 | St32 u32 u32

fun do_store :: "'d host \<Rightarrow> store_op \<Rightarrow> 'd cpu \<Rightarrow> 'd cpu" where
  "do_store E (St8 a v) c = mem_write8 E c a v"
| "do_store E (St16 a v) c = mem_write16 E c a v"
| "do_store E (St32 a v) c = mem_write32 E c a v"

fun store_addr :: "store_op \<Rightarrow> u32" where
  "store_addr (St8 a v) = a" | "store_addr (St16 a v) = a" | "store_addr (St32 a v) = a"

fun store_bytes :: "store_op \<Rightarrow> u8 list" where
  "store_bytes (St8 a v) = [v]"
| "store_bytes (St16 a v) = to_bytes 2 v"
| "store_bytes (St32 a v) = to_bytes 4 v"

lemma store_bytes_len: "0 < length (store_bytes s)" "length (store_bytes s) \<le> 4"
  by (cases s; simp)+

text \<open>A store to plain RAM, inside one page and inside its buffer.\<close>

definition plain_store :: "xmem \<Rightarrow> store_op \<Rightarrow> bool" where
  "plain_store m s \<longleftrightarrow>
     (case page_table m (page_of (store_addr s)) of
        None \<Rightarrow> False
      | Some base \<Rightarrow> write_page_table m (page_of (store_addr s)) = Some base \<and>
          page_off (store_addr s) + length (store_bytes s) \<le> PAGE_SIZE \<and>
          host_in m (hptr_add base (page_off (store_addr s))) (length (store_bytes s)))"

lemma mem_journal_word_frame [frame]:
  "page_table (mem_journal_word m a) = page_table m"
  "write_page_table (mem_journal_word m a) = write_page_table m"
  "hbytes (mem_journal_word m a) = hbytes m"
  "hsize (mem_journal_word m a) = hsize m"
  by (simp_all add: mem_journal_word_def Let_def hsize_def fun_eq_iff split: option.splits hbuf.splits)

lemma mem_journal_note_frame [frame]:
  "page_table (mem_journal_note m a n) = page_table m"
  "write_page_table (mem_journal_note m a n) = write_page_table m"
  "hbytes (mem_journal_note m a n) = hbytes m"
  "hsize (mem_journal_note m a n) = hsize m"
  by (simp_all add: mem_journal_note_def Let_def frame)

lemma journal_store_frame [frame]:
  "page_table (mem (journal_store c a n)) = page_table (mem c)"
  "write_page_table (mem (journal_store c a n)) = write_page_table (mem c)"
  "hbytes (mem (journal_store c a n)) = hbytes (mem c)"
  "hsize (mem (journal_store c a n)) = hsize (mem c)"
  by (simp_all add: journal_store_def frame)

lemma do_store_host_put:
  assumes "plain_store (mem c) s" "page_table (mem c) (page_of (store_addr s)) = Some base"
  shows "do_store E s c =
     (let c1 = journal_store c (store_addr s) (of_nat (length (store_bytes s)))
      in host_put c1 (hptr_add base (page_off (store_addr s))) (store_bytes s))"
  using assms
  by (cases s)
     (simp_all add: plain_store_def mem_write8_def mem_write16_def mem_write32_def Let_def
        mem_get_ptr_store_def frame)

text \<open>Undoing a journal on the bytes alone.\<close>

definition undo_bytes :: "(u32 \<Rightarrow> hptr option) \<Rightarrow> u32 \<times> u32 \<Rightarrow> (hbuf \<Rightarrow> nat \<Rightarrow> u8) \<Rightarrow> (hbuf \<Rightarrow> nat \<Rightarrow> u8)" where
  "undo_bytes pt e f =
     (case pt (page_of (fst e)) of
        None \<Rightarrow> f
      | Some base \<Rightarrow> (\<lambda>h i. if covers (hptr_add base (page_off (fst e))) 4 h i
                            then to_bytes 4 (snd e) ! (i - snd (hptr_add base (page_off (fst e)))) else f h i))"

lemma journal_undo_bytes:
  "journal_undo e m = m\<lparr>hbytes := undo_bytes (page_table m) e (hbytes m)\<rparr>"
  by (auto simp: journal_undo_def undo_bytes_def host_write_def covers_def fun_eq_iff
      split: option.splits)

lemma foldr_journal_undo:
  "foldr journal_undo es m = m\<lparr>hbytes := foldr (undo_bytes (page_table m)) es (hbytes m)\<rparr>"
  by (induction es) (simp_all add: journal_undo_bytes)

text \<open>The word an address lies in.\<close>

lemma unat_word_base: "unat (a AND NOT 3 :: u32) = unat a - unat a mod 4"
proof -
  have "a = (a AND NOT (mask 2)) + (a AND mask 2)"
    by (subst disjunctive_add) (auto simp: bit_simps intro!: bit_word_eqI)
  moreover have m: "unat (a AND mask 2) = unat a mod 4" using and_mask_mod [of a 2] by simp
  ultimately have "a AND NOT (mask 2) = a - (a AND mask 2)" by (simp add: eq_diff_eq)
  then have "unat (a AND NOT (mask 2)) = unat a - unat (a AND mask 2)"
    using m by (simp add: unat_sub word_le_nat_alt)
  then show ?thesis unfolding m by (simp add: mask_eq_exp_minus_1)
qed

text \<open>At most four bytes lie in the words of the first and of the last of them.\<close>

lemma two_words:
  fixes b k i n :: nat
  assumes "0 < n" "n \<le> 4" "b + k \<le> i" "i < b + k + n"
  shows "b + (k - k mod 4) \<le> i \<and> i < b + (k - k mod 4) + 4 \<or>
         b + (k + (n - 1) - (k + (n - 1)) mod 4) \<le> i \<and> i < b + (k + (n - 1) - (k + (n - 1)) mod 4) + 4"
proof -
  have base: "x - x mod 4 = 4 * (x div 4)" for x :: nat by (rule minus_mod_eq_mult_div)
  define q where "q = k div 4"
  define r where "r = k mod 4"
  define q' where "q' = (k + (n - 1)) div 4"
  define r' where "r' = (k + (n - 1)) mod 4"
  have "k = 4 * q + r" "r < 4" "k + (n - 1) = 4 * q' + r'" "r' < 4"
    by (simp_all add: q_def r_def q'_def r'_def)
  note qr = this
  obtain j where j: "n = Suc j" "j < 4" using assms(1,2) by (cases n) auto
  have "k + j = 4 * q' + r'" using qr(3) j(1) by simp
  then have q': "q' < q + 2" using qr(1,2,4) j(2) by linarith
  then have "b + 4 * q' \<le> i" if "b + 4 * q + 4 \<le> i" using that by linarith
  moreover have "i < b + 4 * q' + 4" using assms(4) j(1) \<open>k + j = 4 * q' + r'\<close> qr(4) by linarith
  moreover have "b + 4 * q \<le> i" using qr(1) assms(3) by linarith
  ultimately have "b + 4 * q \<le> i \<and> i < b + 4 * q + 4 \<or> b + 4 * q' \<le> i \<and> i < b + 4 * q' + 4"
    by linarith
  then show ?thesis unfolding base q_def q'_def .
qed

lemma word_base_page: "page_of (a AND NOT 3) = page_of a"
  and word_base_off: "page_off (a AND NOT 3) = page_off a - page_off a mod 4"
proof -
  have d: "unat (a AND NOT 3) = 4 * (unat a div 4)" by (simp only: unat_word_base minus_mod_eq_mult_div)
  have "4 * (x div 4) div 4096 = x div 4096" for x :: nat
    using div_mult2_eq [of "4 * (x div 4)" 4 1024] div_mult2_eq [of x 4 1024] by simp
  then show "page_of (a AND NOT 3) = page_of a"
    by (simp only: page_of_eq_iff d)
  have "4 * (x div 4) mod 4096 = x mod 4096 - x mod 4096 mod 4" for x :: nat
    using mod_mult2_eq [of x 4 1024] mult_mod_right [of 4 "x div 4" 1024]
      mod_mod_cancel [of 4 4096 x] by simp
  then show "page_off (a AND NOT 3) = page_off a - page_off a mod 4"
    by (simp only: page_off_mod d)
qed

lemma undo_saved:
  assumes "page_table m (page_of w) = Some base"
  shows "undo_bytes (page_table m) (w, of_bytes (host_read m (hptr_add base (page_off w)) 4)) f =
     (\<lambda>h i. if covers (hptr_add base (page_off w)) 4 h i then hbytes m h i else f h i)"
proof -
  let ?p = "hptr_add base (page_off w)"
  have b: "to_bytes 4 (of_bytes (host_read m ?p 4) :: u32) = host_read m ?p 4"
    using to_bytes_of_bytes [of "host_read m ?p 4", where ?'a = 32] by (simp add: host_read_def)
  have "host_read m ?p 4 ! (i - snd ?p) = hbytes m h i" if "covers ?p 4 h i" for h i
    using that by (auto simp: host_read_def covers_def)
  then show ?thesis using assms by (simp add: undo_bytes_def b fun_eq_iff)
qed

text \<open>What noting one word, and a whole store, adds to the journal.\<close>

definition saves :: "xmem \<Rightarrow> (u32 \<times> u32) list \<Rightarrow> (hbuf \<Rightarrow> nat \<Rightarrow> bool) \<Rightarrow> bool" where
  "saves m es S \<longleftrightarrow> (\<forall>f. foldr (undo_bytes (page_table m)) es f =
                          (\<lambda>h i. if S h i then hbytes m h i else f h i))"

lemma journal_word_saves:
  assumes "page_table m (page_of a) = Some base" "\<not> journal_unsafe (mem_journal_word m a)"
  obtains es where "mem_journal_word m a = m\<lparr>journal := journal m @ es\<rparr>"
    "saves m es (covers (hptr_add base (page_off a - page_off a mod 4)) 4)"
proof -
  let ?w = "a AND NOT 3"
  let ?es = "[(?w, of_bytes (host_read m (hptr_add base (page_off ?w)) 4) :: u32)]"
  have p: "page_table m (page_of ?w) = Some base" using assms(1) by (simp only: word_base_page)
  have room: "\<not> MEM_JOURNAL_MAX \<le> length (journal m)"
    using assms(2) unfolding mem_journal_word_def Let_def p by (auto split: if_split_asm)
  have "mem_journal_word m a = m\<lparr>journal := journal m @ ?es\<rparr>"
    unfolding mem_journal_word_def Let_def p option.case if_not_P [OF room] ..
  moreover have "saves m ?es (covers (hptr_add base (page_off a - page_off a mod 4)) 4)"
    unfolding saves_def
  proof
    fix f
    have "foldr (undo_bytes (page_table m)) ?es f = undo_bytes (page_table m) (hd ?es) f"
      by (simp only: foldr.simps o_apply id_apply list.sel)
    also have "\<dots> = (\<lambda>h i. if covers (hptr_add base (page_off a - page_off a mod 4)) 4 h i
        then hbytes m h i else f h i)"
      unfolding list.sel word_base_off [symmetric] by (rule undo_saved [OF p])
    finally show "foldr (undo_bytes (page_table m)) ?es f = \<dots>" .
  qed
  ultimately show ?thesis by (rule that)
qed

lemma saves_append:
  assumes "saves m es S" "saves m es' S'"
  shows "saves m (es @ es') (\<lambda>h i. S h i \<or> S' h i)"
  using assms by (auto simp: saves_def fun_eq_iff)

lemma saves_cong: "page_table m = page_table m' \<Longrightarrow> hbytes m = hbytes m' \<Longrightarrow> saves m = saves m'"
  unfolding saves_def [abs_def] by (simp cong: if_cong)

lemma journal_word_unsafe_mono:
  "journal_unsafe m \<Longrightarrow> journal_unsafe (mem_journal_word m a)"
  by (simp add: mem_journal_word_def Let_def split: option.splits)

lemma journal_note_saves:
  assumes "page_table m (page_of a) = Some base" "0 < n" "n \<le> 4" "page_off a + n \<le> PAGE_SIZE"
    and "\<not> journal_unsafe (mem_journal_note m a (of_nat n))"
  obtains es S where "mem_journal_note m a (of_nat n) = m\<lparr>journal := journal m @ es\<rparr>" "saves m es S"
    "\<And>h i. covers (hptr_add base (page_off a)) n h i \<Longrightarrow> S h i"
proof -
  let ?l = "a + of_nat n - 1"
  have l: "?l = a + of_nat (n - 1)" using assms(2) by (simp add: of_nat_diff)
  have lp: "page_of ?l = page_of a" "page_off ?l = page_off a + (n - 1)"
    unfolding l using assms(2,4) by (intro in_page; simp add: PAGE_SIZE_def)+
  have safe1: "\<not> journal_unsafe (mem_journal_word m a)"
    using assms(5) by (auto simp: mem_journal_note_def Let_def journal_word_unsafe_mono split: if_split_asm)
  obtain e1 where e1: "mem_journal_word m a = m\<lparr>journal := journal m @ e1\<rparr>"
    "saves m e1 (covers (hptr_add base (page_off a - page_off a mod 4)) 4)"
    by (rule journal_word_saves [OF assms(1) safe1])
  show ?thesis
  proof (cases "?l AND NOT 3 = a AND NOT 3")
    case True
    then have "page_off ?l - page_off ?l mod 4 = page_off a - page_off a mod 4"
      by (metis word_base_off)
    then have "covers (hptr_add base (page_off a - page_off a mod 4)) 4 h i"
      if "covers (hptr_add base (page_off a)) n h i" for h i
      using that two_words [OF assms(2,3), of "snd base" "page_off a" i]
      by (auto simp: lp covers_def hptr_add_def)
    then show ?thesis
      using e1 True by (intro that [OF _ e1(2)]) (auto simp: mem_journal_note_def Let_def)
  next
    case False
    let ?m1 = "m\<lparr>journal := journal m @ e1\<rparr>"
    have nt: "mem_journal_note m a (of_nat n) = mem_journal_word ?m1 ?l"
      using False e1(1) by (simp add: mem_journal_note_def Let_def)
    have pt: "page_table ?m1 (page_of ?l) = Some base" using assms(1) lp by simp
    obtain e2 where e2: "mem_journal_word ?m1 ?l = ?m1\<lparr>journal := journal ?m1 @ e2\<rparr>"
      "saves ?m1 e2 (covers (hptr_add base (page_off ?l - page_off ?l mod 4)) 4)"
      by (rule journal_word_saves [OF pt]) (use assms(5) nt in auto)
    have "saves m e2 (covers (hptr_add base (page_off ?l - page_off ?l mod 4)) 4)"
      using e2(2) saves_cong [of ?m1 m] by simp
    from saves_append [OF e1(2) this]
    show ?thesis
    proof (rule that [rotated])
      show "mem_journal_note m a (of_nat n) = m\<lparr>journal := journal m @ (e1 @ e2)\<rparr>"
        by (simp add: nt e2(1))
      show "covers (hptr_add base (page_off a - page_off a mod 4)) 4 h i \<or>
            covers (hptr_add base (page_off ?l - page_off ?l mod 4)) 4 h i"
        if "covers (hptr_add base (page_off a)) n h i" for h i
        using that two_words [OF assms(2,3), of "snd base" "page_off a" i]
        unfolding lp(2) by (auto simp: covers_def hptr_add_def)
    qed
  qed
qed

text \<open>Rolling back after a journalled store gives the bytes from before it.\<close>

definition undone :: "xmem \<Rightarrow> hbuf \<Rightarrow> nat \<Rightarrow> u8" where
  "undone m = foldr (undo_bytes (page_table m)) (journal m) (hbytes m)"

lemma do_store_undone:
  assumes "plain_store (mem c) s" "journal_en (mem c)" "\<not> journal_unsafe (mem (do_store E s c))"
  shows "undone (mem (do_store E s c)) = undone (mem c)"
proof -
  let ?a = "store_addr s" and ?bs = "store_bytes s" and ?m = "mem c"
  obtain base where b: "page_table ?m (page_of ?a) = Some base" "page_off ?a + length ?bs \<le> PAGE_SIZE"
    using assms(1) by (auto simp: plain_store_def split: option.splits)
  let ?p = "hptr_add base (page_off ?a)" and ?n = "mem_journal_note ?m ?a (of_nat (length ?bs))"
  have put: "mem (do_store E s c) = host_write ?n ?p ?bs"
    using assms(2) by (simp add: do_store_host_put [OF assms(1) b(1)] Let_def journal_store_def
        host_put_def host_touch_def)
  obtain es S where es: "?n = ?m\<lparr>journal := journal ?m @ es\<rparr>" "saves ?m es S"
    "\<And>h i. covers ?p (length ?bs) h i \<Longrightarrow> S h i"
    by (rule journal_note_saves [OF b(1) store_bytes_len(1) [of s] store_bytes_len(2) [of s] b(2)])
       (use assms(3) put in \<open>auto simp: frame\<close>)
  have "hbytes (host_write ?n ?p ?bs) h i = hbytes ?m h i" if "\<not> S h i" for h i
    using es(3) [of h i] that by (auto simp: es(1) host_write_def covers_def)
  then have "foldr (undo_bytes (page_table ?m)) es (hbytes (host_write ?n ?p ?bs)) = hbytes ?m"
    using es(2) by (auto simp: saves_def fun_eq_iff)
  then show ?thesis by (simp add: undone_def put frame es(1))
qed

lemma do_store_frame:
  assumes "plain_store (mem c) s"
  shows "page_table (mem (do_store E s c)) = page_table (mem c)"
    "write_page_table (mem (do_store E s c)) = write_page_table (mem c)"
    "hsize (mem (do_store E s c)) = hsize (mem c)"
    "journal_en (mem (do_store E s c)) = journal_en (mem c)"
    "journal_unsafe (mem c) \<Longrightarrow> journal_unsafe (mem (do_store E s c))"
proof -
  obtain base where b: "page_table (mem c) (page_of (store_addr s)) = Some base"
    using assms by (auto simp: plain_store_def split: option.splits)
  have en: "journal_en (mem_journal_word m a) = journal_en m" for m a
    by (simp add: mem_journal_word_def Let_def split: option.splits)
  show "page_table (mem (do_store E s c)) = page_table (mem c)"
    "write_page_table (mem (do_store E s c)) = write_page_table (mem c)"
    "hsize (mem (do_store E s c)) = hsize (mem c)"
    "journal_en (mem (do_store E s c)) = journal_en (mem c)"
    "journal_unsafe (mem c) \<Longrightarrow> journal_unsafe (mem (do_store E s c))"
    by (simp_all add: do_store_host_put [OF assms b] Let_def host_put_def host_touch_def frame
        journal_store_def mem_journal_note_def en journal_word_unsafe_mono)
qed

lemma plain_store_cong:
  "page_table m = page_table m' \<Longrightarrow> write_page_table m = write_page_table m' \<Longrightarrow> hsize m = hsize m' \<Longrightarrow>
     plain_store m s = plain_store m' s"
  by (simp add: plain_store_def host_in_def split: option.splits)

lemma stores_undone:
  assumes "\<forall>s \<in> set ss. plain_store (mem c) s" "journal_en (mem c)"
    and "\<not> journal_unsafe (mem (fold (do_store E) ss c))"
  shows "undone (mem (fold (do_store E) ss c)) = undone (mem c)"
  using assms
proof (induction ss arbitrary: c)
  case (Cons s ss)
  let ?d = "do_store E s c"
  have s: "plain_store (mem c) s" using Cons.prems by simp
  note fr = do_store_frame [OF s, of E]
  have plain: "\<forall>s \<in> set ss. plain_store (mem ?d) s"
    using Cons.prems(1) plain_store_cong [OF fr(1,2,3)] by simp
  have mono: "journal_unsafe (mem d) \<Longrightarrow> \<forall>s \<in> set ss. plain_store (mem d) s \<Longrightarrow>
      journal_unsafe (mem (fold (do_store E) ss d))" for d ss
  proof (induction ss arbitrary: d)
    case (Cons s ss)
    then have s: "plain_store (mem d) s" by simp
    note fr = do_store_frame [OF s, of E]
    show ?case using Cons fr plain_store_cong [OF fr(1,2,3)] by simp
  qed simp
  have "\<not> journal_unsafe (mem ?d)" using mono [OF _ plain] Cons.prems(3) by auto
  then have "undone (mem ?d) = undone (mem c)" using s Cons.prems(2) by (intro do_store_undone)
  then show ?case using Cons.IH [OF plain] Cons.prems fr(4) by simp
qed simp

text \<open>Nothing else of the memory changes under a run of stores.\<close>

lemma mem_journal_word_shape:
  "\<exists>j u. mem_journal_word m a = m\<lparr>journal := j, journal_unsafe := u\<rparr>"
proof (intro exI)
  show "mem_journal_word m a =
      m\<lparr>journal := journal (mem_journal_word m a), journal_unsafe := journal_unsafe (mem_journal_word m a)\<rparr>"
    by (simp add: mem_journal_word_def Let_def split: option.split)
qed

lemma xmem_twice:
  "m\<lparr>journal := j, journal_unsafe := u\<rparr>\<lparr>journal := j', journal_unsafe := u'\<rparr>
     = m\<lparr>journal := j', journal_unsafe := u'\<rparr>"
  by simp

lemma do_store_shape:
  assumes "plain_store (mem c) s"
  shows "\<exists>f j u. mem (do_store E s c) = (mem c)\<lparr>hbytes := f, journal := j, journal_unsafe := u\<rparr>"
proof -
  obtain base where b: "page_table (mem c) (page_of (store_addr s)) = Some base"
    using assms by (auto simp: plain_store_def split: option.splits)
  have n: "\<exists>j u. mem_journal_note m a k = m\<lparr>journal := j, journal_unsafe := u\<rparr>" for m a k
    using mem_journal_word_shape [of m a] mem_journal_word_shape [of "mem_journal_word m a" "a + k - 1"]
    by (simp add: mem_journal_note_def Let_def) (metis xmem_twice)
  have id: "mem c = (mem c)\<lparr>journal := journal (mem c), journal_unsafe := journal_unsafe (mem c)\<rparr>" by simp
  let ?js = "journal_store c (store_addr s) (of_nat (length (store_bytes s)))"
  have "\<exists>j u. mem ?js = (mem c)\<lparr>journal := j, journal_unsafe := u\<rparr>"
  proof (cases "journal_en (mem c)")
    case True
    then have "mem ?js = mem_journal_note (mem c) (store_addr s) (of_nat (length (store_bytes s)))"
      by (simp add: journal_store_def)
    then show ?thesis by (simp only: n)
  next
    case False
    then have "mem ?js = mem c" by (simp add: journal_store_def)
    then show ?thesis using id by (intro exI) (rule trans)
  qed
  then obtain j u where j: "mem ?js = (mem c)\<lparr>journal := j, journal_unsafe := u\<rparr>" by blast
  have "mem (do_store E s c) = host_write (mem ?js) (hptr_add base (page_off (store_addr s))) (store_bytes s)"
    unfolding do_store_host_put [OF assms b] Let_def by (simp only: mem_host_put)
  also have "\<dots> = (mem c)\<lparr>hbytes := hbytes (host_write (mem ?js)
      (hptr_add base (page_off (store_addr s))) (store_bytes s)), journal := j, journal_unsafe := u\<rparr>"
    unfolding j host_write_def by simp
  finally show ?thesis by blast
qed

lemma stores_shape:
  assumes "\<forall>s \<in> set ss. plain_store (mem c) s"
  shows "\<exists>f j u. mem (fold (do_store E) ss c) = (mem c)\<lparr>hbytes := f, journal := j, journal_unsafe := u\<rparr>"
  using assms
proof (induction ss arbitrary: c)
  case Nil
  show ?case by (intro exI [of _ "hbytes (mem c)"] exI [of _ "journal (mem c)"]
      exI [of _ "journal_unsafe (mem c)"]) simp
next
  case (Cons s ss)
  then have s: "plain_store (mem c) s" by simp
  note fr = do_store_frame [OF s, of E]
  obtain f j u where d: "mem (do_store E s c) = (mem c)\<lparr>hbytes := f, journal := j, journal_unsafe := u\<rparr>"
    using do_store_shape [OF s, of E] by blast
  have "\<forall>s \<in> set ss. plain_store (mem (do_store E s0 c)) s"
    if "s0 = s" for s0 using Cons.prems plain_store_cong [OF fr(1,2,3)] that by simp
  from Cons.IH [OF this [OF refl]] show ?case by (auto simp: d)
qed


text \<open>The journal cannot overflow before it holds \<open>MEM_JOURNAL_MAX\<close> words, and a store takes at
  most two.\<close>

lemma journal_word_room:
  assumes "page_table m (page_of a) \<noteq> None" "length (journal m) < MEM_JOURNAL_MAX"
  shows "journal_unsafe (mem_journal_word m a) = journal_unsafe m"
    "length (journal (mem_journal_word m a)) = Suc (length (journal m))"
proof -
  obtain base where "page_table m (page_of (a AND NOT 3)) = Some base"
    using assms(1) by (auto simp only: word_base_page)
  then show "journal_unsafe (mem_journal_word m a) = journal_unsafe m"
    "length (journal (mem_journal_word m a)) = Suc (length (journal m))"
    using assms(2) by (simp_all add: mem_journal_word_def Let_def)
qed

lemma do_store_room:
  assumes "plain_store (mem c) s" "length (journal (mem c)) + 2 \<le> MEM_JOURNAL_MAX"
  shows "journal_unsafe (mem (do_store E s c)) = journal_unsafe (mem c)"
    "length (journal (mem (do_store E s c))) \<le> length (journal (mem c)) + 2"
proof -
  let ?a = "store_addr s" and ?n = "length (store_bytes s)"
  let ?l = "?a + of_nat ?n - 1" and ?m = "mem c"
  obtain base where b: "page_table (mem c) (page_of ?a) = Some base" "page_off ?a + ?n \<le> PAGE_SIZE"
    using assms(1) by (auto simp: plain_store_def split: option.splits)
  have "?l = ?a + of_nat (?n - 1)" using store_bytes_len(1) [of s] by (simp add: of_nat_diff del: length_greater_0_conv)
  then have l: "page_of ?l = page_of ?a"
    using in_page(1) [of ?a "?n - 1"] b(2) store_bytes_len(1) [of s] by (simp only: PAGE_SIZE_def)
  have m1: "journal_unsafe (mem_journal_word ?m ?a) = journal_unsafe ?m"
    "length (journal (mem_journal_word ?m ?a)) = Suc (length (journal ?m))"
    using assms(2) b(1) by (intro journal_word_room; simp)+
  have m2: "journal_unsafe (mem_journal_word (mem_journal_word ?m ?a) ?l) = journal_unsafe ?m"
    "length (journal (mem_journal_word (mem_journal_word ?m ?a) ?l)) = length (journal ?m) + 2"
    using assms(2) b(1) l m1 by (simp_all add: journal_word_room frame)
  have n: "journal_unsafe (mem_journal_note ?m ?a (of_nat ?n)) = journal_unsafe ?m"
    "length (journal (mem_journal_note ?m ?a (of_nat ?n))) \<le> length (journal ?m) + 2"
    using m1 m2 by (simp_all add: mem_journal_note_def Let_def)
  show "journal_unsafe (mem (do_store E s c)) = journal_unsafe ?m"
    "length (journal (mem (do_store E s c))) \<le> length (journal ?m) + 2"
    using n by (simp_all add: do_store_host_put [OF assms(1) b(1)] Let_def host_put_def
        host_touch_def frame journal_store_def)
qed

lemma stores_room:
  assumes "\<forall>s \<in> set ss. plain_store (mem c) s" "\<not> journal_unsafe (mem c)"
    and "length (journal (mem c)) + 2 * length ss \<le> MEM_JOURNAL_MAX"
  shows "\<not> journal_unsafe (mem (fold (do_store E) ss c))"
  using assms
proof (induction ss arbitrary: c)
  case (Cons s ss)
  then have s: "plain_store (mem c) s" by simp
  note fr = do_store_frame [OF s, of E]
  have "\<forall>s' \<in> set ss. plain_store (mem (do_store E s c)) s'"
    using Cons.prems(1) plain_store_cong [OF fr(1,2,3)] by simp
  then show ?case
    using do_store_room [OF s, of E] Cons by simp
qed simp

text \<open>A journalled run of at most \<open>MEM_JOURNAL_MAX / 2\<close> plain stores is never flagged unsafe: the
  rollback above is available for it.\<close>

theorem journal_capacity:
  assumes "\<forall>s \<in> set ss. plain_store (mem c) s" "2 * length ss \<le> MEM_JOURNAL_MAX"
  shows "\<not> journal_unsafe (mem (fold (do_store E) ss (c\<lparr>mem := mem_journal_begin (mem c)\<rparr>)))"
proof (rule stores_room)
  show "\<forall>s \<in> set ss. plain_store (mem (c\<lparr>mem := mem_journal_begin (mem c)\<rparr>)) s"
    using assms(1) plain_store_cong [of "mem_journal_begin (mem c)" "mem c"]
    by (simp add: mem_journal_begin_def hsize_def fun_eq_iff split: hbuf.splits)
qed (use assms(2) in \<open>simp_all add: mem_journal_begin_def\<close>)

section \<open>Witnesses\<close>

text \<open>Overlapping stores of all widths to the data page of the sample machine.\<close>

definition sample_stores :: "store_op list" where
  "sample_stores = [St32 0x3FFB0010 0x11223344, St16 0x3FFB0013 0xAABB, St8 0x3FFB0012 0x55]"

lemma sample_mem_eq [simp]: "mem sample_cpu = sample_mem"
  by (simp add: sample_cpu_def xtensa_cpu_reset_for_target_def xtensa_cpu_init_for_target_def
      cpu_zero_def window_hazard_refresh_def)

lemma sample_stores_plain: "\<forall>s \<in> set sample_stores. plain_store (mem sample_cpu) s"
  by (simp add: sample_stores_def plain_store_def sample_mem_def sample_tables_def page_of_def page_off_def PAGE_SIZE_def
      host_in_def hsize_def hptr_add_def esp32_backing_size.simps)

lemma sample_ram_at: "ram_at 4 sample_cpu 0x3FFB0010 = Some (Backing FLEXE_MEM_SRAM, 0x10010)"
  "ram_at 4 sample_cpu 0x3FFB0020 = Some (Backing FLEXE_MEM_SRAM, 0x10020)"
  by (simp_all add: ram_at_def sample_mem_def sample_tables_def page_of_def page_off_def PAGE_SIZE_def
      host_in_def hsize_def hptr_add_def esp32_backing_size.simps Let_def)

theorem store_load_alias_witness:
  "fst (mem_read32 sample_host (mem_write32 sample_host sample_cpu 0x3FFB0010 7) 0x3FFB0010) = 7 \<and>
   fst (mem_read32 sample_host (mem_write32 sample_host sample_cpu 0x3FFB0010 7) 0x3FFB0020)
     = fst (mem_read32 sample_host sample_cpu 0x3FFB0020)"
  using store_load_alias [OF sample_ram_at(1,1)] store_load_alias [OF sample_ram_at(1,2)]
  by (simp add: apart_def)

theorem journal_capacity_witness:
  "\<not> journal_unsafe (mem (fold (do_store sample_host) sample_stores
     (sample_cpu\<lparr>mem := mem_journal_begin (mem sample_cpu)\<rparr>)))"
  by (rule journal_capacity [OF sample_stores_plain]) (simp add: sample_stores_def MEM_JOURNAL_MAX_def)


end
