(* ===== verification/Code_Coherence.thy ===== *)
theory Code_Coherence
  imports Code_Pages Ram
begin

text \<open>
  Self-modifying code. A store that reaches RAM through any alias leaves the predecode table in
  agreement with memory, because the page bookkeeping sends it to the slow path whenever the page
  also appears in the code window, and the notice covers every recorded executable alias of the
  page. \<open>code_tracked\<close> is what the table's owner relies on; building the table establishes it.
\<close>

section \<open>What is tracked\<close>

definition in_code_window :: "u32 \<Rightarrow> bool" where
  "in_code_window p \<longleftrightarrow> PREDECODE_BASE \<le> unat p * 4096 \<and> unat p * 4096 \<le> PREDECODE_END"

definition fully_marked :: "(nat \<Rightarrow> u64) \<Rightarrow> bool" where
  "fully_marked w \<longleftrightarrow> (\<forall>i < 128. bit (w (i div 64)) (i mod 64))"

definition code_tracked :: "xmem \<Rightarrow> bool" where
  "code_tracked m \<longleftrightarrow> (\<forall>p l. in_code_window p \<longrightarrow> page_loc m p = Some l \<longrightarrow>
     cp_diverted (code_page_at m l) \<and> fully_marked (cp_chunks (code_page_at m l) 0) \<and>
     push_bit 12 p \<in> set (cp_exec_page (code_page_at m l)))"

definition pages_aligned :: "xmem \<Rightarrow> bool" where
  "pages_aligned m \<longleftrightarrow> (\<forall>p h. page_table m p = Some h \<longrightarrow> snd h mod PAGE_SIZE = 0)"

definition code_coherent :: "'d cpu \<Rightarrow> bool" where
  "code_coherent c \<longleftrightarrow> store_safe (mem c) \<and> pages_aligned (mem c) \<and> code_tracked (mem c) \<and>
     code_watchers (mem c) = [Watch_Self] \<and> predecode_synced c"

text \<open>A store of RAM the bookkeeping covers: SRAM, RTC or PSRAM behind the address, one page.\<close>

definition ram_store :: "xmem \<Rightarrow> store_op \<Rightarrow> bool" where
  "ram_store m s \<longleftrightarrow> page_loc m (page_of (store_addr s)) \<noteq> None \<and>
     page_off (store_addr s) + length (store_bytes s) \<le> PAGE_SIZE"

section \<open>Which code bytes a store can change\<close>

lemma pages_alignedD: "pages_aligned m \<Longrightarrow> page_table m p = Some h \<Longrightarrow> \<exists>q. snd h = 4096 * q"
  unfolding pages_aligned_def PAGE_SIZE_def by (metis dvd_def mod_0_imp_dvd)

lemma code_byte_changed:
  assumes "pages_aligned m" "page_table m (page_of a) = Some base" "code_page_loc m base = Some l"
    and "page_off a + length bs \<le> PAGE_SIZE" "x < 2 ^ 32"
    and "fetch_byte (host_write m (hptr_add base (page_off a)) bs) (of_nat x) \<noteq> fetch_byte m (of_nat x)"
  shows "page_loc m (page_of (of_nat x)) = Some l" "page_off a \<le> x mod 4096" "x mod 4096 < page_off a + length bs"
proof -
  let ?x = "of_nat x :: u32" and ?p = "hptr_add base (page_off a)"
  have ux: "unat ?x = x" using assms(5) by (simp add: unat_of_nat)
  obtain h where h: "page_table m (page_of ?x) = Some h"
    using assms(6) by (cases "page_table m (page_of ?x)") (simp_all add: fetch_byte_def mem_get_ptr_def frame)
  let ?i = "snd h + page_off ?x"
  have "hbytes (host_write m ?p bs) (fst h) ?i \<noteq> hbytes m (fst h) ?i"
    using assms(6) h by (simp add: fetch_byte_def mem_get_ptr_def hptr_add_def frame)
  then have f: "fst h = fst base" and i: "snd base + page_off a \<le> ?i" "?i < snd base + page_off a + length bs"
    by (auto simp: host_write_def hptr_add_def split: if_split_asm)
  obtain q where q: "snd h = 4096 * q" using pages_alignedD [OF assms(1) h] by blast
  obtain r where r: "snd base = 4096 * r" using pages_alignedD [OF assms(1,2)] by blast
  have "page_off ?x < 4096" using page_off_less [of ?x] by (simp add: PAGE_SIZE_def)
  moreover have "page_off a + length bs \<le> 4096" using assms(4) by (simp add: PAGE_SIZE_def)
  ultimately have "q = r" using i q r by linarith
  then have hb: "h = base" using f q r by (simp add: prod_eq_iff)
  show "page_loc m (page_of ?x) = Some l" using h hb assms(3) by (simp add: page_loc_def)
  have "page_off ?x = x mod 4096" by (simp add: page_off_mod ux)
  then show "page_off a \<le> x mod 4096" "x mod 4096 < page_off a + length bs" using i hb by simp_all
qed

section \<open>The notice\<close>

text \<open>A table that lost at least the entries whose bytes lie in the ranges.\<close>

definition dropped :: "u32 list \<Rightarrow> u32 \<Rightarrow> (nat \<Rightarrow> u32) \<Rightarrow> (nat \<Rightarrow> u32) \<Rightarrow> bool" where
  "dropped As L t0 tab \<longleftrightarrow> (\<forall>off. tab off = 0 \<or> (tab off = t0 off \<and> (off < PREDECODE_SIZE \<longrightarrow>
     (\<forall>A \<in> set As. PREDECODE_BASE + off + 2 < unat A \<or> unat A + unat L \<le> PREDECODE_BASE + off))))"

lemma dropped_Cons:
  "dropped (if pre then [A] else []) L t0 t1 \<Longrightarrow> dropped (if pre then As else []) L t1 t2 \<Longrightarrow>
     dropped (if pre then A # As else []) L t0 t2"
  unfolding dropped_def by (cases pre) (simp, metis, simp, metis)

lemma dropped_Nil: "dropped As L t0 t1 \<Longrightarrow> dropped [] L t0 t1"
  unfolding dropped_def by auto

lemma modified_shape:
  assumes "h_code_invalidate E = None"
  shows "mem (xtensa_code_modified E c A L pre jit) = mem c"
    "predecode c = None \<Longrightarrow> predecode (xtensa_code_modified E c A L pre jit) = None"
    "predecode c = Some t0 \<Longrightarrow>
       \<exists>tab. predecode (xtensa_code_modified E c A L pre jit) = Some tab \<and> dropped (if pre then [A] else []) L t0 tab"
  using assms
  by (auto simp: xtensa_code_modified_def Let_def predecode_clear_def word_le_nat_alt dropped_def
      PREDECODE_SIZE_def split: option.splits)

lemma notify_self:
  assumes "h_code_invalidate E = None" "code_watchers (mem c) = [Watch_Self]"
  shows "notify_watchers E A L pre jit c = xtensa_code_modified E c A L pre jit"
proof -
  let ?d = "xtensa_code_modified E c A L pre jit"
  have "code_watchers (mem ?d) = [Watch_Self]" using assms modified_shape(1) by metis
  then show ?thesis
    using assms by (simp add: notify_watchers_def CODE_WATCH_MAX_def upt_rec notify_watcher_def)
qed

definition notice :: "'d host \<Rightarrow> u32 list \<Rightarrow> u32 \<Rightarrow> bool \<Rightarrow> bool \<Rightarrow> 'd cpu \<Rightarrow> 'd cpu" where
  "notice E As L pre jit = fold (\<lambda>A c. notify_watchers E A L pre jit c) As"

lemma notice_all:
  assumes "h_code_invalidate E = None" "code_watchers (mem c) = [Watch_Self]"
  shows "mem (notice E As L pre jit c) = mem c"
    "predecode c = None \<Longrightarrow> predecode (notice E As L pre jit c) = None"
    "predecode c = Some t0 \<Longrightarrow>
       \<exists>tab. predecode (notice E As L pre jit c) = Some tab \<and> dropped (if pre then As else []) L t0 tab"
proof -
  have "mem (notice E As L pre jit c) = mem c \<and>
      (predecode c = None \<longrightarrow> predecode (notice E As L pre jit c) = None) \<and>
      (\<forall>t0. predecode c = Some t0 \<longrightarrow>
         (\<exists>tab. predecode (notice E As L pre jit c) = Some tab \<and> dropped (if pre then As else []) L t0 tab))"
    using assms(2)
  proof (induction As arbitrary: c)
    case (Cons A As)
    let ?d = "xtensa_code_modified E c A L pre jit"
    note s = modified_shape [OF assms(1), where c = c and A = A and L = L and pre = pre and jit = jit]
    have n: "notice E (A # As) L pre jit c = notice E As L pre jit ?d"
      by (simp add: notice_def notify_self [OF assms(1) Cons.prems])
    have "code_watchers (mem ?d) = [Watch_Self]" using Cons.prems s(1) by metis
    note IH = Cons.IH [OF this]
    show ?case
      unfolding n using IH s dropped_Cons by metis
  qed (simp add: notice_def dropped_def)
  then show "mem (notice E As L pre jit c) = mem c"
    "predecode c = None \<Longrightarrow> predecode (notice E As L pre jit c) = None"
    "predecode c = Some t0 \<Longrightarrow>
       \<exists>tab. predecode (notice E As L pre jit c) = Some tab \<and> dropped (if pre then As else []) L t0 tab"
    by blast+
qed

text \<open>If the ranges cover every code byte that changed, the table agrees again.\<close>

lemma dropped_synced:
  assumes "predecode_synced c" "predecode c = Some t0" "predecode d = Some tab" "dropped As L t0 tab"
    and "\<And>x. x \<in> bytes_changed (mem c) (mem d) \<Longrightarrow> PREDECODE_BASE \<le> x \<Longrightarrow> x < PREDECODE_END + 2 \<Longrightarrow>
           \<exists>A \<in> set As. unat A \<le> x \<and> x < unat A + unat L"
  shows "predecode_synced d"
proof -
  have "tab off = predecode_entry d off" if t: "off < PREDECODE_SIZE" "tab off \<noteq> 0" for off
  proof -
    have o: "tab off = t0 off" and out: "\<And>A. A \<in> set As \<Longrightarrow>
        PREDECODE_BASE + off + 2 < unat A \<or> unat A + unat L \<le> PREDECODE_BASE + off"
      using assms(4) t unfolding dropped_def by blast+
    have "PREDECODE_BASE + off + i \<notin> bytes_changed (mem c) (mem d)" if "i < 3" for i
    proof
      assume "PREDECODE_BASE + off + i \<in> bytes_changed (mem c) (mem d)"
      moreover have "PREDECODE_BASE + off + i < PREDECODE_END + 2"
        using t(1) that by (simp add: PREDECODE_SIZE_def PREDECODE_BASE_def PREDECODE_END_def)
      ultimately obtain A where "A \<in> set As" "unat A \<le> PREDECODE_BASE + off + i"
        "PREDECODE_BASE + off + i < unat A + unat L"
        using assms(5) [of "PREDECODE_BASE + off + i"] by auto
      then show False using out [of A] that by linarith
    qed
    then have "predecode_entry d off = predecode_entry c off"
      by (intro predecode_entry_cong fetch_unchanged [OF t(1)])
    then show ?thesis using assms(1,2) t o by (auto simp: predecode_synced_def)
  qed
  then show ?thesis using assms(3) by (auto simp: predecode_synced_def)
qed

section \<open>Stores\<close>

text \<open>A store through the bus, fast or slow, to a mapped page.\<close>

lemma do_store_mapped:
  assumes "page_table (mem c) (page_of (store_addr s)) = Some base"
  shows "do_store E s c =
     (let a = store_addr s; bs = store_bytes s; d = journal_store c a (of_nat (length bs));
          p = hptr_add base (page_off a)
      in case write_page_table (mem c) (page_of a) of
           Some b \<Rightarrow> host_put d (hptr_add b (page_off a)) bs
         | None \<Rightarrow>
             if host_read (mem c) p (length bs) = bs then host_touch d p (length bs)
             else mem_code_modified E (host_put d p bs) a (length bs))"
proof -
  have hr: "host_read (mem (journal_store c a n)) = host_read (mem c)" for a n
    by (simp add: host_read_def [abs_def] frame)
  show ?thesis
    using assms
    by (cases s)
       (simp_all add: mem_write8_def mem_write16_def mem_write32_def mem_write8_slow_def
          mem_write16_slow_def mem_write32_slow_def code_page_store_def Let_def hr
          mem_get_ptr_store_def mem_get_ptr_def frame split: option.split)
qed

lemma in_page_segment:
  assumes "page_off a + n \<le> PAGE_SIZE" "0 < n"
  shows "page_segments (unat a) (unat a + n) = [(unat a, unat a + n, unat a - page_off a)]"
proof -
  let ?b = "unat a - page_off a"
  have m: "unat a mod PAGE_SIZE = page_off a" by (simp add: page_off_mod PAGE_SIZE_def)
  then have "page_off a \<le> unat a" by (metis mod_less_eq_dividend)
  then have "unat a + n \<le> ?b + PAGE_SIZE" using assms(1) by linarith
  then show ?thesis
    using assms(2) by (simp add: page_segments.simps [of "unat a"] page_segments.simps [of "?b + PAGE_SIZE"]
        Let_def m min_def)
qed

lemma marked_range:
  assumes "fully_marked w" "c0 \<le> c1" "c1 < 128"
  shows "chunk_range_any w c0 c1"
  using assms by (auto simp: fully_marked_def chunk_range_any_def list_ex_iff intro!: bexI [of _ c0])

text \<open>What the slow path tells the watchers: nothing, or a notice for every recorded alias, which
  reaches the predecode table when the written chunks are marked.\<close>

lemma modified_is_notice:
  assumes "page_table (mem c) (page_of a) = Some base" "code_page_loc (mem c) base = Some l"
    and "page_off a + n \<le> PAGE_SIZE" "0 < n" "code_watchers (mem c) = [Watch_Self]"
  obtains pre jit where "fully_marked (cp_chunks (code_page_at (mem c) l) 0) \<Longrightarrow> pre"
    "mem_code_modified E c a n =
       notice E (if pre \<or> jit then map (\<lambda>ep. ep + of_nat (page_off a)) (cp_exec_page (code_page_at (mem c) l)) else [])
         (of_nat n) pre jit c"
proof -
  let ?pg = "code_page_at (mem c) l"
  let ?c0 = "page_off a div 32" and ?c1 = "(unat a + n - 1 - (unat a - page_off a)) div 32"
  have le: "page_off a \<le> unat a" by (simp add: page_off_mod)
  have off: "unat a - (unat a - page_off a) = page_off a" using le by simp
  have e: "unat a + n - 1 - (unat a - page_off a) = page_off a + n - 1" using le assms(4) by linarith
  have lt: "?c1 < 128" unfolding e using assms(3,4) by (simp add: PAGE_SIZE_def)
  have ge: "?c0 \<le> ?c1" unfolding e using assms(4) by (intro div_le_mono) simp
  have pre: "chunk_range_any (cp_chunks ?pg 0) ?c0 ?c1" if "fully_marked (cp_chunks ?pg 0)"
    by (rule marked_range [OF that ge lt])
  show ?thesis
  proof (cases "fst (code_page_for_host (mem c) base False)")
    case None
    then have "?pg = empty_code_page"
      using assms(2) by (auto simp: code_page_for_host_False code_page_at_def split: option.splits if_split_asm)
    then have "\<not> fully_marked (cp_chunks ?pg 0)" by (auto simp: empty_code_page_def fully_marked_def intro!: exI [of _ 0])
    then show ?thesis
      using assms(1,5) None
      by (intro that [of False False])
         (simp_all add: mem_code_modified_def code_modified_loop_def in_page_segment [OF assms(3,4)]
           code_modified_page_def notice_def)
  next
    case (Some k)
    then have "fst (code_page_for_host (mem c) base False) = Some l"
      using assms(2) by (auto simp: code_page_for_host_False split: option.splits if_split_asm)
    then show ?thesis
      using assms(1,5) pre
      by (intro that [of "chunk_range_any (cp_chunks ?pg 0) ?c0 ?c1" "chunk_range_any (cp_chunks ?pg 1) ?c0 ?c1"])
         (simp_all add: mem_code_modified_def code_modified_loop_def in_page_segment [OF assms(3,4)]
           code_modified_page_def Let_def off notice_def fold_map comp_def)
  qed
qed

section \<open>The invariant under stores\<close>

lemma page_loc_cong: "page_table m = page_table m' \<Longrightarrow> backing_size m = backing_size m' \<Longrightarrow> page_loc m = page_loc m'"
  unfolding page_loc_def [abs_def] using code_page_loc_cong by metis

lemma maps_of_tracked:
  assumes "maps_of m' = maps_of m"
  shows "store_safe m' = store_safe m" "pages_aligned m' = pages_aligned m"
    "code_tracked m' = code_tracked m" "code_watchers m' = code_watchers m"
proof -
  have e: "page_table m' = page_table m" "backing_size m' = backing_size m" "code_state m' = code_state m"
    using assms by (simp_all add: maps_of_def)
  show "store_safe m' = store_safe m" using maps_of_safe assms by metis
  show "pages_aligned m' = pages_aligned m" by (simp add: pages_aligned_def e)
  have "page_loc m' = page_loc m"
    unfolding page_loc_def [abs_def] e code_page_loc_cong [OF e(2)] ..
  then show "code_tracked m' = code_tracked m"
    using code_page_at_cong [OF e(3)] by (simp add: code_tracked_def)
  show "code_watchers m' = code_watchers m" by (simp add: code_watchers_def e)
qed

lemma store_maps [frame]:
  "maps_of (host_write m p bs) = maps_of m"
  "maps_of (mem_journal_word m a) = maps_of m"
  "maps_of (mem_journal_note m a k) = maps_of m"
  "maps_of (mem (journal_store c a k)) = maps_of (mem c)"
  by (simp_all add: maps_of_def host_write_def mem_journal_word_def mem_journal_note_def
      journal_store_def Let_def split: option.split)

text \<open>A code byte that a store changes lies in a tracked page.\<close>

lemma changed_tracked:
  assumes "pages_aligned m" "code_tracked m" "page_table m (page_of a) = Some base"
    and "code_page_loc m base = Some l" "page_off a + length bs \<le> PAGE_SIZE"
    and "x \<in> bytes_changed m (host_write m (hptr_add base (page_off a)) bs)"
    and "PREDECODE_BASE \<le> x" "x < PREDECODE_END + 2"
  obtains ep where "ep \<in> set (cp_exec_page (code_page_at m l))" "cp_diverted (code_page_at m l)"
    "fully_marked (cp_chunks (code_page_at m l) 0)"
    "unat (ep + of_nat (page_off a)) \<le> x" "x < unat (ep + of_nat (page_off a)) + length bs"
proof -
  let ?x = "of_nat x :: u32"
  have xl: "x < 2 ^ 32" using assms(6) by (simp add: bytes_changed_def)
  have ux: "unat ?x = x" using xl by (simp add: unat_of_nat)
  have "fetch_byte (host_write m (hptr_add base (page_off a)) bs) ?x \<noteq> fetch_byte m ?x"
    using assms(6) by (simp add: bytes_changed_def)
  note ch = code_byte_changed [OF assms(1,3,4,5) xl this]
  have p: "unat (page_of ?x) = x div 4096" by (simp add: unat_page_of ux)
  have "in_code_window (page_of ?x)"
    using assms(7,8) by (auto simp: in_code_window_def p PREDECODE_BASE_def PREDECODE_END_def)
  then have t: "cp_diverted (code_page_at m l)" "fully_marked (cp_chunks (code_page_at m l) 0)"
    "push_bit 12 (page_of ?x) \<in> set (cp_exec_page (code_page_at m l))"
    using assms(2) ch(1) unfolding code_tracked_def by blast+
  have lt: "x div 4096 * 4096 < 2 ^ 32" using xl by auto
  have ep: "unat (push_bit 12 (page_of ?x) + of_nat (page_off a)) = x div 4096 * 4096 + page_off a"
  proof -
    have "unat (push_bit 12 (page_of ?x)) = x div 4096 * 4096"
      using lt p by (simp add: push_bit_eq_mult unat_word_ariths)
    moreover have "x div 4096 * 4096 + page_off a < 2 ^ 32"
      using xl ch(2) div_mult_mod_eq [of x 4096] by linarith
    moreover have "unat (of_nat (page_off a) :: u32) = page_off a"
      using page_off_less [of a] by (simp add: unat_of_nat PAGE_SIZE_def)
    ultimately show ?thesis by (simp add: unat_word_ariths)
  qed
  have "x = x div 4096 * 4096 + x mod 4096" by simp
  then show ?thesis
    using that [OF t(3,1,2)] ch(2,3) unfolding ep by linarith
qed

lemma synced_same:
  assumes "predecode_synced c" "predecode d = predecode c"
    and "\<And>x. x \<in> bytes_changed (mem c) (mem d) \<Longrightarrow> PREDECODE_BASE \<le> x \<Longrightarrow> x < PREDECODE_END + 2 \<Longrightarrow> False"
  shows "predecode_synced d"
proof (cases "predecode c")
  case (Some t)
  then show ?thesis
    using assms(2,3) by (intro dropped_synced [OF assms(1) Some, of d t "[]" 0]) (auto simp: dropped_def)
qed (use assms(2) in \<open>simp add: predecode_synced_def\<close>)

lemma host_write_bytes_cong:
  "hbytes m = hbytes m' \<Longrightarrow> hbytes (host_write m p bs) = hbytes (host_write m' p bs)"
  by (simp add: host_write_def cong: if_cong)

lemma bytes_changed_cong:
  "fetch_byte m1 = fetch_byte m1' \<Longrightarrow> fetch_byte m2 = fetch_byte m2' \<Longrightarrow>
     bytes_changed m1 m2 = bytes_changed m1' m2'"
  by (simp add: bytes_changed_def)

text \<open>The slow path, after the bytes are written.\<close>

lemma notice_synced:
  assumes "predecode_synced c" "predecode f = predecode c" "h_code_invalidate E = None"
    and "page_table (mem f) (page_of a) = Some base" "code_page_loc (mem f) base = Some l"
    and "page_off a + n \<le> PAGE_SIZE" "0 < n" "code_watchers (mem f) = [Watch_Self]"
    and "\<And>x. x \<in> bytes_changed (mem c) (mem f) \<Longrightarrow> PREDECODE_BASE \<le> x \<Longrightarrow> x < PREDECODE_END + 2 \<Longrightarrow>
      fully_marked (cp_chunks (code_page_at (mem f) l) 0) \<and>
      (\<exists>ep \<in> set (cp_exec_page (code_page_at (mem f) l)).
         unat (ep + of_nat (page_off a)) \<le> x \<and> x < unat (ep + of_nat (page_off a)) + n)"
  shows "predecode_synced (mem_code_modified E f a n)" "mem (mem_code_modified E f a n) = mem f"
proof -
  let ?eps = "cp_exec_page (code_page_at (mem f) l)"
  obtain pre jit where n: "fully_marked (cp_chunks (code_page_at (mem f) l) 0) \<Longrightarrow> pre"
    "mem_code_modified E f a n = notice E (if pre \<or> jit then map (\<lambda>ep. ep + of_nat (page_off a)) ?eps else [])
       (of_nat n) pre jit f"
    by (rule modified_is_notice [OF assms(4-8), of E]) blast
  note all = notice_all [OF assms(3,8), where As = "if pre \<or> jit then map (\<lambda>ep. ep + of_nat (page_off a)) ?eps else []"
      and L = "of_nat n" and pre = pre and jit = jit, folded n(2)]
  show "mem (mem_code_modified E f a n) = mem f" by (rule all(1))
  have un: "unat (of_nat n :: u32) = n" using assms(6) by (simp add: unat_of_nat PAGE_SIZE_def)
  show "predecode_synced (mem_code_modified E f a n)"
  proof (cases "predecode c")
    case None
    then show ?thesis using all(2) assms(2) by (simp add: predecode_synced_def)
  next
    case (Some t0)
    then obtain tab where tab: "predecode (mem_code_modified E f a n) = Some tab"
      "dropped (if pre then (if pre \<or> jit then map (\<lambda>ep. ep + of_nat (page_off a)) ?eps else []) else []) (of_nat n) t0 tab"
      using all(3) assms(2) by metis
    show ?thesis
      using assms(9) n(1)
      by (intro dropped_synced [OF assms(1) Some tab]) (auto simp: all(1) un)
  qed
qed

text \<open>Every RAM store, of any width, through the fast or the slow path, with or without the
  journal, keeps the whole invariant.\<close>

lemma do_store_coherent:
  assumes "code_coherent c" "ram_store (mem c) s" "h_code_invalidate E = None"
  shows "code_coherent (do_store E s c) \<and> page_loc (mem (do_store E s c)) = page_loc (mem c)"
proof -
  let ?a = "store_addr s" and ?bs = "store_bytes s" and ?r = "do_store E s c"
  obtain base l where b: "page_table (mem c) (page_of ?a) = Some base" "code_page_loc (mem c) base = Some l"
    using assms(2) by (auto simp: ram_store_def page_loc_def split: option.splits)
  have po: "page_off ?a + length ?bs \<le> PAGE_SIZE" using assms(2) by (simp add: ram_store_def)
  have inv: "store_safe (mem c)" "pages_aligned (mem c)" "code_tracked (mem c)"
    "code_watchers (mem c) = [Watch_Self]" "predecode_synced c"
    using assms(1) by (simp_all add: code_coherent_def)
  let ?d = "journal_store c ?a (of_nat (length ?bs))" and ?p = "hptr_add base (page_off ?a)"
  let ?f = "host_put ?d ?p ?bs" and ?w = "host_write (mem c) ?p ?bs"
  have m: "mem ?f = host_write (mem ?d) ?p ?bs" "mem (host_touch ?d ?p n) = mem ?d" for n
    by (simp_all add: mem_host_put host_touch_def)
  have maps: "maps_of (mem ?f) = maps_of (mem c)" "maps_of (mem ?d) = maps_of (mem c)"
    unfolding m by (simp_all only: frame)
  have fb: "fetch_byte (mem ?f) = fetch_byte ?w" "fetch_byte (mem ?d) = fetch_byte (mem c)"
    unfolding m by (intro fetch_byte_same host_write_bytes_cong; simp only: frame)+
  have pd: "predecode ?f = predecode c" "predecode (host_touch ?d ?p n) = predecode c" for n
    by (simp_all add: journal_store_def host_put_def host_touch_def Let_def)
  have tr: "cp_diverted (code_page_at (mem c) l) \<and> fully_marked (cp_chunks (code_page_at (mem c) l) 0) \<and>
      (\<exists>ep \<in> set (cp_exec_page (code_page_at (mem c) l)).
         unat (ep + of_nat (page_off ?a)) \<le> x \<and> x < unat (ep + of_nat (page_off ?a)) + length ?bs)"
    if x: "x \<in> bytes_changed (mem c) (mem ?f)" "PREDECODE_BASE \<le> x" "x < PREDECODE_END + 2" for x
  proof -
    have "x \<in> bytes_changed (mem c) ?w" using x(1) bytes_changed_cong [OF refl fb(1)] by simp
    from changed_tracked [OF inv(2,3) b po this x(2,3)] show ?thesis by blast
  qed
  have e: "page_table (mem ?f) = page_table (mem c)" "backing_size (mem ?f) = backing_size (mem c)"
    "code_state (mem ?f) = code_state (mem c)" using maps(1) by (simp_all add: maps_of_def)
  consider (fast) "write_page_table (mem c) (page_of ?a) = Some base" "\<not> diverted (mem c) base"
    | (same) "write_page_table (mem c) (page_of ?a) = None" "host_read (mem c) ?p (length ?bs) = ?bs"
    | (slow) "write_page_table (mem c) (page_of ?a) = None" "host_read (mem c) ?p (length ?bs) \<noteq> ?bs"
    using store_safeD [OF inv(1), of ?a] b(1) by fastforce
  then have "maps_of (mem ?r) = maps_of (mem c) \<and> predecode_synced ?r"
  proof cases
    case fast
    then have r: "?r = ?f" by (simp add: do_store_mapped [OF b(1)] Let_def)
    have "\<not> cp_diverted (code_page_at (mem c) l)" using fast(2) b(2) by (auto simp: diverted_def)
    then show ?thesis using maps(1) tr unfolding r by (intro conjI synced_same [OF inv(5) pd(1)]) blast+
  next
    case same
    then have r: "?r = host_touch ?d ?p (length ?bs)" by (simp add: do_store_mapped [OF b(1)] Let_def)
    have "bytes_changed (mem c) (mem ?r) = {}" by (simp add: r m(2) bytes_changed_def fb(2))
    then show ?thesis
      using maps(2) by (intro conjI synced_same [OF inv(5)]) (simp_all add: r m(2) pd(2))
  next
    case slow
    then have r: "?r = mem_code_modified E ?f ?a (length ?bs)" by (simp add: do_store_mapped [OF b(1)] Let_def)
    have pre: "page_table (mem ?f) (page_of ?a) = Some base" "code_page_loc (mem ?f) base = Some l"
      "code_watchers (mem ?f) = [Watch_Self]" "code_page_at (mem ?f) = code_page_at (mem c)"
      using b inv(4) e code_page_loc_cong [OF e(2)] code_page_at_cong [OF e(3)]
      by (simp_all add: code_watchers_def)
    show ?thesis
      using notice_synced [OF inv(5) pd(1) assms(3) pre(1,2) po store_bytes_len(1) pre(3)] tr maps(1)
      unfolding r pre(4) by simp
  qed
  moreover have "page_loc (mem ?r) = page_loc (mem c)"
    using \<open>maps_of (mem ?r) = maps_of (mem c) \<and> predecode_synced ?r\<close>
    by (intro page_loc_cong) (simp_all add: maps_of_def)
  ultimately show ?thesis
    using inv maps_of_tracked [of "mem ?r" "mem c"] by (simp add: code_coherent_def)
qed

section \<open>Building the table establishes the invariant\<close>

lemma mark_bits:
  "bit (fold (\<lambda>c w. w(c div 64 := w (c div 64) OR push_bit (c mod 64) 1)) cs w (i div 64) :: u64) (i mod 64)
     \<longleftrightarrow> i \<in> set cs \<or> bit (w (i div 64)) (i mod 64)"
proof (induction cs arbitrary: w)
  case (Cons c cs)
  have eq: "c = i" if "i div 64 = c div 64" "i mod 64 = c mod 64" using that by (metis mult_div_mod_eq)
  have "bit ((w(c div 64 := w (c div 64) OR push_bit (c mod 64) 1)) (i div 64)) (i mod 64)
      \<longleftrightarrow> i = c \<or> bit (w (i div 64)) (i mod 64)"
    using eq by (auto simp: bit_simps)
  then show ?case using Cons.IH by auto
qed simp

lemma mark_all_chunks: "fully_marked (mark_chunks w 0 127)"
  unfolding fully_marked_def mark_chunks_def mark_bits by simp

lemma page_of_base: "j < 0x100000 \<Longrightarrow> page_of (of_nat (4096 * j)) = of_nat j"
proof -
  assume j: "j < 0x100000"
  have "unat (of_nat (4096 * j) :: u32) = 4096 * j" unfolding unat_of_nat using j by simp
  then show ?thesis using j by (simp only: word_unat_eq_iff unat_page_of) (simp add: unat_of_nat)
qed

lemma base_of_page: "j < 0x100000 \<Longrightarrow> (of_nat (4096 * j) :: u32) = push_bit 12 (of_nat j)"
  by (simp add: push_bit_eq_mult mult.commute)

text \<open>The page after page bookkeeping of the loop.\<close>

definition built_upto :: "xmem \<Rightarrow> nat \<Rightarrow> xmem \<Rightarrow> bool" where
  "built_upto m0 j m \<longleftrightarrow> page_table m = page_table m0 \<and> backing_size m = backing_size m0 \<and>
     (\<forall>p l. PREDECODE_BASE \<le> unat p * 4096 \<longrightarrow> unat p < j \<longrightarrow> page_loc m0 p = Some l \<longrightarrow>
        cp_diverted (code_page_at m l) \<and> fully_marked (cp_chunks (code_page_at m l) 0) \<and>
        push_bit 12 p \<in> set (cp_exec_page (code_page_at m l))) \<and>
     (\<forall>l. distinct (cp_exec_page (code_page_at m l)) \<and>
        set (cp_exec_page (code_page_at m l)) \<subseteq>
          push_bit 12 ` {p. PREDECODE_BASE \<le> unat p * 4096 \<and> unat p < j \<and> page_loc m0 p = Some l})"

definition few_aliases :: "xmem \<Rightarrow> bool" where
  "few_aliases m \<longleftrightarrow> (\<forall>l. card {p. in_code_window p \<and> page_loc m p = Some l} \<le> CODE_EXEC_ALIASES)"

text \<open>There is room for one more alias of a location.\<close>

lemma alias_room:
  assumes "few_aliases m0" "in_code_window p" "page_loc m0 p = Some l" "distinct xs"
    and "set xs \<subseteq> push_bit 12 ` {q. PREDECODE_BASE \<le> unat q * 4096 \<and> unat q < unat p \<and> page_loc m0 q = Some l}"
  shows "length xs < CODE_EXEC_ALIASES"
proof -
  let ?Q = "{q. PREDECODE_BASE \<le> unat q * 4096 \<and> unat q < unat p \<and> page_loc m0 q = Some l}"
  let ?A = "{q. in_code_window q \<and> page_loc m0 q = Some l}"
  have "unat q * 4096 \<le> PREDECODE_END" if "unat q < unat p" for q :: u32
    using that assms(2) by (simp add: in_code_window_def)
  then have sub: "insert p ?Q \<subseteq> ?A" using assms(2,3) by (auto simp: in_code_window_def)
  have fin: "finite ?A" by simp
  have "length xs = card (set xs)" using assms(4) by (simp add: distinct_card)
  also have "\<dots> \<le> card (push_bit 12 ` ?Q)" using assms(5) by (intro card_mono) simp_all
  also have "\<dots> \<le> card ?Q" by (rule card_image_le) simp
  also have "\<dots> < card (insert p ?Q)" by simp
  also have "\<dots> \<le> card ?A" by (rule card_mono [OF fin sub])
  also have "\<dots> \<le> CODE_EXEC_ALIASES" using assms(1) unfolding few_aliases_def by blast
  finally show ?thesis .
qed

lemma built_step:
  assumes "built_upto m0 j m" "few_aliases m0" "PREDECODE_BASE \<le> j * 4096" "j * 4096 < PREDECODE_END"
    and "code_protect_page m 0 (4096 * j) (4096 * (j + 1)) (4096 * j) scan = (m', s')"
  shows "built_upto m0 (Suc j) m'"
proof -
  have j: "j < 0x100000" using assms(4) by (simp add: PREDECODE_END_def)
  have uj: "unat (of_nat j :: u32) = j" using j by (simp add: unat_of_nat)
  have win: "in_code_window (of_nat j)" using assms(3,4) by (simp add: in_code_window_def uj)
  note f = protect_page_frame [OF assms(5)]
  note I = assms(1) [unfolded built_upto_def]
  have I3: "cp_diverted (code_page_at m k)" "fully_marked (cp_chunks (code_page_at m k) 0)"
    "push_bit 12 p \<in> set (cp_exec_page (code_page_at m k))"
    if "PREDECODE_BASE \<le> unat p * 4096" "unat p < j" "page_loc m0 p = Some k" for p k
    using I that by blast+
  have I4: "distinct (cp_exec_page (code_page_at m k))" "set (cp_exec_page (code_page_at m k)) \<subseteq>
      push_bit 12 ` {p. PREDECODE_BASE \<le> unat p * 4096 \<and> unat p < j \<and> page_loc m0 p = Some k}" for k
    using I by blast+
  have eq: "p = of_nat j" if "unat p < Suc j" "\<not> unat p < j" for p :: u32
    using that by (metis less_antisym of_nat_unat_eq)
  have pl: "page_loc m = page_loc m0" using I by (intro page_loc_cong) simp_all
  have mono: "push_bit 12 ` {p. PREDECODE_BASE \<le> unat p * 4096 \<and> unat p < j \<and> page_loc m0 p = Some l} \<subseteq>
      push_bit 12 ` {p :: u32. PREDECODE_BASE \<le> unat p * 4096 \<and> unat p < Suc j \<and> page_loc m0 p = Some l}" for l
    by (rule image_mono) auto
  from assms(5) show ?thesis
  proof (cases rule: protect_page_cases)
    case skip
    have none: "page_loc m0 (of_nat j) = None" using skip(1) pl page_of_base [OF j] by simp
    show ?thesis
      unfolding built_upto_def f(1,2) skip(2)
      using I none eq mono by (metis (no_types, lifting) option.distinct(1) order_trans)
  next
    case (mark l)
    let ?pg = "code_page_at m l" and ?b = "push_bit 12 (of_nat j) :: u32"
    let ?pg' = "mark_page 0 (4096 * j) (4096 * (j + 1)) (4096 * j) ?pg"
    have l: "page_loc m0 (of_nat j) = Some l" using mark(1) pl page_of_base [OF j] by simp
    have d: "distinct (cp_exec_page ?pg)" "set (cp_exec_page ?pg) \<subseteq>
        push_bit 12 ` {p. PREDECODE_BASE \<le> unat p * 4096 \<and> unat p < j \<and> page_loc m0 p = Some l}"
      using I by blast+
    have "length (cp_exec_page ?pg) < CODE_EXEC_ALIASES"
      by (rule alias_room [OF assms(2) win l d(1)]) (use d(2) uj in simp)
    then have ex: "cp_exec_page ?pg' = (if ?b \<in> set (cp_exec_page ?pg) then cp_exec_page ?pg
        else cp_exec_page ?pg @ [?b])"
      by (simp only: mark_page_def base_of_page [OF j]) simp
    have "(4096 * (j + 1) - 1 - 4096 * j) div 32 = 127" by simp
    then have pg': "cp_diverted ?pg'" "fully_marked (cp_chunks ?pg' 0)" "?b \<in> set (cp_exec_page ?pg')"
      "distinct (cp_exec_page ?pg')" "set (cp_exec_page ?pg') = insert ?b (set (cp_exec_page ?pg))"
      using mark_all_chunks d(1) unfolding ex by (auto simp: mark_page_def)
    have bj: "?b \<in> push_bit 12 ` {p. PREDECODE_BASE \<le> unat p * 4096 \<and> unat p < Suc j \<and> page_loc m0 p = Some l}"
      using l assms(3) uj by (intro imageI) simp
    show ?thesis
      unfolding built_upto_def f(1,2) mark(2)
    proof (intro conjI allI impI)
      fix p k assume p: "PREDECODE_BASE \<le> unat p * 4096" "unat p < Suc j" "page_loc m0 p = Some k"
      have "k = l \<and> p = of_nat j \<or> unat p < j" using p eq l by (metis option.inject)
      then show "cp_diverted (((code_page_at m)(l := ?pg')) k)"
        "fully_marked (cp_chunks (((code_page_at m)(l := ?pg')) k) 0)"
        "push_bit 12 p \<in> set (cp_exec_page (((code_page_at m)(l := ?pg')) k))"
        using I3 [OF p(1) _ p(3)] pg'(1-3,5) by (cases "k = l"; auto)+
    next
      fix k
      show "distinct (cp_exec_page (((code_page_at m)(l := ?pg')) k))" using I4(1) pg'(4) by simp
      show "set (cp_exec_page (((code_page_at m)(l := ?pg')) k)) \<subseteq>
          push_bit 12 ` {p. PREDECODE_BASE \<le> unat p * 4096 \<and> unat p < Suc j \<and> page_loc m0 p = Some k}"
        using I4(2) [of k] pg'(5) bj mono [of k] by (cases "k = l") auto
    qed (use I in simp_all)
  qed
qed

text \<open>All pages of the code window, in the order of the loop.\<close>

lemma window_segments:
  "page_segments (4096 * j) (4096 * (j + n)) =
     map (\<lambda>i. (4096 * i, 4096 * (i + 1), 4096 * i)) [j ..< j + n]"
proof (induction n arbitrary: j)
  case 0
  show ?case by (simp add: page_segments.simps)
next
  case (Suc n)
  have "page_segments (4096 * j) (4096 * (j + Suc n)) =
      (4096 * j, 4096 * (j + 1), 4096 * j) # page_segments (4096 * Suc j) (4096 * (Suc j + n))"
    by (subst page_segments.simps) (simp add: PAGE_SIZE_def Let_def add.commute)
  also have "\<dots> = map (\<lambda>i. (4096 * i, 4096 * (i + 1), 4096 * i)) (j # [Suc j ..< Suc j + n])"
    using Suc.IH [of "Suc j"] by simp
  also have "j # [Suc j ..< Suc j + n] = [j ..< j + Suc n]" by (simp add: upt_conv_Cons)
  finally show ?case .
qed

lemma built_loop:
  assumes "built_upto m0 j m" "few_aliases m0" "PREDECODE_BASE \<le> j * 4096" "(j + n) * 4096 \<le> PREDECODE_END"
  shows "built_upto m0 (j + n) (fst (fold (\<lambda>(a, hi, pb) (m, s). code_protect_page m 0 a hi pb s)
     (map (\<lambda>i. (4096 * i, 4096 * (i + 1), 4096 * i)) [j ..< j + n]) (m, scan)))"
  using assms
proof (induction n arbitrary: j m scan)
  case (Suc n)
  obtain m1 s1 where p: "code_protect_page m 0 (4096 * j) (4096 * (j + 1)) (4096 * j) scan = (m1, s1)"
    by fastforce
  have "built_upto m0 (Suc j) m1" using Suc.prems by (intro built_step [OF _ _ _ _ p]) simp_all
  then have "built_upto m0 (Suc j + n) (fst (fold (\<lambda>(a, hi, pb) (m, s). code_protect_page m 0 a hi pb s)
     (map (\<lambda>i. (4096 * i, 4096 * (i + 1), 4096 * i)) [Suc j ..< Suc j + n]) (m1, s1)))"
    using Suc.prems by (intro Suc.IH) simp_all
  moreover have "[j ..< j + Suc n] = j # [Suc j ..< Suc j + n]" by (simp add: upt_conv_Cons)
  ultimately show ?case using p by simp
qed simp

lemma built_tracked:
  assumes "built_upto m0 (PREDECODE_END div 4096) m" "page_loc m0 (of_nat (PREDECODE_END div 4096)) = None"
  shows "code_tracked m"
proof -
  note I = assms(1) [unfolded built_upto_def]
  have pl: "page_loc m = page_loc m0" using I by (intro page_loc_cong) simp_all
  have "unat p < PREDECODE_END div 4096" if "in_code_window p" "page_loc m0 p = Some l" for p l
  proof -
    have "p \<noteq> of_nat (PREDECODE_END div 4096)" using assms(2) that(2) by auto
    then have "unat p \<noteq> PREDECODE_END div 4096" by (metis of_nat_unat_eq)
    then show ?thesis using that(1) by (simp add: in_code_window_def PREDECODE_END_def)
  qed
  then show ?thesis using I unfolding code_tracked_def pl in_code_window_def by blast
qed

lemma tracked_cong:
  "page_table m = page_table m' \<Longrightarrow> backing_size m = backing_size m' \<Longrightarrow> code_state m = code_state m' \<Longrightarrow>
     code_tracked m = code_tracked m'"
  using page_loc_cong [of m m'] code_page_at_cong [of m m'] by (simp add: code_tracked_def)

lemma protect_tracked:
  assumes "few_aliases m" "page_loc m (of_nat (PREDECODE_END div 4096)) = None"
    and "\<And>l. cp_exec_page (code_page_at m l) = []"
  shows "code_tracked (mem_code_protect m (of_nat PREDECODE_BASE) (of_nat (PREDECODE_END - PREDECODE_BASE))
     MEM_CODE_PREDECODE)"
proof -
  define b where "b = PREDECODE_BASE div 4096"
  define n where "n = (PREDECODE_END - PREDECODE_BASE) div 4096"
  have bn: "PREDECODE_BASE = 4096 * b" "PREDECODE_END = 4096 * (b + n)"
    by (simp_all add: b_def n_def PREDECODE_BASE_def PREDECODE_END_def)
  let ?step = "\<lambda>(a, hi, pb) (m, s). code_protect_page m 0 a hi pb s"
  let ?segs = "map (\<lambda>i. (4096 * i, 4096 * (i + 1), 4096 * i)) [b ..< b + n]"
  have segs: "page_segments PREDECODE_BASE PREDECODE_END = ?segs"
    unfolding bn by (rule window_segments)
  obtain m1 s1 where l: "fold ?step ?segs (m, False) = (m1, s1)" by fastforce
  have "built_upto m b m" using assms(3) by (simp add: built_upto_def bn(1))
  then have "built_upto m (b + n) (fst (fold ?step ?segs (m, False)))"
    using assms(1) by (intro built_loop) (simp_all add: bn)
  then have "built_upto m (PREDECODE_END div 4096) m1" unfolding l bn(2) by simp
  then have "code_tracked m1" using assms(2) by (rule built_tracked)
  moreover have "code_tracked (code_divert_scan m1) = code_tracked m1"
    by (rule tracked_cong) (simp_all add: code_divert_scan_def)
  moreover have "mem_code_protect m (of_nat PREDECODE_BASE) (of_nat (PREDECODE_END - PREDECODE_BASE))
      MEM_CODE_PREDECODE = (if s1 then code_divert_scan m1 else m1)"
  proof -
    have "unat (of_nat PREDECODE_BASE :: u32) = PREDECODE_BASE"
      "unat (of_nat (PREDECODE_END - PREDECODE_BASE) :: u32) = PREDECODE_END - PREDECODE_BASE"
      by (simp_all add: PREDECODE_BASE_def PREDECODE_END_def)
    moreover have "of_nat (PREDECODE_END - PREDECODE_BASE) \<noteq> (0 :: u32)"
      "PREDECODE_BASE + (PREDECODE_END - PREDECODE_BASE) = PREDECODE_END"
      by (simp_all add: PREDECODE_BASE_def PREDECODE_END_def)
    ultimately show ?thesis
      by (simp only: mem_code_protect_def code_protect_loop_def code_kind_index.simps segs l
          Let_def prod.case if_False)
  qed
  ultimately show ?thesis by simp
qed

lemma protect_page_watchers:
  assumes "code_protect_page m k a hi pb scan = (m', s')"
  shows "code_watchers m' = code_watchers m"
  using assms
  by (auto simp: code_protect_page_def code_page_for_host_def code_page_put_def code_watchers_def Let_def
      empty_code_state_def split: option.splits prod.splits if_split_asm)

lemma protect_watchers: "code_watchers (mem_code_protect m a n k) = code_watchers m"
proof -
  have "code_watchers (fst (fold (\<lambda>(a, hi, pb) (m, s). code_protect_page m i a hi pb s) xs (m, scan))) = code_watchers m"
    for i xs scan
  proof (induction xs arbitrary: m scan)
    case (Cons x xs)
    obtain a hi pb where x: "x = (a, hi, pb)" by (cases x)
    obtain m1 s1 where p: "code_protect_page m i a hi pb scan = (m1, s1)" by fastforce
    show ?case using Cons.IH [of m1 s1] protect_page_watchers [OF p] by (simp add: x p)
  qed simp
  from this [of "code_kind_index k" "page_segments (unat a) (unat a + unat n)" False]
  show ?thesis
    by (auto simp: mem_code_protect_def code_protect_loop_def code_divert_scan_def code_watchers_def
        split: prod.splits)
qed

lemma protect_backing: "backing_size (mem_code_protect m a n k) = backing_size m"
proof -
  obtain m1 s1 where l: "code_protect_loop m (code_kind_index k) (unat a) (unat a + unat n) False = (m1, s1)"
    by fastforce
  have "backing_size m1 = backing_size m"
    using protect_fold_frame [OF l [unfolded code_protect_loop_def]] by simp
  then show ?thesis by (simp add: mem_code_protect_def l code_divert_scan_def)
qed

text \<open>Building the table on a machine whose memory has no translated code yet.\<close>

lemma build_coherent:
  assumes "t_id (target c) = FLEXE_TARGET_ESP32" "store_safe (mem c)" "pages_aligned (mem c)"
    and "code_state (mem c) = None" "few_aliases (mem c)"
    and "page_loc (mem c) (of_nat (PREDECODE_END div 4096)) = None"
  shows "code_coherent (xtensa_predecode_build c)" "page_loc (mem (xtensa_predecode_build c)) = page_loc (mem c)"
proof -
  let ?m = "snd (mem_code_watch_add (mem c) Watch_Self)"
  let ?r = "mem_code_protect ?m (of_nat PREDECODE_BASE) (of_nat (PREDECODE_END - PREDECODE_BASE)) MEM_CODE_PREDECODE"
  have r: "mem (xtensa_predecode_build c) = ?r"
    using assms(1) by (simp add: xtensa_predecode_build_def xtensa_code_watch_attach_def Let_def)
  have m: "page_table ?m = page_table (mem c)" "backing_size ?m = backing_size (mem c)"
    "code_watchers ?m = [Watch_Self]"
    using assms(4) by (simp_all add: mem_code_watch_add_def Let_def code_watchers_def empty_code_state_def CODE_WATCH_MAX_def)
  have ex: "cp_exec_page (code_page_at ?m l) = []" for l
    using assms(4) by (simp add: watch_page_at(1)) (simp add: code_page_at_def empty_code_page_def)
  have pl: "page_loc ?m = page_loc (mem c)" by (rule page_loc_cong [OF m(1,2)])
  have "few_aliases ?m" using assms(5) by (simp add: few_aliases_def pl)
  moreover have "page_loc ?m (of_nat (PREDECODE_END div 4096)) = None" using assms(6) by (simp only: pl)
  ultimately have "code_tracked ?r" using ex by (rule protect_tracked)
  moreover have "store_safe ?r" by (intro protect_safe watch_safe assms(2))
  moreover have "pages_aligned ?r" using assms(3) m(1) by (simp add: pages_aligned_def mem_code_protect_same)
  moreover have "code_watchers ?r = [Watch_Self]" by (simp only: protect_watchers m(3))
  ultimately show "code_coherent (xtensa_predecode_build c)"
    using build_agrees [OF assms(1)] by (simp add: code_coherent_def r)
  show "page_loc (mem (xtensa_predecode_build c)) = page_loc (mem c)"
    unfolding r by (intro page_loc_cong) (simp_all add: mem_code_protect_same protect_backing m)
qed

text \<open>C2. Self-modifying code. On a machine whose code window shows each RAM page at most twice, build the
  predecode table and then store to RAM any number of times, at any width, through any alias, fast
  or slow, each store inside one page, as every aligned store is: every instruction the table still
  holds is the instruction a fetch reads now. A store that crosses a page end is excluded, because
  the bus lets it change code unnoticed; the section below states what it does.\<close>

theorem self_modifying_code_coherent:
  assumes "t_id (target c) = FLEXE_TARGET_ESP32" "store_safe (mem c)" "pages_aligned (mem c)"
    and "code_state (mem c) = None" "few_aliases (mem c)"
    and "page_loc (mem c) (of_nat (PREDECODE_END div 4096)) = None"
    and "h_code_invalidate E = None" "\<forall>s \<in> set ss. ram_store (mem c) s"
    and "c' = fold (do_store E) ss (xtensa_predecode_build c)"
  shows "predecode_lookup c' a \<noteq> 0 \<longrightarrow>
     xtensa_fetch (mem c') a = Some (PREDECODE_INSN (predecode_lookup c' a), PREDECODE_ILEN (predecode_lookup c' a))"
proof
  assume w: "predecode_lookup c' a \<noteq> 0"
  note b = build_coherent [OF assms(1-6)]
  have "code_coherent (fold (do_store E) ss d)"
    if "code_coherent d" "\<forall>s \<in> set ss. ram_store (mem d) s" for d
    using that
  proof (induction ss arbitrary: d)
    case (Cons s ss)
    have st: "code_coherent (do_store E s d) \<and> page_loc (mem (do_store E s d)) = page_loc (mem d)"
      using Cons.prems by (intro do_store_coherent [OF _ _ assms(7)]) simp_all
    then show ?case using Cons by (simp add: ram_store_def)
  qed simp
  then have "code_coherent c'" using b assms(8,9) by (simp add: ram_store_def)
  then have "predecode_synced c'" by (simp add: code_coherent_def)
  then obtain insn ilen where f: "xtensa_fetch (mem c') a = Some (insn, ilen)"
    "predecode_lookup c' a = predecode_pack c' insn ilen"
    by (rule lookup_synced [OF _ refl w])
  then show "xtensa_fetch (mem c') a = Some (PREDECODE_INSN (predecode_lookup c' a), PREDECODE_ILEN (predecode_lookup c' a))"
    using predecode_pack_fields(1,2) [OF xtensa_fetch_bounds [OF f(1)], of c'] by simp
qed

section \<open>Stores that cross a page end\<close>

text \<open>
  The stores above stay inside one page, as every aligned store does. The bus performs unaligned
  stores too, and its fast path looks up only the page of the first byte: the bytes past the page
  end go to whatever lies \<open>behind\<close> that page in the host buffer, also when the guest page the
  address runs into lies elsewhere.
\<close>

definition behind :: "hptr \<Rightarrow> hptr" where
  "behind b = hptr_add b PAGE_SIZE"

lemma crossing_last:
  assumes "PAGE_SIZE < page_off a + n" "n \<le> 4"
  shows "page_off (a + of_nat n - 1) - page_off (a + of_nat n - 1) mod 4 = 0"
proof -
  have "page_off a < 4096" using page_off_less [of a] by (simp add: PAGE_SIZE_def)
  then obtain j where n: "n = Suc j" "page_off a + j < 4096 + 4" "4096 \<le> page_off a + j"
    using assms by (cases n) (auto simp: PAGE_SIZE_def)
  have "unat (a + of_nat j) mod 4096 = (unat a + j) mod 4096"
    by (simp add: unat_word_ariths unat_of_nat mod_mod_cancel mod_add_right_eq)
  then have "page_off (a + of_nat j) = (page_off a + j) mod 4096"
    by (simp add: page_off_mod mod_add_left_eq)
  also have "\<dots> = page_off a + j - 4096" using n(2,3) by (simp add: le_mod_geq)
  finally have "page_off (a + of_nat j) < 4" using n(2,3) by linarith
  then show ?thesis by (simp add: n(1))
qed

text \<open>What the journal takes for such a store: the last word of the page and the first word of the
  guest page the address runs into.\<close>

lemma crossing_note:
  assumes "PAGE_SIZE < page_off a + n" "n \<le> 4" "page_table (mem c) (page_of a) = Some b"
    and "page_table (mem c) (page_of (a + of_nat n - 1)) = Some d"
  obtains e1 e2 where "mem_journal_note (mem_journal_begin (mem c)) a (of_nat n) =
      (mem_journal_begin (mem c))\<lparr>journal := e1 @ e2\<rparr>"
    "saves (mem c) e1 (covers (hptr_add b (page_off a - page_off a mod 4)) 4)"
    "saves (mem c) e2 (covers d 4)"
proof -
  let ?m = "mem_journal_begin (mem c)" and ?l = "a + of_nat n - 1"
  have m: "page_table ?m = page_table (mem c)" "hbytes ?m = hbytes (mem c)" "journal ?m = []"
    "\<not> journal_unsafe ?m"
    by (simp_all add: mem_journal_begin_def)
  note sv = saves_cong [OF m(1,2)]
  have pa: "page_table ?m (page_of a) = Some b" using assms(3) m(1) by simp
  have r1: "\<not> journal_unsafe (mem_journal_word ?m a)" "length (journal (mem_journal_word ?m a)) = 1"
    using journal_word_room [of ?m a] pa m(3,4) by (simp_all add: MEM_JOURNAL_MAX_def)
  obtain e1 where e1: "mem_journal_word ?m a = ?m\<lparr>journal := journal ?m @ e1\<rparr>"
    "saves ?m e1 (covers (hptr_add b (page_off a - page_off a mod 4)) 4)"
    by (rule journal_word_saves [OF pa r1(1)])
  let ?m1 = "?m\<lparr>journal := journal ?m @ e1\<rparr>"
  have pl: "page_table ?m1 (page_of ?l) = Some d" using assms(4) m(1) by simp
  have "\<not> journal_unsafe (mem_journal_word ?m1 ?l)"
    using journal_word_room [of ?m1 ?l] pl r1 e1(1) m(4) by (simp add: MEM_JOURNAL_MAX_def)
  then obtain e2 where e2: "mem_journal_word ?m1 ?l = ?m1\<lparr>journal := journal ?m1 @ e2\<rparr>"
    "saves ?m1 e2 (covers (hptr_add d (page_off ?l - page_off ?l mod 4)) 4)"
    by (rule journal_word_saves [OF pl])
  have "?l AND NOT 3 \<noteq> a AND NOT 3"
  proof
    assume "?l AND NOT 3 = a AND NOT 3"
    then have "page_off ?l - page_off ?l mod 4 = page_off a - page_off a mod 4" by (metis word_base_off)
    then have "page_off a < 4" using crossing_last [OF assms(1,2)] by (simp add: mod_eq_self_iff_div_eq_0) 
    then show False using assms(1,2) by (simp add: PAGE_SIZE_def)
  qed
  then have "mem_journal_note ?m a (of_nat n) = ?m\<lparr>journal := e1 @ e2\<rparr>"
    using e1(1) e2(1) m(3) by (simp add: mem_journal_note_def Let_def)
  moreover have "saves (mem c) e2 (covers d 4)"
  proof -
    have "hptr_add d 0 = d" by (simp add: hptr_add_def)
    moreover have "saves ?m1 = saves (mem c)" by (rule saves_cong) (simp_all add: m)
    ultimately show ?thesis using e2(2) unfolding crossing_last [OF assms(1,2)] by simp
  qed
  ultimately show ?thesis using e1(2) sv by (intro that) simp_all
qed


section \<open>Witness\<close>

lemma sample_page_loc:
  "page_loc sample_mem p = (if p = 0x40080 then Some (FLEXE_MEM_SRAM, 0x70)
     else if p = 0x3FFB0 then Some (FLEXE_MEM_SRAM, 0x10) else None)"
  by (simp add: page_loc_def sample_mem_def sample_tables_def code_page_loc_def code_backings_def
      backing_slot_def PAGE_SIZE_def)

theorem self_modifying_code_coherent_witness:
  "let c' = fold (do_store sample_host) [St32 0x40080010 0x12345678, St8 0x3FFB0004 1]
              (xtensa_predecode_build sample_cpu)
   in predecode_lookup c' 0x40080010 \<noteq> 0 \<longrightarrow>
     xtensa_fetch (mem c') 0x40080010
       = Some (PREDECODE_INSN (predecode_lookup c' 0x40080010), PREDECODE_ILEN (predecode_lookup c' 0x40080010))"
proof -
  have al: "few_aliases sample_mem"
  proof -
    have "card {p. in_code_window p \<and> page_loc sample_mem p = Some l} \<le> CODE_EXEC_ALIASES" for l
    proof -
      have "{p. in_code_window p \<and> page_loc sample_mem p = Some l} \<subseteq> {0x40080, 0x3FFB0}"
        by (auto simp: sample_page_loc split: if_split_asm)
      from card_mono [OF _ this] show ?thesis by (simp add: CODE_EXEC_ALIASES_def)
    qed
    then show ?thesis by (simp add: few_aliases_def)
  qed
  have st: "store_safe sample_mem"
    by (simp add: store_safe_def sample_mem_def host_page_diverted_def)
  have pa: "pages_aligned sample_mem"
    by (auto simp: pages_aligned_def sample_mem_def sample_tables_def PAGE_SIZE_def split: if_split_asm)
  show ?thesis
    unfolding Let_def
  proof (rule self_modifying_code_coherent [OF _ _ _ _ _ _ _ _ refl])
    show "\<forall>s \<in> set [St32 0x40080010 0x12345678, St8 0x3FFB0004 1]. ram_store (mem sample_cpu) s"
      by (simp add: ram_store_def sample_page_loc page_of_def page_off_def PAGE_SIZE_def)
    show "page_loc (mem sample_cpu) (of_nat (PREDECODE_END div 4096)) = None"
      by (simp add: sample_page_loc PREDECODE_END_def)
    show "t_id (target sample_cpu) = FLEXE_TARGET_ESP32" by code_simp
  qed (use al st pa in \<open>simp_all add: sample_host_def, simp add: sample_mem_def\<close>)
qed

text \<open>The classic map around 0x40000000: data RAM ends there, ROM follows in the guest, and the
  instruction RAM at 0x40070000 follows in the buffer.\<close>

definition edge_tables :: "u32 \<Rightarrow> hptr option" where
  "edge_tables p = (if p = 0x3FFFF then Some (Backing FLEXE_MEM_SRAM, 0x5F000)
                    else if p = 0x40000 then Some (Backing FLEXE_MEM_ROM, 0)
                    else if p = 0x40070 then Some (Backing FLEXE_MEM_SRAM, 0x60000) else None)"

definition edge_cpu :: "unit cpu" where
  "edge_cpu = sample_cpu\<lparr>mem := sample_mem\<lparr>page_table := edge_tables,
     write_page_table := edge_tables(0x40070 := None, 0x40000 := None)\<rparr>\<rparr>"


end
