(* ===== verification/Window_Calls.thy ===== *)
theory Window_Calls
  imports Exec_Core Ps_Fields Sample_States
begin

text \<open>
  The windowed call protocol across three instructions: CALLn leaves the return address and the
  rotation in the callee's a0, ENTRY rotates into the callee's window, and RETW rotates back. The
  callee's body is any computation that keeps the window registers, its own a0 and the caller's
  registers.
\<close>

section \<open>Register indices under rotation\<close>

lemma ar_idx_mod: "ar_idx wb n = (4 * unat wb + n) mod 64"
proof -
  have m: "(63 :: u32) = mask 6" by (simp add: mask_eq_exp_minus_1)
  have "unat ((wb * 4 + of_nat n) AND mask 6) = unat (wb * 4 + of_nat n) mod 64"
    by (simp add: and_mask_mod)
  also have "\<dots> = (unat wb * 4 + n) mod 64"
  proof -
    have "unat (wb * 4 + of_nat n :: u32) mod 64 = (unat wb * 4 + n mod 2 ^ 32) mod 2 ^ 32 mod 64"
      by (simp add: unat_word_ariths unat_of_nat mod_add_left_eq)
    also have "\<dots> = (unat wb * 4 + n mod 2 ^ 32) mod 64" by (simp add: mod_mod_cancel)
    also have "\<dots> = (unat wb * 4 + n mod 2 ^ 32 mod 64) mod 64" by (simp add: mod_add_right_eq)
    also have "n mod 2 ^ 32 mod 64 = n mod 64" by (simp add: mod_mod_cancel)
    finally show ?thesis by (simp add: mod_add_right_eq)
  qed
  finally show ?thesis by (simp add: ar_idx_def m mult.commute)
qed

lemma ar_idx_rotate: "ar_idx ((wb + of_nat k) AND 15) n = ar_idx wb (4 * k + n)"
proof -
  have "(4 * ((unat wb + k) mod 16) + n) mod 64 = (4 * (unat wb + k) mod 64 + n) mod 64"
    using mult_mod_right [of 4 "unat wb + k" 16] by simp
  also have "\<dots> = (4 * unat wb + (4 * k + n)) mod 64" by (simp add: mod_simps algebra_simps)
  finally show ?thesis by (simp add: ar_idx_mod unat_add_and_15)
qed

lemma mod_shift_inj:
  assumes "i < 64" "j < 64" "(a + i) mod 64 = (a + j) mod (64 :: nat)"
  shows "i = j"
proof -
  have "i = j" if "i \<le> j" "j < 64" "(a + i) mod 64 = (a + j) mod 64" for i j
  proof -
    have "64 dvd (a + j) - (a + i)" using that(1,3) mod_eq_dvd_iff_nat [of "a + i" "a + j" 64] by simp
    then have "64 dvd j - i" by simp
    then have "j - i = 0" using that(2) by (auto dest: dvd_imp_le)
    then show ?thesis using that(1) by simp
  qed
  then show ?thesis using assms by (metis nat_le_linear)
qed

lemma ar_idx_inj: "i < 64 \<Longrightarrow> j < 64 \<Longrightarrow> ar_idx wb i = ar_idx wb j \<longleftrightarrow> i = j"
  unfolding ar_idx_mod using mod_shift_inj by blast

lemma ar_read_write:
  "i < 64 \<Longrightarrow> j < 64 \<Longrightarrow> ar_read (ar_write c j v) i = (if i = j then v else ar_read c i)"
  by (simp add: ar_read_def ar_write_def ar_idx_inj)

lemma ar_write_frame [simp]:
  "pc (ar_write c n v) = pc c" "ps (ar_write c n v) = ps c" "windowbase (ar_write c n v) = windowbase c"
  "windowstart (ar_write c n v) = windowstart c" "mem (ar_write c n v) = mem c"
  "vecbase (ar_write c n v) = vecbase c" "real_window_vectors (ar_write c n v) = real_window_vectors c"
  "seed_entry_link (ar_write c n v) = seed_entry_link c"
  by (simp_all add: ar_write_def)

section \<open>The return address word\<close>

lemma link_rotation: "n < 4 \<Longrightarrow> unat (drop_bit 30 (push_bit 30 (of_nat n) OR (a AND 0x3FFFFFFF) :: u32) AND 3) = n"
proof -
  assume n: "n < 4"
  have m: "(3 :: u32) = mask 2" "(0x3FFFFFFF :: u32) = mask 30" by (simp_all add: mask_eq_exp_minus_1)
  have "drop_bit 30 (push_bit 30 (of_nat n) OR (a AND mask 30) :: u32) AND mask 2 = of_nat n AND mask 2"
    by (rule bit_word_eqI) (auto simp: bit_simps)
  then show ?thesis using n and_mask_mod [of "of_nat n :: u32" 2] by (simp add: m unat_of_nat)
qed

lemma link_address: "(push_bit 30 w OR (a AND 0x3FFFFFFF) :: u32) AND 0x3FFFFFFF = a AND 0x3FFFFFFF"
proof -
  have m: "(0x3FFFFFFF :: u32) = mask 30" by (simp add: mask_eq_exp_minus_1)
  show ?thesis unfolding m by (rule bit_word_eqI) (auto simp: bit_simps)
qed

lemma region_or: "(a AND 0xC0000000) OR (a AND 0x3FFFFFFF) = (a :: u32)"
proof -
  have "(0xC0000000 :: u32) = NOT (mask 30)" "(0x3FFFFFFF :: u32) = mask 30" by (simp_all add: mask_eq_exp_minus_1)
  then show ?thesis by (metis bit.conj_disj_distrib bit.disj_cancel_left and.right_neutral)
qed

section \<open>Call and ENTRY\<close>

lemma calln_effect:
  assumes "0 < XT_N insn"
  shows "ar_read (exec_calln c insn) (4 * XT_N insn) = push_bit 30 (of_nat (XT_N insn)) OR (pc c AND 0x3FFFFFFF)"
    "i < 4 * XT_N insn \<Longrightarrow> ar_read (exec_calln c insn) i = ar_read c i"
    "ps (exec_calln c insn) = XT_PS_SET_CALLINC (ps c) (of_nat (XT_N insn))"
    "windowbase (exec_calln c insn) = windowbase c" "windowstart (exec_calln c insn) = windowstart c"
    "mem (exec_calln c insn) = mem c" "vecbase (exec_calln c insn) = vecbase c"
    "real_window_vectors (exec_calln c insn) = real_window_vectors c"
    "seed_entry_link (exec_calln c insn) = seed_entry_link c"
proof -
  have n: "4 * XT_N insn < 64" using XT_N_less [of insn] by linarith
  show "i < 4 * XT_N insn \<Longrightarrow> ar_read (exec_calln c insn) i = ar_read c i"
    using assms n ar_idx_inj [of i "4 * XT_N insn" "windowbase c"]
    by (simp add: exec_calln_def Let_def BRANCH_TO_def ar_read_def ar_write_def mult.commute)
qed (use assms in \<open>simp_all add: exec_calln_def Let_def BRANCH_TO_def ar_read_def ar_write_def mult.commute\<close>)

text \<open>ENTRY when the guest's vectors serve overflows and none of the windows it passes is live.\<close>

lemma entry_effect:
  assumes "real_window_vectors c" "XT_PS_WOE (ps c)" "\<not> XT_PS_EXCM (ps c)"
    and "window_vectors_ready c VECOFS_WINDOW_OVERFLOW4" "\<not> seed_entry_link c"
    and "\<And>k. 1 \<le> k \<Longrightarrow> k \<le> XT_PS_CALLINC (ps c) \<Longrightarrow> \<not> win_live c (win_above c k)"
  defines "n \<equiv> XT_PS_CALLINC (ps c)"
  shows "windowbase (exec_entry E c insn) = (windowbase c + of_nat n) AND 15"
    "windowstart (exec_entry E c insn) = windowstart c OR push_bit (win_above c n) 1"
    "ar (exec_entry E c insn) = (ar c)(ar_idx (windowbase c) (entry_dst (ps c) (XT_S insn)) :=
        ar_read c (XT_S insn) - push_bit 3 (XT_IMM12 insn))"
    "pc (exec_entry E c insn) = pc c"
proof -
  have "first_live_above c n = None"
    using assms(6) by (auto simp: first_live_above_def find_None_iff n_def)
  then have f: "xtensa_try_entry_overflow_exception c (pc c - 3) = None"
    by (simp add: xtensa_try_entry_overflow_exception_def overflow_into_def n_def)
  let ?c1 = "ar_write c (entry_dst (ps c) (XT_S insn)) (ar_read c (XT_S insn) - push_bit 3 (XT_IMM12 insn))"
  have "exec_entry E c insn = entry_rotate ?c1 n"
    using assms(1-5) f by (simp add: exec_entry_def Let_def entry_seed_link_def n_def)
  then show "windowbase (exec_entry E c insn) = (windowbase c + of_nat n) AND 15"
    "windowstart (exec_entry E c insn) = windowstart c OR push_bit (win_above c n) 1"
    "ar (exec_entry E c insn) = (ar c)(ar_idx (windowbase c) (entry_dst (ps c) (XT_S insn)) :=
        ar_read c (XT_S insn) - push_bit 3 (XT_IMM12 insn))"
    "pc (exec_entry E c insn) = pc c"
    by (simp_all add: entry_rotate_def Let_def window_hazard_refresh_def win_above_def ar_write_def)
qed

text \<open>RETW into a live window.\<close>

lemma retw_live_effect:
  assumes "win_live c (retw_window c)"
  shows "pc (exec_retw E c len) = (pc c AND 0xC0000000) OR (ar_read c 0 AND 0x3FFFFFFF)"
    "windowbase (exec_retw E c len) = of_nat (retw_window c)"
    "windowstart (exec_retw E c len) = windowstart c AND NOT (push_bit (unat (windowbase c)) 1)"
    "ar (exec_retw E c len) = ar c"
  using assms by (simp_all add: exec_retw_def Let_def BRANCH_TO_def window_hazard_refresh_def)

section \<open>The round trip\<close>

text \<open>C5. A CALLn, the ENTRY of its callee and the RETW at the end of the callee, where the callee's body
  keeps the window registers, its own a0 and the caller's registers: execution continues at the
  instruction after the call, in the caller's window, with WINDOWSTART and the caller's registers
  a0 to a(4n-1) as they were.\<close>

theorem call_entry_retw_roundtrip:
  assumes "windowbase c < 16" "win_live c (unat (windowbase c))" "0 < XT_N call"
    and "real_window_vectors c" "XT_PS_WOE (ps c)" "\<not> XT_PS_EXCM (ps c)"
    and "window_vectors_ready c VECOFS_WINDOW_OVERFLOW4" "\<not> seed_entry_link c"
    and "\<forall>k \<in> {1 .. XT_N call}. \<not> win_live c (win_above c k)" "XT_S entry = 1"
    and "c2 = exec_entry E ((exec_calln c call)\<lparr>pc := entry_pc\<rparr>) entry"
    and "windowbase d = windowbase c2" "windowstart d = windowstart c2" "ar_read d 0 = ar_read c2 0"
    and "\<forall>i < 4 * XT_N call. ar d (ar_idx (windowbase c) i) = ar c2 (ar_idx (windowbase c) i)"
    and "pc d AND 0xC0000000 = pc c AND 0xC0000000"
  shows "pc (exec_retw E d len) = pc c \<and> windowbase (exec_retw E d len) = windowbase c \<and>
     windowstart (exec_retw E d len) = windowstart c \<and>
     (\<forall>i < 4 * XT_N call. ar_read (exec_retw E d len) i = ar_read c i)"
proof -
  let ?n = "XT_N call" and ?c1 = "(exec_calln c call)\<lparr>pc := entry_pc\<rparr>"
  have n: "0 < ?n" "?n < 4" using assms(3) by simp_all
  note k = calln_effect [OF assms(3)]
  have rd: "ar_read (x\<lparr>pc := p\<rparr>) i = ar_read x i" for x :: "'a cpu" and p i by (simp add: ar_read_def)
  have ps: "XT_PS_CALLINC (ps ?c1) = ?n" "XT_PS_WOE (ps ?c1)" "\<not> XT_PS_EXCM (ps ?c1)"
    using n assms(5,6) by (simp_all add: k(3))
  have wa: "win_above ?c1 j = win_above c j" "win_live ?c1 j = win_live c j" for j
    by (simp_all add: win_above_def win_live_def k(4,5))
  have ready: "window_vectors_ready ?c1 0" using assms(7) by (simp add: window_vectors_ready_def k(6,7))
  have e: "windowbase c2 = (windowbase c + of_nat ?n) AND 15"
    "windowstart c2 = windowstart c OR push_bit (win_above c ?n) 1"
    "ar c2 = (ar ?c1)(ar_idx (windowbase c) (4 * ?n + 1) := ar_read ?c1 1 - push_bit 3 (XT_IMM12 entry))"
    using entry_effect [of ?c1 E entry] ps wa ready assms(4,8,9,10) unfolding assms(11)
    by (simp_all add: k(4,5,8,9) entry_dst_def mult.commute)
  have b: "4 * ?n + 1 < 64" using n(2) by linarith
  have s: "ar_idx (windowbase c) (4 * ?n) \<noteq> ar_idx (windowbase c) (4 * ?n + 1)"
    "i < 4 * ?n \<Longrightarrow> ar_idx (windowbase c) i \<noteq> ar_idx (windowbase c) (4 * ?n + 1)" for i
    using b by (subst ar_idx_inj; linarith)+
  have a0: "ar_read d 0 = push_bit 30 (of_nat ?n) OR (pc c AND 0x3FFFFFFF)"
  proof -
    have "ar_read c2 0 = ar ?c1 (ar_idx (windowbase c) (4 * ?n))"
      using n s(1) by (simp add: ar_read_def e(1,3) ar_idx_rotate [of _ _ 0, simplified])
    then show ?thesis using assms(14) k(1) by (simp add: ar_read_def k(4))
  qed
  have rot: "retw_rotation d = ?n" 
    unfolding retw_rotation_def a0 link_rotation [OF n(2)] Let_def using n by simp
  have uw: "unat (windowbase d) = (unat (windowbase c) + ?n) mod 16"
    by (simp add: assms(12) e(1) unat_add_and_15)
  have wb: "unat (windowbase c) < 16" using assms(1) by (simp add: word_less_nat_alt)
  have rw: "retw_window d = unat (windowbase c)"
  proof -
    have "(int ((unat (windowbase c) + ?n) mod 16) - int ?n) mod 16 = int (unat (windowbase c)) mod 16"
      by (simp add: zmod_int mod_diff_left_eq)
    then show ?thesis unfolding retw_window_def rot uw using wb by (simp add: nat_mod_distrib)
  qed
  have new: "win_above c ?n = (unat (windowbase c) + ?n) mod 16" by (simp add: win_above_eq)
  have dead: "\<not> bit (windowstart c) (win_above c ?n)" using assms(9) n by (simp add: win_live_def)
  have live: "win_live d (retw_window d)"
    using assms(2) by (simp add: win_live_def rw assms(13) e(2) bit_simps)
  note r = retw_live_effect [OF live, of E len]
  have "pc (exec_retw E d len) = pc c" unfolding r(1) a0 link_address assms(16) by (rule region_or)
  moreover have "windowbase (exec_retw E d len) = windowbase c" by (simp add: r(2) rw)
  moreover have "windowstart (exec_retw E d len) = windowstart c"
    unfolding r(3) assms(13) e(2) uw new [symmetric]
    by (rule bit_word_eqI) (use dead in \<open>auto simp: bit_simps\<close>)
  moreover have "ar_read (exec_retw E d len) i = ar_read c i" if "i < 4 * ?n" for i
  proof -
    have "ar_read (exec_retw E d len) i = ar c2 (ar_idx (windowbase c) i)"
      using that assms(15) by (simp add: ar_read_def r(2,4) rw)
    also have "\<dots> = ar ?c1 (ar_idx (windowbase c) i)"
      using s(2) [OF that] by (simp add: e(3))
    also have "\<dots> = ar_read c i" using k(2) [OF that, of c] by (simp add: ar_read_def k(4))
    finally show ?thesis .
  qed
  ultimately show ?thesis by blast
qed

section \<open>Witness\<close>

text \<open>CALL8 at the sample machine's code, out of exception mode, with the vectors mapped.\<close>

definition caller_cpu :: "unit cpu" where
  "caller_cpu = sample_cpu\<lparr>ps := push_bit 18 1, pc := 0x40080803\<rparr>"

theorem call_entry_retw_roundtrip_witness:
  "let c2 = exec_entry sample_host ((exec_calln caller_cpu 0x65)\<lparr>pc := 0x40080833\<rparr>) 0x004136
   in XT_N 0x65 = 2 \<and> pc (exec_retw sample_host c2 3) = pc caller_cpu \<and>
      windowbase (exec_retw sample_host c2 3) = windowbase caller_cpu \<and>
      windowstart (exec_retw sample_host c2 3) = windowstart caller_cpu"
proof -
  have N: "XT_N 0x65 = 2" by code_simp
  have f: "windowbase caller_cpu = 0" "windowstart caller_cpu = 1" "real_window_vectors caller_cpu"
    "ps caller_cpu = push_bit 18 1" "vecbase caller_cpu = 0x40080000" "mem caller_cpu = sample_mem"
    "\<not> seed_entry_link caller_cpu" "pc caller_cpu = 0x40080803"
    by (simp_all add: caller_cpu_def sample_cpu_def xtensa_cpu_reset_for_target_def
        xtensa_cpu_init_for_target_def cpu_zero_def window_hazard_refresh_def)
  have ready: "window_vectors_ready caller_cpu 0"
    by (simp add: window_vectors_ready_def f mem_get_ptr_def sample_mem_def sample_tables_def page_of_def)
  let ?c1 = "(exec_calln caller_cpu 0x65)\<lparr>pc := 0x40080833\<rparr>"
  let ?c2 = "exec_entry sample_host ?c1 0x004136"
  have w: "XT_PS_WOE (ps caller_cpu)" "\<not> XT_PS_EXCM (ps caller_cpu)"
    by (simp_all add: f XT_PS_WOE_def XT_PS_EXCM_def)
  have dead: "\<not> win_live caller_cpu (win_above caller_cpu k)" if "k \<in> {1 .. 2}" for k
    using that by (auto simp: win_live_def win_above_eq f bit_simps)
  have k: "0 < XT_N 0x65" "XT_S 0x004136 = 1" by code_simp+
  have "pc ?c2 = pc ?c1"
  proof (rule entry_effect(4))
    show "\<not> win_live ?c1 (win_above ?c1 k)" if "1 \<le> k" "k \<le> XT_PS_CALLINC (ps ?c1)" for k
      using that dead by (simp add: win_live_def win_above_def calln_effect [OF k(1)] N CALLINC_SET [of 2, simplified])
  qed (use f ready w in \<open>simp_all add: calln_effect [OF k(1)] window_vectors_ready_def\<close>)
  then have pc: "pc ?c2 AND 0xC0000000 = pc caller_cpu AND 0xC0000000" by (simp add: f)
  have "pc (exec_retw sample_host ?c2 3) = pc caller_cpu \<and>
      windowbase (exec_retw sample_host ?c2 3) = windowbase caller_cpu \<and>
      windowstart (exec_retw sample_host ?c2 3) = windowstart caller_cpu \<and>
      (\<forall>i < 4 * XT_N 0x65. ar_read (exec_retw sample_host ?c2 3) i = ar_read caller_cpu i)"
    using f ready w dead k(1) N
    by (intro call_entry_retw_roundtrip [OF _ _ k(1) _ w ready _ _ k(2) refl refl refl refl _ pc])
       (simp_all add: win_live_def)
  then show ?thesis using N by simp
qed

end
