(* ===== verification/Timer_Facts.thy ===== *)
theory Timer_Facts
  imports Timers Sample_States
begin

text \<open>
  The CCOMPARE timers: which interrupts firing latches, that the cached event is the nearest
  armed compare, and that advancing an idle core ends and accounts for every cycle.
\<close>

section \<open>Latching\<close>

lemma bit_timer_latch:
  "bit (timer_latch c i w) b \<longleftrightarrow>
     bit w b \<or> (b = timer_int_bit i \<and> b < 32 \<and> ccompare c i \<noteq> 0 \<and> reached (ccount c) (ccompare c i))"
  by (auto simp: timer_latch_def bit_simps)

lemma timer_bits: "timer_int_bit 0 = 6" "timer_int_bit 1 = 15" "timer_int_bit (Suc 0) = 15" "timer_int_bit 2 = 16"
  by (simp_all add: timer_int_bit_def)

lemma request_irq_frame [simp]:
  "interrupt (xtensa_request_irq_check c) = interrupt c" "ccompare (xtensa_request_irq_check c) = ccompare c"
  "ccount (xtensa_request_irq_check c) = ccount c" "intenable (xtensa_request_irq_check c) = intenable c"
  "next_timer_event (xtensa_request_irq_check c) = next_timer_event c"
  by (simp_all add: xtensa_request_irq_check_def xtensa_native_chain_barrier_def Let_def)

lemma request_irq_dev [simp]: "dev (xtensa_request_irq_check c) = dev c"
  by (simp add: xtensa_request_irq_check_def xtensa_native_chain_barrier_def Let_def)

section \<open>What the device hooks keep\<close>

text \<open>
  The lines of the core itself: the three timers, the profiling and the software interrupts.
  The interrupt matrix never drives or clears them (\<open>intr_matrix_cpu_line_is_routeable\<close>,
  src/src/peripherals.c), so a device event leaves them alone; nor does a device change CCOUNT
  or a compare register. \<open>hooks_keep_core\<close> is that contract for the two hooks.
\<close>

definition core_line :: "nat \<Rightarrow> bool" where
  "core_line b \<longleftrightarrow> b \<in> {6, 7, 11, 15, 16, 29}"

definition keeps_core :: "'d cpu \<Rightarrow> 'd cpu \<Rightarrow> bool" where
  "keeps_core c d \<longleftrightarrow> ccount d = ccount c \<and> ccompare d = ccompare c \<and>
     (\<forall>b. core_line b \<longrightarrow> bit (interrupt d) b = bit (interrupt c) b)"

definition hooks_keep_core :: "'d host \<Rightarrow> bool" where
  "hooks_keep_core E \<longleftrightarrow>
     (\<forall>f c. h_periph_event E = Some f \<longrightarrow> keeps_core c (f c)) \<and>
     (\<forall>f c. h_periph_next_event E = Some f \<longrightarrow> keeps_core c (snd (f c)))"

text \<open>The machine after the event hook, and the answer of the next-event hook.\<close>

definition after_event :: "'d host \<Rightarrow> 'd cpu \<Rightarrow> 'd cpu" where
  "after_event E c = (case h_periph_event E of None \<Rightarrow> c | Some f \<Rightarrow> f c)"

definition next_answer :: "'d host \<Rightarrow> 'd cpu \<Rightarrow> u32 \<times> 'd cpu" where
  "next_answer E c = (case h_periph_next_event E of None \<Rightarrow> (UINT32_MAX, c) | Some f \<Rightarrow> f c)"

lemma keeps_core_refl [simp]: "keeps_core c c"
  by (simp add: keeps_core_def)

lemma after_event_keeps: "hooks_keep_core E \<Longrightarrow> keeps_core c (after_event E c)"
  by (simp add: hooks_keep_core_def after_event_def split: option.split)

lemma next_answer_keeps: "hooks_keep_core E \<Longrightarrow> keeps_core c (snd (next_answer E c))"
  by (simp add: hooks_keep_core_def next_answer_def split: option.split)

lemma keeps_coreD:
  "keeps_core c d \<Longrightarrow> ccount d = ccount c" "keeps_core c d \<Longrightarrow> ccompare d = ccompare c"
  "keeps_core c d \<Longrightarrow> core_line b \<Longrightarrow> bit (interrupt d) b = bit (interrupt c) b"
  by (simp_all add: keeps_core_def)

text \<open>Recomputing is the hook followed by the cached value, and the cached value is the answer of
  the hook or the nearest compare.\<close>

definition cached_event :: "'d host \<Rightarrow> 'd cpu \<Rightarrow> u32" where
  "cached_event E c = next_timer_event (xtensa_recompute_next_timer E c)"

lemma recompute_frame [simp]:
  "interrupt (xtensa_recompute_next_timer E c) = interrupt (snd (next_answer E c))"
  "ccompare (xtensa_recompute_next_timer E c) = ccompare (snd (next_answer E c))"
  "ccount (xtensa_recompute_next_timer E c) = ccount (snd (next_answer E c))"
  "intenable (xtensa_recompute_next_timer E c) = intenable (snd (next_answer E c))"
  "dev (xtensa_recompute_next_timer E c) = dev (snd (next_answer E c))"
  by (auto simp: xtensa_recompute_next_timer_def xtensa_native_chain_barrier_def next_answer_def Let_def
      split: option.split prod.split)

text \<open>The machine the event hook sees: the due timers are latched.\<close>

definition latched :: "'d cpu \<Rightarrow> 'd cpu" where
  "latched c =
     (let w = timer_latch c 2 (timer_latch c 1 (timer_latch c 0 (interrupt c)))
      in if w \<noteq> interrupt c then xtensa_request_irq_check (c\<lparr>interrupt := w\<rparr>) else c\<lparr>interrupt := w\<rparr>)"

lemma fire_timers_hooks:
  "xtensa_fire_timers E c = xtensa_recompute_next_timer E (after_event E (latched c))"
  by (simp add: xtensa_fire_timers_def latched_def after_event_def Let_def)

lemma latched_frame [simp]:
  "ccount (latched c) = ccount c" "ccompare (latched c) = ccompare c" "dev (latched c) = dev c"
  "next_timer_event (latched c) = next_timer_event c"
  "interrupt (latched c) = timer_latch c 2 (timer_latch c 1 (timer_latch c 0 (interrupt c)))"
  by (simp_all add: latched_def Let_def)

lemma fire_keeps:
  assumes "hooks_keep_core E"
  shows "keeps_core (latched c) (xtensa_fire_timers E c)"
    "keeps_core (latched c) (after_event E (latched c))"
  using after_event_keeps [OF assms, of "latched c"]
    next_answer_keeps [OF assms, of "after_event E (latched c)"]
  by (simp_all add: fire_timers_hooks keeps_core_def)

lemma fire_frame:
  assumes "hooks_keep_core E"
  shows "ccompare (xtensa_fire_timers E c) = ccompare c" "ccount (xtensa_fire_timers E c) = ccount c"
    "core_line b \<Longrightarrow> bit (interrupt (xtensa_fire_timers E c)) b =
       bit (timer_latch c 2 (timer_latch c 1 (timer_latch c 0 (interrupt c)))) b"
  using keeps_coreD [OF fire_keeps(1) [OF assms, of c]] by simp_all

section \<open>The nearest event\<close>

definition timer_armed :: "'d cpu \<Rightarrow> nat \<Rightarrow> bool" where
  "timer_armed c i \<longleftrightarrow> i < 3 \<and> ccompare c i \<noteq> 0 \<and> \<not> bit (interrupt c) (timer_int_bit i)"

definition timer_distance :: "'d cpu \<Rightarrow> nat \<Rightarrow> u32" where
  "timer_distance c i = event_distance (ccount c) (ccompare c i)"

text \<open>The scan keeps the nearest of the timers it has seen.\<close>

definition nearest :: "'d cpu \<Rightarrow> nat set \<Rightarrow> (u32 \<times> u32) option \<Rightarrow> bool" where
  "nearest c S best \<longleftrightarrow> (case best of
       None \<Rightarrow> \<forall>i \<in> S. \<not> timer_armed c i
     | Some (d, e) \<Rightarrow> \<exists>i \<in> S. timer_armed c i \<and> e = ccompare c i \<and> d = timer_distance c i \<and>
         (\<forall>j \<in> S. timer_armed c j \<longrightarrow> d \<le> timer_distance c j))"

lemma consider_nearest:
  assumes "nearest c S best" "i < 3"
  shows "nearest c (insert i S) (timer_consider c i best)"
proof (cases "timer_armed c i")
  case False
  then have "timer_consider c i best = best" using assms(2) by (auto simp: timer_consider_def timer_armed_def)
  then show ?thesis using assms False by (auto simp: nearest_def split: option.splits)
next
  case True
  then have k: "timer_consider c i best = (case best of None \<Rightarrow> Some (timer_distance c i, ccompare c i)
      | Some (bd, be) \<Rightarrow> if timer_distance c i < bd then Some (timer_distance c i, ccompare c i) else best)"
    by (simp add: timer_consider_def timer_armed_def timer_distance_def Let_def split: option.split)
  show ?thesis
  proof (cases best)
    case None
    then have "timer_consider c i best = Some (timer_distance c i, ccompare c i)" using k by simp
    then show ?thesis using assms True None by (auto simp: nearest_def)
  next
    case (Some b)
    obtain d e where b: "b = (d, e)" by (cases b)
    obtain m where m: "m \<in> S" "timer_armed c m" "e = ccompare c m" "d = timer_distance c m"
      "\<And>j. j \<in> S \<Longrightarrow> timer_armed c j \<Longrightarrow> d \<le> timer_distance c j"
      using assms(1) by (auto simp: nearest_def Some b)
    show ?thesis
    proof (cases "timer_distance c i < d")
      case True
      then have "timer_consider c i best = Some (timer_distance c i, ccompare c i)" using k Some b by simp
      then show ?thesis
        using True \<open>timer_armed c i\<close> by (auto simp: nearest_def dest!: m(5))
    next
      case False
      then have "timer_consider c i best = Some (d, e)" using k Some b by simp
      then show ?thesis using False m by (auto simp: nearest_def not_less intro!: bexI [of _ m])
    qed
  qed
qed

lemma scan_nearest: "nearest c {0, 1, 2} (fold (timer_consider c) [0, 1, 2] None)"
proof -
  have "nearest c {} None" by (simp add: nearest_def)
  from consider_nearest [OF consider_nearest [OF consider_nearest [OF this, of 0], of 1], of 2]
  show ?thesis by (simp add: insert_commute)
qed

lemma armed_cases: "timer_armed c i \<Longrightarrow> i \<in> {0, 1, 2}"
  by (auto simp: timer_armed_def)

lemma recompute_next:
  assumes "h_periph_next_event E = None"
  shows "next_timer_event (xtensa_recompute_next_timer E c) =
     (case fold (timer_consider c) [0, 1, 2] None of None \<Rightarrow> UINT32_MAX | Some (d, e) \<Rightarrow> e)"
  using assms by (simp add: xtensa_recompute_next_timer_def Let_def)

lemma recompute_cases:
  assumes "h_periph_next_event E = None"
  obtains (none) "\<And>i. \<not> timer_armed c i" "next_timer_event (xtensa_recompute_next_timer E c) = UINT32_MAX"
  | (some) i where "timer_armed c i" "next_timer_event (xtensa_recompute_next_timer E c) = ccompare c i"
      "\<And>j. timer_armed c j \<Longrightarrow> timer_distance c i \<le> timer_distance c j"
proof (cases "fold (timer_consider c) [0, 1, 2] None")
  case None
  then show ?thesis
    using scan_nearest [of c] none recompute_next [OF assms, of c] armed_cases [of c] by (force simp: nearest_def)
next
  case (Some b)
  then show ?thesis
    using scan_nearest [of c] some recompute_next [OF assms, of c] armed_cases [of c]
    by (cases b) (force simp: nearest_def)
qed

text \<open>Without peripheral deadlines, recomputing caches the compare value of the nearest armed and
  unlatched timer (a compare value of the past counts as due now), and the value no timer has
  when there is none.\<close>

theorem next_event_nearest:
  assumes "h_periph_next_event E = None"
  shows "(\<forall>i. \<not> timer_armed c i) \<and> next_timer_event (xtensa_recompute_next_timer E c) = UINT32_MAX \<or>
    (\<exists>i. timer_armed c i \<and> next_timer_event (xtensa_recompute_next_timer E c) = ccompare c i \<and>
       (\<forall>j. timer_armed c j \<longrightarrow> timer_distance c i \<le> timer_distance c j))"
  by (rule recompute_cases [OF assms, of c]) blast+

lemma ex_timer: "(\<exists>i < 3. P i) \<longleftrightarrow> P 0 \<or> P 1 \<or> P (2 :: nat)"
  by (auto simp: less_Suc_eq numeral_3_eq_3 numeral_2_eq_2)

text \<open>C17. With device hooks that keep CCOUNT, the compare registers and the core's own lines (6,
  7, 11, 15, 16 and 29, which the interrupt matrix never drives), firing latches exactly the
  timers that are due: bit 6, 15 or 16 of INTERRUPT is set afterwards if it was set before or
  its compare register is armed and CCOUNT has reached it, and the other core lines keep their
  value. The remaining lines are the devices' own; on a core without device hooks the statement
  covers them too, so no other bit changes.\<close>

theorem fire_latches_due:
  assumes "hooks_keep_core E"
    and "core_line b \<or> (h_periph_next_event E = None \<and> h_periph_event E = None)"
  shows "bit (interrupt (xtensa_fire_timers E c)) b \<longleftrightarrow>
    bit (interrupt c) b \<or> (\<exists>i < 3. b = timer_int_bit i \<and> ccompare c i \<noteq> 0 \<and> reached (ccount c) (ccompare c i))"
proof -
  have eq: "bit (interrupt (xtensa_fire_timers E c)) b =
      bit (timer_latch c 2 (timer_latch c 1 (timer_latch c 0 (interrupt c)))) b"
    using assms(2)
  proof
    assume "core_line b"
    then show ?thesis by (rule fire_frame(3) [OF assms(1)])
  next
    assume "h_periph_next_event E = None \<and> h_periph_event E = None"
    then show ?thesis by (simp add: fire_timers_hooks after_event_def next_answer_def)
  qed
  show ?thesis unfolding eq bit_timer_latch ex_timer by (auto simp: timer_bits)
qed

section \<open>Idle time\<close>

lemma reached_refl: "reached x x"
  by (simp add: reached_def)

text \<open>
  When the loop can end. After the event hook has run, the next-event hook answers that there is
  no event, or one CCOUNT has not reached, or the event the core already had cached (the loop
  then gives up), or else the device has come closer to having nothing due at this CCOUNT:
  \<open>rank\<close>, a number that depends on CCOUNT and the device, has become smaller.
\<close>

definition hooks_progress :: "'d host \<Rightarrow> (u32 \<Rightarrow> 'd \<Rightarrow> nat) \<Rightarrow> bool" where
  "hooks_progress E rank \<longleftrightarrow> (\<forall>c. case next_answer E (after_event E c) of (e, d) \<Rightarrow>
     e = UINT32_MAX \<or> \<not> reached (ccount c) e \<or> e = next_timer_event c \<or>
     rank (ccount c) (dev d) < rank (ccount c) (dev c))"

text \<open>The scan answers with a timer that is armed, so firing leaves no reached one.\<close>

lemma recompute_sources:
  "cached_event E c = UINT32_MAX \<or>
   (\<exists>i. timer_armed c i \<and> cached_event E c = ccompare c i) \<or>
   cached_event E c = fst (next_answer E c)"
proof -
  let ?best = "fold (timer_consider c) [0, 1, 2] None"
  have n: "case ?best of None \<Rightarrow> True | Some (d, e) \<Rightarrow> \<exists>i. timer_armed c i \<and> e = ccompare c i"
    using scan_nearest [of c] by (auto simp: nearest_def split: option.splits)
  then show ?thesis
    by (cases "h_periph_next_event E"; cases ?best)
      (auto simp: cached_event_def xtensa_recompute_next_timer_def next_answer_def Let_def
        simp del: fold_simps split: prod.splits if_splits option.splits)
qed

lemma fire_armed:
  assumes "hooks_keep_core E" "timer_armed (after_event E (latched c)) i"
  shows "\<not> reached (ccount c) (ccompare c i)"
proof
  assume r: "reached (ccount c) (ccompare c i)"
  note k = keeps_coreD [OF fire_keeps(2) [OF assms(1), of c]]
  have a: "i < 3" "ccompare c i \<noteq> 0" "\<not> bit (interrupt (after_event E (latched c))) (timer_int_bit i)"
    using assms(2) k(2) by (auto simp: timer_armed_def)
  then have i: "i \<in> {0, 1, 2}" by auto
  then have "core_line (timer_int_bit i)" by (auto simp: core_line_def timer_bits)
  then have "\<not> bit (timer_latch c 2 (timer_latch c 1 (timer_latch c 0 (interrupt c)))) (timer_int_bit i)"
    using a(3) k(3) by simp
  then show False using a(2) r i by (auto simp: bit_timer_latch timer_bits)
qed

text \<open>After firing, the cached event lies ahead, is the one cached before, or is a device event
  of a device that has come closer to having nothing due.\<close>

lemma fire_progress:
  fixes c :: "'d cpu"
  assumes "hooks_keep_core E" "hooks_progress E rank"
  defines "f \<equiv> xtensa_fire_timers E c"
  shows "next_timer_event f = UINT32_MAX \<or> \<not> reached (ccount f) (next_timer_event f) \<or>
    next_timer_event f = next_timer_event c \<or> rank (ccount f) (dev f) < rank (ccount c) (dev c)"
proof -
  let ?l = "latched c" let ?a = "after_event E ?l"
  have f: "next_timer_event f = cached_event E ?a" "ccount f = ccount c" "dev f = dev (snd (next_answer E ?a))"
    using fire_frame(2) [OF assms(1), of c] by (simp_all add: f_def fire_timers_hooks cached_event_def)
  consider "cached_event E ?a = UINT32_MAX" | i where "timer_armed ?a i" "cached_event E ?a = ccompare ?a i"
    | "cached_event E ?a = fst (next_answer E ?a)" using recompute_sources by blast
  then show ?thesis
  proof cases
    case 2
    then show ?thesis using fire_armed [OF assms(1), of c i] f
        keeps_coreD(2) [OF fire_keeps(2) [OF assms(1), of c]] by simp
  next
    case 3
    then show ?thesis
      using assms(2) [unfolded hooks_progress_def, rule_format, of ?l] f by (auto split: prod.splits)
  qed (simp add: f)
qed

definition idle_distance :: "'d cpu \<Rightarrow> nat" where
  "idle_distance c = (if reached (ccount c) (next_timer_event c) then 0
                      else unat (next_timer_event c - ccount c))"

definition idle_fire :: "'d host \<Rightarrow> 'd cpu \<Rightarrow> 'd cpu" where
  "idle_fire E c = xtensa_fire_timers E (c\<lparr>ccount := ccount c + of_nat (idle_distance c)\<rparr>)"

lemma idle_distance_pos: "\<not> reached (ccount c) (next_timer_event c) \<Longrightarrow> 0 < idle_distance c"
  by (auto simp: idle_distance_def reached_def unat_gt_0)

lemma idle_fire_ccount:
  "hooks_keep_core E \<Longrightarrow> ccount (idle_fire E c) = ccount c + of_nat (idle_distance c)"
  by (simp add: idle_fire_def fire_frame(2))

lemma idle_loop_step:
  "advance_idle_loop E c n =
     (if n = 0 then Some (c, 0) else if next_timer_event c = UINT32_MAX then Some (c, n)
      else if n < idle_distance c then Some (c, n)
      else if next_timer_event (idle_fire E c) = next_timer_event c \<or>
              interrupt (idle_fire E c) AND intenable (idle_fire E c) \<noteq> 0
           then Some (idle_fire E c, n - idle_distance c)
           else advance_idle_loop E (idle_fire E c) (n - idle_distance c))"
  by (subst advance_idle_loop.simps) (simp add: Let_def idle_distance_def idle_fire_def)

text \<open>What an iteration makes smaller: the cycles left, or at the same cycles the rank of a device
  whose event is due.\<close>

definition idle_rank :: "(u32 \<Rightarrow> 'd \<Rightarrow> nat) \<Rightarrow> 'd cpu \<Rightarrow> nat" where
  "idle_rank rank c = (if next_timer_event c \<noteq> UINT32_MAX \<and> reached (ccount c) (next_timer_event c)
                       then Suc (rank (ccount c) (dev c)) else 0)"

lemma idle_rank_decreases:
  assumes "hooks_keep_core E" "hooks_progress E rank"
    and "idle_distance c = 0" "next_timer_event c \<noteq> UINT32_MAX"
    and "next_timer_event (idle_fire E c) \<noteq> next_timer_event c"
  shows "idle_rank rank (idle_fire E c) < idle_rank rank c"
proof -
  have c: "idle_fire E c = xtensa_fire_timers E c" using assms(3) by (simp add: idle_fire_def)
  have r: "reached (ccount c) (next_timer_event c)" using idle_distance_pos [of c] assms(3) by auto
  have k: "ccount (xtensa_fire_timers E c) = ccount c" by (rule fire_frame(2) [OF assms(1)])
  show ?thesis using fire_progress [OF assms(1,2), of c] assms(4,5) r k by (auto simp: c idle_rank_def)
qed

lemma idle_loop_total:
  assumes "hooks_keep_core E" "hooks_progress E rank"
  shows "\<exists>c' k. advance_idle_loop E c n = Some (c', k) \<and> ccount c' + of_nat k = ccount c + of_nat n"
proof (induction "(n, idle_rank rank c)" arbitrary: c n rule: wf_induct_rule [OF wf_lex_prod [OF wf_less_than wf_less_than]])
  case (1 c n)
  let ?f = "idle_fire E c" and ?d = "idle_distance c"
  consider (stop) "n = 0 \<or> next_timer_event c = UINT32_MAX \<or> n < ?d"
    | (last) "n \<noteq> 0" "next_timer_event c \<noteq> UINT32_MAX" "?d \<le> n"
        "next_timer_event ?f = next_timer_event c \<or> interrupt ?f AND intenable ?f \<noteq> 0"
    | (go) "n \<noteq> 0" "next_timer_event c \<noteq> UINT32_MAX" "?d \<le> n"
        "next_timer_event ?f \<noteq> next_timer_event c" "interrupt ?f AND intenable ?f = 0"
    by linarith
  then show ?case
  proof cases
    case stop
    then have "advance_idle_loop E c n = Some (c, n)" unfolding idle_loop_step [of E c n] by auto
    then show ?thesis by simp
  next
    case last
    then have "advance_idle_loop E c n = Some (?f, n - ?d)" unfolding idle_loop_step [of E c n] by auto
    then show ?thesis using last(3) by (simp add: idle_fire_ccount [OF assms(1)] flip: of_nat_add)
  next
    case go
    have less: "((n - ?d, idle_rank rank ?f), (n, idle_rank rank c)) \<in> less_than <*lex*> less_than"
      using go(1,3) idle_rank_decreases [OF assms _ go(2,4)] by (cases "?d = 0") auto
    have eq: "advance_idle_loop E c n = advance_idle_loop E ?f (n - ?d)"
      using go unfolding idle_loop_step [of E c n] by simp
    show ?thesis using 1 [OF less] go(3)
      unfolding eq idle_fire_ccount [OF assms(1)] by (simp add: add.assoc flip: of_nat_add)
  qed
qed

text \<open>C15. Advancing an idle core by any number of cycles returns, whatever the compare registers
  and the cached event hold, and CCOUNT moves by exactly that number. The device hooks may be
  installed: they keep CCOUNT, the compare registers and the core's own lines, and a device
  whose event is due at this CCOUNT comes closer to having none due each time its event hook
  runs, unless it answers with the event that was cached already. A core without device hooks
  has no condition.\<close>

theorem advance_idle_total:
  assumes "(h_periph_next_event E = None \<and> h_periph_event E = None) \<or>
     (hooks_keep_core E \<and> (\<exists>rank. hooks_progress E rank))"
  shows "\<exists>c'. xtensa_advance_idle_cycles E c cycles = Some c' \<and>
     ccount c' = ccount c + of_nat (unat cycles)"
proof -
  have "hooks_keep_core E" "\<exists>rank. hooks_progress E rank"
    using assms by (auto simp: hooks_keep_core_def hooks_progress_def next_answer_def)
  then obtain rank where h: "hooks_keep_core E" "hooks_progress E rank" by blast
  obtain c' k where l: "advance_idle_loop E c (unat cycles) = Some (c', k)"
    "ccount c' + of_nat k = ccount c + of_nat (unat cycles)"
    using idle_loop_total [OF h] by blast
  show ?thesis
    unfolding xtensa_advance_idle_cycles_def l(1) option.case prod.case l(2) [symmetric]
    by (cases "k = 0") (simp_all add: fire_frame(2) [OF h(1)])
qed

section \<open>Witnesses\<close>

lemma sample_hooks: "h_periph_next_event sample_host = None" "h_periph_event sample_host = None"
  by (simp_all add: sample_host_def)

theorem next_event_nearest_witness:
  "next_timer_event (xtensa_recompute_next_timer sample_host
      (sample_cpu\<lparr>ccompare := (\<lambda>i. if i = 1 then 500 else 0)\<rparr>)) = 500"
proof -
  let ?c = "sample_cpu\<lparr>ccompare := (\<lambda>i. if i = 1 then 500 else 0)\<rparr>"
  have i: "interrupt sample_cpu = 0" by (simp add: sample_defs window_hazard_refresh_def)
  then have a: "timer_armed ?c i \<longleftrightarrow> i = 1" for i by (auto simp: timer_armed_def)
  show ?thesis using next_event_nearest [OF sample_hooks(1), of ?c] unfolding a by auto
qed

text \<open>A device behind the hooks: an alarm of period 100 that raises the routeable line 20 and
  rearms itself. Its next alarm is never due right after its event ran.\<close>

definition alarm_event :: "u32 cpu \<Rightarrow> u32 cpu" where
  "alarm_event c = (if reached (ccount c) (dev c)
     then xtensa_request_irq_check (c\<lparr>dev := ccount c + 100, interrupt := interrupt c OR 0x100000\<rparr>) else c)"

definition alarm_host :: "u32 host" where
  "alarm_host = \<lparr>h_mmio_read = (\<lambda>_ _ _ c. (0, c)), h_mmio_write = (\<lambda>_ _ _ _ c. c),
     h_mmio_masked_write = (\<lambda>_ _ _ _ _ c. c), h_peer_watch = (\<lambda>_ _ _ _ _ c. c),
     h_code_invalidate = None, h_periph_next_event = Some (\<lambda>c. (dev c, c)),
     h_periph_event = Some alarm_event, h_pc_hook = None, h_pc_hook_bitmap = None,
     h_aot_bitmap = None, h_aot_lookup = (\<lambda>_. None), h_fpu = sample_fpu\<rparr>"

definition alarm_cpu :: "u32 cpu" where
  "alarm_cpu = (xtensa_cpu_reset_for_target True esp32_target sample_mem 40)
     \<lparr>ccompare := (\<lambda>i. if i = 1 then 500 else 0), ccount := 501, next_timer_event := 500\<rparr>"

lemma alarm_line [simp]: "core_line b \<Longrightarrow> bit (w OR 0x100000 :: u32) b = bit w b"
  by (auto simp: core_line_def bit_or_iff)

lemma alarm_keeps: "hooks_keep_core alarm_host"
  by (auto simp: hooks_keep_core_def alarm_host_def keeps_core_def alarm_event_def)

lemma alarm_ahead: "\<not> reached x (x + 100)"
  by (simp add: reached_def)

lemma alarm_progress: "hooks_progress alarm_host (\<lambda>_ _. 0)"
  by (auto simp: hooks_progress_def next_answer_def after_event_def alarm_host_def alarm_event_def alarm_ahead)

theorem fire_latches_due_witness:
  "bit (interrupt (xtensa_fire_timers alarm_host alarm_cpu)) 15"
  using fire_latches_due [OF alarm_keeps, of 15 alarm_cpu]
  by (auto simp: core_line_def timer_bits reached_def alarm_cpu_def ex_timer)

theorem advance_idle_total_witness:
  "\<exists>c'. xtensa_advance_idle_cycles alarm_host alarm_cpu 1000 = Some c' \<and> ccount c' = 1501"
proof -
  have "ccount alarm_cpu = 501" by (simp add: alarm_cpu_def)
  moreover have "hooks_keep_core alarm_host \<and> (\<exists>rank. hooks_progress alarm_host rank)"
    using alarm_keeps alarm_progress by blast
  ultimately show ?thesis
    using advance_idle_total [OF disjI2, of alarm_host alarm_cpu 1000] by simp
qed

end
