(* ===== verification/Run_Facts.thy ===== *)
theory Run_Facts
  imports Run Sample_States
begin

text \<open>
  Budgets of the batch runner: its loops finish within the fuel their definitions give them, a
  halted core spends exactly the cycles it reports, and without native blocks a batch never
  spends more than its budget.
\<close>

section \<open>Halted cores\<close>

lemma halted_advance_bounds:
  assumes "0 < r"
  shows "0 < fst (halted_advance c r)" "fst (halted_advance c r) \<le> r"
proof -
  have "0 < unat (next_timer_event c - ccount c)" if "\<not> reached (ccount c) (next_timer_event c)"
  proof -
    have "next_timer_event c \<noteq> ccount c" using that by (auto simp: reached_def)
    then show ?thesis by (simp add: unat_gt_0)
  qed
  then show "0 < fst (halted_advance c r)" "fst (halted_advance c r) \<le> r"
    using assms by (auto simp: halted_advance_def Let_def)
qed

lemma halted_iter_fst: "fst (halted_iter E c r) = fst (halted_advance c r)"
  by (simp add: halted_iter_def Let_def split: prod.split)

lemma halted_step:
  assumes "executed < m"
  obtains adv c1 where "halted_iter E c (m - executed) = (adv, c1)" "0 < adv" "executed + adv \<le> m"
proof -
  obtain adv c1 where h: "halted_iter E c (m - executed) = (adv, c1)" by fastforce
  then have "adv = fst (halted_advance c (m - executed))" by (metis fst_conv halted_iter_fst)
  then show ?thesis
    using halted_advance_bounds [of "m - executed" c] assms by (intro that [OF h]) auto
qed

lemma run_halted_done:
  "executed \<le> m \<Longrightarrow> m \<le> fuel + executed \<Longrightarrow>
     (case run_halted_loop E fuel m executed c of
        (n, c') \<Rightarrow> executed \<le> n \<and> n \<le> m \<and> (\<not> halted c' \<or> \<not> running c' \<or> n = m))"
proof (induction fuel arbitrary: executed c)
  case (Suc fuel)
  show ?case
  proof (cases "halted c \<and> running c \<and> executed < m")
    case True
    then have "executed < m" by simp
    then obtain adv c1 where h: "halted_iter E c (m - executed) = (adv, c1)" "0 < adv" "executed + adv \<le> m"
      by (rule halted_step)
    then show ?thesis using Suc.IH [of "executed + adv" c1] Suc.prems True by (auto split: prod.splits)
  qed (use Suc.prems in auto)
qed auto

lemma run_halted_fuel:
  "executed \<le> m \<Longrightarrow> m \<le> fuel + executed \<Longrightarrow>
     run_halted_loop E (fuel + k) m executed c = run_halted_loop E fuel m executed c"
proof (induction fuel arbitrary: executed c)
  case 0
  then show ?case by (cases k) simp_all
next
  case (Suc fuel)
  show ?case
  proof (cases "halted c \<and> running c \<and> executed < m")
    case True
    then have "executed < m" by simp
    then obtain adv c1 where h: "halted_iter E c (m - executed) = (adv, c1)" "0 < adv" "executed + adv \<le> m"
      by (rule halted_step)
    then show ?thesis using Suc.IH [of "executed + adv" c1] Suc.prems True by simp
  qed auto
qed

text \<open>C36. A halted core returns within its budget, having advanced its cycle counter by what it reports,
  and stops early only because an interrupt woke it or something stopped the core.\<close>

theorem run_halted_outcome:
  assumes "xtensa_run_halted E c cc m = (n, c', cc')"
  shows "n \<le> m \<and> cc' = cc + of_nat n \<and> (\<not> halted c' \<or> \<not> running c' \<or> n = m)"
  using assms run_halted_done [of 0 m m E c]
  by (auto simp: xtensa_run_halted_def split: prod.splits)

section \<open>The stepping loop\<close>

lemma cached_iter_executed: "cached_iter E bps k = Some k' \<Longrightarrow> k_executed k' = k_executed k + 1"
  by (auto simp: cached_iter_def cached_retire_def Let_def split: option.splits)

lemma cached_loop_executed: "\<exists>j \<le> n. k_executed (cached_loop E bps n k) = k_executed k + of_nat j"
proof (induction n arbitrary: k)
  case (Suc n)
  show ?case
  proof (cases "cached_iter E bps k")
    case (Some k1)
    obtain j where "j \<le> n" "k_executed (cached_loop E bps n k1) = k_executed k1 + of_nat j" using Suc by blast
    then show ?thesis
      using cached_iter_executed [OF Some] by (intro exI [of _ "Suc j"]) (simp add: Some add.assoc)
  qed (auto intro: exI [of _ 0])
qed (auto intro: exI [of _ 0])

lemma run_cached_budget: "fst (xtensa_run_cached E c cc p budget) \<le> budget"
proof -
  let ?r = "unat (next_timer_event c - ccount c)"
  let ?room = "if ?r < budget then ?r else budget"
  obtain j where j: "j \<le> ?room" "k_executed (cached_loop E (breakpoints c) ?room (cached_start c p)) = of_nat j"
    using cached_loop_executed [of ?room E "breakpoints c" "cached_start c p"] by (auto simp: cached_start_def)
  have "unat (of_nat j :: u32) \<le> j" by (simp add: unat_of_nat)
  also have "j \<le> budget" using j(1) by (simp split: if_split_asm)
  finally have "unat (k_executed (cached_loop E (breakpoints c) ?room (cached_start c p))) \<le> budget" using j(2) by simp
  then show ?thesis by (simp add: xtensa_run_cached_def Let_def)
qed

lemma cached_first_budget: "fst (run_cached_first E c cc p room) \<le> room"
  by (simp add: run_cached_first_def run_cached_budget)

lemma poll_spin_budget: "fst (xtensa_run_poll_spin c cc room) \<le> room"
proof -
  have "x - x mod w \<le> x" for x w :: nat by simp
  then show ?thesis by (auto simp: xtensa_run_poll_spin_def Let_def intro: le_trans)
qed

lemma dispatch_cases:
  assumes "executed < remaining" "run_dispatch E accel remaining executed c cc p = (ex, go, c1, cc1, p1)"
  shows "go \<Longrightarrow> executed < ex" "\<not> accel \<Longrightarrow> ex \<le> remaining"
proof -
  obtain n d dc dp where k: "run_cached_first E c cc p (remaining - executed) = (n, d, dc, dp)"
    by (metis prod_cases4)
  have n: "executed + n \<le> remaining" using cached_first_budget [of E c cc p "remaining - executed"] assms(1) k by simp
  show "go \<Longrightarrow> executed < ex"
    using assms(2) by (auto simp: run_dispatch_def Let_def k split: prod.splits if_split_asm)
  show "ex \<le> remaining" if "\<not> accel"
  proof (cases "remaining \<le> executed + n \<or> (n \<noteq> 0 \<and> (run_stopped d \<or> exception d))")
    case True
    then show ?thesis using assms(2) n by (simp add: run_dispatch_def Let_def k)
  next
    case False
    obtain r c2 cc2 p2 where s: "xtensa_step_impl E d dc dp 0 = (r, c2, cc2, p2)" by (metis prod_cases4)
    show ?thesis
    proof (cases "r < 0 \<or> 1 < r")
      case True
      then show ?thesis using assms(2) False that by (auto simp: run_dispatch_def Let_def k s)
    next
      case r: False
      let ?room = "remaining - (executed + n) - 1"
      obtain m c3 cc3 where e: "step_extra c2 cc2 r ?room = (m, c3, cc3)" by (metis prod_cases3)
      have "fst (step_extra c2 cc2 r ?room) \<le> ?room"
        using r poll_spin_budget [of c2 cc2 ?room] by (simp add: step_extra_def)
      then have "m \<le> ?room" unfolding e by simp
      moreover have "ex = executed + n + m + 1"
        using assms(2) False that r e by (auto simp: run_dispatch_def Let_def k s)
      ultimately show ?thesis using False by linarith
    qed
  qed
qed

lemma run_inner_fuel:
  "remaining \<le> fuel + executed \<Longrightarrow>
     run_inner E accel (fuel + j) remaining executed c cc p = run_inner E accel fuel remaining executed c cc p"
proof (induction fuel arbitrary: executed c cc p)
  case 0
  then show ?case by (cases j) simp_all
next
  case (Suc fuel)
  obtain ex go c1 cc1 p1 where d: "run_dispatch E accel remaining executed c cc p = (ex, go, c1, cc1, p1)"
    by (metis prod_cases5)
  show ?case
    using Suc.IH [of ex c1 cc1 p1] Suc.prems dispatch_cases(1) [OF _ d] by (auto simp: d)
qed

lemma run_inner_budget:
  "executed \<le> remaining \<Longrightarrow> fst (run_inner E False fuel remaining executed c cc p) \<le> remaining"
proof (induction fuel arbitrary: executed c cc p)
  case (Suc fuel)
  obtain ex go c1 cc1 p1 where d: "run_dispatch E False remaining executed c cc p = (ex, go, c1, cc1, p1)"
    by (metis prod_cases5)
  show ?case using Suc.IH [of ex c1 cc1 p1] Suc.prems dispatch_cases(2) [OF _ d] by (simp add: d)
qed simp

section \<open>The batch\<close>

lemma run_outer_fuel:
  "m \<le> fuel + idle + ex \<Longrightarrow> run_outer E (fuel + j) m idle ex c cc p = run_outer E fuel m idle ex c cc p"
proof (induction fuel arbitrary: idle ex c cc p)
  case 0
  then show ?case by (cases j) (simp_all add: Let_def)
next
  case (Suc fuel)
  then show ?case by (auto simp: Let_def split: prod.split)
qed

text \<open>C16. The fuel in the definitions of the three loops of \<open>xtensa_run\<close> is never what ends them: more
  fuel gives the same result, so every batch returns.\<close>

theorem run_fuel_enough:
  "run_outer E (m + j) m 0 0 c cc p = run_outer E m m 0 0 c cc p \<and>
   run_inner E accel (m + j) m 0 c cc p = run_inner E accel m m 0 c cc p \<and>
   run_halted_loop E (m + j) m 0 c = run_halted_loop E m m 0 c"
  by (intro conjI run_outer_fuel run_inner_fuel run_halted_fuel) simp_all

text \<open>C37. Without accelerated blocks a pass of the stepping loop executes no more instructions than it was
  given, whatever hooks, cached runs and collapsed polling loops it meets.\<close>

theorem stepping_within_budget:
  "fst (run_inner E False fuel remaining 0 c cc p) \<le> remaining"
  by (rule run_inner_budget) simp

section \<open>Witness\<close>

theorem run_halted_outcome_witness:
  "fst (xtensa_run_halted sample_host (sample_cpu\<lparr>halted := True\<rparr>) 5 7) \<le> 7"
proof -
  obtain n c' cc' where r: "xtensa_run_halted sample_host (sample_cpu\<lparr>halted := True\<rparr>) 5 7 = (n, c', cc')"
    by (metis prod_cases3)
  show ?thesis using run_halted_outcome [OF r] by (simp add: r)
qed

end
