(* ===== verification/Window_Accel.thy ===== *)
theory Window_Accel
  imports Exec_Core
begin

text \<open>
  Native window vectors (src/src/window_accel.c): recognition of the canonical overflow and
  underflow handlers of the windowed ABI by their bytes, and the native replacement that
  moves the registers of one frame in a single call.
\<close>

section \<open>The canonical handlers\<close>

definition canonical_overflow4 :: "u8 list" where
  "canonical_overflow4 =
    [0x00, 0xC5, 0x49, 0x10, 0xD5, 0x49, 0x20, 0xE5, 0x49,
     0x30, 0xF5, 0x49, 0x00, 0x34, 0x00]"

definition canonical_underflow4 :: "u8 list" where
  "canonical_underflow4 =
    [0x00, 0xC5, 0x09, 0x10, 0xD5, 0x09, 0x20, 0xE5, 0x09,
     0x30, 0xF5, 0x09, 0x00, 0x35, 0x00]"

definition canonical_overflow8 :: "u8 list" where
  "canonical_overflow8 =
    [0x00, 0xC9, 0x49, 0x00, 0xD1, 0x09, 0x10, 0xD9, 0x49,
     0x20, 0xE9, 0x49, 0x30, 0xF9, 0x49, 0x40, 0x80, 0x49,
     0x50, 0x90, 0x49, 0x60, 0xA0, 0x49, 0x70, 0xB0, 0x49,
     0x00, 0x34, 0x00]"

definition canonical_underflow8 :: "u8 list" where
  "canonical_underflow8 =
    [0x00, 0xC9, 0x09, 0x10, 0xD9, 0x09, 0x20, 0xE9, 0x09,
     0x70, 0xD1, 0x09, 0x30, 0xF9, 0x09, 0x40, 0x87, 0x09,
     0x50, 0x97, 0x09, 0x60, 0xA7, 0x09, 0x70, 0xB7, 0x09,
     0x00, 0x35, 0x00]"

definition canonical_overflow12 :: "u8 list" where
  "canonical_overflow12 =
    [0x00, 0xCD, 0x49, 0x00, 0xD1, 0x09, 0x10, 0xDD, 0x49,
     0x20, 0xED, 0x49, 0x30, 0xFD, 0x49, 0x40, 0x40, 0x49,
     0x50, 0x50, 0x49, 0x60, 0x60, 0x49, 0x70, 0x70, 0x49,
     0x80, 0x80, 0x49, 0x90, 0x90, 0x49, 0xA0, 0xA0, 0x49,
     0xB0, 0xB0, 0x49, 0x00, 0x34, 0x00]"

definition canonical_underflow12 :: "u8 list" where
  "canonical_underflow12 =
    [0x00, 0xCD, 0x09, 0x10, 0xDD, 0x09, 0x20, 0xED, 0x09,
     0xB0, 0xD1, 0x09, 0x30, 0xFD, 0x09, 0x40, 0x4B, 0x09,
     0x50, 0x5B, 0x09, 0x60, 0x6B, 0x09, 0x70, 0x7B, 0x09,
     0x80, 0x8B, 0x09, 0x90, 0x9B, 0x09, 0xA0, 0xAB, 0x09,
     0xB0, 0xBB, 0x09, 0x00, 0x35, 0x00]"

text \<open>The comparison stops at the first difference; the loads may reach devices.\<close>

primrec code_matches_from :: "'d host \<Rightarrow> u32 \<Rightarrow> u8 list \<Rightarrow> 'd cpu \<Rightarrow> bool \<times> 'd cpu" where
  "code_matches_from E a [] c = (True, c)"
| "code_matches_from E a (b # bs) c =
     (case mem_read8 E c a of
        (v, c1) \<Rightarrow> if v \<noteq> b then (False, c1) else code_matches_from E (a + 1) bs c1)"

definition canonical_code_matches ::
  "'d host \<Rightarrow> u32 \<Rightarrow> u8 list \<Rightarrow> 'd cpu \<Rightarrow> bool \<times> 'd cpu" where
  "canonical_code_matches E addr code c =
     (if code = [] \<or> UINT32_MAX - of_nat (length code - 1) < addr then (False, c)
      else code_matches_from E addr code c)"

definition canonical_vectors :: "(u32 \<times> u8 list) list" where
  "canonical_vectors =
    [(VECOFS_WINDOW_OVERFLOW4, canonical_overflow4),
     (VECOFS_WINDOW_UNDERFLOW4, canonical_underflow4),
     (VECOFS_WINDOW_OVERFLOW8, canonical_overflow8),
     (VECOFS_WINDOW_UNDERFLOW8, canonical_underflow8),
     (VECOFS_WINDOW_OVERFLOW12, canonical_overflow12),
     (VECOFS_WINDOW_UNDERFLOW12, canonical_underflow12)]"

primrec all_vectors_match ::
  "'d host \<Rightarrow> u32 \<Rightarrow> (u32 \<times> u8 list) list \<Rightarrow> 'd cpu \<Rightarrow> bool \<times> 'd cpu" where
  "all_vectors_match E base [] c = (True, c)"
| "all_vectors_match E base (v # vs) c =
     (case canonical_code_matches E (base + fst v) (snd v) c of
        (ok, c1) \<Rightarrow> if ok then all_vectors_match E base vs c1 else (False, c1))"

definition xtensa_window_vectors_are_canonical ::
  "'d host \<Rightarrow> u32 \<Rightarrow> 'd cpu \<Rightarrow> bool \<times> 'd cpu" where
  "xtensa_window_vectors_are_canonical E base c =
     (if base AND 0x3FF \<noteq> 0 \<or> UINT32_MAX - 0x16A < base then (False, c)
      else all_vectors_match E base canonical_vectors c)"

section \<open>The native vectors\<close>

text \<open>A save area inside one page, through the store table for a spill.\<close>

definition ram_range :: "xmem \<Rightarrow> u32 \<Rightarrow> nat \<Rightarrow> bool \<Rightarrow> hptr option" where
  "ram_range m addr bytes store =
     (if bytes = 0 \<or> UINT32_MAX - (of_nat bytes - 1) < addr \<or>
         drop_bit 12 addr \<noteq> drop_bit 12 (addr + of_nat bytes - 1) then None
      else if store then mem_get_ptr_store m addr else mem_get_ptr_w m addr)"

definition host_word :: "xmem \<Rightarrow> hptr \<Rightarrow> nat \<Rightarrow> u32" where
  "host_word m p i = of_bytes (host_read m (hptr_add p (4 * i)) 4)"

text \<open>\<open>memcpy\<close> of the given words to consecutive words of a save area.\<close>

definition put_words :: "hptr \<Rightarrow> nat \<Rightarrow> u32 list \<Rightarrow> 'd cpu \<Rightarrow> 'd cpu" where
  "put_words p i ws c =
     fold (\<lambda>(k, w) c. host_put c (hptr_add p (4 * k)) (to_bytes 4 w))
       (zip [i ..< i + length ws] ws) c"

definition write_regs :: "nat \<Rightarrow> u32 list \<Rightarrow> 'd cpu \<Rightarrow> 'd cpu" where
  "write_regs r ws c = fold (\<lambda>(k, w) c. ar_write c k w) (zip [r ..< r + length ws] ws) c"

definition extra_offset :: "nat \<Rightarrow> u32" where
  "extra_offset n = (if n = 8 then 32 else 48)"

text \<open>The frame link of an 8- or 12-register save: the word at the caller's a1 - 12.\<close>

definition frame_link :: "xmem \<Rightarrow> u32 \<Rightarrow> u32 option" where
  "frame_link m stack =
     (if stack < 12 then None
      else map_option (\<lambda>p. host_word m p 0) (ram_range m (stack - 12) 4 False))"

text \<open>The resolved areas: the core area, and for more than four registers the link word and
  the extra area. \<open>None\<close> is one of the early \<open>return false\<close>.\<close>

definition vector_areas ::
  "'d cpu \<Rightarrow> nat \<Rightarrow> bool \<Rightarrow> (hptr \<times> (u32 \<times> hptr) option) option" where
  "vector_areas c n underflow =
     (let frame_top = ar_read c (n + 1) in
      if \<not> real_window_vectors c \<or> \<not> XT_PS_EXCM (ps c) \<or> (n \<noteq> 4 \<and> n \<noteq> 8 \<and> n \<noteq> 12)
         \<or> frame_top < 16 \<or> (\<not> underflow \<and> journal_en (mem c)) then None
      else case ram_range (mem c) (frame_top - 16) 16 (\<not> underflow) of
          None \<Rightarrow> None
        | Some core \<Rightarrow>
            if n = 4 then Some (core, None)
            else
              let stack = (if underflow then host_word (mem c) core 1 else ar_read c 1)
              in case frame_link (mem c) stack of
                   None \<Rightarrow> None
                 | Some lnk \<Rightarrow>
                     if lnk < extra_offset n then None
                     else map_option (\<lambda>x. (core, Some (lnk, x)))
                            (ram_range (mem c) (lnk - extra_offset n) ((n - 4) * 4) (\<not> underflow)))"

text \<open>RFWO or RFWU at the end of the handler.\<close>

definition vector_return :: "'d cpu \<Rightarrow> bool \<Rightarrow> 'd cpu" where
  "vector_return c underflow =
     (let w = unat (windowbase c AND 15);
          c1 = xtensa_request_irq_check (c\<lparr>ps := XT_PS_SET_EXCM (ps c) 0\<rparr>);
          c2 = c1\<lparr>windowstart := (if underflow then windowstart c1 OR push_bit w 1
                                  else windowstart c1 AND NOT (push_bit w 1))\<rparr>;
          c3 = window_hazard_refresh (c2\<lparr>windowbase := XT_PS_OWB (ps c2)\<rparr>)
      in c3\<lparr>pc := epc c3 0, pc_written := True\<rparr>)"

definition fast_underflow :: "'d cpu \<Rightarrow> nat \<Rightarrow> hptr \<Rightarrow> (u32 \<times> hptr) option \<Rightarrow> 'd cpu" where
  "fast_underflow c n core ex =
     (let c1 = host_touch c core 16;
          c2 = (case ex of None \<Rightarrow> c1 | Some (lnk, x) \<Rightarrow> host_touch c1 x ((n - 4) * 4));
          c3 = write_regs 0 (map (host_word (mem c) core) [0 ..< 4]) c2
      in case ex of
           None \<Rightarrow> c3
         | Some (lnk, x) \<Rightarrow> write_regs 4 (map (host_word (mem c) x) [0 ..< n - 4]) c3)"

definition fast_overflow :: "'d cpu \<Rightarrow> nat \<Rightarrow> hptr \<Rightarrow> (u32 \<times> hptr) option \<Rightarrow> 'd cpu" where
  "fast_overflow c n core ex =
     (let regs = map (ar_read c) [0 ..< n];
          c1 = put_words core 0 (take 1 regs) c;
          c2 = (case ex of None \<Rightarrow> c1 | Some (lnk, x) \<Rightarrow> ar_write c1 0 lnk);
          c3 = put_words core 1 (take 3 (drop 1 regs)) c2
      in case ex of
           None \<Rightarrow> c3
         | Some (lnk, x) \<Rightarrow> put_words x 0 (drop 4 regs) c3)"

definition xtensa_fast_window_vector :: "'d cpu \<Rightarrow> nat \<Rightarrow> bool \<Rightarrow> ('d cpu) option" where
  "xtensa_fast_window_vector c n underflow =
     (case vector_areas c n underflow of
        None \<Rightarrow> None
      | Some (core, ex) \<Rightarrow>
          Some (vector_return
                  (if underflow then fast_underflow c n core ex else fast_overflow c n core ex)
                  underflow))"

end
