(* ===== verification/Flash_Mmu.thy ===== *)
theory Flash_Mmu
  imports Bus
begin

text \<open>
  The descriptor-driven flash and PSRAM MMU (src/src/flash_mmu.c): a table of physical page
  numbers behind an MMIO window; writing an entry remaps one page of the data and of the
  instruction window and drops translations of the instruction page. The model holds the
  table beside the machine. The two attached cores share their predecode table and JIT, as
  in the session, so one invalidation serves both; independent engines are not modelled.
\<close>

record flash_mmu =
  mmu_entry :: "nat \<Rightarrow> u32"
  mmu_attached :: bool

definition flexe_flash_mmu_geometry_valid :: "flexe_target_desc \<Rightarrow> bool" where
  "flexe_flash_mmu_geometry_valid t \<longleftrightarrow>
     (let d = t_flash_mmu t; n = unat (mmu_entry_count d); sz = mmu_page_size d;
          window = n * unat sz in
      mmu_shared_instruction_data d \<and> mmu_table_base0 d \<noteq> 0 \<and> mmu_table_base1 d = 0 \<and>
      mmu_entry_count d \<noteq> 0 \<and> 4096 \<le> sz \<and> sz AND (sz - 1) = 0 \<and> sz AND 0xFFF = 0 \<and>
      t_drom_start t < t_drom_end t \<and> t_irom_start t < t_irom_end t \<and>
      window = unat (t_drom_end t - t_drom_start t) \<and>
      window = unat (t_irom_end t - t_irom_start t) \<and>
      t_peripheral_start t \<le> mmu_table_base0 d \<and> mmu_table_base0 d < t_peripheral_end t \<and>
      unat (mmu_table_base0 d) + n * 4 \<le> unat (t_peripheral_end t))"

definition flexe_flash_mmu_invalidate_code ::
  "'d host \<Rightarrow> flash_mmu \<Rightarrow> u32 \<Rightarrow> u32 \<Rightarrow> 'd cpu \<Rightarrow> 'd cpu" where
  "flexe_flash_mmu_invalidate_code E u addr sz c =
     (if mmu_attached u then xtensa_invalidate_code E c addr (unat sz) else c)"

text \<open>Where an entry sends its two pages: backing of the data and the instruction window and
  the physical offset, or nowhere.\<close>

definition mmu_destination ::
  "xmem \<Rightarrow> u32 \<Rightarrow> (flexe_mem_backing \<times> flexe_mem_backing \<times> u32) option" where
  "mmu_destination m v =
     (let d = t_flash_mmu (m_target m); sz = mmu_page_size d;
          physical = (v AND mmu_physical_page_mask d) * sz;
          psram = (mmu_target_mask d \<noteq> 0 \<and> v AND mmu_target_mask d \<noteq> 0);
          db = (if psram then FLEXE_MEM_PSRAM else FLEXE_MEM_FLASH_DATA);
          ib = (if psram then FLEXE_MEM_PSRAM else FLEXE_MEM_FLASH_INSN)
      in if v AND mmu_invalid_mask d = 0 \<and>
            physical \<le> backing_size m db \<and> sz \<le> backing_size m db - physical \<and>
            physical \<le> backing_size m ib \<and> sz \<le> backing_size m ib - physical
         then Some (db, ib, physical) else None)"

definition mmu_unmap_pages :: "xmem \<Rightarrow> u32 \<Rightarrow> u32 \<Rightarrow> u32 \<Rightarrow> xmem" where
  "mmu_unmap_pages m drom irom sz =
     snd (mem_unmap_range (snd (mem_unmap_range m drom sz)) irom sz)"

definition mmu_apply_mem :: "xmem \<Rightarrow> u32 \<Rightarrow> u32 \<Rightarrow> u32 \<Rightarrow> xmem" where
  "mmu_apply_mem m v drom irom =
     (let sz = mmu_page_size (t_flash_mmu (m_target m)) in
      case mmu_destination m v of
        None \<Rightarrow> mmu_unmap_pages m drom irom sz
      | Some (db, ib, physical) \<Rightarrow>
          (case mem_map_backing_range m drom db physical sz of
             (r, m1) \<Rightarrow>
               if r \<noteq> 0 then mmu_unmap_pages m1 drom irom sz
               else (case mem_map_backing_range m1 irom ib physical sz of
                       (r2, m2) \<Rightarrow> if r2 \<noteq> 0 then mmu_unmap_pages m2 drom irom sz else m2)))"

definition flexe_flash_mmu_apply :: "'d host \<Rightarrow> flash_mmu \<Rightarrow> nat \<Rightarrow> 'd cpu \<Rightarrow> 'd cpu" where
  "flexe_flash_mmu_apply E u i c =
     (let t = m_target (mem c); sz = mmu_page_size (t_flash_mmu t);
          drom = t_drom_start t + of_nat i * sz;
          irom = t_irom_start t + of_nat i * sz;
          c1 = c\<lparr>mem := mmu_apply_mem (mem c) (mmu_entry u i) drom irom\<rparr>
      in flexe_flash_mmu_invalidate_code E u irom sz c1)"

text \<open>The table index an MMIO address selects.\<close>

definition mmu_index :: "flexe_flash_mmu_desc \<Rightarrow> u32 \<Rightarrow> nat option" where
  "mmu_index d addr =
     (let off = addr - mmu_table_base0 d in
      if off AND 3 \<noteq> 0 \<or> unat (mmu_entry_count d) \<le> unat (off div 4) then None
      else Some (unat (off div 4)))"

definition flexe_flash_mmu_read :: "flash_mmu \<Rightarrow> flexe_target_desc \<Rightarrow> u32 \<Rightarrow> u32" where
  "flexe_flash_mmu_read u t addr =
     (case mmu_index (t_flash_mmu t) addr of None \<Rightarrow> 0 | Some i \<Rightarrow> mmu_entry u i)"

definition mmu_value_mask :: "flexe_flash_mmu_desc \<Rightarrow> u32" where
  "mmu_value_mask d = mmu_physical_page_mask d OR mmu_invalid_mask d OR mmu_target_mask d"

definition flexe_flash_mmu_write ::
  "'d host \<Rightarrow> flash_mmu \<Rightarrow> u32 \<Rightarrow> u32 \<Rightarrow> 'd cpu \<Rightarrow> flash_mmu \<times> 'd cpu" where
  "flexe_flash_mmu_write E u addr v c =
     (let d = t_flash_mmu (m_target (mem c)) in
      case mmu_index d addr of
        None \<Rightarrow> (u, c)
      | Some i \<Rightarrow>
          let v1 = v AND mmu_value_mask d in
          if mmu_entry u i = v1 then (u, c)
          else let u1 = u\<lparr>mmu_entry := (mmu_entry u)(i := v1)\<rparr>
               in (u1, flexe_flash_mmu_apply E u1 i c))"

text \<open>Creation: every entry invalid, both windows unmapped, the table registered under the
  handler numbers the caller chose for the read and write functions.\<close>

definition flexe_flash_mmu_create ::
  "xmem \<Rightarrow> nat \<Rightarrow> nat \<Rightarrow> nat \<Rightarrow> (flash_mmu \<times> xmem) option" where
  "flexe_flash_mmu_create m read_fn write_fn ctx =
     (let t = m_target m; d = t_flash_mmu t in
      if \<not> flexe_flash_mmu_geometry_valid t then None
      else
        case mem_unmap_range m (t_drom_start t) (t_drom_end t - t_drom_start t) of
          (r1, m1) \<Rightarrow>
            if r1 \<noteq> 0 then None
            else case mem_unmap_range m1 (t_irom_start t) (t_irom_end t - t_irom_start t) of
                (r2, m2) \<Rightarrow>
                  if r2 \<noteq> 0 then None
                  else case mem_register_mmio_range m2 (mmu_table_base0 d)
                              (ucast (mmu_entry_count d) * 4) (Some read_fn) (Some write_fn) ctx of
                      (r3, m3) \<Rightarrow>
                        if r3 \<noteq> 0 then None
                        else Some (\<lparr>mmu_entry = (\<lambda>_. mmu_invalid_entry d),
                                    mmu_attached = False\<rparr>, m3))"

definition flexe_flash_mmu_destroy :: "xmem \<Rightarrow> xmem" where
  "flexe_flash_mmu_destroy m =
     (let d = t_flash_mmu (m_target m) in
      snd (mem_register_mmio_range m (mmu_table_base0 d) (ucast (mmu_entry_count d) * 4)
             None None 0))"

definition flexe_flash_mmu_attach_cpus :: "flash_mmu \<Rightarrow> flash_mmu" where
  "flexe_flash_mmu_attach_cpus u = u\<lparr>mmu_attached := True\<rparr>"

text \<open>A flash range changed: invalidate each instruction page whose entry maps into it.\<close>

definition mmu_entry_in_range :: "flexe_flash_mmu_desc \<Rightarrow> u32 \<Rightarrow> nat \<Rightarrow> nat \<Rightarrow> bool" where
  "mmu_entry_in_range d v first_page last_page \<longleftrightarrow>
     v AND mmu_invalid_mask d = 0 \<and>
     \<not> (mmu_target_mask d \<noteq> 0 \<and> v AND mmu_target_mask d \<noteq> 0) \<and>
     first_page \<le> unat (v AND mmu_physical_page_mask d) \<and>
     unat (v AND mmu_physical_page_mask d) \<le> last_page"

definition flexe_flash_mmu_flash_changed ::
  "'d host \<Rightarrow> flash_mmu \<Rightarrow> u32 \<Rightarrow> u32 \<Rightarrow> 'd cpu \<Rightarrow> 'd cpu" where
  "flexe_flash_mmu_flash_changed E u off sz c =
     (if sz = 0 then c
      else
        let t = m_target (mem c); d = t_flash_mmu t; pgs = unat (mmu_page_size d);
            first_page = unat off div pgs;
            last_page = (unat off + unat sz - 1) div pgs
        in fold (\<lambda>i c. if mmu_entry_in_range d (mmu_entry u i) first_page last_page
                       then flexe_flash_mmu_invalidate_code E u
                              (t_irom_start t + of_nat i * mmu_page_size d) (mmu_page_size d) c
                       else c) [0 ..< unat (mmu_entry_count d)] c)"

end
