(* ===== verification/Bignum.thy ===== *)
theory Bignum
  imports Flexe_Prelude
begin

text \<open>
  The big-number arithmetic of src/src/mpi_stubs.c on arrays of 32-bit limbs, least
  significant first: schoolbook multiplication, comparison, subtraction and the CIOS
  Montgomery multiplication, with the 64-bit intermediate products of the code. \<open>limbs\<close> is the
  natural number an array stands for; the theorems relate every routine to arithmetic on it.
\<close>

section \<open>Routines\<close>

text \<open>\<open>(uint64_t)a * b + r + carry\<close>.\<close>

definition mac :: "u32 \<Rightarrow> u32 \<Rightarrow> u32 \<Rightarrow> u64 \<Rightarrow> u64" where
  "mac a b r carry = ucast a * ucast b + ucast r + carry"

text \<open>The inner loop of the multiplications: adds \<open>x * yi\<close> to the accumulator at limb \<open>i\<close>.\<close>

definition mac_row :: "u32 list \<Rightarrow> u32 \<Rightarrow> nat \<Rightarrow> nat \<Rightarrow> u32 list \<Rightarrow> u32 list \<times> u64" where
  "mac_row x yi i n acc =
     fold (\<lambda>j (acc, carry).
             let prod = mac (x ! j) yi (acc ! (i + j)) carry
             in (acc[i + j := ucast prod], drop_bit 32 prod)) [0 ..< n] (acc, 0)"

definition bignum_mul :: "u32 list \<Rightarrow> nat \<Rightarrow> u32 list \<Rightarrow> nat \<Rightarrow> u32 list \<Rightarrow> nat \<Rightarrow> u32 list" where
  "bignum_mul x xw y yw result rw =
     fold (\<lambda>i res. let (res1, carry) = mac_row x (y ! i) i xw res
                   in if i + xw < rw then res1[i + xw := ucast carry] else res1)
       [0 ..< yw] (replicate rw 0 @ drop rw result)"

fun bignum_gte :: "u32 list \<Rightarrow> u32 list \<Rightarrow> nat \<Rightarrow> bool" where
  "bignum_gte a b 0 = True"
| "bignum_gte a b (Suc i) =
     (if a ! i > b ! i then True else if a ! i < b ! i then False else bignum_gte a b i)"

definition sub_step :: "u32 list \<Rightarrow> u32 list \<Rightarrow> nat \<Rightarrow> u32 list \<times> u64 \<Rightarrow> u32 list \<times> u64" where
  "sub_step a b i s =
     (let diff = ucast (a ! i) - ucast (b ! i) - snd s :: u64
      in ((fst s)[i := ucast diff], drop_bit 63 diff AND 1))"

definition bignum_sub :: "u32 list \<Rightarrow> u32 list \<Rightarrow> u32 list \<Rightarrow> nat \<Rightarrow> u32 list" where
  "bignum_sub a b result n = fst (fold (sub_step a b) [0 ..< n] (result, 0))"

text \<open>Step 1 of a Montgomery round: \<open>t = t + x * y[i]\<close>.\<close>

definition mont_accumulate :: "u32 list \<Rightarrow> u32 \<Rightarrow> nat \<Rightarrow> u32 list \<Rightarrow> u32 list" where
  "mont_accumulate x yi n t =
     (let (t1, carry) = mac_row x yi 0 n t;
          sum = ucast (t1 ! n) + carry :: u64
      in t1[n := ucast sum, n + 1 := ucast (drop_bit 32 sum)])"

text \<open>Step 2: add the multiple \<open>q\<close> of the modulus that clears the lowest limb and shift down.\<close>

definition mont_reduce_loop :: "u32 list \<Rightarrow> u32 \<Rightarrow> nat \<Rightarrow> u32 list \<times> u64 \<Rightarrow> u32 list \<times> u64" where
  "mont_reduce_loop m q n s =
     fold (\<lambda>j (t, carry).
             let prod = mac q (m ! j) (t ! j) carry
             in (t[j - 1 := ucast prod], drop_bit 32 prod)) [1 ..< n] s"

definition mont_reduce :: "u32 list \<Rightarrow> u32 \<Rightarrow> nat \<Rightarrow> u32 list \<Rightarrow> u32 list" where
  "mont_reduce m m_prime n t =
     (let q = t ! 0 * m_prime;
          prod0 = ucast q * ucast (m ! 0) + ucast (t ! 0) :: u64;
          (t1, carry) = mont_reduce_loop m q n (t, drop_bit 32 prod0);
          sum = ucast (t1 ! n) + carry :: u64
      in t1[n - 1 := ucast sum, n := t1 ! (n + 1) + ucast (drop_bit 32 sum), n + 1 := 0])"

text \<open>Without memory for the work array the result is left as it was.\<close>

definition montgomery_mul ::
  "bool \<Rightarrow> u32 list \<Rightarrow> u32 list \<Rightarrow> u32 list \<Rightarrow> u32 \<Rightarrow> nat \<Rightarrow> u32 list \<Rightarrow> u32 list" where
  "montgomery_mul alloc x y m m_prime n result =
     (if \<not> alloc then result
      else
        let t = fold (\<lambda>i t. mont_reduce m m_prime n (mont_accumulate x (y ! i) n t)) [0 ..< n]
                  (replicate (n + 2) 0)
        in if t ! n \<noteq> 0 \<or> bignum_gte t m n then bignum_sub t m result n
           else take n t @ drop n result)"

section \<open>The number an array stands for\<close>

definition LIMB :: nat where "LIMB = 2 ^ 32"

lemma LIMB_pos [simp]: "0 < LIMB"
  by (simp add: LIMB_def)

primrec limbs :: "u32 list \<Rightarrow> nat" where
  "limbs [] = 0"
| "limbs (w # ws) = unat w + LIMB * limbs ws"

lemma limbs_append: "limbs (xs @ ys) = limbs xs + LIMB ^ length xs * limbs ys"
  by (induction xs) (simp_all add: algebra_simps)

lemma unat_limb: "unat (w :: u32) < LIMB"
  using unsigned_less [of w, where ?'a = nat] by (simp add: LIMB_def)

lemma limbs_less: "limbs xs < LIMB ^ length xs"
proof (induction xs)
  case (Cons w ws)
  have "unat w + LIMB * limbs ws < LIMB + LIMB * limbs ws" using unat_limb [of w] by simp
  also have "\<dots> = LIMB * (limbs ws + 1)" by (simp only: distrib_left mult_1_right add.commute)
  also have "\<dots> \<le> LIMB * LIMB ^ length ws" using Cons by (intro mult_le_mono) simp_all
  finally show ?case by simp
qed simp

lemma limbs_take_Suc: "j < length x \<Longrightarrow> limbs (take (Suc j) x) = limbs (take j x) + LIMB ^ j * unat (x ! j)"
  by (simp add: take_Suc_conv_app_nth limbs_append)

lemma limbs_replicate_0 [simp]: "limbs (replicate n 0) = 0"
  by (induction n) simp_all

lemma limbs_update:
  "i < length xs \<Longrightarrow> limbs (xs[i := v]) + LIMB ^ i * unat (xs ! i) = limbs xs + LIMB ^ i * unat v"
proof (induction xs arbitrary: i)
  case (Cons w ws)
  show ?case
  proof (cases i)
    case (Suc k)
    have "LIMB * (limbs (ws[k := v]) + LIMB ^ k * unat (ws ! k)) = LIMB * (limbs ws + LIMB ^ k * unat v)"
      using Cons Suc by simp
    then show ?thesis using Suc by (simp add: algebra_simps)
  qed simp
qed simp

lemma limbs_split: "k \<le> length xs \<Longrightarrow> limbs xs = limbs (take k xs) + LIMB ^ k * limbs (drop k xs)"
  using limbs_append [of "take k xs" "drop k xs"] by (simp add: min_def)

lemma word_split_32:
  fixes p :: u64
  shows "unat (ucast p :: u32) + LIMB * unat (drop_bit 32 p) = unat p" "unat (drop_bit 32 p) < LIMB"
    "unat (ucast p :: u32) = unat p mod LIMB" "unat (drop_bit 32 p) = unat p div LIMB"
proof -
  show "unat (ucast p :: u32) = unat p mod LIMB"
    by (simp add: LIMB_def unsigned_ucast_eq take_bit_eq_mod unat_mod_distrib flip: unsigned_take_bit_eq)
  moreover show "unat (drop_bit 32 p) = unat p div LIMB"
    by (simp only: unat_drop_bit_eq) (simp add: LIMB_def drop_bit_eq_div)
  ultimately show "unat (ucast p :: u32) + LIMB * unat (drop_bit 32 p) = unat p" by simp
  have "unat p < 2 ^ 64" using unsigned_less [of p, where ?'a = nat] by simp
  then show "unat (drop_bit 32 p) < LIMB"
    using \<open>unat (drop_bit 32 p) = unat p div LIMB\<close> by (simp add: LIMB_def div_less_iff_less_mult)
qed

lemma unat_widen [simp]: "unat (ucast (a :: u32) :: u64) = unat a"
  by (simp add: unat_eq_nat_uint uint_up_ucast is_up del: nat_uint_eq)

lemma unat_mac:
  assumes "unat carry < LIMB"
  shows "unat (mac a b r carry) = unat a * unat b + unat r + unat carry"
proof -
  have "unat a * unat b \<le> (LIMB - 1) * (LIMB - 1)"
    using unat_limb [of a] unat_limb [of b] by (intro mult_le_mono) simp_all
  then have "unat a * unat b + unat r + unat carry < 2 ^ 64"
    using assms unat_limb [of r] by (simp add: LIMB_def)
  then show ?thesis
    by (simp add: mac_def unat_word_ariths mod_simps)
qed

lemma mac_split:
  assumes "unat carry < LIMB"
  shows "unat (ucast (mac a b r carry) :: u32) + LIMB * unat (drop_bit 32 (mac a b r carry))
         = unat a * unat b + unat r + unat carry"
  using word_split_32(1) [of "mac a b r carry"] unat_mac [OF assms] by simp

section \<open>The multiplication row\<close>

lemma mac_row_Suc:
  "mac_row x yi i (Suc n) acc =
     (let (acc, carry) = mac_row x yi i n acc; prod = mac (x ! n) yi (acc ! (i + n)) carry
      in (acc[i + n := ucast prod], drop_bit 32 prod))"
  by (simp add: mac_row_def split: prod.split)

lemma mac_row_0 [simp]: "mac_row x yi i 0 acc = (acc, 0)"
  by (simp add: mac_row_def)

lemma mac_row_frame:
  "length (fst (mac_row x yi i n acc)) = length acc"
  "k < i \<or> i + n \<le> k \<Longrightarrow> fst (mac_row x yi i n acc) ! k = acc ! k"
  "unat (snd (mac_row x yi i n acc)) < LIMB"
  by (induction n arbitrary: k)
     (auto simp: mac_row_Suc Let_def word_split_32(2) nth_list_update split: prod.split)

lemma take_update: "take n (xs[k := v]) = (if k < n then (take n xs)[k := v] else take n xs)"
  by (simp add: take_update_swap list_update_beyond)

lemma power_mod_zero: "rw \<le> k \<Longrightarrow> (a + LIMB ^ k * b) mod LIMB ^ rw = a mod (LIMB ^ rw :: nat)"
proof -
  assume "rw \<le> k"
  then obtain d where "k = rw + d" using le_Suc_ex by blast
  then have "LIMB ^ k * b = LIMB ^ rw * (LIMB ^ d * b)" by (simp add: power_add)
  then show ?thesis by (simp only: mod_mult_self2)
qed

text \<open>Seen through the lowest \<open>rw\<close> limbs, a row adds the shifted product; the carry is what is
  still to be stored behind it.\<close>

lemma mac_row_value:
  fixes i :: nat and yi :: u32
  assumes "n \<le> length x" "rw \<le> length acc"
  defines "r \<equiv> \<lambda>n. mac_row x yi i n acc"
  shows "(limbs (take rw (fst (r n))) + LIMB ^ (i + n) * unat (snd (r n))) mod LIMB ^ rw =
         (limbs (take rw acc) + LIMB ^ i * (limbs (take n x) * unat yi)) mod LIMB ^ rw"
  using assms(1)
proof (induction n)
  case (Suc n)
  obtain a c where r: "mac_row x yi i n acc = (a, c)" by fastforce
  have len: "length a = length acc" and c: "unat c < LIMB"
    using mac_row_frame(1,3) [of x yi i n acc] r by simp_all
  define p where "p = mac (x ! n) yi (a ! (i + n)) c"
  have p: "unat (ucast p :: u32) + LIMB * unat (drop_bit 32 p) = unat (x ! n) * unat yi + unat (a ! (i + n)) + unat c"
    unfolding p_def using c by (rule mac_split)
  have IH: "(limbs (take rw a) + LIMB ^ (i + n) * unat c) mod LIMB ^ rw =
      (limbs (take rw acc) + LIMB ^ i * (limbs (take n x) * unat yi)) mod LIMB ^ rw"
    using Suc by (simp add: r_def r)
  have x: "LIMB ^ i * (limbs (take (Suc n) x) * unat yi) =
      LIMB ^ i * (limbs (take n x) * unat yi) + LIMB ^ (i + n) * (unat (x ! n) * unat yi)"
    using Suc.prems by (simp add: limbs_take_Suc power_add algebra_simps)
  have step: "(limbs (take rw (a[i + n := ucast p])) + LIMB ^ (i + Suc n) * unat (drop_bit 32 p)) mod LIMB ^ rw =
      (limbs (take rw a) + LIMB ^ (i + n) * unat c + LIMB ^ (i + n) * (unat (x ! n) * unat yi)) mod LIMB ^ rw"
  proof (cases "i + n < rw")
    case True
    let ?K = "LIMB ^ (i + n)"
    have "limbs ((take rw a)[i + n := ucast p]) + ?K * unat (a ! (i + n)) =
        limbs (take rw a) + ?K * unat (ucast p :: u32)"
      using True limbs_update [of "i + n" "take rw a" "ucast p"] len assms(2) by simp
    moreover have "?K * (unat (ucast p :: u32) + LIMB * unat (drop_bit 32 p)) =
        ?K * (unat (x ! n) * unat yi + unat (a ! (i + n)) + unat c)"
      using p by simp
    ultimately have "limbs ((take rw a)[i + n := ucast p]) + ?K * (LIMB * unat (drop_bit 32 p)) =
        limbs (take rw a) + ?K * unat c + ?K * (unat (x ! n) * unat yi)"
      by (simp only: distrib_left)
    then show ?thesis using True by (simp add: take_update mult.assoc mult.left_commute)
  next
    case False
    then show ?thesis by (simp add: take_update power_mod_zero del: power_Suc add_Suc_right)
  qed
  have "(limbs (take rw (fst (r (Suc n)))) + LIMB ^ (i + Suc n) * unat (snd (r (Suc n)))) mod LIMB ^ rw =
      (limbs (take rw a) + LIMB ^ (i + n) * unat c + LIMB ^ (i + n) * (unat (x ! n) * unat yi)) mod LIMB ^ rw"
    using step by (simp add: r_def mac_row_Suc r Let_def p_def)
  also have "\<dots> = (limbs (take rw acc) + LIMB ^ i * (limbs (take n x) * unat yi) + LIMB ^ (i + n) * (unat (x ! n) * unat yi)) mod LIMB ^ rw"
    using IH by (metis mod_add_left_eq)
  finally show ?case unfolding x by (simp only: add.assoc)
qed (simp add: r_def)

section \<open>Multiplication\<close>

definition mul_row :: "u32 list \<Rightarrow> nat \<Rightarrow> u32 list \<Rightarrow> nat \<Rightarrow> nat \<Rightarrow> u32 list \<Rightarrow> u32 list" where
  "mul_row x xw y rw i res =
     (let (res1, carry) = mac_row x (y ! i) i xw res
      in if i + xw < rw then res1[i + xw := ucast carry] else res1)"

lemma mul_row_frame:
  "length (mul_row x xw y rw i res) = length res"
  "i + xw < k \<Longrightarrow> mul_row x xw y rw i res ! k = res ! k"
  using mac_row_frame [where n = xw and x = x and yi = "y ! i" and i = i and acc = res]
  by (auto simp: mul_row_def Let_def split: prod.split)

lemma mul_row_value:
  assumes "xw \<le> length x" "rw \<le> length res" "i + xw < rw \<Longrightarrow> res ! (i + xw) = 0"
  shows "limbs (take rw (mul_row x xw y rw i res)) mod LIMB ^ rw =
         (limbs (take rw res) + LIMB ^ i * (limbs (take xw x) * unat (y ! i))) mod LIMB ^ rw"
proof -
  obtain a c where r: "mac_row x (y ! i) i xw res = (a, c)" by fastforce
  have fr: "length a = length res" "unat c < LIMB" "a ! (i + xw) = res ! (i + xw)"
    using mac_row_frame(1,3) [of x "y ! i" i xw res] mac_row_frame(2) [of "i + xw" i xw x "y ! i" res] r
    by simp_all
  have "limbs (take rw (mul_row x xw y rw i res)) mod LIMB ^ rw =
      (limbs (take rw a) + LIMB ^ (i + xw) * unat c) mod LIMB ^ rw"
  proof (cases "i + xw < rw")
    case True
    have u: "unat (ucast c :: u32) = unat c"
      using fr(2) by (simp add: word_split_32(3))
    have "limbs ((take rw a)[i + xw := ucast c]) + LIMB ^ (i + xw) * unat (take rw a ! (i + xw)) =
        limbs (take rw a) + LIMB ^ (i + xw) * unat (ucast c :: u32)"
      using True assms(2) fr(1) by (intro limbs_update) simp
    then show ?thesis using True fr(3) assms(3) u by (simp add: mul_row_def r take_update)
  next
    case False
    then show ?thesis by (simp add: mul_row_def r power_mod_zero)
  qed
  then show ?thesis
    using mac_row_value [where n = xw and x = x and rw = rw and acc = res and i = i and yi = "y ! i"] assms(1,2) r by simp
qed

lemma mul_rows_value:
  assumes "xw \<le> length x" "rw \<le> length res" "limbs (take rw res) = 0"
    "\<And>k. k < rw \<Longrightarrow> res ! k = 0" "n \<le> length y"
  defines "f \<equiv> fold (mul_row x xw y rw) [0 ..< n] res"
  shows "limbs (take rw f) mod LIMB ^ rw = (limbs (take xw x) * limbs (take n y)) mod LIMB ^ rw"
    "length f = length res" "\<And>k. n + xw \<le> k \<Longrightarrow> k < rw \<Longrightarrow> f ! k = 0"
  unfolding f_def using assms(5)
proof (induction n)
  case 0
  { case 1 show ?case by (simp add: assms(3)) }
  { case 2 show ?case by simp }
  { case (3 k) then show ?case using assms(4) by simp }
next
  case (Suc n)
  let ?g = "fold (mul_row x xw y rw) [0 ..< n] res"
  { case 1
    have "limbs (take rw (mul_row x xw y rw n ?g)) mod LIMB ^ rw =
        (limbs (take rw ?g) + LIMB ^ n * (limbs (take xw x) * unat (y ! n))) mod LIMB ^ rw"
      using 1 Suc assms(1,2) by (intro mul_row_value) simp_all
    also have "\<dots> = (limbs (take xw x) * limbs (take n y) + LIMB ^ n * (limbs (take xw x) * unat (y ! n))) mod LIMB ^ rw"
      using 1 Suc(1) by (metis Suc_leD mod_add_left_eq)
    finally show ?case using 1 by (simp add: limbs_take_Suc algebra_simps) }
  { case 2 then show ?case using Suc by (simp add: mul_row_frame) }
  { case (3 k) then show ?case using Suc by (simp add: mul_row_frame) }
qed

lemma bignum_mul_value:
  assumes "xw \<le> length x" "yw \<le> length y" "rw \<le> length result"
  shows "limbs (take rw (bignum_mul x xw y yw result rw)) =
         (limbs (take xw x) * limbs (take yw y)) mod LIMB ^ rw"
    "length (bignum_mul x xw y yw result rw) = length result"
proof -
  let ?r = "replicate rw 0 @ drop rw result"
  have eq: "bignum_mul x xw y yw result rw = fold (mul_row x xw y rw) [0 ..< yw] ?r"
    by (simp add: bignum_mul_def mul_row_def [abs_def])
  have "limbs (take rw ?r) = 0" "\<And>k. k < rw \<Longrightarrow> ?r ! k = 0" by (simp_all add: nth_append)
  note v = mul_rows_value [OF assms(1) _ this assms(2)]
  show l: "length (bignum_mul x xw y yw result rw) = length result"
    unfolding eq using v(2) assms(3) by simp
  have "limbs (take rw (bignum_mul x xw y yw result rw)) < LIMB ^ rw"
    using limbs_less [of "take rw (bignum_mul x xw y yw result rw)"] l assms(3) by (simp add: min_absorb2)
  then show "limbs (take rw (bignum_mul x xw y yw result rw)) =
         (limbs (take xw x) * limbs (take yw y)) mod LIMB ^ rw"
    using v(1) assms(3) by (simp add: eq)
qed

section \<open>Comparison and subtraction\<close>

lemma bignum_gte_iff:
  assumes "n \<le> length a" "n \<le> length b"
  shows "bignum_gte a b n \<longleftrightarrow> limbs (take n b) \<le> limbs (take n a)"
  using assms
proof (induction n)
  case (Suc n)
  have t: "limbs (take (Suc n) a) = limbs (take n a) + LIMB ^ n * unat (a ! n)"
    "limbs (take (Suc n) b) = limbs (take n b) + LIMB ^ n * unat (b ! n)"
    using Suc.prems by (simp_all add: limbs_take_Suc)
  have less: "limbs (take n a) < LIMB ^ n" "limbs (take n b) < LIMB ^ n"
    using limbs_less [of "take n a"] limbs_less [of "take n b"] Suc.prems by simp_all
  have step: "p + LIMB ^ n * u < q + LIMB ^ n * v" if "p < LIMB ^ n" "u < v" for p q u v :: nat
  proof -
    have "p + LIMB ^ n * u < LIMB ^ n * Suc u" using that by simp
    also have "\<dots> \<le> LIMB ^ n * v" using that by (intro mult_le_mono2) simp
    finally show ?thesis by simp
  qed
  consider "b ! n < a ! n" | "a ! n < b ! n" | "a ! n = b ! n" by fastforce
  then show ?case
  proof cases
    case 1
    then show ?thesis
      using step [OF less(2), of "unat (b ! n)" "unat (a ! n)" "limbs (take n a)"]
      by (simp add: t word_less_nat_alt less_imp_le)
  next
    case 2
    then show ?thesis
      using step [OF less(1), of "unat (a ! n)" "unat (b ! n)" "limbs (take n b)"]
      by (auto simp add: t word_less_nat_alt)
  next
    case 3
    then show ?thesis using Suc by (simp add: t)
  qed
qed simp

lemma borrow_word:
  fixes a b :: u32 and d :: u64
  assumes "unat d \<le> 1"
  defines "diff \<equiv> ucast a - ucast b - d"
  shows "unat (ucast diff :: u32) + unat b + unat d = unat a + LIMB * unat (drop_bit 63 diff AND 1)"
    "unat (drop_bit 63 diff AND 1) \<le> 1"
proof -
  define A B D where "A = uint a" and "B = uint b" and "D = uint d"
  have "int (unat d) \<le> 1" using assms(1) by linarith
  then have r: "0 \<le> A" "A < 2 ^ 32" "0 \<le> B" "B < 2 ^ 32" "0 \<le> D" "D \<le> 1"
    using uint_bounded [of a] uint_bounded [of b] by (simp_all add: A_def B_def D_def)
  have u: "uint diff = (A - B - D) mod 2 ^ 64"
    by (simp add: diff_def A_def B_def D_def uint_word_ariths uint_up_ucast is_up mod_simps)
  have d1: "drop_bit 63 diff AND 1 = of_bool (bit diff 63)"
    by (simp add: and_one_eq bit_iff_odd_drop_bit odd_iff_mod_2_eq_one)
  have lo: "uint (ucast diff :: u32) = uint diff mod 2 ^ 32"
    using arg_cong [OF word_split_32(3) [of diff], of int] by (simp add: LIMB_def zmod_int)
  have hi: "bit diff 63 \<longleftrightarrow> 2 ^ 63 \<le> uint diff"
  proof -
    have "uint diff div 2 ^ 63 = 0 \<or> uint diff div 2 ^ 63 = 1"
      using uint_bounded [of diff] by (auto simp: div_int_pos_iff zdiv_eq_0_iff)
    moreover have "bit diff 63 \<longleftrightarrow> odd (uint diff div 2 ^ 63)"
      using bit_uint_iff [of diff 63] by (simp add: bit_iff_odd [of "uint diff"])
    ultimately show ?thesis by auto
  qed
  show "unat (drop_bit 63 diff AND 1) \<le> 1" by (simp add: d1)
  have "uint (ucast diff :: u32) + B + D = A + 2 ^ 32 * of_bool (bit diff 63)"
  proof (cases "B + D \<le> A")
    case True
    then have "uint diff = A - B - D" using u r by simp
    then show ?thesis using lo hi True r by simp
  next
    case False
    then have "uint diff = A - B - D + 2 ^ 64"
      using u r mod_pos_pos_trivial [of "A - B - D + 2 ^ 64" "2 ^ 64"] by simp
    then have "uint diff = (A - B - D + 2 ^ 32) + 2 ^ 32 * (2 ^ 32 - 1)" "2 ^ 63 \<le> uint diff"
      using r by simp_all
    moreover from this(1) have "uint diff mod 2 ^ 32 = (A - B - D + 2 ^ 32) mod 2 ^ 32"
      by (simp only: mod_mult_self2)
    moreover have "(A - B - D + 2 ^ 32) mod 2 ^ 32 = A - B - D + 2 ^ 32"
      using False r by (intro mod_pos_pos_trivial) simp_all
    ultimately show ?thesis using lo hi by simp
  qed
  then have "int (unat (ucast diff :: u32) + unat b + unat d) = int (unat a + LIMB * of_bool (bit diff 63))"
    by (simp add: A_def B_def D_def LIMB_def split: if_splits)
  then show "unat (ucast diff :: u32) + unat b + unat d = unat a + LIMB * unat (drop_bit 63 diff AND 1)"
    unfolding d1 of_nat_eq_iff by simp
qed

lemma sub_loop:
  assumes "n \<le> length a" "n \<le> length b" "n \<le> length result"
  defines "s \<equiv> fold (sub_step a b) [0 ..< n] (result, 0)"
  shows "limbs (take n (fst s)) + limbs (take n b) = limbs (take n a) + LIMB ^ n * unat (snd s)"
    "length (fst s) = length result" "unat (snd s) \<le> 1" "drop n (fst s) = drop n result"
  unfolding s_def using assms(1-3)
proof (induction n)
  case (Suc n)
  define s where "s = fold (sub_step a b) [0 ..< n] (result, 0)"
  define diff :: u64 where "diff = ucast (a ! n) - ucast (b ! n) - snd s"
  have IH: "limbs (take n (fst s)) + limbs (take n b) = limbs (take n a) + LIMB ^ n * unat (snd s)"
    "length (fst s) = length result" "unat (snd s) \<le> 1" "drop n (fst s) = drop n result"
    if "Suc n \<le> length a" "Suc n \<le> length b" "Suc n \<le> length result"
    using Suc that by (simp_all add: s_def)
  have eq: "fold (sub_step a b) [0 ..< Suc n] (result, 0) =
      ((fst s)[n := ucast diff], drop_bit 63 diff AND 1)"
    by (simp add: s_def diff_def sub_step_def Let_def)
  { case 1
    then have s: "limbs (take n (fst s)) + limbs (take n b) = limbs (take n a) + LIMB ^ n * unat (snd s)"
      "length (fst s) = length result" "unat (snd s) \<le> 1" using IH by auto
    have d: "unat (ucast diff :: u32) + unat (b ! n) + unat (snd s) =
        unat (a ! n) + LIMB * unat (drop_bit 63 diff AND 1)"
      unfolding diff_def by (rule borrow_word) (rule s(3))
    have "limbs (take (Suc n) ((fst s)[n := ucast diff])) = limbs (take n (fst s)) + LIMB ^ n * unat (ucast diff :: u32)"
      using 1 s(2) by (subst limbs_take_Suc) (simp_all add: take_update)
    moreover have "limbs (take (Suc n) a) = limbs (take n a) + LIMB ^ n * unat (a ! n)"
      "limbs (take (Suc n) b) = limbs (take n b) + LIMB ^ n * unat (b ! n)"
      using 1 by (simp_all add: limbs_take_Suc)
    moreover have "LIMB ^ n * (unat (ucast diff :: u32) + unat (b ! n) + unat (snd s)) =
        LIMB ^ n * (unat (a ! n) + LIMB * unat (drop_bit 63 diff AND 1))"
      using d by simp
    ultimately show ?case
      using s(1) unfolding eq fst_conv snd_conv distrib_left power_Suc by (simp add: mult.left_commute mult.assoc) }
  { case 2 then show ?case unfolding eq by (simp add: IH) }
  { case 3 then show ?case unfolding eq snd_conv diff_def using IH(3) by (intro borrow_word) auto }
  { case 4
    then have "drop 1 (drop n (fst s)) = drop 1 (drop n result)" by (simp only: IH)
    then show ?case unfolding eq by simp }
qed simp_all

lemma bignum_sub_value:
  assumes "n \<le> length a" "n \<le> length b" "n \<le> length result" "limbs (take n b) \<le> limbs (take n a)"
  shows "limbs (take n (bignum_sub a b result n)) = limbs (take n a) - limbs (take n b)"
proof -
  define s where "s = fold (sub_step a b) [0 ..< n] (result, 0)"
  have v: "limbs (take n (fst s)) + limbs (take n b) = limbs (take n a) + LIMB ^ n * unat (snd s)"
    and l: "length (fst s) = length result"
    unfolding s_def using sub_loop [OF assms(1-3)] by simp_all
  have "limbs (take n (fst s)) < LIMB ^ n"
    using limbs_less [of "take n (fst s)"] l assms(3) by (simp add: min_absorb2)
  moreover have "limbs (take n a) < LIMB ^ n"
    using limbs_less [of "take n a"] assms(1) by (simp add: min_absorb2)
  ultimately have "unat (snd s) = 0"
    using v assms(4) sub_loop(3) [OF assms(1-3)] by (cases "unat (snd s)") (auto simp: s_def)
  then show ?thesis using v by (simp add: bignum_sub_def s_def)
qed

section \<open>Montgomery multiplication\<close>

lemma accumulate_value:
  assumes "n \<le> length x" "length t = n + 2" "t ! (n + 1) = 0"
    "limbs t + limbs (take n x) * unat yi < LIMB ^ (n + 2)"
  shows "limbs (mont_accumulate x yi n t) = limbs t + limbs (take n x) * unat yi"
    "length (mont_accumulate x yi n t) = n + 2"
proof -
  obtain a c where r: "mac_row x yi 0 n t = (a, c)" by fastforce
  have fr: "length a = n + 2" "unat c < LIMB" "a ! (n + 1) = 0"
    using mac_row_frame(1,3) [of x yi 0 n t] mac_row_frame(2) [of "n + 1" 0 n x yi t] r assms(2,3)
    by simp_all
  define sum :: u64 where "sum = ucast (a ! n) + c"
  have sum: "unat sum = unat (a ! n) + unat c"
  proof -
    have "unat (a ! n) + unat c < 2 ^ 64"
      using fr(2) unat_limb [of "a ! n"] by (simp add: LIMB_def)
    then show ?thesis by (simp add: sum_def unat_word_ariths)
  qed
  have eq: "mont_accumulate x yi n t = a[n := ucast sum, n + 1 := ucast (drop_bit 32 sum)]"
    by (simp add: mont_accumulate_def r sum_def Let_def)
  show len: "length (mont_accumulate x yi n t) = n + 2" by (simp add: eq fr)
  have hi: "unat (ucast (drop_bit 32 sum) :: u32) = unat (drop_bit 32 sum)"
    by (simp add: word_split_32(3) word_split_32(2))
  have "limbs (mont_accumulate x yi n t) + LIMB ^ (n + 1) * unat (a ! (n + 1)) =
      limbs (a[n := ucast sum]) + LIMB ^ (n + 1) * unat (drop_bit 32 sum)"
    using limbs_update [of "n + 1" "a[n := ucast sum]" "ucast (drop_bit 32 sum)"] fr
    by (simp add: eq hi)
  moreover have "limbs (a[n := ucast sum]) + LIMB ^ n * unat (a ! n) = limbs a + LIMB ^ n * unat (ucast sum :: u32)"
    using limbs_update [of n a "ucast sum"] fr by simp
  moreover have "LIMB ^ n * (unat (ucast sum :: u32) + LIMB * unat (drop_bit 32 sum)) = LIMB ^ n * (unat (a ! n) + unat c)"
    using word_split_32(1) [of sum] sum by simp
  ultimately have "limbs (mont_accumulate x yi n t) = limbs a + LIMB ^ n * unat c"
    using fr(3) by (simp add: distrib_left mult.assoc mult.left_commute)
  then have "limbs (mont_accumulate x yi n t) mod LIMB ^ (n + 2) =
      (limbs t + limbs (take n x) * unat yi) mod LIMB ^ (n + 2)"
    using mac_row_value [where n = n and x = x and rw = "n + 2" and acc = t and i = 0 and yi = yi]
      assms(1,2) r fr(1) by simp
  then show "limbs (mont_accumulate x yi n t) = limbs t + limbs (take n x) * unat yi"
    using assms(4) limbs_less [of "mont_accumulate x yi n t"] len by simp
qed

lemma reduce_loop:
  assumes "n \<le> length m" "length t = n + 2" "1 \<le> n"
    "unat q * unat (m ! 0) + unat (t ! 0) = LIMB * unat c0" "unat c0 < LIMB"
  defines "s \<equiv> \<lambda>j. mont_reduce_loop m q j (t, c0)"
  shows "1 \<le> j \<Longrightarrow> j \<le> n \<Longrightarrow>
      LIMB * limbs (take (j - 1) (fst (s j))) + LIMB ^ j * unat (snd (s j)) =
        limbs (take j t) + unat q * limbs (take j m) \<and>
      length (fst (s j)) = n + 2 \<and> unat (snd (s j)) < LIMB \<and> (\<forall>k \<ge> j. fst (s j) ! k = t ! k)"
proof (induction j rule: nat_induct_at_least [of 1])
  case base
  have "take 1 t = [t ! 0]" "take 1 m = [m ! 0]"
    using assms(1-3) by (cases t; cases m; simp)+
  then show ?case using assms(2,4,5) by (simp add: s_def mont_reduce_loop_def mult.commute)
next
  case (Suc j)
  obtain a c where r: "s j = (a, c)" by fastforce
  have IH: "LIMB * limbs (take (j - 1) a) + LIMB ^ j * unat c = limbs (take j t) + unat q * limbs (take j m)"
    "length a = n + 2" "unat c < LIMB" "\<forall>k \<ge> j. a ! k = t ! k"
    using Suc r by auto
  define p where "p = mac q (m ! j) (a ! j) c"
  have eq: "s (Suc j) = (a[j - 1 := ucast p], drop_bit 32 p)"
    using Suc.hyps r by (simp add: s_def mont_reduce_loop_def p_def Let_def)
  have p: "unat (ucast p :: u32) + LIMB * unat (drop_bit 32 p) = unat q * unat (m ! j) + unat (t ! j) + unat c"
    unfolding p_def using mac_split [OF IH(3)] IH(4) by simp
  have j: "Suc (j - 1) = j" using Suc.hyps by simp
  have "limbs (take j (a[j - 1 := ucast p])) = limbs (take (j - 1) a) + LIMB ^ (j - 1) * unat (ucast p :: u32)"
    using limbs_take_Suc [of "j - 1" "a[j - 1 := ucast p]"] Suc IH(2) j by (simp add: take_update)
  then have "LIMB * limbs (take j (a[j - 1 := ucast p])) = LIMB * limbs (take (j - 1) a) + LIMB ^ j * unat (ucast p :: u32)"
    using power_Suc [of LIMB "j - 1"] j by (simp add: distrib_left mult.assoc)
  moreover have "LIMB ^ j * (unat (ucast p :: u32) + LIMB * unat (drop_bit 32 p)) =
      LIMB ^ j * (unat q * unat (m ! j) + unat (t ! j) + unat c)"
    using p by simp
  moreover have "limbs (take (Suc j) t) = limbs (take j t) + LIMB ^ j * unat (t ! j)"
    "limbs (take (Suc j) m) = limbs (take j m) + LIMB ^ j * unat (m ! j)"
    using Suc.prems assms(1,2) by (simp_all add: limbs_take_Suc)
  ultimately have "LIMB * limbs (take j (a[j - 1 := ucast p])) + LIMB ^ Suc j * unat (drop_bit 32 p) =
      limbs (take (Suc j) t) + unat q * limbs (take (Suc j) m)"
    using IH(1) by (simp add: distrib_left mult.left_commute mult.assoc)
  then show ?case
    using IH Suc.hyps by (simp add: eq word_split_32(2))
qed

text \<open>The multiple of the modulus clears the lowest limb.\<close>

lemma reduce_low:
  fixes q m0 t0 m_prime :: u32
  assumes "m_prime * m0 = - 1" "q = t0 * m_prime"
  defines "w \<equiv> ucast q * ucast m0 + ucast t0 :: u64"
  shows "unat q * unat m0 + unat t0 = LIMB * unat (drop_bit 32 w)"
proof -
  have p: "w = mac q m0 t0 0" by (simp add: w_def mac_def)
  have "unat w = unat q * unat m0 + unat t0"
    unfolding p using unat_mac [of 0 q m0 t0] by simp
  moreover have "(ucast w :: u32) = 0"
  proof -
    have "(ucast w :: u32) = of_nat (unat w)" by (rule word_unat_eq_iff [THEN iffD2]) (simp add: word_split_32(3) unat_of_nat LIMB_def)
    also have "\<dots> = q * m0 + t0"
      by (simp add: \<open>unat w = unat q * unat m0 + unat t0\<close>)
    also have "\<dots> = t0 * (m_prime * m0) + t0" by (simp add: assms(2) mult.assoc)
    finally show ?thesis by (simp add: assms(1))
  qed
  ultimately show ?thesis using word_split_32(1) [of w] by simp
qed

lemma reduce_value:
  assumes "n \<le> length m" "length t = n + 2" "1 \<le> n" "m_prime * m ! 0 = - 1"
    "limbs t + unat (t ! 0 * m_prime) * limbs (take n m) < LIMB ^ (n + 2)"
  defines "r \<equiv> mont_reduce m m_prime n t"
  shows "LIMB * limbs r = limbs t + unat (t ! 0 * m_prime) * limbs (take n m)"
    "length r = n + 2" "r ! (n + 1) = 0"
proof -
  define q where "q = t ! 0 * m_prime"
  define c0 :: u64 where "c0 = drop_bit 32 (ucast q * ucast (m ! 0) + ucast (t ! 0))"
  obtain a c where s: "mont_reduce_loop m q n (t, c0) = (a, c)" by fastforce
  have low: "unat q * unat (m ! 0) + unat (t ! 0) = LIMB * unat c0"
    unfolding c0_def q_def by (rule reduce_low [OF assms(4) refl])
  have "unat c0 < LIMB" by (simp add: c0_def word_split_32(2))
  from reduce_loop [OF assms(1-3) low this, of n] assms(3) s
  have L: "LIMB * limbs (take (n - 1) a) + LIMB ^ n * unat c = limbs (take n t) + unat q * limbs (take n m)"
    "length a = n + 2" "unat c < LIMB" "a ! n = t ! n" "a ! (n + 1) = t ! (n + 1)"
    by simp_all
  define sum :: u64 where "sum = ucast (a ! n) + c"
  have "unat (a ! n) + unat c < 2 ^ 64"
    using L(3) unat_limb [of "a ! n"] by (simp add: LIMB_def)
  then have sum: "unat sum = unat (t ! n) + unat c" by (simp add: sum_def unat_word_ariths L(4))
  define hi :: u32 where "hi = t ! (n + 1) + ucast (drop_bit 32 sum)"
  have req: "r = a[n - 1 := ucast sum, n := hi, n + 1 := 0]"
    unfolding r_def mont_reduce_def using s L(5)
    by (simp add: q_def c0_def sum_def hi_def Let_def)
  show "length r = n + 2" "r ! (n + 1) = 0" by (simp_all add: req L(2))
  have n: "Suc (n - 1) = n" using assms(3) by simp
  have "take n r = take (n - 1) a @ [ucast sum]"
  proof -
    have "take (Suc (n - 1)) r = take (n - 1) r @ [r ! (n - 1)]"
      using L(2) n by (intro take_Suc_conv_app_nth) (simp add: req)
    then show ?thesis using n L(2) by (simp add: req take_update)
  qed
  moreover have "drop n r = [hi, 0]"
    using L(2) n by (simp add: req drop_update_swap list_eq_iff_nth_eq nth_Cons split: nat.split)
  ultimately have rv: "limbs r = limbs (take (n - 1) a) + LIMB ^ (n - 1) * unat (ucast sum :: u32) + LIMB ^ n * unat hi"
    using limbs_split [of n r] n L(2) by (simp add: limbs_append req)
  have tv: "limbs t = limbs (take n t) + LIMB ^ n * (unat (t ! n) + LIMB * unat (t ! (n + 1)))"
  proof -
    have "drop n t = [t ! n, t ! (n + 1)]"
      using assms(2) by (simp add: list_eq_iff_nth_eq nth_Cons split: nat.split)
    then show ?thesis using limbs_split [of n t] assms(2) by simp
  qed
  define H where "H = unat (drop_bit 32 sum)"
  have "H < LIMB" by (simp add: H_def word_split_32(2))
  have lo: "unat (ucast sum :: u32) + LIMB * H = unat (t ! n) + unat c"
    using word_split_32(1) [of sum] sum by (simp add: H_def)
  let ?K = "unat (t ! (n + 1)) + H"
  have "limbs t + unat q * limbs (take n m) =
      LIMB * limbs (take (n - 1) a) + LIMB ^ n * (unat (t ! n) + unat c) + LIMB ^ n * (LIMB * unat (t ! (n + 1)))"
    using L(1) tv by (simp add: distrib_left)
  also have "\<dots> = LIMB * limbs (take (n - 1) a) + LIMB ^ n * unat (ucast sum :: u32) + LIMB ^ (n + 1) * ?K"
    unfolding lo [symmetric] by (simp add: distrib_left mult.assoc mult.left_commute)
  finally have total: "limbs t + unat q * limbs (take n m) =
      LIMB * limbs (take (n - 1) a) + LIMB ^ n * unat (ucast sum :: u32) + LIMB ^ (n + 1) * ?K" .
  then have "LIMB ^ (n + 1) * ?K \<le> limbs t + unat q * limbs (take n m)" by linarith
  also have "\<dots> < LIMB ^ (n + 1) * LIMB" using assms(5) by (simp add: q_def mult.commute)
  finally have K: "?K < LIMB" by (simp only: mult_less_cancel1)
  then have hi: "unat hi = ?K"
    using \<open>H < LIMB\<close>
    by (simp add: hi_def unat_word_ariths word_split_32(3) flip: H_def) (simp add: LIMB_def)
  have "LIMB * limbs r = LIMB * limbs (take (n - 1) a) + LIMB ^ n * unat (ucast sum :: u32) + LIMB ^ (n + 1) * ?K"
    unfolding rv hi using power_Suc [of LIMB "n - 1"] n by (simp add: distrib_left mult.assoc)
  then show "LIMB * limbs r = limbs t + unat (t ! 0 * m_prime) * limbs (take n m)"
    using total by (simp add: q_def)
qed

definition mont_round :: "u32 list \<Rightarrow> u32 list \<Rightarrow> u32 list \<Rightarrow> u32 \<Rightarrow> nat \<Rightarrow> nat \<Rightarrow> u32 list \<Rightarrow> u32 list" where
  "mont_round x y m m_prime n i t = mont_reduce m m_prime n (mont_accumulate x (y ! i) n t)"

text \<open>One round multiplies the accumulator out by a limb: its value stays below \<open>x + m\<close>.\<close>

lemma mont_round_value:
  fixes i :: nat and y :: "u32 list"
  assumes "n \<le> length x" "n \<le> length m" "1 \<le> n" "m_prime * m ! 0 = - 1"
    "length t = n + 2" "t ! (n + 1) = 0"
    and T: "limbs t < limbs (take n x) + limbs (take n m)"
  defines "r \<equiv> mont_round x y m m_prime n i t"
  shows "\<exists>q. LIMB * limbs r = limbs t + limbs (take n x) * unat (y ! i) + q * limbs (take n m)"
    "limbs r < limbs (take n x) + limbs (take n m)" "length r = n + 2" "r ! (n + 1) = 0"
proof -
  define X M where "X = limbs (take n x)" and "M = limbs (take n m)"
  have XM: "X < LIMB ^ n" "M < LIMB ^ n"
    using limbs_less [of "take n x"] limbs_less [of "take n m"] assms(1,2)
    by (simp_all add: X_def M_def min_absorb2)
  define u where "u = mont_accumulate x (y ! i) n t"
  define q where "q = unat (u ! 0 * m_prime)"
  have small: "unat (y ! i) \<le> LIMB - 1" "q \<le> LIMB - 1"
    using unat_limb [of "y ! i"] unat_limb [of "u ! 0 * m_prime"] by (simp_all add: q_def)
  have "X * unat (y ! i) \<le> X * (LIMB - 1)" "q * M \<le> (LIMB - 1) * M"
    using small by (auto intro: mult_le_mono1 mult_le_mono2)
  moreover have "X + X * (LIMB - 1) = LIMB * X" "M + (LIMB - 1) * M = LIMB * M"
  proof -
    obtain L where L: "LIMB = Suc L" using LIMB_pos gr0_conv_Suc by blast
    show "X + X * (LIMB - 1) = LIMB * X" "M + (LIMB - 1) * M = LIMB * M" unfolding L by simp_all
  qed
  ultimately have below: "limbs t + X * unat (y ! i) + q * M < LIMB * (X + M)"
    using T unfolding X_def [symmetric] M_def [symmetric] distrib_left by linarith
  also have "\<dots> \<le> LIMB * (LIMB * LIMB ^ n)"
  proof (intro mult_le_mono2)
    have "X + M \<le> 2 * LIMB ^ n" using XM by simp
    also have "\<dots> \<le> LIMB * LIMB ^ n" by (intro mult_le_mono1) (simp add: LIMB_def)
    finally show "X + M \<le> LIMB * LIMB ^ n" .
  qed
  finally have total: "limbs t + X * unat (y ! i) + q * M < LIMB ^ (n + 2)" by simp
  have acc: "limbs u = limbs t + X * unat (y ! i)" "length u = n + 2"
    unfolding u_def X_def
    using total assms(1,5,6) by (intro accumulate_value; simp add: X_def)+
  have red: "LIMB * limbs r = limbs u + q * M" "length r = n + 2" "r ! (n + 1) = 0"
    unfolding r_def mont_round_def u_def [symmetric] q_def M_def
    using total acc assms(2-4) by (intro reduce_value; simp add: q_def M_def)+
  then show "length r = n + 2" "r ! (n + 1) = 0" by simp_all
  show "\<exists>q. LIMB * limbs r = limbs t + limbs (take n x) * unat (y ! i) + q * limbs (take n m)"
    using red(1) acc(1) by (auto simp: X_def M_def)
  have "LIMB * limbs r < LIMB * (X + M)" using below red(1) acc(1) by simp
  then show "limbs r < limbs (take n x) + limbs (take n m)" by (simp add: X_def M_def)
qed

lemma mont_rounds:
  assumes "n \<le> length x" "n \<le> length y" "n \<le> length m" "1 \<le> n" "m_prime * m ! 0 = - 1" "k \<le> n"
  defines "t \<equiv> fold (mont_round x y m m_prime n) [0 ..< k] (replicate (n + 2) 0)"
  shows "(\<exists>q. LIMB ^ k * limbs t = limbs (take n x) * limbs (take k y) + q * limbs (take n m)) \<and>
    limbs t < limbs (take n x) + limbs (take n m) \<and> length t = n + 2 \<and> t ! (n + 1) = 0"
  unfolding t_def using assms(6)
proof (induction k)
  case 0
  have "m ! 0 \<noteq> 0" using assms(5) by auto
  then have "0 < unat (m ! 0)" by (simp add: unat_gt_0)
  then have "0 < limbs (take n m)"
    using assms(3,4) limbs_split [of 1 "take n m"] by (cases m; cases n) auto
  then show ?case by (simp add: nth_append limbs_append del: replicate_Suc)
next
  case (Suc k)
  define t where "t = fold (mont_round x y m m_prime n) [0 ..< k] (replicate (n + 2) 0)"
  obtain q where IH: "LIMB ^ k * limbs t = limbs (take n x) * limbs (take k y) + q * limbs (take n m)"
    "limbs t < limbs (take n x) + limbs (take n m)" "length t = n + 2" "t ! (n + 1) = 0"
    using Suc by (auto simp: t_def)
  note R = mont_round_value [OF assms(1,3,4,5) IH(3,4,2), of y k]
  obtain q' where q': "LIMB * limbs (mont_round x y m m_prime n k t) =
      limbs t + limbs (take n x) * unat (y ! k) + q' * limbs (take n m)" using R(1) by blast
  have "LIMB ^ Suc k * limbs (mont_round x y m m_prime n k t) =
      LIMB ^ k * (limbs t + limbs (take n x) * unat (y ! k) + q' * limbs (take n m))"
    using q' by (simp add: mult.assoc mult.left_commute)
  also have "\<dots> = limbs (take n x) * limbs (take (Suc k) y) + (q + LIMB ^ k * q') * limbs (take n m)"
    using IH(1) Suc.prems assms(2) by (simp add: limbs_take_Suc algebra_simps)
  finally have "\<exists>q. LIMB ^ Suc k * limbs (mont_round x y m m_prime n k t) =
      limbs (take n x) * limbs (take (Suc k) y) + q * limbs (take n m)" by blast
  moreover have "fold (mont_round x y m m_prime n) [0 ..< Suc k] (replicate (n + 2) 0) =
      mont_round x y m m_prime n k t" by (simp add: t_def)
  ultimately show ?case using R(2-4) by presburger
qed

lemma montgomery_value:
  assumes "n \<le> length x" "n \<le> length y" "n \<le> length m" "1 \<le> n" "m_prime * m ! 0 = - 1"
    "n \<le> length result"
  defines "X \<equiv> limbs (take n x)" and "Y \<equiv> limbs (take n y)" and "M \<equiv> limbs (take n m)"
    and "z \<equiv> limbs (take n (montgomery_mul True x y m m_prime n result))"
  shows "(LIMB ^ n * z) mod M = (X * Y) mod M"
    "X < M \<Longrightarrow> z < M"
proof -
  define t where "t = fold (mont_round x y m m_prime n) [0 ..< n] (replicate (n + 2) 0)"
  obtain q where q: "LIMB ^ n * limbs t = X * Y + q * M"
    and T: "limbs t < X + M" "length t = n + 2" "t ! (n + 1) = 0"
    using mont_rounds [OF assms(1-5), of n] by (auto simp: t_def X_def Y_def M_def)
  have XM: "X < LIMB ^ n" "M < LIMB ^ n"
    using limbs_less [of "take n x"] limbs_less [of "take n m"] assms(1,3)
    by (simp_all add: X_def M_def min_absorb2)
  have tv: "limbs t = limbs (take n t) + LIMB ^ n * unat (t ! n)"
  proof -
    have "drop n t = [t ! n, t ! (n + 1)]"
      using T(2) by (simp add: list_eq_iff_nth_eq nth_Cons split: nat.split)
    then show ?thesis using limbs_split [of n t] T(2,3) by simp
  qed
  have gte: "(t ! n \<noteq> 0 \<or> bignum_gte t m n) \<longleftrightarrow> M \<le> limbs t"
  proof (cases "t ! n = 0")
    case True
    then show ?thesis using bignum_gte_iff [of n t m] T(2) assms(3) tv by (simp add: M_def)
  next
    case False
    then have "1 \<le> unat (t ! n)" by (simp add: unat_gt_0 Suc_le_eq)
    then have "LIMB ^ n * 1 \<le> LIMB ^ n * unat (t ! n)" by (rule mult_le_mono2)
    then show ?thesis using False tv XM(2) by linarith
  qed
  have mul: "montgomery_mul True x y m m_prime n result =
      (if M \<le> limbs t then bignum_sub t m result n else take n t @ drop n result)"
    using gte by (simp add: montgomery_mul_def t_def mont_round_def [abs_def])
  have z: "z = (if M \<le> limbs t then limbs t - M else limbs t)"
  proof (cases "M \<le> limbs t")
    case True
    define s where "s = fold (sub_step t m) [0 ..< n] (result, 0)"
    have zs: "z = limbs (take n (fst s))" using True by (simp add: z_def mul bignum_sub_def s_def)
    have v: "limbs (take n (fst s)) + M = limbs (take n t) + LIMB ^ n * unat (snd s)"
      and l: "length (fst s) = length result"
      unfolding s_def M_def using sub_loop [of n t m result] T(2) assms(3,6) by simp_all
    have "z < LIMB ^ n"
      using limbs_less [of "take n (fst s)"] l assms(6) by (simp add: zs min_absorb2)
    moreover have "limbs t - M < LIMB ^ n" using T(1) XM True by linarith
    moreover have "z + LIMB ^ n * unat (t ! n) = (limbs t - M) + LIMB ^ n * unat (snd s)"
      using v tv True zs by linarith
    ultimately have "z = limbs t - M" by (metis mod_less mod_mult_self2)
    then show ?thesis using True by simp
  next
    case False
    then have "t ! n = 0" using gte by blast
    then show ?thesis using False tv T(2) by (simp add: z_def mul)
  qed
  show "X < M \<Longrightarrow> z < M" using z T(1) by (auto split: if_splits)
  show "(LIMB ^ n * z) mod M = (X * Y) mod M"
  proof (cases "M \<le> limbs t")
    case True
    then have "limbs t = z + M" using z by simp
    then have "LIMB ^ n * z + LIMB ^ n * M = X * Y + q * M" using q by (simp add: distrib_left)
    then have "(LIMB ^ n * z + LIMB ^ n * M) mod M = (X * Y + q * M) mod M" by simp
    then show ?thesis by (simp only: mod_mult_self1)
  next
    case False
    then show ?thesis using z q by (simp add: mod_mult_self1)
  qed
qed

end
