(* ===== verification/Intr_Matrix.thy ===== *)
theory Intr_Matrix
  imports Sample_States
begin

text \<open>
  The interrupt matrix of src/src/peripherals.c: which CPU interrupt line of which core every
  peripheral source drives, the levels of the sources, the registers through which the guest
  programs the routing (the target-described matrix page, the classic DPORT map registers,
  the software interrupts of the system page), and the assert and deassert calls of the
  device models. The record holds the fields of \<open>esp32_periph_t\<close> these functions touch;
  \<open>p_cpu\<close> holds the two processors behind its CPU pointers. The pointer \<open>p\<close> itself is taken
  to be non-null, and its target is set, as \<open>periph_create\<close> guarantees.
\<close>

section \<open>Descriptors\<close>

record flexe_interrupt_matrix_desc =
  im_base :: u32
  im_register_size :: u32
  im_source_count :: u16
  im_map_offset :: "nat \<Rightarrow> u32"
  im_status_offset :: "nat \<Rightarrow> u32"
  im_clock_gate_offset :: "nat \<Rightarrow> u32"
  im_date_offset :: "nat \<Rightarrow> u32"
  im_map_reset :: u32
  im_map_writable_mask :: u32
  im_clock_gate_reset :: u32
  im_clock_gate_writable_mask :: u32
  im_date_reset :: u32
  im_date_writable_mask :: u32
  im_software_interrupt_base :: u32
  im_software_interrupt_offset :: u32
  im_software_interrupt_stride :: u32
  im_software_interrupt_source_base :: u16
  im_software_interrupt_count :: u8
  im_software_interrupt_writable_mask :: u32

record flexe_secondary_core_desc =
  sc_base :: u32
  sc_register_size :: u32
  sc_control_offset :: u32
  sc_boot_address_offset :: u32
  sc_control_reset :: u32
  sc_reset_mask :: u32
  sc_clock_gate_mask :: u32
  sc_runstall_mask :: u32

text \<open>The descriptor fields of \<open>flexe_target_desc_t\<close> that the fabric reads.\<close>

record periph_target =
  pt_core_count :: u8
  pt_capabilities :: u64
  pt_peripheral_start :: u32
  pt_peripheral_end :: u32
  pt_secondary_core :: flexe_secondary_core_desc
  pt_interrupt_matrix :: flexe_interrupt_matrix_desc

definition FLEXE_TARGET_INTERRUPT_CORE_MAX :: nat where "FLEXE_TARGET_INTERRUPT_CORE_MAX = 2"
definition FLEXE_TARGET_INTERRUPT_SOURCE_MAX :: nat where "FLEXE_TARGET_INTERRUPT_SOURCE_MAX = 128"
definition FLEXE_TARGET_SOFTWARE_INTERRUPT_MAX :: nat where "FLEXE_TARGET_SOFTWARE_INTERRUPT_MAX = 4"
definition ESP32_INTERRUPT_SOURCE_COUNT :: nat where "ESP32_INTERRUPT_SOURCE_COUNT = 71"
definition DPORT_INTR_MAP_SOURCE_COUNT :: u32 where "DPORT_INTR_MAP_SOURCE_COUNT = 69"
definition DPORT_INTR_MAP_RESET :: u32 where "DPORT_INTR_MAP_RESET = 16"

definition cap_classic :: "periph_target \<Rightarrow> bool" where
  "cap_classic t = bit (pt_capabilities t) 0"

definition cap_secondary_core :: "periph_target \<Rightarrow> bool" where
  "cap_secondary_core t = bit (pt_capabilities t) 3"

definition cap_intr_matrix :: "periph_target \<Rightarrow> bool" where
  "cap_intr_matrix t = bit (pt_capabilities t) 9"

section \<open>State\<close>

record unhandled_site =
  us_address :: u32
  us_pc :: u32
  us_first_value :: u32
  us_count :: u64
  us_core :: u8
  us_write :: bool

text \<open>\<open>p_dbg_pc\<close> and \<open>p_dbg_core\<close> are the globals of the diagnostics. A handler is named by a
  number; the environment below says what it does.\<close>

record 'd periph =
  p_target :: periph_target
  p_cpu :: "nat \<Rightarrow> 'd cpu option"
  p_intr_matrix :: "nat \<Rightarrow> nat \<Rightarrow> u8"
  p_pending_sources :: "nat \<Rightarrow> u32"
  p_source_level :: "nat \<Rightarrow> bool"
  p_source_level_core :: "nat \<Rightarrow> nat \<Rightarrow> bool"
  p_source_status :: "nat \<Rightarrow> u32"
  p_irq_dispatch :: "nat \<Rightarrow> nat option"
  p_irq_dispatch_ctx :: "nat \<Rightarrow> nat"
  p_clock_gate :: "nat \<Rightarrow> u32"
  p_date :: "nat \<Rightarrow> u32"
  p_from_cpu_intr :: "nat \<Rightarrow> u32"
  p_app_cpu_in_reset :: bool
  p_secondary_core_control :: u32
  p_secondary_core_boot_addr :: u32
  p_unhandled_count :: nat
  p_audit_enabled :: bool
  p_audit :: "unhandled_site list"
  p_audit_capacity :: nat
  p_audit_omitted :: u64
  p_dbg_pc :: u32
  p_dbg_core :: u8

text \<open>What lies outside: the registered guest interrupt handlers (called with handler,
  context and source) and whether the host grants the audit table its memory.\<close>

record 'd periph_env =
  pe_dispatch :: "nat \<Rightarrow> nat \<Rightarrow> nat \<Rightarrow> 'd periph \<Rightarrow> 'd periph"
  pe_realloc :: "nat \<Rightarrow> bool"

section \<open>Unhandled accesses\<close>

definition INT_MAX :: nat where "INT_MAX = 2 ^ 31 - 1"
definition PERIPH_UNHANDLED_AUDIT_MAX :: nat where "PERIPH_UNHANDLED_AUDIT_MAX = 4096"

definition audit_add_saturating :: "u64 \<Rightarrow> u64 \<Rightarrow> u64" where
  "audit_add_saturating a b = (if a > - 1 - b then - 1 else a + b)"

definition same_site :: "unhandled_site \<Rightarrow> unhandled_site \<Rightarrow> bool" where
  "same_site s t \<longleftrightarrow> us_address s = us_address t \<and> us_pc s = us_pc t \<and> us_core s = us_core t \<and>
                    us_write s = us_write t"

definition site_merge :: "unhandled_site \<Rightarrow> bool \<Rightarrow> unhandled_site \<Rightarrow> unhandled_site" where
  "site_merge inc older s =
     (let s1 = s\<lparr>us_count := audit_add_saturating (us_count s) (us_count inc)\<rparr>
      in if older then s1\<lparr>us_first_value := us_first_value inc\<rparr> else s1)"

fun audit_find :: "unhandled_site \<Rightarrow> bool \<Rightarrow> unhandled_site list \<Rightarrow> unhandled_site list option" where
  "audit_find inc older [] = None"
| "audit_find inc older (s # ss) =
     (if same_site s inc then Some (site_merge inc older s # ss)
      else map_option ((#) s) (audit_find inc older ss))"

definition audit_omit :: "'d periph \<Rightarrow> unhandled_site \<Rightarrow> 'd periph" where
  "audit_omit p inc =
     p\<lparr>p_audit_omitted := audit_add_saturating (p_audit_omitted p) (us_count inc)\<rparr>"

definition unhandled_audit_merge_site ::
  "'d periph_env \<Rightarrow> 'd periph \<Rightarrow> unhandled_site \<Rightarrow> bool \<Rightarrow> 'd periph" where
  "unhandled_audit_merge_site D p inc older =
     (case audit_find inc older (p_audit p) of
        Some ss \<Rightarrow> p\<lparr>p_audit := ss\<rparr>
      | None \<Rightarrow>
          if length (p_audit p) = p_audit_capacity p then
            if p_audit_capacity p = PERIPH_UNHANDLED_AUDIT_MAX then audit_omit p inc
            else
              let cap = min (if p_audit_capacity p = 0 then 64 else p_audit_capacity p * 2)
                          PERIPH_UNHANDLED_AUDIT_MAX
              in if pe_realloc D cap
                 then p\<lparr>p_audit_capacity := cap, p_audit := p_audit p @ [inc]\<rparr>
                 else audit_omit p inc
          else p\<lparr>p_audit := p_audit p @ [inc]\<rparr>)"

definition unhandled_audit_record ::
  "'d periph_env \<Rightarrow> 'd periph \<Rightarrow> u32 \<Rightarrow> bool \<Rightarrow> u32 \<Rightarrow> 'd periph" where
  "unhandled_audit_record D p addr wr value =
     (if \<not> p_audit_enabled p then p
      else unhandled_audit_merge_site D p
             \<lparr>us_address = addr, us_pc = p_dbg_pc p, us_first_value = value, us_count = 1,
              us_core = p_dbg_core p, us_write = wr\<rparr> False)"

definition count_unhandled :: "'d periph \<Rightarrow> 'd periph" where
  "count_unhandled p =
     (if p_unhandled_count p < INT_MAX
      then p\<lparr>p_unhandled_count := p_unhandled_count p + 1\<rparr> else p)"

definition default_read :: "'d periph_env \<Rightarrow> 'd periph \<Rightarrow> u32 \<Rightarrow> u32 \<times> 'd periph" where
  "default_read D p addr = (0, unhandled_audit_record D (count_unhandled p) addr False 0)"

definition default_write :: "'d periph_env \<Rightarrow> 'd periph \<Rightarrow> u32 \<Rightarrow> u32 \<Rightarrow> 'd periph" where
  "default_write D p addr v = unhandled_audit_record D (count_unhandled p) addr True v"

section \<open>Routing\<close>

definition intr_matrix_source_count :: "'d periph \<Rightarrow> nat" where
  "intr_matrix_source_count p =
     (if cap_intr_matrix (p_target p) then unat (im_source_count (pt_interrupt_matrix (p_target p)))
      else if cap_classic (p_target p) then ESP32_INTERRUPT_SOURCE_COUNT
      else 0)"

definition intr_matrix_core_count :: "'d periph \<Rightarrow> nat" where
  "intr_matrix_core_count p =
     (let n = unat (pt_core_count (p_target p))
      in if n < FLEXE_TARGET_INTERRUPT_CORE_MAX then n else FLEXE_TARGET_INTERRUPT_CORE_MAX)"

definition intr_matrix_map_reset :: "'d periph \<Rightarrow> u32" where
  "intr_matrix_map_reset p =
     (if cap_intr_matrix (p_target p) then im_map_reset (pt_interrupt_matrix (p_target p))
      else DPORT_INTR_MAP_RESET)"

definition intr_matrix_core_enabled :: "'d periph \<Rightarrow> int \<Rightarrow> bool" where
  "intr_matrix_core_enabled p core =
     (if core < 0 \<or> intr_matrix_core_count p \<le> nat core then False
      else if \<not> cap_intr_matrix (p_target p) then True
      else let desc = pt_interrupt_matrix (p_target p)
           in im_clock_gate_writable_mask desc = 0 \<or>
              p_clock_gate p (nat core) AND im_clock_gate_writable_mask desc \<noteq> 0)"

text \<open>The six core-local lines: the three timers, the two software interrupts, profiling.\<close>

definition internal_lines :: "nat list" where
  "internal_lines = [6, 7, 11, 15, 16, 29]"

definition intr_matrix_cpu_line_is_routeable :: "int \<Rightarrow> bool" where
  "intr_matrix_cpu_line_is_routeable i \<longleftrightarrow> 0 \<le> i \<and> i \<le> 31 \<and> nat i \<notin> set internal_lines"

definition line_asserted :: "'d periph \<Rightarrow> int \<Rightarrow> int \<Rightarrow> bool" where
  "line_asserted p core i \<longleftrightarrow>
     intr_matrix_core_enabled p core \<and>
     list_ex (\<lambda>s. p_intr_matrix p (nat core) s = of_int i \<and> p_source_level_core p (nat core) s)
       [0 ..< intr_matrix_source_count p]"

definition intr_matrix_refresh_cpu_line :: "'d periph \<Rightarrow> int \<Rightarrow> int \<Rightarrow> 'd periph" where
  "intr_matrix_refresh_cpu_line p core i =
     (if core < 0 \<or> intr_matrix_core_count p \<le> nat core \<or> \<not> intr_matrix_cpu_line_is_routeable i
      then p
      else case p_cpu p (nat core) of
          None \<Rightarrow> p
        | Some c \<Rightarrow>
            let mask = push_bit (nat i) 1;
                c1 = (if line_asserted p core i
                      then xtensa_request_irq_check (c\<lparr>interrupt := interrupt c OR mask\<rparr>)
                      else c\<lparr>interrupt := interrupt c AND NOT mask\<rparr>)
            in p\<lparr>p_cpu := (p_cpu p)(nat core := Some c1)\<rparr>)"

definition intr_matrix_refresh_core :: "'d periph \<Rightarrow> int \<Rightarrow> 'd periph" where
  "intr_matrix_refresh_core p core =
     (if core < 0 \<or> intr_matrix_core_count p \<le> nat core then p
      else fold (\<lambda>i p. intr_matrix_refresh_cpu_line p core (int i)) [0 ..< 32] p)"

definition intr_matrix_map_source :: "'d periph \<Rightarrow> int \<Rightarrow> int \<Rightarrow> int \<Rightarrow> 'd periph" where
  "intr_matrix_map_source p core source i =
     (if core < 0 \<or> intr_matrix_core_count p \<le> nat core \<or>
         source < 0 \<or> intr_matrix_source_count p \<le> nat source \<or> i < 0 \<or> 31 < i
      then p
      else
        let old = uint (p_intr_matrix p (nat core) (nat source));
            p1 = p\<lparr>p_intr_matrix := (p_intr_matrix p)(nat core :=
                     (p_intr_matrix p (nat core))(nat source := of_int i))\<rparr>;
            p2 = intr_matrix_refresh_cpu_line p1 core old
        in intr_matrix_refresh_cpu_line p2 core i)"

definition irq_call :: "'d periph_env \<Rightarrow> 'd periph \<Rightarrow> int \<Rightarrow> 'd periph" where
  "irq_call D p source =
     (case p_irq_dispatch p (nat source) of
        None \<Rightarrow> p
      | Some f \<Rightarrow> pe_dispatch D f (p_irq_dispatch_ctx p (nat source)) (nat source) p)"

definition set_source_core :: "'d periph \<Rightarrow> nat \<Rightarrow> nat \<Rightarrow> bool \<Rightarrow> 'd periph" where
  "set_source_core p core source level =
     (let p1 = p\<lparr>p_source_level_core := (p_source_level_core p)(core :=
                    (p_source_level_core p core)(source := level))\<rparr>
      in intr_matrix_refresh_cpu_line p1 (int core) (uint (p_intr_matrix p1 core source)))"

definition intr_matrix_update_source :: "'d periph_env \<Rightarrow> 'd periph \<Rightarrow> int \<Rightarrow> bool \<Rightarrow> 'd periph" where
  "intr_matrix_update_source D p source level =
     (if source < 0 \<or> intr_matrix_source_count p \<le> nat source then p
      else
        let rising = (level \<and> \<not> p_source_level p (nat source));
            p1 = p\<lparr>p_source_level := (p_source_level p)(nat source := level)\<rparr>;
            p2 = fold (\<lambda>core p. set_source_core p core (nat source) level)
                   [0 ..< intr_matrix_core_count p1] p1
        in if rising then irq_call D p2 source else p2)"

definition intr_matrix_update_source_core ::
  "'d periph_env \<Rightarrow> 'd periph \<Rightarrow> int \<Rightarrow> int \<Rightarrow> bool \<Rightarrow> 'd periph" where
  "intr_matrix_update_source_core D p core source level =
     (if core < 0 \<or> intr_matrix_core_count p \<le> nat core \<or>
         source < 0 \<or> intr_matrix_source_count p \<le> nat source then p
      else
        let p1 = set_source_core p (nat core) (nat source) level;
            now = list_ex (\<lambda>i. p_source_level_core p1 i (nat source))
                    [0 ..< intr_matrix_core_count p1];
            rising = (now \<and> \<not> p_source_level p1 (nat source));
            p2 = p1\<lparr>p_source_level := (p_source_level p1)(nat source := now)\<rparr>
        in if rising then irq_call D p2 source else p2)"

section \<open>Calls of the device models\<close>

definition set_pending :: "'d periph \<Rightarrow> int \<Rightarrow> bool \<Rightarrow> 'd periph" where
  "set_pending p source on =
     (let w = nat source div 32; b = push_bit (nat source mod 32) 1; old = p_pending_sources p w
      in p\<lparr>p_pending_sources := (p_pending_sources p)(w := if on then old OR b else old AND NOT b)\<rparr>)"

definition periph_assert_interrupt :: "'d periph_env \<Rightarrow> 'd periph \<Rightarrow> int \<Rightarrow> 'd periph" where
  "periph_assert_interrupt D p source =
     (if source < 0 \<or> intr_matrix_source_count p \<le> nat source then p
      else intr_matrix_update_source D (set_pending p source True) source True)"

definition periph_assert_interrupt_status ::
  "'d periph_env \<Rightarrow> 'd periph \<Rightarrow> int \<Rightarrow> u32 \<Rightarrow> 'd periph" where
  "periph_assert_interrupt_status D p source status =
     (if source < 0 \<or> intr_matrix_source_count p \<le> nat source then p
      else
        let p1 = set_pending p source True;
            fresh = status AND NOT (p_source_status p1 (nat source));
            p2 = p1\<lparr>p_source_status := (p_source_status p1)(nat source := status)\<rparr>;
            p3 = intr_matrix_update_source D p2 source True
        in if fresh \<noteq> 0 then irq_call D p3 source else p3)"

definition periph_deassert_interrupt :: "'d periph_env \<Rightarrow> 'd periph \<Rightarrow> int \<Rightarrow> 'd periph" where
  "periph_deassert_interrupt D p source =
     (if source < 0 \<or> intr_matrix_source_count p \<le> nat source then p
      else
        let p1 = set_pending p source False;
            p2 = p1\<lparr>p_source_status := (p_source_status p1)(nat source := 0)\<rparr>
        in intr_matrix_update_source D p2 source False)"

definition periph_set_irq_dispatch ::
  "'d periph \<Rightarrow> int \<Rightarrow> nat option \<Rightarrow> nat \<Rightarrow> int \<times> 'd periph" where
  "periph_set_irq_dispatch p source f ctx =
     (if source < 0 \<or> intr_matrix_source_count p \<le> nat source then (-1, p)
      else (0, p\<lparr>p_irq_dispatch := (p_irq_dispatch p)(nat source := f),
                 p_irq_dispatch_ctx := (p_irq_dispatch_ctx p)(nat source :=
                   if f = None then 0 else ctx)\<rparr>))"

definition periph_interrupt_pending :: "'d periph \<Rightarrow> int \<Rightarrow> bool" where
  "periph_interrupt_pending p source =
     (if source < 0 \<or> intr_matrix_source_count p \<le> nat source then False
      else p_pending_sources p (nat source div 32) AND push_bit (nat source mod 32) 1 \<noteq> 0)"

definition periph_intr_matrix_set :: "'d periph \<Rightarrow> int \<Rightarrow> int \<Rightarrow> int \<Rightarrow> 'd periph" where
  "periph_intr_matrix_set p core i source =
     (if source < 0 \<or> intr_matrix_source_count p \<le> nat source then p
      else intr_matrix_map_source p core source i)"

definition periph_intr_matrix_get :: "'d periph \<Rightarrow> int \<Rightarrow> int \<Rightarrow> int" where
  "periph_intr_matrix_get p core i =
     (if core < 0 \<or> intr_matrix_core_count p \<le> nat core \<or> i < 0 \<or> 31 < i
      then sint (intr_matrix_map_reset p)
      else if \<not> intr_matrix_cpu_line_is_routeable i then sint (intr_matrix_map_reset p)
      else case List.find (\<lambda>s. p_intr_matrix p (nat core) s = of_int i)
                  [0 ..< intr_matrix_source_count p] of
          Some s \<Rightarrow> int s
        | None \<Rightarrow> sint (intr_matrix_map_reset p))"

section \<open>Registers of the target-described matrix\<close>

definition intr_matrix_span_valid :: "u32 \<Rightarrow> u32 \<Rightarrow> u32 \<Rightarrow> bool" where
  "intr_matrix_span_valid offset n register_size =
     (if offset AND 3 \<noteq> 0 \<or> n = 0 \<or> 0x3FFFFFFF < n then False
      else offset \<le> register_size \<and> n * 4 \<le> register_size - offset)"

definition status_words :: "flexe_interrupt_matrix_desc \<Rightarrow> u32" where
  "status_words d = (ucast (im_source_count d) + 31) div 32"

definition software_interrupts_valid :: "periph_target \<Rightarrow> bool" where
  "software_interrupts_valid t =
     (let d = pt_interrupt_matrix t; sys = pt_secondary_core t;
          n = unat (im_software_interrupt_count d);
          base = unat (im_software_interrupt_source_base d);
          sources = unat (im_source_count d)
      in if n = 0 then True
         else if FLEXE_TARGET_SOFTWARE_INTERRUPT_MAX < n \<or>
                 im_software_interrupt_stride d < 4 \<or> im_software_interrupt_stride d AND 3 \<noteq> 0 \<or>
                 im_software_interrupt_writable_mask d = 0 \<or> sources \<le> base \<or>
                 sources - base < n \<or> \<not> cap_secondary_core t then False
         else if im_software_interrupt_base d \<noteq> sc_base sys \<or> sc_register_size sys < 4 \<or>
                 sc_register_size sys - 4 < im_software_interrupt_offset d then False
         else of_nat (n - 1) * im_software_interrupt_stride d
                \<le> sc_register_size sys - 4 - im_software_interrupt_offset d)"

definition intr_matrix_geometry_valid :: "periph_target \<Rightarrow> bool" where
  "intr_matrix_geometry_valid t =
     (let d = pt_interrupt_matrix t; cores = unat (pt_core_count t) in
      if \<not> cap_intr_matrix t then False
      else if cores = 0 \<or> FLEXE_TARGET_INTERRUPT_CORE_MAX < cores \<or>
              im_source_count d = 0 \<or>
              FLEXE_TARGET_INTERRUPT_SOURCE_MAX < unat (im_source_count d) \<or>
              im_register_size d = 0 \<or> (im_base d OR im_register_size d) AND 0xFFF \<noteq> 0 \<or>
              im_base d < pt_peripheral_start t \<or> pt_peripheral_end t \<le> im_base d \<or>
              pt_peripheral_end t - im_base d < im_register_size d \<or>
              im_map_writable_mask d = 0 \<or> im_map_writable_mask d AND NOT 0x1F \<noteq> 0 \<or>
              im_map_reset d AND NOT (im_map_writable_mask d) \<noteq> 0 \<or>
              im_clock_gate_writable_mask d = 0 \<or>
              im_clock_gate_reset d AND NOT (im_clock_gate_writable_mask d) \<noteq> 0 \<or>
              im_date_reset d AND NOT (im_date_writable_mask d) \<noteq> 0 then False
      else if \<not> list_all (\<lambda>core.
                 intr_matrix_span_valid (im_map_offset d core) (ucast (im_source_count d))
                   (im_register_size d) \<and>
                 intr_matrix_span_valid (im_status_offset d core) (status_words d)
                   (im_register_size d) \<and>
                 intr_matrix_span_valid (im_clock_gate_offset d core) 1 (im_register_size d) \<and>
                 intr_matrix_span_valid (im_date_offset d core) 1 (im_register_size d))
               [0 ..< cores] then False
      else software_interrupts_valid t)"

definition intr_matrix_decode_register :: "u32 \<Rightarrow> u32 \<Rightarrow> u32 \<Rightarrow> nat option" where
  "intr_matrix_decode_register off first n =
     (if off < first \<or> (off - first) AND 3 \<noteq> 0 then None
      else let candidate = (off - first) div 4
           in if n \<le> candidate then None else Some (unat candidate))"

definition intr_matrix_status_word :: "'d periph \<Rightarrow> nat \<Rightarrow> nat \<Rightarrow> u32" where
  "intr_matrix_status_word p core w =
     fold (\<lambda>b v. if w * 32 + b < intr_matrix_source_count p \<and>
                    p_source_level_core p core (w * 32 + b) then v OR push_bit b 1 else v)
       [0 ..< 32] 0"

text \<open>What an offset addresses; the register files of core 0 are tried first.\<close>

datatype matrix_reg = Map_Reg nat nat | Status_Reg nat nat | Clock_Gate_Reg nat | Date_Reg nat

fun matrix_reg_of :: "flexe_interrupt_matrix_desc \<Rightarrow> u32 \<Rightarrow> nat list \<Rightarrow> matrix_reg option" where
  "matrix_reg_of d off [] = None"
| "matrix_reg_of d off (core # cores) =
     (case intr_matrix_decode_register off (im_map_offset d core) (ucast (im_source_count d)) of
        Some i \<Rightarrow> Some (Map_Reg core i)
      | None \<Rightarrow>
          (case intr_matrix_decode_register off (im_status_offset d core) (status_words d) of
             Some i \<Rightarrow> Some (Status_Reg core i)
           | None \<Rightarrow>
               if off = im_clock_gate_offset d core then Some (Clock_Gate_Reg core)
               else if off = im_date_offset d core then Some (Date_Reg core)
               else matrix_reg_of d off cores))"

definition target_intr_matrix_read :: "'d periph_env \<Rightarrow> 'd periph \<Rightarrow> u32 \<Rightarrow> u32 \<times> 'd periph" where
  "target_intr_matrix_read D p addr =
     (let d = pt_interrupt_matrix (p_target p) in
      case matrix_reg_of d (addr - im_base d) [0 ..< intr_matrix_core_count p] of
        Some (Map_Reg core i) \<Rightarrow> (ucast (p_intr_matrix p core i), p)
      | Some (Status_Reg core i) \<Rightarrow> (intr_matrix_status_word p core i, p)
      | Some (Clock_Gate_Reg core) \<Rightarrow> (p_clock_gate p core, p)
      | Some (Date_Reg core) \<Rightarrow> (p_date p core, p)
      | None \<Rightarrow> default_read D p addr)"

definition target_intr_matrix_write :: "'d periph_env \<Rightarrow> 'd periph \<Rightarrow> u32 \<Rightarrow> u32 \<Rightarrow> 'd periph" where
  "target_intr_matrix_write D p addr v =
     (let d = pt_interrupt_matrix (p_target p) in
      case matrix_reg_of d (addr - im_base d) [0 ..< intr_matrix_core_count p] of
        Some (Map_Reg core i) \<Rightarrow>
          intr_matrix_map_source p (int core) (int i) (sint (v AND im_map_writable_mask d))
      | Some (Status_Reg core i) \<Rightarrow> p
      | Some (Clock_Gate_Reg core) \<Rightarrow>
          (let next = v AND im_clock_gate_writable_mask d in
           if next \<noteq> p_clock_gate p core
           then intr_matrix_refresh_core
                  (p\<lparr>p_clock_gate := (p_clock_gate p)(core := next)\<rparr>) (int core)
           else p)
      | Some (Date_Reg core) \<Rightarrow>
          p\<lparr>p_date := (p_date p)(core := v AND im_date_writable_mask d)\<rparr>
      | None \<Rightarrow> default_write D p addr v)"

section \<open>Software interrupts and the secondary core\<close>

definition intr_matrix_software_interrupt_index :: "'d periph \<Rightarrow> u32 \<Rightarrow> int" where
  "intr_matrix_software_interrupt_index p addr =
     (let d = pt_interrupt_matrix (p_target p);
          off0 = addr - im_software_interrupt_base d;
          off = off0 - im_software_interrupt_offset d;
          i = off div im_software_interrupt_stride d
      in if \<not> cap_intr_matrix (p_target p) then -1
         else if im_software_interrupt_count d = 0 \<or> addr < im_software_interrupt_base d then -1
         else if off0 < im_software_interrupt_offset d then -1
         else if off mod im_software_interrupt_stride d \<noteq> 0 then -1
         else if i < ucast (im_software_interrupt_count d) then uint i else -1)"

definition intr_matrix_write_software_interrupt ::
  "'d periph_env \<Rightarrow> 'd periph \<Rightarrow> nat \<Rightarrow> u32 \<Rightarrow> 'd periph" where
  "intr_matrix_write_software_interrupt D p i value =
     (let d = pt_interrupt_matrix (p_target p);
          v = value AND im_software_interrupt_writable_mask d;
          p1 = p\<lparr>p_from_cpu_intr := (p_from_cpu_intr p)(i := v)\<rparr>;
          source = uint (im_software_interrupt_source_base d) + int i
      in if v \<noteq> 0 then periph_assert_interrupt D p1 source
         else periph_deassert_interrupt D p1 source)"

definition secondary_core_update_release :: "'d periph \<Rightarrow> 'd periph" where
  "secondary_core_update_release p =
     (let d = pt_secondary_core (p_target p); control = p_secondary_core_control p;
          clocked = (sc_clock_gate_mask d = 0 \<or> control AND sc_clock_gate_mask d \<noteq> 0);
          held = (control AND (sc_reset_mask d OR sc_runstall_mask d) \<noteq> 0)
      in p\<lparr>p_app_cpu_in_reset := (\<not> clocked \<or> held)\<rparr>)"

definition secondary_core_read :: "'d periph_env \<Rightarrow> 'd periph \<Rightarrow> u32 \<Rightarrow> u32 \<times> 'd periph" where
  "secondary_core_read D p addr =
     (let d = pt_secondary_core (p_target p); off = addr - sc_base d;
          sw = intr_matrix_software_interrupt_index p addr
      in if off = sc_control_offset d then (p_secondary_core_control p, p)
         else if off = sc_boot_address_offset d then (p_secondary_core_boot_addr p, p)
         else if 0 \<le> sw then (p_from_cpu_intr p (nat sw), p)
         else default_read D p addr)"

definition secondary_core_write :: "'d periph_env \<Rightarrow> 'd periph \<Rightarrow> u32 \<Rightarrow> u32 \<Rightarrow> 'd periph" where
  "secondary_core_write D p addr v =
     (let d = pt_secondary_core (p_target p); off = addr - sc_base d;
          sw = intr_matrix_software_interrupt_index p addr
      in if off = sc_control_offset d then
           secondary_core_update_release
             (p\<lparr>p_secondary_core_control :=
                 v AND (sc_reset_mask d OR sc_clock_gate_mask d OR sc_runstall_mask d)\<rparr>)
         else if off = sc_boot_address_offset d then p\<lparr>p_secondary_core_boot_addr := v\<rparr>
         else if 0 \<le> sw then intr_matrix_write_software_interrupt D p (nat sw) v
         else default_write D p addr v)"

section \<open>The interrupt registers of the classic DPORT\<close>

definition DPORT_BASE :: u32 where "DPORT_BASE = 0x3FF00000"
definition DPORT_PRO_INTR_MAP_BASE_OFF :: u32 where "DPORT_PRO_INTR_MAP_BASE_OFF = 0x104"
definition DPORT_APP_INTR_MAP_BASE_OFF :: u32 where "DPORT_APP_INTR_MAP_BASE_OFF = 0x218"
definition DPORT_CPU_INTR_FROM_CPU_0_OFF :: u32 where "DPORT_CPU_INTR_FROM_CPU_0_OFF = 0x0DC"
definition FROM_CPU_INTR0_SOURCE :: int where "FROM_CPU_INTR0_SOURCE = 24"

text \<open>The core and source of a map register. The four software registers are consecutive.\<close>

definition dport_map_reg :: "u32 \<Rightarrow> (nat \<times> nat) option" where
  "dport_map_reg off =
     (let pro = off - DPORT_PRO_INTR_MAP_BASE_OFF; app = off - DPORT_APP_INTR_MAP_BASE_OFF in
      if DPORT_PRO_INTR_MAP_BASE_OFF \<le> off \<and>
         off < DPORT_PRO_INTR_MAP_BASE_OFF + DPORT_INTR_MAP_SOURCE_COUNT * 4 \<and> pro AND 3 = 0
      then Some (0, unat (pro div 4))
      else if DPORT_APP_INTR_MAP_BASE_OFF \<le> off \<and>
              off < DPORT_APP_INTR_MAP_BASE_OFF + DPORT_INTR_MAP_SOURCE_COUNT * 4 \<and> app AND 3 = 0
      then Some (1, unat (app div 4))
      else None)"

definition dport_from_cpu_reg :: "u32 \<Rightarrow> nat option" where
  "dport_from_cpu_reg off =
     (if off = 0x0DC then Some 0 else if off = 0x0E0 then Some 1
      else if off = 0x0E4 then Some 2 else if off = 0x0E8 then Some 3 else None)"

definition dport_intr_read :: "'d periph \<Rightarrow> u32 \<Rightarrow> u32 option" where
  "dport_intr_read p off =
     (case dport_from_cpu_reg off of
        Some i \<Rightarrow> Some (p_from_cpu_intr p i)
      | None \<Rightarrow>
          (case dport_map_reg off of
             Some (core, s) \<Rightarrow> Some (ucast (p_intr_matrix p core s))
           | None \<Rightarrow> None))"

definition dport_intr_write :: "'d periph_env \<Rightarrow> 'd periph \<Rightarrow> u32 \<Rightarrow> u32 \<Rightarrow> 'd periph option" where
  "dport_intr_write D p off v =
     (case dport_from_cpu_reg off of
        Some i \<Rightarrow>
          Some (intr_matrix_update_source D
                  (p\<lparr>p_from_cpu_intr := (p_from_cpu_intr p)(i := v)\<rparr>)
                  (FROM_CPU_INTR0_SOURCE + int i) (v AND 1 \<noteq> 0))
      | None \<Rightarrow>
          (case dport_map_reg off of
             Some (core, s) \<Rightarrow>
               Some (intr_matrix_map_source p (int core) (int s) (uint (v AND 0x1F)))
           | None \<Rightarrow> None))"

section \<open>Creation and attachment\<close>

definition secondary_core_geometry_valid :: "periph_target \<Rightarrow> bool" where
  "secondary_core_geometry_valid t =
     (let d = pt_secondary_core t in
      cap_secondary_core t \<and>
      1 < pt_core_count t \<and> 4 \<le> sc_register_size d \<and> sc_base d AND 0xFFF = 0 \<and>
      sc_control_offset d AND 3 = 0 \<and> sc_boot_address_offset d AND 3 = 0 \<and>
      sc_control_offset d \<le> sc_register_size d - 4 \<and>
      sc_boot_address_offset d \<le> sc_register_size d - 4 \<and>
      pt_peripheral_start t \<le> sc_base d \<and> sc_base d < pt_peripheral_end t \<and>
      sc_register_size d \<le> pt_peripheral_end t - sc_base d)"

text \<open>The parts of \<open>periph_create\<close> that set up the fabric; the registration of the register
  pages with the memory bus is left out.\<close>

definition fabric_zero :: "periph_target \<Rightarrow> 'd periph" where
  "fabric_zero t =
     \<lparr>p_target = t, p_cpu = (\<lambda>_. None), p_intr_matrix = (\<lambda>_ _. ucast DPORT_INTR_MAP_RESET),
      p_pending_sources = (\<lambda>_. 0), p_source_level = (\<lambda>_. False),
      p_source_level_core = (\<lambda>_ _. False), p_source_status = (\<lambda>_. 0),
      p_irq_dispatch = (\<lambda>_. None), p_irq_dispatch_ctx = (\<lambda>_. 0), p_clock_gate = (\<lambda>_. 0),
      p_date = (\<lambda>_. 0), p_from_cpu_intr = (\<lambda>_. 0), p_app_cpu_in_reset = True,
      p_secondary_core_control = 0, p_secondary_core_boot_addr = 0, p_unhandled_count = 0,
      p_audit_enabled = False, p_audit = [], p_audit_capacity = 0, p_audit_omitted = 0,
      p_dbg_pc = 0, p_dbg_core = 0\<rparr>"

definition create_secondary_core :: "'d periph \<Rightarrow> 'd periph option" where
  "create_secondary_core p =
     (if \<not> cap_secondary_core (p_target p) then Some p
      else if \<not> secondary_core_geometry_valid (p_target p) then None
      else Some (secondary_core_update_release
                   (p\<lparr>p_secondary_core_control := sc_control_reset (pt_secondary_core (p_target p))\<rparr>)))"

definition create_intr_matrix :: "'d periph \<Rightarrow> 'd periph option" where
  "create_intr_matrix p =
     (if \<not> cap_intr_matrix (p_target p) then Some p
      else if \<not> intr_matrix_geometry_valid (p_target p) then None
      else
        let d = pt_interrupt_matrix (p_target p); n = unat (pt_core_count (p_target p)) in
        Some (p\<lparr>p_intr_matrix := (\<lambda>_ _. ucast (im_map_reset d)),
                p_clock_gate := (\<lambda>k. if k < n then im_clock_gate_reset d else p_clock_gate p k),
                p_date := (\<lambda>k. if k < n then im_date_reset d else p_date p k)\<rparr>))"

definition periph_create_fabric :: "periph_target \<Rightarrow> 'd periph option" where
  "periph_create_fabric t =
     Option.bind (create_secondary_core (fabric_zero t)) create_intr_matrix"

text \<open>The interrupt part of \<open>periph_attach_cpus\<close>: sources that are already high reach the
  new processors.\<close>

definition attach_refresh :: "nat \<times> nat \<Rightarrow> 'd periph \<Rightarrow> 'd periph" where
  "attach_refresh x p =
     (let (core, s) = x in
      if p_cpu p core \<noteq> None \<and> p_source_level_core p core s
      then intr_matrix_refresh_cpu_line p (int core) (uint (p_intr_matrix p core s)) else p)"

definition periph_attach_cpus :: "'d periph \<Rightarrow> 'd cpu option \<Rightarrow> 'd cpu option \<Rightarrow> 'd periph" where
  "periph_attach_cpus p c0 c1 =
     (let p1 = p\<lparr>p_cpu := (p_cpu p)(0 := c0, 1 := c1)\<rparr>
      in fold attach_refresh
           (List.product [0 ..< intr_matrix_core_count p1] [0 ..< intr_matrix_source_count p1]) p1)"

section \<open>The two targets\<close>

definition no_secondary_core :: flexe_secondary_core_desc where
  "no_secondary_core = \<lparr>sc_base = 0, sc_register_size = 0, sc_control_offset = 0,
     sc_boot_address_offset = 0, sc_control_reset = 0, sc_reset_mask = 0, sc_clock_gate_mask = 0,
     sc_runstall_mask = 0\<rparr>"

definition no_intr_matrix :: flexe_interrupt_matrix_desc where
  "no_intr_matrix = \<lparr>im_base = 0, im_register_size = 0, im_source_count = 0,
     im_map_offset = (\<lambda>_. 0), im_status_offset = (\<lambda>_. 0), im_clock_gate_offset = (\<lambda>_. 0),
     im_date_offset = (\<lambda>_. 0), im_map_reset = 0, im_map_writable_mask = 0,
     im_clock_gate_reset = 0, im_clock_gate_writable_mask = 0, im_date_reset = 0,
     im_date_writable_mask = 0, im_software_interrupt_base = 0, im_software_interrupt_offset = 0,
     im_software_interrupt_stride = 0, im_software_interrupt_source_base = 0,
     im_software_interrupt_count = 0, im_software_interrupt_writable_mask = 0\<rparr>"

definition esp32_periph_target :: periph_target where
  "esp32_periph_target = \<lparr>pt_core_count = 2, pt_capabilities = 0xF80EA2101,
     pt_peripheral_start = 0x3FF00000, pt_peripheral_end = 0x3FF80000,
     pt_secondary_core = no_secondary_core, pt_interrupt_matrix = no_intr_matrix\<rparr>"

definition esp32s3_secondary_core :: flexe_secondary_core_desc where
  "esp32s3_secondary_core = \<lparr>sc_base = 0x600C0000, sc_register_size = 0x1000,
     sc_control_offset = 0, sc_boot_address_offset = 4, sc_control_reset = 4, sc_reset_mask = 4,
     sc_clock_gate_mask = 2, sc_runstall_mask = 1\<rparr>"

definition esp32s3_intr_matrix :: flexe_interrupt_matrix_desc where
  "esp32s3_intr_matrix = \<lparr>im_base = 0x600C2000, im_register_size = 0x1000, im_source_count = 99,
     im_map_offset = (\<lambda>k. if k = 0 then 0 else 0x800),
     im_status_offset = (\<lambda>k. if k = 0 then 0x18C else 0x98C),
     im_clock_gate_offset = (\<lambda>k. if k = 0 then 0x19C else 0x99C),
     im_date_offset = (\<lambda>k. if k = 0 then 0x7FC else 0xFFC),
     im_map_reset = 16, im_map_writable_mask = 0x1F,
     im_clock_gate_reset = 1, im_clock_gate_writable_mask = 1, im_date_reset = 0x02012300,
     im_date_writable_mask = 0x0FFFFFFF, im_software_interrupt_base = 0x600C0000,
     im_software_interrupt_offset = 0x30, im_software_interrupt_stride = 4,
     im_software_interrupt_source_base = 79, im_software_interrupt_count = 4,
     im_software_interrupt_writable_mask = 1\<rparr>"

definition esp32s3_periph_target :: periph_target where
  "esp32s3_periph_target = \<lparr>pt_core_count = 2, pt_capabilities = 0x3FFFFFFFFE,
     pt_peripheral_start = 0x60000000, pt_peripheral_end = 0x600D1000,
     pt_secondary_core = esp32s3_secondary_core, pt_interrupt_matrix = esp32s3_intr_matrix\<rparr>"

end
