(* ===== verification/Mpi.thy ===== *)
theory Mpi
  imports Bignum Intr_Matrix
begin

text \<open>
  The MPI (RSA) accelerator of src/src/mpi_stubs.c. One half replaces the ESP-IDF driver
  functions: each stub takes its arguments from the register window of the call, reads the
  operands from guest memory, computes with the routines of \<open>Bignum\<close> and returns to the caller.
  The other half is the register-level device with its M, Z, Y and X memories, which computes
  with the host's big-number library; that library is a parameter.
\<close>

section \<open>State\<close>

definition MPI_MAX_WORDS :: nat where "MPI_MAX_WORDS = 128"
definition RSA_PERIPH_BASE :: u32 where "RSA_PERIPH_BASE = 0x3FF02000"
definition RSA_M_WORD :: nat where "RSA_M_WORD = 0"
definition RSA_Z_WORD :: nat where "RSA_Z_WORD = 0x80"
definition RSA_Y_WORD :: nat where "RSA_Y_WORD = 0x100"
definition RSA_X_WORD :: nat where "RSA_X_WORD = 0x180"
definition RSA_MEMORY_WORDS :: nat where "RSA_MEMORY_WORDS = 0x200"
definition RSA_INTR_SOURCE :: int where "RSA_INTR_SOURCE = 51"
definition MPI_OFS_N :: u32 where "MPI_OFS_N = 4"
definition MPI_OFS_P :: u32 where "MPI_OFS_P = 8"

record mpi_stubs =
  ms_result :: "nat \<Rightarrow> u32 list"
  ms_result_words :: "nat \<Rightarrow> nat"
  hw_memory :: "u32 list"
  hw_m_dash :: u32
  hw_modexp_mode :: u32
  hw_mult_mode :: u32
  hw_interrupt :: bool

definition mpi_stubs_create :: mpi_stubs where
  "mpi_stubs_create =
     \<lparr>ms_result = (\<lambda>_. replicate (MPI_MAX_WORDS * 2) 0), ms_result_words = (\<lambda>_. 0),
      hw_memory = replicate RSA_MEMORY_WORDS 0, hw_m_dash = 0, hw_modexp_mode = 0,
      hw_mult_mode = 0, hw_interrupt = False\<rparr>"

text \<open>Where the stub state lives inside the device state of the machine.\<close>

record 'd mpi_port =
  mp_get :: "'d \<Rightarrow> mpi_stubs"
  mp_put :: "mpi_stubs \<Rightarrow> 'd \<Rightarrow> 'd"

definition ms_of :: "'d mpi_port \<Rightarrow> 'd cpu \<Rightarrow> mpi_stubs" where
  "ms_of P c = mp_get P (dev c)"

definition ms_set :: "'d mpi_port \<Rightarrow> mpi_stubs \<Rightarrow> 'd cpu \<Rightarrow> 'd cpu" where
  "ms_set P ms c = c\<lparr>dev := mp_put P ms (dev c)\<rparr>"

section \<open>Calling convention\<close>

definition mpi_arg :: "'d cpu \<Rightarrow> nat \<Rightarrow> u32" where
  "mpi_arg c n = ar_read c (XT_PS_CALLINC (ps c) * 4 + 2 + n)"

definition mpi_return :: "'d cpu \<Rightarrow> u32 \<Rightarrow> 'd cpu" where
  "mpi_return c retval =
     (let ci = XT_PS_CALLINC (ps c) in
      if 0 < ci then
        let c1 = ar_write c (ci * 4 + 2) retval;
            a0 = ar_read c1 (ci * 4)
        in c1\<lparr>pc := (pc c1 AND 0xC0000000) OR (a0 AND 0x3FFFFFFF),
              ps := XT_PS_SET_CALLINC (ps c1) 0\<rparr>
      else
        let c1 = ar_write c 2 retval
        in c1\<lparr>pc := (pc c1 AND 0xC0000000) OR (ar_read c1 0 AND 0x3FFFFFFF)\<rparr>)"

definition mpi_return_void :: "'d cpu \<Rightarrow> 'd cpu" where
  "mpi_return_void c = mpi_return c 0"

section \<open>Operands in guest memory\<close>

definition read_words :: "'d host \<Rightarrow> 'd cpu \<Rightarrow> u32 \<Rightarrow> nat \<Rightarrow> u32 list \<times> 'd cpu" where
  "read_words E c p n =
     fold (\<lambda>i (ws, c). let (w, c1) = mem_read32 E c (p + of_nat (i * 4)) in (ws @ [w], c1))
       [0 ..< n] ([], c)"

definition read_mpi_limbs :: "'d host \<Rightarrow> 'd cpu \<Rightarrow> u32 \<Rightarrow> nat \<Rightarrow> u32 list \<times> 'd cpu" where
  "read_mpi_limbs E c addr max_words =
     (let (n, c1) = mem_read32 E c (addr + MPI_OFS_N);
          (p, c2) = mem_read32 E c1 (addr + MPI_OFS_P);
          to_read = (if unat n < max_words then unat n else max_words);
          (ws, c3) = read_words E c2 p to_read
      in (ws @ replicate (max_words - to_read) 0, c3))"

definition write_words :: "'d host \<Rightarrow> 'd cpu \<Rightarrow> u32 \<Rightarrow> nat \<Rightarrow> nat \<Rightarrow> (nat \<Rightarrow> u32) \<Rightarrow> 'd cpu" where
  "write_words E c p from n f =
     fold (\<lambda>i c. mem_write32 E c (p + of_nat (i * 4)) (f i)) [from ..< n] c"

definition write_mpi_limbs :: "'d host \<Rightarrow> 'd cpu \<Rightarrow> u32 \<Rightarrow> u32 list \<Rightarrow> nat \<Rightarrow> 'd cpu" where
  "write_mpi_limbs E c addr ws z_words =
     (let (n, c1) = mem_read32 E c (addr + MPI_OFS_N);
          (p, c2) = mem_read32 E c1 (addr + MPI_OFS_P);
          to_write = (if z_words < unat n then z_words else unat n);
          c3 = write_words E c2 p 0 to_write (\<lambda>i. ws ! i)
      in write_words E c3 p to_write (unat n) (\<lambda>_. 0))"

section \<open>Driver stubs\<close>

definition stub_esp_mpi_enable_hardware_hw_op :: "'d cpu \<Rightarrow> 'd cpu" where
  "stub_esp_mpi_enable_hardware_hw_op c = mpi_return_void c"

definition stub_esp_mpi_disable_hardware_hw_op :: "'d cpu \<Rightarrow> 'd cpu" where
  "stub_esp_mpi_disable_hardware_hw_op c = mpi_return_void c"

definition stub_esp_mpi_hardware_words :: "'d cpu \<Rightarrow> 'd cpu" where
  "stub_esp_mpi_hardware_words c = mpi_return c ((mpi_arg c 0 + 0xF) AND NOT 0xF)"

definition clamp_words :: "u32 \<Rightarrow> nat" where
  "clamp_words w = (if MPI_MAX_WORDS < unat w then MPI_MAX_WORDS else unat w)"

definition stub_esp_mpi_mul_mpi_hw_op :: "'d mpi_port \<Rightarrow> 'd host \<Rightarrow> 'd cpu \<Rightarrow> 'd cpu" where
  "stub_esp_mpi_mul_mpi_hw_op P E c =
     (let x_addr = mpi_arg c 0; y_addr = mpi_arg c 1; hw_words = clamp_words (mpi_arg c 2);
          k = core_id c;
          (x, c1) = read_mpi_limbs E c x_addr hw_words;
          (y, c2) = read_mpi_limbs E c1 y_addr hw_words;
          rw = (if MPI_MAX_WORDS * 2 < hw_words * 2 then MPI_MAX_WORDS * 2 else hw_words * 2);
          ms = ms_of P c2;
          ms1 = ms\<lparr>ms_result_words := (ms_result_words ms)(k := rw),
                   ms_result := (ms_result ms)(k := bignum_mul x hw_words y hw_words (ms_result ms k) rw)\<rparr>
      in mpi_return_void (ms_set P ms1 c2))"

definition stub_esp_mpi_read_result_hw_op :: "'d mpi_port \<Rightarrow> 'd host \<Rightarrow> 'd cpu \<Rightarrow> 'd cpu" where
  "stub_esp_mpi_read_result_hw_op P E c =
     (let z_addr = mpi_arg c 0; z_words = unat (mpi_arg c 1); k = core_id c;
          ms = ms_of P c;
          zw = (if ms_result_words ms k < z_words then ms_result_words ms k else z_words)
      in mpi_return_void (write_mpi_limbs E c z_addr (ms_result ms k) zw))"

definition stub_esp_mpi_mult_mpi_failover_mod_mult_hw_op ::
  "'d mpi_port \<Rightarrow> 'd host \<Rightarrow> 'd cpu \<Rightarrow> 'd cpu" where
  "stub_esp_mpi_mult_mpi_failover_mod_mult_hw_op P E c =
     (let x_addr = mpi_arg c 0; y_addr = mpi_arg c 1; num_words = clamp_words (mpi_arg c 2);
          k = core_id c;
          (x, c1) = read_mpi_limbs E c x_addr num_words;
          (y, c2) = read_mpi_limbs E c1 y_addr num_words;
          ms = ms_of P c2;
          ms1 = ms\<lparr>ms_result_words := (ms_result_words ms)(k := num_words),
                   ms_result := (ms_result ms)(k := bignum_mul x num_words y num_words (ms_result ms k) num_words)\<rparr>
      in mpi_return_void (ms_set P ms1 c2))"

text \<open>\<open>alloc\<close> is whether the work array of the multiplication can be allocated; \<open>z\<close> is the
  uninitialised array of the stub. The reads of the stack pointers are unused.\<close>

definition stub_esp_mont_hw_op :: "bool \<Rightarrow> u32 list \<Rightarrow> 'd host \<Rightarrow> 'd cpu \<Rightarrow> 'd cpu" where
  "stub_esp_mont_hw_op alloc z E c =
     (let z_addr = mpi_arg c 0; x_addr = mpi_arg c 1; y_addr = mpi_arg c 2; m_addr = mpi_arg c 3;
          m_prime = mpi_arg c 4; hw_words = clamp_words (mpi_arg c 5);
          (x, c1) = read_mpi_limbs E c x_addr hw_words;
          (y, c2) = read_mpi_limbs E c1 y_addr hw_words;
          (m, c3) = read_mpi_limbs E c2 m_addr hw_words;
          z1 = montgomery_mul alloc x y m m_prime hw_words z;
          (z_n, c4) = mem_read32 E c3 (z_addr + MPI_OFS_N)
      in mpi_return (write_mpi_limbs E c4 z_addr z1 hw_words) 0)"

section \<open>The register-level device\<close>

text \<open>What the code uses of the host's big-number library. An operation that fails, or a
  context that cannot be allocated, is \<open>None\<close> or \<open>False\<close>.\<close>

record 'bn bn_lib =
  bn_ctx_ok :: bool
  bn_get_ok :: bool
  bn_lebin2bn :: "u8 list \<Rightarrow> 'bn option"
  bn_bn2lebinpad :: "'bn \<Rightarrow> nat \<Rightarrow> u8 list option"
  bn_is_zero :: "'bn \<Rightarrow> bool"
  bn_one :: "'bn option"
  bn_lshift :: "'bn \<Rightarrow> nat \<Rightarrow> 'bn option"
  bn_mod_exp :: "'bn \<Rightarrow> 'bn \<Rightarrow> 'bn \<Rightarrow> 'bn option"
  bn_mod_inverse :: "'bn \<Rightarrow> 'bn \<Rightarrow> 'bn option"
  bn_mod_mul :: "'bn \<Rightarrow> 'bn \<Rightarrow> 'bn \<Rightarrow> 'bn option"
  bn_mul :: "'bn \<Rightarrow> 'bn \<Rightarrow> 'bn option"

definition words_to_bn :: "'bn bn_lib \<Rightarrow> u32 list \<Rightarrow> nat \<Rightarrow> 'bn option" where
  "words_to_bn L words n =
     (if MPI_MAX_WORDS < n then None
      else bn_lebin2bn L (concat (map (\<lambda>w. [ucast w, ucast (drop_bit 8 w), ucast (drop_bit 16 w),
                                            ucast (drop_bit 24 w)]) (take n words))))"

text \<open>The words of a number, or nothing when it does not fit.\<close>

definition bytes_word :: "u8 list \<Rightarrow> nat \<Rightarrow> u32" where
  "bytes_word bs i = ucast (bs ! (i * 4)) OR push_bit 8 (ucast (bs ! (i * 4 + 1))) OR
     push_bit 16 (ucast (bs ! (i * 4 + 2))) OR push_bit 24 (ucast (bs ! (i * 4 + 3)))"

definition bn_to_words :: "'bn bn_lib \<Rightarrow> 'bn \<Rightarrow> nat \<Rightarrow> u32 list option" where
  "bn_to_words L b n =
     (if MPI_MAX_WORDS < n then None
      else map_option (\<lambda>bs. map (bytes_word bs) [0 ..< n]) (bn_bn2lebinpad L b (n * 4)))"

definition mem_block :: "mpi_stubs \<Rightarrow> nat \<Rightarrow> u32 list" where
  "mem_block ms off = drop off (hw_memory ms)"

definition put_z :: "mpi_stubs \<Rightarrow> u32 list \<Rightarrow> mpi_stubs" where
  "put_z ms ws =
     ms\<lparr>hw_memory := take RSA_Z_WORD (hw_memory ms) @ ws @
                     drop (RSA_Z_WORD + length ws) (hw_memory ms)\<rparr>"

definition rsa_zero_z :: "mpi_stubs \<Rightarrow> mpi_stubs" where
  "rsa_zero_z ms = put_z ms (replicate MPI_MAX_WORDS 0)"

text \<open>The device with the fabric it may be attached to (\<open>ms->periph\<close>).\<close>

definition rsa_complete ::
  "'d periph_env \<Rightarrow> mpi_stubs \<times> 'd periph option \<Rightarrow> mpi_stubs \<times> 'd periph option" where
  "rsa_complete D s =
     ((fst s)\<lparr>hw_interrupt := True\<rparr>,
      map_option (\<lambda>p. periph_assert_interrupt D p RSA_INTR_SOURCE) (snd s))"

definition store_or_zero :: "mpi_stubs \<Rightarrow> u32 list option \<Rightarrow> mpi_stubs" where
  "store_or_zero ms r = (case r of Some ws \<Rightarrow> put_z ms ws | None \<Rightarrow> rsa_zero_z ms)"

definition rsa_modexp_result :: "'bn bn_lib \<Rightarrow> mpi_stubs \<Rightarrow> u32 list option" where
  "rsa_modexp_result L ms =
     (let words = (unat (hw_modexp_mode ms) + 1) * 16 in
      if \<not> bn_ctx_ok L \<or> \<not> bn_get_ok L then None
      else Option.bind (words_to_bn L (mem_block ms RSA_X_WORD) words) (\<lambda>x.
           Option.bind (words_to_bn L (mem_block ms RSA_Y_WORD) words) (\<lambda>y.
           Option.bind (words_to_bn L (mem_block ms RSA_M_WORD) words) (\<lambda>m.
           if bn_is_zero L m then None
           else Option.bind (bn_mod_exp L x y m) (\<lambda>z. bn_to_words L z words)))))"

definition rsa_modexp ::
  "'bn bn_lib \<Rightarrow> 'd periph_env \<Rightarrow> mpi_stubs \<times> 'd periph option \<Rightarrow> mpi_stubs \<times> 'd periph option" where
  "rsa_modexp L D s =
     rsa_complete D (store_or_zero (fst s) (rsa_modexp_result L (fst s)), snd s)"

definition rsa_montgomery_mul :: "'bn bn_lib \<Rightarrow> mpi_stubs \<Rightarrow> nat \<Rightarrow> mpi_stubs" where
  "rsa_montgomery_mul L ms words =
     store_or_zero ms
       (if \<not> bn_ctx_ok L \<or> \<not> bn_get_ok L then None
        else Option.bind (words_to_bn L (mem_block ms RSA_X_WORD) words) (\<lambda>x.
             Option.bind (words_to_bn L (mem_block ms RSA_Z_WORD) words) (\<lambda>y.
             Option.bind (words_to_bn L (mem_block ms RSA_M_WORD) words) (\<lambda>m.
             if bn_is_zero L m then None
             else Option.bind (bn_one L) (\<lambda>one.
                  Option.bind (bn_lshift L one (words * 32)) (\<lambda>r.
                  Option.bind (bn_mod_inverse L r m) (\<lambda>rinv.
                  Option.bind (bn_mod_mul L x y m) (\<lambda>prod.
                  Option.bind (bn_mod_mul L prod rinv m) (\<lambda>z. bn_to_words L z words)))))))))"

definition rsa_plain_mul :: "'bn bn_lib \<Rightarrow> mpi_stubs \<Rightarrow> nat \<Rightarrow> nat \<Rightarrow> mpi_stubs" where
  "rsa_plain_mul L ms operand_words result_words =
     store_or_zero ms
       (if \<not> bn_ctx_ok L \<or> \<not> bn_get_ok L then None
        else Option.bind (words_to_bn L (mem_block ms RSA_X_WORD) operand_words) (\<lambda>x.
             Option.bind (words_to_bn L (mem_block ms (RSA_Z_WORD + operand_words)) operand_words) (\<lambda>y.
             Option.bind (bn_mul L x y) (\<lambda>z. bn_to_words L z result_words))))"

definition rsa_mult ::
  "'bn bn_lib \<Rightarrow> 'd periph_env \<Rightarrow> mpi_stubs \<times> 'd periph option \<Rightarrow> mpi_stubs \<times> 'd periph option" where
  "rsa_mult L D s =
     (let ms = fst s; mode = unat (hw_mult_mode ms);
          ms1 = (if mode \<le> 7 then rsa_montgomery_mul L ms ((mode + 1) * 16)
                 else let rw = min ((mode - 7) * 16) MPI_MAX_WORDS
                      in rsa_plain_mul L ms (rw div 2) rw)
      in rsa_complete D (ms1, snd s))"

definition rsa_mmio_read :: "mpi_stubs \<Rightarrow> u32 \<Rightarrow> u32" where
  "rsa_mmio_read ms addr =
     (let off = addr - RSA_PERIPH_BASE in
      if off < 0x800 then hw_memory ms ! (unat off div 4)
      else if off = 0x800 then hw_m_dash ms
      else if off = 0x804 then hw_modexp_mode ms
      else if off = 0x80C then hw_mult_mode ms
      else if off = 0x814 then (if hw_interrupt ms then 1 else 0)
      else if off = 0x818 then 1
      else 0)"

definition rsa_mmio_write ::
  "'bn bn_lib \<Rightarrow> 'd periph_env \<Rightarrow> mpi_stubs \<times> 'd periph option \<Rightarrow> u32 \<Rightarrow> u32 \<Rightarrow>
     mpi_stubs \<times> 'd periph option" where
  "rsa_mmio_write L D s addr v =
     (let off = addr - RSA_PERIPH_BASE; ms = fst s in
      if off < 0x800 then (ms\<lparr>hw_memory := (hw_memory ms)[unat off div 4 := v]\<rparr>, snd s)
      else if off = 0x800 then (ms\<lparr>hw_m_dash := v\<rparr>, snd s)
      else if off = 0x804 then (ms\<lparr>hw_modexp_mode := v AND 7\<rparr>, snd s)
      else if off = 0x808 then
        (if v AND 1 \<noteq> 0 then rsa_modexp L D (ms\<lparr>hw_interrupt := False\<rparr>, snd s) else s)
      else if off = 0x80C then (ms\<lparr>hw_mult_mode := v AND 15\<rparr>, snd s)
      else if off = 0x810 then
        (if v AND 1 \<noteq> 0 then rsa_mult L D (ms\<lparr>hw_interrupt := False\<rparr>, snd s) else s)
      else if off = 0x814 then
        (if v AND 1 \<noteq> 0
         then (ms\<lparr>hw_interrupt := False\<rparr>,
               map_option (\<lambda>p. periph_deassert_interrupt D p RSA_INTR_SOURCE) (snd s))
         else s)
      else s)"

section \<open>Symbol hooks\<close>

definition mpi_hooks :: "string list" where
  "mpi_hooks = [''esp_mpi_enable_hardware_hw_op'', ''esp_mpi_disable_hardware_hw_op'',
     ''esp_mpi_hardware_words'', ''esp_mpi_mul_mpi_hw_op'', ''esp_mpi_read_result_hw_op'',
     ''esp_mpi_mult_mpi_failover_mod_mult_hw_op'', ''esp_mont_hw_op'']"

text \<open>The stubs that get registered, with their addresses, and the count that is returned.
  Without a symbol table or a hook table nothing is registered.\<close>

definition mpi_stubs_hook_symbols ::
  "(string \<Rightarrow> u32 option) option \<Rightarrow> bool \<Rightarrow> int \<times> (u32 \<times> string) list" where
  "mpi_stubs_hook_symbols syms hook_table =
     (case syms of
        None \<Rightarrow> (0, [])
      | Some table \<Rightarrow>
          if \<not> hook_table then (0, [])
          else let regs = List.map_filter (\<lambda>n. map_option (\<lambda>a. (a, n)) (table n)) mpi_hooks
               in (int (length regs), regs))"

end
