(* ===== verification/Intr_Matrix_Facts.thy ===== *)
theory Intr_Matrix_Facts
  imports Intr_Matrix Interrupts
begin

text \<open>
  What the interrupt matrix guarantees: on every core, every line that the matrix can drive
  shows the combined level of the sources routed to it, whatever the guest and the device
  models do; an asserted source that is routed, enabled and above the level of the core is
  deliverable at once; the map registers read back what was written.
\<close>

section \<open>What a refresh changes\<close>

lemma request_irq_check_interrupt [simp]:
  "interrupt (xtensa_request_irq_check c) = interrupt c"
  by (simp add: xtensa_request_irq_check_def xtensa_native_chain_barrier_def Let_def)

lemma refresh_frame [simp]:
  "p_target (intr_matrix_refresh_cpu_line p core i) = p_target p"
  "p_intr_matrix (intr_matrix_refresh_cpu_line p core i) = p_intr_matrix p"
  "p_pending_sources (intr_matrix_refresh_cpu_line p core i) = p_pending_sources p"
  "p_source_level (intr_matrix_refresh_cpu_line p core i) = p_source_level p"
  "p_source_level_core (intr_matrix_refresh_cpu_line p core i) = p_source_level_core p"
  "p_source_status (intr_matrix_refresh_cpu_line p core i) = p_source_status p"
  "p_irq_dispatch (intr_matrix_refresh_cpu_line p core i) = p_irq_dispatch p"
  "p_irq_dispatch_ctx (intr_matrix_refresh_cpu_line p core i) = p_irq_dispatch_ctx p"
  "p_clock_gate (intr_matrix_refresh_cpu_line p core i) = p_clock_gate p"
  by (simp_all add: intr_matrix_refresh_cpu_line_def Let_def split: option.split)

lemma counts_cong:
  assumes "p_target q = p_target p"
  shows "intr_matrix_source_count q = intr_matrix_source_count p"
    "intr_matrix_core_count q = intr_matrix_core_count p"
  using assms by (simp_all add: intr_matrix_source_count_def intr_matrix_core_count_def)

lemma refresh_counts [simp]:
  "intr_matrix_source_count (intr_matrix_refresh_cpu_line p core i) = intr_matrix_source_count p"
  "intr_matrix_core_count (intr_matrix_refresh_cpu_line p core i) = intr_matrix_core_count p"
  by (rule counts_cong, simp)+

lemma update_counts [simp]:
  "intr_matrix_core_count (p\<lparr>p_source_level_core := x\<rparr>) = intr_matrix_core_count p"
  "intr_matrix_core_count (p\<lparr>p_intr_matrix := y\<rparr>) = intr_matrix_core_count p"
  by (rule counts_cong, simp)+

lemma core_enabled_cong:
  assumes "p_target q = p_target p" "p_clock_gate q = p_clock_gate p"
  shows "intr_matrix_core_enabled q core = intr_matrix_core_enabled p core"
  using assms by (simp add: intr_matrix_core_enabled_def counts_cong [OF assms(1)])

text \<open>Line \<open>i\<close> of a core is driven: the core is enabled and some source routed to the line has
  its level high for that core.\<close>

lemma line_asserted_iff:
  "line_asserted p core (int i) \<longleftrightarrow>
     intr_matrix_core_enabled p core \<and>
     (\<exists>s < intr_matrix_source_count p. p_intr_matrix p (nat core) s = of_nat i \<and>
        p_source_level_core p (nat core) s)"
  by (auto simp: line_asserted_def list_ex_iff)

lemma line_asserted_cong:
  assumes "p_target q = p_target p" "p_clock_gate q = p_clock_gate p"
    "\<And>s. s < intr_matrix_source_count p \<Longrightarrow>
       (p_intr_matrix q (nat core) s = of_nat i \<and> p_source_level_core q (nat core) s) =
       (p_intr_matrix p (nat core) s = of_nat i \<and> p_source_level_core p (nat core) s)"
  shows "line_asserted q core (int i) = line_asserted p core (int i)"
  using assms(3)
  by (auto simp: line_asserted_iff counts_cong [OF assms(1)] core_enabled_cong [OF assms(1,2)])

definition line_ok :: "'d periph \<Rightarrow> nat \<Rightarrow> nat \<Rightarrow> bool" where
  "line_ok p core i \<longleftrightarrow>
     (\<forall>c. p_cpu p core = Some c \<longrightarrow> bit (interrupt c) i = line_asserted p (int core) (int i))"

text \<open>Every routeable line of every core shows the level of the sources routed to it.\<close>

definition lines_ok :: "'d periph \<Rightarrow> bool" where
  "lines_ok p \<longleftrightarrow>
     (\<forall>core < intr_matrix_core_count p. \<forall>i < 32.
        intr_matrix_cpu_line_is_routeable (int i) \<longrightarrow> line_ok p core i)"

lemma lines_okI:
  assumes "\<And>core i. core < intr_matrix_core_count p \<Longrightarrow> i < 32 \<Longrightarrow>
             intr_matrix_cpu_line_is_routeable (int i) \<Longrightarrow> line_ok p core i"
  shows "lines_ok p"
  using assms by (simp add: lines_ok_def)

lemma lines_okD:
  assumes "lines_ok p" "core < intr_matrix_core_count p" "i < 32"
    "intr_matrix_cpu_line_is_routeable (int i)"
  shows "line_ok p core i"
  using assms by (simp add: lines_ok_def)

lemma line_ok_cong:
  assumes "p_cpu q core = p_cpu p core"
    "line_asserted q (int core) (int i) = line_asserted p (int core) (int i)"
  shows "line_ok q core i = line_ok p core i"
  using assms by (simp add: line_ok_def)

lemma refresh_line_asserted [simp]:
  "line_asserted (intr_matrix_refresh_cpu_line p core i) k (int j) = line_asserted p k (int j)"
  by (rule line_asserted_cong) simp_all

lemma routeable_range: "intr_matrix_cpu_line_is_routeable i \<Longrightarrow> 0 \<le> i \<and> i < 32"
  by (auto simp: intr_matrix_cpu_line_is_routeable_def)

lemma refresh_establishes:
  assumes "core < intr_matrix_core_count p" "i < 32" "intr_matrix_cpu_line_is_routeable (int i)"
  shows "line_ok (intr_matrix_refresh_cpu_line p (int core) (int i)) core i"
proof -
  have "line_asserted (intr_matrix_refresh_cpu_line p (int core) (int i)) (int core) (int i)
        = line_asserted p (int core) (int i)" by simp
  then show ?thesis
    using assms
    by (auto simp: line_ok_def intr_matrix_refresh_cpu_line_def Let_def bit_simps
          split: option.splits if_splits)
qed

lemma refresh_other:
  assumes "core' \<noteq> core \<or> int j \<noteq> i" "j < 32"
  shows "line_ok (intr_matrix_refresh_cpu_line p (int core) i) core' j = line_ok p core' j"
proof (cases "intr_matrix_core_count p \<le> core \<or> \<not> intr_matrix_cpu_line_is_routeable i
              \<or> p_cpu p core = None")
  case True
  then show ?thesis by (auto simp: intr_matrix_refresh_cpu_line_def)
next
  case False
  then obtain c where c: "p_cpu p core = Some c" and r: "0 \<le> i" "i < 32"
    using routeable_range by auto
  let ?q = "intr_matrix_refresh_cpu_line p (int core) i"
  have "line_asserted ?q (int core') (int j) = line_asserted p (int core') (int j)" by simp
  moreover have "core' \<noteq> core \<Longrightarrow> p_cpu ?q core' = p_cpu p core'"
    by (simp add: intr_matrix_refresh_cpu_line_def Let_def split: option.split)
  moreover have "\<exists>c'. p_cpu ?q core = Some c' \<and> (nat i \<noteq> j \<longrightarrow> bit (interrupt c') j = bit (interrupt c) j)"
    using False c assms(2) by (auto simp: intr_matrix_refresh_cpu_line_def Let_def bit_simps)
  ultimately show ?thesis
    using assms(1) c r by (cases "core' = core") (auto simp: line_ok_def)
qed

section \<open>The operations keep the lines in step\<close>

lemma lines_ok_frame:
  assumes "lines_ok p" "p_target q = p_target p" "p_clock_gate q = p_clock_gate p"
    "p_intr_matrix q = p_intr_matrix p" "p_source_level_core q = p_source_level_core p"
    "p_cpu q = p_cpu p"
  shows "lines_ok q"
proof (rule lines_okI)
  fix core i assume "core < intr_matrix_core_count q" "i < 32"
    "intr_matrix_cpu_line_is_routeable (int i)"
  then have "line_ok p core i"
    using assms(1) by (simp add: lines_okD counts_cong [OF assms(2)])
  moreover have "line_asserted q (int core) (int i) = line_asserted p (int core) (int i)"
    using assms by (intro line_asserted_cong) simp_all
  ultimately show "line_ok q core i" using assms(6) by (simp add: line_ok_def)
qed

text \<open>Changing one source of one core affects only the lines it was and is routed to.\<close>

lemma source_change_other:
  assumes "lines_ok p" "p_target q = p_target p" "p_clock_gate q = p_clock_gate p"
    "p_cpu q = p_cpu p"
    and same: "\<And>k s. (k, s) \<noteq> (core, source) \<Longrightarrow>
       p_intr_matrix q k s = p_intr_matrix p k s \<and> p_source_level_core q k s = p_source_level_core p k s"
    and "k < intr_matrix_core_count p" "j < 32" "intr_matrix_cpu_line_is_routeable (int j)"
    and "k \<noteq> core \<or> (int j \<noteq> uint (p_intr_matrix p core source) \<and>
                      int j \<noteq> uint (p_intr_matrix q core source))"
  shows "line_ok q k j"
proof -
  have "line_asserted q (int k) (int j) = line_asserted p (int k) (int j)"
  proof (rule line_asserted_cong [OF assms(2,3)])
    fix s
    show "(p_intr_matrix q (nat (int k)) s = of_nat j \<and> p_source_level_core q (nat (int k)) s) =
          (p_intr_matrix p (nat (int k)) s = of_nat j \<and> p_source_level_core p (nat (int k)) s)"
    proof (cases "(k, s) = (core, source)")
      case True
      have "uint (of_nat j :: u8) = int j"
        using assms(7) by (simp add: uint_nat unat_of_nat)
      then have "p_intr_matrix p core source \<noteq> of_nat j" "p_intr_matrix q core source \<noteq> of_nat j"
        using assms(9) True by auto
      then show ?thesis using True by simp
    qed (use same in auto)
  qed
  moreover have "line_ok p k j" using assms(1,6,7,8) by (rule lines_okD)
  ultimately show ?thesis using assms(4) by (simp add: line_ok_def)
qed

lemma set_source_core_frame [simp]:
  "p_target (set_source_core p core source level) = p_target p"
  "p_intr_matrix (set_source_core p core source level) = p_intr_matrix p"
  "p_pending_sources (set_source_core p core source level) = p_pending_sources p"
  "p_source_level (set_source_core p core source level) = p_source_level p"
  "p_source_level_core (set_source_core p core source level) =
     (p_source_level_core p)(core := (p_source_level_core p core)(source := level))"
  "p_source_status (set_source_core p core source level) = p_source_status p"
  "p_irq_dispatch (set_source_core p core source level) = p_irq_dispatch p"
  "p_irq_dispatch_ctx (set_source_core p core source level) = p_irq_dispatch_ctx p"
  "p_clock_gate (set_source_core p core source level) = p_clock_gate p"
  "intr_matrix_core_count (set_source_core p core source level) = intr_matrix_core_count p"
  "intr_matrix_source_count (set_source_core p core source level) = intr_matrix_source_count p"
  by (simp_all add: set_source_core_def Let_def intr_matrix_source_count_def)

lemma refresh_line_cases:
  assumes "k < intr_matrix_core_count p" "j < 32" "intr_matrix_cpu_line_is_routeable (int j)"
    and "k \<noteq> core \<or> int j \<noteq> i \<Longrightarrow> line_ok p k j"
  shows "line_ok (intr_matrix_refresh_cpu_line p (int core) i) k j"
proof (cases "k = core \<and> int j = i")
  case True
  then show ?thesis using refresh_establishes [OF assms(1,2,3)] by auto
next
  case False
  then show ?thesis using assms by (subst refresh_other) auto
qed

lemma set_source_core_ok:
  assumes "lines_ok p"
  shows "lines_ok (set_source_core p core source level)"
proof (rule lines_okI)
  let ?q = "p\<lparr>p_source_level_core := (p_source_level_core p)(core :=
              (p_source_level_core p core)(source := level))\<rparr>"
  fix k j
  assume k: "k < intr_matrix_core_count (set_source_core p core source level)" and j: "j < 32"
    "intr_matrix_cpu_line_is_routeable (int j)"
  have k': "k < intr_matrix_core_count p" using k by simp
  show "line_ok (set_source_core p core source level) k j"
    unfolding set_source_core_def Let_def
  proof (rule refresh_line_cases [OF _ j])
    show "k < intr_matrix_core_count ?q" using k' by simp
    assume "k \<noteq> core \<or> int j \<noteq> uint (p_intr_matrix ?q core source)"
    then show "line_ok ?q k j"
      by (intro source_change_other [OF assms _ _ _ _ k' j, of _ core source]) auto
  qed
qed

lemma map_source_ok:
  assumes "lines_ok p"
  shows "lines_ok (intr_matrix_map_source p core source i)"
proof (cases "core < 0 \<or> intr_matrix_core_count p \<le> nat core \<or>
         source < 0 \<or> intr_matrix_source_count p \<le> nat source \<or> i < 0 \<or> 31 < i")
  case True
  then show ?thesis using assms by (simp add: intr_matrix_map_source_def)
next
  case False
  define n s where "n = nat core" and "s = nat source"
  define q where "q = p\<lparr>p_intr_matrix := (p_intr_matrix p)(n := (p_intr_matrix p n)(s := of_int i))\<rparr>"
  define old where "old = uint (p_intr_matrix p n s)"
  have core: "core = int n" using False by (simp add: n_def)
  have new: "uint (p_intr_matrix q n s) = i"
    using False by (simp add: q_def uint_word_of_int)
  have eq: "intr_matrix_map_source p core source i =
      intr_matrix_refresh_cpu_line (intr_matrix_refresh_cpu_line q (int n) old) (int n) i"
    using False by (simp add: intr_matrix_map_source_def Let_def q_def n_def s_def old_def)
  have cnt: "intr_matrix_core_count q = intr_matrix_core_count p"
    by (rule counts_cong) (simp add: q_def)
  show ?thesis
    unfolding eq
  proof (rule lines_okI)
    fix k j
    assume k: "k < intr_matrix_core_count (intr_matrix_refresh_cpu_line
        (intr_matrix_refresh_cpu_line q (int n) old) (int n) i)"
      and j: "j < 32" "intr_matrix_cpu_line_is_routeable (int j)"
    have k': "k < intr_matrix_core_count p" "k < intr_matrix_core_count q"
      using k by (simp_all add: cnt)
    show "line_ok (intr_matrix_refresh_cpu_line (intr_matrix_refresh_cpu_line q (int n) old) (int n) i) k j"
    proof (rule refresh_line_cases [OF _ j])
      show "k < intr_matrix_core_count (intr_matrix_refresh_cpu_line q (int n) old)"
        using k' by simp
      assume a: "k \<noteq> n \<or> int j \<noteq> i"
      show "line_ok (intr_matrix_refresh_cpu_line q (int n) old) k j"
      proof (rule refresh_line_cases [OF k'(2) j])
        assume "k \<noteq> n \<or> int j \<noteq> old"
        then show "line_ok q k j"
          using a new
          by (intro source_change_other [OF assms _ _ _ _ k'(1) j, of _ n s])
             (auto simp: q_def old_def)
      qed
    qed
  qed
qed

lemma fold_set_source_ok:
  "lines_ok p \<Longrightarrow> lines_ok (fold (\<lambda>core p. set_source_core p core source level) cores p)"
  by (induction cores arbitrary: p) (simp_all add: set_source_core_ok)

text \<open>A registered handler runs guest code; the fabric relies on it to leave the lines alone
  except through the fabric's own operations.\<close>

definition handlers_ok :: "'d periph_env \<Rightarrow> bool" where
  "handlers_ok D \<longleftrightarrow> (\<forall>f ctx s p. lines_ok p \<longrightarrow> lines_ok (pe_dispatch D f ctx s p))"

lemma irq_call_ok: "handlers_ok D \<Longrightarrow> lines_ok p \<Longrightarrow> lines_ok (irq_call D p source)"
  by (simp add: irq_call_def handlers_ok_def split: option.split)

lemma update_source_ok:
  assumes "handlers_ok D" "lines_ok p"
  shows "lines_ok (intr_matrix_update_source D p source level)"
proof -
  have "lines_ok (p\<lparr>p_source_level := x\<rparr>)" for x
    using assms(2) by (rule lines_ok_frame) simp_all
  then show ?thesis
    using assms
    by (simp add: intr_matrix_update_source_def Let_def irq_call_ok fold_set_source_ok)
qed

lemma update_source_core_ok:
  assumes "handlers_ok D" "lines_ok p"
  shows "lines_ok (intr_matrix_update_source_core D p core source level)"
proof -
  let ?q = "set_source_core p (nat core) (nat source) level"
  have "lines_ok (?q\<lparr>p_source_level := x\<rparr>)" for x
    using set_source_core_ok [OF assms(2)] by (rule lines_ok_frame) simp_all
  then show ?thesis
    using assms by (simp add: intr_matrix_update_source_core_def Let_def irq_call_ok)
qed

lemma set_pending_ok: "lines_ok p \<Longrightarrow> lines_ok (set_pending p source on)"
  by (erule lines_ok_frame) (simp_all add: set_pending_def Let_def)

lemma assert_ok:
  "handlers_ok D \<Longrightarrow> lines_ok p \<Longrightarrow> lines_ok (periph_assert_interrupt D p source)"
  by (simp add: periph_assert_interrupt_def update_source_ok set_pending_ok)

lemma source_status_ok: "lines_ok p \<Longrightarrow> lines_ok (p\<lparr>p_source_status := x\<rparr>)"
  by (erule lines_ok_frame) simp_all

lemma assert_status_ok:
  "handlers_ok D \<Longrightarrow> lines_ok p \<Longrightarrow> lines_ok (periph_assert_interrupt_status D p source status)"
  by (simp add: periph_assert_interrupt_status_def Let_def update_source_ok set_pending_ok
        irq_call_ok source_status_ok)

lemma deassert_ok:
  "handlers_ok D \<Longrightarrow> lines_ok p \<Longrightarrow> lines_ok (periph_deassert_interrupt D p source)"
  by (simp add: periph_deassert_interrupt_def Let_def update_source_ok set_pending_ok
        source_status_ok)

lemma default_frame [simp]:
  "p_target (default_write D p a v) = p_target p"
  "p_clock_gate (default_write D p a v) = p_clock_gate p"
  "p_intr_matrix (default_write D p a v) = p_intr_matrix p"
  "p_source_level_core (default_write D p a v) = p_source_level_core p"
  "p_cpu (default_write D p a v) = p_cpu p"
  by (simp_all add: default_write_def unhandled_audit_record_def unhandled_audit_merge_site_def
        audit_omit_def count_unhandled_def Let_def split: option.split)

lemma default_write_ok: "lines_ok p \<Longrightarrow> lines_ok (default_write D p a v)"
  by (erule lines_ok_frame) simp_all

lemma fold_refresh_keeps:
  assumes "k < intr_matrix_core_count p" "j < 32" "intr_matrix_cpu_line_is_routeable (int j)"
    "line_ok p k j \<or> (k = core \<and> j \<in> set xs)"
  shows "line_ok (fold (\<lambda>i p. intr_matrix_refresh_cpu_line p (int core) (int i)) xs p) k j"
  using assms
proof (induction xs arbitrary: p)
  case (Cons x xs)
  have "line_ok (intr_matrix_refresh_cpu_line p (int core) (int x)) k j \<or> (k = core \<and> j \<in> set xs)"
    using Cons.prems by (cases "k = core \<and> j = x") (auto intro!: refresh_line_cases)
  then show ?case using Cons.IH [OF _ Cons.prems(2,3)] Cons.prems(1) by simp
qed simp

text \<open>Opening or closing the clock gate of a core rebuilds all its lines.\<close>

lemma clock_gate_ok:
  assumes "lines_ok p" "core < intr_matrix_core_count p"
  shows "lines_ok (intr_matrix_refresh_core (p\<lparr>p_clock_gate := (p_clock_gate p)(core := v)\<rparr>) (int core))"
proof (rule lines_okI)
  let ?q = "p\<lparr>p_clock_gate := (p_clock_gate p)(core := v)\<rparr>"
  have cnt: "intr_matrix_core_count ?q = intr_matrix_core_count p" "intr_matrix_source_count ?q = intr_matrix_source_count p"
    by (rule counts_cong, simp)+
  have fold_cnt: "intr_matrix_core_count (fold (\<lambda>i p. intr_matrix_refresh_cpu_line p (int core) (int i)) xs q)
     = intr_matrix_core_count q" for xs and q :: "'a periph"
    by (induction xs arbitrary: q) simp_all
  fix k j
  assume k: "k < intr_matrix_core_count (intr_matrix_refresh_core ?q (int core))" and j: "j < 32"
    "intr_matrix_cpu_line_is_routeable (int j)"
  have eq: "intr_matrix_refresh_core ?q (int core) =
      fold (\<lambda>i p. intr_matrix_refresh_cpu_line p (int core) (int i)) [0 ..< 32] ?q"
    using assms(2) by (simp add: intr_matrix_refresh_core_def cnt)
  have k': "k < intr_matrix_core_count p" using k by (simp add: eq fold_cnt cnt)
  have "line_ok ?q k j \<or> (k = core \<and> j \<in> set [0 ..< 32])"
  proof (cases "k = core")
    case False
    then have "line_asserted ?q (int k) (int j) = line_asserted p (int k) (int j)"
      by (simp add: line_asserted_iff cnt intr_matrix_core_enabled_def)
    then show ?thesis
      using lines_okD [OF assms(1) k' j] by (simp add: line_ok_def)
  qed (use j in simp)
  then show "line_ok (intr_matrix_refresh_core ?q (int core)) k j"
    unfolding eq using k' j cnt by (intro fold_refresh_keeps) simp_all
qed

lemma matrix_reg_of_core:
  "matrix_reg_of d off cores = Some r \<Longrightarrow>
     (case r of Map_Reg k i \<Rightarrow> k \<in> set cores | Status_Reg k i \<Rightarrow> k \<in> set cores
      | Clock_Gate_Reg k \<Rightarrow> k \<in> set cores | Date_Reg k \<Rightarrow> k \<in> set cores)"
  by (induction d off cores rule: matrix_reg_of.induct)
     (auto split: option.splits if_splits matrix_reg.splits)

lemma matrix_write_ok:
  assumes "lines_ok p"
  shows "lines_ok (target_intr_matrix_write D p addr v)"
proof -
  have "lines_ok (p\<lparr>p_date := x\<rparr>)" for x using assms by (rule lines_ok_frame) simp_all
  then show ?thesis
    using assms
    by (auto simp: target_intr_matrix_write_def Let_def default_write_ok map_source_ok clock_gate_ok
          split: option.split matrix_reg.split dest: matrix_reg_of_core)
qed

lemma secondary_write_ok:
  assumes "handlers_ok D" "lines_ok p"
  shows "lines_ok (secondary_core_write D p addr v)"
proof -
  have 1: "lines_ok (secondary_core_update_release (p\<lparr>p_secondary_core_control := x\<rparr>))" for x
    using assms(2) by (rule lines_ok_frame) (simp_all add: secondary_core_update_release_def Let_def)
  have 2: "lines_ok (p\<lparr>p_secondary_core_boot_addr := v\<rparr>)"
    using assms(2) by (rule lines_ok_frame) simp_all
  have 3: "lines_ok (p\<lparr>p_from_cpu_intr := x\<rparr>)" for x
    using assms(2) by (rule lines_ok_frame) simp_all
  show ?thesis
    using assms 1 2 3
    by (simp add: secondary_core_write_def Let_def default_write_ok
          intr_matrix_write_software_interrupt_def assert_ok deassert_ok)
qed

lemma dport_write_ok:
  assumes "handlers_ok D" "lines_ok p" "dport_intr_write D p off v = Some q"
  shows "lines_ok q"
proof -
  have "lines_ok (p\<lparr>p_from_cpu_intr := x\<rparr>)" for x
    using assms(2) by (rule lines_ok_frame) simp_all
  then show ?thesis
    using assms by (auto simp: dport_intr_write_def update_source_ok map_source_ok split: option.splits)
qed

lemma set_dispatch_ok: "lines_ok p \<Longrightarrow> lines_ok (snd (periph_set_irq_dispatch p source f ctx))"
  by (auto simp: periph_set_irq_dispatch_def elim: lines_ok_frame)

lemma attach_refresh_frame [simp]:
  "p_target (attach_refresh x p) = p_target p"
  "p_intr_matrix (attach_refresh x p) = p_intr_matrix p"
  "p_source_level_core (attach_refresh x p) = p_source_level_core p"
  "intr_matrix_core_count (attach_refresh x p) = intr_matrix_core_count p"
  "intr_matrix_source_count (attach_refresh x p) = intr_matrix_source_count p"
  "line_asserted (attach_refresh x p) k (int j) = line_asserted p k (int j)"
  by (simp_all add: attach_refresh_def split: prod.split)

lemma fold_attach_keeps:
  assumes "k < intr_matrix_core_count p" "j < 32" "intr_matrix_cpu_line_is_routeable (int j)"
    "line_ok p k j \<or> (\<exists>s. (k, s) \<in> set xs \<and> p_intr_matrix p k s = of_nat j \<and> p_source_level_core p k s)"
  shows "line_ok (fold attach_refresh xs p) k j"
  using assms
proof (induction xs arbitrary: p)
  case (Cons x xs)
  obtain c s where x: "x = (c, s)" by fastforce
  have u: "uint (of_nat j :: u8) = int j"
    using Cons.prems(2) by (simp add: uint_nat unat_of_nat)
  have here: "line_ok (attach_refresh x p) k j"
    if "line_ok p k j \<or> (k = c \<and> p_intr_matrix p k s = of_nat j \<and> p_source_level_core p k s)"
  proof (cases "p_cpu p c \<noteq> None \<and> p_source_level_core p c s")
    case True
    then show ?thesis
      using that u x Cons.prems(1-3)
      by (auto simp: attach_refresh_def intro!: refresh_line_cases)
  next
    case False
    then have "attach_refresh x p = p" by (auto simp: attach_refresh_def x)
    then show ?thesis using that False by (auto simp: line_ok_def)
  qed
  have "line_ok (attach_refresh x p) k j \<or> (\<exists>s. (k, s) \<in> set xs \<and>
      p_intr_matrix (attach_refresh x p) k s = of_nat j \<and> p_source_level_core (attach_refresh x p) k s)"
    using Cons.prems(4) here x by auto
  then show ?case using Cons.IH [OF _ Cons.prems(2,3)] Cons.prems(1) by simp
qed simp

lemma fold_attach_count [simp]:
  "intr_matrix_core_count (fold attach_refresh xs p) = intr_matrix_core_count p"
  by (induction xs arbitrary: p) simp_all

text \<open>The processors have no routeable line set, as after reset.\<close>

definition lines_clear :: "'d cpu option \<Rightarrow> bool" where
  "lines_clear c \<longleftrightarrow>
     (\<forall>x i. c = Some x \<longrightarrow> i < 32 \<longrightarrow> intr_matrix_cpu_line_is_routeable (int i) \<longrightarrow>
        \<not> bit (interrupt x) i)"

lemma attach_ok:
  assumes "lines_clear c0" "lines_clear c1"
  shows "lines_ok (periph_attach_cpus p c0 c1)"
proof (rule lines_okI)
  let ?q = "p\<lparr>p_cpu := (p_cpu p)(0 := c0, 1 := c1)\<rparr>"
  let ?xs = "List.product [0 ..< intr_matrix_core_count ?q] [0 ..< intr_matrix_source_count ?q]"
  have eq: "periph_attach_cpus p c0 c1 = fold attach_refresh ?xs ?q"
    by (simp add: periph_attach_cpus_def Let_def)
  fix k j
  assume k: "k < intr_matrix_core_count (periph_attach_cpus p c0 c1)" and j: "j < 32"
    "intr_matrix_cpu_line_is_routeable (int j)"
  have k': "k < intr_matrix_core_count ?q" using k by (simp add: eq)
  then have "k = 0 \<or> k = 1"
    by (auto simp: intr_matrix_core_count_def FLEXE_TARGET_INTERRUPT_CORE_MAX_def Let_def split: if_splits)
  then have clear: "\<not> bit (interrupt c) j" if "p_cpu ?q k = Some c" for c
    using that assms j by (auto simp: lines_clear_def)
  have "line_ok ?q k j \<or> (\<exists>s. (k, s) \<in> set ?xs \<and> p_intr_matrix ?q k s = of_nat j \<and>
      p_source_level_core ?q k s)"
  proof (cases "line_asserted ?q (int k) (int j)")
    case True
    then obtain s where "s < intr_matrix_source_count ?q" "p_intr_matrix ?q k s = of_nat j"
      "p_source_level_core ?q k s"
      by (auto simp only: line_asserted_iff nat_int)
    then show ?thesis using k' by auto
  next
    case False
    then show ?thesis using clear by (auto simp: line_ok_def)
  qed
  then show "line_ok (periph_attach_cpus p c0 c1) k j"
    unfolding eq using k' j by (intro fold_attach_keeps)
qed

section \<open>Sequences of fabric operations\<close>

datatype fabric_op =
    Assert int | Assert_Status int u32 | Deassert int | Level_On_Core int int bool
  | Route int int int | Matrix_Store u32 u32 | Secondary_Store u32 u32 | Dport_Store u32 u32
  | Register_Handler int "nat option" nat

fun fabric_step :: "'d periph_env \<Rightarrow> fabric_op \<Rightarrow> 'd periph \<Rightarrow> 'd periph" where
  "fabric_step D (Assert s) p = periph_assert_interrupt D p s"
| "fabric_step D (Assert_Status s v) p = periph_assert_interrupt_status D p s v"
| "fabric_step D (Deassert s) p = periph_deassert_interrupt D p s"
| "fabric_step D (Level_On_Core core s on) p = intr_matrix_update_source_core D p core s on"
| "fabric_step D (Route core i s) p = periph_intr_matrix_set p core i s"
| "fabric_step D (Matrix_Store a v) p = target_intr_matrix_write D p a v"
| "fabric_step D (Secondary_Store a v) p = secondary_core_write D p a v"
| "fabric_step D (Dport_Store a v) p = (case dport_intr_write D p (a - DPORT_BASE) v of Some q \<Rightarrow> q | None \<Rightarrow> p)"
| "fabric_step D (Register_Handler s f ctx) p = snd (periph_set_irq_dispatch p s f ctx)"

lemma fabric_step_ok:
  assumes "handlers_ok D" "lines_ok p"
  shows "lines_ok (fabric_step D op p)"
  using assms
  by (cases op)
     (auto simp: assert_ok assert_status_ok deassert_ok update_source_core_ok periph_intr_matrix_set_def
        map_source_ok matrix_write_ok secondary_write_ok set_dispatch_ok dport_write_ok split: option.split)

lemma fabric_run_ok:
  assumes "handlers_ok D" "lines_ok p"
  shows "lines_ok (fold (fabric_step D) ops p)"
  using assms(2) by (induction ops arbitrary: p) (simp_all add: fabric_step_ok assms(1))

text \<open>C6. On every core the interrupt register shows the sources: starting from two processors
  with clear lines, after any sequence of asserts, deasserts, routing changes, register writes
  and handler registrations, a line the matrix can drive is set exactly when the core's gate is
  open and some source routed to that line is high for that core.\<close>

theorem matrix_lines_follow_sources:
  assumes "lines_clear c0" "lines_clear c1" "handlers_ok D"
    and q: "q = fold (fabric_step D) ops (periph_attach_cpus p c0 c1)"
    and "core < intr_matrix_core_count q" "i < 32" "intr_matrix_cpu_line_is_routeable (int i)"
    and "p_cpu q core = Some c"
  shows "bit (interrupt c) i \<longleftrightarrow>
           intr_matrix_core_enabled q (int core) \<and>
           (\<exists>s < intr_matrix_source_count q. p_intr_matrix q core s = of_nat i \<and>
              p_source_level_core q core s)"
proof -
  have "lines_ok q" unfolding q by (intro fabric_run_ok attach_ok assms)
  then have "line_ok q core i" using assms by (intro lines_okD)
  then show ?thesis using assms(8) by (simp add: line_ok_def line_asserted_iff)
qed

section \<open>From a source to the processor\<close>

lemma set_source_core_cpu:
  assumes "core < intr_matrix_core_count p" "p_cpu p core = Some c"
    "p_intr_matrix p core s = of_nat i" "i < 32" "intr_matrix_cpu_line_is_routeable (int i)"
    "intr_matrix_core_enabled p (int core)" "s < intr_matrix_source_count p"
  shows "p_cpu (set_source_core p core s True) core =
           Some (xtensa_request_irq_check (c\<lparr>interrupt := interrupt c OR push_bit i 1\<rparr>))"
proof -
  let ?q = "p\<lparr>p_source_level_core := (p_source_level_core p)(core := (p_source_level_core p core)(s := True))\<rparr>"
  have u: "uint (of_nat i :: u8) = int i" using assms(4) by (simp add: uint_nat unat_of_nat)
  have "intr_matrix_source_count ?q = intr_matrix_source_count p" by (rule counts_cong) simp
  moreover have "intr_matrix_core_enabled ?q (int core)"
    using assms(6) by (subst core_enabled_cong [of _ p]) simp_all
  ultimately have "line_asserted ?q (int core) (int i)"
    using assms by (auto simp: line_asserted_iff)
  then show ?thesis
    using assms u
    by (simp add: set_source_core_def Let_def intr_matrix_refresh_cpu_line_def)
qed

lemma set_source_core_other:
  "k \<noteq> core \<Longrightarrow> p_cpu (set_source_core p core s on) k = p_cpu p k"
  by (simp add: set_source_core_def Let_def intr_matrix_refresh_cpu_line_def split: option.split)

lemma fold_set_source_other:
  "k \<notin> set cores \<Longrightarrow> p_cpu (fold (\<lambda>core p. set_source_core p core s on) cores p) k = p_cpu p k"
  by (induction cores arbitrary: p) (simp_all add: set_source_core_other)

lemma fold_set_source_frame [simp]:
  "p_target (fold (\<lambda>core p. set_source_core p core s on) cores p) = p_target p"
  "p_clock_gate (fold (\<lambda>core p. set_source_core p core s on) cores p) = p_clock_gate p"
  "p_intr_matrix (fold (\<lambda>core p. set_source_core p core s on) cores p) = p_intr_matrix p"
  "p_irq_dispatch (fold (\<lambda>core p. set_source_core p core s on) cores p) = p_irq_dispatch p"
  "p_source_level (fold (\<lambda>core p. set_source_core p core s on) cores p) = p_source_level p"
  "p_pending_sources (fold (\<lambda>core p. set_source_core p core s on) cores p) = p_pending_sources p"
  by (induction cores arbitrary: p) simp_all

lemma fold_set_source_cpu:
  assumes "core < intr_matrix_core_count p" "p_cpu p core = Some c"
    "p_intr_matrix p core s = of_nat i" "i < 32" "intr_matrix_cpu_line_is_routeable (int i)"
    "intr_matrix_core_enabled p (int core)" "s < intr_matrix_source_count p"
    "distinct cores" "core \<in> set cores"
  shows "p_cpu (fold (\<lambda>core p. set_source_core p core s True) cores p) core =
           Some (xtensa_request_irq_check (c\<lparr>interrupt := interrupt c OR push_bit i 1\<rparr>))"
  using assms
proof (induction cores arbitrary: p)
  case (Cons k cores)
  show ?case
  proof (cases "k = core")
    case True
    then show ?thesis using Cons.prems
      by (simp add: fold_set_source_other set_source_core_cpu)
  next
    case False
    have en: "intr_matrix_core_enabled (set_source_core p k s True) (int core)"
      using Cons.prems(6) by (subst core_enabled_cong [of _ p]) simp_all
    show ?thesis
      using Cons.prems False en by (simp add: Cons.IH set_source_core_other)
  qed
qed simp

lemma request_irq_check_sel [simp]:
  "irq_check (xtensa_request_irq_check c)"
  "intenable (xtensa_request_irq_check c) = intenable c"
  "ps (xtensa_request_irq_check c) = ps c"
  "int_level (xtensa_request_irq_check c) = int_level c"
  by (simp_all add: xtensa_request_irq_check_def xtensa_native_chain_barrier_def Let_def)

lemma assert_reaches_cpu:
  assumes "0 \<le> source" "nat source < intr_matrix_source_count p"
    and "p_irq_dispatch p (nat source) = None"
    and "core < intr_matrix_core_count p" "p_cpu p core = Some c"
    and "intr_matrix_core_enabled p (int core)"
    and "p_intr_matrix p core (nat source) = of_nat i" "i < 32"
        "intr_matrix_cpu_line_is_routeable (int i)"
  shows "p_cpu (periph_assert_interrupt D p source) core =
           Some (xtensa_request_irq_check (c\<lparr>interrupt := interrupt c OR push_bit i 1\<rparr>))"
proof -
  define q where "q = (set_pending p source True)\<lparr>p_source_level :=
    (p_source_level (set_pending p source True))(nat source := True)\<rparr>"
  have fr: "p_target q = p_target p" "p_clock_gate q = p_clock_gate p" "p_cpu q = p_cpu p"
    "p_intr_matrix q = p_intr_matrix p" "p_irq_dispatch q = p_irq_dispatch p"
    by (simp_all add: q_def set_pending_def Let_def)
  have cnt: "intr_matrix_source_count q = intr_matrix_source_count p"
    "intr_matrix_core_count q = intr_matrix_core_count p"
    using fr(1) by (rule counts_cong)+
  have cnt': "intr_matrix_source_count (set_pending p source True) = intr_matrix_source_count p"
    by (rule counts_cong) (simp add: set_pending_def Let_def)
  let ?r = "fold (\<lambda>core p. set_source_core p core (nat source) True) [0 ..< intr_matrix_core_count q] q"
  have "irq_call D ?r source = ?r" using assms(3) fr by (simp add: irq_call_def)
  then have eq: "periph_assert_interrupt D p source = ?r"
    using assms(1,2) cnt'
    by (simp add: periph_assert_interrupt_def intr_matrix_update_source_def Let_def q_def)
  show ?thesis
    unfolding eq
    using assms fr cnt core_enabled_cong [OF fr(1,2)] by (intro fold_set_source_cpu) simp_all
qed

text \<open>C18. End to end: when a device asserts a source that is routed to a line of a core whose gate
  is open, and that line is enabled there and above the core's current level, the core is asked
  to check and has a deliverable interrupt.\<close>

theorem asserted_source_deliverable:
  assumes "0 \<le> source" "nat source < intr_matrix_source_count p"
    and "p_irq_dispatch p (nat source) = None"
    and "core < intr_matrix_core_count p" "p_cpu p core = Some c"
    and "intr_matrix_core_enabled p (int core)"
    and "p_intr_matrix p core (nat source) = of_nat i" "i < 32"
        "intr_matrix_cpu_line_is_routeable (int i)"
    and "bit (intenable c) i" "effective_level (ps c) < int_level c i"
  shows "\<exists>c'. p_cpu (periph_assert_interrupt D p source) core = Some c' \<and>
              irq_check c' \<and> bit (interrupt c') i \<and> xtensa_irq_is_deliverable c'"
proof -
  let ?c = "xtensa_request_irq_check (c\<lparr>interrupt := interrupt c OR push_bit i 1\<rparr>)"
  have b: "bit (interrupt ?c) i" using assms(8) by (simp add: bit_simps)
  have "int_level ?c i \<in> deliverable_levels ?c"
    unfolding deliverable_levels_def
    using assms(8,10,11) b by (intro imageI) simp
  then have "xtensa_irq_is_deliverable ?c" by (auto simp: irq_is_deliverable_iff)
  then show ?thesis using assert_reaches_cpu [OF assms(1-9)] b by auto
qed

section \<open>Registers\<close>

lemma decode_register_less:
  "intr_matrix_decode_register off first n = Some i \<Longrightarrow> i < unat n"
  by (auto simp: intr_matrix_decode_register_def Let_def word_le_nat_alt not_le split: if_splits)

lemma matrix_reg_of_source:
  "matrix_reg_of d off cores = Some (Map_Reg k i) \<Longrightarrow> i < unat (im_source_count d)"
  by (induction d off cores rule: matrix_reg_of.induct)
     (auto split: option.splits if_splits dest!: decode_register_less simp: unsigned_ucast_eq take_bit_word_eq_self
       intro: less_le_trans [OF _ take_bit_nat_less_eq_self])

lemma masked_small:
  fixes m v :: u32
  assumes "m AND NOT 0x1F = 0"
  shows "sint (v AND m) = uint (v AND m)" "uint (v AND m) < 32"
    "(ucast (word_of_int (uint (v AND m)) :: u8) :: u32) = v AND m"
proof -
  have "(0x1F :: u32) = mask 5" by (simp add: mask_eq_exp_minus_1)
  then have z: "m AND NOT (mask 5) = 0" using assms by simp
  have m: "n < 5" if b: "bit m n" for n
  proof (rule ccontr)
    assume "\<not> n < 5"
    then have "bit (m AND NOT (mask 5)) n"
      using b bit_imp_le_length [OF b] by (simp add: bit_simps)
    then show False using z by simp
  qed
  then have v: "bit (v AND m) n \<Longrightarrow> n < 5" for n by (simp add: bit_simps)
  have "take_bit 5 (v AND m) = v AND m"
    by (rule bit_word_eqI) (use v in \<open>auto simp: bit_simps\<close>)
  then have "uint (v AND m) = take_bit 5 (uint (v AND m))"
    by (metis unsigned_take_bit_eq)
  then show less: "uint (v AND m) < 32"
    using take_bit_int_less_exp [of 5 "uint (v AND m)"] by simp
  show "sint (v AND m) = uint (v AND m)"
  proof -
    have "0 \<le> uint (v AND m)" by simp
    then have "signed_take_bit 31 (uint (v AND m)) = uint (v AND m)"
      using less by (intro signed_take_bit_int_eq_self) (auto intro: order.trans [of _ 0])
    then show ?thesis by (simp add: sint_uint)
  qed
  show "(ucast (word_of_int (uint (v AND m)) :: u8) :: u32) = v AND m"
    by (rule bit_word_eqI) (use v in \<open>force simp: bit_simps\<close>)
qed

lemma map_source_frame [simp]:
  "p_target (intr_matrix_map_source p core s i) = p_target p"
  "p_source_level_core (intr_matrix_map_source p core s i) = p_source_level_core p"
  by (simp_all add: intr_matrix_map_source_def Let_def)

text \<open>Routing registers: on a target with a valid matrix, what is written to the map register
  of a source reads back through its writable mask, every other map register keeps its value,
  and the write changes no source level.\<close>

theorem map_register_roundtrip:
  assumes "intr_matrix_geometry_valid (p_target p)"
    and reg: "matrix_reg_of (pt_interrupt_matrix (p_target p))
           (addr - im_base (pt_interrupt_matrix (p_target p))) [0 ..< intr_matrix_core_count p]
         = Some (Map_Reg core s)"
    and q: "q = target_intr_matrix_write D p addr v"
  shows "fst (target_intr_matrix_read D q addr) =
           v AND im_map_writable_mask (pt_interrupt_matrix (p_target p)) \<and>
         (\<forall>k t. k \<noteq> core \<or> t \<noteq> s \<longrightarrow> p_intr_matrix q k t = p_intr_matrix p k t) \<and>
         p_source_level_core q = p_source_level_core p"
proof -
  let ?m = "im_map_writable_mask (pt_interrupt_matrix (p_target p))"
  have cap: "cap_intr_matrix (p_target p)" and m: "?m AND NOT 0x1F = 0"
    using assms(1) by (auto simp: intr_matrix_geometry_valid_def Let_def split: if_splits)
  have r: "core < intr_matrix_core_count p" "s < intr_matrix_source_count p"
    using matrix_reg_of_core [OF reg] matrix_reg_of_source [OF reg] cap
    by (simp_all add: intr_matrix_source_count_def)
  have w: "q = intr_matrix_map_source p (int core) (int s) (uint (v AND ?m))"
    using reg masked_small [OF m] by (simp add: q target_intr_matrix_write_def Let_def)
  have mat: "p_intr_matrix q = (p_intr_matrix p)(core := (p_intr_matrix p core)
      (s := word_of_int (uint (v AND ?m))))"
    using r masked_small(2) [OF m, of v] by (simp add: w intr_matrix_map_source_def Let_def)
  have t: "p_target q = p_target p" by (simp add: w)
  show ?thesis
    using reg masked_small(3) [OF m, of v] counts_cong(2) [OF t]
    by (simp add: target_intr_matrix_read_def Let_def t mat) (simp add: w)
qed

section \<open>A concrete fabric\<close>

text \<open>The ESP32-S3 just created, and guest handlers that disconnect the source they serve on
  core 0.\<close>

definition sample_fabric :: "unit periph" where
  "sample_fabric = the (periph_create_fabric esp32s3_periph_target)"

definition sample_env :: "unit periph_env" where
  "sample_env = \<lparr>pe_dispatch = (\<lambda>f ctx s p. intr_matrix_map_source p 0 (int s) 6),
                 pe_realloc = (\<lambda>_. True)\<rparr>"

lemma sample_handlers: "handlers_ok sample_env"
  by (simp add: handlers_ok_def sample_env_def map_source_ok)

lemma s3_geometry:
  "intr_matrix_geometry_valid esp32s3_periph_target"
  "secondary_core_geometry_valid esp32s3_periph_target"
  by code_simp+

lemma sample_fabric_sel [simp]:
  "p_target sample_fabric = esp32s3_periph_target"
  "p_irq_dispatch sample_fabric = (\<lambda>_. None)"
  "p_clock_gate sample_fabric = (\<lambda>k. if k < 2 then 1 else 0)"
  "p_intr_matrix sample_fabric = (\<lambda>_ _. 16)"
  "p_source_level_core sample_fabric = (\<lambda>_ _. False)"
  "p_source_level sample_fabric = (\<lambda>_. False)"
  by (simp_all add: sample_fabric_def periph_create_fabric_def create_secondary_core_def
        create_intr_matrix_def s3_geometry fabric_zero_def secondary_core_update_release_def
        Let_def cap_secondary_core_def cap_intr_matrix_def cong: if_cong)
     (simp_all add: esp32s3_periph_target_def esp32s3_intr_matrix_def cong: if_cong)

lemma s3_counts:
  assumes "p_target p = esp32s3_periph_target"
  shows "intr_matrix_source_count p = 99" "intr_matrix_core_count p = 2"
  using assms
  by (simp_all add: intr_matrix_source_count_def intr_matrix_core_count_def cap_intr_matrix_def
        esp32s3_periph_target_def esp32s3_intr_matrix_def FLEXE_TARGET_INTERRUPT_CORE_MAX_def)

lemma s3_enabled:
  assumes "p_target p = esp32s3_periph_target" "p_clock_gate p = p_clock_gate sample_fabric"
  shows "intr_matrix_core_enabled p 0"
  using assms(2)
  by (simp add: intr_matrix_core_enabled_def s3_counts [OF assms(1)] assms(1))
     (simp add: esp32s3_periph_target_def esp32s3_intr_matrix_def)

text \<open>Both processors attached, source 79 routed to line 2 of core 0 and then asserted.\<close>

definition sample_ready :: "unit cpu" where
  "sample_ready = sample_irq\<lparr>interrupt := 0\<rparr>"

definition sample_attached :: "unit periph" where
  "sample_attached = periph_attach_cpus sample_fabric (Some sample_ready) (Some sample_ready)"

definition sample_routed :: "unit periph" where
  "sample_routed = periph_intr_matrix_set sample_attached 0 2 79"

lemma attach_quiet:
  "(\<And>k s. \<not> p_source_level_core p k s) \<Longrightarrow>
     periph_attach_cpus p c0 c1 = p\<lparr>p_cpu := (p_cpu p)(0 := c0, 1 := c1)\<rparr>"
proof -
  assume quiet: "\<And>k s. \<not> p_source_level_core p k s"
  have "fold attach_refresh xs q = q" if "p_source_level_core q = p_source_level_core p" for xs and q :: "'a periph"
    using that by (induction xs) (auto simp: attach_refresh_def quiet)
  then show ?thesis by (simp add: periph_attach_cpus_def Let_def)
qed

lemma sample_attached_eq:
  "sample_attached = sample_fabric\<lparr>p_cpu := (p_cpu sample_fabric)(0 := Some sample_ready, 1 := Some sample_ready)\<rparr>"
  unfolding sample_attached_def by (rule attach_quiet) simp

lemma refresh_attached [simp]:
  "(p_cpu (intr_matrix_refresh_cpu_line p core i) k = None) = (p_cpu p k = None)"
  by (simp add: intr_matrix_refresh_cpu_line_def Let_def split: option.split)

lemma sample_routed_sel [simp]:
  "p_target sample_routed = esp32s3_periph_target"
  "p_clock_gate sample_routed = p_clock_gate sample_fabric"
  "p_irq_dispatch sample_routed = (\<lambda>_. None)"
  "p_intr_matrix sample_routed 0 79 = 2"
  by (simp_all add: sample_routed_def periph_intr_matrix_set_def intr_matrix_map_source_def
        sample_attached_eq Let_def s3_counts)

lemma line_two: "intr_matrix_cpu_line_is_routeable 2"
  by (simp add: intr_matrix_cpu_line_is_routeable_def internal_lines_def)

text \<open>The processor after the routing: line 2 is still low.\<close>

lemma sample_routed_cpu: "p_cpu sample_routed 0 = Some sample_ready"
proof -
  have i: "sample_ready\<lparr>interrupt := 0\<rparr> = sample_ready" "interrupt sample_ready = 0"
    by (simp_all add: sample_ready_def)
  have "\<not> line_asserted q 0 2" if "p_source_level_core q = (\<lambda>_ _. False)" for q :: "unit periph"
    using that by (simp add: line_asserted_def list_ex_iff)
  then show ?thesis
    using i
    by (simp add: sample_routed_def periph_intr_matrix_set_def intr_matrix_map_source_def
        sample_attached_eq Let_def s3_counts intr_matrix_refresh_cpu_line_def
        intr_matrix_cpu_line_is_routeable_def internal_lines_def)
qed

lemma sample_ready_enabled:
  "bit (intenable sample_ready) 2" "effective_level (ps sample_ready) < int_level sample_ready 2"
  by (simp_all add: sample_ready_def sample_irq_def sample_defs window_hazard_refresh_def
        esp32_target_def effective_level_def XT_PS_EXCM_def XT_PS_INTLEVEL_def)

theorem asserted_source_deliverable_witness:
  "\<exists>c. p_cpu (periph_assert_interrupt sample_env sample_routed 79) 0 = Some c \<and>
       irq_check c \<and> bit (interrupt c) 2 \<and> xtensa_irq_is_deliverable c"
  using asserted_source_deliverable [of 79 sample_routed 0 sample_ready 2 sample_env]
  by (simp add: s3_counts s3_enabled sample_routed_cpu line_two sample_ready_enabled)

lemma sample_ready_lines: "lines_clear (Some sample_ready)"
  by (simp add: lines_clear_def sample_ready_def)

theorem matrix_lines_follow_sources_witness:
  "let q = fold (fabric_step sample_env) [Route 0 2 79, Assert 79]
             (periph_attach_cpus sample_fabric (Some sample_ready) (Some sample_ready))
   in intr_matrix_core_enabled q 0 \<and>
      (\<exists>s < intr_matrix_source_count q. p_intr_matrix q 0 s = 2 \<and> p_source_level_core q 0 s)"
proof -
  let ?q = "periph_assert_interrupt sample_env sample_routed 79"
  have q: "?q = fold (fabric_step sample_env) [Route 0 2 79, Assert 79]
             (periph_attach_cpus sample_fabric (Some sample_ready) (Some sample_ready))"
    by (simp add: sample_routed_def sample_attached_def)
  obtain c where c: "p_cpu ?q 0 = Some c" "bit (interrupt c) 2"
    using assert_reaches_cpu [of 79 sample_routed 0 sample_ready 2 sample_env]
    by (simp add: s3_counts s3_enabled sample_routed_cpu line_two bit_simps)
  have "p_target ?q = esp32s3_periph_target"
    by (simp add: periph_assert_interrupt_def intr_matrix_update_source_def set_pending_def Let_def
        irq_call_def)
  then have "0 < intr_matrix_core_count ?q" by (simp add: s3_counts)
  from matrix_lines_follow_sources [OF sample_ready_lines sample_ready_lines sample_handlers q this
      _ _ c(1), of 2] c(2)
  show ?thesis unfolding q [symmetric] Let_def by (simp add: line_two)
qed

theorem map_register_roundtrip_witness:
  "fst (target_intr_matrix_read sample_env
          (target_intr_matrix_write sample_env sample_fabric 0x600C213C 0xFFFFFFE2) 0x600C213C) = 2"
proof -
  have r: "matrix_reg_of esp32s3_intr_matrix 0x13C [0 ..< 2] = Some (Map_Reg 0 79)"
    by code_simp
  have t: "pt_interrupt_matrix esp32s3_periph_target = esp32s3_intr_matrix"
    "im_base esp32s3_intr_matrix = 0x600C2000" "im_map_writable_mask esp32s3_intr_matrix = 0x1F"
    by (simp_all add: esp32s3_periph_target_def esp32s3_intr_matrix_def)
  show ?thesis
    using map_register_roundtrip [of sample_fabric "0x600C213C" 0 79 _ sample_env "0xFFFFFFE2"]
    by (simp add: s3_geometry t r s3_counts)
qed

end
