(* ===== verification/Mpi_Facts.thy ===== *)
theory Mpi_Facts
  imports Mpi Intr_Matrix_Facts
begin

text \<open>
  Correctness of the MPI accelerator: the multiplication stub leaves the exact product of its
  operands, the failover stub the product modulo the operand width, the Montgomery routine the
  Montgomery product; and the register-level device, given a big-number library that computes
  what its documentation says, leaves \<open>X ^ Y mod M\<close> in Z and raises its interrupt.
\<close>

section \<open>Driver stubs\<close>

definition port_ok :: "'d mpi_port \<Rightarrow> bool" where
  "port_ok P \<longleftrightarrow> (\<forall>s d. mp_get P (mp_put P s d) = s)"

lemma ms_of_return [simp]: "ms_of P (mpi_return_void c) = ms_of P c"
  by (simp add: ms_of_def mpi_return_void_def mpi_return_def ar_write_def Let_def)

lemma ms_of_set: "port_ok P \<Longrightarrow> ms_of P (ms_set P ms c) = ms"
  by (simp add: port_ok_def ms_of_def ms_set_def)

lemma length_read_words: "length (fst (read_words E c p n)) = n"
  by (induction n) (auto simp: read_words_def split: prod.split)

lemma length_read_mpi_limbs: "length (fst (read_mpi_limbs E c a n)) = n"
proof -
  have "length ws = k" if "read_words E d p k = (ws, d')" for d d' p k ws
    using length_read_words [of E d p k] that by simp
  then show ?thesis
    by (auto simp: read_mpi_limbs_def Let_def length_read_words split: prod.split)
qed

lemma clamp_words_le: "clamp_words w \<le> MPI_MAX_WORDS"
  by (simp add: clamp_words_def)

text \<open>Multiplication stub: the operands are read at the width of the call, at most 4096 bits
  each, and the per-core result buffer then holds their exact product at twice the width; the
  buffer of the other core is left alone.\<close>

theorem mpi_mul_stub_product:
  assumes "port_ok P"
    and x: "read_mpi_limbs E c (mpi_arg c 0) (clamp_words (mpi_arg c 2)) = (x, c1)"
    and y: "read_mpi_limbs E c1 (mpi_arg c 1) (clamp_words (mpi_arg c 2)) = (y, c2)"
    and buf: "length (ms_result (ms_of P c2) (core_id c)) = MPI_MAX_WORDS * 2"
    and ms: "ms = ms_of P (stub_esp_mpi_mul_mpi_hw_op P E c)"
  shows "ms_result_words ms (core_id c) = 2 * clamp_words (mpi_arg c 2) \<and>
         limbs (take (ms_result_words ms (core_id c)) (ms_result ms (core_id c))) = limbs x * limbs y \<and>
         (\<forall>k. k \<noteq> core_id c \<longrightarrow> ms_result ms k = ms_result (ms_of P c2) k)"
proof -
  let ?n = "clamp_words (mpi_arg c 2)" and ?k = "core_id c" and ?r = "ms_result (ms_of P c2) (core_id c)"
  have n: "?n \<le> MPI_MAX_WORDS" by (rule clamp_words_le)
  have len: "length x = ?n" "length y = ?n"
    using length_read_mpi_limbs [of E c "mpi_arg c 0" ?n] length_read_mpi_limbs [of E c1 "mpi_arg c 1" ?n] x y
    by simp_all
  have "limbs (take (?n * 2) (bignum_mul x ?n y ?n ?r (?n * 2))) = limbs x * limbs y mod LIMB ^ (?n * 2)"
    using bignum_mul_value(1) [of ?n x ?n y "?n * 2" ?r] len n buf by simp
  moreover have "limbs x * limbs y < LIMB ^ (?n * 2)"
    using mult_strict_mono' [OF limbs_less [of x] limbs_less [of y]] len
    by (simp add: mult_2_right power_add)
  ultimately have v: "limbs (take (?n * 2) (bignum_mul x ?n y ?n ?r (?n * 2))) = limbs x * limbs y"
    by simp
  have "ms = (ms_of P c2)\<lparr>ms_result_words := (ms_result_words (ms_of P c2))(?k := ?n * 2),
       ms_result := (ms_result (ms_of P c2))(?k := bignum_mul x ?n y ?n ?r (?n * 2))\<rparr>"
    using n by (simp add: ms stub_esp_mpi_mul_mpi_hw_op_def Let_def x y [unfolded One_nat_def] ms_of_set [OF assms(1)])
  then show ?thesis using v by (simp add: mult.commute)
qed

text \<open>Failover multiplication: the buffer holds the low half of the product, the product
  modulo two to the power of the operand width.\<close>

theorem mpi_failover_stub_product:
  assumes "port_ok P"
    and x: "read_mpi_limbs E c (mpi_arg c 0) (clamp_words (mpi_arg c 2)) = (x, c1)"
    and y: "read_mpi_limbs E c1 (mpi_arg c 1) (clamp_words (mpi_arg c 2)) = (y, c2)"
    and buf: "length (ms_result (ms_of P c2) (core_id c)) = MPI_MAX_WORDS * 2"
    and ms: "ms = ms_of P (stub_esp_mpi_mult_mpi_failover_mod_mult_hw_op P E c)"
  shows "ms_result_words ms (core_id c) = clamp_words (mpi_arg c 2) \<and>
         limbs (take (ms_result_words ms (core_id c)) (ms_result ms (core_id c))) =
           limbs x * limbs y mod 2 ^ (32 * clamp_words (mpi_arg c 2)) \<and>
         length (ms_result ms (core_id c)) = MPI_MAX_WORDS * 2"
proof -
  let ?n = "clamp_words (mpi_arg c 2)" and ?k = "core_id c" and ?r = "ms_result (ms_of P c2) (core_id c)"
  have n: "?n \<le> MPI_MAX_WORDS" by (rule clamp_words_le)
  have len: "length x = ?n" "length y = ?n"
    using length_read_mpi_limbs [of E c "mpi_arg c 0" ?n] length_read_mpi_limbs [of E c1 "mpi_arg c 1" ?n] x y
    by simp_all
  have "limbs (take ?n (bignum_mul x ?n y ?n ?r ?n)) = limbs x * limbs y mod LIMB ^ ?n"
    "length (bignum_mul x ?n y ?n ?r ?n) = MPI_MAX_WORDS * 2"
    using bignum_mul_value [of ?n x ?n y ?n ?r] len n buf by simp_all
  moreover have "ms = (ms_of P c2)\<lparr>ms_result_words := (ms_result_words (ms_of P c2))(?k := ?n),
       ms_result := (ms_result (ms_of P c2))(?k := bignum_mul x ?n y ?n ?r ?n)\<rparr>"
    by (simp add: ms stub_esp_mpi_mult_mpi_failover_mod_mult_hw_op_def Let_def x y [unfolded One_nat_def] ms_of_set [OF assms(1)])
  moreover have "LIMB ^ ?n = 2 ^ (32 * ?n)" by (simp add: LIMB_def power_mult)
  ultimately show ?thesis by simp
qed

text \<open>C9. Montgomery multiplication: for an odd modulus with \<open>m' = -1/m mod 2^32\<close> and
  \<open>R = 2^(32 n)\<close>, the result \<open>z\<close> satisfies \<open>z R = x y (mod m)\<close>, for operands of any size that
  fit \<open>n\<close> limbs, and it is fully reduced when \<open>x\<close> is.\<close>

theorem montgomery_mul_correct:
  assumes "n \<le> length x" "n \<le> length y" "n \<le> length m" "n \<le> length result" "1 \<le> n"
    and "m_prime * m ! 0 = - 1"
    and z: "z = limbs (take n (montgomery_mul True x y m m_prime n result))"
  shows "(2 ^ (32 * n) * z) mod limbs (take n m) =
           (limbs (take n x) * limbs (take n y)) mod limbs (take n m) \<and>
         (limbs (take n x) < limbs (take n m) \<longrightarrow> z < limbs (take n m))"
proof -
  have "LIMB ^ n = 2 ^ (32 * n)" by (simp add: LIMB_def power_mult)
  then show ?thesis
    using montgomery_value [OF assms(1,2,3,5,6,4)] by (simp add: z)
qed

section \<open>The register-level device\<close>

text \<open>The value of a little-endian byte string.\<close>

primrec bytes_val :: "u8 list \<Rightarrow> nat" where
  "bytes_val [] = 0"
| "bytes_val (b # bs) = unat b + 256 * bytes_val bs"

text \<open>What the documentation of the big-number library promises: it has memory, conversions are
  little-endian and padded, arithmetic is exact, and the modular operations compute modulo the
  value of their modulus.\<close>

definition bn_lib_ok :: "'bn bn_lib \<Rightarrow> ('bn \<Rightarrow> nat) \<Rightarrow> bool" where
  "bn_lib_ok L val \<longleftrightarrow>
     bn_ctx_ok L \<and> bn_get_ok L \<and>
     (\<forall>bs. \<exists>b. bn_lebin2bn L bs = Some b \<and> val b = bytes_val bs) \<and>
     (\<forall>b n. val b < 256 ^ n \<longrightarrow>
        (\<exists>bs. bn_bn2lebinpad L b n = Some bs \<and> length bs = n \<and> bytes_val bs = val b)) \<and>
     (\<forall>b. bn_is_zero L b = (val b = 0)) \<and>
     (\<forall>x y m. val m \<noteq> 0 \<longrightarrow> (\<exists>z. bn_mod_exp L x y m = Some z \<and> val z = val x ^ val y mod val m))"

definition word_bytes :: "u32 \<Rightarrow> u8 list" where
  "word_bytes w = [ucast w, ucast (drop_bit 8 w), ucast (drop_bit 16 w), ucast (drop_bit 24 w)]"

lemma unat_byte: "unat (ucast (drop_bit k w) :: u8) = unat (w :: u32) div 2 ^ k mod 256"
proof -
  have "unat (ucast v :: u8) = unat (v :: u32) mod 256" for v
    by (simp add: unsigned_ucast_eq take_bit_eq_mod unat_mod_distrib flip: unsigned_take_bit_eq)
  moreover have "unat (drop_bit k w) = unat w div 2 ^ k"
    by (simp only: unat_drop_bit_eq) (simp add: drop_bit_eq_div)
  ultimately show ?thesis by simp
qed

lemma bytes_val_word: "bytes_val (word_bytes w) = unat w"
proof -
  define a where "a = unat w"
  have "a < 2 ^ 32" unfolding a_def using unsigned_less [of w, where ?'a = nat] by simp
  then have "a div 2 ^ 24 mod 256 = a div 2 ^ 24" by (simp add: div_less_iff_less_mult)
  moreover have "a div 2 ^ 16 = a div 2 ^ 16 mod 256 + 256 * (a div 2 ^ 24)"
    "a div 2 ^ 8 = a div 2 ^ 8 mod 256 + 256 * (a div 2 ^ 16)"
    using mod_mult_div_eq [of "a div 2 ^ 16" 256] mod_mult_div_eq [of "a div 2 ^ 8" 256]
    by (simp_all add: div_mult2_eq [symmetric])
  moreover have "a = a mod 256 + 256 * (a div 2 ^ 8)"
    by simp
  moreover have "unat (ucast w :: u8) = a mod 256"
    using unat_byte [of 0 w] by (simp add: a_def)
  ultimately show ?thesis
    by (simp add: word_bytes_def unat_byte flip: a_def)
qed

lemma bytes_val_append: "bytes_val (xs @ ys) = bytes_val xs + 256 ^ length xs * bytes_val ys"
  by (induction xs) (simp_all add: algebra_simps)

lemma bytes_val_words: "bytes_val (concat (map word_bytes ws)) = limbs ws"
proof (induction ws)
  case (Cons w ws)
  have "length (word_bytes w) = 4" by (simp add: word_bytes_def)
  then show ?case using Cons by (simp add: bytes_val_append bytes_val_word LIMB_def)
qed simp

lemma words_to_bn_value:
  assumes "bn_lib_ok L val" "n \<le> MPI_MAX_WORDS"
  shows "\<exists>b. words_to_bn L ws n = Some b \<and> val b = limbs (take n ws)"
proof -
  have "concat (map (\<lambda>w. [ucast w, ucast (drop_bit 8 w), ucast (drop_bit 16 w), ucast (drop_bit 24 w)]) (take n ws))
      = concat (map word_bytes (take n ws))" by (simp add: word_bytes_def [abs_def])
  moreover obtain b where "bn_lebin2bn L (concat (map word_bytes (take n ws))) = Some b"
    "val b = bytes_val (concat (map word_bytes (take n ws)))"
    using assms(1) unfolding bn_lib_ok_def by blast
  ultimately show ?thesis using assms(2) by (simp add: words_to_bn_def bytes_val_words)
qed

lemma byte_high: "8 \<le> k \<Longrightarrow> \<not> bit (b :: u8) k"
  by (auto dest: bit_imp_le_length)

lemma word_of_bytes:
  "unat (bytes_word bs i) = bytes_val [bs ! (i * 4), bs ! (i * 4 + 1), bs ! (i * 4 + 2), bs ! (i * 4 + 3)]"
proof -
  have "word_bytes (bytes_word bs i) = [bs ! (i * 4), bs ! (i * 4 + 1), bs ! (i * 4 + 2), bs ! (i * 4 + 3)]"
    unfolding word_bytes_def bytes_word_def
    by (auto intro!: bit_word_eqI simp: bit_simps byte_high)
  then show ?thesis using bytes_val_word [of "bytes_word bs i"] by simp
qed

lemma limbs_bytes_words:
  "length bs = n * 4 \<Longrightarrow> limbs (map (bytes_word bs) [0 ..< n]) = bytes_val bs"
proof (induction n arbitrary: bs)
  case (Suc n)
  define b where "b = take (n * 4) bs"
  have b: "length b = n * 4" using Suc.prems by (simp add: b_def)
  have eq: "bytes_word bs i = bytes_word b i" if "i < n" for i
    using that by (simp add: bytes_word_def b_def)
  have rest: "drop (n * 4) bs = [bs ! (n * 4), bs ! (n * 4 + 1), bs ! (n * 4 + 2), bs ! (n * 4 + 3)]"
    using Suc.prems by (simp add: list_eq_iff_nth_eq nth_Cons numeral_eq_Suc split: nat.split)
  have "limbs (map (bytes_word bs) [0 ..< Suc n]) = limbs (map (bytes_word b) [0 ..< n]) + LIMB ^ n * unat (bytes_word bs n)"
  proof -
    have m: "map (bytes_word bs) [0 ..< n] = map (bytes_word b) [0 ..< n]" using eq by simp
    show ?thesis by (simp add: limbs_append m)
  qed
  also have "\<dots> = bytes_val b + 256 ^ (n * 4) * bytes_val (drop (n * 4) bs)"
    using Suc.IH [OF b] by (simp only: rest word_of_bytes) (simp add: LIMB_def mult.commute [of n 4] power_mult)
  also have "\<dots> = bytes_val bs"
    using bytes_val_append [of b "drop (n * 4) bs"] b by (simp add: b_def)
  finally show ?case .
qed simp

lemma bn_to_words_value:
  assumes "bn_lib_ok L val" "n \<le> MPI_MAX_WORDS" "val b < LIMB ^ n"
  shows "\<exists>ws. bn_to_words L b n = Some ws \<and> length ws = n \<and> limbs ws = val b"
proof -
  have "val b < 256 ^ (n * 4)" using assms(3) by (simp add: LIMB_def mult.commute [of n 4] power_mult)
  then obtain bs where "bn_bn2lebinpad L b (n * 4) = Some bs" "length bs = n * 4" "bytes_val bs = val b"
    using assms(1) unfolding bn_lib_ok_def by blast
  then show ?thesis using assms(2) by (simp add: bn_to_words_def limbs_bytes_words)
qed

text \<open>The register file: 512 words of operand memory and mode fields of three and four bits.\<close>

definition rsa_wf :: "mpi_stubs \<Rightarrow> bool" where
  "rsa_wf ms \<longleftrightarrow> length (hw_memory ms) = RSA_MEMORY_WORDS \<and> hw_modexp_mode ms \<le> 7 \<and>
                 hw_mult_mode ms \<le> 15"

lemma bn_to_words_length: "bn_to_words L b n = Some ws \<Longrightarrow> length ws \<le> MPI_MAX_WORDS"
  by (auto simp: bn_to_words_def split: if_splits)

lemma put_z_memory:
  assumes "length (hw_memory ms) = RSA_MEMORY_WORDS" "length ws \<le> MPI_MAX_WORDS"
  shows "length (hw_memory (put_z ms ws)) = RSA_MEMORY_WORDS"
    "take (length ws) (mem_block (put_z ms ws) RSA_Z_WORD) = ws"
    "i < RSA_Z_WORD \<or> RSA_Z_WORD + length ws \<le> i \<Longrightarrow>
       hw_memory (put_z ms ws) ! i = hw_memory ms ! i"
  using assms
  by (auto simp: put_z_def mem_block_def RSA_MEMORY_WORDS_def MPI_MAX_WORDS_def RSA_Z_WORD_def
        nth_append)

lemma put_z_wf: "rsa_wf ms \<Longrightarrow> length ws \<le> MPI_MAX_WORDS \<Longrightarrow> rsa_wf (put_z ms ws)"
  using put_z_memory(1) [of ms ws] by (simp add: rsa_wf_def put_z_def)

lemma store_or_zero_wf:
  "rsa_wf ms \<Longrightarrow> (\<And>ws. r = Some ws \<Longrightarrow> length ws \<le> MPI_MAX_WORDS) \<Longrightarrow> rsa_wf (store_or_zero ms r)"
  by (auto simp: store_or_zero_def rsa_zero_z_def put_z_wf split: option.split)

lemma bind_words_length:
  assumes "Option.bind a f = Some ws" "\<And>x ws. f x = Some ws \<Longrightarrow> length ws \<le> MPI_MAX_WORDS"
  shows "length (ws :: u32 list) \<le> MPI_MAX_WORDS"
  using assms by (cases a) auto

lemma rsa_results_wf:
  assumes "rsa_wf ms"
  shows "rsa_wf (store_or_zero ms (rsa_modexp_result L ms))" "rsa_wf (rsa_montgomery_mul L ms n)"
    "rsa_wf (rsa_plain_mul L ms k n)"
  using assms
  by (auto simp: rsa_modexp_result_def rsa_montgomery_mul_def rsa_plain_mul_def Let_def
        intro!: store_or_zero_wf elim!: bind_words_length intro: bn_to_words_length split: if_splits)

lemma rsa_wf_interrupt [simp]: "rsa_wf (ms\<lparr>hw_interrupt := b\<rparr>) = rsa_wf ms"
  by (simp add: rsa_wf_def)

lemma rsa_write_wf:
  assumes "rsa_wf (fst s)"
  shows "rsa_wf (fst (rsa_mmio_write L D s addr v))"
proof -
  have "v AND 7 \<le> 7" "v AND 15 \<le> 15" by (rule word_and_le1)+
  then show ?thesis
    using assms rsa_results_wf [of "(fst s)\<lparr>hw_interrupt := False\<rparr>"]
    by (auto simp: rsa_mmio_write_def rsa_modexp_def rsa_mult_def rsa_complete_def Let_def)
       (simp_all add: rsa_wf_def)
qed

text \<open>The device stays well formed: from creation on, whatever the guest writes to its
  registers and whatever the big-number library answers, the operand memory keeps its 512 words
  and the mode fields stay within their three and four bits.\<close>

theorem rsa_registers_typed:
  "rsa_wf (fst (fold (\<lambda>(addr, v) s. rsa_mmio_write L D s addr v) writes (mpi_stubs_create, p)))"
proof -
  have "rsa_wf mpi_stubs_create"
    by (simp add: rsa_wf_def mpi_stubs_create_def)
  moreover have "rsa_wf (fst s) \<Longrightarrow> rsa_wf (fst (fold (\<lambda>(addr, v) s. rsa_mmio_write L D s addr v) writes s))"
    for s
  proof (induction writes arbitrary: s)
    case (Cons w ws)
    then show ?case by (cases w) (simp add: rsa_write_wf)
  qed simp
  ultimately show ?thesis by simp
qed

lemma modexp_result_value:
  assumes "bn_lib_ok L val" "rsa_wf ms"
    and n: "n = (unat (hw_modexp_mode ms) + 1) * 16"
    and "limbs (take n (mem_block ms RSA_M_WORD)) \<noteq> 0"
  shows "\<exists>ws. rsa_modexp_result L ms = Some ws \<and> length ws = n \<and> n \<le> MPI_MAX_WORDS \<and>
    limbs ws = limbs (take n (mem_block ms RSA_X_WORD)) ^ limbs (take n (mem_block ms RSA_Y_WORD))
      mod limbs (take n (mem_block ms RSA_M_WORD))"
proof -
  have "unat (hw_modexp_mode ms) \<le> 7" using assms(2) by (simp add: rsa_wf_def word_le_nat_alt)
  then have le: "n \<le> MPI_MAX_WORDS" by (simp add: n MPI_MAX_WORDS_def)
  obtain x y m where b: "words_to_bn L (mem_block ms RSA_X_WORD) n = Some x"
      "words_to_bn L (mem_block ms RSA_Y_WORD) n = Some y"
      "words_to_bn L (mem_block ms RSA_M_WORD) n = Some m"
    and v: "val x = limbs (take n (mem_block ms RSA_X_WORD))"
      "val y = limbs (take n (mem_block ms RSA_Y_WORD))"
      "val m = limbs (take n (mem_block ms RSA_M_WORD))"
    using words_to_bn_value [OF assms(1) le] by metis
  have m: "\<not> bn_is_zero L m" using assms(1,4) v(3) by (simp add: bn_lib_ok_def)
  have "val m \<noteq> 0" using assms(4) v(3) by simp
  then obtain z where z: "bn_mod_exp L x y m = Some z" "val z = val x ^ val y mod val m"
    using assms(1) unfolding bn_lib_ok_def by blast
  have "val z < val m" using z(2) \<open>val m \<noteq> 0\<close> by simp
  also have "val m < LIMB ^ n"
  proof -
    have "limbs (take n (mem_block ms RSA_M_WORD)) < LIMB ^ length (take n (mem_block ms RSA_M_WORD))"
      by (rule limbs_less)
    also have "\<dots> \<le> LIMB ^ n" by (intro power_increasing) (simp_all add: Suc_le_eq)
    finally show ?thesis by (simp add: v(3))
  qed
  finally obtain ws where "bn_to_words L z n = Some ws" "length ws = n" "limbs ws = val z"
    using bn_to_words_value [OF assms(1) le] by blast
  then show ?thesis
    unfolding rsa_modexp_result_def Let_def n [symmetric]
    using assms(1) b v m z le by (simp add: bn_lib_ok_def)
qed

text \<open>C33. Modular exponentiation: writing the start bit leaves \<open>X ^ Y mod M\<close> in the Z memory at
  the width the mode register selects, for every non-zero modulus, leaves X, Y and M as they
  are, sets the interrupt flag and asserts source 51.\<close>

theorem rsa_modexp_correct:
  assumes "bn_lib_ok L val" "rsa_wf ms" "v AND 1 \<noteq> 0"
    and n: "n = (unat (hw_modexp_mode ms) + 1) * 16"
    and "limbs (take n (mem_block ms RSA_M_WORD)) \<noteq> 0"
    and s: "s = rsa_mmio_write L D (ms, p) (RSA_PERIPH_BASE + 0x808) v"
  shows "limbs (take n (mem_block (fst s) RSA_Z_WORD)) =
           limbs (take n (mem_block ms RSA_X_WORD)) ^ limbs (take n (mem_block ms RSA_Y_WORD))
             mod limbs (take n (mem_block ms RSA_M_WORD)) \<and>
         (\<forall>i. i < RSA_Z_WORD \<or> RSA_Y_WORD \<le> i \<longrightarrow> hw_memory (fst s) ! i = hw_memory ms ! i) \<and>
         rsa_mmio_read (fst s) (RSA_PERIPH_BASE + 0x814) = 1 \<and>
         snd s = map_option (\<lambda>p. periph_assert_interrupt D p 51) p"
proof -
  let ?ms = "ms\<lparr>hw_interrupt := False\<rparr>"
  have mb: "mem_block ?ms = mem_block ms" by (simp add: mem_block_def [abs_def])
  have wf: "rsa_wf ?ms" using assms(2) by simp
  obtain ws where ws: "rsa_modexp_result L ?ms = Some ws" "length ws = n" "n \<le> MPI_MAX_WORDS"
    "limbs ws = limbs (take n (mem_block ms RSA_X_WORD)) ^ limbs (take n (mem_block ms RSA_Y_WORD))
      mod limbs (take n (mem_block ms RSA_M_WORD))"
    using modexp_result_value [OF assms(1) wf, of n] assms(5) n mb by auto
  have st: "s = ((put_z ?ms ws)\<lparr>hw_interrupt := True\<rparr>, map_option (\<lambda>p. periph_assert_interrupt D p 51) p)"
    using assms(3) ws(1)
    by (simp add: s rsa_mmio_write_def rsa_modexp_def rsa_complete_def store_or_zero_def
        RSA_INTR_SOURCE_def)
  have len: "length (hw_memory ?ms) = RSA_MEMORY_WORDS" using wf by (simp add: rsa_wf_def)
  have z: "take n (mem_block (put_z ?ms ws) RSA_Z_WORD) = ws"
    using put_z_memory(2) [OF len, of ws] ws(2,3) by simp
  have fr: "i < RSA_Z_WORD \<or> RSA_Y_WORD \<le> i \<Longrightarrow> hw_memory (put_z ?ms ws) ! i = hw_memory ms ! i" for i
    using put_z_memory(3) [OF len, of ws i] ws(2,3)
    by (auto simp: RSA_Z_WORD_def RSA_Y_WORD_def MPI_MAX_WORDS_def)
  have "mem_block ((put_z ?ms ws)\<lparr>hw_interrupt := True\<rparr>) = mem_block (put_z ?ms ws)"
    by (simp add: mem_block_def [abs_def])
  then show ?thesis
    using z fr ws(4) by (simp add: st rsa_mmio_read_def Let_def)
qed

section \<open>Concrete instances\<close>

text \<open>A machine whose device state is the accelerator, called from a CALL8 with two operands that
  are the same one-limb number, 7, at 0x3FFB0000.\<close>

definition mpi_sample_bytes :: "hbuf \<Rightarrow> nat \<Rightarrow> u8" where
  "mpi_sample_bytes b i =
     (if i = 0x10004 then 1 else if i = 0x10008 then 0x10 else if i = 0x1000A then 0xFB
      else if i = 0x1000B then 0x3F else if i = 0x10010 then 7 else 0)"

definition mpi_sample_cpu :: "mpi_stubs cpu" where
  "mpi_sample_cpu =
     (xtensa_cpu_reset_for_target True esp32_target (sample_mem\<lparr>hbytes := mpi_sample_bytes\<rparr>) mpi_stubs_create)
       \<lparr>ps := 0x60000, ar := (\<lambda>i. if i = 10 \<or> i = 11 then 0x3FFB0000 else if i = 12 then 1 else 0)\<rparr>"

definition mpi_sample_host :: "mpi_stubs host" where
  "mpi_sample_host = \<lparr>h_mmio_read = (\<lambda>_ _ _ c. (0, c)), h_mmio_write = (\<lambda>_ _ _ _ c. c),
     h_mmio_masked_write = (\<lambda>_ _ _ _ _ c. c), h_peer_watch = (\<lambda>_ _ _ _ _ c. c),
     h_code_invalidate = None, h_periph_next_event = None, h_periph_event = None,
     h_pc_hook = None, h_pc_hook_bitmap = None, h_aot_bitmap = None, h_aot_lookup = (\<lambda>_. None),
     h_fpu = sample_fpu\<rparr>"

definition mpi_sample_port :: "mpi_stubs mpi_port" where
  "mpi_sample_port = \<lparr>mp_get = (\<lambda>d. d), mp_put = (\<lambda>s d. s)\<rparr>"

lemma mpi_sample_port_ok: "port_ok mpi_sample_port"
  by (simp add: port_ok_def mpi_sample_port_def)

lemma mpi_sample_mem: "mem mpi_sample_cpu = sample_mem\<lparr>hbytes := mpi_sample_bytes\<rparr>"
  by (simp add: mpi_sample_cpu_def xtensa_cpu_reset_for_target_def xtensa_cpu_init_for_target_def
        cpu_zero_def window_hazard_refresh_def Let_def)

lemma mpi_sample_word:
  "mem_read32 E mpi_sample_cpu 0x3FFB0004 = (1, mpi_sample_cpu)"
  "mem_read32 E mpi_sample_cpu 0x3FFB0008 = (0x3FFB0010, mpi_sample_cpu)"
  "mem_read32 E mpi_sample_cpu 0x3FFB0010 = (7, mpi_sample_cpu)"
  by (simp_all add: mem_read32_def mem_get_ptr_def mpi_sample_mem sample_mem_def sample_tables_def
        page_of_def page_off_def host_touch_def host_in_def hsize_def hptr_add_def host_read_def
        mpi_sample_bytes_def upt_rec Let_def)

lemma mpi_sample_read:
  "read_mpi_limbs mpi_sample_host mpi_sample_cpu 0x3FFB0000 1 = ([7], mpi_sample_cpu)"
  by (simp add: read_mpi_limbs_def read_words_def MPI_OFS_N_def MPI_OFS_P_def mpi_sample_word Let_def)

lemma mpi_sample_args:
  "mpi_arg mpi_sample_cpu 0 = 0x3FFB0000" "mpi_arg mpi_sample_cpu 1 = 0x3FFB0000"
  "clamp_words (mpi_arg mpi_sample_cpu 2) = 1" "core_id mpi_sample_cpu = 0"
  "ms_of mpi_sample_port mpi_sample_cpu = mpi_stubs_create"
  by (simp_all add: mpi_arg_def ar_read_def ar_idx_def XT_PS_CALLINC_def mpi_sample_cpu_def ms_of_def
        xtensa_cpu_reset_for_target_def xtensa_cpu_init_for_target_def cpu_zero_def
        window_hazard_refresh_def Let_def clamp_words_def MPI_MAX_WORDS_def mpi_sample_port_def)

theorem mpi_mul_stub_product_witness:
  "limbs (take 2 (ms_result (ms_of mpi_sample_port
     (stub_esp_mpi_mul_mpi_hw_op mpi_sample_port mpi_sample_host mpi_sample_cpu)) 0)) = 49"
  using mpi_mul_stub_product [OF mpi_sample_port_ok, of mpi_sample_host mpi_sample_cpu "[7]" mpi_sample_cpu
      "[7]" mpi_sample_cpu, unfolded mpi_sample_args, OF mpi_sample_read mpi_sample_read _ refl]
  by (auto simp: mpi_stubs_create_def)

theorem mpi_failover_stub_product_witness:
  "limbs (take 1 (ms_result (ms_of mpi_sample_port
     (stub_esp_mpi_mult_mpi_failover_mod_mult_hw_op mpi_sample_port mpi_sample_host mpi_sample_cpu)) 0)) = 49"
  using mpi_failover_stub_product [OF mpi_sample_port_ok, of mpi_sample_host mpi_sample_cpu "[7]" mpi_sample_cpu
      "[7]" mpi_sample_cpu, unfolded mpi_sample_args, OF mpi_sample_read mpi_sample_read _ refl]
  by (auto simp: mpi_stubs_create_def)

theorem montgomery_mul_correct_witness:
  "(2 ^ 32 * limbs (take 1 (montgomery_mul True [3] [5] [7] 1227133513 1 [0]))) mod 7 = (1 :: nat)"
  using montgomery_mul_correct [of 1 "[3]" "[5]" "[7]" "[0]" 1227133513, OF _ _ _ _ _ _ refl] by simp

text \<open>A big-number library on natural numbers.\<close>

definition nat_bytes :: "nat \<Rightarrow> nat \<Rightarrow> u8 list" where
  "nat_bytes b n = map (\<lambda>i. of_nat (b div 256 ^ i)) [0 ..< n]"

lemma bytes_val_nat_bytes: "bytes_val (nat_bytes b n) = b mod 256 ^ n"
proof (induction n)
  case (Suc n)
  have "bytes_val (nat_bytes b (Suc n)) = bytes_val (nat_bytes b n) + 256 ^ n * (b div 256 ^ n mod 256)"
    by (simp add: nat_bytes_def bytes_val_append unat_of_nat)
  also have "\<dots> = b mod (256 ^ n * 256)" using Suc by (simp add: mod_mult2_eq)
  finally show ?case by (simp add: mult.commute)
qed (simp add: nat_bytes_def)

definition nat_bn :: "nat bn_lib" where
  "nat_bn = \<lparr>bn_ctx_ok = True, bn_get_ok = True, bn_lebin2bn = (\<lambda>bs. Some (bytes_val bs)),
     bn_bn2lebinpad = (\<lambda>b n. if b < 256 ^ n then Some (nat_bytes b n) else None),
     bn_is_zero = (\<lambda>b. b = 0), bn_one = Some 1, bn_lshift = (\<lambda>b n. Some (b * 2 ^ n)),
     bn_mod_exp = (\<lambda>x y m. Some (x ^ y mod m)), bn_mod_inverse = (\<lambda>a m. None),
     bn_mod_mul = (\<lambda>x y m. Some (x * y mod m)), bn_mul = (\<lambda>x y. Some (x * y))\<rparr>"

lemma nat_bn_ok: "bn_lib_ok nat_bn (\<lambda>b. b)"
  by (simp add: bn_lib_ok_def nat_bn_def bytes_val_nat_bytes) (simp add: nat_bytes_def)

text \<open>M = 5, Y = 4 and X = 3 in 512-bit mode.\<close>

definition rsa_sample :: mpi_stubs where
  "rsa_sample = mpi_stubs_create\<lparr>hw_memory :=
     5 # replicate 255 0 @ 4 # replicate 127 0 @ 3 # replicate 127 0\<rparr>"

lemma rsa_sample_blocks:
  "limbs (take 16 (mem_block rsa_sample RSA_M_WORD)) = 5"
  "limbs (take 16 (mem_block rsa_sample RSA_Y_WORD)) = 4"
  "limbs (take 16 (mem_block rsa_sample RSA_X_WORD)) = 3"
  by (simp_all add: mem_block_def rsa_sample_def RSA_M_WORD_def RSA_Y_WORD_def RSA_X_WORD_def)

theorem rsa_modexp_correct_witness:
  "limbs (take 16 (mem_block (fst (rsa_mmio_write nat_bn sample_env (rsa_sample, Some sample_fabric)
     (RSA_PERIPH_BASE + 0x808) 1)) RSA_Z_WORD)) = 1"
proof -
  have m: "hw_modexp_mode rsa_sample = 0" "rsa_wf rsa_sample"
    by (simp_all add: rsa_sample_def mpi_stubs_create_def rsa_wf_def RSA_MEMORY_WORDS_def)
  then show ?thesis
    using rsa_modexp_correct [OF nat_bn_ok m(2), of 1 16 _ sample_env "Some sample_fabric", OF _ _ _ refl]
    by (simp add: rsa_sample_blocks)
qed

end
