(* ===== verification/Gdma.thy ===== *)
theory Gdma
  imports Intr_Matrix
begin

text \<open>
  The general-purpose DMA controller of src/src/gdma.c: a bank of channels, each with a
  receive (IN) and a transmit (OUT) half, that walk linked lists of 12-byte descriptors in
  guest memory on behalf of a peripheral. The record holds the controller's registers and
  channel state; \<open>g_world\<close> is the state behind its callbacks (the interrupt callback, the
  activity handler and the fallback handlers of its register page). Guest memory belongs to
  the processor that the memory operations of the bus are stated on. The pointers \<open>gdma\<close>
  and \<open>data\<close> are non-null.
\<close>

section \<open>Descriptor and state\<close>

record flexe_gdma_desc =
  gd_base :: u32
  gd_register_size :: u32
  gd_channel_stride :: u32
  gd_descriptor_address_prefix :: u32
  gd_channel_count :: u8
  gd_rx_interrupt_source :: "nat \<Rightarrow> u8"
  gd_tx_interrupt_source :: "nat \<Rightarrow> u8"

definition FLEXE_TARGET_GDMA_CHANNEL_MAX :: u8 where "FLEXE_TARGET_GDMA_CHANNEL_MAX = 5"

definition GDMA_V1_IN_CONF0_OFF :: u32 where "GDMA_V1_IN_CONF0_OFF = 0x000"
definition GDMA_V1_IN_CONF1_OFF :: u32 where "GDMA_V1_IN_CONF1_OFF = 0x004"
definition GDMA_V1_IN_INT_RAW_OFF :: u32 where "GDMA_V1_IN_INT_RAW_OFF = 0x008"
definition GDMA_V1_IN_INT_ST_OFF :: u32 where "GDMA_V1_IN_INT_ST_OFF = 0x00C"
definition GDMA_V1_IN_INT_ENA_OFF :: u32 where "GDMA_V1_IN_INT_ENA_OFF = 0x010"
definition GDMA_V1_IN_INT_CLR_OFF :: u32 where "GDMA_V1_IN_INT_CLR_OFF = 0x014"
definition GDMA_V1_IN_LINK_OFF :: u32 where "GDMA_V1_IN_LINK_OFF = 0x020"
definition GDMA_V1_IN_STATE_OFF :: u32 where "GDMA_V1_IN_STATE_OFF = 0x024"
definition GDMA_V1_IN_SUC_EOF_DESC_OFF :: u32 where "GDMA_V1_IN_SUC_EOF_DESC_OFF = 0x028"
definition GDMA_V1_IN_ERR_EOF_DESC_OFF :: u32 where "GDMA_V1_IN_ERR_EOF_DESC_OFF = 0x02C"
definition GDMA_V1_IN_DESC_OFF :: u32 where "GDMA_V1_IN_DESC_OFF = 0x030"
definition GDMA_V1_IN_DESC_PREV_OFF :: u32 where "GDMA_V1_IN_DESC_PREV_OFF = 0x034"
definition GDMA_V1_IN_DESC_PREV2_OFF :: u32 where "GDMA_V1_IN_DESC_PREV2_OFF = 0x038"
definition GDMA_V1_IN_PERI_SEL_OFF :: u32 where "GDMA_V1_IN_PERI_SEL_OFF = 0x048"
definition GDMA_V1_OUT_CONF0_OFF :: u32 where "GDMA_V1_OUT_CONF0_OFF = 0x060"
definition GDMA_V1_OUT_CONF1_OFF :: u32 where "GDMA_V1_OUT_CONF1_OFF = 0x064"
definition GDMA_V1_OUT_INT_RAW_OFF :: u32 where "GDMA_V1_OUT_INT_RAW_OFF = 0x068"
definition GDMA_V1_OUT_INT_ST_OFF :: u32 where "GDMA_V1_OUT_INT_ST_OFF = 0x06C"
definition GDMA_V1_OUT_INT_ENA_OFF :: u32 where "GDMA_V1_OUT_INT_ENA_OFF = 0x070"
definition GDMA_V1_OUT_INT_CLR_OFF :: u32 where "GDMA_V1_OUT_INT_CLR_OFF = 0x074"
definition GDMA_V1_OUT_LINK_OFF :: u32 where "GDMA_V1_OUT_LINK_OFF = 0x080"
definition GDMA_V1_OUT_STATE_OFF :: u32 where "GDMA_V1_OUT_STATE_OFF = 0x084"
definition GDMA_V1_OUT_EOF_DESC_OFF :: u32 where "GDMA_V1_OUT_EOF_DESC_OFF = 0x088"
definition GDMA_V1_OUT_EOF_PREV_OFF :: u32 where "GDMA_V1_OUT_EOF_PREV_OFF = 0x08C"
definition GDMA_V1_OUT_DESC_OFF :: u32 where "GDMA_V1_OUT_DESC_OFF = 0x090"
definition GDMA_V1_OUT_DESC_PREV_OFF :: u32 where "GDMA_V1_OUT_DESC_PREV_OFF = 0x094"
definition GDMA_V1_OUT_DESC_PREV2_OFF :: u32 where "GDMA_V1_OUT_DESC_PREV2_OFF = 0x098"
definition GDMA_V1_OUT_PERI_SEL_OFF :: u32 where "GDMA_V1_OUT_PERI_SEL_OFF = 0x0A8"
definition GDMA_V1_MISC_CONF_OFF :: u32 where "GDMA_V1_MISC_CONF_OFF = 0x3C8"

lemmas gdma_offsets =
  GDMA_V1_IN_CONF0_OFF_def GDMA_V1_IN_CONF1_OFF_def GDMA_V1_IN_INT_RAW_OFF_def
  GDMA_V1_IN_INT_ST_OFF_def GDMA_V1_IN_INT_ENA_OFF_def GDMA_V1_IN_INT_CLR_OFF_def
  GDMA_V1_IN_LINK_OFF_def GDMA_V1_IN_STATE_OFF_def GDMA_V1_IN_SUC_EOF_DESC_OFF_def
  GDMA_V1_IN_ERR_EOF_DESC_OFF_def GDMA_V1_IN_DESC_OFF_def GDMA_V1_IN_DESC_PREV_OFF_def
  GDMA_V1_IN_DESC_PREV2_OFF_def GDMA_V1_IN_PERI_SEL_OFF_def GDMA_V1_OUT_CONF0_OFF_def
  GDMA_V1_OUT_CONF1_OFF_def GDMA_V1_OUT_INT_RAW_OFF_def GDMA_V1_OUT_INT_ST_OFF_def
  GDMA_V1_OUT_INT_ENA_OFF_def GDMA_V1_OUT_INT_CLR_OFF_def GDMA_V1_OUT_LINK_OFF_def
  GDMA_V1_OUT_STATE_OFF_def GDMA_V1_OUT_EOF_DESC_OFF_def GDMA_V1_OUT_EOF_PREV_OFF_def
  GDMA_V1_OUT_DESC_OFF_def GDMA_V1_OUT_DESC_PREV_OFF_def GDMA_V1_OUT_DESC_PREV2_OFF_def
  GDMA_V1_OUT_PERI_SEL_OFF_def GDMA_V1_MISC_CONF_OFF_def

text \<open>Control bits: the two halves place the link controls one bit apart.\<close>

abbreviation (input) "GDMA_V1_OUT_AUTO_WRBACK \<equiv> (0x4 :: u32)"
abbreviation (input) "GDMA_V1_CHECK_OWNER \<equiv> (0x1000 :: u32)"
abbreviation (input) "GDMA_V1_IN_LINK_AUTO_RETURN \<equiv> (0x100000 :: u32)"
abbreviation (input) "GDMA_V1_IN_LINK_STOP \<equiv> (0x200000 :: u32)"
abbreviation (input) "GDMA_V1_IN_LINK_START_RESTART \<equiv> (0xC00000 :: u32)"
abbreviation (input) "GDMA_V1_IN_LINK_PARK \<equiv> (0x1000000 :: u32)"
abbreviation (input) "GDMA_V1_LINK_ADDR_MASK \<equiv> (0xFFFFF :: u32)"
abbreviation (input) "GDMA_V1_LINK_STOP \<equiv> (0x100000 :: u32)"
abbreviation (input) "GDMA_V1_LINK_START_RESTART \<equiv> (0x600000 :: u32)"
abbreviation (input) "GDMA_V1_LINK_PARK \<equiv> (0x800000 :: u32)"
abbreviation (input) "GDMA_V1_PERI_SEL_MASK \<equiv> (0x3F :: u32)"
abbreviation (input) "GDMA_V1_DESC_SIZE_MASK \<equiv> (0xFFF :: u32)"
abbreviation (input) "GDMA_V1_DESC_LENGTH_MASK \<equiv> (0xFFF000 :: u32)"
abbreviation (input) "GDMA_V1_DESC_EOF \<equiv> (0x40000000 :: u32)"
abbreviation (input) "GDMA_V1_DESC_OWNER \<equiv> (0x80000000 :: u32)"
abbreviation (input) "GDMA_V1_OUT_DONE_INT \<equiv> (1 :: u32)"
abbreviation (input) "GDMA_V1_OUT_EOF_INT \<equiv> (2 :: u32)"
abbreviation (input) "GDMA_V1_OUT_DSCR_ERR_INT \<equiv> (4 :: u32)"
abbreviation (input) "GDMA_V1_OUT_TOTAL_EOF_INT \<equiv> (8 :: u32)"
abbreviation (input) "GDMA_V1_IN_DONE_INT \<equiv> (1 :: u32)"
abbreviation (input) "GDMA_V1_IN_SUC_EOF_INT \<equiv> (2 :: u32)"
abbreviation (input) "GDMA_V1_IN_ERR_EOF_INT \<equiv> (4 :: u32)"
abbreviation (input) "GDMA_V1_IN_DSCR_ERR_INT \<equiv> (8 :: u32)"
abbreviation (input) "GDMA_V1_IN_DSCR_EMPTY_INT \<equiv> (0x10 :: u32)"
abbreviation (input) "GDMA_V1_IN_INT_MASK \<equiv> (0x3FF :: u32)"
abbreviation (input) "GDMA_V1_OUT_INT_MASK \<equiv> (0xFF :: u32)"

definition GDMA_V1_DESC_BYTES :: nat where "GDMA_V1_DESC_BYTES = 12"
definition GDMA_V1_DESC_LIMIT :: nat where "GDMA_V1_DESC_LIMIT = 1024"

record gdma_tx_channel =
  tx_link_address :: u32
  tx_next_desc :: u32
  tx_current_desc :: u32
  tx_previous_desc :: u32
  tx_active :: bool

record gdma_rx_channel =
  rx_link_address :: u32
  rx_next_desc :: u32
  rx_current_desc :: u32
  rx_previous_desc :: u32
  rx_auto_return :: bool
  rx_active :: bool

record 'w flexe_gdma =
  g_desc :: flexe_gdma_desc
  g_fallback_read :: "(u32 \<Rightarrow> 'w \<Rightarrow> u32 \<times> 'w) option"
  g_fallback_write :: "(u32 \<Rightarrow> u32 \<Rightarrow> 'w \<Rightarrow> 'w) option"
  g_irq_changed :: "(nat \<Rightarrow> bool \<Rightarrow> bool \<Rightarrow> 'w \<Rightarrow> 'w) option"
  g_activity_changed :: "('w \<Rightarrow> 'w) option"
  g_rx_irq_level :: "nat \<Rightarrow> bool"
  g_tx_irq_level :: "nat \<Rightarrow> bool"
  g_regs :: "u32 list"
  g_rx :: "nat \<Rightarrow> gdma_rx_channel"
  g_tx :: "nat \<Rightarrow> gdma_tx_channel"
  g_world :: 'w

record flexe_gdma_descriptor =
  dd_descriptor_address :: u32
  dd_buffer_address :: u32
  dd_length :: nat
  dd_eof :: bool
  dd_chain_complete :: bool

text \<open>The target's placement and wiring of the controller.\<close>

definition cap_gdma :: "periph_target \<Rightarrow> bool" where
  "cap_gdma t = bit (pt_capabilities t) 20"

definition gdma_sources_valid :: "periph_target \<Rightarrow> flexe_gdma_desc \<Rightarrow> nat \<Rightarrow> bool" where
  "gdma_sources_valid t d ch =
     (let rx = gd_rx_interrupt_source d ch; tx = gd_tx_interrupt_source d ch;
          n = unat (im_source_count (pt_interrupt_matrix t)) in
      unat rx < n \<and> unat tx < n \<and> rx \<noteq> tx \<and>
      list_all (\<lambda>k. rx \<noteq> gd_rx_interrupt_source d k \<and> rx \<noteq> gd_tx_interrupt_source d k \<and>
                    tx \<noteq> gd_rx_interrupt_source d k \<and> tx \<noteq> gd_tx_interrupt_source d k) [0 ..< ch])"

definition gdma_geometry_valid :: "periph_target \<Rightarrow> flexe_gdma_desc \<Rightarrow> bool" where
  "gdma_geometry_valid t d \<longleftrightarrow>
     cap_gdma t \<and>
     \<not> (gd_base d < pt_peripheral_start t \<or> pt_peripheral_end t \<le> gd_base d \<or>
        gd_register_size d = 0 \<or> gd_base d AND 3 \<noteq> 0 \<or> gd_register_size d AND 0xFFF \<noteq> 0 \<or>
        pt_peripheral_end t - gd_base d < gd_register_size d \<or>
        gd_channel_count d = 0 \<or> FLEXE_TARGET_GDMA_CHANNEL_MAX < gd_channel_count d \<or>
        gd_channel_stride d < 0xAC \<or> gd_channel_stride d AND 3 \<noteq> 0 \<or>
        unat (gd_register_size d) <
          (unat (gd_channel_count d) - 1) * unat (gd_channel_stride d) +
          unat GDMA_V1_OUT_PERI_SEL_OFF + 4 \<or>
        gd_descriptor_address_prefix d AND GDMA_V1_LINK_ADDR_MASK \<noteq> 0 \<or>
        \<not> cap_intr_matrix t) \<and>
     list_all (gdma_sources_valid t d) [0 ..< unat (gd_channel_count d)]"

section \<open>Registers\<close>

definition gdma_decode_channel :: "'w flexe_gdma \<Rightarrow> u32 \<Rightarrow> (nat \<times> u32) option" where
  "gdma_decode_channel g addr =
     (let d = g_desc g; offset = addr - gd_base d; ch = offset div gd_channel_stride d in
      if addr < gd_base d \<or> gd_base d + gd_register_size d \<le> addr then None
      else if unat (gd_channel_count d) \<le> unat ch then None
      else Some (unat ch, offset - ch * gd_channel_stride d))"

definition gdma_reg :: "'w flexe_gdma \<Rightarrow> u32 \<Rightarrow> nat option" where
  "gdma_reg g addr =
     (let d = g_desc g in
      if addr < gd_base d \<or> gd_base d + gd_register_size d \<le> addr \<or> addr AND 3 \<noteq> 0 then None
      else Some (unat (addr - gd_base d) div 4))"

definition gdma_channel_addr :: "'w flexe_gdma \<Rightarrow> nat \<Rightarrow> u32 \<Rightarrow> u32" where
  "gdma_channel_addr g ch off =
     gd_base (g_desc g) + of_nat ch * gd_channel_stride (g_desc g) + off"

text \<open>Reads of a register pointer that may be null, which the code takes as zero, and guarded
  writes.\<close>

definition reg_get :: "'w flexe_gdma \<Rightarrow> u32 \<Rightarrow> u32" where
  "reg_get g addr = (case gdma_reg g addr of None \<Rightarrow> 0 | Some i \<Rightarrow> g_regs g ! i)"

definition reg_put :: "u32 \<Rightarrow> u32 \<Rightarrow> 'w flexe_gdma \<Rightarrow> 'w flexe_gdma" where
  "reg_put addr v g =
     (case gdma_reg g addr of None \<Rightarrow> g | Some i \<Rightarrow> g\<lparr>g_regs := (g_regs g)[i := v]\<rparr>)"

definition chan_get :: "'w flexe_gdma \<Rightarrow> nat \<Rightarrow> u32 \<Rightarrow> u32" where
  "chan_get g ch off = reg_get g (gdma_channel_addr g ch off)"

definition chan_put :: "nat \<Rightarrow> u32 \<Rightarrow> u32 \<Rightarrow> 'w flexe_gdma \<Rightarrow> 'w flexe_gdma" where
  "chan_put ch off v g = reg_put (gdma_channel_addr g ch off) v g"

definition g_notify :: "('w \<Rightarrow> 'w) option \<Rightarrow> 'w flexe_gdma \<Rightarrow> 'w flexe_gdma" where
  "g_notify f g = (case f of None \<Rightarrow> g | Some h \<Rightarrow> g\<lparr>g_world := h (g_world g)\<rparr>)"

definition gdma_update_irq :: "nat \<Rightarrow> bool \<Rightarrow> 'w flexe_gdma \<Rightarrow> 'w flexe_gdma" where
  "gdma_update_irq ch receive g =
     (let raw = chan_get g ch (if receive then GDMA_V1_IN_INT_RAW_OFF else GDMA_V1_OUT_INT_RAW_OFF);
          ena = chan_get g ch (if receive then GDMA_V1_IN_INT_ENA_OFF else GDMA_V1_OUT_INT_ENA_OFF);
          level = (raw AND ena \<noteq> 0);
          old = (if receive then g_rx_irq_level g ch else g_tx_irq_level g ch);
          g1 = (if receive then g\<lparr>g_rx_irq_level := (g_rx_irq_level g)(ch := level)\<rparr>
                else g\<lparr>g_tx_irq_level := (g_tx_irq_level g)(ch := level)\<rparr>)
      in if old = level then g
         else g_notify (map_option (\<lambda>f. f ch receive level) (g_irq_changed g1)) g1)"

definition rx_link_parked :: "gdma_rx_channel \<Rightarrow> u32" where
  "rx_link_parked rx =
     rx_link_address rx OR (if rx_auto_return rx then GDMA_V1_IN_LINK_AUTO_RETURN else 0) OR
     GDMA_V1_IN_LINK_PARK"

definition tx_link_parked :: "gdma_tx_channel \<Rightarrow> u32" where
  "tx_link_parked tx = tx_link_address tx OR GDMA_V1_LINK_PARK"

definition put_rx :: "nat \<Rightarrow> gdma_rx_channel \<Rightarrow> 'w flexe_gdma \<Rightarrow> 'w flexe_gdma" where
  "put_rx ch rx g = g\<lparr>g_rx := (g_rx g)(ch := rx)\<rparr>"

definition put_tx :: "nat \<Rightarrow> gdma_tx_channel \<Rightarrow> 'w flexe_gdma \<Rightarrow> 'w flexe_gdma" where
  "put_tx ch tx g = g\<lparr>g_tx := (g_tx g)(ch := tx)\<rparr>"

definition gdma_rx_reset_fsm :: "nat \<Rightarrow> 'w flexe_gdma \<Rightarrow> 'w flexe_gdma" where
  "gdma_rx_reset_fsm ch g =
     (let rx = (g_rx g ch)\<lparr>rx_next_desc := 0, rx_current_desc := 0, rx_previous_desc := 0,
                           rx_active := False\<rparr>;
          g1 = fold (\<lambda>off. chan_put ch off 0)
                 [GDMA_V1_IN_STATE_OFF, GDMA_V1_IN_SUC_EOF_DESC_OFF, GDMA_V1_IN_ERR_EOF_DESC_OFF,
                  GDMA_V1_IN_DESC_OFF, GDMA_V1_IN_DESC_PREV_OFF, GDMA_V1_IN_DESC_PREV2_OFF]
                 (put_rx ch rx g)
      in chan_put ch GDMA_V1_IN_LINK_OFF (rx_link_parked rx) g1)"

definition gdma_rx_power_on_reset :: "nat \<Rightarrow> 'w flexe_gdma \<Rightarrow> 'w flexe_gdma" where
  "gdma_rx_power_on_reset ch g =
     (let g1 = gdma_rx_reset_fsm ch
                 (put_rx ch ((g_rx g ch)\<lparr>rx_link_address := 0, rx_auto_return := True\<rparr>) g)
      in chan_put ch GDMA_V1_IN_PERI_SEL_OFF 0x3F
           (chan_put ch GDMA_V1_IN_CONF1_OFF 0xC
              (chan_put ch GDMA_V1_IN_INT_ENA_OFF 0 (chan_put ch GDMA_V1_IN_INT_RAW_OFF 0 g1))))"

definition gdma_tx_reset_fsm :: "nat \<Rightarrow> 'w flexe_gdma \<Rightarrow> 'w flexe_gdma" where
  "gdma_tx_reset_fsm ch g =
     (let tx = (g_tx g ch)\<lparr>tx_next_desc := 0, tx_current_desc := 0, tx_previous_desc := 0,
                           tx_active := False\<rparr>;
          g1 = fold (\<lambda>off. chan_put ch off 0)
                 [GDMA_V1_OUT_STATE_OFF, GDMA_V1_OUT_EOF_DESC_OFF, GDMA_V1_OUT_EOF_PREV_OFF,
                  GDMA_V1_OUT_DESC_OFF, GDMA_V1_OUT_DESC_PREV_OFF, GDMA_V1_OUT_DESC_PREV2_OFF]
                 (put_tx ch tx g)
      in chan_put ch GDMA_V1_OUT_LINK_OFF (tx_link_parked tx) g1)"

definition gdma_tx_power_on_reset :: "nat \<Rightarrow> 'w flexe_gdma \<Rightarrow> 'w flexe_gdma" where
  "gdma_tx_power_on_reset ch g =
     (let g1 = gdma_tx_reset_fsm ch (put_tx ch ((g_tx g ch)\<lparr>tx_link_address := 0\<rparr>) g)
      in chan_put ch GDMA_V1_OUT_PERI_SEL_OFF 0x3F
           (chan_put ch GDMA_V1_OUT_INT_ENA_OFF 0 (chan_put ch GDMA_V1_OUT_INT_RAW_OFF 0 g1)))"

definition gdma_read :: "'w flexe_gdma \<Rightarrow> u32 \<Rightarrow> u32 \<times> 'w flexe_gdma" where
  "gdma_read g addr =
     (if addr = gd_base (g_desc g) + GDMA_V1_MISC_CONF_OFF then (reg_get g addr, g)
      else case gdma_decode_channel g addr of
          None \<Rightarrow>
            (case g_fallback_read g of
               None \<Rightarrow> (0, g)
             | Some f \<Rightarrow> let (v, w) = f addr (g_world g) in (v, g\<lparr>g_world := w\<rparr>))
        | Some (ch, off) \<Rightarrow>
            let v = (if off = GDMA_V1_IN_LINK_OFF then
                       rx_link_address (g_rx g ch) OR
                       (if rx_auto_return (g_rx g ch) then GDMA_V1_IN_LINK_AUTO_RETURN else 0) OR
                       (if rx_active (g_rx g ch) then 0 else GDMA_V1_IN_LINK_PARK)
                     else if off = GDMA_V1_IN_INT_ST_OFF then
                       chan_get g ch GDMA_V1_IN_INT_RAW_OFF AND chan_get g ch GDMA_V1_IN_INT_ENA_OFF
                     else if off = GDMA_V1_OUT_LINK_OFF then
                       tx_link_address (g_tx g ch) OR
                       (if tx_active (g_tx g ch) then 0 else GDMA_V1_LINK_PARK)
                     else if off = GDMA_V1_OUT_INT_ST_OFF then
                       chan_get g ch GDMA_V1_OUT_INT_RAW_OFF AND chan_get g ch GDMA_V1_OUT_INT_ENA_OFF
                     else reg_get g addr)
            in (v, g))"

text \<open>Writes of the two link registers: the new channel, started, stopped or both.\<close>

definition rx_link_write :: "flexe_gdma_desc \<Rightarrow> u32 \<Rightarrow> gdma_rx_channel \<Rightarrow> gdma_rx_channel" where
  "rx_link_write d v rx =
     (let rx1 = rx\<lparr>rx_link_address := v AND GDMA_V1_LINK_ADDR_MASK,
                   rx_auto_return := (v AND GDMA_V1_IN_LINK_AUTO_RETURN \<noteq> 0)\<rparr>;
          rx2 = (if v AND GDMA_V1_IN_LINK_STOP \<noteq> 0 then rx1\<lparr>rx_active := False\<rparr> else rx1)
      in if v AND GDMA_V1_IN_LINK_START_RESTART \<noteq> 0
         then rx2\<lparr>rx_active := True,
                  rx_next_desc := gd_descriptor_address_prefix d OR rx_link_address rx2\<rparr>
         else rx2)"

definition tx_link_write :: "flexe_gdma_desc \<Rightarrow> u32 \<Rightarrow> gdma_tx_channel \<Rightarrow> gdma_tx_channel" where
  "tx_link_write d v tx =
     (let tx1 = tx\<lparr>tx_link_address := v AND GDMA_V1_LINK_ADDR_MASK\<rparr>;
          tx2 = (if v AND GDMA_V1_LINK_STOP \<noteq> 0 then tx1\<lparr>tx_active := False\<rparr> else tx1)
      in if v AND GDMA_V1_LINK_START_RESTART \<noteq> 0
         then tx2\<lparr>tx_active := True,
                  tx_next_desc := gd_descriptor_address_prefix d OR tx_link_address tx2\<rparr>
         else tx2)"

definition g_activity :: "'w flexe_gdma \<Rightarrow> 'w flexe_gdma" where
  "g_activity g = g_notify (g_activity_changed g) g"

definition gdma_channel_write :: "nat \<Rightarrow> u32 \<Rightarrow> u32 \<Rightarrow> u32 \<Rightarrow> 'w flexe_gdma \<Rightarrow> 'w flexe_gdma" where
  "gdma_channel_write ch off addr v g =
     (if off = GDMA_V1_IN_CONF0_OFF then
        g_activity (reg_put addr (v AND NOT 1)
          (if v AND 1 \<noteq> 0 then gdma_rx_reset_fsm ch g else g))
      else if off = GDMA_V1_IN_INT_ST_OFF \<or> off = GDMA_V1_IN_STATE_OFF \<or>
              (GDMA_V1_IN_SUC_EOF_DESC_OFF \<le> off \<and> off \<le> GDMA_V1_IN_DESC_PREV2_OFF) then g
      else if off = GDMA_V1_IN_INT_RAW_OFF then g
      else if off = GDMA_V1_IN_INT_ENA_OFF then
        gdma_update_irq ch True (reg_put addr (v AND GDMA_V1_IN_INT_MASK) g)
      else if off = GDMA_V1_IN_INT_CLR_OFF then
        gdma_update_irq ch True
          (chan_put ch GDMA_V1_IN_INT_RAW_OFF
             (chan_get g ch GDMA_V1_IN_INT_RAW_OFF AND NOT (v AND GDMA_V1_IN_INT_MASK)) g)
      else if off = GDMA_V1_IN_LINK_OFF then
        let rx = rx_link_write (g_desc g) v (g_rx g ch) in
        g_activity (reg_put addr
          (rx_link_address rx OR (if rx_auto_return rx then GDMA_V1_IN_LINK_AUTO_RETURN else 0) OR
           (if rx_active rx then 0 else GDMA_V1_IN_LINK_PARK)) (put_rx ch rx g))
      else if off = GDMA_V1_IN_PERI_SEL_OFF then
        g_activity (reg_put addr (v AND GDMA_V1_PERI_SEL_MASK) g)
      else if off = GDMA_V1_OUT_CONF0_OFF then
        g_activity (reg_put addr (v AND NOT 1)
          (if v AND 1 \<noteq> 0 then gdma_tx_reset_fsm ch g else g))
      else if off = GDMA_V1_OUT_INT_ST_OFF \<or> off = GDMA_V1_OUT_STATE_OFF \<or>
              (GDMA_V1_OUT_EOF_DESC_OFF \<le> off \<and> off \<le> GDMA_V1_OUT_DESC_PREV2_OFF) then g
      else if off = GDMA_V1_OUT_INT_RAW_OFF then g
      else if off = GDMA_V1_OUT_INT_ENA_OFF then
        gdma_update_irq ch False (reg_put addr (v AND GDMA_V1_OUT_INT_MASK) g)
      else if off = GDMA_V1_OUT_INT_CLR_OFF then
        gdma_update_irq ch False
          (chan_put ch GDMA_V1_OUT_INT_RAW_OFF
             (chan_get g ch GDMA_V1_OUT_INT_RAW_OFF AND NOT (v AND GDMA_V1_OUT_INT_MASK)) g)
      else if off = GDMA_V1_OUT_LINK_OFF then
        let tx = tx_link_write (g_desc g) v (g_tx g ch) in
        g_activity (reg_put addr
          (tx_link_address tx OR (if tx_active tx then 0 else GDMA_V1_LINK_PARK)) (put_tx ch tx g))
      else if off = GDMA_V1_OUT_PERI_SEL_OFF then
        g_activity (reg_put addr (v AND GDMA_V1_PERI_SEL_MASK) g)
      else reg_put addr v g)"

definition gdma_write :: "'w flexe_gdma \<Rightarrow> u32 \<Rightarrow> u32 \<Rightarrow> 'w flexe_gdma" where
  "gdma_write g addr v =
     (if addr = gd_base (g_desc g) + GDMA_V1_MISC_CONF_OFF then reg_put addr (v AND 0x17) g
      else case gdma_decode_channel g addr of
          None \<Rightarrow> g_notify (map_option (\<lambda>f. f addr v) (g_fallback_write g)) g
        | Some (ch, off) \<Rightarrow>
            if gdma_reg g addr = None then g else gdma_channel_write ch off addr v g)"

section \<open>Transfers\<close>

text \<open>Every page of a range has a host page behind it, writable where asked.\<close>

definition gdma_ram_range_valid :: "xmem \<Rightarrow> u32 \<Rightarrow> nat \<Rightarrow> bool \<Rightarrow> bool" where
  "gdma_ram_range_valid m address n writable =
     (if n = 0 \<or> 2 ^ 32 - 1 < n \<or> UINT32_MAX - of_nat (n - 1) < address then False
      else let last_addr = address + of_nat n - 1 in
        list_all (\<lambda>k. let page = of_nat (k * 4096); probe = (if page < address then address else page)
                      in (if writable then mem_get_ptr_w m probe else mem_get_ptr m probe) \<noteq> None)
          [unat address div 4096 ..< unat last_addr div 4096 + 1])"

definition gdma_tx_finish :: "nat \<Rightarrow> bool \<Rightarrow> bool \<Rightarrow> 'w flexe_gdma \<Rightarrow> 'w flexe_gdma" where
  "gdma_tx_finish ch success eof g =
     (let tx = (g_tx g ch)\<lparr>tx_active := False\<rparr>;
          g1 = chan_put ch GDMA_V1_OUT_LINK_OFF (tx_link_parked tx) (put_tx ch tx g);
          g2 = chan_put ch GDMA_V1_OUT_INT_RAW_OFF
                 (chan_get g1 ch GDMA_V1_OUT_INT_RAW_OFF OR
                  (if success then GDMA_V1_OUT_DONE_INT OR GDMA_V1_OUT_TOTAL_EOF_INT OR
                                   (if eof then GDMA_V1_OUT_EOF_INT else 0)
                   else GDMA_V1_OUT_DSCR_ERR_INT)) g1;
          g3 = (if success
                then chan_put ch GDMA_V1_OUT_EOF_PREV_OFF (tx_previous_desc tx)
                       (chan_put ch GDMA_V1_OUT_EOF_DESC_OFF (tx_current_desc tx) g2)
                else g2)
      in gdma_update_irq ch False g3)"

definition gdma_rx_finish :: "nat \<Rightarrow> u32 \<Rightarrow> 'w flexe_gdma \<Rightarrow> 'w flexe_gdma" where
  "gdma_rx_finish ch status g =
     (let rx = (g_rx g ch)\<lparr>rx_active := False\<rparr>;
          g1 = chan_put ch GDMA_V1_IN_LINK_OFF (rx_link_parked rx) (put_rx ch rx g);
          g2 = chan_put ch GDMA_V1_IN_INT_RAW_OFF
                 (chan_get g1 ch GDMA_V1_IN_INT_RAW_OFF OR (status AND GDMA_V1_IN_INT_MASK)) g1;
          g3 = (if status AND GDMA_V1_IN_SUC_EOF_INT \<noteq> 0
                then chan_put ch GDMA_V1_IN_SUC_EOF_DESC_OFF (rx_current_desc rx) g2 else g2);
          g4 = (if status AND GDMA_V1_IN_ERR_EOF_INT \<noteq> 0
                then chan_put ch GDMA_V1_IN_ERR_EOF_DESC_OFF (rx_current_desc rx) g3 else g3)
      in gdma_update_irq ch True g4)"

text \<open>The first started channel whose peripheral selector is \<open>peripheral_id\<close>.\<close>

definition gdma_active_tx_channel :: "'w flexe_gdma \<Rightarrow> u8 \<Rightarrow> nat option" where
  "gdma_active_tx_channel g pid =
     List.find (\<lambda>i. tx_active (g_tx g i) \<and>
         g_regs g ! (unat (gdma_channel_addr g i GDMA_V1_OUT_PERI_SEL_OFF - gd_base (g_desc g)) div 4)
           AND GDMA_V1_PERI_SEL_MASK = ucast pid) [0 ..< unat (gd_channel_count (g_desc g))]"

definition gdma_active_rx_channel :: "'w flexe_gdma \<Rightarrow> u8 \<Rightarrow> nat option" where
  "gdma_active_rx_channel g pid =
     List.find (\<lambda>i. rx_active (g_rx g i) \<and>
         g_regs g ! (unat (gdma_channel_addr g i GDMA_V1_IN_PERI_SEL_OFF - gd_base (g_desc g)) div 4)
           AND GDMA_V1_PERI_SEL_MASK = ucast pid) [0 ..< unat (gd_channel_count (g_desc g))]"

definition flexe_gdma_tx_active :: "'w flexe_gdma \<Rightarrow> u8 \<Rightarrow> bool" where
  "flexe_gdma_tx_active g pid = (gdma_active_tx_channel g pid \<noteq> None)"

text \<open>Bytes from and to guest memory.\<close>

definition gdma_copy_in :: "'d host \<Rightarrow> 'd cpu \<Rightarrow> u32 \<Rightarrow> nat \<Rightarrow> u8 list \<times> 'd cpu" where
  "gdma_copy_in E c buffer n =
     fold (\<lambda>i (bs, c). let (b, c1) = mem_read8 E c (buffer + of_nat i) in (bs @ [b], c1))
       [0 ..< n] ([], c)"

definition gdma_copy_out :: "'d host \<Rightarrow> 'd cpu \<Rightarrow> u32 \<Rightarrow> u8 list \<Rightarrow> 'd cpu" where
  "gdma_copy_out E c buffer bs =
     fold (\<lambda>i c. mem_write8 E c (buffer + of_nat i) (bs ! i)) [0 ..< length bs] c"

text \<open>The three words of a descriptor.\<close>

definition gdma_fetch :: "'d host \<Rightarrow> 'd cpu \<Rightarrow> u32 \<Rightarrow> u32 \<times> u32 \<times> u32 \<times> 'd cpu" where
  "gdma_fetch E c desc =
     (let (dw0, c1) = mem_read32 E c desc;
          (buffer, c2) = mem_read32 E c1 (desc + 4);
          (next_desc, c3) = mem_read32 E c2 (desc + 8)
      in (dw0, buffer, next_desc, c3))"

definition desc_size :: "u32 \<Rightarrow> nat" where
  "desc_size dw0 = unat (dw0 AND GDMA_V1_DESC_SIZE_MASK)"

definition desc_valid :: "u32 \<Rightarrow> nat" where
  "desc_valid dw0 = unat (drop_bit 12 (dw0 AND GDMA_V1_DESC_LENGTH_MASK))"

definition desc_put_length :: "u32 \<Rightarrow> nat \<Rightarrow> u32" where
  "desc_put_length dw0 n =
     (dw0 AND NOT (GDMA_V1_DESC_OWNER OR GDMA_V1_DESC_LENGTH_MASK)) OR
     (push_bit 12 (of_nat n) AND GDMA_V1_DESC_LENGTH_MASK)"

definition gdma_tx_advance_status :: "nat \<Rightarrow> u32 \<Rightarrow> 'w flexe_gdma \<Rightarrow> 'w flexe_gdma" where
  "gdma_tx_advance_status ch desc g =
     (let tx = g_tx g ch;
          g1 = put_tx ch (tx\<lparr>tx_previous_desc := tx_current_desc tx, tx_current_desc := desc\<rparr>) g;
          g2 = chan_put ch GDMA_V1_OUT_DESC_PREV2_OFF (chan_get g1 ch GDMA_V1_OUT_DESC_PREV_OFF) g1;
          g3 = chan_put ch GDMA_V1_OUT_DESC_PREV_OFF (chan_get g2 ch GDMA_V1_OUT_DESC_OFF) g2
      in chan_put ch GDMA_V1_OUT_DESC_OFF desc g3)"

definition gdma_rx_advance_status :: "nat \<Rightarrow> u32 \<Rightarrow> 'w flexe_gdma \<Rightarrow> 'w flexe_gdma" where
  "gdma_rx_advance_status ch desc g =
     (let rx = g_rx g ch;
          g1 = put_rx ch (rx\<lparr>rx_previous_desc := rx_current_desc rx, rx_current_desc := desc\<rparr>) g;
          g2 = chan_put ch GDMA_V1_IN_DESC_PREV2_OFF (chan_get g1 ch GDMA_V1_IN_DESC_PREV_OFF) g1;
          g3 = chan_put ch GDMA_V1_IN_DESC_PREV_OFF (chan_get g2 ch GDMA_V1_IN_DESC_OFF) g2
      in chan_put ch GDMA_V1_IN_DESC_OFF desc g3)"

definition rx_at :: "nat \<Rightarrow> u32 \<Rightarrow> 'w flexe_gdma \<Rightarrow> 'w flexe_gdma" where
  "rx_at ch desc g = put_rx ch ((g_rx g ch)\<lparr>rx_current_desc := desc\<rparr>) g"

definition tx_at :: "nat \<Rightarrow> u32 \<Rightarrow> 'w flexe_gdma \<Rightarrow> 'w flexe_gdma" where
  "tx_at ch desc g = put_tx ch ((g_tx g ch)\<lparr>tx_current_desc := desc\<rparr>) g"

text \<open>
  The loop of \<open>flexe_gdma_read_tx\<close>; the first argument is the number of descriptors it may
  still take. \<open>Inl\<close> is a return of -1 from inside the loop, \<open>Inr\<close> its normal end; both carry
  the bytes copied so far.
\<close>

fun tx_loop ::
  "nat \<Rightarrow> 'd host \<Rightarrow> nat \<Rightarrow> bool \<Rightarrow> bool \<Rightarrow> nat \<Rightarrow> u32 \<Rightarrow> u8 list \<Rightarrow> bool \<Rightarrow>
     'w flexe_gdma \<Rightarrow> 'd cpu \<Rightarrow>
     (u8 list \<times> 'w flexe_gdma \<times> 'd cpu) + (u8 list \<times> bool \<times> 'w flexe_gdma \<times> 'd cpu)" where
  "tx_loop 0 E ch wb owner n desc data eof g c = Inr (data, eof, g, c)"
| "tx_loop (Suc k) E ch wb owner n desc data eof g c =
     (if \<not> length data < n then Inr (data, eof, g, c)
      else if desc AND 3 \<noteq> 0 \<or> \<not> gdma_ram_range_valid (mem c) desc GDMA_V1_DESC_BYTES wb
      then Inl (data, gdma_tx_finish ch False False g, c)
      else
        let (dw0, buffer, next_desc, c1) = gdma_fetch E c desc;
            eof1 = (dw0 AND GDMA_V1_DESC_EOF \<noteq> 0); valid = desc_valid dw0 in
        if (owner \<and> dw0 AND GDMA_V1_DESC_OWNER = 0) \<or> valid = 0 \<or> desc_size dw0 < valid \<or>
           n - length data < valid \<or> \<not> gdma_ram_range_valid (mem c1) buffer valid False
        then Inl (data, gdma_tx_finish ch False False g, c1)
        else
          let (bs, c2) = gdma_copy_in E c1 buffer valid;
              data1 = data @ bs;
              g1 = gdma_tx_advance_status ch desc g;
              c3 = (if wb then mem_write32 E c2 desc (dw0 AND NOT GDMA_V1_DESC_OWNER) else c2) in
          if length data1 = n then
            if eof1 then Inr (data1, eof1, g1, c3)
            else Inl (data1, gdma_tx_finish ch False False g1, c3)
          else if eof1 \<or> next_desc = 0 \<or> next_desc = desc
          then Inl (data1, gdma_tx_finish ch False eof1 g1, c3)
          else tx_loop k E ch wb owner n next_desc data1 eof1 g1 c3)"

definition flexe_gdma_read_tx ::
  "'d host \<Rightarrow> u8 \<Rightarrow> nat \<Rightarrow> 'w flexe_gdma \<Rightarrow> 'd cpu \<Rightarrow> int \<times> u8 list \<times> 'w flexe_gdma \<times> 'd cpu" where
  "flexe_gdma_read_tx E pid n g c =
     (case gdma_active_tx_channel g pid of
        None \<Rightarrow> (-1, [], g, c)
      | Some ch \<Rightarrow>
          let desc = gd_descriptor_address_prefix (g_desc g) OR tx_link_address (g_tx g ch);
              wb = (chan_get g ch GDMA_V1_OUT_CONF0_OFF AND GDMA_V1_OUT_AUTO_WRBACK \<noteq> 0);
              owner = (chan_get g ch GDMA_V1_OUT_CONF1_OFF AND GDMA_V1_CHECK_OWNER \<noteq> 0) in
          case tx_loop GDMA_V1_DESC_LIMIT E ch wb owner n desc [] False g c of
            Inl (data, g1, c1) \<Rightarrow> (-1, data, g1, c1)
          | Inr (data, eof, g1, c1) \<Rightarrow>
              let success = (length data = n)
              in (if success then 0 else -1, data, gdma_tx_finish ch success eof g1, c1))"

text \<open>The loop of \<open>flexe_gdma_write_rx\<close>: the bytes still to write and the state.\<close>

fun rx_loop ::
  "nat \<Rightarrow> 'd host \<Rightarrow> nat \<Rightarrow> bool \<Rightarrow> u32 \<Rightarrow> u8 list \<Rightarrow> 'w flexe_gdma \<Rightarrow> 'd cpu \<Rightarrow>
     ('w flexe_gdma \<times> 'd cpu) + (u8 list \<times> 'w flexe_gdma \<times> 'd cpu)" where
  "rx_loop 0 E ch owner desc data g c = Inr (data, g, c)"
| "rx_loop (Suc k) E ch owner desc data g c =
     (if data = [] then Inr (data, g, c)
      else if desc AND 3 \<noteq> 0 \<or> \<not> gdma_ram_range_valid (mem c) desc GDMA_V1_DESC_BYTES True
      then Inl (gdma_rx_finish ch GDMA_V1_IN_DSCR_ERR_INT (rx_at ch desc g), c)
      else
        let (dw0, buffer, next_desc, c1) = gdma_fetch E c desc; sz = desc_size dw0 in
        if (owner \<and> dw0 AND GDMA_V1_DESC_OWNER = 0) \<or> sz = 0 \<or>
           \<not> gdma_ram_range_valid (mem c1) buffer sz True
        then Inl (gdma_rx_finish ch GDMA_V1_IN_DSCR_ERR_INT (rx_at ch desc g), c1)
        else
          let chunk = (if length data < sz then length data else sz);
              c2 = gdma_copy_out E c1 buffer (take chunk data);
              data1 = drop chunk data;
              g1 = gdma_rx_advance_status ch desc g;
              c3 = mem_write32 E c2 desc (desc_put_length dw0 chunk) in
          if data1 = [] then Inr (data1, g1, c3)
          else if next_desc = 0
          then Inl (gdma_rx_finish ch (GDMA_V1_IN_DONE_INT OR GDMA_V1_IN_DSCR_EMPTY_INT) g1, c3)
          else if next_desc = desc then Inl (gdma_rx_finish ch GDMA_V1_IN_DSCR_ERR_INT g1, c3)
          else rx_loop k E ch owner next_desc data1 g1 c3)"

definition flexe_gdma_write_rx ::
  "'d host \<Rightarrow> u8 \<Rightarrow> u8 list \<Rightarrow> 'w flexe_gdma \<Rightarrow> 'd cpu \<Rightarrow> int \<times> 'w flexe_gdma \<times> 'd cpu" where
  "flexe_gdma_write_rx E pid data g c =
     (case gdma_active_rx_channel g pid of
        None \<Rightarrow> (-1, g, c)
      | Some ch \<Rightarrow>
          let desc = gd_descriptor_address_prefix (g_desc g) OR rx_link_address (g_rx g ch);
              owner = (chan_get g ch GDMA_V1_IN_CONF1_OFF AND GDMA_V1_CHECK_OWNER \<noteq> 0) in
          case rx_loop GDMA_V1_DESC_LIMIT E ch owner desc data g c of
            Inl (g1, c1) \<Rightarrow> (-1, g1, c1)
          | Inr (rest, g1, c1) \<Rightarrow>
              let success = (rest = [])
              in (if success then 0 else -1,
                  gdma_rx_finish ch (if success then GDMA_V1_IN_DONE_INT OR GDMA_V1_IN_SUC_EOF_INT
                                     else GDMA_V1_IN_DSCR_ERR_INT) g1, c1))"

section \<open>Streams\<close>

definition rx_stream_desc :: "'w flexe_gdma \<Rightarrow> nat \<Rightarrow> u32" where
  "rx_stream_desc g ch =
     (if rx_next_desc (g_rx g ch) \<noteq> 0 then rx_next_desc (g_rx g ch)
      else gd_descriptor_address_prefix (g_desc g) OR rx_link_address (g_rx g ch))"

definition tx_stream_desc :: "'w flexe_gdma \<Rightarrow> nat \<Rightarrow> u32" where
  "tx_stream_desc g ch =
     (if tx_next_desc (g_tx g ch) \<noteq> 0 then tx_next_desc (g_tx g ch)
      else gd_descriptor_address_prefix (g_desc g) OR tx_link_address (g_tx g ch))"

text \<open>The pending length, when the call returns true; the read of the control word goes over
  the bus.\<close>

definition flexe_gdma_pending_length ::
  "'d host \<Rightarrow> u8 \<Rightarrow> bool \<Rightarrow> 'w flexe_gdma \<Rightarrow> 'd cpu \<Rightarrow> nat option \<times> 'd cpu" where
  "flexe_gdma_pending_length E pid receive g c =
     (case (if receive then gdma_active_rx_channel g pid else gdma_active_tx_channel g pid) of
        None \<Rightarrow> (None, c)
      | Some ch \<Rightarrow>
          let desc = (if receive then rx_stream_desc g ch else tx_stream_desc g ch) in
          if desc AND 3 \<noteq> 0 \<or> \<not> gdma_ram_range_valid (mem c) desc GDMA_V1_DESC_BYTES False
          then (None, c)
          else let (control, c1) = mem_read32 E c desc;
                   n = (if receive then desc_size control else desc_valid control)
               in (if n = 0 then None else Some n, c1))"

definition flexe_gdma_read_tx_descriptor ::
  "'d host \<Rightarrow> u8 \<Rightarrow> nat \<Rightarrow> 'w flexe_gdma \<Rightarrow> 'd cpu \<Rightarrow>
     (u8 list \<times> flexe_gdma_descriptor) option \<times> 'w flexe_gdma \<times> 'd cpu" where
  "flexe_gdma_read_tx_descriptor E pid capacity g c =
     (case gdma_active_tx_channel g pid of
        None \<Rightarrow> (None, g, c)
      | Some ch \<Rightarrow>
          let desc = tx_stream_desc g ch;
              wb = (chan_get g ch GDMA_V1_OUT_CONF0_OFF AND GDMA_V1_OUT_AUTO_WRBACK \<noteq> 0);
              owner = (chan_get g ch GDMA_V1_OUT_CONF1_OFF AND GDMA_V1_CHECK_OWNER \<noteq> 0) in
          if desc AND 3 \<noteq> 0 \<or> \<not> gdma_ram_range_valid (mem c) desc GDMA_V1_DESC_BYTES wb
          then (None, gdma_tx_finish ch False False (tx_at ch desc g), c)
          else
            let (control, buffer, next_desc, c1) = gdma_fetch E c desc;
                valid = desc_valid control; eof = (control AND GDMA_V1_DESC_EOF \<noteq> 0) in
            if (owner \<and> control AND GDMA_V1_DESC_OWNER = 0) \<or> valid = 0 \<or>
               desc_size control < valid \<or> capacity < valid \<or>
               \<not> gdma_ram_range_valid (mem c1) buffer valid False
            then (None, gdma_tx_finish ch False False (tx_at ch desc g), c1)
            else
              let (bs, c2) = gdma_copy_in E c1 buffer valid;
                  g1 = gdma_tx_advance_status ch desc g;
                  c3 = (if wb then mem_write32 E c2 desc (control AND NOT GDMA_V1_DESC_OWNER) else c2);
                  g2 = chan_put ch GDMA_V1_OUT_INT_RAW_OFF
                         (chan_get g1 ch GDMA_V1_OUT_INT_RAW_OFF OR GDMA_V1_OUT_DONE_INT OR
                          (if eof then GDMA_V1_OUT_EOF_INT else 0) OR
                          (if next_desc = 0 then GDMA_V1_OUT_TOTAL_EOF_INT else 0)) g1;
                  g3 = (if eof
                        then chan_put ch GDMA_V1_OUT_EOF_PREV_OFF (tx_previous_desc (g_tx g2 ch))
                               (chan_put ch GDMA_V1_OUT_EOF_DESC_OFF desc g2)
                        else g2);
                  tx = (g_tx g3 ch)\<lparr>tx_next_desc := next_desc\<rparr>;
                  g4 = (if next_desc = 0
                        then let tx1 = tx\<lparr>tx_active := False\<rparr>
                             in chan_put ch GDMA_V1_OUT_LINK_OFF (tx_link_parked tx1) (put_tx ch tx1 g3)
                        else put_tx ch tx g3)
              in (Some (bs, \<lparr>dd_descriptor_address = desc, dd_buffer_address = buffer,
                             dd_length = valid, dd_eof = eof, dd_chain_complete = (next_desc = 0)\<rparr>),
                  gdma_update_irq ch False g4, c3))"

definition flexe_gdma_write_rx_descriptor_eof ::
  "'d host \<Rightarrow> u8 \<Rightarrow> u8 list \<Rightarrow> bool \<Rightarrow> 'w flexe_gdma \<Rightarrow> 'd cpu \<Rightarrow>
     flexe_gdma_descriptor option \<times> 'w flexe_gdma \<times> 'd cpu" where
  "flexe_gdma_write_rx_descriptor_eof E pid data peripheral_eof g c =
     (case gdma_active_rx_channel g pid of
        None \<Rightarrow> (None, g, c)
      | Some ch \<Rightarrow>
          let desc = rx_stream_desc g ch; n = length data;
              owner = (chan_get g ch GDMA_V1_IN_CONF1_OFF AND GDMA_V1_CHECK_OWNER \<noteq> 0) in
          if desc AND 3 \<noteq> 0 \<or> \<not> gdma_ram_range_valid (mem c) desc GDMA_V1_DESC_BYTES True
          then (None, gdma_rx_finish ch GDMA_V1_IN_DSCR_ERR_INT (rx_at ch desc g), c)
          else
            let (control, buffer, next_desc, c1) = gdma_fetch E c desc in
            if (owner \<and> control AND GDMA_V1_DESC_OWNER = 0) \<or> n = 0 \<or> desc_size control < n \<or>
               \<not> gdma_ram_range_valid (mem c1) buffer n True
            then (None, gdma_rx_finish ch GDMA_V1_IN_DSCR_ERR_INT (rx_at ch desc g), c1)
            else
              let c2 = gdma_copy_out E c1 buffer data;
                  g1 = gdma_rx_advance_status ch desc g;
                  c3 = mem_write32 E c2 desc (desc_put_length control n);
                  g2 = chan_put ch GDMA_V1_IN_INT_RAW_OFF
                         (chan_get g1 ch GDMA_V1_IN_INT_RAW_OFF OR GDMA_V1_IN_DONE_INT OR
                          (if peripheral_eof then GDMA_V1_IN_SUC_EOF_INT else 0)) g1;
                  g3 = (if peripheral_eof then chan_put ch GDMA_V1_IN_SUC_EOF_DESC_OFF desc g2 else g2);
                  rx = (g_rx g3 ch)\<lparr>rx_next_desc := next_desc\<rparr>;
                  g4 = (if next_desc = 0
                        then let rx1 = rx\<lparr>rx_active := False\<rparr>
                             in chan_put ch GDMA_V1_IN_LINK_OFF (rx_link_parked rx1) (put_rx ch rx1 g3)
                        else put_rx ch rx g3)
              in (Some \<lparr>dd_descriptor_address = desc, dd_buffer_address = buffer, dd_length = n,
                        dd_eof = peripheral_eof, dd_chain_complete = (next_desc = 0)\<rparr>,
                  gdma_update_irq ch True g4, c3))"

definition flexe_gdma_write_rx_descriptor ::
  "'d host \<Rightarrow> u8 \<Rightarrow> u8 list \<Rightarrow> 'w flexe_gdma \<Rightarrow> 'd cpu \<Rightarrow>
     flexe_gdma_descriptor option \<times> 'w flexe_gdma \<times> 'd cpu" where
  "flexe_gdma_write_rx_descriptor E pid data g c =
     flexe_gdma_write_rx_descriptor_eof E pid data True g c"

section \<open>Life cycle\<close>

text \<open>The register page is registered under the handler numbers of the read and write functions.\<close>

definition gdma_zero ::
  "flexe_gdma_desc \<Rightarrow> (u32 \<Rightarrow> 'w \<Rightarrow> u32 \<times> 'w) option \<Rightarrow> (u32 \<Rightarrow> u32 \<Rightarrow> 'w \<Rightarrow> 'w) option \<Rightarrow>
     (nat \<Rightarrow> bool \<Rightarrow> bool \<Rightarrow> 'w \<Rightarrow> 'w) option \<Rightarrow> 'w \<Rightarrow> 'w flexe_gdma" where
  "gdma_zero d fb_read fb_write irq w =
     \<lparr>g_desc = d, g_fallback_read = fb_read, g_fallback_write = fb_write, g_irq_changed = irq,
      g_activity_changed = None, g_rx_irq_level = (\<lambda>_. False), g_tx_irq_level = (\<lambda>_. False),
      g_regs = replicate (unat (gd_register_size d) div 4) 0,
      g_rx = (\<lambda>_. \<lparr>rx_link_address = 0, rx_next_desc = 0, rx_current_desc = 0,
                  rx_previous_desc = 0, rx_auto_return = False, rx_active = False\<rparr>),
      g_tx = (\<lambda>_. \<lparr>tx_link_address = 0, tx_next_desc = 0, tx_current_desc = 0,
                  tx_previous_desc = 0, tx_active = False\<rparr>),
      g_world = w\<rparr>"

definition gdma_power_on :: "'w flexe_gdma \<Rightarrow> 'w flexe_gdma" where
  "gdma_power_on g =
     fold (\<lambda>ch g. gdma_tx_power_on_reset ch (gdma_rx_power_on_reset ch g))
       [0 ..< unat (gd_channel_count (g_desc g))] g"

definition flexe_gdma_create ::
  "periph_target \<Rightarrow> flexe_gdma_desc \<Rightarrow> xmem \<Rightarrow> nat \<Rightarrow> nat \<Rightarrow> nat \<Rightarrow>
     (u32 \<Rightarrow> 'w \<Rightarrow> u32 \<times> 'w) option \<Rightarrow> (u32 \<Rightarrow> u32 \<Rightarrow> 'w \<Rightarrow> 'w) option \<Rightarrow>
     (nat \<Rightarrow> bool \<Rightarrow> bool \<Rightarrow> 'w \<Rightarrow> 'w) option \<Rightarrow> 'w \<Rightarrow> ('w flexe_gdma \<times> xmem) option" where
  "flexe_gdma_create t d m read_fn write_fn ctx fb_read fb_write irq w =
     (if \<not> gdma_geometry_valid t d then None
      else let g = gdma_power_on (gdma_zero d fb_read fb_write irq w) in
        case mem_register_mmio_range m (gd_base d) (gd_register_size d)
               (Some read_fn) (Some write_fn) ctx of
          (r, m1) \<Rightarrow> if r \<noteq> 0 then None else Some (g, m1))"

definition flexe_gdma_set_activity_handler ::
  "('w \<Rightarrow> 'w) option \<Rightarrow> 'w flexe_gdma \<Rightarrow> 'w flexe_gdma" where
  "flexe_gdma_set_activity_handler f g = g\<lparr>g_activity_changed := f\<rparr>"

definition drop_level :: "nat \<Rightarrow> 'w flexe_gdma \<Rightarrow> 'w flexe_gdma" where
  "drop_level ch g =
     (let drop = (\<lambda>on receive. g_notify (if on then map_option (\<lambda>f. f ch receive False) (g_irq_changed g)
                                          else None))
      in drop (g_tx_irq_level g ch) False (drop (g_rx_irq_level g ch) True g))"

text \<open>Destruction: the levels still high go low and the page returns to its former handlers.\<close>

definition flexe_gdma_destroy ::
  "nat option \<Rightarrow> nat option \<Rightarrow> nat \<Rightarrow> 'w flexe_gdma \<Rightarrow> xmem \<Rightarrow> 'w \<times> xmem" where
  "flexe_gdma_destroy fb_read fb_write ctx g m =
     (g_world (fold drop_level [0 ..< unat (gd_channel_count (g_desc g))] g),
      snd (mem_register_mmio_range m (gd_base (g_desc g)) (gd_register_size (g_desc g)) fb_read fb_write ctx))"

text \<open>The interrupt callback the peripheral fabric installs.\<close>

definition gdma_irq_changed ::
  "'d periph_env \<Rightarrow> flexe_gdma_desc \<Rightarrow> nat \<Rightarrow> bool \<Rightarrow> bool \<Rightarrow> 'd periph \<Rightarrow> 'd periph" where
  "gdma_irq_changed D d ch receive level p =
     (if unat (gd_channel_count d) \<le> ch then p
      else let source = uint (if receive then gd_rx_interrupt_source d ch
                              else gd_tx_interrupt_source d ch)
           in if level then periph_assert_interrupt D p source
              else periph_deassert_interrupt D p source)"

definition esp32s3_gdma :: flexe_gdma_desc where
  "esp32s3_gdma =
     \<lparr>gd_base = 0x6003F000, gd_register_size = 0x1000, gd_channel_stride = 0xC0,
      gd_descriptor_address_prefix = 0x3FC00000, gd_channel_count = 5,
      gd_rx_interrupt_source = (\<lambda>k. of_nat (66 + k)),
      gd_tx_interrupt_source = (\<lambda>k. of_nat (71 + k))\<rparr>"

end
