(* ===== verification/Gdma_Facts.thy ===== *)
theory Gdma_Facts
  imports Gdma Intr_Matrix_Facts
begin

text \<open>
  The interrupt outputs of the DMA controller. The register bank is first reduced to independent
  cells per channel; the locale \<open>interrupt_sink\<close> states what a device expects of the interrupt
  fabric, every operation of the controller is proved inside it to keep the levels it drives
  equal to raw status and enable, and the interrupt matrix interprets it.
\<close>

section \<open>The register bank\<close>

text \<open>What the geometry check gives, and the place of the controller-wide register behind the
  channels, which the check does not ask for.\<close>

definition gdma_ok :: "'w flexe_gdma \<Rightarrow> bool" where
  "gdma_ok g \<longleftrightarrow>
     (let d = g_desc g; n = unat (gd_channel_count d); st = unat (gd_channel_stride d) in
      unat (gd_base d) + unat (gd_register_size d) < 2 ^ 32 \<and> 4 dvd unat (gd_base d) \<and>
      0xAC \<le> st \<and> 4 dvd st \<and> 0 < n \<and> (n - 1) * st + 0xAC \<le> unat (gd_register_size d) \<and>
      n * st \<le> 0x3C8 \<and> 4 dvd unat (gd_register_size d) \<and> length (g_regs g) = unat (gd_register_size d) div 4)"

definition chans :: "'w flexe_gdma \<Rightarrow> nat" where
  "chans g = unat (gd_channel_count (g_desc g))"

lemma and_3_iff: "(w :: u32) AND 3 = 0 \<longleftrightarrow> 4 dvd unat w"
proof -
  have "unat (w AND 3) = unat w mod 4"
    using and_mask_mod [of w 2] by (simp add: mask_eq_exp_minus_1)
  then show ?thesis by (metis dvd_eq_mod_eq_0 unsigned_0 unat_eq_zero)
qed

lemma unat_add3:
  assumes "unat (a :: u32) + n + unat b < 2 ^ 32" "m = of_nat n"
  shows "unat (a + m + b) = unat a + n + unat b"
  using assms by (simp add: unat_word_ariths take_bit_eq_mod unsigned_of_nat mod_add_left_eq mod_add_right_eq)

lemma gdma_okD:
  assumes "gdma_ok g"
  shows "unat (gd_base (g_desc g)) + unat (gd_register_size (g_desc g)) < 2 ^ 32"
    "4 dvd unat (gd_base (g_desc g))" "0xAC \<le> unat (gd_channel_stride (g_desc g))"
    "4 dvd unat (gd_channel_stride (g_desc g))"
    "(chans g - 1) * unat (gd_channel_stride (g_desc g)) + 0xAC \<le> unat (gd_register_size (g_desc g))"
    "chans g * unat (gd_channel_stride (g_desc g)) \<le> 0x3C8"
    "length (g_regs g) = unat (gd_register_size (g_desc g)) div 4"
    "4 dvd unat (gd_register_size (g_desc g))"
  using assms by (simp_all add: gdma_ok_def Let_def chans_def)

definition chan_pos :: "'w flexe_gdma \<Rightarrow> nat \<Rightarrow> u32 \<Rightarrow> nat" where
  "chan_pos g ch off = ch * unat (gd_channel_stride (g_desc g)) + unat off"

lemma unat_channel_addr:
  assumes "gdma_ok g" "chan_pos g ch off < unat (gd_register_size (g_desc g))"
  shows "unat (gdma_channel_addr g ch off) = unat (gd_base (g_desc g)) + chan_pos g ch off"
proof -
  have "unat (gd_base (g_desc g)) + ch * unat (gd_channel_stride (g_desc g)) + unat off < 2 ^ 32"
    using gdma_okD(1) [OF assms(1)] assms(2) by (simp add: chan_pos_def)
  then show ?thesis
    unfolding gdma_channel_addr_def
    by (subst unat_add3 [where n = "ch * unat (gd_channel_stride (g_desc g))"]) (simp_all add: chan_pos_def)
qed

lemma gdma_reg_channel:
  assumes "gdma_ok g" "chan_pos g ch off < unat (gd_register_size (g_desc g))" "4 dvd unat off"
  shows "gdma_reg g (gdma_channel_addr g ch off) = Some (chan_pos g ch off div 4)"
proof -
  let ?d = "g_desc g" and ?a = "gdma_channel_addr g ch off"
  have a: "unat ?a = unat (gd_base ?d) + chan_pos g ch off"
    by (rule unat_channel_addr [OF assms(1,2)])
  have top: "unat (gd_base ?d + gd_register_size ?d) = unat (gd_base ?d) + unat (gd_register_size ?d)"
    using gdma_okD(1) [OF assms(1)] by (simp add: unat_plus_simple unat_word_ariths take_bit_eq_mod)
  have "4 dvd unat ?a"
    using gdma_okD(2,4) [OF assms(1)] assms(3) by (simp add: a chan_pos_def)
  moreover have "\<not> ?a < gd_base ?d" "\<not> gd_base ?d + gd_register_size ?d \<le> ?a"
    using a top assms(2) by (simp_all add: word_less_nat_alt word_le_nat_alt)
  moreover have "unat (?a - gd_base ?d) = chan_pos g ch off"
    using a by (simp add: unat_sub word_le_nat_alt)
  ultimately show ?thesis
    by (simp add: gdma_reg_def Let_def and_3_iff)
qed

text \<open>The offsets of the registers the code names.\<close>

definition named_off :: "u32 \<Rightarrow> bool" where
  "named_off off \<longleftrightarrow> off < 0xAC \<and> off AND 3 = 0"

lemma named_off_unat: "named_off off \<Longrightarrow> unat off < 0xAC \<and> 4 dvd unat off"
  by (simp add: named_off_def and_3_iff word_less_nat_alt)

lemma named_pos:
  assumes "gdma_ok g" "ch < chans g" "named_off off"
  shows "chan_pos g ch off < unat (gd_register_size (g_desc g))"
proof -
  have "ch * unat (gd_channel_stride (g_desc g)) \<le> (chans g - 1) * unat (gd_channel_stride (g_desc g))"
    using assms(2) by (intro mult_le_mono1) simp
  then show ?thesis
    using gdma_okD(5) [OF assms(1)] named_off_unat [OF assms(3)] unfolding chan_pos_def by linarith
qed

lemma chan_pos_inj:
  assumes "gdma_ok g" "unat off < unat (gd_channel_stride (g_desc g))"
    "unat off' < unat (gd_channel_stride (g_desc g))" "4 dvd unat off" "4 dvd unat off'"
    "chan_pos g ch off div 4 = chan_pos g ch' off' div 4"
  shows "ch = ch' \<and> off = off'"
proof -
  let ?st = "unat (gd_channel_stride (g_desc g))"
  have "4 dvd chan_pos g ch off" "4 dvd chan_pos g ch' off'"
    using gdma_okD(4) [OF assms(1)] assms(4,5) by (simp_all add: chan_pos_def)
  then have e: "ch * ?st + unat off = ch' * ?st + unat off'"
    using assms(6) by (auto simp: chan_pos_def elim!: dvdE)
  then have "(ch * ?st + unat off) div ?st = (ch' * ?st + unat off') div ?st" by simp
  then have "ch = ch'" using assms(2,3) by simp
  with e show ?thesis by (simp add: word_unat_eq_iff)
qed

lemma reg_put_frame [simp]:
  "g_desc (reg_put a v g) = g_desc g" "g_rx_irq_level (reg_put a v g) = g_rx_irq_level g"
  "g_tx_irq_level (reg_put a v g) = g_tx_irq_level g" "g_world (reg_put a v g) = g_world g"
  "g_irq_changed (reg_put a v g) = g_irq_changed g" "g_activity_changed (reg_put a v g) = g_activity_changed g"
  "g_fallback_write (reg_put a v g) = g_fallback_write g" "g_rx (reg_put a v g) = g_rx g"
  "g_tx (reg_put a v g) = g_tx g" "g_fallback_read (reg_put a v g) = g_fallback_read g"
  "length (g_regs (reg_put a v g)) = length (g_regs g)"
  by (simp_all add: reg_put_def split: option.split)

lemma chan_put_frame [simp]:
  "g_desc (chan_put ch a v g) = g_desc g" "g_rx_irq_level (chan_put ch a v g) = g_rx_irq_level g"
  "g_tx_irq_level (chan_put ch a v g) = g_tx_irq_level g" "g_world (chan_put ch a v g) = g_world g"
  "g_irq_changed (chan_put ch a v g) = g_irq_changed g"
  "g_activity_changed (chan_put ch a v g) = g_activity_changed g"
  "g_fallback_write (chan_put ch a v g) = g_fallback_write g" "g_rx (chan_put ch a v g) = g_rx g"
  "g_tx (chan_put ch a v g) = g_tx g" "g_fallback_read (chan_put ch a v g) = g_fallback_read g"
  "length (g_regs (chan_put ch a v g)) = length (g_regs g)"
  by (simp_all add: chan_put_def)

lemma chan_get_put:
  assumes ok: "gdma_ok g" and ch: "ch < chans g" "ch' < chans g"
    and off: "named_off off'" "unat off < unat (gd_channel_stride (g_desc g))" "4 dvd unat off"
    and pos: "chan_pos g ch off < unat (gd_register_size (g_desc g))"
  shows "chan_get (chan_put ch off v g) ch' off' =
           (if ch' = ch \<and> off' = off then v else chan_get g ch' off')"
proof -
  let ?i = "chan_pos g ch off div 4" and ?j = "chan_pos g ch' off' div 4"
  have i: "gdma_reg g (gdma_channel_addr g ch off) = Some ?i"
    by (rule gdma_reg_channel [OF ok pos off(3)])
  have j: "gdma_reg g (gdma_channel_addr g ch' off') = Some ?j"
    using gdma_reg_channel [OF ok named_pos [OF ok ch(2) off(1)]] named_off_unat [OF off(1)] by simp
  have put: "chan_put ch off v g = g\<lparr>g_regs := (g_regs g)[?i := v]\<rparr>"
    by (simp add: chan_put_def reg_put_def i)
  have "?i < length (g_regs g)"
    using pos gdma_okD(7,8) [OF ok] by (simp add: less_mult_imp_div_less)
  moreover have "?j = ?i \<longleftrightarrow> ch' = ch \<and> off' = off"
    using chan_pos_inj [OF ok _ off(2) _ off(3), of off' ch' ch] named_off_unat [OF off(1)]
      gdma_okD(3) [OF ok] by auto
  moreover have "gdma_reg (g\<lparr>g_regs := r\<rparr>) a = gdma_reg g a" "gdma_channel_addr (g\<lparr>g_regs := r\<rparr>) = gdma_channel_addr g" for r a
    by (simp_all add: gdma_reg_def gdma_channel_addr_def fun_eq_iff)
  ultimately show ?thesis
    by (auto simp: chan_get_def reg_get_def put j)
qed

section \<open>Interrupt levels\<close>

definition raw_off :: "bool \<Rightarrow> u32" where
  "raw_off receive = (if receive then GDMA_V1_IN_INT_RAW_OFF else GDMA_V1_OUT_INT_RAW_OFF)"

definition ena_off :: "bool \<Rightarrow> u32" where
  "ena_off receive = (if receive then GDMA_V1_IN_INT_ENA_OFF else GDMA_V1_OUT_INT_ENA_OFF)"

definition irq_level :: "'w flexe_gdma \<Rightarrow> nat \<Rightarrow> bool \<Rightarrow> bool" where
  "irq_level g ch receive = (if receive then g_rx_irq_level g ch else g_tx_irq_level g ch)"

definition gdma_source :: "flexe_gdma_desc \<Rightarrow> nat \<Rightarrow> bool \<Rightarrow> nat" where
  "gdma_source d ch receive =
     unat (if receive then gd_rx_interrupt_source d ch else gd_tx_interrupt_source d ch)"

text \<open>Two states agree on everything the interrupt levels depend on, except the raw and enable
  registers of the halves in \<open>X\<close>.\<close>

definition same_irq :: "(nat \<times> bool) set \<Rightarrow> 'w flexe_gdma \<Rightarrow> 'w flexe_gdma \<Rightarrow> bool" where
  "same_irq X g g' \<longleftrightarrow>
     gdma_ok g \<and> gdma_ok g' \<and> g_desc g' = g_desc g \<and> g_world g' = g_world g \<and>
     g_irq_changed g' = g_irq_changed g \<and> g_activity_changed g' = g_activity_changed g \<and>
     g_fallback_write g' = g_fallback_write g \<and> g_fallback_read g' = g_fallback_read g \<and>
     irq_level g' = irq_level g \<and>
     (\<forall>ch < chans g. \<forall>r. (ch, r) \<notin> X \<longrightarrow>
        chan_get g' ch (raw_off r) = chan_get g ch (raw_off r) \<and>
        chan_get g' ch (ena_off r) = chan_get g ch (ena_off r))"

lemma named_offs [simp]:
  "named_off (raw_off r)" "named_off (ena_off r)"
  by (simp_all add: named_off_def raw_off_def ena_off_def gdma_offsets)

lemma raw_ena_offs [simp]:
  "raw_off r = raw_off r' \<longleftrightarrow> r = r'" "ena_off r = ena_off r' \<longleftrightarrow> r = r'"
  "raw_off r \<noteq> ena_off r'" "ena_off r \<noteq> raw_off r'"
  by (auto simp: raw_off_def ena_off_def gdma_offsets)

lemma same_irq_refl: "gdma_ok g \<Longrightarrow> same_irq X g g"
  by (simp add: same_irq_def)

lemma gdma_ok_put [simp]:
  "gdma_ok (chan_put ch off v g) = gdma_ok g" "gdma_ok (reg_put a v g) = gdma_ok g"
  by (simp_all add: gdma_ok_def)

lemma chan_get_cong:
  "g_desc g' = g_desc g \<Longrightarrow> g_regs g' = g_regs g \<Longrightarrow> chan_get g' = chan_get g"
  by (simp add: fun_eq_iff chan_get_def reg_get_def gdma_reg_def gdma_channel_addr_def Let_def split: option.split)

lemma put_channel_frame [simp]:
  "g_desc (put_rx ch x g) = g_desc g" "g_desc (put_tx ch y g) = g_desc g"
  "g_regs (put_rx ch x g) = g_regs g" "g_regs (put_tx ch y g) = g_regs g"
  "g_world (put_rx ch x g) = g_world g" "g_world (put_tx ch y g) = g_world g"
  "g_irq_changed (put_rx ch x g) = g_irq_changed g" "g_irq_changed (put_tx ch y g) = g_irq_changed g"
  "g_activity_changed (put_rx ch x g) = g_activity_changed g"
  "g_activity_changed (put_tx ch y g) = g_activity_changed g"
  "g_fallback_write (put_rx ch x g) = g_fallback_write g"
  "g_fallback_write (put_tx ch y g) = g_fallback_write g"
  "g_fallback_read (put_rx ch x g) = g_fallback_read g"
  "g_fallback_read (put_tx ch y g) = g_fallback_read g"
  "irq_level (put_rx ch x g) = irq_level g" "irq_level (put_tx ch y g) = irq_level g"
  by (simp_all add: put_rx_def put_tx_def fun_eq_iff irq_level_def)

lemma irq_level_put [simp]:
  "irq_level (chan_put ch off v g) = irq_level g" "irq_level (reg_put a v g) = irq_level g"
  by (simp_all add: fun_eq_iff irq_level_def)

lemma same_irq_put_rx: "same_irq X g g' \<Longrightarrow> same_irq X g (put_rx ch x g')"
  by (simp add: same_irq_def gdma_ok_def Let_def chan_get_cong [of "put_rx ch x g'" g'])

lemma same_irq_put_tx: "same_irq X g g' \<Longrightarrow> same_irq X g (put_tx ch x g')"
  by (simp add: same_irq_def gdma_ok_def Let_def chan_get_cong [of "put_tx ch x g'" g'])

lemma same_irq_chan_put_gen:
  assumes "same_irq X g g'" "ch < chans g" "unat off < unat (gd_channel_stride (g_desc g))" "4 dvd unat off"
    "chan_pos g ch off < unat (gd_register_size (g_desc g))"
    "\<And>r. (ch, r) \<notin> X \<Longrightarrow> off \<noteq> raw_off r \<and> off \<noteq> ena_off r"
  shows "same_irq X g (chan_put ch off v g')"
proof -
  have d: "g_desc g' = g_desc g" and ok: "gdma_ok g'" using assms(1) by (simp_all add: same_irq_def)
  then have "chans g' = chans g" "chan_pos g' ch off = chan_pos g ch off"
    by (simp_all add: chans_def chan_pos_def)
  then have "chan_get (chan_put ch off v g') k o' = (if k = ch \<and> o' = off then v else chan_get g' k o')"
    if "k < chans g" "named_off o'" for k o'
    using chan_get_put [OF ok, of ch k o' off v] assms(2-5) that d by simp
  then show ?thesis using assms(1,6) by (auto simp: same_irq_def)
qed

lemma same_irq_chan_put:
  assumes "same_irq X g g'" "ch < chans g" "named_off off"
    "\<And>r. (ch, r) \<notin> X \<Longrightarrow> off \<noteq> raw_off r \<and> off \<noteq> ena_off r"
  shows "same_irq X g (chan_put ch off v g')"
proof -
  have ok: "gdma_ok g" using assms(1) by (simp add: same_irq_def)
  show ?thesis
    using same_irq_chan_put_gen [OF assms(1,2) _ _ named_pos [OF ok assms(2,3)] assms(4)]
      named_off_unat [OF assms(3)] gdma_okD(3) [OF ok] by simp
qed

lemmas same_irq_intros = same_irq_refl same_irq_put_rx same_irq_put_tx same_irq_chan_put

lemma named_off_simps [simp]:
  "named_off GDMA_V1_IN_CONF1_OFF" "named_off GDMA_V1_IN_LINK_OFF" "named_off GDMA_V1_IN_STATE_OFF"
  "named_off GDMA_V1_IN_SUC_EOF_DESC_OFF" "named_off GDMA_V1_IN_ERR_EOF_DESC_OFF"
  "named_off GDMA_V1_IN_DESC_OFF" "named_off GDMA_V1_IN_DESC_PREV_OFF"
  "named_off GDMA_V1_IN_DESC_PREV2_OFF" "named_off GDMA_V1_IN_PERI_SEL_OFF"
  "named_off GDMA_V1_OUT_LINK_OFF" "named_off GDMA_V1_OUT_STATE_OFF"
  "named_off GDMA_V1_OUT_EOF_DESC_OFF" "named_off GDMA_V1_OUT_EOF_PREV_OFF"
  "named_off GDMA_V1_OUT_DESC_OFF" "named_off GDMA_V1_OUT_DESC_PREV_OFF"
  "named_off GDMA_V1_OUT_DESC_PREV2_OFF" "named_off GDMA_V1_OUT_PERI_SEL_OFF"
  by (simp_all add: named_off_def gdma_offsets)

lemma status_offs [simp]:
  "GDMA_V1_IN_CONF1_OFF \<noteq> raw_off r" "GDMA_V1_IN_CONF1_OFF \<noteq> ena_off r"
  "GDMA_V1_IN_LINK_OFF \<noteq> raw_off r" "GDMA_V1_IN_LINK_OFF \<noteq> ena_off r"
  "GDMA_V1_IN_STATE_OFF \<noteq> raw_off r" "GDMA_V1_IN_STATE_OFF \<noteq> ena_off r"
  "GDMA_V1_IN_SUC_EOF_DESC_OFF \<noteq> raw_off r" "GDMA_V1_IN_SUC_EOF_DESC_OFF \<noteq> ena_off r"
  "GDMA_V1_IN_ERR_EOF_DESC_OFF \<noteq> raw_off r" "GDMA_V1_IN_ERR_EOF_DESC_OFF \<noteq> ena_off r"
  "GDMA_V1_IN_DESC_OFF \<noteq> raw_off r" "GDMA_V1_IN_DESC_OFF \<noteq> ena_off r"
  "GDMA_V1_IN_DESC_PREV_OFF \<noteq> raw_off r" "GDMA_V1_IN_DESC_PREV_OFF \<noteq> ena_off r"
  "GDMA_V1_IN_DESC_PREV2_OFF \<noteq> raw_off r" "GDMA_V1_IN_DESC_PREV2_OFF \<noteq> ena_off r"
  "GDMA_V1_IN_PERI_SEL_OFF \<noteq> raw_off r" "GDMA_V1_IN_PERI_SEL_OFF \<noteq> ena_off r"
  "GDMA_V1_OUT_LINK_OFF \<noteq> raw_off r" "GDMA_V1_OUT_LINK_OFF \<noteq> ena_off r"
  "GDMA_V1_OUT_STATE_OFF \<noteq> raw_off r" "GDMA_V1_OUT_STATE_OFF \<noteq> ena_off r"
  "GDMA_V1_OUT_EOF_DESC_OFF \<noteq> raw_off r" "GDMA_V1_OUT_EOF_DESC_OFF \<noteq> ena_off r"
  "GDMA_V1_OUT_EOF_PREV_OFF \<noteq> raw_off r" "GDMA_V1_OUT_EOF_PREV_OFF \<noteq> ena_off r"
  "GDMA_V1_OUT_DESC_OFF \<noteq> raw_off r" "GDMA_V1_OUT_DESC_OFF \<noteq> ena_off r"
  "GDMA_V1_OUT_DESC_PREV_OFF \<noteq> raw_off r" "GDMA_V1_OUT_DESC_PREV_OFF \<noteq> ena_off r"
  "GDMA_V1_OUT_DESC_PREV2_OFF \<noteq> raw_off r" "GDMA_V1_OUT_DESC_PREV2_OFF \<noteq> ena_off r"
  "GDMA_V1_OUT_PERI_SEL_OFF \<noteq> raw_off r" "GDMA_V1_OUT_PERI_SEL_OFF \<noteq> ena_off r"
  by (auto simp: raw_off_def ena_off_def gdma_offsets)

lemma in_raw_ena:
  "GDMA_V1_IN_INT_RAW_OFF = raw_off True" "GDMA_V1_OUT_INT_RAW_OFF = raw_off False"
  "GDMA_V1_IN_INT_ENA_OFF = ena_off True" "GDMA_V1_OUT_INT_ENA_OFF = ena_off False"
  by (simp_all add: raw_off_def ena_off_def)

text \<open>The status updates of the channels leave the interrupt registers alone.\<close>

lemma same_irq_rx_reset:
  "same_irq X g g' \<Longrightarrow> ch < chans g \<Longrightarrow> same_irq X g (gdma_rx_reset_fsm ch g')"
  by (simp add: gdma_rx_reset_fsm_def Let_def same_irq_intros)

lemma same_irq_tx_reset:
  "same_irq X g g' \<Longrightarrow> ch < chans g \<Longrightarrow> same_irq X g (gdma_tx_reset_fsm ch g')"
  by (simp add: gdma_tx_reset_fsm_def Let_def same_irq_intros)

lemma same_irq_tx_advance:
  "same_irq X g g' \<Longrightarrow> ch < chans g \<Longrightarrow> same_irq X g (gdma_tx_advance_status ch desc g')"
  by (simp add: gdma_tx_advance_status_def Let_def same_irq_intros)

lemma same_irq_rx_advance:
  "same_irq X g g' \<Longrightarrow> ch < chans g \<Longrightarrow> same_irq X g (gdma_rx_advance_status ch desc g')"
  by (simp add: gdma_rx_advance_status_def Let_def same_irq_intros)

lemma same_irq_at:
  "same_irq X g g' \<Longrightarrow> same_irq X g (rx_at ch desc g')" "same_irq X g g' \<Longrightarrow> same_irq X g (tx_at ch desc g')"
  by (simp_all add: rx_at_def tx_at_def same_irq_intros)

lemmas same_irq_ops = same_irq_rx_reset same_irq_tx_reset same_irq_tx_advance same_irq_rx_advance
  same_irq_at same_irq_intros

section \<open>Register writes as channel writes\<close>

lemma gdma_decode:
  assumes ok: "gdma_ok g" and dec: "gdma_decode_channel g addr = Some (ch, off)"
    and reg: "gdma_reg g addr \<noteq> None"
  shows "ch < chans g" "addr = gdma_channel_addr g ch off"
    "unat off < unat (gd_channel_stride (g_desc g))" "4 dvd unat off"
    "chan_pos g ch off < unat (gd_register_size (g_desc g))"
proof -
  let ?d = "g_desc g" and ?st = "gd_channel_stride (g_desc g)" and ?o = "addr - gd_base (g_desc g)"
  have range: "\<not> addr < gd_base ?d" "\<not> gd_base ?d + gd_register_size ?d \<le> addr" "addr AND 3 = 0"
    using reg by (auto simp: gdma_reg_def Let_def split: if_splits)
  have c: "ch = unat ?o div unat ?st" "off = ?o - (?o div ?st) * ?st" "ch < chans g"
    using dec by (auto simp: gdma_decode_channel_def Let_def chans_def unat_div split: if_splits)
  have off: "off = ?o mod ?st" using c(2) by (simp add: minus_div_mult_eq_mod)
  have st: "0 < unat ?st" using gdma_okD(3) [OF ok] by simp
  show "ch < chans g" by (rule c(3))
  have "of_nat ch = ?o div ?st" by (simp add: c(1) flip: unat_div)
  then show a: "addr = gdma_channel_addr g ch off"
    by (simp add: gdma_channel_addr_def c(2))
  show "unat off < unat ?st" using st by (simp add: off unat_mod)
  have o: "unat ?o = unat addr - unat (gd_base ?d)" "unat (gd_base ?d) \<le> unat addr"
    using range(1) by (simp_all add: unat_sub word_le_nat_alt word_less_nat_alt)
  moreover have "4 dvd unat addr" using range(3) by (simp add: and_3_iff)
  ultimately have o4: "4 dvd unat ?o" using gdma_okD(2) [OF ok] by simp
  then show "4 dvd unat off"
    using gdma_okD(4) [OF ok] by (simp add: off unat_mod dvd_mod)
  have "chan_pos g ch off = unat ?o"
    by (simp add: chan_pos_def c(1) off unat_mod)
  moreover have "unat (gd_base ?d + gd_register_size ?d) = unat (gd_base ?d) + unat (gd_register_size ?d)"
    using gdma_okD(1) [OF ok] by (simp add: unat_word_ariths take_bit_eq_mod)
  ultimately show "chan_pos g ch off < unat (gd_register_size ?d)"
    using range(2) o by (simp add: word_le_nat_alt)
qed

lemma reg_put_channel:
  "g_desc g' = g_desc g \<Longrightarrow> reg_put (gdma_channel_addr g ch off) v g' = chan_put ch off v g'"
  by (simp add: chan_put_def gdma_channel_addr_def)

lemma same_irq_misc:
  assumes "gdma_ok g"
  shows "same_irq {} g (reg_put (gd_base (g_desc g) + GDMA_V1_MISC_CONF_OFF) v g)"
proof (cases "gdma_reg g (gd_base (g_desc g) + GDMA_V1_MISC_CONF_OFF)")
  case None
  then show ?thesis using assms by (simp add: reg_put_def same_irq_refl)
next
  case (Some i)
  then have i: "i = 0x3C8 div 4"
    by (auto simp: gdma_reg_def Let_def GDMA_V1_MISC_CONF_OFF_def split: if_splits)
  have "chan_get (reg_put (gd_base (g_desc g) + GDMA_V1_MISC_CONF_OFF) v g) k o' = chan_get g k o'"
    if "k < chans g" "named_off o'" for k o'
  proof -
    let ?st = "unat (gd_channel_stride (g_desc g))"
    have "gdma_reg g (gdma_channel_addr g k o') = Some (chan_pos g k o' div 4)"
      using gdma_reg_channel [OF assms named_pos [OF assms that]] named_off_unat [OF that(2)] by simp
    moreover have "(k + 1) * ?st \<le> chans g * ?st"
      using that(1) by (intro mult_le_mono1) simp
    then have "chan_pos g k o' < 0x3C8"
      using gdma_okD(3,6) [OF assms] named_off_unat [OF that(2)] unfolding chan_pos_def by simp
    then have "chan_pos g k o' div 4 \<noteq> i" by (simp add: i)
    moreover have "gdma_reg (g\<lparr>g_regs := r\<rparr>) a = gdma_reg g a"
      "gdma_channel_addr (g\<lparr>g_regs := r\<rparr>) = gdma_channel_addr g" for r a
      by (simp_all add: gdma_reg_def gdma_channel_addr_def fun_eq_iff)
    ultimately show ?thesis
      by (simp add: chan_get_def reg_get_def reg_put_def Some)
  qed
  then show ?thesis using assms by (simp add: same_irq_def)
qed

section \<open>Devices behind an interrupt sink\<close>

text \<open>
  What a device expects of the interrupt fabric: setting the level of a source sets that level
  and no other, and keeps the fabric usable.
\<close>

locale interrupt_sink =
  fixes set_level :: "'p \<Rightarrow> nat \<Rightarrow> bool \<Rightarrow> 'p"
    and level :: "'p \<Rightarrow> nat \<Rightarrow> bool"
    and good :: "'p \<Rightarrow> bool"
    and sources :: nat
  assumes level_set: "good p \<Longrightarrow> s < sources \<Longrightarrow> level (set_level p s b) s' = (if s' = s then b else level p s')"
    and good_set: "good p \<Longrightarrow> s < sources \<Longrightarrow> good (set_level p s b)"
begin

definition quiet :: "('p \<Rightarrow> 'p) \<Rightarrow> bool" where
  "quiet f \<longleftrightarrow> (\<forall>p. good p \<longrightarrow> good (f p) \<and> level (f p) = level p)"

definition distinct_sources :: "flexe_gdma_desc \<Rightarrow> bool" where
  "distinct_sources d \<longleftrightarrow>
     (\<forall>ch < unat (gd_channel_count d). \<forall>r. gdma_source d ch r < sources \<and>
        (\<forall>ch' < unat (gd_channel_count d). \<forall>r'. gdma_source d ch r = gdma_source d ch' r' \<longrightarrow>
           ch = ch' \<and> r = r'))"

definition level_callback :: "flexe_gdma_desc \<Rightarrow> nat \<Rightarrow> bool \<Rightarrow> bool \<Rightarrow> 'p \<Rightarrow> 'p" where
  "level_callback d ch r b p =
     (if unat (gd_channel_count d) \<le> ch then p else set_level p (gdma_source d ch r) b)"

definition quiet_handlers :: "'p flexe_gdma \<Rightarrow> bool" where
  "quiet_handlers g \<longleftrightarrow>
     (\<forall>f. g_activity_changed g = Some f \<longrightarrow> quiet f) \<and>
     (\<forall>f a v. g_fallback_write g = Some f \<longrightarrow> quiet (f a v)) \<and>
     (\<forall>f a. g_fallback_read g = Some f \<longrightarrow> quiet (snd \<circ> f a))"

definition wired :: "flexe_gdma_desc \<Rightarrow> 'p flexe_gdma \<Rightarrow> bool" where
  "wired d g \<longleftrightarrow>
     g_desc g = d \<and> gdma_ok g \<and> good (g_world g) \<and> g_irq_changed g = Some (level_callback d) \<and>
     distinct_sources d \<and> quiet_handlers g"

text \<open>The level of a channel half is raw and enabled, for the controller and for the fabric.\<close>

definition settled :: "flexe_gdma_desc \<Rightarrow> (nat \<times> bool) set \<Rightarrow> 'p flexe_gdma \<Rightarrow> bool" where
  "settled d X g \<longleftrightarrow>
     wired d g \<and>
     (\<forall>ch < chans g. \<forall>r. level (g_world g) (gdma_source d ch r) = irq_level g ch r \<and>
        ((ch, r) \<notin> X \<longrightarrow>
           irq_level g ch r = (chan_get g ch (raw_off r) AND chan_get g ch (ena_off r) \<noteq> 0)))"

lemma settled_same:
  assumes "settled d Y g" "same_irq X g g'" "Y \<subseteq> X"
  shows "settled d X g'"
proof -
  have d: "g_desc g' = g_desc g" "g_world g' = g_world g" "irq_level g' = irq_level g"
    and r: "\<And>ch r. ch < chans g \<Longrightarrow> (ch, r) \<notin> X \<Longrightarrow> chan_get g' ch (raw_off r) = chan_get g ch (raw_off r)"
      "\<And>ch r. ch < chans g \<Longrightarrow> (ch, r) \<notin> X \<Longrightarrow> chan_get g' ch (ena_off r) = chan_get g ch (ena_off r)"
    using assms(2) unfolding same_irq_def by blast+
  have "wired d g'"
    using assms(1,2) by (simp add: settled_def wired_def same_irq_def quiet_handlers_def)
  moreover have "chans g' = chans g" using d by (simp add: chans_def)
  ultimately show ?thesis
    using assms(1,3) d r unfolding settled_def by (metis subset_iff)
qed

lemma settled_ok: "settled d X g \<Longrightarrow> gdma_ok g"
  by (simp add: settled_def wired_def)

lemma settled_same_irq: "settled d X g \<Longrightarrow> same_irq Y g g"
  by (simp add: settled_ok same_irq_refl)

lemma settled_notify:
  assumes "settled d X g" "\<And>h. f = Some h \<Longrightarrow> quiet h"
  shows "settled d X (g_notify f g)"
proof (cases f)
  case None
  then show ?thesis using assms by (simp add: g_notify_def)
next
  case (Some h)
  then have q: "quiet h" using assms(2) by simp
  define g' where "g' = g\<lparr>g_world := h (g_world g)\<rparr>"
  have "chan_get g' = chan_get g" by (rule chan_get_cong) (simp_all add: g'_def)
  moreover have "irq_level g' = irq_level g" "chans g' = chans g" "gdma_ok g' = gdma_ok g"
    by (simp_all add: g'_def irq_level_def fun_eq_iff chans_def gdma_ok_def)
  moreover have "g_desc g' = g_desc g" "g_irq_changed g' = g_irq_changed g"
    "g_activity_changed g' = g_activity_changed g" "g_fallback_write g' = g_fallback_write g"
    "g_fallback_read g' = g_fallback_read g" "g_world g' = h (g_world g)"
    by (simp_all add: g'_def)
  moreover have "good (h (g_world g))" "level (h (g_world g)) = level (g_world g)"
    using q assms(1) by (simp_all add: quiet_def settled_def wired_def)
  ultimately have "settled d X g'"
    using assms(1) by (simp add: settled_def wired_def quiet_handlers_def)
  then show ?thesis by (simp add: g_notify_def Some g'_def)
qed

lemma settled_activity: "settled d X g \<Longrightarrow> settled d X (g_activity g)"
  unfolding g_activity_def by (rule settled_notify) (simp_all add: settled_def wired_def quiet_handlers_def)

text \<open>Recomputing the level of a half settles it.\<close>

lemma settled_update:
  assumes s: "settled d {(ch, r)} g" and ch: "ch < chans g"
  shows "settled d {} (gdma_update_irq ch r g)"
proof (cases "irq_level g ch r = (chan_get g ch (raw_off r) AND chan_get g ch (ena_off r) \<noteq> 0)")
  case True
  then have "gdma_update_irq ch r g = g"
    by (simp add: gdma_update_irq_def Let_def irq_level_def raw_off_def ena_off_def)
  then show ?thesis using s True unfolding settled_def by (metis singletonD prod.inject)
next
  case False
  have gd: "g_desc g = d" using s by (simp add: settled_def wired_def)
  let ?l = "chan_get g ch (raw_off r) AND chan_get g ch (ena_off r) \<noteq> 0"
  define g1 where "g1 = (if r then g\<lparr>g_rx_irq_level := (g_rx_irq_level g)(ch := ?l)\<rparr>
                         else g\<lparr>g_tx_irq_level := (g_tx_irq_level g)(ch := ?l)\<rparr>)"
  define g' where "g' = g1\<lparr>g_world := set_level (g_world g) (gdma_source d ch r) ?l\<rparr>"
  have get: "chan_get g' = chan_get g" by (rule chan_get_cong) (simp_all add: g'_def g1_def)
  have frame: "chans g' = chans g" "gdma_ok g' = gdma_ok g"
    "g_desc g' = d" "g_irq_changed g' = g_irq_changed g"
    "g_activity_changed g' = g_activity_changed g" "g_fallback_write g' = g_fallback_write g"
    "g_fallback_read g' = g_fallback_read g"
    "g_world g' = set_level (g_world g) (gdma_source d ch r) ?l"
    by (simp_all add: g'_def g1_def chans_def gdma_ok_def gd)
  have lev: "irq_level g' k q = (if k = ch \<and> q = r then ?l else irq_level g k q)" for k q
    by (auto simp: g'_def g1_def irq_level_def)
  have irq: "g_irq_changed g1 = Some (level_callback d)" "g_world g1 = g_world g"
    using s by (simp_all add: settled_def wired_def g1_def)
  have "gdma_update_irq ch r g = g'"
    using False irq ch
    by (cases r) (simp_all add: gdma_update_irq_def Let_def g_notify_def g'_def g1_def irq_level_def
        raw_off_def ena_off_def level_callback_def chans_def gd)
  moreover have src: "good (g_world g)" "gdma_source d ch r < sources"
    "\<And>k q. k < chans g \<Longrightarrow> gdma_source d k q = gdma_source d ch r \<longleftrightarrow> k = ch \<and> q = r"
    using s ch unfolding settled_def wired_def distinct_sources_def chans_def gd by blast+
  then have "wired d g'"
    using s by (simp add: settled_def wired_def frame good_set quiet_handlers_def)
  then have "settled d {} g'"
    using s src by (simp add: settled_def frame get lev level_set)
  ultimately show ?thesis by simp
qed

end

text \<open>Every operation of the controller keeps the levels settled.\<close>

lemma same_irq_chans: "same_irq X g g' \<Longrightarrow> chans g' = chans g"
  by (simp add: same_irq_def chans_def)

context interrupt_sink
begin

lemma settled_update_same:
  assumes "settled d {} g" "same_irq {(ch, r)} g g'" "ch < chans g"
  shows "settled d {} (gdma_update_irq ch r g')"
  using settled_update [OF settled_same [OF assms(1,2)]] same_irq_chans [OF assms(2)] assms(3) by simp

lemma settled_tx_finish:
  assumes "settled d {} g" "ch < chans g"
  shows "settled d {} (gdma_tx_finish ch success eof g)"
  unfolding gdma_tx_finish_def Let_def
  by (rule settled_update_same [OF assms(1)])
     (use assms settled_ok [OF assms(1)] in \<open>auto simp: in_raw_ena intro!: same_irq_ops\<close>)

lemma settled_rx_finish:
  assumes "settled d {} g" "ch < chans g"
  shows "settled d {} (gdma_rx_finish ch status g)"
  unfolding gdma_rx_finish_def Let_def
  by (rule settled_update_same [OF assms(1)])
     (use assms settled_ok [OF assms(1)] in \<open>auto simp: in_raw_ena intro!: same_irq_ops\<close>)

lemma settled_advance:
  assumes "settled d {} g" "ch < chans g"
  shows "settled d {} (gdma_tx_advance_status ch desc g)" "chans (gdma_tx_advance_status ch desc g) = chans g"
    "settled d {} (gdma_rx_advance_status ch desc g)" "chans (gdma_rx_advance_status ch desc g) = chans g"
    "settled d {} (rx_at ch desc g)" "chans (rx_at ch desc g) = chans g"
    "settled d {} (tx_at ch desc g)" "chans (tx_at ch desc g) = chans g"
proof -
  note same = same_irq_ops(3-6) [OF settled_same_irq [OF assms(1)]]
  show "settled d {} (gdma_tx_advance_status ch desc g)" "chans (gdma_tx_advance_status ch desc g) = chans g"
    "settled d {} (gdma_rx_advance_status ch desc g)" "chans (gdma_rx_advance_status ch desc g) = chans g"
    "settled d {} (rx_at ch desc g)" "chans (rx_at ch desc g) = chans g"
    "settled d {} (tx_at ch desc g)" "chans (tx_at ch desc g) = chans g"
    using same assms settled_same [OF assms(1)] same_irq_chans by blast+
qed

lemma settled_tx_loop:
  assumes "settled d {} g" "ch < chans g"
  shows "case tx_loop k E ch wb owner n desc data eof g c of
           Inl (data', g', c') \<Rightarrow> settled d {} g'
         | Inr (data', eof', g', c') \<Rightarrow> settled d {} g' \<and> ch < chans g'"
  using assms
proof (induction k E ch wb owner n desc data eof g c rule: tx_loop.induct)
  case (2 k E ch wb owner n desc data eof g c)
  then show ?case
    by (auto simp: Let_def settled_tx_finish settled_advance simp del: length_append
        split: prod.split if_splits)
qed simp

lemma settled_rx_loop:
  assumes "settled d {} g" "ch < chans g"
  shows "case rx_loop k E ch owner desc data g c of
           Inl (g', c') \<Rightarrow> settled d {} g'
         | Inr (data', g', c') \<Rightarrow> settled d {} g' \<and> ch < chans g'"
  using assms
proof (induction k E ch owner desc data g c rule: rx_loop.induct)
  case (2 k E ch owner desc data g c)
  then show ?case
    by (auto simp: Let_def settled_rx_finish settled_advance split: prod.split if_splits)
qed simp

lemma settled_tx_loopD:
  assumes "settled d {} g" "ch < chans g"
  shows "tx_loop k E ch wb owner n desc data eof g c = Inl (data', g', c') \<Longrightarrow> settled d {} g'"
    "tx_loop k E ch wb owner n desc data eof g c = Inr (data', eof', g', c') \<Longrightarrow> settled d {} g' \<and> ch < chans g'"
  using settled_tx_loop [OF assms, of k E wb owner n desc data eof c] by simp_all

lemma settled_rx_loopD:
  assumes "settled d {} g" "ch < chans g"
  shows "rx_loop k E ch owner desc data g c = Inl (g', c') \<Longrightarrow> settled d {} g'"
    "rx_loop k E ch owner desc data g c = Inr (data', g', c') \<Longrightarrow> settled d {} g' \<and> ch < chans g'"
  using settled_rx_loop [OF assms, of k E owner desc data c] by simp_all

lemma active_channel:
  "gdma_active_tx_channel g pid = Some ch \<Longrightarrow> ch < chans g"
  "gdma_active_rx_channel g pid = Some ch \<Longrightarrow> ch < chans g"
  by (auto simp: gdma_active_tx_channel_def gdma_active_rx_channel_def chans_def find_Some_iff)

lemma settled_read_tx:
  assumes "settled d {} g" "flexe_gdma_read_tx E pid n g c = (r, data, g', c')"
  shows "settled d {} g'"
proof (cases "gdma_active_tx_channel g pid")
  case None
  then show ?thesis using assms by (simp add: flexe_gdma_read_tx_def)
next
  case (Some ch)
  then show ?thesis
    using assms(2)
    by (auto simp: flexe_gdma_read_tx_def Let_def split: sum.splits prod.splits
        dest!: settled_tx_loopD [OF assms(1) active_channel(1) [OF Some]] intro: settled_tx_finish)
qed

lemma settled_write_rx:
  assumes "settled d {} g" "flexe_gdma_write_rx E pid data g c = (r, g', c')"
  shows "settled d {} g'"
proof (cases "gdma_active_rx_channel g pid")
  case None
  then show ?thesis using assms by (simp add: flexe_gdma_write_rx_def)
next
  case (Some ch)
  then show ?thesis
    using assms(2)
    by (auto simp: flexe_gdma_write_rx_def Let_def split: sum.splits prod.splits
        dest!: settled_rx_loopD [OF assms(1) active_channel(2) [OF Some]] intro: settled_rx_finish)
qed

lemma settled_read_tx_descriptor:
  assumes s: "settled d {} g" and r: "flexe_gdma_read_tx_descriptor E pid capacity g c = (r, g', c')"
  shows "settled d {} g'"
proof (cases "gdma_active_tx_channel g pid")
  case None
  then show ?thesis using s r by (simp add: flexe_gdma_read_tx_descriptor_def)
next
  case (Some ch)
  note ch = active_channel(1) [OF Some]
  show ?thesis
    using r Some settled_ok [OF s] ch s
    by (auto simp: flexe_gdma_read_tx_descriptor_def Let_def settled_tx_finish settled_advance in_raw_ena
        split: prod.splits if_splits intro!: settled_update_same [OF s _ ch] same_irq_ops)
qed

lemma settled_write_rx_descriptor:
  assumes s: "settled d {} g" and r: "flexe_gdma_write_rx_descriptor_eof E pid data eof g c = (r, g', c')"
  shows "settled d {} g'"
proof (cases "gdma_active_rx_channel g pid")
  case None
  then show ?thesis using s r by (simp add: flexe_gdma_write_rx_descriptor_eof_def)
next
  case (Some ch)
  note ch = active_channel(2) [OF Some]
  show ?thesis
    using r Some settled_ok [OF s] ch s
    by (auto simp: flexe_gdma_write_rx_descriptor_eof_def Let_def settled_rx_finish settled_advance in_raw_ena
        split: prod.splits if_splits intro!: settled_update_same [OF s _ ch] same_irq_ops)
qed

lemma settled_gdma_read:
  assumes "settled d {} g" shows "settled d {} (snd (gdma_read g addr))"
proof (cases "gdma_decode_channel g addr")
  case None
  have "settled d {} (g\<lparr>g_world := snd (f addr (g_world g))\<rparr>)" if "g_fallback_read g = Some f" for f
  proof -
    have "quiet (snd \<circ> f addr)"
      using assms that unfolding settled_def wired_def quiet_handlers_def by blast
    then show ?thesis
      using settled_notify [OF assms, of "Some (snd \<circ> f addr)"] by (simp add: g_notify_def)
  qed
  then have "settled d {} (snd (let (v, w) = f addr (g_world g) in (v, g\<lparr>g_world := w\<rparr>)))"
    if "g_fallback_read g = Some f" for f
    using that by (simp add: case_prod_unfold Let_def)
  with None show ?thesis
    using assms by (simp add: gdma_read_def split: option.split)
qed (use assms in \<open>auto simp: gdma_read_def Let_def split: prod.split\<close>)

lemma settled_if:
  "(b \<Longrightarrow> settled d X g) \<Longrightarrow> (\<not> b \<Longrightarrow> settled d X h) \<Longrightarrow> settled d X (if b then g else h)"
  by simp

lemma settled_channel_write:
  assumes s: "settled d {} g" and dec: "gdma_decode_channel g addr = Some (ch, off)"
    and reg: "gdma_reg g addr \<noteq> None"
  shows "settled d {} (gdma_channel_write ch off addr v g)"
proof -
  note ok = settled_ok [OF s]
  note dec = gdma_decode [OF ok dec reg]
  have put: "reg_put addr w g' = chan_put ch off w g'" if "same_irq X g g'" for w g' X
    using reg_put_channel [of g' g] that dec(2) by (simp add: same_irq_def)
  have leaf: "settled d {} (reg_put addr w g')" if "same_irq {} g g'" "\<And>r. off \<noteq> raw_off r \<and> off \<noteq> ena_off r" for w g'
    using settled_same [OF s same_irq_chan_put_gen [OF that(1) dec(1,3,4,5)]] that put [OF that(1)] by simp
  have upd: "settled d {} (gdma_update_irq ch r (reg_put addr w g))" if "off = ena_off r" for w r
    unfolding put [OF same_irq_refl [OF ok]]
    by (rule settled_update_same [OF s _ dec(1)], rule same_irq_chan_put_gen [OF same_irq_refl [OF ok] dec(1,3,4,5)])
       (use that in auto)
  have clr: "settled d {} (gdma_update_irq ch r (chan_put ch (raw_off r) w g))" for w r
    by (rule settled_update_same [OF s _ dec(1)], rule same_irq_chan_put [OF same_irq_refl [OF ok] dec(1)]) auto
  note act = settled_activity [OF leaf]
  show ?thesis
    unfolding gdma_channel_write_def Let_def in_raw_ena
    by (intro settled_if act leaf upd clr s same_irq_put_rx same_irq_put_tx)
       (use ok dec(1) in \<open>auto simp: raw_off_def ena_off_def gdma_offsets intro: same_irq_refl same_irq_rx_reset same_irq_tx_reset\<close>)
qed

lemma settled_gdma_write:
  assumes "settled d {} g" shows "settled d {} (gdma_write g addr v)"
  using assms settled_same [OF assms same_irq_misc [OF settled_ok [OF assms]]]
  by (auto simp: gdma_write_def settled_channel_write split: option.split
      intro!: settled_notify) (auto simp: settled_def wired_def quiet_handlers_def)

end

section \<open>The interrupt matrix as the sink\<close>

definition matrix_set_level :: "'d periph_env \<Rightarrow> 'd periph \<Rightarrow> nat \<Rightarrow> bool \<Rightarrow> 'd periph" where
  "matrix_set_level D p s b =
     (if b then periph_assert_interrupt D p (int s) else periph_deassert_interrupt D p (int s))"

text \<open>A fabric with the sources of its target and no host handler registered, seen from one core.\<close>

definition matrix_good :: "periph_target \<Rightarrow> nat \<Rightarrow> 'd periph \<Rightarrow> bool" where
  "matrix_good t core p \<longleftrightarrow>
     p_target p = t \<and> p_irq_dispatch p = (\<lambda>_. None) \<and> core < intr_matrix_core_count p"

lemma fold_set_source_level:
  "p_source_level_core (fold (\<lambda>core p. set_source_core p core s b) cores p) k =
     (if k \<in> set cores then (p_source_level_core p k)(s := b) else p_source_level_core p k)"
  by (induction cores arbitrary: p) auto

lemma update_source_quiet:
  assumes "p_irq_dispatch p = (\<lambda>_. None)" "s < intr_matrix_source_count p"
    "core < intr_matrix_core_count p"
  shows "p_source_level_core (intr_matrix_update_source D p (int s) b) core = (p_source_level_core p core)(s := b)"
    "p_irq_dispatch (intr_matrix_update_source D p (int s) b) = (\<lambda>_. None)"
    "p_target (intr_matrix_update_source D p (int s) b) = p_target p"
proof -
  have c: "intr_matrix_core_count (p\<lparr>p_source_level := x\<rparr>) = intr_matrix_core_count p" for x
    by (simp add: intr_matrix_core_count_def)
  show "p_source_level_core (intr_matrix_update_source D p (int s) b) core = (p_source_level_core p core)(s := b)"
    "p_irq_dispatch (intr_matrix_update_source D p (int s) b) = (\<lambda>_. None)"
    "p_target (intr_matrix_update_source D p (int s) b) = p_target p"
    using assms
    by (simp_all add: intr_matrix_update_source_def Let_def irq_call_def fold_set_source_level c)
qed

lemma set_pending_frame [simp]:
  "p_target (set_pending p s b) = p_target p" "p_irq_dispatch (set_pending p s b) = p_irq_dispatch p"
  "p_source_level_core (set_pending p s b) = p_source_level_core p"
  "intr_matrix_source_count (set_pending p s b) = intr_matrix_source_count p"
  "intr_matrix_core_count (set_pending p s b) = intr_matrix_core_count p"
  by (simp_all add: set_pending_def Let_def intr_matrix_source_count_def intr_matrix_core_count_def)

lemma source_status_count [simp]:
  "intr_matrix_source_count (p\<lparr>p_source_status := x\<rparr>) = intr_matrix_source_count p"
  "intr_matrix_core_count (p\<lparr>p_source_status := x\<rparr>) = intr_matrix_core_count p"
  by (simp_all add: intr_matrix_source_count_def intr_matrix_core_count_def)

definition target_source_count :: "periph_target \<Rightarrow> nat" where
  "target_source_count t = intr_matrix_source_count (fabric_zero t :: unit periph)"

lemma target_source_count: "p_target p = t \<Longrightarrow> intr_matrix_source_count p = target_source_count t"
  by (auto simp: target_source_count_def intr_matrix_source_count_def fabric_zero_def)

interpretation matrix: interrupt_sink "matrix_set_level D" "\<lambda>p s. p_source_level_core p core s"
  "matrix_good t core" "target_source_count t" for D :: "'d periph_env" and t core
proof
  fix p :: "'d periph" and s s' :: nat and b
  assume p: "matrix_good t core p" and s: "s < target_source_count t"
  have "s < intr_matrix_source_count p"
    using p s target_source_count [of p t] by (simp add: matrix_good_def)
  then show "p_source_level_core (matrix_set_level D p s b) core s' =
      (if s' = s then b else p_source_level_core p core s')"
    "matrix_good t core (matrix_set_level D p s b)"
    using p
    by (auto simp: matrix_set_level_def matrix_good_def periph_assert_interrupt_def
        periph_deassert_interrupt_def Let_def update_source_quiet intr_matrix_core_count_def)
qed

section \<open>Sequences of operations\<close>

datatype 'd gdma_op =
    Reg_Write u32 u32 | Reg_Read u32 | Read_Tx u8 nat "'d cpu" | Write_Rx u8 "u8 list" "'d cpu"
  | Stream_Tx u8 nat "'d cpu" | Stream_Rx u8 "u8 list" bool "'d cpu"

fun gdma_op_step :: "'d host \<Rightarrow> 'd gdma_op \<Rightarrow> 'w flexe_gdma \<Rightarrow> 'w flexe_gdma" where
  "gdma_op_step E (Reg_Write a v) g = gdma_write g a v"
| "gdma_op_step E (Reg_Read a) g = snd (gdma_read g a)"
| "gdma_op_step E (Read_Tx pid n c) g = (case flexe_gdma_read_tx E pid n g c of (_, _, g', _) \<Rightarrow> g')"
| "gdma_op_step E (Write_Rx pid data c) g = (case flexe_gdma_write_rx E pid data g c of (_, g', _) \<Rightarrow> g')"
| "gdma_op_step E (Stream_Tx pid n c) g =
     (case flexe_gdma_read_tx_descriptor E pid n g c of (_, g', _) \<Rightarrow> g')"
| "gdma_op_step E (Stream_Rx pid data eof c) g =
     (case flexe_gdma_write_rx_descriptor_eof E pid data eof g c of (_, g', _) \<Rightarrow> g')"

context interrupt_sink
begin

lemma settled_op: "settled d {} g \<Longrightarrow> settled d {} (gdma_op_step E op g)"
  by (cases op)
     (auto simp: settled_gdma_write settled_gdma_read split: prod.split
        dest: settled_read_tx settled_write_rx settled_read_tx_descriptor settled_write_rx_descriptor)

lemma settled_run: "settled d {} g \<Longrightarrow> settled d {} (fold (gdma_op_step E) ops g)"
  by (induction ops arbitrary: g) (simp_all add: settled_op)

end

section \<open>Creation\<close>

lemma gdma_okI:
  assumes "gdma_geometry_valid t d" "unat (gd_channel_count d) * unat (gd_channel_stride d) \<le> 0x3C8"
    and "g_desc g = d" "length (g_regs g) = unat (gd_register_size d) div 4"
  shows "gdma_ok g"
proof -
  let ?s = "gd_register_size d" and ?e = "pt_peripheral_end t - gd_base d"
  have v: "\<not> pt_peripheral_end t \<le> gd_base d" "\<not> ?e < ?s" "gd_base d AND 3 = 0" "?s AND 0xFFF = 0"
    "\<not> gd_channel_stride d < 0xAC" "gd_channel_stride d AND 3 = 0" "gd_channel_count d \<noteq> 0"
    "\<not> unat ?s < (unat (gd_channel_count d) - 1) * unat (gd_channel_stride d) +
          unat GDMA_V1_OUT_PERI_SEL_OFF + 4"
    using assms(1) by (auto simp: gdma_geometry_valid_def)
  have "unat ?e = unat (pt_peripheral_end t) - unat (gd_base d)" "unat ?s \<le> unat ?e"
    using v(1,2) by (simp_all add: unat_sub word_le_nat_alt word_less_nat_alt)
  then have "unat (gd_base d) + unat ?s < 2 ^ 32"
    using v(1) unsigned_less [of "pt_peripheral_end t", where ?'a = nat] by (simp add: word_le_nat_alt)
  moreover have "4 dvd unat ?s"
  proof -
    have "?s AND 3 = (?s AND 0xFFF) AND 3" by (simp add: and.assoc)
    then show ?thesis using v(4) by (simp add: and_3_iff [symmetric])
  qed
  moreover have "0 < unat (gd_channel_count d)" using v(7) by (simp add: unat_gt_0)
  ultimately show ?thesis
    using v assms(2,3,4)
    by (simp add: gdma_ok_def Let_def and_3_iff word_less_nat_alt GDMA_V1_OUT_PERI_SEL_OFF_def)
qed

lemma same_irq_clear:
  assumes "same_irq {} g g'" "\<And>k r. k < chans g \<Longrightarrow> chan_get g k (raw_off r) = 0 \<and> chan_get g k (ena_off r) = 0"
    "ch < chans g" "named_off off"
  shows "same_irq {} g (chan_put ch off 0 g')"
proof -
  have ok: "gdma_ok g'" "g_desc g' = g_desc g" "chans g' = chans g"
    using assms(1) by (simp_all add: same_irq_def chans_def)
  have "chan_get (chan_put ch off 0 g') k o' = (if k = ch \<and> o' = off then 0 else chan_get g' k o')"
    if "k < chans g" "named_off o'" for k o'
    using chan_get_put [OF ok(1), of ch k o' off 0] named_pos [OF ok(1), of ch off]
      named_off_unat [OF assms(4)] gdma_okD(3) [OF ok(1)] that assms(3,4) ok by simp
  then show ?thesis using assms(1,2) by (auto simp: same_irq_def)
qed

lemma chan_get_zero:
  assumes "gdma_ok g" "g_regs g = replicate n 0" "ch < chans g" "named_off off"
  shows "chan_get g ch off = 0"
proof -
  have "gdma_reg g (gdma_channel_addr g ch off) = Some (chan_pos g ch off div 4)"
    using gdma_reg_channel [OF assms(1) named_pos [OF assms(1,3,4)]] named_off_unat [OF assms(4)] by simp
  moreover have "chan_pos g ch off div 4 < n"
    using named_pos [OF assms(1,3,4)] gdma_okD(7,8) [OF assms(1)] assms(2)
    by (simp add: less_mult_imp_div_less)
  ultimately show ?thesis by (simp add: chan_get_def reg_get_def assms(2))
qed

lemma same_irq_power_on:
  assumes "gdma_ok g" "g_regs g = replicate n 0"
  shows "same_irq {} g (gdma_power_on g)"
proof -
  have z: "chan_get g k (raw_off r) = 0 \<and> chan_get g k (ena_off r) = 0" if "k < chans g" for k r
    using chan_get_zero [OF assms that] by simp
  have "same_irq {} g (fold (\<lambda>ch g. gdma_tx_power_on_reset ch (gdma_rx_power_on_reset ch g)) cs g')"
    if "same_irq {} g g'" "\<forall>ch \<in> set cs. ch < chans g" for cs g'
    using that
  proof (induction cs arbitrary: g')
    case (Cons ch cs)
    have "same_irq {} g (gdma_tx_power_on_reset ch (gdma_rx_power_on_reset ch g'))"
      unfolding gdma_tx_power_on_reset_def gdma_rx_power_on_reset_def Let_def in_raw_ena
      using Cons.prems z
      by (intro same_irq_chan_put same_irq_clear same_irq_tx_reset same_irq_rx_reset same_irq_put_rx
          same_irq_put_tx) auto
    with Cons show ?case by simp
  qed simp
  then show ?thesis
    using same_irq_refl [OF assms(1)] by (simp add: gdma_power_on_def chans_def)
qed

text \<open>The sources of the channel halves are distinct sources of the matrix.\<close>

lemma gdma_sources_distinct:
  assumes "gdma_geometry_valid t d"
  shows "matrix.distinct_sources t d"
proof -
  have v: "gdma_sources_valid t d ch" if "ch < unat (gd_channel_count d)" for ch
    using assms that by (simp add: gdma_geometry_valid_def list_all_iff)
  have cap: "cap_intr_matrix t" using assms by (simp add: gdma_geometry_valid_def)
  have less: "gdma_source d ch r < target_source_count t" if "ch < unat (gd_channel_count d)" for ch r
    using v [OF that] cap
    by (simp add: gdma_sources_valid_def Let_def gdma_source_def target_source_count_def
        intr_matrix_source_count_def fabric_zero_def)
  have ne: "gdma_source d ch r \<noteq> gdma_source d k q" if "ch < unat (gd_channel_count d)" "k < ch" for ch k r q
    using v [OF that(1)] that(2)
    by (auto simp: gdma_sources_valid_def Let_def gdma_source_def list_all_iff word_unat_eq_iff)
  have own: "gdma_source d ch True \<noteq> gdma_source d ch False" if "ch < unat (gd_channel_count d)" for ch
    using v [OF that] by (auto simp: gdma_sources_valid_def Let_def gdma_source_def word_unat_eq_iff)
  have "ch = k \<and> r = q" if "ch < unat (gd_channel_count d)" "k < unat (gd_channel_count d)"
    "gdma_source d ch r = gdma_source d k q" for ch k r q
  proof -
    have "ch = k" using ne [of ch k r q] ne [of k ch q r] that by (cases ch k rule: linorder_cases) auto
    moreover have "r = q" using own [of ch] that \<open>ch = k\<close> by (cases r; cases q) auto
    ultimately show ?thesis by simp
  qed
  then show ?thesis using less by (simp add: matrix.distinct_sources_def)
qed

lemma default_quiet [simp]:
  "p_irq_dispatch (default_write D p a v) = p_irq_dispatch p"
  "p_target (snd (default_read D p a)) = p_target p"
  "p_source_level_core (snd (default_read D p a)) = p_source_level_core p"
  "p_irq_dispatch (snd (default_read D p a)) = p_irq_dispatch p"
  by (simp_all add: default_write_def default_read_def unhandled_audit_record_def
        unhandled_audit_merge_site_def audit_omit_def count_unhandled_def Let_def split: option.split)

section \<open>Status and line agree\<close>

lemma decode_named:
  assumes ok: "gdma_ok g" and "ch < chans g" "named_off off"
  shows "gdma_decode_channel g (gdma_channel_addr g ch off) = Some (ch, off)"
    "gdma_channel_addr g ch off \<noteq> gd_base (g_desc g) + GDMA_V1_MISC_CONF_OFF"
proof -
  let ?d = "g_desc g" and ?st = "gd_channel_stride (g_desc g)" and ?a = "gdma_channel_addr g ch off"
  note pos = named_pos [OF assms]
  have a: "unat ?a = unat (gd_base ?d) + chan_pos g ch off" by (rule unat_channel_addr [OF ok pos])
  have top: "unat (gd_base ?d + gd_register_size ?d) = unat (gd_base ?d) + unat (gd_register_size ?d)"
    using gdma_okD(1) [OF ok] by (simp add: unat_word_ariths take_bit_eq_mod)
  have range: "\<not> ?a < gd_base ?d" "\<not> gd_base ?d + gd_register_size ?d \<le> ?a"
    using a top pos by (simp_all add: word_less_nat_alt word_le_nat_alt)
  have o: "unat (?a - gd_base ?d) = chan_pos g ch off"
    using a by (simp add: unat_sub word_le_nat_alt)
  have off: "unat off < unat ?st" using named_off_unat [OF assms(3)] gdma_okD(3) [OF ok] by simp
  have q: "unat ((?a - gd_base ?d) div ?st) = ch"
    using off by (simp add: unat_div o chan_pos_def)
  have "(?a - gd_base ?d) - ((?a - gd_base ?d) div ?st) * ?st = off"
    using off by (simp add: minus_div_mult_eq_mod word_unat_eq_iff unat_mod o chan_pos_def)
  then show "gdma_decode_channel g ?a = Some (ch, off)"
    using range q assms(2) by (simp add: gdma_decode_channel_def Let_def chans_def)
  have "(ch + 1) * unat ?st \<le> chans g * unat ?st"
    using assms(2) by (intro mult_le_mono1) simp
  then have "chan_pos g ch off < 0x3C8"
    using off gdma_okD(6) [OF ok] by (simp add: chan_pos_def)
  then have "?a - gd_base ?d \<noteq> 0x3C8" using o by auto
  then show "?a \<noteq> gd_base ?d + GDMA_V1_MISC_CONF_OFF"
    by (auto simp: GDMA_V1_MISC_CONF_OFF_def)
qed

definition status_off :: "bool \<Rightarrow> u32" where
  "status_off receive = (if receive then GDMA_V1_IN_INT_ST_OFF else GDMA_V1_OUT_INT_ST_OFF)"

lemma gdma_read_status:
  assumes "gdma_ok g" "ch < chans g"
  shows "fst (gdma_read g (gdma_channel_addr g ch (status_off r))) =
           chan_get g ch (raw_off r) AND chan_get g ch (ena_off r)"
proof -
  have "named_off (status_off r)" by (simp add: status_off_def named_off_def gdma_offsets)
  from decode_named [OF assms this] show ?thesis
    by (cases r) (simp_all add: gdma_read_def status_off_def raw_off_def ena_off_def gdma_offsets)
qed

text \<open>C7. The interrupt output of the DMA controller reaches the matrix: for a controller created
  on a quiet fabric, after any sequence of register accesses and of transfers over any memory,
  the interrupt source of every channel half is high in the matrix, for every core, exactly
  when the status register of that half reads nonzero.\<close>

theorem gdma_status_reaches_matrix:
  fixes E :: "'d host" and p :: "'e periph"
  assumes "gdma_geometry_valid t d"
    and "unat (gd_channel_count d) * unat (gd_channel_stride d) \<le> 0x3C8"
    and "p_target p = t" "p_irq_dispatch p = (\<lambda>_. None)" "core < intr_matrix_core_count p"
    and "\<forall>s. \<not> p_source_level_core p core s"
    and g: "g = fold (gdma_op_step E) ops
              (gdma_power_on (gdma_zero d (Some (\<lambda>a q. default_read D q a))
                 (Some (\<lambda>a v q. default_write D q a v)) (Some (gdma_irq_changed D d)) p))"
    and ch: "ch < unat (gd_channel_count d)"
  shows "p_source_level_core (g_world g) core (gdma_source d ch receive) \<longleftrightarrow>
           fst (gdma_read g (gdma_channel_addr g ch (status_off receive))) \<noteq> 0"
proof -
  define z where "z = gdma_zero d (Some (\<lambda>a q. default_read D q a))
    (Some (\<lambda>a v q. default_write D q a v)) (Some (gdma_irq_changed D d)) p"
  have zd: "g_desc z = d" "g_world z = p" "chans z = unat (gd_channel_count d)"
    "g_regs z = replicate (unat (gd_register_size d) div 4) 0" "\<And>k r. \<not> irq_level z k r"
    by (simp_all add: z_def gdma_zero_def chans_def irq_level_def)
  have ok: "gdma_ok z"
    using assms(1,2) zd by (intro gdma_okI) simp_all
  have cb: "gdma_irq_changed D d = matrix.level_callback D d"
    by (simp add: fun_eq_iff gdma_irq_changed_def matrix.level_callback_def matrix_set_level_def
        gdma_source_def Let_def if_distrib [of int] if_distrib [of unat] if_distrib [of uint])
  have h: "g_irq_changed z = Some (matrix.level_callback D d)" "g_activity_changed z = None"
    "g_fallback_write z = Some (\<lambda>a v q. default_write D q a v)"
    "g_fallback_read z = Some (\<lambda>a q. default_read D q a)"
    by (simp_all add: z_def gdma_zero_def cb)
  have "matrix.quiet core t (\<lambda>q. default_write D q a v)" "matrix.quiet core t (snd \<circ> (\<lambda>q. default_read D q a))" for a v
    by (auto simp: matrix.quiet_def matrix_good_def intr_matrix_core_count_def)
  then have "matrix.quiet_handlers core t z"
    unfolding matrix.quiet_handlers_def h by simp
  moreover have "matrix_good t core p" using assms(3,4,5) by (simp add: matrix_good_def)
  ultimately have "matrix.wired D core t d z"
    using ok gdma_sources_distinct [OF assms(1)] by (simp add: matrix.wired_def zd(1,2) h(1))
  then have "matrix.settled D core t d {} z"
    unfolding matrix.settled_def
    using zd assms(6) chan_get_zero [OF ok zd(4)] by simp
  then have "matrix.settled D core t d {} (gdma_power_on z)"
    by (rule matrix.settled_same [OF _ same_irq_power_on [OF ok zd(4)]]) simp
  then have s: "matrix.settled D core t d {} g"
    unfolding g z_def [symmetric] by (rule matrix.settled_run)
  then have "g_desc g = d" by (simp add: matrix.settled_def matrix.wired_def)
  then show ?thesis
    using s ch gdma_read_status [OF matrix.settled_ok [OF s], of ch receive]
    by (simp add: matrix.settled_def chans_def)
qed

text \<open>Witness: the ESP32-S3 controller on a fresh fabric; the guest enables the descriptor-error
  interrupt of the first transmit channel.\<close>

lemma s3_gdma_geometry: "gdma_geometry_valid esp32s3_periph_target esp32s3_gdma"
  by code_simp

definition sample_gdma_run :: "unit periph flexe_gdma" where
  "sample_gdma_run = fold (gdma_op_step sample_host) [Reg_Write 0x6003F070 4 :: unit gdma_op]
     (gdma_power_on (gdma_zero esp32s3_gdma (Some (\<lambda>a q. default_read sample_env q a))
        (Some (\<lambda>a v q. default_write sample_env q a v))
        (Some (gdma_irq_changed sample_env esp32s3_gdma)) sample_fabric))"

theorem gdma_status_reaches_matrix_witness:
  "p_source_level_core (g_world sample_gdma_run) 0 71 \<longleftrightarrow>
     fst (gdma_read sample_gdma_run (gdma_channel_addr sample_gdma_run 0 GDMA_V1_OUT_INT_ST_OFF)) \<noteq> 0"
proof -
  have "0 < intr_matrix_core_count sample_fabric" by (simp add: s3_counts)
  moreover have "gdma_source esp32s3_gdma 0 False = 71"
    by (simp add: gdma_source_def esp32s3_gdma_def)
  ultimately show ?thesis
    using gdma_status_reaches_matrix [OF s3_gdma_geometry _ _ _ _ _ sample_gdma_run_def, of 0 0 False]
    by (simp add: esp32s3_gdma_def status_off_def)
qed

end
