(* ===== verification/Gdma_Chain.thy ===== *)
theory Gdma_Chain
  imports Gdma_Facts Ram
begin

text \<open>
  What a transmit transfer of the DMA controller delivers: the contents of a well-formed
  descriptor chain in RAM, stated as a relation between memory and bytes that knows nothing of
  the controller's loop; and what it reports in every other case.
\<close>

section \<open>Descriptor chains in memory\<close>

definition ram_word :: "'d cpu \<Rightarrow> u32 \<Rightarrow> u32 option" where
  "ram_word c a = map_option (\<lambda>p. of_bytes (map (\<lambda>i. ram_byte c (fst p) (snd p + i)) [0 ..< 4])) (ram_at 4 c a)"

definition ram_u8 :: "'d cpu \<Rightarrow> u32 \<Rightarrow> u8 option" where
  "ram_u8 c a = map_option (\<lambda>p. ram_byte c (fst p) (snd p)) (ram_at 1 c a)"

text \<open>A descriptor at \<open>desc\<close> that holds the bytes \<open>bs\<close>, its end-of-frame mark and its successor.\<close>

definition tx_desc :: "'d cpu \<Rightarrow> bool \<Rightarrow> u32 \<Rightarrow> u8 list \<Rightarrow> bool \<Rightarrow> u32 \<Rightarrow> bool" where
  "tx_desc c owner desc bs eof next_desc \<longleftrightarrow>
     desc AND 3 = 0 \<and> gdma_ram_range_valid (mem c) desc GDMA_V1_DESC_BYTES False \<and>
     ram_word c (desc + 8) = Some next_desc \<and>
     (\<exists>ctl buf. ram_word c desc = Some ctl \<and> ram_word c (desc + 4) = Some buf \<and>
        (owner \<longrightarrow> ctl AND GDMA_V1_DESC_OWNER \<noteq> 0) \<and> eof = (ctl AND GDMA_V1_DESC_EOF \<noteq> 0) \<and>
        length bs = desc_valid ctl \<and> 0 < length bs \<and> length bs \<le> desc_size ctl \<and>
        gdma_ram_range_valid (mem c) buf (length bs) False \<and>
        (\<forall>i < length bs. ram_u8 c (buf + of_nat i) = Some (bs ! i)))"

text \<open>A chain of \<open>k\<close> descriptors, of which only the last has the mark, and its bytes.\<close>

inductive tx_chain :: "'d cpu \<Rightarrow> bool \<Rightarrow> nat \<Rightarrow> u32 \<Rightarrow> u8 list \<Rightarrow> bool"
  for c :: "'d cpu" and owner :: bool where
  chain_last: "tx_desc c owner desc bs True next_desc \<Longrightarrow> tx_chain c owner 1 desc bs"
| chain_more: "tx_desc c owner desc bs False next_desc \<Longrightarrow> next_desc \<noteq> 0 \<Longrightarrow> next_desc \<noteq> desc \<Longrightarrow>
     tx_chain c owner k next_desc data \<Longrightarrow> tx_chain c owner (Suc k) desc (bs @ data)"

section \<open>Reading RAM\<close>

lemma read32_plain: "ram_word c a = Some w \<Longrightarrow> mem_read32 E c a = (w, c)"
  by (auto simp: ram_word_def ram32.get_spec)

lemma read8_plain: "ram_u8 c a = Some b \<Longrightarrow> mem_read8 E c a = (b, c)"
  by (auto simp: ram_u8_def ram8.get_spec)

lemma copy_in_plain:
  assumes "\<And>i. i < length bs \<Longrightarrow> ram_u8 c (buf + of_nat i) = Some (bs ! i)"
  shows "gdma_copy_in E c buf (length bs) = (bs, c)"
proof -
  have "fold (\<lambda>i (bs, c). let (b, c1) = mem_read8 E c (buf + of_nat i) in (bs @ [b], c1)) [0 ..< n] ([], c) =
      (take n bs, c)" if "n \<le> length bs" for n
    using that
    by (induction n) (simp_all add: read8_plain assms take_Suc_conv_app_nth)
  then show ?thesis by (simp add: gdma_copy_in_def)
qed

lemma tx_descE:
  assumes "tx_desc c owner desc bs eof next_desc"
  obtains ctl buf where "gdma_fetch E c desc = (ctl, buf, next_desc, c)"
    "gdma_copy_in E c buf (desc_valid ctl) = (bs, c)"
    "owner \<longrightarrow> ctl AND GDMA_V1_DESC_OWNER \<noteq> 0" "eof = (ctl AND GDMA_V1_DESC_EOF \<noteq> 0)"
    "desc_valid ctl = length bs" "bs \<noteq> []" "length bs \<le> desc_size ctl"
    "gdma_ram_range_valid (mem c) buf (length bs) False" "desc AND 3 = 0"
    "gdma_ram_range_valid (mem c) desc GDMA_V1_DESC_BYTES False"
proof -
  obtain ctl buf where d: "ram_word c desc = Some ctl" "ram_word c (desc + 4) = Some buf"
    "ram_word c (desc + 8) = Some next_desc" "length bs = desc_valid ctl"
    "\<And>i. i < length bs \<Longrightarrow> ram_u8 c (buf + of_nat i) = Some (bs ! i)"
    and rest: "owner \<longrightarrow> ctl AND GDMA_V1_DESC_OWNER \<noteq> 0" "eof = (ctl AND GDMA_V1_DESC_EOF \<noteq> 0)"
    "bs \<noteq> []" "length bs \<le> desc_size ctl" "gdma_ram_range_valid (mem c) buf (length bs) False"
    "desc AND 3 = 0" "gdma_ram_range_valid (mem c) desc GDMA_V1_DESC_BYTES False"
    using assms unfolding tx_desc_def length_greater_0_conv by blast
  have "gdma_fetch E c desc = (ctl, buf, next_desc, c)"
    by (simp add: gdma_fetch_def read32_plain d(1-3))
  moreover have "gdma_copy_in E c buf (desc_valid ctl) = (bs, c)"
    using copy_in_plain [OF d(5)] d(4) by simp
  ultimately show thesis using that rest d(4) by metis
qed

lemma advance_sel [simp]:
  "g_tx (gdma_tx_advance_status ch desc g) =
     (g_tx g)(ch := (g_tx g ch)\<lparr>tx_previous_desc := tx_current_desc (g_tx g ch), tx_current_desc := desc\<rparr>)"
  by (simp add: gdma_tx_advance_status_def Let_def put_tx_def)

lemma tx_loop_chain:
  assumes "tx_chain c owner k desc data" "k \<le> fuel" "length data0 + length data = n" "gdma_ok g" "ch < chans g"
  shows "\<exists>g'. tx_loop fuel E ch False owner n desc data0 eof0 g c = Inr (data0 @ data, True, g', c) \<and>
           same_irq {} g g'"
  using assms
proof (induction arbitrary: fuel data0 eof0 g rule: tx_chain.induct)
  case (chain_last desc bs next_desc)
  then obtain f where f: "fuel = Suc f" by (cases fuel) auto
  from chain_last(1) obtain ctl buf where d: "gdma_fetch E c desc = (ctl, buf, next_desc, c)"
    "gdma_copy_in E c buf (desc_valid ctl) = (bs, c)"
    "owner \<longrightarrow> ctl AND GDMA_V1_DESC_OWNER \<noteq> 0" "True = (ctl AND GDMA_V1_DESC_EOF \<noteq> 0)"
    "desc_valid ctl = length bs" "bs \<noteq> []" "length bs \<le> desc_size ctl"
    "gdma_ram_range_valid (mem c) buf (length bs) False" "desc AND 3 = 0"
    "gdma_ram_range_valid (mem c) desc GDMA_V1_DESC_BYTES False"
    by (rule tx_descE)
  have "same_irq {} g (gdma_tx_advance_status ch desc g)"
    using chain_last by (simp add: same_irq_tx_advance same_irq_refl)
  then show ?case
    using chain_last.prems d by (auto simp: f)
next
  case (chain_more desc bs next_desc k data)
  then obtain f where f: "fuel = Suc f" "k \<le> f" by (cases fuel) auto
  from chain_more(1) obtain ctl buf where d: "gdma_fetch E c desc = (ctl, buf, next_desc, c)"
    "gdma_copy_in E c buf (desc_valid ctl) = (bs, c)"
    "owner \<longrightarrow> ctl AND GDMA_V1_DESC_OWNER \<noteq> 0" "False = (ctl AND GDMA_V1_DESC_EOF \<noteq> 0)"
    "desc_valid ctl = length bs" "bs \<noteq> []" "length bs \<le> desc_size ctl"
    "gdma_ram_range_valid (mem c) buf (length bs) False" "desc AND 3 = 0"
    "gdma_ram_range_valid (mem c) desc GDMA_V1_DESC_BYTES False"
    by (rule tx_descE)
  let ?g = "gdma_tx_advance_status ch desc g"
  have same: "same_irq {} g ?g"
    using chain_more.prems by (simp add: same_irq_tx_advance same_irq_refl)
  have ok: "gdma_ok ?g" "ch < chans ?g"
    using same chain_more.prems same_irq_chans [OF same] by (simp_all add: same_irq_def)
  have ne: "data \<noteq> []" using chain_more(4)
    by (cases rule: tx_chain.cases) (auto simp: tx_desc_def)
  obtain g' where g': "tx_loop f E ch False owner n next_desc (data0 @ bs) False ?g c =
      Inr ((data0 @ bs) @ data, True, g', c)" "same_irq {} ?g g'"
    using chain_more.IH [OF f(2) _ ok, of "data0 @ bs" False] chain_more.prems by auto
  have "same_irq {} g g'"
    using same g'(2) unfolding same_irq_def chans_def by simp
  moreover have "tx_loop fuel E ch False owner n desc data0 eof0 g c =
      Inr (data0 @ bs @ data, True, g', c)"
    using d ne chain_more(2,3) chain_more.prems g'(1) by (auto simp: f Let_def)
  ultimately show ?case by auto
qed

section \<open>What a transfer reports\<close>

lemma tx_finish_sel [simp]:
  "g_tx (gdma_tx_finish ch success eof g) = (g_tx g)(ch := (g_tx g ch)\<lparr>tx_active := False\<rparr>)"
  by (simp add: gdma_tx_finish_def gdma_update_irq_def g_notify_def Let_def put_tx_def split: option.split)

lemma chan_get_update_irq [simp]: "chan_get (gdma_update_irq ch r g) = chan_get g"
  by (rule chan_get_cong) (simp_all add: gdma_update_irq_def g_notify_def Let_def split: option.split)

lemma chan_get_put_named:
  assumes "gdma_ok g" "ch < chans g" "named_off off" "named_off off'"
  shows "chan_get (chan_put ch off v g) ch off' = (if off' = off then v else chan_get g ch off')"
  using chan_get_put [OF assms(1,2,2,4), of off v] named_off_unat [OF assms(3)] gdma_okD(3) [OF assms(1)]
    named_pos [OF assms(1-3)] by simp

lemma chans_put [simp]: "chans (chan_put k off v g) = chans g" "chans (put_tx k x g) = chans g"
  "gdma_ok (put_tx k x g) = gdma_ok g"
  by (simp_all add: chans_def gdma_ok_def)

lemma tx_finish_raw:
  assumes "gdma_ok g" "ch < chans g"
  shows "chan_get (gdma_tx_finish ch success eof g) ch (raw_off False) =
           chan_get g ch (raw_off False) OR
           (if success then 9 OR (if eof then 2 else 0) else 4)"
proof -
  have "chan_get (put_tx ch x g) = chan_get g" for x by (rule chan_get_cong) simp_all
  then show ?thesis
    using assms
    by (simp add: gdma_tx_finish_def Let_def in_raw_ena chan_get_put_named
        status_offs [THEN not_sym])
qed

text \<open>How a run of the loop relates the controller before and after.\<close>

definition tx_kept :: "nat \<Rightarrow> 'w flexe_gdma \<Rightarrow> 'w flexe_gdma \<Rightarrow> bool" where
  "tx_kept ch g g' \<longleftrightarrow> gdma_ok g' \<and> ch < chans g' \<and> g_rx g' = g_rx g \<and> (\<forall>k. k \<noteq> ch \<longrightarrow> g_tx g' k = g_tx g k)"

definition tx_failed :: "nat \<Rightarrow> 'w flexe_gdma \<Rightarrow> 'w flexe_gdma \<Rightarrow> bool" where
  "tx_failed ch g g' \<longleftrightarrow> (\<exists>e h. tx_kept ch g h \<and> g' = gdma_tx_finish ch False e h)"

lemma tx_failedI: "tx_kept ch g h \<Longrightarrow> tx_failed ch g (gdma_tx_finish ch False e h)"
  by (auto simp: tx_failed_def)

lemma tx_kept_advance:
  assumes "tx_kept ch g0 g" shows "tx_kept ch g0 (gdma_tx_advance_status ch desc g)"
proof -
  have "same_irq {} g (gdma_tx_advance_status ch desc g)"
    using assms by (simp add: tx_kept_def same_irq_tx_advance same_irq_refl)
  moreover have "g_rx (gdma_tx_advance_status ch desc g) = g_rx g"
    by (simp add: gdma_tx_advance_status_def Let_def put_tx_def)
  ultimately show ?thesis
    using assms same_irq_chans by (fastforce simp: tx_kept_def same_irq_def)
qed

lemma tx_loop_outcome:
  assumes "tx_kept ch g0 g" "length data \<le> n"
  shows "case tx_loop k E ch wb owner n desc data eof g c of
           Inl (data', g', c') \<Rightarrow> length data' \<le> n \<and> tx_failed ch g0 g'
         | Inr (data', eof', g', c') \<Rightarrow> length data' \<le> n \<and> tx_kept ch g0 g'"
  using assms
proof (induction k E ch wb owner n desc data eof g c rule: tx_loop.induct)
  case (2 k E ch wb owner n desc data eof g c)
  have copy: "length bs = m" if "gdma_copy_in E d a m = (bs, d')" for d a m bs d'
  proof -
    have "length (fst (fold (\<lambda>i (bs, c). let (b, c1) = mem_read8 E c (a + of_nat i) in (bs @ [b], c1)) [0 ..< m] ([], d))) = m"
      by (induction m) (auto simp: Let_def split: prod.split)
    then show ?thesis using that by (simp add: gdma_copy_in_def)
  qed
  obtain dw0 buffer next_desc c1 where f: "gdma_fetch E c desc = (dw0, buffer, next_desc, c1)"
    by (metis prod_cases4)
  obtain bs c2 where b: "gdma_copy_in E c1 buffer (desc_valid dw0) = (bs, c2)" by fastforce
  note len = copy [OF b]
  show ?case
  proof (cases "length data < n \<and> desc AND 3 = 0 \<and> gdma_ram_range_valid (mem c) desc GDMA_V1_DESC_BYTES wb \<and>
      \<not> ((owner \<and> dw0 AND GDMA_V1_DESC_OWNER = 0) \<or> desc_valid dw0 = 0 \<or> desc_size dw0 < desc_valid dw0 \<or>
           n - length data < desc_valid dw0 \<or> \<not> gdma_ram_range_valid (mem c1) buffer (desc_valid dw0) False)")
    case False
    then show ?thesis using 2(2,3) by (auto simp: f Let_def tx_failedI)
  next
    case True
    then have d1: "length (data @ bs) \<le> n" using len by auto
    note kept = tx_kept_advance [OF 2(2)]
    show ?thesis
      using True d1 kept b len 2(1) [OF _ _ f [symmetric], simplified]
      by (auto simp: f Let_def tx_failedI)
  qed
qed simp

text \<open>C32. A transmit transfer reports exactly what happened: it returns 0 only when precisely the
  requested number of bytes was copied, and then the channel's raw status shows the transfer
  done and the list exhausted; otherwise it returns -1 with at most that many bytes copied and a
  descriptor error raised. Either way the channel is parked and no other channel is touched.\<close>

theorem gdma_read_tx_outcome:
  assumes "gdma_ok g" "gdma_active_tx_channel g pid = Some ch"
    and "flexe_gdma_read_tx E pid n g c = (r, data, g', c')"
  shows "((r = 0 \<and> length data = n \<and> chan_get g' ch GDMA_V1_OUT_INT_RAW_OFF AND 9 = 9) \<or>
          (r = -1 \<and> length data \<le> n \<and> chan_get g' ch GDMA_V1_OUT_INT_RAW_OFF AND 4 = 4)) \<and>
         \<not> tx_active (g_tx g' ch) \<and> (\<forall>k. k \<noteq> ch \<longrightarrow> g_tx g' k = g_tx g k)"
proof -
  have ch: "ch < chans g" using assms(2)
    by (auto simp: gdma_active_tx_channel_def chans_def find_Some_iff)
  have k0: "tx_kept ch g g" using assms(1) ch by (simp add: tx_kept_def)
  have fin: "chan_get (gdma_tx_finish ch s e h) ch GDMA_V1_OUT_INT_RAW_OFF AND (if s then 9 else 4) =
      (if s then 9 else 4) \<and> \<not> tx_active (g_tx (gdma_tx_finish ch s e h) ch) \<and>
      (\<forall>k. k \<noteq> ch \<longrightarrow> g_tx (gdma_tx_finish ch s e h) k = g_tx g k)" if "tx_kept ch g h" for s e h
    using that by (auto simp: tx_kept_def in_raw_ena tx_finish_raw and.commute bit.conj_disj_distrib)
  define desc where "desc = gd_descriptor_address_prefix (g_desc g) OR tx_link_address (g_tx g ch)"
  define wb where "wb = (chan_get g ch GDMA_V1_OUT_CONF0_OFF AND GDMA_V1_OUT_AUTO_WRBACK \<noteq> 0)"
  define owner where "owner = (chan_get g ch GDMA_V1_OUT_CONF1_OFF AND GDMA_V1_CHECK_OWNER \<noteq> 0)"
  define res where "res = tx_loop GDMA_V1_DESC_LIMIT E ch wb owner n desc [] False g c"
  have eq: "flexe_gdma_read_tx E pid n g c = (case res of
            Inl (data, g1, c1) \<Rightarrow> (-1, data, g1, c1)
          | Inr (data, eof, g1, c1) \<Rightarrow>
              (if length data = n then 0 else -1, data, gdma_tx_finish ch (length data = n) eof g1, c1))"
    by (simp add: flexe_gdma_read_tx_def assms(2) res_def desc_def wb_def owner_def Let_def
        split: sum.split)
  note out = tx_loop_outcome [OF k0, of "[]" n GDMA_V1_DESC_LIMIT E wb owner desc False c, folded res_def]
  show ?thesis
  proof (cases res)
    case (Inl x)
    obtain d1 g1 c1 where x: "x = (d1, g1, c1)" by (metis prod_cases3)
    then obtain e h where "tx_kept ch g h" "g1 = gdma_tx_finish ch False e h" "length d1 \<le> n"
      using out Inl by (auto simp: tx_failed_def)
    then show ?thesis using fin [of h False e] assms(3) by (auto simp: eq Inl x)
  next
    case (Inr x)
    obtain d1 e g1 c1 where x: "x = (d1, e, g1, c1)" by (metis prod_cases4)
    then have "tx_kept ch g g1" "length d1 \<le> n" using out Inr by auto
    then show ?thesis
      using fin [of g1 "length d1 = n" e] assms(3) by (cases "length d1 = n") (auto simp: eq Inr x)
  qed
qed

lemma read_tx_chain:
  assumes "gdma_ok g" "gdma_active_tx_channel g pid = Some ch"
    and "chan_get g ch GDMA_V1_OUT_CONF0_OFF AND GDMA_V1_OUT_AUTO_WRBACK = 0"
    and "tx_chain c (chan_get g ch GDMA_V1_OUT_CONF1_OFF AND GDMA_V1_CHECK_OWNER \<noteq> 0) k
           (gd_descriptor_address_prefix (g_desc g) OR tx_link_address (g_tx g ch)) data"
    and "k \<le> 1024" "length data = n"
  shows "\<exists>g'. flexe_gdma_read_tx E pid n g c = (0, data, g', c) \<and>
              chan_get g' ch GDMA_V1_OUT_INT_RAW_OFF AND 11 = 11"
proof -
  have ch: "ch < chans g" using assms(2)
    by (auto simp: gdma_active_tx_channel_def chans_def find_Some_iff)
  obtain g' where g': "tx_loop GDMA_V1_DESC_LIMIT E ch False
      (chan_get g ch GDMA_V1_OUT_CONF1_OFF AND GDMA_V1_CHECK_OWNER \<noteq> 0) n
      (gd_descriptor_address_prefix (g_desc g) OR tx_link_address (g_tx g ch)) [] False g c =
      Inr (data, True, g', c)" "same_irq {} g g'"
    using tx_loop_chain [OF assms(4), of GDMA_V1_DESC_LIMIT "[]" n g ch E False] assms(1,5,6) ch
    by (auto simp: GDMA_V1_DESC_LIMIT_def)
  have "gdma_ok g'" "ch < chans g'"
    using g'(2) ch same_irq_chans [OF g'(2)] by (simp_all add: same_irq_def)
  then have "chan_get (gdma_tx_finish ch True True g') ch GDMA_V1_OUT_INT_RAW_OFF AND 11 = 11"
    by (simp add: in_raw_ena tx_finish_raw and.commute bit.conj_disj_distrib)
  moreover have "flexe_gdma_read_tx E pid n g c = (0, data, gdma_tx_finish ch True True g', c)"
    using g'(1) assms(2,3,6) by (simp add: flexe_gdma_read_tx_def Let_def)
  ultimately show ?thesis by blast
qed

text \<open>C8. A transmit transfer delivers the chain: when the started channel routed to a peripheral
  points at a chain of at most 1024 descriptors in RAM whose lengths add up to the requested
  count, the peripheral gets exactly the bytes the chain describes, in order, and guest memory
  is not changed (no write-back being asked for).\<close>

theorem gdma_read_tx_delivers_chain:
  assumes "gdma_ok g" "gdma_active_tx_channel g pid = Some ch"
    and "chan_get g ch GDMA_V1_OUT_CONF0_OFF AND GDMA_V1_OUT_AUTO_WRBACK = 0"
    and "tx_chain c (chan_get g ch GDMA_V1_OUT_CONF1_OFF AND GDMA_V1_CHECK_OWNER \<noteq> 0) k
           (gd_descriptor_address_prefix (g_desc g) OR tx_link_address (g_tx g ch)) data"
    and "k \<le> 1024" "length data = n"
  shows "\<exists>g'. flexe_gdma_read_tx E pid n g c = (0, data, g', c) \<and>
              chan_get g' ch GDMA_V1_OUT_INT_RAW_OFF AND 11 = 11"
  by (rule read_tx_chain [OF assms])

section \<open>Witnesses\<close>

text \<open>A controller whose first channel feeds peripheral 6 from a descriptor at 0x3FFB0010, and a
  machine whose RAM holds that descriptor (four valid bytes of four, end of frame, no successor)
  and its buffer at 0x3FFB0040.\<close>

definition sample_gdma_desc :: flexe_gdma_desc where
  "sample_gdma_desc = esp32s3_gdma\<lparr>gd_descriptor_address_prefix := 0x3FF00000\<rparr>"

definition sample_gdma :: "unit periph flexe_gdma" where
  "sample_gdma = (gdma_zero sample_gdma_desc None None None sample_fabric)
     \<lparr>g_regs := (replicate 1024 0)[42 := 6],
      g_tx := (\<lambda>_. \<lparr>tx_link_address = 0xB0010, tx_next_desc = 0, tx_current_desc = 0,
                   tx_previous_desc = 0, tx_active = True\<rparr>)\<rparr>"

definition sample_dma_byte :: "nat \<Rightarrow> u8" where
  "sample_dma_byte i =
     (if i = 0x10010 then 4 else if i = 0x10011 then 0x40 else if i = 0x10013 then 0x40
      else if i = 0x10014 then 0x40 else if i = 0x10016 then 0xFB else if i = 0x10017 then 0x3F
      else if i = 0x10040 then 1 else if i = 0x10041 then 2 else if i = 0x10042 then 3
      else if i = 0x10043 then 4 else 0)"

definition sample_dma_cpu :: "unit cpu" where
  "sample_dma_cpu = sample_cpu\<lparr>mem := sample_mem\<lparr>hbytes := (\<lambda>_. sample_dma_byte)\<rparr>\<rparr>"

lemma sample_gdma_ok: "gdma_ok sample_gdma"
  by (simp add: gdma_ok_def sample_gdma_def gdma_zero_def sample_gdma_desc_def esp32s3_gdma_def)

lemma sample_gdma_active: "gdma_active_tx_channel sample_gdma 6 = Some 0"
  by (simp add: gdma_active_tx_channel_def sample_gdma_def gdma_zero_def sample_gdma_desc_def
      esp32s3_gdma_def gdma_channel_addr_def GDMA_V1_OUT_PERI_SEL_OFF_def upt_rec)

lemma sample_gdma_conf:
  "chan_get sample_gdma 0 GDMA_V1_OUT_CONF0_OFF = 0" "chan_get sample_gdma 0 GDMA_V1_OUT_CONF1_OFF = 0"
  by (simp_all add: chan_get_def reg_get_def gdma_reg_def sample_gdma_def gdma_zero_def sample_gdma_desc_def
      esp32s3_gdma_def gdma_channel_addr_def gdma_offsets)

lemma sample_dma_mem:
  "ram_at 4 sample_dma_cpu 0x3FFB0010 = Some (Backing FLEXE_MEM_SRAM, 0x10010)"
  "ram_at 4 sample_dma_cpu 0x3FFB0014 = Some (Backing FLEXE_MEM_SRAM, 0x10014)"
  "ram_at 4 sample_dma_cpu 0x3FFB0018 = Some (Backing FLEXE_MEM_SRAM, 0x10018)"
  "ram_at 1 sample_dma_cpu 0x3FFB0040 = Some (Backing FLEXE_MEM_SRAM, 0x10040)"
  "ram_at 1 sample_dma_cpu 0x3FFB0041 = Some (Backing FLEXE_MEM_SRAM, 0x10041)"
  "ram_at 1 sample_dma_cpu 0x3FFB0042 = Some (Backing FLEXE_MEM_SRAM, 0x10042)"
  "ram_at 1 sample_dma_cpu 0x3FFB0043 = Some (Backing FLEXE_MEM_SRAM, 0x10043)"
  by (simp_all add: ram_at_def sample_dma_cpu_def sample_mem_def sample_tables_def page_of_def page_off_def
      PAGE_SIZE_def host_in_def hsize_def hptr_add_def esp32_backing_size.simps Let_def)

lemma sample_dma_ram: "ram_byte sample_dma_cpu b i = sample_dma_byte i"
  by (simp add: ram_byte_def sample_dma_cpu_def)

lemma sample_dma_words:
  "ram_word sample_dma_cpu 0x3FFB0010 = Some 0x40004004"
  "ram_word sample_dma_cpu 0x3FFB0014 = Some 0x3FFB0040"
  "ram_word sample_dma_cpu 0x3FFB0018 = Some 0"
  by (simp_all add: ram_word_def sample_dma_mem sample_dma_ram sample_dma_byte_def upt_rec)

lemma sample_dma_bytes:
  assumes "i < 4" shows "ram_u8 sample_dma_cpu (0x3FFB0040 + of_nat i) = Some ([1, 2, 3, 4] ! i)"
proof -
  have "ram_u8 sample_dma_cpu 0x3FFB0040 = Some 1" "ram_u8 sample_dma_cpu 0x3FFB0041 = Some 2"
    "ram_u8 sample_dma_cpu 0x3FFB0042 = Some 3" "ram_u8 sample_dma_cpu 0x3FFB0043 = Some 4"
    by (simp_all only: ram_u8_def sample_dma_mem option.map sample_dma_ram fst_conv snd_conv)
       (simp_all add: sample_dma_byte_def)
  moreover have "i = 0 \<or> i = 1 \<or> i = 2 \<or> i = 3" using assms by linarith
  ultimately show ?thesis by (elim disjE) simp_all
qed

lemma sample_dma_valid:
  "gdma_ram_range_valid (mem sample_dma_cpu) 0x3FFB0010 GDMA_V1_DESC_BYTES False"
  "gdma_ram_range_valid (mem sample_dma_cpu) 0x3FFB0040 4 False"
  by (simp_all add: gdma_ram_range_valid_def GDMA_V1_DESC_BYTES_def Let_def upt_rec sample_dma_cpu_def
      sample_mem_def mem_get_ptr_def page_of_def sample_tables_def)

lemma sample_chain: "tx_chain sample_dma_cpu False 1 0x3FFB0010 [1, 2, 3, 4]"
proof (rule chain_last)
  have len: "length [1, 2, 3, 4 :: u8] = 4" by simp
  have "desc_valid 0x40004004 = 4" "desc_size 0x40004004 = 4"
    by (simp_all add: desc_valid_def desc_size_def)
  then show "tx_desc sample_dma_cpu False 0x3FFB0010 [1, 2, 3, 4] True 0"
    unfolding tx_desc_def len
    using sample_dma_bytes sample_dma_valid by (simp add: sample_dma_words)
qed

theorem gdma_read_tx_outcome_witness:
  "\<exists>r data g' c'. flexe_gdma_read_tx sample_host 6 4 sample_gdma sample_dma_cpu = (r, data, g', c') \<and>
     (r = 0 \<and> length data = 4 \<or> r = -1 \<and> length data \<le> 4) \<and> \<not> tx_active (g_tx g' 0)"
proof -
  obtain r data g' c' where
    e: "flexe_gdma_read_tx sample_host 6 4 sample_gdma sample_dma_cpu = (r, data, g', c')"
    by (metis prod_cases4)
  show ?thesis using gdma_read_tx_outcome [OF sample_gdma_ok sample_gdma_active e] e by blast
qed

theorem gdma_read_tx_delivers_chain_witness:
  "\<exists>g'. flexe_gdma_read_tx sample_host 6 4 sample_gdma sample_dma_cpu = (0, [1, 2, 3, 4], g', sample_dma_cpu) \<and>
        chan_get g' 0 GDMA_V1_OUT_INT_RAW_OFF AND 11 = 11"
proof (rule gdma_read_tx_delivers_chain [OF sample_gdma_ok sample_gdma_active])
  have "gd_descriptor_address_prefix (g_desc sample_gdma) OR tx_link_address (g_tx sample_gdma 0) = 0x3FFB0010"
    by (simp add: sample_gdma_def gdma_zero_def sample_gdma_desc_def)
  then show "tx_chain sample_dma_cpu (chan_get sample_gdma 0 GDMA_V1_OUT_CONF1_OFF AND 0x1000 \<noteq> 0) 1
      (gd_descriptor_address_prefix (g_desc sample_gdma) OR tx_link_address (g_tx sample_gdma 0)) [1, 2, 3, 4]"
    using sample_chain by (simp add: sample_gdma_conf)
qed (simp_all add: sample_gdma_conf)

end
