(* ===== verification/Aes_Core.thy ===== *)
theory Aes_Core
  imports Flexe_Prelude
begin

text \<open>
  The AES block cipher of src/src/aes_stubs.c: substitution tables, key expansion, encryption
  and decryption of one block, and the block modes of the DMA engine. A block is a list of
  sixteen bytes, the round keys a list of 32-bit words.
\<close>

section \<open>Tables and key expansion\<close>

definition SBOX :: "u8 list" where
  "SBOX =
    [0x63, 0x7C, 0x77, 0x7B, 0xF2, 0x6B, 0x6F, 0xC5, 0x30, 0x01, 0x67, 0x2B, 0xFE, 0xD7, 0xAB, 0x76,
     0xCA, 0x82, 0xC9, 0x7D, 0xFA, 0x59, 0x47, 0xF0, 0xAD, 0xD4, 0xA2, 0xAF, 0x9C, 0xA4, 0x72, 0xC0,
     0xB7, 0xFD, 0x93, 0x26, 0x36, 0x3F, 0xF7, 0xCC, 0x34, 0xA5, 0xE5, 0xF1, 0x71, 0xD8, 0x31, 0x15,
     0x04, 0xC7, 0x23, 0xC3, 0x18, 0x96, 0x05, 0x9A, 0x07, 0x12, 0x80, 0xE2, 0xEB, 0x27, 0xB2, 0x75,
     0x09, 0x83, 0x2C, 0x1A, 0x1B, 0x6E, 0x5A, 0xA0, 0x52, 0x3B, 0xD6, 0xB3, 0x29, 0xE3, 0x2F, 0x84,
     0x53, 0xD1, 0x00, 0xED, 0x20, 0xFC, 0xB1, 0x5B, 0x6A, 0xCB, 0xBE, 0x39, 0x4A, 0x4C, 0x58, 0xCF,
     0xD0, 0xEF, 0xAA, 0xFB, 0x43, 0x4D, 0x33, 0x85, 0x45, 0xF9, 0x02, 0x7F, 0x50, 0x3C, 0x9F, 0xA8,
     0x51, 0xA3, 0x40, 0x8F, 0x92, 0x9D, 0x38, 0xF5, 0xBC, 0xB6, 0xDA, 0x21, 0x10, 0xFF, 0xF3, 0xD2,
     0xCD, 0x0C, 0x13, 0xEC, 0x5F, 0x97, 0x44, 0x17, 0xC4, 0xA7, 0x7E, 0x3D, 0x64, 0x5D, 0x19, 0x73,
     0x60, 0x81, 0x4F, 0xDC, 0x22, 0x2A, 0x90, 0x88, 0x46, 0xEE, 0xB8, 0x14, 0xDE, 0x5E, 0x0B, 0xDB,
     0xE0, 0x32, 0x3A, 0x0A, 0x49, 0x06, 0x24, 0x5C, 0xC2, 0xD3, 0xAC, 0x62, 0x91, 0x95, 0xE4, 0x79,
     0xE7, 0xC8, 0x37, 0x6D, 0x8D, 0xD5, 0x4E, 0xA9, 0x6C, 0x56, 0xF4, 0xEA, 0x65, 0x7A, 0xAE, 0x08,
     0xBA, 0x78, 0x25, 0x2E, 0x1C, 0xA6, 0xB4, 0xC6, 0xE8, 0xDD, 0x74, 0x1F, 0x4B, 0xBD, 0x8B, 0x8A,
     0x70, 0x3E, 0xB5, 0x66, 0x48, 0x03, 0xF6, 0x0E, 0x61, 0x35, 0x57, 0xB9, 0x86, 0xC1, 0x1D, 0x9E,
     0xE1, 0xF8, 0x98, 0x11, 0x69, 0xD9, 0x8E, 0x94, 0x9B, 0x1E, 0x87, 0xE9, 0xCE, 0x55, 0x28, 0xDF,
     0x8C, 0xA1, 0x89, 0x0D, 0xBF, 0xE6, 0x42, 0x68, 0x41, 0x99, 0x2D, 0x0F, 0xB0, 0x54, 0xBB, 0x16]"

definition INV_SBOX :: "u8 list" where
  "INV_SBOX =
    [0x52, 0x09, 0x6A, 0xD5, 0x30, 0x36, 0xA5, 0x38, 0xBF, 0x40, 0xA3, 0x9E, 0x81, 0xF3, 0xD7, 0xFB,
     0x7C, 0xE3, 0x39, 0x82, 0x9B, 0x2F, 0xFF, 0x87, 0x34, 0x8E, 0x43, 0x44, 0xC4, 0xDE, 0xE9, 0xCB,
     0x54, 0x7B, 0x94, 0x32, 0xA6, 0xC2, 0x23, 0x3D, 0xEE, 0x4C, 0x95, 0x0B, 0x42, 0xFA, 0xC3, 0x4E,
     0x08, 0x2E, 0xA1, 0x66, 0x28, 0xD9, 0x24, 0xB2, 0x76, 0x5B, 0xA2, 0x49, 0x6D, 0x8B, 0xD1, 0x25,
     0x72, 0xF8, 0xF6, 0x64, 0x86, 0x68, 0x98, 0x16, 0xD4, 0xA4, 0x5C, 0xCC, 0x5D, 0x65, 0xB6, 0x92,
     0x6C, 0x70, 0x48, 0x50, 0xFD, 0xED, 0xB9, 0xDA, 0x5E, 0x15, 0x46, 0x57, 0xA7, 0x8D, 0x9D, 0x84,
     0x90, 0xD8, 0xAB, 0x00, 0x8C, 0xBC, 0xD3, 0x0A, 0xF7, 0xE4, 0x58, 0x05, 0xB8, 0xB3, 0x45, 0x06,
     0xD0, 0x2C, 0x1E, 0x8F, 0xCA, 0x3F, 0x0F, 0x02, 0xC1, 0xAF, 0xBD, 0x03, 0x01, 0x13, 0x8A, 0x6B,
     0x3A, 0x91, 0x11, 0x41, 0x4F, 0x67, 0xDC, 0xEA, 0x97, 0xF2, 0xCF, 0xCE, 0xF0, 0xB4, 0xE6, 0x73,
     0x96, 0xAC, 0x74, 0x22, 0xE7, 0xAD, 0x35, 0x85, 0xE2, 0xF9, 0x37, 0xE8, 0x1C, 0x75, 0xDF, 0x6E,
     0x47, 0xF1, 0x1A, 0x71, 0x1D, 0x29, 0xC5, 0x89, 0x6F, 0xB7, 0x62, 0x0E, 0xAA, 0x18, 0xBE, 0x1B,
     0xFC, 0x56, 0x3E, 0x4B, 0xC6, 0xD2, 0x79, 0x20, 0x9A, 0xDB, 0xC0, 0xFE, 0x78, 0xCD, 0x5A, 0xF4,
     0x1F, 0xDD, 0xA8, 0x33, 0x88, 0x07, 0xC7, 0x31, 0xB1, 0x12, 0x10, 0x59, 0x27, 0x80, 0xEC, 0x5F,
     0x60, 0x51, 0x7F, 0xA9, 0x19, 0xB5, 0x4A, 0x0D, 0x2D, 0xE5, 0x7A, 0x9F, 0x93, 0xC9, 0x9C, 0xEF,
     0xA0, 0xE0, 0x3B, 0x4D, 0xAE, 0x2A, 0xF5, 0xB0, 0xC8, 0xEB, 0xBB, 0x3C, 0x83, 0x53, 0x99, 0x61,
     0x17, 0x2B, 0x04, 0x7E, 0xBA, 0x77, 0xD6, 0x26, 0xE1, 0x69, 0x14, 0x63, 0x55, 0x21, 0x0C, 0x7D]"

definition RCON :: "u8 list" where
  "RCON = [0, 1, 2, 4, 8, 0x10, 0x20, 0x40, 0x80, 0x1B, 0x36]"

definition sbox :: "u8 \<Rightarrow> u8" where "sbox b = SBOX ! unat b"
definition inv_sbox :: "u8 \<Rightarrow> u8" where "inv_sbox b = INV_SBOX ! unat b"

definition sub_word :: "u32 \<Rightarrow> u32" where
  "sub_word w =
     push_bit 24 (ucast (sbox (ucast (drop_bit 24 w)))) OR
     push_bit 16 (ucast (sbox (ucast (drop_bit 16 w)))) OR
     push_bit 8 (ucast (sbox (ucast (drop_bit 8 w)))) OR
     ucast (sbox (ucast w))"

definition rot_word :: "u32 \<Rightarrow> u32" where
  "rot_word w = push_bit 8 w OR drop_bit 24 w"

definition key_word :: "u8 list \<Rightarrow> nat \<Rightarrow> u32" where
  "key_word key i =
     push_bit 24 (ucast (key ! (4 * i))) OR push_bit 16 (ucast (key ! (4 * i + 1))) OR
     push_bit 8 (ucast (key ! (4 * i + 2))) OR ucast (key ! (4 * i + 3))"

text \<open>Key words and rounds for a key length; an unknown length counts as AES-128.\<close>

definition key_geometry :: "nat \<Rightarrow> nat \<times> nat" where
  "key_geometry key_bytes =
     (case key_bytes div 4 of nk \<Rightarrow>
        if nk = 4 then (4, 10) else if nk = 6 then (6, 12) else if nk = 8 then (8, 14) else (4, 10))"

definition next_round_word :: "nat \<Rightarrow> u32 list \<Rightarrow> nat \<Rightarrow> u32" where
  "next_round_word nk rk i =
     (let temp = rk ! (i - 1);
          temp1 = (if i mod nk = 0
                   then sub_word (rot_word temp) XOR push_bit 24 (ucast (RCON ! (i div nk)))
                   else if 6 < nk \<and> i mod nk = 4 then sub_word temp else temp)
      in rk ! (i - nk) XOR temp1)"

definition aes_key_expand :: "u8 list \<Rightarrow> nat \<Rightarrow> u32 list \<times> nat" where
  "aes_key_expand key key_bytes =
     (let (nk, nr) = key_geometry key_bytes;
          rk = fold (\<lambda>i rk. rk @ [next_round_word nk rk i]) [nk ..< 4 * (nr + 1)]
                 (map (key_word key) [0 ..< nk])
      in (rk, nr))"

section \<open>One block\<close>

definition xtime :: "u8 \<Rightarrow> u8" where
  "xtime x = push_bit 1 x XOR (drop_bit 7 x AND 1) * 0x1B"

text \<open>The round key of round \<open>r\<close> is the four words from \<open>4 r\<close> on, most significant byte first.\<close>

definition add_round_key :: "u32 list \<Rightarrow> nat \<Rightarrow> u8 list \<Rightarrow> u8 list" where
  "add_round_key rk r s =
     map (\<lambda>i. s ! i XOR ucast (drop_bit (24 - 8 * (i mod 4)) (rk ! (r * 4 + i div 4)))) [0 ..< 16]"

definition sub_bytes :: "u8 list \<Rightarrow> u8 list" where "sub_bytes s = map sbox s"
definition inv_sub_bytes :: "u8 list \<Rightarrow> u8 list" where "inv_sub_bytes s = map inv_sbox s"

text \<open>The rotations of the rows, which the code does by cycles of assignments.\<close>

definition shift_rows :: "u8 list \<Rightarrow> u8 list" where
  "shift_rows s = map (\<lambda>i. s ! i) [0, 5, 10, 15, 4, 9, 14, 3, 8, 13, 2, 7, 12, 1, 6, 11]"

definition inv_shift_rows :: "u8 list \<Rightarrow> u8 list" where
  "inv_shift_rows s = map (\<lambda>i. s ! i) [0, 13, 10, 7, 4, 1, 14, 11, 8, 5, 2, 15, 12, 9, 6, 3]"

definition mix_column :: "u8 \<Rightarrow> u8 \<Rightarrow> u8 \<Rightarrow> u8 \<Rightarrow> u8 list" where
  "mix_column a0 a1 a2 a3 =
     (let x0 = xtime a0; x1 = xtime a1; x2 = xtime a2; x3 = xtime a3 in
      [x0 XOR x1 XOR a1 XOR a2 XOR a3, a0 XOR x1 XOR x2 XOR a2 XOR a3,
       a0 XOR a1 XOR x2 XOR x3 XOR a3, x0 XOR a0 XOR a1 XOR a2 XOR x3])"

text \<open>The loop of \<open>mul\<close>: the result so far, the shifted multiplicand, the rest of the factor.\<close>

definition mul_step :: "u8 \<times> u8 \<times> u8 \<Rightarrow> u8 \<times> u8 \<times> u8" where
  "mul_step s =
     (let (r, a, b) = s;
          r1 = (if b AND 1 \<noteq> 0 then r XOR a else r);
          a1 = (if a AND 0x80 \<noteq> 0 then push_bit 1 a XOR 0x1B else push_bit 1 a)
      in (r1, a1, drop_bit 1 b))"

definition mul :: "u8 \<Rightarrow> u8 \<Rightarrow> u8" where
  "mul a b = fst ((mul_step ^^ 8) (0, a, b))"

definition inv_mix_column :: "u8 \<Rightarrow> u8 \<Rightarrow> u8 \<Rightarrow> u8 \<Rightarrow> u8 list" where
  "inv_mix_column a0 a1 a2 a3 =
     [mul a0 0x0E XOR mul a1 0x0B XOR mul a2 0x0D XOR mul a3 0x09,
      mul a0 0x09 XOR mul a1 0x0E XOR mul a2 0x0B XOR mul a3 0x0D,
      mul a0 0x0D XOR mul a1 0x09 XOR mul a2 0x0E XOR mul a3 0x0B,
      mul a0 0x0B XOR mul a1 0x0D XOR mul a2 0x09 XOR mul a3 0x0E]"

definition on_columns :: "(u8 \<Rightarrow> u8 \<Rightarrow> u8 \<Rightarrow> u8 \<Rightarrow> u8 list) \<Rightarrow> u8 list \<Rightarrow> u8 list" where
  "on_columns f s =
     concat (map (\<lambda>c. f (s ! (4 * c)) (s ! (4 * c + 1)) (s ! (4 * c + 2)) (s ! (4 * c + 3))) [0 ..< 4])"

definition encrypt_round :: "u32 list \<Rightarrow> nat \<Rightarrow> nat \<Rightarrow> u8 list \<Rightarrow> u8 list" where
  "encrypt_round rk nr r s =
     (let s1 = shift_rows (sub_bytes s);
          s2 = (if r < nr then on_columns mix_column s1 else s1)
      in add_round_key rk r s2)"

definition aes_encrypt_block :: "u32 list \<Rightarrow> nat \<Rightarrow> u8 list \<Rightarrow> u8 list" where
  "aes_encrypt_block rk nr inp =
     fold (encrypt_round rk nr) [1 ..< nr + 1] (add_round_key rk 0 inp)"

definition decrypt_round :: "u32 list \<Rightarrow> nat \<Rightarrow> u8 list \<Rightarrow> u8 list" where
  "decrypt_round rk r s =
     (let s1 = add_round_key rk r (inv_sub_bytes (inv_shift_rows s))
      in if 0 < r then on_columns inv_mix_column s1 else s1)"

definition aes_decrypt_block :: "u32 list \<Rightarrow> nat \<Rightarrow> u8 list \<Rightarrow> u8 list" where
  "aes_decrypt_block rk nr inp =
     fold (decrypt_round rk) (rev [0 ..< nr]) (add_round_key rk nr inp)"

section \<open>Block modes\<close>

datatype aes_block_mode = ECB | CBC | OFB | CTR | CFB8 | CFB128

text \<open>Big-endian increment of the last four bytes, or of the whole block; \<open>i\<close> bytes are left.\<close>

fun counter_carry :: "nat \<Rightarrow> nat \<Rightarrow> u8 list \<Rightarrow> u8 list" where
  "counter_carry first 0 ctr = ctr"
| "counter_carry first (Suc i) ctr =
     (if i < first then ctr
      else let ctr1 = ctr[i := ctr ! i + 1]
           in if ctr1 ! i \<noteq> 0 then ctr1 else counter_carry first i ctr1)"

definition aes_counter_increment :: "u8 list \<Rightarrow> bool \<Rightarrow> u8 list" where
  "aes_counter_increment ctr increment_128 = counter_carry (if increment_128 then 0 else 12) 16 ctr"

definition aes_xor_block :: "u8 list \<Rightarrow> u8 list \<Rightarrow> u8 list" where
  "aes_xor_block l r = map (\<lambda>i. l ! i XOR r ! i) [0 ..< 16]"

text \<open>One byte of CFB-8: the output byte and the shifted register.\<close>

definition cfb8_byte :: "u32 list \<Rightarrow> nat \<Rightarrow> bool \<Rightarrow> u8 \<Rightarrow> u8 list \<Rightarrow> u8 \<times> u8 list" where
  "cfb8_byte rk nr decrypt b iv =
     (let out = b XOR aes_encrypt_block rk nr iv ! 0
      in (out, tl iv @ [if decrypt then b else out]))"

fun cfb8_bytes :: "u32 list \<Rightarrow> nat \<Rightarrow> bool \<Rightarrow> u8 list \<Rightarrow> u8 list \<Rightarrow> u8 list \<times> u8 list" where
  "cfb8_bytes rk nr decrypt [] iv = ([], iv)"
| "cfb8_bytes rk nr decrypt (b # bs) iv =
     (let (out, iv1) = cfb8_byte rk nr decrypt b iv;
          (outs, iv2) = cfb8_bytes rk nr decrypt bs iv1
      in (out # outs, iv2))"

text \<open>One block of a DMA transfer: the output block and the next chaining value.\<close>

definition aes_mode_block ::
  "aes_block_mode \<Rightarrow> bool \<Rightarrow> bool \<Rightarrow> u32 list \<Rightarrow> nat \<Rightarrow> u8 list \<Rightarrow> u8 list \<Rightarrow> u8 list \<times> u8 list" where
  "aes_mode_block mode decrypt inc128 rk nr inp iv =
     (case mode of
        ECB \<Rightarrow> (if decrypt then aes_decrypt_block rk nr inp else aes_encrypt_block rk nr inp, iv)
      | CBC \<Rightarrow>
          if decrypt then (aes_xor_block (aes_decrypt_block rk nr inp) iv, inp)
          else let out = aes_encrypt_block rk nr (aes_xor_block inp iv) in (out, out)
      | OFB \<Rightarrow> let stream = aes_encrypt_block rk nr iv in (aes_xor_block inp stream, stream)
      | CTR \<Rightarrow> (aes_xor_block inp (aes_encrypt_block rk nr iv), aes_counter_increment iv inc128)
      | CFB8 \<Rightarrow> cfb8_bytes rk nr decrypt inp iv
      | CFB128 \<Rightarrow>
          let out = aes_xor_block inp (aes_encrypt_block rk nr iv)
          in (out, if decrypt then inp else out))"

fun aes_mode_blocks ::
  "aes_block_mode \<Rightarrow> bool \<Rightarrow> bool \<Rightarrow> u32 list \<Rightarrow> nat \<Rightarrow> u8 list list \<Rightarrow> u8 list \<Rightarrow> u8 list list \<times> u8 list" where
  "aes_mode_blocks mode decrypt inc128 rk nr [] iv = ([], iv)"
| "aes_mode_blocks mode decrypt inc128 rk nr (b # bs) iv =
     (let (out, iv1) = aes_mode_block mode decrypt inc128 rk nr b iv;
          (outs, iv2) = aes_mode_blocks mode decrypt inc128 rk nr bs iv1
      in (out # outs, iv2))"

section \<open>The layers are inverse to each other\<close>

lemma inv_sbox_table: "map (\<lambda>b. INV_SBOX ! unat b) SBOX = map of_nat [0 ..< 256]"
  by code_simp

lemma inv_sbox_sbox [simp]: "inv_sbox (sbox b) = b"
proof -
  have "unat b < 256" using unsigned_less [of b, where ?'a = nat] by simp
  then have "map (\<lambda>b. INV_SBOX ! unat b) SBOX ! unat b = map of_nat [0 ..< 256] ! unat b"
    by (simp only: inv_sbox_table)
  moreover have "length SBOX = 256" by (simp add: SBOX_def)
  ultimately show ?thesis
    using \<open>unat b < 256\<close> by (simp add: inv_sbox_def sbox_def)
qed

lemma inv_sub_bytes [simp]: "inv_sub_bytes (sub_bytes s) = s"
  by (simp add: inv_sub_bytes_def sub_bytes_def comp_def)

end
