(* ===== verification/Aes.thy ===== *)
theory Aes
  imports Aes_Core Gdma
begin

text \<open>
  The AES accelerator of src/src/aes_stubs.c: the register-level device in its two layouts (the
  original ESP32 block engine and the S2/S3 generation with chaining modes over DMA), its clock,
  reset and interrupt, and the stubs that replace the ESP-IDF HAL functions. The device state is
  \<open>aes_stubs\<close>; \<open>aes_sys\<close> puts it beside what its pointers reach: the DMA controller, the
  peripheral fabric (\<open>system_periph\<close>, the same fabric the DMA controller's callbacks act on), the
  processor whose memory the DMA transfers use, and the handlers its register page had before.
\<close>

section \<open>State\<close>

datatype aes_layout = AES_LAYOUT_NONE | AES_LAYOUT_ESP32 | AES_LAYOUT_S2_S3

record flexe_aes_desc =
  ad_base :: u32
  ad_register_size :: u32
  ad_date_reset :: u32
  ad_layout :: aes_layout
  ad_key_size_mask :: u8
  ad_dma_peripheral_id :: u8
  ad_interrupt_source :: u8

definition AES_DMA_MAX_BYTES :: nat where "AES_DMA_MAX_BYTES = 1024 * 4095"
definition AES_STATE_IDLE :: u32 where "AES_STATE_IDLE = 0"
definition AES_STATE_BUSY :: u32 where "AES_STATE_BUSY = 1"
definition AES_STATE_DONE :: u32 where "AES_STATE_DONE = 2"
definition AES_MODE_ENCRYPT :: u32 where "AES_MODE_ENCRYPT = 1"

record aes_stubs =
  as_desc :: flexe_aes_desc
  as_attached :: bool
  as_clock_enabled :: bool
  as_reset_asserted :: bool
  as_interrupt_pending :: bool
  as_round_key :: "nat \<Rightarrow> u32 list"
  as_nr :: "nat \<Rightarrow> nat"
  as_mode :: "nat \<Rightarrow> u32"
  as_key :: "u32 list"
  as_text_in :: "u32 list"
  as_text_out :: "u32 list"
  as_iv :: "u32 list"
  as_hw_mode :: u32
  as_endian :: u32
  as_state :: u32
  as_dma_enable :: u32
  as_block_mode :: u32
  as_block_num :: u32
  as_inc_sel :: u32
  as_aad_num :: u32
  as_valid_bits :: u32
  as_int_enable :: u32
  as_date :: u32
  as_warned_dma :: bool
  as_warned_continue :: bool

record ('d, 'e) aes_sys =
  y_as :: aes_stubs
  y_gdma :: "'e periph flexe_gdma option"
  y_periph :: "'e periph"
  y_cpu :: "'d cpu"
  y_fallback_read :: "(u32 \<Rightarrow> 'e periph \<Rightarrow> u32 \<times> 'e periph) option"
  y_fallback_write :: "(u32 \<Rightarrow> u32 \<Rightarrow> 'e periph \<Rightarrow> 'e periph) option"

definition y_put :: "aes_stubs \<Rightarrow> ('d, 'e) aes_sys \<Rightarrow> ('d, 'e) aes_sys" where
  "y_put a s = s\<lparr>y_as := a\<rparr>"

section \<open>Transforms\<close>

definition aes_word_to_bytes :: "u32 \<Rightarrow> u8 list" where
  "aes_word_to_bytes w = [ucast w, ucast (drop_bit 8 w), ucast (drop_bit 16 w), ucast (drop_bit 24 w)]"

definition aes_bytes_to_word :: "u8 list \<Rightarrow> u32" where
  "aes_bytes_to_word bs =
     ucast (bs ! 0) OR push_bit 8 (ucast (bs ! 1)) OR push_bit 16 (ucast (bs ! 2)) OR
     push_bit 24 (ucast (bs ! 3))"

text \<open>Round keys and rounds for the key size of the mode register, if the target has it.\<close>

definition aes_mode_key :: "aes_stubs \<Rightarrow> (u32 list \<times> nat) option" where
  "aes_mode_key a =
     (let code = unat (as_hw_mode a AND 3) in
      if 2 < code \<or> ad_key_size_mask (as_desc a) AND push_bit code 1 = 0 then None
      else
        let key_bytes = 16 + code * 8;
            key = concat (map (\<lambda>i. aes_word_to_bytes (as_key a ! i)) [0 ..< key_bytes div 4])
        in Some (aes_key_expand (key @ replicate (32 - length key) 0) key_bytes))"

definition aes_words_to_block :: "u32 list \<Rightarrow> u8 list" where
  "aes_words_to_block ws = concat (map (\<lambda>i. aes_word_to_bytes (ws ! i)) [0 ..< 4])"

definition aes_block_to_words :: "u8 list \<Rightarrow> u32 list" where
  "aes_block_to_words bs = map (\<lambda>i. aes_bytes_to_word (drop (4 * i) bs)) [0 ..< 4]"

definition aes_transform_direct :: "aes_stubs \<Rightarrow> bool \<times> aes_stubs" where
  "aes_transform_direct a =
     (case aes_mode_key a of
        None \<Rightarrow> (False, a)
      | Some (rk, nr) \<Rightarrow>
          let inp = aes_words_to_block (as_text_in a);
              out = (if as_hw_mode a AND 4 \<noteq> 0 then aes_decrypt_block rk nr inp
                     else aes_encrypt_block rk nr inp)
          in (True,
              if ad_layout (as_desc a) = AES_LAYOUT_ESP32
              then a\<lparr>as_text_in := aes_block_to_words out\<rparr>
              else a\<lparr>as_text_out := aes_block_to_words out\<rparr>))"

definition aes_mode_of :: "u32 \<Rightarrow> aes_block_mode" where
  "aes_mode_of m =
     (if m = 0 then ECB else if m = 1 then CBC else if m = 2 then OFB else if m = 3 then CTR
      else if m = 4 then CFB8 else CFB128)"

definition blocks_of :: "nat \<Rightarrow> u8 list \<Rightarrow> u8 list list" where
  "blocks_of n data = map (\<lambda>i. take 16 (drop (16 * i) data)) [0 ..< n]"

text \<open>The bytes a transfer produces and the chaining value it ends with.\<close>

definition aes_dma_output :: "aes_stubs \<Rightarrow> u32 list \<times> nat \<Rightarrow> u8 list \<Rightarrow> u8 list \<times> u8 list" where
  "aes_dma_output a key data =
     (let (outs, iv) = aes_mode_blocks (aes_mode_of (as_block_mode a)) (as_hw_mode a AND 4 \<noteq> 0)
                         (as_inc_sel a \<noteq> 0) (fst key) (snd key)
                         (blocks_of (unat (as_block_num a)) data) (aes_words_to_block (as_iv a))
      in (concat outs, iv))"

text \<open>The DMA controller at work on the fabric and the memory of the system.\<close>

definition y_read_tx :: "'d host \<Rightarrow> u8 \<Rightarrow> nat \<Rightarrow> 'e periph flexe_gdma \<Rightarrow> ('d, 'e) aes_sys \<Rightarrow>
    int \<times> u8 list \<times> ('d, 'e) aes_sys" where
  "y_read_tx E pid n g s =
     (case flexe_gdma_read_tx E pid n (g\<lparr>g_world := y_periph s\<rparr>) (y_cpu s) of
        (r, data, g1, c1) \<Rightarrow>
          (r, data, s\<lparr>y_gdma := Some g1, y_periph := g_world g1, y_cpu := c1\<rparr>))"

definition y_write_rx :: "'d host \<Rightarrow> u8 \<Rightarrow> u8 list \<Rightarrow> ('d, 'e) aes_sys \<Rightarrow> int \<times> ('d, 'e) aes_sys" where
  "y_write_rx E pid data s =
     (case y_gdma s of
        None \<Rightarrow> (-1, s)
      | Some g \<Rightarrow>
          case flexe_gdma_write_rx E pid data (g\<lparr>g_world := y_periph s\<rparr>) (y_cpu s) of
            (r, g1, c1) \<Rightarrow> (r, s\<lparr>y_gdma := Some g1, y_periph := g_world g1, y_cpu := c1\<rparr>))"

text \<open>\<open>alloc\<close> is whether the two transfer buffers can be allocated.\<close>

definition aes_transform_dma ::
  "bool \<Rightarrow> 'd host \<Rightarrow> ('d, 'e) aes_sys \<Rightarrow> bool \<times> ('d, 'e) aes_sys" where
  "aes_transform_dma alloc E s =
     (let a = y_as s; pid = ad_dma_peripheral_id (as_desc a); n = unat (as_block_num a) in
      case aes_mode_key a of
        None \<Rightarrow> (False, s)
      | Some key \<Rightarrow>
          (case y_gdma s of
             None \<Rightarrow> (False, s)
           | Some g \<Rightarrow>
               if pid = 0xFF \<or> n = 0 \<or> AES_DMA_MAX_BYTES div 16 < n \<or> 5 < as_block_mode a
               then (False, s)
               else if \<not> alloc then (False, s)
               else
                 (case y_read_tx E pid (n * 16) g s of
                    (r, data, s1) \<Rightarrow>
                      if r \<noteq> 0 then (False, s1)
                      else
                        (case aes_dma_output a key data of
                           (out, iv) \<Rightarrow>
                             (case y_write_rx E pid out s1 of
                                (r2, s2) \<Rightarrow>
                                  (r2 = 0,
                                   if r2 = 0 \<and> as_block_mode a \<noteq> 0
                                   then y_put ((y_as s2)\<lparr>as_iv := aes_block_to_words iv\<rparr>) s2
                                   else s2))))))"

section \<open>Interrupt, reset, trigger\<close>

definition aes_operational :: "aes_stubs \<Rightarrow> bool" where
  "aes_operational a \<longleftrightarrow> as_clock_enabled a \<and> \<not> as_reset_asserted a"

definition aes_update_interrupt :: "'e periph_env \<Rightarrow> ('d, 'e) aes_sys \<Rightarrow> ('d, 'e) aes_sys" where
  "aes_update_interrupt D s =
     (let a = y_as s; source = ad_interrupt_source (as_desc a) in
      if \<not> as_attached a \<or> source = 0xFF then s
      else if as_interrupt_pending a \<and> as_int_enable a \<noteq> 0 \<and> aes_operational a
      then s\<lparr>y_periph := periph_assert_interrupt_status D (y_periph s) (uint source) 1\<rparr>
      else s\<lparr>y_periph := periph_deassert_interrupt D (y_periph s) (uint source)\<rparr>)"

definition aes_reset_registers :: "aes_stubs \<Rightarrow> aes_stubs" where
  "aes_reset_registers a =
     a\<lparr>as_key := replicate 8 0, as_text_in := replicate 4 0, as_text_out := replicate 4 0,
       as_iv := replicate 4 0, as_hw_mode := 0, as_endian := 0, as_state := AES_STATE_IDLE,
       as_dma_enable := 0, as_block_mode := 0, as_block_num := 0, as_inc_sel := 0,
       as_aad_num := 0, as_valid_bits := 0, as_int_enable := 0,
       as_date := ad_date_reset (as_desc a), as_interrupt_pending := False\<rparr>"

definition aes_hardware_reset :: "'e periph_env \<Rightarrow> ('d, 'e) aes_sys \<Rightarrow> ('d, 'e) aes_sys" where
  "aes_hardware_reset D s = aes_update_interrupt D (y_put (aes_reset_registers (y_as s)) s)"

definition aes_system_state_changed ::
  "'e periph_env \<Rightarrow> bool \<Rightarrow> bool \<Rightarrow> ('d, 'e) aes_sys \<Rightarrow> ('d, 'e) aes_sys" where
  "aes_system_state_changed D clock_enabled reset_asserted s =
     (let a = y_as s; rising = (reset_asserted \<and> \<not> as_reset_asserted a);
          s1 = y_put (a\<lparr>as_clock_enabled := clock_enabled, as_reset_asserted := reset_asserted\<rparr>) s;
          s2 = (if rising then aes_hardware_reset D s1 else s1)
      in aes_update_interrupt D s2)"

definition aes_trigger ::
  "bool \<Rightarrow> 'd host \<Rightarrow> 'e periph_env \<Rightarrow> ('d, 'e) aes_sys \<Rightarrow> ('d, 'e) aes_sys" where
  "aes_trigger alloc E D s =
     (let a = y_as s in
      if \<not> aes_operational a then s
      else
        let s1 = y_put (a\<lparr>as_state := AES_STATE_BUSY\<rparr>) s in
        if ad_layout (as_desc a) = AES_LAYOUT_S2_S3 \<and> as_dma_enable a \<noteq> 0 then
          (case aes_transform_dma alloc E s1 of
             (success, s2) \<Rightarrow>
               if success
               then aes_update_interrupt D
                      (y_put ((y_as s2)\<lparr>as_state := AES_STATE_DONE, as_interrupt_pending := True\<rparr>) s2)
               else y_put ((y_as s2)\<lparr>as_state := AES_STATE_IDLE, as_warned_dma := True\<rparr>) s2)
        else
          y_put ((snd (aes_transform_direct (y_as s1)))\<lparr>as_state := AES_STATE_IDLE\<rparr>) s1)"

section \<open>Registers\<close>

definition aes_reg_read :: "aes_stubs \<Rightarrow> u32 \<Rightarrow> u32 option" where
  "aes_reg_read a off =
     (case ad_layout (as_desc a) of
        AES_LAYOUT_ESP32 \<Rightarrow>
          if 0x10 \<le> off \<and> off < 0x30 then Some (as_key a ! (unat (off - 0x10) div 4))
          else if 0x30 \<le> off \<and> off < 0x40 then Some (as_text_in a ! (unat (off - 0x30) div 4))
          else if off = 0 then Some 0
          else if off = 4 then Some 1
          else if off = 8 then Some (as_hw_mode a)
          else if off = 0x40 then Some (as_endian a)
          else None
      | AES_LAYOUT_S2_S3 \<Rightarrow>
          if off < 0x20 then Some (as_key a ! (unat off div 4))
          else if 0x20 \<le> off \<and> off < 0x30 then Some (as_text_in a ! (unat (off - 0x20) div 4))
          else if 0x30 \<le> off \<and> off < 0x40 then Some (as_text_out a ! (unat (off - 0x30) div 4))
          else if 0x50 \<le> off \<and> off < 0x60 then Some (as_iv a ! (unat (off - 0x50) div 4))
          else if off = 0x40 then Some (as_hw_mode a)
          else if off = 0x44 then Some (as_endian a)
          else if off = 0x48 then Some 0
          else if off = 0x4C then Some (as_state a)
          else if off = 0x90 then Some (as_dma_enable a)
          else if off = 0x94 then Some (as_block_mode a)
          else if off = 0x98 then Some (as_block_num a)
          else if off = 0x9C then Some (as_inc_sel a)
          else if off = 0xA0 then Some (as_aad_num a)
          else if off = 0xA4 then Some (as_valid_bits a)
          else if off = 0xA8 then Some 0
          else if off = 0xAC then Some 0
          else if off = 0xB0 then Some (as_int_enable a)
          else if off = 0xB4 then Some (as_date a)
          else if off = 0xB8 then Some 0
          else None
      | AES_LAYOUT_NONE \<Rightarrow> None)"

definition y_fallback :: "('d, 'e) aes_sys \<Rightarrow> u32 \<Rightarrow> u32 \<times> ('d, 'e) aes_sys" where
  "y_fallback s addr =
     (case y_fallback_read s of
        None \<Rightarrow> (0, s)
      | Some f \<Rightarrow> case f addr (y_periph s) of (v, p) \<Rightarrow> (v, s\<lparr>y_periph := p\<rparr>))"

definition y_fall_write :: "('d, 'e) aes_sys \<Rightarrow> u32 \<Rightarrow> u32 \<Rightarrow> ('d, 'e) aes_sys" where
  "y_fall_write s addr v =
     (case y_fallback_write s of None \<Rightarrow> s | Some f \<Rightarrow> s\<lparr>y_periph := f addr v (y_periph s)\<rparr>)"

definition aes_in_page :: "flexe_aes_desc \<Rightarrow> u32 \<Rightarrow> bool" where
  "aes_in_page d addr \<longleftrightarrow> \<not> (addr < ad_base d \<or> ad_base d + ad_register_size d \<le> addr)"

definition aes_mmio_read :: "('d, 'e) aes_sys \<Rightarrow> u32 \<Rightarrow> u32 \<times> ('d, 'e) aes_sys" where
  "aes_mmio_read s addr =
     (let a = y_as s; d = as_desc a in
      if \<not> aes_in_page d addr then y_fallback s addr
      else case aes_reg_read a (addr - ad_base d) of
          Some v \<Rightarrow> (v, s)
        | None \<Rightarrow> y_fallback s addr)"

text \<open>The registers that only hold a value; \<open>None\<close> for the others.\<close>

definition aes_reg_store :: "aes_stubs \<Rightarrow> u32 \<Rightarrow> u32 \<Rightarrow> aes_stubs option" where
  "aes_reg_store a off v =
     (case ad_layout (as_desc a) of
        AES_LAYOUT_ESP32 \<Rightarrow>
          if 0x10 \<le> off \<and> off < 0x30 then Some (a\<lparr>as_key := (as_key a)[unat (off - 0x10) div 4 := v]\<rparr>)
          else if 0x30 \<le> off \<and> off < 0x40
          then Some (a\<lparr>as_text_in := (as_text_in a)[unat (off - 0x30) div 4 := v]\<rparr>)
          else if off = 8 then Some (a\<lparr>as_hw_mode := v AND 7\<rparr>)
          else if off = 0x40 then Some (a\<lparr>as_endian := v\<rparr>)
          else if off = 4 then Some a
          else None
      | AES_LAYOUT_S2_S3 \<Rightarrow>
          if off < 0x20 then Some (a\<lparr>as_key := (as_key a)[unat off div 4 := v]\<rparr>)
          else if 0x20 \<le> off \<and> off < 0x30
          then Some (a\<lparr>as_text_in := (as_text_in a)[unat (off - 0x20) div 4 := v]\<rparr>)
          else if 0x30 \<le> off \<and> off < 0x40
          then Some (a\<lparr>as_text_out := (as_text_out a)[unat (off - 0x30) div 4 := v]\<rparr>)
          else if 0x50 \<le> off \<and> off < 0x60
          then Some (a\<lparr>as_iv := (as_iv a)[unat (off - 0x50) div 4 := v]\<rparr>)
          else if off = 0x40 then Some (a\<lparr>as_hw_mode := v AND 7\<rparr>)
          else if off = 0x44 then Some (a\<lparr>as_endian := v AND 0x3F\<rparr>)
          else if off = 0x4C then Some a
          else if off = 0x90 then Some (a\<lparr>as_dma_enable := v AND 1\<rparr>)
          else if off = 0x94 then Some (a\<lparr>as_block_mode := v AND 7\<rparr>)
          else if off = 0x98 then Some (a\<lparr>as_block_num := v\<rparr>)
          else if off = 0x9C then Some (a\<lparr>as_inc_sel := v AND 1\<rparr>)
          else if off = 0xA0 then Some (a\<lparr>as_aad_num := v\<rparr>)
          else if off = 0xA4 then Some (a\<lparr>as_valid_bits := v AND 0x7F\<rparr>)
          else if off = 0xA8
          then Some (if v AND 1 \<noteq> 0 then a\<lparr>as_warned_continue := True\<rparr> else a)
          else if off = 0xB4 then Some (a\<lparr>as_date := v AND 0x3FFFFFFF\<rparr>)
          else if off = 0xB8 then Some (a\<lparr>as_state := AES_STATE_IDLE\<rparr>)
          else None
      | AES_LAYOUT_NONE \<Rightarrow> None)"

definition aes_mmio_write ::
  "bool \<Rightarrow> 'd host \<Rightarrow> 'e periph_env \<Rightarrow> ('d, 'e) aes_sys \<Rightarrow> u32 \<Rightarrow> u32 \<Rightarrow> ('d, 'e) aes_sys" where
  "aes_mmio_write alloc E D s addr v =
     (let a = y_as s; d = as_desc a; off = addr - ad_base d in
      if \<not> aes_in_page d addr then y_fall_write s addr v
      else if as_reset_asserted a then s
      else case aes_reg_store a off v of
          Some a1 \<Rightarrow> y_put a1 s
        | None \<Rightarrow>
            if ad_layout d = AES_LAYOUT_ESP32 \<and> off = 0 \<or> ad_layout d = AES_LAYOUT_S2_S3 \<and> off = 0x48
            then if v AND 1 \<noteq> 0 then aes_trigger alloc E D s else s
            else if ad_layout d = AES_LAYOUT_S2_S3 \<and> off = 0xAC
            then if v AND 1 \<noteq> 0
                 then aes_update_interrupt D (y_put (a\<lparr>as_interrupt_pending := False\<rparr>) s) else s
            else if ad_layout d = AES_LAYOUT_S2_S3 \<and> off = 0xB0
            then aes_update_interrupt D (y_put (a\<lparr>as_int_enable := v AND 1\<rparr>) s)
            else y_fall_write s addr v)"

section \<open>HAL stubs\<close>

definition aes_arg :: "'d cpu \<Rightarrow> nat \<Rightarrow> u32" where
  "aes_arg c n = ar_read c (XT_PS_CALLINC (ps c) * 4 + 2 + n)"

definition aes_jump_back :: "'d cpu \<Rightarrow> u32 \<Rightarrow> 'd cpu" where
  "aes_jump_back c a0 = c\<lparr>pc := (pc c AND 0xC0000000) OR (a0 AND 0x3FFFFFFF)\<rparr>"

definition aes_return_void :: "'d cpu \<Rightarrow> 'd cpu" where
  "aes_return_void c =
     (let ci = XT_PS_CALLINC (ps c) in
      if 0 < ci then let c1 = aes_jump_back c (ar_read c (ci * 4)) in c1\<lparr>ps := XT_PS_SET_CALLINC (ps c1) 0\<rparr>
      else aes_jump_back c (ar_read c 0))"

definition aes_return :: "'d cpu \<Rightarrow> u32 \<Rightarrow> 'd cpu" where
  "aes_return c retval =
     (let ci = XT_PS_CALLINC (ps c) in
      if 0 < ci then aes_return_void (ar_write c (ci * 4 + 2) retval)
      else aes_return_void (ar_write c 2 retval))"

definition stub_aes_acquire_hardware :: "'d cpu \<Rightarrow> 'd cpu" where
  "stub_aes_acquire_hardware c = aes_return_void c"

definition stub_aes_release_hardware :: "'d cpu \<Rightarrow> 'd cpu" where
  "stub_aes_release_hardware c = aes_return_void c"

text \<open>\<open>stack\<close> is what the 32 bytes of the uninitialised key array hold.\<close>

definition stub_aes_hal_setkey ::
  "u8 list \<Rightarrow> 'd host \<Rightarrow> aes_stubs \<times> 'd cpu \<Rightarrow> aes_stubs \<times> 'd cpu" where
  "stub_aes_hal_setkey stack E s =
     (let (a, c) = s; key_ptr = aes_arg c 0; mode = aes_arg c 2; k = core_id c;
          key_bytes = (if 32 < aes_arg c 1 then 32 else aes_arg c 1);
          (bs, c1) = gdma_copy_in E c key_ptr (unat key_bytes);
          (rk, nr) = aes_key_expand (bs @ drop (length bs) stack) (unat key_bytes);
          a1 = a\<lparr>as_mode := (as_mode a)(k := mode), as_nr := (as_nr a)(k := nr),
                 as_round_key := (as_round_key a)(k := rk @ drop (length rk) (as_round_key a k))\<rparr>
      in (a1, aes_return c1 key_bytes))"

definition stub_aes_hal_transform_block ::
  "'d host \<Rightarrow> aes_stubs \<times> 'd cpu \<Rightarrow> aes_stubs \<times> 'd cpu" where
  "stub_aes_hal_transform_block E s =
     (let (a, c) = s; in_ptr = aes_arg c 0; out_ptr = aes_arg c 1; k = core_id c;
          (inp, c1) = gdma_copy_in E c in_ptr 16;
          out = (if as_mode a k = AES_MODE_ENCRYPT then aes_encrypt_block (as_round_key a k) (as_nr a k) inp
                 else aes_decrypt_block (as_round_key a k) (as_nr a k) inp)
      in (a, aes_return_void (gdma_copy_out E c1 out_ptr out)))"

section \<open>Life cycle\<close>

definition cap_aes :: "periph_target \<Rightarrow> bool" where
  "cap_aes t = bit (pt_capabilities t) 34"

definition aes_geometry_valid :: "periph_target \<Rightarrow> flexe_aes_desc \<Rightarrow> bool" where
  "aes_geometry_valid t d \<longleftrightarrow>
     (let minimum = (case ad_layout d of AES_LAYOUT_ESP32 \<Rightarrow> 0x44 | AES_LAYOUT_S2_S3 \<Rightarrow> 0xBC
                     | AES_LAYOUT_NONE \<Rightarrow> (0 :: u32)) in
      cap_aes t \<and>
      \<not> (minimum = 0 \<or> ad_base d < pt_peripheral_start t \<or> pt_peripheral_end t \<le> ad_base d \<or>
         ad_base d AND 0xFFF \<noteq> 0 \<or> ad_register_size d \<noteq> 0x1000 \<or>
         pt_peripheral_end t - ad_base d < ad_register_size d \<or> ad_register_size d < minimum \<or>
         ad_key_size_mask d = 0 \<or> ad_key_size_mask d AND NOT 7 \<noteq> 0) \<and>
      (if ad_layout d = AES_LAYOUT_ESP32
       then ad_dma_peripheral_id d = 0xFF \<and> ad_interrupt_source d = 0xFF
       else ad_dma_peripheral_id d \<noteq> 0xFF \<and> cap_gdma t \<and> ad_interrupt_source d \<noteq> 0xFF \<and>
            cap_intr_matrix t \<and>
            unat (ad_interrupt_source d) < unat (im_source_count (pt_interrupt_matrix t))))"

definition aes_zero :: "flexe_aes_desc \<Rightarrow> aes_stubs" where
  "aes_zero d =
     aes_reset_registers
       \<lparr>as_desc = d, as_attached = False, as_clock_enabled = True, as_reset_asserted = False,
        as_interrupt_pending = False, as_round_key = (\<lambda>_. replicate 60 0), as_nr = (\<lambda>_. 10),
        as_mode = (\<lambda>_. AES_MODE_ENCRYPT), as_key = replicate 8 0, as_text_in = replicate 4 0,
        as_text_out = replicate 4 0, as_iv = replicate 4 0, as_hw_mode = 0, as_endian = 0,
        as_state = 0, as_dma_enable = 0, as_block_mode = 0, as_block_num = 0, as_inc_sel = 0,
        as_aad_num = 0, as_valid_bits = 0, as_int_enable = 0, as_date = 0,
        as_warned_dma = False, as_warned_continue = False\<rparr>"

text \<open>Creation registers the page under the handler numbers of the device's functions and keeps
  the handler it replaces.\<close>

definition aes_stubs_create ::
  "periph_target \<Rightarrow> flexe_aes_desc \<Rightarrow> xmem \<Rightarrow> nat \<Rightarrow> nat \<Rightarrow> nat \<Rightarrow>
     (aes_stubs \<times> mmio_handler \<times> xmem) option" where
  "aes_stubs_create t d m read_fn write_fn ctx =
     (if \<not> aes_geometry_valid t d then None
      else
        let page = unat (ad_base d - pt_peripheral_start t) div 0x1000 in
        case mem_register_mmio_range m (ad_base d) (ad_register_size d)
               (Some read_fn) (Some write_fn) ctx of
          (r, m1) \<Rightarrow> if r \<noteq> 0 then None else Some (aes_zero d, mmio m page, m1))"

definition aes_release_fabric :: "'e periph_env \<Rightarrow> ('d, 'e) aes_sys \<Rightarrow> ('d, 'e) aes_sys" where
  "aes_release_fabric D s =
     (let a = y_as s; source = ad_interrupt_source (as_desc a) in
      if as_attached a \<and> source \<noteq> 0xFF
      then s\<lparr>y_periph := periph_deassert_interrupt D (y_periph s) (uint source)\<rparr> else s)"

text \<open>Attachment to the system clock of a fabric: the one attached before, or another one \<open>p\<close>.
  \<open>handler_ok\<close> is whether that fabric takes the state handler. The fabric left behind is
  returned too.\<close>

definition aes_stubs_attach_system_clock ::
  "'e periph_env \<Rightarrow> bool \<Rightarrow> 'e periph option \<Rightarrow> ('d, 'e) aes_sys \<Rightarrow> int \<times> 'e periph \<times> ('d, 'e) aes_sys" where
  "aes_stubs_attach_system_clock D handler_ok p s =
     (let s1 = aes_release_fabric D s; old = y_periph s1;
          s2 = (y_put ((y_as s1)\<lparr>as_attached := True\<rparr>) s1)
                 \<lparr>y_periph := (case p of None \<Rightarrow> old | Some q \<Rightarrow> q)\<rparr>
      in if handler_ok then (0, old, s2)
         else (-1, old,
               y_put ((y_as s2)\<lparr>as_attached := False, as_clock_enabled := True,
                                as_reset_asserted := False\<rparr>) s2))"

definition aes_stubs_destroy ::
  "'e periph_env \<Rightarrow> mmio_handler \<Rightarrow> ('d, 'e) aes_sys \<Rightarrow> xmem \<Rightarrow> 'e periph \<times> xmem" where
  "aes_stubs_destroy D old s m =
     (y_periph (aes_release_fabric D s),
      snd (mem_register_mmio_range m (ad_base (as_desc (y_as s))) (ad_register_size (as_desc (y_as s)))
             (mh_read old) (mh_write old) (mh_ctx old)))"

definition aes_hooks :: "string list" where
  "aes_hooks = [''aes_hal_setkey'', ''aes_hal_transform_block'', ''esp_aes_acquire_hardware'',
     ''esp_aes_release_hardware'']"

definition aes_stubs_hook_symbols ::
  "aes_stubs \<Rightarrow> (string \<Rightarrow> u32 option) option \<Rightarrow> bool \<Rightarrow> int \<times> (u32 \<times> string) list" where
  "aes_stubs_hook_symbols a syms hook_table =
     (case syms of
        None \<Rightarrow> (0, [])
      | Some table \<Rightarrow>
          if ad_layout (as_desc a) \<noteq> AES_LAYOUT_ESP32 \<or> \<not> hook_table then (0, [])
          else let regs = List.map_filter (\<lambda>n. map_option (\<lambda>addr. (addr, n)) (table n)) aes_hooks
               in (int (length regs), regs))"

definition esp32_aes :: flexe_aes_desc where
  "esp32_aes = \<lparr>ad_base = 0x3FF01000, ad_register_size = 0x1000, ad_date_reset = 0,
     ad_layout = AES_LAYOUT_ESP32, ad_key_size_mask = 7, ad_dma_peripheral_id = 0xFF,
     ad_interrupt_source = 0xFF\<rparr>"

definition esp32s3_aes :: flexe_aes_desc where
  "esp32s3_aes = \<lparr>ad_base = 0x6003A000, ad_register_size = 0x1000, ad_date_reset = 0x20191210,
     ad_layout = AES_LAYOUT_S2_S3, ad_key_size_mask = 5, ad_dma_peripheral_id = 6,
     ad_interrupt_source = 77\<rparr>"

end
