(* ===== verification/Aes_Facts.thy ===== *)
theory Aes_Facts
  imports Aes_Core
begin

text \<open>
  The layers of the AES cipher are inverse to each other, so decryption of a block inverts its
  encryption for any round keys, and each block mode run for decryption inverts the mode run for
  encryption and ends with the same chaining value.
\<close>

section \<open>Rows and round keys\<close>

lemma length_16_cases:
  assumes "length s = 16"
  obtains a0 a1 a2 a3 a4 a5 a6 a7 a8 a9 a10 a11 a12 a13 a14 a15
  where "s = [a0, a1, a2, a3, a4, a5, a6, a7, a8, a9, a10, a11, a12, a13, a14, a15]"
  using assms by (auto simp: numeral_eq_Suc length_Suc_conv)

lemma upt_16: "[0 ..< 16] = [0, 1, 2, 3, 4, 5, 6, 7, 8, 9, 10, 11, 12, 13, 14, 15 :: nat]"
  by (simp add: upt_rec)

lemma length_layers [simp]:
  "length (add_round_key rk r s) = 16" "length (shift_rows s) = 16" "length (inv_shift_rows s) = 16"
  "length (sub_bytes s) = length s" "length (inv_sub_bytes s) = length s"
  "length (aes_xor_block a b) = 16"
  by (simp_all add: add_round_key_def shift_rows_def inv_shift_rows_def sub_bytes_def
        inv_sub_bytes_def aes_xor_block_def)

lemma on_columns_list:
  "on_columns f [a0, a1, a2, a3, a4, a5, a6, a7, a8, a9, a10, a11, a12, a13, a14, a15] =
     f a0 a1 a2 a3 @ f a4 a5 a6 a7 @ f a8 a9 a10 a11 @ f a12 a13 a14 a15"
  by (simp add: on_columns_def upt_rec)

lemma length_mix [simp]:
  "length (on_columns mix_column s) = 16" "length (on_columns inv_mix_column s) = 16"
  by (simp_all add: on_columns_def mix_column_def inv_mix_column_def upt_rec Let_def)

lemma inv_shift_rows_shift_rows [simp]:
  assumes "length s = 16" shows "inv_shift_rows (shift_rows s) = s"
  using assms by (elim length_16_cases) (simp add: inv_shift_rows_def shift_rows_def)

lemma add_round_key_involution [simp]:
  assumes "length s = 16" shows "add_round_key rk r (add_round_key rk r s) = s"
  using assms
  by (intro nth_equalityI) (simp_all add: add_round_key_def xor.assoc del: upt_rec_numeral)

section \<open>The column matrices\<close>

lemma xtime_alt: "xtime x = push_bit 1 x XOR (if bit x 7 then 0x1B else 0)"
  by (simp add: xtime_def and_one_eq bit_iff_odd_drop_bit mod2_eq_if)

lemma xtime_xor: "xtime (x XOR y) = xtime x XOR xtime y"
  by (simp add: xtime_alt push_bit_xor bit_xor_iff xor.assoc xor.left_commute)

lemma and_128_iff: "(a :: u8) AND 0x80 = 0 \<longleftrightarrow> \<not> bit a 7"
proof -
  have "(0x80 :: u8) = push_bit 7 1" by simp
  then show ?thesis by (simp only: and_exp_eq_0_iff_not_bit push_bit_of_1)
qed

lemma mul_step_eq:
  "mul_step (r, a, b) = (if odd b then r XOR a else r, xtime a, drop_bit 1 b)"
  by (simp add: mul_step_def Let_def and_128_iff xtime_alt and_one_eq mod2_eq_if)

lemma funpow_eight: "(f ^^ 8) x = f (f (f (f (f (f (f (f x)))))))"
  by (simp add: numeral_eq_Suc)

lemma mul_constants:
  "mul a 0x09 = xtime (xtime (xtime a)) XOR a"
  "mul a 0x0B = xtime (xtime (xtime a)) XOR xtime a XOR a"
  "mul a 0x0D = xtime (xtime (xtime a)) XOR xtime (xtime a) XOR a"
  "mul a 0x0E = xtime (xtime (xtime a)) XOR xtime (xtime a) XOR xtime a"
  by (simp_all add: mul_def funpow_eight mul_step_eq xor.assoc xor.commute xor.left_commute
        drop_bit_Suc)

lemma xor_cancel_left [simp]: "(x :: u8) XOR (x XOR y) = y"
  by (simp add: xor.assoc [symmetric])

lemma inv_mix_column_mix_column:
  "mix_column a0 a1 a2 a3 = [b0, b1, b2, b3] \<Longrightarrow> inv_mix_column b0 b1 b2 b3 = [a0, a1, a2, a3]"
  by (auto simp: mix_column_def inv_mix_column_def Let_def mul_constants xtime_xor
        xor.assoc xor.commute xor.left_commute)

lemma inv_mix_mix [simp]:
  assumes "length s = 16"
  shows "on_columns inv_mix_column (on_columns mix_column s) = s"
proof -
  have "\<exists>b0 b1 b2 b3. mix_column a0 a1 a2 a3 = [b0, b1, b2, b3] \<and>
      inv_mix_column b0 b1 b2 b3 = [a0, a1, a2, a3]" for a0 a1 a2 a3
    using inv_mix_column_mix_column by (metis mix_column_def)
  then show ?thesis
    using assms by (elim length_16_cases) (metis on_columns_list append.simps)
qed

section \<open>Blocks\<close>

lemma length_encrypt_round [simp]: "length (encrypt_round rk nr r s) = 16"
  by (simp add: encrypt_round_def Let_def)

lemma length_encrypt_rounds:
  "length s = 16 \<Longrightarrow> length (fold (encrypt_round rk nr) rs s) = 16"
  by (induction rs arbitrary: s) simp_all

lemma length_aes_encrypt_block [simp]: "length (aes_encrypt_block rk nr b) = 16"
  by (simp add: aes_encrypt_block_def length_encrypt_rounds del: upt_Suc)

text \<open>
  The state before round \<open>r + 1\<close> of the encryption, substituted and rotated, is what the
  decryption holds before its rounds \<open>r\<close> down to 0; these take it back to the input.
\<close>

lemma decrypt_rounds_undo:
  assumes "length b = 16" "r < nr"
  shows "fold (decrypt_round rk) (rev [0 ..< Suc r])
           (shift_rows (sub_bytes (fold (encrypt_round rk nr) [1 ..< Suc r] (add_round_key rk 0 b)))) = b"
  using assms(2)
proof (induction r)
  case 0
  then show ?case using assms(1) by (simp add: decrypt_round_def)
next
  case (Suc r)
  define s where "s = fold (encrypt_round rk nr) [1 ..< Suc r] (add_round_key rk 0 b)"
  have s: "length s = 16" by (simp add: s_def length_encrypt_rounds del: upt_Suc)
  have "decrypt_round rk (Suc r) (shift_rows (sub_bytes (encrypt_round rk nr (Suc r) s))) =
      shift_rows (sub_bytes s)"
    using s Suc.prems by (simp add: decrypt_round_def encrypt_round_def Let_def)
  moreover have "[1 ..< Suc (Suc r)] = [1 ..< Suc r] @ [Suc r]" by simp
  ultimately show ?case
    using Suc by (simp add: s_def)
qed

lemma aes_decrypt_encrypt:
  assumes "length b = 16" "0 < nr"
  shows "aes_decrypt_block rk nr (aes_encrypt_block rk nr b) = b"
proof -
  obtain r where r: "nr = Suc r" using assms(2) by (cases nr) auto
  define s where "s = fold (encrypt_round rk nr) [1 ..< Suc r] (add_round_key rk 0 b)"
  have "length s = 16" by (simp add: s_def length_encrypt_rounds del: upt_Suc)
  then have "add_round_key rk nr (encrypt_round rk nr nr s) = shift_rows (sub_bytes s)"
    by (simp add: encrypt_round_def)
  moreover have "aes_encrypt_block rk nr b = encrypt_round rk nr nr s"
    by (simp add: aes_encrypt_block_def s_def r)
  ultimately show ?thesis
    using decrypt_rounds_undo [OF assms(1), of r nr rk] r
    by (simp add: aes_decrypt_block_def s_def del: upt_Suc)
qed

section \<open>Block modes\<close>

lemma aes_xor_block_cancel [simp]:
  assumes "length b = 16" shows "aes_xor_block (aes_xor_block b s) s = b"
  using assms
  by (intro nth_equalityI) (simp_all add: aes_xor_block_def xor.assoc del: upt_rec_numeral)

lemma cfb8_bytes_undo:
  "cfb8_bytes rk nr False bs iv = (cs, iv') \<Longrightarrow> cfb8_bytes rk nr True cs iv = (bs, iv')"
  by (induction bs arbitrary: iv cs)
     (auto simp: cfb8_byte_def Let_def xor.assoc split: prod.splits)

lemma aes_mode_block_undo:
  assumes "length b = 16" "0 < nr" "aes_mode_block m False inc rk nr b iv = (c, iv')"
  shows "aes_mode_block m True inc rk nr c iv = (b, iv')"
  using assms
  by (cases m) (auto simp: aes_mode_block_def aes_decrypt_encrypt Let_def cfb8_bytes_undo)

lemma aes_mode_blocks_undo:
  assumes "0 < nr" "\<forall>b \<in> set bs. length b = 16"
    "aes_mode_blocks m False inc rk nr bs iv = (cs, iv')"
  shows "aes_mode_blocks m True inc rk nr cs iv = (bs, iv')"
  using assms
proof (induction bs arbitrary: iv cs)
  case (Cons b bs)
  obtain c iv1 where c: "aes_mode_block m False inc rk nr b iv = (c, iv1)" by fastforce
  obtain cs1 iv2 where cs: "aes_mode_blocks m False inc rk nr bs iv1 = (cs1, iv2)" by fastforce
  show ?case
    using Cons aes_mode_block_undo [OF _ _ c] c cs by auto
qed simp

end
