(* ===== verification/Aes_Correct.thy ===== *)
theory Aes_Correct
  imports Aes Aes_Facts Intr_Matrix_Facts
begin

text \<open>
  Correctness of the AES accelerator: its substitution table is the one of the standard, a DMA
  transfer programmed for decryption undoes the one programmed for encryption in all six block
  modes, and so does the block engine behind its registers.
\<close>

section \<open>The substitution table\<close>

text \<open>The affine map of the standard over the bits of a byte, and its inverse.\<close>

definition byte_rotl :: "nat \<Rightarrow> u8 \<Rightarrow> u8" where
  "byte_rotl n b = push_bit n b OR drop_bit (8 - n) b"

definition fips_affine :: "u8 \<Rightarrow> u8" where
  "fips_affine b = b XOR byte_rotl 1 b XOR byte_rotl 2 b XOR byte_rotl 3 b XOR byte_rotl 4 b XOR 0x63"

definition fips_affine_inv :: "u8 \<Rightarrow> u8" where
  "fips_affine_inv b = byte_rotl 1 b XOR byte_rotl 3 b XOR byte_rotl 6 b XOR 0x05"

definition sbox_entry_ok :: "u8 \<times> u8 \<Rightarrow> bool" where
  "sbox_entry_ok e =
     (let (b, s) = e; c = fips_affine_inv s
      in fips_affine c = s \<and> (if b = 0 then c = 0 else mul b c = 1))"

text \<open>The table is checked in four runs of 64 entries.\<close>

definition sbox_entries_ok :: "nat \<Rightarrow> bool" where
  "sbox_entries_ok k = list_all sbox_entry_ok (zip (map of_nat [k ..< k + 64]) (take 64 (drop k SBOX)))"

lemma sbox_entries_0: "sbox_entries_ok 0" by code_simp
lemma sbox_entries_1: "sbox_entries_ok 64" by code_simp
lemma sbox_entries_2: "sbox_entries_ok 128" by code_simp
lemma sbox_entries_3: "sbox_entries_ok 192" by code_simp

lemma sbox_entry:
  assumes "sbox_entries_ok k" "k \<le> unat b" "unat b < k + 64" "k \<le> 192"
  shows "sbox_entry_ok (b, sbox b)"
proof -
  let ?l = "zip (map of_nat [k ..< k + 64]) (take 64 (drop k SBOX))" and ?i = "unat b - k"
  have "length SBOX = 256" by (simp add: SBOX_def)
  then have "?l ! ?i = (b, sbox b)" "?i < length ?l"
    using assms(2-4) by (simp_all add: sbox_def)
  moreover have "list_all sbox_entry_ok ?l" using assms(1) by (simp add: sbox_entries_ok_def)
  ultimately show ?thesis by (metis list_all_length)
qed

text \<open>C19. The table is the S-box of the standard: each entry is the affine map applied to the
  inverse of its index in the field the engine multiplies in, or to 0 for index 0.\<close>

theorem sbox_standard:
  "\<exists>c. sbox b = fips_affine c \<and> (if b = 0 then c = 0 else mul b c = 1)"
proof -
  have "unat b < 256" using unsigned_less [of b, where ?'a = nat] by simp
  then consider "unat b < 64" | "64 \<le> unat b" "unat b < 128" | "128 \<le> unat b" "unat b < 192" | "192 \<le> unat b" "unat b < 256"
    by linarith
  then have "sbox_entry_ok (b, sbox b)"
    by cases (use sbox_entry [OF sbox_entries_0, of b] sbox_entry [OF sbox_entries_1, of b]
        sbox_entry [OF sbox_entries_2, of b] sbox_entry [OF sbox_entries_3, of b] in simp_all)
  then show ?thesis
    unfolding sbox_entry_ok_def Let_def prod.case by metis
qed

section \<open>Words and bytes\<close>

lemma bytes_to_word_to_bytes: "aes_bytes_to_word (aes_word_to_bytes w @ bs) = w"
proof (rule bit_word_eqI)
  fix n assume "n < LENGTH(32)"
  then consider "n < 8" | "8 \<le> n" "n < 16" | "16 \<le> n" "n < 24" | "24 \<le> n" "n < 32" by force
  then show "bit (aes_bytes_to_word (aes_word_to_bytes w @ bs)) n = bit w n"
    by cases (auto simp: aes_bytes_to_word_def aes_word_to_bytes_def bit_simps)
qed

lemma word_to_bytes_to_word:
  "aes_word_to_bytes (aes_bytes_to_word (b0 # b1 # b2 # b3 # bs)) = [b0, b1, b2, b3]"
  by (auto simp: aes_bytes_to_word_def aes_word_to_bytes_def intro!: bit_word_eqI)
     (auto simp: bit_simps dest: bit_imp_le_length)

lemma upt_4: "[0 ..< 4] = [0, 1, 2, 3 :: nat]"
  by (simp add: upt_rec)

lemma words_to_block_to_words:
  "length bs = 16 \<Longrightarrow> aes_words_to_block (aes_block_to_words bs) = bs"
  by (elim length_16_cases) (simp add: aes_words_to_block_def aes_block_to_words_def upt_4 word_to_bytes_to_word)

lemma block_to_words_to_block:
  assumes "length ws = 4" shows "aes_block_to_words (aes_words_to_block ws) = ws"
proof -
  obtain w0 w1 w2 w3 where "ws = [w0, w1, w2, w3]"
    using assms by (auto simp: numeral_eq_Suc length_Suc_conv)
  then show ?thesis
    using bytes_to_word_to_bytes [of _ "[]"] bytes_to_word_to_bytes
    by (simp add: aes_block_to_words_def aes_words_to_block_def upt_4 aes_word_to_bytes_def)
qed

lemma length_words_to_block [simp]: "length (aes_words_to_block ws) = 16"
  by (simp add: aes_words_to_block_def aes_word_to_bytes_def upt_4)

section \<open>DMA transfers\<close>

lemma concat_blocks:
  assumes "\<forall>b \<in> set bs. length b = 16"
  shows "blocks_of (length bs) (concat bs) = bs"
  using assms
proof (induction bs)
  case Nil
  show ?case by (simp add: blocks_of_def)
next
  case (Cons b bs)
  have "blocks_of (Suc n) (b @ d) = b # blocks_of n d" for n d
  proof -
    have "map (\<lambda>i. take 16 (drop (16 * i) (b @ d))) [0 ..< Suc n] =
        b # map (\<lambda>i. take 16 (drop (16 * Suc i) (b @ d))) [0 ..< n]"
      using Cons.prems by (simp add: map_upt_Suc del: upt_Suc)
    also have "\<dots> = b # map (\<lambda>i. take 16 (drop (16 * i) d)) [0 ..< n]"
      using Cons.prems by simp
    finally show ?thesis by (simp only: blocks_of_def)
  qed
  then show ?case using Cons by simp
qed

lemma blocks_of_length:
  assumes "length data = 16 * n"
  shows "length (blocks_of n data) = n" "\<forall>b \<in> set (blocks_of n data). length b = 16"
    "concat (blocks_of n data) = data"
proof -
  show "length (blocks_of n data) = n" "\<forall>b \<in> set (blocks_of n data). length b = 16"
    using assms by (auto simp: blocks_of_def)
  have "concat (map (\<lambda>i. take 16 (drop (16 * i) data)) [0 ..< k]) = take (16 * k) data" for k
    by (induction k) (simp_all add: take_add [symmetric] add.commute)
  then show "concat (blocks_of n data) = data"
    using assms by (simp add: blocks_of_def)
qed

lemma length_cfb8_bytes: "cfb8_bytes rk nr dec bs iv = (cs, iv') \<Longrightarrow> length cs = length bs"
  by (induction bs arbitrary: iv cs) (auto simp: Let_def split: prod.splits)

lemma length_aes_mode_block:
  "length b = 16 \<Longrightarrow> aes_mode_block m False inc rk nr b iv = (c, iv') \<Longrightarrow> length c = 16"
  by (cases m) (auto simp: aes_mode_block_def Let_def length_cfb8_bytes)

lemma length_aes_mode_blocks:
  assumes "\<forall>b \<in> set bs. length b = 16" "aes_mode_blocks m False inc rk nr bs iv = (cs, iv')"
  shows "length cs = length bs \<and> (\<forall>c \<in> set cs. length c = 16)"
  using assms
proof (induction bs arbitrary: iv cs iv')
  case (Cons b bs)
  obtain c iv1 where c: "aes_mode_block m False inc rk nr b iv = (c, iv1)" by fastforce
  obtain cs1 iv2 where cs: "aes_mode_blocks m False inc rk nr bs iv1 = (cs1, iv2)" by fastforce
  show ?case
    using Cons.IH [OF _ cs] Cons.prems length_aes_mode_block [OF _ c] c cs by auto
qed simp

lemma key_rounds: "0 < snd (aes_key_expand key n)"
proof -
  have "snd (aes_key_expand key n) = snd (key_geometry n)"
    by (simp add: aes_key_expand_def case_prod_unfold Let_def)
  then show ?thesis by (simp add: key_geometry_def)
qed

lemma mode_key_rounds: "aes_mode_key a = Some (rk, nr) \<Longrightarrow> 0 < nr"
  using key_rounds by (auto simp: aes_mode_key_def Let_def split: if_splits) (metis snd_conv)

lemma mode_key_cong:
  assumes "as_hw_mode x AND 3 = as_hw_mode y AND 3" "as_key x = as_key y" "as_desc x = as_desc y"
  shows "aes_mode_key x = aes_mode_key y"
  unfolding aes_mode_key_def assms by (rule refl)

lemma decrypt_bit: "(m OR 4) AND 4 \<noteq> 0" "(m OR 4) AND 3 = m AND (3 :: u32)"
  by (simp_all add: bit.conj_disj_distrib2 and.assoc)

text \<open>C10. A DMA transfer programmed for decryption undoes the one programmed for encryption: with
  the same key, block mode, counter width, block count and initial vector, it turns the output
  back into the input, in each of the six block modes, and ends with the same chaining value.\<close>

theorem aes_dma_roundtrip:
  assumes "aes_mode_key a = Some key" "as_hw_mode a AND 4 = 0"
    and "length data = 16 * unat (as_block_num a)"
    and "aes_dma_output a key data = (out, iv)"
  shows "aes_mode_key (a\<lparr>as_hw_mode := as_hw_mode a OR 4\<rparr>) = Some key \<and>
         aes_dma_output (a\<lparr>as_hw_mode := as_hw_mode a OR 4\<rparr>) key out = (data, iv)"
proof -
  let ?n = "unat (as_block_num a)" and ?m = "aes_mode_of (as_block_mode a)"
  obtain rk nr where key: "key = (rk, nr)" by fastforce
  have nr: "0 < nr" using mode_key_rounds assms(1) key by blast
  note bl = blocks_of_length [OF assms(3)]
  obtain outs where o: "aes_mode_blocks ?m False (as_inc_sel a \<noteq> 0) rk nr (blocks_of ?n data)
      (aes_words_to_block (as_iv a)) = (outs, iv)" "out = concat outs"
    using assms(2,4) by (auto simp: aes_dma_output_def key split: prod.splits)
  have len: "length outs = ?n" "\<forall>b \<in> set outs. length b = 16"
    using length_aes_mode_blocks [OF bl(2) o(1)] bl(1) by simp_all
  have "blocks_of ?n out = outs" using concat_blocks [OF len(2)] len(1) o(2) by simp
  moreover have "aes_mode_blocks ?m True (as_inc_sel a \<noteq> 0) rk nr outs (aes_words_to_block (as_iv a)) =
      (blocks_of ?n data, iv)"
    by (rule aes_mode_blocks_undo [OF nr bl(2) o(1)])
  ultimately have "aes_dma_output (a\<lparr>as_hw_mode := as_hw_mode a OR 4\<rparr>) key out = (data, iv)"
    using bl(3) decrypt_bit(1) [of "as_hw_mode a"] by (simp add: aes_dma_output_def key)
  moreover have "aes_mode_key (a\<lparr>as_hw_mode := as_hw_mode a OR 4\<rparr>) = Some key"
    using assms(1) mode_key_cong [of "a\<lparr>as_hw_mode := as_hw_mode a OR 4\<rparr>" a] decrypt_bit(2) by simp
  ultimately show ?thesis by blast
qed

section \<open>The block engine behind its registers\<close>

text \<open>One operation of the original engine: set the mode, write the start register.\<close>

definition aes_run ::
  "'d host \<Rightarrow> 'e periph_env \<Rightarrow> u32 \<Rightarrow> ('d, 'e) aes_sys \<Rightarrow> ('d, 'e) aes_sys" where
  "aes_run E D mode s =
     (let base = ad_base (as_desc (y_as s));
          s1 = aes_mmio_write True E D s (base + 8) mode
      in aes_mmio_write True E D s1 base 1)"

lemma aes_page:
  assumes "ad_register_size d = 0x1000" "ad_base d AND 0xFFF = 0" "off < 0x1000"
    "ad_base d + 0x1000 \<noteq> 0"
  shows "aes_in_page d (ad_base d + off)" "ad_base d + off - ad_base d = off"
proof -
  have "unat (ad_base d) mod 4096 = 0"
    using and_mask_mod [of "ad_base d" 12] assms(2) by (simp add: mask_eq_exp_minus_1)
  then obtain k where k: "unat (ad_base d) = 4096 * k" by auto
  have b: "unat (ad_base d) < 2 ^ 32" using unsigned_less [of "ad_base d", where ?'a = nat] by simp
  have "unat (ad_base d) \<noteq> 2 ^ 32 - 4096"
  proof
    assume "unat (ad_base d) = 2 ^ 32 - 4096"
    then have "unat (ad_base d + 0x1000) = 0" by (subst unat_word_ariths(1)) simp
    with assms(4) show False by (simp add: unat_eq_zero)
  qed
  then have "k \<noteq> 1048575" "k < 1048576" using k b by auto
  then have "unat (ad_base d) + 4096 < 2 ^ 32" using k by simp
  moreover have "unat off < 4096" using assms(3) by (simp add: word_less_nat_alt)
  moreover have "unat (ad_base d + x) = unat (ad_base d) + unat x" if "unat (ad_base d) + unat x < 2 ^ 32" for x
    using that unat_add_lem [of "ad_base d" x] by simp
  ultimately have "unat (ad_base d + off) = unat (ad_base d) + unat off"
    "unat (ad_base d + 0x1000) = unat (ad_base d) + 4096"
    by simp_all
  then show "aes_in_page d (ad_base d + off)"
    using \<open>unat off < 4096\<close> assms(1) by (simp add: aes_in_page_def word_less_nat_alt word_le_nat_alt)
qed simp

lemma aes_classic_writes:
  assumes d: "ad_layout (as_desc (y_as s)) = AES_LAYOUT_ESP32" "ad_register_size (as_desc (y_as s)) = 0x1000"
    "ad_base (as_desc (y_as s)) AND 0xFFF = 0" "ad_base (as_desc (y_as s)) + 0x1000 \<noteq> 0"
    and op: "\<not> as_reset_asserted (y_as s)"
  shows "aes_mmio_write alloc E D s (ad_base (as_desc (y_as s)) + 8) m = y_put ((y_as s)\<lparr>as_hw_mode := m AND 7\<rparr>) s"
    "aes_mmio_write alloc E D s (ad_base (as_desc (y_as s))) 1 = aes_trigger alloc E D s"
proof -
  note pg = aes_page [OF d(2,3) _ d(4)]
  have "aes_reg_store (y_as s) 8 m = Some ((y_as s)\<lparr>as_hw_mode := m AND 7\<rparr>)" "aes_reg_store (y_as s) 0 1 = None"
    using d(1) by (simp_all add: aes_reg_store_def)
  then show "aes_mmio_write alloc E D s (ad_base (as_desc (y_as s)) + 8) m = y_put ((y_as s)\<lparr>as_hw_mode := m AND 7\<rparr>) s"
    "aes_mmio_write alloc E D s (ad_base (as_desc (y_as s))) 1 = aes_trigger alloc E D s"
    using d(1) op pg [of 8] pg [of 0] by (simp_all add: aes_mmio_write_def)
qed

lemma aes_run_classic:
  assumes d: "ad_layout (as_desc (y_as s)) = AES_LAYOUT_ESP32" "ad_register_size (as_desc (y_as s)) = 0x1000"
    "ad_base (as_desc (y_as s)) AND 0xFFF = 0" "ad_base (as_desc (y_as s)) + 0x1000 \<noteq> 0"
    and op: "aes_operational (y_as s)"
  shows "y_as (aes_run E D m s) =
    (snd (aes_transform_direct ((y_as s)\<lparr>as_hw_mode := m AND 7, as_state := AES_STATE_BUSY\<rparr>)))
       \<lparr>as_state := AES_STATE_IDLE\<rparr>"
proof -
  have r: "\<not> as_reset_asserted (y_as s)" using op by (simp add: aes_operational_def)
  let ?s = "y_put ((y_as s)\<lparr>as_hw_mode := m AND 7\<rparr>) s"
  have "aes_run E D m s = aes_trigger True E D ?s"
    unfolding aes_run_def Let_def aes_classic_writes(1) [OF d r]
    using aes_classic_writes(2) [of ?s True E D] d r by (simp add: y_put_def)
  then show ?thesis
    using d(1) op by (simp add: aes_trigger_def Let_def y_put_def aes_operational_def)
qed

text \<open>C20. The block engine is invertible through its registers: on the original layout, encrypting
  in place and then decrypting with the same key size leaves the text registers as they were,
  for every key size the target has.\<close>

theorem aes_register_roundtrip:
  assumes "ad_layout (as_desc (y_as s)) = AES_LAYOUT_ESP32" "ad_register_size (as_desc (y_as s)) = 0x1000"
    "ad_base (as_desc (y_as s)) AND 0xFFF = 0" "ad_base (as_desc (y_as s)) + 0x1000 \<noteq> 0"
    and "aes_operational (y_as s)" "length (as_text_in (y_as s)) = 4"
    and "m < 4" "aes_mode_key ((y_as s)\<lparr>as_hw_mode := m\<rparr>) \<noteq> None"
    and s': "s' = aes_run E D (m OR 4) (aes_run E D m s)"
  shows "as_text_in (y_as s') = as_text_in (y_as s) \<and> as_key (y_as s') = as_key (y_as s)"
proof -
  let ?a = "y_as s"
  obtain rk nr where k: "aes_mode_key (?a\<lparr>as_hw_mode := m\<rparr>) = Some (rk, nr)" using assms(8) by auto
  have nr: "0 < nr" by (rule mode_key_rounds [OF k])
  have m: "m AND 7 = m" "m AND 4 = 0" "(m OR 4) AND 7 = m OR 4" "(m OR 4) AND 3 = m AND 3"
  proof -
    have "unat m = 0 \<or> unat m = 1 \<or> unat m = 2 \<or> unat m = 3" using assms(7) by (auto simp: word_less_nat_alt)
    then have "m = 0 \<or> m = 1 \<or> m = 2 \<or> m = 3" by (simp add: word_unat_eq_iff)
    then show "m AND 7 = m" "m AND 4 = 0" "(m OR 4) AND 7 = m OR 4" "(m OR 4) AND 3 = m AND 3" by auto
  qed
  let ?b = "aes_words_to_block (as_text_in ?a)"
  let ?a1 = "?a\<lparr>as_hw_mode := m, as_state := AES_STATE_IDLE, as_text_in := aes_block_to_words (aes_encrypt_block rk nr ?b)\<rparr>"
  have key: "aes_mode_key x = Some (rk, nr)"
    if "as_hw_mode x AND 3 = m AND 3" "as_key x = as_key ?a" "as_desc x = as_desc ?a" for x
    using k mode_key_cong [of x "?a\<lparr>as_hw_mode := m\<rparr>"] that by simp
  have r1: "y_as (aes_run E D m s) = ?a1"
    unfolding aes_run_classic [OF assms(1-5)] m(1)
    using assms(1) m(2) by (simp add: aes_transform_direct_def Let_def key)
  have r2: "y_as s' = ?a1\<lparr>as_hw_mode := m OR 4, as_state := AES_STATE_IDLE,
      as_text_in := aes_block_to_words (aes_decrypt_block rk nr (aes_encrypt_block rk nr ?b))\<rparr>"
    unfolding s'
    using aes_run_classic [of "aes_run E D m s" E D "m OR 4"] assms(1-5) r1 m(3,4) decrypt_bit(1) [of m]
    by (simp add: aes_transform_direct_def Let_def aes_operational_def words_to_block_to_words key)
  show ?thesis
    using r2 assms(6) nr by (simp add: aes_decrypt_encrypt block_to_words_to_block)
qed

section \<open>Witnesses\<close>

text \<open>A device with a 128-bit key and two blocks of CBC, and one in a system.\<close>

definition sample_aes :: "flexe_aes_desc \<Rightarrow> aes_stubs" where
  "sample_aes d = (aes_zero d)\<lparr>as_key := [1, 2, 3, 4, 5, 6, 7, 8], as_text_in := [9, 10, 11, 12],
     as_iv := [13, 14, 15, 16], as_block_mode := 1, as_block_num := 2\<rparr>"

definition sample_aes_sys :: "(unit, unit) aes_sys" where
  "sample_aes_sys = \<lparr>y_as = sample_aes esp32_aes, y_gdma = None, y_periph = sample_fabric,
     y_cpu = sample_cpu, y_fallback_read = None, y_fallback_write = None\<rparr>"

lemma mode_key_128:
  "as_hw_mode a AND 3 = 0 \<Longrightarrow> ad_key_size_mask (as_desc a) AND 1 \<noteq> 0 \<Longrightarrow> aes_mode_key a \<noteq> None"
  by (simp add: aes_mode_key_def Let_def)

theorem aes_dma_roundtrip_witness:
  "\<exists>key out iv. aes_mode_key (sample_aes esp32s3_aes) = Some key \<and>
     aes_dma_output (sample_aes esp32s3_aes) key (replicate 32 7) = (out, iv) \<and>
     aes_dma_output ((sample_aes esp32s3_aes)\<lparr>as_hw_mode := 4\<rparr>) key out = (replicate 32 7, iv)"
proof -
  have s: "as_hw_mode (sample_aes esp32s3_aes) = 0" "as_block_num (sample_aes esp32s3_aes) = 2"
    by (simp_all add: sample_aes_def aes_zero_def aes_reset_registers_def)
  obtain key where k: "aes_mode_key (sample_aes esp32s3_aes) = Some key"
    using mode_key_128 [of "sample_aes esp32s3_aes"] s(1)
    by (auto simp: sample_aes_def aes_zero_def aes_reset_registers_def esp32s3_aes_def)
  obtain out iv where o: "aes_dma_output (sample_aes esp32s3_aes) key (replicate 32 7) = (out, iv)"
    by fastforce
  show ?thesis
    using aes_dma_roundtrip [OF k _ _ o] k o s by auto
qed

theorem aes_register_roundtrip_witness:
  "as_text_in (y_as (aes_run sample_host sample_env 4 (aes_run sample_host sample_env 0 sample_aes_sys))) =
     [9, 10, 11, 12]"
proof -
  have s: "as_hw_mode (y_as sample_aes_sys) = 0" "as_desc (y_as sample_aes_sys) = esp32_aes"
    "as_text_in (y_as sample_aes_sys) = [9, 10, 11, 12]" "aes_operational (y_as sample_aes_sys)"
    by (simp_all add: sample_aes_sys_def sample_aes_def aes_zero_def aes_reset_registers_def
        aes_operational_def)
  have "aes_mode_key ((y_as sample_aes_sys)\<lparr>as_hw_mode := 0\<rparr>) \<noteq> None"
    using mode_key_128 [of "(y_as sample_aes_sys)\<lparr>as_hw_mode := 0\<rparr>"] s(2) by (simp add: esp32_aes_def)
  then show ?thesis
    using aes_register_roundtrip [of sample_aes_sys 0, OF _ _ _ _ s(4) _ _ _ refl, of sample_host sample_env]
      s(2,3)
    by (simp add: esp32_aes_def)
qed

end
