(* ===== verification/Elf_Symbols.thy ===== *)
theory Elf_Symbols
  imports Memory "HOL-Library.Multiset"
begin

text \<open>
  The reader of ELF symbol tables (src/src/elf_symbols.c). The file is a list of bytes, size_t a
  64-bit word whose arithmetic wraps. Every access to the file buffer, the name pool and the
  entry array goes through a check that yields \<open>Out_Of_Bounds\<close> where the C access would be
  outside its object, so that the absence of such accesses is a theorem; \<open>Rejected\<close> is a null
  result. The structures are copied from the file as a little-endian host lays them out. The
  order \<open>qsort\<close> gives to entries with the same address is not specified: \<open>qsort\<close> is an argument,
  a function of the comparator and the array.
\<close>

section \<open>Outcomes and checked accesses\<close>

datatype elf_error = Out_Of_Bounds | Rejected

definition and_then :: "'e + 'a \<Rightarrow> ('a \<Rightarrow> 'e + 'b) \<Rightarrow> 'e + 'b" where
  "and_then r f = (case r of Inl e \<Rightarrow> Inl e | Inr x \<Rightarrow> f x)"

text \<open>\<open>memcpy\<close> from and into an array.\<close>

definition copy_from :: "u8 list \<Rightarrow> nat \<Rightarrow> nat \<Rightarrow> elf_error + u8 list" where
  "copy_from buf off n =
     (if off + n \<le> length buf then Inr (take n (drop off buf)) else Inl Out_Of_Bounds)"

definition copy_into :: "u8 list \<Rightarrow> nat \<Rightarrow> u8 list \<Rightarrow> elf_error + u8 list" where
  "copy_into pool off bs =
     (if off + length bs \<le> length pool then Inr (take off pool @ bs @ drop (off + length bs) pool)
      else Inl Out_Of_Bounds)"

text \<open>\<open>memchr\<close> for a zero among \<open>n\<close> bytes.\<close>

fun memchr_nul :: "u8 list \<Rightarrow> nat \<Rightarrow> nat \<Rightarrow> elf_error + nat option" where
  "memchr_nul buf pos 0 = Inr None"
| "memchr_nul buf pos (Suc n) =
     (if length buf \<le> pos then Inl Out_Of_Bounds
      else if buf ! pos = 0 then Inr (Some pos)
      else memchr_nul buf (pos + 1) n)"

section \<open>File structures\<close>

record elf32_ehdr =
  e_ident :: "u8 list"
  e_type :: u16
  e_machine :: u16
  e_version :: u32
  e_entry :: u32
  e_phoff :: u32
  e_shoff :: u32
  e_flags :: u32
  e_ehsize :: u16
  e_phentsize :: u16
  e_phnum :: u16
  e_shentsize :: u16
  e_shnum :: u16
  e_shstrndx :: u16

record elf32_shdr =
  sh_name :: u32
  sh_type :: u32
  sh_flags :: u32
  sh_addr :: u32
  sh_offset :: u32
  sh_size :: u32
  sh_link :: u32
  sh_info :: u32
  sh_addralign :: u32
  sh_entsize :: u32

record elf32_sym =
  st_name :: u32
  st_value :: u32
  st_size :: u32
  st_info :: u8
  st_other :: u8
  st_shndx :: u16

definition field16 :: "u8 list \<Rightarrow> nat \<Rightarrow> u16" where
  "field16 bs off = of_bytes (take 2 (drop off bs))"

definition field32 :: "u8 list \<Rightarrow> nat \<Rightarrow> u32" where
  "field32 bs off = of_bytes (take 4 (drop off bs))"

definition ehdr_of :: "u8 list \<Rightarrow> elf32_ehdr" where
  "ehdr_of bs =
     \<lparr>e_ident = take 16 bs, e_type = field16 bs 16, e_machine = field16 bs 18,
      e_version = field32 bs 20, e_entry = field32 bs 24, e_phoff = field32 bs 28,
      e_shoff = field32 bs 32, e_flags = field32 bs 36, e_ehsize = field16 bs 40,
      e_phentsize = field16 bs 42, e_phnum = field16 bs 44, e_shentsize = field16 bs 46,
      e_shnum = field16 bs 48, e_shstrndx = field16 bs 50\<rparr>"

definition shdr_of :: "u8 list \<Rightarrow> elf32_shdr" where
  "shdr_of bs =
     \<lparr>sh_name = field32 bs 0, sh_type = field32 bs 4, sh_flags = field32 bs 8,
      sh_addr = field32 bs 12, sh_offset = field32 bs 16, sh_size = field32 bs 20,
      sh_link = field32 bs 24, sh_info = field32 bs 28, sh_addralign = field32 bs 32,
      sh_entsize = field32 bs 36\<rparr>"

definition sym_of :: "u8 list \<Rightarrow> elf32_sym" where
  "sym_of bs =
     \<lparr>st_name = field32 bs 0, st_value = field32 bs 4, st_size = field32 bs 8,
      st_info = bs ! 12, st_other = bs ! 13, st_shndx = field16 bs 14\<rparr>"

definition EHDR_SIZE :: nat where "EHDR_SIZE = 52"
definition SHDR_SIZE :: nat where "SHDR_SIZE = 40"
definition SYM_SIZE :: nat where "SYM_SIZE = 16"
definition SHT_SYMTAB :: u32 where "SHT_SYMTAB = 2"
definition SHT_STRTAB :: u32 where "SHT_STRTAB = 3"

definition IS_USEFUL_SYM :: "u8 \<Rightarrow> bool" where
  "IS_USEFUL_SYM info \<longleftrightarrow> info AND 0xF = 2 \<or> info AND 0xF = 1"

section \<open>Reading\<close>

abbreviation (input) SIZE_MAX :: u64 where "SIZE_MAX \<equiv> - 1"

definition file_range_valid :: "u64 \<Rightarrow> u64 \<Rightarrow> u64 \<Rightarrow> bool" where
  "file_range_valid offset n file_size \<longleftrightarrow> offset \<le> file_size \<and> n \<le> file_size - offset"

text \<open>One structure of a table in the file; \<open>None\<close> is the return of 0.\<close>

definition read_entry ::
  "u8 list \<Rightarrow> u64 \<Rightarrow> u64 \<Rightarrow> u64 \<Rightarrow> u64 \<Rightarrow> nat \<Rightarrow> elf_error + u8 list option" where
  "read_entry buf file_size stride table_off index n =
     (if stride < of_nat n \<or> index > (SIZE_MAX - table_off) div stride then Inr None
      else let offset = table_off + index * stride in
        if \<not> file_range_valid offset (of_nat n) file_size then Inr None
        else map_sum id Some (copy_from buf (unat offset) n))"

definition elf_read_shdr ::
  "u8 list \<Rightarrow> u64 \<Rightarrow> elf32_ehdr \<Rightarrow> u32 \<Rightarrow> elf_error + elf32_shdr option" where
  "elf_read_shdr buf file_size ehdr index =
     (if ucast (e_shnum ehdr) \<le> index then Inr None
      else map_sum id (map_option shdr_of)
             (read_entry buf file_size (ucast (e_shentsize ehdr)) (ucast (e_shoff ehdr)) (ucast index)
                SHDR_SIZE))"

definition elf_read_sym ::
  "u8 list \<Rightarrow> u64 \<Rightarrow> elf32_shdr \<Rightarrow> u64 \<Rightarrow> elf_error + elf32_sym option" where
  "elf_read_sym buf file_size symtab index =
     map_sum id (map_option sym_of)
       (read_entry buf file_size (ucast (sh_entsize symtab)) (ucast (sh_offset symtab)) index SYM_SIZE)"

text \<open>The position of a name in the file and its length with the terminator.\<close>

definition elf_get_name :: "u8 list \<Rightarrow> elf32_shdr \<Rightarrow> u32 \<Rightarrow> elf_error + (nat \<times> u64) option" where
  "elf_get_name buf strtab name_index =
     (if sh_size strtab \<le> name_index then Inr None
      else
        let name = unat (sh_offset strtab) + unat name_index;
            available = unat (sh_size strtab) - unat name_index
        in map_sum id (map_option (\<lambda>end_pos. (name, of_nat (end_pos - name) + 1)))
             (memchr_nul buf name available))"

section \<open>Loading\<close>

record sym_entry =
  se_addr :: u32
  se_size :: u32
  se_name_offset :: u32

record elf_symbols =
  es_entries :: "sym_entry list"
  es_names :: "u8 list"

text \<open>What the host decides: whether each allocation (the buffer, the result, the entries, the
  names) succeeds, and what the uninitialised name pool holds.\<close>

record elf_env =
  ee_alloc :: "nat \<Rightarrow> bool"
  ee_fresh :: "nat \<Rightarrow> u8"

fun find_symtab ::
  "u8 list \<Rightarrow> u64 \<Rightarrow> elf32_ehdr \<Rightarrow> nat list \<Rightarrow> elf_error + elf32_shdr option" where
  "find_symtab buf file_size ehdr [] = Inr None"
| "find_symtab buf file_size ehdr (i # is) =
     and_then (elf_read_shdr buf file_size ehdr (of_nat i))
       (\<lambda>r. case r of
          None \<Rightarrow> Inl Rejected
        | Some shdr \<Rightarrow>
            if sh_type shdr = SHT_SYMTAB then Inr (Some shdr)
            else find_symtab buf file_size ehdr is)"

text \<open>The part the two passes share: symbol \<open>i\<close> with its name, \<open>None\<close> when it is skipped.\<close>

definition useful_symbol ::
  "u8 list \<Rightarrow> u64 \<Rightarrow> elf32_shdr \<Rightarrow> elf32_shdr \<Rightarrow> nat \<Rightarrow> elf_error + (elf32_sym \<times> nat \<times> u64) option" where
  "useful_symbol buf file_size symtab strtab i =
     and_then (elf_read_sym buf file_size symtab (of_nat i))
       (\<lambda>r. case r of
          None \<Rightarrow> Inl Rejected
        | Some esym \<Rightarrow>
            if \<not> IS_USEFUL_SYM (st_info esym) \<or> st_value esym = 0 then Inr None
            else and_then (elf_get_name buf strtab (st_name esym))
                   (\<lambda>r. case r of
                      None \<Rightarrow> Inl Rejected
                    | Some (name, name_len) \<Rightarrow> Inr (Some (esym, name, name_len))))"

text \<open>First pass: the number of symbols and the bytes of their names.\<close>

fun count_symbols ::
  "(nat \<Rightarrow> elf_error + (elf32_sym \<times> nat \<times> u64) option) \<Rightarrow> nat list \<Rightarrow> u64 \<Rightarrow> u64 \<Rightarrow>
     elf_error + u64 \<times> u64" where
  "count_symbols f [] used bytes = Inr (used, bytes)"
| "count_symbols f (i # is) used bytes =
     and_then (f i)
       (\<lambda>r. case r of
          None \<Rightarrow> count_symbols f is used bytes
        | Some (esym, name, name_len) \<Rightarrow>
            if name_len > SIZE_MAX - bytes then Inl Rejected
            else count_symbols f is (used + 1) (bytes + name_len))"

text \<open>Second pass: into an array of \<open>room\<close> entries and the name pool.\<close>

fun copy_symbols ::
  "u8 list \<Rightarrow> (nat \<Rightarrow> elf_error + (elf32_sym \<times> nat \<times> u64) option) \<Rightarrow> nat \<Rightarrow> nat list \<Rightarrow> u64 \<Rightarrow>
     elf_symbols \<Rightarrow> elf_error + elf_symbols" where
  "copy_symbols buf f room [] name_off s = Inr s"
| "copy_symbols buf f room (i # is) name_off s =
     and_then (f i)
       (\<lambda>r. case r of
          None \<Rightarrow> copy_symbols buf f room is name_off s
        | Some (esym, name, nlen) \<Rightarrow>
            and_then (copy_from buf name (unat nlen)) (\<lambda>bs.
            and_then (copy_into (es_names s) (unat name_off) bs) (\<lambda>pool.
              if length (es_entries s) < room
              then copy_symbols buf f room is (name_off + nlen)
                     \<lparr>es_entries = es_entries s @
                        [\<lparr>se_addr = st_value esym, se_size = st_size esym, se_name_offset = ucast name_off\<rparr>],
                      es_names = pool\<rparr>
              else Inl Out_Of_Bounds)))"

text \<open>The comparator given to \<open>qsort\<close>.\<close>

definition sym_cmp :: "sym_entry \<Rightarrow> sym_entry \<Rightarrow> int" where
  "sym_cmp a b = (if se_addr a < se_addr b then - 1 else if se_addr b < se_addr a then 1 else 0)"

text \<open>Everything after the symbol table and its strings are found. An entry the second pass
  left unwritten would be sorted uninitialised: \<open>Out_Of_Bounds\<close> too.\<close>

definition load_symbols ::
  "elf_env \<Rightarrow> ((sym_entry \<Rightarrow> sym_entry \<Rightarrow> int) \<Rightarrow> sym_entry list \<Rightarrow> sym_entry list) \<Rightarrow>
     u8 list \<Rightarrow> u64 \<Rightarrow> elf32_shdr \<Rightarrow> elf32_shdr \<Rightarrow>
     elf_error + elf_symbols" where
  "load_symbols H qsort buf file_size symtab strtab =
     (let f = useful_symbol buf file_size symtab strtab;
          idx = [0 ..< unat (sh_size symtab div sh_entsize symtab)] in
      and_then (count_symbols f idx 0 0) (\<lambda>(used, bytes).
        if 0x7FFFFFFF < used \<or> 0xFFFFFFFF < bytes then Inl Rejected
        else if \<not> ee_alloc H 1 then Inl Rejected
        else if used = 0 then Inr \<lparr>es_entries = [], es_names = []\<rparr>
        else if used > SIZE_MAX div 12 then Inl Rejected
        else if \<not> ee_alloc H 2 \<or> \<not> ee_alloc H 3 then Inl Rejected
        else
          and_then (copy_symbols buf f (unat used) idx 0
                      \<lparr>es_entries = [], es_names = map (ee_fresh H) [0 ..< unat bytes]\<rparr>) (\<lambda>s.
          if length (es_entries s) < unat used then Inl Out_Of_Bounds
          else Inr (s\<lparr>es_entries := qsort sym_cmp (es_entries s)\<rparr>))))"

text \<open>The file is \<open>None\<close> when there is no path or it cannot be opened; its size must be a value
  of type long. A file that is read is read whole.\<close>

definition elf_symbols_load ::
  "elf_env \<Rightarrow> ((sym_entry \<Rightarrow> sym_entry \<Rightarrow> int) \<Rightarrow> sym_entry list \<Rightarrow> sym_entry list) \<Rightarrow>
     u8 list option \<Rightarrow> elf_error + elf_symbols" where
  "elf_symbols_load H qsort file =
     (case file of
        None \<Rightarrow> Inl Rejected
      | Some buf \<Rightarrow>
          if 2 ^ 63 \<le> int (length buf) \<or> length buf < EHDR_SIZE \<or> \<not> ee_alloc H 0 then Inl Rejected
          else
            let file_size = of_nat (length buf) :: u64 in
            and_then (copy_from buf 0 EHDR_SIZE) (\<lambda>hdr.
            let ehdr = ehdr_of hdr in
            if take 4 (e_ident ehdr) \<noteq> [0x7F, 0x45, 0x4C, 0x46] \<or> e_ident ehdr ! 4 \<noteq> 1 \<or>
               e_ident ehdr ! 5 \<noteq> 1
            then Inl Rejected
            else if e_shoff ehdr = 0 \<or> e_shnum ehdr = 0 \<or> unat (e_shentsize ehdr) < SHDR_SIZE \<or>
                    \<not> file_range_valid (ucast (e_shoff ehdr)) 0 file_size \<or>
                    ucast (e_shnum ehdr) > (file_size - ucast (e_shoff ehdr)) div ucast (e_shentsize ehdr)
            then Inl Rejected
            else
              and_then (find_symtab buf file_size ehdr [0 ..< unat (e_shnum ehdr)]) (\<lambda>found.
              case found of
                None \<Rightarrow>
                  if ee_alloc H 1 then Inr \<lparr>es_entries = [], es_names = []\<rparr> else Inl Rejected
              | Some symtab \<Rightarrow>
                  if unat (sh_entsize symtab) < SYM_SIZE \<or> sh_size symtab mod sh_entsize symtab \<noteq> 0 \<or>
                     \<not> file_range_valid (ucast (sh_offset symtab)) (ucast (sh_size symtab)) file_size
                  then Inl Rejected
                  else and_then (elf_read_shdr buf file_size ehdr (sh_link symtab)) (\<lambda>r.
                    case r of
                      None \<Rightarrow> Inl Rejected
                    | Some strtab \<Rightarrow>
                        if sh_type strtab \<noteq> SHT_STRTAB \<or>
                           \<not> file_range_valid (ucast (sh_offset strtab)) (ucast (sh_size strtab)) file_size
                        then Inl Rejected
                        else load_symbols H qsort buf file_size symtab strtab))))"

section \<open>Queries\<close>

record elf_sym_info =
  si_name :: "u8 list"
  si_addr :: u32
  si_size :: u32
  si_offset :: u32

text \<open>A C string of the pool.\<close>

definition name_at :: "u8 list \<Rightarrow> u32 \<Rightarrow> u8 list" where
  "name_at pool off = takeWhile (\<lambda>b. b \<noteq> 0) (drop (unat off) pool)"

function lookup_loop :: "sym_entry list \<Rightarrow> u32 \<Rightarrow> int \<Rightarrow> int \<Rightarrow> int \<Rightarrow> int" where
  "lookup_loop es addr lo hi best =
     (if lo \<le> hi then
        let mid = lo + (hi - lo) div 2 in
        if se_addr (es ! nat mid) \<le> addr then lookup_loop es addr (mid + 1) hi mid
        else lookup_loop es addr lo (mid - 1) best
      else best)"
  by pat_completeness auto

termination
  by (relation "measure (\<lambda>(es, addr, lo, hi, best). nat (hi - lo + 1))") auto

declare lookup_loop.simps [simp del]

definition elf_symbols_lookup :: "elf_symbols option \<Rightarrow> u32 \<Rightarrow> elf_sym_info option" where
  "elf_symbols_lookup syms addr =
     (case syms of
        None \<Rightarrow> None
      | Some s \<Rightarrow>
          if es_entries s = [] then None
          else
            let best = lookup_loop (es_entries s) addr 0 (int (length (es_entries s)) - 1) (- 1) in
            if best < 0 then None
            else
              let e = es_entries s ! nat best; offset = addr - se_addr e in
              if 0 < se_size e \<and> se_size e \<le> offset then None
              else Some \<lparr>si_name = name_at (es_names s) (se_name_offset e), si_addr = se_addr e,
                         si_size = se_size e, si_offset = offset\<rparr>)"

definition elf_symbols_find :: "elf_symbols option \<Rightarrow> u8 list option \<Rightarrow> u32 option" where
  "elf_symbols_find syms name =
     (case (syms, name) of
        (Some s, Some n) \<Rightarrow>
          map_option se_addr
            (List.find (\<lambda>e. name_at (es_names s) (se_name_offset e) = n) (es_entries s))
      | _ \<Rightarrow> None)"

definition elf_symbols_count :: "elf_symbols option \<Rightarrow> nat" where
  "elf_symbols_count syms = (case syms of None \<Rightarrow> 0 | Some s \<Rightarrow> length (es_entries s))"

text \<open>The callback gets name, address and size; it acts on a state of its own and stops the
  iteration with true. The result counts the symbols processed.\<close>

fun iterate_loop ::
  "u8 list \<Rightarrow> (u8 list \<Rightarrow> u32 \<Rightarrow> u32 \<Rightarrow> 'c \<Rightarrow> bool \<times> 'c) \<Rightarrow> nat \<Rightarrow> sym_entry list \<Rightarrow> 'c \<Rightarrow> nat \<times> 'c" where
  "iterate_loop pool f i [] x = (i, x)"
| "iterate_loop pool f i (e # es) x =
     (case f (name_at pool (se_name_offset e)) (se_addr e) (se_size e) x of
        (stop, y) \<Rightarrow> if stop then (i + 1, y) else iterate_loop pool f (i + 1) es y)"

definition elf_symbols_iterate ::
  "elf_symbols option \<Rightarrow> (u8 list \<Rightarrow> u32 \<Rightarrow> u32 \<Rightarrow> 'c \<Rightarrow> bool \<times> 'c) option \<Rightarrow> 'c \<Rightarrow> nat \<times> 'c" where
  "elf_symbols_iterate syms callback x =
     (case (syms, callback) of
        (Some s, Some f) \<Rightarrow> iterate_loop (es_names s) f 0 (es_entries s) x
      | _ \<Rightarrow> (0, x))"

end
