(* ===== verification/Elf_Facts.thy ===== *)
theory Elf_Facts
  imports Elf_Symbols
begin

text \<open>
  What the symbol reader guarantees: it never leaves the file buffer, the name pool or the entry
  array, whatever bytes the file holds; a table it returns holds exactly the function and object
  symbols of the file with their names; a query by address finds the nearest symbol below it.
\<close>

section \<open>Checked accesses\<close>

lemma and_then_simps [simp]: "and_then (Inl e) f = Inl e" "and_then (Inr x) f = f x"
  by (simp_all add: and_then_def)

lemma and_then_Inl:
  "and_then r f = Inl e \<longleftrightarrow> r = Inl e \<or> (\<exists>x. r = Inr x \<and> f x = Inl e)"
  by (cases r) simp_all

lemma and_then_Inr: "and_then r f = Inr y \<longleftrightarrow> (\<exists>x. r = Inr x \<and> f x = Inr y)"
  by (cases r) simp_all

lemma map_sum_Inl_iff: "map_sum id f r = Inl e \<longleftrightarrow> r = Inl e"
  by (cases r) simp_all

lemma map_sum_Inr_iff: "map_sum id f r = Inr y \<longleftrightarrow> (\<exists>x. r = Inr x \<and> y = f x)"
  by (cases r) auto

lemma unat_of_small: "n < 2 ^ LENGTH('a) \<Longrightarrow> unat (of_nat n :: 'a::len word) = n"
  by (simp add: unat_of_nat take_bit_nat_eq_self)

lemma unat_u64_less: "unat (x :: u64) < 2 ^ 64"
  using unsigned_less [of x, where ?'a = nat] by simp

lemma unat_size_left: "unat (SIZE_MAX - x) = 2 ^ 64 - 1 - unat x"
  by (subst unat_sub) (simp_all add: unsigned_minus_1_eq_mask mask_eq_exp_minus_1)

lemma range_validD:
  assumes "file_range_valid off n (of_nat L)" "L < 2 ^ 63"
  shows "unat off + unat n \<le> L"
proof -
  have L: "unat (of_nat L :: u64) = L" using assms(2) by (intro unat_of_small) simp
  have "off \<le> of_nat L" "n \<le> of_nat L - off" using assms(1) by (simp_all add: file_range_valid_def)
  then have "unat off \<le> L" "unat n \<le> unat (of_nat L - off)" using L by (simp_all add: word_le_nat_alt)
  moreover have "unat (of_nat L - off) = L - unat off"
    using \<open>off \<le> of_nat L\<close> L by (simp add: unat_sub)
  ultimately show ?thesis by simp
qed

lemma unat_table_offset:
  assumes "index \<le> (SIZE_MAX - table_off) div stride" "stride \<noteq> (0 :: u64)"
  shows "unat (table_off + index * stride) = unat table_off + unat index * unat stride"
proof -
  have "unat index \<le> (2 ^ 64 - 1 - unat table_off) div unat stride"
  proof -
    show ?thesis using assms(1) by (simp add: word_le_nat_alt unat_div unat_size_left)
  qed
  then have "unat index * unat stride \<le> 2 ^ 64 - 1 - unat table_off"
    by (rule order_trans [OF mult_le_mono1 div_times_less_eq_dividend])
  moreover have "unat table_off < 2 ^ 64" using unsigned_less [of table_off, where ?'a = nat] by simp
  ultimately have "unat table_off + unat index * unat stride < 2 ^ 64" by simp
  then show ?thesis by (simp add: unat_word_ariths)
qed

lemma read_entry_cases:
  assumes "length buf < 2 ^ 63" "0 < n" "n < 2 ^ 63"
    and r: "read_entry buf (of_nat (length buf)) stride table_off index n = r"
  shows "r = Inr None \<or>
         (r = Inr (Some (take n (drop (unat table_off + unat index * unat stride) buf))) \<and>
          unat table_off + unat index * unat stride + n \<le> length buf)"
proof (cases "stride < of_nat n \<or> index > (SIZE_MAX - table_off) div stride \<or>
    \<not> file_range_valid (table_off + index * stride) (of_nat n) (of_nat (length buf))")
  case True
  then have "read_entry buf (of_nat (length buf)) stride table_off index n = Inr None"
    unfolding read_entry_def Let_def by auto
  then show ?thesis using r by simp
next
  case False
  have n: "unat (of_nat n :: u64) = n" using assms(3) by (intro unat_of_small) simp
  have "stride \<noteq> 0" using False n assms(2) by (auto simp: word_less_nat_alt)
  then have u: "unat (table_off + index * stride) = unat table_off + unat index * unat stride"
    using False by (intro unat_table_offset) (auto simp: not_less)
  have "unat (table_off + index * stride) + n \<le> length buf"
    using False range_validD [OF _ assms(1)] n by metis
  then show ?thesis using False r u by (auto simp: read_entry_def Let_def copy_from_def)
qed

lemma memchr_nul_bounds:
  "pos + n \<le> length buf \<Longrightarrow> memchr_nul buf pos n \<noteq> Inl e"
  by (induction buf pos n rule: memchr_nul.induct) auto

lemma memchr_nul_found:
  assumes "memchr_nul buf pos n = Inr (Some e)" "pos + n \<le> length buf"
  shows "pos \<le> e \<and> e < pos + n \<and>
         take (e - pos) (drop pos buf) = takeWhile (\<lambda>b. b \<noteq> 0) (drop pos buf) \<and>
         take (e - pos + 1) (drop pos buf) = takeWhile (\<lambda>b. b \<noteq> 0) (drop pos buf) @ [0]"
  using assms
proof (induction buf pos n rule: memchr_nul.induct)
  case (2 buf pos n)
  have d: "drop pos buf = buf ! pos # drop (Suc pos) buf"
    using 2(3) by (simp add: Cons_nth_drop_Suc)
  show ?case
  proof (cases "buf ! pos = 0")
    case True
    then show ?thesis using 2 d by (auto split: if_splits)
  next
    case False
    then have *: "memchr_nul buf (pos + 1) n = Inr (Some e)" using 2 by (auto split: if_splits)
    then have "pos + 1 \<le> e" "e < pos + 1 + n"
      "take (e - (pos + 1)) (drop (pos + 1) buf) = takeWhile (\<lambda>b. b \<noteq> 0) (drop (pos + 1) buf)"
      "take (e - (pos + 1) + 1) (drop (pos + 1) buf) = takeWhile (\<lambda>b. b \<noteq> 0) (drop (pos + 1) buf) @ [0]"
      using 2 False by (auto split: if_splits)
    moreover have "e - pos = Suc (e - (pos + 1))" using \<open>pos + 1 \<le> e\<close> by simp
    ultimately show ?thesis using False d by simp
  qed
qed simp

section \<open>The symbols of a file\<close>

text \<open>A C string in the file, and the symbols of a table without any of the reader's checks.\<close>

definition string_at :: "u8 list \<Rightarrow> nat \<Rightarrow> u8 list" where
  "string_at bs pos = takeWhile (\<lambda>b. b \<noteq> 0) (drop pos bs)"

definition symbol_at :: "u8 list \<Rightarrow> elf32_shdr \<Rightarrow> nat \<Rightarrow> elf32_sym" where
  "symbol_at buf symtab i =
     sym_of (take 16 (drop (unat (sh_offset symtab) + i * unat (sh_entsize symtab)) buf))"

definition wanted :: "elf32_sym \<Rightarrow> bool" where
  "wanted y \<longleftrightarrow> (st_info y AND 0xF = 1 \<or> st_info y AND 0xF = 2) \<and> st_value y \<noteq> 0"

definition symbol_name :: "u8 list \<Rightarrow> elf32_shdr \<Rightarrow> elf32_sym \<Rightarrow> u8 list" where
  "symbol_name buf strtab y = string_at buf (unat (sh_offset strtab) + unat (st_name y))"

text \<open>What the two passes see of symbol \<open>i\<close>.\<close>

definition sees ::
  "u8 list \<Rightarrow> (nat \<Rightarrow> elf_error + (elf32_sym \<times> nat \<times> u64) option) \<Rightarrow> (nat \<Rightarrow> elf32_sym) \<Rightarrow>
     (elf32_sym \<Rightarrow> u8 list) \<Rightarrow> nat \<Rightarrow> bool" where
  "sees buf f S N i \<longleftrightarrow>
     (if wanted (S i)
      then \<exists>p n. f i = Inr (Some (S i, p, n)) \<and> unat n = length (N (S i)) + 1 \<and>
                 p + unat n \<le> length buf \<and> take (unat n) (drop p buf) = N (S i) @ [0] \<and>
                 0 \<notin> set (N (S i))
      else f i = Inr None)"

lemma get_name_cases:
  assumes "length buf < 2 ^ 63" "unat (sh_offset strtab) + unat (sh_size strtab) \<le> length buf"
    and r: "elf_get_name buf strtab k = r"
  defines "p \<equiv> unat (sh_offset strtab) + unat k"
  shows "r = Inr None \<or> (\<exists>n. r = Inr (Some (p, n)) \<and> unat n = length (string_at buf p) + 1 \<and>
           p + unat n \<le> length buf \<and> take (unat n) (drop p buf) = string_at buf p @ [0])"
proof (cases "sh_size strtab \<le> k")
  case False
  let ?a = "unat (sh_size strtab) - unat k"
  have a: "p + ?a \<le> length buf" using assms(2) False by (simp add: p_def not_le word_less_nat_alt)
  have r': "r = map_sum id (map_option (\<lambda>e. (p, of_nat (e - p) + 1))) (memchr_nul buf p ?a)"
    using r False by (simp add: elf_get_name_def p_def Let_def)
  show ?thesis
  proof (cases "memchr_nul buf p ?a")
    case (Inl e)
    then show ?thesis using memchr_nul_bounds [OF a] by simp
  next
    case (Inr m)
    show ?thesis
    proof (cases m)
      case (Some e)
      note f = memchr_nul_found [OF Inr [unfolded Some] a, folded string_at_def]
      have l: "length (string_at buf p) = e - p"
      proof -
        have "e - p \<le> length (drop p buf)" using f a by auto
        then have "length (take (e - p) (drop p buf)) = e - p" by simp
        then show ?thesis using f by simp
      qed
      have "e - p + 1 \<le> length buf" using f a by linarith
      then have "e - p + 1 < 2 ^ 64" using assms(1) by simp
      then have "unat (of_nat (e - p + 1) :: u64) = e - p + 1" by (intro unat_of_small) simp
      then have u: "unat (of_nat (e - p) + 1 :: u64) = e - p + 1" by (simp only: of_nat_add of_nat_1)
      then show ?thesis using f a l Inr Some by (auto simp: r')
    qed (simp add: r' Inr)
  qed
qed (use r in \<open>simp add: elf_get_name_def\<close>)

lemma useful_symbol_cases:
  assumes "length buf < 2 ^ 63" "unat (sh_offset strtab) + unat (sh_size strtab) \<le> length buf"
    and "i < 2 ^ 32"
  shows "useful_symbol buf (of_nat (length buf)) symtab strtab i = Inl Rejected \<or>
         sees buf (useful_symbol buf (of_nat (length buf)) symtab strtab) (symbol_at buf symtab)
           (symbol_name buf strtab) i"
proof -
  have i: "unat (of_nat i :: u64) = i" using assms(3) by (intro unat_of_small) simp
  have "unat (ucast (x :: u32) :: u64) = unat x" for x
    by (simp add: unat_eq_nat_uint uint_up_ucast is_up del: nat_uint_eq)
  then have sym: "elf_read_sym buf (of_nat (length buf)) symtab (of_nat i) = Inr None \<or>
      elf_read_sym buf (of_nat (length buf)) symtab (of_nat i) = Inr (Some (symbol_at buf symtab i))"
    using read_entry_cases [OF assms(1), of 16 "ucast (sh_entsize symtab)" "ucast (sh_offset symtab)" "of_nat i"] i
    by (auto simp: elf_read_sym_def SYM_SIZE_def symbol_at_def)
  show ?thesis
    using sym get_name_cases [OF assms(1,2) refl, of "st_name (symbol_at buf symtab i)"]
    by (auto simp: useful_symbol_def sees_def wanted_def IS_USEFUL_SYM_def symbol_name_def string_at_def
        dest: set_takeWhileD)
qed

section \<open>The two passes\<close>

definition name_bytes :: "(elf32_sym \<Rightarrow> u8 list) \<Rightarrow> elf32_sym list \<Rightarrow> nat" where
  "name_bytes N ys = sum_list (map (\<lambda>y. length (N y) + 1) ys)"

definition symbols_of :: "(nat \<Rightarrow> elf32_sym) \<Rightarrow> nat list \<Rightarrow> elf32_sym list" where
  "symbols_of S is = filter wanted (map S is)"

lemma name_bytes_simps [simp]:
  "name_bytes N [] = 0" "name_bytes N (y # ys) = length (N y) + 1 + name_bytes N ys"
  by (simp_all add: name_bytes_def)

lemma symbols_of_simps [simp]:
  "symbols_of S [] = []"
  "symbols_of S (i # is) = (if wanted (S i) then S i # symbols_of S is else symbols_of S is)"
  by (simp_all add: symbols_of_def)

lemma count_symbols_cases:
  assumes "\<forall>i \<in> set is. f i = Inl Rejected \<or> sees buf f S N i"
  shows "count_symbols f is used bytes = Inl Rejected \<or>
         ((\<forall>i \<in> set is. sees buf f S N i) \<and>
          (\<exists>b. count_symbols f is used bytes = Inr (used + of_nat (length (symbols_of S is)), b) \<and>
               unat b = unat bytes + name_bytes N (symbols_of S is)))"
  using assms
proof (induction "is" arbitrary: used bytes)
  case (Cons i "is")
  show ?case
  proof (cases "f i = Inl Rejected")
    case False
    then have s: "sees buf f S N i" using Cons.prems by simp
    show ?thesis
    proof (cases "wanted (S i)")
      case True
      then obtain p n where f: "f i = Inr (Some (S i, p, n))" "unat n = length (N (S i)) + 1"
        using s by (auto simp: sees_def)
      show ?thesis
      proof (cases "n > SIZE_MAX - bytes")
        case False
        have "unat n \<le> 2 ^ 64 - 1 - unat bytes"
          using False by (simp only: not_less word_le_nat_alt unat_size_left)
        then have "unat n + unat bytes < 2 ^ 64"
          using unat_u64_less [of bytes] by linarith
        then have "unat (bytes + n) = unat bytes + unat n"
          by (intro unat_add_lem [THEN iffD1]) (simp only: add.commute [of "unat bytes"], simp)
        moreover have "count_symbols f (i # is) used bytes = count_symbols f is (used + 1) (bytes + n)"
          using f False by simp
        moreover have "count_symbols f is (used + 1) (bytes + n) = Inl Rejected \<or>
            ((\<forall>i \<in> set is. sees buf f S N i) \<and>
             (\<exists>b. count_symbols f is (used + 1) (bytes + n) =
                    Inr (used + 1 + of_nat (length (symbols_of S is)), b) \<and>
                  unat b = unat (bytes + n) + name_bytes N (symbols_of S is)))"
          using Cons.prems by (intro Cons.IH) simp
        moreover have "used + of_nat (length (symbols_of S (i # is))) =
            used + 1 + of_nat (length (symbols_of S is))" using True by simp
        moreover have "name_bytes N (symbols_of S (i # is)) = unat n + name_bytes N (symbols_of S is)"
          using True f(2) by simp
        ultimately show ?thesis using s by (elim disjE conjE exE) (simp_all add: ac_simps)
      qed (simp add: f)
    next
      case False
      then have "f i = Inr None" using s by (simp add: sees_def)
      then show ?thesis using Cons.IH [of used bytes] Cons.prems s False by simp
    qed
  qed simp
qed simp

text \<open>What an entry shows.\<close>

definition entry_view :: "u8 list \<Rightarrow> sym_entry \<Rightarrow> u32 \<times> u32 \<times> u8 list" where
  "entry_view pool e = (se_addr e, se_size e, name_at pool (se_name_offset e))"

definition symbol_view :: "(elf32_sym \<Rightarrow> u8 list) \<Rightarrow> elf32_sym \<Rightarrow> u32 \<times> u32 \<times> u8 list" where
  "symbol_view N y = (st_value y, st_size y, N y)"

lemma name_at_prefix:
  assumes "take k pool = pre @ nm @ [0]" "length pre = unat off" "0 \<notin> set nm"
  shows "name_at pool off = nm"
proof -
  have "pool = (pre @ nm @ [0]) @ drop k pool" using assms(1) by (metis append_take_drop_id)
  then have "drop (unat off) pool = nm @ 0 # drop k pool" using assms(2)
    by (metis append_assoc append_Cons append_Nil append_eq_conv_conj)
  moreover have "\<forall>b \<in> set nm. b \<noteq> 0" using assms(3) by metis
  ultimately show ?thesis unfolding name_at_def by (simp add: takeWhile_append2)
qed

lemma copy_symbols_ok:
  assumes "\<forall>i \<in> set is. sees buf f S N i"
    and "unat off + name_bytes N (symbols_of S is) \<le> length (es_names s)" "length (es_names s) < 2 ^ 32"
    and "length (es_entries s) + length (symbols_of S is) \<le> room"
  shows "\<exists>s' es. copy_symbols buf f room is off s = Inr s' \<and> es_entries s' = es_entries s @ es \<and>
           take (unat off) (es_names s') = take (unat off) (es_names s) \<and>
           map (entry_view (es_names s')) es = map (symbol_view N) (symbols_of S is)"
  using assms
proof (induction "is" arbitrary: off s)
  case (Cons i "is")
  show ?case
  proof (cases "wanted (S i)")
    case False
    then have "f i = Inr None" using Cons.prems(1) by (simp add: sees_def)
    then show ?thesis using Cons False by simp
  next
    case True
    then obtain p n where f: "f i = Inr (Some (S i, p, n))" "unat n = length (N (S i)) + 1"
      "p + unat n \<le> length buf" "take (unat n) (drop p buf) = N (S i) @ [0]" "0 \<notin> set (N (S i))"
      using Cons.prems(1) by (auto simp: sees_def)
    let ?nm = "N (S i) @ [0]" and ?e = "\<lparr>se_addr = st_value (S i), se_size = st_size (S i), se_name_offset = ucast off\<rparr>"
    let ?pool = "take (unat off) (es_names s) @ ?nm @ drop (unat off + length ?nm) (es_names s)"
    let ?s = "\<lparr>es_entries = es_entries s @ [?e], es_names = ?pool\<rparr>"
    have room: "unat off + length ?nm \<le> length (es_names s)" using Cons.prems(2) True by simp
    have l: "length ?pool = length (es_names s)" using room by simp
    have o: "unat (off + n) = unat off + length ?nm"
      using room f(2) Cons.prems(3) by (subst unat_add_lem [THEN iffD1]) simp_all
    have u: "unat (ucast off :: u32) = unat off"
    proof -
      have "unat off < 2 ^ 32" using room Cons.prems(3) by simp
      then show ?thesis by (simp add: unsigned_ucast_eq take_bit_nat_eq_self)
    qed
    have step: "copy_symbols buf f room (i # is) off s = copy_symbols buf f room is (off + n) ?s"
      using f room Cons.prems(4) True by (simp add: copy_from_def copy_into_def)
    obtain s' es where s': "copy_symbols buf f room is (off + n) ?s = Inr s'"
      "es_entries s' = es_entries ?s @ es" "take (unat (off + n)) (es_names s') = take (unat (off + n)) (es_names ?s)"
      "map (entry_view (es_names s')) es = map (symbol_view N) (symbols_of S is)"
    proof -
      have "\<forall>i \<in> set is. sees buf f S N i" using Cons.prems(1) by simp
      moreover have "unat (off + n) + name_bytes N (symbols_of S is) \<le> length (es_names ?s)"
        using Cons.prems(2) True o l by simp
      moreover have "length (es_names ?s) < 2 ^ 32" using Cons.prems(3) l by simp
      moreover have "length (es_entries ?s) + length (symbols_of S is) \<le> room"
        using Cons.prems(4) True by simp
      ultimately show thesis using Cons.IH [of "off + n" ?s] that by blast
    qed
    have pre: "take (unat (off + n)) (es_names s') = take (unat off) (es_names s) @ ?nm"
      using s'(3) room o by simp
    have lo: "length (take (unat off) (es_names s)) = unat off" using room by auto
    have "name_at (es_names s') (ucast off) = N (S i)"
      using name_at_prefix [OF pre _ f(5), of "ucast off"] lo u by simp
    then have "map (entry_view (es_names s')) (?e # es) = map (symbol_view N) (symbols_of S (i # is))"
      using s'(4) True by (simp add: entry_view_def symbol_view_def)
    moreover have "take (unat off) (es_names s') = take (unat off) (es_names s)"
    proof -
      have "take (unat off) (es_names s') = take (unat off) (take (unat (off + n)) (es_names s'))"
        using o by simp
      then show ?thesis unfolding pre using room by simp
    qed
    ultimately show ?thesis using step s'(1,2) by (auto intro!: exI [of _ "?e # es"])
  qed
qed simp

section \<open>Loading\<close>

text \<open>The symbols of a file, read off its bytes without checks, passes or pool: the address, the
  size and the name of every named function or object of the first symbol table.\<close>

definition section_at :: "u8 list \<Rightarrow> elf32_ehdr \<Rightarrow> nat \<Rightarrow> elf32_shdr" where
  "section_at buf ehdr k =
     shdr_of (take 40 (drop (unat (e_shoff ehdr) + k * unat (e_shentsize ehdr)) buf))"

definition file_symbols :: "u8 list \<Rightarrow> (u32 \<times> u32 \<times> u8 list) list" where
  "file_symbols buf =
     (let ehdr = ehdr_of (take 52 buf) in
      case List.find (\<lambda>h. sh_type h = SHT_SYMTAB)
             (map (section_at buf ehdr) [0 ..< unat (e_shnum ehdr)]) of
        None \<Rightarrow> []
      | Some symtab \<Rightarrow>
          map (symbol_view (symbol_name buf (section_at buf ehdr (unat (sh_link symtab)))))
            (symbols_of (symbol_at buf symtab) [0 ..< unat (sh_size symtab div sh_entsize symtab)]))"

text \<open>What the C standard promises of \<open>qsort\<close>: given a comparator that is a total preorder, the
  array is permuted so that no element compares greater than a later one.\<close>

definition comparator :: "('a \<Rightarrow> 'a \<Rightarrow> int) \<Rightarrow> bool" where
  "comparator cmp \<longleftrightarrow> (\<forall>a b. cmp a b < 0 \<longleftrightarrow> 0 < cmp b a) \<and>
     (\<forall>a b c. cmp a b \<le> 0 \<longrightarrow> cmp b c \<le> 0 \<longrightarrow> cmp a c \<le> 0)"

definition sorting :: "(('a \<Rightarrow> 'a \<Rightarrow> int) \<Rightarrow> 'a list \<Rightarrow> 'a list) \<Rightarrow> bool" where
  "sorting srt \<longleftrightarrow> (\<forall>cmp es. comparator cmp \<longrightarrow>
     mset (srt cmp es) = mset es \<and> sorted_wrt (\<lambda>a b. cmp a b \<le> 0) (srt cmp es))"

lemma sym_cmp_le: "sym_cmp a b \<le> 0 \<longleftrightarrow> se_addr a \<le> se_addr b"
  by (auto simp: sym_cmp_def)

lemma comparator_sym_cmp: "comparator sym_cmp"
  by (auto simp: comparator_def sym_cmp_def split: if_splits)

lemma sorting_sym_cmp:
  assumes "sorting srt"
  shows "mset (srt sym_cmp es) = mset es" "sorted (map se_addr (srt sym_cmp es))"
  using assms comparator_sym_cmp unfolding sorting_def sorted_map sym_cmp_le by (blast, fastforce simp: sym_cmp_le)

definition loaded ::
  "(sym_entry list \<Rightarrow> sym_entry list) \<Rightarrow> (u32 \<times> u32 \<times> u8 list) list \<Rightarrow> elf_symbols \<Rightarrow> bool" where
  "loaded srt vs s \<longleftrightarrow>
     (\<exists>es. (es_entries s = srt es \<or> es_entries s = [] \<and> es = []) \<and> map (entry_view (es_names s)) es = vs)"

lemma unat_u32_64: "unat (ucast (x :: u32) :: u64) = unat x"
  by (simp add: unat_eq_nat_uint uint_up_ucast is_up del: nat_uint_eq)

lemma unat_u16_64: "unat (ucast (x :: u16) :: u64) = unat x"
  by (simp add: unat_eq_nat_uint uint_up_ucast is_up del: nat_uint_eq)

lemma read_shdr_cases:
  assumes "length buf < 2 ^ 63"
  shows "elf_read_shdr buf (of_nat (length buf)) ehdr index = Inr None \<or>
         elf_read_shdr buf (of_nat (length buf)) ehdr index = Inr (Some (section_at buf ehdr (unat index)))"
  using read_entry_cases [OF assms, of 40 "ucast (e_shentsize ehdr)" "ucast (e_shoff ehdr)" "ucast index"]
  by (auto simp: elf_read_shdr_def SHDR_SIZE_def section_at_def unat_u32_64 unat_u16_64)

lemma find_symtab_cases:
  assumes "length buf < 2 ^ 63" "\<forall>i \<in> set is. i < 2 ^ 32"
  shows "find_symtab buf (of_nat (length buf)) ehdr is = Inl Rejected \<or>
         find_symtab buf (of_nat (length buf)) ehdr is =
           Inr (List.find (\<lambda>h. sh_type h = SHT_SYMTAB) (map (section_at buf ehdr) is))"
  using assms(2)
proof (induction "is")
  case (Cons i "is")
  have "unat (of_nat i :: u32) = i" using Cons.prems by (intro unat_of_small) simp
  then show ?case
    using read_shdr_cases [OF assms(1), of ehdr "of_nat i"] Cons by auto
qed simp

lemma load_symbols_cases:
  fixes symtab :: elf32_shdr
  assumes "length buf < 2 ^ 63" "unat (sh_offset strtab) + unat (sh_size strtab) \<le> length buf"
  defines "vs \<equiv> map (symbol_view (symbol_name buf strtab))
             (symbols_of (symbol_at buf symtab) [0 ..< unat (sh_size symtab div sh_entsize symtab)])"
  shows "load_symbols H srt buf (of_nat (length buf)) symtab strtab = Inl Rejected \<or>
         (\<exists>s. load_symbols H srt buf (of_nat (length buf)) symtab strtab = Inr s \<and> loaded (srt sym_cmp) vs s)"
proof -
  let ?f = "useful_symbol buf (of_nat (length buf)) symtab strtab"
  let ?is = "[0 ..< unat (sh_size symtab div sh_entsize symtab)]"
  let ?S = "symbol_at buf symtab" and ?N = "symbol_name buf strtab"
  let ?n = "length (symbols_of ?S ?is)"
  have "i < 2 ^ 32" if "i \<in> set ?is" for i
    using that unsigned_less [of "sh_size symtab div sh_entsize symtab", where ?'a = nat] by simp
  then have "\<forall>i \<in> set ?is. ?f i = Inl Rejected \<or> sees buf ?f ?S ?N i"
    using useful_symbol_cases [OF assms(1,2)] by blast
  then consider "count_symbols ?f ?is 0 0 = Inl Rejected"
    | b where "count_symbols ?f ?is 0 0 = Inr (of_nat ?n, b)" "\<forall>i \<in> set ?is. sees buf ?f ?S ?N i"
        "unat b = name_bytes ?N (symbols_of ?S ?is)"
    using count_symbols_cases [of ?is ?f buf ?S ?N 0 0] by auto
  then show ?thesis
  proof cases
    case 1
    then show ?thesis by (simp add: load_symbols_def Let_def)
  next
    case 2
    have "?n \<le> unat (sh_size symtab div sh_entsize symtab)"
      by (simp add: symbols_of_def le_trans [OF length_filter_le])
    then have "?n < 2 ^ 64" using unsigned_less [of "sh_size symtab div sh_entsize symtab", where ?'a = nat] by simp
    then have n: "unat (of_nat ?n :: u64) = ?n" by (intro unat_of_small) simp
    have empty: "vs = []" if "(of_nat ?n :: u64) = 0" using that n by (simp add: vs_def)
    show ?thesis
    proof (cases "0x7FFFFFFF < (of_nat ?n :: u64) \<or> 0xFFFFFFFF < b \<or> \<not> ee_alloc H 1 \<or> (of_nat ?n :: u64) = 0 \<or>
        of_nat ?n > SIZE_MAX div 12 \<or> \<not> ee_alloc H 2 \<or> \<not> ee_alloc H 3")
      case True
      then show ?thesis
        unfolding load_symbols_def Let_def 2(1) and_then_simps prod.case
        using empty by (auto simp: loaded_def)
    next
      case False
      have "unat b < 2 ^ 32" using False by (simp add: not_less word_le_nat_alt)
      then obtain s' where s': "copy_symbols buf ?f ?n ?is 0 \<lparr>es_entries = [], es_names = map (ee_fresh H) [0 ..< unat b]\<rparr> = Inr s'"
        "map (entry_view (es_names s')) (es_entries s') = vs"
        using copy_symbols_ok [OF 2(2), of 0 "\<lparr>es_entries = [], es_names = map (ee_fresh H) [0 ..< unat b]\<rparr>" ?n] 2(3)
        by (auto simp: vs_def)
      have "length (es_entries s') = ?n" using s'(2) by (metis length_map vs_def)
      then have "load_symbols H srt buf (of_nat (length buf)) symtab strtab = Inr (s'\<lparr>es_entries := srt sym_cmp (es_entries s')\<rparr>)"
        unfolding load_symbols_def Let_def 2(1) and_then_simps prod.case n s'(1) using False by auto
      then show ?thesis using s'(2) by (auto simp: loaded_def)
    qed
  qed
qed

lemma load_cases:
  "elf_symbols_load H srt (Some buf) = Inl Rejected \<or>
   (\<exists>s. elf_symbols_load H srt (Some buf) = Inr s \<and> loaded (srt sym_cmp) (file_symbols buf) s)"
proof (cases "2 ^ 63 \<le> length buf \<or> length buf < EHDR_SIZE \<or> \<not> ee_alloc H 0")
  case False
  let ?n = "of_nat (length buf) :: u64"
  define ehdr where "ehdr = ehdr_of (take 52 buf)"
  have L: "length buf < 2 ^ 63" "52 \<le> length buf" using False by (simp_all add: EHDR_SIZE_def)
  have hdr: "copy_from buf 0 EHDR_SIZE = Inr (take 52 buf)" using L(2) by (simp add: copy_from_def EHDR_SIZE_def)
  define find where "find = List.find (\<lambda>h. sh_type h = SHT_SYMTAB) (map (section_at buf ehdr) [0 ..< unat (e_shnum ehdr)])"
  have fs: "file_symbols buf = (case find of None \<Rightarrow> []
      | Some symtab \<Rightarrow> map (symbol_view (symbol_name buf (section_at buf ehdr (unat (sh_link symtab)))))
            (symbols_of (symbol_at buf symtab) [0 ..< unat (sh_size symtab div sh_entsize symtab)]))"
    unfolding file_symbols_def Let_def ehdr_def find_def ..
  have "\<forall>i \<in> set [0 ..< unat (e_shnum ehdr)]. i < 2 ^ 32"
    using unsigned_less [of "e_shnum ehdr", where ?'a = nat] by auto
  note found = find_symtab_cases [OF L(1) this, of ehdr, folded find_def]
  show ?thesis
  proof (cases find)
    case None
    then show ?thesis
      unfolding elf_symbols_load_def option.case Let_def hdr and_then_simps ehdr_def [symmetric]
      using found False by (auto simp: fs loaded_def)
  next
    case (Some symtab)
    let ?str = "section_at buf ehdr (unat (sh_link symtab))"
    have tail: "elf_symbols_load H srt (Some buf) = Inl Rejected \<or>
        (file_range_valid (ucast (sh_offset ?str)) (ucast (sh_size ?str)) ?n \<and>
         elf_symbols_load H srt (Some buf) = load_symbols H srt buf ?n symtab ?str)"
      unfolding elf_symbols_load_def option.case Let_def hdr and_then_simps ehdr_def [symmetric]
      using found read_shdr_cases [OF L(1), of ehdr "sh_link symtab"] False Some by (auto split: if_splits)
    then show ?thesis
    proof
      assume a: "file_range_valid (ucast (sh_offset ?str)) (ucast (sh_size ?str)) ?n \<and>
         elf_symbols_load H srt (Some buf) = load_symbols H srt buf ?n symtab ?str"
      then have "unat (sh_offset ?str) + unat (sh_size ?str) \<le> length buf"
        using range_validD [OF _ L(1)] by (metis unat_u32_64)
      then show ?thesis
        using load_symbols_cases [OF L(1), of ?str H srt symtab] a by (simp add: fs Some)
    qed simp
  qed
qed (simp add: elf_symbols_load_def)

text \<open>C27. Whatever bytes a file holds, loading its symbols never reads outside the file buffer,
  never writes outside the name pool or the entry array, and never sorts an entry it did not
  write.\<close>

theorem elf_load_in_bounds: "elf_symbols_load H srt file \<noteq> Inl Out_Of_Bounds"
proof (cases "file")
  case (Some buf)
  show ?thesis using load_cases [of H srt buf] unfolding Some by force
qed (simp add: elf_symbols_load_def)

lemma loaded_entries:
  assumes "sorting srt" "loaded (srt sym_cmp) vs s"
  shows "mset (map (entry_view (es_names s)) (es_entries s)) = mset vs" "sorted (map se_addr (es_entries s))"
  using assms(2) sorting_sym_cmp [OF assms(1)] by (auto simp: loaded_def)

lemma load_loaded:
  "elf_symbols_load H srt (Some buf) = Inr s \<Longrightarrow> loaded (srt sym_cmp) (file_symbols buf) s"
  using load_cases [of H srt buf] by auto

text \<open>C26. A loaded table holds the symbols of the file in the order of their addresses: entry by
  entry, the address, the size and, through the name pool, the name of each. Entries with the
  same address stand in any order.\<close>

theorem elf_load_symbols:
  assumes "sorting srt" "elf_symbols_load H srt (Some buf) = Inr s"
  shows "mset (map (entry_view (es_names s)) (es_entries s)) = mset (file_symbols buf) \<and>
     sorted (map se_addr (es_entries s))"
  using loaded_entries [OF assms(1) load_loaded [OF assms(2)]] by blast

section \<open>Queries\<close>

lemma lookup_loop_spec:
  assumes "sorted (map se_addr es)" "0 \<le> lo" "hi < int (length es)" "lo \<le> hi + 1" "best = lo - 1"
    and "\<forall>k < nat lo. se_addr (es ! k) \<le> addr"
    and "\<forall>k < length es. hi < int k \<longrightarrow> addr < se_addr (es ! k)"
  shows "- 1 \<le> lookup_loop es addr lo hi best \<and> lookup_loop es addr lo hi best < int (length es) \<and>
         (\<forall>k < length es. se_addr (es ! k) \<le> addr \<longleftrightarrow> int k \<le> lookup_loop es addr lo hi best)"
  using assms
proof (induction es addr lo hi best rule: lookup_loop.induct)
  case (1 es addr lo hi best)
  show ?case
  proof (cases "lo \<le> hi")
    case False
    then have r: "lookup_loop es addr lo hi best = best" by (subst lookup_loop.simps) simp
    have "hi = best" using False 1(6,7) by simp
    have "se_addr (es ! k) \<le> addr \<longleftrightarrow> int k \<le> best" if "k < length es" for k
      using that 1(7-9) \<open>hi = best\<close> by (cases "int k \<le> best") auto
    then show ?thesis using r 1(4-7) \<open>hi = best\<close> by simp
  next
    case True
    let ?mid = "lo + (hi - lo) div 2"
    have mid: "lo \<le> ?mid" "?mid \<le> hi" using True by simp_all
    then have m: "nat ?mid < length es" "0 \<le> ?mid" using 1(4,5) by linarith+
    have mono: "se_addr (es ! j) \<le> se_addr (es ! k)" if "j \<le> k" "k < length es" for j k
      using sorted_nth_mono [OF 1(3), of j k] that by simp
    show ?thesis
    proof (cases "se_addr (es ! nat ?mid) \<le> addr")
      case le: True
      have "lookup_loop es addr lo hi best = lookup_loop es addr (?mid + 1) hi ?mid"
        using True le by (subst lookup_loop.simps) (simp add: Let_def)
      moreover have "\<forall>k < nat (?mid + 1). se_addr (es ! k) \<le> addr"
      proof (intro allI impI)
        fix k assume "k < nat (?mid + 1)"
        then have "k \<le> nat ?mid" using m(2) by linarith
        then show "se_addr (es ! k) \<le> addr" using mono m(1) le by (meson order_trans)
      qed
      ultimately show ?thesis
        using 1(1) [OF True refl le 1(3)] 1(4,5,9) mid m(2) by simp
    next
      case gr: False
      have "lookup_loop es addr lo hi best = lookup_loop es addr lo (?mid - 1) best"
        using True gr by (subst lookup_loop.simps) (simp add: Let_def)
      moreover have "\<forall>k < length es. ?mid - 1 < int k \<longrightarrow> addr < se_addr (es ! k)"
      proof (intro allI impI)
        fix k assume "k < length es" "?mid - 1 < int k"
        then have "nat ?mid \<le> k" using m(2) by linarith
        then show "addr < se_addr (es ! k)" using mono \<open>k < length es\<close> gr by (meson leI less_le_trans)
      qed
      ultimately show ?thesis
        using 1(2) [OF True refl gr 1(3)] 1(4,5,7,8) mid by simp
    qed
  qed
qed

text \<open>A query by address finds the symbol of the file that starts nearest below the address,
  with its name, unless the address lies past its end; it finds nothing only when every symbol
  starts above the address or a nearest one ends before it.\<close>

theorem elf_lookup_nearest:
  assumes "sorting srt" "elf_symbols_load H srt (Some buf) = Inr s"
  shows "case elf_symbols_lookup (Some s) addr of
      Some i \<Rightarrow>
        (si_addr i, si_size i, si_name i) \<in> set (file_symbols buf) \<and> si_addr i \<le> addr \<and>
        si_offset i = addr - si_addr i \<and> (si_size i = 0 \<or> si_offset i < si_size i) \<and>
        (\<forall>(a, n, m) \<in> set (file_symbols buf). a \<le> addr \<longrightarrow> a \<le> si_addr i)
    | None \<Rightarrow>
        (\<forall>(a, n, m) \<in> set (file_symbols buf). addr < a) \<or>
        (\<exists>(a, n, m) \<in> set (file_symbols buf). a \<le> addr \<and> 0 < n \<and> n \<le> addr - a \<and>
           (\<forall>(b, n, m) \<in> set (file_symbols buf). b \<le> addr \<longrightarrow> b \<le> a))"
proof -
  let ?es = "es_entries s" and ?v = "entry_view (es_names s)"
  note l = loaded_entries [OF assms(1) load_loaded [OF assms(2)]]
  have set: "set (file_symbols buf) = ?v ` set ?es" using arg_cong [OF l(1), of set_mset] by simp
  define r where "r = lookup_loop ?es addr 0 (int (length ?es) - 1) (- 1)"
  have "- 1 \<le> r \<and> r < int (length ?es) \<and> (\<forall>k < length ?es. se_addr (?es ! k) \<le> addr \<longleftrightarrow> int k \<le> r)"
    unfolding r_def by (rule lookup_loop_spec [OF l(2)]) auto
  then have r: "- 1 \<le> r" "r < int (length ?es)"
    "\<And>k. k < length ?es \<Longrightarrow> se_addr (?es ! k) \<le> addr \<longleftrightarrow> int k \<le> r" by blast+
  show ?thesis
  proof (cases "r < 0")
    case True
    then have "addr < se_addr (?es ! k)" if "k < length ?es" for k
      using True r(3) [OF that] by (auto simp: not_le [symmetric])
    then have "addr < se_addr e" if "e \<in> set ?es" for e using that by (auto simp: in_set_conv_nth)
    then show ?thesis
      using True by (auto simp: elf_symbols_lookup_def r_def [symmetric] set entry_view_def)
  next
    case False
    let ?e = "?es ! nat r"
    have e: "nat r < length ?es" "?e \<in> set ?es" "se_addr ?e \<le> addr" "?es \<noteq> []" using False r by auto
    have near: "se_addr e \<le> se_addr ?e" if e': "e \<in> set ?es" "se_addr e \<le> addr" for e
    proof -
      obtain k where k: "k < length ?es" "e = ?es ! k" using e' by (metis in_set_conv_nth)
      then have "k \<le> nat r" using e' r(3) by fastforce
      then show ?thesis using sorted_nth_mono [OF l(2), of k "nat r"] k e(1) by simp
    qed
    have look: "elf_symbols_lookup (Some s) addr =
        (if 0 < se_size ?e \<and> se_size ?e \<le> addr - se_addr ?e then None
         else Some \<lparr>si_name = name_at (es_names s) (se_name_offset ?e), si_addr = se_addr ?e,
                    si_size = se_size ?e, si_offset = addr - se_addr ?e\<rparr>)"
      using False e(4) by (simp add: elf_symbols_lookup_def r_def [symmetric] Let_def)
    show ?thesis
    proof (cases "0 < se_size ?e \<and> se_size ?e \<le> addr - se_addr ?e")
      case True
      then have "elf_symbols_lookup (Some s) addr = None" using look by simp
      moreover have "?v ?e \<in> set (file_symbols buf)" using e(2) set by blast
      moreover have "\<forall>x \<in> set (file_symbols buf). case x of (b, n, m) \<Rightarrow> b \<le> addr \<longrightarrow> b \<le> se_addr ?e"
        using near by (auto simp: entry_view_def set)
      ultimately have "\<exists>x \<in> set (file_symbols buf). case x of (a, n, m) \<Rightarrow> a \<le> addr \<and> 0 < n \<and> n \<le> addr - a \<and>
           (\<forall>(b, n, m) \<in> set (file_symbols buf). b \<le> addr \<longrightarrow> b \<le> a)"
        using True e(3) by (intro bexI [of _ "?v ?e"]) (auto simp: entry_view_def)
      then show ?thesis
        using \<open>elf_symbols_lookup (Some s) addr = None\<close> by simp
    next
      case False
      then have "elf_symbols_lookup (Some s) addr =
         Some \<lparr>si_name = name_at (es_names s) (se_name_offset ?e), si_addr = se_addr ?e,
               si_size = se_size ?e, si_offset = addr - se_addr ?e\<rparr>" using look by auto
      moreover have "?v ?e \<in> set (file_symbols buf)" using e(2) set by blast
      ultimately show ?thesis
        using False e(3) near by (auto simp: entry_view_def set not_less not_le word_gt_0)
    qed
  qed
qed

text \<open>A query by name finds an address the file gives that name, or the file has no such symbol.\<close>

lemma elf_find_name:
  assumes "sorting srt" "elf_symbols_load H srt (Some buf) = Inr s"
  shows "case elf_symbols_find (Some s) (Some nm) of
      Some a \<Rightarrow> \<exists>n. (a, n, nm) \<in> set (file_symbols buf)
    | None \<Rightarrow> \<forall>(a, n, m) \<in> set (file_symbols buf). m \<noteq> nm"
proof -
  have set: "set (file_symbols buf) = entry_view (es_names s) ` set (es_entries s)"
    using arg_cong [OF loaded_entries(1) [OF assms(1) load_loaded [OF assms(2)]], of set_mset] by simp
  show ?thesis
  proof (cases "List.find (\<lambda>e. name_at (es_names s) (se_name_offset e) = nm) (es_entries s)")
    case None
    then have "\<forall>e \<in> set (es_entries s). name_at (es_names s) (se_name_offset e) \<noteq> nm"
      by (simp add: find_None_iff)
    then show ?thesis by (auto simp: elf_symbols_find_def None set entry_view_def)
  next
    case (Some e)
    then have "e \<in> set (es_entries s)" "name_at (es_names s) (se_name_offset e) = nm"
      by (auto simp: find_Some_iff)
    then show ?thesis using Some by (auto simp: elf_symbols_find_def set entry_view_def image_iff)
  qed
qed

section \<open>Witnesses\<close>

text \<open>A file with a function \<open>main\<close>, an object \<open>buf\<close> and an unnamed symbol.\<close>

definition shdr_bytes :: "u32 \<Rightarrow> u32 \<Rightarrow> u32 \<Rightarrow> u32 \<Rightarrow> u32 \<Rightarrow> u8 list" where
  "shdr_bytes ty off sz link ent =
     concat (map (to_bytes 4) [0, ty, 0, 0, off, sz, link, 0, 0, ent])"

definition sym_bytes :: "u32 \<Rightarrow> u32 \<Rightarrow> u32 \<Rightarrow> u8 \<Rightarrow> u8 list" where
  "sym_bytes nm val sz info = concat (map (to_bytes 4) [nm, val, sz]) @ [info, 0, 0, 0]"

definition sample_elf :: "u8 list" where
  "sample_elf =
     [0x7F, 0x45, 0x4C, 0x46, 1, 1] @ replicate 26 0 @ to_bytes 4 (52 :: u32) @ replicate 10 0 @
     [40, 0, 2, 0, 0, 0] @ shdr_bytes 2 132 48 1 16 @ shdr_bytes 3 180 10 0 0 @
     sym_bytes 1 0x400D0000 0x20 2 @ sym_bytes 0 0 0 0 @ sym_bytes 6 0x3FFB0000 4 1 @
     [0, 0x6D, 0x61, 0x69, 0x6E, 0, 0x62, 0x75, 0x66, 0]"

definition sample_elf_env :: elf_env where
  "sample_elf_env = \<lparr>ee_alloc = (\<lambda>_. True), ee_fresh = (\<lambda>_. 0xA5)\<rparr>"

definition sample_table :: elf_symbols where
  "sample_table =
     \<lparr>es_entries = [\<lparr>se_addr = 0x3FFB0000, se_size = 4, se_name_offset = 5\<rparr>,
                    \<lparr>se_addr = 0x400D0000, se_size = 0x20, se_name_offset = 0\<rparr>],
      es_names = [0x6D, 0x61, 0x69, 0x6E, 0, 0x62, 0x75, 0x66, 0]\<rparr>"

text \<open>Insertion sort keeps the promise of \<open>qsort\<close>.\<close>

fun insert_by :: "('a \<Rightarrow> 'a \<Rightarrow> int) \<Rightarrow> 'a \<Rightarrow> 'a list \<Rightarrow> 'a list" where
  "insert_by cmp x [] = [x]"
| "insert_by cmp x (y # ys) = (if cmp x y \<le> 0 then x # y # ys else y # insert_by cmp x ys)"

definition sort_by :: "('a \<Rightarrow> 'a \<Rightarrow> int) \<Rightarrow> 'a list \<Rightarrow> 'a list" where
  "sort_by cmp xs = foldr (insert_by cmp) xs []"

lemma mset_insert_by [simp]: "mset (insert_by cmp x ys) = add_mset x (mset ys)"
  by (induction ys) auto

lemma set_insert_by [simp]: "set (insert_by cmp x ys) = insert x (set ys)"
  by (induction ys) auto

lemma sorted_insert_by:
  assumes "comparator cmp" "sorted_wrt (\<lambda>a b. cmp a b \<le> 0) ys"
  shows "sorted_wrt (\<lambda>a b. cmp a b \<le> 0) (insert_by cmp x ys)"
  using assms(2)
proof (induction ys)
  case (Cons y ys)
  note c = assms(1) [unfolded comparator_def]
  show ?case
  proof (cases "cmp x y \<le> 0")
    case True
    then show ?thesis using Cons c by auto
  next
    case False
    then have "cmp y x \<le> 0" using c by (meson less_le not_le)
    then show ?thesis using Cons False by simp
  qed
qed simp

lemma sorting_sort_by: "sorting sort_by"
proof -
  have "mset (sort_by cmp es) = mset es" for cmp and es :: "'a list"
    unfolding sort_by_def by (induction es) auto
  moreover have "comparator cmp \<Longrightarrow> sorted_wrt (\<lambda>a b. cmp a b \<le> 0) (sort_by cmp es)" for cmp and es :: "'a list"
    unfolding sort_by_def by (induction es) (auto intro: sorted_insert_by)
  ultimately show ?thesis by (simp add: sorting_def)
qed

lemma sample_loads: "elf_symbols_load sample_elf_env sort_by (Some sample_elf) = Inr sample_table"
  by code_simp

lemma elf_load_symbols_witness:
  "(mset (map (entry_view (es_names sample_table)) (es_entries sample_table)) = mset (file_symbols sample_elf) \<and>
     sorted (map se_addr (es_entries sample_table))) \<and>
   length (es_entries sample_table) = 2"
  using elf_load_symbols [OF sorting_sort_by sample_loads] by (simp add: sample_table_def)

lemma sample_lookup:
  "elf_symbols_lookup (Some sample_table) 0x400D0010 =
     Some \<lparr>si_name = [0x6D, 0x61, 0x69, 0x6E], si_addr = 0x400D0000, si_size = 0x20, si_offset = 0x10\<rparr>"
  by code_simp

lemma elf_lookup_nearest_witness:
  "(0x400D0000, 0x20, [0x6D, 0x61, 0x69, 0x6E]) \<in> set (file_symbols sample_elf)"
  using elf_lookup_nearest [OF sorting_sort_by sample_loads, of "0x400D0010"] by (simp add: sample_lookup)

end
