(* ===== verification/Sha.thy ===== *)
theory Sha
  imports Gdma
begin

text \<open>
  The SHA accelerator of src/src/sha_stubs.c: the register device in its two layouts (one
  command quartet per algorithm on the original ESP32, one MODE register with DMA on the later
  generation), the stubs of the ESP-IDF HAL, and the native contexts behind the mbedTLS functions
  for SHA-256, SHA-1 and MD5. The cryptographic library is a parameter: \<open>sha_lib\<close> holds its
  initial values and block transforms, \<open>hash_ops\<close> one of its streaming interfaces, over contexts
  of a type the model does not look into. \<open>sha_sys\<close> puts the device beside what its pointers reach.
\<close>

section \<open>The library\<close>

record sha_lib =
  sl_sha1_iv :: "u32 list"
  sl_sha224_iv :: "u32 list"
  sl_sha256_iv :: "u32 list"
  sl_sha384_iv :: "u64 list"
  sl_sha512_iv :: "u64 list"
  sl_sha1_transform :: "u32 list \<Rightarrow> u8 list \<Rightarrow> u32 list"
  sl_sha256_transform :: "u32 list \<Rightarrow> u8 list \<Rightarrow> u32 list"
  sl_sha512_transform :: "u64 list \<Rightarrow> u8 list \<Rightarrow> u64 list"
  sl_sha256_digest :: "u8 list \<Rightarrow> u8 list"

record 'x hash_ops =
  ho_update :: "'x \<Rightarrow> u8 list \<Rightarrow> 'x"
  ho_final :: "'x \<Rightarrow> u8 list"

record 'x hash_lib =
  hl_sha224_init :: 'x
  hl_sha256_init :: 'x
  hl_sha1_init :: 'x
  hl_md5_init :: 'x
  hl_sha256 :: "'x hash_ops"
  hl_sha1 :: "'x hash_ops"
  hl_md5 :: "'x hash_ops"

section \<open>State\<close>

datatype sha_layout = SHA_LAYOUT_NONE | SHA_LAYOUT_ESP32 | SHA_LAYOUT_UNIFIED

datatype sha_algorithm =
  SHA_NONE | SHA1 | SHA224 | SHA256 | SHA384 | SHA512 | SHA512_224 | SHA512_256 | SHA512_T

record flexe_sha_desc =
  sd_base :: u32
  sd_register_size :: u32
  sd_layout :: sha_layout
  sd_mode_count :: u8
  sd_dma_peripheral_id :: u8
  sd_mode :: "nat \<Rightarrow> sha_algorithm"

definition FLEXE_TARGET_SHA_MODE_MAX :: nat where "FLEXE_TARGET_SHA_MODE_MAX = 8"
definition SHA_TYPE_1 :: u32 where "SHA_TYPE_1 = 0"
definition SHA_TYPE_256 :: u32 where "SHA_TYPE_256 = 1"
definition SHA_TYPE_384 :: u32 where "SHA_TYPE_384 = 2"
definition SHA_TYPE_512 :: u32 where "SHA_TYPE_512 = 3"
definition MBED_CTX_SLOTS :: nat where "MBED_CTX_SLOTS = 32"

text \<open>A slot of a context table: the guest address, 0 when the slot is empty, and the context.\<close>

type_synonym 'x ctx_table = "(u32 \<times> 'x) list"

record 'x sha_stubs =
  ss_desc :: flexe_sha_desc
  ss_attached :: bool
  ss_clock_enabled :: bool
  ss_reset_asserted :: bool
  ss_text :: "u32 list"
  ss_h :: "u32 list"
  ss_control :: "u32 list"
  ss_h_dirty :: bool
  ss_sha1 :: "u32 list"
  ss_sha224 :: "u32 list"
  ss_sha256 :: "u32 list"
  ss_sha512 :: "u64 list"
  ss_locked :: "nat \<Rightarrow> bool"
  ss_current_type :: int
  ss_mbed_sha256 :: "'x ctx_table"
  ss_mbed_sha1 :: "'x ctx_table"
  ss_mbed_md5 :: "'x ctx_table"
  ss_warned_mode :: u32
  ss_warned_dma :: bool

record ('d, 'e, 'x) sha_sys =
  z_ss :: "'x sha_stubs"
  z_gdma :: "'e periph flexe_gdma option"
  z_periph :: "'e periph"
  z_cpu :: "'d cpu"
  z_fallback_read :: "(u32 \<Rightarrow> 'e periph \<Rightarrow> u32 \<times> 'e periph) option"
  z_fallback_write :: "(u32 \<Rightarrow> u32 \<Rightarrow> 'e periph \<Rightarrow> 'e periph) option"

definition z_put :: "'x sha_stubs \<Rightarrow> ('d, 'e, 'x) sha_sys \<Rightarrow> ('d, 'e, 'x) sha_sys" where
  "z_put a s = s\<lparr>z_ss := a\<rparr>"

definition sha_operational :: "'x sha_stubs \<Rightarrow> bool" where
  "sha_operational a \<longleftrightarrow> ss_clock_enabled a \<and> \<not> ss_reset_asserted a"

definition sha_hardware_reset :: "'x sha_stubs \<Rightarrow> 'x sha_stubs" where
  "sha_hardware_reset a =
     a\<lparr>ss_text := replicate 32 0, ss_h := replicate 16 0, ss_control := replicate 16 0,
       ss_sha1 := replicate 5 0, ss_sha224 := replicate 8 0, ss_sha256 := replicate 8 0,
       ss_sha512 := replicate 8 0, ss_h_dirty := False, ss_current_type := -1\<rparr>"

definition sha_system_state_changed :: "bool \<Rightarrow> bool \<Rightarrow> 'x sha_stubs \<Rightarrow> 'x sha_stubs" where
  "sha_system_state_changed clock_enabled reset_asserted a =
     (let rising = (reset_asserted \<and> \<not> ss_reset_asserted a);
          a1 = a\<lparr>ss_clock_enabled := clock_enabled, ss_reset_asserted := reset_asserted\<rparr>
      in if rising then sha_hardware_reset a1 else a1)"

section \<open>The compression engine\<close>

definition sha_algorithm_supported :: "sha_algorithm \<Rightarrow> bool" where
  "sha_algorithm_supported g \<longleftrightarrow> g \<in> {SHA1, SHA224, SHA256, SHA384, SHA512}"

definition sha_block_size :: "sha_algorithm \<Rightarrow> nat" where
  "sha_block_size g =
     (case g of SHA1 \<Rightarrow> 64 | SHA224 \<Rightarrow> 64 | SHA256 \<Rightarrow> 64 | SHA384 \<Rightarrow> 128 | SHA512 \<Rightarrow> 128 | _ \<Rightarrow> 0)"

definition sha_mode_algorithm :: "flexe_sha_desc \<Rightarrow> u32 \<Rightarrow> sha_algorithm" where
  "sha_mode_algorithm d m =
     (if ucast (sd_mode_count d) \<le> m \<or> 8 \<le> m then SHA_NONE else sd_mode d (unat m))"

definition sha_warn_mode :: "u32 \<Rightarrow> 'x sha_stubs \<Rightarrow> 'x sha_stubs" where
  "sha_warn_mode m a =
     (let b = (if m < 32 then push_bit (unat m) 1 else 0) in
      if b \<noteq> 0 \<and> ss_warned_mode a AND b \<noteq> 0 then a
      else a\<lparr>ss_warned_mode := ss_warned_mode a OR b\<rparr>)"

definition text_word_bytes :: "bool \<Rightarrow> u32 \<Rightarrow> u8 list" where
  "text_word_bytes classic w =
     (if classic then [ucast (drop_bit 24 w), ucast (drop_bit 16 w), ucast (drop_bit 8 w), ucast w]
      else [ucast w, ucast (drop_bit 8 w), ucast (drop_bit 16 w), ucast (drop_bit 24 w)])"

definition sha_text_to_block :: "'x sha_stubs \<Rightarrow> nat \<Rightarrow> u8 list" where
  "sha_text_to_block a words =
     concat (map (\<lambda>i. text_word_bytes (sd_layout (ss_desc a) = SHA_LAYOUT_ESP32) (ss_text a ! i))
               [0 ..< words])"

definition sha_engine_hash_raw ::
  "sha_lib \<Rightarrow> sha_algorithm \<Rightarrow> u8 list \<Rightarrow> bool \<Rightarrow> 'x sha_stubs \<Rightarrow> 'x sha_stubs" where
  "sha_engine_hash_raw L g raw start a =
     (case g of
        SHA1 \<Rightarrow>
          a\<lparr>ss_sha1 := sl_sha1_transform L (if start then sl_sha1_iv L else ss_sha1 a) raw\<rparr>
      | SHA224 \<Rightarrow>
          a\<lparr>ss_sha224 := sl_sha256_transform L (if start then sl_sha224_iv L else ss_sha224 a) raw\<rparr>
      | SHA256 \<Rightarrow>
          a\<lparr>ss_sha256 := sl_sha256_transform L (if start then sl_sha256_iv L else ss_sha256 a) raw\<rparr>
      | SHA384 \<Rightarrow>
          a\<lparr>ss_sha512 := sl_sha512_transform L (if start then sl_sha384_iv L else ss_sha512 a) raw\<rparr>
      | SHA512 \<Rightarrow>
          a\<lparr>ss_sha512 := sl_sha512_transform L (if start then sl_sha512_iv L else ss_sha512 a) raw\<rparr>
      | _ \<Rightarrow> a)"

definition sha_engine_hash_text ::
  "sha_lib \<Rightarrow> sha_algorithm \<Rightarrow> bool \<Rightarrow> 'x sha_stubs \<Rightarrow> 'x sha_stubs" where
  "sha_engine_hash_text L g start a =
     (if sha_block_size g = 0 then a
      else sha_engine_hash_raw L g (sha_text_to_block a (sha_block_size g div 4)) start a)"

text \<open>The words \<open>sha_engine_publish_to\<close> writes to the front of its destination.\<close>

definition split_words :: "u64 list \<Rightarrow> u32 list" where
  "split_words hs = concat (map (\<lambda>h. [ucast (drop_bit 32 h), ucast h]) hs)"

definition engine_words :: "sha_algorithm \<Rightarrow> 'x sha_stubs \<Rightarrow> u32 list" where
  "engine_words g a =
     (case g of SHA1 \<Rightarrow> ss_sha1 a | SHA224 \<Rightarrow> ss_sha224 a | SHA256 \<Rightarrow> ss_sha256 a
      | SHA384 \<Rightarrow> split_words (ss_sha512 a) | SHA512 \<Rightarrow> split_words (ss_sha512 a) | _ \<Rightarrow> [])"

definition overwrite :: "'a list \<Rightarrow> 'a list \<Rightarrow> 'a list" where
  "overwrite ws xs = ws @ drop (length ws) xs"

definition sha_engine_publish_to :: "sha_algorithm \<Rightarrow> 'x sha_stubs \<Rightarrow> u32 list \<Rightarrow> u32 list" where
  "sha_engine_publish_to g a destination = overwrite (engine_words g a) destination"

definition join_words :: "u32 list \<Rightarrow> u64 list" where
  "join_words ws =
     map (\<lambda>i. push_bit 32 (ucast (ws ! (2 * i))) OR ucast (ws ! (2 * i + 1))) [0 ..< 8]"

definition sha_engine_import_h :: "sha_algorithm \<Rightarrow> 'x sha_stubs \<Rightarrow> 'x sha_stubs" where
  "sha_engine_import_h g a =
     (let a1 = (case g of
                  SHA1 \<Rightarrow> a\<lparr>ss_sha1 := take 5 (ss_h a)\<rparr>
                | SHA224 \<Rightarrow> a\<lparr>ss_sha224 := take 8 (ss_h a)\<rparr>
                | SHA256 \<Rightarrow> a\<lparr>ss_sha256 := take 8 (ss_h a)\<rparr>
                | SHA384 \<Rightarrow> a\<lparr>ss_sha512 := join_words (ss_h a)\<rparr>
                | SHA512 \<Rightarrow> a\<lparr>ss_sha512 := join_words (ss_h a)\<rparr>
                | _ \<Rightarrow> a)
      in a1\<lparr>ss_h_dirty := False\<rparr>)"

definition sha_unified_finish_block ::
  "sha_lib \<Rightarrow> sha_algorithm \<Rightarrow> u8 list \<Rightarrow> bool \<Rightarrow> 'x sha_stubs \<Rightarrow> 'x sha_stubs" where
  "sha_unified_finish_block L g raw start a =
     (let a1 = (if \<not> start \<and> ss_h_dirty a then sha_engine_import_h g a else a);
          a2 = sha_engine_hash_raw L g raw start a1
      in a2\<lparr>ss_h := sha_engine_publish_to g a2 (ss_h a2), ss_h_dirty := False\<rparr>)"

definition sha_unified_direct :: "sha_lib \<Rightarrow> bool \<Rightarrow> 'x sha_stubs \<Rightarrow> 'x sha_stubs" where
  "sha_unified_direct L start a =
     (let m = ss_control a ! 0; g = sha_mode_algorithm (ss_desc a) m in
      if \<not> sha_algorithm_supported g then sha_warn_mode m a
      else sha_unified_finish_block L g (sha_text_to_block a (sha_block_size g div 4)) start a)"

text \<open>\<open>alloc\<close> is whether the transfer buffer can be allocated. On 64-bit hosts the product of block
  count and block size does not exceed size_t.\<close>

definition sha_blocks :: "nat \<Rightarrow> nat \<Rightarrow> u8 list \<Rightarrow> u8 list list" where
  "sha_blocks bsize n raw = map (\<lambda>i. take bsize (drop (i * bsize) raw)) [0 ..< n]"

definition sha_hash_blocks ::
  "sha_lib \<Rightarrow> sha_algorithm \<Rightarrow> bool \<Rightarrow> u8 list list \<Rightarrow> 'x sha_stubs \<Rightarrow> 'x sha_stubs" where
  "sha_hash_blocks L g start bs a =
     fold (\<lambda>i. sha_unified_finish_block L g (bs ! i) (start \<and> i = 0)) [0 ..< length bs] a"

definition sha_warn_dma :: "'x sha_stubs \<Rightarrow> 'x sha_stubs" where
  "sha_warn_dma a = a\<lparr>ss_warned_dma := True\<rparr>"

definition sha_unified_dma ::
  "bool \<Rightarrow> sha_lib \<Rightarrow> 'd host \<Rightarrow> bool \<Rightarrow> ('d, 'e, 'x) sha_sys \<Rightarrow> ('d, 'e, 'x) sha_sys" where
  "sha_unified_dma alloc L E start s =
     (let a = z_ss s; m = ss_control a ! 0; g = sha_mode_algorithm (ss_desc a) m;
          bsize = sha_block_size g; n = unat (ss_control a ! 3 AND 0x3F);
          pid = sd_dma_peripheral_id (ss_desc a)
      in if \<not> sha_algorithm_supported g \<or> bsize = 0 then z_put (sha_warn_mode m a) s
         else case z_gdma s of
             None \<Rightarrow> z_put (sha_warn_dma a) s
           | Some dma \<Rightarrow>
               if pid = 0xFF \<or> n = 0 \<or> \<not> alloc then z_put (sha_warn_dma a) s
               else case flexe_gdma_read_tx E pid (n * bsize) (dma\<lparr>g_world := z_periph s\<rparr>) (z_cpu s) of
                   (r, raw, g1, c1) \<Rightarrow>
                     let s1 = s\<lparr>z_gdma := Some g1, z_periph := g_world g1, z_cpu := c1\<rparr> in
                     if r \<noteq> 0 then z_put (sha_warn_dma a) s1
                     else z_put (sha_hash_blocks L g start (sha_blocks bsize n raw) a) s1)"

section \<open>Registers\<close>

definition sha_in_page :: "flexe_sha_desc \<Rightarrow> u32 \<Rightarrow> bool" where
  "sha_in_page d addr \<longleftrightarrow> \<not> (addr < sd_base d \<or> sd_base d + sd_register_size d \<le> addr)"

definition sha_reg_read :: "'x sha_stubs \<Rightarrow> u32 \<Rightarrow> u32 option" where
  "sha_reg_read a off =
     (case sd_layout (ss_desc a) of
        SHA_LAYOUT_ESP32 \<Rightarrow>
          if off < 0x80 then Some (ss_text a ! (unat off div 4))
          else if off < 0xC0 then Some 0
          else None
      | SHA_LAYOUT_UNIFIED \<Rightarrow>
          if off < 0x40 then Some (if off = 0x18 then 0 else ss_control a ! (unat off div 4))
          else if off < 0x80 then Some (ss_h a ! (unat (off - 0x40) div 4))
          else if off < 0x100 then Some (ss_text a ! (unat (off - 0x80) div 4))
          else None
      | SHA_LAYOUT_NONE \<Rightarrow> None)"

definition z_fallback :: "('d, 'e, 'x) sha_sys \<Rightarrow> u32 \<Rightarrow> u32 \<times> ('d, 'e, 'x) sha_sys" where
  "z_fallback s addr =
     (case z_fallback_read s of
        None \<Rightarrow> (0, s)
      | Some f \<Rightarrow> case f addr (z_periph s) of (v, p) \<Rightarrow> (v, s\<lparr>z_periph := p\<rparr>))"

definition z_fall_write :: "('d, 'e, 'x) sha_sys \<Rightarrow> u32 \<Rightarrow> u32 \<Rightarrow> ('d, 'e, 'x) sha_sys" where
  "z_fall_write s addr v =
     (case z_fallback_write s of None \<Rightarrow> s | Some f \<Rightarrow> s\<lparr>z_periph := f addr v (z_periph s)\<rparr>)"

definition sha_mmio_read :: "('d, 'e, 'x) sha_sys \<Rightarrow> u32 \<Rightarrow> u32 \<times> ('d, 'e, 'x) sha_sys" where
  "sha_mmio_read s addr =
     (let a = z_ss s; d = ss_desc a in
      if \<not> sha_in_page d addr then z_fallback s addr
      else case sha_reg_read a (addr - sd_base d) of
          Some v \<Rightarrow> (v, s)
        | None \<Rightarrow> z_fallback s addr)"

text \<open>The command quartets of the original layout.\<close>

definition sha_classic_command :: "sha_lib \<Rightarrow> u32 \<Rightarrow> 'x sha_stubs \<Rightarrow> 'x sha_stubs" where
  "sha_classic_command L off a =
     (if \<not> sha_operational a then a
      else
        let g = sha_mode_algorithm (ss_desc a) ((off - 0x80) div 0x10); op = off AND 0xF
        in if op = 0 then sha_engine_hash_text L g True a
           else if op = 4 then sha_engine_hash_text L g False a
           else if op = 8 then a\<lparr>ss_text := sha_engine_publish_to g a (ss_text a)\<rparr>
           else a)"

definition sha_set_control :: "nat \<Rightarrow> u32 \<Rightarrow> 'x sha_stubs \<Rightarrow> 'x sha_stubs" where
  "sha_set_control i v a = a\<lparr>ss_control := (ss_control a)[i := v]\<rparr>"

text \<open>The writes below 0x40 of the unified layout.\<close>

definition sha_unified_control ::
  "bool \<Rightarrow> sha_lib \<Rightarrow> 'd host \<Rightarrow> u32 \<Rightarrow> u32 \<Rightarrow> ('d, 'e, 'x) sha_sys \<Rightarrow> ('d, 'e, 'x) sha_sys" where
  "sha_unified_control alloc L E off v s =
     (let a = z_ss s in
      if off = 0 then z_put (sha_set_control 0 v a) s
      else if off = 4 then z_put (sha_set_control 1 v a) s
      else if off = 8 then z_put (sha_set_control 2 v a) s
      else if off = 0xC then z_put (sha_set_control 3 (v AND 0x3F) a) s
      else if off = 0x10
      then if sha_operational a then z_put (sha_unified_direct L True a) s else s
      else if off = 0x14
      then if sha_operational a then z_put (sha_unified_direct L False a) s else s
      else if off = 0x18 then s
      else if off = 0x1C
      then if sha_operational a then sha_unified_dma alloc L E True s else s
      else if off = 0x20
      then if sha_operational a then sha_unified_dma alloc L E False s else s
      else if off = 0x24 then z_put (sha_set_control 9 0 a) s
      else if off = 0x28 then z_put (sha_set_control 10 (v AND 1) a) s
      else z_put (sha_set_control (unat off div 4) v a) s)"

definition sha_mmio_write ::
  "bool \<Rightarrow> sha_lib \<Rightarrow> 'd host \<Rightarrow> ('d, 'e, 'x) sha_sys \<Rightarrow> u32 \<Rightarrow> u32 \<Rightarrow> ('d, 'e, 'x) sha_sys" where
  "sha_mmio_write alloc L E s addr v =
     (let a = z_ss s; d = ss_desc a; off = addr - sd_base d in
      if \<not> sha_in_page d addr then z_fall_write s addr v
      else if ss_reset_asserted a then s
      else case sd_layout d of
          SHA_LAYOUT_ESP32 \<Rightarrow>
            if off < 0x80 then z_put (a\<lparr>ss_text := (ss_text a)[unat off div 4 := v]\<rparr>) s
            else if off < 0xC0 then z_put (sha_classic_command L off a) s
            else z_fall_write s addr v
        | SHA_LAYOUT_UNIFIED \<Rightarrow>
            if 0x40 \<le> off \<and> off < 0x80
            then z_put (a\<lparr>ss_h := (ss_h a)[unat (off - 0x40) div 4 := v], ss_h_dirty := True\<rparr>) s
            else if 0x80 \<le> off \<and> off < 0x100
            then z_put (a\<lparr>ss_text := (ss_text a)[unat (off - 0x80) div 4 := v]\<rparr>) s
            else if off < 0x40 then sha_unified_control alloc L E off v s
            else z_fall_write s addr v
        | SHA_LAYOUT_NONE \<Rightarrow> z_fall_write s addr v)"

section \<open>HAL stubs\<close>

definition sha_arg :: "'d cpu \<Rightarrow> nat \<Rightarrow> u32" where
  "sha_arg c n = ar_read c (XT_PS_CALLINC (ps c) * 4 + 2 + n)"

definition sha_return :: "'d cpu \<Rightarrow> u32 \<Rightarrow> 'd cpu" where
  "sha_return c retval =
     (let ci = XT_PS_CALLINC (ps c); c1 = ar_write c (ci * 4 + 2) retval;
          c2 = c1\<lparr>pc := (pc c1 AND 0xC0000000) OR (ar_read c1 (ci * 4) AND 0x3FFFFFFF)\<rparr>
      in if 0 < ci then c2\<lparr>ps := XT_PS_SET_CALLINC (ps c2) 0\<rparr> else c2)"

definition sha_return_void :: "'d cpu \<Rightarrow> 'd cpu" where
  "sha_return_void c = sha_return c 0"

text \<open>\<open>stack\<close> is what the 128 bytes of the block array hold before the guest's bytes.\<close>

definition stub_sha_hal_hash_block ::
  "u8 list \<Rightarrow> sha_lib \<Rightarrow> 'd host \<Rightarrow> 'x sha_stubs \<times> 'd cpu \<Rightarrow> 'x sha_stubs \<times> 'd cpu" where
  "stub_sha_hal_hash_block stack L E s =
     (let (a, c) = s; ty = sha_arg c 0; data_ptr = sha_arg c 1; start = (sha_arg c 3 \<noteq> 0);
          block_bytes = (if 128 < sha_arg c 2 * 4 then 128 else sha_arg c 2 * 4);
          a1 = a\<lparr>ss_current_type := sint ty\<rparr>;
          (bs, c1) = gdma_copy_in E c data_ptr (unat block_bytes);
          raw = overwrite bs stack;
          run = (\<lambda>g. let a2 = sha_engine_hash_raw L g raw start a1
                     in a2\<lparr>ss_text := sha_engine_publish_to g a2 (ss_text a2)\<rparr>);
          a3 = (if ty = SHA_TYPE_1 then run SHA1 else if ty = SHA_TYPE_256 then run SHA256
                else if ty = SHA_TYPE_384 then run SHA384 else if ty = SHA_TYPE_512 then run SHA512
                else a1)
      in (a3, sha_return_void c1))"

definition stub_sha_hal_read_digest ::
  "'d host \<Rightarrow> 'x sha_stubs \<times> 'd cpu \<Rightarrow> 'x sha_stubs \<times> 'd cpu" where
  "stub_sha_hal_read_digest E s =
     (let (a, c) = s; ty = sha_arg c 0; digest_ptr = sha_arg c 1;
          limit = (if ty = SHA_TYPE_1 then 5 else if ty = SHA_TYPE_256 then 8
                   else if ty = SHA_TYPE_384 \<or> ty = SHA_TYPE_512 then 16 else 8);
          n = (if limit < sha_arg c 2 then limit else sha_arg c 2);
          c1 = fold (\<lambda>i c. mem_write32 E c (digest_ptr + of_nat i * 4) (ss_text a ! i)) [0 ..< unat n] c
      in (a, sha_return_void c1))"

definition stub_sha_hal_wait_idle :: "'d cpu \<Rightarrow> 'd cpu" where
  "stub_sha_hal_wait_idle c = sha_return_void c"

definition sha_engine_index :: "u32 \<Rightarrow> nat" where
  "sha_engine_index ty =
     (if ty = SHA_TYPE_1 then 0 else if ty = SHA_TYPE_256 then 1
      else if ty = SHA_TYPE_384 \<or> ty = SHA_TYPE_512 then 2 else 0)"

definition stub_sha_lock_engine :: "'x sha_stubs \<times> 'd cpu \<Rightarrow> 'x sha_stubs \<times> 'd cpu" where
  "stub_sha_lock_engine s =
     (let (a, c) = s
      in (a\<lparr>ss_locked := (ss_locked a)(sha_engine_index (sha_arg c 0) := True)\<rparr>, sha_return_void c))"

definition stub_sha_try_lock_engine :: "'x sha_stubs \<times> 'd cpu \<Rightarrow> 'x sha_stubs \<times> 'd cpu" where
  "stub_sha_try_lock_engine s =
     (let (a, c) = s; engine = sha_engine_index (sha_arg c 0); success = (\<not> ss_locked a engine)
      in (if success then a\<lparr>ss_locked := (ss_locked a)(engine := True)\<rparr> else a,
          sha_return c (if success then 1 else 0)))"

definition stub_sha_unlock_engine :: "'x sha_stubs \<times> 'd cpu \<Rightarrow> 'x sha_stubs \<times> 'd cpu" where
  "stub_sha_unlock_engine s =
     (let (a, c) = s
      in (a\<lparr>ss_locked := (ss_locked a)(sha_engine_index (sha_arg c 0) := False)\<rparr>, sha_return_void c))"

definition stub_sha_lock_memory :: "'d cpu \<Rightarrow> 'd cpu" where
  "stub_sha_lock_memory c = sha_return_void c"

definition stub_sha_unlock_memory :: "'d cpu \<Rightarrow> 'd cpu" where
  "stub_sha_unlock_memory c = sha_return_void c"

section \<open>Context tables\<close>

text \<open>The three families of mbedTLS functions keep tables of the same shape.\<close>

definition slot_find :: "'x ctx_table \<Rightarrow> u32 \<Rightarrow> nat option" where
  "slot_find t addr = List.find (\<lambda>i. fst (t ! i) = addr) [0 ..< length t]"

definition slot_alloc :: "'x ctx_table \<Rightarrow> u32 \<Rightarrow> nat option \<times> 'x ctx_table" where
  "slot_alloc t addr =
     (case slot_find t addr of
        Some i \<Rightarrow> (Some i, t)
      | None \<Rightarrow>
          case slot_find t 0 of
            Some i \<Rightarrow> (Some i, t[i := (addr, snd (t ! i))])
          | None \<Rightarrow> (None, t))"

definition slot_starts :: "'x ctx_table \<Rightarrow> u32 \<Rightarrow> 'x \<Rightarrow> 'x ctx_table" where
  "slot_starts t addr init =
     (case slot_alloc t addr of
        (Some i, t1) \<Rightarrow> t1[i := (fst (t1 ! i), init)]
      | (None, t1) \<Rightarrow> t1)"

definition slot_put :: "'x ctx_table \<Rightarrow> nat \<Rightarrow> 'x \<Rightarrow> 'x ctx_table" where
  "slot_put t i x = t[i := (fst (t ! i), x)]"

definition slot_free :: "'x ctx_table \<Rightarrow> u32 \<Rightarrow> 'x ctx_table" where
  "slot_free t addr =
     (case slot_find t addr of None \<Rightarrow> t | Some i \<Rightarrow> t[i := (0, snd (t ! i))])"

text \<open>The rest of a page from an address on.\<close>

definition page_rem :: "u32 \<Rightarrow> u32" where
  "page_rem addr = 0x1000 - (addr AND 0xFFF)"

text \<open>Absorbing guest memory: \<open>limit\<close> is the size of the buffer for bytes that no page holds.
  What remains shrinks with every chunk.\<close>

definition chunk_of :: "'d cpu \<Rightarrow> u32 \<Rightarrow> u32 \<Rightarrow> u32 \<Rightarrow> u32 \<Rightarrow> u32" where
  "chunk_of c cap limit addr left =
     (let chunk = (if cap < left then cap else left) in
      case mem_get_ptr (mem c) addr of
        Some p \<Rightarrow> if page_rem addr < chunk then page_rem addr else chunk
      | None \<Rightarrow> if limit < chunk then limit else chunk)"

definition absorb_chunk :: "'d host \<Rightarrow> 'd cpu \<Rightarrow> u32 \<Rightarrow> nat \<Rightarrow> u8 list \<times> 'd cpu" where
  "absorb_chunk E c addr n =
     (case mem_get_ptr (mem c) addr of
        Some p \<Rightarrow> (host_read (mem c) p n, host_touch c p n)
      | None \<Rightarrow> gdma_copy_in E c addr n)"

lemma and_low12_less: "addr AND 0xFFF < (0x1000 :: u32)"
  using word_and_le1 [of addr "0xFFF"] by (rule le_less_trans) simp

lemma page_rem_bounds: "0 < page_rem addr" "page_rem addr \<le> 0x1000"
proof -
  have "addr AND 0xFFF \<le> (0x1000 :: u32)" using and_low12_less by (rule less_imp_le)
  then have "unat (page_rem addr) = 0x1000 - unat (addr AND 0xFFF)"
    by (simp add: page_rem_def unat_sub)
  moreover have "unat (addr AND 0xFFF) < 0x1000" using and_low12_less by (simp add: word_less_nat_alt)
  ultimately show "0 < page_rem addr" "page_rem addr \<le> 0x1000"
    by (simp_all add: word_less_nat_alt word_le_nat_alt)
qed

lemma chunk_of_bounds:
  assumes "0 < cap" "0 < limit" "0 < left"
  shows "0 < chunk_of c cap limit addr left" "chunk_of c cap limit addr left \<le> left"
  using assms page_rem_bounds(1) [of addr]
  by (auto simp: chunk_of_def Let_def not_less split: option.split)

function absorb ::
  "'x hash_ops \<Rightarrow> u32 \<Rightarrow> u32 \<Rightarrow> 'd host \<Rightarrow> u32 \<Rightarrow> u32 \<Rightarrow> 'x \<times> 'd cpu \<Rightarrow> 'x \<times> 'd cpu" where
  "absorb ops cap limit E addr left s =
     (if left = 0 \<or> cap = 0 \<or> limit = 0 then s
      else
        let chunk = chunk_of (snd s) cap limit addr left;
            (bs, c1) = absorb_chunk E (snd s) addr (unat chunk)
        in absorb ops cap limit E (addr + chunk) (left - chunk) (ho_update ops (fst s) bs, c1))"
  by pat_completeness auto

termination
proof (relation "measure (\<lambda>(ops, cap, limit, E, addr, left, s). unat left)", goal_cases)
  case (2 ops cap limit E addr left s chunk p bs c1)
  then have "0 < chunk" "chunk \<le> left"
    using chunk_of_bounds [of cap limit left "snd s" addr] by (auto simp: word_gt_0)
  then show ?case by (simp add: unat_sub word_le_nat_alt word_less_nat_alt)
qed simp

declare absorb.simps [simp del]

text \<open>Absorption into the context of an address, for an update of at least one byte.\<close>

definition slot_update ::
  "'x hash_ops \<Rightarrow> u32 \<Rightarrow> u32 \<Rightarrow> 'd host \<Rightarrow> u32 \<Rightarrow> u32 \<Rightarrow> u32 \<Rightarrow> 'x ctx_table \<times> 'd cpu \<Rightarrow> 'x ctx_table \<times> 'd cpu" where
  "slot_update ops cap limit E addr data len s =
     (case slot_find (fst s) addr of
        None \<Rightarrow> s
      | Some i \<Rightarrow>
          case absorb ops cap limit E data len (snd (fst s ! i), snd s) of
            (x, c) \<Rightarrow> (slot_put (fst s) i x, c))"

text \<open>The digest goes through the load page table when it fits the page, and byte by byte
  through the bus otherwise.\<close>

definition digest_out :: "'d host \<Rightarrow> u32 \<Rightarrow> u32 \<Rightarrow> u8 list \<Rightarrow> 'd cpu \<Rightarrow> 'd cpu" where
  "digest_out E last_fit out digest c =
     (case mem_get_ptr_w (mem c) out of
        Some p \<Rightarrow>
          if out AND 0xFFF \<le> last_fit then host_put c p digest
          else gdma_copy_out E c out digest
      | None \<Rightarrow> gdma_copy_out E c out digest)"

text \<open>
  A finish copies the whole local array of \<open>n\<close> bytes to the guest, whatever length the digest in
  it has: the digest of a SHA-224 context has 28 bytes, so four bytes of what the array held
  before go with it. \<open>junk\<close> is that content, which C leaves indeterminate: an argument.
\<close>

definition digest_array :: "nat \<Rightarrow> u8 list \<Rightarrow> u8 list \<Rightarrow> u8 list" where
  "digest_array n junk digest = take n (digest @ drop (length digest) junk)"

definition slot_finish ::
  "'x hash_ops \<Rightarrow> nat \<Rightarrow> u32 \<Rightarrow> 'd host \<Rightarrow> u32 \<Rightarrow> u32 \<Rightarrow> u8 list \<Rightarrow> 'x ctx_table \<Rightarrow> 'd cpu \<Rightarrow> 'd cpu" where
  "slot_finish ops n last_fit E addr out junk t c =
     (case slot_find t addr of
        None \<Rightarrow> c
      | Some i \<Rightarrow> digest_out E last_fit out (digest_array n junk (ho_final ops (snd (t ! i)))) c)"

section \<open>The mbedTLS functions\<close>

definition mbed_sha256_find :: "'x sha_stubs \<Rightarrow> u32 \<Rightarrow> nat option" where
  "mbed_sha256_find a addr = slot_find (ss_mbed_sha256 a) addr"

definition mbed_sha256_alloc :: "'x sha_stubs \<Rightarrow> u32 \<Rightarrow> nat option \<times> 'x sha_stubs" where
  "mbed_sha256_alloc a addr =
     (case slot_alloc (ss_mbed_sha256 a) addr of (i, t) \<Rightarrow> (i, a\<lparr>ss_mbed_sha256 := t\<rparr>))"

definition stub_mbedtls_sha256_starts ::
  "'x hash_lib \<Rightarrow> 'x sha_stubs \<times> 'd cpu \<Rightarrow> 'x sha_stubs \<times> 'd cpu" where
  "stub_mbedtls_sha256_starts X s =
     (let (a, c) = s in
      (a\<lparr>ss_mbed_sha256 := slot_starts (ss_mbed_sha256 a) (sha_arg c 0) (if sha_arg c 1 \<noteq> 0 then hl_sha224_init X else hl_sha256_init X)\<rparr>,
       sha_return c 0))"

definition stub_mbedtls_sha256_update ::
  "'x hash_lib \<Rightarrow> 'd host \<Rightarrow> 'x sha_stubs \<times> 'd cpu \<Rightarrow> 'x sha_stubs \<times> 'd cpu" where
  "stub_mbedtls_sha256_update X E s =
     (let (a, c) = s;
          (t, c1) = slot_update (hl_sha256 X) 4096 4096 E (sha_arg c 0) (sha_arg c 1) (sha_arg c 2)
                      (ss_mbed_sha256 a, c)
      in (a\<lparr>ss_mbed_sha256 := t\<rparr>, sha_return c1 0))"

definition stub_mbedtls_sha256_finish ::
  "'x hash_lib \<Rightarrow> 'd host \<Rightarrow> ('d cpu \<Rightarrow> u8 list) \<Rightarrow> 'x sha_stubs \<times> 'd cpu \<Rightarrow> 'x sha_stubs \<times> 'd cpu" where
  "stub_mbedtls_sha256_finish X E junk s =
     (let (a, c) = s
      in (a, sha_return (slot_finish (hl_sha256 X) 32 0xFE0 E (sha_arg c 0) (sha_arg c 1) (junk c)
               (ss_mbed_sha256 a) c) 0))"

definition stub_mbedtls_sha256_free :: "'x sha_stubs \<times> 'd cpu \<Rightarrow> 'x sha_stubs \<times> 'd cpu" where
  "stub_mbedtls_sha256_free s =
     (let (a, c) = s
      in (a\<lparr>ss_mbed_sha256 := slot_free (ss_mbed_sha256 a) (sha_arg c 0)\<rparr>, sha_return_void c))"

definition mbed_sha1_find :: "'x sha_stubs \<Rightarrow> u32 \<Rightarrow> nat option" where
  "mbed_sha1_find a addr = slot_find (ss_mbed_sha1 a) addr"

definition mbed_sha1_alloc :: "'x sha_stubs \<Rightarrow> u32 \<Rightarrow> nat option \<times> 'x sha_stubs" where
  "mbed_sha1_alloc a addr =
     (case slot_alloc (ss_mbed_sha1 a) addr of (i, t) \<Rightarrow> (i, a\<lparr>ss_mbed_sha1 := t\<rparr>))"

definition stub_mbedtls_sha1_starts ::
  "'x hash_lib \<Rightarrow> 'x sha_stubs \<times> 'd cpu \<Rightarrow> 'x sha_stubs \<times> 'd cpu" where
  "stub_mbedtls_sha1_starts X s =
     (let (a, c) = s in
      (a\<lparr>ss_mbed_sha1 := slot_starts (ss_mbed_sha1 a) (sha_arg c 0) (hl_sha1_init X)\<rparr>,
       sha_return c 0))"

definition stub_mbedtls_sha1_update ::
  "'x hash_lib \<Rightarrow> 'd host \<Rightarrow> 'x sha_stubs \<times> 'd cpu \<Rightarrow> 'x sha_stubs \<times> 'd cpu" where
  "stub_mbedtls_sha1_update X E s =
     (let (a, c) = s;
          (t, c1) = slot_update (hl_sha1 X) 0xFFFFFFFF 1 E (sha_arg c 0) (sha_arg c 1) (sha_arg c 2)
                      (ss_mbed_sha1 a, c)
      in (a\<lparr>ss_mbed_sha1 := t\<rparr>, sha_return c1 0))"

definition stub_mbedtls_sha1_finish ::
  "'x hash_lib \<Rightarrow> 'd host \<Rightarrow> ('d cpu \<Rightarrow> u8 list) \<Rightarrow> 'x sha_stubs \<times> 'd cpu \<Rightarrow> 'x sha_stubs \<times> 'd cpu" where
  "stub_mbedtls_sha1_finish X E junk s =
     (let (a, c) = s
      in (a, sha_return (slot_finish (hl_sha1 X) 20 0xFEC E (sha_arg c 0) (sha_arg c 1) (junk c)
               (ss_mbed_sha1 a) c) 0))"

definition stub_mbedtls_sha1_free :: "'x sha_stubs \<times> 'd cpu \<Rightarrow> 'x sha_stubs \<times> 'd cpu" where
  "stub_mbedtls_sha1_free s =
     (let (a, c) = s
      in (a\<lparr>ss_mbed_sha1 := slot_free (ss_mbed_sha1 a) (sha_arg c 0)\<rparr>, sha_return_void c))"

definition mbed_md5_find :: "'x sha_stubs \<Rightarrow> u32 \<Rightarrow> nat option" where
  "mbed_md5_find a addr = slot_find (ss_mbed_md5 a) addr"

definition mbed_md5_alloc :: "'x sha_stubs \<Rightarrow> u32 \<Rightarrow> nat option \<times> 'x sha_stubs" where
  "mbed_md5_alloc a addr =
     (case slot_alloc (ss_mbed_md5 a) addr of (i, t) \<Rightarrow> (i, a\<lparr>ss_mbed_md5 := t\<rparr>))"

definition stub_mbedtls_md5_starts ::
  "'x hash_lib \<Rightarrow> 'x sha_stubs \<times> 'd cpu \<Rightarrow> 'x sha_stubs \<times> 'd cpu" where
  "stub_mbedtls_md5_starts X s =
     (let (a, c) = s in
      (a\<lparr>ss_mbed_md5 := slot_starts (ss_mbed_md5 a) (sha_arg c 0) (hl_md5_init X)\<rparr>,
       sha_return c 0))"

definition stub_mbedtls_md5_update ::
  "'x hash_lib \<Rightarrow> 'd host \<Rightarrow> 'x sha_stubs \<times> 'd cpu \<Rightarrow> 'x sha_stubs \<times> 'd cpu" where
  "stub_mbedtls_md5_update X E s =
     (let (a, c) = s;
          (t, c1) = slot_update (hl_md5 X) 0xFFFFFFFF 1 E (sha_arg c 0) (sha_arg c 1) (sha_arg c 2)
                      (ss_mbed_md5 a, c)
      in (a\<lparr>ss_mbed_md5 := t\<rparr>, sha_return c1 0))"

definition stub_mbedtls_md5_finish ::
  "'x hash_lib \<Rightarrow> 'd host \<Rightarrow> ('d cpu \<Rightarrow> u8 list) \<Rightarrow> 'x sha_stubs \<times> 'd cpu \<Rightarrow> 'x sha_stubs \<times> 'd cpu" where
  "stub_mbedtls_md5_finish X E junk s =
     (let (a, c) = s
      in (a, sha_return (slot_finish (hl_md5 X) 16 0xFF0 E (sha_arg c 0) (sha_arg c 1) (junk c)
               (ss_mbed_md5 a) c) 0))"

definition stub_mbedtls_md5_free :: "'x sha_stubs \<times> 'd cpu \<Rightarrow> 'x sha_stubs \<times> 'd cpu" where
  "stub_mbedtls_md5_free s =
     (let (a, c) = s
      in (a\<lparr>ss_mbed_md5 := slot_free (ss_mbed_md5 a) (sha_arg c 0)\<rparr>, sha_return_void c))"

section \<open>Life cycle\<close>

definition cap_sha :: "periph_target \<Rightarrow> bool" where
  "cap_sha t = bit (pt_capabilities t) 21"

definition sha_geometry_valid :: "periph_target \<Rightarrow> flexe_sha_desc \<Rightarrow> bool" where
  "sha_geometry_valid t d \<longleftrightarrow>
     (let minimum = (case sd_layout d of SHA_LAYOUT_ESP32 \<Rightarrow> 0xC0 | SHA_LAYOUT_UNIFIED \<Rightarrow> 0x100
                     | SHA_LAYOUT_NONE \<Rightarrow> (0 :: u32)) in
      cap_sha t \<and>
      \<not> (minimum = 0 \<or> sd_base d < pt_peripheral_start t \<or> pt_peripheral_end t \<le> sd_base d \<or>
         sd_base d AND 0xFFF \<noteq> 0 \<or> sd_register_size d \<noteq> 0x1000 \<or>
         pt_peripheral_end t - sd_base d < sd_register_size d \<or> sd_register_size d < minimum \<or>
         sd_mode_count d = 0 \<or> FLEXE_TARGET_SHA_MODE_MAX < unat (sd_mode_count d)) \<and>
      list_all (\<lambda>i. sd_mode d i \<noteq> SHA_NONE) [0 ..< unat (sd_mode_count d)] \<and>
      (sd_dma_peripheral_id d \<noteq> 0xFF \<longrightarrow> cap_gdma t))"

definition sha256_abc_digest :: "u8 list" where
  "sha256_abc_digest =
     [0xba,0x78,0x16,0xbf, 0x8f,0x01,0xcf,0xea, 0x41,0x41,0x40,0xde, 0x5d,0xae,0x22,0x23,
      0xb0,0x03,0x61,0xa3, 0x96,0x17,0x7a,0x9c, 0xb4,0x10,0xff,0x61, 0xf2,0x00,0x15,0xad]"

definition sha256_self_test :: "sha_lib \<Rightarrow> bool" where
  "sha256_self_test L \<longleftrightarrow> sl_sha256_digest L [0x61, 0x62, 0x63] = sha256_abc_digest"

text \<open>\<open>blank\<close> is the zeroed context of an empty slot.\<close>

definition sha_zero :: "'x \<Rightarrow> flexe_sha_desc \<Rightarrow> 'x sha_stubs" where
  "sha_zero blank d =
     \<lparr>ss_desc = d, ss_attached = False, ss_clock_enabled = True, ss_reset_asserted = False,
      ss_text = replicate 32 0, ss_h = replicate 16 0, ss_control = replicate 16 0,
      ss_h_dirty = False, ss_sha1 = replicate 5 0, ss_sha224 = replicate 8 0,
      ss_sha256 = replicate 8 0, ss_sha512 = replicate 8 0, ss_locked = (\<lambda>_. False),
      ss_current_type = -1, ss_mbed_sha256 = replicate MBED_CTX_SLOTS (0, blank),
      ss_mbed_sha1 = replicate MBED_CTX_SLOTS (0, blank),
      ss_mbed_md5 = replicate MBED_CTX_SLOTS (0, blank), ss_warned_mode = 0,
      ss_warned_dma = False\<rparr>"

definition sha_stubs_create ::
  "sha_lib \<Rightarrow> 'x \<Rightarrow> periph_target \<Rightarrow> flexe_sha_desc \<Rightarrow> xmem \<Rightarrow> nat \<Rightarrow> nat \<Rightarrow> nat \<Rightarrow>
     ('x sha_stubs \<times> mmio_handler \<times> xmem) option" where
  "sha_stubs_create L blank t d m read_fn write_fn ctx =
     (if \<not> sha_geometry_valid t d \<or> \<not> sha256_self_test L then None
      else
        let page = unat (sd_base d - pt_peripheral_start t) div 0x1000 in
        case mem_register_mmio_range m (sd_base d) (sd_register_size d)
               (Some read_fn) (Some write_fn) ctx of
          (r, m1) \<Rightarrow> if r \<noteq> 0 then None else Some (sha_zero blank d, mmio m page, m1))"

text \<open>\<open>handler_ok\<close> is whether the fabric takes the state handler.\<close>

definition sha_stubs_attach_system_clock :: "bool \<Rightarrow> 'x sha_stubs \<Rightarrow> int \<times> 'x sha_stubs" where
  "sha_stubs_attach_system_clock handler_ok a =
     (if handler_ok then (0, a\<lparr>ss_attached := True\<rparr>)
      else (-1, a\<lparr>ss_attached := False, ss_clock_enabled := True, ss_reset_asserted := False\<rparr>))"

definition sha_stubs_destroy :: "mmio_handler \<Rightarrow> 'x sha_stubs \<Rightarrow> xmem \<Rightarrow> xmem" where
  "sha_stubs_destroy old a m =
     snd (mem_register_mmio_range m (sd_base (ss_desc a)) (sd_register_size (ss_desc a))
            (mh_read old) (mh_write old) (mh_ctx old))"

definition sha_hooks :: "string list" where
  "sha_hooks = [''sha_hal_hash_block'', ''sha_hal_read_digest'', ''sha_hal_wait_idle'',
     ''esp_sha_lock_engine'', ''esp_sha_try_lock_engine'', ''esp_sha_unlock_engine'',
     ''esp_sha_lock_memory_block'', ''esp_sha_unlock_memory_block'']"

definition mbed_hooks :: "string list" where
  "mbed_hooks =
     [''mbedtls_sha256_starts_ret'', ''mbedtls_sha256_starts'', ''mbedtls_sha256_update_ret'',
      ''mbedtls_sha256_update'', ''mbedtls_sha256_finish_ret'', ''mbedtls_sha256_finish'',
      ''mbedtls_sha256_free'', ''mbedtls_sha1_starts_ret'', ''mbedtls_sha1_starts'',
      ''mbedtls_sha1_update_ret'', ''mbedtls_sha1_update'', ''mbedtls_sha1_finish_ret'',
      ''mbedtls_sha1_finish'', ''mbedtls_sha1_free'', ''mbedtls_md5_starts_ret'',
      ''mbedtls_md5_starts'', ''mbedtls_md5_update_ret'', ''mbedtls_md5_update'',
      ''mbedtls_md5_finish_ret'', ''mbedtls_md5_finish'', ''mbedtls_md5_free'']"

text \<open>The hooks to register, each address with the name of its function, in the order of the code.\<close>

definition sha_stubs_hook_symbols ::
  "(string \<Rightarrow> u32 option) option \<Rightarrow> bool \<Rightarrow> int \<times> (u32 \<times> string) list" where
  "sha_stubs_hook_symbols syms hook_table =
     (case syms of
        None \<Rightarrow> (0, [])
      | Some table \<Rightarrow>
          if \<not> hook_table then (0, [])
          else let regs = List.map_filter (\<lambda>n. map_option (\<lambda>addr. (addr, n)) (table n))
                            (sha_hooks @ mbed_hooks)
               in (int (length regs), regs))"

definition esp32_sha :: flexe_sha_desc where
  "esp32_sha = \<lparr>sd_base = 0x3FF03000, sd_register_size = 0x1000, sd_layout = SHA_LAYOUT_ESP32,
     sd_mode_count = 4, sd_dma_peripheral_id = 0xFF,
     sd_mode = (\<lambda>i. if i < 4 then [SHA1, SHA256, SHA384, SHA512] ! i else SHA_NONE)\<rparr>"

definition esp32s3_sha :: flexe_sha_desc where
  "esp32s3_sha = \<lparr>sd_base = 0x6003B000, sd_register_size = 0x1000, sd_layout = SHA_LAYOUT_UNIFIED,
     sd_mode_count = 8, sd_dma_peripheral_id = 7,
     sd_mode = (\<lambda>i. if i < 8 then [SHA1, SHA224, SHA256, SHA384, SHA512, SHA512_224, SHA512_256,
                                   SHA512_T] ! i else SHA_NONE)\<rparr>"

end
