(* ===== verification/Sha_Facts.thy ===== *)
theory Sha_Facts
  imports Sha Gdma_Chain
begin

text \<open>
  Correctness of the SHA accelerator of the later layout: a driver that saves and restores the
  digest registers around every block computes the digest of its own message, whatever other
  contexts do with the device in between; and a transfer hashes the bytes of its descriptor chain.
\<close>

section \<open>Register types\<close>

text \<open>What is relied on of the library: its values have the sizes of the algorithms.\<close>

definition sha_lib_ok :: "sha_lib \<Rightarrow> bool" where
  "sha_lib_ok L \<longleftrightarrow>
     length (sl_sha1_iv L) = 5 \<and> length (sl_sha224_iv L) = 8 \<and> length (sl_sha256_iv L) = 8 \<and>
     length (sl_sha384_iv L) = 8 \<and> length (sl_sha512_iv L) = 8 \<and>
     (\<forall>h b. length (sl_sha1_transform L h b) = length h) \<and>
     (\<forall>h b. length (sl_sha256_transform L h b) = length h) \<and>
     (\<forall>h b. length (sl_sha512_transform L h b) = length h)"

definition sha_wf :: "'x sha_stubs \<Rightarrow> bool" where
  "sha_wf a \<longleftrightarrow>
     length (ss_text a) = 32 \<and> length (ss_h a) = 16 \<and> length (ss_control a) = 16 \<and>
     length (ss_sha1 a) = 5 \<and> length (ss_sha224 a) = 8 \<and> length (ss_sha256 a) = 8 \<and>
     length (ss_sha512 a) = 8"

lemma length_split_words [simp]: "length (split_words hs) = 2 * length hs"
  by (induction hs) (simp_all add: split_words_def)

lemma length_join_words [simp]: "length (join_words ws) = 8"
  by (simp add: join_words_def)

lemma length_overwrite: "length ws \<le> length xs \<Longrightarrow> length (overwrite ws xs) = length xs"
  by (simp add: overwrite_def)

lemma engine_words_le: "sha_wf a \<Longrightarrow> length (engine_words g a) \<le> 16"
  by (cases g) (simp_all add: sha_wf_def engine_words_def)

lemma wf_engine:
  assumes "sha_lib_ok L" "sha_wf a"
  shows "sha_wf (sha_engine_hash_raw L g raw start a)" "sha_wf (sha_engine_import_h g a)"
  using assms
  by (cases g; simp add: sha_lib_ok_def sha_wf_def sha_engine_hash_raw_def sha_engine_import_h_def)+

lemma wf_finish_block:
  assumes "sha_lib_ok L" "sha_wf a"
  shows "sha_wf (sha_unified_finish_block L g raw start a)"
proof -
  define a2 where "a2 = sha_engine_hash_raw L g raw start
    (if \<not> start \<and> ss_h_dirty a then sha_engine_import_h g a else a)"
  have wf: "sha_wf a2" unfolding a2_def using wf_engine assms by (metis (full_types))
  show ?thesis
    unfolding sha_unified_finish_block_def Let_def a2_def [symmetric]
    using engine_words_le [OF wf, of g] wf
    by (simp add: sha_engine_publish_to_def sha_wf_def length_overwrite)
qed

lemma wf_hash_blocks:
  assumes "sha_lib_ok L" "sha_wf a"
  shows "sha_wf (sha_hash_blocks L g start bs a)"
proof -
  have "sha_wf (fold (\<lambda>i. sha_unified_finish_block L g (bs ! i) (start \<and> i = 0)) is a)" for "is"
    using assms by (induction "is" arbitrary: a) (simp_all add: wf_finish_block)
  then show ?thesis by (simp add: sha_hash_blocks_def)
qed

lemma wf_warn [simp]:
  "sha_wf (sha_warn_mode m a) = sha_wf a" "sha_wf (sha_warn_dma a) = sha_wf a"
  "sha_wf (sha_set_control i v a) = sha_wf a"
  "z_ss (z_put a s) = a"
  by (simp_all add: sha_wf_def sha_warn_mode_def sha_warn_dma_def sha_set_control_def z_put_def Let_def)

lemma fall_write_ss [simp]: "z_ss (z_fall_write s addr v) = z_ss s"
  by (simp add: z_fall_write_def split: option.split)

section \<open>One block through the engine\<close>

text \<open>A digest state as the words of the H registers.\<close>

definition hash_words :: "sha_algorithm \<Rightarrow> nat" where
  "hash_words g = (case g of SHA1 \<Rightarrow> 5 | SHA224 \<Rightarrow> 8 | SHA256 \<Rightarrow> 8 | SHA384 \<Rightarrow> 16 | SHA512 \<Rightarrow> 16 | _ \<Rightarrow> 0)"

definition hash_iv :: "sha_lib \<Rightarrow> sha_algorithm \<Rightarrow> u32 list" where
  "hash_iv L g =
     (case g of SHA1 \<Rightarrow> sl_sha1_iv L | SHA224 \<Rightarrow> sl_sha224_iv L | SHA256 \<Rightarrow> sl_sha256_iv L
      | SHA384 \<Rightarrow> split_words (sl_sha384_iv L) | SHA512 \<Rightarrow> split_words (sl_sha512_iv L) | _ \<Rightarrow> [])"

definition hash_block :: "sha_lib \<Rightarrow> sha_algorithm \<Rightarrow> u8 list \<Rightarrow> u32 list \<Rightarrow> u32 list" where
  "hash_block L g b ws =
     (case g of SHA1 \<Rightarrow> sl_sha1_transform L ws b | SHA224 \<Rightarrow> sl_sha256_transform L ws b
      | SHA256 \<Rightarrow> sl_sha256_transform L ws b
      | SHA384 \<Rightarrow> split_words (sl_sha512_transform L (join_words ws) b)
      | SHA512 \<Rightarrow> split_words (sl_sha512_transform L (join_words ws) b) | _ \<Rightarrow> [])"

lemma length_hash:
  assumes "sha_lib_ok L" "sha_algorithm_supported g"
  shows "length (hash_iv L g) = hash_words g"
    "length ws = hash_words g \<Longrightarrow> length (hash_block L g b ws) = hash_words g"
  using assms
  by (cases g; simp add: sha_lib_ok_def sha_algorithm_supported_def hash_iv_def hash_words_def hash_block_def)+

lemma join_split_word: "push_bit 32 (ucast (ucast (drop_bit 32 h) :: u32)) OR ucast (ucast h :: u32) = (h :: u64)"
proof (rule bit_eqI)
  fix n assume "possible_bit TYPE(u64) n"
  then have n: "n < 64" by simp
  show "bit (push_bit 32 (ucast (ucast (drop_bit 32 h) :: u32)) OR ucast (ucast h :: u32) :: u64) n = bit h n"
    using n by (cases "n < 32") (auto simp: bit_simps)
qed

lemma split_words_nth:
  "i < length hs \<Longrightarrow> split_words hs ! (2 * i) = ucast (drop_bit 32 (hs ! i)) \<and>
     split_words hs ! (2 * i + 1) = ucast (hs ! i)"
proof (induction hs arbitrary: i)
  case (Cons h hs)
  then show ?case by (cases i) (auto simp: split_words_def)
qed simp

lemma join_split_words: "length hs = 8 \<Longrightarrow> join_words (split_words hs) = hs"
  using split_words_nth [of _ hs]
  by (intro nth_equalityI) (simp_all add: join_words_def join_split_word)

lemma join_words_cong: "take 16 ws = take 16 vs \<Longrightarrow> join_words ws = join_words vs"
proof -
  assume t: "take 16 ws = take 16 vs"
  have "ws ! k = vs ! k" if "k < 16" for k using arg_cong [OF t, of "\<lambda>l. l ! k"] that by simp
  then show ?thesis by (simp add: join_words_def)
qed

lemma overwrite_take: "take (length ws) (overwrite ws xs) = ws"
  by (simp add: overwrite_def)

lemma take_words: "take n xs = ws \<Longrightarrow> m \<le> n \<Longrightarrow> take m xs = take m ws"
  by (metis min_absorb1 take_take)

text \<open>The state a block starts from, and what a finished block leaves in the H registers and in the
  engine.\<close>

definition block_start :: "sha_lib \<Rightarrow> sha_algorithm \<Rightarrow> bool \<Rightarrow> 'x sha_stubs \<Rightarrow> u32 list" where
  "block_start L g start a =
     (if start then hash_iv L g else if ss_h_dirty a then take (hash_words g) (ss_h a) else engine_words g a)"

lemma finish_block_h:
  assumes L: "sha_lib_ok L" and a: "sha_wf a" and g: "sha_algorithm_supported g"
  shows "take (hash_words g) (ss_h (sha_unified_finish_block L g raw start a)) =
      hash_block L g raw (block_start L g start a)"
    "engine_words g (sha_unified_finish_block L g raw start a) = hash_block L g raw (block_start L g start a)"
    "\<not> ss_h_dirty (sha_unified_finish_block L g raw start a)"
proof -
  let ?a1 = "if \<not> start \<and> ss_h_dirty a then sha_engine_import_h g a else a"
  let ?a2 = "sha_engine_hash_raw L g raw start ?a1"
  have e: "engine_words g ?a2 = hash_block L g raw (block_start L g start a)"
    using g L a join_words_cong [of "take 16 (ss_h a)" "ss_h a"]
    by (auto simp: sha_algorithm_supported_def engine_words_def sha_engine_hash_raw_def hash_block_def
        hash_iv_def hash_words_def sha_engine_import_h_def join_split_words sha_lib_ok_def block_start_def
        sha_wf_def)
  have "length (block_start L g start a) = hash_words g"
    using length_hash(1) [OF L g] a g
    by (auto simp: block_start_def sha_wf_def hash_words_def engine_words_def sha_algorithm_supported_def)
  then have "length (engine_words g ?a2) = hash_words g" using length_hash(2) [OF L g] e by simp
  then show "take (hash_words g) (ss_h (sha_unified_finish_block L g raw start a)) =
      hash_block L g raw (block_start L g start a)"
    unfolding sha_unified_finish_block_def Let_def
    using overwrite_take [of "engine_words g ?a2"] e by (simp add: sha_engine_publish_to_def)
  show "engine_words g (sha_unified_finish_block L g raw start a) = hash_block L g raw (block_start L g start a)"
    unfolding sha_unified_finish_block_def Let_def e [symmetric]
    by (simp add: engine_words_def split: sha_algorithm.split)
  show "\<not> ss_h_dirty (sha_unified_finish_block L g raw start a)"
    by (simp add: sha_unified_finish_block_def Let_def)
qed

section \<open>The register interface\<close>

lemma z_put_simps [simp]: "z_put b (z_put a s) = z_put b s" "z_put (z_ss s) s = s"
  by (simp_all add: z_put_def)

lemma sha_page:
  assumes "sha_geometry_valid t d" "off < 0x1000"
  shows "sha_in_page d (sd_base d + off)"
proof -
  have d: "sd_register_size d = 0x1000" "sd_base d AND 0xFFF = 0"
    "sd_base d < pt_peripheral_end t" "0x1000 \<le> pt_peripheral_end t - sd_base d"
    using assms(1) by (auto simp: sha_geometry_valid_def Let_def not_less not_le)
  have "unat (sd_base d) + 0x1000 \<le> unat (pt_peripheral_end t)"
    using d(3,4) unat_sub [of "sd_base d" "pt_peripheral_end t"]
    by (simp add: word_le_nat_alt word_less_nat_alt less_imp_le)
  moreover have "unat (pt_peripheral_end t) < 2 ^ 32"
    using unsigned_less [of "pt_peripheral_end t", where ?'a = nat] by simp
  ultimately have b: "unat (sd_base d) + 0x1000 < 2 ^ 32" by linarith
  have o: "unat off < 0x1000" using assms(2) by (simp add: word_less_nat_alt)
  have "unat (sd_base d + off) = unat (sd_base d) + unat off"
    using b o by (intro unat_add_lem [THEN iffD1]) simp
  moreover have "unat (sd_base d + 0x1000) = unat (sd_base d) + unat (0x1000 :: u32)"
    using b by (intro unat_add_lem [THEN iffD1]) simp
  ultimately show ?thesis
    using o d(1) by (simp add: sha_in_page_def word_less_nat_alt word_le_nat_alt)
qed

text \<open>A device of the later layout that its clock and reset let work.\<close>

definition sha_ready :: "('d, 'e, 'x) sha_sys \<Rightarrow> bool" where
  "sha_ready s \<longleftrightarrow> sha_wf (z_ss s) \<and> sha_operational (z_ss s) \<and>
     sd_layout (ss_desc (z_ss s)) = SHA_LAYOUT_UNIFIED \<and> (\<exists>t. sha_geometry_valid t (ss_desc (z_ss s)))"

definition sha_write :: "sha_lib \<Rightarrow> 'd host \<Rightarrow> u32 \<times> u32 \<Rightarrow> ('d, 'e, 'x) sha_sys \<Rightarrow> ('d, 'e, 'x) sha_sys" where
  "sha_write L E w s = sha_mmio_write True L E s (sd_base (ss_desc (z_ss s)) + fst w) (snd w)"

definition read_digest :: "('d, 'e, 'x) sha_sys \<Rightarrow> u32 list" where
  "read_digest s =
     map (\<lambda>i. fst (sha_mmio_read s (sd_base (ss_desc (z_ss s)) + (0x40 + 4 * of_nat i)))) [0 ..< 16]"

text \<open>The register writes of a driver for one block: the mode, the saved digest when the message
  goes on, the message words, the command.\<close>

definition block_writes :: "bool \<Rightarrow> u32 \<Rightarrow> u32 list \<Rightarrow> u32 list \<Rightarrow> (u32 \<times> u32) list" where
  "block_writes start m saved tx =
     (0, m) # (if start then [] else map (\<lambda>i. (0x40 + 4 * of_nat i, saved ! i)) [0 ..< 16]) @
     map (\<lambda>i. (0x80 + 4 * of_nat i, tx ! i)) [0 ..< length tx] @
     [(if start then 0x10 else 0x14, 1)]"

text \<open>A driver hashes a message of several blocks. Each block finds the device in a state of its
  own: between two blocks, other contexts may do with it what they like.\<close>

fun sha_driver ::
  "sha_lib \<Rightarrow> 'd host \<Rightarrow> u32 \<Rightarrow> bool \<Rightarrow> u32 list \<Rightarrow> (('d, 'e, 'x) sha_sys \<times> u32 list) list \<Rightarrow> u32 list" where
  "sha_driver L E m start saved [] = saved"
| "sha_driver L E m start saved ((s, tx) # rest) =
     sha_driver L E m False
       (read_digest (fold (sha_write L E) (block_writes start m saved tx) s)) rest"

lemma unat_index: "i < 32 \<Longrightarrow> unat (4 * of_nat i :: u32) = 4 * i"
  by (simp add: unat_word_ariths unat_of_nat)

lemma index_bounds:
  assumes "i < 32"
  shows "i < 16 \<Longrightarrow> 0x40 + 4 * of_nat i < (0x80 :: u32)" "\<not> 0x40 + 4 * of_nat i < (0x40 :: u32)"
    "0x80 + 4 * of_nat i < (0x100 :: u32)" "\<not> 0x80 + 4 * of_nat i < (0x80 :: u32)"
    "0x40 + 4 * of_nat i < (0x1000 :: u32)" "0x80 + 4 * of_nat i < (0x1000 :: u32)"
proof -
  have u: "unat (0x40 + 4 * of_nat i :: u32) = 0x40 + 4 * i" "unat (0x80 + 4 * of_nat i :: u32) = 0x80 + 4 * i"
    using assms unat_index [OF assms] by (simp_all add: unat_word_ariths)
  show "i < 16 \<Longrightarrow> 0x40 + 4 * of_nat i < (0x80 :: u32)" "\<not> 0x40 + 4 * of_nat i < (0x40 :: u32)"
    "0x80 + 4 * of_nat i < (0x100 :: u32)" "\<not> 0x80 + 4 * of_nat i < (0x80 :: u32)"
    "0x40 + 4 * of_nat i < (0x1000 :: u32)" "0x80 + 4 * of_nat i < (0x1000 :: u32)"
    using assms by (simp_all add: word_less_nat_alt word_le_nat_alt u)
qed

lemma write_cases:
  assumes "sha_ready s"
  shows "sha_write L E (0, m) s = z_put (sha_set_control 0 m (z_ss s)) s"
    "i < 16 \<Longrightarrow> sha_write L E (0x40 + 4 * of_nat i, v) s =
       z_put ((z_ss s)\<lparr>ss_h := (ss_h (z_ss s))[i := v], ss_h_dirty := True\<rparr>) s"
    "i < 32 \<Longrightarrow> sha_write L E (0x80 + 4 * of_nat i, v) s =
       z_put ((z_ss s)\<lparr>ss_text := (ss_text (z_ss s))[i := v]\<rparr>) s"
    "sha_write L E (if start then 0x10 else 0x14, v) s = z_put (sha_unified_direct L start (z_ss s)) s"
proof -
  from assms obtain t where t: "sha_geometry_valid t (ss_desc (z_ss s))"
    and op: "sha_operational (z_ss s)" "\<not> ss_reset_asserted (z_ss s)"
    and lay: "sd_layout (ss_desc (z_ss s)) = SHA_LAYOUT_UNIFIED"
    by (auto simp: sha_ready_def sha_operational_def)
  have pg: "off < 0x1000 \<Longrightarrow> sha_in_page (ss_desc (z_ss s)) (sd_base (ss_desc (z_ss s)) + off)" for off
    by (rule sha_page [OF t])
  show "sha_write L E (0, m) s = z_put (sha_set_control 0 m (z_ss s)) s"
    using pg [of 0] op lay by (simp add: sha_write_def sha_mmio_write_def sha_unified_control_def)
  show "sha_write L E (if start then 0x10 else 0x14, v) s = z_put (sha_unified_direct L start (z_ss s)) s"
    using pg [of "0x10"] pg [of "0x14"] op lay
    by (simp add: sha_write_def sha_mmio_write_def sha_unified_control_def)
  show "i < 16 \<Longrightarrow> sha_write L E (0x40 + 4 * of_nat i, v) s =
       z_put ((z_ss s)\<lparr>ss_h := (ss_h (z_ss s))[i := v], ss_h_dirty := True\<rparr>) s"
    using pg [of "0x40 + 4 * of_nat i"] op lay index_bounds [of i] unat_index [of i]
    by (simp add: sha_write_def sha_mmio_write_def not_less [symmetric] Let_def)
  show "i < 32 \<Longrightarrow> sha_write L E (0x80 + 4 * of_nat i, v) s =
       z_put ((z_ss s)\<lparr>ss_text := (ss_text (z_ss s))[i := v]\<rparr>) s"
    using pg [of "0x80 + 4 * of_nat i"] op lay index_bounds [of i] unat_index [of i]
    by (simp add: sha_write_def sha_mmio_write_def not_less [symmetric] Let_def)
qed

lemma read_digest_h:
  assumes "sha_ready s"
  shows "read_digest s = ss_h (z_ss s)"
proof -
  from assms obtain t where t: "sha_geometry_valid t (ss_desc (z_ss s))"
    and lay: "sd_layout (ss_desc (z_ss s)) = SHA_LAYOUT_UNIFIED" and "length (ss_h (z_ss s)) = 16"
    by (auto simp: sha_ready_def sha_wf_def)
  moreover have "fst (sha_mmio_read s (sd_base (ss_desc (z_ss s)) + (0x40 + 4 * of_nat i))) = ss_h (z_ss s) ! i"
    if "i < 16" for i
    using sha_page [OF t, of "0x40 + 4 * of_nat i"] lay that index_bounds [of i] unat_index [of i]
    by (simp add: sha_mmio_read_def sha_reg_read_def)
  ultimately show ?thesis by (intro nth_equalityI) (simp_all add: read_digest_def)
qed

lemma ready_cong:
  "sha_ready s \<Longrightarrow> sha_wf a \<Longrightarrow> ss_desc a = ss_desc (z_ss s) \<Longrightarrow>
     sha_operational a = sha_operational (z_ss s) \<Longrightarrow> sha_ready (z_put a s)"
  by (simp add: sha_ready_def)

lemma update_prefix: "k < length xs \<Longrightarrow> k < length ws \<Longrightarrow>
  (take k ws @ drop k xs)[k := ws ! k] = take (Suc k) ws @ drop (Suc k) xs"
  by (simp add: list_update_append take_Suc_conv_app_nth Cons_nth_drop_Suc [symmetric])

lemma write_h_words:
  assumes "sha_ready s" "length saved = 16" "k \<le> 16"
  shows "fold (sha_write L E) (map (\<lambda>i. (0x40 + 4 * of_nat i, saved ! i)) [0 ..< k]) s =
    z_put ((z_ss s)\<lparr>ss_h := take k saved @ drop k (ss_h (z_ss s)), ss_h_dirty := (0 < k \<or> ss_h_dirty (z_ss s))\<rparr>) s"
  using assms(3)
proof (induction k)
  case 0 show ?case by simp
next
  case (Suc k)
  let ?a = "(z_ss s)\<lparr>ss_h := take k saved @ drop k (ss_h (z_ss s)), ss_h_dirty := (0 < k \<or> ss_h_dirty (z_ss s))\<rparr>"
  have h: "length (ss_h (z_ss s)) = 16" using assms(1) by (simp add: sha_ready_def sha_wf_def)
  have "sha_ready (z_put ?a s)"
    using assms(1,2) Suc.prems by (intro ready_cong) (simp_all add: sha_ready_def sha_wf_def sha_operational_def)
  from write_cases(2) [OF this, of k L E "saved ! k"] show ?case
    using Suc h assms(2) by (simp add: update_prefix)
qed

lemma write_text_words:
  assumes "sha_ready s" "length tx \<le> 32" "k \<le> length tx"
  shows "fold (sha_write L E) (map (\<lambda>i. (0x80 + 4 * of_nat i, tx ! i)) [0 ..< k]) s =
    z_put ((z_ss s)\<lparr>ss_text := take k tx @ drop k (ss_text (z_ss s))\<rparr>) s"
  using assms(3)
proof (induction k)
  case 0 show ?case by simp
next
  case (Suc k)
  let ?a = "(z_ss s)\<lparr>ss_text := take k tx @ drop k (ss_text (z_ss s))\<rparr>"
  have h: "length (ss_text (z_ss s)) = 32" using assms(1) by (simp add: sha_ready_def sha_wf_def)
  have "sha_ready (z_put ?a s)"
    using assms(1,2) Suc.prems h
    by (intro ready_cong) (simp_all add: sha_ready_def sha_wf_def sha_operational_def)
  from write_cases(3) [OF this, of k L E "tx ! k"] show ?case
    using Suc h assms(2) by (simp add: update_prefix)
qed

section \<open>Interleaved messages\<close>

definition text_bytes :: "u32 list \<Rightarrow> u8 list" where
  "text_bytes ws = concat (map (text_word_bytes False) ws)"

lemma length_text_bytes [simp]: "length (text_bytes ws) = 4 * length ws"
  by (induction ws) (simp_all add: text_bytes_def text_word_bytes_def)

lemma text_block:
  assumes "sd_layout (ss_desc a) = SHA_LAYOUT_UNIFIED" "take (length tx) (ss_text a) = tx"
  shows "sha_text_to_block a (length tx) = text_bytes tx"
proof -
  have "ss_text a ! i = tx ! i" if "i < length tx" for i using assms(2) that by (metis nth_take)
  then have "map (\<lambda>i. text_word_bytes False (ss_text a ! i)) [0 ..< length tx] = map (text_word_bytes False) tx"
    by (intro nth_equalityI) simp_all
  then show ?thesis using assms(1) by (simp add: sha_text_to_block_def text_bytes_def)
qed

lemma ready_set_mode:
  "sha_ready s \<Longrightarrow> sha_ready (z_put (sha_set_control 0 m (z_ss s)) s)"
  by (rule ready_cong) (simp_all add: sha_ready_def sha_operational_def sha_set_control_def sha_wf_def)

lemma finish_block_frame:
  "ss_desc (sha_unified_finish_block L g raw start a) = ss_desc a"
  "ss_clock_enabled (sha_unified_finish_block L g raw start a) = ss_clock_enabled a"
  "ss_reset_asserted (sha_unified_finish_block L g raw start a) = ss_reset_asserted a"
  "ss_control (sha_unified_finish_block L g raw start a) = ss_control a"
  by (cases g; simp add: sha_unified_finish_block_def sha_engine_hash_raw_def sha_engine_import_h_def
      Let_def)+

text \<open>One block of the driver: the digest read back is the compression of the digest restored.\<close>

lemma driver_block:
  assumes L: "sha_lib_ok L" and s: "sha_ready s"
    and g: "g = sha_mode_algorithm (ss_desc (z_ss s)) m" "sha_algorithm_supported g"
    and tx: "length tx = sha_block_size g div 4" and saved: "start \<or> length saved = 16"
  shows "take (hash_words g) (read_digest (fold (sha_write L E) (block_writes start m saved tx) s)) =
      hash_block L g (text_bytes tx) (if start then hash_iv L g else take (hash_words g) saved)"
    "length (read_digest (fold (sha_write L E) (block_writes start m saved tx) s)) = 16"
proof -
  let ?s1 = "z_put (sha_set_control 0 m (z_ss s)) s"
  let ?s2 = "if start then ?s1 else z_put ((z_ss ?s1)\<lparr>ss_h := saved, ss_h_dirty := True\<rparr>) ?s1"
  let ?s3 = "z_put ((z_ss ?s2)\<lparr>ss_text := tx @ drop (length tx) (ss_text (z_ss ?s2))\<rparr>) ?s2"
  have t: "length tx \<le> 32" using tx by (cases g) (simp_all add: sha_block_size_def)
  have r1: "sha_ready ?s1" by (rule ready_set_mode [OF s])
  have h2: "fold (sha_write L E) (if start then [] else map (\<lambda>i. (0x40 + 4 * of_nat i, saved ! i)) [0 ..< 16]) ?s1 = ?s2"
    using write_h_words [OF r1, of saved 16 L E] saved r1 by (auto simp: sha_ready_def sha_wf_def)
  have r2: "sha_ready ?s2"
    using r1 saved ready_cong [OF r1, of "(z_ss ?s1)\<lparr>ss_h := saved, ss_h_dirty := True\<rparr>"]
    by (auto simp: sha_ready_def sha_wf_def sha_operational_def)
  have r3: "sha_ready ?s3"
    using r2 t by (intro ready_cong [OF r2]) (auto simp: sha_ready_def sha_wf_def sha_operational_def)
  have run: "fold (sha_write L E) (block_writes start m saved tx) s =
      z_put (sha_unified_direct L start (z_ss ?s3)) ?s3"
    using write_cases(1) [OF s, of L E m] h2 write_text_words [OF r2 t order_refl, of L E]
      write_cases(4) [OF r3, of L E start 1]
    by (simp add: block_writes_def)
  define a where "a = z_ss ?s3"
  have a: "ss_desc a = ss_desc (z_ss s)" "ss_control a ! 0 = m" "take (length tx) (ss_text a) = tx"
    "start \<or> ss_h_dirty a" "\<not> start \<Longrightarrow> ss_h a = saved" "sha_wf a"
    using s r3 by (auto simp: a_def sha_set_control_def sha_ready_def sha_wf_def)
  have direct: "sha_unified_direct L start a = sha_unified_finish_block L g (text_bytes tx) start a"
    using text_block [of a tx] a(1-3) s g tx
    by (simp add: sha_unified_direct_def Let_def sha_ready_def)
  have r4: "sha_ready (z_put (sha_unified_direct L start a) ?s3)"
    unfolding direct
    by (rule ready_cong [OF r3 wf_finish_block [OF L a(6)]])
      (simp_all add: finish_block_frame sha_operational_def a_def)
  have "block_start L g start a = (if start then hash_iv L g else take (hash_words g) saved)"
    using a(4,5) by (auto simp: block_start_def)
  then show "take (hash_words g) (read_digest (fold (sha_write L E) (block_writes start m saved tx) s)) =
      hash_block L g (text_bytes tx) (if start then hash_iv L g else take (hash_words g) saved)"
    unfolding run a_def [symmetric] read_digest_h [OF r4]
    using finish_block_h(1) [OF L a(6) g(2), of "text_bytes tx" start] by (simp add: direct)
  show "length (read_digest (fold (sha_write L E) (block_writes start m saved tx) s)) = 16"
    by (simp add: read_digest_def)
qed

text \<open>C22. Interleaved messages do not disturb each other. A driver that writes back the digest it
  saved, then the message words and the command, for every block of its message, ends with the
  compression of its blocks from the initial value of the algorithm, although between its blocks
  the device went through arbitrary states, such as other messages with other algorithms.\<close>

theorem sha_interleaved_digest:
  assumes "sha_lib_ok L" "sha_algorithm_supported g" "blocks \<noteq> []"
    and "\<forall>(s, tx) \<in> set blocks. sha_ready s \<and> sha_mode_algorithm (ss_desc (z_ss s)) m = g \<and>
           length tx = sha_block_size g div 4"
  shows "take (hash_words g) (sha_driver L E m True [] blocks) =
     fold (\<lambda>(s, tx). hash_block L g (text_bytes tx)) blocks (hash_iv L g)"
proof -
  have rest: "take (hash_words g) (sha_driver L E m False saved bs) =
      fold (\<lambda>(s, tx). hash_block L g (text_bytes tx)) bs (take (hash_words g) saved)"
    if "length saved = 16" "set bs \<subseteq> set blocks" for saved bs
    using that
  proof (induction bs arbitrary: saved)
    case (Cons b bs)
    obtain s tx where b: "b = (s, tx)" by fastforce
    have ok: "sha_ready s" "g = sha_mode_algorithm (ss_desc (z_ss s)) m" "length tx = sha_block_size g div 4"
      using assms(4) Cons.prems(2) b by auto
    show ?case
      using Cons driver_block [OF assms(1) ok(1,2) assms(2) ok(3), of False saved E] by (simp add: b)
  qed simp
  obtain s tx bs where b: "blocks = (s, tx) # bs" using assms(3) by (cases blocks) auto
  have ok: "sha_ready s" "g = sha_mode_algorithm (ss_desc (z_ss s)) m" "length tx = sha_block_size g div 4"
    using assms(4) b by auto
  show ?thesis
    using rest [OF driver_block(2) [OF assms(1) ok(1,2) assms(2) ok(3), of True "[]" E], of bs]
      driver_block(1) [OF assms(1) ok(1,2) assms(2) ok(3), of True "[]" E]
    by (auto simp: b)
qed

section \<open>Transfers\<close>

text \<open>A run of blocks compresses them in order; the first may start a message.\<close>

lemma hash_blocks_h:
  fixes a :: "'x sha_stubs"
  assumes L: "sha_lib_ok L" and a: "sha_wf a" and g: "sha_algorithm_supported g"
    and bs: "bs \<noteq> []"
  shows "take (hash_words g) (ss_h (sha_hash_blocks L g start bs a)) =
     fold (hash_block L g) bs (block_start L g start a)"
proof -
  define f :: "nat \<Rightarrow> 'x sha_stubs \<Rightarrow> 'x sha_stubs" where "f i = sha_unified_finish_block L g (bs ! i) (start \<and> i = 0)" for i
  have "sha_wf (fold f [0 ..< Suc k] a) \<and> \<not> ss_h_dirty (fold f [0 ..< Suc k] a) \<and>
      engine_words g (fold f [0 ..< Suc k] a) = fold (hash_block L g) (take (Suc k) bs) (block_start L g start a) \<and>
      take (hash_words g) (ss_h (fold f [0 ..< Suc k] a)) =
        fold (hash_block L g) (take (Suc k) bs) (block_start L g start a)"
    if "k < length bs" for k
    using that
  proof (induction k)
    case 0
    have "take 1 bs = [bs ! 0]" using bs by (cases bs) simp_all
    then show ?case
      using finish_block_h [OF L a g, of "bs ! 0" start] wf_finish_block [OF L a] by (simp add: f_def)
  next
    case (Suc k)
    let ?b = "fold f [0 ..< Suc k] a"
    have b: "sha_wf ?b" "\<not> ss_h_dirty ?b"
      "engine_words g ?b = fold (hash_block L g) (take (Suc k) bs) (block_start L g start a)"
      using Suc by simp_all
    have step: "fold f [0 ..< Suc (Suc k)] a = sha_unified_finish_block L g (bs ! Suc k) False ?b"
      by (simp add: f_def)
    have start: "block_start L g False ?b = fold (hash_block L g) (take (Suc k) bs) (block_start L g start a)"
      using b by (simp add: block_start_def)
    have last: "take (Suc (Suc k)) bs = take (Suc k) bs @ [bs ! Suc k]"
      using Suc.prems by (simp add: take_Suc_conv_app_nth)
    show ?case
      unfolding step last fold_append
      using finish_block_h [OF L b(1) g, of "bs ! Suc k" False] wf_finish_block [OF L b(1)] start by simp
  qed
  from this [of "length bs - 1"] bs have "take (hash_words g) (ss_h (fold f [0 ..< length bs] a)) =
      fold (hash_block L g) bs (block_start L g start a)" by simp
  moreover have "f = (\<lambda>i. sha_unified_finish_block L g (bs ! i) (start \<and> i = 0))"
    by (simp add: f_def fun_eq_iff)
  ultimately show ?thesis by (simp add: sha_hash_blocks_def)
qed

lemma hash_blocks_frame:
  "ss_desc (sha_hash_blocks L g start bs a) = ss_desc a"
  "ss_clock_enabled (sha_hash_blocks L g start bs a) = ss_clock_enabled a"
  "ss_reset_asserted (sha_hash_blocks L g start bs a) = ss_reset_asserted a"
proof -
  have "ss_desc (fold (\<lambda>i. sha_unified_finish_block L g (bs ! i) (start \<and> i = 0)) is a) = ss_desc a \<and>
      ss_clock_enabled (fold (\<lambda>i. sha_unified_finish_block L g (bs ! i) (start \<and> i = 0)) is a) = ss_clock_enabled a \<and>
      ss_reset_asserted (fold (\<lambda>i. sha_unified_finish_block L g (bs ! i) (start \<and> i = 0)) is a) = ss_reset_asserted a"
    for "is"
    by (induction "is" arbitrary: a) (simp_all add: finish_block_frame)
  then show "ss_desc (sha_hash_blocks L g start bs a) = ss_desc a"
    "ss_clock_enabled (sha_hash_blocks L g start bs a) = ss_clock_enabled a"
    "ss_reset_asserted (sha_hash_blocks L g start bs a) = ss_reset_asserted a"
    by (simp_all add: sha_hash_blocks_def)
qed

lemma write_dma:
  assumes "sha_ready s"
  shows "sha_write L E (if start then 0x1C else 0x20, v) s = sha_unified_dma True L E start s"
proof -
  from assms obtain t where t: "sha_geometry_valid t (ss_desc (z_ss s))"
    and op: "sha_operational (z_ss s)" "\<not> ss_reset_asserted (z_ss s)"
    and lay: "sd_layout (ss_desc (z_ss s)) = SHA_LAYOUT_UNIFIED"
    by (auto simp: sha_ready_def sha_operational_def)
  show ?thesis
    using sha_page [OF t, of "0x1C"] sha_page [OF t, of "0x20"] op lay
    by (simp add: sha_write_def sha_mmio_write_def sha_unified_control_def)
qed

lemma block_size_pos: "sha_algorithm_supported g \<Longrightarrow> sha_block_size g \<noteq> 0"
  by (auto simp: sha_algorithm_supported_def sha_block_size_def)

text \<open>C23. A transfer hashes the memory its descriptors describe. When the channel routed to the
  accelerator points at a chain of descriptors in RAM that holds whole blocks, a DMA start leaves the
  digest of exactly those bytes in the H registers, a DMA continue the digest of the message so far
  extended by them, and guest memory is not changed.\<close>

theorem sha_dma_hashes_chain:
  assumes "sha_lib_ok L" "sha_ready s" "z_gdma s = Some dma"
    and "g = sha_mode_algorithm (ss_desc (z_ss s)) (ss_control (z_ss s) ! 0)" "sha_algorithm_supported g"
    and "n = unat (ss_control (z_ss s) ! 3 AND 0x3F)" "0 < n"
    and "sd_dma_peripheral_id (ss_desc (z_ss s)) \<noteq> 0xFF"
    and "gdma_ok dma" "gdma_active_tx_channel dma (sd_dma_peripheral_id (ss_desc (z_ss s))) = Some ch"
    and "chan_get dma ch GDMA_V1_OUT_CONF0_OFF AND GDMA_V1_OUT_AUTO_WRBACK = 0"
    and "tx_chain (z_cpu s) (chan_get dma ch GDMA_V1_OUT_CONF1_OFF AND GDMA_V1_CHECK_OWNER \<noteq> 0) k
           (gd_descriptor_address_prefix (g_desc dma) OR tx_link_address (g_tx dma ch)) data"
    and "k \<le> 1024" "length data = n * sha_block_size g"
    and s': "s' = sha_write L E (if start then 0x1C else 0x20, 1) s"
  shows "take (hash_words g) (read_digest s') =
      fold (hash_block L g) (sha_blocks (sha_block_size g) n data) (block_start L g start (z_ss s)) \<and>
    z_cpu s' = z_cpu s"
proof -
  let ?dma = "dma\<lparr>g_world := z_periph s\<rparr>"
  have ok: "gdma_ok ?dma" using assms(9) by (simp add: gdma_ok_def)
  have cg: "chan_get ?dma = chan_get dma" by (rule chan_get_cong) simp_all
  have act: "gdma_active_tx_channel ?dma pid = gdma_active_tx_channel dma pid" for pid
    by (simp add: gdma_active_tx_channel_def gdma_channel_addr_def)
  obtain g' where g': "flexe_gdma_read_tx E (sd_dma_peripheral_id (ss_desc (z_ss s)))
      (n * sha_block_size g) ?dma (z_cpu s) = (0, data, g', z_cpu s)"
    using read_tx_chain [OF ok, of "sd_dma_peripheral_id (ss_desc (z_ss s))" ch "z_cpu s" k data
        "n * sha_block_size g" E] assms(10-14) by (auto simp: cg act)
  let ?bs = "sha_blocks (sha_block_size g) n data"
  let ?s1 = "s\<lparr>z_gdma := Some g', z_periph := g_world g'\<rparr>"
  let ?a = "sha_hash_blocks L g start ?bs (z_ss s)"
  have "sha_write L E (if start then 0x1C else 0x20, 1) s = sha_unified_dma True L E start s"
    by (rule write_dma [OF assms(2)])
  also have "\<dots> = z_put ?a ?s1"
    using assms(3-8) g' by (simp add: sha_unified_dma_def Let_def block_size_pos)
  finally have s1: "s' = z_put ?a ?s1" by (simp add: s')
  have "sha_ready ?s1" using assms(2) by (simp add: sha_ready_def)
  then have "sha_ready s'"
    unfolding s1 using wf_hash_blocks [OF assms(1), of "z_ss s"] assms(2)
    by (intro ready_cong) (simp_all add: sha_ready_def hash_blocks_frame sha_operational_def)
  moreover have "?bs \<noteq> []" using assms(7) by (simp add: sha_blocks_def)
  ultimately show ?thesis
    using hash_blocks_h [OF assms(1) _ assms(5), of "z_ss s" ?bs start] assms(2)
    by (simp add: read_digest_h s1 sha_ready_def) (simp add: z_put_def)
qed

section \<open>Witnesses\<close>

text \<open>A library of toy hash functions, the accelerator of the S3 in SHA-1 mode with one block to
  transfer, and a machine with a descriptor of 64 zero bytes at 0x3FFB0010.\<close>

definition sample_sha_lib :: sha_lib where
  "sample_sha_lib = \<lparr>sl_sha1_iv = [1, 2, 3, 4, 5], sl_sha224_iv = replicate 8 6, sl_sha256_iv = replicate 8 7,
     sl_sha384_iv = replicate 8 8, sl_sha512_iv = replicate 8 9,
     sl_sha1_transform = (\<lambda>h b. map (\<lambda>x. 3 * x + of_nat (length b)) h),
     sl_sha256_transform = (\<lambda>h b. map (\<lambda>x. 5 * x + of_nat (length b)) h),
     sl_sha512_transform = (\<lambda>h b. map (\<lambda>x. 7 * x + of_nat (length b)) h),
     sl_sha256_digest = (\<lambda>_. sha256_abc_digest)\<rparr>"

definition sample_sha_desc :: flexe_sha_desc where
  "sample_sha_desc = esp32s3_sha\<lparr>sd_dma_peripheral_id := 6\<rparr>"

definition sample_sha_target :: periph_target where
  "sample_sha_target = esp32s3_periph_target\<lparr>pt_capabilities := - 1\<rparr>"

definition sample_sha_byte :: "nat \<Rightarrow> u8" where
  "sample_sha_byte i =
     (if i = 0x10010 then 0x40 else if i = 0x10012 then 4 else if i = 0x10013 then 0x40
      else if i = 0x10014 then 0x40 else if i = 0x10016 then 0xFB else if i = 0x10017 then 0x3F
      else 0)"

definition sample_sha_cpu :: "unit cpu" where
  "sample_sha_cpu = sample_cpu\<lparr>mem := sample_mem\<lparr>hbytes := (\<lambda>_. sample_sha_byte)\<rparr>\<rparr>"

definition sample_sha_sys :: "(unit, unit, unit) sha_sys" where
  "sample_sha_sys = \<lparr>z_ss = (sha_zero () sample_sha_desc)\<lparr>ss_control := (replicate 16 0)[3 := 1]\<rparr>,
     z_gdma = Some sample_gdma, z_periph = sample_fabric, z_cpu = sample_sha_cpu,
     z_fallback_read = None, z_fallback_write = None\<rparr>"

lemma sample_sha_lib_ok: "sha_lib_ok sample_sha_lib"
  by (simp add: sha_lib_ok_def sample_sha_lib_def)

lemma sample_sha_ready: "sha_ready sample_sha_sys"
proof -
  have "sha_geometry_valid sample_sha_target sample_sha_desc" by code_simp
  then show ?thesis
    by (auto simp: sha_ready_def sample_sha_sys_def sha_zero_def sha_wf_def sha_operational_def
        sample_sha_desc_def esp32s3_sha_def)
qed

text \<open>The state after another context used the device.\<close>

definition sample_sha_busy :: "(unit, unit, unit) sha_sys" where
  "sample_sha_busy = z_put ((z_ss sample_sha_sys)\<lparr>ss_h := replicate 16 0xFF, ss_sha1 := replicate 5 0xEE,
     ss_control := replicate 16 2\<rparr>) sample_sha_sys"

lemma sample_sha_busy_ready: "sha_ready sample_sha_busy"
  unfolding sample_sha_busy_def using sample_sha_ready
  by (intro ready_cong) (simp_all add: sha_ready_def sha_wf_def sha_operational_def)

lemma sample_sha_modes:
  "sha_mode_algorithm (ss_desc (z_ss sample_sha_sys)) 0 = SHA1"
  "sha_mode_algorithm (ss_desc (z_ss sample_sha_busy)) 0 = SHA1"
  by (simp_all add: sample_sha_busy_def sample_sha_sys_def sha_zero_def sample_sha_desc_def esp32s3_sha_def
      sha_mode_algorithm_def)

theorem sha_interleaved_digest_witness:
  "take 5 (sha_driver sample_sha_lib sample_host 0 True []
       [(sample_sha_sys, replicate 16 1), (sample_sha_busy, replicate 16 2)]) =
   [0x109, 0x112, 0x11B, 0x124, 0x12D]"
  using sha_interleaved_digest [OF sample_sha_lib_ok, of SHA1
      "[(sample_sha_sys, replicate 16 1), (sample_sha_busy, replicate 16 2)]" 0 sample_host]
    sample_sha_ready sample_sha_busy_ready sample_sha_modes
  by (simp add: sha_algorithm_supported_def sha_block_size_def hash_words_def hash_iv_def hash_block_def
      sample_sha_lib_def)

lemma sample_sha_mem:
  "ram_at 4 sample_sha_cpu 0x3FFB0010 = Some (Backing FLEXE_MEM_SRAM, 0x10010)"
  "ram_at 4 sample_sha_cpu 0x3FFB0014 = Some (Backing FLEXE_MEM_SRAM, 0x10014)"
  "ram_at 4 sample_sha_cpu 0x3FFB0018 = Some (Backing FLEXE_MEM_SRAM, 0x10018)"
  by (simp_all add: ram_at_def sample_sha_cpu_def sample_mem_def sample_tables_def page_of_def page_off_def
      PAGE_SIZE_def host_in_def hsize_def hptr_add_def esp32_backing_size.simps Let_def)

lemma sample_sha_ram: "ram_byte sample_sha_cpu b i = sample_sha_byte i"
  by (simp add: ram_byte_def sample_sha_cpu_def)

lemma sample_sha_words:
  "ram_word sample_sha_cpu 0x3FFB0010 = Some 0x40040040"
  "ram_word sample_sha_cpu 0x3FFB0014 = Some 0x3FFB0040"
  "ram_word sample_sha_cpu 0x3FFB0018 = Some 0"
  by (simp_all add: ram_word_def sample_sha_mem sample_sha_ram sample_sha_byte_def upt_rec)

lemma sample_sha_page:
  assumes "i < 64"
  shows "page_of (0x3FFB0040 + of_nat i) = 0x3FFB0" "page_off (0x3FFB0040 + of_nat i) = 0x40 + i"
  using in_page [of "0x3FFB0040" i] assms by (simp_all add: page_of_def page_off_def)

lemma sample_sha_bytes:
  assumes "i < 64"
  shows "ram_u8 sample_sha_cpu (0x3FFB0040 + of_nat i) = Some 0"
proof -
  have "ram_at 1 sample_sha_cpu (0x3FFB0040 + of_nat i) = Some (Backing FLEXE_MEM_SRAM, 0x10040 + i)"
    using assms sample_sha_page [OF assms]
    by (simp add: ram_at_def sample_sha_cpu_def sample_mem_def sample_tables_def PAGE_SIZE_def host_in_def
        hsize_def hptr_add_def esp32_backing_size.simps Let_def)
  then show ?thesis by (simp add: ram_u8_def sample_sha_ram sample_sha_byte_def)
qed

lemma sample_sha_valid:
  "gdma_ram_range_valid (mem sample_sha_cpu) 0x3FFB0010 GDMA_V1_DESC_BYTES False"
  "gdma_ram_range_valid (mem sample_sha_cpu) 0x3FFB0040 64 False"
  by (simp_all add: gdma_ram_range_valid_def GDMA_V1_DESC_BYTES_def Let_def upt_rec sample_sha_cpu_def
      sample_mem_def mem_get_ptr_def page_of_def sample_tables_def)

lemma sample_sha_chain: "tx_chain sample_sha_cpu False 1 0x3FFB0010 (replicate 64 0)"
proof (rule chain_last)
  have "desc_valid 0x40040040 = 64" "desc_size 0x40040040 = 64"
    by (simp_all add: desc_valid_def desc_size_def)
  then show "tx_desc sample_sha_cpu False 0x3FFB0010 (replicate 64 0) True 0"
    unfolding tx_desc_def length_replicate
    using sample_sha_bytes sample_sha_valid by (simp add: sample_sha_words)
qed

theorem sha_dma_hashes_chain_witness:
  "take 5 (read_digest (sha_write sample_sha_lib sample_host (0x1C, 1) sample_sha_sys)) =
     [67, 70, 73, 76, 79]"
proof -
  have c: "ss_control (z_ss sample_sha_sys) ! 0 = 0" "ss_control (z_ss sample_sha_sys) ! 3 = 1"
    "sd_dma_peripheral_id (ss_desc (z_ss sample_sha_sys)) = 6" "z_gdma sample_sha_sys = Some sample_gdma"
    "z_cpu sample_sha_sys = sample_sha_cpu"
    by (simp_all add: sample_sha_sys_def sha_zero_def sample_sha_desc_def)
  have d: "gd_descriptor_address_prefix (g_desc sample_gdma) OR tx_link_address (g_tx sample_gdma 0) = 0x3FFB0010"
    by (simp add: sample_gdma_def gdma_zero_def sample_gdma_desc_def)
  have g: "SHA1 = sha_mode_algorithm (ss_desc (z_ss sample_sha_sys)) (ss_control (z_ss sample_sha_sys) ! 0)"
    "sha_algorithm_supported SHA1"
    using sample_sha_modes c by (simp_all add: sha_algorithm_supported_def)
  have "take (hash_words SHA1) (read_digest (sha_write sample_sha_lib sample_host (if True then 0x1C else 0x20, 1) sample_sha_sys)) =
      fold (hash_block sample_sha_lib SHA1) (sha_blocks (sha_block_size SHA1) 1 (replicate 64 0))
        (block_start sample_sha_lib SHA1 True (z_ss sample_sha_sys)) \<and> z_cpu (sha_write sample_sha_lib sample_host (if True then 0x1C else 0x20, 1) sample_sha_sys) = z_cpu sample_sha_sys"
    using sample_sha_chain
    by (intro sha_dma_hashes_chain [OF sample_sha_lib_ok sample_sha_ready c(4) g _ _ _ sample_gdma_ok, where ch = 0 and k = 1])
      (simp_all add: c d sample_gdma_active sample_gdma_conf sha_block_size_def)
  then show ?thesis
    by (simp add: hash_words_def hash_block_def sha_blocks_def sha_block_size_def block_start_def hash_iv_def
        sample_sha_lib_def)
qed

end
