(* ===== verification/Sha_Contexts.thy ===== *)
theory Sha_Contexts
  imports Sha_Facts
begin

text \<open>
  The native contexts behind the mbedTLS hash functions. A table of 32 slots implements a map from
  guest addresses to contexts; the locale \<open>hash_family\<close> is what the functions of one hash
  (starts, update, finish, free) have in common, and its lemma says that every context has absorbed
  exactly the message the guest fed it, however the calls of different contexts interleave. The
  three families of the code are its interpretations.
\<close>

section \<open>The slot table\<close>

definition slot_wf :: "'x ctx_table \<Rightarrow> bool" where
  "slot_wf t \<longleftrightarrow> length t = MBED_CTX_SLOTS \<and>
     (\<forall>i < length t. \<forall>j < length t. fst (t ! i) = fst (t ! j) \<longrightarrow> fst (t ! i) \<noteq> 0 \<longrightarrow> i = j)"

definition slot_map :: "'x ctx_table \<Rightarrow> u32 \<Rightarrow> 'x option" where
  "slot_map t addr = (if addr = 0 then None else map_option (\<lambda>i. snd (t ! i)) (slot_find t addr))"

definition slots_used :: "'x ctx_table \<Rightarrow> nat" where
  "slots_used t = length (filter (\<lambda>i. fst (t ! i) \<noteq> 0) [0 ..< length t])"

lemma slot_find_Some:
  "slot_find t addr = Some i \<Longrightarrow> i < length t \<and> fst (t ! i) = addr"
  by (auto simp: slot_find_def find_Some_iff)

lemma slot_find_None: "slot_find t addr = None \<longleftrightarrow> (\<forall>i < length t. fst (t ! i) \<noteq> addr)"
  by (auto simp: slot_find_def find_None_iff)

lemma slot_find_eq:
  assumes "slot_wf t" "addr \<noteq> 0" "i < length t" "fst (t ! i) = addr"
  shows "slot_find t addr = Some i"
proof (cases "slot_find t addr")
  case None
  then show ?thesis using assms by (simp add: slot_find_None)
next
  case (Some j)
  then show ?thesis using assms slot_find_Some [OF Some] by (auto simp: slot_wf_def)
qed

lemma slot_map_put:
  assumes "slot_wf t" "addr \<noteq> 0" "slot_find t addr = Some i"
  shows "slot_wf (slot_put t i x)" "slot_map (slot_put t i x) = (slot_map t)(addr \<mapsto> x)"
proof -
  have i: "i < length t" "fst (t ! i) = addr" using slot_find_Some [OF assms(3)] by simp_all
  have fst: "fst (slot_put t i x ! j) = fst (t ! j)" "length (slot_put t i x) = length t" for j
    using i by (auto simp: slot_put_def nth_list_update)
  show wf: "slot_wf (slot_put t i x)" using assms(1) by (simp add: slot_wf_def fst)
  have find: "slot_find (slot_put t i x) = slot_find t"
    by (simp add: slot_find_def fst fun_eq_iff)
  show "slot_map (slot_put t i x) = (slot_map t)(addr \<mapsto> x)"
  proof
    fix b
    show "slot_map (slot_put t i x) b = ((slot_map t)(addr \<mapsto> x)) b"
    proof (cases "slot_find t b")
      case None
      then have "b \<noteq> addr" using assms(3) by auto
      then show ?thesis using None by (simp add: slot_map_def find)
    next
      case (Some j)
      then have j: "j < length t" "fst (t ! j) = b" using slot_find_Some by blast+
      have "b = addr \<longleftrightarrow> j = i" using assms(3) Some i(2) j(2) by (metis option.inject)
      moreover have "snd (slot_put t i x ! j) = (if j = i then x else snd (t ! j))"
        using i j by (simp add: slot_put_def nth_list_update)
      ultimately show ?thesis using assms(2) Some by (cases "j = i") (simp_all add: slot_map_def find)
    qed
  qed
qed

lemma slot_map_replace:
  assumes "slot_wf t" "i < length t" "b = 0 \<or> slot_find t b = None" "old = fst (t ! i)"
  shows "slot_wf (t[i := (b, x)])"
    "slot_map (t[i := (b, x)]) = (if b = 0 then (slot_map t)(old := None) else ((slot_map t)(old := None))(b \<mapsto> x))"
proof -
  have free: "fst (t ! j) \<noteq> b" if "j < length t" "b \<noteq> 0" for j
    using assms(3) that by (auto simp: slot_find_None)
  show wf: "slot_wf (t[i := (b, x)])"
    using assms(1,2) free unfolding slot_wf_def by (auto simp: nth_list_update)
  have "slot_map (t[i := (b, x)]) c =
      (if b = 0 then (slot_map t)(old := None) else ((slot_map t)(old := None))(b \<mapsto> x)) c" for c
  proof (cases "c = 0")
    case True
    then show ?thesis by (simp add: slot_map_def)
  next
    case False
    show ?thesis
    proof (cases "\<exists>j < length t. j \<noteq> i \<and> fst (t ! j) = c")
      case True
      then obtain j where j: "j < length t" "j \<noteq> i" "fst (t ! j) = c" by blast
      have "slot_find (t[i := (b, x)]) c = Some j" "slot_find t c = Some j"
        using wf assms(1) j False by (auto intro!: slot_find_eq)
      moreover have "c \<noteq> old" "c \<noteq> b"
        using assms(1,2,4) j False free by (auto simp: slot_wf_def)
      ultimately show ?thesis using False j by (simp add: slot_map_def)
    next
      case other: False
      show ?thesis
      proof (cases "c = b")
        case True
        then have "slot_find (t[i := (b, x)]) c = Some i"
          using wf assms(2) False by (intro slot_find_eq) simp_all
        then show ?thesis using True False assms(2) by (simp add: slot_map_def)
      next
        case cb: False
        have "fst (t[i := (b, x)] ! k) \<noteq> c" if "k < length t" for k
          using other cb that by (cases "k = i") auto
        then have "slot_find (t[i := (b, x)]) c = None" by (simp add: slot_find_None)
        moreover have "slot_find t c = None" if "c \<noteq> old"
          using other that assms(4) by (auto simp: slot_find_None)
        ultimately show ?thesis using False cb by (simp add: slot_map_def)
      qed
    qed
  qed
  then show "slot_map (t[i := (b, x)]) =
      (if b = 0 then (slot_map t)(old := None) else ((slot_map t)(old := None))(b \<mapsto> x))" by blast
qed

lemma slot_wf_empty: "slot_wf (replicate MBED_CTX_SLOTS (0, x))"
  by (simp add: slot_wf_def)

lemma slot_map_empty: "slot_map (replicate k (0, x)) = (\<lambda>_. None)"
proof
  fix b
  show "slot_map (replicate k (0, x)) b = None"
    using slot_find_None [of "replicate k (0, x)" b] by (simp add: slot_map_def)
qed

lemma slot_zero_old: "slot_map t 0 = None"
  by (simp add: slot_map_def)

text \<open>With a slot for the address or an empty one, starting a context puts it in the map; with
  neither, nothing happens.\<close>

lemma slot_starts_map:
  assumes "slot_wf t" "addr \<noteq> 0" "slot_find t addr \<noteq> None \<or> slot_find t 0 \<noteq> None"
  shows "slot_wf (slot_starts t addr x)" "slot_map (slot_starts t addr x) = (slot_map t)(addr \<mapsto> x)"
proof -
  have "slot_wf (slot_starts t addr x) \<and> slot_map (slot_starts t addr x) = (slot_map t)(addr \<mapsto> x)"
  proof (cases "slot_find t addr")
    case (Some i)
    then have "slot_starts t addr x = slot_put t i x"
      by (simp add: slot_starts_def slot_alloc_def slot_put_def)
    then show ?thesis using slot_map_put [OF assms(1,2) Some] by simp
  next
    case None
    then obtain i where i: "slot_find t 0 = Some i" using assms(3) by auto
    have "i < length t" "fst (t ! i) = 0" using slot_find_Some [OF i] by simp_all
    moreover have "slot_starts t addr x = t[i := (addr, x)]"
      using None i \<open>i < length t\<close> by (simp add: slot_starts_def slot_alloc_def)
    ultimately show ?thesis
      using slot_map_replace [OF assms(1), of i addr 0 x] None assms(2)
      by (simp add: fun_upd_idem slot_zero_old)
  qed
  then show "slot_wf (slot_starts t addr x)" "slot_map (slot_starts t addr x) = (slot_map t)(addr \<mapsto> x)"
    by simp_all
qed

lemma slot_starts_full:
  "slot_find t addr = None \<Longrightarrow> slot_find t 0 = None \<Longrightarrow> slot_starts t addr x = t"
  by (simp add: slot_starts_def slot_alloc_def)

lemma slot_free_map:
  assumes "slot_wf t" "addr \<noteq> 0"
  shows "slot_wf (slot_free t addr)" "slot_map (slot_free t addr) = (slot_map t)(addr := None)"
proof -
  have "slot_wf (slot_free t addr) \<and> slot_map (slot_free t addr) = (slot_map t)(addr := None)"
  proof (cases "slot_find t addr")
    case None
    then show ?thesis using assms by (auto simp: slot_free_def slot_map_def fun_eq_iff)
  next
    case (Some i)
    then show ?thesis
      using slot_map_replace [OF assms(1), of i 0 addr "snd (t ! i)"] slot_find_Some [OF Some]
      by (simp add: slot_free_def)
  qed
  then show "slot_wf (slot_free t addr)" "slot_map (slot_free t addr) = (slot_map t)(addr := None)"
    by simp_all
qed

text \<open>An empty slot exists while fewer contexts than slots are in the map.\<close>

lemma slot_room:
  assumes "slot_wf t" "card (dom (slot_map t)) < MBED_CTX_SLOTS"
  shows "slot_find t 0 \<noteq> None"
proof
  assume "slot_find t 0 = None"
  then have nz: "fst (t ! i) \<noteq> 0" if "i < length t" for i using that by (simp add: slot_find_None)
  have "(\<lambda>i. fst (t ! i)) ` {..< length t} \<subseteq> dom (slot_map t)"
    using nz slot_find_eq [OF assms(1)] by (auto simp: slot_map_def)
  moreover have "finite (dom (slot_map t))"
  proof (rule finite_subset)
    show "dom (slot_map t) \<subseteq> (\<lambda>i. fst (t ! i)) ` {..< length t}"
      using slot_find_Some [of t] by (fastforce simp: slot_map_def split: if_splits)
  qed simp
  moreover have "inj_on (\<lambda>i. fst (t ! i)) {..< length t}"
    using assms(1) nz by (auto simp: slot_wf_def inj_on_def)
  ultimately have "length t \<le> card (dom (slot_map t))"
    by (metis card_image card_lessThan card_mono)
  then show False using assms by (simp add: slot_wf_def)
qed


section \<open>Absorbing guest memory\<close>

text \<open>What is relied on of the streaming interface: feeding a message in pieces is feeding it whole.\<close>

definition hash_ops_ok :: "'x hash_ops \<Rightarrow> bool" where
  "hash_ops_ok ops \<longleftrightarrow>
     (\<forall>x. ho_update ops x [] = x) \<and>
     (\<forall>x a b. ho_update ops (ho_update ops x a) b = ho_update ops x (a @ b))"

text \<open>The bytes of a range of RAM.\<close>

definition ram_bytes :: "'d cpu \<Rightarrow> u32 \<Rightarrow> nat \<Rightarrow> u8 list \<Rightarrow> bool" where
  "ram_bytes c addr n bs \<longleftrightarrow> length bs = n \<and> (\<forall>i < n. ram_u8 c (addr + of_nat i) = Some (bs ! i))"

lemma ram_bytes_split:
  assumes "ram_bytes c addr n bs" "k \<le> n"
  shows "ram_bytes c addr k (take k bs)" "ram_bytes c (addr + of_nat k) (n - k) (drop k bs)"
proof -
  show "ram_bytes c addr k (take k bs)" using assms by (auto simp: ram_bytes_def)
  have "ram_u8 c (addr + of_nat k + of_nat i) = Some (drop k bs ! i)" if "i < n - k" for i
  proof -
    have eq: "addr + of_nat k + of_nat i = addr + of_nat (k + i)" by simp
    have "ram_u8 c (addr + of_nat (k + i)) = Some (bs ! (k + i))"
      using assms that by (simp add: ram_bytes_def del: of_nat_add)
    then show ?thesis unfolding eq using assms by (simp add: ram_bytes_def)
  qed
  then show "ram_bytes c (addr + of_nat k) (n - k) (drop k bs)" using assms by (simp add: ram_bytes_def)
qed

lemma ram_u8_ptr:
  assumes "ram_u8 c a = Some b"
  obtains p where "mem_get_ptr (mem c) a = Some p" "host_in (mem c) p 1" "hbytes (mem c) (fst p) (snd p) = b"
  using assms
  by (auto simp: ram_u8_def ram_at_def ram_byte_def mem_get_ptr_def Let_def split: if_splits option.splits)

text \<open>A chunk inside a page is the bytes of the range.\<close>

lemma absorb_chunk_ram:
  assumes "ram_bytes c addr n bs" "0 < n" "page_off addr + n \<le> 4096"
  shows "absorb_chunk E c addr n = (bs, c)"
proof -
  have get: "ram_u8 c (addr + of_nat i) = Some (bs ! i)" if "i < n" for i
    using assms(1) that by (simp add: ram_bytes_def)
  obtain p where p: "mem_get_ptr (mem c) addr = Some p"
    using get [of 0] assms(2) by (auto elim: ram_u8_ptr)
  have at: "mem_get_ptr (mem c) (addr + of_nat i) = Some (hptr_add p i)" if "i < n" for i
    using p in_page [of addr i] that assms(3) by (auto simp: mem_get_ptr_def hptr_add_def)
  have bytes: "hbytes (mem c) (fst p) (snd p + i) = bs ! i" if "i < n" for i
    using get [OF that] at [OF that] by (auto simp: hptr_add_def elim!: ram_u8_ptr)
  have "host_in (mem c) (hptr_add p (n - 1)) 1"
    using get [of "n - 1"] at [of "n - 1"] assms(2) by (auto elim!: ram_u8_ptr)
  then have "host_in (mem c) p n" using assms(2) by (simp add: host_in_def hptr_add_def)
  then show ?thesis
    using p bytes assms(1)
    by (simp add: absorb_chunk_def host_touch_def host_read_def ram_bytes_def) (simp add: list_eq_iff_nth_eq)
qed

lemma page_rem_off: "unat (page_rem addr) = 4096 - page_off addr"
proof -
  have "addr AND 0xFFF \<le> (0x1000 :: u32)" using and_low12_less by (rule less_imp_le)
  then show ?thesis by (simp add: page_rem_def unat_sub page_off_def)
qed

text \<open>Absorbing a range of RAM feeds exactly its bytes and leaves the machine alone.\<close>

lemma absorb_ram:
  assumes "hash_ops_ok ops" "0 < cap" "0 < limit" "ram_bytes c addr (unat left) bs"
  shows "absorb ops cap limit E addr left (x, c) = (ho_update ops x bs, c)"
  using assms(4)
proof (induction "unat left" arbitrary: addr left bs x rule: less_induct)
  case less
  show ?case
  proof (cases "left = 0")
    case True
    then show ?thesis
      using less.prems assms(1) by (simp add: absorb.simps [of ops] ram_bytes_def hash_ops_ok_def)
  next
    case False
    define n where "n = chunk_of c cap limit addr left"
    have pos: "0 < left" using False by (simp add: word_gt_0)
    have n: "0 < n" "n \<le> left" unfolding n_def using chunk_of_bounds [OF assms(2,3) pos] by blast+
    have un: "0 < unat n" "unat n \<le> unat left"
      using n by (simp_all add: word_less_nat_alt word_le_nat_alt)
    obtain p where p: "mem_get_ptr (mem c) addr = Some p"
      using less.prems un by (auto simp: ram_bytes_def elim!: ram_u8_ptr dest!: spec [of _ 0])
    have "n \<le> page_rem addr" using p by (auto simp: n_def chunk_of_def Let_def)
    then have "unat n \<le> 4096 - page_off addr"
      using page_rem_off [of addr] by (simp add: word_le_nat_alt)
    then have inpage: "page_off addr + unat n \<le> 4096" using page_off_mod [of addr] by simp
    note sp = ram_bytes_split [OF less.prems un(2)]
    have chunk: "absorb_chunk E c addr (unat n) = (take (unat n) bs, c)"
      by (rule absorb_chunk_ram [OF sp(1) un(1) inpage])
    have sub: "unat (left - n) = unat left - unat n" using n by (simp add: unat_sub)
    have "absorb ops cap limit E addr left (x, c) =
        absorb ops cap limit E (addr + n) (left - n) (ho_update ops x (take (unat n) bs), c)"
      using assms(2,3) False chunk by (subst absorb.simps) (auto simp: n_def [symmetric])
    also have "\<dots> = (ho_update ops (ho_update ops x (take (unat n) bs)) (drop (unat n) bs), c)"
      using less.hyps [of "left - n" "addr + n" "drop (unat n) bs"] sp(2) un sub by simp
    also have "\<dots> = (ho_update ops x bs, c)"
      using assms(1) by (simp add: hash_ops_ok_def)
    finally show ?thesis .
  qed
qed


section \<open>A family of hash functions\<close>

text \<open>A call of one of the functions: the machine at its entry holds the arguments.\<close>

datatype hash_call = Hash_Starts | Hash_Update | Hash_Finish | Hash_Free

definition hash_step where
  "hash_step starts update finish free X E junk k a c =
     fst (case k of Hash_Starts \<Rightarrow> starts X (a, c) | Hash_Update \<Rightarrow> update X E (a, c)
          | Hash_Finish \<Rightarrow> finish X E junk (a, c) | Hash_Free \<Rightarrow> free (a, c))"

text \<open>The messages of the contexts after a call: each started one with its initial context and the
  bytes fed to it since.\<close>

definition hash_track ::
  "('d cpu \<Rightarrow> 'x) \<Rightarrow> hash_call \<Rightarrow> 'd cpu \<Rightarrow> u8 list \<Rightarrow> (u32 \<Rightarrow> ('x \<times> u8 list) option) \<Rightarrow>
     u32 \<Rightarrow> ('x \<times> u8 list) option" where
  "hash_track init k c bs msgs =
     (case k of
        Hash_Starts \<Rightarrow> msgs(sha_arg c 0 \<mapsto> (init c, []))
      | Hash_Update \<Rightarrow>
          (case msgs (sha_arg c 0) of
             None \<Rightarrow> msgs
           | Some (x, m) \<Rightarrow> msgs(sha_arg c 0 \<mapsto> (x, m @ bs)))
      | Hash_Finish \<Rightarrow> msgs
      | Hash_Free \<Rightarrow> msgs(sha_arg c 0 := None))"

text \<open>A call within the limits: its context address is not null, what it feeds is RAM with the given
  bytes, and a context it starts has room among the 32.\<close>

definition hash_proper ::
  "hash_call \<Rightarrow> 'd cpu \<Rightarrow> u8 list \<Rightarrow> (u32 \<Rightarrow> ('x \<times> u8 list) option) \<Rightarrow> bool" where
  "hash_proper k c bs msgs \<longleftrightarrow>
     sha_arg c 0 \<noteq> 0 \<and> (k = Hash_Update \<longrightarrow> ram_bytes c (sha_arg c 1) (unat (sha_arg c 2)) bs) \<and>
     (k = Hash_Starts \<longrightarrow> msgs (sha_arg c 0) = None \<longrightarrow> card (dom msgs) < MBED_CTX_SLOTS)"

text \<open>A run of calls, each with its machine and the bytes its range holds.\<close>

fun run_calls where
  "run_calls step [] a = a"
| "run_calls step ((k, c, bs) # ks) a = run_calls step ks (step k a c)"

fun run_tracks where
  "run_tracks init [] msgs = msgs"
| "run_tracks init ((k, c, bs) # ks) msgs = run_tracks init ks (hash_track init k c bs msgs)"

fun run_proper where
  "run_proper init [] msgs = True"
| "run_proper init ((k, c, bs) # ks) msgs =
     (hash_proper k c bs msgs \<and> run_proper init ks (hash_track init k c bs msgs))"

text \<open>The contexts the messages stand for.\<close>

definition absorbed :: "'x hash_ops \<Rightarrow> (u32 \<Rightarrow> ('x \<times> u8 list) option) \<Rightarrow> u32 \<Rightarrow> 'x option" where
  "absorbed ops msgs = (\<lambda>addr. map_option (\<lambda>(x, m). ho_update ops x m) (msgs addr))"

lemma dom_absorbed: "dom (absorbed ops msgs) = dom msgs"
  by (auto simp: absorbed_def dom_def)

lemma slot_find_map:
  "addr \<noteq> 0 \<Longrightarrow> slot_find t addr = None \<longleftrightarrow> slot_map t addr = None"
  by (simp add: slot_map_def)

locale hash_family =
  fixes tab :: "'x sha_stubs \<Rightarrow> 'x ctx_table"
    and init :: "'x hash_lib \<Rightarrow> 'd cpu \<Rightarrow> 'x" and ops :: "'x hash_lib \<Rightarrow> 'x hash_ops"
    and len :: nat and last_fit :: u32
    and starts :: "'x hash_lib \<Rightarrow> 'x sha_stubs \<times> 'd cpu \<Rightarrow> 'x sha_stubs \<times> 'd cpu"
    and update :: "'x hash_lib \<Rightarrow> 'd host \<Rightarrow> 'x sha_stubs \<times> 'd cpu \<Rightarrow> 'x sha_stubs \<times> 'd cpu"
    and finish :: "'x hash_lib \<Rightarrow> 'd host \<Rightarrow> ('d cpu \<Rightarrow> u8 list) \<Rightarrow> 'x sha_stubs \<times> 'd cpu \<Rightarrow> 'x sha_stubs \<times> 'd cpu"
    and free :: "'x sha_stubs \<times> 'd cpu \<Rightarrow> 'x sha_stubs \<times> 'd cpu"
  assumes starts_spec:
      "tab (fst (starts X (a, c))) = slot_starts (tab a) (sha_arg c 0) (init X c)"
    and update_spec: "hash_ops_ok (ops X) \<Longrightarrow> slot_find (tab a) (sha_arg c 0) = Some i \<Longrightarrow>
      ram_bytes c (sha_arg c 1) (unat (sha_arg c 2)) bs \<Longrightarrow>
      tab (fst (update X E (a, c))) = slot_put (tab a) i (ho_update (ops X) (snd (tab a ! i)) bs)"
    and update_none: "slot_find (tab a) (sha_arg c 0) = None \<Longrightarrow> tab (fst (update X E (a, c))) = tab a"
    and finish_spec: "finish X E junk (a, c) =
      (a, sha_return (slot_finish (ops X) len last_fit E (sha_arg c 0) (sha_arg c 1) (junk c) (tab a) c) 0)"
    and free_spec: "tab (fst (free (a, c))) = slot_free (tab a) (sha_arg c 0)"
begin

abbreviation call where
  "call X E junk \<equiv> hash_step starts update finish free X E junk"

lemma call_step:
  assumes "hash_ops_ok (ops X)" "slot_wf (tab a)" "slot_map (tab a) = absorbed (ops X) msgs" "hash_proper k c bs msgs"
  shows "slot_wf (tab (call X E junk k a c))" "slot_map (tab (call X E junk k a c)) = absorbed (ops X) (hash_track (init X) k c bs msgs)"
proof -
  let ?addr = "sha_arg c 0"
  have nz: "?addr \<noteq> 0" using assms(4) by (simp add: hash_proper_def)
  have "slot_wf (tab (call X E junk k a c)) \<and> slot_map (tab (call X E junk k a c)) = absorbed (ops X) (hash_track (init X) k c bs msgs)"
  proof (cases k)
    case Hash_Starts
    have "slot_find (tab a) ?addr \<noteq> None \<or> slot_find (tab a) 0 \<noteq> None"
    proof (cases "msgs ?addr")
      case None
      then have "card (dom msgs) < MBED_CTX_SLOTS" using assms(4) Hash_Starts by (simp add: hash_proper_def)
      then show ?thesis using slot_room [OF assms(2)] by (simp add: assms(3) dom_absorbed)
    next
      case (Some m)
      then show ?thesis using slot_find_map [OF nz, of "tab a"] by (simp add: assms(3) absorbed_def)
    qed
    from slot_starts_map [OF assms(2) nz this, of "init X c"] show ?thesis
      using assms(1)
      by (simp add: Hash_Starts hash_step_def starts_spec hash_track_def assms(3) absorbed_def hash_ops_ok_def fun_eq_iff)
  next
    case Hash_Update
    show ?thesis
    proof (cases "slot_find (tab a) ?addr")
      case None
      then have "msgs ?addr = None"
        using slot_find_map [OF nz, of "tab a"] by (simp add: assms(3) absorbed_def)
      then show ?thesis
        using assms(2,3) update_none [OF None] by (simp add: Hash_Update hash_step_def hash_track_def)
    next
      case (Some i)
      then have "absorbed (ops X) msgs ?addr = Some (snd (tab a ! i))"
        using nz by (simp add: assms(3) [symmetric] slot_map_def)
      then obtain x m where m: "msgs ?addr = Some (x, m)" "snd (tab a ! i) = ho_update (ops X) x m"
        by (auto simp: absorbed_def)
      have "ram_bytes c (sha_arg c 1) (unat (sha_arg c 2)) bs"
        using assms(4) Hash_Update by (simp add: hash_proper_def)
      from update_spec [OF assms(1) Some this] slot_map_put [OF assms(2) nz Some] show ?thesis
        using assms(1) m
        by (simp add: Hash_Update hash_step_def hash_track_def assms(3) absorbed_def hash_ops_ok_def fun_eq_iff)
    qed
  next
    case Hash_Finish
    then show ?thesis using assms(2,3) by (simp add: hash_step_def finish_spec hash_track_def)
  next
    case Hash_Free
    then show ?thesis
      using slot_free_map [OF assms(2) nz] by (simp add: hash_step_def free_spec hash_track_def assms(3) absorbed_def fun_eq_iff)
  qed
  then show "slot_wf (tab (call X E junk k a c))" "slot_map (tab (call X E junk k a c)) = absorbed (ops X) (hash_track (init X) k c bs msgs)"
    by simp_all
qed

lemma calls_track:
  assumes "hash_ops_ok (ops X)" "slot_wf (tab a)" "slot_map (tab a) = absorbed (ops X) msgs" "run_proper (init X) ks msgs"
  shows "slot_wf (tab (run_calls (call X E junk) ks a)) \<and> slot_map (tab (run_calls (call X E junk) ks a)) = absorbed (ops X) (run_tracks (init X) ks msgs)"
  using assms(2-4)
proof (induction ks arbitrary: a msgs)
  case (Cons kk ks)
  obtain k c bs where k: "kk = (k, c, bs)" by (metis prod_cases3)
  have p: "hash_proper k c bs msgs" "run_proper (init X) ks (hash_track (init X) k c bs msgs)"
    using Cons.prems(3) by (simp_all add: k)
  show ?case
    using Cons.IH [OF call_step [OF assms(1) Cons.prems(1,2) p(1)] p(2)] by (simp add: k)
qed simp

text \<open>The digest written by a finish is the one of the whole message, in its array.\<close>

lemma finish_message:
  assumes "slot_wf (tab a)" "slot_map (tab a) = absorbed (ops X) msgs" "msgs (sha_arg c 0) = Some (x, m)" "sha_arg c 0 \<noteq> 0"
  shows "finish X E junk (a, c) =
    (a, sha_return (digest_out E last_fit (sha_arg c 1)
                     (digest_array len (junk c) (ho_final (ops X) (ho_update (ops X) x m))) c) 0)"
  using fun_cong [OF assms(2), of "sha_arg c 0"] assms(3,4)
  by (auto simp: finish_spec slot_finish_def slot_map_def absorbed_def)

text \<open>A call on an address without a context reports success and does nothing else.\<close>

lemma finish_unknown:
  assumes "slot_find (tab a) (sha_arg c 0) = None"
  shows "finish X E junk (a, c) = (a, sha_return c 0)"
  using assms by (simp add: finish_spec slot_finish_def)

end

lemma update_ram:
  assumes "hash_ops_ok ops" "slot_find t addr = Some i" "ram_bytes c data (unat len) bs" "0 < cap" "0 < limit"
  shows "slot_update ops cap limit E addr data len (t, c) =
    (slot_put t i (ho_update ops (snd (t ! i)) bs), c)"
  using assms(2) absorb_ram [OF assms(1,4,5,3)] by (simp add: slot_update_def)

lemma sha256_update_ram:
  "hash_ops_ok (hl_sha256 X) \<Longrightarrow> slot_find (ss_mbed_sha256 a) (sha_arg c 0) = Some i \<Longrightarrow>
     ram_bytes c (sha_arg c 1) (unat (sha_arg c 2)) bs \<Longrightarrow>
     ss_mbed_sha256 (fst (stub_mbedtls_sha256_update X E (a, c))) =
       slot_put (ss_mbed_sha256 a) i (ho_update (hl_sha256 X) (snd (ss_mbed_sha256 a ! i)) bs)"
  by (simp add: stub_mbedtls_sha256_update_def update_ram [where bs = bs])

lemma sha256_update_none:
  "slot_find (ss_mbed_sha256 a) (sha_arg c 0) = None \<Longrightarrow>
     ss_mbed_sha256 (fst (stub_mbedtls_sha256_update X E (a, c))) = ss_mbed_sha256 a"
  by (simp add: stub_mbedtls_sha256_update_def slot_update_def)

interpretation sha256: hash_family ss_mbed_sha256
  "\<lambda>X c. if sha_arg c 1 \<noteq> 0 then hl_sha224_init X else hl_sha256_init X" hl_sha256 "32" "0xFE0"
  stub_mbedtls_sha256_starts stub_mbedtls_sha256_update stub_mbedtls_sha256_finish stub_mbedtls_sha256_free
  by unfold_locales
    (rule sha256_update_ram sha256_update_none, assumption+ |
     simp add: stub_mbedtls_sha256_starts_def stub_mbedtls_sha256_finish_def stub_mbedtls_sha256_free_def)+

lemma sha1_update_ram:
  "hash_ops_ok (hl_sha1 X) \<Longrightarrow> slot_find (ss_mbed_sha1 a) (sha_arg c 0) = Some i \<Longrightarrow>
     ram_bytes c (sha_arg c 1) (unat (sha_arg c 2)) bs \<Longrightarrow>
     ss_mbed_sha1 (fst (stub_mbedtls_sha1_update X E (a, c))) =
       slot_put (ss_mbed_sha1 a) i (ho_update (hl_sha1 X) (snd (ss_mbed_sha1 a ! i)) bs)"
  by (simp add: stub_mbedtls_sha1_update_def update_ram [where bs = bs])

lemma sha1_update_none:
  "slot_find (ss_mbed_sha1 a) (sha_arg c 0) = None \<Longrightarrow>
     ss_mbed_sha1 (fst (stub_mbedtls_sha1_update X E (a, c))) = ss_mbed_sha1 a"
  by (simp add: stub_mbedtls_sha1_update_def slot_update_def)

interpretation sha1: hash_family ss_mbed_sha1
  "\<lambda>X c. hl_sha1_init X" hl_sha1 "20" "0xFEC"
  stub_mbedtls_sha1_starts stub_mbedtls_sha1_update stub_mbedtls_sha1_finish stub_mbedtls_sha1_free
  by unfold_locales
    (rule sha1_update_ram sha1_update_none, assumption+ |
     simp add: stub_mbedtls_sha1_starts_def stub_mbedtls_sha1_finish_def stub_mbedtls_sha1_free_def)+

lemma md5_update_ram:
  "hash_ops_ok (hl_md5 X) \<Longrightarrow> slot_find (ss_mbed_md5 a) (sha_arg c 0) = Some i \<Longrightarrow>
     ram_bytes c (sha_arg c 1) (unat (sha_arg c 2)) bs \<Longrightarrow>
     ss_mbed_md5 (fst (stub_mbedtls_md5_update X E (a, c))) =
       slot_put (ss_mbed_md5 a) i (ho_update (hl_md5 X) (snd (ss_mbed_md5 a ! i)) bs)"
  by (simp add: stub_mbedtls_md5_update_def update_ram [where bs = bs])

lemma md5_update_none:
  "slot_find (ss_mbed_md5 a) (sha_arg c 0) = None \<Longrightarrow>
     ss_mbed_md5 (fst (stub_mbedtls_md5_update X E (a, c))) = ss_mbed_md5 a"
  by (simp add: stub_mbedtls_md5_update_def slot_update_def)

interpretation md5: hash_family ss_mbed_md5
  "\<lambda>X c. hl_md5_init X" hl_md5 "16" "0xFF0"
  stub_mbedtls_md5_starts stub_mbedtls_md5_update stub_mbedtls_md5_finish stub_mbedtls_md5_free
  by unfold_locales
    (rule md5_update_ram md5_update_none, assumption+ |
     simp add: stub_mbedtls_md5_starts_def stub_mbedtls_md5_finish_def stub_mbedtls_md5_free_def)+


section \<open>Digests\<close>

text \<open>C21. Native hashing is faithful under interleaving. However the calls of up to 32 SHA-256 or
  SHA-224 contexts interleave, and whatever the guest does between them, a finish writes 32
  bytes: the digest of exactly the bytes its own context was fed since its start, and, where the
  digest is shorter (28 bytes for SHA-224), what the local array happened to hold behind it.\<close>

theorem sha256_contexts_track_messages:
  assumes "hash_ops_ok (hl_sha256 X)" "slot_wf (ss_mbed_sha256 a)"
    and "slot_map (ss_mbed_sha256 a) = absorbed (hl_sha256 X) msgs"
    and init: "init = (\<lambda>c. if sha_arg c 1 \<noteq> 0 then hl_sha224_init X else hl_sha256_init X)"
    and "run_proper init ks msgs"
    and a': "a' = run_calls (hash_step stub_mbedtls_sha256_starts stub_mbedtls_sha256_update
        stub_mbedtls_sha256_finish stub_mbedtls_sha256_free X E junk) ks a"
    and "run_tracks init ks msgs (sha_arg c 0) = Some (x, m)" "sha_arg c 0 \<noteq> 0"
    and d: "d = ho_final (hl_sha256 X) (ho_update (hl_sha256 X) x m)" "length d \<le> 32"
    and "length (junk c) = 32"
  shows "stub_mbedtls_sha256_finish X E junk (a', c) =
    (a', sha_return (digest_out E 0xFE0 (sha_arg c 1) (d @ drop (length d) (junk c)) c) 0)"
proof -
  have "slot_wf (ss_mbed_sha256 a')" "slot_map (ss_mbed_sha256 a') = absorbed (hl_sha256 X) (run_tracks init ks msgs)"
    using sha256.calls_track [OF assms(1-3), of ks E junk] assms(5) by (simp_all add: init a')
  moreover have "digest_array 32 (junk c) d = d @ drop (length d) (junk c)"
    using d(2) assms(11) by (simp add: digest_array_def)
  ultimately show ?thesis using sha256.finish_message [of a' X _ c x m E junk] assms(7,8) by (simp add: d(1))
qed

text \<open>A context beyond the 32nd is dropped without an error: starting it leaves the table as it is and
  returns success, and its finish returns success without writing a digest.\<close>

lemma sha256_full_table_silent:
  assumes "slot_find (ss_mbed_sha256 a) addr = None" "slot_find (ss_mbed_sha256 a) 0 = None"
    and "sha_arg c 0 = addr" "sha_arg c' 0 = addr"
  shows "stub_mbedtls_sha256_starts X (a, c) = (a, sha_return c 0)"
    "stub_mbedtls_sha256_finish X E junk (a, c') = (a, sha_return c' 0)"
  using assms sha256.finish_unknown [of a c' X E junk]
  by (simp_all add: stub_mbedtls_sha256_starts_def slot_starts_full)

section \<open>Witnesses\<close>

text \<open>Streaming functions that keep the message behind their algorithm (256 or 224) and end with
  32 or 28 bytes, and the machines of the calls on two contexts: one of SHA-224 at 0x3FFB0100 and
  one of SHA-256 at 0x3FFB0180. The local array holds 0xEE.\<close>

definition sample_hash_ops :: "u8 list hash_ops" where
  "sample_hash_ops = \<lparr>ho_update = (\<lambda>x b. x @ b),
     ho_final = (\<lambda>x. take (if x ! 0 = 224 then 28 else 32) (x @ replicate 32 0xFF))\<rparr>"

definition sample_hash_lib :: "u8 list hash_lib" where
  "sample_hash_lib = \<lparr>hl_sha224_init = [224], hl_sha256_init = [0], hl_sha1_init = [1], hl_md5_init = [5],
     hl_sha256 = sample_hash_ops, hl_sha1 = sample_hash_ops, hl_md5 = sample_hash_ops\<rparr>"

definition sample_call :: "u32 \<Rightarrow> u32 \<Rightarrow> u32 \<Rightarrow> unit cpu" where
  "sample_call x b n = ar_write (ar_write (ar_write sample_sha_cpu 2 x) 3 b) 4 n"

lemma sample_call_args:
  "sha_arg (sample_call x b n) 0 = x" "sha_arg (sample_call x b n) (Suc 0) = b"
  "sha_arg (sample_call x b n) 2 = n"
  by (simp_all add: sha_arg_def sample_call_def ar_read_def ar_write_def ar_idx_def sample_sha_cpu_def
      sample_defs XT_PS_CALLINC_def window_hazard_refresh_def)

lemma sample_call_ram: "ram_u8 (sample_call x b n) a = ram_u8 sample_sha_cpu a"
proof -
  have "mem (sample_call x b n) = mem sample_sha_cpu" by (simp add: sample_call_def ar_write_def)
  then show ?thesis by (simp add: ram_u8_def ram_at_def ram_byte_def cong: option.case_cong)
qed

text \<open>A start of each context, then an update of each in turn.\<close>

definition sample_calls :: "(hash_call \<times> unit cpu \<times> u8 list) list" where
  "sample_calls = [(Hash_Starts, sample_call 0x3FFB0100 1 0, []), (Hash_Starts, sample_call 0x3FFB0180 0 0, []),
     (Hash_Update, sample_call 0x3FFB0100 0x3FFB0040 4, replicate 4 0),
     (Hash_Update, sample_call 0x3FFB0180 0x3FFB0040 2, replicate 2 0)]"

theorem sha256_contexts_track_messages_witness:
  "\<exists>a'. a' = run_calls (hash_step stub_mbedtls_sha256_starts stub_mbedtls_sha256_update
        stub_mbedtls_sha256_finish stub_mbedtls_sha256_free sample_hash_lib sample_host (\<lambda>_. replicate 32 0xEE))
        sample_calls (sha_zero [] esp32_sha) \<and>
     stub_mbedtls_sha256_finish sample_hash_lib sample_host (\<lambda>_. replicate 32 0xEE) (a', sample_call 0x3FFB0100 0x3FFB0200 0) =
       (a', sha_return (digest_out sample_host 0xFE0 0x3FFB0200
              ((224 # replicate 4 0 @ replicate 23 0xFF) @ replicate 4 0xEE) (sample_call 0x3FFB0100 0x3FFB0200 0)) 0)"
proof (intro exI conjI)
  let ?init = "\<lambda>c :: unit cpu. if sha_arg c 1 \<noteq> 0 then hl_sha224_init sample_hash_lib else hl_sha256_init sample_hash_lib"
  let ?j = "\<lambda>_ :: unit cpu. replicate 32 (0xEE :: u8)" and ?c = "sample_call 0x3FFB0100 0x3FFB0200 0"
  have ops: "hash_ops_ok (hl_sha256 sample_hash_lib)"
    by (simp add: hash_ops_ok_def sample_hash_lib_def sample_hash_ops_def)
  have zero: "slot_wf (ss_mbed_sha256 (sha_zero ([] :: u8 list) esp32_sha))"
    "slot_map (ss_mbed_sha256 (sha_zero ([] :: u8 list) esp32_sha)) = absorbed (hl_sha256 sample_hash_lib) Map.empty"
    by (simp_all add: sha_zero_def slot_wf_empty slot_map_empty absorbed_def)
  have bytes: "ram_bytes (sample_call x b n) 0x3FFB0040 4 (replicate 4 0)"
    "ram_bytes (sample_call x b n) 0x3FFB0040 2 (replicate 2 0)" for x b n
    by (simp_all add: ram_bytes_def sample_call_ram sample_sha_bytes)
  have proper: "run_proper ?init sample_calls Map.empty"
    unfolding sample_calls_def using bytes
    by (simp add: hash_proper_def sample_call_args MBED_CTX_SLOTS_def hash_track_def)
  have t: "run_tracks ?init sample_calls Map.empty (sha_arg ?c 0) = Some ([224], replicate 4 0)"
    by (simp add: hash_track_def sample_calls_def sample_call_args sample_hash_lib_def)
  let ?d = "224 # replicate 4 0 @ replicate 23 (0xFF :: u8)"
  have d: "?d = ho_final (hl_sha256 sample_hash_lib) (ho_update (hl_sha256 sample_hash_lib) [224] (replicate 4 0))"
    by (simp add: sample_hash_lib_def sample_hash_ops_def)
  have l: "length ?d \<le> 32" "length (?j ?c) = 32" "sha_arg ?c 0 \<noteq> 0" by (simp_all add: sample_call_args)
  let ?a = "run_calls (hash_step stub_mbedtls_sha256_starts stub_mbedtls_sha256_update
        stub_mbedtls_sha256_finish stub_mbedtls_sha256_free sample_hash_lib sample_host ?j) sample_calls (sha_zero [] esp32_sha)"
  show "stub_mbedtls_sha256_finish sample_hash_lib sample_host ?j (?a, ?c) =
       (?a, sha_return (digest_out sample_host 0xFE0 0x3FFB0200 (?d @ replicate 4 0xEE) ?c) 0)"
    using sha256_contexts_track_messages [OF ops zero refl proper refl t l(3) d l(1,2), of sample_host]
    by (simp add: sample_call_args)
qed simp

end
