(* ===== verification/Firmware_Scan.thy ===== *)
theory Firmware_Scan
  imports Bus
begin

text \<open>
  Structural discovery of functions in a loaded image (src/src/firmware_scan.c): side-effect-free
  reads through the page table, byte signatures, checksums of whole bodies with the
  relocation-bearing bits of L32R, CALLn and J blanked out, the searches for entry points, and the
  decoding of the targets of L32R and CALLn. The checksum is the zlib parameter; an output
  argument with its success flag is an option. Sizes are natural numbers.
\<close>

section \<open>Reading\<close>

text \<open>\<open>zl_init\<close> is the value of a call without a buffer.\<close>

record zlib =
  zl_init :: u32
  zl_crc32 :: "u32 \<Rightarrow> u8 list \<Rightarrow> u32"

definition scan_range_ok :: "u32 \<Rightarrow> nat \<Rightarrow> bool" where
  "scan_range_ok addr n \<longleftrightarrow> n \<noteq> 0 \<and> n - 1 \<le> unat (UINT32_MAX - addr)"

definition peek_bytes :: "xmem \<Rightarrow> u32 \<Rightarrow> nat \<Rightarrow> u8 list option" where
  "peek_bytes m addr n = those (map (\<lambda>i. fetch_byte m (addr + of_nat i)) [0 ..< n])"

definition firmware_peek :: "xmem \<Rightarrow> u32 \<Rightarrow> nat \<Rightarrow> u32 option" where
  "firmware_peek m addr n =
     (if 4 < n \<or> \<not> scan_range_ok addr n then None
      else map_option (\<lambda>bs. fold (\<lambda>i v. v OR push_bit (8 * i) (ucast (bs ! i))) [0 ..< n] 0)
             (peek_bytes m addr n))"

definition firmware_signature_matches :: "xmem \<Rightarrow> u32 \<Rightarrow> u8 list \<Rightarrow> bool" where
  "firmware_signature_matches m addr signature \<longleftrightarrow>
     scan_range_ok addr (length signature) \<and>
     list_all (\<lambda>i. fetch_byte m (addr + of_nat i) = Some (signature ! i)) [0 ..< length signature]"

definition firmware_signature_matches_except :: "xmem \<Rightarrow> u32 \<Rightarrow> u8 list \<Rightarrow> nat list \<Rightarrow> bool" where
  "firmware_signature_matches_except m addr signature ignored \<longleftrightarrow>
     scan_range_ok addr (length signature) \<and>
     list_all (\<lambda>j. j < length signature) ignored \<and>
     list_all (\<lambda>i. case fetch_byte m (addr + of_nat i) of
                     None \<Rightarrow> False
                   | Some b \<Rightarrow> i \<in> set ignored \<or> b = signature ! i) [0 ..< length signature]"

section \<open>Checksums\<close>

definition firmware_crc32_matches :: "zlib \<Rightarrow> xmem \<Rightarrow> u32 \<Rightarrow> nat \<Rightarrow> u32 \<Rightarrow> bool" where
  "firmware_crc32_matches Z m addr n expected \<longleftrightarrow>
     scan_range_ok addr n \<and>
     (case peek_bytes m addr n of
        None \<Rightarrow> False
      | Some bs \<Rightarrow> fold (\<lambda>b crc. zl_crc32 Z crc [b]) bs (zl_init Z) = expected)"

definition normalize_insn :: "bool \<Rightarrow> u8 list \<Rightarrow> u8 list" where
  "normalize_insn normalize_jump bs =
     (if length bs = 3 \<and> bs ! 0 AND 0xF = 1 then [bs ! 0, 0, 0]
      else if length bs = 3 \<and> bs ! 0 AND 0xF = 5 then [bs ! 0 AND 0x3F, 0, 0]
      else if normalize_jump \<and> length bs = 3 \<and> bs ! 0 AND 0x3F = 6 then [bs ! 0 AND 0x3F, 0, 0]
      else bs)"

text \<open>The loop over the instructions of a body, \<open>left\<close> bytes before its end.\<close>

function xtensa_crc_loop ::
  "zlib \<Rightarrow> bool \<Rightarrow> xmem \<Rightarrow> u32 \<Rightarrow> nat \<Rightarrow> u32 \<Rightarrow> u32 option" where
  "xtensa_crc_loop Z jump m addr left crc =
     (if left = 0 then Some crc
      else case fetch_byte m addr of
          None \<Rightarrow> None
        | Some b0 \<Rightarrow>
            let len = (if b0 AND 8 \<noteq> 0 then 2 else 3) in
            if left < len then None
            else case peek_bytes m addr len of
                None \<Rightarrow> None
              | Some bs \<Rightarrow>
                  xtensa_crc_loop Z jump m (addr + of_nat len) (left - len)
                    (zl_crc32 Z crc (normalize_insn jump bs)))"
  by pat_completeness auto

termination
  by (relation "measure (\<lambda>(Z, jump, m, addr, left, crc). left)") (auto split: if_splits)

declare xtensa_crc_loop.simps [simp del]

definition firmware_xtensa_crc32_matches_kind ::
  "zlib \<Rightarrow> xmem \<Rightarrow> u32 \<Rightarrow> nat \<Rightarrow> u32 \<Rightarrow> bool \<Rightarrow> bool" where
  "firmware_xtensa_crc32_matches_kind Z m addr n expected normalize_jump \<longleftrightarrow>
     scan_range_ok addr n \<and> xtensa_crc_loop Z normalize_jump m addr n (zl_init Z) = Some expected"

definition firmware_xtensa_crc32_matches :: "zlib \<Rightarrow> xmem \<Rightarrow> u32 \<Rightarrow> nat \<Rightarrow> u32 \<Rightarrow> bool" where
  "firmware_xtensa_crc32_matches Z m addr n expected =
     firmware_xtensa_crc32_matches_kind Z m addr n expected False"

definition firmware_xtensa_reloc_crc32_matches :: "zlib \<Rightarrow> xmem \<Rightarrow> u32 \<Rightarrow> nat \<Rightarrow> u32 \<Rightarrow> bool" where
  "firmware_xtensa_reloc_crc32_matches Z m addr n expected =
     firmware_xtensa_crc32_matches_kind Z m addr n expected True"

section \<open>Searches\<close>

definition firmware_xtensa_is_entry :: "u32 \<Rightarrow> bool" where
  "firmware_xtensa_is_entry insn \<longleftrightarrow>
     XT_OP0 insn = 6 \<and> XT_N insn = 3 \<and> XT_M insn = 0 \<and> XT_S insn = 1"

record function_match =
  fm_size :: nat
  fm_crc32 :: u32
  fm_addr :: u32
  fm_matches :: nat

text \<open>One fingerprint at an entry point \<open>addr\<close>.\<close>

definition match_at :: "zlib \<Rightarrow> xmem \<Rightarrow> u32 \<Rightarrow> u32 \<Rightarrow> function_match \<Rightarrow> function_match" where
  "match_at Z m end_addr addr f =
     (if 2 \<le> fm_matches f \<or> fm_size f < 3 \<or> unat (end_addr - addr) < fm_size f \<or>
         \<not> firmware_xtensa_reloc_crc32_matches Z m addr (fm_size f) (fm_crc32 f)
      then f
      else if fm_matches f = 0 then f\<lparr>fm_addr := addr, fm_matches := 1\<rparr>
      else if fm_addr f \<noteq> addr then f\<lparr>fm_addr := 0, fm_matches := 2\<rparr>
      else f)"

definition entry_at :: "xmem \<Rightarrow> u32 \<Rightarrow> bool" where
  "entry_at m addr \<longleftrightarrow>
     fetch_byte m addr = Some 0x36 \<and>
     (case firmware_peek m addr 3 of None \<Rightarrow> False | Some insn \<Rightarrow> firmware_xtensa_is_entry insn)"

definition firmware_scan_xtensa_functions ::
  "zlib \<Rightarrow> xmem \<Rightarrow> u32 \<Rightarrow> u32 \<Rightarrow> function_match list \<Rightarrow> function_match list" where
  "firmware_scan_xtensa_functions Z m start end_addr fs =
     (let fs0 = map (\<lambda>f. f\<lparr>fm_addr := 0, fm_matches := 0\<rparr>) fs in
      if fs = [] \<or> end_addr \<le> start \<or> end_addr - start < 3 then fs0
      else
        fold (\<lambda>a fs. if entry_at m (of_nat a) then map (match_at Z m end_addr (of_nat a)) fs else fs)
          [unat start ..< unat (end_addr - 3) + 1] fs0)"

definition firmware_find_unique_xtensa_function ::
  "zlib \<Rightarrow> xmem \<Rightarrow> u32 \<Rightarrow> u32 \<Rightarrow> nat \<Rightarrow> u32 \<Rightarrow> nat \<times> u32" where
  "firmware_find_unique_xtensa_function Z m start end_addr n expected =
     (if n < 3 \<or> end_addr \<le> start \<or> unat (end_addr - start) < n then (0, 0)
      else
        let f = hd (firmware_scan_xtensa_functions Z m start end_addr
                      [\<lparr>fm_size = n, fm_crc32 = expected, fm_addr = 0, fm_matches = 0\<rparr>])
        in (fm_matches f, fm_addr f))"

definition firmware_find_crc32_body_kind ::
  "zlib \<Rightarrow> xmem \<Rightarrow> u32 \<Rightarrow> u32 \<Rightarrow> u8 list \<Rightarrow> nat \<Rightarrow> u32 \<Rightarrow> bool \<Rightarrow> u32 option" where
  "firmware_find_crc32_body_kind Z m start end_addr prefix body_size expected xtensa_body =
     (if prefix = [] \<or> body_size < length prefix \<or> end_addr \<le> start \<or> unat (end_addr - start) < body_size
      then None
      else
        map_option of_nat
          (List.find (\<lambda>a. fetch_byte m (of_nat a) = Some (hd prefix) \<and>
                          firmware_signature_matches m (of_nat a) prefix \<and>
                          (if xtensa_body then firmware_xtensa_crc32_matches Z m (of_nat a) body_size expected
                           else firmware_crc32_matches Z m (of_nat a) body_size expected))
             [unat start ..< unat (end_addr - of_nat body_size) + 1]))"

definition firmware_find_crc32_body ::
  "zlib \<Rightarrow> xmem \<Rightarrow> u32 \<Rightarrow> u32 \<Rightarrow> u8 list \<Rightarrow> nat \<Rightarrow> u32 \<Rightarrow> u32 option" where
  "firmware_find_crc32_body Z m start end_addr prefix body_size expected =
     firmware_find_crc32_body_kind Z m start end_addr prefix body_size expected False"

definition firmware_find_xtensa_crc32_body ::
  "zlib \<Rightarrow> xmem \<Rightarrow> u32 \<Rightarrow> u32 \<Rightarrow> u8 list \<Rightarrow> nat \<Rightarrow> u32 \<Rightarrow> u32 option" where
  "firmware_find_xtensa_crc32_body Z m start end_addr prefix body_size expected =
     firmware_find_crc32_body_kind Z m start end_addr prefix body_size expected True"

section \<open>Targets\<close>

definition firmware_xtensa_l32r_target :: "xmem \<Rightarrow> u32 \<Rightarrow> u32 option" where
  "firmware_xtensa_l32r_target m pc0 =
     (case firmware_peek m pc0 3 of
        None \<Rightarrow> None
      | Some insn \<Rightarrow>
          if XT_OP0 insn \<noteq> 1 then None
          else Some (((pc0 + 3) AND NOT 3) + (0xFFFC0000 OR push_bit 2 (XT_IMM16 insn))))"

definition firmware_xtensa_call_target :: "xmem \<Rightarrow> u32 \<Rightarrow> (nat \<times> u32) option" where
  "firmware_xtensa_call_target m pc0 =
     (case firmware_peek m pc0 3 of
        None \<Rightarrow> None
      | Some insn \<Rightarrow>
          if XT_OP0 insn \<noteq> 5 then None
          else
            let encoded = XT_OFFSET18 insn; offset = signed_drop_bit 14 (push_bit 14 encoded)
            in Some (XT_N insn, push_bit 2 (drop_bit 2 pc0 + offset + 1)))"

end
