(* ===== verification/Rom_Hooks.thy ===== *)
theory Rom_Hooks
  imports Step Firmware_Scan
begin

text \<open>
  The table of native replacements (src/src/rom_stubs.c): registration, the hash table with its
  bitmap and the direct dispatch table beside it, and the PC hook that the processor calls. A C
  function pointer is the name of the function, None for NULL. What a replacement does is a
  parameter (\<open>rom_env\<close>); it acts on the stubs and the processor. A call of the log callback is
  an entry of \<open>rs_log\<close>.
\<close>

section \<open>Calling convention\<close>

definition rom_arg :: "'d host \<Rightarrow> 'd cpu \<Rightarrow> nat \<Rightarrow> u32 \<times> 'd cpu" where
  "rom_arg E c n =
     (let reg = XT_PS_CALLINC (ps c) * 4 + 2 + n in
      if reg < 16 then (ar_read c reg, c)
      else mem_read32 E c (ar_read c 1 + of_nat (reg - 16) * 4))"

definition return_pc :: "u32 \<Rightarrow> u32" where
  "return_pc a0 = 0x40000000 OR (a0 AND 0x3FFFFFFF)"

definition rom_return_void :: "'d cpu \<Rightarrow> 'd cpu" where
  "rom_return_void c =
     (let ci = XT_PS_CALLINC (ps c) in
      if 0 < ci
      then c\<lparr>pc := return_pc (ar_read c (ci * 4)), ps := XT_PS_SET_CALLINC (ps c) 0\<rparr>
      else c\<lparr>pc := return_pc (ar_read c 0)\<rparr>)"

definition rom_return :: "'d cpu \<Rightarrow> u32 \<Rightarrow> 'd cpu" where
  "rom_return c retval =
     (let ci = XT_PS_CALLINC (ps c) in
      if 0 < ci
      then let c1 = ar_write c (ci * 4 + 2) retval
           in c1\<lparr>pc := return_pc (ar_read c1 (ci * 4)), ps := XT_PS_SET_CALLINC (ps c1) 0\<rparr>
      else let c1 = ar_write c 2 retval in c1\<lparr>pc := return_pc (ar_read c1 0)\<rparr>)"

definition rom_return64 :: "'d cpu \<Rightarrow> u64 \<Rightarrow> 'd cpu" where
  "rom_return64 c retval =
     (let ci = XT_PS_CALLINC (ps c) in
      if 0 < ci
      then let c1 = ar_write (ar_write c (ci * 4 + 2) (ucast retval)) (ci * 4 + 3) (ucast (drop_bit 32 retval))
           in c1\<lparr>pc := return_pc (ar_read c1 (ci * 4)), ps := XT_PS_SET_CALLINC (ps c1) 0\<rparr>
      else let c1 = ar_write (ar_write c 2 (ucast retval)) 3 (ucast (drop_bit 32 retval))
           in c1\<lparr>pc := return_pc (ar_read c1 0)\<rparr>)"

definition stub_unregistered :: "'d cpu \<Rightarrow> 'd cpu" where
  "stub_unregistered c = rom_return c 0"

definition stub_void_unregistered :: "'d cpu \<Rightarrow> 'd cpu" where
  "stub_void_unregistered c = rom_return_void c"

section \<open>State\<close>

definition MAX_ROM_STUBS :: nat where "MAX_ROM_STUBS = 1024"
definition HOOK_HT_SIZE :: nat where "HOOK_HT_SIZE = 2048"
definition ROM_BASE :: u32 where "ROM_BASE = 0x40000000"
definition ROM_END :: u32 where "ROM_END = 0x40070000"

datatype hook_ctx = No_Ctx | Stubs | User_Ctx nat

record rom_stub_entry =
  re_addr :: u32
  re_fn :: "string option"
  re_conditional_fn :: "string option"
  re_name :: string
  re_call_count :: u32
  re_ctx :: hook_ctx
  re_spy :: bool

text \<open>\<open>de_counter\<close> is the entry whose call count the pointer of a direct slot leads to.\<close>

record stub_direct_entry =
  de_tag :: u32
  de_fn :: "string option"
  de_conditional_fn :: "string option"
  de_ctx :: hook_ctx
  de_counter :: nat
  de_spy :: bool

record stub_heap_region =
  hr_base :: u32
  hr_end :: u32
  hr_ptr :: u32
  hr_free_list :: u32

record esp32_rom_stubs =
  rs_entries :: "rom_stub_entry list"
  rs_ht :: "nat \<Rightarrow> u32 \<times> nat"
  rs_bitmap :: "nat \<Rightarrow> u64"
  rs_direct :: "(nat \<Rightarrow> stub_direct_entry) option"
  rs_real_rom :: bool
  rs_log_fn :: bool
  rs_log :: "(u32 \<times> string) list"
  rs_unregistered_count :: u32
  rs_total_calls :: u32
  rs_cpu_freq_mhz :: u32
  rs_heap :: stub_heap_region
  rs_internal_heap :: stub_heap_region

record 'd rom_env =
  rv_fn :: "string \<Rightarrow> hook_ctx \<Rightarrow> esp32_rom_stubs \<times> 'd cpu \<Rightarrow> esp32_rom_stubs \<times> 'd cpu"
  rv_conditional :: "string \<Rightarrow> hook_ctx \<Rightarrow> esp32_rom_stubs \<times> 'd cpu \<Rightarrow> int \<times> (esp32_rom_stubs \<times> 'd cpu)"

section \<open>The hash table\<close>

definition hook_hash :: "u32 \<Rightarrow> u32" where
  "hook_hash addr = drop_bit 21 (addr * 2654435761)"

text \<open>The slot of probe \<open>d\<close>; the mask is the size of the table minus one.\<close>

definition hook_slot :: "u32 \<Rightarrow> nat \<Rightarrow> nat" where
  "hook_slot addr d = (unat (hook_hash addr) + d) mod HOOK_HT_SIZE"

text \<open>Probing from \<open>d\<close> on, \<open>n\<close> probes at most.\<close>

primrec ht_probe :: "(nat \<Rightarrow> u32 \<times> nat) \<Rightarrow> u32 \<Rightarrow> nat \<Rightarrow> nat \<Rightarrow> nat option" where
  "ht_probe ht addr d 0 = None"
| "ht_probe ht addr d (Suc n) =
     (let slot = hook_slot addr d in
      if fst (ht slot) = addr then Some (snd (ht slot))
      else if fst (ht slot) = 0 then None
      else ht_probe ht addr (d + 1) n)"

definition hook_ht_lookup :: "esp32_rom_stubs \<Rightarrow> u32 \<Rightarrow> nat option" where
  "hook_ht_lookup s a = ht_probe (rs_ht s) a 0 16"

definition rom_pc_hook_contains :: "u32 \<Rightarrow> esp32_rom_stubs \<Rightarrow> bool" where
  "rom_pc_hook_contains a s \<longleftrightarrow>
     hook_ht_lookup s a \<noteq> None \<or> \<not> rs_real_rom s \<and> ROM_BASE \<le> a \<and> a < ROM_END"

definition bitmap_index :: "u32 \<Rightarrow> nat" where
  "bitmap_index addr = unat (drop_bit 2 addr AND 0x7FFFF)"

definition hook_bitmap_set :: "(nat \<Rightarrow> u64) \<Rightarrow> u32 \<Rightarrow> nat \<Rightarrow> u64" where
  "hook_bitmap_set bm addr =
     (let i = bitmap_index addr in bm(i div 64 := bm (i div 64) OR push_bit (i mod 64) 1))"

primrec ht_free :: "(nat \<Rightarrow> u32 \<times> nat) \<Rightarrow> u32 \<Rightarrow> nat \<Rightarrow> nat \<Rightarrow> nat option" where
  "ht_free ht addr d 0 = None"
| "ht_free ht addr d (Suc n) =
     (let slot = hook_slot addr d in
      if fst (ht slot) = 0 \<or> fst (ht slot) = addr then Some slot else ht_free ht addr (d + 1) n)"

definition direct_index :: "u32 \<Rightarrow> nat" where
  "direct_index addr = unat (drop_bit 2 addr AND 0xFFFF)"

definition resolve_ctx :: "hook_ctx \<Rightarrow> hook_ctx" where
  "resolve_ctx x = (if x = No_Ctx then Stubs else x)"

definition direct_of :: "rom_stub_entry \<Rightarrow> u32 \<Rightarrow> nat \<Rightarrow> stub_direct_entry" where
  "direct_of e addr idx =
     \<lparr>de_tag = addr, de_fn = re_fn e, de_conditional_fn = re_conditional_fn e,
      de_ctx = resolve_ctx (re_ctx e), de_counter = idx, de_spy = re_spy e\<rparr>"

definition hook_ht_insert :: "u32 \<Rightarrow> nat \<Rightarrow> esp32_rom_stubs \<Rightarrow> esp32_rom_stubs" where
  "hook_ht_insert addr idx s =
     (let s1 = (case ht_free (rs_ht s) addr 0 HOOK_HT_SIZE of
                  None \<Rightarrow> s
                | Some slot \<Rightarrow>
                    s\<lparr>rs_ht := (rs_ht s)(slot := (addr, idx)),
                      rs_bitmap := hook_bitmap_set (rs_bitmap s) addr\<rparr>)
      in s1\<lparr>rs_direct := map_option
             (\<lambda>dt. dt(direct_index addr := direct_of (rs_entries s1 ! idx) addr idx)) (rs_direct s1)\<rparr>)"

section \<open>The hook\<close>

definition bump_entry :: "nat \<Rightarrow> esp32_rom_stubs \<Rightarrow> esp32_rom_stubs" where
  "bump_entry i s =
     s\<lparr>rs_total_calls := rs_total_calls s + 1,
       rs_entries := (rs_entries s)[i := (rs_entries s ! i)
         \<lparr>re_call_count := re_call_count (rs_entries s ! i) + 1\<rparr>]\<rparr>"

definition log_call :: "u32 \<Rightarrow> string \<Rightarrow> esp32_rom_stubs \<Rightarrow> esp32_rom_stubs" where
  "log_call a nm s = (if rs_log_fn s then s\<lparr>rs_log := rs_log s @ [(a, nm)]\<rparr> else s)"

text \<open>The slot of the direct table that answers for a PC.\<close>

definition direct_hit :: "esp32_rom_stubs \<Rightarrow> u32 \<Rightarrow> stub_direct_entry option" where
  "direct_hit s a =
     (case rs_direct s of
        None \<Rightarrow> None
      | Some dt \<Rightarrow>
          let de = dt (direct_index a) in
          if de_tag de = a \<and> (de_fn de \<noteq> None \<or> de_conditional_fn de \<noteq> None) then Some de else None)"

text \<open>A plain function is called with no test in the slow path; there it is never NULL, since every
  entry has one of the two functions.\<close>

definition rom_pc_hook ::
  "'d rom_env \<Rightarrow> esp32_rom_stubs \<Rightarrow> u32 \<Rightarrow> 'd cpu \<Rightarrow> int \<times> (esp32_rom_stubs \<times> 'd cpu)" where
  "rom_pc_hook V s a c =
     (case direct_hit s a of
        Some de \<Rightarrow>
          let s1 = bump_entry (de_counter de) s in
          (case de_conditional_fn de of
             Some f \<Rightarrow> rv_conditional V f (de_ctx de) (s1, c)
           | None \<Rightarrow>
               let r = rv_fn V (the (de_fn de)) (de_ctx de) (s1, c);
                   spy = (case rs_direct (fst r) of None \<Rightarrow> de_spy de
                          | Some dt \<Rightarrow> de_spy (dt (direct_index a)))
               in (if spy then 0 else 1, r))
      | None \<Rightarrow>
          (case hook_ht_lookup s a of
             Some i \<Rightarrow>
               let s1 = log_call a (re_name (rs_entries s ! i)) (bump_entry i s);
                   ectx = resolve_ctx (re_ctx (rs_entries s1 ! i))
               in (case re_conditional_fn (rs_entries s1 ! i) of
                     Some f \<Rightarrow> rv_conditional V f ectx (s1, c)
                   | None \<Rightarrow>
                       let r = rv_fn V (the (re_fn (rs_entries s1 ! i))) ectx (s1, c)
                       in (if re_spy (rs_entries (fst r) ! i) then 0 else 1, r))
           | None \<Rightarrow>
               if ROM_BASE \<le> a \<and> a < ROM_END
               then if rs_real_rom s then (0, (s, c))
                    else let s1 = log_call a ''UNREGISTERED'' s
                         in (1, (s1\<lparr>rs_unregistered_count := rs_unregistered_count s1 + 1\<rparr>,
                                 stub_unregistered c))
               else (0, (s, c))))"

definition rom_stubs_set_real_rom :: "bool \<Rightarrow> esp32_rom_stubs \<Rightarrow> esp32_rom_stubs" where
  "rom_stubs_set_real_rom enabled s = s\<lparr>rs_real_rom := enabled\<rparr>"

text \<open>The callback itself only writes to the log: what is kept is whether there is one.\<close>

definition rom_stubs_set_log_callback :: "bool \<Rightarrow> esp32_rom_stubs \<Rightarrow> esp32_rom_stubs" where
  "rom_stubs_set_log_callback present s = s\<lparr>rs_log_fn := present\<rparr>"

section \<open>Registration\<close>

definition append_entry ::
  "u32 \<Rightarrow> string option \<Rightarrow> string option \<Rightarrow> string \<Rightarrow> hook_ctx \<Rightarrow> esp32_rom_stubs \<Rightarrow> esp32_rom_stubs" where
  "append_entry addr fn conditional_fn nm ctx s =
     (let e = \<lparr>re_addr = addr, re_fn = fn, re_conditional_fn = conditional_fn, re_name = nm,
               re_call_count = 0, re_ctx = ctx, re_spy = False\<rparr>
      in hook_ht_insert addr (length (rs_entries s)) (s\<lparr>rs_entries := rs_entries s @ [e]\<rparr>))"

definition is_entry_at :: "xmem \<Rightarrow> u32 \<Rightarrow> bool" where
  "is_entry_at m addr \<longleftrightarrow>
     (case firmware_peek m addr 3 of None \<Rightarrow> False | Some insn \<Rightarrow> firmware_xtensa_is_entry insn)"

definition rom_stubs_register_any ::
  "xmem \<Rightarrow> u32 \<Rightarrow> string option \<Rightarrow> string option \<Rightarrow> string \<Rightarrow> hook_ctx \<Rightarrow> bool \<Rightarrow>
     esp32_rom_stubs \<Rightarrow> int \<times> esp32_rom_stubs" where
  "rom_stubs_register_any m addr fn conditional_fn nm ctx scan_preceding_entry s =
     (if MAX_ROM_STUBS \<le> length (rs_entries s) then (-1, s)
      else
        let s1 = append_entry addr fn conditional_fn nm ctx s in
        if scan_preceding_entry \<and> \<not> is_entry_at m addr \<and> 0x40080000 \<le> addr \<and> addr < 0x40200000
        then case List.find (\<lambda>off. is_entry_at m (addr - of_nat off)) [1 ..< 9] of
            None \<Rightarrow> (0, s1)
          | Some off \<Rightarrow>
              if length (rs_entries s1) < MAX_ROM_STUBS
              then (0, append_entry (addr - of_nat off) fn conditional_fn nm ctx s1)
              else (0, s1)
        else (0, s1))"

definition rom_stubs_register_ctx ::
  "xmem \<Rightarrow> u32 \<Rightarrow> string \<Rightarrow> string \<Rightarrow> hook_ctx \<Rightarrow> esp32_rom_stubs \<Rightarrow> int \<times> esp32_rom_stubs" where
  "rom_stubs_register_ctx m addr fn nm ctx s =
     rom_stubs_register_any m addr (Some fn) None nm ctx True s"

definition rom_stubs_register ::
  "xmem \<Rightarrow> u32 \<Rightarrow> string \<Rightarrow> string \<Rightarrow> esp32_rom_stubs \<Rightarrow> int \<times> esp32_rom_stubs" where
  "rom_stubs_register m addr fn nm s = rom_stubs_register_ctx m addr fn nm No_Ctx s"

definition mark_spy :: "nat \<Rightarrow> esp32_rom_stubs \<Rightarrow> esp32_rom_stubs" where
  "mark_spy i s =
     (let a = re_addr (rs_entries s ! i)
      in s\<lparr>rs_entries := (rs_entries s)[i := (rs_entries s ! i)\<lparr>re_spy := True\<rparr>],
           rs_direct := map_option
             (\<lambda>dt. if de_tag (dt (direct_index a)) = a
                   then dt(direct_index a := (dt (direct_index a))\<lparr>de_spy := True\<rparr>) else dt)
             (rs_direct s)\<rparr>)"

definition rom_stubs_register_spy ::
  "xmem \<Rightarrow> u32 \<Rightarrow> string \<Rightarrow> string \<Rightarrow> hook_ctx \<Rightarrow> esp32_rom_stubs \<Rightarrow> int \<times> esp32_rom_stubs" where
  "rom_stubs_register_spy m addr fn nm ctx s =
     (case rom_stubs_register_ctx m addr fn nm ctx s of
        (rc, s1) \<Rightarrow>
          if rc = 0 then (rc, fold mark_spy [length (rs_entries s) ..< length (rs_entries s1)] s1)
          else (rc, s1))"

text \<open>A conditional function may be NULL in the call, which is refused.\<close>

definition rom_stubs_register_conditional_ctx ::
  "xmem \<Rightarrow> u32 \<Rightarrow> string option \<Rightarrow> string \<Rightarrow> hook_ctx \<Rightarrow> esp32_rom_stubs \<Rightarrow> int \<times> esp32_rom_stubs" where
  "rom_stubs_register_conditional_ctx m addr fn nm ctx s =
     (if fn = None then (-1, s) else rom_stubs_register_any m addr None fn nm ctx True s)"

definition rom_stubs_register_exact_ctx ::
  "xmem \<Rightarrow> u32 \<Rightarrow> string \<Rightarrow> string \<Rightarrow> hook_ctx \<Rightarrow> esp32_rom_stubs \<Rightarrow> int \<times> esp32_rom_stubs" where
  "rom_stubs_register_exact_ctx m addr fn nm ctx s =
     rom_stubs_register_any m addr (Some fn) None nm ctx False s"

definition rom_stubs_register_conditional_exact_ctx ::
  "xmem \<Rightarrow> u32 \<Rightarrow> string option \<Rightarrow> string \<Rightarrow> hook_ctx \<Rightarrow> esp32_rom_stubs \<Rightarrow> int \<times> esp32_rom_stubs" where
  "rom_stubs_register_conditional_exact_ctx m addr fn nm ctx s =
     (if fn = None then (-1, s) else rom_stubs_register_any m addr None fn nm ctx False s)"

definition rom_stubs_register_conditional_exact_if_absent_ctx ::
  "xmem \<Rightarrow> u32 \<Rightarrow> string option \<Rightarrow> string \<Rightarrow> hook_ctx \<Rightarrow> esp32_rom_stubs \<Rightarrow> int \<times> esp32_rom_stubs" where
  "rom_stubs_register_conditional_exact_if_absent_ctx m addr fn nm ctx s =
     (if fn = None then (-1, s)
      else if list_ex (\<lambda>e. re_addr e = addr) (rs_entries s) then (1, s)
      else rom_stubs_register_any m addr None fn nm ctx False s)"

section \<open>Statistics\<close>

definition rom_stubs_stub_count :: "esp32_rom_stubs \<Rightarrow> nat" where
  "rom_stubs_stub_count s = length (rs_entries s)"

definition rom_stubs_get_stats :: "esp32_rom_stubs \<Rightarrow> int \<Rightarrow> (string \<times> u32 \<times> u32) option" where
  "rom_stubs_get_stats s index =
     (if index < 0 \<or> int (length (rs_entries s)) \<le> index then None
      else let e = rs_entries s ! nat index in Some (re_name e, re_addr e, re_call_count e))"

section \<open>Creation\<close>

definition G_TICKS_PER_US_PRO :: u32 where "G_TICKS_PER_US_PRO = 0x3FFE01E0"
definition ROM_PHY_FUNCS :: u32 where "ROM_PHY_FUNCS = 0x50001900"
definition VIRTUAL_PHY_NOOP_FN :: u32 where "VIRTUAL_PHY_NOOP_FN = 0x4006FFF0"

text \<open>The built-in replacements: address, function and name, before and after the PHY table.\<close>

definition boot_hooks :: "(u32 \<times> string \<times> string) list" where
  "boot_hooks =
    [(0x40007CF8, ''stub_ets_write_char_uart'', ''ets_write_char_uart''),
     (0x40007D54, ''stub_ets_printf'', ''ets_printf''),
     (0x40007D18, ''stub_ets_install_putc1'', ''ets_install_putc1''),
     (0x40008534, ''stub_ets_delay_us'', ''ets_delay_us''),
     (0x40009A84, ''stub_cache_read_enable'', ''Cache_Read_Enable''),
     (0x40009AB8, ''stub_cache_read_disable'', ''Cache_Read_Disable''),
     (0x40009A14, ''stub_cache_flush'', ''Cache_Flush''),
     (0x40008658, ''stub_ets_efuse_get_spiconfig'', ''ets_efuse_get_spiconfig''),
     (0x40008588, ''stub_ets_get_detected_xtal_freq'', ''ets_get_detected_xtal_freq''),
     (0x4000824C, ''stub_software_reset'', ''software_reset''),
     (0x4000C2C8, ''stub_memcpy'', ''memcpy''), (0x4000C44C, ''stub_memset'', ''memset''),
     (0x400014C0, ''stub_strlen'', ''strlen''), (0x4000AB7C, ''stub_roundup2'', ''roundup2''),
     (0x4000689C, ''stub_ets_set_appcpu_boot_addr'', ''ets_set_appcpu_boot_addr''),
     (0x400081D4, ''stub_rtc_get_reset_reason'', ''rtc_get_reset_reason''),
     (0x40008550, ''stub_ets_update_cpu_frequency'', ''ets_update_cpu_frequency_rom''),
     (0x4000855C, ''stub_ets_get_cpu_frequency'', ''ets_get_cpu_frequency''),
     (0x40007D28, ''stub_ets_install_uart_printf'', ''ets_install_uart_printf''),
     (0x4000C3C0, ''stub_memmove'', ''memmove''), (0x4000C244, ''stub_memchr'', ''memchr''),
     (0x4000C260, ''stub_memcmp'', ''memcmp''), (0x4000C1F4, ''stub_bzero'', ''bzero''),
     (0x40001274, ''stub_strcmp'', ''strcmp''), (0x4000C5F4, ''stub_strncmp'', ''strncmp''),
     (0x4000C53C, ''stub_strchr'', ''strchr''), (0x40001708, ''stub_strrchr'', ''strrchr''),
     (0x400013AC, ''stub_strcpy'', ''strcpy''), (0x400015D4, ''stub_strncpy'', ''strncpy''),
     (0x4000C584, ''stub_strlcpy'', ''strlcpy''), (0x40001470, ''stub_strlcat'', ''strlcat''),
     (0x4000C558, ''stub_strcspn'', ''strcspn''), (0x4000C648, ''stub_strspn'', ''strspn''),
     (0x40002ED0, ''stub_popcountsi2'', ''__popcountsi2''),
     (0x40002EF8, ''stub_popcountdi2'', ''__popcountdi2''),
     (0x4000C7E8, ''stub_clzsi2'', ''__clzsi2''), (0x4000C7F0, ''stub_ctzsi2'', ''__ctzsi2''),
     (0x4000C804, ''stub_ffssi2'', ''__ffssi2''), (0x4000CFF8, ''stub_udivdi3'', ''__udivdi3''),
     (0x4000D280, ''stub_umoddi3'', ''__umoddi3''), (0x4000CA84, ''stub_divdi3'', ''__divdi3''),
     (0x4000CD4C, ''stub_moddi3'', ''__moddi3''),
     (0x40004100, ''stub_phy_get_romfuncs'', ''phy_get_romfuncs'')]"

definition esp32_rev0_phy_romfuncs :: "u32 list" where
  "esp32_rev0_phy_romfuncs =
    [0x40002F6C, 0x40002F88, 0x40002FA4, 0x40002FCC, 0x40003000, 0x4000302C, 0x40003044,
     0x40003E3C, 0x40003060, 0x400030B8, 0x400030F8, 0x4000312C, 0x400031A4, 0x4000348C,
     0x4000351C, 0x40003564, 0x40003594, 0x400035D0, 0x400036B4, 0x40003F98, 0x4000401C,
     0x40003710, 0x40003734, 0x40003760, 0x400037F0, 0x40003AC8, 0x40003B70, 0x4000404C,
     0x40003BAC, 0x400040B0, 0x40003BDC, 0x40003C2C, 0x40003C78, 0x40003D48, 0x40003D90,
     0x40003DB4, 0x40003DF4, 0x40004110, 0x40004148, 0x40004168, 0x400041A4, 0x400041C0,
     0x400041FC, 0x40004270, 0x40004334, 0x40004374, 0x400043C0, 0x40004414, 0x40004458,
     0x4000446C, 0x40004480, 0x40004508, 0x4000453C, 0x40004590, 0x400045E0, 0x40004638,
     0x40004680, 0x400046E0, 0x40004740, 0x400047A8, 0x400047F8, 0x40004880, 0x40004B44,
     0x40004CA8, 0x40004CEC, 0x40004D18, 0x40004D8C, 0x40004DC0, 0x40004DF8, 0x40004E10,
     0x40004EA4, 0x4000506C, 0x00000000, 0x4000510C, 0x40005154, 0x400051C0, 0x40005204,
     0x40005290, 0x400052DC, 0x4000538C, 0x400054F0, 0x40005514, 0x40005590, 0x400055C8,
     0x40005620, 0x400058E4, 0x40005A00, 0x40005A68, 0x40005B4C, 0x40005BBC, 0x40005CE0,
     0x40005D50, 0x40005DEC, 0x40005F64, 0x40005FC8, 0x40006004, 0x00000000, 0x40006058,
     0x400061CC, 0x40006268, 0x40006290, 0x400062A8, 0x4000642C, 0x40006564, 0x400065D4,
     0x4000662C]"

definition service_hooks :: "(u32 \<times> string \<times> string) list" where
  "service_hooks =
    [(0x40004148, ''stub_rom_i2c_read'', ''rom_i2c_readReg''),
     (0x400041A4, ''stub_rom_i2c_write'', ''rom_i2c_writeReg''),
     (0x400041C0, ''stub_rom_i2c_read_mask'', ''rom_i2c_readReg_Mask''),
     (0x400041FC, ''stub_rom_i2c_write_mask'', ''rom_i2c_writeReg_Mask''),
     (0x40054298, ''stub_bt_rom_rf_phy_funcs_get'', ''btdm_r_import_rf_phy_func_p_get''),
     (0x40019AF0, ''stub_bt_rom_ip_funcs_get'', ''btdm_r_ip_func_p_get''),
     (0x4005427C, ''stub_bt_rom_modules_funcs_get'', ''btdm_r_modules_func_p_get''),
     (0x40054288, ''stub_bt_rom_plf_funcs_set'', ''btdm_r_plf_func_p_set''),
     (0x40010004, ''stub_bt_rom_option_data_get'', ''btdm_r_btdm_option_data_p_get''),
     (0x4002F494, ''stub_bt_rom_lc_default_table_get'', ''lc_default_state_tab_p_get''),
     (0x4002F488, ''stub_bt_rom_lc_hci_table_get'', ''lc_hci_cmd_handler_tab_p_get''),
     (0x40043F64, ''stub_bt_rom_llcp_state_table_get'', ''llcp_pdu_handler_tab_p_get''),
     (0x4004C920, ''stub_bt_rom_llm_hci_table_get'', ''llm_hci_cmd_handler_tab_p_get''),
     (0x40046058, ''stub_bt_rom_llc_default_table_get'', ''llc_default_state_tab_p_get''),
     (0x4005425C, ''stub_bt_rom_lm_hci_table_get'', ''lm_hci_cmd_handler_tab_p_get''),
     (0x40054268, ''stub_bt_rom_lm_default_table_get'', ''lm_default_state_tab_p_get''),
     (0x40042358, ''stub_bt_rom_llc_hci_table_get'', ''llc_hci_cmd_handler_tab_p_get''),
     (0x4004E718, ''stub_bt_rom_llm_default_table_get'', ''llm_default_state_tab_p_get''),
     (0x4001C198, ''stub_bt_rom_lb_default_table_get'', ''lb_default_state_tab_p_get''),
     (0x4001C18C, ''stub_bt_rom_lb_hci_table_get'', ''lb_hci_cmd_handler_tab_p_get''),
     (0x4003617C, ''stub_unregistered'', ''r_ld_acl_sniff''),
     (0x400185BC, ''stub_void_unregistered'', ''r_hci_send_2_host''),
     (0x4001CD54, ''stub_void_unregistered'', ''r_lc_auth_cmp''),
     (0x4001C948, ''stub_void_unregistered'', ''r_lc_init''),
     (0x400542C4, ''stub_void_unregistered'', ''nvds_read''),
     (0x40054358, ''stub_void_unregistered'', ''nvds_init_memory''),
     (0x4000681C, ''stub_intr_matrix_set'', ''intr_matrix_set''),
     (0x40009200, ''stub_void_unregistered'', ''uart_tx_one_char''),
     (0x40009258, ''stub_void_unregistered'', ''uart_tx_flush''),
     (0x40009028, ''stub_void_unregistered'', ''uart_tx_switch''),
     (0x40009EDC, ''stub_gpio_matrix_in'', ''gpio_matrix_in''),
     (0x40009F0C, ''stub_gpio_matrix_out'', ''gpio_matrix_out''),
     (0x40009FDC, ''stub_void_unregistered'', ''gpio_pad_select_gpio''),
     (0x4000A22C, ''stub_void_unregistered'', ''gpio_pad_pullup''),
     (0x400095A4, ''stub_mmu_init'', ''mmu_init''),
     (0x400095E0, ''stub_cache_flash_mmu_set'', ''cache_flash_mmu_set''),
     (0x400097F4, ''stub_cache_sram_mmu_set'', ''cache_sram_mmu_set''),
     (0x4000143C, ''stub_rom_strdup'', ''strdup''),
     (0x40001F44, ''stub_findenv_r'', ''_findenv_r''), (0x40056424, ''stub_qsort'', ''qsort''),
     (0x40056258, ''stub_utoa'', ''utoa''), (0x40056348, ''stub_div'', ''div''),
     (0x400566B4, ''stub_itoa'', ''itoa''), (0x40056678, ''stub_itoa'', ''__itoa''),
     (0x40058EF0, ''stub_ascii_wctomb'', ''__ascii_wctomb''),
     (0x4000C518, ''stub_strcat'', ''strcat''), (0x40001E38, ''stub_sinit'', ''__sinit''),
     (0x40001E90, ''stub_sfp'', ''__sfp''), (0x40001118, ''stub_sread'', ''__sread''),
     (0x40001150, ''stub_swrite'', ''__swrite''), (0x40001184, ''stub_sseek'', ''__sseek''),
     (0x400011B8, ''stub_sclose'', ''__sclose''), (0x40001FEC, ''stub_fclose_r'', ''_fclose_r''),
     (0x400020AC, ''stub_fclose'', ''fclose''),
     (0x40001E08, ''stub_void_unregistered'', ''__sfp_lock_acquire''),
     (0x40001E14, ''stub_void_unregistered'', ''__sfp_lock_release''),
     (0x40001E20, ''stub_void_unregistered'', ''__sinit_lock_acquire''),
     (0x40001E2C, ''stub_void_unregistered'', ''__sinit_lock_release''),
     (0x40001FBC, ''stub_getenv_r'', ''_getenv_r''),
     (0x400591E0, ''stub_sflush_r'', ''__sflush_r''),
     (0x40059320, ''stub_fflush_r'', ''_fflush_r''), (0x40002590, ''stub_adddf3'', ''__adddf3''),
     (0x400026E4, ''stub_subdf3'', ''__subdf3''), (0x4006358C, ''stub_muldf3'', ''__muldf3''),
     (0x40002954, ''stub_divdf3'', ''__divdf3''),
     (0x4000C938, ''stub_floatunsidf'', ''__floatunsidf''),
     (0x4000C944, ''stub_floatsidf'', ''__floatsidf''),
     (0x4000C978, ''stub_floatundidf'', ''__floatundidf''),
     (0x4000C988, ''stub_floatdidf'', ''__floatdidf''),
     (0x4000C8B0, ''stub_floatundisf'', ''__floatundisf''),
     (0x4000C8C0, ''stub_floatdisf'', ''__floatdisf''),
     (0x40002AC4, ''stub_fixdfdi'', ''__fixdfdi''), (0x40002A78, ''stub_fixdfsi'', ''__fixdfsi''),
     (0x40002B30, ''stub_fixunsdfsi'', ''__fixunsdfsi''),
     (0x40002B90, ''stub_truncdfsf2'', ''__truncdfsf2''),
     (0x40002C34, ''stub_extendsfdf2'', ''__extendsfdf2''),
     (0x400636A8, ''stub_cmpdf'', ''__nedf2''), (0x400636DC, ''stub_cmpdf'', ''__gtdf2''),
     (0x40063704, ''stub_cmpdf'', ''__ledf2''), (0x40063768, ''stub_cmpdf'', ''__gedf2''),
     (0x40063790, ''stub_cmpdf'', ''__ltdf2''), (0x400637F4, ''stub_unorddf2'', ''__unorddf2''),
     (0x40064AE0, ''stub_bswapsi2'', ''__bswapsi2''), (0x4000C818, ''stub_ashldi3'', ''__ashldi3''),
     (0x4000C830, ''stub_ashrdi3'', ''__ashrdi3''), (0x4000C84C, ''stub_lshrdi3'', ''__lshrdi3''),
     (0x4005CFEC, ''stub_crc32_le'', ''esp_rom_crc32_le''),
     (0x4005D144, ''stub_crc8'', ''esp_crc8''),
     (0x4005EF30, ''stub_tinfl_decompress'', ''tinfl_decompress''),
     (0x40062BC8, ''stub_unregistered'', ''spi_flash_clk_cfg''),
     (0x40062A6C, ''stub_void_unregistered'', ''esp_rom_spiflash_attach''),
     (0x40008264, ''stub_software_reset'', ''software_reset_cpu''),
     (0x40009B24, ''stub_void_unregistered'', ''gpio_output_set''),
     (0x40009B5C, ''stub_void_unregistered'', ''gpio_output_set_high''),
     (0x40008208, ''stub_void_unregistered'', ''set_rtc_memory_crc''),
     (0x4000BFDC, ''stub_xtos_set_intlevel'', ''_xtos_set_intlevel''),
     (0x400092D0, ''stub_unregistered'', ''uart_rx_one_char''),
     (0x4000C728, ''stub_void_unregistered'', ''__dummy_lock''),
     (0x4000C730, ''stub_unregistered'', ''__dummy_lock_try''),
     (0x4005DA7C, ''stub_md5_init'', ''esp_rom_md5_init''),
     (0x4005DA9C, ''stub_md5_update'', ''esp_rom_md5_update''),
     (0x4005DB1C, ''stub_md5_final'', ''esp_rom_md5_final''),
     (0x40001778, ''stub_void_unregistered'', ''close''), (0x4000178C, ''stub_rom_open'', ''open''),
     (0x400017DC, ''stub_unregistered'', ''read''), (0x4000181C, ''stub_unregistered'', ''write'')]"

definition register_builtin ::
  "xmem \<Rightarrow> u32 \<times> string \<times> string \<Rightarrow> esp32_rom_stubs \<Rightarrow> esp32_rom_stubs" where
  "register_builtin m h s =
     (case h of (addr, fn, nm) \<Rightarrow>
        snd (rom_stubs_register_ctx m addr fn nm
          (if fn = ''stub_rtc_get_reset_reason'' \<or> fn = ''stub_intr_matrix_set'' then Stubs else No_Ctx) s))"

definition init_phy_romfuncs ::
  "'d host \<Rightarrow> esp32_rom_stubs \<times> 'd cpu \<Rightarrow> esp32_rom_stubs \<times> 'd cpu" where
  "init_phy_romfuncs E sc =
     (let sc1 = fold (\<lambda>(i, addr) (s, c).
                  let c1 = mem_write32 E c (ROM_PHY_FUNCS + of_nat i * 4) addr in
                  (if addr \<noteq> 0
                   then snd (rom_stubs_register (mem c1) addr ''stub_unregistered'' ''virtual_phy_romfunc'' s)
                   else s, c1))
                (enumerate 0 esp32_rev0_phy_romfuncs) sc
      in (snd (rom_stubs_register (mem (snd sc1)) VIRTUAL_PHY_NOOP_FN ''stub_unregistered''
                 ''virtual_phy_operation'' (fst sc1)), snd sc1))"

definition no_heap :: stub_heap_region where
  "no_heap = \<lparr>hr_base = 0, hr_end = 0, hr_ptr = 0, hr_free_list = 0\<rparr>"

definition empty_direct :: stub_direct_entry where
  "empty_direct = \<lparr>de_tag = 0, de_fn = None, de_conditional_fn = None, de_ctx = No_Ctx,
     de_counter = 0, de_spy = False\<rparr>"

text \<open>\<open>direct_ok\<close> is whether the direct table could be allocated.\<close>

definition rom_stubs_zero :: "bool \<Rightarrow> esp32_rom_stubs" where
  "rom_stubs_zero direct_ok =
     \<lparr>rs_entries = [], rs_ht = (\<lambda>_. (0, 0)), rs_bitmap = (\<lambda>_. 0),
      rs_direct = (if direct_ok then Some (\<lambda>_. empty_direct) else None),
      rs_real_rom = False, rs_log_fn = False, rs_log = [], rs_unregistered_count = 0,
      rs_total_calls = 0, rs_cpu_freq_mhz = 160, rs_heap = no_heap, rs_internal_heap = no_heap\<rparr>"

definition rom_bitmap_fill :: "(nat \<Rightarrow> u64) \<Rightarrow> nat \<Rightarrow> u64" where
  "rom_bitmap_fill bm =
     fold (\<lambda>i bm. hook_bitmap_set bm (ROM_BASE + of_nat i * 4)) [0 ..< unat (ROM_END - ROM_BASE) div 4] bm"

text \<open>\<open>classic\<close> is the capability of the target. Installing the hook, its bitmap and its membership test
  is the choice of \<open>h_pc_hook\<close> and \<open>h_pc_hook_bitmap\<close> in the host record.\<close>

definition rom_stubs_create ::
  "bool \<Rightarrow> bool \<Rightarrow> 'd host \<Rightarrow> 'd cpu \<Rightarrow> esp32_rom_stubs \<times> 'd cpu" where
  "rom_stubs_create direct_ok classic E c =
     (let s = rom_stubs_zero direct_ok in
      if \<not> classic then (s, c)
      else
        let s1 = s\<lparr>rs_heap := \<lparr>hr_base = 0x3F800000, hr_end = 0x3FC00000, hr_ptr = 0x3F800000,
                                hr_free_list = 0\<rparr>,
                   rs_internal_heap := \<lparr>hr_base = 0x3FFF4000, hr_end = 0x40000000,
                                        hr_ptr = 0x3FFF4000, hr_free_list = 0\<rparr>,
                   rs_bitmap := rom_bitmap_fill (rs_bitmap s)\<rparr>;
            c1 = mem_write32 E c G_TICKS_PER_US_PRO 160;
            s2 = fold (register_builtin (mem c1)) boot_hooks s1;
            (s3, c3) = init_phy_romfuncs E (s2, c1)
        in (fold (register_builtin (mem c3)) service_hooks s3, c3))"

end
