(* ===== verification/Rom_Hooks_Facts.thy ===== *)
theory Rom_Hooks_Facts
  imports Rom_Hooks Sample_States
begin

text \<open>
  The hook table as a map: whatever is registered, in whatever order, the hash table and the direct
  table answer with the latest entry of an address, and the bitmap the processor tests before it
  calls the hook never hides one.
\<close>

section \<open>The latest entry of an address\<close>

definition latest :: "rom_stub_entry list \<Rightarrow> u32 \<Rightarrow> nat option" where
  "latest es a = List.find (\<lambda>i. re_addr (es ! i) = a) (rev [0 ..< length es])"

lemma latest_Nil [simp]: "latest [] a = None"
  by (simp add: latest_def)

lemma find_cong': "(\<And>x. x \<in> set xs \<Longrightarrow> P x = Q x) \<Longrightarrow> List.find P xs = List.find Q xs"
  by (induction xs) auto

lemma latest_append:
  "latest (es @ [e]) a = (if re_addr e = a then Some (length es) else latest es a)"
  unfolding latest_def by (auto simp: nth_append intro!: find_cong')

lemma latest_Some:
  assumes "latest es a = Some i"
  shows "i < length es" "re_addr (es ! i) = a"
  using assms unfolding latest_def find_Some_iff by (auto simp: rev_nth)

lemma latest_None: "latest es a = None \<longleftrightarrow> a \<notin> re_addr ` set es"
  unfolding latest_def find_None_iff by (auto simp: in_set_conv_nth) (meson image_eqI nth_mem)

lemma latest_update: "re_addr e = re_addr (es ! i) \<Longrightarrow> latest (es[i := e]) a = latest es a"
  unfolding latest_def length_list_update by (rule find_cong') (cases "i < length es"; auto simp: nth_list_update)

section \<open>Probing\<close>

lemma hook_slot_less: "hook_slot a d < 2048"
  by (simp add: hook_slot_def HOOK_HT_SIZE_def)

lemma hook_slot_inj: "hook_slot a d = hook_slot a e \<Longrightarrow> d < 2048 \<Longrightarrow> e < 2048 \<Longrightarrow> d = e"
proof (induction d e rule: linorder_wlog)
  case (le d e)
  then have "(unat (hook_hash a) + e) mod 2048 = (unat (hook_hash a) + d) mod 2048"
    by (simp add: hook_slot_def HOOK_HT_SIZE_def)
  then have "2048 dvd (unat (hook_hash a) + e) - (unat (hook_hash a) + d)"
    using le(1) by (subst (asm) mod_eq_dvd_iff_nat) simp_all
  then have "2048 dvd e - d" by simp
  then show ?case using le by (auto dest: dvd_imp_le)
qed simp

lemma hook_slot_surj: "slot < 2048 \<Longrightarrow> \<exists>d < 2048. hook_slot a d = slot"
proof -
  assume s: "slot < 2048"
  have "inj_on (hook_slot a) {..< 2048}" by (rule inj_onI) (auto dest: hook_slot_inj)
  moreover have "hook_slot a ` {..< 2048} \<subseteq> {..< 2048}" using hook_slot_less by auto
  ultimately have "hook_slot a ` {..< 2048} = {..< 2048}" by (simp add: endo_inj_surj)
  then show ?thesis using s by (metis imageE lessThan_iff)
qed

lemma before_Suc:
  "(\<forall>k. d \<le> k \<and> k < e \<longrightarrow> P k) \<longleftrightarrow> (d < e \<longrightarrow> P d) \<and> (\<forall>k. Suc d \<le> k \<and> k < e \<longrightarrow> P k)"
  by (metis Suc_le_eq le_neq_implies_less less_or_eq_imp_le)

lemma ht_probe_Some:
  "ht_probe ht a d n = Some i \<longleftrightarrow>
     (\<exists>e. d \<le> e \<and> e < d + n \<and> fst (ht (hook_slot a e)) = a \<and> snd (ht (hook_slot a e)) = i \<and>
          (\<forall>k. d \<le> k \<and> k < e \<longrightarrow> fst (ht (hook_slot a k)) \<notin> {0, a}))"
  (is "?L d n \<longleftrightarrow> (\<exists>e. ?R d n e)")
proof (induction n arbitrary: d)
  case (Suc n)
  let ?a = "fst (ht (hook_slot a d))"
  consider "?a = a" | "?a \<noteq> a" "?a = 0" | "?a \<noteq> a" "?a \<noteq> 0" by blast
  then show ?case
  proof cases
    case 1
    then have "?R d (Suc n) e \<Longrightarrow> e = d" for e by (metis insertI1 insertI2 le_neq_implies_less order_refl)
    then show ?thesis using 1 by (auto simp: Let_def intro!: exI [of _ d])
  next
    case 2
    have "\<not> ?R d (Suc n) e" for e
      using 2 by (cases "e = d") (auto intro!: exI [of _ d])
    then show ?thesis using 2 by (simp add: Let_def)
  next
    case 3
    have "?R d (Suc n) e \<longleftrightarrow> ?R (Suc d) n e" for e
      using 3 before_Suc [of d e "\<lambda>k. fst (ht (hook_slot a k)) \<notin> {0, a}"]
      by (cases "e = d") (auto simp: Suc_le_eq)
    then show ?thesis using 3 Suc.IH [of "Suc d"] by (simp add: Let_def)
  qed
qed simp

lemma ht_free_Some:
  assumes "ht_free ht a d n = Some slot"
  shows "\<exists>e. d \<le> e \<and> e < d + n \<and> slot = hook_slot a e \<and> fst (ht slot) \<in> {0, a} \<and>
           (\<forall>k. d \<le> k \<and> k < e \<longrightarrow> fst (ht (hook_slot a k)) \<notin> {0, a})"
  using assms
proof (induction n arbitrary: d)
  case (Suc n)
  show ?case
  proof (cases "fst (ht (hook_slot a d)) \<in> {0, a}")
    case True
    then show ?thesis using Suc.prems by (intro exI [of _ d]) (auto simp: Let_def)
  next
    case False
    then have "ht_free ht a (Suc d) n = Some slot" using Suc.prems by (auto simp: Let_def)
    from Suc.IH [OF this] obtain e where e: "Suc d \<le> e" "e < Suc d + n" "slot = hook_slot a e"
      "fst (ht slot) \<in> {0, a}" "\<forall>k. Suc d \<le> k \<and> k < e \<longrightarrow> fst (ht (hook_slot a k)) \<notin> {0, a}" by blast
    have "\<forall>k. d \<le> k \<and> k < e \<longrightarrow> fst (ht (hook_slot a k)) \<notin> {0, a}"
      using e(5) False by (metis le_neq_implies_less Suc_le_eq)
    then show ?thesis using e by (intro exI [of _ e]) auto
  qed
qed simp

lemma ht_free_None:
  "ht_free ht a d n = None \<Longrightarrow> d \<le> k \<Longrightarrow> k < d + n \<Longrightarrow> fst (ht (hook_slot a k)) \<noteq> 0"
proof (induction n arbitrary: d)
  case (Suc n)
  then have n: "fst (ht (hook_slot a d)) \<noteq> 0" "ht_free ht a (Suc d) n = None"
    by (auto simp: Let_def split: if_splits)
  show ?case
  proof (cases "k = d")
    case False
    then show ?thesis using Suc.IH [OF n(2)] Suc.prems by simp
  qed (use n in simp)
qed simp

section \<open>A well-formed table\<close>

text \<open>Every address sits at the end of an unbroken run of probes.\<close>

definition ht_ok :: "(nat \<Rightarrow> u32 \<times> nat) \<Rightarrow> bool" where
  "ht_ok ht \<longleftrightarrow>
     (\<forall>slot < 2048. fst (ht slot) \<noteq> 0 \<longrightarrow>
        (\<exists>d < 2048. slot = hook_slot (fst (ht slot)) d \<and>
           (\<forall>k < d. fst (ht (hook_slot (fst (ht slot)) k)) \<notin> {0, fst (ht slot)})))"

definition occupied :: "(nat \<Rightarrow> u32 \<times> nat) \<Rightarrow> nat set" where
  "occupied ht = {slot. slot < 2048 \<and> fst (ht slot) \<noteq> 0}"

lemma ht_okD:
  assumes "ht_ok ht" "slot < 2048" "fst (ht slot) = a" "a \<noteq> 0"
  obtains d where "d < 2048" "slot = hook_slot a d" "\<And>k. k < d \<Longrightarrow> fst (ht (hook_slot a k)) \<notin> {0, a}"
  using assms unfolding ht_ok_def by blast

lemma ht_free_exists:
  assumes "card (occupied ht) < 2048"
  shows "\<exists>slot. ht_free ht a 0 HOOK_HT_SIZE = Some slot"
proof (rule ccontr)
  assume "\<not> ?thesis"
  then have n: "ht_free ht a 0 2048 = None" by (simp add: HOOK_HT_SIZE_def)
  have "{..< 2048} \<subseteq> occupied ht"
  proof
    fix slot :: nat assume "slot \<in> {..< 2048}"
    then obtain d where "d < 2048" "hook_slot a d = slot" "slot < 2048" using hook_slot_surj by auto
    then show "slot \<in> occupied ht" using ht_free_None [OF n, of d] by (auto simp: occupied_def)
  qed
  moreover have "finite (occupied ht)" by (simp add: occupied_def)
  ultimately have "card {..< 2048 :: nat} \<le> card (occupied ht)" by (rule card_mono [rotated])
  then show False using assms by simp
qed

text \<open>An insertion, by the slot it takes.\<close>

lemma insert_slot:
  assumes "ht_ok ht" "a \<noteq> 0" "ht_free ht a 0 HOOK_HT_SIZE = Some p"
  shows "p < 2048" "ht_ok (ht(p := (a, i)))"
    "\<And>slot. slot < 2048 \<Longrightarrow> fst (ht slot) = a \<Longrightarrow> slot = p" "fst (ht p) \<in> {0, a}"
proof -
  obtain e where e: "e < 2048" "p = hook_slot a e" "fst (ht p) \<in> {0, a}"
    "\<And>k. k < e \<Longrightarrow> fst (ht (hook_slot a k)) \<notin> {0, a}"
    using ht_free_Some [OF assms(3)] by (auto simp: HOOK_HT_SIZE_def)
  show "p < 2048" using e(2) hook_slot_less by simp
  show "fst (ht p) \<in> {0, a}" by (rule e(3))
  show only: "slot = p" if "slot < 2048" "fst (ht slot) = a" for slot
  proof -
    from ht_okD [OF assms(1) that assms(2)]
    obtain d where d: "d < 2048" "slot = hook_slot a d" "\<And>k. k < d \<Longrightarrow> fst (ht (hook_slot a k)) \<notin> {0, a}"
      by blast
    have "\<not> e < d" using d(3) [of e] e(2,3) by auto
    moreover have "\<not> d < e" using e(4) [of d] d(2) that(2) by auto
    ultimately show ?thesis using d(2) e(2) by simp
  qed
  show "ht_ok (ht(p := (a, i)))"
    unfolding ht_ok_def
  proof (intro allI impI)
    fix slot assume s: "slot < 2048" "fst ((ht(p := (a, i))) slot) \<noteq> 0"
    show "\<exists>d < 2048. slot = hook_slot (fst ((ht(p := (a, i))) slot)) d \<and>
        (\<forall>k < d. fst ((ht(p := (a, i))) (hook_slot (fst ((ht(p := (a, i))) slot)) k))
           \<notin> {0, fst ((ht(p := (a, i))) slot)})"
    proof (cases "slot = p")
      case True
      have "fst ((ht(p := (a, i))) (hook_slot a k)) \<notin> {0, a}" if "k < e" for k
        using e(4) [OF that] e(3) by auto
      then show ?thesis using True e(1,2) by (intro exI [of _ e]) simp
    next
      case False
      let ?b = "fst (ht slot)"
      have b: "?b \<noteq> 0" "?b \<noteq> a" using s False only by auto
      from ht_okD [OF assms(1) s(1) refl b(1)]
      obtain d where d: "d < 2048" "slot = hook_slot ?b d" "\<And>k. k < d \<Longrightarrow> fst (ht (hook_slot ?b k)) \<notin> {0, ?b}"
        by blast
      have "fst ((ht(p := (a, i))) (hook_slot ?b k)) \<notin> {0, ?b}" if "k < d" for k
        using d(3) [OF that] b assms(2) by auto
      moreover have "fst ((ht(p := (a, i))) slot) = ?b" using False by simp
      ultimately show ?thesis using d(1,2) by (simp only:) blast
    qed
  qed
qed

lemma insert_card:
  assumes "p < 2048"
  shows "card (occupied (ht(p := (a, i)))) \<le> Suc (card (occupied ht))"
proof -
  have "occupied (ht(p := (a, i))) \<subseteq> insert p (occupied ht)" using assms by (auto simp: occupied_def split: if_splits)
  moreover have "finite (insert p (occupied ht))" by (simp add: occupied_def)
  ultimately have "card (occupied (ht(p := (a, i)))) \<le> card (insert p (occupied ht))" by (rule card_mono [rotated])
  also have "\<dots> \<le> Suc (card (occupied ht))" by (rule card_insert_le_m1) simp_all
  finally show ?thesis .
qed

section \<open>Well-formed stubs\<close>

definition entry_ok :: "rom_stub_entry \<Rightarrow> bool" where
  "entry_ok e \<longleftrightarrow> re_fn e \<noteq> None \<or> re_conditional_fn e \<noteq> None"

text \<open>What a slot of the direct table owes to the entries.\<close>

definition direct_ok :: "rom_stub_entry list \<Rightarrow> nat \<Rightarrow> stub_direct_entry \<Rightarrow> bool" where
  "direct_ok es k de \<longleftrightarrow>
     de_fn de = None \<and> de_conditional_fn de = None \<or>
     k = direct_index (de_tag de) \<and> latest es (de_tag de) = Some (de_counter de) \<and>
     de = direct_of (es ! de_counter de) (de_tag de) (de_counter de)"

definition hooks_wf :: "esp32_rom_stubs \<Rightarrow> bool" where
  "hooks_wf s \<longleftrightarrow>
     length (rs_entries s) \<le> MAX_ROM_STUBS \<and> list_all entry_ok (rs_entries s) \<and>
     ht_ok (rs_ht s) \<and> card (occupied (rs_ht s)) \<le> length (rs_entries s) \<and>
     (\<forall>slot < 2048. fst (rs_ht s slot) \<noteq> 0 \<longrightarrow>
        latest (rs_entries s) (fst (rs_ht s slot)) = Some (snd (rs_ht s slot))) \<and>
     (\<forall>e \<in> set (rs_entries s). re_addr e \<noteq> 0 \<longrightarrow> (\<exists>slot < 2048. fst (rs_ht s slot) = re_addr e)) \<and>
     (\<forall>dt k. rs_direct s = Some dt \<longrightarrow> direct_ok (rs_entries s) k (dt k)) \<and>
     (\<forall>e \<in> set (rs_entries s). hook_bitmap_test (rs_bitmap s) (re_addr e))"

lemma hooks_wfD:
  assumes "hooks_wf s"
  shows "length (rs_entries s) \<le> MAX_ROM_STUBS" "list_all entry_ok (rs_entries s)" "ht_ok (rs_ht s)"
    "card (occupied (rs_ht s)) \<le> length (rs_entries s)"
    "\<And>slot. slot < 2048 \<Longrightarrow> fst (rs_ht s slot) \<noteq> 0 \<Longrightarrow>
        latest (rs_entries s) (fst (rs_ht s slot)) = Some (snd (rs_ht s slot))"
    "\<And>e. e \<in> set (rs_entries s) \<Longrightarrow> re_addr e \<noteq> 0 \<Longrightarrow> \<exists>slot < 2048. fst (rs_ht s slot) = re_addr e"
    "\<And>dt k. rs_direct s = Some dt \<Longrightarrow> direct_ok (rs_entries s) k (dt k)"
    "\<And>e. e \<in> set (rs_entries s) \<Longrightarrow> hook_bitmap_test (rs_bitmap s) (re_addr e)"
  using assms by (simp_all add: hooks_wf_def)

text \<open>The bitmap only grows.\<close>

lemma bitmap_set_test:
  "hook_bitmap_test (hook_bitmap_set bm b) a \<longleftrightarrow> bitmap_index a = bitmap_index b \<or> hook_bitmap_test bm a"
proof -
  have "bitmap_index a = bitmap_index b \<longleftrightarrow>
      bitmap_index a div 64 = bitmap_index b div 64 \<and> bitmap_index a mod 64 = bitmap_index b mod 64"
    by (metis div_mult_mod_eq)
  moreover have "bitmap_index a mod 64 < 64" by simp
  ultimately show ?thesis
    by (auto simp: hook_bitmap_test_def hook_bitmap_set_def Let_def bit_simps simp flip: bitmap_index_def)
qed

lemma occupied_less: "hooks_wf s \<Longrightarrow> card (occupied (rs_ht s)) < 2048"
  using hooks_wfD(1,4) [of s] by (simp add: MAX_ROM_STUBS_def)

lemma direct_ok_append:
  assumes "direct_ok es k de" "re_addr e \<noteq> de_tag de"
  shows "direct_ok (es @ [e]) k de"
  using assms latest_Some [of es "de_tag de" "de_counter de"]
  by (auto simp: direct_ok_def latest_append nth_append)

text \<open>Appending an entry and inserting it in the tables.\<close>

lemma append_entry_wf:
  assumes wf: "hooks_wf s" and room: "length (rs_entries s) < MAX_ROM_STUBS"
    and fns: "fn \<noteq> None \<or> cfn \<noteq> None"
  shows "hooks_wf (append_entry a fn cfn nm ctx s)"
proof -
  let ?es = "rs_entries s"
  let ?e = "\<lparr>re_addr = a, re_fn = fn, re_conditional_fn = cfn, re_name = nm, re_call_count = 0,
    re_ctx = ctx, re_spy = False\<rparr>"
  let ?n = "length ?es"
  obtain p where p: "ht_free (rs_ht s) a 0 HOOK_HT_SIZE = Some p"
    using ht_free_exists [OF occupied_less [OF wf]] by blast
  define s' where "s' = append_entry a fn cfn nm ctx s"
  have s': "rs_entries s' = ?es @ [?e]" "rs_ht s' = (rs_ht s)(p := (a, ?n))"
    "rs_bitmap s' = hook_bitmap_set (rs_bitmap s) a"
    "rs_direct s' = map_option (\<lambda>dt. dt(direct_index a := direct_of ?e a ?n)) (rs_direct s)"
    by (simp_all add: s'_def append_entry_def hook_ht_insert_def Let_def p)
  have p_less: "p < 2048" and p_addr: "fst (rs_ht s p) \<in> {0, a}"
    using ht_free_Some [OF p] hook_slot_less by auto
  have ht: "ht_ok (rs_ht s')"
  proof (cases "a = 0")
    case True
    then have "fst (rs_ht s' slot) = fst (rs_ht s slot)" for slot using p_addr by (simp add: s'(2))
    then show ?thesis using hooks_wfD(3) [OF wf] by (simp add: ht_ok_def)
  next
    case False
    then show ?thesis using insert_slot(2) [OF hooks_wfD(3) [OF wf] False p] by (simp add: s'(2))
  qed
  have only: "slot = p" if "a \<noteq> 0" "slot < 2048" "fst (rs_ht s slot) = a" for slot
    using insert_slot(3) [OF hooks_wfD(3) [OF wf] that(1) p that(2,3)] .
  have card: "card (occupied (rs_ht s')) \<le> length (rs_entries s')"
    using insert_card [OF p_less, of "rs_ht s" a ?n] hooks_wfD(4) [OF wf] by (simp add: s'(1,2))
  have slots: "latest (rs_entries s') (fst (rs_ht s' slot)) = Some (snd (rs_ht s' slot))"
    if "slot < 2048" "fst (rs_ht s' slot) \<noteq> 0" for slot
  proof (cases "slot = p")
    case True
    then show ?thesis by (simp add: s'(1,2) latest_append)
  next
    case False
    then have h: "rs_ht s' slot = rs_ht s slot" by (simp add: s'(2))
    then have "fst (rs_ht s slot) \<noteq> a" using only [OF _ that(1)] that(2) False by auto
    then show ?thesis using hooks_wfD(5) [OF wf that(1)] that(2) h by (simp add: s'(1) latest_append)
  qed
  have stored: "\<exists>slot < 2048. fst (rs_ht s' slot) = re_addr e"
    if e: "e \<in> set (rs_entries s')" "re_addr e \<noteq> 0" for e
  proof (cases "re_addr e = a")
    case True
    then show ?thesis using p_less by (intro exI [of _ p]) (simp add: s'(2))
  next
    case False
    then have "e \<in> set ?es" using e(1) by (auto simp: s'(1))
    then obtain slot where slot: "slot < 2048" "fst (rs_ht s slot) = re_addr e"
      using hooks_wfD(6) [OF wf _ e(2)] by blast
    then have "slot \<noteq> p" using p_addr e(2) False by auto
    then show ?thesis using slot by (intro exI [of _ slot]) (simp add: s'(2))
  qed
  have direct: "direct_ok (rs_entries s') k (dt k)" if "rs_direct s' = Some dt" for dt k
  proof -
    obtain dt0 where dt0: "rs_direct s = Some dt0" "dt = dt0(direct_index a := direct_of ?e a ?n)"
      using \<open>rs_direct s' = Some dt\<close> by (auto simp: s'(4))
    show ?thesis
    proof (cases "k = direct_index a")
      case True
      then show ?thesis by (simp add: dt0(2) s'(1) direct_ok_def direct_of_def latest_append)
    next
      case False
      have ok: "direct_ok ?es k (dt0 k)" by (rule hooks_wfD(7) [OF wf dt0(1)])
      show ?thesis
      proof (cases "de_tag (dt0 k) = a")
        case True
        then show ?thesis using ok \<open>k \<noteq> direct_index a\<close> by (auto simp: dt0(2) direct_ok_def)
      next
        case False
        then show ?thesis using direct_ok_append [OF ok, of ?e] \<open>k \<noteq> direct_index a\<close> by (simp add: dt0(2) s'(1))
      qed
    qed
  qed
  show ?thesis
    using wf room fns ht card slots stored direct
    unfolding hooks_wf_def s'_def [symmetric]
    by (auto simp: s'(1,3) bitmap_set_test entry_ok_def)
qed

text \<open>Changing what the tables do not depend on.\<close>

lemma update_entry_wf:
  assumes wf: "hooks_wf s" and i: "i < length (rs_entries s)"
    and e: "re_addr e = re_addr (rs_entries s ! i)" "entry_ok e"
    and s': "rs_entries s' = (rs_entries s)[i := e]" "rs_ht s' = rs_ht s" "rs_bitmap s' = rs_bitmap s"
    and direct: "\<And>dt k. rs_direct s' = Some dt \<Longrightarrow> direct_ok ((rs_entries s)[i := e]) k (dt k)"
  shows "hooks_wf s'"
proof -
  have addrs: "re_addr ` set ((rs_entries s)[i := e]) = re_addr ` set (rs_entries s)"
  proof -
    have "map re_addr ((rs_entries s)[i := e]) = map re_addr (rs_entries s)"
      using e(1) i by (simp add: map_update list_update_same_conv)
    then show ?thesis by (metis set_map)
  qed
  have bits: "hook_bitmap_test (rs_bitmap s) (re_addr x)" if "x \<in> set ((rs_entries s)[i := e])" for x
  proof -
    have "re_addr x \<in> re_addr ` set (rs_entries s)" using that addrs by blast
    then show ?thesis using hooks_wfD(8) [OF wf] by auto
  qed
  have stored: "\<exists>slot < 2048. fst (rs_ht s slot) = re_addr x"
    if "x \<in> set ((rs_entries s)[i := e])" "re_addr x \<noteq> 0" for x
  proof -
    have "re_addr x \<in> re_addr ` set (rs_entries s)" using that(1) addrs by blast
    then obtain y where "y \<in> set (rs_entries s)" "re_addr y = re_addr x" by auto
    then show ?thesis using hooks_wfD(6) [OF wf, of y] that(2) by simp
  qed
  have ok: "list_all entry_ok ((rs_entries s)[i := e])"
    using hooks_wfD(2) [OF wf] e(2) by (auto simp: list_all_iff dest: set_update_subset_insert [THEN subsetD])
  show ?thesis
    using hooks_wfD(1,3,4,5) [OF wf] bits stored ok direct
    unfolding hooks_wf_def s' by (simp add: latest_update [OF e(1)])
qed

lemma bump_entry_wf:
  assumes wf: "hooks_wf s" and i: "i < length (rs_entries s)"
  shows "hooks_wf (bump_entry i s)"
proof (rule update_entry_wf [OF wf i])
  let ?e = "(rs_entries s ! i)\<lparr>re_call_count := re_call_count (rs_entries s ! i) + 1\<rparr>"
  show "re_addr ?e = re_addr (rs_entries s ! i)" by simp
  show "entry_ok ?e" using hooks_wfD(2) [OF wf] i by (simp add: entry_ok_def list_all_length)
  show "direct_ok ((rs_entries s)[i := ?e]) k (dt k)" if "rs_direct (bump_entry i s) = Some dt" for dt k
  proof -
    have "direct_of ((rs_entries s)[i := ?e] ! n) a n = direct_of (rs_entries s ! n) a n" for a n
      using i by (cases "n = i") (simp_all add: direct_of_def)
    moreover have "latest ((rs_entries s)[i := ?e]) a = latest (rs_entries s) a" for a
      by (rule latest_update) simp
    moreover have "direct_ok (rs_entries s) k (dt k)"
      using that by (intro hooks_wfD(7) [OF wf]) (simp add: bump_entry_def)
    ultimately show ?thesis by (simp add: direct_ok_def)
  qed
qed (simp_all add: bump_entry_def)

lemma mark_spy_wf:
  assumes wf: "hooks_wf s" and i: "i < length (rs_entries s)"
    and top: "latest (rs_entries s) (re_addr (rs_entries s ! i)) = Some i"
  shows "hooks_wf (mark_spy i s)"
proof (rule update_entry_wf [OF wf i])
  let ?a = "re_addr (rs_entries s ! i)"
  let ?e = "(rs_entries s ! i)\<lparr>re_spy := True\<rparr>"
  show "re_addr ?e = ?a" by simp
  show "entry_ok ?e" using hooks_wfD(2) [OF wf] i by (simp add: entry_ok_def list_all_length)
  have upd: "latest ((rs_entries s)[i := ?e]) a = latest (rs_entries s) a" for a by (rule latest_update) simp
  show "direct_ok ((rs_entries s)[i := ?e]) k (dt k)" if d: "rs_direct (mark_spy i s) = Some dt" for dt k
  proof -
    obtain dt0 where "rs_direct s = Some dt0" using d by (auto simp: mark_spy_def Let_def)
    then have dt0: "rs_direct s = Some dt0" "dt = (if de_tag (dt0 (direct_index ?a)) = ?a
        then dt0(direct_index ?a := (dt0 (direct_index ?a))\<lparr>de_spy := True\<rparr>) else dt0)"
      using d by (simp_all add: mark_spy_def Let_def)
    have ok: "direct_ok (rs_entries s) k (dt0 k)" by (rule hooks_wfD(7) [OF wf dt0(1)])
    show ?thesis
    proof (cases "de_tag (dt0 k) = ?a")
      case True
      show ?thesis
      proof (cases "k = direct_index ?a")
        case T: True
        have k: "dt k = (dt0 k)\<lparr>de_spy := True\<rparr>" using True T by (simp add: dt0(2))
        show ?thesis using ok True top i T unfolding k direct_ok_def upd by (auto simp: direct_of_def)
      next
        case False
        then show ?thesis using ok True by (auto simp: dt0(2) direct_ok_def)
      qed
    next
      case False
      then have k: "dt k = dt0 k" by (auto simp: dt0(2))
      have "de_counter (dt0 k) \<noteq> i" if "latest (rs_entries s) (de_tag (dt0 k)) = Some (de_counter (dt0 k))"
        using latest_Some [OF that] False by auto
      then show ?thesis using ok unfolding k direct_ok_def upd by (auto simp: nth_list_update)
    qed
  qed
qed (simp_all add: mark_spy_def Let_def)

lemma mark_spies_wf:
  assumes "hooks_wf s" "distinct is"
    and "\<forall>i \<in> set is. i < length (rs_entries s) \<and> latest (rs_entries s) (re_addr (rs_entries s ! i)) = Some i"
  shows "hooks_wf (fold mark_spy is s)"
  using assms
proof (induction "is" arbitrary: s)
  case (Cons i js)
  have es: "rs_entries (mark_spy i s) = (rs_entries s)[i := (rs_entries s ! i)\<lparr>re_spy := True\<rparr>]"
    by (simp add: mark_spy_def Let_def)
  have "hooks_wf (mark_spy i s)" using Cons.prems by (intro mark_spy_wf) auto
  then show ?case using Cons.prems by (auto simp: es latest_update nth_list_update intro!: Cons.IH)
qed simp

lemma register_any_wf:
  assumes "hooks_wf s" "fn \<noteq> None \<or> cfn \<noteq> None"
  shows "hooks_wf (snd (rom_stubs_register_any m a fn cfn nm ctx scan s))"
  using assms(1) append_entry_wf [OF assms(1) _ assms(2)] append_entry_wf [OF append_entry_wf [OF assms(1) _ assms(2)] _ assms(2)]
  by (auto simp: rom_stubs_register_any_def Let_def not_le split: option.split)

lemma append_entries [simp]:
  "rs_entries (append_entry a fn cfn nm ctx s) = rs_entries s @
     [\<lparr>re_addr = a, re_fn = fn, re_conditional_fn = cfn, re_name = nm, re_call_count = 0, re_ctx = ctx, re_spy = False\<rparr>]"
  by (simp add: append_entry_def hook_ht_insert_def Let_def split: option.split)

lemma small_offset: "1 \<le> off \<Longrightarrow> off < 9 \<Longrightarrow> a - of_nat off \<noteq> (a :: u32)"
proof
  assume o: "1 \<le> off" "off < 9" "a - of_nat off = a"
  then have "(of_nat off :: u32) = 0" by (simp add: diff_eq_eq)
  moreover have "unat (of_nat off :: u32) = off" using o(1,2) by (simp add: unat_of_nat)
  ultimately show False using o(1) by simp
qed

lemma register_any_entries:
  "\<exists>es. rs_entries (snd (rom_stubs_register_any m a fn cfn nm ctx scan s)) = rs_entries s @ es \<and>
     (es = [] \<or> (\<exists>e. es = [e] \<and> re_addr e = a) \<or> (\<exists>e e'. es = [e, e'] \<and> re_addr e = a \<and> re_addr e' \<noteq> a))"
proof (cases "List.find (\<lambda>off. is_entry_at m (a - of_nat off)) [1 ..< 9]")
  case None
  then show ?thesis by (simp add: rom_stubs_register_any_def Let_def)
next
  case (Some off)
  then have "1 \<le> off" "off < 9" by (auto simp: find_Some_iff dest!: nth_mem)
  then have "a - of_nat off \<noteq> a" by (rule small_offset)
  then show ?thesis using Some by (simp add: rom_stubs_register_any_def Let_def)
qed

lemma register_spy_wf:
  assumes "hooks_wf s"
  shows "hooks_wf (snd (rom_stubs_register_spy m a fn nm ctx s))"
proof -
  define s1 where "s1 = snd (rom_stubs_register_ctx m a fn nm ctx s)"
  have wf: "hooks_wf s1"
    using register_any_wf [OF assms, of "Some fn" None] by (simp add: s1_def rom_stubs_register_ctx_def)
  have "hooks_wf (fold mark_spy [length (rs_entries s) ..< length (rs_entries s1)] s1)"
  proof (rule mark_spies_wf [OF wf distinct_upt], intro ballI conjI)
    fix i assume i: "i \<in> set [length (rs_entries s) ..< length (rs_entries s1)]"
    then show "i < length (rs_entries s1)" by simp
    obtain es where es: "rs_entries s1 = rs_entries s @ es"
      "es = [] \<or> (\<exists>e. es = [e] \<and> re_addr e = a) \<or> (\<exists>e e'. es = [e, e'] \<and> re_addr e = a \<and> re_addr e' \<noteq> a)"
      using register_any_entries unfolding s1_def rom_stubs_register_ctx_def by blast
    have "latest (rs_entries s @ [e]) (re_addr e) = Some (length (rs_entries s))" for e by (simp add: latest_append)
    moreover have "latest (rs_entries s @ [e, e']) (re_addr e) = Some (length (rs_entries s))"
      "latest (rs_entries s @ [e, e']) (re_addr e') = Some (Suc (length (rs_entries s)))"
      if "re_addr e \<noteq> re_addr e'" for e e'
      using that latest_append [of "rs_entries s @ [e]" e'] by (simp_all add: latest_append)
    ultimately show "latest (rs_entries s1) (re_addr (rs_entries s1 ! i)) = Some i"
      using i es by (auto simp: nth_append less_Suc_eq)
  qed
  then show ?thesis using wf by (auto simp: rom_stubs_register_spy_def s1_def split: prod.splits)
qed

section \<open>Reachable stubs\<close>

text \<open>What happens to the table between its creation and a dispatch: registrations of every kind,
  dispatches, which count their calls, the choice of the ROM image and of a log callback, and what
  replacements and the fallback change besides the table: the log, the count of unregistered calls
  and the heaps.\<close>

inductive rom_reach :: "esp32_rom_stubs \<Rightarrow> esp32_rom_stubs \<Rightarrow> bool" for s0 :: esp32_rom_stubs where
  start: "rom_reach s0 s0"
| reg: "rom_reach s0 s \<Longrightarrow> rom_reach s0 (snd (rom_stubs_register_ctx m a fn nm ctx s))"
| spy: "rom_reach s0 s \<Longrightarrow> rom_reach s0 (snd (rom_stubs_register_spy m a fn nm ctx s))"
| cond: "rom_reach s0 s \<Longrightarrow>
    rom_reach s0 (snd (rom_stubs_register_conditional_ctx m a cfn nm ctx s))"
| exact: "rom_reach s0 s \<Longrightarrow> rom_reach s0 (snd (rom_stubs_register_exact_ctx m a fn nm ctx s))"
| cond_exact: "rom_reach s0 s \<Longrightarrow>
    rom_reach s0 (snd (rom_stubs_register_conditional_exact_ctx m a cfn nm ctx s))"
| absent: "rom_reach s0 s \<Longrightarrow>
    rom_reach s0 (snd (rom_stubs_register_conditional_exact_if_absent_ctx m a cfn nm ctx s))"
| counted: "rom_reach s0 s \<Longrightarrow> i < length (rs_entries s) \<Longrightarrow> rom_reach s0 (bump_entry i s)"
| image: "rom_reach s0 s \<Longrightarrow> rom_reach s0 (rom_stubs_set_real_rom b s)"
| log: "rom_reach s0 s \<Longrightarrow> rom_reach s0 (rom_stubs_set_log_callback b s)"
| rest: "rom_reach s0 s \<Longrightarrow>
    rom_reach s0 (s\<lparr>rs_log := l, rs_unregistered_count := n, rs_heap := h, rs_internal_heap := h'\<rparr>)"

lemma hooks_wf_cong:
  "rs_entries s' = rs_entries s \<Longrightarrow> rs_ht s' = rs_ht s \<Longrightarrow> rs_bitmap s' = rs_bitmap s \<Longrightarrow>
   rs_direct s' = rs_direct s \<Longrightarrow> hooks_wf s' = hooks_wf s"
  by (simp add: hooks_wf_def)

text \<open>Once its bits are set, the ROM range stays in the bitmap.\<close>

definition rom_bits :: "esp32_rom_stubs \<Rightarrow> bool" where
  "rom_bits s \<longleftrightarrow> (\<forall>a. ROM_BASE \<le> a \<and> a < ROM_END \<longrightarrow> hook_bitmap_test (rs_bitmap s) a)"

lemma rom_bits_append: "rom_bits s \<Longrightarrow> rom_bits (append_entry a fn cfn nm ctx s)"
  by (auto simp: rom_bits_def append_entry_def hook_ht_insert_def Let_def bitmap_set_test split: option.split)

lemma rom_bits_any: "rom_bits s \<Longrightarrow> rom_bits (snd (rom_stubs_register_any m a fn cfn nm ctx scan s))"
  by (auto simp: rom_stubs_register_any_def Let_def rom_bits_append split: option.split)

lemma bitmap_mark_spy [simp]: "rs_bitmap (fold mark_spy is s) = rs_bitmap s"
  by (induction "is" arbitrary: s) (simp_all add: mark_spy_def Let_def)

lemma rom_bits_spy: "rom_bits s \<Longrightarrow> rom_bits (snd (rom_stubs_register_spy m a fn nm ctx s))"
  using rom_bits_any [of s m a "Some fn" None nm ctx True]
  by (auto simp: rom_stubs_register_spy_def rom_stubs_register_ctx_def rom_bits_def split: prod.split)

lemma fold_bitmap_test:
  "hook_bitmap_test (fold (\<lambda>i bm. hook_bitmap_set bm (f i)) xs bm) a \<longleftrightarrow>
     hook_bitmap_test bm a \<or> (\<exists>i \<in> set xs. bitmap_index a = bitmap_index (f i))"
  by (induction xs arbitrary: bm) (auto simp: bitmap_set_test)

lemma rom_fill_bits:
  assumes "ROM_BASE \<le> a" "a < ROM_END"
  shows "hook_bitmap_test (rom_bitmap_fill bm) a"
proof -
  let ?i = "(unat a - 0x40000000) div 4"
  have a: "0x40000000 \<le> unat a" "unat a < 0x40070000"
    using assms by (simp_all add: ROM_BASE_def ROM_END_def word_le_nat_alt word_less_nat_alt)
  have u: "unat (ROM_BASE + of_nat ?i * 4) = 0x40000000 + ?i * 4"
    using a by (simp add: ROM_BASE_def unat_word_ariths unat_of_nat)
  have "unat (drop_bit 2 (ROM_BASE + of_nat ?i * 4)) = unat (drop_bit 2 a)"
    unfolding unat_drop_bit_eq u using a by (simp add: drop_bit_eq_div)
  then have "bitmap_index a = bitmap_index (ROM_BASE + of_nat ?i * 4)"
    unfolding bitmap_index_def by (metis unsigned_word_eqI)
  moreover have "?i < 0x1C000" using a by simp
  ultimately show ?thesis
    unfolding rom_bitmap_fill_def fold_bitmap_test by (auto simp: ROM_BASE_def ROM_END_def)
qed

definition table_ok :: "bool \<Rightarrow> esp32_rom_stubs \<Rightarrow> bool" where
  "table_ok classic s \<longleftrightarrow> hooks_wf s \<and> (classic \<longrightarrow> rom_bits s)"

lemma table_ok_any:
  "table_ok classic s \<Longrightarrow> fn \<noteq> None \<or> cfn \<noteq> None \<Longrightarrow>
   table_ok classic (snd (rom_stubs_register_any m a fn cfn nm ctx scan s))"
  by (simp add: table_ok_def register_any_wf rom_bits_any)

lemma table_ok_builtin: "table_ok classic s \<Longrightarrow> table_ok classic (register_builtin m h s)"
  by (cases h) (simp add: register_builtin_def rom_stubs_register_ctx_def table_ok_any)

lemma table_ok_builtins: "table_ok classic s \<Longrightarrow> table_ok classic (fold (register_builtin m) hs s)"
  by (induction hs arbitrary: s) (simp_all add: table_ok_builtin)

lemma table_ok_phy: "table_ok classic (fst sc) \<Longrightarrow> table_ok classic (fst (init_phy_romfuncs E sc))"
proof -
  let ?f = "\<lambda>(i, addr) (s, c).
      let c1 = mem_write32 E c (ROM_PHY_FUNCS + of_nat i * 4) addr in
      (if addr \<noteq> 0
       then snd (rom_stubs_register (mem c1) addr ''stub_unregistered'' ''virtual_phy_romfunc'' s)
       else s, c1)"
  have "table_ok classic (fst (fold ?f xs sc))" if "table_ok classic (fst sc)" for xs sc
    using that
    by (induction xs arbitrary: sc)
       (auto simp: Let_def rom_stubs_register_def rom_stubs_register_ctx_def table_ok_any split: prod.split)
  then show "table_ok classic (fst sc) \<Longrightarrow> table_ok classic (fst (init_phy_romfuncs E sc))"
    by (simp add: init_phy_romfuncs_def Let_def rom_stubs_register_def rom_stubs_register_ctx_def table_ok_any)
qed

lemma zero_wf: "hooks_wf (rom_stubs_zero dok)"
  by (simp add: hooks_wf_def rom_stubs_zero_def ht_ok_def occupied_def direct_ok_def empty_direct_def)

lemma table_ok_create: "table_ok classic (fst (rom_stubs_create dok classic E c))"
proof (cases classic)
  case False
  then show ?thesis by (simp add: rom_stubs_create_def Let_def table_ok_def zero_wf)
next
  case True
  let ?s = "rom_stubs_zero dok"
  have "table_ok True (?s\<lparr>rs_heap := h, rs_internal_heap := h', rs_bitmap := rom_bitmap_fill (rs_bitmap ?s)\<rparr>)" for h h'
    using rom_fill_bits zero_wf [of dok]
    by (simp add: table_ok_def rom_bits_def hooks_wf_def rom_stubs_zero_def)
  then show ?thesis
    unfolding rom_stubs_create_def Let_def using True
    by (auto simp: split_beta intro!: table_ok_builtins table_ok_phy)
qed

lemma reach_ok: "rom_reach s0 s \<Longrightarrow> table_ok classic s0 \<Longrightarrow> table_ok classic s"
proof (induction rule: rom_reach.induct)
  case (spy s m a fn nm ctx)
  then show ?case by (simp add: table_ok_def register_spy_wf rom_bits_spy)
next
  case (counted s i)
  then show ?case by (simp add: table_ok_def bump_entry_wf rom_bits_def) (simp add: bump_entry_def)
next
  case (image s b)
  then show ?case
    using hooks_wf_cong [of "rom_stubs_set_real_rom b s" s]
    by (simp add: table_ok_def rom_bits_def rom_stubs_set_real_rom_def)
next
  case (log s b)
  then show ?case
    using hooks_wf_cong [of "rom_stubs_set_log_callback b s" s]
    by (simp add: table_ok_def rom_bits_def rom_stubs_set_log_callback_def)
next
  case (rest s l n h h')
  then show ?case by (simp add: table_ok_def rom_bits_def) (simp add: hooks_wf_def)
qed (auto simp: rom_stubs_register_ctx_def rom_stubs_register_conditional_ctx_def rom_stubs_register_exact_ctx_def
      rom_stubs_register_conditional_exact_ctx_def rom_stubs_register_conditional_exact_if_absent_ctx_def
      intro: table_ok_any)

section \<open>Lookups\<close>

text \<open>The hash table holds the address within the sixteen probes of a lookup.\<close>

definition near :: "(nat \<Rightarrow> u32 \<times> nat) \<Rightarrow> u32 \<Rightarrow> bool" where
  "near ht a \<longleftrightarrow> list_ex (\<lambda>d. fst (ht (hook_slot a d)) = a) [0 ..< 16]"

lemma lookup_latest:
  assumes wf: "hooks_wf s" and a: "a \<noteq> 0"
  shows "hook_ht_lookup s a = (if near (rs_ht s) a then latest (rs_entries s) a else None)"
proof (cases "near (rs_ht s) a")
  case True
  then obtain d where d: "d < 16" "fst (rs_ht s (hook_slot a d)) = a" by (auto simp: near_def list_ex_iff)
  from ht_okD [OF hooks_wfD(3) [OF wf] hook_slot_less d(2) a]
  obtain d' where d': "d' < 2048" "hook_slot a d = hook_slot a d'"
    "\<And>k. k < d' \<Longrightarrow> fst (rs_ht s (hook_slot a k)) \<notin> {0, a}" by blast
  then have "d' = d" using hook_slot_inj [of a d d'] d(1) by simp
  then have "hook_ht_lookup s a = Some (snd (rs_ht s (hook_slot a d)))"
    using d d'(3) unfolding hook_ht_lookup_def ht_probe_Some by (intro exI [of _ d]) simp
  then show ?thesis using hooks_wfD(5) [OF wf hook_slot_less [of a d]] d(2) a True by simp
next
  case False
  have "hook_ht_lookup s a \<noteq> Some i" for i
    using False unfolding hook_ht_lookup_def ht_probe_Some near_def list_ex_iff by auto
  then show ?thesis using False by (cases "hook_ht_lookup s a") auto
qed

lemma direct_hit_latest:
  assumes "hooks_wf s" "direct_hit s a = Some de"
  shows "latest (rs_entries s) a = Some (de_counter de)"
    "de = direct_of (rs_entries s ! de_counter de) a (de_counter de)"
    "\<exists>dt. rs_direct s = Some dt \<and> dt (direct_index a) = de"
proof -
  obtain dt where dt: "rs_direct s = Some dt" "dt (direct_index a) = de" "de_tag de = a"
    "de_fn de \<noteq> None \<or> de_conditional_fn de \<noteq> None"
    using assms(2) by (auto simp: direct_hit_def Let_def split: option.splits if_splits)
  then have "direct_ok (rs_entries s) (direct_index a) de" using hooks_wfD(7) [OF assms(1) dt(1), of "direct_index a"] by simp
  then show "latest (rs_entries s) a = Some (de_counter de)"
    "de = direct_of (rs_entries s ! de_counter de) a (de_counter de)"
    using dt(3,4) by (auto simp: direct_ok_def)
  show "\<exists>dt. rs_direct s = Some dt \<and> dt (direct_index a) = de" using dt by blast
qed

section \<open>Dispatch\<close>

text \<open>
  The reference: the latest entry of the address decides. An entry is found when its direct slot
  still belongs to it or the hash table holds the address within sixteen probes; one of which
  neither is true counts as unregistered. The log callback sees what is not served by the direct
  table.
\<close>

definition findable :: "esp32_rom_stubs \<Rightarrow> u32 \<Rightarrow> bool" where
  "findable s a \<longleftrightarrow> direct_hit s a \<noteq> None \<or> near (rs_ht s) a"

definition latest_hook ::
  "'d rom_env \<Rightarrow> esp32_rom_stubs \<Rightarrow> u32 \<Rightarrow> 'd cpu \<Rightarrow> int \<times> (esp32_rom_stubs \<times> 'd cpu)" where
  "latest_hook V s a c =
     (case (if findable s a then latest (rs_entries s) a else None) of
        Some i \<Rightarrow>
          let e = rs_entries s ! i;
              s1 = (if direct_hit s a = None then log_call a (re_name e) (bump_entry i s) else bump_entry i s)
          in (case re_conditional_fn e of
                Some f \<Rightarrow> rv_conditional V f (resolve_ctx (re_ctx e)) (s1, c)
              | None \<Rightarrow>
                  (if re_spy e then 0 else 1, rv_fn V (the (re_fn e)) (resolve_ctx (re_ctx e)) (s1, c)))
      | None \<Rightarrow>
          if ROM_BASE \<le> a \<and> a < ROM_END \<and> \<not> rs_real_rom s
          then let s1 = log_call a ''UNREGISTERED'' s in
               (1, (s1\<lparr>rs_unregistered_count := rs_unregistered_count s1 + 1\<rparr>, stub_unregistered c))
          else (0, (s, c)))"

definition registers_nothing :: "'d rom_env \<Rightarrow> bool" where
  "registers_nothing V \<longleftrightarrow>
     (\<forall>f x p. rs_direct (fst (rv_fn V f x p)) = rs_direct (fst p) \<and>
              rs_entries (fst (rv_fn V f x p)) = rs_entries (fst p))"

lemma bump_entry_simps:
  "rs_direct (bump_entry i s) = rs_direct s" "rs_log_fn (bump_entry i s) = rs_log_fn s"
  "i < length (rs_entries s) \<Longrightarrow> re_spy (rs_entries (bump_entry i s) ! i) = re_spy (rs_entries s ! i)"
  "i < length (rs_entries s) \<Longrightarrow> re_fn (rs_entries (bump_entry i s) ! i) = re_fn (rs_entries s ! i)"
  "i < length (rs_entries s) \<Longrightarrow>
     re_conditional_fn (rs_entries (bump_entry i s) ! i) = re_conditional_fn (rs_entries s ! i)"
  "i < length (rs_entries s) \<Longrightarrow> re_ctx (rs_entries (bump_entry i s) ! i) = re_ctx (rs_entries s ! i)"
  by (simp_all add: bump_entry_def)

lemma log_call_tables [simp]:
  "rs_entries (log_call a nm s) = rs_entries s" "rs_direct (log_call a nm s) = rs_direct s"
  by (simp_all add: log_call_def)

text \<open>C28. A dispatch runs the latest registration. However hooks were registered, replaced and called
  since the creation of the stubs, at any PC but 0 (which is C39) the hook of the processor does what
  a search of the list of registrations from its end would do: it runs the latest entry of the PC on
  its context, whether the direct table or the hash table answers, and falls back to the ROM range
  where there is none. The search sees an entry only while it can be found: through its direct slot,
  unless another address of the same index took it since, or within the sixteen probes of a hash
  lookup; an entry of which neither is true acts as unregistered. The machine and the stubs are the
  same in every case. The result code is the same too when the replacements called register nothing
  themselves: the code reads the spy mark after the call.\<close>

theorem rom_pc_hook_runs_latest:
  assumes "rom_reach (fst (rom_stubs_create dok classic E c0)) s" "a \<noteq> 0"
  shows "snd (rom_pc_hook V s a c) = snd (latest_hook V s a c) \<and>
    (registers_nothing V \<longrightarrow> rom_pc_hook V s a c = latest_hook V s a c)"
proof -
  have wf: "hooks_wf s" using reach_ok [OF assms(1) table_ok_create] by (simp add: table_ok_def)
  have quiet: "rs_direct (fst (rv_fn V f x p)) = rs_direct (fst p)"
    "rs_entries (fst (rv_fn V f x p)) = rs_entries (fst p)" if "registers_nothing V" for f x p
    using that unfolding registers_nothing_def by blast+
  show ?thesis
  proof (cases "direct_hit s a")
    case (Some de)
    note d = direct_hit_latest [OF wf Some]
    obtain dt where dt: "rs_direct s = Some dt" "dt (direct_index a) = de" using d(3) by blast
    let ?e = "rs_entries s ! de_counter de"
    have f: "de_fn de = re_fn ?e" "de_conditional_fn de = re_conditional_fn ?e"
      "de_ctx de = resolve_ctx (re_ctx ?e)" "de_spy de = re_spy ?e"
      using d(2) by (metis direct_of_def stub_direct_entry.select_convs)+
    show ?thesis
      by (cases "re_conditional_fn ?e")
        (simp_all add: rom_pc_hook_def latest_hook_def findable_def Some d(1) Let_def f quiet
          bump_entry_simps dt)
  next
    case None
    have lookup: "hook_ht_lookup s a = (if findable s a then latest (rs_entries s) a else None)"
      using lookup_latest [OF wf assms(2)] None by (simp add: findable_def)
    show ?thesis
    proof (cases "if findable s a then latest (rs_entries s) a else None")
      case None': None
      then show ?thesis
        using \<open>direct_hit s a = None\<close>
        unfolding rom_pc_hook_def latest_hook_def lookup None' by (simp add: Let_def)
    next
      case (Some i)
      then have i: "i < length (rs_entries s)" using latest_Some(1) by (auto split: if_splits)
      show ?thesis
        using \<open>direct_hit s a = None\<close> i
        unfolding rom_pc_hook_def latest_hook_def lookup Some
        by (cases "re_conditional_fn (rs_entries s ! i)") (simp_all add: Let_def quiet bump_entry_simps)
    qed
  qed
qed

text \<open>C29. The bitmap hides no hook. Where the bit of a PC is clear, the hook would neither run anything
  nor change anything, and the JIT's exact test says so too, so the test the processor makes before
  the call is sound: on a classic target at every PC, elsewhere at every PC but 0 while the ROM image is
  loaded (without it the fallback of the ROM range would answer, and at PC 0 an empty slot, see C39).\<close>

theorem hook_gate_sound:
  assumes "rom_reach (fst (rom_stubs_create dok classic E c0)) s"
    and "classic \<or> (rs_real_rom s \<and> a \<noteq> 0)" "\<not> hook_bitmap_test (rs_bitmap s) a"
  shows "rom_pc_hook V s a c = (0, (s, c)) \<and> \<not> rom_pc_hook_contains a s"
proof -
  have ok: "hooks_wf s" "classic \<longrightarrow> rom_bits s"
    using reach_ok [OF assms(1) table_ok_create] by (simp_all add: table_ok_def)
  have "classic \<longrightarrow> hook_bitmap_test (rs_bitmap s) ROM_BASE"
    using ok(2) by (simp add: rom_bits_def ROM_BASE_def ROM_END_def)
  then have a: "a \<noteq> 0"
    using assms(2,3) by (auto simp: hook_bitmap_test_def ROM_BASE_def)
  have "a \<notin> re_addr ` set (rs_entries s)" using hooks_wfD(8) [OF ok(1)] assms(3) by auto
  then have none: "latest (rs_entries s) a = None" by (simp add: latest_None)
  have "direct_hit s a = None" using direct_hit_latest(1) [OF ok(1), of a] none by (cases "direct_hit s a") auto
  moreover have "hook_ht_lookup s a = None" using lookup_latest [OF ok(1) a] none by simp
  moreover have "\<not> (ROM_BASE \<le> a \<and> a < ROM_END) \<or> rs_real_rom s"
    using ok(2) assms(2,3) by (auto simp: rom_bits_def)
  ultimately show ?thesis by (auto simp: rom_pc_hook_def rom_pc_hook_contains_def)
qed

text \<open>C39. A call through NULL runs the first hook. An empty slot of the hash table has address 0 and index 0,
  so a lookup of PC 0 succeeds: with a single hook registered anywhere else, a jump to 0 runs that hook,
  and the JIT is told that there is a hook at 0.\<close>

theorem null_call_runs_first_hook:
  assumes "a \<noteq> 0" "hook_slot a 0 \<noteq> hook_slot 0 0"
    and s: "s = snd (rom_stubs_register_exact_ctx m a fn nm ctx (rom_stubs_zero dok))"
    and r: "r = rv_fn V fn (resolve_ctx ctx) (bump_entry 0 s, c)"
  shows "rom_pc_hook V s 0 c = (if re_spy (rs_entries (fst r) ! 0) then 0 else 1, r) \<and>
    rom_pc_hook_contains 0 s"
proof -
  let ?e = "\<lparr>re_addr = a, re_fn = Some fn, re_conditional_fn = None, re_name = nm, re_call_count = 0,
    re_ctx = ctx, re_spy = False\<rparr>"
  have free: "ht_free (\<lambda>_. (0, 0)) a 0 HOOK_HT_SIZE = Some (hook_slot a 0)"
    by (simp add: HOOK_HT_SIZE_def numeral_eq_Suc)
  have s': "s = append_entry a (Some fn) None nm ctx (rom_stubs_zero dok)"
    by (simp add: s rom_stubs_register_exact_ctx_def rom_stubs_register_any_def rom_stubs_zero_def MAX_ROM_STUBS_def)
  have f: "rs_entries s = [?e]" "rs_ht s = (\<lambda>_. (0, 0))(hook_slot a 0 := (a, 0))" "\<not> rs_log_fn s"
    by (simp_all add: s' append_entry_def hook_ht_insert_def Let_def rom_stubs_zero_def free)
  have "direct_hit s 0 = None"
    using assms(1)
    by (auto simp: direct_hit_def s' append_entry_def hook_ht_insert_def Let_def rom_stubs_zero_def free
        direct_of_def empty_direct_def split: option.split)
  moreover have lookup: "hook_ht_lookup s 0 = Some 0"
    using assms(2) by (simp add: hook_ht_lookup_def f(2) numeral_eq_Suc)
  ultimately show ?thesis
    using f by (simp add: rom_pc_hook_def rom_pc_hook_contains_def log_call_def Let_def r bump_entry_simps)
qed

section \<open>A concrete table\<close>

definition sample_rom_env :: "unit rom_env" where
  "sample_rom_env = \<lparr>rv_fn = (\<lambda>f x p. (fst p, rom_return (snd p) 7)), rv_conditional = (\<lambda>f x p. (0, p))\<rparr>"

definition sample_stubs :: esp32_rom_stubs where
  "sample_stubs = snd (rom_stubs_register_exact_ctx sample_mem 0x42000000 ''f'' ''g'' No_Ctx
     (fst (rom_stubs_create False False sample_host sample_cpu)))"

lemma sample_stubs:
  "rs_entries sample_stubs = [\<lparr>re_addr = 0x42000000, re_fn = Some ''f'', re_conditional_fn = None,
     re_name = ''g'', re_call_count = 0, re_ctx = No_Ctx, re_spy = False\<rparr>]"
  "rs_ht sample_stubs (hook_slot 0x42000000 0) = (0x42000000, 0)" "rs_direct sample_stubs = None"
  by (simp_all add: sample_stubs_def rom_stubs_register_exact_ctx_def rom_stubs_register_any_def
      rom_stubs_create_def rom_stubs_zero_def MAX_ROM_STUBS_def append_entry_def hook_ht_insert_def Let_def
      HOOK_HT_SIZE_def numeral_eq_Suc)

text \<open>With a log callback: the hash table answers and the call is logged.\<close>

definition sample_logged :: esp32_rom_stubs where
  "sample_logged = rom_stubs_set_log_callback True sample_stubs"

lemma sample_logged:
  "rs_entries sample_logged = rs_entries sample_stubs" "rs_ht sample_logged = rs_ht sample_stubs"
  "rs_direct sample_logged = None" "rs_log_fn sample_logged"
  by (simp_all add: sample_logged_def rom_stubs_set_log_callback_def sample_stubs)

lemma sample_logged_reach: "rom_reach (fst (rom_stubs_create False False sample_host sample_cpu)) sample_logged"
  unfolding sample_logged_def sample_stubs_def by (intro rom_reach.intros)

theorem rom_pc_hook_runs_latest_witness:
  "rom_pc_hook sample_rom_env sample_logged 0x42000000 sample_cpu =
     (1, ((bump_entry 0 sample_logged)\<lparr>rs_log := rs_log sample_logged @ [(0x42000000, ''g'')]\<rparr>,
          rom_return sample_cpu 7))"
proof -
  have "near (rs_ht sample_logged) 0x42000000"
    unfolding near_def list_ex_iff sample_logged(2) using sample_stubs(2) by (intro bexI [of _ 0]) simp_all
  then have f: "findable sample_logged 0x42000000" "direct_hit sample_logged 0x42000000 = None"
    by (simp_all add: findable_def direct_hit_def sample_logged(3))
  have "registers_nothing sample_rom_env" by (simp add: registers_nothing_def sample_rom_env_def)
  then have "rom_pc_hook sample_rom_env sample_logged 0x42000000 sample_cpu =
      latest_hook sample_rom_env sample_logged 0x42000000 sample_cpu"
    using rom_pc_hook_runs_latest [OF sample_logged_reach, of "0x42000000" sample_rom_env sample_cpu] by simp
  also have "\<dots> = (1, ((bump_entry 0 sample_logged)\<lparr>rs_log := rs_log sample_logged @ [(0x42000000, ''g'')]\<rparr>,
      rom_return sample_cpu 7))"
    using sample_logged(4)
    by (simp add: latest_hook_def f latest_def sample_logged(1) sample_stubs(1) Let_def sample_rom_env_def
        log_call_def bump_entry_def)
  finally show ?thesis .
qed

theorem hook_gate_sound_witness:
  "rom_pc_hook sample_rom_env (rom_stubs_set_real_rom True (fst (rom_stubs_create True False sample_host sample_cpu)))
     0x42000004 sample_cpu =
   (0, (rom_stubs_set_real_rom True (fst (rom_stubs_create True False sample_host sample_cpu)), sample_cpu))"
proof -
  let ?s0 = "fst (rom_stubs_create True False sample_host sample_cpu)"
  have "rom_reach ?s0 (rom_stubs_set_real_rom True ?s0)" by (intro rom_reach.intros)
  moreover have "\<not> hook_bitmap_test (rs_bitmap (rom_stubs_set_real_rom True ?s0)) 0x42000004"
    "rs_real_rom (rom_stubs_set_real_rom True ?s0)"
    by (simp_all add: rom_stubs_set_real_rom_def rom_stubs_create_def rom_stubs_zero_def hook_bitmap_test_def Let_def)
  ultimately show ?thesis
    using hook_gate_sound [of True False sample_host sample_cpu _ "0x42000004" sample_rom_env sample_cpu] by simp
qed

theorem null_call_runs_first_hook_witness:
  "rom_pc_hook sample_rom_env
     (snd (rom_stubs_register_exact_ctx sample_mem 0x42000004 ''f'' ''g'' No_Ctx (rom_stubs_zero True))) 0 sample_cpu =
   (1, (bump_entry 0 (snd (rom_stubs_register_exact_ctx sample_mem 0x42000004 ''f'' ''g'' No_Ctx (rom_stubs_zero True))),
        rom_return sample_cpu 7))"
proof -
  let ?s = "snd (rom_stubs_register_exact_ctx sample_mem 0x42000004 ''f'' ''g'' No_Ctx (rom_stubs_zero True))"
  have "hook_slot 0x42000004 0 \<noteq> hook_slot 0 0" by (simp add: hook_slot_def hook_hash_def HOOK_HT_SIZE_def)
  then have "rom_pc_hook sample_rom_env ?s 0 sample_cpu =
      (if re_spy (rs_entries (bump_entry 0 ?s) ! 0) then 0 else 1, (bump_entry 0 ?s, rom_return sample_cpu 7))"
    using null_call_runs_first_hook [of "0x42000004" ?s sample_mem "''f''" "''g''" No_Ctx True _ sample_rom_env sample_cpu]
    by (simp add: sample_rom_env_def)
  moreover have "\<not> re_spy (rs_entries (bump_entry 0 ?s) ! 0)"
    by (simp add: rom_stubs_register_exact_ctx_def rom_stubs_register_any_def rom_stubs_zero_def MAX_ROM_STUBS_def
        bump_entry_def)
  ultimately show ?thesis by simp
qed

end
