(* ===== verification/Firmware_Scan_Facts.thy ===== *)
theory Firmware_Scan_Facts
  imports Firmware_Scan Page_Arith Ps_Fields Exec_Core Sample_States
begin

text \<open>
  What the scanner finds: its instruction words and targets are those the interpreter executes, a
  body's checksum does not depend on where its calls and literals were linked, and a search for a
  unique function counts the functions of the range that match.
\<close>

section \<open>Agreement with the interpreter\<close>

lemma those_map: "those (map f xs) = Some ys \<longleftrightarrow> map f xs = map Some ys"
  by (induction xs arbitrary: ys) (auto split: option.splits)

lemma peek_bytes_Some:
  "peek_bytes m addr n = Some bs \<longleftrightarrow>
     length bs = n \<and> (\<forall>i < n. fetch_byte m (addr + of_nat i) = Some (bs ! i))"
proof -
  have "map (\<lambda>i. fetch_byte m (addr + of_nat i)) [0 ..< n] = map Some bs \<longleftrightarrow>
      length bs = n \<and> (\<forall>i < n. fetch_byte m (addr + of_nat i) = Some (bs ! i))"
    by (auto simp: list_eq_iff_nth_eq)
  then show ?thesis by (simp add: peek_bytes_def those_map)
qed

lemma peek_three:
  assumes "firmware_peek m a 3 = Some insn"
  obtains b0 b1 b2 where "fetch_byte m a = Some b0" "fetch_byte m (a + 1) = Some b1"
    "fetch_byte m (a + 2) = Some b2" "insn = of_bytes [b0, b1, b2]" "2 \<le> unat (UINT32_MAX - a)"
proof -
  obtain bs where bs: "peek_bytes m a 3 = Some bs" "scan_range_ok a 3"
    "insn = fold (\<lambda>i v. v OR push_bit (8 * i) (ucast (bs ! i))) [0 ..< 3] 0"
    using assms by (auto simp: firmware_peek_def split: if_splits)
  then obtain b0 b1 b2 where b: "bs = [b0, b1, b2]"
    by (auto simp: peek_bytes_Some length_Suc_conv numeral_eq_Suc)
  have "\<forall>i < 3. fetch_byte m (a + of_nat i) = Some (bs ! i)" using bs(1) by (simp add: peek_bytes_Some)
  from this [rule_format, of 0] this [rule_format, of 1] this [rule_format, of 2]
  have "fetch_byte m a = Some b0" "fetch_byte m (a + 1) = Some b1" "fetch_byte m (a + 2) = Some b2"
    by (simp_all add: b)
  moreover have "insn = of_bytes [b0, b1, b2]"
    unfolding bs(3) b by (rule bit_word_eqI) (auto simp: upt_rec bit_simps)
  ultimately show thesis using that bs(2) by (simp add: scan_range_ok_def)
qed

lemma op0_len:
  assumes "insn = of_bytes [b0, b1, b2]" "XT_OP0 insn < 8"
  shows "fetch_len b0 = 3"
proof -
  have "\<not> bit (insn AND 0xF) 3"
    using assms(2) bit_word_less [of "insn AND 0xF" 3 3] by (auto simp: XT_OP0_def)
  then have "\<not> bit insn 3" by (simp add: bit_simps)
  then have "\<not> bit b0 3" using assms(1) by (simp add: bit_simps)
  then have "b0 AND 8 = 0" using and_exp_eq_0_iff_not_bit [of b0 3] by simp
  then show ?thesis by (simp add: fetch_len_def)
qed

lemma peek_is_fetch:
  assumes "firmware_peek m a 3 = Some insn" "XT_OP0 insn < 8"
  shows "xtensa_fetch m a = Some (insn, 3)"
proof -
  obtain b0 b1 b2 where b: "fetch_byte m a = Some b0" "fetch_byte m (a + 1) = Some b1"
    "fetch_byte m (a + 2) = Some b2" "insn = of_bytes [b0, b1, b2]" "2 \<le> unat (UINT32_MAX - a)"
    using assms(1) by (rule peek_three)
  have "fetch_len b0 = 3" by (rule op0_len [OF b(4) assms(2)])
  moreover have "\<not> UINT32_MAX - 2 < a"
  proof -
    have "unat a < 2 ^ 32" using unsigned_less [of a, where ?'a = nat] by simp
    then have "a \<le> UINT32_MAX" by (simp add: word_le_nat_alt)
    then have f: "unat (UINT32_MAX - a) = unat UINT32_MAX - unat a" by (rule unat_sub)
    have "unat a \<le> 0xFFFFFFFD" using b(5) unfolding f by simp
    then show ?thesis by (simp add: word_less_nat_alt)
  qed
  ultimately show ?thesis using b by (simp add: xtensa_fetch_bytes)
qed

lemma offset18_sign: "signed_drop_bit 14 (push_bit 14 w) = sign_extend (w :: u32) 18"
  by (rule bit_word_eqI) (auto simp: sign_extend_signed_take_bit bit_simps)

lemma calln_pc: "pc (exec_calln c insn) = push_bit 2 (drop_bit 2 (pc c - 3) + sign_extend (XT_OFFSET18 insn) 18 + 1)"
  by (simp add: exec_calln_def BRANCH_TO_def Let_def ar_write_def)

text \<open>C24. The scanner sees the program the interpreter runs. Where it decodes a call or a literal load, a
  fetch yields the same instruction, executing the call goes to the target it computed with the
  window rotation it computed, and executing the load reads the word it computed the address of.\<close>

theorem scanner_agrees_with_interpreter:
  assumes "mem c = m" "pc c = a + 3"
  shows "(case firmware_xtensa_call_target m a of
      None \<Rightarrow> True
    | Some (n, t) \<Rightarrow> \<exists>insn c'. xtensa_fetch m a = Some (insn, 3) \<and> exec_insn E c insn 3 = (Retired, c') \<and>
        pc c' = t \<and> (n \<noteq> 0 \<longrightarrow> XT_PS_CALLINC (ps c') = n)) \<and>
    (case firmware_xtensa_l32r_target m a of
      None \<Rightarrow> True
    | Some t \<Rightarrow> \<exists>insn. xtensa_fetch m a = Some (insn, 3) \<and>
        exec_insn E c insn 3 = (Retired, exec_load32 E c (XT_T insn) t))"
proof (rule conjI)
  show "case firmware_xtensa_call_target m a of
      None \<Rightarrow> True
    | Some (n, t) \<Rightarrow> \<exists>insn c'. xtensa_fetch m a = Some (insn, 3) \<and> exec_insn E c insn 3 = (Retired, c') \<and>
        pc c' = t \<and> (n \<noteq> 0 \<longrightarrow> XT_PS_CALLINC (ps c') = n)"
  proof (cases "firmware_xtensa_call_target m a")
    case (Some nt)
    obtain n t where nt: "nt = (n, t)" by fastforce
    obtain insn where i: "firmware_peek m a 3 = Some insn" "XT_OP0 insn = 5" "n = XT_N insn"
      "t = push_bit 2 (drop_bit 2 a + sign_extend (XT_OFFSET18 insn) 18 + 1)"
      using Some nt
      by (auto simp: firmware_xtensa_call_target_def offset18_sign Let_def split: option.splits if_splits)
    have "n < 4" unfolding i(3) by (rule XT_N_less)
    then have "n \<noteq> 0 \<Longrightarrow> XT_PS_CALLINC (ps (exec_calln c insn)) = n"
      using i(3) by (simp add: exec_calln_def BRANCH_TO_def Let_def ar_write_def CALLINC_SET)
    moreover have "pc (exec_calln c insn) = t" using assms(2) i(4) by (simp add: calln_pc)
    moreover have "xtensa_fetch m a = Some (insn, 3)" using peek_is_fetch [OF i(1)] i(2) by simp
    ultimately show ?thesis using i(2) by (simp add: Some nt exec_insn_def Let_def)
  qed simp
  show "case firmware_xtensa_l32r_target m a of
      None \<Rightarrow> True
    | Some t \<Rightarrow> \<exists>insn. xtensa_fetch m a = Some (insn, 3) \<and>
        exec_insn E c insn 3 = (Retired, exec_load32 E c (XT_T insn) t)"
  proof (cases "firmware_xtensa_l32r_target m a")
    case (Some t)
    obtain insn where i: "firmware_peek m a 3 = Some insn" "XT_OP0 insn = 1"
      "t = ((a + 3) AND NOT 3) + (0xFFFC0000 OR push_bit 2 (XT_IMM16 insn))"
      using Some by (auto simp: firmware_xtensa_l32r_target_def split: option.splits if_splits)
    have "xtensa_fetch m a = Some (insn, 3)" using peek_is_fetch [OF i(1)] i(2) by simp
    then show ?thesis using i(2,3) assms(2) by (simp add: Some exec_insn_def exec_l32r_def Let_def)
  qed simp
qed

text \<open>The sample machine with three bytes of code at the start of its instruction page.\<close>

definition scan_mem :: "u8 \<Rightarrow> u8 \<Rightarrow> u8 \<Rightarrow> xmem" where
  "scan_mem b0 b1 b2 = sample_mem\<lparr>hbytes :=
     (\<lambda>_ k. if k = 0x70000 then b0 else if k = 0x70001 then b1 else if k = 0x70002 then b2 else 0)\<rparr>"

lemma scan_bytes:
  "fetch_byte (scan_mem b0 b1 b2) 0x40080000 = Some b0"
  "fetch_byte (scan_mem b0 b1 b2) 0x40080001 = Some b1"
  "fetch_byte (scan_mem b0 b1 b2) 0x40080002 = Some b2"
  by (simp_all add: scan_mem_def sample_defs fetch_byte_def mem_get_ptr_def page_of_def page_off_def hptr_add_def)

lemma scan_peek:
  "peek_bytes (scan_mem b0 b1 b2) 0x40080000 3 = Some [b0, b1, b2]"
  "firmware_peek (scan_mem b0 b1 b2) 0x40080000 3 =
     Some (ucast b0 OR push_bit 8 (ucast b1) OR push_bit 16 (ucast b2))"
  by (simp_all add: peek_bytes_def firmware_peek_def scan_range_ok_def upt_rec scan_bytes or.assoc)

theorem scanner_agrees_with_interpreter_witness:
  "firmware_xtensa_call_target (scan_mem 0x25 0 0) 0x40080000 = Some (2, 0x40080004) \<and>
   (\<exists>insn c'. xtensa_fetch (scan_mem 0x25 0 0) 0x40080000 = Some (insn, 3) \<and>
      exec_insn sample_host (sample_cpu\<lparr>mem := scan_mem 0x25 0 0, pc := 0x40080003\<rparr>) insn 3 = (Retired, c') \<and>
      pc c' = 0x40080004 \<and> XT_PS_CALLINC (ps c') = 2)"
proof -
  have "firmware_xtensa_call_target (scan_mem 0x25 0 0) 0x40080000 = Some (2, 0x40080004)"
    by (simp add: firmware_xtensa_call_target_def scan_peek XT_OP0_def XT_N_def XT_OFFSET18_def)
  then show ?thesis
    using scanner_agrees_with_interpreter
      [of "sample_cpu\<lparr>mem := scan_mem 0x25 0 0, pc := 0x40080003\<rparr>" "scan_mem 0x25 0 0" "0x40080000" sample_host]
    by simp
qed

section \<open>Relocation\<close>

text \<open>The instructions of a body, if it is mapped and ends at an instruction boundary.\<close>

function insns :: "xmem \<Rightarrow> u32 \<Rightarrow> nat \<Rightarrow> u8 list list option" where
  "insns m addr left =
     (if left = 0 then Some []
      else (case fetch_byte m addr of
          None \<Rightarrow> None
        | Some b0 \<Rightarrow>
            (let len = fetch_len b0 in
             if left < len then None
             else (case peek_bytes m addr len of
                None \<Rightarrow> None
              | Some bs \<Rightarrow> map_option ((#) bs) (insns m (addr + of_nat len) (left - len))))))"
  by pat_completeness auto

termination
  by (relation "measure (\<lambda>(m, addr, left). left)") (auto simp: fetch_len_def)

declare insns.simps [simp del]

text \<open>Two instructions that differ at most in what linking puts into them: the literal offset of an
  L32R, the displacement of a CALLn, and of a J where asked.\<close>

definition relocated :: "bool \<Rightarrow> u8 list \<Rightarrow> u8 list \<Rightarrow> bool" where
  "relocated jump x y \<longleftrightarrow> x = y \<or>
     length x = 3 \<and> length y = 3 \<and>
     (x ! 0 = y ! 0 \<and> x ! 0 AND 0xF = 1 \<or>
      x ! 0 AND 0x3F = y ! 0 AND 0x3F \<and> (x ! 0 AND 0xF = 5 \<or> jump \<and> x ! 0 AND 0x3F = 6))"

lemma and_F_of_3F: "(b :: u8) AND 0x3F = c AND 0x3F \<Longrightarrow> b AND 0xF = c AND 0xF"
proof -
  assume e: "b AND 0x3F = c AND 0x3F"
  have "b AND 0xF = (b AND 0x3F) AND 0xF" "c AND 0xF = (c AND 0x3F) AND 0xF" by (simp_all add: and.assoc)
  then show ?thesis using e by simp
qed

lemma relocated_normal: "relocated jump x y \<Longrightarrow> normalize_insn jump x = normalize_insn jump y"
  using and_F_of_3F [of "x ! 0" "y ! 0"] and_F_of_3F [of "x ! 0" 6] by (auto simp: relocated_def normalize_insn_def)

lemma crc_loop_insns:
  "xtensa_crc_loop Z jump m addr left crc =
     map_option (\<lambda>is. fold (\<lambda>i crc. zl_crc32 Z crc (normalize_insn jump i)) is crc) (insns m addr left)"
proof (induction Z jump m addr left crc rule: xtensa_crc_loop.induct)
  case (1 Z jump m addr left crc)
  show ?case
  proof (cases "left = 0")
    case True
    then show ?thesis by (simp add: xtensa_crc_loop.simps [of Z] insns.simps [of m])
  next
    case False
    show ?thesis
    proof (cases "fetch_byte m addr")
      case None
      then show ?thesis using False by (simp add: xtensa_crc_loop.simps [of Z] insns.simps [of m])
    next
      case (Some b0)
      then show ?thesis
        using False 1 [OF False Some refl]
        by (subst xtensa_crc_loop.simps, subst insns.simps)
           (auto simp: fetch_len_def Let_def map_option.compositionality comp_def split: option.splits)
    qed
  qed
qed

text \<open>Fingerprints survive linking: two bodies whose instructions differ only in the bits the linker
  fills in have the same checksum, so both match a fingerprint or neither does.\<close>

theorem fingerprint_relocatable:
  assumes "insns m a n = Some xs" "insns m' a' n = Some ys" "list_all2 (relocated jump) xs ys"
    and "scan_range_ok a n" "scan_range_ok a' n"
  shows "firmware_xtensa_crc32_matches_kind Z m a n crc jump =
     firmware_xtensa_crc32_matches_kind Z m' a' n crc jump"
proof -
  have "fold (\<lambda>i crc. zl_crc32 Z crc (normalize_insn jump i)) xs c =
      fold (\<lambda>i crc. zl_crc32 Z crc (normalize_insn jump i)) ys c" for c
    using assms(3)
    by (induction xs ys arbitrary: c rule: list_all2_induct) (auto dest: relocated_normal)
  then show ?thesis
    using assms(1,2,4,5) by (simp add: firmware_xtensa_crc32_matches_kind_def crc_loop_insns)
qed

lemma scan_insns:
  "b0 AND 8 = 0 \<Longrightarrow> insns (scan_mem b0 b1 b2) 0x40080000 3 = Some [[b0, b1, b2]]"
  by (simp add: insns.simps scan_bytes scan_peek fetch_len_def)

definition sample_zlib :: zlib where
  "sample_zlib = \<lparr>zl_init = 0, zl_crc32 = (\<lambda>crc bs. crc + ucast (sum_list bs))\<rparr>"

theorem fingerprint_relocatable_witness:
  "firmware_xtensa_crc32_matches_kind sample_zlib (scan_mem 0x25 0 0) 0x40080000 3 0x25 True =
   firmware_xtensa_crc32_matches_kind sample_zlib (scan_mem 0xE5 1 7) 0x40080000 3 0x25 True"
  by (rule fingerprint_relocatable [OF scan_insns scan_insns])
     (simp_all add: relocated_def scan_range_ok_def)

section \<open>Unique functions\<close>

text \<open>The entry points of a range whose body matches a fingerprint.\<close>

definition matching :: "zlib \<Rightarrow> xmem \<Rightarrow> u32 \<Rightarrow> u32 \<Rightarrow> nat \<Rightarrow> u32 \<Rightarrow> u32 set" where
  "matching Z m start end_addr n crc =
     {a. start \<le> a \<and> a \<le> end_addr - 3 \<and> entry_at m a \<and> n \<le> unat (end_addr - a) \<and>
         firmware_xtensa_reloc_crc32_matches Z m a n crc}"

definition counted :: "zlib \<Rightarrow> xmem \<Rightarrow> u32 \<Rightarrow> nat \<Rightarrow> u32 \<Rightarrow> nat list \<Rightarrow> nat list" where
  "counted Z m end_addr n crc as =
     filter (\<lambda>a. entry_at m (of_nat a) \<and> n \<le> unat (end_addr - of_nat a) \<and>
                 firmware_xtensa_reloc_crc32_matches Z m (of_nat a) n crc) as"

lemma scan_fold:
  assumes "3 \<le> n" "distinct as" "\<forall>a \<in> set as. a < 2 ^ 32"
  shows "fold (\<lambda>a fs. if entry_at m (of_nat a) then map (match_at Z m end_addr (of_nat a)) fs else fs) as
      [\<lparr>fm_size = n, fm_crc32 = crc, fm_addr = 0, fm_matches = 0\<rparr>] =
    [\<lparr>fm_size = n, fm_crc32 = crc,
      fm_addr = (case counted Z m end_addr n crc as of [a] \<Rightarrow> of_nat a | _ \<Rightarrow> 0),
      fm_matches = min 2 (length (counted Z m end_addr n crc as))\<rparr>]"
  using assms(2,3)
proof (induction as rule: rev_induct)
  case Nil
  then show ?case by (simp add: counted_def)
next
  case (snoc a as)
  let ?l = "counted Z m end_addr n crc as"
  have a: "a < 2 ^ 32" "a \<notin> set ?l" "\<forall>b \<in> set ?l. b < 2 ^ 32"
    using snoc.prems by (auto simp: counted_def)
  have ne: "of_nat b \<noteq> (of_nat a :: u32)" if "?l = [b]" for b
  proof -
    have "unat (of_nat b :: u32) = b" "unat (of_nat a :: u32) = a" "b \<noteq> a"
      using a that by (auto simp: unat_of_nat)
    then show ?thesis by metis
  qed
  show ?case
    using snoc ne assms(1)
    by (cases ?l rule: list.exhaust; cases "tl ?l"; auto simp: counted_def match_at_def split: list.splits)
qed

lemma of_nat_range:
  "of_nat ` {unat (start :: u32) ..< unat (hi :: u32) + 1} = {a :: u32. start \<le> a \<and> a \<le> hi}"
proof (intro set_eqI iffI)
  fix a :: u32 assume "a \<in> of_nat ` {unat start ..< unat hi + 1}"
  then obtain k where k: "a = of_nat k" "unat start \<le> k" "k \<le> unat hi" by auto
  have "k < 2 ^ 32" using k(3) unsigned_less [of hi, where ?'a = nat] by simp
  then have "unat a = k" using k(1) by (simp add: unat_of_nat)
  then show "a \<in> {a. start \<le> a \<and> a \<le> hi}" using k by (simp add: word_le_nat_alt)
next
  fix a :: u32 assume "a \<in> {a. start \<le> a \<and> a \<le> hi}"
  then show "a \<in> of_nat ` {unat start ..< unat hi + 1}"
    by (auto simp: word_le_nat_alt intro!: image_eqI [of _ _ "unat a"])
qed

lemma counted_matching:
  assumes "end_addr - 3 = hi"
  shows "of_nat ` set (counted Z m end_addr n crc [unat start ..< unat hi + 1]) =
     matching Z m start end_addr n crc"
proof -
  have "of_nat ` set (counted Z m end_addr n crc [unat start ..< unat hi + 1]) =
      {a \<in> of_nat ` {unat start ..< unat hi + 1}. entry_at m a \<and> n \<le> unat (end_addr - a) \<and>
         firmware_xtensa_reloc_crc32_matches Z m a n crc}"
    by (auto simp: counted_def)
  then show ?thesis unfolding of_nat_range by (auto simp: matching_def assms)
qed

lemma card_counted:
  assumes "end_addr - 3 = hi"
  shows "card (matching Z m start end_addr n crc) =
     length (counted Z m end_addr n crc [unat start ..< unat hi + 1])"
proof -
  let ?l = "counted Z m end_addr n crc [unat start ..< unat hi + 1]"
  have d: "distinct ?l" by (simp add: counted_def)
  have "inj_on (of_nat :: nat \<Rightarrow> u32) (set ?l)"
  proof (rule inj_onI)
    fix x y assume "x \<in> set ?l" "y \<in> set ?l" and e: "(of_nat x :: u32) = of_nat y"
    then have "x < 2 ^ 32" "y < 2 ^ 32"
      using unsigned_less [of hi, where ?'a = nat] by (auto simp: counted_def simp del: upt_Suc)
    then have "unat (of_nat x :: u32) = x" "unat (of_nat y :: u32) = y" by (simp_all add: unat_of_nat)
    then show "x = y" using e by metis
  qed
  then show ?thesis
    using counted_matching [OF assms, of Z m n crc start] d by (metis card_image distinct_card)
qed

text \<open>C25. A search counts the functions of the range that match: its count is the number of matching
  entry points, saturated at two, and it returns an address exactly when there is one of them, the
  address of that one.\<close>

theorem find_unique_correct:
  assumes "3 \<le> n" "start < end_addr" "n \<le> unat (end_addr - start)"
  shows "firmware_find_unique_xtensa_function Z m start end_addr n crc =
     (min 2 (card (matching Z m start end_addr n crc)),
      if card (matching Z m start end_addr n crc) = 1 then the_elem (matching Z m start end_addr n crc) else 0)"
proof -
  let ?l = "counted Z m end_addr n crc [unat start ..< unat (end_addr - 3) + 1]"
  have bound: "\<forall>a \<in> set [unat start ..< unat (end_addr - 3) + 1]. a < 2 ^ 32"
    using unsigned_less [of "end_addr - 3", where ?'a = nat] by auto
  have "\<not> end_addr - start < 3" using assms(1,3) by (simp add: word_less_nat_alt)
  then have find: "firmware_find_unique_xtensa_function Z m start end_addr n crc =
      (min 2 (length ?l), case ?l of [a] \<Rightarrow> of_nat a | _ \<Rightarrow> 0)"
    using assms scan_fold [OF assms(1) distinct_upt bound]
    by (simp add: firmware_find_unique_xtensa_function_def firmware_scan_xtensa_functions_def Let_def)
  have card: "card (matching Z m start end_addr n crc) = length ?l" by (rule card_counted [OF refl])
  show ?thesis
  proof (cases "length ?l = 1")
    case True
    then obtain a where a: "?l = [a]" by (auto simp: length_Suc_conv)
    then have "matching Z m start end_addr n crc = {of_nat a}"
      using counted_matching [OF refl, of Z m end_addr n crc start] by simp
    then show ?thesis using find a by simp
  next
    case False
    then have "(case ?l of [a] \<Rightarrow> of_nat a | _ \<Rightarrow> 0) = (0 :: u32)" by (auto split: list.splits)
    then show ?thesis using find card False by simp
  qed
qed

theorem find_unique_correct_witness:
  "firmware_find_unique_xtensa_function sample_zlib (scan_mem 0x36 0x41 0) 0x40080000 0x40080003 3 0x77 =
     (min 2 (card (matching sample_zlib (scan_mem 0x36 0x41 0) 0x40080000 0x40080003 3 0x77)),
      if card (matching sample_zlib (scan_mem 0x36 0x41 0) 0x40080000 0x40080003 3 0x77) = 1
      then the_elem (matching sample_zlib (scan_mem 0x36 0x41 0) 0x40080000 0x40080003 3 0x77) else 0) \<and>
   firmware_find_unique_xtensa_function sample_zlib (scan_mem 0x36 0x41 0) 0x40080000 0x40080003 3 0x77 =
     (1, 0x40080000)"
proof (rule conjI)
  show "firmware_find_unique_xtensa_function sample_zlib (scan_mem 0x36 0x41 0) 0x40080000 0x40080003 3 0x77 =
     (min 2 (card (matching sample_zlib (scan_mem 0x36 0x41 0) 0x40080000 0x40080003 3 0x77)),
      if card (matching sample_zlib (scan_mem 0x36 0x41 0) 0x40080000 0x40080003 3 0x77) = 1
      then the_elem (matching sample_zlib (scan_mem 0x36 0x41 0) 0x40080000 0x40080003 3 0x77) else 0)"
    by (rule find_unique_correct) simp_all
  show "firmware_find_unique_xtensa_function sample_zlib (scan_mem 0x36 0x41 0) 0x40080000 0x40080003 3 0x77 =
     (1, 0x40080000)"
    by (simp add: firmware_find_unique_xtensa_function_def firmware_scan_xtensa_functions_def Let_def
      entry_at_def scan_bytes scan_peek firmware_xtensa_is_entry_def XT_OP0_def XT_N_def XT_M_def XT_S_def
      match_at_def firmware_xtensa_reloc_crc32_matches_def firmware_xtensa_crc32_matches_kind_def
      scan_range_ok_def xtensa_crc_loop.simps normalize_insn_def sample_zlib_def)
qed

end
