(* ===== verification/Sha_Firmware.thy ===== *)
theory Sha_Firmware
  imports Sha Rom_Hooks_Facts Firmware_Scan_Facts
begin

text \<open>
  The discovery of the mbedTLS 3 SHA-256 functions in images without symbols (src/src/sha_stubs.c):
  a candidate is accepted when all six functions have the expected bodies and every call and
  literal in them leads where it must; the four public functions are then hooked. The starts of
  the families hooked so far are a list.
\<close>

section \<open>Matching a family\<close>

definition MBED_SHA256_FREE_DELTA :: u32 where "MBED_SHA256_FREE_DELTA = 0x014"
definition MBED_SHA256_FREE_SIZE :: nat where "MBED_SHA256_FREE_SIZE = 0x012"
definition MBED_SHA256_STARTS_SIZE :: nat where "MBED_SHA256_STARTS_SIZE = 0x06B"
definition MBED_SHA256_PROCESS_DELTA :: u32 where "MBED_SHA256_PROCESS_DELTA = 0x06C"
definition MBED_SHA256_PROCESS_SIZE :: nat where "MBED_SHA256_PROCESS_SIZE = 0x876"
definition MBED_SHA256_UPDATE_DELTA :: u32 where "MBED_SHA256_UPDATE_DELTA = 0x8E4"
definition MBED_SHA256_UPDATE_SIZE :: nat where "MBED_SHA256_UPDATE_SIZE = 0x08D"
definition MBED_SHA256_FINISH_DELTA :: u32 where "MBED_SHA256_FINISH_DELTA = 0x974"
definition MBED_SHA256_FINISH_SIZE :: nat where "MBED_SHA256_FINISH_SIZE = 0x1BC"
definition MBED_SHA256_ZEROIZE_DELTA :: u32 where "MBED_SHA256_ZEROIZE_DELTA = 0xB30"
definition MBED_SHA256_ZEROIZE_SIZE :: nat where "MBED_SHA256_ZEROIZE_SIZE = 0x018"
definition MBED_SHA256_FAMILY_SIZE :: u32 where "MBED_SHA256_FAMILY_SIZE = 0xB48"
definition MBED_SHA256_FAMILY_MAX :: nat where "MBED_SHA256_FAMILY_MAX = 4"

record mbed_sha256_family =
  free_entry :: u32
  starts_entry :: u32
  process_entry :: u32
  update_entry :: u32
  finish_entry :: u32
  zeroize_entry :: u32

definition mbed_sha256_l32r_value :: "xmem \<Rightarrow> u32 \<Rightarrow> u32 option" where
  "mbed_sha256_l32r_value m a =
     (case firmware_xtensa_l32r_target m a of None \<Rightarrow> None | Some literal \<Rightarrow> firmware_peek m literal 4)"

definition mbed_sha256_l32r_is :: "xmem \<Rightarrow> u32 \<Rightarrow> u32 \<Rightarrow> bool" where
  "mbed_sha256_l32r_is m a expected \<longleftrightarrow> mbed_sha256_l32r_value m a = Some expected"

definition mbed_sha256_call_is :: "xmem \<Rightarrow> u32 \<Rightarrow> u32 \<Rightarrow> bool" where
  "mbed_sha256_call_is m a expected \<longleftrightarrow> firmware_xtensa_call_target m a = Some (2, expected)"

definition mbed_sha256_iv_matches :: "xmem \<Rightarrow> u32 \<Rightarrow> u32 list \<Rightarrow> bool" where
  "mbed_sha256_iv_matches m first_l32r expected \<longleftrightarrow>
     list_all (\<lambda>i. mbed_sha256_l32r_is m (first_l32r + of_nat i * 3) (expected ! i)) [0 ..< 8]"

definition sha224_iv :: "u32 list" where
  "sha224_iv = [0xC1059ED8, 0x367CD507, 0x3070DD17, 0xF70E5939,
     0xFFC00B31, 0x68581511, 0x64F98FA7, 0xBEFA4FA4]"

definition sha256_iv :: "u32 list" where
  "sha256_iv = [0x6A09E667, 0xBB67AE85, 0x3C6EF372, 0xA54FF53A,
     0x510E527F, 0x9B05688C, 0x1F83D9AB, 0x5BE0CD19]"

definition finish_bswap_l32rs :: "u32 list" where
  "finish_bswap_l32rs = [0x03C, 0x05D, 0x085, 0x0A6, 0x0C7, 0x0E8, 0x109, 0x12A, 0x14B, 0x171]"

definition rom_bswap32 :: u32 where "rom_bswap32 = 0x40064AE0"

definition family_of :: "u32 \<Rightarrow> mbed_sha256_family" where
  "family_of s =
     \<lparr>free_entry = s - MBED_SHA256_FREE_DELTA, starts_entry = s,
      process_entry = s + MBED_SHA256_PROCESS_DELTA, update_entry = s + MBED_SHA256_UPDATE_DELTA,
      finish_entry = s + MBED_SHA256_FINISH_DELTA, zeroize_entry = s + MBED_SHA256_ZEROIZE_DELTA\<rparr>"

definition family_bodies :: "zlib \<Rightarrow> xmem \<Rightarrow> mbed_sha256_family \<Rightarrow> bool" where
  "family_bodies Z m f \<longleftrightarrow>
     firmware_xtensa_crc32_matches Z m (free_entry f) MBED_SHA256_FREE_SIZE 0xBDEC3621 \<and>
     firmware_xtensa_crc32_matches Z m (starts_entry f) MBED_SHA256_STARTS_SIZE 0x8BDD1D33 \<and>
     firmware_xtensa_crc32_matches Z m (process_entry f) MBED_SHA256_PROCESS_SIZE 0x442D8BE9 \<and>
     firmware_xtensa_crc32_matches Z m (update_entry f) MBED_SHA256_UPDATE_SIZE 0x547BE768 \<and>
     firmware_xtensa_crc32_matches Z m (finish_entry f) MBED_SHA256_FINISH_SIZE 0xA54ABEFA \<and>
     firmware_xtensa_crc32_matches Z m (zeroize_entry f) MBED_SHA256_ZEROIZE_SIZE 0x2BBFDF6C"

definition family_calls :: "xmem \<Rightarrow> mbed_sha256_family \<Rightarrow> bool" where
  "family_calls m f \<longleftrightarrow>
     mbed_sha256_iv_matches m (starts_entry f + 0x0E) sha224_iv \<and>
     mbed_sha256_iv_matches m (starts_entry f + 0x50) sha256_iv \<and>
     mbed_sha256_call_is m (free_entry f + 0x0C) (zeroize_entry f) \<and>
     mbed_sha256_call_is m (process_entry f + 0x866) (zeroize_entry f) \<and>
     mbed_sha256_call_is m (update_entry f + 0x3F) (process_entry f) \<and>
     mbed_sha256_call_is m (update_entry f + 0x56) (process_entry f) \<and>
     mbed_sha256_call_is m (finish_entry f + 0x7F) (process_entry f) \<and>
     mbed_sha256_call_is m (finish_entry f + 0x191) (free_entry f) \<and>
     mbed_sha256_call_is m (finish_entry f + 0x1B0) (process_entry f)"

text \<open>The helpers and tables reached through literals.\<close>

definition family_literals :: "zlib \<Rightarrow> xmem \<Rightarrow> mbed_sha256_family \<Rightarrow> bool" where
  "family_literals Z m f \<longleftrightarrow>
     (case mbed_sha256_l32r_value m (process_entry f + 0x12) of
        None \<Rightarrow> False
      | Some memcpy_entry \<Rightarrow>
          mbed_sha256_l32r_is m (update_entry f + 0x30) memcpy_entry \<and>
          mbed_sha256_l32r_is m (update_entry f + 0x80) memcpy_entry \<and>
          is_entry_at m memcpy_entry) \<and>
     (case mbed_sha256_l32r_value m (finish_entry f + 0x2A) of
        None \<Rightarrow> False
      | Some memset_entry \<Rightarrow>
          mbed_sha256_l32r_is m (finish_entry f + 0x1A4) memset_entry \<and>
          is_entry_at m memset_entry \<and>
          mbed_sha256_l32r_is m (process_entry f + 0x41) rom_bswap32 \<and>
          list_all (\<lambda>off. mbed_sha256_l32r_is m (finish_entry f + off) rom_bswap32) finish_bswap_l32rs \<and>
          (case mbed_sha256_l32r_value m (process_entry f + 0x4C) of
             None \<Rightarrow> False
           | Some constants \<Rightarrow> firmware_crc32_matches Z m constants 256 0x296FDE2A) \<and>
          (case mbed_sha256_l32r_value m (zeroize_entry f + 0x07) of
             None \<Rightarrow> False
           | Some zeroize_slot \<Rightarrow> firmware_peek m zeroize_slot 4 = Some memset_entry))"

definition mbed_sha256_family_matches :: "zlib \<Rightarrow> xmem \<Rightarrow> u32 \<Rightarrow> mbed_sha256_family option" where
  "mbed_sha256_family_matches Z m s =
     (let f = family_of s in
      if s < MBED_SHA256_FREE_DELTA \<or> UINT32_MAX - MBED_SHA256_FAMILY_SIZE < s \<or>
         \<not> family_bodies Z m f \<or> \<not> family_calls m f \<or> \<not> family_literals Z m f
      then None else Some f)"

definition mbed_sha256_family_already_hooked :: "u32 list \<Rightarrow> u32 \<Rightarrow> bool" where
  "mbed_sha256_family_already_hooked hooked s \<longleftrightarrow> s \<in> set hooked"

section \<open>Hooking\<close>

definition family_hooks :: "mbed_sha256_family \<Rightarrow> (u32 \<times> string \<times> string) list" where
  "family_hooks f =
     [(free_entry f, ''stub_mbedtls_sha256_free'', ''mbedtls_sha256_free''),
      (starts_entry f, ''stub_mbedtls_sha256_starts'', ''mbedtls_sha256_starts''),
      (update_entry f, ''stub_mbedtls_sha256_update'', ''mbedtls_sha256_update''),
      (finish_entry f, ''stub_mbedtls_sha256_finish'', ''mbedtls_sha256_finish'')]"

text \<open>All four registrations are made, whatever the first ones return. \<open>ss\<close> is the context pointer of
  the accelerator.\<close>

definition install_family ::
  "xmem \<Rightarrow> nat \<Rightarrow> mbed_sha256_family \<Rightarrow> esp32_rom_stubs \<Rightarrow> bool \<times> esp32_rom_stubs" where
  "install_family m ss f rom =
     fold (\<lambda>(addr, fn, nm) (installed, rom).
             case rom_stubs_register_exact_ctx m addr fn nm (User_Ctx ss) rom of
               (rc, rom1) \<Rightarrow> (installed \<and> rc = 0, rom1))
       (family_hooks f) (True, rom)"

definition starts_prefix :: "u8 list" where
  "starts_prefix = [0x36, 0x41, 0x00, 0x8D, 0x02, 0x22, 0xAF, 0x8C, 0xF6, 0x23, 0x3F, 0x16]"

text \<open>One candidate: the count of hooks it adds and what it leaves behind.\<close>

definition try_family ::
  "zlib \<Rightarrow> xmem \<Rightarrow> nat \<Rightarrow> u32 \<Rightarrow> int \<times> u32 list \<times> esp32_rom_stubs \<Rightarrow> int \<times> u32 list \<times> esp32_rom_stubs" where
  "try_family Z m ss s st =
     (case st of (n, hooked, rom) \<Rightarrow>
        if mbed_sha256_family_already_hooked hooked s then st
        else case mbed_sha256_family_matches Z m s of
            None \<Rightarrow> st
          | Some f \<Rightarrow>
              (case install_family m ss f rom of
                 (installed, rom1) \<Rightarrow>
                   if installed then (n + 4, hooked @ [s], rom1) else (n, hooked, rom1)))"

lemma find_member: "List.find P xs = Some x \<Longrightarrow> x \<in> set xs"
  by (induction xs) (auto split: if_splits)

lemma find_body_range:
  assumes "firmware_find_xtensa_crc32_body Z m cursor end_addr prefix n crc = Some a" "0 < n"
  shows "cursor \<le> a" "a < end_addr"
proof -
  have g: "n \<le> unat (end_addr - cursor)" "cursor < end_addr"
    using assms(1)
    by (auto simp: firmware_find_xtensa_crc32_body_def firmware_find_crc32_body_kind_def split: if_splits)
  obtain k where k: "a = of_nat k" "k \<in> set [unat cursor ..< unat (end_addr - of_nat n) + 1]"
    using assms(1)
    by (auto simp: firmware_find_xtensa_crc32_body_def firmware_find_crc32_body_kind_def simp del: upt_Suc
        split: if_splits dest!: find_member)
  have d: "unat (end_addr - cursor) = unat end_addr - unat cursor" using g(2) by (simp add: unat_sub less_imp_le)
  have n: "unat (of_nat n :: u32) = n"
    using g(1) unsigned_less [of "end_addr - cursor", where ?'a = nat] by (simp add: unat_of_nat)
  have "unat (end_addr - of_nat n) = unat end_addr - n"
    using g d n by (subst unat_sub) (simp_all add: word_le_nat_alt)
  then have k': "unat cursor \<le> k" "k < unat end_addr" using k(2) g d assms(2) by auto
  then have "unat a = k"
    using k(1) unsigned_less [of end_addr, where ?'a = nat] by (simp add: unat_of_nat)
  then show "cursor \<le> a" "a < end_addr" using k' by (simp_all add: word_le_nat_alt word_less_nat_alt)
qed

function mbed_sha256_scan_range ::
  "zlib \<Rightarrow> xmem \<Rightarrow> nat \<Rightarrow> u32 \<Rightarrow> u32 \<Rightarrow> int \<times> u32 list \<times> esp32_rom_stubs \<Rightarrow>
     int \<times> u32 list \<times> esp32_rom_stubs" where
  "mbed_sha256_scan_range Z m ss cursor end_addr st =
     (if length (fst (snd st)) < MBED_SHA256_FAMILY_MAX
      then (case firmware_find_xtensa_crc32_body Z m cursor end_addr starts_prefix
                   MBED_SHA256_STARTS_SIZE 0x8BDD1D33 of
              None \<Rightarrow> st
            | Some s \<Rightarrow> mbed_sha256_scan_range Z m ss (s + 1) end_addr (try_family Z m ss s st))
      else st)"
  by pat_completeness auto

termination
proof (relation "measure (\<lambda>(Z, m, ss, cursor, end_addr, st). unat end_addr - unat cursor)", goal_cases)
  case (2 Z m ss cursor end_addr st s)
  from 2(2) have "cursor \<le> s" "s < end_addr"
    by (rule find_body_range, simp add: MBED_SHA256_STARTS_SIZE_def)+
  moreover have "unat (s + 1) = unat s + 1"
    using \<open>s < end_addr\<close> unsigned_less [of end_addr, where ?'a = nat]
    by (simp add: unat_word_ariths word_less_nat_alt)
  ultimately show ?case by (simp add: word_le_nat_alt word_less_nat_alt)
qed simp

declare mbed_sha256_scan_range.simps [simp del]

text \<open>Both executable ranges of the classic ESP32. Without a hook table nothing is done.\<close>

definition sha_stubs_hook_firmware ::
  "zlib \<Rightarrow> xmem \<Rightarrow> nat \<Rightarrow> u32 list \<times> esp32_rom_stubs option \<Rightarrow> int \<times> u32 list \<times> esp32_rom_stubs option" where
  "sha_stubs_hook_firmware Z m ss st =
     (case snd st of
        None \<Rightarrow> (0, st)
      | Some rom \<Rightarrow>
          (case mbed_sha256_scan_range Z m ss 0x40070000 0x400C0000 (0, fst st, rom) of
             (n1, hooked1, rom1) \<Rightarrow>
               (case mbed_sha256_scan_range Z m ss 0x400D0000 0x40400000 (0, hooked1, rom1) of
                  (n2, hooked2, rom2) \<Rightarrow> (n1 + n2, hooked2, Some rom2))))"

end
