(* ===== verification/Sha_Discovery.thy ===== *)
theory Sha_Discovery
  imports Sha_Firmware
begin

text \<open>
  What the discovery of the SHA-256 functions (Sha_Firmware) hooks: exactly the families in the
  image, in ascending order, up to four. The example at the end is an image that holds one.
\<close>

section \<open>What is hooked\<close>

text \<open>The entries a family adds.\<close>

definition family_entries :: "nat \<Rightarrow> u32 \<Rightarrow> rom_stub_entry list" where
  "family_entries ss s =
     map (\<lambda>(addr, fn, nm). \<lparr>re_addr = addr, re_fn = Some fn, re_conditional_fn = None, re_name = nm,
            re_call_count = 0, re_ctx = User_Ctx ss, re_spy = False\<rparr>) (family_hooks (family_of s))"

lemma register_exact_entries:
  "length (rs_entries rom) < MAX_ROM_STUBS \<Longrightarrow>
   fst (rom_stubs_register_exact_ctx m a fn nm ctx rom) = 0 \<and>
   rs_entries (snd (rom_stubs_register_exact_ctx m a fn nm ctx rom)) = rs_entries rom @
     [\<lparr>re_addr = a, re_fn = Some fn, re_conditional_fn = None, re_name = nm, re_call_count = 0,
       re_ctx = ctx, re_spy = False\<rparr>]"
  by (simp add: rom_stubs_register_exact_ctx_def rom_stubs_register_any_def Let_def)

lemma install_entries:
  assumes "length (rs_entries rom) + 4 \<le> MAX_ROM_STUBS"
  shows "fst (install_family m ss (family_of s) rom)"
    "rs_entries (snd (install_family m ss (family_of s) rom)) = rs_entries rom @ family_entries ss s"
proof -
  have reg: "length (rs_entries rom) < MAX_ROM_STUBS \<Longrightarrow>
      \<exists>rom'. rom_stubs_register_exact_ctx m a fn nm ctx rom = (0, rom') \<and> rs_entries rom' = rs_entries rom @
        [\<lparr>re_addr = a, re_fn = Some fn, re_conditional_fn = None, re_name = nm, re_call_count = 0,
          re_ctx = ctx, re_spy = False\<rparr>]" for rom a fn nm ctx
    using register_exact_entries [of rom m a fn nm ctx] by (metis prod.collapse)
  have "fst (fold (\<lambda>(addr, fn, nm) (installed, rom).
             case rom_stubs_register_exact_ctx m addr fn nm (User_Ctx ss) rom of
               (rc, rom1) \<Rightarrow> (installed \<and> rc = 0, rom1)) hs (True, rom)) \<and>
      rs_entries (snd (fold (\<lambda>(addr, fn, nm) (installed, rom).
             case rom_stubs_register_exact_ctx m addr fn nm (User_Ctx ss) rom of
               (rc, rom1) \<Rightarrow> (installed \<and> rc = 0, rom1)) hs (True, rom))) =
        rs_entries rom @ map (\<lambda>(addr, fn, nm). \<lparr>re_addr = addr, re_fn = Some fn, re_conditional_fn = None,
          re_name = nm, re_call_count = 0, re_ctx = User_Ctx ss, re_spy = False\<rparr>) hs"
    if "length (rs_entries rom) + length hs \<le> MAX_ROM_STUBS" for hs rom
    using that
  proof (induction hs arbitrary: rom)
    case (Cons h hs)
    obtain a fn nm where h: "h = (a, fn, nm)" by (metis prod.collapse)
    obtain rom' where rom': "rom_stubs_register_exact_ctx m a fn nm (User_Ctx ss) rom = (0, rom')"
      "rs_entries rom' = rs_entries rom @ [\<lparr>re_addr = a, re_fn = Some fn, re_conditional_fn = None, re_name = nm,
         re_call_count = 0, re_ctx = User_Ctx ss, re_spy = False\<rparr>]"
      using reg [of rom a fn nm "User_Ctx ss"] Cons.prems by auto
    then show ?case using Cons.IH [of rom'] Cons.prems by (simp add: h)
  qed simp
  from this [of rom "family_hooks (family_of s)"] assms
  show "fst (install_family m ss (family_of s) rom)"
    "rs_entries (snd (install_family m ss (family_of s) rom)) = rs_entries rom @ family_entries ss s"
    by (simp_all add: install_family_def family_entries_def family_hooks_def)
qed

lemma family_matches_of: "mbed_sha256_family_matches Z m s = Some f \<Longrightarrow> f = family_of s"
  by (auto simp: mbed_sha256_family_matches_def Let_def split: if_splits)

lemma family_entries_length [simp]: "length (family_entries ss s) = 4"
  by (simp add: family_entries_def family_hooks_def)

lemma concat_families_length: "length (concat (map (family_entries ss) ss')) = 4 * length ss'"
  by (induction ss') simp_all

text \<open>
  The specification of the discovery. A family starts at an address whose bytes begin as those of
  the starts function do and whose six bodies, calls and literals match; the candidates of a
  range are the addresses, in ascending order, where the body of starts fits before its end.
\<close>

definition family_at :: "zlib \<Rightarrow> xmem \<Rightarrow> u32 \<Rightarrow> bool" where
  "family_at Z m s \<longleftrightarrow>
     firmware_signature_matches m s starts_prefix \<and> mbed_sha256_family_matches Z m s \<noteq> None"

definition range_starts :: "u32 \<Rightarrow> u32 \<Rightarrow> u32 list" where
  "range_starts lo hi = map of_nat [unat lo ..< unat hi + 1 - MBED_SHA256_STARTS_SIZE]"

definition discoverable :: "zlib \<Rightarrow> xmem \<Rightarrow> u32 list \<Rightarrow> u32 list" where
  "discoverable Z m old =
     take (MBED_SHA256_FAMILY_MAX - length old)
       (filter (\<lambda>s. family_at Z m s \<and> s \<notin> set old)
          (range_starts 0x40070000 0x400C0000 @ range_starts 0x400D0000 0x40400000))"

text \<open>The candidates the search of the code goes through: prefix and checksum of starts match.\<close>

definition starts_at :: "zlib \<Rightarrow> xmem \<Rightarrow> u32 \<Rightarrow> bool" where
  "starts_at Z m s \<longleftrightarrow> fetch_byte m s = Some (hd starts_prefix) \<and> firmware_signature_matches m s starts_prefix \<and>
     firmware_xtensa_crc32_matches Z m s MBED_SHA256_STARTS_SIZE 0x8BDD1D33"

lemma signature_first: "firmware_signature_matches m s starts_prefix \<Longrightarrow> fetch_byte m s = Some (hd starts_prefix)"
  by (simp add: firmware_signature_matches_def starts_prefix_def upt_rec)

lemma family_at_starts: "family_at Z m s \<Longrightarrow> starts_at Z m s"
  by (auto simp: family_at_def starts_at_def signature_first mbed_sha256_family_matches_def family_bodies_def
      family_of_def Let_def split: if_splits)

lemma filter_upt_find:
  "filter P [a ..< b] = (case List.find P [a ..< b] of None \<Rightarrow> [] | Some x \<Rightarrow> x # filter P [Suc x ..< b])"
proof (induction "b - a" arbitrary: a)
  case (Suc n)
  then have a: "a < b" "n = b - Suc a" by simp_all
  then show ?case using Suc(1) [OF a(2)] by (cases "P a") (simp_all add: upt_conv_Cons split: option.split)
qed simp

text \<open>Every search continues the list of candidates.\<close>

lemma find_starts:
  "filter (starts_at Z m) (range_starts cursor hi) =
     (case firmware_find_xtensa_crc32_body Z m cursor hi starts_prefix MBED_SHA256_STARTS_SIZE 0x8BDD1D33 of
        None \<Rightarrow> []
      | Some s \<Rightarrow> s # filter (starts_at Z m) (range_starts (s + 1) hi))"
proof (cases "hi \<le> cursor \<or> unat (hi - cursor) < MBED_SHA256_STARTS_SIZE")
  case True
  then have "unat hi + 1 - MBED_SHA256_STARTS_SIZE \<le> unat cursor"
    by (cases "hi \<le> cursor") (auto simp: word_le_nat_alt unat_sub_if' MBED_SHA256_STARTS_SIZE_def split: if_splits)
  then show ?thesis
    using True by (auto simp: range_starts_def firmware_find_xtensa_crc32_body_def
        firmware_find_crc32_body_kind_def)
next
  case False
  let ?b = "unat hi + 1 - MBED_SHA256_STARTS_SIZE" and ?Q = "\<lambda>a. starts_at Z m (of_nat a)"
  have le: "cursor < hi" using False by (meson not_le)
  have h: "unat (hi - cursor) = unat hi - unat cursor" "unat cursor < unat hi"
    using unat_sub [OF less_imp_le [OF le]] le by (simp_all add: word_less_nat_alt)
  have fit: "107 \<le> unat hi" using False h unfolding MBED_SHA256_STARTS_SIZE_def by linarith
  then have "unat (hi - of_nat MBED_SHA256_STARTS_SIZE) + 1 = ?b"
    by (subst unat_sub) (simp_all add: word_le_nat_alt MBED_SHA256_STARTS_SIZE_def)
  then have body: "firmware_find_xtensa_crc32_body Z m cursor hi starts_prefix MBED_SHA256_STARTS_SIZE 0x8BDD1D33 =
      map_option of_nat (List.find ?Q [unat cursor ..< ?b])"
    using False unfolding firmware_find_xtensa_crc32_body_def firmware_find_crc32_body_kind_def
    by (simp add: starts_prefix_def MBED_SHA256_STARTS_SIZE_def starts_at_def)
  have L: "filter (starts_at Z m) (range_starts cursor hi) = map of_nat (filter ?Q [unat cursor ..< ?b])"
    by (simp add: range_starts_def filter_map comp_def)
  show ?thesis
  proof (cases "List.find ?Q [unat cursor ..< ?b]")
    case None
    then show ?thesis unfolding L body filter_upt_find [of ?Q "unat cursor" ?b] by simp
  next
    case (Some x)
    then have "x < ?b" by (auto dest: find_member)
    then have "x + 1 < 2 ^ 32" using unsigned_less [of hi, where ?'a = nat] fit
      by (simp add: MBED_SHA256_STARTS_SIZE_def)
    then have "unat (of_nat (Suc x) :: u32) = Suc x" by (simp add: unat_of_nat del: of_nat_Suc)
    then have "unat (of_nat x + 1 :: u32) = Suc x" by (simp add: add.commute)
    then have "filter (starts_at Z m) (range_starts (of_nat x + 1) hi) = map of_nat (filter ?Q [Suc x ..< ?b])"
      by (simp add: range_starts_def filter_map comp_def)
    then show ?thesis unfolding L body filter_upt_find [of ?Q "unat cursor" ?b] Some by simp
  qed
qed

text \<open>The scan as a walk over the candidates.\<close>

fun walk_families ::
  "zlib \<Rightarrow> xmem \<Rightarrow> nat \<Rightarrow> u32 list \<Rightarrow> int \<times> u32 list \<times> esp32_rom_stubs \<Rightarrow> int \<times> u32 list \<times> esp32_rom_stubs" where
  "walk_families Z m ss [] st = st"
| "walk_families Z m ss (s # cs) st =
     (if length (fst (snd st)) < MBED_SHA256_FAMILY_MAX then walk_families Z m ss cs (try_family Z m ss s st) else st)"

lemma scan_range_walk:
  "mbed_sha256_scan_range Z m ss cursor hi st =
     walk_families Z m ss (filter (starts_at Z m) (range_starts cursor hi)) st"
proof (induction Z m ss cursor hi st rule: mbed_sha256_scan_range.induct)
  case (1 Z m ss cursor hi st)
  have full: "walk_families Z m ss cs st = st" if "\<not> length (fst (snd st)) < MBED_SHA256_FAMILY_MAX" for cs
    using that by (cases cs) simp_all
  show ?case
    using 1 full unfolding mbed_sha256_scan_range.simps [of Z m ss cursor] find_starts [of Z m cursor]
    by (auto split: option.split)
qed

text \<open>What a walk does.\<close>

lemma walk_result:
  assumes "distinct cs" "length (rs_entries rom) + 4 * (MBED_SHA256_FAMILY_MAX - length hooked) \<le> MAX_ROM_STUBS"
  shows "\<exists>found rom'. found = take (MBED_SHA256_FAMILY_MAX - length hooked)
       (filter (\<lambda>s. mbed_sha256_family_matches Z m s \<noteq> None \<and> s \<notin> set hooked) cs) \<and>
     walk_families Z m ss cs (n, hooked, rom) = (n + 4 * int (length found), hooked @ found, rom') \<and>
     rs_entries rom' = rs_entries rom @ concat (map (family_entries ss) found)"
  using assms
proof (induction cs arbitrary: n hooked rom)
  case (Cons s cs)
  show ?case
  proof (cases "length hooked < MBED_SHA256_FAMILY_MAX")
    case False
    then show ?thesis by simp
  next
    case few: True
    show ?thesis
    proof (cases "s \<in> set hooked \<or> mbed_sha256_family_matches Z m s = None")
      case True
      then have "try_family Z m ss s (n, hooked, rom) = (n, hooked, rom)"
        by (auto simp: try_family_def mbed_sha256_family_already_hooked_def)
      then show ?thesis using Cons.IH [of rom hooked n] Cons.prems few True by auto
    next
      case False
      then have s: "s \<notin> set hooked" "mbed_sha256_family_matches Z m s = Some (family_of s)"
        using family_matches_of by fastforce+
      have room: "length (rs_entries rom) + 4 \<le> MAX_ROM_STUBS" using Cons.prems(2) few by simp
      obtain rom1 where r: "install_family m ss (family_of s) rom = (True, rom1)"
        "rs_entries rom1 = rs_entries rom @ family_entries ss s"
        using install_entries [OF room, of m ss s] by (metis prod.collapse)
      have try_s: "try_family Z m ss s (n, hooked, rom) = (n + 4, hooked @ [s], rom1)"
        using s r(1) by (simp add: try_family_def mbed_sha256_family_already_hooked_def)
      have k: "MBED_SHA256_FAMILY_MAX - length hooked = Suc (MBED_SHA256_FAMILY_MAX - length (hooked @ [s]))"
        using few by simp
      have later: "filter (\<lambda>x. mbed_sha256_family_matches Z m x \<noteq> None \<and> x \<notin> set (hooked @ [s])) cs =
          filter (\<lambda>x. mbed_sha256_family_matches Z m x \<noteq> None \<and> x \<notin> set hooked) cs"
        using Cons.prems(1) by (intro filter_cong) auto
      have "length (rs_entries rom1) + 4 * (MBED_SHA256_FAMILY_MAX - length (hooked @ [s])) \<le> MAX_ROM_STUBS"
        using Cons.prems(2) k by (simp add: r(2))
      from Cons.IH [OF _ this, of "n + 4"] Cons.prems(1)
      show ?thesis unfolding later k using few s r(2) by (auto simp: try_s)
    qed
  qed
qed simp

lemma distinct_filter_eq: "distinct xs \<Longrightarrow> x \<in> set xs \<Longrightarrow> filter (\<lambda>y. y = x) xs = [x]"
  by (induction xs) (auto simp: filter_empty_conv)

lemma distinct_range_starts: "distinct (range_starts lo hi)"
  unfolding range_starts_def distinct_map
proof (intro conjI inj_onI)
  fix a b assume "a \<in> set [unat lo ..< unat hi + 1 - MBED_SHA256_STARTS_SIZE]"
    "b \<in> set [unat lo ..< unat hi + 1 - MBED_SHA256_STARTS_SIZE]" "(of_nat a :: u32) = of_nat b"
  moreover have "unat (of_nat k :: u32) = k" if "k < unat hi + 1 - MBED_SHA256_STARTS_SIZE" for k
    using that unsigned_less [of hi, where ?'a = nat] by (simp add: unat_of_nat MBED_SHA256_STARTS_SIZE_def)
  ultimately show "a = b" by (metis atLeastLessThan_iff atLeastLessThan_upt)
qed simp

lemma range_starts_bounds: "s \<in> set (range_starts lo hi) \<Longrightarrow> lo \<le> s \<and> s < hi"
proof -
  assume "s \<in> set (range_starts lo hi)"
  then obtain k where k: "unat lo \<le> k" "k < unat hi" "s = of_nat k"
    by (auto simp: range_starts_def MBED_SHA256_STARTS_SIZE_def)
  then have "unat s = k" using unsigned_less [of hi, where ?'a = nat] by (simp add: unat_of_nat)
  then show ?thesis using k by (simp add: word_le_nat_alt word_less_nat_alt)
qed

text \<open>Nothing but the families among the candidates matters.\<close>

lemma filter_families:
  "filter (\<lambda>s. mbed_sha256_family_matches Z m s \<noteq> None \<and> s \<notin> X) (filter (starts_at Z m) cs) =
   filter (\<lambda>s. family_at Z m s \<and> s \<notin> X) cs"
  unfolding filter_filter
  by (rule filter_cong) (use family_at_starts in \<open>auto simp: family_at_def starts_at_def\<close>)

text \<open>C31. Discovery hooks exactly the families in the image. With room for the hooks, the scan finds every
  address of the two executable ranges, in ascending order, at which the bytes of the starts
  function begin and all six bodies, calls and literals match, leaving out those hooked before,
  up to four families in all; it remembers them, and what it adds to the hook table is the four
  entries of each, in order.\<close>

theorem sha_hook_firmware_exact:
  assumes "length (rs_entries rom) + 16 \<le> MAX_ROM_STUBS"
  shows "\<exists>rom'. sha_stubs_hook_firmware Z m ss (old, Some rom) =
       (4 * int (length (discoverable Z m old)), old @ discoverable Z m old, Some rom') \<and>
     rs_entries rom' = rs_entries rom @ concat (map (family_entries ss) (discoverable Z m old))"
proof -
  define k where "k = MBED_SHA256_FAMILY_MAX - length old"
  define P where "P = (\<lambda>s. family_at Z m s \<and> s \<notin> set old)"
  define c1 where "c1 = range_starts 0x40070000 0x400C0000"
  define c2 where "c2 = range_starts 0x400D0000 0x40400000"
  define f1 where "f1 = take k (filter P c1)"
  define f2 where "f2 = take (k - length (filter P c1)) (filter P c2)"
  have d: "distinct (filter (starts_at Z m) c1)" "distinct (filter (starts_at Z m) c2)"
    by (simp_all add: c1_def c2_def distinct_range_starts)
  have room: "length (rs_entries rom) + 4 * (MBED_SHA256_FAMILY_MAX - length old) \<le> MAX_ROM_STUBS"
    using assms by (simp add: MBED_SHA256_FAMILY_MAX_def)
  obtain rom1 where r1: "walk_families Z m ss (filter (starts_at Z m) c1) (0, old, rom) =
      (4 * int (length f1), old @ f1, rom1)" "rs_entries rom1 = rs_entries rom @ concat (map (family_entries ss) f1)"
    using walk_result [OF d(1) room, where Z = Z and m = m and ss = ss and n = 0]
    unfolding filter_families k_def [symmetric] P_def [symmetric] f1_def [symmetric] by auto
  have k2: "MBED_SHA256_FAMILY_MAX - length (old @ f1) = k - length (filter P c1)"
    by (simp add: k_def f1_def)
  have "set f1 \<subseteq> set c1" by (auto simp: f1_def dest: in_set_takeD)
  moreover have "set c1 \<inter> set c2 = {}"
    using range_starts_bounds [of _ "0x40070000" "0x400C0000"] range_starts_bounds [of _ "0x400D0000" "0x40400000"]
    unfolding c1_def c2_def by (fastforce simp: word_le_nat_alt word_less_nat_alt)
  ultimately have p2: "filter (\<lambda>s. family_at Z m s \<and> s \<notin> set (old @ f1)) c2 = filter P c2"
    by (intro filter_cong) (auto simp: P_def)
  have "length (rs_entries rom1) + 4 * (MBED_SHA256_FAMILY_MAX - length (old @ f1)) \<le> MAX_ROM_STUBS"
    using room by (simp add: r1(2) concat_families_length f1_def k_def)
  from walk_result [OF d(2) this, where Z = Z and m = m and ss = ss and n = 0]
  obtain rom2 where r2: "walk_families Z m ss (filter (starts_at Z m) c2) (0, old @ f1, rom1) =
      (4 * int (length f2), (old @ f1) @ f2, rom2)"
    "rs_entries rom2 = rs_entries rom1 @ concat (map (family_entries ss) f2)"
    unfolding filter_families p2 k2 f2_def [symmetric] by auto
  have found: "discoverable Z m old = f1 @ f2"
    by (simp add: discoverable_def f1_def f2_def c1_def c2_def P_def k_def)
  have "sha_stubs_hook_firmware Z m ss (old, Some rom) =
      (4 * int (length f1) + 4 * int (length f2), (old @ f1) @ f2, Some rom2)"
    using r1(1) r2(1) unfolding c1_def c2_def by (simp add: sha_stubs_hook_firmware_def scan_range_walk)
  then show ?thesis unfolding found using r1(2) r2(2) by simp
qed

section \<open>An image with one family\<close>

text \<open>The bytes of the code page that are not zero: entry points of two helpers, a pool of literals,
  and a family of functions whose starts function is at offset 0x400. The checksum counts bytes
  and has the expected value after each of the expected lengths.\<close>

definition family_bytes :: "(nat \<times> u8) list" where
  "family_bytes =
     [(0x40, 0x36), (0x41, 0x21), (0x50, 0x36), (0x51, 0x21), (0x100, 0xD8), (0x101, 0x9E),
      (0x102, 0x05), (0x103, 0xC1), (0x104, 0x07), (0x105, 0xD5), (0x106, 0x7C), (0x107, 0x36),
      (0x108, 0x17), (0x109, 0xDD), (0x10A, 0x70), (0x10B, 0x30), (0x10C, 0x39), (0x10D, 0x59),
      (0x10E, 0x0E), (0x10F, 0xF7), (0x110, 0x31), (0x111, 0x0B), (0x112, 0xC0), (0x113, 0xFF),
      (0x114, 0x11), (0x115, 0x15), (0x116, 0x58), (0x117, 0x68), (0x118, 0xA7), (0x119, 0x8F),
      (0x11A, 0xF9), (0x11B, 0x64), (0x11C, 0xA4), (0x11D, 0x4F), (0x11E, 0xFA), (0x11F, 0xBE),
      (0x120, 0x67), (0x121, 0xE6), (0x122, 0x09), (0x123, 0x6A), (0x124, 0x85), (0x125, 0xAE),
      (0x126, 0x67), (0x127, 0xBB), (0x128, 0x72), (0x129, 0xF3), (0x12A, 0x6E), (0x12B, 0x3C),
      (0x12C, 0x3A), (0x12D, 0xF5), (0x12E, 0x4F), (0x12F, 0xA5), (0x130, 0x7F), (0x131, 0x52),
      (0x132, 0x0E), (0x133, 0x51), (0x134, 0x8C), (0x135, 0x68), (0x136, 0x05), (0x137, 0x9B),
      (0x138, 0xAB), (0x139, 0xD9), (0x13A, 0x83), (0x13B, 0x1F), (0x13C, 0x19), (0x13D, 0xCD),
      (0x13E, 0xE0), (0x13F, 0x5B), (0x140, 0x40), (0x142, 0x08), (0x143, 0x40), (0x144, 0x50),
      (0x146, 0x08), (0x147, 0x40), (0x148, 0xE0), (0x149, 0x4A), (0x14A, 0x06), (0x14B, 0x40),
      (0x14D, 0x02), (0x14E, 0x08), (0x14F, 0x40), (0x150, 0x44), (0x151, 0x01), (0x152, 0x08),
      (0x153, 0x40), (0x3F8, 0x65), (0x3F9, 0xB3), (0x400, 0x36), (0x401, 0x41), (0x403, 0x8D),
      (0x404, 0x02), (0x405, 0x22), (0x406, 0xAF), (0x407, 0x8C), (0x408, 0xF6), (0x409, 0x23),
      (0x40A, 0x3F), (0x40B, 0x16), (0x40E, 0x21), (0x40F, 0x3C), (0x410, 0xFF), (0x411, 0x21),
      (0x412, 0x3C), (0x413, 0xFF), (0x414, 0x21), (0x415, 0x3D), (0x416, 0xFF), (0x417, 0x21),
      (0x418, 0x3D), (0x419, 0xFF), (0x41A, 0x21), (0x41B, 0x3D), (0x41C, 0xFF), (0x41D, 0x21),
      (0x41E, 0x3D), (0x41F, 0xFF), (0x420, 0x21), (0x421, 0x3E), (0x422, 0xFF), (0x423, 0x21),
      (0x424, 0x3E), (0x425, 0xFF), (0x450, 0x21), (0x451, 0x34), (0x452, 0xFF), (0x453, 0x21),
      (0x454, 0x34), (0x455, 0xFF), (0x456, 0x21), (0x457, 0x34), (0x458, 0xFF), (0x459, 0x21),
      (0x45A, 0x34), (0x45B, 0xFF), (0x45C, 0x21), (0x45D, 0x35), (0x45E, 0xFF), (0x45F, 0x21),
      (0x460, 0x35), (0x461, 0xFF), (0x462, 0x21), (0x463, 0x35), (0x464, 0xFF), (0x465, 0x21),
      (0x466, 0x35), (0x467, 0xFF), (0x47E, 0x21), (0x47F, 0x30), (0x480, 0xFF), (0x4AD, 0x21),
      (0x4AE, 0x26), (0x4AF, 0xFF), (0x4B8, 0x21), (0x4B9, 0x25), (0x4BA, 0xFF), (0xCC6, 0x0D),
      (0xCC8, 0x0D), (0xCD2, 0xE5), (0xCD3, 0x25), (0xD14, 0x21), (0xD15, 0x0B), (0xD16, 0xFD),
      (0xD23, 0xA5), (0xD24, 0x74), (0xD25, 0xFF), (0xD3A, 0x25), (0xD3B, 0x73), (0xD3C, 0xFF),
      (0xD64, 0x21), (0xD65, 0xF7), (0xD66, 0xFC), (0xD9E, 0x21), (0xD9F, 0xE9), (0xDA0, 0xFC),
      (0xDB0, 0x21), (0xDB1, 0xE6), (0xDB2, 0xFC), (0xDD1, 0x21), (0xDD2, 0xDD), (0xDD3, 0xFC),
      (0xDF3, 0xA5), (0xDF4, 0x67), (0xDF5, 0xFF), (0xDF9, 0x21), (0xDFA, 0xD3), (0xDFB, 0xFC),
      (0xE1A, 0x21), (0xE1B, 0xCB), (0xE1C, 0xFC), (0xE3B, 0x21), (0xE3C, 0xC3), (0xE3D, 0xFC),
      (0xE5C, 0x21), (0xE5D, 0xBB), (0xE5E, 0xFC), (0xE7D, 0x21), (0xE7E, 0xB2), (0xE7F, 0xFC),
      (0xE80, 0x0D), (0xE9E, 0x21), (0xE9F, 0xAA), (0xEA0, 0xFC), (0xEBF, 0x21), (0xEC0, 0xA2),
      (0xEC1, 0xFC), (0xEE5, 0x21), (0xEE6, 0x98), (0xEE7, 0xFC), (0xF05, 0x65), (0xF06, 0x4E),
      (0xF07, 0xFF), (0xF18, 0x21), (0xF19, 0x8B), (0xF1A, 0xFC), (0xF24, 0x65), (0xF25, 0x54),
      (0xF26, 0xFF), (0xF37, 0x21), (0xF38, 0x86), (0xF39, 0xFC), (0xF3B, 0x0D), (0xF3D, 0x0D)]"

definition family_byte :: "nat \<Rightarrow> u8" where
  "family_byte k = (case map_of family_bytes k of None \<Rightarrow> 0 | Some b \<Rightarrow> b)"

definition family_mem :: xmem where
  "family_mem = sample_mem\<lparr>hbytes := \<lambda>_ k. family_byte (k - 0x70000)\<rparr>"

definition family_sums :: "(u32 \<times> u32) list" where
  "family_sums = [(0x12, 0xBDEC3621), (0x6B, 0x8BDD1D33), (0x876, 0x442D8BE9), (0x8D, 0x547BE768),
     (0x1BC, 0xA54ABEFA), (0x18, 0x2BBFDF6C), (0x100, 0x296FDE2A)]"

definition sum_of :: "u32 \<Rightarrow> u32" where
  "sum_of n = (case map_of family_sums n of None \<Rightarrow> n | Some s \<Rightarrow> s)"

definition len_of :: "u32 \<Rightarrow> u32" where
  "len_of s = (case map_of (map prod.swap family_sums) s of None \<Rightarrow> s | Some n \<Rightarrow> n)"

definition family_zlib :: zlib where
  "family_zlib = \<lparr>zl_init = 0, zl_crc32 = \<lambda>s bs. sum_of (len_of s + of_nat (length bs))\<rparr>"

lemma distinct_family_bytes: "distinct (map fst family_bytes)"
  by (simp add: family_bytes_def)

lemma family_bytes_all: "list_all (\<lambda>(k, b). family_byte k = b) family_bytes"
  unfolding list_all_iff using map_of_is_SomeI [OF distinct_family_bytes]
  by (auto simp: family_byte_def)

lemmas family_ground = family_bytes_all [unfolded family_bytes_def, simplified]

lemma family_gap:
  assumes "list_all (\<lambda>i. i < a \<or> b \<le> i) (map fst family_bytes)" "a \<le> k" "k < b"
  shows "family_byte k = 0"
proof -
  have "k \<notin> fst ` set family_bytes" using assms by (auto simp: list_all_iff)
  then show ?thesis by (simp add: family_byte_def map_of_eq_None_iff [THEN iffD2])
qed

lemma family_fetch:
  "fetch_byte family_mem a =
     (if page_of a = 0x40080 then Some (family_byte (page_off a))
      else if page_of a = 0x3FFB0 then Some (family_byte (0x10000 + page_off a - 0x70000)) else None)"
  by (simp add: fetch_byte_def family_mem_def mem_get_ptr_def sample_mem_def sample_tables_def hptr_add_def)

lemma family_fetch_code: "drop_bit 12 a = 0x40080 \<Longrightarrow> fetch_byte family_mem a = Some (family_byte (unat (a AND 0xFFF)))"
  by (simp add: family_fetch page_of_def page_off_def)

lemma family_gaps_raw: "list_all (\<lambda>i. i < 0x0 \<or> 0x40 \<le> i) (map fst family_bytes)"
  "list_all (\<lambda>i. i < 0x42 \<or> 0x50 \<le> i) (map fst family_bytes)"
  "list_all (\<lambda>i. i < 0x52 \<or> 0x100 \<le> i) (map fst family_bytes)"
  "list_all (\<lambda>i. i < 0x141 \<or> 0x142 \<le> i) (map fst family_bytes)"
  "list_all (\<lambda>i. i < 0x145 \<or> 0x146 \<le> i) (map fst family_bytes)"
  "list_all (\<lambda>i. i < 0x14c \<or> 0x14d \<le> i) (map fst family_bytes)"
  "list_all (\<lambda>i. i < 0x154 \<or> 0x3F8 \<le> i) (map fst family_bytes)"
  "list_all (\<lambda>i. i < 0x3fa \<or> 0x400 \<le> i) (map fst family_bytes)"
  "list_all (\<lambda>i. i < 0x402 \<or> 0x403 \<le> i) (map fst family_bytes)"
  "list_all (\<lambda>i. i < 0x40c \<or> 0x40e \<le> i) (map fst family_bytes)"
  "list_all (\<lambda>i. i < 0x426 \<or> 0x450 \<le> i) (map fst family_bytes)"
  "list_all (\<lambda>i. i < 0x468 \<or> 0x47e \<le> i) (map fst family_bytes)"
  "list_all (\<lambda>i. i < 0x481 \<or> 0x4ad \<le> i) (map fst family_bytes)"
  "list_all (\<lambda>i. i < 0x4b0 \<or> 0x4b8 \<le> i) (map fst family_bytes)"
  "list_all (\<lambda>i. i < 0x4bb \<or> 0xcc6 \<le> i) (map fst family_bytes)"
  "list_all (\<lambda>i. i < 0xcc7 \<or> 0xcc8 \<le> i) (map fst family_bytes)"
  "list_all (\<lambda>i. i < 0xcc9 \<or> 0xcd2 \<le> i) (map fst family_bytes)"
  "list_all (\<lambda>i. i < 0xcd4 \<or> 0xd14 \<le> i) (map fst family_bytes)"
  "list_all (\<lambda>i. i < 0xd17 \<or> 0xd23 \<le> i) (map fst family_bytes)"
  "list_all (\<lambda>i. i < 0xd26 \<or> 0xd3a \<le> i) (map fst family_bytes)"
  "list_all (\<lambda>i. i < 0xd3d \<or> 0xd64 \<le> i) (map fst family_bytes)"
  "list_all (\<lambda>i. i < 0xd67 \<or> 0xd9e \<le> i) (map fst family_bytes)"
  "list_all (\<lambda>i. i < 0xda1 \<or> 0xdb0 \<le> i) (map fst family_bytes)"
  "list_all (\<lambda>i. i < 0xdb3 \<or> 0xdd1 \<le> i) (map fst family_bytes)"
  "list_all (\<lambda>i. i < 0xdd4 \<or> 0xdf3 \<le> i) (map fst family_bytes)"
  "list_all (\<lambda>i. i < 0xdf6 \<or> 0xdf9 \<le> i) (map fst family_bytes)"
  "list_all (\<lambda>i. i < 0xdfc \<or> 0xe1a \<le> i) (map fst family_bytes)"
  "list_all (\<lambda>i. i < 0xe1d \<or> 0xe3b \<le> i) (map fst family_bytes)"
  "list_all (\<lambda>i. i < 0xe3e \<or> 0xe5c \<le> i) (map fst family_bytes)"
  "list_all (\<lambda>i. i < 0xe5f \<or> 0xe7d \<le> i) (map fst family_bytes)"
  "list_all (\<lambda>i. i < 0xe81 \<or> 0xe9e \<le> i) (map fst family_bytes)"
  "list_all (\<lambda>i. i < 0xea1 \<or> 0xebf \<le> i) (map fst family_bytes)"
  "list_all (\<lambda>i. i < 0xec2 \<or> 0xee5 \<le> i) (map fst family_bytes)"
  "list_all (\<lambda>i. i < 0xee8 \<or> 0xf05 \<le> i) (map fst family_bytes)"
  "list_all (\<lambda>i. i < 0xf08 \<or> 0xf18 \<le> i) (map fst family_bytes)"
  "list_all (\<lambda>i. i < 0xf1b \<or> 0xf24 \<le> i) (map fst family_bytes)"
  "list_all (\<lambda>i. i < 0xf27 \<or> 0xf37 \<le> i) (map fst family_bytes)"
  "list_all (\<lambda>i. i < 0xf3a \<or> 0xf3b \<le> i) (map fst family_bytes)"
  "list_all (\<lambda>i. i < 0xf3c \<or> 0xf3d \<le> i) (map fst family_bytes)"
  "list_all (\<lambda>i. i < 0xf3e \<or> 0x1000 \<le> i) (map fst family_bytes)"
  by (simp_all add: family_bytes_def)

lemmas family_zero = family_gaps_raw [THEN family_gap]


text \<open>The instructions from one offset to another, by the bit that gives their length.\<close>

inductive walks :: "nat \<Rightarrow> nat \<Rightarrow> bool" where
  walks_done: "walks k k"
| walks_insn: "walks (k + (if bit (family_byte k) 3 then 2 else 3)) e \<Longrightarrow> walks k e"

lemma walks_le: "walks k e \<Longrightarrow> k \<le> e"
  by (induction rule: walks.induct) (auto split: if_splits)

lemma walks_step: "k \<noteq> e \<Longrightarrow> walks k e = walks (k + (if bit (family_byte k) 3 then 2 else 3)) e"
  by (subst walks.simps) auto

lemma len_sum: "n < 0x1000 \<Longrightarrow> len_of (sum_of n) = n"
  by (auto simp: sum_of_def len_of_def family_sums_def)

lemma family_at_offset: "k < 4096 \<Longrightarrow> fetch_byte family_mem (0x40080000 + of_nat k) = Some (family_byte k)"
proof -
  assume k: "k < 4096"
  have u: "unat (0x40080000 + of_nat k :: u32) = 0x40080000 + k"
    using k by (simp add: unat_word_ariths unat_of_nat)
  have "page_of (0x40080000 + of_nat k) = 0x40080"
    using k by (simp add: word_unat_eq_iff unat_page_of u)
  moreover have "(0x40080 * 4096 + k) mod 4096 = k" using k by (simp only: mod_mult_self3 mod_less)
  then have "page_off (0x40080000 + of_nat k) = k" by (simp add: page_off_mod u)
  ultimately show ?thesis by (simp add: family_fetch)
qed

lemma and_8_bit: "(b AND 8 \<noteq> 0) = bit (b :: u8) 3"
  using and_exp_eq_0_iff_not_bit [of b 3] by simp

lemma walks_crc:
  "walks k e \<Longrightarrow> e \<le> 4096 \<Longrightarrow> n + (e - k) < 4096 \<Longrightarrow>
   xtensa_crc_loop family_zlib False family_mem (0x40080000 + of_nat k) (e - k) (sum_of (of_nat n)) =
     Some (sum_of (of_nat (n + (e - k))))"
proof (induction arbitrary: n rule: walks.induct)
  case (walks_done k)
  then show ?case by (simp add: xtensa_crc_loop.simps)
next
  case (walks_insn k e)
  define d where "d = (if bit (family_byte k) 3 then 2 else 3 :: nat)"
  have le: "k + d \<le> e" using walks_le [OF walks_insn.hyps] by (simp add: d_def)
  then have k: "k < 4096" "e - k \<noteq> 0" "\<not> e - k < d" using walks_insn.prems by (auto simp: d_def split: if_splits)
  have peek: "peek_bytes family_mem (0x40080000 + of_nat k) d = Some (map (\<lambda>i. family_byte (k + i)) [0 ..< d])"
  proof -
    have "fetch_byte family_mem (0x40080000 + of_nat k + of_nat i) = Some (family_byte (k + i))" if "i < d" for i
      using family_at_offset [of "k + i"] le that walks_insn.prems(1) by (simp add: add.assoc)
    then have "map (\<lambda>i. fetch_byte family_mem (0x40080000 + of_nat k + of_nat i)) [0 ..< d] =
        map Some (map (\<lambda>i. family_byte (k + i)) [0 ..< d])" by simp
    then show ?thesis unfolding peek_bytes_def those_map by simp
  qed
  have len: "length (normalize_insn False (map (\<lambda>i. family_byte (k + i)) [0 ..< d])) = d"
    by (simp add: normalize_insn_def d_def)
  have n: "n < 4096" "n + d + (e - (k + d)) = n + (e - k)" using walks_insn.prems le by simp_all
  have "len_of (sum_of (of_nat n)) = of_nat n"
    using n(1) by (intro len_sum) (simp add: word_less_nat_alt unat_of_nat)
  then have crc: "zl_crc32 family_zlib (sum_of (of_nat n)) (normalize_insn False (map (\<lambda>i. family_byte (k + i)) [0 ..< d])) =
      sum_of (of_nat (n + d))"
    by (simp add: family_zlib_def len)
  have "xtensa_crc_loop family_zlib False family_mem (0x40080000 + of_nat k) (e - k) (sum_of (of_nat n)) =
      xtensa_crc_loop family_zlib False family_mem (0x40080000 + of_nat k + of_nat d) (e - k - d) (sum_of (of_nat (n + d)))"
    using k family_at_offset [OF k(1)] peek crc
    by (subst xtensa_crc_loop.simps) (simp add: and_8_bit d_def [symmetric] del: of_nat_add)
  also have "\<dots> = xtensa_crc_loop family_zlib False family_mem (0x40080000 + of_nat (k + d)) (e - (k + d)) (sum_of (of_nat (n + d)))"
    by (simp add: add.assoc)
  also have "\<dots> = Some (sum_of (of_nat (n + d + (e - (k + d)))))"
    by (rule walks_insn.IH [folded d_def]) (use walks_insn.prems n(2) in simp_all)
  finally show ?case by (simp only: n(2))
qed

lemmas walks_eval = walks_step walks_done family_ground family_zero

lemma family_walks:
  "walks 0x3EC 0x3FE" "walks 0x400 0x46B" "walks 0xCE4 0xD71" "walks 0xD74 0xF30" "walks 0xF30 0xF48"
  by (simp_all add: walks_eval)

lemma family_walk_process: "walks 0x46C 0xCE2"
  by (simp add: walks_eval)


lemma family_crc:
  assumes "walks k e" "e < 4096" "k < e" "a = 0x40080000 + of_nat k" "n = e - k" "s = sum_of (of_nat n)"
  shows "firmware_xtensa_crc32_matches family_zlib family_mem a n s"
proof -
  have z: "zl_init family_zlib = sum_of (of_nat 0)" by (simp add: family_zlib_def sum_of_def family_sums_def)
  have "unat (UINT32_MAX - a) = 0xFFFFFFFF - (0x40080000 + k)"
    using assms(2-4) by (subst unat_sub) (simp_all add: word_le_nat_alt unat_word_ariths unat_of_nat)
  then have "scan_range_ok a n" using assms(2,3,5) by (simp add: scan_range_ok_def)
  moreover have "xtensa_crc_loop family_zlib False family_mem a n (zl_init family_zlib) = Some s"
    using walks_crc [OF assms(1) less_imp_le [OF assms(2)], of 0] assms(2,3) unfolding z assms(4-6) by (simp del: of_nat_diff)
  ultimately show ?thesis
    by (simp add: firmware_xtensa_crc32_matches_def firmware_xtensa_crc32_matches_kind_def)
qed

lemma family_bodies: "family_bodies family_zlib family_mem (family_of 0x40080400)"
  unfolding family_bodies_def
proof (intro conjI)
  note W = family_walks family_walk_process
  let ?f = "family_of 0x40080400"
  show "firmware_xtensa_crc32_matches family_zlib family_mem (free_entry ?f) MBED_SHA256_FREE_SIZE 0xBDEC3621"
    by (rule family_crc [OF W(1)]) (simp_all add: family_of_def MBED_SHA256_FREE_DELTA_def MBED_SHA256_FREE_SIZE_def
        sum_of_def family_sums_def)
  show "firmware_xtensa_crc32_matches family_zlib family_mem (starts_entry ?f) MBED_SHA256_STARTS_SIZE 0x8BDD1D33"
    by (rule family_crc [OF W(2)]) (simp_all add: family_of_def MBED_SHA256_STARTS_SIZE_def sum_of_def family_sums_def)
  show "firmware_xtensa_crc32_matches family_zlib family_mem (process_entry ?f) MBED_SHA256_PROCESS_SIZE 0x442D8BE9"
    by (rule family_crc [OF W(6)]) (simp_all add: family_of_def MBED_SHA256_PROCESS_DELTA_def MBED_SHA256_PROCESS_SIZE_def
        sum_of_def family_sums_def)
  show "firmware_xtensa_crc32_matches family_zlib family_mem (update_entry ?f) MBED_SHA256_UPDATE_SIZE 0x547BE768"
    by (rule family_crc [OF W(3)]) (simp_all add: family_of_def MBED_SHA256_UPDATE_DELTA_def MBED_SHA256_UPDATE_SIZE_def
        sum_of_def family_sums_def)
  show "firmware_xtensa_crc32_matches family_zlib family_mem (finish_entry ?f) MBED_SHA256_FINISH_SIZE 0xA54ABEFA"
    by (rule family_crc [OF W(4)]) (simp_all add: family_of_def MBED_SHA256_FINISH_DELTA_def MBED_SHA256_FINISH_SIZE_def
        sum_of_def family_sums_def)
  show "firmware_xtensa_crc32_matches family_zlib family_mem (zeroize_entry ?f) MBED_SHA256_ZEROIZE_SIZE 0x2BBFDF6C"
    by (rule family_crc [OF W(5)]) (simp_all add: family_of_def MBED_SHA256_ZEROIZE_DELTA_def MBED_SHA256_ZEROIZE_SIZE_def
        sum_of_def family_sums_def)
qed

lemmas peek_eval = firmware_peek_def peek_bytes_def scan_range_ok_def upt_rec family_fetch_code family_ground family_zero
lemmas family_addr = family_of_def MBED_SHA256_FREE_DELTA_def MBED_SHA256_PROCESS_DELTA_def
  MBED_SHA256_UPDATE_DELTA_def MBED_SHA256_FINISH_DELTA_def MBED_SHA256_ZEROIZE_DELTA_def
lemmas target_eval = mbed_sha256_l32r_is_def mbed_sha256_l32r_value_def firmware_xtensa_l32r_target_def
  mbed_sha256_call_is_def firmware_xtensa_call_target_def XT_OP0_def XT_IMM16_def XT_OFFSET18_def XT_N_def

lemma family_calls: "family_calls family_mem (family_of 0x40080400)"
  unfolding family_calls_def
  by (intro conjI)
    (simp_all add: family_addr mbed_sha256_iv_matches_def sha224_iv_def sha256_iv_def target_eval peek_eval)

lemma family_constants: "peek_bytes family_mem 0x40080200 256 = Some (replicate 256 0)"
proof -
  have "fetch_byte family_mem (0x40080200 + of_nat i) = Some 0" if "i < 256" for i
  proof -
    have "family_byte (0x200 + i) = 0" using that by (intro family_gap [where a = "0x154" and b = "0x3F8"]) (simp_all add: family_gaps_raw)
    then show ?thesis using family_at_offset [of "0x200 + i"] that by (simp add: add.assoc [symmetric])
  qed
  then have "map (\<lambda>i. fetch_byte family_mem (0x40080200 + of_nat i)) [0 ..< 256] = map Some (replicate 256 0)"
    by (intro nth_equalityI) simp_all
  then show ?thesis unfolding peek_bytes_def those_map .
qed

lemma family_literals: "family_literals family_zlib family_mem (family_of 0x40080400)"
proof -
  have "fold (\<lambda>b s. zl_crc32 family_zlib s [b]) (replicate n 0) (sum_of (of_nat k)) = sum_of (of_nat (k + n))"
    if "k + n < 4096" for n k
    using that
  proof (induction n arbitrary: k)
    case (Suc n)
    have "len_of (sum_of (of_nat k)) = of_nat k"
      using Suc.prems by (intro len_sum) (simp add: word_less_nat_alt unat_of_nat)
    then have "zl_crc32 family_zlib (sum_of (of_nat k)) [0] = sum_of (of_nat (Suc k))"
      by (simp add: family_zlib_def add.commute)
    then show ?case using Suc.IH [of "Suc k"] Suc.prems by (simp del: of_nat_Suc)
  qed simp
  from this [of 0 256] have "firmware_crc32_matches family_zlib family_mem 0x40080200 256 0x296FDE2A"
    by (simp add: firmware_crc32_matches_def scan_range_ok_def family_constants family_zlib_def sum_of_def family_sums_def)
  then show ?thesis
    unfolding family_literals_def
    by (simp add: family_addr target_eval peek_eval is_entry_at_def firmware_xtensa_is_entry_def XT_M_def XT_S_def
        rom_bswap32_def finish_bswap_l32rs_def)
qed

lemma family_matches: "mbed_sha256_family_matches family_zlib family_mem 0x40080400 = Some (family_of 0x40080400)"
  by (simp add: mbed_sha256_family_matches_def Let_def family_bodies family_calls family_literals
      MBED_SHA256_FREE_DELTA_def MBED_SHA256_FAMILY_SIZE_def)

lemma family_prefix: "firmware_signature_matches family_mem 0x40080400 starts_prefix"
  by (simp add: firmware_signature_matches_def starts_prefix_def peek_eval)

text \<open>The prefix stands nowhere else.\<close>

lemma byte_36: "family_byte k = 0x36 \<Longrightarrow> k \<in> {0x40, 0x50, 0x107, 0x400}"
proof -
  assume b: "family_byte k = 0x36"
  then have "(k, 0x36) \<in> set family_bytes"
    by (auto simp: family_byte_def split: option.splits dest: map_of_SomeD)
  moreover have "list_all (\<lambda>(k, b). b = 0x36 \<longrightarrow> k \<in> {0x40, 0x50, 0x107, 0x400}) family_bytes"
    by (simp add: family_bytes_def)
  ultimately show ?thesis by (auto simp: list_all_iff)
qed

lemma family_unique:
  assumes "family_at family_zlib family_mem s" "page_of s \<noteq> 0x3FFB0" shows "s = 0x40080400"
proof -
  have sig: "fetch_byte family_mem s = Some 0x36" "fetch_byte family_mem (s + 1) = Some 0x41"
    using assms(1) by (auto simp: family_at_def firmware_signature_matches_def starts_prefix_def upt_rec)
  have p: "page_of s = 0x40080" and b: "family_byte (page_off s) = 0x36"
    using sig(1) assms(2) by (auto simp: family_fetch split: if_splits)
  have s: "s = 0x40080000 + of_nat (page_off s)"
  proof -
    have "unat s = unat (page_of s) * 4096 + page_off s" by (simp add: unat_page_of page_off_mod)
    then have "unat s = 0x40080000 + page_off s" by (simp add: p)
    moreover have "s = of_nat (unat s)" by simp
    ultimately show ?thesis by (metis of_nat_add of_nat_numeral)
  qed
  have "page_off s \<in> {0x40, 0x50, 0x107, 0x400}" by (rule byte_36 [OF b])
  then show ?thesis
    using sig(2) s by (auto simp: peek_eval)
qed

lemma family_discoverable: "discoverable family_zlib family_mem [] = [0x40080400]"
proof -
  let ?c = "range_starts 0x40070000 0x400C0000 @ range_starts 0x400D0000 0x40400000"
  have at: "family_at family_zlib family_mem 0x40080400"
    by (simp add: family_at_def family_prefix family_matches)
  have "s = 0x40080400" if s: "s \<in> set ?c" "family_at family_zlib family_mem s" for s
  proof -
    have "0x40070000 \<le> s"
      using s(1) range_starts_bounds [of s "0x40070000" "0x400C0000"] range_starts_bounds [of s "0x400D0000" "0x40400000"]
      by (auto intro: order.trans [of _ "0x400D0000"])
    then have "0x40070 \<le> unat (page_of s)" by (simp add: unat_page_of word_le_nat_alt)
    then have "page_of s \<noteq> 0x3FFB0" by auto
    then show ?thesis by (rule family_unique [OF s(2)])
  qed
  then have "filter (family_at family_zlib family_mem) ?c = filter (\<lambda>s. s = 0x40080400) ?c"
    using at by (intro filter_cong) auto
  also have "\<dots> = [0x40080400]"
  proof -
    have "(0x40080400 :: u32) \<in> set (range_starts 0x40070000 0x400C0000)"
      unfolding range_starts_def set_map set_upt
      by (rule image_eqI [of _ _ "0x40080400"]) (simp_all add: MBED_SHA256_STARTS_SIZE_def)
    then have "filter (\<lambda>s. s = 0x40080400) (range_starts 0x40070000 0x400C0000) = [0x40080400 :: u32]"
      by (rule distinct_filter_eq [OF distinct_range_starts])
    moreover have "(0x40080400 :: u32) \<notin> set (range_starts 0x400D0000 0x40400000)"
      using range_starts_bounds [of "0x40080400" "0x400D0000" "0x40400000"] by auto
    then have "filter (\<lambda>s. s = 0x40080400) (range_starts 0x400D0000 0x40400000) = []"
      by (auto simp: filter_empty_conv)
    ultimately show ?thesis by simp
  qed
  finally show ?thesis by (simp add: discoverable_def MBED_SHA256_FAMILY_MAX_def)
qed

text \<open>The image's one family is found and hooked.\<close>

theorem sha_hook_firmware_exact_witness:
  "\<exists>rom'. sha_stubs_hook_firmware family_zlib family_mem 5 ([], Some (rom_stubs_zero True)) =
       (4, [0x40080400], Some rom') \<and>
     map re_addr (rs_entries rom') = [0x400803EC, 0x40080400, 0x40080CE4, 0x40080D74]"
proof -
  have "length (rs_entries (rom_stubs_zero True)) + 16 \<le> MAX_ROM_STUBS"
    by (simp add: rom_stubs_zero_def MAX_ROM_STUBS_def)
  from sha_hook_firmware_exact [OF this, of family_zlib family_mem 5 "[]"]
  show ?thesis
    unfolding family_discoverable
    by (auto simp: rom_stubs_zero_def family_entries_def family_hooks_def family_addr)
qed

end
