(* ===== verification/Rom_Heap.thy ===== *)
theory Rom_Heap
  imports Rom_Hooks
begin

text \<open>
  The firmware heap (src/src/rom_stubs.c): two arenas of guest memory, each bump-allocated with a
  first-fit free list threaded through the freed blocks, and the malloc family on top of them. A
  block is an 8-byte header, size and magic number, followed by the user's bytes. The walk along
  the free list does not return when the guest made the list cyclic: then the result is None.
\<close>

section \<open>Allocation\<close>

definition HEAP_MAGIC :: u32 where "HEAP_MAGIC = 0x48454150"
definition HEAP_FREE :: u32 where "HEAP_FREE = 0x46524545"
definition HEAP_HDR_SZ :: u32 where "HEAP_HDR_SZ = 8"

partial_function (option) freelist_alloc ::
  "'d host \<Rightarrow> u32 \<Rightarrow> u32 \<Rightarrow> u32 \<Rightarrow> stub_heap_region \<times> 'd cpu \<Rightarrow> (u32 \<times> stub_heap_region \<times> 'd cpu) option"
where
  "freelist_alloc E n prev_addr cur rc =
     (if cur = 0 then Some (0, rc)
      else
        case mem_read32 E (snd rc) cur of (block_size, c1) \<Rightarrow>
        case mem_read32 E c1 (cur + HEAP_HDR_SZ) of (next_addr, c2) \<Rightarrow>
          if n \<le> block_size
          then case (if prev_addr \<noteq> 0 then (fst rc, mem_write32 E c2 (prev_addr + HEAP_HDR_SZ) next_addr)
                     else ((fst rc)\<lparr>hr_free_list := next_addr\<rparr>, c2)) of
              (r3, c3) \<Rightarrow> Some (cur + HEAP_HDR_SZ, r3, mem_write32 E c3 (cur + 4) HEAP_MAGIC)
          else freelist_alloc E n cur next_addr (fst rc, c2))"

definition heap_round :: "u32 \<Rightarrow> u32" where
  "heap_round n = ((if n < 4 then 4 else n) + 3) AND NOT 3"

definition heap_alloc ::
  "'d host \<Rightarrow> u32 \<Rightarrow> stub_heap_region \<times> 'd cpu \<Rightarrow> (u32 \<times> stub_heap_region \<times> 'd cpu) option" where
  "heap_alloc E n rc =
     (if n = 0 then Some (0, rc)
      else
        let n1 = heap_round n in
        case freelist_alloc E n1 0 (hr_free_list (fst rc)) rc of
          None \<Rightarrow> None
        | Some (p, r, c) \<Rightarrow>
            if p \<noteq> 0 then Some (p, r, c)
            else
              let total = HEAP_HDR_SZ + n1 in
              if hr_end r < hr_ptr r \<or> hr_end r - hr_ptr r < total then Some (0, r, c)
              else
                let block = hr_ptr r;
                    c1 = mem_write32 E c block n1;
                    c2 = mem_write32 E c1 (block + 4) HEAP_MAGIC
                in Some (block + HEAP_HDR_SZ, r\<lparr>hr_ptr := hr_ptr r + total\<rparr>, c2))"

section \<open>Release\<close>

text \<open>Freeing a block of the region that holds the pointer.\<close>

definition region_free ::
  "'d host \<Rightarrow> u32 \<Rightarrow> stub_heap_region \<times> 'd cpu \<Rightarrow> stub_heap_region \<times> 'd cpu" where
  "region_free E p rc =
     (let r = fst rc; block = p - HEAP_HDR_SZ in
      case mem_read32 E (snd rc) (block + 4) of (magic, c1) \<Rightarrow>
        if magic \<noteq> HEAP_MAGIC then (r, c1)
        else case mem_read32 E c1 block of (sz, c2) \<Rightarrow>
          let total = HEAP_HDR_SZ + ((sz + 3) AND NOT 3) in
          if block + total = hr_ptr r
          then (r\<lparr>hr_ptr := block\<rparr>, mem_write32 E c2 (block + 4) 0)
          else (r\<lparr>hr_free_list := block\<rparr>,
                mem_write32 E (mem_write32 E c2 (block + 4) HEAP_FREE) p (hr_free_list r)))"

section \<open>The two arenas\<close>

datatype heap_id = Psram_Heap | Internal_Heap

definition heap_get :: "heap_id \<Rightarrow> esp32_rom_stubs \<Rightarrow> stub_heap_region" where
  "heap_get h s = (case h of Psram_Heap \<Rightarrow> rs_heap s | Internal_Heap \<Rightarrow> rs_internal_heap s)"

definition heap_set :: "heap_id \<Rightarrow> stub_heap_region \<Rightarrow> esp32_rom_stubs \<Rightarrow> esp32_rom_stubs" where
  "heap_set h r s =
     (case h of Psram_Heap \<Rightarrow> s\<lparr>rs_heap := r\<rparr> | Internal_Heap \<Rightarrow> s\<lparr>rs_internal_heap := r\<rparr>)"

definition heap_region_for_ptr :: "esp32_rom_stubs \<Rightarrow> u32 \<Rightarrow> heap_id option" where
  "heap_region_for_ptr s p =
     (if hr_base (rs_heap s) + HEAP_HDR_SZ \<le> p \<and> p < hr_end (rs_heap s) then Some Psram_Heap
      else if hr_base (rs_internal_heap s) + HEAP_HDR_SZ \<le> p \<and> p < hr_end (rs_internal_heap s)
      then Some Internal_Heap
      else None)"

text \<open>The DMA, EXEC and INTERNAL capabilities are bits 3, 4 and 11.\<close>

definition heap_region_for_caps :: "u32 \<Rightarrow> heap_id" where
  "heap_region_for_caps caps = (if caps AND 0x818 \<noteq> 0 then Internal_Heap else Psram_Heap)"

definition alloc_in ::
  "'d host \<Rightarrow> heap_id \<Rightarrow> u32 \<Rightarrow> esp32_rom_stubs \<times> 'd cpu \<Rightarrow> (u32 \<times> esp32_rom_stubs \<times> 'd cpu) option" where
  "alloc_in E h n sc =
     (case heap_alloc E n (heap_get h (fst sc), snd sc) of
        None \<Rightarrow> None
      | Some (p, r, c) \<Rightarrow> Some (p, heap_set h r (fst sc), c))"

definition heap_free :: "'d host \<Rightarrow> u32 \<Rightarrow> esp32_rom_stubs \<times> 'd cpu \<Rightarrow> esp32_rom_stubs \<times> 'd cpu" where
  "heap_free E p sc =
     (if p = 0 then sc
      else case heap_region_for_ptr (fst sc) p of
          None \<Rightarrow> sc
        | Some h \<Rightarrow>
            (case region_free E p (heap_get h (fst sc), snd sc) of (r, c) \<Rightarrow> (heap_set h r (fst sc), c)))"

definition rom_stubs_heap_alloc_caps ::
  "'d host \<Rightarrow> u32 \<Rightarrow> u32 \<Rightarrow> esp32_rom_stubs \<times> 'd cpu \<Rightarrow> (u32 \<times> esp32_rom_stubs \<times> 'd cpu) option" where
  "rom_stubs_heap_alloc_caps E n caps sc = alloc_in E (heap_region_for_caps caps) n sc"

definition rom_stubs_heap_free :: "'d host \<Rightarrow> u32 \<Rightarrow> esp32_rom_stubs \<times> 'd cpu \<Rightarrow> esp32_rom_stubs \<times> 'd cpu" where
  "rom_stubs_heap_free E p sc = heap_free E p sc"

section \<open>The malloc family\<close>

text \<open>The end of a stub that returns the pointer of an allocation.\<close>

definition return_ptr :: "(u32 \<times> esp32_rom_stubs \<times> 'd cpu) option \<Rightarrow> (esp32_rom_stubs \<times> 'd cpu) option" where
  "return_ptr a = map_option (\<lambda>(p, s, c). (s, rom_return c p)) a"

definition stub_malloc :: "'d host \<Rightarrow> esp32_rom_stubs \<times> 'd cpu \<Rightarrow> (esp32_rom_stubs \<times> 'd cpu) option" where
  "stub_malloc E sc =
     (case rom_arg E (snd sc) 0 of (n, c1) \<Rightarrow> return_ptr (alloc_in E Psram_Heap n (fst sc, c1)))"

definition zero_bytes :: "'d host \<Rightarrow> u32 \<Rightarrow> u32 \<Rightarrow> 'd cpu \<Rightarrow> 'd cpu" where
  "zero_bytes E p n c = fold (\<lambda>i c. mem_write8 E c (p + of_nat i) 0) [0 ..< unat n] c"

definition calloc_in ::
  "'d host \<Rightarrow> heap_id \<Rightarrow> u32 \<Rightarrow> u32 \<Rightarrow> esp32_rom_stubs \<times> 'd cpu \<Rightarrow> (u32 \<times> esp32_rom_stubs \<times> 'd cpu) option" where
  "calloc_in E h nmemb sz sc =
     (if sz \<noteq> 0 \<and> UINT32_MAX div sz < nmemb then Some (0, sc)
      else case alloc_in E h (nmemb * sz) sc of
          None \<Rightarrow> None
        | Some (p, s, c) \<Rightarrow> Some (p, s, if p \<noteq> 0 then zero_bytes E p (nmemb * sz) c else c))"

definition stub_calloc :: "'d host \<Rightarrow> esp32_rom_stubs \<times> 'd cpu \<Rightarrow> (esp32_rom_stubs \<times> 'd cpu) option" where
  "stub_calloc E sc =
     (case rom_arg E (snd sc) 0 of (nmemb, c1) \<Rightarrow>
      case rom_arg E c1 1 of (sz, c2) \<Rightarrow> return_ptr (calloc_in E Psram_Heap nmemb sz (fst sc, c2)))"

text \<open>The size is read for a message before the block is freed.\<close>

definition stub_free :: "'d host \<Rightarrow> esp32_rom_stubs \<times> 'd cpu \<Rightarrow> esp32_rom_stubs \<times> 'd cpu" where
  "stub_free E sc =
     (case rom_arg E (snd sc) 0 of (p, c1) \<Rightarrow>
        let c2 = (if heap_region_for_ptr (fst sc) p \<noteq> None then snd (mem_read32 E c1 (p - HEAP_HDR_SZ)) else c1);
            r = heap_free E p (fst sc, c2)
        in (fst r, rom_return_void (snd r)))"

definition copy_bytes :: "'d host \<Rightarrow> u32 \<Rightarrow> u32 \<Rightarrow> u32 \<Rightarrow> 'd cpu \<Rightarrow> 'd cpu" where
  "copy_bytes E dst src n c =
     fold (\<lambda>i c. case mem_read8 E c (src + of_nat i) of (b, c1) \<Rightarrow> mem_write8 E c1 (dst + of_nat i) b)
       [0 ..< unat n] c"

definition heap_realloc ::
  "'d host \<Rightarrow> heap_id \<Rightarrow> u32 \<Rightarrow> u32 \<Rightarrow> esp32_rom_stubs \<times> 'd cpu \<Rightarrow> (u32 \<times> esp32_rom_stubs \<times> 'd cpu) option" where
  "heap_realloc E h old_ptr new_size sc =
     (if new_size = 0 then Some (0, heap_free E old_ptr sc)
      else case alloc_in E h new_size sc of
          None \<Rightarrow> None
        | Some (new_ptr, s1, c1) \<Rightarrow>
            if new_ptr \<noteq> 0 \<and> old_ptr \<noteq> 0 \<and> heap_region_for_ptr s1 old_ptr \<noteq> None
            then case mem_read32 E c1 (old_ptr - HEAP_HDR_SZ) of (old_size, c2) \<Rightarrow>
              let c3 = copy_bytes E new_ptr old_ptr (if old_size < new_size then old_size else new_size) c2
              in Some (new_ptr, heap_free E old_ptr (s1, c3))
            else Some (new_ptr, s1, c1))"

definition stub_realloc :: "'d host \<Rightarrow> esp32_rom_stubs \<times> 'd cpu \<Rightarrow> (esp32_rom_stubs \<times> 'd cpu) option" where
  "stub_realloc E sc =
     (case rom_arg E (snd sc) 0 of (old_ptr, c1) \<Rightarrow>
      case rom_arg E c1 1 of (new_size, c2) \<Rightarrow>
        let h = (if old_ptr \<noteq> 0 then heap_region_for_ptr (fst sc) old_ptr else None) in
        return_ptr (heap_realloc E (case h of None \<Rightarrow> Psram_Heap | Some h \<Rightarrow> h) old_ptr new_size (fst sc, c2)))"

definition stub_heap_caps_malloc ::
  "'d host \<Rightarrow> esp32_rom_stubs \<times> 'd cpu \<Rightarrow> (esp32_rom_stubs \<times> 'd cpu) option" where
  "stub_heap_caps_malloc E sc =
     (case rom_arg E (snd sc) 0 of (n, c1) \<Rightarrow>
      case rom_arg E c1 1 of (caps, c2) \<Rightarrow>
        return_ptr (alloc_in E (heap_region_for_caps caps) n (fst sc, c2)))"

definition stub_heap_caps_calloc ::
  "'d host \<Rightarrow> esp32_rom_stubs \<times> 'd cpu \<Rightarrow> (esp32_rom_stubs \<times> 'd cpu) option" where
  "stub_heap_caps_calloc E sc =
     (case rom_arg E (snd sc) 0 of (nmemb, c1) \<Rightarrow>
      case rom_arg E c1 1 of (sz, c2) \<Rightarrow>
      case rom_arg E c2 2 of (caps, c3) \<Rightarrow>
        return_ptr (calloc_in E (heap_region_for_caps caps) nmemb sz (fst sc, c3)))"

definition stub_heap_caps_realloc ::
  "'d host \<Rightarrow> esp32_rom_stubs \<times> 'd cpu \<Rightarrow> (esp32_rom_stubs \<times> 'd cpu) option" where
  "stub_heap_caps_realloc E sc =
     (case rom_arg E (snd sc) 0 of (old_ptr, c1) \<Rightarrow>
      case rom_arg E c1 1 of (sz, c2) \<Rightarrow>
      case rom_arg E c2 2 of (caps, c3) \<Rightarrow>
        return_ptr (heap_realloc E (heap_region_for_caps caps) old_ptr sz (fst sc, c3)))"

definition stub_esp_get_free_heap_size :: "esp32_rom_stubs \<times> 'd cpu \<Rightarrow> esp32_rom_stubs \<times> 'd cpu" where
  "stub_esp_get_free_heap_size sc =
     (fst sc, rom_return (snd sc) (hr_end (rs_heap (fst sc)) - hr_ptr (rs_heap (fst sc))))"

definition stub_esp_get_minimum_free_heap_size :: "esp32_rom_stubs \<times> 'd cpu \<Rightarrow> esp32_rom_stubs \<times> 'd cpu" where
  "stub_esp_get_minimum_free_heap_size sc =
     (fst sc, rom_return (snd sc) (hr_end (rs_heap (fst sc)) - hr_ptr (rs_heap (fst sc))))"

end
