(* ===== verification/Rom_Heap_Facts.thy ===== *)
theory Rom_Heap_Facts
  imports Rom_Heap Gdma_Chain Sample_States
begin

text \<open>
  The heap as an abstract allocator: a partial map from block addresses to sizes, of which some are
  live and the others on the free list. Addresses in the arena are natural numbers here; the arena
  lies in one host buffer.
\<close>

section \<open>Words of an arena\<close>

definition hw :: "'d cpu \<Rightarrow> nat \<Rightarrow> u32" where
  "hw c k = the (ram_word c (of_nat k))"

definition arena :: "'d cpu \<Rightarrow> nat \<Rightarrow> nat \<Rightarrow> bool" where
  "arena c lo hi \<longleftrightarrow>
     lo mod 4 = 0 \<and> hi mod 4 = 0 \<and> hi < 2 ^ 32 \<and>
     (\<exists>h off. \<forall>k. lo \<le> k \<and> k < hi \<and> k mod 4 = 0 \<longrightarrow> ram_at 4 c (of_nat k) = Some (h, off + (k - lo)))"

abbreviation arena_word :: "nat \<Rightarrow> nat \<Rightarrow> nat \<Rightarrow> bool" where
  "arena_word lo hi k \<equiv> lo \<le> k \<and> k < hi \<and> k mod 4 = 0"

lemma arena_read:
  assumes "arena c lo hi" "arena_word lo hi k"
  shows "mem_read32 E c (of_nat k) = (hw c k, c)"
proof -
  obtain h off where "\<forall>k. arena_word lo hi k \<longrightarrow> ram_at 4 c (of_nat k) = Some (h, off + (k - lo))"
    using assms(1) by (auto simp: arena_def)
  then have "ram_at 4 c (of_nat k) = Some (h, off + (k - lo))" using assms(2) by simp
  then obtain w where "ram_word c (of_nat k) = Some w" by (simp add: ram_word_def)
  then show ?thesis by (simp add: read32_plain hw_def)
qed

lemma arena_write:
  assumes "arena c lo hi" "arena_word lo hi k"
  shows "arena (mem_write32 E c (of_nat k) v) lo hi"
    "\<And>j. arena_word lo hi j \<Longrightarrow> hw (mem_write32 E c (of_nat k) v) j = (if j = k then v else hw c j)"
proof -
  obtain h off where at: "\<And>j. arena_word lo hi j \<Longrightarrow> ram_at 4 c (of_nat j) = Some (h, off + (j - lo))"
    using assms(1) unfolding arena_def by blast
  have put: "ram_at 4 (mem_write32 E c (of_nat k) v) = ram_at 4 c" by (rule ram32.at_put [OF at [OF assms(2)]])
  show ar: "arena (mem_write32 E c (of_nat k) v) lo hi" using assms(1) by (simp add: arena_def put)
  show "hw (mem_write32 E c (of_nat k) v) j = (if j = k then v else hw c j)" if j: "arena_word lo hi j" for j
  proof (cases "j = k")
    case True
    have "fst (mem_read32 E (mem_write32 E c (of_nat k) v) (of_nat k)) = v"
      using ram32.get_put_alias [OF at [OF assms(2)] at [OF assms(2)]] by simp
    then show ?thesis using True arena_read [OF ar assms(2), of E] by simp
  next
    case False
    then have "j + 4 \<le> k \<or> k + 4 \<le> j" using j assms(2) by presburger
    then have "apart (h, off + (k - lo)) (h, off + (j - lo)) 4" using j assms(2) by (auto simp: apart_def)
    then have "fst (mem_read32 E (mem_write32 E c (of_nat k) v) (of_nat j)) = fst (mem_read32 E c (of_nat j))"
      by (rule ram32.get_put_apart [OF at [OF assms(2)] at [OF j]])
    then show ?thesis using False arena_read [OF ar j, of E] arena_read [OF assms(1) j, of E] by simp
  qed
qed

section \<open>The free list\<close>

text \<open>The blocks from \<open>f\<close> to \<open>g\<close> along the links in the first user words.\<close>

fun seg :: "(nat \<Rightarrow> u32) \<Rightarrow> u32 \<Rightarrow> nat list \<Rightarrow> u32 \<Rightarrow> bool" where
  "seg W f [] g \<longleftrightarrow> f = g"
| "seg W f (x # xs) g \<longleftrightarrow> f = of_nat x \<and> 0 < x \<and> x < 2 ^ 32 \<and> seg W (W (x + 8)) xs g"

lemma seg_append: "seg W f (ys @ zs) g \<longleftrightarrow> (\<exists>h. seg W f ys h \<and> seg W h zs g)"
  by (induction ys arbitrary: f) auto

lemma seg_cong: "(\<And>x. x \<in> set xs \<Longrightarrow> W' (x + 8) = W (x + 8)) \<Longrightarrow> seg W' f xs g = seg W f xs g"
  by (induction xs arbitrary: f) auto

text \<open>Relinking the last block.\<close>

lemma seg_relink:
  assumes "seg W f ys g" "ys \<noteq> []" "distinct ys"
    and "W' (last ys + 8) = g'" "\<And>x. x \<in> set ys \<Longrightarrow> x \<noteq> last ys \<Longrightarrow> W' (x + 8) = W (x + 8)"
  shows "seg W' f ys g'"
proof -
  obtain xs x where ys: "ys = xs @ [x]" using assms(2) by (metis append_butlast_last_id)
  then have "seg W f xs (of_nat x)" "0 < x" "x < 2 ^ 32" using assms(1) by (auto simp: seg_append)
  moreover have "seg W' f xs (of_nat x) = seg W f xs (of_nat x)"
    using assms(3,5) ys by (intro seg_cong) auto
  ultimately show ?thesis using assms(4) by (auto simp: ys seg_append)
qed

section \<open>The representation\<close>

definition blocks_ok :: "(nat \<Rightarrow> u32) \<Rightarrow> nat \<Rightarrow> nat \<Rightarrow> (nat \<Rightarrow> (nat \<times> bool) option) \<Rightarrow> bool" where
  "blocks_ok W lo lim B \<longleftrightarrow>
     (\<forall>a m l. B a = Some (m, l) \<longrightarrow>
        lo \<le> a \<and> a mod 4 = 0 \<and> m mod 4 = 0 \<and> 4 \<le> m \<and> a + 8 + m \<le> lim \<and>
        W a = of_nat m \<and> W (a + 4) = (if l then HEAP_MAGIC else HEAP_FREE)) \<and>
     (\<forall>a b m l. B a = Some (m, l) \<and> B b \<noteq> None \<and> a < b \<longrightarrow> a + 8 + m \<le> b)"

definition heap_rep ::
  "'d cpu \<Rightarrow> stub_heap_region \<Rightarrow> (nat \<Rightarrow> (nat \<times> bool) option) \<Rightarrow> nat list \<Rightarrow> bool" where
  "heap_rep c R B xs \<longleftrightarrow>
     arena c (unat (hr_base R)) (unat (hr_end R)) \<and> 8 \<le> unat (hr_base R) \<and>
     unat (hr_base R) \<le> unat (hr_ptr R) \<and> unat (hr_ptr R) \<le> unat (hr_end R) \<and> unat (hr_ptr R) mod 4 = 0 \<and>
     blocks_ok (hw c) (unat (hr_base R)) (unat (hr_ptr R)) B \<and>
     seg (hw c) (hr_free_list R) xs 0 \<and> distinct xs \<and> set xs = {a. \<exists>m. B a = Some (m, False)}"

lemma heap_repD:
  assumes "heap_rep c R B xs"
  shows "arena c (unat (hr_base R)) (unat (hr_end R))" "8 \<le> unat (hr_base R)"
    "unat (hr_base R) \<le> unat (hr_ptr R)" "unat (hr_ptr R) \<le> unat (hr_end R)" "unat (hr_ptr R) mod 4 = 0"
    "blocks_ok (hw c) (unat (hr_base R)) (unat (hr_ptr R)) B"
    "seg (hw c) (hr_free_list R) xs 0" "distinct xs" "set xs = {a. \<exists>m. B a = Some (m, False)}"
  using assms by (simp_all add: heap_rep_def)

lemma block_facts:
  assumes "heap_rep c R B xs" "B a = Some (m, l)"
  shows "unat (hr_base R) \<le> a" "a mod 4 = 0" "m mod 4 = 0" "4 \<le> m" "a + 8 + m \<le> unat (hr_ptr R)"
    "hw c a = of_nat m" "hw c (a + 4) = (if l then HEAP_MAGIC else HEAP_FREE)"
    "a + 8 + m \<le> unat (hr_end R)" "0 < a" "a + 8 + m < 2 ^ 32"
proof -
  show f: "unat (hr_base R) \<le> a" "a mod 4 = 0" "m mod 4 = 0" "4 \<le> m" "a + 8 + m \<le> unat (hr_ptr R)"
    "hw c a = of_nat m" "hw c (a + 4) = (if l then HEAP_MAGIC else HEAP_FREE)"
    using heap_repD(6) [OF assms(1)] assms(2) unfolding blocks_ok_def by blast+
  show e: "a + 8 + m \<le> unat (hr_end R)" using f(5) heap_repD(4) [OF assms(1)] by simp
  show "0 < a" using f(1) heap_repD(2) [OF assms(1)] by simp
  have "unat (hr_end R) < 2 ^ 32" using heap_repD(1) [OF assms(1)] by (simp add: arena_def)
  then show "a + 8 + m < 2 ^ 32" using e by simp
qed

lemma blocks_apart:
  assumes "heap_rep c R B xs" "B a = Some (m, l)" "B b = Some (n, k)" "a \<noteq> b"
  shows "a + 8 + m \<le> b \<or> b + 8 + n \<le> a"
  using heap_repD(6) [OF assms(1)] assms(2-4) unfolding blocks_ok_def
  by (metis linorder_neqE_nat option.distinct(1))

text \<open>The words of a block.\<close>

definition block_word :: "nat \<Rightarrow> nat \<Rightarrow> nat \<Rightarrow> bool" where
  "block_word a m k \<longleftrightarrow> a \<le> k \<and> k < a + 8 + m \<and> k mod 4 = 0"

lemma block_word_arena:
  assumes "heap_rep c R B xs" "B a = Some (m, l)" "block_word a m k"
  shows "arena_word (unat (hr_base R)) (unat (hr_end R)) k"
  using block_facts [OF assms(1,2)] assms(3) by (auto simp: block_word_def)

lemma block_word_apart:
  assumes "heap_rep c R B xs" "B a = Some (m, l)" "B b = Some (n, k)" "a \<noteq> b" "block_word a m i" "block_word b n j"
  shows "i \<noteq> j"
  using blocks_apart [OF assms(1-4)] assms(5,6) by (auto simp: block_word_def)

lemma header_words:
  assumes "heap_rep c R B xs" "B a = Some (m, l)"
  shows "block_word a m a" "block_word a m (a + 4)" "block_word a m (a + 8)"
  using block_facts(2,4) [OF assms] by (simp_all add: block_word_def) presburger+

text \<open>A state whose words agree with the old one outside of what a step rewrites.\<close>

lemma rep_update:
  assumes rep: "heap_rep c R B xs"
    and frame: "arena c' (unat (hr_base R)) (unat (hr_end R))" "hr_base R' = hr_base R" "hr_end R' = hr_end R"
    and ptr: "unat (hr_base R) \<le> unat (hr_ptr R')" "unat (hr_ptr R') \<le> unat (hr_end R)" "unat (hr_ptr R') mod 4 = 0"
    and blocks: "blocks_ok (hw c') (unat (hr_base R)) (unat (hr_ptr R')) B'"
    and list: "seg (hw c') (hr_free_list R') xs' 0" "distinct xs'" "set xs' = {a. \<exists>m. B' a = Some (m, False)}"
  shows "heap_rep c' R' B' xs'"
  using heap_repD(2) [OF rep] assms(2-) by (simp add: heap_rep_def)

lemma blocks_ok_frame:
  assumes "blocks_ok W lo lim B" "dom B' \<subseteq> dom B"
    and "\<And>a m l. B' a = Some (m, l) \<Longrightarrow> \<exists>l0. B a = Some (m, l0)"
    and "\<And>a m l. B' a = Some (m, l) \<Longrightarrow> W' a = W a \<and> W' (a + 4) = (if l then HEAP_MAGIC else HEAP_FREE)"
    and "\<And>a m l. B' a = Some (m, l) \<Longrightarrow> a + 8 + m \<le> lim'"
  shows "blocks_ok W' lo lim' B'"
proof -
  have "lo \<le> a \<and> a mod 4 = 0 \<and> m mod 4 = 0 \<and> 4 \<le> m \<and> a + 8 + m \<le> lim' \<and>
      W' a = of_nat m \<and> W' (a + 4) = (if l then HEAP_MAGIC else HEAP_FREE)" if b: "B' a = Some (m, l)" for a m l
  proof -
    obtain l0 where "B a = Some (m, l0)" using assms(3) [OF b] by blast
    then have "lo \<le> a" "a mod 4 = 0" "m mod 4 = 0" "4 \<le> m" "W a = of_nat m"
      using assms(1) unfolding blocks_ok_def by blast+
    then show ?thesis using assms(4,5) [OF b] by simp
  qed
  moreover have "a + 8 + m \<le> b" if b: "B' a = Some (m, l)" "B' b \<noteq> None" "a < b" for a b m l
  proof -
    obtain l0 where "B a = Some (m, l0)" using assms(3) [OF b(1)] by blast
    moreover have "B b \<noteq> None" using b(2) assms(2) by auto
    ultimately show ?thesis using assms(1) b(3) unfolding blocks_ok_def by blast
  qed
  ultimately show ?thesis unfolding blocks_ok_def by blast
qed

lemma free_block:
  assumes "heap_rep c R B xs" "x \<in> set xs"
  obtains m where "B x = Some (m, False)"
  using heap_repD(9) [OF assms(1)] assms(2) by auto

text \<open>The first user word of a free block is no header of any block.\<close>

lemma link_word_apart:
  assumes "heap_rep c R B xs" "B x = Some (m, l)" "B a = Some (n, k)"
  shows "x + 8 \<noteq> a" "x + 8 \<noteq> a + 4" "a \<noteq> x \<Longrightarrow> x + 8 \<noteq> a + 8" "a \<noteq> x \<Longrightarrow> x + 4 \<noteq> a" "a \<noteq> x \<Longrightarrow> x + 4 \<noteq> a + 4"
  using blocks_apart [OF assms] block_facts(4) [OF assms(1,2)] block_facts(4) [OF assms(1,3)]
  by (cases "a = x"; auto)+

section \<open>Unlinking\<close>

definition unlinked ::
  "'d host \<Rightarrow> nat list \<Rightarrow> nat \<Rightarrow> stub_heap_region \<times> 'd cpu \<Rightarrow> stub_heap_region \<times> 'd cpu" where
  "unlinked E ys z rc =
     (let nxt = hw (snd rc) (z + 8);
          rc1 = (if ys \<noteq> [] then (fst rc, mem_write32 E (snd rc) (of_nat (last ys + 8)) nxt)
                 else ((fst rc)\<lparr>hr_free_list := nxt\<rparr>, snd rc))
      in (fst rc1, mem_write32 E (snd rc1) (of_nat (z + 4)) HEAP_MAGIC))"

lemma unlinked_rep:
  assumes rep: "heap_rep c R B (ys @ z # zs)" and z: "B z = Some (m, False)"
    and u: "unlinked E ys z (R, c) = (R', c')"
  shows "heap_rep c' R' (B(z \<mapsto> (m, True))) (ys @ zs)"
    "\<And>b n k. B b = Some (n, True) \<Longrightarrow> block_word b n k \<Longrightarrow> hw c' k = hw c k"
    "hr_base R' = hr_base R" "hr_end R' = hr_end R"
proof -
  note D = heap_repD [OF rep]
  let ?nxt = "hw c (z + 8)"
  define y where "y = last ys"
  have yx: "y \<in> set (ys @ z # zs)" if "ys \<noteq> []" using that by (simp add: y_def)
  have R': "hr_base R' = hr_base R" "hr_end R' = hr_end R" "hr_ptr R' = hr_ptr R"
    "hr_free_list R' = (if ys = [] then ?nxt else hr_free_list R)"
    and c': "c' = mem_write32 E (if ys = [] then c else mem_write32 E c (of_nat (y + 8)) ?nxt) (of_nat (z + 4)) HEAP_MAGIC"
    using u by (auto simp: unlinked_def Let_def y_def)
  show "hr_base R' = hr_base R" "hr_end R' = hr_end R" by (rule R')+
  have zw: "arena_word (unat (hr_base R)) (unat (hr_end R)) (z + 4)"
    by (rule block_word_arena [OF rep z header_words(2) [OF rep z]])
  have yw: "arena_word (unat (hr_base R)) (unat (hr_end R)) (y + 8)" if ne: "ys \<noteq> []"
  proof -
    obtain n where q: "B y = Some (n, False)" using free_block [OF rep yx [OF ne]] .
    show ?thesis by (rule block_word_arena [OF rep q header_words(3) [OF rep q]])
  qed
  have a1: "arena (if ys = [] then c else mem_write32 E c (of_nat (y + 8)) ?nxt) (unat (hr_base R)) (unat (hr_end R))"
    using D(1) arena_write(1) [OF D(1) yw] by simp
  have a2: "arena c' (unat (hr_base R)) (unat (hr_end R))" unfolding c' by (rule arena_write(1) [OF a1 zw])
  have W: "hw c' j = (if j = z + 4 then HEAP_MAGIC else if ys \<noteq> [] \<and> j = y + 8 then ?nxt else hw c j)"
    if "arena_word (unat (hr_base R)) (unat (hr_end R)) j" for j
  proof (cases "j = z + 4")
    case True
    then show ?thesis unfolding c' using arena_write(2) [OF a1 zw that, of E HEAP_MAGIC] by simp
  next
    case False
    then have "hw c' j = hw (if ys = [] then c else mem_write32 E c (of_nat (y + 8)) ?nxt) j"
      unfolding c' using arena_write(2) [OF a1 zw that, of E HEAP_MAGIC] by simp
    also have "\<dots> = (if ys \<noteq> [] \<and> j = y + 8 then ?nxt else hw c j)"
      using arena_write(2) [OF D(1) yw that, of E ?nxt] by (cases "ys = []") (simp_all del: of_nat_add)
    finally show ?thesis using False by simp
  qed
  have Wb: "hw c' j = (if j = z + 4 then HEAP_MAGIC else if ys \<noteq> [] \<and> j = y + 8 then ?nxt else hw c j)"
    if "B a = Some (n, k)" "block_word a n j" for a n k j
    by (rule W [OF block_word_arena [OF rep that]])
  have ylink: "y + 8 \<noteq> a \<and> y + 8 \<noteq> a + 4" if ne: "ys \<noteq> []" and a: "B a = Some (n, k)" for a n k
  proof -
    obtain q where "B y = Some (q, False)" using free_block [OF rep yx [OF ne]] .
    then show ?thesis using link_word_apart [OF rep _ a] by blast
  qed
  show "hw c' k = hw c k" if b: "B b = Some (n, True)" "block_word b n k" for b n k
  proof -
    have bz: "b \<noteq> z" using b(1) z by auto
    have "k \<noteq> z + 4" using block_word_apart [OF rep b(1) z bz b(2) header_words(2) [OF rep z]] .
    moreover have "k \<noteq> y + 8" if ne: "ys \<noteq> []"
    proof -
      obtain q where q: "B y = Some (q, False)" using free_block [OF rep yx [OF ne]] .
      then have "b \<noteq> y" using b(1) by auto
      then show ?thesis using block_word_apart [OF rep b(1) q _ b(2) header_words(3) [OF rep q]] by blast
    qed
    ultimately show ?thesis using Wb [OF b] by auto
  qed
  have blocks: "blocks_ok (hw c') (unat (hr_base R)) (unat (hr_ptr R)) (B(z \<mapsto> (m, True)))"
  proof (rule blocks_ok_frame [OF D(6)])
    show "dom (B(z \<mapsto> (m, True))) \<subseteq> dom B" using z by auto
    show "\<exists>l0. B a = Some (n, l0)" if "(B(z \<mapsto> (m, True))) a = Some (n, l)" for a n l
      using that z by (auto split: if_splits)
    show "a + 8 + n \<le> unat (hr_ptr R)" if "(B(z \<mapsto> (m, True))) a = Some (n, l)" for a n l
      using that z block_facts(5) [OF rep] by (auto split: if_splits)
    show "hw c' a = hw c a \<and> hw c' (a + 4) = (if l then HEAP_MAGIC else HEAP_FREE)"
      if b: "(B(z \<mapsto> (m, True))) a = Some (n, l)" for a n l
    proof -
      obtain l0 where a: "B a = Some (n, l0)" "a \<noteq> z \<Longrightarrow> l0 = l" using b z by (auto split: if_splits)
      have "z + 4 \<noteq> a" using link_word_apart(4) [OF rep z a(1)] by (cases "a = z") auto
      then have "hw c' a = hw c a"
        using Wb [OF a(1) header_words(1) [OF rep a(1)]] ylink [OF _ a(1)] by auto
      moreover have "hw c' (a + 4) = (if l then HEAP_MAGIC else HEAP_FREE)"
      proof (cases "a = z")
        case True
        then show ?thesis using b Wb [OF a(1) header_words(2) [OF rep a(1)]] by auto
      next
        case False
        then show ?thesis
          using Wb [OF a(1) header_words(2) [OF rep a(1)]] ylink [OF _ a(1)] block_facts(7) [OF rep a(1)] a(2) by auto
      qed
      ultimately show ?thesis ..
    qed
  qed
  have link: "hw c' (x + 8) = (if ys \<noteq> [] \<and> x = y then ?nxt else hw c (x + 8))" if x: "x \<in> set (ys @ z # zs)" for x
  proof -
    obtain n where n: "B x = Some (n, False)" using free_block [OF rep x] .
    have "x + 8 \<noteq> z + 4" using link_word_apart(2) [OF rep n z] .
    then show ?thesis using Wb [OF n header_words(3) [OF rep n]] by auto
  qed
  obtain g where g: "seg (hw c) (hr_free_list R) ys g" "seg (hw c) g (z # zs) 0"
    using D(7) unfolding seg_append by blast
  have zs: "seg (hw c') ?nxt zs 0"
  proof -
    have "hw c' (x + 8) = hw c (x + 8)" if "x \<in> set zs" for x
      using link [of x] that D(8) last_in_set [of ys] unfolding y_def by fastforce
    then show ?thesis using g(2) seg_cong [of zs "hw c'" "hw c" ?nxt 0] by simp
  qed
  have ys: "seg (hw c') (hr_free_list R') ys ?nxt"
  proof (cases "ys = []")
    case False
    have d: "distinct ys" using D(8) by simp
    have "seg (hw c') (hr_free_list R) ys ?nxt"
    proof (rule seg_relink [OF g(1) False d])
      show "hw c' (last ys + 8) = ?nxt" using link [of y] False by (simp add: y_def)
      show "hw c' (x + 8) = hw c (x + 8)" if "x \<in> set ys" "x \<noteq> last ys" for x
        using link [of x] that by (simp add: y_def)
    qed
    then show ?thesis using False R'(4) by simp
  qed (simp add: R'(4))
  have "set (ys @ zs) = {a. \<exists>n. (B(z \<mapsto> (m, True))) a = Some (n, False)}"
  proof -
    have "set (ys @ zs) = set (ys @ z # zs) - {z}" using D(8) by auto
    then show ?thesis unfolding D(9) by auto
  qed
  then show "heap_rep c' R' (B(z \<mapsto> (m, True))) (ys @ zs)"
    using D(3,4,5,8) a2 blocks ys zs
    by (intro rep_update [OF rep]) (auto simp: R'(1-3) seg_append)
qed

section \<open>Allocation\<close>

lemma addr_add: "(of_nat a :: u32) + 8 = of_nat (a + 8)" "(of_nat a :: u32) + 4 = of_nat (a + 4)"
  by simp_all

lemma of_nat_u32: "x < 2 ^ 32 \<Longrightarrow> unat (of_nat x :: u32) = x"
  by (simp add: unat_of_nat)

lemma of_nat_zero: "x < 2 ^ 32 \<Longrightarrow> ((of_nat x :: u32) = 0) = (x = 0)"
  using of_nat_u32 [of x] by (cases "x = 0") auto

text \<open>The walk along the free list takes the first block that is large enough.\<close>

lemma freelist_walk:
  assumes rep: "heap_rep c R B (ys @ zs)" and "seg (hw c) cur zs 0"
  shows "\<exists>p rc. freelist_alloc E n (if ys = [] then 0 else of_nat (last ys)) cur (R, c) = Some (p, rc) \<and>
    (p = 0 \<and> rc = (R, c) \<or>
     (\<exists>as z bs m. zs = as @ z # bs \<and> B z = Some (m, False) \<and> unat n \<le> m \<and> p = of_nat (z + 8) \<and>
        rc = unlinked E (ys @ as) z (R, c)))"
  using assms
proof (induction zs arbitrary: ys cur)
  case Nil
  then show ?case by (subst freelist_alloc.simps) simp
next
  case (Cons z zs)
  note rep = Cons.prems(1)
  let ?p = "if ys = [] then 0 else of_nat (last ys) :: u32"
  have cur: "cur = of_nat z" "0 < z" "z < 2 ^ 32" and tl: "seg (hw c) (hw c (z + 8)) zs 0"
    using Cons.prems(2) by auto
  have nz: "cur \<noteq> 0" using cur by (simp add: of_nat_zero)
  obtain m where m: "B z = Some (m, False)" using free_block [OF rep, of z] by auto
  note W = header_words [OF rep m]
  have r1: "mem_read32 E c cur = (of_nat m, c)"
    using arena_read [OF heap_repD(1) [OF rep] block_word_arena [OF rep m W(1)], of E] block_facts(6) [OF rep m]
    by (simp add: cur(1))
  have u: "cur + HEAP_HDR_SZ = of_nat (z + 8)" "cur + 4 = of_nat (z + 4)"
    "(of_nat (last ys) :: u32) + HEAP_HDR_SZ = of_nat (last ys + 8)"
    by (simp_all add: cur(1) HEAP_HDR_SZ_def addr_add del: of_nat_add)
  have r2: "mem_read32 E c (of_nat (z + 8)) = (hw c (z + 8), c)"
    using arena_read [OF heap_repD(1) [OF rep] block_word_arena [OF rep m W(3)], of E]
    by (simp del: of_nat_add)
  have um: "unat (of_nat m :: u32) = m" using block_facts(10) [OF rep m] by (simp add: of_nat_u32)
  show ?case
  proof (cases "n \<le> of_nat m")
    case True
    have pz: "(?p = 0) = (ys = [])"
    proof (cases "ys = []")
      case False
      then have "last ys \<in> set (ys @ z # zs)" by simp
      then obtain q where q: "B (last ys) = Some (q, False)" using free_block [OF rep] by blast
      have "0 < last ys" "last ys < 2 ^ 32" using block_facts(9,10) [OF rep q] by simp_all
      then show ?thesis using False by (simp add: of_nat_zero)
    qed simp
    have "freelist_alloc E n ?p cur (R, c) = Some (of_nat (z + 8), unlinked E ys z (R, c))"
      by (subst freelist_alloc.simps)
        (simp add: nz r1 r2 True pz unlinked_def Let_def u del: of_nat_add)
    moreover have "unat n \<le> m" using True um by (simp add: word_le_nat_alt)
    ultimately show ?thesis using m
      by (intro exI [of _ "of_nat (z + 8)"] exI [of _ "unlinked E ys z (R, c)"] conjI disjI2 exI [of _ "[]"] exI [of _ z]
          exI [of _ zs] exI [of _ m]) simp_all
  next
    case False
    have step: "freelist_alloc E n ?p cur (R, c) = freelist_alloc E n cur (hw c (z + 8)) (R, c)"
      by (subst freelist_alloc.simps) (simp add: nz r1 r2 u False del: of_nat_add)
    have "heap_rep c R B ((ys @ [z]) @ zs)" using rep by simp
    note IH = Cons.IH [OF this tl]
    have lz: "(if ys @ [z] = [] then 0 else of_nat (last (ys @ [z])) :: u32) = cur" by (simp add: cur(1))
    from IH [unfolded lz] obtain p rc where ih: "freelist_alloc E n cur (hw c (z + 8)) (R, c) = Some (p, rc)"
      "p = 0 \<and> rc = (R, c) \<or>
       (\<exists>as w bs m. zs = as @ w # bs \<and> B w = Some (m, False) \<and> unat n \<le> m \<and> p = of_nat (w + 8) \<and>
          rc = unlinked E ((ys @ [z]) @ as) w (R, c))"
      by (elim exE conjE) (rule that)
    from ih(2) show ?thesis
    proof (elim disjE exE conjE)
      assume "p = 0" "rc = (R, c)"
      then show ?thesis using step ih(1) by simp
    next
      fix as w bs m
      assume "zs = as @ w # bs" "B w = Some (m, False)" "unat n \<le> m" "p = of_nat (w + 8)"
        "rc = unlinked E ((ys @ [z]) @ as) w (R, c)"
      then show ?thesis using step ih(1)
        by (intro exI [of _ p] exI [of _ rc] conjI disjI2 exI [of _ "z # as"] exI [of _ w] exI [of _ bs] exI [of _ m])
          simp_all
    qed
  qed
qed

lemma heap_round_facts:
  assumes "0 < unat n" "unat n \<le> 2 ^ 32 - 12"
  shows "unat (heap_round n) mod 4 = 0" "4 \<le> unat (heap_round n)" "unat n \<le> unat (heap_round n)"
    "unat (heap_round n) + 8 < 2 ^ 32"
proof -
  define x where "x = max (unat n) 4 + 3"
  have "unat ((if n < 4 then 4 else n) + 3) = x"
    using assms(2) by (auto simp: x_def unat_word_ariths word_less_nat_alt)
  then have r: "unat (heap_round n) = x - x mod 4" by (simp only: heap_round_def unat_word_base)
  have "x - x mod 4 = 4 * (x div 4)" by (rule minus_mod_eq_mult_div)
  then show "unat (heap_round n) mod 4 = 0" by (simp add: r)
  have "x - x mod 4 + 3 \<ge> x" by presburger
  then show "4 \<le> unat (heap_round n)" "unat n \<le> unat (heap_round n)" by (auto simp: r x_def)
  have "x < 2 ^ 32 - 8" using assms(2) by (auto simp: x_def)
  moreover have "(2 ^ 32 - 8 :: nat) mod 4 = 0" by simp
  ultimately show "unat (heap_round n) + 8 < 2 ^ 32" by (simp add: r)
qed

text \<open>A block carved from the top.\<close>

lemma bump_rep:
  assumes rep: "heap_rep c R B xs"
    and m: "m mod 4 = 0" "4 \<le> m" "unat (hr_ptr R) + 8 + m \<le> unat (hr_end R)"
    and a: "a = unat (hr_ptr R)"
    and c': "c' = mem_write32 E (mem_write32 E c (of_nat a) (of_nat m)) (of_nat (a + 4)) HEAP_MAGIC"
    and R': "R' = R\<lparr>hr_ptr := of_nat (a + 8 + m)\<rparr>"
  shows "B a = None" "heap_rep c' R' (B(a \<mapsto> (m, True))) xs"
    "\<And>b n k l. B b = Some (n, l) \<Longrightarrow> block_word b n k \<Longrightarrow> hw c' k = hw c k"
proof -
  note D = heap_repD [OF rep]
  have lim: "unat (hr_end R) < 2 ^ 32" using D(1) by (simp add: arena_def)
  have up: "unat (hr_ptr R') = a + 8 + m" using m(3) lim by (simp add: R' of_nat_u32 a del: of_nat_add)
  have below: "b + 8 + n \<le> a" if "B b = Some (n, l)" for b n l using block_facts(5) [OF rep that] by (simp add: a)
  show new: "B a = None"
  proof (rule ccontr)
    assume "B a \<noteq> None"
    then obtain n l where "B a = Some (n, l)" by auto
    then show False using below by fastforce
  qed
  have w: "arena_word (unat (hr_base R)) (unat (hr_end R)) a" "arena_word (unat (hr_base R)) (unat (hr_end R)) (a + 4)"
    using D(3,5) m by (auto simp: a)
  have a1: "arena (mem_write32 E c (of_nat a) (of_nat m)) (unat (hr_base R)) (unat (hr_end R))"
    by (rule arena_write(1) [OF D(1) w(1)])
  have a2: "arena c' (unat (hr_base R)) (unat (hr_end R))" unfolding c' by (rule arena_write(1) [OF a1 w(2)])
  have W: "hw c' j = (if j = a + 4 then HEAP_MAGIC else if j = a then of_nat m else hw c j)"
    if "arena_word (unat (hr_base R)) (unat (hr_end R)) j" for j
    unfolding c' using arena_write(2) [OF a1 w(2) that] arena_write(2) [OF D(1) w(1) that] by simp
  show old: "hw c' k = hw c k" if b: "B b = Some (n, l)" "block_word b n k" for b n k l
  proof -
    have "k < a" using b(2) below [OF b(1)] by (simp add: block_word_def)
    then show ?thesis using W [OF block_word_arena [OF rep b]] by simp
  qed
  have "unat (hr_base R) \<le> b \<and> b mod 4 = 0 \<and> n mod 4 = 0 \<and> 4 \<le> n \<and> b + 8 + n \<le> a + 8 + m \<and>
      hw c' b = of_nat n \<and> hw c' (b + 4) = (if l then HEAP_MAGIC else HEAP_FREE)"
    if b: "(B(a \<mapsto> (m, True))) b = Some (n, l)" for b n l
  proof (cases "b = a")
    case True
    then show ?thesis using b m(1,2) D(3,5) W [OF w(1)] W [OF w(2)] by (auto simp: a)
  next
    case False
    then have b: "B b = Some (n, l)" using b by simp
    show ?thesis
      using block_facts(1-4,6,7) [OF rep b] below [OF b] old [OF b header_words(1) [OF rep b]]
        old [OF b header_words(2) [OF rep b]] by simp
  qed
  moreover have "b + 8 + n \<le> d"
    if b: "(B(a \<mapsto> (m, True))) b = Some (n, l)" "(B(a \<mapsto> (m, True))) d \<noteq> None" "b < d" for b d n l
  proof (cases "d = a")
    case True
    then show ?thesis using b below [of b n l] by auto
  next
    case False
    then obtain q k where d: "B d = Some (q, k)" using b(2) by auto
    then have "b \<noteq> a" using below [OF d] b(3) by auto
    then have "B b = Some (n, l)" using b(1) by simp
    then show ?thesis using blocks_apart [OF rep _ d, of b n l] b(3) by auto
  qed
  ultimately have "blocks_ok (hw c') (unat (hr_base R)) (a + 8 + m) (B(a \<mapsto> (m, True)))"
    unfolding blocks_ok_def by blast
  moreover have "seg (hw c') (hr_free_list R') xs 0"
  proof -
    have "hw c' (x + 8) = hw c (x + 8)" if x: "x \<in> set xs" for x
    proof -
      obtain n where n: "B x = Some (n, False)" using free_block [OF rep x] .
      show ?thesis by (rule old [OF n header_words(3) [OF rep n]])
    qed
    then show ?thesis using D(7) seg_cong [of xs "hw c'" "hw c"] by (simp add: R')
  qed
  moreover have "set xs = {x. \<exists>n. (B(a \<mapsto> (m, True))) x = Some (n, False)}" using D(9) new by auto
  ultimately show "heap_rep c' R' (B(a \<mapsto> (m, True))) xs"
    using D(3,5,8) m(1,3) a2 up by (intro rep_update [OF rep]) (simp_all add: R' a, presburger+)
qed

text \<open>What an allocation of an admissible size does to the abstract heap.\<close>

lemma heap_alloc_refines:
  assumes rep: "heap_rep c R B xs" and n: "0 < unat n" "unat n \<le> 2 ^ 32 - 12"
  shows "\<exists>p R' c'. heap_alloc E n (R, c) = Some (p, R', c') \<and>
    (p = 0 \<and> R' = R \<and> c' = c \<or>
     (\<exists>a m xs'. p = of_nat (a + 8) \<and> unat n \<le> m \<and> (\<forall>k. B a \<noteq> Some (k, True)) \<and>
        hr_base R' = hr_base R \<and> hr_end R' = hr_end R \<and> heap_rep c' R' (B(a \<mapsto> (m, True))) xs' \<and>
        (\<forall>b q k. B b = Some (q, True) \<longrightarrow> block_word b q k \<longrightarrow> hw c' k = hw c k)))"
proof -
  note D = heap_repD [OF rep]
  let ?n = "heap_round n"
  note N = heap_round_facts [OF n]
  have n0: "n \<noteq> 0" using n(1) by auto
  have "heap_rep c R B ([] @ xs)" using rep by simp
  from freelist_walk [OF this D(7), of E ?n] obtain p rc where
    walk: "freelist_alloc E ?n 0 (hr_free_list R) (R, c) = Some (p, rc)"
      "p = 0 \<and> rc = (R, c) \<or>
       (\<exists>as z bs m. xs = as @ z # bs \<and> B z = Some (m, False) \<and> unat ?n \<le> m \<and> p = of_nat (z + 8) \<and>
          rc = unlinked E as z (R, c))"
    by (simp only: if_True simp_thms append_Nil) (elim exE conjE, rule that)
  show ?thesis
  proof (cases "p = 0")
    case False
    then obtain as z bs m where z: "xs = as @ z # bs" "B z = Some (m, False)" "unat ?n \<le> m" "p = of_nat (z + 8)"
      "rc = unlinked E as z (R, c)" using walk(2) by blast
    obtain R' c' where rc: "rc = (R', c')" by (cases rc)
    have u: "unlinked E as z (R, c) = (R', c')" using z(5) rc by simp
    note U = unlinked_rep [OF rep [unfolded z(1)] z(2) u]
    have "heap_alloc E n (R, c) = Some (p, R', c')" using walk(1) False n0 by (simp add: heap_alloc_def Let_def rc)
    moreover have "\<exists>a m xs'. p = of_nat (a + 8) \<and> unat n \<le> m \<and> (\<forall>k. B a \<noteq> Some (k, True)) \<and>
        hr_base R' = hr_base R \<and> hr_end R' = hr_end R \<and> heap_rep c' R' (B(a \<mapsto> (m, True))) xs' \<and>
        (\<forall>b q k. B b = Some (q, True) \<longrightarrow> block_word b q k \<longrightarrow> hw c' k = hw c k)"
      using z(2,3,4) N(3) U by (intro exI [of _ z] exI [of _ m] exI [of _ "as @ bs"]) auto
    ultimately show ?thesis by blast
  next
    case True
    with walk(2) have rc: "rc = (R, c)"
    proof (elim disjE exE conjE)
      fix as z bs m assume "p = of_nat (z + 8)" "B z = Some (m, False)"
      then have "(of_nat (z + 8) :: u32) = 0" "z + 8 < 2 ^ 32" using True block_facts(10) [OF rep] by fastforce+
      then have False using of_nat_zero [of "z + 8"] by (simp del: of_nat_add)
      then show "rc = (R, c)" ..
    qed
    have le: "hr_ptr R \<le> hr_end R" using D(4) by (simp add: word_le_nat_alt)
    have t: "unat (HEAP_HDR_SZ + ?n) = 8 + unat ?n" using N(4) by (simp add: HEAP_HDR_SZ_def unat_word_ariths)
    have d: "unat (hr_end R - hr_ptr R) = unat (hr_end R) - unat (hr_ptr R)" using le by (simp add: unat_sub)
    show ?thesis
    proof (cases "hr_end R - hr_ptr R < HEAP_HDR_SZ + ?n")
      case True
      then have "heap_alloc E n (R, c) = Some (0, R, c)"
        using walk(1) \<open>p = 0\<close> rc n0 by (simp add: heap_alloc_def Let_def)
      then show ?thesis by blast
    next
      case False
      then have fits: "unat (hr_ptr R) + 8 + unat ?n \<le> unat (hr_end R)"
        using t d D(4) by (simp add: word_less_nat_alt)
      define a where "a = unat (hr_ptr R)"
      define R' where "R' = R\<lparr>hr_ptr := of_nat (a + 8 + unat ?n)\<rparr>"
      define c' where "c' = mem_write32 E (mem_write32 E c (of_nat a) (of_nat (unat ?n))) (of_nat (a + 4)) HEAP_MAGIC"
      note U = bump_rep [OF rep N(1,2) fits a_def c'_def R'_def]
      have "\<not> hr_end R < hr_ptr R" using le by simp
      then have "heap_alloc E n (R, c) = Some (of_nat (a + 8), R', c')"
        using walk(1) \<open>p = 0\<close> rc n0 False [unfolded HEAP_HDR_SZ_def]
        by (simp add: heap_alloc_def Let_def R'_def c'_def a_def HEAP_HDR_SZ_def add.assoc del: not_less)
      moreover have "\<exists>a' m xs'. of_nat (a + 8) = (of_nat (a' + 8) :: u32) \<and> unat n \<le> m \<and> (\<forall>k. B a' \<noteq> Some (k, True)) \<and>
          hr_base R' = hr_base R \<and> hr_end R' = hr_end R \<and> heap_rep c' R' (B(a' \<mapsto> (m, True))) xs' \<and>
          (\<forall>b q k. B b = Some (q, True) \<longrightarrow> block_word b q k \<longrightarrow> hw c' k = hw c k)"
        using U N(3) by (intro exI [of _ a] exI [of _ "unat ?n"] exI [of _ xs]) (auto simp: R'_def)
      ultimately show ?thesis by blast
    qed
  qed
qed

section \<open>Release\<close>

text \<open>
  Freeing a live block returns it: the topmost block to the arena, any other to the free list.
  Freeing a block of the free list again does nothing.
\<close>

lemma aligned_size: "m mod 4 = 0 \<Longrightarrow> m + 3 < 2 ^ 32 \<Longrightarrow> ((of_nat m :: u32) + 3) AND NOT 3 = of_nat m"
proof -
  assume m: "m mod 4 = 0" "m + 3 < 2 ^ 32"
  have "unat ((of_nat m :: u32) + 3) = m + 3" using of_nat_u32 [of "m + 3"] m(2) by simp
  then have "unat (((of_nat m :: u32) + 3) AND NOT 3) = m + 3 - (m + 3) mod 4" by (simp only: unat_word_base)
  also have "\<dots> = m" using m(1) by presburger
  finally show ?thesis using of_nat_u32 [of m] m(2) by (intro unsigned_word_eqI [where 'a = nat]) simp
qed

lemma double_free_ignored:
  assumes rep: "heap_rep c R B xs" and b: "B a = Some (m, False)"
  shows "region_free E (of_nat (a + 8)) (R, c) = (R, c)"
proof -
  have "mem_read32 E c (of_nat (a + 4)) = (HEAP_FREE, c)"
    using arena_read [OF heap_repD(1) [OF rep] block_word_arena [OF rep b header_words(2) [OF rep b]]] block_facts(7) [OF rep b]
    by simp
  moreover have "(of_nat (a + 8) :: u32) - HEAP_HDR_SZ + 4 = of_nat (a + 4)" by (simp add: HEAP_HDR_SZ_def)
  moreover have "HEAP_FREE \<noteq> HEAP_MAGIC" by (simp add: HEAP_FREE_def HEAP_MAGIC_def)
  ultimately show ?thesis by (simp add: region_free_def Let_def del: of_nat_add)
qed

lemma region_free_refines:
  assumes rep: "heap_rep c R B xs" and b: "B a = Some (m, True)"
    and f: "region_free E (of_nat (a + 8)) (R, c) = (R', c')"
  shows "\<exists>B' xs'. heap_rep c' R' B' xs' \<and> (B' = B(a := None) \<or> B' = B(a \<mapsto> (m, False)))"
    "\<And>d n k. B d = Some (n, True) \<Longrightarrow> d \<noteq> a \<Longrightarrow> block_word d n k \<Longrightarrow> hw c' k = hw c k"
    "hr_base R' = hr_base R" "hr_end R' = hr_end R"
proof -
  note D = heap_repD [OF rep]
  note F = block_facts [OF rep b]
  let ?lo = "unat (hr_base R)" and ?hi = "unat (hr_end R)"
  have w: "arena_word ?lo ?hi a" "arena_word ?lo ?hi (a + 4)" "arena_word ?lo ?hi (a + 8)"
    by (rule block_word_arena [OF rep b header_words(1) [OF rep b]] block_word_arena [OF rep b header_words(2) [OF rep b]]
        block_word_arena [OF rep b header_words(3) [OF rep b]])+
  have u: "(of_nat (a + 8) :: u32) - HEAP_HDR_SZ = of_nat a" by (simp add: HEAP_HDR_SZ_def)
  have magic: "mem_read32 E c (of_nat (a + 4)) = (HEAP_MAGIC, c)" using arena_read [OF D(1) w(2), of E] F(7) by simp
  have sz: "mem_read32 E c (of_nat a) = (of_nat m, c)" using arena_read [OF D(1) w(1), of E] F(6) by simp
  have al: "((of_nat m :: u32) + 3) AND NOT 3 = of_nat m" by (rule aligned_size) (use F(3,10) in auto)
  have t: "of_nat a + (HEAP_HDR_SZ + of_nat m) = (of_nat (a + 8 + m) :: u32)" by (simp add: HEAP_HDR_SZ_def)
  have nat: "(x :: u32) = y \<longleftrightarrow> unat x = unat y" for x y by (rule word_eq_iff_unsigned)
  have top: "((of_nat (a + 8 + m) :: u32) = hr_ptr R) = (a + 8 + m = unat (hr_ptr R))"
    using of_nat_u32 [OF F(10)] by (simp only: nat)
  have u4: "(of_nat a :: u32) + 4 = of_nat (a + 4)" by simp
  define k where "k \<longleftrightarrow> a + 8 + m = unat (hr_ptr R)"
  have f': "(R', c') =
     (if k then (R\<lparr>hr_ptr := of_nat a\<rparr>, mem_write32 E c (of_nat (a + 4)) 0)
      else (R\<lparr>hr_free_list := of_nat a\<rparr>,
            mem_write32 E (mem_write32 E c (of_nat (a + 4)) HEAP_FREE) (of_nat (a + 8)) (hr_free_list R)))"
    unfolding f [symmetric] region_free_def Let_def k_def fst_conv snd_conv
    by (simp add: u u4 magic sz al [simplified] t top del: of_nat_add)
  show "hr_base R' = hr_base R" "hr_end R' = hr_end R" using f' by (auto split: if_splits)
  have new: "arena c' ?lo ?hi \<and> (\<forall>j. arena_word ?lo ?hi j \<longrightarrow>
      hw c' j = (if k then if j = a + 4 then 0 else hw c j
                 else if j = a + 8 then hr_free_list R else if j = a + 4 then HEAP_FREE else hw c j))"
  proof (cases k)
    case True
    then have "c' = mem_write32 E c (of_nat (a + 4)) 0" using f' by simp
    then show ?thesis using True arena_write [OF D(1) w(2), where E = E and v = 0] by simp
  next
    case False
    then have c': "c' = mem_write32 E (mem_write32 E c (of_nat (a + 4)) HEAP_FREE) (of_nat (a + 8)) (hr_free_list R)"
      using f' by simp
    note a1 = arena_write [OF D(1) w(2), where E = E and v = HEAP_FREE]
    note a2 = arena_write [OF a1(1) w(3), where E = E and v = "hr_free_list R"]
    have "hw c' j = (if j = a + 8 then hr_free_list R else if j = a + 4 then HEAP_FREE else hw c j)"
      if j: "arena_word ?lo ?hi j" for j unfolding c' a2(2) [OF j] a1(2) [OF j] ..
    then show ?thesis using False a2(1) [folded c'] by simp
  qed
  then have ar: "arena c' ?lo ?hi" by (rule conjunct1)
  have W: "hw c' j = (if k then if j = a + 4 then 0 else hw c j
                 else if j = a + 8 then hr_free_list R else if j = a + 4 then HEAP_FREE else hw c j)"
    if j: "arena_word ?lo ?hi j" for j by (rule new [THEN conjunct2, THEN spec, THEN mp, OF j])
  have old: "hw c' j = hw c j" if d: "B d = Some (n, l)" "d \<noteq> a" "block_word d n j" for d n l j
    using W [OF block_word_arena [OF rep d(1,3)]]
      block_word_apart [OF rep d(1) b d(2,3) header_words(2) [OF rep b]]
      block_word_apart [OF rep d(1) b d(2,3) header_words(3) [OF rep b]] by simp
  show "hw c' j = hw c j" if "B d = Some (n, True)" "d \<noteq> a" "block_word d n j" for d n j
    by (rule old [OF that])
  define B' where "B' = (if k then B(a := None) else B(a \<mapsto> (m, False)))"
  define xs' where "xs' = (if k then xs else a # xs)"
  have sub: "B' d = Some (n, l) \<Longrightarrow> if d = a then \<not> k \<and> n = m \<and> \<not> l else B d = Some (n, l)" for d n l
    by (auto simp: B'_def split: if_splits)
  have lim: "d + 8 + n \<le> unat (hr_ptr R')" if d: "B' d = Some (n, l)" for d n l
  proof (cases k)
    case True
    then have d': "B d = Some (n, l)" "d \<noteq> a" using sub [OF d] by (auto split: if_splits)
    have "unat (hr_ptr R') = a" using f' True of_nat_u32 [of a] F(10) by simp
    moreover have "d + 8 + n \<le> a"
      using blocks_apart [OF rep d'(1) b d'(2)] block_facts(4,5) [OF rep d'(1)] True by (simp add: k_def)
    ultimately show ?thesis by simp
  next
    case False
    then have "hr_ptr R' = hr_ptr R" using f' by simp
    then show ?thesis using sub [OF d] block_facts(5) [OF rep, of d n l] F(5) by (auto split: if_splits)
  qed
  have blocks: "blocks_ok (hw c') ?lo (unat (hr_ptr R')) B'"
  proof (rule blocks_ok_frame [OF D(6)])
    show "dom B' \<subseteq> dom B" using b by (auto simp: B'_def split: if_splits)
    show "\<exists>l0. B d = Some (n, l0)" if "B' d = Some (n, l)" for d n l
      using sub [OF that] b by (auto split: if_splits)
    show "hw c' d = hw c d \<and> hw c' (d + 4) = (if l then HEAP_MAGIC else HEAP_FREE)" if d: "B' d = Some (n, l)" for d n l
    proof (cases "d = a")
      case True
      then show ?thesis using sub [OF d] W [OF w(1)] W [OF w(2)] by simp
    next
      case False
      then have d': "B d = Some (n, l)" using sub [OF d] by simp
      show ?thesis
        using old [OF d' False header_words(1) [OF rep d']] old [OF d' False header_words(2) [OF rep d']]
          block_facts(7) [OF rep d'] by simp
    qed
  qed (rule lim)
  have notin: "a \<notin> set xs" using D(9) b by auto
  have list0: "seg (hw c') f xs g = seg (hw c) f xs g" for f g
  proof (rule seg_cong)
    fix x assume x: "x \<in> set xs"
    obtain n where n: "B x = Some (n, False)" using free_block [OF rep x] .
    show "hw c' (x + 8) = hw c (x + 8)"
      by (rule old [OF n _ header_words(3) [OF rep n]]) (use x notin in auto)
  qed
  have fr: "hr_free_list R' = (if k then hr_free_list R else of_nat a)" using f' by (auto split: if_splits)
  have list: "seg (hw c') (hr_free_list R') xs' 0"
  proof (cases k)
    case True
    then show ?thesis using D(7) by (simp add: xs'_def list0 fr)
  next
    case False
    have "0 < a" "a < 2 ^ 32" using F(9,10) by simp_all
    then show ?thesis using False D(7) W [OF w(3)] by (simp add: xs'_def list0 fr)
  qed
  have "set xs' = {d. \<exists>n. B' d = Some (n, False)}" using D(9) b by (auto simp: xs'_def B'_def)
  moreover have "distinct xs'" using D(8) notin by (simp add: xs'_def)
  moreover have "?lo \<le> unat (hr_ptr R') \<and> unat (hr_ptr R') \<le> ?hi \<and> unat (hr_ptr R') mod 4 = 0"
  proof (cases k)
    case True
    then have "unat (hr_ptr R') = a" using f' of_nat_u32 [of a] F(10) by simp
    then show ?thesis using F(1,2,8) by simp
  next
    case False
    then show ?thesis using f' D(3,4,5) by simp
  qed
  ultimately have "heap_rep c' R' B' xs'"
    using ar blocks list f' by (intro rep_update [OF rep]) (auto split: if_splits)
  then show "\<exists>B' xs'. heap_rep c' R' B' xs' \<and> (B' = B(a := None) \<or> B' = B(a \<mapsto> (m, False)))"
    unfolding B'_def by (cases k) auto
qed

section \<open>The user's stores\<close>

lemma user_store_rep:
  assumes rep: "heap_rep c R B xs" and b: "B a = Some (m, True)" and k: "block_word a m k" "a + 8 \<le> k"
  shows "heap_rep (mem_write32 E c (of_nat k) v) R B xs"
    "\<And>d n l j. B d = Some (n, l) \<Longrightarrow> block_word d n j \<Longrightarrow>
       hw (mem_write32 E c (of_nat k) v) j = (if j = k then v else hw c j)"
proof -
  note D = heap_repD [OF rep]
  let ?c = "mem_write32 E c (of_nat k) v"
  have kw: "arena_word (unat (hr_base R)) (unat (hr_end R)) k" by (rule block_word_arena [OF rep b k(1)])
  note a = arena_write [OF D(1) kw, where E = E and v = v]
  show W: "hw ?c j = (if j = k then v else hw c j)" if d: "B d = Some (n, l)" "block_word d n j" for d n l j
    by (rule a(2) [OF block_word_arena [OF rep d]])
  have hdr: "k \<noteq> d \<and> k \<noteq> d + 4 \<and> (l \<or> k \<noteq> d + 8)" if d: "B d = Some (n, l)" for d n l
  proof (cases "d = a")
    case True
    then show ?thesis using k(2) b d by auto
  next
    case False
    then show ?thesis
      using block_word_apart [OF rep b d _ k(1) header_words(1) [OF rep d]]
        block_word_apart [OF rep b d _ k(1) header_words(2) [OF rep d]]
        block_word_apart [OF rep b d _ k(1) header_words(3) [OF rep d]] by auto
  qed
  have "blocks_ok (hw ?c) (unat (hr_base R)) (unat (hr_ptr R)) B"
  proof (rule blocks_ok_frame [OF D(6)])
    show "hw ?c d = hw c d \<and> hw ?c (d + 4) = (if l then HEAP_MAGIC else HEAP_FREE)" if d: "B d = Some (n, l)" for d n l
      using W [OF d header_words(1) [OF rep d]] W [OF d header_words(2) [OF rep d]] hdr [OF d] block_facts(7) [OF rep d]
      by auto
  qed (use block_facts(5) [OF rep] in auto)
  moreover have "seg (hw ?c) (hr_free_list R) xs 0"
  proof -
    have "hw ?c (x + 8) = hw c (x + 8)" if x: "x \<in> set xs" for x
    proof -
      obtain n where n: "B x = Some (n, False)" using free_block [OF rep x] .
      show ?thesis using W [OF n header_words(3) [OF rep n]] hdr [OF n] by auto
    qed
    then show ?thesis using D(7) seg_cong [of xs "hw ?c" "hw c"] by simp
  qed
  ultimately show "heap_rep ?c R B xs" using D(3,4,5,8,9) a(1) by (intro rep_update [OF rep]) auto
qed

section \<open>Runs of a client\<close>

text \<open>
  What a program does that uses the heap as it should: it allocates blocks of admissible sizes,
  frees blocks it holds, and stores words into them. \<open>L\<close> are the pointers it holds, with the sizes
  it asked for, and \<open>M\<close> the words it has stored in them.
\<close>

inductive heap_run ::
  "'d host \<Rightarrow> stub_heap_region \<times> 'd cpu \<Rightarrow> stub_heap_region \<times> 'd cpu \<Rightarrow> (nat \<Rightarrow> nat option) \<Rightarrow>
   (nat \<Rightarrow> u32 option) \<Rightarrow> bool"
  for E :: "'d host" and s0 :: "stub_heap_region \<times> 'd cpu"
where
  run_start: "heap_run E s0 s0 (\<lambda>_. None) (\<lambda>_. None)"
| run_malloc: "heap_run E s0 s L M \<Longrightarrow> 0 < unat n \<Longrightarrow> unat n \<le> 2 ^ 32 - 12 \<Longrightarrow> heap_alloc E n s = Some (p, s') \<Longrightarrow>
    heap_run E s0 s' (if p = 0 then L else L(unat p \<mapsto> unat n)) M"
| run_free: "heap_run E s0 s L M \<Longrightarrow> L p = Some n \<Longrightarrow> region_free E (of_nat p) s = s' \<Longrightarrow>
    heap_run E s0 s' (L(p := None)) (M |` {k. k < p \<or> p + n \<le> k})"
| run_store: "heap_run E s0 s L M \<Longrightarrow> L p = Some n \<Longrightarrow> p \<le> k \<Longrightarrow> k + 4 \<le> p + n \<Longrightarrow> k mod 4 = 0 \<Longrightarrow>
    heap_run E s0 (fst s, mem_write32 E (snd s) (of_nat k) v) L (M(k \<mapsto> v))"

definition run_inv ::
  "stub_heap_region \<Rightarrow> stub_heap_region \<times> 'd cpu \<Rightarrow> (nat \<Rightarrow> nat option) \<Rightarrow> (nat \<Rightarrow> u32 option) \<Rightarrow>
   (nat \<Rightarrow> (nat \<times> bool) option) \<Rightarrow> nat list \<Rightarrow> bool" where
  "run_inv R0 s L M B xs \<longleftrightarrow>
     heap_rep (snd s) (fst s) B xs \<and> hr_base (fst s) = hr_base R0 \<and> hr_end (fst s) = hr_end R0 \<and>
     (\<forall>p n. L p = Some n \<longrightarrow> (\<exists>a m. p = a + 8 \<and> B a = Some (m, True) \<and> n \<le> m)) \<and>
     (\<forall>k v. M k = Some v \<longrightarrow> hw (snd s) k = v \<and> k mod 4 = 0 \<and> (\<exists>p n. L p = Some n \<and> p \<le> k \<and> k + 4 \<le> p + n))"

text \<open>A held word lies in the user part of its live block.\<close>

lemma held_word:
  assumes "run_inv R0 s L M B xs" "L p = Some n" "p \<le> k" "k + 4 \<le> p + n" "k mod 4 = 0"
  obtains a m where "p = a + 8" "B a = Some (m, True)" "block_word a m k" "a + 8 \<le> k"
proof -
  obtain a m where "p = a + 8" "B a = Some (m, True)" "n \<le> m" using assms(1,2) unfolding run_inv_def by blast
  then show thesis using that [of a m] assms(3-5) by (simp add: block_word_def)
qed

lemma stored_word:
  assumes "run_inv R0 s L M B xs" "M k = Some v"
  obtains q l a m where "hw (snd s) k = v" "k mod 4 = 0" "L q = Some l" "q \<le> k" "k + 4 \<le> q + l"
    "q = a + 8" "B a = Some (m, True)" "block_word a m k"
proof -
  have "hw (snd s) k = v \<and> k mod 4 = 0 \<and> (\<exists>p n. L p = Some n \<and> p \<le> k \<and> k + 4 \<le> p + n)"
    using assms unfolding run_inv_def by blast
  then obtain q l where q: "hw (snd s) k = v" "k mod 4 = 0" "L q = Some l" "q \<le> k" "k + 4 \<le> q + l"
    by (elim conjE exE) (rule that)
  obtain a m where "q = a + 8" "B a = Some (m, True)" "block_word a m k" using held_word [OF assms(1) q(3-5,2)] .
  then show thesis by (rule that [OF q])
qed

lemma run_inv_malloc:
  assumes inv: "run_inv R0 s L M B xs" and n: "0 < unat n" "unat n \<le> 2 ^ 32 - 12" and e: "heap_alloc E n s = Some (p, s')"
  shows "\<exists>B xs. run_inv R0 s' (if p = 0 then L else L(unat p \<mapsto> unat n)) M B xs"
proof -
  obtain R c where s: "s = (R, c)" by (cases s)
  obtain R' c' where s': "s' = (R', c')" by (cases s')
  have rep: "heap_rep c R B xs" using inv by (simp add: run_inv_def s)
  from heap_alloc_refines [OF rep n, of E] e consider "p = 0" "s' = s"
    | a m xs' where "p = of_nat (a + 8)" "unat n \<le> m" "\<forall>k. B a \<noteq> Some (k, True)" "hr_base R' = hr_base R"
        "hr_end R' = hr_end R" "heap_rep c' R' (B(a \<mapsto> (m, True))) xs'"
        "\<forall>b q k. B b = Some (q, True) \<longrightarrow> block_word b q k \<longrightarrow> hw c' k = hw c k"
    unfolding s s' by (elim exE conjE disjE) auto
  then show ?thesis
  proof cases
    case 1
    then show ?thesis using inv by auto
  next
    case 2
    have lim: "a + 8 + m < 2 ^ 32" using block_facts(10) [OF 2(6), of a] by simp
    then have p: "unat p = a + 8" using 2(1) of_nat_u32 [of "a + 8"] by simp
    then have "p \<noteq> 0" by auto
    have fresh: "L (a + 8) = None"
    proof (rule ccontr)
      assume "L (a + 8) \<noteq> None"
      then obtain q where "L (a + 8) = Some q" by auto
      then obtain b k where "a + 8 = b + 8" "B b = Some (k, True)" using inv unfolding run_inv_def by blast
      then show False using 2(3) by simp
    qed
    have live: "\<exists>b k. q = b + 8 \<and> (B(a \<mapsto> (m, True))) b = Some (k, True) \<and> l \<le> k"
      if q: "(L(unat p \<mapsto> unat n)) q = Some l" for q l
    proof (cases "q = unat p")
      case True
      then show ?thesis using q 2(2) p by (intro exI [of _ a] exI [of _ m]) simp
    next
      case False
      then have "L q = Some l" using q by simp
      then obtain b k where b: "q = b + 8" "B b = Some (k, True)" "l \<le> k" using inv unfolding run_inv_def by blast
      then have "b \<noteq> a" using 2(3) by auto
      then show ?thesis using b by (intro exI [of _ b] exI [of _ k]) simp
    qed
    have kept: "hw c' k = v \<and> k mod 4 = 0 \<and> (\<exists>q l. (L(unat p \<mapsto> unat n)) q = Some l \<and> q \<le> k \<and> k + 4 \<le> q + l)"
      if k: "M k = Some v" for k v
    proof -
      obtain q l b r where q: "hw c k = v" "k mod 4 = 0" "L q = Some l" "q \<le> k" "k + 4 \<le> q + l" "q = b + 8"
        and b: "B b = Some (r, True)" "block_word b r k"
        using stored_word [OF inv k] unfolding s snd_conv by blast
      have "q \<noteq> unat p" using q(3) fresh p by auto
      then show ?thesis using 2(7) b q by auto
    qed
    have "run_inv R0 s' (L(unat p \<mapsto> unat n)) M (B(a \<mapsto> (m, True))) xs'"
      unfolding run_inv_def s' fst_conv snd_conv
    proof (intro conjI allI impI)
      show "hr_base R' = hr_base R0" "hr_end R' = hr_end R0" using 2(4,5) inv by (simp_all add: run_inv_def s)
    qed (use 2(6) live kept in blast)+
    then show ?thesis using \<open>p \<noteq> 0\<close> by auto
  qed
qed

lemma run_inv_free:
  assumes inv: "run_inv R0 s L M B xs" and l: "L p = Some n" and e: "region_free E (of_nat p) s = s'"
  shows "\<exists>B xs. run_inv R0 s' (L(p := None)) (M |` {k. k < p \<or> p + n \<le> k}) B xs"
proof -
  obtain R c where s: "s = (R, c)" by (cases s)
  obtain R' c' where s': "s' = (R', c')" by (cases s')
  have rep: "heap_rep c R B xs" using inv by (simp add: run_inv_def s)
  obtain a m where a: "p = a + 8" "B a = Some (m, True)" "n \<le> m" using inv l unfolding run_inv_def by blast
  have f: "region_free E (of_nat (a + 8)) (R, c) = (R', c')" using e by (simp add: a(1) s s')
  note F = region_free_refines [OF rep a(2) f]
  obtain B' xs' where B': "heap_rep c' R' B' xs'" "B' = B(a := None) \<or> B' = B(a \<mapsto> (m, False))" using F(1) by blast
  have other: "\<exists>b k. q = b + 8 \<and> b \<noteq> a \<and> B b = Some (k, True) \<and> B' b = Some (k, True) \<and> l \<le> k"
    if q: "(L(p := None)) q = Some l" for q l
  proof -
    have q: "q \<noteq> p" "L q = Some l" using q by (auto split: if_splits)
    obtain b k where b: "q = b + 8" "B b = Some (k, True)" "l \<le> k" using inv q(2) unfolding run_inv_def by blast
    then have "b \<noteq> a" using q(1) a(1) by auto
    then show ?thesis using b B'(2) by auto
  qed
  have kept: "hw c' k = v \<and> k mod 4 = 0 \<and> (\<exists>q l. (L(p := None)) q = Some l \<and> q \<le> k \<and> k + 4 \<le> q + l)"
    if k: "(M |` {k. k < p \<or> p + n \<le> k}) k = Some v" for k v
  proof -
    have k: "M k = Some v" "k < p \<or> p + n \<le> k" using k by (auto simp: restrict_map_def split: if_splits)
    obtain q l b r where q: "hw c k = v" "k mod 4 = 0" "L q = Some l" "q \<le> k" "k + 4 \<le> q + l"
      and b: "q = b + 8" "B b = Some (r, True)" "block_word b r k"
      using stored_word [OF inv k(1)] unfolding s snd_conv by blast
    have "q \<noteq> p" using q(3-5) k(2) \<open>L p = Some n\<close> by auto
    then have "hw c' k = hw c k" using F(2) [OF b(2) _ b(3)] a(1) b(1) by auto
    then show ?thesis using q \<open>q \<noteq> p\<close> by auto
  qed
  have "run_inv R0 s' (L(p := None)) (M |` {k. k < p \<or> p + n \<le> k}) B' xs'"
    unfolding run_inv_def s' fst_conv snd_conv
  proof (intro conjI allI impI)
    show "hr_base R' = hr_base R0" "hr_end R' = hr_end R0" using F(3,4) inv by (simp_all add: run_inv_def s)
  qed (use B'(1) other kept in blast)+
  then show ?thesis by blast
qed

lemma run_inv_store:
  assumes inv: "run_inv R0 s L M B xs" and k: "L p = Some n" "p \<le> k" "k + 4 \<le> p + n" "k mod 4 = 0"
  shows "run_inv R0 (fst s, mem_write32 E (snd s) (of_nat k) v) L (M(k \<mapsto> v)) B xs"
proof -
  obtain R c where s: "s = (R, c)" by (cases s)
  have rep: "heap_rep c R B xs" using inv by (simp add: run_inv_def s)
  obtain a m where a: "p = a + 8" "B a = Some (m, True)" "block_word a m k" "a + 8 \<le> k" using held_word [OF inv k] .
  note U = user_store_rep [OF rep a(2-4), where E = E and v = v]
  have kept: "hw (mem_write32 E c (of_nat k) v) j = w \<and> j mod 4 = 0 \<and> (\<exists>q l. L q = Some l \<and> q \<le> j \<and> j + 4 \<le> q + l)"
    if j: "(M(k \<mapsto> v)) j = Some w" for j w
  proof (cases "j = k")
    case True
    then show ?thesis using U(2) [OF a(2,3)] j k by auto
  next
    case False
    then have "M j = Some w" using j by simp
    then obtain q l b r where q: "hw c j = w" "j mod 4 = 0" "L q = Some l" "q \<le> j" "j + 4 \<le> q + l" "q = b + 8"
      and "B b = Some (r, True)" "block_word b r j"
      using stored_word [OF inv] unfolding s snd_conv by blast
    then have "hw (mem_write32 E c (of_nat k) v) j = w" using U(2) False q(1) by simp
    then show ?thesis using q(2-5) by blast
  qed
  show ?thesis unfolding run_inv_def s fst_conv snd_conv
    using U(1) inv kept unfolding run_inv_def s fst_conv snd_conv by blast
qed

lemma heap_run_inv:
  assumes "heap_run E s0 s L M" "run_inv (fst s0) s0 (\<lambda>_. None) (\<lambda>_. None) B0 []"
  shows "\<exists>B xs. run_inv (fst s0) s L M B xs"
  using assms(1)
proof induction
  case run_start
  then show ?case using assms(2) by blast
next
  case run_malloc
  then show ?case using run_inv_malloc by blast
next
  case run_free
  then show ?case using run_inv_free by blast
next
  case (run_store s L M p n k v)
  from run_store.IH obtain B xs where "run_inv (fst s0) s L M B xs" by blast
  from run_inv_store [OF this run_store.hyps(2-5)] show ?case by blast
qed

section \<open>Properties\<close>

definition fresh_heap :: "'d cpu \<Rightarrow> stub_heap_region \<Rightarrow> bool" where
  "fresh_heap c R \<longleftrightarrow>
     arena c (unat (hr_base R)) (unat (hr_end R)) \<and> 8 \<le> unat (hr_base R) \<and> hr_base R \<le> hr_end R \<and>
     hr_ptr R = hr_base R \<and> hr_free_list R = 0"

lemma fresh_heap_inv: "fresh_heap c R \<Longrightarrow> run_inv R (R, c) (\<lambda>_. None) (\<lambda>_. None) (\<lambda>_. None) []"
  by (simp add: run_inv_def heap_rep_def fresh_heap_def blocks_ok_def arena_def word_le_nat_alt)

text \<open>C30. 
  X. A program that uses the heap as it should, in any order of allocations of at least 1 and at
  most 0xFFFFFFF4 bytes, of releases of blocks it holds and of stores into them, starting from an
  empty arena: the blocks it holds lie in the arena, word-aligned, with eight bytes of header
  before each, and do not overlap; every word it stored in a block it still holds reads back as
  last stored; and the next allocation returns.
\<close>

theorem heap_blocks_safe:
  assumes "fresh_heap c0 R0" "heap_run E (R0, c0) (R, c) L M"
  shows "(\<forall>p n. L p = Some n \<longrightarrow> unat (hr_base R0) + 8 \<le> p \<and> p + n \<le> unat (hr_end R0) \<and> p mod 4 = 0) \<and>
    (\<forall>p n q m. L p = Some n \<and> L q = Some m \<and> p < q \<longrightarrow> p + n \<le> q - 8) \<and>
    (\<forall>k v. M k = Some v \<longrightarrow> mem_read32 E c (of_nat k) = (v, c)) \<and>
    (\<forall>n. 0 < unat n \<and> unat n \<le> 2 ^ 32 - 12 \<longrightarrow> heap_alloc E n (R, c) \<noteq> None)"
proof -
  obtain B xs where inv: "run_inv R0 (R, c) L M B xs"
    using heap_run_inv [OF assms(2), unfolded fst_conv, OF fresh_heap_inv [OF assms(1)]] by blast
  have rep: "heap_rep c R B xs" and ends: "hr_base R = hr_base R0" "hr_end R = hr_end R0"
    using inv by (simp_all add: run_inv_def)
  have held: "\<exists>a m. p = a + 8 \<and> B a = Some (m, True) \<and> n \<le> m" if "L p = Some n" for p n
    using inv that unfolding run_inv_def by blast
  have "unat (hr_base R0) + 8 \<le> p \<and> p + n \<le> unat (hr_end R0) \<and> p mod 4 = 0" if l: "L p = Some n" for p n
  proof -
    obtain a m where a: "p = a + 8" "B a = Some (m, True)" "n \<le> m" using held [OF l] by blast
    then show ?thesis using block_facts(1,2,8) [OF rep a(2)] ends by simp presburger
  qed
  moreover have "p + n \<le> q - 8" if l: "L p = Some n" "L q = Some m" "p < q" for p n q m
  proof -
    obtain a k where a: "p = a + 8" "B a = Some (k, True)" "n \<le> k" using held [OF l(1)] by blast
    obtain b j where b: "q = b + 8" "B b = Some (j, True)" "m \<le> j" using held [OF l(2)] by blast
    show ?thesis using blocks_apart [OF rep a(2) b(2)] a b l(3) by auto
  qed
  moreover have "mem_read32 E c (of_nat k) = (v, c)" if k: "M k = Some v" for k v
  proof -
    obtain a m where w: "hw c k = v" "B a = Some (m, True)" "block_word a m k"
      using stored_word [OF inv k] unfolding snd_conv by blast
    show ?thesis using arena_read [OF heap_repD(1) [OF rep] block_word_arena [OF rep w(2,3)], of E] w(1) by simp
  qed
  moreover have "heap_alloc E n (R, c) \<noteq> None" if "0 < unat n" "unat n \<le> 2 ^ 32 - 12" for n
    using heap_alloc_refines [OF rep that, of E] by auto
  ultimately show ?thesis by blast
qed

text \<open>C38. A request of 0xFFFFFFF5 to 0xFFFFFFF8 bytes does not fail, on any heap a program can reach that
  uses it as it should, however full and whatever has been freed: no free block is that large, and
  rounded up and with its header the request comes to 2^32, which is 0 in the 32-bit sum, so that it
  fits at the end of every arena, takes no space from it, and returns the pointer behind a header
  written there. The next request that no free block serves and that fits what is left of the arena
  returns the same pointer again.
\<close>

theorem heap_alloc_wraps:
  assumes "fresh_heap c0 R0" "heap_run E (R0, c0) (R, c) L M"
    and "0xFFFFFFF5 \<le> n" "n \<le> 0xFFFFFFF8"
    and c': "c' = mem_write32 E (mem_write32 E c (hr_ptr R) 0xFFFFFFF8) (hr_ptr R + 4) HEAP_MAGIC"
  shows "heap_alloc E n (R, c) = Some (hr_ptr R + 8, R, c') \<and>
    (0 < m \<and> freelist_alloc E (heap_round m) 0 (hr_free_list R) (R, c') = Some (0, R, c') \<and>
     heap_round m + 8 \<le> hr_end R - hr_ptr R \<longrightarrow>
       (\<exists>R'' c''. heap_alloc E m (R, c') = Some (hr_ptr R + 8, R'', c'')))"
proof -
  obtain B xs where "run_inv R0 (R, c) L M B xs"
    using heap_run_inv [OF assms(2), unfolded fst_conv, OF fresh_heap_inv [OF assms(1)]] by blast
  then have rep: "heap_rep c R B xs" by (simp add: run_inv_def)
  have nl: "\<not> hr_end R < hr_ptr R" using heap_repD(4) [OF rep] by (simp add: word_less_nat_alt)
  have "unat (n + 3) = unat n + 3"
    using assms(4) by (simp add: unat_word_ariths word_le_nat_alt)
  moreover have "\<not> n < 4" using assms(3) by (simp add: word_less_nat_alt word_le_nat_alt)
  ultimately have "unat (heap_round n) = unat n + 3 - (unat n + 3) mod 4"
    unfolding heap_round_def by (simp only: if_False unat_word_base)
  also have "\<dots> = 0xFFFFFFF8" using assms(3,4) unfolding word_le_nat_alt by simp presburger
  finally have ur: "unat (heap_round n) = 0xFFFFFFF8" .
  then have r: "heap_round n = 0xFFFFFFF8" by (intro unsigned_word_eqI [where 'a = nat]) simp
  have "heap_rep c R B ([] @ xs)" using rep by simp
  from freelist_walk [OF this heap_repD(7) [OF rep], of E "heap_round n"] obtain p rc where
    walk: "freelist_alloc E (heap_round n) 0 (hr_free_list R) (R, c) = Some (p, rc)"
      "p = 0 \<and> rc = (R, c) \<or>
       (\<exists>as z bs m. xs = as @ z # bs \<and> B z = Some (m, False) \<and> unat (heap_round n) \<le> m \<and> p = of_nat (z + 8) \<and>
          rc = unlinked E as z (R, c))"
    by (simp only: if_True simp_thms append_Nil) (elim exE conjE, rule that)
  have "\<not> unat (heap_round n) \<le> m" if "B z = Some (m, False)" for z m
    using block_facts(10) [OF rep that] ur by simp
  then have fl: "freelist_alloc E 0xFFFFFFF8 0 (hr_free_list R) (R, c) = Some (0, R, c)"
    using walk r by auto
  have w0: "(4294967296 :: u32) = 0" by simp
  have nz: "n \<noteq> 0" using assms(3) by auto
  have "heap_alloc E n (R, c) = Some (hr_ptr R + 8, R, c')"
    using nl nz by (simp add: heap_alloc_def Let_def fl r HEAP_HDR_SZ_def c' w0)
  moreover have "\<exists>R'' c''. heap_alloc E m (R, c') = Some (hr_ptr R + 8, R'', c'')"
    if m: "0 < m" "freelist_alloc E (heap_round m) 0 (hr_free_list R) (R, c') = Some (0, R, c')"
      "heap_round m + 8 \<le> hr_end R - hr_ptr R"
    using nl m by (simp add: heap_alloc_def Let_def HEAP_HDR_SZ_def add.commute not_less del: not_less) auto
  ultimately show ?thesis by blast
qed

section \<open>Witnesses\<close>

definition sample_heap :: stub_heap_region where
  "sample_heap = \<lparr>hr_base = 0x3FFB0100, hr_end = 0x3FFB0200, hr_ptr = 0x3FFB0100, hr_free_list = 0\<rparr>"

lemma sample_arena: "arena sample_cpu 0x3FFB0100 0x3FFB0200"
proof -
  have "ram_at 4 sample_cpu (of_nat k) = Some (Backing FLEXE_MEM_SRAM, 0x10100 + (k - 0x3FFB0100))"
    if k: "0x3FFB0100 \<le> k" "k < 0x3FFB0200" "k mod 4 = 0" for k
  proof -
    have u: "unat (of_nat k :: u32) = k" using k(2) by (simp add: unat_of_nat)
    have p: "page_of (of_nat k) = 0x3FFB0"
      using k(1,2) u by (simp add: word_unat_eq_iff unat_page_of)
    have "page_off (of_nat k) = k mod 4096" by (simp only: page_off_mod u)
    also have "\<dots> = k - 0x3FFB0000"
    proof -
      obtain i where i: "k = 0x3FFB0000 + i" "i < 4096" using k(1,2) by (auto simp: le_iff_add)
      have "(0x3FFB0 * 4096 + i) mod 4096 = i mod 4096" by (rule mod_mult_self3)
      then show ?thesis using i by simp
    qed
    finally show ?thesis using k
      by (simp add: ram_at_def sample_mem_def sample_tables_def p PAGE_SIZE_def
          host_in_def hsize_def hptr_add_def esp32_backing_size.simps Let_def) linarith
  qed
  then show ?thesis unfolding arena_def by (intro conjI exI [of _ "Backing FLEXE_MEM_SRAM"] exI [of _ "0x10100"]) auto
qed

lemma sample_fresh: "fresh_heap sample_cpu sample_heap"
  using sample_arena by (simp add: fresh_heap_def sample_heap_def)

definition sample_heap1 :: "stub_heap_region \<times> unit cpu" where
  "sample_heap1 = (sample_heap\<lparr>hr_ptr := 0x3FFB0110\<rparr>,
     mem_write32 sample_host (mem_write32 sample_host sample_cpu 0x3FFB0100 8) 0x3FFB0104 HEAP_MAGIC)"

lemma sample_malloc: "heap_alloc sample_host 5 (sample_heap, sample_cpu) = Some (0x3FFB0108, sample_heap1)"
proof -
  have "freelist_alloc sample_host 8 0 0 s = Some (0, s)" for s
    by (subst freelist_alloc.simps) simp
  then show ?thesis
    by (simp add: heap_alloc_def heap_round_def sample_heap_def sample_heap1_def HEAP_HDR_SZ_def Let_def)
qed

lemma sample_run:
  "heap_run sample_host (sample_heap, sample_cpu)
     (fst sample_heap1, mem_write32 sample_host (snd sample_heap1) (of_nat 0x3FFB0108) 7)
     [0x3FFB0108 \<mapsto> 5] [0x3FFB0108 \<mapsto> 7]"
proof -
  have "heap_run sample_host (sample_heap, sample_cpu) sample_heap1
      (if (0x3FFB0108 :: u32) = 0 then \<lambda>_. None else (\<lambda>_. None)(unat (0x3FFB0108 :: u32) \<mapsto> unat (5 :: u32))) (\<lambda>_. None)"
    by (rule run_malloc [OF run_start _ _ sample_malloc]) simp_all
  then have "heap_run sample_host (sample_heap, sample_cpu) sample_heap1 [0x3FFB0108 \<mapsto> 5] (\<lambda>_. None)" by simp
  from run_store [OF this, where p = "0x3FFB0108" and n = 5 and k = "0x3FFB0108" and v = 7] show ?thesis by simp
qed

theorem heap_blocks_safe_witness:
  "mem_read32 sample_host (mem_write32 sample_host (snd sample_heap1) (of_nat 0x3FFB0108) 7) (of_nat 0x3FFB0108)
     = (7, mem_write32 sample_host (snd sample_heap1) (of_nat 0x3FFB0108) 7)"
  using heap_blocks_safe [OF sample_fresh sample_run, THEN conjunct2, THEN conjunct2, THEN conjunct1,
      THEN spec [where x = "0x3FFB0108"], THEN spec [where x = 7]] by simp

text \<open>After the allocation and the store of \<open>sample_run\<close>, two further requests get the same block.\<close>

theorem heap_alloc_wraps_witness:
  "\<exists>c c'. heap_alloc sample_host 0xFFFFFFF6 (fst sample_heap1, c) = Some (0x3FFB0118, fst sample_heap1, c') \<and>
     (\<exists>R'' c''. heap_alloc sample_host 5 (fst sample_heap1, c') = Some (0x3FFB0118, R'', c''))"
proof -
  let ?R = "fst sample_heap1" and ?c = "mem_write32 sample_host (snd sample_heap1) (of_nat 0x3FFB0108) 7"
  have R: "hr_ptr ?R = 0x3FFB0110" "hr_end ?R = 0x3FFB0200" "hr_free_list ?R = 0"
    by (simp_all add: sample_heap1_def sample_heap_def)
  let ?d = "mem_write32 sample_host (mem_write32 sample_host ?c (hr_ptr ?R) 0xFFFFFFF8) (hr_ptr ?R + 4) HEAP_MAGIC"
  have r5: "heap_round 5 = 8" by (simp add: heap_round_def)
  have f: "freelist_alloc sample_host 8 0 0 s = Some (0, s)" for s
    by (subst freelist_alloc.simps) simp
  have "heap_alloc sample_host 0xFFFFFFF6 (?R, ?c) = Some (0x3FFB0118, ?R, ?d)"
    "\<exists>R'' c''. heap_alloc sample_host 5 (?R, ?d) = Some (0x3FFB0118, R'', c'')"
    using heap_alloc_wraps [OF sample_fresh sample_run, of "0xFFFFFFF6" ?d 5] by (simp_all add: R f r5)
  then show ?thesis by blast
qed

end
