(* ===== verification/Spec2Isabelle.thy ===== *)
theory Spec2Isabelle
  imports Interrupts Cached_Equiv Code_Coherence Window_Calls Timer_Facts Run_Facts Window_Accel Flash_Mmu
    Mpi_Facts Gdma_Chain Aes_Correct Elf_Facts Sha_Contexts Sha_Discovery Rom_Heap_Facts
begin

text \<open>
  Flexe is an emulator of the ESP32 family written in C: an Xtensa LX6/LX7 interpreter with two
  faster execution paths, the guest memory, the register-level models of the on-chip devices, and
  native replacements of ROM and SDK functions. This development models its core in HOL and proves
  the properties that make the core correct. Every definition is translated from a function, a
  structure or a table under src/src; the manifest lists the lines.

  How the parts interact. A session owns a memory and one or two processors. A processor fetches
  from memory, directly or through the predecode table it built from the same memory; its
  accesses go to RAM through page tables, or to a device through the handlers registered for a
  page. A store to a page with translated code notifies the code watchers, which drop the
  predecode entries and translations of the changed bytes. Devices raise and lower the sources of
  the interrupt matrix, which sets the interrupt lines of the processors; a processor polls its
  lines after an instruction that may unmask one, and on timer events. The DMA controller walks
  descriptors in guest memory on behalf of a device, such as the AES engine.

  Conventions. Integers have the width of the C type (\<open>u8\<close> to \<open>u64\<close>, words whose arithmetic
  wraps); loop counters and sizes that cannot overflow are natural numbers. A C pointer to an
  object that never moves is the object inside the caller's record. Function pointers and their
  contexts, the peripherals behind the MMIO handlers, the host floating-point unit, the host
  big-number library, sockets, files and the native code of the JIT are parameters: the field
  selectors \<open>h_...\<close> of \<open>host\<close>, \<open>periph_env\<close>, \<open>bn_lib\<close>, \<open>elf_env\<close>, \<open>rom_env\<close>. A parameter acts on the state the
  C function can reach. Diagnostic output, warnings and allocation failure are left out unless
  a theory says otherwise.

  Theories of the model, in the order of the calls.

  Flexe_Prelude. Word types, C operators, the rule collections and the shared lemmas.

  Target (target.h, target.c). The descriptor fields the modelled code reads, its range
  predicates, and the descriptor of the classic ESP32.

  Memory (memory.c, memory.h). \<open>xmem\<close> is \<open>struct xtensa_mem\<close>: the seven backings as byte
  functions, the load and store page tables, the MMIO table, the translated-code pages with their
  watchers, and the speculative-write journal. \<open>mem_create\<close>, \<open>mem_page_set\<close>, \<open>mem_load_rom\<close>,
  \<open>mem_code_protect\<close>, \<open>mem_register_mmio_masked_range\<close>, \<open>mem_journal_rollback\<close> and their
  neighbours keep their names.

  Cpu_State (xtensa.h, xtensa.c). \<open>cpu\<close> is \<open>struct xtensa_cpu\<close> with the memory, the target and the
  world of the devices it points to; \<open>host\<close> is the record of callbacks.

  Bus (memory.h, memory.c, \<open>xtensa_code_modified\<close>). The typed reads and writes: fast path, slow
  path, devices, journal and code notices, and the instruction fetch.

  Timers, Special_Regs, Exceptions, Predecode, Windows, Float_Unit, Exec_Registers, Exec_Qrst,
  Exec_Core, Guest_Call, Step, Cached, Run, Window_Accel (xtensa.c, guest_call.c, window_accel.c).
  The processor from its timers up to \<open>xtensa_run\<close>: \<open>xtensa_step_impl\<close> is one dispatch of
  the interpreter, \<open>xtensa_run_cached\<close> the batch runner over predecoded instructions, \<open>xtensa_run\<close>
  the runner with idle skipping, \<open>xtensa_check_interrupts\<close> the delivery of an interrupt.

  Flash_Mmu (flash_mmu.c). The table of flash pages behind its MMIO window and the remapping.

  Intr_Matrix (peripherals.c). Sources, routing and lines of the interrupt matrix.

  Gdma (gdma.c). Channels, registers and descriptor walks of the DMA controller.

  Aes_Core, Aes (aes_stubs.c). The cipher and its modes; the register device and the HAL stubs.

  Bignum, Mpi (mpi_stubs.c). Limb arithmetic; the driver stubs and the register device.

  Elf_Symbols (elf_symbols.c). The reader of ELF symbol tables and its queries; the C library's
  \<open>qsort\<close> is a parameter that gets the comparator \<open>sym_cmp\<close>.

  Sha (sha_stubs.c). The register device of both layouts, the HAL stubs and the native contexts of
  the mbedTLS functions, over a hash library that is a parameter (\<open>sha_lib\<close>, \<open>hash_lib\<close>). The
  uninitialised local array of a finish stub is a parameter (\<open>junk\<close>): a SHA-224 digest is shorter
  than the 32 bytes the stub writes.

  Firmware_Scan (firmware_scan.c). Recognition of functions in an image by the checksum of their
  bodies (\<open>zlib\<close> is a parameter) and the decoding of call and literal targets.

  Rom_Hooks, Rom_Heap (rom_stubs.c, rom_stubs.h). The table of native replacements behind the PC
  hook, with the functions themselves as a parameter (\<open>rom_env\<close>), and the firmware heap.

  Sha_Firmware (sha_stubs.c). The discovery of the mbedTLS functions in a stripped image.

  Theories of the proofs.

  Sample_States holds the concrete machines the witnesses run on. Page_Arith and Ps_Fields hold
  the arithmetic of pages and of the PS fields.

  Ram. The locale \<open>ram\<close> is the contract of a load and store of one width; its three
  interpretations are the 8, 16 and 32 bit accesses of the bus. A stored value is read back
  through every alias and leaves other bytes alone; the journal takes 4096 stores and its rollback
  restores memory byte for byte, for stores that lie inside one page.

  Bounded_Set. The locale \<open>bounded_set\<close> is the contract of an array that appends and removes by
  swapping in the last element; the breakpoints and the code watchers are its interpretations.

  Predecode_Table, Code_Pages, Code_Coherence. When the predecode table agrees with memory, that
  building it makes it agree, that fetching through it is fetching from memory, and that the page
  bookkeeping and the code notices keep the agreement under any sequence of stores through any
  alias, each inside one page as every aligned store is: no stale instruction is left. Two limits
  are theorems as well: \<open>xtensa_invalidate_code\<close> clears exactly its range, so an instruction that
  straddles the lower end stays; and a store across a page end is done behind the first page in its
  buffer, where neither the notice nor the journal follows it.

  Overlay, Cached_Agree, Cached_Qrst, Cached_Kept, Cached_Equiv. The cached runner refines the
  interpreter: each of its iterations, and so a run of any length, is that number of calls of
  \<open>xtensa_step_impl\<close>.

  Interrupts, Window_Calls, Timer_Facts, Run_Facts. An interrupt is taken at the highest
  deliverable level through the vector of that level, masks what it must and returns exactly; a
  windowed call returns to its caller with the registers of the caller; timers latch exactly when
  due, also with device hooks installed that keep the core's own state (\<open>hooks_keep_core\<close>); the
  runners return, within their budget.

  Intr_Matrix_Facts, Gdma_Facts, Gdma_Chain. The lines follow the sources whatever the guest and
  the devices do; the locale \<open>interrupt_sink\<close> states what a device expects of a sink, the
  matrix is its interpretation, and the levels the DMA controller drives into it are
  the enabled status of its channels; a transfer delivers the bytes its descriptor chain
  describes, or reports the error.

  Aes_Facts, Aes_Correct, Mpi_Facts. Decryption inverts encryption for every block mode and through
  the registers; the S-box is the one of the standard; multiplication, Montgomery
  multiplication and modular exponentiation leave the numbers they promise.

  Elf_Facts. No file makes the reader leave its buffers; a loaded table is exactly the function and
  object symbols of the file, in the order of their addresses when \<open>qsort\<close> keeps its contract
  (\<open>sorting\<close>); queries find the nearest symbol.

  Sha_Facts, Sha_Contexts. Messages interleave on the registers without disturbing each other; a
  DMA start hashes the bytes of its chain; the locale \<open>hash_family\<close> is the contract of the four
  mbedTLS calls of a hash, and its interpretations for SHA-256, SHA-1 and MD5 show that a finish
  writes the digest of what its own context was fed.

  Firmware_Scan_Facts. The scanner decodes what the interpreter executes, a fingerprint does not
  depend on where a function was linked, and a search for a unique function is exact.

  Sha_Discovery. The scan of an image finds exactly the addresses at which a whole family matches;
  an example image holds one.

  Rom_Hooks_Facts. The direct table, the hash table and the bitmap together behave as the list of
  registrations searched from its end, where an entry is visible through its direct slot or within
  the sixteen probes of a lookup.

  Rom_Heap_Facts. The heap refines an allocator over a partial map of blocks: blocks in use never
  overlap and keep what was stored in them; a request just below 2^32 wraps and takes no space.

  Bounds and fuel. The loops of \<open>xtensa_run\<close> recurse on the cycles of the budget: every iteration
  spends one or leaves, so the budget is enough fuel, which \<open>run_fuel_enough\<close> proves.
  \<open>advance_idle_loop\<close> is a partial function, since a device hook may ask for an event at the same
  instant for ever; its result for every timer state is proved without device hooks, and with hooks
  whose due events run out (\<open>hooks_progress\<close>). The descriptor
  walks of the DMA controller stop after the bound that gdma.c has, so the bound is the recursion.
  The number of limbs, the scans of windows and of interrupt lines recurse on the loop's own bound.

  Not modelled. The JIT and its emitters (jit.c): generated machine code has no meaning in this
  model, so native blocks are a parameter of the step and the theorems that count instructions
  exclude them. The command line, the session and the traces: wiring and process input and output.
  Of the native replacements of ROM functions, all but the heap, and those of FreeRTOS, wireless,
  display, storage and timer functions: they are reached through the PC hook, whose table is
  modelled, and stand on host services. The register files of the
  remaining devices: they are reached through the MMIO parameter. The loader.
  The manifest lists every file.
\<close>

end
